(* ===== verification/Prelude.thy ===== *)
theory Prelude
  imports Main "HOL-Library.Word" "HOL-Library.Code_Target_Numeral"
begin

unbundle bit_operations_syntax

text \<open>
  What every component shares: the machine integer types of the interpreter and Rust's checked,
  saturating and narrowing operations on them, little-endian byte strings, the slice operations of
  \<^verbatim>\<open>Vec\<close> (\<^verbatim>\<open>get\<close>, \<^verbatim>\<open>truncate\<close>, \<^verbatim>\<open>copy_within\<close>, \<^verbatim>\<open>copy_from_slice\<close>) and the
  state-and-error composition that stands for a \<^verbatim>\<open>&mut self\<close> method returning
  \<^verbatim>\<open>Result\<close>: the state is returned on the error branch too, so a mutation made before an early
  return is visible in the model as it is in the program.

  A \<^verbatim>\<open>usize\<close> is a \<open>nat\<close> on a 64-bit host: every operation that Rust checks is checked here
  against \<open>usize_max\<close>. Values a guest computes with (\<^verbatim>\<open>i32\<close>, \<^verbatim>\<open>i64\<close>, reference handles,
  bytes) are words.
\<close>

section \<open>Collections of facts\<close>

named_theorems monad_simps \<open>evaluation of the state-and-error composition\<close>
named_theorems codec_simps \<open>little-endian encodings and their lengths\<close>
named_theorems slice_simps \<open>lengths and contents of slices\<close>

section \<open>Machine integers\<close>

type_synonym u8 = "8 word"
type_synonym u16 = "16 word"
type_synonym u32 = "32 word"
type_synonym u64 = "64 word"
type_synonym u128 = "128 word"
type_synonym usize = nat

abbreviation usize_max :: nat where
  "usize_max \<equiv> 18446744073709551615"

abbreviation u32_max :: nat where
  "u32_max \<equiv> 4294967295"

abbreviation u64_max :: nat where
  "u64_max \<equiv> 18446744073709551615"

definition checked_add :: "nat \<Rightarrow> nat \<Rightarrow> nat \<Rightarrow> nat option" where
  "checked_add m a b = (if a + b \<le> m then Some (a + b) else None)"

definition checked_sub :: "nat \<Rightarrow> nat \<Rightarrow> nat option" where
  "checked_sub a b = (if b \<le> a then Some (a - b) else None)"

definition checked_mul :: "nat \<Rightarrow> nat \<Rightarrow> nat \<Rightarrow> nat option" where
  "checked_mul m a b = (if a * b \<le> m then Some (a * b) else None)"

definition saturating_add :: "nat \<Rightarrow> nat \<Rightarrow> nat \<Rightarrow> nat" where
  "saturating_add m a b = min (a + b) m"

definition saturating_mul :: "nat \<Rightarrow> nat \<Rightarrow> nat \<Rightarrow> nat" where
  "saturating_mul m a b = min (a * b) m"

text \<open>\<^verbatim>\<open>u32::try_from\<close> on a \<^verbatim>\<open>usize\<close>.\<close>

definition try_u32 :: "nat \<Rightarrow> nat option" where
  "try_u32 n = (if n \<le> u32_max then Some n else None)"

lemma checked_add_Some [simp]: "checked_add m a b = Some c \<longleftrightarrow> a + b \<le> m \<and> c = a + b"
  by (auto simp: checked_add_def)

lemma checked_add_None [simp]: "checked_add m a b = None \<longleftrightarrow> m < a + b"
  by (auto simp: checked_add_def)

lemma checked_sub_Some [simp]: "checked_sub a b = Some c \<longleftrightarrow> b \<le> a \<and> c = a - b"
  by (auto simp: checked_sub_def)

lemma checked_sub_None [simp]: "checked_sub a b = None \<longleftrightarrow> a < b"
  by (auto simp: checked_sub_def)

lemma checked_mul_Some [simp]: "checked_mul m a b = Some c \<longleftrightarrow> a * b \<le> m \<and> c = a * b"
  by (auto simp: checked_mul_def)

lemma checked_mul_None [simp]: "checked_mul m a b = None \<longleftrightarrow> m < a * b"
  by (auto simp: checked_mul_def)

lemma try_u32_Some [simp]: "try_u32 n = Some c \<longleftrightarrow> n \<le> u32_max \<and> c = n"
  by (auto simp: try_u32_def)

lemma try_u32_None [simp]: "try_u32 n = None \<longleftrightarrow> u32_max < n"
  by (auto simp: try_u32_def)

lemma saturating_add_eq: "a + b \<le> m \<Longrightarrow> saturating_add m a b = a + b"
  by (simp add: saturating_add_def)

lemma saturating_add_le: "saturating_add m a b \<le> a + b"
  by (simp add: saturating_add_def)

text \<open>Reading 32-bit words as naturals.\<close>

lemma unat_u32_less [simp]: "unat (w :: u32) < 4294967296"
  using unsigned_less [of w, where ?'a = nat] by simp

lemma unat_of_nat_u32: "n < 4294967296 \<Longrightarrow> unat (of_nat n :: u32) = n"
  by (simp add: unat_of_nat)

lemma unat_eq_iff [simp]: "unat a = unat b \<longleftrightarrow> a = b"
  by (simp add: word_unat_eq_iff)

lemma unat_u32_max_iff: "unat (g :: u32) = 4294967295 \<longleftrightarrow> g = 0xFFFFFFFF"
proof -
  have "unat (0xFFFFFFFF :: u32) = 4294967295" by simp
  then show ?thesis by (metis unat_eq_iff)
qed

section \<open>Little-endian bytes\<close>

text \<open>\<open>le_bytes n w\<close> is \<^verbatim>\<open>to_le_bytes\<close> cut or padded to \<open>n\<close> bytes; \<open>le_word\<close> is
  \<^verbatim>\<open>from_le_bytes\<close>.\<close>

fun le_bytes :: "nat \<Rightarrow> 'a::len word \<Rightarrow> u8 list" where
  "le_bytes 0 w = []"
| "le_bytes (Suc n) w = ucast w # le_bytes n (drop_bit 8 w)"

fun le_word :: "u8 list \<Rightarrow> 'a::len word" where
  "le_word [] = 0"
| "le_word (b # bs) = ucast b OR push_bit 8 (le_word bs)"

lemma length_le_bytes [simp, codec_simps]: "length (le_bytes n w) = n"
  by (induction n arbitrary: w) auto

lemma le_word_le_bytes_take: "le_word (le_bytes n w) = take_bit (8 * n) w"
proof (induction n arbitrary: w)
  case 0
  then show ?case by simp
next
  case (Suc n)
  show ?case
    by (rule bit_word_eqI)
      (auto simp: Suc bit_simps not_less not_le intro: bit_imp_le_length)
qed

lemma le_word_le_bytes [simp, codec_simps]:
  fixes w :: "'a::len word"
  assumes "LENGTH('a) \<le> 8 * n"
  shows "le_word (le_bytes n w) = w"
  using assms by (simp add: le_word_le_bytes_take take_bit_word_eq_self)

lemma le_bytes_le_word [codec_simps]:
  assumes "8 * length bs \<le> LENGTH('a::len)"
  shows "le_bytes (length bs) (le_word bs :: 'a word) = bs"
  using assms
proof (induction bs)
  case Nil
  then show ?case by simp
next
  case (Cons b bs)
  have hd: "ucast (le_word (b # bs) :: 'a word) = b"
    using Cons.prems by (intro bit_word_eqI) (auto simp: bit_simps)
  have "bit (le_word bs :: 'a word) k \<Longrightarrow> 8 + k < LENGTH('a)" for k
  proof -
    assume bit: "bit (le_word bs :: 'a word) k"
    have "le_word bs = (take_bit (8 * length bs) (le_word bs) :: 'a word)"
      using le_word_le_bytes_take [of "length bs" "le_word bs :: 'a word"] Cons by simp
    with bit have "k < 8 * length bs" by (metis bit_take_bit_iff)
    with Cons.prems show ?thesis by simp
  qed
  then have tl: "drop_bit 8 (le_word (b # bs) :: 'a word) = le_word bs"
    by (intro bit_word_eqI) (use bit_imp_le_length in \<open>fastforce simp: bit_simps\<close>)
  from hd tl Cons show ?case by simp
qed

section \<open>Slices\<close>

text \<open>\<^verbatim>\<open>xs.get(i)\<close>; \<^verbatim>\<open>xs.get(a..b)\<close>.\<close>

definition get_at :: "'a list \<Rightarrow> nat \<Rightarrow> 'a option" where
  "get_at xs i = (if i < length xs then Some (xs ! i) else None)"

definition get_range :: "'a list \<Rightarrow> nat \<Rightarrow> nat \<Rightarrow> 'a list option" where
  "get_range xs a b = (if a \<le> b \<and> b \<le> length xs then Some (take (b - a) (drop a xs)) else None)"

text \<open>\<open>write_at xs i ys\<close> is \<^verbatim>\<open>xs[i..i + ys.len()].copy_from_slice(ys)\<close> for a range within
  \<open>xs\<close>.\<close>

definition write_at :: "'a list \<Rightarrow> nat \<Rightarrow> 'a list \<Rightarrow> 'a list" where
  "write_at xs i ys = take i xs @ ys @ drop (i + length ys) xs"

text \<open>\<open>copy_within xs a b d\<close> is \<^verbatim>\<open>xs.copy_within(a..b, d)\<close>.\<close>

definition copy_within :: "'a list \<Rightarrow> nat \<Rightarrow> nat \<Rightarrow> nat \<Rightarrow> 'a list" where
  "copy_within xs a b d = write_at xs d (take (b - a) (drop a xs))"

lemma get_at_Some [simp]: "get_at xs i = Some x \<longleftrightarrow> i < length xs \<and> x = xs ! i"
  by (auto simp: get_at_def)

lemma get_at_None [simp]: "get_at xs i = None \<longleftrightarrow> length xs \<le> i"
  by (auto simp: get_at_def)

lemma length_write_at [simp, slice_simps]:
  "i + length ys \<le> length xs \<Longrightarrow> length (write_at xs i ys) = length xs"
  by (simp add: write_at_def)

lemma nth_write_at [slice_simps]:
  "i + length ys \<le> length xs \<Longrightarrow> k < length xs \<Longrightarrow>
     write_at xs i ys ! k = (if i \<le> k \<and> k < i + length ys then ys ! (k - i) else xs ! k)"
  by (auto simp: write_at_def nth_append min_def)

lemma read_write_at [simp, slice_simps]:
  "i + length ys \<le> length xs \<Longrightarrow> take (length ys) (drop i (write_at xs i ys)) = ys"
  by (simp add: write_at_def)

lemma take_write_at_below [slice_simps]:
  "i + length ys \<le> length xs \<Longrightarrow> j + n \<le> i \<Longrightarrow>
     take n (drop j (write_at xs i ys)) = take n (drop j xs)"
  by (rule nth_equalityI) (auto simp: nth_write_at)

lemma take_write_at_above [slice_simps]:
  "i + length ys \<le> length xs \<Longrightarrow> i + length ys \<le> j \<Longrightarrow>
     take n (drop j (write_at xs i ys)) = take n (drop j xs)"
  by (rule nth_equalityI) (auto simp: nth_write_at)

lemma length_copy_within [simp, slice_simps]:
  "a \<le> b \<Longrightarrow> b \<le> length xs \<Longrightarrow> d + (b - a) \<le> length xs \<Longrightarrow>
     length (copy_within xs a b d) = length xs"
  by (simp add: copy_within_def)

text \<open>Moving a suffix down over what lies below it and truncating behind it is the stack fix-up
  every branch and return performs.\<close>

lemma copy_within_truncate:
  assumes "d + k \<le> length xs"
  shows "take (d + k) (copy_within xs (length xs - k) (length xs) d) =
    take d xs @ drop (length xs - k) xs"
  using assms by (simp add: copy_within_def write_at_def)

section \<open>State and errors\<close>

type_synonym ('s, 'e, 'a) comp = "'s \<Rightarrow> ('e + 'a) \<times> 's"

definition ret :: "'a \<Rightarrow> ('s, 'e, 'a) comp" where
  "ret x s = (Inr x, s)"

definition fail :: "'e \<Rightarrow> ('s, 'e, 'a) comp" where
  "fail e s = (Inl e, s)"

definition bindc :: "('s, 'e, 'a) comp \<Rightarrow> ('a \<Rightarrow> ('s, 'e, 'b) comp) \<Rightarrow> ('s, 'e, 'b) comp" where
  "bindc m f s = (case m s of (Inl e, t) \<Rightarrow> (Inl e, t) | (Inr x, t) \<Rightarrow> f x t)"

definition getc :: "('s \<Rightarrow> 'a) \<Rightarrow> ('s, 'e, 'a) comp" where
  "getc f s = (Inr (f s), s)"

definition putc :: "('s \<Rightarrow> 's) \<Rightarrow> ('s, 'e, unit) comp" where
  "putc f s = (Inr (), f s)"

text \<open>\<open>lift_opt e\<close> is \<^verbatim>\<open>ok_or(e)?\<close>, \<open>lift_res\<close> is \<^verbatim>\<open>?\<close> on a pure result.\<close>

definition lift_opt :: "'e \<Rightarrow> 'a option \<Rightarrow> ('s, 'e, 'a) comp" where
  "lift_opt e x = (case x of None \<Rightarrow> fail e | Some a \<Rightarrow> ret a)"

definition lift_res :: "'e + 'a \<Rightarrow> ('s, 'e, 'a) comp" where
  "lift_res r s = (r, s)"

definition ok_or :: "'e \<Rightarrow> 'a option \<Rightarrow> 'e + 'a" where
  "ok_or e x = (case x of None \<Rightarrow> Inl e | Some a \<Rightarrow> Inr a)"

definition bindr :: "'e + 'a \<Rightarrow> ('a \<Rightarrow> 'e + 'b) \<Rightarrow> 'e + 'b" where
  "bindr r f = (case r of Inl e \<Rightarrow> Inl e | Inr x \<Rightarrow> f x)"

lemma ret_apply [simp, monad_simps]: "ret x s = (Inr x, s)"
  by (simp add: ret_def)

lemma fail_apply [simp, monad_simps]: "fail e s = (Inl e, s)"
  by (simp add: fail_def)

lemma getc_apply [simp, monad_simps]: "getc f s = (Inr (f s), s)"
  by (simp add: getc_def)

lemma putc_apply [simp, monad_simps]: "putc f s = (Inr (), f s)"
  by (simp add: putc_def)

lemma lift_opt_simps [simp, monad_simps]:
  "lift_opt e None = fail e" "lift_opt e (Some a) = ret a"
  by (simp_all add: lift_opt_def)

lemma lift_res_apply [simp, monad_simps]: "lift_res r s = (r, s)"
  by (simp add: lift_res_def)

lemma ok_or_simps [simp, monad_simps]: "ok_or e None = Inl e" "ok_or e (Some a) = Inr a"
  by (simp_all add: ok_or_def)

lemma bindr_simps [simp, monad_simps]: "bindr (Inl e) f = Inl e" "bindr (Inr x) f = f x"
  by (simp_all add: bindr_def)

lemma bindr_Inr [simp]: "bindr r f = Inr y \<longleftrightarrow> (\<exists>x. r = Inr x \<and> f x = Inr y)"
  by (cases r) auto

lemma bindc_Inl [simp, monad_simps]: "m s = (Inl e, t) \<Longrightarrow> bindc m f s = (Inl e, t)"
  by (simp add: bindc_def)

lemma bindc_Inr [simp, monad_simps]: "m s = (Inr x, t) \<Longrightarrow> bindc m f s = f x t"
  by (simp add: bindc_def)

lemma bindc_eq_Inr:
  "bindc m f s = (Inr y, u) \<longleftrightarrow> (\<exists>x t. m s = (Inr x, t) \<and> f x t = (Inr y, u))"
  by (auto simp: bindc_def split: prod.splits sum.splits)

lemma bindc_eq_Inl:
  "bindc m f s = (Inl e, u) \<longleftrightarrow>
     m s = (Inl e, u) \<or> (\<exists>x t. m s = (Inr x, t) \<and> f x t = (Inl e, u))"
  by (auto simp: bindc_def split: prod.splits sum.splits)

text \<open>An operation that leaves the state alone when it fails (checks before it mutates).\<close>

definition transactional :: "('s, 'e, 'a) comp \<Rightarrow> bool" where
  "transactional m \<longleftrightarrow> (\<forall>s e t. m s = (Inl e, t) \<longrightarrow> t = s)"

text \<open>\<open>keeps P m\<close>: \<open>m\<close> preserves \<open>P\<close> on every branch, the error branches included.\<close>

definition keeps :: "('s \<Rightarrow> bool) \<Rightarrow> ('s, 'e, 'a) comp \<Rightarrow> bool" where
  "keeps P m \<longleftrightarrow> (\<forall>s. P s \<longrightarrow> P (snd (m s)))"

lemma keepsD: "keeps P m \<Longrightarrow> P s \<Longrightarrow> P (snd (m s))"
  by (simp add: keeps_def)

lemma keeps_ret [intro]: "keeps P (ret x)"
  by (simp add: keeps_def)

lemma keeps_fail [intro]: "keeps P (fail e)"
  by (simp add: keeps_def)

lemma keeps_getc [intro]: "keeps P (getc f)"
  by (simp add: keeps_def)

lemma keeps_lift_opt [intro]: "keeps P (lift_opt e x)"
  by (cases x) (auto simp: keeps_def)

lemma keeps_lift_res [intro]: "keeps P (lift_res r)"
  by (simp add: keeps_def)

lemma keeps_bindc [intro]: "keeps P m \<Longrightarrow> (\<And>x. keeps P (f x)) \<Longrightarrow> keeps P (bindc m f)"
  unfolding keeps_def bindc_def by (force split: prod.splits sum.splits)

end
