(* ===== verification/Trap_Error.thy ===== *)
theory Trap_Error
  imports Prelude
begin

text \<open>
  The error model: trap codes (\<^verbatim>\<open>src/trap.rs\<close>), interpreter invariant failures and the error
  value that travels through \<^verbatim>\<open>Result\<close> (\<^verbatim>\<open>src/error.rs\<close>). The Rust error is an erased box
  recovered by \<^verbatim>\<open>downcast_ref\<close>; here it is the datatype of what can be recovered from it. A
  panic (an out-of-range index, an \<^verbatim>\<open>unwrap\<close> on the wrong variant, an \<^verbatim>\<open>expect\<close>) is an error
  value of its own, so that a statement that no panic happens can be made.
\<close>

datatype trap =
    StackOverflow | MemoryOutOfBounds | HeapMisaligned | TableOutOfBounds | IndirectCallToNull
  | BadSignature | IntegerOverflow | IntegerDivisionByZero | BadConversionToInteger
  | UnreachableCodeReached | Interrupt | OutOfFuel | NullReference | NullArrayReference
  | NullStructReference | NullI31Reference | CastFailure | ArrayOutOfBounds | AllocationTooLarge
  | CannotEnterComponent | NoAsyncResult

datatype internal_error =
    OperandStack string
  | FrameStack string
  | ResultShape string
  | GcMetadata string
  | Compiler string

text \<open>\<open>Pending h\<close> is the internal \<^verbatim>\<open>PendingException\<close> carrying the raw exception handle;
  \<open>GcHeapOutOfMemory n\<close> reports the bytes an allocation needed; \<open>Msg\<close> is
  \<^verbatim>\<open>Error::msg\<close>.\<close>

datatype error =
    Trapped trap
  | Internal internal_error
  | Pending u32
  | ThrownException
  | GcHeapOutOfMemory nat
  | Msg string
  | Panic string

type_synonym 'a result = "error + 'a"
type_synonym ('s, 'a) action = "('s, error, 'a) comp"

definition is_panic :: "'a result \<Rightarrow> bool" where
  "is_panic r = (case r of Inl (Panic _) \<Rightarrow> True | _ \<Rightarrow> False)"

definition is_internal :: "'a result \<Rightarrow> bool" where
  "is_internal r = (case r of Inl (Internal _) \<Rightarrow> True | _ \<Rightarrow> False)"

text \<open>\<^verbatim>\<open>xs[i]\<close>, \<^verbatim>\<open>&xs[i..]\<close> and \<^verbatim>\<open>&xs[..n]\<close>: they panic out of range.\<close>

definition index_at :: "'a list \<Rightarrow> nat \<Rightarrow> 'a result" where
  "index_at xs i = (if i < length xs then Inr (xs ! i) else Inl (Panic ''index out of bounds''))"

definition slice_from :: "'a list \<Rightarrow> nat \<Rightarrow> 'a list result" where
  "slice_from xs i = (if i \<le> length xs then Inr (drop i xs) else Inl (Panic ''slice start''))"

definition slice_to :: "'a list \<Rightarrow> nat \<Rightarrow> 'a list result" where
  "slice_to xs n = (if n \<le> length xs then Inr (take n xs) else Inl (Panic ''slice end''))"

definition slice_range :: "'a list \<Rightarrow> nat \<Rightarrow> nat \<Rightarrow> 'a list result" where
  "slice_range xs a b = (case get_range xs a b of
     None \<Rightarrow> Inl (Panic ''slice range'') | Some ys \<Rightarrow> Inr ys)"

lemma index_at_Inr [simp]: "index_at xs i = Inr x \<longleftrightarrow> i < length xs \<and> x = xs ! i"
  by (auto simp: index_at_def)

lemma slice_from_Inr [simp]: "slice_from xs i = Inr ys \<longleftrightarrow> i \<le> length xs \<and> ys = drop i xs"
  by (auto simp: slice_from_def)

lemma slice_to_Inr [simp]: "slice_to xs n = Inr ys \<longleftrightarrow> n \<le> length xs \<and> ys = take n xs"
  by (auto simp: slice_to_def)

lemma slice_range_Inr [simp]:
  "slice_range xs a b = Inr ys \<longleftrightarrow> a \<le> b \<and> b \<le> length xs \<and> ys = take (b - a) (drop a xs)"
  by (auto simp: slice_range_def get_range_def)

end
