(* ===== verification/Canon_Types.thy ===== *)
theory Canon_Types
  imports Trap_Error
begin

text \<open>
  The type language. The module IR of \<^verbatim>\<open>src/canon/mod.rs\<close> (\<^verbatim>\<open>IrHeap\<close>, \<^verbatim>\<open>IrVal\<close>,
  \<^verbatim>\<open>IrStorage\<close>, \<^verbatim>\<open>IrField\<close>, \<^verbatim>\<open>CompositeBody\<close>, \<^verbatim>\<open>ModuleType\<close>), the public boundary types of
  \<^verbatim>\<open>src/value/types.rs\<close> and \<^verbatim>\<open>src/value/gc_type.rs\<close> (\<^verbatim>\<open>HeapType\<close>, \<^verbatim>\<open>RefType\<close>, \<^verbatim>\<open>ValType\<close>,
  \<^verbatim>\<open>StorageType\<close>, \<^verbatim>\<open>FieldType\<close>) and the materialization from one to the other.

  Rust's enums share variant names; here a prefix tells them apart: \<open>Ak\<close> for \<^verbatim>\<open>AggKind\<close>,
  \<open>Ih\<close> for \<^verbatim>\<open>IrHeap\<close>, \<open>Iv\<close> for \<^verbatim>\<open>IrVal\<close>, \<open>Ht\<close> for \<^verbatim>\<open>HeapType\<close>, \<open>Vt\<close> for
  \<^verbatim>\<open>ValType\<close>. A concrete type handle of the public API (\<^verbatim>\<open>FuncType\<close>, \<^verbatim>\<open>StructType\<close>,
  \<^verbatim>\<open>ArrayType\<close>) is represented by the canonical id it holds.
\<close>

type_synonym canonical_type_id = nat
type_synonym group_id = nat

datatype agg_kind = AkFunc | AkStruct | AkArray

datatype ir_heap =
    IhFunc | IhNoFunc | IhExtern | IhNoExtern | IhAny | IhEq | IhI31 | IhStruct | IhArray
  | IhExn | IhNoExn | IhNone | IhConcrete nat agg_kind

datatype ir_val = IvI32 | IvI64 | IvF32 | IvF64 | IvV128 | IvRef bool ir_heap

datatype ir_storage = IsI8 | IsI16 | IsVal ir_val

record ir_field =
  irf_mutable :: bool
  irf_storage :: ir_storage

datatype composite_body =
    CompFunc "ir_val list" "ir_val list"
  | CompStruct "ir_field list"
  | CompArray ir_field

datatype finality = Final | NonFinal

record module_type =
  mt_group :: nat
  mt_finality :: finality
  mt_supertype :: "nat option"
  mt_body :: composite_body

definition module_type_kind :: "module_type \<Rightarrow> agg_kind" where
  "module_type_kind t = (case mt_body t of
     CompFunc _ _ \<Rightarrow> AkFunc | CompStruct _ \<Rightarrow> AkStruct | CompArray _ \<Rightarrow> AkArray)"

section \<open>Public boundary types\<close>

datatype heap_type =
    HtExtern | HtNoExtern | HtFunc | HtConcreteFunc canonical_type_id | HtNoFunc | HtAny | HtEq
  | HtI31 | HtArray | HtConcreteArray canonical_type_id | HtStruct
  | HtConcreteStruct canonical_type_id | HtExn | HtNoExn | HtNone

record ref_type =
  rt_nullable :: bool
  rt_heap :: heap_type

datatype val_type = VtI32 | VtI64 | VtF32 | VtF64 | VtV128 | VtRef ref_type

datatype mutability = MutConst | MutVar

datatype storage_type = StI8 | StI16 | StVal val_type

record field_type =
  ft_mutability :: mutability
  ft_element :: storage_type

record memory_type =
  mt_minimum :: nat
  mt_maximum :: "nat option"
  mt_memory64 :: bool

record global_type =
  gt_content :: val_type
  gt_mutability :: mutability

record table_type =
  tt_element :: ref_type
  tt_minimum :: nat
  tt_maximum :: "nat option"
  tt_table64 :: bool

text \<open>The IR of table and global types.\<close>

record ir_table_type =
  itt_nullable :: bool
  itt_heap :: ir_heap
  itt_min :: nat
  itt_max :: "nat option"
  itt_table64 :: bool

record ir_global_type =
  igt_content :: ir_val
  igt_mutable :: bool

section \<open>Matching\<close>

text \<open>The abstract lattice of three hierarchies; a concrete type matches itself, the top types of its hierarchy and nothing else.\<close>

definition heap_matches :: "heap_type \<Rightarrow> heap_type \<Rightarrow> bool" where
  "heap_matches a b \<longleftrightarrow> a = b \<or> (case (a, b) of
     (HtNoFunc, HtFunc) \<Rightarrow> True | (HtNoFunc, HtConcreteFunc _) \<Rightarrow> True | (HtConcreteFunc _, HtFunc) \<Rightarrow> True
   | (HtNoExtern, HtExtern) \<Rightarrow> True | (HtNoExn, HtExn) \<Rightarrow> True
   | (HtI31, HtAny) \<Rightarrow> True | (HtStruct, HtAny) \<Rightarrow> True | (HtArray, HtAny) \<Rightarrow> True | (HtEq, HtAny) \<Rightarrow> True
   | (HtI31, HtEq) \<Rightarrow> True | (HtStruct, HtEq) \<Rightarrow> True | (HtArray, HtEq) \<Rightarrow> True
   | (HtConcreteStruct _, HtStruct) \<Rightarrow> True | (HtConcreteStruct _, HtEq) \<Rightarrow> True | (HtConcreteStruct _, HtAny) \<Rightarrow> True
   | (HtConcreteArray _, HtArray) \<Rightarrow> True | (HtConcreteArray _, HtEq) \<Rightarrow> True | (HtConcreteArray _, HtAny) \<Rightarrow> True
   | (HtNone, HtAny) \<Rightarrow> True | (HtNone, HtEq) \<Rightarrow> True | (HtNone, HtI31) \<Rightarrow> True | (HtNone, HtStruct) \<Rightarrow> True
   | (HtNone, HtArray) \<Rightarrow> True | (HtNone, HtConcreteStruct _) \<Rightarrow> True | (HtNone, HtConcreteArray _) \<Rightarrow> True
   | _ \<Rightarrow> False)"

definition ref_matches :: "ref_type \<Rightarrow> ref_type \<Rightarrow> bool" where
  "ref_matches a b \<longleftrightarrow> (\<not> rt_nullable a \<or> rt_nullable b) \<and> heap_matches (rt_heap a) (rt_heap b)"

definition valtype_matches :: "val_type \<Rightarrow> val_type \<Rightarrow> bool" where
  "valtype_matches a b = (case (a, b) of (VtRef x, VtRef y) \<Rightarrow> ref_matches x y | _ \<Rightarrow> a = b)"

section \<open>Materialization of the module IR\<close>

text \<open>A concrete reference is looked up in the module's canonical ids (\<^verbatim>\<open>type_ids[idx]\<close>
  panics out of range).\<close>

definition materialize_heap :: "canonical_type_id list \<Rightarrow> ir_heap \<Rightarrow> heap_type result" where
  "materialize_heap ids h = (case h of
     IhFunc \<Rightarrow> Inr HtFunc | IhNoFunc \<Rightarrow> Inr HtNoFunc | IhExtern \<Rightarrow> Inr HtExtern
   | IhNoExtern \<Rightarrow> Inr HtNoExtern | IhAny \<Rightarrow> Inr HtAny | IhEq \<Rightarrow> Inr HtEq | IhI31 \<Rightarrow> Inr HtI31
   | IhStruct \<Rightarrow> Inr HtStruct | IhArray \<Rightarrow> Inr HtArray | IhExn \<Rightarrow> Inr HtExn
   | IhNoExn \<Rightarrow> Inr HtNoExn | IhNone \<Rightarrow> Inr HtNone
   | IhConcrete idx kind \<Rightarrow> bindr (index_at ids idx) (\<lambda>id. Inr (case kind of
       AkFunc \<Rightarrow> HtConcreteFunc id | AkStruct \<Rightarrow> HtConcreteStruct id
     | AkArray \<Rightarrow> HtConcreteArray id)))"

definition materialize_val :: "canonical_type_id list \<Rightarrow> ir_val \<Rightarrow> val_type result" where
  "materialize_val ids v = (case v of
     IvI32 \<Rightarrow> Inr VtI32 | IvI64 \<Rightarrow> Inr VtI64 | IvF32 \<Rightarrow> Inr VtF32 | IvF64 \<Rightarrow> Inr VtF64
   | IvV128 \<Rightarrow> Inr VtV128
   | IvRef n h \<Rightarrow> bindr (materialize_heap ids h) (\<lambda>ht. Inr (VtRef \<lparr>rt_nullable = n, rt_heap = ht\<rparr>)))"

definition materialize_global :: "canonical_type_id list \<Rightarrow> ir_global_type \<Rightarrow> global_type result" where
  "materialize_global ids g = bindr (materialize_val ids (igt_content g)) (\<lambda>t.
     Inr \<lparr>gt_content = t, gt_mutability = (if igt_mutable g then MutVar else MutConst)\<rparr>)"

text \<open>The limits of a 32-bit table are narrowed to \<^verbatim>\<open>u32\<close>.\<close>

definition materialize_table :: "canonical_type_id list \<Rightarrow> ir_table_type \<Rightarrow> table_type result" where
  "materialize_table ids t = bindr (materialize_heap ids (itt_heap t)) (\<lambda>h.
     let element = \<lparr>rt_nullable = itt_nullable t, rt_heap = h\<rparr> in
     Inr (if itt_table64 t then \<lparr>tt_element = element, tt_minimum = itt_min t, tt_maximum = itt_max t, tt_table64 = True\<rparr>
       else \<lparr>tt_element = element, tt_minimum = itt_min t mod 2 ^ 32, tt_maximum = map_option (\<lambda>m. m mod 2 ^ 32) (itt_max t),
         tt_table64 = False\<rparr>))"

end
