(* ===== verification/Layout.thy ===== *)
theory Layout
  imports Canon_Types
begin

text \<open>
  The packed byte layout of a managed object, \<^verbatim>\<open>src/canon/layout.rs\<close>: one slot per struct field
  laid out back to back, one element slot repeated at a stride for an array. The lemmas show that
  a struct's slots tile its body exactly: each lies inside the body and no two overlap. The
  collector, the field accessors and the host API all address objects through these slots.
\<close>

definition REF_WIDTH :: nat where
  "REF_WIDTH = 4"

datatype scalar_kind = SkI8 | SkI16 | SkI32 | SkI64 | SkF32 | SkF64 | SkV128

fun scalar_width :: "scalar_kind \<Rightarrow> nat" where
  "scalar_width SkI8 = 1"
| "scalar_width SkI16 = 2"
| "scalar_width SkI32 = 4"
| "scalar_width SkF32 = 4"
| "scalar_width SkI64 = 8"
| "scalar_width SkF64 = 8"
| "scalar_width SkV128 = 16"

definition is_packed :: "scalar_kind \<Rightarrow> bool" where
  "is_packed k \<longleftrightarrow> k = SkI8 \<or> k = SkI16"

datatype ref_kind = RkFunc | RkExtern | RkAny | RkExn

datatype slot =
    SlotScalar (slot_offset: nat) scalar_kind
  | SlotRef (slot_offset: nat) ref_kind

fun slot_width :: "slot \<Rightarrow> nat" where
  "slot_width (SlotScalar _ k) = scalar_width k"
| "slot_width (SlotRef _ _) = REF_WIDTH"

fun with_offset :: "slot \<Rightarrow> nat \<Rightarrow> slot" where
  "with_offset (SlotScalar _ k) n = SlotScalar n k"
| "with_offset (SlotRef _ k) n = SlotRef n k"

record struct_layout =
  sl_fields :: "slot list"
  sl_size :: nat

record array_layout =
  al_elem :: slot
  al_stride :: nat

datatype layout = LayoutStruct struct_layout | LayoutArray array_layout

section \<open>Slots of types\<close>

definition ref_kind_of_irheap :: "ir_heap \<Rightarrow> ref_kind" where
  "ref_kind_of_irheap h = (case h of
     IhFunc \<Rightarrow> RkFunc | IhNoFunc \<Rightarrow> RkFunc | IhConcrete _ AkFunc \<Rightarrow> RkFunc
   | IhExtern \<Rightarrow> RkExtern | IhNoExtern \<Rightarrow> RkExtern
   | IhExn \<Rightarrow> RkExn | IhNoExn \<Rightarrow> RkExn
   | _ \<Rightarrow> RkAny)"

definition ref_kind_of_heap :: "heap_type \<Rightarrow> ref_kind" where
  "ref_kind_of_heap h = (case h of
     HtFunc \<Rightarrow> RkFunc | HtNoFunc \<Rightarrow> RkFunc | HtConcreteFunc _ \<Rightarrow> RkFunc
   | HtExtern \<Rightarrow> RkExtern | HtNoExtern \<Rightarrow> RkExtern
   | HtExn \<Rightarrow> RkExn | HtNoExn \<Rightarrow> RkExn
   | _ \<Rightarrow> RkAny)"

definition val_slot :: "ir_val \<Rightarrow> nat \<Rightarrow> slot" where
  "val_slot v off = (case v of
     IvI32 \<Rightarrow> SlotScalar off SkI32 | IvI64 \<Rightarrow> SlotScalar off SkI64
   | IvF32 \<Rightarrow> SlotScalar off SkF32 | IvF64 \<Rightarrow> SlotScalar off SkF64
   | IvV128 \<Rightarrow> SlotScalar off SkV128
   | IvRef _ h \<Rightarrow> SlotRef off (ref_kind_of_irheap h))"

definition field_slot :: "ir_field \<Rightarrow> nat \<Rightarrow> slot" where
  "field_slot f off = (case irf_storage f of
     IsI8 \<Rightarrow> SlotScalar off SkI8 | IsI16 \<Rightarrow> SlotScalar off SkI16 | IsVal v \<Rightarrow> val_slot v off)"

definition pub_val_slot :: "val_type \<Rightarrow> nat \<Rightarrow> slot" where
  "pub_val_slot v off = (case v of
     VtI32 \<Rightarrow> SlotScalar off SkI32 | VtI64 \<Rightarrow> SlotScalar off SkI64
   | VtF32 \<Rightarrow> SlotScalar off SkF32 | VtF64 \<Rightarrow> SlotScalar off SkF64
   | VtV128 \<Rightarrow> SlotScalar off SkV128
   | VtRef rt \<Rightarrow> SlotRef off (ref_kind_of_heap (rt_heap rt)))"

definition pub_field_slot :: "field_type \<Rightarrow> nat \<Rightarrow> slot" where
  "pub_field_slot f off = (case ft_element f of
     StI8 \<Rightarrow> SlotScalar off SkI8 | StI16 \<Rightarrow> SlotScalar off SkI16 | StVal v \<Rightarrow> pub_val_slot v off)"

section \<open>Layouts of aggregates\<close>

text \<open>\<^verbatim>\<open>StructLayout::of\<close>: the running \<open>sz\<close> is the offset of the next field.\<close>

fun lay_out :: "nat \<Rightarrow> (nat \<Rightarrow> slot) list \<Rightarrow> slot list \<times> nat" where
  "lay_out sz [] = ([], sz)"
| "lay_out sz (slot_at # rest) =
     (let slot = slot_at sz; (slots, tot) = lay_out (sz + slot_width slot) rest
      in (slot # slots, tot))"

definition struct_layout_of :: "(nat \<Rightarrow> slot) list \<Rightarrow> struct_layout" where
  "struct_layout_of fs = (let (slots, tot) = lay_out 0 fs in \<lparr>sl_fields = slots, sl_size = tot\<rparr>)"

definition array_layout_of :: "slot \<Rightarrow> array_layout" where
  "array_layout_of e = \<lparr>al_elem = e, al_stride = slot_width e\<rparr>"

definition layout_from_body :: "composite_body \<Rightarrow> layout option" where
  "layout_from_body b = (case b of
     CompFunc _ _ \<Rightarrow> None
   | CompStruct fs \<Rightarrow> Some (LayoutStruct (struct_layout_of (map field_slot fs)))
   | CompArray f \<Rightarrow> Some (LayoutArray (array_layout_of (field_slot f 0))))"

definition layout_for_struct :: "field_type list \<Rightarrow> struct_layout" where
  "layout_for_struct fs = struct_layout_of (map pub_field_slot fs)"

definition layout_for_array :: "field_type \<Rightarrow> array_layout" where
  "layout_for_array f = array_layout_of (pub_field_slot f 0)"

definition struct_field_at :: "struct_layout \<Rightarrow> nat \<Rightarrow> slot option" where
  "struct_field_at l i = get_at (sl_fields l) i"

definition elem_at :: "array_layout \<Rightarrow> nat \<Rightarrow> slot" where
  "elem_at l i = with_offset (al_elem l) (i * al_stride l)"

definition body_size :: "array_layout \<Rightarrow> nat \<Rightarrow> nat" where
  "body_size l n = n * al_stride l"

section \<open>The slots tile the body\<close>

text \<open>A slot builder as the callers pass it: it places the slot where it is told.\<close>

definition places :: "(nat \<Rightarrow> slot) \<Rightarrow> bool" where
  "places f \<longleftrightarrow> (\<forall>n. slot_offset (f n) = n)"

lemma scalar_width_pos [simp]: "0 < scalar_width k"
  by (cases k) auto

lemma slot_width_pos [simp]: "0 < slot_width s"
  by (cases s) (auto simp: REF_WIDTH_def)

lemma slot_offset_with_offset [simp]: "slot_offset (with_offset s n) = n"
  by (cases s) auto

lemma slot_width_with_offset [simp]: "slot_width (with_offset s n) = slot_width s"
  by (cases s) auto

lemma slot_offset_elem_at [simp]: "slot_offset (elem_at l i) = i * al_stride l"
  by (simp add: elem_at_def)

lemma places_field_slot [simp]: "places (field_slot f)"
  by (auto simp: places_def field_slot_def val_slot_def split: ir_storage.split ir_val.split)

lemma places_pub_field_slot [simp]: "places (pub_field_slot f)"
  by (auto simp: places_def pub_field_slot_def pub_val_slot_def
      split: storage_type.split val_type.split)

definition slot_end :: "slot \<Rightarrow> nat" where
  "slot_end s = slot_offset s + slot_width s"

lemma lay_out_size: "lay_out sz fs = (slots, tot) \<Longrightarrow> tot = sz + sum_list (map slot_width slots)"
  by (induction sz fs arbitrary: slots tot rule: lay_out.induct)
    (auto simp: Let_def split: prod.splits)

lemma lay_out_offset:
  "lay_out sz fs = (slots, tot) \<Longrightarrow> \<forall>f \<in> set fs. places f \<Longrightarrow> i < length slots \<Longrightarrow>
     slot_offset (slots ! i) = sz + sum_list (map slot_width (take i slots))"
proof (induction sz fs arbitrary: slots tot i rule: lay_out.induct)
  case (1 sz)
  then show ?case by simp
next
  case (2 sz f rest)
  then show ?case
    by (cases i) (fastforce simp: Let_def places_def split: prod.splits)+
qed

lemma length_lay_out: "lay_out sz fs = (slots, tot) \<Longrightarrow> length slots = length fs"
  by (induction sz fs arbitrary: slots tot rule: lay_out.induct)
    (auto simp: Let_def split: prod.splits)

lemma sum_widths_mono:
  fixes ws :: "nat list"
  shows "i \<le> j \<Longrightarrow> sum_list (take i ws) \<le> sum_list (take j ws)"
  by (metis le_add1 le_iff_add sum_list_append take_add)

lemma sum_take_Suc:
  fixes ws :: "nat list"
  shows "i < length ws \<Longrightarrow> sum_list (take (Suc i) ws) = sum_list (take i ws) + ws ! i"
  by (simp add: take_Suc_conv_app_nth)

lemma struct_layout_length:
  "length (sl_fields (struct_layout_of fs)) = length fs"
  by (auto simp: struct_layout_of_def split: prod.splits dest: length_lay_out)

lemma struct_slot_end:
  assumes "\<forall>f \<in> set fs. places f" and "i < length fs"
  shows "slot_end (sl_fields (struct_layout_of fs) ! i) =
    sum_list (map slot_width (take (Suc i) (sl_fields (struct_layout_of fs))))"
proof -
  obtain slots tot where l: "lay_out 0 fs = (slots, tot)" by (cases "lay_out 0 fs")
  have len: "i < length slots" using length_lay_out [OF l] assms(2) by simp
  have "slot_offset (slots ! i) = sum_list (map slot_width (take i slots))"
    using lay_out_offset [OF l assms(1) len] by simp
  with len l show ?thesis
    by (simp add: struct_layout_of_def slot_end_def take_Suc_conv_app_nth)
qed

lemma struct_slots_within:
  assumes "\<forall>f \<in> set fs. places f" and "i < length fs"
  shows "slot_end (sl_fields (struct_layout_of fs) ! i) \<le> sl_size (struct_layout_of fs)"
proof -
  obtain slots tot where l: "lay_out 0 fs = (slots, tot)" by (cases "lay_out 0 fs")
  have "sum_list (take (Suc i) (map slot_width slots)) \<le> sum_list (map slot_width slots)"
    using sum_widths_mono [of "Suc i" "length slots" "map slot_width slots"] length_lay_out [OF l] assms(2)
    by simp
  with struct_slot_end [OF assms] lay_out_size [OF l] show ?thesis
    by (simp add: struct_layout_of_def l take_map)
qed

lemma struct_slots_disjoint:
  assumes "\<forall>f \<in> set fs. places f" and "i < j" and "j < length fs"
  shows "slot_end (sl_fields (struct_layout_of fs) ! i) \<le> slot_offset (sl_fields (struct_layout_of fs) ! j)"
proof -
  obtain slots tot where l: "lay_out 0 fs = (slots, tot)" by (cases "lay_out 0 fs")
  have "slot_offset (slots ! j) = sum_list (map slot_width (take j slots))"
    using lay_out_offset [OF l assms(1)] length_lay_out [OF l] assms(3) by simp
  moreover have "sum_list (take (Suc i) (map slot_width slots)) \<le> sum_list (take j (map slot_width slots))"
    using assms(2) by (intro sum_widths_mono) simp
  ultimately show ?thesis
    using struct_slot_end [OF assms(1), of i] assms
    by (simp add: struct_layout_of_def l take_map)
qed

lemma elem_slot_within:
  assumes "al = array_layout_of e" and "i < n"
  shows "slot_end (elem_at al i) \<le> body_size al n"
proof -
  have "Suc i * slot_width e \<le> n * slot_width e"
    using assms(2) by (intro mult_le_mono1) simp
  with assms(1) show ?thesis
    by (simp add: slot_end_def elem_at_def body_size_def array_layout_of_def)
qed

lemma elem_slots_disjoint:
  assumes "al = array_layout_of e" and "i < j"
  shows "slot_end (elem_at al i) \<le> slot_offset (elem_at al j)"
proof -
  have "Suc i * slot_width e \<le> j * slot_width e"
    using assms(2) by (intro mult_le_mono1) simp
  with assms(1) show ?thesis
    by (simp add: slot_end_def elem_at_def array_layout_of_def)
qed

end
