(* ===== verification/Canon_Keys.thy ===== *)
theory Canon_Keys
  imports Layout
begin

text \<open>
  The canonical, position-independent type form of \<^verbatim>\<open>src/canon/keys.rs\<close>: the hash-cons key of a
  recursion group, the conversions into it from the module IR and from public types, the
  resolution of group-relative references, and the cross-group edges of a key
  (\<^verbatim>\<open>edge_canon_ids\<close> of \<^verbatim>\<open>src/canon/registry.rs\<close>).
\<close>

datatype canon_ref = Rel nat | Canon canonical_type_id

datatype cheap = CAbs nat | CConcrete agg_kind canon_ref

datatype cval = CNum nat | CRef bool cheap

datatype cstore = CPacked nat | CStoreVal cval

record cfield =
  cf_mutable :: bool
  cf_storage :: cstore

datatype cbody = CFunc "cval list" "cval list" | CStruct "cfield list" | CArray cfield

record ctype =
  cty_finality :: finality
  cty_supertype :: "canon_ref option"
  cty_body :: cbody

type_synonym cgroup = "ctype list"

section \<open>Module IR to keys\<close>

text \<open>The codes of the abstract heap types; the concrete case is handled before and unreachable
  here in the source.\<close>

definition ir_abs_code :: "ir_heap \<Rightarrow> nat" where
  "ir_abs_code h = (case h of
     IhFunc \<Rightarrow> 0 | IhNoFunc \<Rightarrow> 1 | IhExtern \<Rightarrow> 2 | IhNoExtern \<Rightarrow> 3 | IhAny \<Rightarrow> 4 | IhEq \<Rightarrow> 5
   | IhI31 \<Rightarrow> 6 | IhStruct \<Rightarrow> 7 | IhArray \<Rightarrow> 8 | IhExn \<Rightarrow> 9 | IhNoExn \<Rightarrow> 10 | IhNone \<Rightarrow> 11
   | IhConcrete _ _ \<Rightarrow> 11)"

definition heap_key :: "(nat \<Rightarrow> canon_ref) \<Rightarrow> ir_heap \<Rightarrow> cheap" where
  "heap_key cref h = (case h of
     IhConcrete tid kind \<Rightarrow> CConcrete kind (cref tid) | _ \<Rightarrow> CAbs (ir_abs_code h))"

definition val_key :: "(nat \<Rightarrow> canon_ref) \<Rightarrow> ir_val \<Rightarrow> cval" where
  "val_key cref v = (case v of
     IvI32 \<Rightarrow> CNum 0 | IvI64 \<Rightarrow> CNum 1 | IvF32 \<Rightarrow> CNum 2 | IvF64 \<Rightarrow> CNum 3 | IvV128 \<Rightarrow> CNum 4
   | IvRef n h \<Rightarrow> CRef n (heap_key cref h))"

definition field_key :: "(nat \<Rightarrow> canon_ref) \<Rightarrow> ir_field \<Rightarrow> cfield" where
  "field_key cref f = \<lparr>cf_mutable = irf_mutable f, cf_storage = (case irf_storage f of
     IsI8 \<Rightarrow> CPacked 0 | IsI16 \<Rightarrow> CPacked 1 | IsVal v \<Rightarrow> CStoreVal (val_key cref v))\<rparr>"

definition body_key :: "(nat \<Rightarrow> canon_ref) \<Rightarrow> composite_body \<Rightarrow> cbody" where
  "body_key cref b = (case b of
     CompFunc ps rs \<Rightarrow> CFunc (map (val_key cref) ps) (map (val_key cref) rs)
   | CompStruct fs \<Rightarrow> CStruct (map (field_key cref) fs)
   | CompArray f \<Rightarrow> CArray (field_key cref f))"

section \<open>Public types to bodies\<close>

definition abs_code :: "heap_type \<Rightarrow> nat" where
  "abs_code h = (case h of
     HtFunc \<Rightarrow> 0 | HtNoFunc \<Rightarrow> 1 | HtExtern \<Rightarrow> 2 | HtNoExtern \<Rightarrow> 3 | HtAny \<Rightarrow> 4 | HtEq \<Rightarrow> 5
   | HtI31 \<Rightarrow> 6 | HtStruct \<Rightarrow> 7 | HtArray \<Rightarrow> 8 | HtExn \<Rightarrow> 9 | HtNoExn \<Rightarrow> 10 | _ \<Rightarrow> 11)"

definition abs_decode :: "nat \<Rightarrow> heap_type" where
  "abs_decode c = (if c = 0 then HtFunc else if c = 1 then HtNoFunc else if c = 2 then HtExtern
     else if c = 3 then HtNoExtern else if c = 4 then HtAny else if c = 5 then HtEq
     else if c = 6 then HtI31 else if c = 7 then HtStruct else if c = 8 then HtArray
     else if c = 9 then HtExn else if c = 10 then HtNoExn else HtNone)"

definition num_decode :: "nat \<Rightarrow> val_type" where
  "num_decode c = (if c = 0 then VtI32 else if c = 1 then VtI64 else if c = 2 then VtF32
     else if c = 3 then VtF64 else VtV128)"

definition pub_heap :: "heap_type \<Rightarrow> cheap" where
  "pub_heap h = (case h of
     HtConcreteFunc tid \<Rightarrow> CConcrete AkFunc (Canon tid)
   | HtConcreteStruct tid \<Rightarrow> CConcrete AkStruct (Canon tid)
   | HtConcreteArray tid \<Rightarrow> CConcrete AkArray (Canon tid)
   | _ \<Rightarrow> CAbs (abs_code h))"

definition pub_val :: "val_type \<Rightarrow> cval" where
  "pub_val v = (case v of
     VtI32 \<Rightarrow> CNum 0 | VtI64 \<Rightarrow> CNum 1 | VtF32 \<Rightarrow> CNum 2 | VtF64 \<Rightarrow> CNum 3 | VtV128 \<Rightarrow> CNum 4
   | VtRef rt \<Rightarrow> CRef (rt_nullable rt) (pub_heap (rt_heap rt)))"

definition pub_field :: "field_type \<Rightarrow> cfield" where
  "pub_field f = \<lparr>cf_mutable = (ft_mutability f = MutVar), cf_storage = (case ft_element f of
     StI8 \<Rightarrow> CPacked 0 | StI16 \<Rightarrow> CPacked 1 | StVal v \<Rightarrow> CStoreVal (pub_val v))\<rparr>"

definition func_body :: "val_type list \<Rightarrow> val_type list \<Rightarrow> cbody" where
  "func_body ps rs = CFunc (map pub_val ps) (map pub_val rs)"

definition struct_body :: "field_type list \<Rightarrow> cbody" where
  "struct_body fs = CStruct (map pub_field fs)"

definition array_body :: "field_type \<Rightarrow> cbody" where
  "array_body f = CArray (pub_field f)"

section \<open>Materialization (\<^verbatim>\<open>src/canon/materialize.rs\<close>)\<close>

text \<open>A stored body holds absolute ids only; a relative reference is unreachable there.\<close>

definition mat_heap :: "cheap \<Rightarrow> heap_type result" where
  "mat_heap h = (case h of
     CAbs c \<Rightarrow> Inr (abs_decode c)
   | CConcrete kind (Canon tid) \<Rightarrow> Inr (case kind of
       AkFunc \<Rightarrow> HtConcreteFunc tid | AkStruct \<Rightarrow> HtConcreteStruct tid | AkArray \<Rightarrow> HtConcreteArray tid)
   | CConcrete _ (Rel _) \<Rightarrow> Inl (Panic ''stored bodies use absolute ids''))"

definition mat_val :: "cval \<Rightarrow> val_type result" where
  "mat_val v = (case v of
     CNum c \<Rightarrow> Inr (num_decode c)
   | CRef n h \<Rightarrow> bindr (mat_heap h) (\<lambda>ht. Inr (VtRef \<lparr>rt_nullable = n, rt_heap = ht\<rparr>)))"

definition mat_field :: "cfield \<Rightarrow> field_type result" where
  "mat_field f = bindr
     (case cf_storage f of
        CPacked c \<Rightarrow> Inr (if c = 0 then StI8 else StI16)
      | CStoreVal v \<Rightarrow> bindr (mat_val v) (\<lambda>t. Inr (StVal t)))
     (\<lambda>st. Inr \<lparr>ft_mutability = (if cf_mutable f then MutVar else MutConst), ft_element = st\<rparr>)"

section \<open>Resolution\<close>

text \<open>\<^verbatim>\<open>members[p]\<close> panics out of range; keys built by the registry refer to their own members
  only, so a default is never used.\<close>

definition resolve :: "canonical_type_id list \<Rightarrow> canon_ref \<Rightarrow> canonical_type_id" where
  "resolve members r = (case r of Rel p \<Rightarrow> members ! p | Canon c \<Rightarrow> c)"

definition resolve_val :: "canonical_type_id list \<Rightarrow> cval \<Rightarrow> cval" where
  "resolve_val members v = (case v of
     CRef n (CConcrete k r) \<Rightarrow> CRef n (CConcrete k (Canon (resolve members r))) | _ \<Rightarrow> v)"

definition resolve_field :: "canonical_type_id list \<Rightarrow> cfield \<Rightarrow> cfield" where
  "resolve_field members f = f\<lparr>cf_storage := (case cf_storage f of
     CStoreVal v \<Rightarrow> CStoreVal (resolve_val members v) | CPacked c \<Rightarrow> CPacked c)\<rparr>"

definition resolve_body :: "canonical_type_id list \<Rightarrow> cbody \<Rightarrow> cbody" where
  "resolve_body members b = (case b of
     CFunc ps rs \<Rightarrow> CFunc (map (resolve_val members) ps) (map (resolve_val members) rs)
   | CStruct fs \<Rightarrow> CStruct (map (resolve_field members) fs)
   | CArray f \<Rightarrow> CArray (resolve_field members f))"

definition body_kind :: "cbody \<Rightarrow> agg_kind" where
  "body_kind b = (case b of CFunc _ _ \<Rightarrow> AkFunc | CStruct _ \<Rightarrow> AkStruct | CArray _ \<Rightarrow> AkArray)"

section \<open>Cross-group edges\<close>

definition val_canon_ids :: "cval \<Rightarrow> canonical_type_id list" where
  "val_canon_ids v = (case v of CRef _ (CConcrete _ (Canon tid)) \<Rightarrow> [tid] | _ \<Rightarrow> [])"

definition field_canon_ids :: "cfield \<Rightarrow> canonical_type_id list" where
  "field_canon_ids f = (case cf_storage f of CStoreVal v \<Rightarrow> val_canon_ids v | CPacked _ \<Rightarrow> [])"

definition body_canon_ids :: "cbody \<Rightarrow> canonical_type_id list" where
  "body_canon_ids b = (case b of
     CFunc ps rs \<Rightarrow> concat (map val_canon_ids (ps @ rs))
   | CStruct fs \<Rightarrow> concat (map field_canon_ids fs)
   | CArray f \<Rightarrow> field_canon_ids f)"

definition type_canon_ids :: "ctype \<Rightarrow> canonical_type_id list" where
  "type_canon_ids ct =
     (case cty_supertype ct of Some (Canon tid) \<Rightarrow> [tid] | _ \<Rightarrow> []) @ body_canon_ids (cty_body ct)"

definition edge_canon_ids :: "cgroup \<Rightarrow> canonical_type_id list" where
  "edge_canon_ids key = concat (map type_canon_ids key)"

section \<open>Round trips\<close>

text \<open>Materializing the canonical form of a public type gives the type back.\<close>

lemma num_decode_pub: "pub_val v = CNum c \<Longrightarrow> num_decode c = v"
  by (cases v) (auto simp: pub_val_def num_decode_def)

lemma mat_heap_pub: "mat_heap (pub_heap h) = Inr h"
  by (cases h) (auto simp: pub_heap_def mat_heap_def abs_code_def abs_decode_def)

lemma mat_val_pub: "mat_val (pub_val v) = Inr v"
  by (cases v) (auto simp: pub_val_def mat_val_def num_decode_def mat_heap_pub)

lemma mat_field_pub: "mat_field (pub_field f) = Inr f"
  by (cases "ft_element f"; cases "ft_mutability f")
    (auto simp: pub_field_def mat_field_def mat_val_pub)

text \<open>A resolved body holds absolute references only and is left alone by further resolution.\<close>

lemma resolve_val_idem: "resolve_val ns (resolve_val ms v) = resolve_val ms v"
  by (auto simp: resolve_val_def resolve_def split: cval.split cheap.split)

lemma mat_resolve_val: "\<exists>t. mat_val (resolve_val ms v) = Inr t"
  by (auto simp: resolve_val_def mat_val_def mat_heap_def split: cval.split cheap.split)

lemma mat_resolve_field: "\<exists>t. mat_field (resolve_field ms f) = Inr t"
  using mat_resolve_val by (cases "cf_storage f") (fastforce simp: resolve_field_def mat_field_def)+

end
