(* ===== verification/Registry.thy ===== *)
theory Registry
  imports Canon_Keys "HOL-Library.AList"
begin

text \<open>
  The engine's canonical type registry, \<^verbatim>\<open>src/canon/registry.rs\<close>: hash-consing of whole
  recursion groups, one reference count per group with a cascading release, and the subtype walk.
  The \<^verbatim>\<open>HashMap\<close> of interned keys is an association list, a panic (\<^verbatim>\<open>expect\<close>, an index out of
  range) is the error \<open>Panic\<close>, reference counts are \<^verbatim>\<open>u32\<close> with the checked operations of the
  source and new ids are truncated to 32 bits as \<^verbatim>\<open>as u32\<close> does.
\<close>

record canon_type =
  ct_kind :: agg_kind
  ct_finality :: finality
  ct_supertype :: "canonical_type_id option"
  ct_body :: cbody

record group_record =
  gr_key :: cgroup
  gr_members :: "canonical_type_id list"
  gr_refcount :: nat

record type_registry =
  tr_types :: "canon_type option list"
  tr_type_to_group :: "group_id option list"
  tr_free_types :: "canonical_type_id list"
  tr_groups :: "group_record option list"
  tr_free_groups :: "group_id list"
  tr_interned :: "(cgroup \<times> group_id) list"

definition empty_registry :: type_registry where
  "empty_registry = \<lparr>tr_types = [], tr_type_to_group = [], tr_free_types = [], tr_groups = [],
     tr_free_groups = [], tr_interned = []\<rparr>"

section \<open>Slots\<close>

text \<open>\<^verbatim>\<open>free_groups.pop().unwrap_or_else(..)\<close>.\<close>

definition take_group_slot :: "(type_registry, group_id) action" where
  "take_group_slot r = (case tr_free_groups r of
     [] \<Rightarrow> (Inr (length (tr_groups r) mod 2 ^ 32), r\<lparr>tr_groups := tr_groups r @ [None]\<rparr>)
   | fs \<Rightarrow> (Inr (last fs), r\<lparr>tr_free_groups := butlast fs\<rparr>))"

definition take_type_slot :: "(type_registry, canonical_type_id) action" where
  "take_type_slot r = (case tr_free_types r of
     [] \<Rightarrow> (Inr (length (tr_types r) mod 2 ^ 32), r\<lparr>tr_types := tr_types r @ [None],
             tr_type_to_group := tr_type_to_group r @ [None]\<rparr>)
   | fs \<Rightarrow> (Inr (last fs), r\<lparr>tr_free_types := butlast fs\<rparr>))"

primrec take_type_slots :: "nat \<Rightarrow> (type_registry, canonical_type_id list) action" where
  "take_type_slots 0 = ret []"
| "take_type_slots (Suc n) =
     bindc take_type_slot (\<lambda>t. bindc (take_type_slots n) (\<lambda>ts. ret (t # ts)))"

text \<open>The two parallel assignments \<^verbatim>\<open>self.types[m] = ty\<close> and \<^verbatim>\<open>self.type_to_group[m] = og\<close>.\<close>

definition set_type :: "canonical_type_id \<Rightarrow> canon_type option \<Rightarrow> group_id option \<Rightarrow>
    (type_registry, unit) action" where
  "set_type m ty og r =
     (if m < length (tr_types r) \<and> m < length (tr_type_to_group r)
      then (Inr (), r\<lparr>tr_types := (tr_types r)[m := ty],
              tr_type_to_group := (tr_type_to_group r)[m := og]\<rparr>)
      else (Inl (Panic ''index out of bounds''), r))"

definition canon_of :: "canonical_type_id list \<Rightarrow> ctype \<Rightarrow> canon_type" where
  "canon_of members ct = \<lparr>ct_kind = body_kind (cty_body ct), ct_finality = cty_finality ct,
     ct_supertype = map_option (resolve members) (cty_supertype ct),
     ct_body = resolve_body members (cty_body ct)\<rparr>"

fun store_members :: "group_id \<Rightarrow> canonical_type_id list \<Rightarrow> nat \<Rightarrow> ctype list \<Rightarrow>
    (type_registry, unit) action" where
  "store_members g members pos [] = ret ()"
| "store_members g members pos (ct # cts) =
     bindc (lift_res (index_at members pos)) (\<lambda>m.
     bindc (set_type m (Some (canon_of members ct)) (Some g)) (\<lambda>_.
     store_members g members (Suc pos) cts))"

section \<open>Reference counts\<close>

definition live_group :: "type_registry \<Rightarrow> group_id \<Rightarrow> group_record option" where
  "live_group r g = Option.bind (get_at (tr_groups r) g) (\<lambda>x. x)"

definition incref_group :: "group_id \<Rightarrow> (type_registry, unit) action" where
  "incref_group g r = (case live_group r g of
     None \<Rightarrow> (Inl (Panic ''type owner must reference a live group''), r)
   | Some rec \<Rightarrow> (case checked_add u32_max (gr_refcount rec) 1 of
       None \<Rightarrow> (Inl (Panic ''type group reference count overflow''), r)
     | Some n \<Rightarrow> (Inr (), r\<lparr>tr_groups := (tr_groups r)[g := Some (rec\<lparr>gr_refcount := n\<rparr>)]\<rparr>)))"

fun incref_edges :: "canonical_type_id list \<Rightarrow> (type_registry, unit) action" where
  "incref_edges [] = ret ()"
| "incref_edges (tid # ids) =
     bindc (getc tr_type_to_group) (\<lambda>ttg.
     bindc (lift_res (index_at ttg tid)) (\<lambda>og.
     bindc (case og of None \<Rightarrow> ret () | Some g \<Rightarrow> incref_group g) (\<lambda>_.
     incref_edges ids)))"

definition intern_group :: "cgroup \<Rightarrow> nat \<Rightarrow> (type_registry, group_id) action" where
  "intern_group key len r = (case map_of (tr_interned r) key of
     Some g \<Rightarrow> bindc (incref_group g) (\<lambda>_. ret g) r
   | None \<Rightarrow>
       bindc take_group_slot (\<lambda>g.
       bindc (take_type_slots len) (\<lambda>members.
       bindc (store_members g members 0 key) (\<lambda>_.
       bindc (incref_edges (edge_canon_ids key)) (\<lambda>_.
       bindc (putc (\<lambda>r. r\<lparr>
           tr_groups := (tr_groups r)[g := Some \<lparr>gr_key = key, gr_members = members, gr_refcount = 1\<rparr>],
           tr_interned := AList.update key g (tr_interned r)\<rparr>)) (\<lambda>_.
       ret g))))) r)"

text \<open>The groups the cascade pushes: the owners of the edge ids that are still live.\<close>

fun edge_owners :: "group_id option list \<Rightarrow> canonical_type_id list \<Rightarrow> group_id list result" where
  "edge_owners ttg [] = Inr []"
| "edge_owners ttg (tid # ids) =
     bindr (index_at ttg tid) (\<lambda>og.
     bindr (edge_owners ttg ids) (\<lambda>gs.
     Inr (case og of None \<Rightarrow> gs | Some g \<Rightarrow> g # gs)))"

fun free_members :: "canonical_type_id list \<Rightarrow> (type_registry, unit) action" where
  "free_members [] = ret ()"
| "free_members (m # ms) =
     bindc (set_type m None None) (\<lambda>_.
     bindc (putc (\<lambda>r. r\<lparr>tr_free_types := tr_free_types r @ [m]\<rparr>)) (\<lambda>_.
     free_members ms))"

text \<open>Taking the dead group out: what follows \<^verbatim>\<open>self.groups[g.index()].take()\<close>.\<close>

definition reclaim_group :: "group_id \<Rightarrow> group_record \<Rightarrow> (type_registry, group_id list) action" where
  "reclaim_group g rec =
     bindc (putc (\<lambda>r. r\<lparr>tr_groups := (tr_groups r)[g := None],
        tr_interned := AList.delete (gr_key rec) (tr_interned r)\<rparr>)) (\<lambda>_.
     bindc (getc tr_type_to_group) (\<lambda>ttg.
     bindc (lift_res (edge_owners ttg (edge_canon_ids (gr_key rec)))) (\<lambda>gs.
     bindc (free_members (gr_members rec)) (\<lambda>_.
     bindc (putc (\<lambda>r. r\<lparr>tr_free_groups := tr_free_groups r @ [g]\<rparr>)) (\<lambda>_.
     ret gs)))))"

text \<open>One turn of the worklist: it returns what the turn pushes.\<close>

definition decref_one :: "group_id \<Rightarrow> (type_registry, group_id list) action" where
  "decref_one g r = (case live_group r g of
     None \<Rightarrow> (Inl (Panic ''type owner must release a live group''), r)
   | Some rec \<Rightarrow> (case checked_sub (gr_refcount rec) 1 of
       None \<Rightarrow> (Inl (Panic ''type group reference count underflow''), r)
     | Some n \<Rightarrow>
         (let rec' = rec\<lparr>gr_refcount := n\<rparr>; r' = r\<lparr>tr_groups := (tr_groups r)[g := Some rec']\<rparr>
          in if n > 0 then (Inr [], r') else reclaim_group g rec' r')))"

definition total_refcount :: "type_registry \<Rightarrow> nat" where
  "total_refcount r =
     sum_list (map (\<lambda>x. case x of None \<Rightarrow> 0 | Some rec \<Rightarrow> gr_refcount rec) (tr_groups r))"

lemma set_type_groups: "set_type m ty og r = (x, r') \<Longrightarrow> tr_groups r' = tr_groups r"
  by (auto simp: set_type_def split: if_splits)

lemma free_members_groups: "free_members ms r = (x, r') \<Longrightarrow> tr_groups r' = tr_groups r"
proof (induction ms arbitrary: r)
  case (Cons m ms)
  obtain y s where s: "set_type m None None r = (y, s)" by fastforce
  show ?case
    using Cons.prems Cons.IH [of "s\<lparr>tr_free_types := tr_free_types s @ [m]\<rparr>"] set_type_groups [OF s] s
    by (cases y) (auto simp: bindc_def)
qed simp

lemma reclaim_group_groups:
  "reclaim_group g rec r = (Inr gs, r') \<Longrightarrow> tr_groups r' = (tr_groups r)[g := None]"
  by (auto simp: reclaim_group_def bindc_eq_Inr dest: free_members_groups)

lemma sum_list_update_less:
  fixes f :: "'a \<Rightarrow> nat"
  assumes "i < length xs" and "f y < f (xs ! i)"
  shows "sum_list (map f (xs[i := y])) < sum_list (map f xs)"
  using assms
proof (induction xs arbitrary: i)
  case (Cons x xs)
  then show ?case by (cases i) auto
qed simp

lemma live_group_Some:
  "live_group r g = Some rec \<longleftrightarrow> g < length (tr_groups r) \<and> tr_groups r ! g = Some rec"
  by (auto simp: live_group_def get_at_def split: Option.bind_splits)

lemma decref_one_decreases:
  assumes "decref_one g r = (Inr gs, r')"
  shows "total_refcount r' < total_refcount r"
proof -
  from assms obtain rec where rec: "live_group r g = Some rec" and pos: "0 < gr_refcount rec"
    by (auto simp: decref_one_def split: option.splits)
  let ?rec = "rec\<lparr>gr_refcount := gr_refcount rec - 1\<rparr>"
  have "tr_groups r' = (tr_groups r)[g := if 0 < gr_refcount rec - 1 then Some ?rec else None]"
    using assms rec pos
    by (auto simp: decref_one_def checked_sub_def Let_def dest: reclaim_group_groups split: if_splits)
  then show ?thesis
    using rec pos unfolding total_refcount_def
    by (auto simp: live_group_Some intro!: sum_list_update_less)
qed

text \<open>The worklist of \<^verbatim>\<open>decref_group\<close>, popped at its end. Each turn that does not panic takes one
  registration away, so the loop ends.\<close>

function decref_loop :: "group_id list \<Rightarrow> (type_registry, unit) action" where
  "decref_loop stack r =
     (if stack = [] then (Inr (), r)
      else case decref_one (last stack) r of
        (Inl e, r') \<Rightarrow> (Inl e, r')
      | (Inr gs, r') \<Rightarrow> decref_loop (butlast stack @ gs) r')"
  by pat_completeness auto
termination
  by (relation "measure (total_refcount \<circ> snd)") (auto dest: decref_one_decreases [OF sym])

declare decref_loop.simps [simp del]

definition decref_group :: "group_id \<Rightarrow> (type_registry, unit) action" where
  "decref_group g = decref_loop [g]"

fun release :: "group_id list \<Rightarrow> (type_registry, unit) action" where
  "release [] = ret ()"
| "release (g # gs) = bindc (decref_group g) (\<lambda>_. release gs)"

definition group_of :: "type_registry \<Rightarrow> canonical_type_id \<Rightarrow> group_id option" where
  "group_of r tid = Option.bind (get_at (tr_type_to_group r) tid) (\<lambda>x. x)"

definition incref_type :: "canonical_type_id \<Rightarrow> (type_registry, unit) action" where
  "incref_type tid r = (case group_of r tid of
     None \<Rightarrow> (Inl (Panic ''type handle must reference a live canonical type''), r)
   | Some g \<Rightarrow> incref_group g r)"

definition decref_type :: "canonical_type_id \<Rightarrow> (type_registry, unit) action" where
  "decref_type tid r = (case group_of r tid of
     None \<Rightarrow> (Inl (Panic ''type handle must reference a live canonical type''), r)
   | Some g \<Rightarrow> decref_group g r)"

section \<open>Interning\<close>

text \<open>\<open>members_of\<close> is \<^verbatim>\<open>self.groups[g].as_ref().expect(..).members\<close>.\<close>

definition members_of :: "group_id \<Rightarrow> (type_registry, canonical_type_id list) action" where
  "members_of g r = (case live_group r g of
     None \<Rightarrow> (Inl (Panic ''just interned''), r) | Some rec \<Rightarrow> (Inr (gr_members rec), r))"

definition intern_one :: "finality \<Rightarrow> canonical_type_id option \<Rightarrow> cbody \<Rightarrow>
    (type_registry, canonical_type_id \<times> group_id) action" where
  "intern_one fin supt body =
     bindc (intern_group [\<lparr>cty_finality = fin, cty_supertype = map_option Canon supt, cty_body = body\<rparr>] 1)
       (\<lambda>g. bindc (members_of g) (\<lambda>ms. bindc (lift_res (index_at ms 0)) (\<lambda>m. ret (m, g))))"

definition intern_func :: "val_type list \<Rightarrow> val_type list \<Rightarrow>
    (type_registry, canonical_type_id \<times> group_id) action" where
  "intern_func ps rs = intern_one Final None (func_body ps rs)"

definition intern_struct :: "finality \<Rightarrow> canonical_type_id option \<Rightarrow> field_type list \<Rightarrow>
    (type_registry, canonical_type_id \<times> group_id) action" where
  "intern_struct fin supt flds = intern_one fin supt (struct_body flds)"

definition intern_array :: "finality \<Rightarrow> canonical_type_id option \<Rightarrow> field_type \<Rightarrow>
    (type_registry, canonical_type_id \<times> group_id) action" where
  "intern_array fin supt field = intern_one fin supt (array_body field)"

definition ctype_of :: "(nat \<Rightarrow> canon_ref) \<Rightarrow> module_type \<Rightarrow> ctype" where
  "ctype_of cref t = \<lparr>cty_finality = mt_finality t, cty_supertype = map_option cref (mt_supertype t),
     cty_body = body_key cref (mt_body t)\<rparr>"

definition host_cref :: "nat \<Rightarrow> canonical_type_id list \<Rightarrow> nat \<Rightarrow> canon_ref" where
  "host_cref n externals mi = (if mi < n then Rel mi else Canon (externals ! (mi - n)))"

definition intern_host_group :: "module_type list \<Rightarrow> canonical_type_id list \<Rightarrow>
    (type_registry, canonical_type_id list \<times> group_id) action" where
  "intern_host_group members externals =
     bindc (intern_group (map (ctype_of (host_cref (length members) externals)) members) (length members))
       (\<lambda>g. bindc (members_of g) (\<lambda>ids. ret (ids, g)))"

definition module_cref :: "nat \<Rightarrow> nat \<Rightarrow> canonical_type_id list \<Rightarrow> nat \<Rightarrow> canon_ref" where
  "module_cref base last_i m2c mi =
     (if base \<le> mi \<and> mi < last_i then Rel (mi - base) else Canon (m2c ! mi))"

definition build_key :: "module_type list \<Rightarrow> nat \<Rightarrow> nat \<Rightarrow> canonical_type_id list \<Rightarrow> cgroup" where
  "build_key types base last_i m2c =
     map (ctype_of (module_cref base last_i m2c)) (take (last_i - base) (drop base types))"

text \<open>The end of the run of types that share the group of the type at \<open>base\<close>.\<close>

definition group_end :: "module_type list \<Rightarrow> nat \<Rightarrow> nat" where
  "group_end types base =
     base + length (takeWhile (\<lambda>t. mt_group t = mt_group (types ! base)) (drop base types))"

lemma group_end_greater: "base < length types \<Longrightarrow> base < group_end types base"
  by (simp add: group_end_def Cons_nth_drop_Suc [symmetric])

lemma group_end_le: "base \<le> length types \<Longrightarrow> group_end types base \<le> length types"
  unfolding group_end_def
  by (metis add_le_cancel_left le_add_diff_inverse length_drop length_takeWhile_le)

function intern_module_from :: "module_type list \<Rightarrow> nat \<Rightarrow> canonical_type_id list \<Rightarrow> group_id list \<Rightarrow>
    (type_registry, canonical_type_id list \<times> group_id list) action" where
  "intern_module_from types base m2c registered r =
     (if length types \<le> base then (Inr (m2c, registered), r)
      else let i = group_end types base in
        bindc (intern_group (build_key types base i m2c) (i - base)) (\<lambda>g.
        bindc (members_of g) (\<lambda>canon.
        intern_module_from types i (write_at m2c base canon) (registered @ [g]))) r)"
  by pat_completeness auto
termination
  by (relation "measure (\<lambda>(types, base, _). length types - base)")
    (auto intro!: diff_less_mono2 group_end_greater)

declare intern_module_from.simps [simp del]

definition intern_module :: "module_type list \<Rightarrow>
    (type_registry, canonical_type_id list \<times> group_id list) action" where
  "intern_module types = intern_module_from types 0 (replicate (length types) u32_max) []"

section \<open>Queries\<close>

definition live_type :: "type_registry \<Rightarrow> canonical_type_id \<Rightarrow> canon_type option" where
  "live_type r tid = Option.bind (get_at (tr_types r) tid) (\<lambda>x. x)"

text \<open>The walk up the supertype chain. The Rust loop has no bound of its own: \<open>None\<close> is
  divergence.\<close>

partial_function (option) is_subtype :: "type_registry \<Rightarrow> canonical_type_id \<Rightarrow> canonical_type_id \<Rightarrow> bool option" where
  "is_subtype r sub supt =
     (if sub = supt then Some True
      else case Option.bind (live_type r sub) ct_supertype of
        None \<Rightarrow> Some False
      | Some up \<Rightarrow> is_subtype r up supt)"

declare is_subtype.simps [code]

definition registry_kind :: "type_registry \<Rightarrow> canonical_type_id \<Rightarrow> agg_kind option" where
  "registry_kind r tid = map_option ct_kind (live_type r tid)"

definition registry_finality :: "type_registry \<Rightarrow> canonical_type_id \<Rightarrow> finality option" where
  "registry_finality r tid = map_option ct_finality (live_type r tid)"

definition live_group_count :: "type_registry \<Rightarrow> nat" where
  "live_group_count r = length (tr_interned r)"

definition body_of :: "type_registry \<Rightarrow> canonical_type_id \<Rightarrow> cbody option" where
  "body_of r tid = map_option ct_body (live_type r tid)"

definition func_body_raw :: "type_registry \<Rightarrow> canonical_type_id \<Rightarrow> (cval list \<times> cval list) option" where
  "func_body_raw r tid = Option.bind (body_of r tid) (\<lambda>b. case b of CFunc p q \<Rightarrow> Some (p, q) | _ \<Rightarrow> None)"

definition struct_fields_raw :: "type_registry \<Rightarrow> canonical_type_id \<Rightarrow> cfield list option" where
  "struct_fields_raw r tid = Option.bind (body_of r tid) (\<lambda>b. case b of CStruct fs \<Rightarrow> Some fs | _ \<Rightarrow> None)"

definition array_field_raw :: "type_registry \<Rightarrow> canonical_type_id \<Rightarrow> cfield option" where
  "array_field_raw r tid = Option.bind (body_of r tid) (\<lambda>b. case b of CArray f \<Rightarrow> Some f | _ \<Rightarrow> None)"

end
