(* ===== verification/Registry_Inv.thy ===== *)
theory Registry_Inv
  imports Registry
begin

text \<open>
  The invariant of the type registry and the proof that every operation keeps it. The registry is
  looked at through four observers: the owner of a type id, the canonical type behind it, the
  record of a live group and the key of a live group. \<open>registry_ok r ext\<close> relates the stored
  reference counts to the registrations \<open>ext\<close> held outside the registry (modules, host types,
  handles) plus the cross-group edges of the live groups.
\<close>

section \<open>Observers\<close>

definition group_key :: "type_registry \<Rightarrow> group_id \<Rightarrow> cgroup option" where
  "group_key r g = map_option gr_key (live_group r g)"

definition edge_groups :: "type_registry \<Rightarrow> cgroup \<Rightarrow> group_id list" where
  "edge_groups r key = map (\<lambda>e. the (group_of r e)) (edge_canon_ids key)"

definition incoming :: "type_registry \<Rightarrow> group_id \<Rightarrow> nat" where
  "incoming r g = (\<Sum>h \<in> dom (group_key r). count_list (edge_groups r (the (group_key r h))) g)"

text \<open>The bookkeeping of the type slots while a group is being built: \<open>taken\<close> are slots popped
  from the free-list and not yet assigned.\<close>

definition slots_ok :: "type_registry \<Rightarrow> canonical_type_id list \<Rightarrow> bool" where
  "slots_ok r taken \<longleftrightarrow> length (tr_type_to_group r) = length (tr_types r)
     \<and> distinct (tr_free_types r @ taken)
     \<and> set (tr_free_types r @ taken) = {t. t < length (tr_types r) \<and> group_of r t = None}
     \<and> (\<forall>t. live_type r t = None \<longleftrightarrow> group_of r t = None)"

definition group_slots_ok :: "type_registry \<Rightarrow> bool" where
  "group_slots_ok r \<longleftrightarrow> distinct (tr_free_groups r)
     \<and> set (tr_free_groups r) = {g. g < length (tr_groups r) \<and> live_group r g = None}"

definition interned_ok :: "type_registry \<Rightarrow> bool" where
  "interned_ok r \<longleftrightarrow> distinct (map fst (tr_interned r))
     \<and> (\<forall>k g. map_of (tr_interned r) k = Some g \<longleftrightarrow> group_key r g = Some k)"

definition group_ok :: "type_registry \<Rightarrow> group_id \<Rightarrow> group_record \<Rightarrow> bool" where
  "group_ok r g rec \<longleftrightarrow> distinct (gr_members rec) \<and> length (gr_members rec) = length (gr_key rec)
     \<and> (\<forall>t. t \<in> set (gr_members rec) \<longleftrightarrow> group_of r t = Some g)
     \<and> (\<forall>i < length (gr_key rec). live_type r (gr_members rec ! i) =
          Some (canon_of (gr_members rec) (gr_key rec ! i)))
     \<and> (\<forall>e \<in> set (edge_canon_ids (gr_key rec)). group_of r e \<noteq> None)"

definition registry_ok :: "type_registry \<Rightarrow> (group_id \<Rightarrow> nat) \<Rightarrow> bool" where
  "registry_ok r ext \<longleftrightarrow> slots_ok r [] \<and> group_slots_ok r \<and> interned_ok r
     \<and> (\<forall>t g. group_of r t = Some g \<longrightarrow> live_group r g \<noteq> None)
     \<and> (\<forall>g rec. live_group r g = Some rec \<longrightarrow> group_ok r g rec \<and> 0 < gr_refcount rec
          \<and> gr_refcount rec \<le> u32_max \<and> gr_refcount rec = ext g + incoming r g)
     \<and> (\<forall>g. live_group r g = None \<longrightarrow> ext g = 0)"

lemma dom_group_key: "dom (group_key r) = dom (live_group r)"
  by (auto simp: group_key_def)

lemma finite_live_group [simp]: "finite (dom (live_group r))"
proof (rule finite_subset)
  show "dom (live_group r) \<subseteq> {..<length (tr_groups r)}" by (auto simp: live_group_Some)
qed simp

lemma group_of_Some:
  "group_of r t = Some g \<longleftrightarrow> t < length (tr_type_to_group r) \<and> tr_type_to_group r ! t = Some g"
  by (auto simp: group_of_def get_at_def split: Option.bind_splits)

lemma live_type_Some:
  "live_type r t = Some ty \<longleftrightarrow> t < length (tr_types r) \<and> tr_types r ! t = Some ty"
  by (auto simp: live_type_def get_at_def split: Option.bind_splits)

text \<open>What the observers depend on.\<close>

lemma observers_cong:
  "tr_groups r' = tr_groups r \<Longrightarrow> live_group r' = live_group r"
  "tr_type_to_group r' = tr_type_to_group r \<Longrightarrow> group_of r' = group_of r"
  "tr_types r' = tr_types r \<Longrightarrow> live_type r' = live_type r"
  "tr_groups r' = tr_groups r \<Longrightarrow> group_key r' = group_key r"
  by (auto simp: fun_eq_iff live_group_def group_of_def live_type_def group_key_def)

lemma group_of_update [simp]:
  "group_of (r\<lparr>tr_groups := gs\<rparr>) = group_of r" "group_of (r\<lparr>tr_interned := it\<rparr>) = group_of r"
  "group_of (r\<lparr>tr_free_groups := fg\<rparr>) = group_of r" "group_of (r\<lparr>tr_free_types := ft\<rparr>) = group_of r"
  "group_of (r\<lparr>tr_types := ts\<rparr>) = group_of r"
  by (simp_all add: fun_eq_iff group_of_def)

lemma live_type_update [simp]:
  "live_type (r\<lparr>tr_groups := gs\<rparr>) = live_type r" "live_type (r\<lparr>tr_interned := it\<rparr>) = live_type r"
  "live_type (r\<lparr>tr_free_groups := fg\<rparr>) = live_type r"
  "live_type (r\<lparr>tr_free_types := ft\<rparr>) = live_type r"
  "live_type (r\<lparr>tr_type_to_group := tg\<rparr>) = live_type r"
  by (simp_all add: fun_eq_iff live_type_def)

lemma live_group_update [simp]:
  "live_group (r\<lparr>tr_interned := it\<rparr>) = live_group r" "live_group (r\<lparr>tr_types := ts\<rparr>) = live_group r"
  "live_group (r\<lparr>tr_type_to_group := tg\<rparr>) = live_group r"
  "live_group (r\<lparr>tr_free_groups := fg\<rparr>) = live_group r"
  "live_group (r\<lparr>tr_free_types := ft\<rparr>) = live_group r"
  by (simp_all add: fun_eq_iff live_group_def)

lemma live_group_set:
  "g < length (tr_groups r) \<Longrightarrow>
     live_group (r\<lparr>tr_groups := (tr_groups r)[g := x]\<rparr>) = (live_group r)(g := x)"
  by (auto simp: fun_eq_iff live_group_def get_at_def)

lemma set_type_Inr:
  assumes "m < length (tr_types r)" and "length (tr_type_to_group r) = length (tr_types r)"
  obtains r' where "set_type m ty og r = (Inr (), r')"
    and "group_of r' = (group_of r)(m := og)" and "live_type r' = (live_type r)(m := ty)"
    and "length (tr_types r') = length (tr_types r)"
    and "length (tr_type_to_group r') = length (tr_types r')"
    and "tr_groups r' = tr_groups r" and "tr_interned r' = tr_interned r"
    and "tr_free_types r' = tr_free_types r" and "tr_free_groups r' = tr_free_groups r"
  using assms
  by (auto simp: set_type_def fun_eq_iff group_of_def live_type_def get_at_def nth_list_update)

section \<open>Closed forms of the loops\<close>

lemma take_type_slot_ok:
  assumes ok: "slots_ok r taken" and room: "length (tr_types r) < 2 ^ 32"
  obtains t r' where "take_type_slot r = (Inr t, r')" and "slots_ok r' (taken @ [t])"
    and "group_of r' = group_of r" and "live_type r' = live_type r"
    and "tr_groups r' = tr_groups r" and "tr_interned r' = tr_interned r"
    and "tr_free_groups r' = tr_free_groups r" and "length (tr_types r') \<le> length (tr_types r) + 1"
proof (cases "tr_free_types r = []")
  case True
  let ?t = "length (tr_types r)"
  let ?r = "r\<lparr>tr_types := tr_types r @ [None], tr_type_to_group := tr_type_to_group r @ [None]\<rparr>"
  have go: "group_of ?r = group_of r"
    and lt: "live_type (r\<lparr>tr_types := tr_types r @ [None]\<rparr>) = live_type r"
    using ok by (auto simp: slots_ok_def fun_eq_iff group_of_def live_type_def get_at_def nth_append)
  have "group_of r ?t = None"
    using ok by (simp add: slots_ok_def group_of_def get_at_def)
  then have "slots_ok ?r (taken @ [?t])"
    using ok True unfolding slots_ok_def by (auto simp: go lt less_Suc_eq)
  with True room go lt that [of ?t ?r] show ?thesis
    by (simp add: take_type_slot_def)
next
  case False
  let ?fs = "tr_free_types r" and ?r = "r\<lparr>tr_free_types := butlast (tr_free_types r)\<rparr>"
  have fs: "?fs = butlast ?fs @ [last ?fs]" using False by simp
  have "slots_ok ?r (taken @ [last ?fs])"
    using ok unfolding slots_ok_def by (subst (asm) fs, subst (asm) (2) fs) auto
  with False that [of "last ?fs" ?r] show ?thesis
    by (cases ?fs) (simp_all add: take_type_slot_def)
qed

lemma take_type_slots_ok:
  assumes "slots_ok r taken" and "length (tr_types r) + n \<le> 2 ^ 32"
  shows "\<exists>ts r'. take_type_slots n r = (Inr ts, r') \<and> slots_ok r' (taken @ ts) \<and> length ts = n
    \<and> group_of r' = group_of r \<and> live_type r' = live_type r \<and> tr_groups r' = tr_groups r
    \<and> tr_interned r' = tr_interned r \<and> tr_free_groups r' = tr_free_groups r"
  using assms
proof (induction n arbitrary: r taken)
  case 0
  then show ?case by simp
next
  case (Suc n)
  from Suc.prems have "length (tr_types r) < 2 ^ 32" by simp
  with Suc.prems(1) obtain t s where t: "take_type_slot r = (Inr t, s)" "slots_ok s (taken @ [t])"
    "group_of s = group_of r" "live_type s = live_type r" "tr_groups s = tr_groups r"
    "tr_interned s = tr_interned r" "tr_free_groups s = tr_free_groups r"
    "length (tr_types s) \<le> length (tr_types r) + 1"
    by (rule take_type_slot_ok)
  from t(8) Suc.prems(2) have "length (tr_types s) + n \<le> 2 ^ 32" by simp
  from Suc.IH [OF t(2) this] show ?case using t by (fastforce simp: bindc_def)
qed

lemma store_members_ok:
  assumes "pos + length cts = length ms" and "distinct ms"
    and "\<forall>m \<in> set ms. m < length (tr_types r)" and "length (tr_type_to_group r) = length (tr_types r)"
  shows "\<exists>r'. store_members g ms pos cts r = (Inr (), r')
    \<and> group_of r' = (\<lambda>t. if t \<in> set (drop pos ms) then Some g else group_of r t)
    \<and> (\<forall>i. pos \<le> i \<and> i < length ms \<longrightarrow> live_type r' (ms ! i) = Some (canon_of ms (cts ! (i - pos))))
    \<and> (\<forall>t. t \<notin> set (drop pos ms) \<longrightarrow> live_type r' t = live_type r t)
    \<and> length (tr_types r') = length (tr_types r) \<and> length (tr_type_to_group r') = length (tr_types r')
    \<and> tr_groups r' = tr_groups r \<and> tr_interned r' = tr_interned r
    \<and> tr_free_types r' = tr_free_types r \<and> tr_free_groups r' = tr_free_groups r"
  using assms
proof (induction cts arbitrary: pos r)
  case Nil
  then show ?case by auto
next
  case (Cons ct cts)
  let ?m = "ms ! pos"
  have pos: "pos < length ms" using Cons.prems by simp
  then have dr: "drop pos ms = ?m # drop (Suc pos) ms" by (rule Cons_nth_drop_Suc [symmetric])
  have "?m < length (tr_types r)" using Cons.prems pos by simp
  then obtain s where s: "set_type ?m (Some (canon_of ms ct)) (Some g) r = (Inr (), s)"
    "group_of s = (group_of r)(?m := Some g)"
    "live_type s = (live_type r)(?m := Some (canon_of ms ct))"
    "length (tr_types s) = length (tr_types r)"
    "length (tr_type_to_group s) = length (tr_types s)" "tr_groups s = tr_groups r"
    "tr_interned s = tr_interned r" "tr_free_types s = tr_free_types r"
    "tr_free_groups s = tr_free_groups r"
    using Cons.prems(4) by (rule set_type_Inr)
  obtain r' where r': "store_members g ms (Suc pos) cts s = (Inr (), r')"
    "group_of r' = (\<lambda>t. if t \<in> set (drop (Suc pos) ms) then Some g else group_of s t)"
    "\<forall>i. Suc pos \<le> i \<and> i < length ms \<longrightarrow> live_type r' (ms ! i) = Some (canon_of ms (cts ! (i - Suc pos)))"
    "\<forall>t. t \<notin> set (drop (Suc pos) ms) \<longrightarrow> live_type r' t = live_type s t"
    "length (tr_types r') = length (tr_types s)" "length (tr_type_to_group r') = length (tr_types r')"
    "tr_groups r' = tr_groups s" "tr_interned r' = tr_interned s"
    "tr_free_types r' = tr_free_types s" "tr_free_groups r' = tr_free_groups s"
    using Cons.IH [of "Suc pos" s] Cons.prems s(4,5) by auto
  have m: "?m \<notin> set (drop (Suc pos) ms)"
    using Cons.prems(2) pos dr by (metis distinct.simps(2) distinct_drop)
  have "live_type r' (ms ! i) = Some (canon_of ms ((ct # cts) ! (i - pos)))"
    if "pos \<le> i" "i < length ms" for i
  proof (cases "i = pos")
    case True
    then show ?thesis using r'(4) m s(3) by simp
  next
    case False
    with that have "Suc pos \<le> i" "i - pos = Suc (i - Suc pos)" by auto
    then show ?thesis using r'(3) that by simp
  qed
  moreover have "store_members g ms pos (ct # cts) r = (Inr (), r')"
    using r'(1) s(1) pos by (simp add: bindc_def index_at_def)
  ultimately show ?case
    using r' s dr by (intro exI [of _ r']) (auto simp: fun_eq_iff)
qed

lemma free_members_ok:
  assumes "\<forall>m \<in> set ms. m < length (tr_types r)" and "length (tr_type_to_group r) = length (tr_types r)"
  shows "\<exists>r'. free_members ms r = (Inr (), r')
    \<and> group_of r' = (\<lambda>t. if t \<in> set ms then None else group_of r t)
    \<and> live_type r' = (\<lambda>t. if t \<in> set ms then None else live_type r t)
    \<and> length (tr_types r') = length (tr_types r) \<and> length (tr_type_to_group r') = length (tr_types r')
    \<and> tr_groups r' = tr_groups r \<and> tr_interned r' = tr_interned r
    \<and> tr_free_types r' = tr_free_types r @ ms \<and> tr_free_groups r' = tr_free_groups r"
  using assms
proof (induction ms arbitrary: r)
  case Nil
  then show ?case by auto
next
  case (Cons m ms)
  from Cons.prems(1) have "m < length (tr_types r)" by simp
  then obtain s where s: "set_type m None None r = (Inr (), s)"
    "group_of s = (group_of r)(m := None)" "live_type s = (live_type r)(m := None)"
    "length (tr_types s) = length (tr_types r)"
    "length (tr_type_to_group s) = length (tr_types s)" "tr_groups s = tr_groups r"
    "tr_interned s = tr_interned r" "tr_free_types s = tr_free_types r"
    "tr_free_groups s = tr_free_groups r"
    using Cons.prems(2) by (rule set_type_Inr)
  from Cons.IH [of "s\<lparr>tr_free_types := tr_free_types s @ [m]\<rparr>"] Cons.prems s show ?case
    by (fastforce simp: bindc_def fun_eq_iff)
qed

lemma edge_owners_ok:
  "\<forall>e \<in> set ids. group_of r e \<noteq> None \<Longrightarrow>
     edge_owners (tr_type_to_group r) ids = Inr (map (\<lambda>e. the (group_of r e)) ids)"
proof (induction ids)
  case (Cons e ids)
  then obtain g where "group_of r e = Some g" by auto
  then have "index_at (tr_type_to_group r) e = Inr (Some g)" "group_of r e = Some g"
    by (simp_all add: group_of_Some index_at_def)
  then show ?case using Cons by (simp del: index_at_Inr)
qed simp

text \<open>What increments do to a record.\<close>

definition add_refs :: "nat \<Rightarrow> group_record \<Rightarrow> group_record" where
  "add_refs n rec = rec\<lparr>gr_refcount := gr_refcount rec + n\<rparr>"

lemma add_refs_simps [simp]:
  "gr_key (add_refs n rec) = gr_key rec" "gr_members (add_refs n rec) = gr_members rec"
  "gr_refcount (add_refs n rec) = gr_refcount rec + n" "add_refs 0 rec = rec"
  "add_refs a (add_refs b rec) = add_refs (a + b) rec"
  by (simp_all add: add_refs_def ac_simps)

lemma incref_group_Inr:
  "incref_group g r = (Inr (), r') \<longleftrightarrow>
     (\<exists>rec. live_group r g = Some rec \<and> gr_refcount rec < u32_max
        \<and> r' = r\<lparr>tr_groups := (tr_groups r)[g := Some (add_refs 1 rec)]\<rparr>)"
  by (auto simp: incref_group_def add_refs_def checked_add_def split: option.splits)

lemma incref_edges_ok:
  assumes "incref_edges ids r = (Inr (), r')" and "\<forall>e \<in> set ids. group_of r e \<noteq> None"
  shows "\<exists>gs. r' = r\<lparr>tr_groups := gs\<rparr> \<and> length gs = length (tr_groups r) \<and>
    (\<forall>g. live_group r' g =
       map_option (add_refs (count_list (map (\<lambda>e. the (group_of r e)) ids) g)) (live_group r g)) \<and>
    (\<forall>g. g \<in> set (map (\<lambda>e. the (group_of r e)) ids) \<longrightarrow>
       (\<exists>rec. live_group r' g = Some rec \<and> gr_refcount rec \<le> u32_max))"
  using assms
proof (induction ids arbitrary: r)
  case Nil
  then show ?case
    by (intro exI [of _ "tr_groups r"]) (auto simp: option.map_id0 map_option_case split: option.split)
next
  case (Cons e ids)
  from Cons.prems(2) obtain og where og: "group_of r e = Some og" by auto
  with Cons.prems(1) obtain s where s: "incref_group og r = (Inr (), s)"
    and rest: "incref_edges ids s = (Inr (), r')"
    by (auto simp: bindc_eq_Inr group_of_Some)
  from s obtain rec where rec: "live_group r og = Some rec" "gr_refcount rec < u32_max"
    "s = r\<lparr>tr_groups := (tr_groups r)[og := Some (add_refs 1 rec)]\<rparr>"
    by (auto simp: incref_group_Inr)
  have lg: "live_group s = (live_group r)(og := Some (add_refs 1 rec))"
    using rec(1) by (simp add: rec(3) live_group_set live_group_Some)
  have go: "group_of s = group_of r" using rec(3) by simp
  from Cons.IH [OF rest] Cons.prems(2) go obtain gs where gs: "r' = s\<lparr>tr_groups := gs\<rparr>"
    "length gs = length (tr_groups s)"
    "\<forall>g. live_group r' g =
       map_option (add_refs (count_list (map (\<lambda>e. the (group_of r e)) ids) g)) (live_group s g)"
    "\<forall>g. g \<in> set (map (\<lambda>e. the (group_of r e)) ids) \<longrightarrow>
       (\<exists>rec. live_group r' g = Some rec \<and> gr_refcount rec \<le> u32_max)"
    by auto
  have og': "\<exists>rec. live_group r' og = Some rec \<and> gr_refcount rec \<le> u32_max"
  proof (cases "og \<in> set (map (\<lambda>e. the (group_of r e)) ids)")
    case True
    then show ?thesis using gs(4) by blast
  next
    case False
    then have "count_list (map (\<lambda>e. the (group_of r e)) ids) og = 0" by (simp add: count_list_0_iff)
    then show ?thesis using gs(3) rec lg by simp
  qed
  show ?case
    using gs lg rec og og' by (intro exI [of _ gs]) (auto simp: ac_simps)
qed

section \<open>Reference counts are exact\<close>

lemma registry_okD:
  assumes "registry_ok r ext"
  shows "slots_ok r []" "group_slots_ok r" "interned_ok r"
    and "group_of r t = Some g \<Longrightarrow> live_group r g \<noteq> None"
    and "live_group r g = Some rec \<Longrightarrow> group_ok r g rec"
    and "live_group r g = Some rec \<Longrightarrow> gr_refcount rec = ext g + incoming r g"
    and "live_group r g = Some rec \<Longrightarrow> 0 < gr_refcount rec \<and> gr_refcount rec \<le> u32_max"
    and "live_group r g = None \<Longrightarrow> ext g = 0"
  using assms unfolding registry_ok_def by blast+

lemma incoming_cong:
  "group_key r' = group_key r \<Longrightarrow> group_of r' = group_of r \<Longrightarrow> incoming r' = incoming r"
  by (rule ext) (simp add: incoming_def edge_groups_def)

text \<open>An operation that changes reference counts only.\<close>

lemma registry_ok_refs:
  assumes ok: "registry_ok r ext" and r': "r' = r\<lparr>tr_groups := gs\<rparr>" and len: "length gs = length (tr_groups r)"
    and lg: "\<And>g. live_group r' g = map_option (\<lambda>rec. rec\<lparr>gr_refcount := n g\<rparr>) (live_group r g)"
    and n: "\<And>g rec. live_group r g = Some rec \<Longrightarrow> 0 < n g \<and> n g \<le> u32_max \<and> n g = ext' g + incoming r g"
    and z: "\<And>g. live_group r g = None \<Longrightarrow> ext' g = 0"
  shows "registry_ok r' ext'"
proof -
  have key: "group_key r' = group_key r"
    by (simp add: fun_eq_iff group_key_def lg option.map_comp comp_def)
  have inc: "incoming r' = incoming r" by (rule incoming_cong [OF key]) (simp add: r')
  have "slots_ok r' []" using registry_okD(1) [OF ok] r' by (simp add: slots_ok_def)
  moreover have "group_slots_ok r'"
  proof -
    have "tr_free_groups r' = tr_free_groups r" "length (tr_groups r') = length (tr_groups r)"
      by (simp_all add: r' len)
    then show ?thesis using registry_okD(2) [OF ok] by (simp add: group_slots_ok_def lg)
  qed
  moreover have "interned_ok r'" using registry_okD(3) [OF ok] key by (simp add: interned_ok_def r')
  moreover have "group_ok r' g rec'" if "live_group r' g = Some rec'" for g rec'
  proof -
    from that lg obtain rec where "live_group r g = Some rec" "rec' = rec\<lparr>gr_refcount := n g\<rparr>" by auto
    then show ?thesis using registry_okD(5) [OF ok] by (simp add: group_ok_def r')
  qed
  moreover have "live_group r' g \<noteq> None" if "group_of r' t = Some g" for t g
  proof -
    have "group_of r t = Some g" using that by (simp add: r')
    then have "live_group r g \<noteq> None" by (rule registry_okD(4) [OF ok])
    then show ?thesis by (simp add: lg)
  qed
  moreover have "0 < gr_refcount rec' \<and> gr_refcount rec' \<le> u32_max \<and> gr_refcount rec' = ext' g + incoming r' g"
    if "live_group r' g = Some rec'" for g rec'
  proof -
    from that lg obtain rec where rec: "live_group r g = Some rec" "gr_refcount rec' = n g" by auto
    show ?thesis unfolding inc rec(2) by (rule n [OF rec(1)])
  qed
  moreover have "ext' g = 0" if "live_group r' g = None" for g
    using that z by (simp add: lg)
  ultimately show ?thesis unfolding registry_ok_def by blast
qed

lemma decref_one_keeps_live:
  assumes ok: "registry_ok r ext" and held: "0 < ext g" and rec: "live_group r g = Some rec"
    and more: "1 < gr_refcount rec"
  shows "\<exists>r'. decref_one g r = (Inr [], r') \<and> registry_ok r' (ext(g := ext g - 1))"
proof -
  let ?rec = "rec\<lparr>gr_refcount := gr_refcount rec - 1\<rparr>"
  let ?r = "r\<lparr>tr_groups := (tr_groups r)[g := Some ?rec]\<rparr>"
  let ?n = "\<lambda>h. gr_refcount (the (live_group r h)) - (if h = g then 1 else 0)"
  have lg: "live_group ?r h = map_option (\<lambda>rec. rec\<lparr>gr_refcount := ?n h\<rparr>) (live_group r h)" for h
  proof -
    have "live_group ?r = (live_group r)(g := Some ?rec)"
      using rec by (simp add: live_group_set live_group_Some)
    then show ?thesis using rec by (cases "live_group r h") auto
  qed
  have "registry_ok ?r (ext(g := ext g - 1))"
    by (rule registry_ok_refs [OF ok refl _ lg])
      (use rec more held registry_okD(6-8) [OF ok] in fastforce)+
  with more rec show ?thesis by (auto simp: decref_one_def checked_sub_def)
qed

text \<open>Removing a group that nothing points at. \<open>removed r g rec r'\<close> lists what the reclamation
  does to the observers and the free-lists.\<close>

definition removed :: "type_registry \<Rightarrow> group_id \<Rightarrow> group_record \<Rightarrow> type_registry \<Rightarrow> bool" where
  "removed r g rec r' \<longleftrightarrow> live_group r' = (live_group r)(g := None)
     \<and> group_of r' = (\<lambda>t. if t \<in> set (gr_members rec) then None else group_of r t)
     \<and> live_type r' = (\<lambda>t. if t \<in> set (gr_members rec) then None else live_type r t)
     \<and> length (tr_types r') = length (tr_types r) \<and> length (tr_type_to_group r') = length (tr_types r')
     \<and> length (tr_groups r') = length (tr_groups r)
     \<and> tr_free_types r' = tr_free_types r @ gr_members rec \<and> tr_free_groups r' = tr_free_groups r @ [g]
     \<and> tr_interned r' = AList.delete (gr_key rec) (tr_interned r)"

lemma reclaim_group_removes:
  assumes ok: "registry_ok r ext" and rec: "live_group r g = Some rec"
    and r1: "r1 = r\<lparr>tr_groups := (tr_groups r)[g := Some rec']\<rparr>"
    and rec': "gr_key rec' = gr_key rec" "gr_members rec' = gr_members rec"
  shows "\<exists>r'. reclaim_group g rec' r1 = (Inr (edge_groups r (gr_key rec)), r') \<and> removed r g rec r'"
proof -
  let ?s = "r1\<lparr>tr_groups := (tr_groups r1)[g := None], tr_interned := AList.delete (gr_key rec) (tr_interned r1)\<rparr>"
  have s: "?s = r\<lparr>tr_groups := (tr_groups r)[g := None], tr_interned := AList.delete (gr_key rec) (tr_interned r)\<rparr>"
    by (simp add: r1)
  have gok: "group_ok r g rec" by (rule registry_okD(5) [OF ok rec])
  have own: "edge_owners (tr_type_to_group ?s) (edge_canon_ids (gr_key rec)) = Inr (edge_groups r (gr_key rec))"
    using gok by (simp add: r1 edge_groups_def group_ok_def edge_owners_ok)
  have "m < length (tr_types r)" if "m \<in> set (gr_members rec)" for m
  proof -
    from that gok have "group_of r m = Some g" by (simp add: group_ok_def)
    then show ?thesis using registry_okD(1) [OF ok] by (simp add: slots_ok_def group_of_Some)
  qed
  moreover have "length (tr_type_to_group ?s) = length (tr_types ?s)"
    using registry_okD(1) [OF ok] by (simp add: r1 slots_ok_def)
  ultimately obtain t where t: "free_members (gr_members rec) ?s = (Inr (), t)"
    "group_of t = (\<lambda>m. if m \<in> set (gr_members rec) then None else group_of ?s m)"
    "live_type t = (\<lambda>m. if m \<in> set (gr_members rec) then None else live_type ?s m)"
    "length (tr_types t) = length (tr_types ?s)" "length (tr_type_to_group t) = length (tr_types t)"
    "tr_groups t = tr_groups ?s" "tr_interned t = tr_interned ?s"
    "tr_free_types t = tr_free_types ?s @ gr_members rec" "tr_free_groups t = tr_free_groups ?s"
    using free_members_ok [of "gr_members rec" ?s] by (auto simp: r1)
  let ?r' = "t\<lparr>tr_free_groups := tr_free_groups t @ [g]\<rparr>"
  have "live_group ?r' = live_group ?s"
    using t(6) by (simp add: live_group_def fun_eq_iff)
  also have "\<dots> = (live_group r)(g := None)"
    using rec by (simp add: s live_group_set live_group_Some)
  finally have "removed r g rec ?r'"
    using t unfolding removed_def by (simp add: r1 cong: if_cong)
  moreover have "reclaim_group g rec' r1 = (Inr (edge_groups r (gr_key rec)), ?r')"
    using own t(1) rec' by (simp add: reclaim_group_def bindc_def)
  ultimately show ?thesis by blast
qed

lemma no_incoming:
  assumes "incoming r g = 0" and "live_group r h = Some rec" and "e \<in> set (edge_canon_ids (gr_key rec))"
  shows "the (group_of r e) \<noteq> g"
proof -
  have "h \<in> dom (group_key r)" using assms(2) by (auto simp: group_key_def)
  then have "count_list (edge_groups r (the (group_key r h))) g = 0"
    using assms(1) by (simp add: incoming_def dom_group_key)
  then show ?thesis
    using assms(2,3) by (auto simp: count_list_0_iff edge_groups_def group_key_def)
qed

lemma removed_registry_ok:
  assumes ok: "registry_ok r ext" and rec: "live_group r g = Some rec" and inc: "incoming r g = 0"
    and one: "ext g = 1" and rem: "removed r g rec r'"
  shows "registry_ok r' (\<lambda>h. (ext(g := 0)) h + count_list (edge_groups r (gr_key rec)) h)"
proof -
  have gok: "group_ok r g rec" by (rule registry_okD(5) [OF ok rec])
  have mem: "t \<in> set (gr_members rec) \<longleftrightarrow> group_of r t = Some g" for t
    using gok by (simp add: group_ok_def)
  have lg: "live_group r' = (live_group r)(g := None)"
    and go: "group_of r' = (\<lambda>t. if group_of r t = Some g then None else group_of r t)"
    and lt: "live_type r' = (\<lambda>t. if group_of r t = Some g then None else live_type r t)"
    and ft: "tr_free_types r' = tr_free_types r @ gr_members rec"
    and fg: "tr_free_groups r' = tr_free_groups r @ [g]"
    and len: "length (tr_types r') = length (tr_types r)"
      "length (tr_type_to_group r') = length (tr_types r')" "length (tr_groups r') = length (tr_groups r)"
    and it: "tr_interned r' = AList.delete (gr_key rec) (tr_interned r)"
    using rem by (simp_all add: removed_def mem)
  have edge: "group_of r' e = group_of r e"
    if "live_group r h = Some rec'" "e \<in> set (edge_canon_ids (gr_key rec'))" for h rec' e
    using no_incoming [OF inc that] by (auto simp: go)
  have noedge: "count_list (edge_groups r (gr_key rec')) g = 0" if "live_group r h = Some rec'" for h rec'
    using no_incoming [OF inc that] by (auto simp: count_list_0_iff edge_groups_def)
  have eg: "edge_groups r' (gr_key rec') = edge_groups r (gr_key rec')"
    if "live_group r h = Some rec'" for h rec'
    using edge [OF that] by (simp add: edge_groups_def)
  have dom: "dom (group_key r') = dom (group_key r) - {g}"
    by (auto simp: group_key_def lg split: if_splits)
  have "incoming r' x = (\<Sum>h \<in> dom (group_key r) - {g}. count_list (edge_groups r (the (group_key r h))) x)" for x
    unfolding incoming_def dom
    by (rule sum.cong) (auto simp: group_key_def lg eg)
  moreover have "g \<in> dom (group_key r)" "finite (dom (group_key r))"
    using rec by (auto simp: group_key_def dom_group_key)
  ultimately have sub: "incoming r x = count_list (edge_groups r (gr_key rec)) x + incoming r' x" for x
    unfolding incoming_def [of r] using rec by (simp add: sum.remove [of _ g] group_key_def)
  have below: "group_of r t = Some h \<Longrightarrow> t < length (tr_types r)" for t h
    using registry_okD(1) [OF ok] by (simp add: slots_ok_def group_of_Some)
  have "slots_ok r' []"
    using registry_okD(1) [OF ok] gok mem below
    unfolding slots_ok_def by (auto simp: ft len go lt group_ok_def split: if_splits)
  moreover have "group_slots_ok r'"
    using registry_okD(2) [OF ok] rec
    unfolding group_slots_ok_def by (auto simp: fg len lg live_group_Some)
  moreover have "interned_ok r'"
  proof -
    have "map_of (tr_interned r') k = Some h \<longleftrightarrow> group_key r' h = Some k" for k h
    proof -
      have old: "map_of (tr_interned r) k = Some h \<longleftrightarrow> group_key r h = Some k" for k h
        using registry_okD(3) [OF ok] by (simp add: interned_ok_def)
      have "map_of (tr_interned r) (gr_key rec) = Some g" using old rec by (simp add: group_key_def)
      then show ?thesis
        using old [of k h] rec by (auto simp: it delete_conv' group_key_def lg)
    qed
    then show ?thesis
      using registry_okD(3) [OF ok] by (simp add: interned_ok_def it distinct_delete)
  qed
  moreover have "live_group r' h \<noteq> None" if "group_of r' t = Some h" for t h
    using that registry_okD(4) [OF ok, of t h] by (auto simp: go lg split: if_splits)
  moreover have "group_ok r' h rec'" if "live_group r' h = Some rec'" for h rec'
  proof -
    from that have h: "live_group r h = Some rec'" "h \<noteq> g" by (auto simp: lg split: if_splits)
    from registry_okD(5) [OF ok h(1)] h(2) show ?thesis
      using edge [OF h(1)] nth_mem [of _ "gr_members rec'"] by (auto simp: group_ok_def go lt)
  qed
  moreover have "0 < gr_refcount rec' \<and> gr_refcount rec' \<le> u32_max \<and> gr_refcount rec' =
      (ext(g := 0)) h + count_list (edge_groups r (gr_key rec)) h + incoming r' h"
    if "live_group r' h = Some rec'" for h rec'
  proof -
    from that have h: "live_group r h = Some rec'" "h \<noteq> g" by (auto simp: lg split: if_splits)
    then show ?thesis
      using registry_okD(6,7) [OF ok h(1)] sub [of h] by simp
  qed
  moreover have "(ext(g := 0)) h + count_list (edge_groups r (gr_key rec)) h = 0" if "live_group r' h = None" for h
  proof (cases "h = g")
    case True
    then show ?thesis using noedge [OF rec] by simp
  next
    case False
    then have none: "live_group r h = None" using that by (simp add: lg)
    moreover have "h \<notin> set (edge_groups r (gr_key rec))"
      using gok none registry_okD(4) [OF ok] unfolding edge_groups_def group_ok_def by fastforce
    ultimately show ?thesis using False registry_okD(8) [OF ok] by (simp add: count_list_0_iff)
  qed
  ultimately show ?thesis unfolding registry_ok_def by blast
qed

text \<open>One turn of the worklist: the popped entry is a registration given up, the pushed ones are
  registrations taken over from the edges of the reclaimed group.\<close>

lemma decref_one_ok:
  assumes ok: "registry_ok r ext" and held: "0 < ext g"
  shows "\<exists>gs r'. decref_one g r = (Inr gs, r') \<and>
    registry_ok r' (\<lambda>h. (ext(g := ext g - 1)) h + count_list gs h)"
proof -
  have "live_group r g \<noteq> None" using registry_okD(8) [OF ok, of g] held by auto
  then obtain rec where rec: "live_group r g = Some rec" by auto
  note count = registry_okD(6) [OF ok rec] and pos = registry_okD(7) [OF ok rec]
  show ?thesis
  proof (cases "1 < gr_refcount rec")
    case True
    from decref_one_keeps_live [OF ok held rec this] show ?thesis
      by (intro exI [of _ "[]"]) (simp add: fun_upd_def)
  next
    case False
    with count pos held have one: "gr_refcount rec = 1" "ext g = 1" "incoming r g = 0" by auto
    let ?rec = "rec\<lparr>gr_refcount := 0\<rparr>"
    obtain r' where r': "reclaim_group g ?rec (r\<lparr>tr_groups := (tr_groups r)[g := Some ?rec]\<rparr>) =
        (Inr (edge_groups r (gr_key rec)), r')" "removed r g rec r'"
      using reclaim_group_removes [OF ok rec refl, of ?rec] by auto
    with rec one have "decref_one g r = (Inr (edge_groups r (gr_key rec)), r')"
      by (simp add: decref_one_def checked_sub_def)
    moreover have "ext g - 1 = 0" using one by simp
    ultimately show ?thesis using removed_registry_ok [OF ok rec one(3,2) r'(2)] by metis
  qed
qed

lemma decref_loop_ok:
  assumes "registry_ok r (\<lambda>h. ext h + count_list stack h)"
  shows "\<exists>r'. decref_loop stack r = (Inr (), r') \<and> registry_ok r' ext"
  using assms
proof (induction stack r rule: decref_loop.induct)
  case (1 stack r)
  show ?case
  proof (cases "stack = []")
    case True
    then show ?thesis using 1 by (simp add: decref_loop.simps)
  next
    case False
    define g rest where "g = last stack" and "rest = butlast stack"
    have st: "stack = rest @ [g]" using False by (simp add: g_def rest_def)
    obtain gs s where s: "decref_one g r = (Inr gs, s)"
      "registry_ok s (\<lambda>h. ((\<lambda>h. ext h + count_list stack h)(g := ext g + count_list stack g - 1)) h
         + count_list gs h)"
      using decref_one_ok [OF 1(2), of g] by (auto simp: st)
    have "(\<lambda>h. ((\<lambda>h. ext h + count_list stack h)(g := ext g + count_list stack g - 1)) h
         + count_list gs h) = (\<lambda>h. ext h + count_list (rest @ gs) h)"
      by (auto simp: fun_eq_iff st)
    with s have "registry_ok s (\<lambda>h. ext h + count_list (rest @ gs) h)" by simp
    with 1(1) [OF False s(1) [unfolded g_def, symmetric]] obtain r'
      where "decref_loop (rest @ gs) s = (Inr (), r')" "registry_ok r' ext"
      by (auto simp: rest_def)
    with s(1) False show ?thesis by (simp add: decref_loop.simps [of stack] g_def rest_def)
  qed
qed

text \<open>Releasing what one holds never panics.\<close>

lemma decref_group_ok:
  assumes "registry_ok r ext" and "0 < ext g"
  shows "\<exists>r'. decref_group g r = (Inr (), r') \<and> registry_ok r' (ext(g := ext g - 1))"
proof -
  have "ext = (\<lambda>h. (ext(g := ext g - 1)) h + count_list [g] h)"
    using assms(2) by (auto simp: fun_eq_iff)
  with assms(1) have "registry_ok r (\<lambda>h. (ext(g := ext g - 1)) h + count_list [g] h)" by simp
  then show ?thesis unfolding decref_group_def by (rule decref_loop_ok)
qed

lemma release_ok:
  assumes "registry_ok r (\<lambda>h. ext h + count_list gs h)"
  shows "\<exists>r'. release gs r = (Inr (), r') \<and> registry_ok r' ext"
  using assms
proof (induction gs arbitrary: r)
  case Nil
  then show ?case by simp
next
  case (Cons g gs)
  let ?e = "\<lambda>h. ext h + count_list (g # gs) h"
  from decref_group_ok [OF Cons.prems, of g] obtain s
    where s: "decref_group g r = (Inr (), s)" "registry_ok s (?e(g := ?e g - 1))" by auto
  have "?e(g := ?e g - 1) = (\<lambda>h. ext h + count_list gs h)" by (auto simp: fun_eq_iff)
  with s(2) have "registry_ok s (\<lambda>h. ext h + count_list gs h)" by simp
  from Cons.IH [OF this] s(1) show ?case by (auto simp: bindc_def)
qed

section \<open>Interning keeps the counts exact\<close>

text \<open>What interning a new key does to the observers.\<close>

definition added :: "type_registry \<Rightarrow> group_id \<Rightarrow> cgroup \<Rightarrow> canonical_type_id list \<Rightarrow> type_registry \<Rightarrow> bool" where
  "added r g key ms r' \<longleftrightarrow> live_group r g = None \<and> distinct ms \<and> length ms = length key
     \<and> (\<forall>t \<in> set ms. group_of r t = None) \<and> map_of (tr_interned r) key = None
     \<and> live_group r' = (\<lambda>h. map_option (add_refs (count_list (edge_groups r key) h)) (live_group r h))
         (g := Some \<lparr>gr_key = key, gr_members = ms, gr_refcount = 1\<rparr>)
     \<and> (\<forall>h \<in> set (edge_groups r key). \<forall>rec. live_group r' h = Some rec \<longrightarrow> gr_refcount rec \<le> u32_max)
     \<and> group_of r' = (\<lambda>t. if t \<in> set ms then Some g else group_of r t)
     \<and> (\<forall>i < length ms. live_type r' (ms ! i) = Some (canon_of ms (key ! i)))
     \<and> (\<forall>t. t \<notin> set ms \<longrightarrow> live_type r' t = live_type r t)
     \<and> slots_ok r' [] \<and> group_slots_ok r' \<and> tr_interned r' = AList.update key g (tr_interned r)"

lemma added_registry_ok:
  assumes ok: "registry_ok r ext" and add: "added r g key ms r'"
    and edges: "\<forall>e \<in> set (edge_canon_ids key). group_of r e \<noteq> None"
  shows "registry_ok r' (ext(g := ext g + 1))"
proof -
  have new: "live_group r g = None" and ms: "distinct ms" "length ms = length key"
    and fresh: "\<And>t. t \<in> set ms \<Longrightarrow> group_of r t = None"
    and lg: "live_group r' = (\<lambda>h. map_option (add_refs (count_list (edge_groups r key) h)) (live_group r h))
         (g := Some \<lparr>gr_key = key, gr_members = ms, gr_refcount = 1\<rparr>)"
    and cap: "\<And>h rec. h \<in> set (edge_groups r key) \<Longrightarrow> live_group r' h = Some rec \<Longrightarrow> gr_refcount rec \<le> u32_max"
    and go: "group_of r' = (\<lambda>t. if t \<in> set ms then Some g else group_of r t)"
    and lt: "\<And>i. i < length ms \<Longrightarrow> live_type r' (ms ! i) = Some (canon_of ms (key ! i))"
      "\<And>t. t \<notin> set ms \<Longrightarrow> live_type r' t = live_type r t"
    and it: "tr_interned r' = AList.update key g (tr_interned r)" "map_of (tr_interned r) key = None"
    and slots: "slots_ok r' []" "group_slots_ok r'"
    using add by (simp_all add: added_def)
  have old: "group_of r' e = group_of r e" if "group_of r e \<noteq> None" for e
    using that fresh by (auto simp: go)
  have key: "group_key r' = (group_key r)(g := Some key)"
    by (auto simp: fun_eq_iff group_key_def lg option.map_comp comp_def)
  have live: "group_of r t = Some h \<Longrightarrow> live_group r h \<noteq> None \<and> h \<noteq> g" for t h
    using registry_okD(4) [OF ok, of t h] new by auto
  have eg: "edge_groups r' (the (group_key r h)) = edge_groups r (the (group_key r h))"
    if "h \<in> dom (group_key r)" for h
    using that registry_okD(5) [OF ok, of h] old
    by (auto simp: edge_groups_def group_key_def group_ok_def intro!: map_cong)
  have egk: "edge_groups r' key = edge_groups r key"
    using edges old by (auto simp: edge_groups_def intro!: map_cong)
  have gout: "g \<notin> dom (group_key r)" using new by (auto simp: group_key_def)
  have inc: "incoming r' x = count_list (edge_groups r key) x + incoming r x" for x
  proof -
    have "incoming r' x = count_list (edge_groups r' key) x +
        (\<Sum>h \<in> dom (group_key r). count_list (edge_groups r' (the (group_key r' h))) x)"
      using gout unfolding incoming_def key by (simp add: dom_group_key sum.insert)
    also have "(\<Sum>h \<in> dom (group_key r). count_list (edge_groups r' (the (group_key r' h))) x) = incoming r x"
      unfolding incoming_def by (rule sum.cong) (use gout in \<open>auto simp: key eg domI\<close>)
    finally show ?thesis by (simp add: egk)
  qed
  have targets: "h \<in> set (edge_groups r key) \<Longrightarrow> live_group r h \<noteq> None \<and> h \<noteq> g" for h
    using edges live by (fastforce simp: edge_groups_def)
  have nog: "incoming r' g = 0"
  proof -
    have "g \<notin> set (edge_groups r (the (group_key r h)))" if "h \<in> dom (group_key r)" for h
      using that registry_okD(5) [OF ok, of h] live
      by (fastforce simp: edge_groups_def group_key_def group_ok_def)
    then have "incoming r g = 0" by (simp add: incoming_def count_list_0_iff)
    then show ?thesis using targets [of g] by (auto simp: inc count_list_0_iff)
  qed
  have "interned_ok r'"
  proof -
    have "map_of (tr_interned r') k = Some h \<longleftrightarrow> group_key r' h = Some k" for k h
      using registry_okD(3) [OF ok] it gout by (auto simp: interned_ok_def update_conv' key domIff)
    then show ?thesis
      using registry_okD(3) [OF ok] by (simp add: interned_ok_def it distinct_update)
  qed
  moreover have "live_group r' h \<noteq> None" if "group_of r' t = Some h" for t h
    using that live by (auto simp: go lg split: if_splits)
  moreover have "group_ok r' h rec" if "live_group r' h = Some rec" for h rec
  proof (cases "h = g")
    case True
    with that have "rec = \<lparr>gr_key = key, gr_members = ms, gr_refcount = 1\<rparr>" by (simp add: lg)
    then show ?thesis
      using ms lt(1) edges old fresh True by (auto simp: group_ok_def go dest: live)
  next
    case False
    with that obtain rec0 where rec0: "live_group r h = Some rec0" "gr_key rec = gr_key rec0"
      "gr_members rec = gr_members rec0" by (auto simp: lg)
    have "group_ok r h rec0" by (rule registry_okD(5) [OF ok rec0(1)])
    moreover have "live_type r' (gr_members rec0 ! i) = live_type r (gr_members rec0 ! i)"
      if "i < length (gr_key rec0)" for i
      using calculation that fresh nth_mem [of i "gr_members rec0"]
      by (intro lt(2)) (auto simp: group_ok_def)
    ultimately show ?thesis
      using False rec0 fresh old by (auto simp: group_ok_def go)
  qed
  moreover have "0 < gr_refcount rec \<and> gr_refcount rec \<le> u32_max \<and>
      gr_refcount rec = (ext(g := ext g + 1)) h + incoming r' h"
    if rec: "live_group r' h = Some rec" for h rec
  proof (cases "h = g")
    case True
    with rec have "rec = \<lparr>gr_key = key, gr_members = ms, gr_refcount = 1\<rparr>" by (simp add: lg)
    then show ?thesis using True registry_okD(8) [OF ok new] nog by simp
  next
    case False
    with rec obtain rec0 where rec0: "live_group r h = Some rec0"
      "gr_refcount rec = gr_refcount rec0 + count_list (edge_groups r key) h" by (auto simp: lg)
    have "gr_refcount rec \<le> u32_max"
      using cap [OF _ rec] rec0 registry_okD(7) [OF ok rec0(1)]
      by (cases "h \<in> set (edge_groups r key)") (auto simp: count_list_0_iff)
    then show ?thesis
      using False rec0(2) registry_okD(6,7) [OF ok rec0(1)] by (simp add: inc)
  qed
  moreover have "(ext(g := ext g + 1)) h = 0" if "live_group r' h = None" for h
    using that registry_okD(8) [OF ok, of h] by (auto simp: lg split: if_splits)
  ultimately show ?thesis using slots unfolding registry_ok_def by blast
qed

lemma take_group_slot_ok:
  assumes ok: "group_slots_ok r" and room: "length (tr_groups r) < 2 ^ 32"
  obtains g r' where "take_group_slot r = (Inr g, r')" and "live_group r g = None"
    and "g < length (tr_groups r')" and "live_group r' = live_group r" and "group_of r' = group_of r"
    and "live_type r' = live_type r" and "tr_interned r' = tr_interned r"
    and "tr_types r' = tr_types r" and "tr_type_to_group r' = tr_type_to_group r"
    and "tr_free_types r' = tr_free_types r" and "distinct (tr_free_groups r')"
    and "insert g (set (tr_free_groups r')) = {g. g < length (tr_groups r') \<and> live_group r g = None}"
    and "g \<notin> set (tr_free_groups r')"
proof (cases "tr_free_groups r = []")
  case True
  let ?r = "r\<lparr>tr_groups := tr_groups r @ [None]\<rparr>"
  have "live_group ?r = live_group r"
    by (auto simp: fun_eq_iff live_group_def get_at_def nth_append)
  moreover have "live_group r (length (tr_groups r)) = None" by (simp add: live_group_def get_at_def)
  moreover from this have "{length (tr_groups r)} = {g. g < length (tr_groups r @ [None]) \<and> live_group r g = None}"
    using ok True by (auto simp: group_slots_ok_def less_Suc_eq)
  ultimately show ?thesis
    using True room that [of "length (tr_groups r)" ?r] by (simp add: take_group_slot_def)
next
  case False
  then obtain ys y where fs: "tr_free_groups r = ys @ [y]" by (metis append_butlast_last_id)
  have "take_group_slot r = (Inr y, r\<lparr>tr_free_groups := ys\<rparr>)"
    by (cases ys) (simp_all add: take_group_slot_def fs)
  moreover have "insert y (set ys) = {g. g < length (tr_groups r) \<and> live_group r g = None}"
    and "distinct ys" "y \<notin> set ys"
    using ok by (auto simp: group_slots_ok_def fs)
  moreover from this have "y < length (tr_groups r)" "live_group r y = None" by auto
  ultimately show ?thesis using that [of y "r\<lparr>tr_free_groups := ys\<rparr>"] by simp
qed

lemma intern_group_adds:
  assumes ok: "registry_ok r ext" and new: "map_of (tr_interned r) key = None"
    and edges: "\<forall>e \<in> set (edge_canon_ids key). group_of r e \<noteq> None"
    and room: "length (tr_groups r) < 2 ^ 32" "length (tr_types r) + length key \<le> 2 ^ 32"
    and run: "intern_group key (length key) r = (Inr g, r')"
  shows "\<exists>ms. added r g key ms r'"
proof -
  obtain g1 r1 where r1: "take_group_slot r = (Inr g1, r1)" "live_group r g1 = None"
    "g1 < length (tr_groups r1)" "live_group r1 = live_group r" "group_of r1 = group_of r"
    "live_type r1 = live_type r" "tr_interned r1 = tr_interned r"
    "tr_types r1 = tr_types r" "tr_type_to_group r1 = tr_type_to_group r"
    "tr_free_types r1 = tr_free_types r" "distinct (tr_free_groups r1)"
    "insert g1 (set (tr_free_groups r1)) = {g. g < length (tr_groups r1) \<and> live_group r g = None}"
    "g1 \<notin> set (tr_free_groups r1)"
    using registry_okD(2) [OF ok] room(1) by (rule take_group_slot_ok)
  have "slots_ok r1 []" using registry_okD(1) [OF ok] r1 by (simp add: slots_ok_def)
  moreover have "length (tr_types r1) + length key \<le> 2 ^ 32" using room(2) r1 by simp
  ultimately obtain ms r2 where r2: "take_type_slots (length key) r1 = (Inr ms, r2)" "slots_ok r2 ms"
    "length ms = length key" "group_of r2 = group_of r1" "live_type r2 = live_type r1"
    "tr_groups r2 = tr_groups r1" "tr_interned r2 = tr_interned r1" "tr_free_groups r2 = tr_free_groups r1"
    using take_type_slots_ok [of r1 "[]" "length key"] by auto
  have ms: "distinct ms" "\<forall>m \<in> set ms. m < length (tr_types r2) \<and> group_of r m = None"
    using r2(2,4) r1(5) by (auto simp: slots_ok_def)
  obtain r3 where r3: "store_members g1 ms 0 key r2 = (Inr (), r3)"
    "group_of r3 = (\<lambda>t. if t \<in> set ms then Some g1 else group_of r2 t)"
    "\<forall>i < length ms. live_type r3 (ms ! i) = Some (canon_of ms (key ! i))"
    "\<forall>t. t \<notin> set ms \<longrightarrow> live_type r3 t = live_type r2 t"
    "length (tr_types r3) = length (tr_types r2)" "length (tr_type_to_group r3) = length (tr_types r3)"
    "tr_groups r3 = tr_groups r2" "tr_interned r3 = tr_interned r2"
    "tr_free_types r3 = tr_free_types r2" "tr_free_groups r3 = tr_free_groups r2"
    using store_members_ok [of 0 key ms r2 g1] r2 ms by (auto simp: slots_ok_def)
  have old: "group_of r3 e = group_of r e" if "group_of r e \<noteq> None" for e
    using that ms r1 r2 by (auto simp: r3(2))
  then have own: "map (\<lambda>e. the (group_of r3 e)) (edge_canon_ids key) = edge_groups r key"
    using edges by (auto simp: edge_groups_def)
  from run new r1(1) r2(1) r3(1) obtain r4 where r4: "incref_edges (edge_canon_ids key) r3 = (Inr (), r4)"
    "g = g1" "r' = r4\<lparr>tr_groups := (tr_groups r4)[g := Some \<lparr>gr_key = key, gr_members = ms, gr_refcount = 1\<rparr>],
      tr_interned := AList.update key g (tr_interned r4)\<rparr>"
    by (auto simp: intern_group_def bindc_eq_Inr)
  have "\<forall>e \<in> set (edge_canon_ids key). group_of r3 e \<noteq> None" using edges old by simp
  from incref_edges_ok [OF r4(1) this, unfolded own] obtain gs where gs: "r4 = r3\<lparr>tr_groups := gs\<rparr>"
    "length gs = length (tr_groups r3)"
    "\<forall>h. live_group r4 h = map_option (add_refs (count_list (edge_groups r key) h)) (live_group r3 h)"
    "\<forall>h. h \<in> set (edge_groups r key) \<longrightarrow> (\<exists>rec. live_group r4 h = Some rec \<and> gr_refcount rec \<le> u32_max)"
    by auto
  have lg3: "live_group r3 = live_group r"
    using r1(4) r2(6) r3(7) by (simp add: live_group_def fun_eq_iff)
  have g: "g < length (tr_groups r4)" using gs r4(2) r1(3) r2(6) r3(7) by simp
  have lg: "live_group r' = (live_group r4)(g := Some \<lparr>gr_key = key, gr_members = ms, gr_refcount = 1\<rparr>)"
    using g by (simp add: r4(3) live_group_set)
  have go: "group_of r' = (\<lambda>t. if t \<in> set ms then Some g else group_of r t)"
    using r1 r2 r3 r4(2) by (simp add: r4(3) gs(1) cong: if_cong)
  have lt: "live_type r' = live_type r3" by (simp add: r4(3) gs(1))
  have "slots_ok r' []"
  proof -
    have "live_type r3 t = None \<longleftrightarrow> group_of r' t = None" for t
    proof (cases "t \<in> set ms")
      case True
      then show ?thesis using r3(3) by (auto simp: go in_set_conv_nth)
    next
      case False
      then show ?thesis using r3(4) r2(2,4,5) r1(5) by (simp add: go slots_ok_def)
    qed
    moreover have "set (tr_free_types r2) = {t. t < length (tr_types r2) \<and> group_of r' t = None}"
      using r2(2,4) r1(5) ms(2) unfolding slots_ok_def go by auto
    ultimately show ?thesis
      using r2(2) r3(5,6,9) unfolding slots_ok_def lt by (simp add: r4(3) gs(1))
  qed
  moreover have "group_slots_ok r'"
  proof -
    have "tr_free_groups r' = tr_free_groups r1" "length (tr_groups r') = length (tr_groups r1)"
      using r2(6,8) r3(7,10) gs(2) by (simp_all add: r4(3) gs(1))
    moreover have "live_group r' x = None \<longleftrightarrow> x \<noteq> g \<and> live_group r x = None" for x
      using gs(3) lg3 by (simp add: lg)
    ultimately show ?thesis
      using r1(11-13) r4(2) unfolding group_slots_ok_def by auto
  qed
  ultimately have "added r g key ms r'"
    unfolding added_def using r1 r2 r3 r4 gs ms new lg go lt lg3 by (auto simp: fun_eq_iff)
  then show ?thesis by blast
qed

lemma incref_group_ok:
  assumes ok: "registry_ok r ext" and run: "incref_group g r = (Inr (), r')"
  shows "registry_ok r' (ext(g := ext g + 1)) \<and> group_key r' = group_key r"
proof -
  from run obtain rec where rec: "live_group r g = Some rec" "gr_refcount rec < u32_max"
    "r' = r\<lparr>tr_groups := (tr_groups r)[g := Some (add_refs 1 rec)]\<rparr>"
    by (auto simp: incref_group_Inr)
  let ?n = "\<lambda>h. gr_refcount (the (live_group r h)) + (if h = g then 1 else 0)"
  have upd: "live_group r' = (live_group r)(g := Some (add_refs 1 rec))"
    using rec by (simp add: live_group_set live_group_Some)
  have lg: "live_group r' h = map_option (\<lambda>rec. rec\<lparr>gr_refcount := ?n h\<rparr>) (live_group r h)" for h
    using rec(1) by (cases "live_group r h") (auto simp: upd add_refs_def)
  have "registry_ok r' (ext(g := ext g + 1))"
    by (rule registry_ok_refs [OF ok rec(3) _ lg])
      (use rec registry_okD(6-8) [OF ok] in fastforce)+
  moreover have "group_key r' = group_key r"
    using rec(1) by (auto simp: fun_eq_iff group_key_def upd)
  ultimately show ?thesis by simp
qed

text \<open>Interning: the count of the group grows by one registration, the group found under the
  returned id has the key asked for, and no live type or group is disturbed.\<close>

lemma intern_group_ok:
  assumes ok: "registry_ok r ext"
    and edges: "\<forall>e \<in> set (edge_canon_ids key). group_of r e \<noteq> None"
    and room: "length (tr_groups r) < 2 ^ 32" "length (tr_types r) + length key \<le> 2 ^ 32"
    and run: "intern_group key (length key) r = (Inr g, r')"
  shows "registry_ok r' (ext(g := ext g + 1))" and "group_key r' = (group_key r)(g := Some key)"
    and "group_of r t = Some h \<Longrightarrow> group_of r' t = Some h \<and> live_type r' t = live_type r t"
proof -
  have "registry_ok r' (ext(g := ext g + 1)) \<and> group_key r' = (group_key r)(g := Some key) \<and>
    (\<forall>t h. group_of r t = Some h \<longrightarrow> group_of r' t = Some h \<and> live_type r' t = live_type r t)"
  proof (cases "map_of (tr_interned r) key")
    case None
    from intern_group_adds [OF ok None edges room run] obtain ms where add: "added r g key ms r'" ..
    have "group_of r' t = Some h \<and> live_type r' t = live_type r t" if "group_of r t = Some h" for t h
    proof -
      have "t \<notin> set ms" using add that by (auto simp: added_def)
      then show ?thesis using add that by (simp add: added_def)
    qed
    moreover have "group_key r' = (group_key r)(g := Some key)"
      using add by (auto simp: added_def fun_eq_iff group_key_def option.map_comp comp_def)
    ultimately show ?thesis using added_registry_ok [OF ok add edges] by simp
  next
    case (Some g')
    with run have inc: "incref_group g r = (Inr (), r')" and g: "g' = g"
      by (auto simp: intern_group_def bindc_eq_Inr)
    from Some g have key: "group_key r g = Some key"
      using registry_okD(3) [OF ok] by (simp add: interned_ok_def)
    from inc have "group_of r' = group_of r" "live_type r' = live_type r"
      by (auto simp: incref_group_Inr)
    with incref_group_ok [OF ok inc] key show ?thesis by (auto simp: fun_upd_idem)
  qed
  then show "registry_ok r' (ext(g := ext g + 1))" "group_key r' = (group_key r)(g := Some key)"
    "group_of r t = Some h \<Longrightarrow> group_of r' t = Some h \<and> live_type r' t = live_type r t"
    by blast+
qed

lemma empty_registry_ok: "registry_ok empty_registry (\<lambda>_. 0)"
  by (simp add: registry_ok_def slots_ok_def group_slots_ok_def interned_ok_def empty_registry_def
      group_of_def live_type_def live_group_def group_key_def get_at_def)

end
