(* ===== verification/Registry_Client.thy ===== *)
theory Registry_Client
  imports Registry_Inv
begin

text \<open>
  The registry as its clients drive it: modules and host types intern groups, handles are cloned
  and dropped. A client state is the registry together with the registrations held outside it;
  the reachable states keep the registry's invariant, their groups are ordered by their
  cross-group references, nothing leaks, ids are canonical, and where supertypes precede their
  subtypes the subtype walk ends.
\<close>

section \<open>Client steps\<close>

text \<open>Declared supertypes precede their subtypes within a group: a validation rule of the type
  section, so every module's groups have it. The embedder's group builder does not check it
  (\<^verbatim>\<open>Rec_Group\<close>), so the clients below may intern groups without it, and what depends on it says
  so.\<close>

definition supers_ordered :: "cgroup \<Rightarrow> bool" where
  "supers_ordered key \<longleftrightarrow>
     (\<forall>i < length key. case cty_supertype (key ! i) of Some (Rel p) \<Rightarrow> p < i | _ \<Rightarrow> True)"

inductive client_step :: "type_registry \<times> (group_id \<Rightarrow> nat) \<Rightarrow> type_registry \<times> (group_id \<Rightarrow> nat) \<Rightarrow> bool" where
  intern: "\<lbrakk>\<forall>e \<in> set (edge_canon_ids key). group_of r e \<noteq> None;
      length (tr_groups r) < 2 ^ 32; length (tr_types r) + length key \<le> 2 ^ 32;
      intern_group key (length key) r = (Inr g, r')\<rbrakk>
    \<Longrightarrow> client_step (r, ext) (r', ext(g := ext g + 1))"
| clone: "\<lbrakk>group_of r t = Some g; incref_type t r = (Inr (), r')\<rbrakk>
    \<Longrightarrow> client_step (r, ext) (r', ext(g := ext g + 1))"
| drop: "\<lbrakk>0 < ext g; decref_group g r = (Inr (), r')\<rbrakk>
    \<Longrightarrow> client_step (r, ext) (r', ext(g := ext g - 1))"

definition client_start :: "type_registry \<times> (group_id \<Rightarrow> nat)" where
  "client_start = (empty_registry, \<lambda>_. 0)"

text \<open>A rank that falls along every cross-group reference.\<close>

definition ranked :: "type_registry \<Rightarrow> (group_id \<Rightarrow> nat) \<Rightarrow> bool" where
  "ranked r rank \<longleftrightarrow> (\<forall>g key e h. group_key r g = Some key \<longrightarrow> e \<in> set (edge_canon_ids key) \<longrightarrow>
     group_of r e = Some h \<longrightarrow> rank h < rank g)"

definition client_inv :: "type_registry \<times> (group_id \<Rightarrow> nat) \<Rightarrow> bool" where
  "client_inv = (\<lambda>(r, ext). registry_ok r ext \<and> (\<exists>rank. ranked r rank))"

definition ordered_registry :: "type_registry \<Rightarrow> bool" where
  "ordered_registry r \<longleftrightarrow> (\<forall>g key. group_key r g = Some key \<longrightarrow> supers_ordered key)"

section \<open>Releases only shrink the registry\<close>

definition shrinks :: "type_registry \<Rightarrow> type_registry \<Rightarrow> bool" where
  "shrinks r r' \<longleftrightarrow> group_key r' \<subseteq>\<^sub>m group_key r \<and> group_of r' \<subseteq>\<^sub>m group_of r"

lemma shrinks_refl [simp]: "shrinks r r"
  by (simp add: shrinks_def)

lemma shrinks_trans: "shrinks r s \<Longrightarrow> shrinks s t \<Longrightarrow> shrinks r t"
  by (auto simp: shrinks_def intro: map_le_trans)

lemma shrinks_set_type: "set_type m ty None r = (Inr (), r') \<Longrightarrow> shrinks r r'"
  by (auto simp: set_type_def shrinks_def map_le_def group_key_def live_group_def group_of_def
      get_at_def nth_list_update split: if_splits)

lemma shrinks_free_members: "free_members ms r = (Inr (), r') \<Longrightarrow> shrinks r r'"
proof (induction ms arbitrary: r)
  case (Cons m ms)
  then obtain s where s: "set_type m None None r = (Inr (), s)"
    and rest: "free_members ms (s\<lparr>tr_free_types := tr_free_types s @ [m]\<rparr>) = (Inr (), r')"
    by (auto simp: bindc_eq_Inr)
  have "shrinks s (s\<lparr>tr_free_types := tr_free_types s @ [m]\<rparr>)"
    by (simp add: shrinks_def group_key_def [abs_def])
  with shrinks_set_type [OF s] Cons.IH [OF rest] show ?case by (blast intro: shrinks_trans)
qed simp

lemma shrinks_drop_group:
  "live_group r g = Some rec \<Longrightarrow> x = None \<or> (\<exists>rec'. x = Some rec' \<and> gr_key rec' = gr_key rec) \<Longrightarrow>
     shrinks r (r\<lparr>tr_groups := (tr_groups r)[g := x], tr_interned := it\<rparr>)"
  by (auto simp: shrinks_def map_le_def group_key_def live_group_Some live_group_def get_at_def
      nth_list_update split: if_splits)

lemma shrinks_decref_one: "decref_one g r = (Inr gs, r') \<Longrightarrow> shrinks r r'"
proof -
  assume run: "decref_one g r = (Inr gs, r')"
  then obtain rec where rec: "live_group r g = Some rec" by (auto simp: decref_one_def split: option.splits)
  let ?rec = "rec\<lparr>gr_refcount := gr_refcount rec - 1\<rparr>"
  let ?s = "r\<lparr>tr_groups := (tr_groups r)[g := Some ?rec]\<rparr>"
  have s: "shrinks r ?s" using shrinks_drop_group [OF rec, of "Some ?rec" "tr_interned r"] by simp
  show "shrinks r r'"
  proof (cases "0 < gr_refcount rec - 1")
    case True
    with run rec s show ?thesis by (auto simp: decref_one_def checked_sub_def Let_def split: if_splits)
  next
    case False
    with run rec have "reclaim_group g ?rec ?s = (Inr gs, r')"
      by (auto simp: decref_one_def checked_sub_def Let_def split: if_splits)
    then obtain u where u: "free_members (gr_members rec)
        (r\<lparr>tr_groups := (tr_groups r)[g := None], tr_interned := AList.delete (gr_key rec) (tr_interned r)\<rparr>) = (Inr (), u)"
      and r': "r' = u\<lparr>tr_free_groups := tr_free_groups u @ [g]\<rparr>"
      by (auto simp: reclaim_group_def bindc_eq_Inr)
    have "shrinks u r'" by (simp add: r' shrinks_def group_key_def [abs_def])
    with shrinks_drop_group [OF rec, of None] shrinks_free_members [OF u] show ?thesis
      by (blast intro: shrinks_trans)
  qed
qed

lemma shrinks_decref_loop: "decref_loop stack r = (Inr (), r') \<Longrightarrow> shrinks r r'"
proof (induction stack r rule: decref_loop.induct)
  case (1 stack r)
  show ?case
  proof (cases "stack = []")
    case True
    then show ?thesis using 1 by (simp add: decref_loop.simps)
  next
    case False
    with 1(2) obtain gs s where s: "decref_one (last stack) r = (Inr gs, s)"
      "decref_loop (butlast stack @ gs) s = (Inr (), r')"
      by (subst (asm) decref_loop.simps) (auto split: prod.splits sum.splits)
    from 1(1) [OF False s(1) [symmetric] refl] s show ?thesis
      by (blast intro: shrinks_trans shrinks_decref_one)
  qed
qed

lemma shrinks_ranked:
  assumes "shrinks r r'" and "ranked r rank"
  shows "ranked r' rank"
proof -
  have "group_key r' g = Some k \<Longrightarrow> group_key r g = Some k" "group_of r' e = Some h \<Longrightarrow> group_of r e = Some h"
    for g k e h using assms(1) by (auto simp: shrinks_def map_le_def domI) (metis domI)+
  with assms(2) show ?thesis unfolding ranked_def by blast
qed

section \<open>Reachable states\<close>

lemma intern_ranked:
  assumes ok: "registry_ok r ext" and rank: "ranked r rank"
    and edges: "\<forall>e \<in> set (edge_canon_ids key). group_of r e \<noteq> None"
    and room: "length (tr_groups r) < 2 ^ 32" "length (tr_types r) + length key \<le> 2 ^ 32"
    and run: "intern_group key (length key) r = (Inr g, r')"
  shows "\<exists>rank'. ranked r' rank'"
proof (cases "group_key r g = Some key")
  case True
  have gk: "group_key r' = group_key r" and go: "\<And>t h. group_of r t = Some h \<Longrightarrow> group_of r' t = Some h"
    using intern_group_ok [OF ok edges room run] True by (auto simp: fun_upd_idem)
  have "group_of r e = Some h" if "group_key r g' = Some k" "e \<in> set (edge_canon_ids k)"
    "group_of r' e = Some h" for g' k e h
  proof -
    from that(1) obtain rec where "live_group r g' = Some rec" "gr_key rec = k"
      by (auto simp: group_key_def)
    with registry_okD(5) [OF ok] that(2) have "group_of r e \<noteq> None" by (auto simp: group_ok_def)
    with go that(3) show ?thesis by fastforce
  qed
  with rank show ?thesis unfolding ranked_def gk by blast
next
  case False
  have nk: "map_of (tr_interned r) key = None"
  proof (rule ccontr)
    assume "\<not> ?thesis"
    then obtain g' where "map_of (tr_interned r) key = Some g'" by auto
    moreover from this run have "g' = g" by (auto simp: intern_group_def bindc_eq_Inr)
    ultimately show False using registry_okD(3) [OF ok] False by (simp add: interned_ok_def)
  qed
  obtain ms where add: "added r g key ms r'" using intern_group_adds [OF ok nk edges room run] ..
  have gk: "group_key r' = (group_key r)(g := Some key)" by (rule intern_group_ok(2) [OF ok edges room run])
  have go: "\<And>t h. group_of r t = Some h \<Longrightarrow> group_of r' t = Some h"
    using intern_group_ok(3) [OF ok edges room run] by blast
  have live: "group_of r t = Some h \<Longrightarrow> h \<noteq> g" for t h
    using registry_okD(4) [OF ok, of t h] add by (auto simp: added_def)
  let ?rank = "rank(g := Suc (sum_list (map rank (edge_groups r key))))"
  have "?rank h < ?rank g'" if g': "group_key r' g' = Some k" "e \<in> set (edge_canon_ids k)"
    "group_of r' e = Some h" for g' k e h
  proof (cases "g' = g")
    case True
    with g' gk have e: "e \<in> set (edge_canon_ids key)" by simp
    with edges obtain h' where h': "group_of r e = Some h'" by auto
    with go g'(3) have "h' = h" by fastforce
    with h' e have "h \<in> set (edge_groups r key)" by (force simp: edge_groups_def)
    then have "rank h \<le> sum_list (map rank (edge_groups r key))"
      by (auto intro: member_le_sum_list)
    then show ?thesis using True live [OF h'] \<open>h' = h\<close> by simp
  next
    case False
    with g' gk have k: "group_key r g' = Some k" by simp
    then obtain rec where "live_group r g' = Some rec" "gr_key rec = k" by (auto simp: group_key_def)
    with registry_okD(5) [OF ok] g'(2) obtain h' where h': "group_of r e = Some h'"
      by (fastforce simp: group_ok_def)
    with go g'(3) have "h' = h" by fastforce
    with rank k g'(2) h' have "rank h < rank g'" by (auto simp: ranked_def)
    then show ?thesis using False live [OF h'] \<open>h' = h\<close> by simp
  qed
  then show ?thesis unfolding ranked_def by blast
qed

lemma client_step_inv:
  assumes "client_step s s'" and "client_inv s"
  shows "client_inv s'"
  using assms
proof (induction rule: client_step.induct)
  case (intern key r g r' ext)
  then have ok: "registry_ok r ext" by (simp add: client_inv_def)
  note i = intern_group_ok [OF ok intern(1,2,3,4)]
  from intern obtain rank where "ranked r rank" by (auto simp: client_inv_def)
  from intern_ranked [OF ok this intern(1,2,3,4)] i(1,2) intern show ?case
    by (auto simp: client_inv_def)
next
  case (clone r t g r' ext)
  then have inc: "incref_group g r = (Inr (), r')" and ok: "registry_ok r ext"
    by (auto simp: incref_type_def client_inv_def)
  from inc have "group_of r' = group_of r" by (auto simp: incref_group_Inr)
  with incref_group_ok [OF ok inc] clone(3) show ?case by (simp add: client_inv_def ranked_def)
next
  case (drop ext g r r')
  then have ok: "registry_ok r ext" by (simp add: client_inv_def)
  from drop have sh: "shrinks r r'" by (simp add: decref_group_def shrinks_decref_loop)
  from decref_group_ok [OF ok drop(1)] drop(2) have "registry_ok r' (ext(g := ext g - 1))" by simp
  moreover from drop(3) shrinks_ranked [OF sh] have "\<exists>rank. ranked r' rank"
    by (auto simp: client_inv_def)
  ultimately show ?case by (auto simp: client_inv_def)
qed

lemma client_reachable_inv:
  assumes "client_step\<^sup>*\<^sup>* client_start s"
  shows "client_inv s"
  using assms
proof (induction rule: rtranclp_induct)
  case base
  show ?case
    using empty_registry_ok
    by (simp add: client_inv_def client_start_def ranked_def group_key_def live_group_def
        empty_registry_def get_at_def)
qed (rule client_step_inv)

section \<open>Nothing leaks\<close>

lemma incoming_pos:
  assumes "0 < incoming r g"
  obtains h key e where "group_key r h = Some key" "e \<in> set (edge_canon_ids key)" "the (group_of r e) = g"
proof -
  have "\<exists>h \<in> dom (group_key r). count_list (edge_groups r (the (group_key r h))) g \<noteq> 0"
  proof (rule ccontr)
    assume "\<not> ?thesis"
    then have "incoming r g = 0" unfolding incoming_def by (intro sum.neutral) blast
    with assms show False by simp
  qed
  then obtain h where h: "h \<in> dom (group_key r)" "g \<in> set (edge_groups r (the (group_key r h)))"
    by (auto simp: count_list_0_iff)
  from h(1) obtain key where key: "group_key r h = Some key" by auto
  with h(2) obtain e where "e \<in> set (edge_canon_ids key)" "the (group_of r e) = g"
    by (auto simp: edge_groups_def)
  with key show ?thesis by (rule that)
qed

lemma no_leak:
  assumes "client_inv (r, \<lambda>_. 0)"
  shows "live_group r g = None"
proof (rule ccontr)
  assume "live_group r g \<noteq> None"
  then have ne: "dom (live_group r) \<noteq> {}" by auto
  from assms obtain rank where ok: "registry_ok r (\<lambda>_. 0)" and rank: "ranked r rank"
    by (auto simp: client_inv_def)
  obtain m where m: "m \<in> dom (live_group r)" "\<And>h. h \<in> dom (live_group r) \<Longrightarrow> rank h \<le> rank m"
    using ne finite_ranking_induct [where S = "dom (live_group r)" and f = rank and
        P = "\<lambda>S. S \<noteq> {} \<longrightarrow> (\<exists>m \<in> S. \<forall>h \<in> S. rank h \<le> rank m)"] by auto
  from m(1) obtain rec where rec: "live_group r m = Some rec" by auto
  have "0 < incoming r m" using registry_okD(6,7) [OF ok rec] by simp
  then obtain h key e where h: "group_key r h = Some key" "e \<in> set (edge_canon_ids key)"
    "the (group_of r e) = m" by (rule incoming_pos)
  from h(1) obtain rec' where rec': "live_group r h = Some rec'" "gr_key rec' = key"
    by (auto simp: group_key_def)
  with registry_okD(5) [OF ok rec'(1)] h(2,3) have "group_of r e = Some m" by (auto simp: group_ok_def)
  with rank h(1,2) have "rank m < rank h" by (auto simp: ranked_def)
  moreover have "h \<in> dom (live_group r)" using rec' by auto
  ultimately show False using m(2) by fastforce
qed

section \<open>The subtype walk\<close>

definition super_of :: "type_registry \<Rightarrow> canonical_type_id \<Rightarrow> canonical_type_id option" where
  "super_of r t = Option.bind (live_type r t) ct_supertype"

definition super_rel :: "type_registry \<Rightarrow> (canonical_type_id \<times> canonical_type_id) set" where
  "super_rel r = {(t, u). super_of r t = Some u}"

text \<open>A type is placed by its group and its position there.\<close>

lemma live_type_place:
  assumes ok: "registry_ok r ext" and ty: "live_type r t = Some ty"
  obtains g rec i where "live_group r g = Some rec" "group_of r t = Some g" "i < length (gr_key rec)"
    "gr_members rec ! i = t" "ty = canon_of (gr_members rec) (gr_key rec ! i)"
proof -
  have "live_type r t = None \<longleftrightarrow> group_of r t = None"
    using registry_okD(1) [OF ok] unfolding slots_ok_def by blast
  with ty have "group_of r t \<noteq> None" by simp
  then obtain g where g: "group_of r t = Some g" by auto
  with registry_okD(4) [OF ok] obtain rec where rec: "live_group r g = Some rec" by fastforce
  have gok: "group_ok r g rec" by (rule registry_okD(5) [OF ok rec])
  with g have "t \<in> set (gr_members rec)" by (simp add: group_ok_def)
  with gok obtain i where i: "i < length (gr_key rec)" "gr_members rec ! i = t"
    by (auto simp: in_set_conv_nth group_ok_def)
  with gok ty have "ty = canon_of (gr_members rec) (gr_key rec ! i)" by (auto simp: group_ok_def)
  with that rec g i show ?thesis by blast
qed

definition position :: "type_registry \<Rightarrow> canonical_type_id \<Rightarrow> nat" where
  "position r t = (case group_of r t of None \<Rightarrow> 0
     | Some g \<Rightarrow> (LEAST i. gr_members (the (live_group r g)) ! i = t))"

lemma position_member:
  assumes ok: "registry_ok r ext" and rec: "live_group r g = Some rec" and i: "i < length (gr_key rec)"
  shows "group_of r (gr_members rec ! i) = Some g" and "position r (gr_members rec ! i) = i"
proof -
  have gok: "group_ok r g rec" by (rule registry_okD(5) [OF ok rec])
  then have "gr_members rec ! i \<in> set (gr_members rec)" using i by (intro nth_mem) (simp add: group_ok_def)
  with gok show go: "group_of r (gr_members rec ! i) = Some g" by (simp add: group_ok_def)
  have "(LEAST j. gr_members rec ! j = gr_members rec ! i) = i"
  proof (rule Least_equality)
    fix j assume j: "gr_members rec ! j = gr_members rec ! i"
    show "i \<le> j"
    proof (rule ccontr)
      assume "\<not> i \<le> j"
      with gok i have "j < length (gr_members rec)" "i < length (gr_members rec)"
        by (auto simp: group_ok_def)
      with gok j have "j = i" by (simp add: group_ok_def nth_eq_iff_index_eq)
      with \<open>\<not> i \<le> j\<close> show False by simp
    qed
  qed simp
  with go rec show "position r (gr_members rec ! i) = i" by (simp add: position_def)
qed

lemma super_edge:
  assumes "cty_supertype (key ! i) = Some (Canon c)" and "i < length key"
  shows "c \<in> set (edge_canon_ids key)"
proof -
  have "c \<in> set (type_canon_ids (key ! i))" using assms(1) by (simp add: type_canon_ids_def)
  with assms(2) show ?thesis unfolding edge_canon_ids_def by (auto intro!: bexI [of _ "key ! i"])
qed

lemma super_rel_decreases:
  assumes ok: "registry_ok r ext" and rank: "ranked r rank"
    and ord: "\<And>g key. group_key r g = Some key \<Longrightarrow> supers_ordered key"
    and sup: "super_of r t = Some u"
  shows "(u, t) \<in> inv_image (less_than <*lex*> less_than) (\<lambda>t. (rank (the (group_of r t)), position r t))"
proof -
  from sup obtain ty where ty: "live_type r t = Some ty" "ct_supertype ty = Some u"
    by (auto simp: super_of_def split: Option.bind_splits)
  obtain g rec i where p: "live_group r g = Some rec" "group_of r t = Some g" "i < length (gr_key rec)"
    "gr_members rec ! i = t" "ty = canon_of (gr_members rec) (gr_key rec ! i)"
    by (rule live_type_place [OF ok ty(1)])
  have key: "group_key r g = Some (gr_key rec)" using p(1) by (simp add: group_key_def)
  from ty(2) p(5) obtain c where c: "cty_supertype (gr_key rec ! i) = Some c" "resolve (gr_members rec) c = u"
    by (auto simp: canon_of_def)
  show "(u, t) \<in> inv_image (less_than <*lex*> less_than) (\<lambda>t. (rank (the (group_of r t)), position r t))"
  proof (cases c)
    case (Rel q)
    with c ord [OF key] p(3) have "q < i" by (auto simp: supers_ordered_def dest!: spec [of _ i])
    moreover from Rel c have "u = gr_members rec ! q" by (simp add: resolve_def)
    ultimately show ?thesis
      using position_member [OF ok p(1), of q] position_member [OF ok p(1) p(3)] p(3,4) by simp
  next
    case (Canon q)
    with c have "u = q" by (simp add: resolve_def)
    with c Canon p(3) have e: "u \<in> set (edge_canon_ids (gr_key rec))" by (auto intro: super_edge)
    with registry_okD(5) [OF ok p(1)] obtain h where "group_of r u = Some h"
      by (auto simp: group_ok_def)
    with rank key e have "rank h < rank g" by (auto simp: ranked_def)
    with \<open>group_of r u = Some h\<close> p(2) show ?thesis by simp
  qed
qed

text \<open>In a reachable registry the walk returns, with the reflexive and transitive closure of the
  declared supertypes.\<close>

lemma is_subtype_closure:
  assumes inv: "client_inv (r, ext)" and ordered: "ordered_registry r"
  shows "is_subtype r a b = Some ((a, b) \<in> (super_rel r)\<^sup>*)"
proof -
  from inv obtain rank where ok: "registry_ok r ext" and rank: "ranked r rank"
    by (auto simp: client_inv_def)
  have ord: "supers_ordered key" if "group_key r g = Some key" for g key using ordered that by (simp add: ordered_registry_def)
  let ?m = "inv_image (less_than <*lex*> less_than) (\<lambda>t. (rank (the (group_of r t)), position r t))"
  have "wf ?m" by (intro wf_inv_image wf_lex_prod wf_less_than)
  then show ?thesis
  proof (induction a rule: wf_induct_rule)
    case (less a)
    show ?case
    proof (cases "a = b")
      case True
      then show ?thesis by (simp add: is_subtype.simps)
    next
      case ne: False
      show ?thesis
      proof (cases "super_of r a")
        case None
        then have "(a, b) \<notin> (super_rel r)\<^sup>*"
          using ne by (auto simp: super_rel_def elim: converse_rtranclE)
        with None ne show ?thesis by (simp add: is_subtype.simps super_of_def)
      next
        case (Some u)
        have "(a, b) \<in> (super_rel r)\<^sup>* \<longleftrightarrow> (u, b) \<in> (super_rel r)\<^sup>*"
          using Some ne by (auto simp: super_rel_def elim: converse_rtranclE intro: converse_rtrancl_into_rtrancl)
        moreover have "is_subtype r u b = Some ((u, b) \<in> (super_rel r)\<^sup>*)"
          by (rule less.IH) (rule super_rel_decreases [OF ok rank ord Some])
        ultimately show ?thesis using Some ne by (subst is_subtype.simps) (simp add: super_of_def)
      qed
    qed
  qed
qed

lemma super_rel_acyclic:
  assumes inv: "client_inv (r, ext)" and ordered: "ordered_registry r"
  shows "acyclic (super_rel r)"
proof -
  from inv obtain rank where ok: "registry_ok r ext" and rank: "ranked r rank"
    by (auto simp: client_inv_def)
  have ord: "supers_ordered key" if "group_key r g = Some key" for g key using ordered that by (simp add: ordered_registry_def)
  let ?m = "inv_image (less_than <*lex*> less_than) (\<lambda>t. (rank (the (group_of r t)), position r t))"
  have "(super_rel r)\<inverse> \<subseteq> ?m"
  proof (rule subsetI)
    fix p assume "p \<in> (super_rel r)\<inverse>"
    then obtain u t where p: "p = (u, t)" "super_of r t = Some u" by (auto simp: super_rel_def)
    show "p \<in> ?m" unfolding p(1) by (rule super_rel_decreases [OF ok rank ord p(2)])
  qed
  moreover have "wf ?m" by (intro wf_inv_image wf_lex_prod wf_less_than)
  ultimately have "wf ((super_rel r)\<inverse>)" by (rule wf_subset [rotated])
  then have "acyclic ((super_rel r)\<inverse>)" by (rule wf_acyclic)
  then show ?thesis by (simp only: acyclic_converse)
qed

section \<open>Canonical identity\<close>

text \<open>Two live types with the same id have the same owner, and two live groups with the same key
  are one group: ids are equal exactly for equal structure.\<close>

lemma key_unique:
  assumes "registry_ok r ext" and "group_key r g = Some key" and "group_key r h = Some key"
  shows "g = h"
proof -
  have "map_of (tr_interned r) key = Some g" "map_of (tr_interned r) key = Some h"
    using registry_okD(3) [OF assms(1)] assms(2,3) by (simp_all add: interned_ok_def)
  then show ?thesis by simp
qed

lemma intern_group_existing:
  assumes "registry_ok r ext" and "group_key r g = Some key" and "intern_group key n r = (Inr h, r')"
  shows "h = g"
proof -
  have "map_of (tr_interned r) key = Some g"
    using registry_okD(3) [OF assms(1)] assms(2) by (simp add: interned_ok_def)
  with assms(3) show ?thesis by (auto simp: intern_group_def bindc_eq_Inr)
qed

end
