(* ===== verification/Registry_Module.thy ===== *)
theory Registry_Module
  imports Registry_Client
begin

text \<open>
  Interning the types of a module (\<^verbatim>\<open>intern_module\<close>, \<^verbatim>\<open>build_key\<close>): what the returned ids and group
  ids mean, and that the identity they give is canonical: interning the same types again, in any
  later state in which the groups are still live, returns the same ids.
\<close>

section \<open>The references of a module type\<close>

definition val_refs :: "ir_val \<Rightarrow> nat list" where
  "val_refs v = (case v of IvRef _ (IhConcrete m _) \<Rightarrow> [m] | _ \<Rightarrow> [])"

definition field_refs :: "ir_field \<Rightarrow> nat list" where
  "field_refs f = (case irf_storage f of IsVal v \<Rightarrow> val_refs v | _ \<Rightarrow> [])"

definition body_refs :: "composite_body \<Rightarrow> nat list" where
  "body_refs b = (case b of
     CompFunc ps rs \<Rightarrow> concat (map val_refs (ps @ rs))
   | CompStruct fs \<Rightarrow> concat (map field_refs fs)
   | CompArray f \<Rightarrow> field_refs f)"

definition type_refs :: "module_type \<Rightarrow> nat list" where
  "type_refs t = (case mt_supertype t of None \<Rightarrow> [] | Some m \<Rightarrow> [m]) @ body_refs (mt_body t)"

text \<open>A validated type section: a type refers to types of earlier groups and of its own.\<close>

definition module_wf :: "module_type list \<Rightarrow> bool" where
  "module_wf types \<longleftrightarrow> (\<forall>i < length types. \<forall>m \<in> set (type_refs (types ! i)). m < group_end types i)"

lemma val_key_cong: "(\<And>m. m \<in> set (val_refs v) \<Longrightarrow> c m = d m) \<Longrightarrow> val_key c v = val_key d v"
  by (auto simp: val_key_def heap_key_def val_refs_def split: ir_val.split ir_heap.split)

lemma field_key_cong: "(\<And>m. m \<in> set (field_refs f) \<Longrightarrow> c m = d m) \<Longrightarrow> field_key c f = field_key d f"
  by (auto simp: field_key_def field_refs_def split: ir_storage.split intro: val_key_cong)

lemma ctype_of_cong: "(\<And>m. m \<in> set (type_refs t) \<Longrightarrow> c m = d m) \<Longrightarrow> ctype_of c t = ctype_of d t"
  unfolding ctype_of_def body_key_def type_refs_def body_refs_def
  by (cases "mt_supertype t"; cases "mt_body t")
    (auto intro!: val_key_cong field_key_cong map_cong)

lemma val_key_ids: "set (val_canon_ids (val_key c v)) = {e. \<exists>m \<in> set (val_refs v). c m = Canon e}"
  by (auto simp: val_key_def heap_key_def val_refs_def val_canon_ids_def
      split: ir_val.splits ir_heap.splits canon_ref.splits)

lemma field_key_ids: "set (field_canon_ids (field_key c f)) = {e. \<exists>m \<in> set (field_refs f). c m = Canon e}"
  by (cases "irf_storage f") (auto simp: field_key_def field_refs_def field_canon_ids_def val_key_ids)

lemma ctype_of_ids: "set (type_canon_ids (ctype_of c t)) = {e. \<exists>m \<in> set (type_refs t). c m = Canon e}"
proof -
  have "set (body_canon_ids (body_key c b)) = {e. \<exists>m \<in> set (body_refs b). c m = Canon e}" for b
    by (cases b) (auto simp: body_key_def body_refs_def body_canon_ids_def val_key_ids field_key_ids)
  then show ?thesis
    by (auto simp: type_canon_ids_def ctype_of_def type_refs_def split: option.split canon_ref.splits)
qed

section \<open>The runs of a type section\<close>

lemma takeWhile_drop:
  "k \<le> length (takeWhile P xs) \<Longrightarrow> takeWhile P (drop k xs) = drop k (takeWhile P xs)"
proof (induction xs arbitrary: k)
  case (Cons x xs)
  then show ?case by (cases k) (auto split: if_splits)
qed simp

lemma group_end_same:
  assumes "base \<le> i" and "i < group_end types base"
  shows "group_end types i = group_end types base"
proof -
  define P where "P = (\<lambda>t :: module_type. mt_group t = mt_group (types ! base))"
  let ?w = "takeWhile P (drop base types)"
  from assms have k: "i - base < length ?w" by (auto simp: group_end_def P_def)
  then have "?w ! (i - base) = drop base types ! (i - base)" by (rule takeWhile_nth)
  also have "\<dots> = types ! i"
    using assms(1) k length_takeWhile_le [of P "drop base types"] by (subst nth_drop) auto
  finally have "P (types ! i)" using k by (metis nth_mem set_takeWhileD)
  then have Q: "(\<lambda>t. mt_group t = mt_group (types ! i)) = P" by (auto simp: P_def)
  have "takeWhile P (drop i types) = drop (i - base) ?w"
    using takeWhile_drop [of "i - base" P "drop base types"] k assms(1) by simp
  then show ?thesis using k assms(1) by (simp add: group_end_def Q P_def [symmetric])
qed

text \<open>The key of a run depends on the ids of earlier types only, and its edges are among them.\<close>

lemma run_refs:
  assumes "module_wf types" and "base < length types" and "t \<in> set (take (group_end types base - base) (drop base types))"
    and "m \<in> set (type_refs t)"
  shows "m < group_end types base"
proof -
  from assms(3) obtain k where k: "k < group_end types base - base" "base + k < length types" "t = types ! (base + k)"
    by (auto simp: in_set_conv_nth)
  then have "group_end types (base + k) = group_end types base" by (intro group_end_same) auto
  with assms(1,4) k show ?thesis unfolding module_wf_def by metis
qed

lemma build_key_cong:
  assumes "module_wf types" and "base < length types" and "\<And>i. i < base \<Longrightarrow> m2c ! i = ids ! i"
  shows "build_key types base (group_end types base) m2c = build_key types base (group_end types base) ids"
  unfolding build_key_def
proof (rule map_cong [OF refl], rule ctype_of_cong)
  fix t m assume "t \<in> set (take (group_end types base - base) (drop base types))" "m \<in> set (type_refs t)"
  then have "m < group_end types base" by (rule run_refs [OF assms(1,2)])
  then show "module_cref base (group_end types base) m2c m = module_cref base (group_end types base) ids m"
    using assms(3) by (auto simp: module_cref_def)
qed

lemma build_key_edges:
  assumes "module_wf types" and "base < length types"
    and "e \<in> set (edge_canon_ids (build_key types base (group_end types base) m2c))"
  shows "\<exists>i < base. e = m2c ! i"
proof -
  from assms(3) obtain t m where t: "t \<in> set (take (group_end types base - base) (drop base types))"
    "m \<in> set (type_refs t)" "module_cref base (group_end types base) m2c m = Canon e"
    by (auto simp: edge_canon_ids_def build_key_def ctype_of_ids)
  then have "m < base" "e = m2c ! m"
    using run_refs [OF assms(1,2) t(1,2)] by (auto simp: module_cref_def split: if_splits)
  then show ?thesis by blast
qed

lemma length_build_key:
  "base < length types \<Longrightarrow> length (build_key types base (group_end types base) m2c) = group_end types base - base"
  using group_end_le [of base types] by (simp add: build_key_def)

section \<open>Growth\<close>

text \<open>Interning keeps every live record, up to its count, and takes at most one group slot and one
  type slot per member.\<close>

definition grows :: "type_registry \<Rightarrow> type_registry \<Rightarrow> bool" where
  "grows r r' \<longleftrightarrow> (\<forall>h rec. live_group r h = Some rec \<longrightarrow> (\<exists>n. live_group r' h = Some (add_refs n rec)))"

lemma grows_refl [simp]: "grows r r"
  unfolding grows_def by (metis add_refs_simps(4))

lemma grows_trans: "grows r s \<Longrightarrow> grows s t \<Longrightarrow> grows r t"
  unfolding grows_def by (metis add_refs_simps(5))

lemma intern_group_grows:
  assumes ok: "registry_ok r ext"
    and edges: "\<forall>e \<in> set (edge_canon_ids key). group_of r e \<noteq> None"
    and room: "length (tr_groups r) < 2 ^ 32" "length (tr_types r) + length key \<le> 2 ^ 32"
    and run: "intern_group key (length key) r = (Inr g, r')"
  shows "grows r r'"
proof (cases "map_of (tr_interned r) key")
  case None
  from intern_group_adds [OF ok None edges room run] show ?thesis
    by (auto simp: added_def grows_def)
next
  case (Some g')
  with run have "incref_group g r = (Inr (), r')" by (auto simp: intern_group_def bindc_eq_Inr)
  then obtain rec where rec: "live_group r g = Some rec"
    "r' = r\<lparr>tr_groups := (tr_groups r)[g := Some (add_refs 1 rec)]\<rparr>"
    by (auto simp: incref_group_Inr)
  then have "live_group r' = (live_group r)(g := Some (add_refs 1 rec))"
    by (simp add: live_group_set live_group_Some)
  with rec show ?thesis by (auto simp: grows_def) (metis add_refs_simps(4))
qed

lemma incref_group_lengths:
  "incref_group g r = (Inr (), r') \<Longrightarrow> length (tr_groups r') = length (tr_groups r) \<and> tr_types r' = tr_types r"
  by (auto simp: incref_group_Inr)

lemma incref_edges_lengths:
  "incref_edges ids r = (Inr (), r') \<Longrightarrow> length (tr_groups r') = length (tr_groups r) \<and> tr_types r' = tr_types r"
  by (induction ids arbitrary: r)
    (auto simp: bindc_eq_Inr split: option.splits dest!: incref_group_lengths)

lemma store_members_lengths:
  "store_members g ms pos cts r = (Inr (), r') \<Longrightarrow>
     tr_groups r' = tr_groups r \<and> length (tr_types r') = length (tr_types r)"
  by (induction cts arbitrary: pos r) (fastforce simp: bindc_eq_Inr set_type_def split: if_splits)+

lemma take_type_slots_lengths:
  "take_type_slots n r = (Inr ts, r') \<Longrightarrow>
     tr_groups r' = tr_groups r \<and> length (tr_types r') \<le> length (tr_types r) + n"
  by (induction n arbitrary: r ts)
    (fastforce simp: bindc_eq_Inr take_type_slot_def split: list.splits)+

lemma intern_group_lengths:
  assumes "intern_group key n r = (Inr g, r')"
  shows "length (tr_groups r') \<le> length (tr_groups r) + 1 \<and> length (tr_types r') \<le> length (tr_types r) + n"
proof (cases "map_of (tr_interned r) key")
  case None
  with assms obtain r1 ms r2 r3 r4 where r: "take_group_slot r = (Inr g, r1)" "take_type_slots n r1 = (Inr ms, r2)"
    "store_members g ms 0 key r2 = (Inr (), r3)" "incref_edges (edge_canon_ids key) r3 = (Inr (), r4)"
    "length (tr_groups r') = length (tr_groups r4)" "tr_types r' = tr_types r4"
    by (auto simp: intern_group_def bindc_eq_Inr)
  have "length (tr_groups r1) \<le> length (tr_groups r) + 1 \<and> tr_types r1 = tr_types r"
    using r(1) by (auto simp: take_group_slot_def split: list.splits)
  with r(5,6) take_type_slots_lengths [OF r(2)] store_members_lengths [OF r(3)] incref_edges_lengths [OF r(4)]
  show ?thesis by simp
next
  case (Some g')
  with assms show ?thesis by (auto simp: intern_group_def bindc_eq_Inr dest: incref_group_lengths)
qed

section \<open>What interning a module records\<close>

text \<open>The groups of the runs from \<open>base\<close> on are live under the ids \<open>gs\<close>, with the keys the runs
  have over the ids \<open>ids\<close> and with exactly those ids as members.\<close>

function recorded :: "type_registry \<Rightarrow> module_type list \<Rightarrow> nat \<Rightarrow> canonical_type_id list \<Rightarrow> group_id list \<Rightarrow> bool" where
  "recorded r types base ids gs \<longleftrightarrow>
     (if length types \<le> base then gs = []
      else \<exists>g gs' rec. gs = g # gs' \<and> live_group r g = Some rec \<and>
        gr_key rec = build_key types base (group_end types base) ids \<and>
        gr_members rec = take (group_end types base - base) (drop base ids) \<and>
        recorded r types (group_end types base) ids gs')"
  by pat_completeness auto
termination
  by (relation "measure (\<lambda>(_, types, base, _). length types - base)")
    (auto intro!: diff_less_mono2 group_end_greater)

declare recorded.simps [simp del]

lemma intern_module_from_ok:
  assumes "module_wf types" and "registry_ok r (\<lambda>h. ext h + count_list reg h)"
    and "length m2c = length types" and "\<forall>i < base. group_of r (m2c ! i) \<noteq> None" and "base \<le> length types"
    and "length (tr_groups r) + (length types - base) \<le> 2 ^ 32"
    and "length (tr_types r) + (length types - base) \<le> 2 ^ 32"
    and "intern_module_from types base m2c reg r = (Inr (ids, gs), r')"
  shows "registry_ok r' (\<lambda>h. ext h + count_list gs h) \<and> length ids = length types
    \<and> (\<forall>i < base. ids ! i = m2c ! i) \<and> grows r r'
    \<and> (\<exists>new. gs = reg @ new \<and> recorded r' types base ids new)"
  using assms(2-)
proof (induction "length types - base" arbitrary: base m2c reg r rule: less_induct)
  case less
  note ok = less.prems(1) and len = less.prems(2) and below = less.prems(3)
  show ?case
  proof (cases "length types \<le> base")
    case True
    with less.prems show ?thesis by (auto simp: intern_module_from.simps recorded.simps)
  next
    case False
    then have base: "base < length types" by simp
    define e where "e = group_end types base"
    define key where "key = build_key types base e m2c"
    have e: "base < e" "e \<le> length types"
      using base by (simp_all add: e_def group_end_greater group_end_le)
    have lk: "length key = e - base" using base by (simp add: key_def e_def length_build_key)
    from less.prems(7) False obtain g s ms where run: "intern_group key (length key) r = (Inr g, s)"
      and mem: "members_of g s = (Inr ms, s)"
      and rest: "intern_module_from types e (write_at m2c base ms) (reg @ [g]) s = (Inr (ids, gs), r')"
      by (subst (asm) intern_module_from.simps)
        (auto simp: bindc_eq_Inr Let_def members_of_def key_def [symmetric] e_def [symmetric] lk split: option.splits)
    have edges: "\<forall>x \<in> set (edge_canon_ids key). group_of r x \<noteq> None"
      using build_key_edges [OF assms(1) base] below unfolding key_def e_def by blast
    have room: "length (tr_groups r) < 2 ^ 32" "length (tr_types r) + length key \<le> 2 ^ 32"
      using less.prems(5,6) base e lk by auto
    note i = intern_group_ok [OF ok edges room run]
    have "(\<lambda>h. ext h + count_list reg h)(g := ext g + count_list reg g + 1) = (\<lambda>h. ext h + count_list (reg @ [g]) h)"
      by (auto simp: fun_eq_iff)
    with i(1) have ok': "registry_ok s (\<lambda>h. ext h + count_list (reg @ [g]) h)" by simp
    have "group_key s g = Some key" by (simp add: i(2))
    with mem obtain rec where rec: "live_group s g = Some rec" "gr_key rec = key" "gr_members rec = ms"
      by (auto simp: group_key_def members_of_def)
    have gok: "group_ok s g rec" by (rule registry_okD(5) [OF ok' rec(1)])
    then have lms: "length ms = e - base" using rec lk by (simp add: group_ok_def)
    have nth: "write_at m2c base ms ! k = (if base \<le> k then ms ! (k - base) else m2c ! k)" if "k < e" for k
      using that e lms len by (simp add: nth_write_at)
    have below': "\<forall>k < e. group_of s (write_at m2c base ms ! k) \<noteq> None"
    proof (intro allI impI)
      fix k assume k: "k < e"
      show "group_of s (write_at m2c base ms ! k) \<noteq> None"
      proof (cases "base \<le> k")
        case True
        then have "ms ! (k - base) \<in> set ms" using k lms by (intro nth_mem) simp
        then show ?thesis using gok rec(3) nth [OF k] True by (simp add: group_ok_def)
      next
        case False
        then obtain h where "group_of r (m2c ! k) = Some h" using below by fastforce
        then show ?thesis using i(3) nth [OF k] False by simp
      qed
    qed
    have lens: "length (tr_groups s) + (length types - e) \<le> 2 ^ 32" "length (tr_types s) + (length types - e) \<le> 2 ^ 32"
      using intern_group_lengths [OF run] less.prems(5,6) e lk by auto
    have "length types - e < length types - base" using e base by simp
    from less.hyps [OF this ok' _ below' e(2) lens rest] len e lms
    have ih: "registry_ok r' (\<lambda>h. ext h + count_list gs h)" "length ids = length types"
      "\<forall>k < e. ids ! k = write_at m2c base ms ! k" "grows s r'"
      "\<exists>new. gs = (reg @ [g]) @ new \<and> recorded r' types e ids new"
      by simp_all
    have low: "ids ! k = m2c ! k" if "k < base" for k
      using ih(3) nth that e by simp
    have "gr_members rec = take (e - base) (drop base ids)"
      by (rule nth_equalityI) (use rec(3) lms ih(2,3) nth e in auto)
    moreover have "gr_key rec = build_key types base e ids"
      using rec(2) build_key_cong [OF assms(1) base, of m2c ids] low by (simp add: key_def e_def)
    moreover obtain n where "live_group r' g = Some (add_refs n rec)" using ih(4) rec(1) by (auto simp: grows_def)
    ultimately have "recorded r' types base ids (g # new)" if "recorded r' types e ids new" for new
      using that base by (subst recorded.simps) (simp add: e_def)
    then have "\<exists>new. gs = reg @ new \<and> recorded r' types base ids new" using ih(5) by auto
    moreover have "grows r r'"
      using intern_group_grows [OF ok edges room run] ih(4) by (rule grows_trans)
    ultimately show ?thesis using ih(1,2) low by simp
  qed
qed

text \<open>The second time around every run is found.\<close>

lemma reintern_module_from:
  assumes "module_wf types" and "registry_ok r (\<lambda>h. ext h + count_list reg h)"
    and "recorded r types base ids old" and "length ids = length types" and "\<forall>i < base. m2c ! i = ids ! i"
    and "length m2c = length types" and "base \<le> length types"
    and "intern_module_from types base m2c reg r = (Inr (ids', gs), r')"
  shows "ids' = ids \<and> gs = reg @ old"
  using assms(2-)
proof (induction "length types - base" arbitrary: base m2c reg r old rule: less_induct)
  case less
  show ?case
  proof (cases "length types \<le> base")
    case True
    with less.prems have "m2c = ids" by (intro nth_equalityI) auto
    with True less.prems(2,7) show ?thesis by (simp add: intern_module_from.simps recorded.simps)
  next
    case False
    then have base: "base < length types" by simp
    define e where "e = group_end types base"
    have e: "base < e" "e \<le> length types"
      using base by (simp_all add: e_def group_end_greater group_end_le)
    from less.prems(2) False obtain g old' rec where rec: "old = g # old'" "live_group r g = Some rec"
      "gr_key rec = build_key types base e ids" "gr_members rec = take (e - base) (drop base ids)"
      "recorded r types e ids old'"
      by (subst (asm) recorded.simps) (auto simp: e_def)
    have key: "build_key types base e m2c = gr_key rec"
      using rec(3) build_key_cong [OF assms(1) base, of m2c ids] less.prems(4) by (simp add: e_def)
    have "group_key r g = Some (gr_key rec)" using rec(2) by (simp add: group_key_def)
    then have "map_of (tr_interned r) (gr_key rec) = Some g"
      using registry_okD(3) [OF less.prems(1)] by (simp add: interned_ok_def)
    with less.prems(7) False obtain s ms where inc: "incref_group g r = (Inr (), s)"
      and mem: "members_of g s = (Inr ms, s)"
      and rest: "intern_module_from types e (write_at m2c base ms) (reg @ [g]) s = (Inr (ids', gs), r')"
      by (subst (asm) intern_module_from.simps)
        (auto simp: bindc_eq_Inr Let_def members_of_def key intern_group_def e_def [symmetric] split: option.splits)
    from inc rec(2) have s: "live_group s = (live_group r)(g := Some (add_refs 1 rec))"
      by (auto simp: incref_group_Inr live_group_set live_group_Some)
    then have ms: "ms = take (e - base) (drop base ids)" using mem rec(4) by (simp add: members_of_def)
    have "grows r s" using s rec(2) by (auto simp: grows_def) (metis add_refs_simps(4))
    then have rec': "recorded s types k ids gs'" if "recorded r types k ids gs'" for k gs'
      using that
    proof (induction r types k ids gs' rule: recorded.induct)
      case (1 r types k ids gs')
      then show ?case
        by (subst recorded.simps, subst (asm) (3) recorded.simps) (fastforce simp: grows_def)
    qed
    have "(\<lambda>h. ext h + count_list reg h)(g := ext g + count_list reg g + 1) = (\<lambda>h. ext h + count_list (reg @ [g]) h)"
      by (auto simp: fun_eq_iff)
    with incref_group_ok [OF less.prems(1) inc] have ok': "registry_ok s (\<lambda>h. ext h + count_list (reg @ [g]) h)"
      by simp
    have low: "\<forall>i < e. write_at m2c base ms ! i = ids ! i"
      using e less.prems(3-5) by (auto simp: ms nth_write_at)
    have "length types - e < length types - base" using e base by simp
    from less.hyps [OF this ok' rec' [OF rec(5)] less.prems(3) low _ e(2) rest]
    show ?thesis using e less.prems(3,5) rec(1) by (simp add: ms)
  qed
qed

section \<open>Properties of the registry\<close>

text \<open>Concrete states for the examples: one host function type with no parameters, registered and
  released again.\<close>

definition unit_func_key :: cgroup where
  "unit_func_key = [\<lparr>cty_finality = Final, cty_supertype = None, cty_body = CFunc [] []\<rparr>]"

definition one_group :: type_registry where
  "one_group = \<lparr>
     tr_types = [Some \<lparr>ct_kind = AkFunc, ct_finality = Final, ct_supertype = None, ct_body = CFunc [] []\<rparr>],
     tr_type_to_group = [Some 0], tr_free_types = [],
     tr_groups = [Some \<lparr>gr_key = unit_func_key, gr_members = [0], gr_refcount = 1\<rparr>],
     tr_free_groups = [], tr_interned = [(unit_func_key, 0)]\<rparr>"

definition no_group :: type_registry where
  "no_group = \<lparr>tr_types = [None], tr_type_to_group = [None], tr_free_types = [0], tr_groups = [None],
     tr_free_groups = [0], tr_interned = []\<rparr>"

lemma intern_unit_func: "intern_group unit_func_key (length unit_func_key) empty_registry = (Inr 0, one_group)"
  by code_simp

lemma release_unit_func: "decref_group 0 one_group = (Inr (), no_group)"
  by code_simp

lemma one_group_reachable: "client_step\<^sup>*\<^sup>* client_start (one_group, (\<lambda>_. 0)(0 := 1))"
proof -
  have "client_step client_start (one_group, (\<lambda>_. 0)(0 := 0 + 1))"
    unfolding client_start_def
    by (rule client_step.intern [OF _ _ _ intern_unit_func]; code_simp)
  then show ?thesis by simp
qed

lemma no_group_reachable: "client_step\<^sup>*\<^sup>* client_start (no_group, \<lambda>_. 0)"
proof -
  have "client_step (one_group, (\<lambda>_. 0)(0 := 1)) (no_group, \<lambda>_. 0)"
    using client_step.drop [OF _ release_unit_func, of "(\<lambda>_. 0)(0 := 1)"] by (simp add: fun_upd_idem)
  with one_group_reachable show ?thesis by (rule rtranclp.rtrancl_into_rtrancl)
qed

text \<open>C1. In every state the clients of the type registry can reach, the holder of a registration can
  give it back: the release never panics (no missing group, no reference count underflow), however
  far it cascades through the groups the released one referred to, and afterwards the reference
  count of every live group is again exactly the registrations still held plus the references from
  other live groups. A group with a registration is live, and so is every type its definition
  refers to.\<close>

theorem registry_release_exact:
  assumes "client_step\<^sup>*\<^sup>* client_start (r, ext)" and "0 < ext g"
  shows "(\<exists>r'. decref_group g r = (Inr (), r') \<and> registry_ok r' (ext(g := ext g - 1)))
    \<and> (\<exists>key. group_key r g = Some key \<and> (\<forall>e \<in> set (edge_canon_ids key). live_type r e \<noteq> None))"
proof -
  have ok: "registry_ok r ext" using client_reachable_inv [OF assms(1)] by (simp add: client_inv_def)
  from registry_okD(8) [OF ok, of g] assms(2) obtain rec where "live_group r g = Some rec" by fastforce
  moreover from registry_okD(5) [OF ok this] registry_okD(1) [OF ok]
  have "\<forall>e \<in> set (edge_canon_ids (gr_key rec)). live_type r e \<noteq> None"
    unfolding group_ok_def slots_ok_def by blast
  ultimately show ?thesis
    using decref_group_ok [OF ok assms(2)] by (simp add: group_key_def)
qed

theorem registry_release_exact_witness:
  "(\<exists>r'. decref_group 0 one_group = (Inr (), r') \<and> registry_ok r' (((\<lambda>_. 0)(0 := 1))(0 := ((\<lambda>_. 0)(0 := 1)) 0 - 1)))
   \<and> group_key one_group 0 \<noteq> None"
  using registry_release_exact [OF one_group_reachable, of 0] by auto

text \<open>C2. The registry leaks nothing: when the clients have given back every registration, no group
  and no type is live and the table of interned keys is empty.\<close>

theorem registry_no_leak:
  assumes "client_step\<^sup>*\<^sup>* client_start (r, \<lambda>_. 0)"
  shows "live_group r g = None \<and> live_type r t = None \<and> live_group_count r = 0"
proof -
  have inv: "client_inv (r, \<lambda>_. 0)" by (rule client_reachable_inv [OF assms])
  then have ok: "registry_ok r (\<lambda>_. 0)" by (simp add: client_inv_def)
  have live: "live_group r g = None" for g by (rule no_leak [OF inv])
  moreover have "live_type r t = None"
  proof (rule ccontr)
    assume "live_type r t \<noteq> None"
    then obtain ty where "live_type r t = Some ty" by auto
    then show False using live_type_place [OF ok] live by (metis option.distinct(1))
  qed
  moreover have "map_of (tr_interned r) = Map.empty"
    using registry_okD(3) [OF ok] live by (auto simp: interned_ok_def group_key_def fun_eq_iff
        intro: option.exhaust)
  ultimately show ?thesis by (simp add: live_group_count_def)
qed

theorem registry_no_leak_witness:
  "live_group no_group 0 = None \<and> live_type no_group 0 = None \<and> live_group_count no_group = 0"
  using registry_no_leak [OF no_group_reachable] by blast

text \<open>C4. In a registry whose groups list supertypes before their subtypes, as validation makes
  those of modules, the subtype query always returns, although its loop has no bound of its own, and
  answers the reflexive and transitive closure of the declared supertypes; that order is
  antisymmetric.\<close>

theorem is_subtype_correct:
  assumes "client_step\<^sup>*\<^sup>* client_start (r, ext)" and "ordered_registry r"
  shows "is_subtype r a b = Some ((a, b) \<in> (super_rel r)\<^sup>*)
    \<and> (is_subtype r a b = Some True \<and> is_subtype r b a = Some True \<longrightarrow> a = b)"
proof -
  have inv: "client_inv (r, ext)" by (rule client_reachable_inv [OF assms(1)])
  note walk = is_subtype_closure [OF inv assms(2)]
  have "a = b" if "is_subtype r a b = Some True" "is_subtype r b a = Some True"
  proof -
    from that have "(a, b) \<in> (super_rel r)\<^sup>*" "(b, a) \<in> (super_rel r)\<^sup>*" by (simp_all add: walk)
    with super_rel_acyclic [OF inv assms(2)] show ?thesis by (meson acyclic_impl_antisym_rtrancl antisymD)
  qed
  with walk [of a b] show ?thesis by blast
qed

theorem is_subtype_correct_witness:
  "is_subtype one_group 0 0 = Some ((0, 0) \<in> (super_rel one_group)\<^sup>*)"
proof -
  have "group_key one_group g = (if g = 0 then Some unit_func_key else None)" for g
    by (simp add: group_key_def live_group_def one_group_def get_at_def)
  moreover have "supers_ordered unit_func_key" by code_simp
  ultimately have "ordered_registry one_group" by (simp add: ordered_registry_def)
  with one_group_reachable show ?thesis by (rule is_subtype_correct [THEN conjunct1])
qed

text \<open>C3. Type identity is canonical across modules: after a module's types have been interned, a
  module with the same types gets the same type ids and the same groups, from the registry as the
  first module left it. Each id stands for the module type with its references replaced by their
  ids, and the reference counts stay exact with one registration per returned group.\<close>

theorem intern_module_canonical:
  assumes "registry_ok r ext" and "module_wf types"
    and "length (tr_groups r) + length types \<le> 2 ^ 32" and "length (tr_types r) + length types \<le> 2 ^ 32"
    and "intern_module types r = (Inr (ids, gs), r1)"
  shows "registry_ok r1 (\<lambda>g. ext g + count_list gs g) \<and> recorded r1 types 0 ids gs
    \<and> (\<forall>ids' gs' r2. intern_module types r1 = (Inr (ids', gs'), r2) \<longrightarrow> ids' = ids \<and> gs' = gs)"
proof -
  have ok: "registry_ok r (\<lambda>h. ext h + count_list [] h)" using assms(1) by simp
  have r1: "registry_ok r1 (\<lambda>h. ext h + count_list gs h)" "length ids = length types" "recorded r1 types 0 ids gs"
    using intern_module_from_ok [OF assms(2) ok _ _ _ _ _ assms(5) [unfolded intern_module_def]] assms(3,4)
    by auto
  have "ids' = ids \<and> gs' = gs" if "intern_module types r1 = (Inr (ids', gs'), r2)" for ids' gs' r2
    using reintern_module_from [OF assms(2) _ r1(3,2) _ _ _ that [unfolded intern_module_def],
        where ext = "\<lambda>h. ext h + count_list gs h"] r1(1) by simp
  with r1 show ?thesis by blast
qed

definition unit_module :: "module_type list" where
  "unit_module = [\<lparr>mt_group = 0, mt_finality = Final, mt_supertype = None, mt_body = CompFunc [] []\<rparr>]"

theorem intern_module_canonical_witness:
  "recorded one_group unit_module 0 [0] [0]
   \<and> fst (intern_module unit_module one_group) = Inr ([0], [0])"
proof -
  have run: "intern_module unit_module empty_registry = (Inr ([0], [0]), one_group)" by code_simp
  have wf: "module_wf unit_module" by code_simp
  have small: "length (tr_groups empty_registry) + length unit_module \<le> 2 ^ 32"
    "length (tr_types empty_registry) + length unit_module \<le> 2 ^ 32" by code_simp+
  have "fst (intern_module unit_module one_group) = Inr ([0], [0])" by code_simp
  with intern_module_canonical [OF empty_registry_ok wf small run] show ?thesis by simp
qed

end
