(* ===== verification/Values.thy ===== *)
theory Values
  imports Layout
begin

text \<open>
  Runtime values, \<^verbatim>\<open>src/value/val.rs\<close>: the tagged value \<open>val\<close> of the host boundary, the
  reference value \<open>ref_val\<close> of tables and element segments, and the handles they carry
  (\<^verbatim>\<open>Func\<close> of \<^verbatim>\<open>src/func/mod.rs\<close>, \<^verbatim>\<open>Rooted\<close> of \<^verbatim>\<open>src/value/gc_ref.rs\<close>). A float is its raw
  bit pattern, as in the source. A handle rebuilt from a packed body or an operand cell carries
  no store and no generation; \<open>erase_val\<close> is that loss, and the codec round trips are stated
  with it.
\<close>

record func_handle =
  fh_index :: u32
  fh_store :: u64

record rooted =
  ro_index :: u32
  ro_arena :: ref_kind
  ro_store :: u64
  ro_generation :: u32

definition UNCHECKED_GENERATION :: u32 where
  "UNCHECKED_GENERATION = 0xFFFFFFFF"

definition UNCHECKED_STORE :: u64 where
  "UNCHECKED_STORE = 0"

definition func_from_raw :: "u32 \<Rightarrow> func_handle" where
  "func_from_raw i = \<lparr>fh_index = i, fh_store = 0\<rparr>"

definition rooted_from_raw :: "u32 \<Rightarrow> ref_kind \<Rightarrow> rooted" where
  "rooted_from_raw i k = \<lparr>ro_index = i, ro_arena = k, ro_store = UNCHECKED_STORE,
     ro_generation = UNCHECKED_GENERATION\<rparr>"

definition rooted_from_raw_gen :: "u32 \<Rightarrow> u32 \<Rightarrow> u64 \<Rightarrow> ref_kind \<Rightarrow> rooted" where
  "rooted_from_raw_gen i g s k = \<lparr>ro_index = i, ro_arena = k, ro_store = s, ro_generation = g\<rparr>"

datatype val =
    I32 u32 | I64 u64 | F32 u32 | F64 u64 | V128 u128
  | FuncRef "func_handle option"
  | ExternRef "rooted option"
  | AnyRef "rooted option"
  | ExnRef "rooted option"

datatype ref_val =
    RefFunc "func_handle option"
  | RefExtern "rooted option"
  | RefAny "rooted option"
  | RefExn "rooted option"

definition unwrap_i32 :: "val \<Rightarrow> u32 result" where
  "unwrap_i32 v = (case v of I32 x \<Rightarrow> Inr x | _ \<Rightarrow> Inl (Panic ''expected i32''))"

definition unwrap_i64 :: "val \<Rightarrow> u64 result" where
  "unwrap_i64 v = (case v of I64 x \<Rightarrow> Inr x | _ \<Rightarrow> Inl (Panic ''expected i64''))"

definition unwrap_f32 :: "val \<Rightarrow> u32 result" where
  "unwrap_f32 v = (case v of F32 x \<Rightarrow> Inr x | _ \<Rightarrow> Inl (Panic ''expected f32''))"

definition unwrap_f64 :: "val \<Rightarrow> u64 result" where
  "unwrap_f64 v = (case v of F64 x \<Rightarrow> Inr x | _ \<Rightarrow> Inl (Panic ''expected f64''))"

definition unwrap_v128 :: "val \<Rightarrow> u128 result" where
  "unwrap_v128 v = (case v of V128 x \<Rightarrow> Inr x | _ \<Rightarrow> Inl (Panic ''expected v128''))"

definition is_null_ref :: "val \<Rightarrow> bool" where
  "is_null_ref v = (case v of FuncRef None \<Rightarrow> True | ExternRef None \<Rightarrow> True
     | AnyRef None \<Rightarrow> True | ExnRef None \<Rightarrow> True | _ \<Rightarrow> False)"

definition from_ref :: "ref_val \<Rightarrow> val" where
  "from_ref r = (case r of RefFunc f \<Rightarrow> FuncRef f | RefExtern e \<Rightarrow> ExternRef e
     | RefAny a \<Rightarrow> AnyRef a | RefExn x \<Rightarrow> ExnRef x)"

definition to_ref :: "val \<Rightarrow> ref_val result" where
  "to_ref v = (case v of FuncRef f \<Rightarrow> Inr (RefFunc f) | ExternRef e \<Rightarrow> Inr (RefExtern e)
     | AnyRef a \<Rightarrow> Inr (RefAny a) | ExnRef x \<Rightarrow> Inr (RefExn x)
     | _ \<Rightarrow> Inl (Panic ''operand validated as a reference''))"

definition null_ref :: "ref_kind \<Rightarrow> val" where
  "null_ref k = (case k of RkFunc \<Rightarrow> FuncRef None | RkExtern \<Rightarrow> ExternRef None
     | RkAny \<Rightarrow> AnyRef None | RkExn \<Rightarrow> ExnRef None)"

definition null_for_heap :: "ir_heap \<Rightarrow> val" where
  "null_for_heap h = (case h of
     IhFunc \<Rightarrow> FuncRef None | IhNoFunc \<Rightarrow> FuncRef None | IhConcrete _ AkFunc \<Rightarrow> FuncRef None
   | IhExtern \<Rightarrow> ExternRef None | IhNoExtern \<Rightarrow> ExternRef None
   | IhExn \<Rightarrow> ExnRef None | IhNoExn \<Rightarrow> ExnRef None
   | _ \<Rightarrow> AnyRef None)"

definition default_for :: "ir_val \<Rightarrow> val" where
  "default_for t = (case t of IvI32 \<Rightarrow> I32 0 | IvI64 \<Rightarrow> I64 0 | IvF32 \<Rightarrow> F32 0 | IvF64 \<Rightarrow> F64 0
     | IvV128 \<Rightarrow> V128 0 | IvRef _ h \<Rightarrow> null_for_heap h)"

definition default_for_valtype :: "val_type \<Rightarrow> val" where
  "default_for_valtype t = (case t of VtI32 \<Rightarrow> I32 0 | VtI64 \<Rightarrow> I64 0 | VtF32 \<Rightarrow> F32 0
     | VtF64 \<Rightarrow> F64 0 | VtV128 \<Rightarrow> V128 0
     | VtRef rt \<Rightarrow> (case rt_heap rt of
         HtFunc \<Rightarrow> FuncRef None | HtNoFunc \<Rightarrow> FuncRef None | HtConcreteFunc _ \<Rightarrow> FuncRef None
       | HtExtern \<Rightarrow> ExternRef None | HtNoExtern \<Rightarrow> ExternRef None
       | HtExn \<Rightarrow> ExnRef None | HtNoExn \<Rightarrow> ExnRef None
       | _ \<Rightarrow> AnyRef None))"

section \<open>Erasure\<close>

definition erase_func :: "func_handle \<Rightarrow> func_handle" where
  "erase_func f = func_from_raw (fh_index f)"

definition erase_rooted :: "ref_kind \<Rightarrow> rooted \<Rightarrow> rooted" where
  "erase_rooted k r = rooted_from_raw (ro_index r) k"

definition erase_val :: "val \<Rightarrow> val" where
  "erase_val v = (case v of
     FuncRef f \<Rightarrow> FuncRef (map_option erase_func f)
   | ExternRef r \<Rightarrow> ExternRef (map_option (erase_rooted RkExtern) r)
   | AnyRef r \<Rightarrow> AnyRef (map_option (erase_rooted RkAny) r)
   | ExnRef r \<Rightarrow> ExnRef (map_option (erase_rooted RkExn) r)
   | _ \<Rightarrow> v)"

lemma null_for_heap_kind: "null_for_heap h = null_ref (ref_kind_of_irheap h)"
  by (auto simp: null_for_heap_def null_ref_def ref_kind_of_irheap_def
      split: ir_heap.split agg_kind.split)

lemma erase_func_idem [simp]: "erase_func (erase_func f) = erase_func f"
  by (simp add: erase_func_def func_from_raw_def)

lemma erase_rooted_idem [simp]: "erase_rooted k (erase_rooted k r) = erase_rooted k r"
  by (simp add: erase_rooted_def rooted_from_raw_def)

lemma erase_val_idem [simp]: "erase_val (erase_val v) = erase_val v"
  by (cases v) (simp_all add: erase_val_def option.map_comp comp_def)

lemma to_ref_from_ref [simp]: "to_ref (from_ref r) = Inr r"
  by (cases r) (auto simp: to_ref_def from_ref_def)

end
