(* ===== verification/Gc_Codec.thy ===== *)
theory Gc_Codec
  imports Values
begin

text \<open>
  The packed-body codec, \<^verbatim>\<open>src/store/gc_codec.rs\<close>, and the \<^verbatim>\<open>anyref\<close> handle encoding of
  \<^verbatim>\<open>src/store/gc.rs\<close>. Reads and writes of a body panic in the source when a slot does not fit
  the buffer or the value has the wrong tag; here they return \<open>Panic\<close>, and the round trips show
  it cannot happen for a value the slot accepts and a slot inside the body.
\<close>

definition NULL_REF :: u32 where
  "NULL_REF = 0x7FFFFFFF"

section \<open>Handles\<close>

definition I31_TAG :: u32 where
  "I31_TAG = push_bit 31 1"

datatype anyref_handle = HandleI31 u32 | HandleSlot u32

definition anyref_handle_i31 :: "u32 \<Rightarrow> u32" where
  "anyref_handle_i31 v = I31_TAG OR (v AND NOT I31_TAG)"

definition anyref_handle_slot :: "u32 \<Rightarrow> u32" where
  "anyref_handle_slot i = i"

definition decode_anyref_handle :: "u32 \<Rightarrow> anyref_handle" where
  "decode_anyref_handle h =
     (if h AND I31_TAG = 0 then HandleSlot h
      else HandleI31 (signed_drop_bit 1 (push_bit 1 (h AND NOT I31_TAG))))"

definition anyref_value :: "u32 \<Rightarrow> val" where
  "anyref_value h = AnyRef (Some (rooted_from_raw h RkAny))"

section \<open>Scalars and references in a body\<close>

definition write_le :: "nat \<Rightarrow> u8 list \<Rightarrow> 'a::len word \<Rightarrow> u8 list result" where
  "write_le n b w = (if n \<le> length b then Inr (write_at b 0 (le_bytes n w))
     else Inl (Panic ''slice end''))"

definition read_scalar :: "scalar_kind \<Rightarrow> u8 list \<Rightarrow> val result" where
  "read_scalar k b = (case k of
     SkI8 \<Rightarrow> bindr (index_at b 0) (\<lambda>x. Inr (I32 (ucast x)))
   | SkI16 \<Rightarrow> bindr (slice_to b 2) (\<lambda>x. Inr (I32 (ucast (le_word x :: u16))))
   | SkI32 \<Rightarrow> bindr (slice_to b 4) (\<lambda>x. Inr (I32 (le_word x)))
   | SkI64 \<Rightarrow> bindr (slice_to b 8) (\<lambda>x. Inr (I64 (le_word x)))
   | SkF32 \<Rightarrow> bindr (slice_to b 4) (\<lambda>x. Inr (F32 (le_word x)))
   | SkF64 \<Rightarrow> bindr (slice_to b 8) (\<lambda>x. Inr (F64 (le_word x)))
   | SkV128 \<Rightarrow> bindr (slice_to b 16) (\<lambda>x. Inr (V128 (le_word x))))"

definition write_scalar :: "scalar_kind \<Rightarrow> u8 list \<Rightarrow> val \<Rightarrow> u8 list result" where
  "write_scalar k b v = (case k of
     SkI8 \<Rightarrow> bindr (unwrap_i32 v) (\<lambda>x. write_le 1 b (ucast x :: u8))
   | SkI16 \<Rightarrow> bindr (unwrap_i32 v) (\<lambda>x. write_le 2 b (ucast x :: u16))
   | SkI32 \<Rightarrow> bindr (unwrap_i32 v) (\<lambda>x. write_le 4 b x)
   | SkI64 \<Rightarrow> bindr (unwrap_i64 v) (\<lambda>x. write_le 8 b x)
   | SkF32 \<Rightarrow> bindr (unwrap_f32 v) (\<lambda>x. write_le 4 b x)
   | SkF64 \<Rightarrow> bindr (unwrap_f64 v) (\<lambda>x. write_le 8 b x)
   | SkV128 \<Rightarrow> bindr (unwrap_v128 v) (\<lambda>x. write_le 16 b x))"

definition le_u32 :: "u8 list \<Rightarrow> u32 result" where
  "le_u32 b = bindr (slice_to b 4) (\<lambda>x. Inr (le_word x))"

definition read_ref :: "ref_kind \<Rightarrow> u32 \<Rightarrow> val" where
  "read_ref k h = (if h = NULL_REF then null_ref k else (case k of
     RkFunc \<Rightarrow> FuncRef (Some (func_from_raw h))
   | RkExtern \<Rightarrow> ExternRef (Some (rooted_from_raw h k))
   | RkAny \<Rightarrow> AnyRef (Some (rooted_from_raw h k))
   | RkExn \<Rightarrow> ExnRef (Some (rooted_from_raw h k))))"

definition ref_handle :: "val \<Rightarrow> u32 result" where
  "ref_handle v = (case v of
     FuncRef (Some f) \<Rightarrow> Inr (fh_index f)
   | ExternRef (Some r) \<Rightarrow> Inr (ro_index r)
   | AnyRef (Some r) \<Rightarrow> Inr (ro_index r)
   | ExnRef (Some r) \<Rightarrow> Inr (ro_index r)
   | FuncRef None \<Rightarrow> Inr NULL_REF | ExternRef None \<Rightarrow> Inr NULL_REF
   | AnyRef None \<Rightarrow> Inr NULL_REF | ExnRef None \<Rightarrow> Inr NULL_REF
   | _ \<Rightarrow> Inl (Panic ''reference slot stores a reference value''))"

definition read_slot :: "slot \<Rightarrow> u8 list \<Rightarrow> val result" where
  "read_slot s data = (case s of
     SlotScalar off k \<Rightarrow> bindr (slice_from data off) (read_scalar k)
   | SlotRef off k \<Rightarrow> bindr (slice_from data off) (\<lambda>b. bindr (le_u32 b) (\<lambda>h. Inr (read_ref k h))))"

definition write_slot :: "slot \<Rightarrow> u8 list \<Rightarrow> val \<Rightarrow> u8 list result" where
  "write_slot s data v = (case s of
     SlotScalar off k \<Rightarrow> bindr (slice_from data off) (\<lambda>b. bindr (write_scalar k b v)
       (\<lambda>b'. Inr (take off data @ b')))
   | SlotRef off _ \<Rightarrow> bindr (ref_handle v) (\<lambda>h. bindr (slice_from data off) (\<lambda>b.
       bindr (write_le 4 b h) (\<lambda>b'. Inr (take off data @ b')))))"

text \<open>\<^verbatim>\<open>struct.get_s\<close>/\<^verbatim>\<open>get_u\<close> on a packed field. The fall-through arm of the source reads the
  scalar and unwraps an \<^verbatim>\<open>i32\<close>.\<close>

definition read_slot_packed :: "slot \<Rightarrow> u8 list \<Rightarrow> bool \<Rightarrow> u32 result" where
  "read_slot_packed s data is_signed = (case s of
     SlotRef _ _ \<Rightarrow> Inl (Panic ''get_s/get_u on a reference slot'')
   | SlotScalar off k \<Rightarrow> bindr (slice_from data off) (\<lambda>b.
       if k = SkI8 then bindr (index_at b 0) (\<lambda>x. Inr (if is_signed then scast x else ucast x))
       else if k = SkI16 then bindr (slice_to b 2) (\<lambda>x.
         Inr (if is_signed then scast (le_word x :: u16) else ucast (le_word x :: u16)))
       else bindr (read_scalar k b) unwrap_i32))"

definition slot_accepts :: "slot \<Rightarrow> val \<Rightarrow> bool" where
  "slot_accepts s v = (case s of
     SlotScalar _ k \<Rightarrow> (case k of
         SkI8 \<Rightarrow> (case v of I32 _ \<Rightarrow> True | _ \<Rightarrow> False)
       | SkI16 \<Rightarrow> (case v of I32 _ \<Rightarrow> True | _ \<Rightarrow> False)
       | SkI32 \<Rightarrow> (case v of I32 _ \<Rightarrow> True | _ \<Rightarrow> False)
       | SkI64 \<Rightarrow> (case v of I64 _ \<Rightarrow> True | _ \<Rightarrow> False)
       | SkF32 \<Rightarrow> (case v of F32 _ \<Rightarrow> True | _ \<Rightarrow> False)
       | SkF64 \<Rightarrow> (case v of F64 _ \<Rightarrow> True | _ \<Rightarrow> False)
       | SkV128 \<Rightarrow> (case v of V128 _ \<Rightarrow> True | _ \<Rightarrow> False))
   | SlotRef _ k \<Rightarrow> (case k of
         RkFunc \<Rightarrow> (case v of FuncRef _ \<Rightarrow> True | _ \<Rightarrow> False)
       | RkExtern \<Rightarrow> (case v of ExternRef _ \<Rightarrow> True | _ \<Rightarrow> False)
       | RkAny \<Rightarrow> (case v of AnyRef _ \<Rightarrow> True | _ \<Rightarrow> False)
       | RkExn \<Rightarrow> (case v of ExnRef _ \<Rightarrow> True | _ \<Rightarrow> False)))"

definition default_for_slot :: "slot \<Rightarrow> val" where
  "default_for_slot s = (case s of
     SlotScalar _ k \<Rightarrow> (case k of
         SkI8 \<Rightarrow> I32 0 | SkI16 \<Rightarrow> I32 0 | SkI32 \<Rightarrow> I32 0 | SkI64 \<Rightarrow> I64 0
       | SkF32 \<Rightarrow> F32 0 | SkF64 \<Rightarrow> F64 0 | SkV128 \<Rightarrow> V128 0)
   | SlotRef _ k \<Rightarrow> null_ref k)"

section \<open>What a slot keeps of a value\<close>

text \<open>A packed slot keeps the low bits, a reference slot the raw handle.\<close>

definition slot_view :: "slot \<Rightarrow> val \<Rightarrow> val" where
  "slot_view s v = (case s of
     SlotScalar _ k \<Rightarrow> (case v of
         I32 x \<Rightarrow> (if k = SkI8 then I32 (take_bit 8 x) else if k = SkI16 then I32 (take_bit 16 x) else v)
       | _ \<Rightarrow> v)
   | SlotRef _ _ \<Rightarrow> erase_val v)"

text \<open>The raw handle of a non-null reference differs from the null sentinel. The arenas guarantee
  it: a slot index stays below \<open>NULL_REF\<close> and an \<^verbatim>\<open>i31\<close> handle has its top bit set.\<close>

definition handle_ok :: "val \<Rightarrow> bool" where
  "handle_ok v = (case v of
     FuncRef (Some f) \<Rightarrow> fh_index f \<noteq> NULL_REF
   | ExternRef (Some r) \<Rightarrow> ro_index r \<noteq> NULL_REF
   | AnyRef (Some r) \<Rightarrow> ro_index r \<noteq> NULL_REF
   | ExnRef (Some r) \<Rightarrow> ro_index r \<noteq> NULL_REF
   | _ \<Rightarrow> True)"

section \<open>Handle encoding\<close>

lemma bit_I31_TAG [simp]: "bit I31_TAG n \<longleftrightarrow> n = 31"
  unfolding I31_TAG_def bit_push_bit_iff bit_1_iff by auto

lemma and_I31_TAG_eq_0: "h AND I31_TAG = 0 \<longleftrightarrow> \<not> bit h 31"
proof
  assume "h AND I31_TAG = 0"
  then show "\<not> bit h 31" by (metis bit_0_eq bit_I31_TAG bit_and_iff bot_apply bot_bool_def)
next
  assume "\<not> bit h 31"
  then show "h AND I31_TAG = 0" by (intro bit_word_eqI) (auto simp: bit_simps)
qed

lemma bit_anyref_handle_i31: "bit (anyref_handle_i31 v) n \<longleftrightarrow> n = 31 \<or> n < 31 \<and> bit v n"
  by (auto simp: anyref_handle_i31_def bit_simps dest: bit_imp_le_length)

lemma anyref_handle_i31_not_null: "anyref_handle_i31 v \<noteq> NULL_REF"
proof
  assume "anyref_handle_i31 v = NULL_REF"
  then have "bit (NULL_REF) 31" using bit_anyref_handle_i31 [of v 31] by simp
  then show False by (simp add: NULL_REF_def bit_numeral_word_iff)
qed

lemma decode_anyref_handle_i31:
  "decode_anyref_handle (anyref_handle_i31 v) = HandleI31 (signed_take_bit 30 v)"
proof -
  define p where "p = push_bit 1 (anyref_handle_i31 v AND NOT I31_TAG)"
  have p: "bit p n \<longleftrightarrow> 0 < n \<and> n < 32 \<and> bit v (n - 1)" for n
    unfolding p_def bit_push_bit_iff bit_and_iff bit_not_iff bit_anyref_handle_i31 by auto
  have "signed_drop_bit 1 p = signed_take_bit 30 v"
  proof (rule bit_word_eqI)
    fix n :: nat
    consider "n < 30" | "n = 30" | "30 < n" by linarith
    then show "bit (signed_drop_bit 1 p) n \<longleftrightarrow> bit (signed_take_bit 30 v) n"
      if "n < LENGTH(32)"
      using that by cases (auto simp: bit_signed_drop_bit_iff bit_signed_take_bit_iff p min_def)
  qed
  then show ?thesis
    unfolding p_def decode_anyref_handle_def and_I31_TAG_eq_0 bit_anyref_handle_i31 by simp
qed

lemma decode_anyref_handle_slot:
  "\<not> bit i 31 \<Longrightarrow> decode_anyref_handle (anyref_handle_slot i) = HandleSlot i"
  by (simp add: decode_anyref_handle_def anyref_handle_slot_def and_I31_TAG_eq_0)

section \<open>Reading back what was written\<close>

lemma write_le_Inr:
  "write_le n b w = Inr b' \<longleftrightarrow> n \<le> length b \<and> b' = write_at b 0 (le_bytes n w)"
  by (auto simp: write_le_def)

text \<open>Every successful write replaces exactly the slot's bytes.\<close>

lemma write_slot_write_at:
  assumes "write_slot s data v = Inr data'"
  shows "\<exists>bs. length bs = slot_width s \<and> slot_end s \<le> length data \<and>
    data' = write_at data (slot_offset s) bs"
proof -
  have shift: "take off data @ write_at (drop off data) 0 bs = write_at data off bs"
    if "off \<le> length data" for off and bs :: "u8 list"
    using that by (simp add: write_at_def add.commute)
  show ?thesis
  proof (cases s)
    case (SlotScalar off k)
    with assms show ?thesis
      by (cases k) (force simp: write_slot_def write_scalar_def write_le_Inr slot_end_def shift)+
  next
    case (SlotRef off k)
    with assms show ?thesis
      by (force simp: write_slot_def write_le_Inr slot_end_def shift REF_WIDTH_def)
  qed
qed

lemma length_write_slot: "write_slot s data v = Inr data' \<Longrightarrow> length data' = length data"
  using write_slot_write_at by (fastforce simp: slot_end_def)

text \<open>A read looks at the slot's bytes only.\<close>

definition slot_bytes :: "slot \<Rightarrow> u8 list \<Rightarrow> u8 list" where
  "slot_bytes s data = take (slot_width s) (drop (slot_offset s) data)"

lemma read_slot_cong:
  assumes "slot_end s \<le> length d" and "slot_end s \<le> length d'"
    and "slot_bytes s d = slot_bytes s d'"
  shows "read_slot s d = read_slot s d'"
proof -
  have hd: "xs ! 0 = ys ! 0" if "take (Suc 0) xs = take (Suc 0) ys" "xs \<noteq> []" "ys \<noteq> []"
    for xs ys :: "u8 list"
    using that by (cases xs; cases ys) auto
  have nth0: "d ! off = d' ! off"
    if "take (Suc 0) (drop off d) = take (Suc 0) (drop off d')" "off < length d" "off < length d'" for off
    using hd [OF that(1)] that(2,3) by simp
  show ?thesis
  proof (cases s)
    case (SlotScalar off k)
    with assms nth0 show ?thesis
      by (cases k) (auto simp: read_slot_def read_scalar_def slot_end_def slot_bytes_def
          slice_from_def slice_to_def index_at_def)
  next
    case (SlotRef off k)
    with assms show ?thesis
      by (auto simp: read_slot_def slot_end_def slot_bytes_def slice_from_def slice_to_def
          le_u32_def REF_WIDTH_def)
  qed
qed

lemma write_slot_other:
  assumes "write_slot s data v = Inr data'" and "slot_end t \<le> length data"
    and "slot_end s \<le> slot_offset t \<or> slot_end t \<le> slot_offset s"
  shows "read_slot t data' = read_slot t data"
proof (rule read_slot_cong)
  from write_slot_write_at [OF assms(1)] obtain bs where
    bs: "length bs = slot_width s" "slot_end s \<le> length data"
    and d': "data' = write_at data (slot_offset s) bs" by blast
  then show "slot_end t \<le> length data'" "slot_end t \<le> length data"
    using assms(2) by (auto simp: slot_end_def)
  show "slot_bytes t data' = slot_bytes t data"
    using assms(3) bs unfolding d' slot_bytes_def slot_end_def
    by (auto simp: take_write_at_below take_write_at_above)
qed

lemma read_ref_handle:
  assumes "slot_accepts (SlotRef off k) v" and "handle_ok v" and "ref_handle v = Inr h"
  shows "read_ref k h = erase_val v"
  using assms
  by (cases v; cases k) (auto simp: slot_accepts_def handle_ok_def ref_handle_def read_ref_def
      null_ref_def erase_val_def erase_func_def erase_rooted_def split: option.splits)

lemma ref_handle_total: "slot_accepts (SlotRef off k) v \<Longrightarrow> \<exists>h. ref_handle v = Inr h"
  by (cases v; cases k) (auto simp: slot_accepts_def ref_handle_def split: option.splits)

lemma take_write_at_0 [simp]:
  "n = length ys \<Longrightarrow> n \<le> length b \<Longrightarrow> take n (write_at b 0 ys) = ys"
  by (simp add: write_at_def)

lemma ucast_ucast_u8: "ucast (ucast x :: u8) = (take_bit 8 x :: u32)"
  by (rule bit_word_eqI) (auto simp: bit_simps)

lemma ucast_ucast_u16: "ucast (ucast x :: u16) = (take_bit 16 x :: u32)"
  by (rule bit_word_eqI) (auto simp: bit_simps)

lemma scalar_round_trip:
  assumes "slot_accepts (SlotScalar off k) v" and "scalar_width k \<le> length b"
  shows "\<exists>b'. write_scalar k b v = Inr b' \<and> length b' = length b \<and>
    read_scalar k b' = Inr (slot_view (SlotScalar off k) v)"
proof (cases k)
  case SkI8
  with assms show ?thesis
    by (cases v; cases b) (auto simp: slot_accepts_def write_scalar_def read_scalar_def
        unwrap_i32_def write_le_def slot_view_def index_at_def write_at_def ucast_ucast_u8)
next
  case SkI16
  with assms show ?thesis
    by (cases v) (auto simp: slot_accepts_def write_scalar_def read_scalar_def unwrap_i32_def
        write_le_def slot_view_def slice_to_def ucast_ucast_u16)
next
  case SkI32
  with assms show ?thesis
    by (cases v) (auto simp: slot_accepts_def write_scalar_def read_scalar_def unwrap_i32_def
        write_le_def slot_view_def slice_to_def)
next
  case SkI64
  with assms show ?thesis
    by (cases v) (auto simp: slot_accepts_def write_scalar_def read_scalar_def unwrap_i64_def
        write_le_def slot_view_def slice_to_def)
next
  case SkF32
  with assms show ?thesis
    by (cases v) (auto simp: slot_accepts_def write_scalar_def read_scalar_def unwrap_f32_def
        write_le_def slot_view_def slice_to_def)
next
  case SkF64
  with assms show ?thesis
    by (cases v) (auto simp: slot_accepts_def write_scalar_def read_scalar_def unwrap_f64_def
        write_le_def slot_view_def slice_to_def)
next
  case SkV128
  with assms show ?thesis
    by (cases v) (auto simp: slot_accepts_def write_scalar_def read_scalar_def unwrap_v128_def
        write_le_def slot_view_def slice_to_def)
qed

lemma slot_round_trip:
  assumes acc: "slot_accepts s v" and ok: "handle_ok v" and fit: "slot_end s \<le> length data"
  shows "\<exists>data'. write_slot s data v = Inr data' \<and> length data' = length data \<and>
    read_slot s data' = Inr (slot_view s v)"
proof (cases s)
  case (SlotScalar off k)
  with fit have off: "off \<le> length data" and w: "scalar_width k \<le> length (drop off data)"
    by (auto simp: slot_end_def)
  from scalar_round_trip [OF acc [unfolded SlotScalar] w] obtain b' where
    "write_scalar k (drop off data) v = Inr b'" "length b' = length (drop off data)"
    "read_scalar k b' = Inr (slot_view (SlotScalar off k) v)" by blast
  with off SlotScalar show ?thesis
    by (auto simp: write_slot_def read_slot_def slice_from_def)
next
  case (SlotRef off k)
  with acc obtain h where h: "ref_handle v = Inr h" using ref_handle_total by blast
  with SlotRef acc ok have "read_ref k h = erase_val v" using read_ref_handle by blast
  with h SlotRef fit show ?thesis
    by (auto simp: write_slot_def read_slot_def slice_from_def slice_to_def write_le_def le_u32_def
        slot_end_def slot_view_def REF_WIDTH_def)
qed

lemma write_slot_total:
  assumes "slot_accepts sl v" and "slot_end sl \<le> length d"
  shows "\<exists>d'. write_slot sl d v = Inr d' \<and> length d' = length d"
proof (cases sl)
  case (SlotScalar off k)
  with assms(2) have off: "off \<le> length d" "scalar_width k \<le> length (drop off d)" by (auto simp: slot_end_def)
  from scalar_round_trip [OF assms(1) [unfolded SlotScalar] off(2)] off(1) show ?thesis
    by (auto simp: SlotScalar write_slot_def slice_from_def)
next
  case (SlotRef off k)
  with assms ref_handle_total [of off k v] show ?thesis
    by (auto simp: write_slot_def slice_from_def slot_end_def write_le_def REF_WIDTH_def)
qed

lemma default_for_slot_accepted: "slot_accepts s (default_for_slot s) \<and> handle_ok (default_for_slot s)"
  by (cases s) (auto simp: slot_accepts_def default_for_slot_def null_ref_def handle_ok_def
      split: scalar_kind.splits ref_kind.splits)

section \<open>Properties\<close>

text \<open>C10. In the packed body of a struct, writing a value a field accepts succeeds without a panic,
  keeps the body's size, is read back as the value (its low bits for a packed field, its raw handle
  for a reference) and leaves every other field as it was: the slots of a layout never overlap and
  never leave the body.\<close>

theorem struct_field_update:
  assumes "layout_from_body (CompStruct fs) = Some (LayoutStruct l)" and "length data = sl_size l"
    and "struct_field_at l i = Some s" and "slot_accepts s v" and "handle_ok v"
  shows "\<exists>data'. write_slot s data v = Inr data' \<and> length data' = length data
    \<and> read_slot s data' = Inr (slot_view s v)
    \<and> (\<forall>j t. j \<noteq> i \<longrightarrow> struct_field_at l j = Some t \<longrightarrow> read_slot t data' = read_slot t data)"
proof -
  let ?fs = "map field_slot fs"
  have l: "l = struct_layout_of ?fs" using assms(1) by (simp add: layout_from_body_def)
  have pl: "\<forall>f \<in> set ?fs. places f" by simp
  have fields: "struct_field_at l j = Some t \<longleftrightarrow> j < length ?fs \<and> t = sl_fields l ! j" for j t
    using struct_layout_length [of ?fs] by (simp add: struct_field_at_def l)
  have i: "i < length ?fs" "s = sl_fields l ! i" using assms(3) by (simp_all only: fields)
  have inside: "slot_end (sl_fields l ! j) \<le> length data" if "j < length ?fs" for j
    using struct_slots_within [OF pl that] assms(2) l by simp
  from slot_round_trip [OF assms(4,5)] inside [OF i(1)] i(2) obtain data' where
    d: "write_slot s data v = Inr data'" "length data' = length data" "read_slot s data' = Inr (slot_view s v)"
    by blast
  have "read_slot t data' = read_slot t data" if "j \<noteq> i" "struct_field_at l j = Some t" for j t
  proof (rule write_slot_other [OF d(1)])
    from that(2) have j: "j < length ?fs" "t = sl_fields l ! j" by (simp_all only: fields)
    then show "slot_end t \<le> length data" using inside by simp
    from that(1) consider "i < j" | "j < i" by linarith
    then show "slot_end s \<le> slot_offset t \<or> slot_end t \<le> slot_offset s"
      using struct_slots_disjoint [OF pl, of i j] struct_slots_disjoint [OF pl, of j i] i j l by cases auto
  qed
  with d show ?thesis by blast
qed

theorem struct_field_update_witness:
  "\<exists>data'. write_slot (SlotScalar 1 SkI32) (replicate 5 0) (I32 7) = Inr data' \<and> length data' = 5
    \<and> read_slot (SlotScalar 1 SkI32) data' = Inr (I32 7)"
proof -
  let ?fs = "[\<lparr>irf_mutable = True, irf_storage = IsI8\<rparr>, \<lparr>irf_mutable = True, irf_storage = IsVal IvI32\<rparr>]"
  let ?l = "\<lparr>sl_fields = [SlotScalar 0 SkI8, SlotScalar 1 SkI32], sl_size = 5\<rparr>"
  have h: "layout_from_body (CompStruct ?fs) = Some (LayoutStruct ?l)"
    "length (replicate 5 (0 :: u8)) = sl_size ?l" "struct_field_at ?l 1 = Some (SlotScalar 1 SkI32)"
    "slot_accepts (SlotScalar 1 SkI32) (I32 7)" "handle_ok (I32 7)"
    "slot_view (SlotScalar 1 SkI32) (I32 7) = I32 7" by code_simp+
  from struct_field_update [OF h(1-5)] h(6) show ?thesis by auto
qed

text \<open>One element written, the others kept.\<close>

lemma array_elem_write:
  assumes "layout_from_body (CompArray f) = Some (LayoutArray l)" and "length data = body_size l n"
    and "i < n" and "slot_accepts (elem_at l i) v" and "handle_ok v"
  shows "\<exists>data'. write_slot (elem_at l i) data v = Inr data' \<and> length data' = length data
    \<and> read_slot (elem_at l i) data' = Inr (slot_view (elem_at l i) v)
    \<and> (\<forall>j < n. j \<noteq> i \<longrightarrow> read_slot (elem_at l j) data' = read_slot (elem_at l j) data)"
proof -
  have l: "l = array_layout_of (field_slot f 0)" using assms(1) by (simp add: layout_from_body_def)
  have inside: "slot_end (elem_at l j) \<le> length data" if "j < n" for j
    using elem_slot_within [OF l that] assms(2) by simp
  from slot_round_trip [OF assms(4,5) inside [OF assms(3)]] obtain data' where
    d: "write_slot (elem_at l i) data v = Inr data'" "length data' = length data"
      "read_slot (elem_at l i) data' = Inr (slot_view (elem_at l i) v)" by blast
  have "read_slot (elem_at l j) data' = read_slot (elem_at l j) data" if "j < n" "j \<noteq> i" for j
  proof (rule write_slot_other [OF d(1) inside [OF that(1)]])
    from that(2) consider "i < j" | "j < i" by linarith
    then show "slot_end (elem_at l i) \<le> slot_offset (elem_at l j) \<or> slot_end (elem_at l j) \<le> slot_offset (elem_at l i)"
      using elem_slots_disjoint [OF l] by cases auto
  qed
  with d show ?thesis by blast
qed

text \<open>The same for the elements of an array body of any length.\<close>

theorem array_elem_update:
  assumes "layout_from_body (CompArray f) = Some (LayoutArray l)" and "length data = body_size l n"
    and "i < n" and "slot_accepts (elem_at l i) v" and "handle_ok v"
  shows "\<exists>data'. write_slot (elem_at l i) data v = Inr data' \<and> length data' = length data
    \<and> read_slot (elem_at l i) data' = Inr (slot_view (elem_at l i) v)
    \<and> (\<forall>j < n. j \<noteq> i \<longrightarrow> read_slot (elem_at l j) data' = read_slot (elem_at l j) data)"
  by (rule array_elem_write [OF assms])

theorem array_elem_update_witness:
  "\<exists>data'. write_slot (SlotScalar 4 SkI16) (replicate 6 0) (I32 0x12345) = Inr data'
    \<and> read_slot (SlotScalar 4 SkI16) data' = Inr (I32 0x2345)"
proof -
  let ?l = "\<lparr>al_elem = SlotScalar 0 SkI16, al_stride = 2\<rparr>"
  have h: "layout_from_body (CompArray \<lparr>irf_mutable = True, irf_storage = IsI16\<rparr>) = Some (LayoutArray ?l)"
    "length (replicate 6 (0 :: u8)) = body_size ?l 3" "2 < (3 :: nat)"
    "slot_accepts (elem_at ?l 2) (I32 0x12345)" "handle_ok (I32 0x12345)"
    "elem_at ?l 2 = SlotScalar 4 SkI16" "slot_view (SlotScalar 4 SkI16) (I32 0x12345) = I32 0x2345"
    by code_simp+
  from array_elem_update [OF h(1-5)] h(6,7) show ?thesis by auto
qed

lemma slot_not_tagged:
  assumes "i < NULL_REF"
  shows "\<not> bit i 31"
proof -
  from assms have "unat i < 2 ^ 31" by (simp add: NULL_REF_def word_less_nat_alt)
  then have "take_bit 31 i = i" by (simp add: word_unat_eq_iff unsigned_take_bit_eq take_bit_nat_eq_self del: unat_eq_iff)
  then show ?thesis by (metis bit_take_bit_iff less_irrefl)
qed

text \<open>The tagged encoding of \<^verbatim>\<open>anyref\<close> handles is unambiguous: an \<^verbatim>\<open>i31\<close> decodes to its value
  sign-extended from 31 bits, a heap slot below the null handle decodes to itself, and neither is
  ever the null handle.\<close>

theorem anyref_handle_decode:
  "decode_anyref_handle (anyref_handle_i31 v) = HandleI31 (signed_take_bit 30 v)
   \<and> anyref_handle_i31 v \<noteq> NULL_REF
   \<and> (i < NULL_REF \<longrightarrow> decode_anyref_handle (anyref_handle_slot i) = HandleSlot i
        \<and> anyref_handle_slot i \<noteq> NULL_REF \<and> anyref_handle_slot i \<noteq> anyref_handle_i31 v)"
proof -
  have "\<not> bit i 31" if "i < NULL_REF" using that by (rule slot_not_tagged)
  moreover have "bit (anyref_handle_i31 v) 31" by (simp add: bit_anyref_handle_i31)
  ultimately show ?thesis
    using decode_anyref_handle_i31 anyref_handle_i31_not_null decode_anyref_handle_slot
    by (auto simp: anyref_handle_slot_def)
qed

theorem anyref_handle_decode_witness:
  "decode_anyref_handle (anyref_handle_slot 5) = HandleSlot 5 \<and> anyref_handle_i31 0xFFFFFFFF \<noteq> NULL_REF"
proof -
  have "(5 :: u32) < NULL_REF" by code_simp
  with anyref_handle_decode [of "0xFFFFFFFF" 5] show ?thesis by simp
qed

end
