(* ===== verification/Cells.thy ===== *)
theory Cells
  imports Gc_Codec
begin

text \<open>
  The untyped operand cells, \<^verbatim>\<open>src/exec/cell.rs\<close>, in the default build (no \<^verbatim>\<open>simd\<close> feature, so a
  cell has 8 bytes and a \<^verbatim>\<open>v128\<close> never reaches one), and the fast codecs of \<^verbatim>\<open>src/exec/stack.rs\<close>.
  A cell carries no type; the parallel root shadow keeps one \<open>ref_tag\<close> per cell, from which the
  collector recovers the references on the stack.
\<close>

definition SLOT_BYTES :: nat where
  "SLOT_BYTES = 8"

type_synonym cell = "u8 list"

datatype ref_tag = TagNone | TagFunc | TagExtern | TagAny | TagExn

definition of_val :: "val \<Rightarrow> ref_tag" where
  "of_val v = (case v of FuncRef _ \<Rightarrow> TagFunc | ExternRef _ \<Rightarrow> TagExtern | AnyRef _ \<Rightarrow> TagAny
     | ExnRef _ \<Rightarrow> TagExn | _ \<Rightarrow> TagNone)"

definition of_refkind :: "ref_kind \<Rightarrow> ref_tag" where
  "of_refkind k = (case k of RkFunc \<Rightarrow> TagFunc | RkExtern \<Rightarrow> TagExtern | RkAny \<Rightarrow> TagAny | RkExn \<Rightarrow> TagExn)"

definition tag_refkind :: "ref_tag \<Rightarrow> ref_kind option" where
  "tag_refkind t = (case t of TagFunc \<Rightarrow> Some RkFunc | TagExtern \<Rightarrow> Some RkExtern | TagAny \<Rightarrow> Some RkAny
     | TagExn \<Rightarrow> Some RkExn | TagNone \<Rightarrow> None)"

definition of_bytes :: "u8 list \<Rightarrow> cell" where
  "of_bytes bs = bs @ replicate (SLOT_BYTES - length bs) 0"

definition cell_lo :: "nat \<Rightarrow> cell \<Rightarrow> u8 list" where
  "cell_lo n c = take n c"

definition cell_i32 :: "cell \<Rightarrow> u32" where
  "cell_i32 c = le_word (cell_lo 4 c)"

definition cell_i64 :: "cell \<Rightarrow> u64" where
  "cell_i64 c = le_word (cell_lo 8 c)"

definition from_i32 :: "u32 \<Rightarrow> cell" where
  "from_i32 v = of_bytes (le_bytes 4 v)"

definition from_i64 :: "u64 \<Rightarrow> cell" where
  "from_i64 v = of_bytes (le_bytes 8 v)"

definition cell_handle :: "cell \<Rightarrow> u32" where
  "cell_handle c = le_word (cell_lo 4 c)"

definition cell_is_null :: "cell \<Rightarrow> bool" where
  "cell_is_null c \<longleftrightarrow> cell_handle c = NULL_REF"

section \<open>Encoding and decoding\<close>

definition slot_for_val :: "val \<Rightarrow> slot result" where
  "slot_for_val v = (case v of
     I32 _ \<Rightarrow> Inr (SlotScalar 0 SkI32) | I64 _ \<Rightarrow> Inr (SlotScalar 0 SkI64)
   | F32 _ \<Rightarrow> Inr (SlotScalar 0 SkF32) | F64 _ \<Rightarrow> Inr (SlotScalar 0 SkF64)
   | V128 _ \<Rightarrow> Inl (Panic ''v128 requires the simd feature'')
   | FuncRef _ \<Rightarrow> Inr (SlotRef 0 RkFunc) | ExternRef _ \<Rightarrow> Inr (SlotRef 0 RkExtern)
   | AnyRef _ \<Rightarrow> Inr (SlotRef 0 RkAny) | ExnRef _ \<Rightarrow> Inr (SlotRef 0 RkExn))"

definition refkind_of_heap :: "heap_type \<Rightarrow> ref_kind" where
  "refkind_of_heap h = (case h of
     HtFunc \<Rightarrow> RkFunc | HtNoFunc \<Rightarrow> RkFunc | HtConcreteFunc _ \<Rightarrow> RkFunc
   | HtExtern \<Rightarrow> RkExtern | HtNoExtern \<Rightarrow> RkExtern
   | HtExn \<Rightarrow> RkExn | HtNoExn \<Rightarrow> RkExn
   | _ \<Rightarrow> RkAny)"

definition refkind_of_irheap :: "ir_heap \<Rightarrow> ref_kind" where
  "refkind_of_irheap h = (case h of
     IhFunc \<Rightarrow> RkFunc | IhNoFunc \<Rightarrow> RkFunc | IhConcrete _ AkFunc \<Rightarrow> RkFunc
   | IhExtern \<Rightarrow> RkExtern | IhNoExtern \<Rightarrow> RkExtern
   | IhExn \<Rightarrow> RkExn | IhNoExn \<Rightarrow> RkExn
   | _ \<Rightarrow> RkAny)"

definition slot_for_valtype :: "val_type \<Rightarrow> slot result" where
  "slot_for_valtype t = (case t of
     VtI32 \<Rightarrow> Inr (SlotScalar 0 SkI32) | VtI64 \<Rightarrow> Inr (SlotScalar 0 SkI64)
   | VtF32 \<Rightarrow> Inr (SlotScalar 0 SkF32) | VtF64 \<Rightarrow> Inr (SlotScalar 0 SkF64)
   | VtV128 \<Rightarrow> Inl (Panic ''v128 requires the simd feature'')
   | VtRef rt \<Rightarrow> Inr (SlotRef 0 (refkind_of_heap (rt_heap rt))))"

definition encode :: "val \<Rightarrow> cell result" where
  "encode v = bindr (slot_for_val v) (\<lambda>s. write_slot s (replicate SLOT_BYTES 0) v)"

definition decode :: "cell \<Rightarrow> val_type \<Rightarrow> val result" where
  "decode c t = bindr (slot_for_valtype t) (\<lambda>s. read_slot s c)"

definition stack_slot_for_field :: "slot \<Rightarrow> slot" where
  "stack_slot_for_field s = (case s of
     SlotScalar _ k \<Rightarrow> SlotScalar 0 (if k = SkI8 \<or> k = SkI16 then SkI32 else k)
   | SlotRef _ k \<Rightarrow> SlotRef 0 k)"

text \<open>The scalar fast paths of \<^verbatim>\<open>src/exec/stack.rs\<close>.\<close>

definition decode_val :: "cell \<Rightarrow> val_type \<Rightarrow> val result" where
  "decode_val c t = (case t of
     VtI32 \<Rightarrow> Inr (I32 (cell_i32 c)) | VtI64 \<Rightarrow> Inr (I64 (cell_i64 c))
   | VtF32 \<Rightarrow> Inr (F32 (cell_i32 c)) | VtF64 \<Rightarrow> Inr (F64 (cell_i64 c))
   | _ \<Rightarrow> decode c t)"

definition encode_val :: "val \<Rightarrow> cell result" where
  "encode_val v = (case v of
     I32 x \<Rightarrow> Inr (from_i32 x) | I64 x \<Rightarrow> Inr (from_i64 x)
   | F32 b \<Rightarrow> Inr (of_bytes (le_bytes 4 b)) | F64 b \<Rightarrow> Inr (of_bytes (le_bytes 8 b))
   | _ \<Rightarrow> encode v)"

definition expected_tag :: "val_type \<Rightarrow> ref_tag" where
  "expected_tag t = (case t of VtRef rt \<Rightarrow> of_refkind (refkind_of_heap (rt_heap rt)) | _ \<Rightarrow> TagNone)"

section \<open>Lemmas\<close>

text \<open>What a value of a type looks like, up to the heap type of a reference.\<close>

definition val_fits :: "val \<Rightarrow> val_type \<Rightarrow> bool" where
  "val_fits v t = (case t of
     VtI32 \<Rightarrow> (\<exists>x. v = I32 x) | VtI64 \<Rightarrow> (\<exists>x. v = I64 x) | VtF32 \<Rightarrow> (\<exists>x. v = F32 x)
   | VtF64 \<Rightarrow> (\<exists>x. v = F64 x) | VtV128 \<Rightarrow> False
   | VtRef rt \<Rightarrow> of_val v = of_refkind (refkind_of_heap (rt_heap rt)))"

lemma length_of_bytes [simp]: "length bs \<le> 8 \<Longrightarrow> length (of_bytes bs) = SLOT_BYTES"
  by (simp add: of_bytes_def SLOT_BYTES_def)

lemma cell_lo_of_bytes [simp]: "n = length bs \<Longrightarrow> cell_lo n (of_bytes bs) = bs"
  by (simp add: cell_lo_def of_bytes_def)

lemma cell_i32_from [simp]: "cell_i32 (from_i32 v) = v"
  by (simp add: cell_i32_def from_i32_def)

lemma cell_i64_from [simp]: "cell_i64 (from_i64 v) = v"
  by (simp add: cell_i64_def from_i64_def)

lemma tag_refkind_of_refkind [simp]: "tag_refkind (of_refkind k) = Some k"
  by (cases k) (simp_all add: tag_refkind_def of_refkind_def)

lemma of_refkind_not_none [simp]: "of_refkind k \<noteq> TagNone"
  by (cases k) (simp_all add: of_refkind_def)

lemma of_refkind_inj [simp]: "of_refkind k = of_refkind l \<longleftrightarrow> k = l"
  by (cases k; cases l) (simp_all add: of_refkind_def)

lemma refkind_layout: "refkind_of_irheap h = ref_kind_of_irheap h" "refkind_of_heap t = ref_kind_of_heap t"
  by (simp_all add: refkind_of_irheap_def ref_kind_of_irheap_def refkind_of_heap_def ref_kind_of_heap_def)

lemma write_at_zero_of_bytes:
  "length bs \<le> 8 \<Longrightarrow> write_at (replicate SLOT_BYTES 0) 0 bs = of_bytes bs"
  by (simp add: write_at_def of_bytes_def)

text \<open>The fast codecs agree with the reference ones.\<close>

lemma encode_val_eq: "encode_val v = encode v"
  by (cases v) (simp_all add: encode_val_def encode_def slot_for_val_def write_slot_def write_scalar_def
      unwrap_i32_def unwrap_i64_def unwrap_f32_def unwrap_f64_def write_le_def slice_from_def
      from_i32_def from_i64_def write_at_zero_of_bytes SLOT_BYTES_def [symmetric],
    simp_all add: SLOT_BYTES_def)

lemma decode_val_eq: "length c = SLOT_BYTES \<Longrightarrow> decode_val c t = decode c t"
  by (cases t) (simp_all add: decode_val_def decode_def slot_for_valtype_def read_slot_def read_scalar_def
      slice_from_def slice_to_def cell_i32_def cell_i64_def cell_lo_def SLOT_BYTES_def)

lemma slot_for_val_accepts:
  "slot_for_val v = Inr s \<Longrightarrow> slot_accepts s v \<and> slot_end s \<le> SLOT_BYTES \<and> slot_view s v = erase_val v"
  by (cases v) (auto simp: slot_for_val_def slot_accepts_def slot_end_def SLOT_BYTES_def REF_WIDTH_def
      slot_view_def erase_val_def)

lemma encode_total: "(\<forall>x. v \<noteq> V128 x) \<Longrightarrow> handle_ok v \<Longrightarrow> \<exists>c. encode v = Inr c \<and> length c = SLOT_BYTES"
proof -
  assume "\<forall>x. v \<noteq> V128 x" and ok: "handle_ok v"
  then obtain s where s: "slot_for_val v = Inr s" by (cases v) (auto simp: slot_for_val_def)
  from slot_round_trip [of s v "replicate SLOT_BYTES 0"] slot_for_val_accepts [OF s] ok show ?thesis
    by (auto simp: encode_def s)
qed

lemma length_encode: "encode v = Inr c \<Longrightarrow> length c = SLOT_BYTES"
  by (auto simp: encode_def dest: length_write_slot)

lemma slot_for_valtype_fits: "val_fits v t \<Longrightarrow> slot_for_valtype t = slot_for_val v"
  by (cases t; cases v) (auto simp: val_fits_def slot_for_valtype_def slot_for_val_def of_val_def
      of_refkind_def split: ref_kind.splits)

lemma decode_encode:
  assumes "val_fits v t" and "handle_ok v" and "encode v = Inr c"
  shows "decode c t = Inr (erase_val v)"
proof -
  from assms(3) obtain s where s: "slot_for_val v = Inr s" "write_slot s (replicate SLOT_BYTES 0) v = Inr c"
    by (auto simp: encode_def)
  from slot_round_trip [of s v "replicate SLOT_BYTES 0"] slot_for_val_accepts [OF s(1)] assms(2) s
  have "read_slot s c = Inr (erase_val v)" by auto
  with s(1) show ?thesis by (simp add: decode_def slot_for_valtype_fits [OF assms(1)])
qed

text \<open>The handle the collector reads from a cell is the one the reference carries.\<close>

lemma encode_handle:
  assumes "encode v = Inr c" and "of_val v \<noteq> TagNone"
  shows "ref_handle v = Inr (cell_handle c)"
proof -
  from assms obtain k where "slot_for_val v = Inr (SlotRef 0 k)"
    by (cases v) (auto simp: slot_for_val_def of_val_def)
  with assms(1) obtain h where h: "ref_handle v = Inr h" "c = write_at (replicate SLOT_BYTES 0) 0 (le_bytes 4 h)"
    by (auto simp: encode_def write_slot_def write_le_def slice_from_def split: if_splits)
  then have "cell_handle c = h" by (simp add: cell_handle_def cell_lo_def SLOT_BYTES_def)
  with h(1) show ?thesis by simp
qed

section \<open>Properties\<close>

text \<open>C12. Operand cells carry values faithfully. A value of a type encodes to a cell of the fixed
  width, the fast codec gives the same cell, the shadow tag is the one the type expects, decoding
  at the type (by either codec) gives the value back up to its erased store and generation, and
  for a reference the handle the collector reads from the cell is the value's.\<close>

theorem cell_round_trip:
  assumes "val_fits v t" and "handle_ok v"
  shows "\<exists>c. encode v = Inr c \<and> length c = SLOT_BYTES \<and> encode_val v = Inr c \<and> of_val v = expected_tag t \<and>
    decode c t = Inr (erase_val v) \<and> decode_val c t = Inr (erase_val v) \<and>
    (of_val v \<noteq> TagNone \<longrightarrow> ref_handle v = Inr (cell_handle c))"
proof -
  have "\<forall>x. v \<noteq> V128 x" using assms(1) by (cases t) (auto simp: val_fits_def of_val_def of_refkind_def split: ref_kind.splits)
  with assms(2) obtain c where c: "encode v = Inr c" "length c = SLOT_BYTES" using encode_total by blast
  moreover have "of_val v = expected_tag t"
    using assms(1) by (auto simp: val_fits_def of_val_def expected_tag_def split: val_type.splits)
  moreover have "decode c t = Inr (erase_val v)" using decode_encode [OF assms c(1)] .
  ultimately show ?thesis using encode_handle [OF c(1)] decode_val_eq [OF c(2), of t] encode_val_eq [of v] by auto
qed

theorem cell_round_trip_witness:
  "\<exists>c. encode (AnyRef (Some (rooted_from_raw 7 RkAny))) = Inr c \<and> cell_handle c = 7"
proof -
  let ?v = "AnyRef (Some (rooted_from_raw 7 RkAny))" and ?t = "VtRef \<lparr>rt_nullable = True, rt_heap = HtAny\<rparr>"
  have f: "val_fits ?v ?t" by (simp add: val_fits_def of_val_def of_refkind_def refkind_of_heap_def)
  have h: "handle_ok ?v" "ref_handle ?v = Inr 7" "of_val ?v \<noteq> TagNone" by code_simp+
  from cell_round_trip [OF f h(1)] h(2,3) show ?thesis by auto
qed

end
