(* ===== verification/Code.thy ===== *)
theory Code
  imports Cells
begin

text \<open>
  Compiled code as the interpreter sees it: the instruction set \<^verbatim>\<open>Op\<close> (\<^verbatim>\<open>src/module/op.rs\<close>), its
  immediates (\<^verbatim>\<open>src/module/op_types.rs\<close>), the exception handler tables
  (\<^verbatim>\<open>src/module/handler.rs\<close>), the code arenas and the per-function record
  (\<^verbatim>\<open>src/module/code.rs\<close>), and the parts of \<^verbatim>\<open>ModuleInner\<close> that execution reads
  (\<^verbatim>\<open>src/module/inner.rs\<close>).

  The source's \<^verbatim>\<open>Op\<close> is one flat enum; here the constructors are grouped by the handler that
  \<^verbatim>\<open>step\<close> routes them to, with the width or comparison as a parameter: \<^verbatim>\<open>Op::I32Load8S(m)\<close> is
  \<open>OpMemory (MLoad LI32_8S m)\<close>, \<^verbatim>\<open>Op::I64LtU\<close> is \<open>OpNumeric (NI64Rel LtU)\<close>.
\<close>

section \<open>Immediates\<close>

record mem_arg =
  ma_memory :: nat
  ma_offset :: nat

definition BIG_MEMARG :: nat where
  "BIG_MEMARG = u32_max"

record branch_target =
  bt_ip :: nat
  bt_keep :: nat
  bt_pop :: nat

record br_table_range =
  btr_base :: nat
  btr_len :: nat

definition NULLABLE_BIT :: u32 where
  "NULLABLE_BIT = push_bit 31 1"

datatype cmp_kind = CEq | CNe | CLtS | CLtU | CGtS | CGtU | CLeS | CLeU | CGeS | CGeU

section \<open>Instructions\<close>

datatype load_kind =
    LI32 | LI64 | LF32 | LF64 | LI32_8S | LI32_8U | LI32_16S | LI32_16U
  | LI64_8S | LI64_8U | LI64_16S | LI64_16U | LI64_32S | LI64_32U

datatype store_kind =
    SI32 | SI64 | SF32 | SF64 | SI32_8 | SI32_16 | SI64_8 | SI64_16 | SI64_32

datatype mem_op =
    MLoad load_kind mem_arg
  | MStore store_kind mem_arg
  | MemorySize nat
  | MemoryInit nat nat
  | DataDrop nat
  | MemoryCopy nat nat
  | MemoryFill nat

datatype table_op =
    TableInit nat nat
  | TableCopy nat nat
  | ElemDrop nat
  | TableGet nat
  | TableSet nat
  | TableSize nat
  | TableFill nat

datatype ref_op = RefNull ir_heap | RefFuncOp nat | RefIsNull | RefAsNonNull

datatype int_un = UClz | UCtz | UPopcnt | UExtend8S | UExtend16S

datatype int_bin =
    BAdd | BSub | BMul | BDivS | BDivU | BRemS | BRemU | BAnd | BOr | BXor | BShl | BShrS | BShrU
  | BRotl | BRotr

datatype float_rel = FEq | FNe | FLt | FGt | FLe | FGe

datatype float_un = FAbs | FNeg | FCeil | FFloor | FTrunc | FNearest | FSqrt

datatype float_bin = FAdd | FSub | FMul | FDiv | FMin | FMax | FCopysign

datatype conv_op =
    I32TruncF32S | I32TruncF32U | I32TruncF64S | I32TruncF64U | I64TruncF32S | I64TruncF32U
  | I64TruncF64S | I64TruncF64U
  | I32TruncSatF32S | I32TruncSatF32U | I32TruncSatF64S | I32TruncSatF64U | I64TruncSatF32S | I64TruncSatF32U
  | I64TruncSatF64S | I64TruncSatF64U
  | F32ConvertI32S | F32ConvertI32U | F32ConvertI64S | F32ConvertI64U | F64ConvertI32S | F64ConvertI32U
  | F64ConvertI64S | F64ConvertI64U
  | F32DemoteF64 | F64PromoteF32

datatype numeric_op =
    NI32Eqz | NI32Rel cmp_kind | NI32Un int_un | NI32Bin int_bin
  | NI64Eqz | NI64Rel cmp_kind | NI64Un int_un | NI64Bin int_bin | NI64Extend32S
  | NI32WrapI64 | NI64ExtendI32S | NI64ExtendI32U
  | NI32ReinterpretF32 | NI64ReinterpretF64 | NF32ReinterpretI32 | NF64ReinterpretI64
  | NF32Rel float_rel | NF32Un float_un | NF32Bin float_bin | NF64Rel float_rel | NF64Un float_un | NF64Bin float_bin | NConv conv_op

datatype gc_op =
    StructNew nat | StructNewDefault nat | StructGet nat nat | StructGetS nat nat | StructGetU nat nat
  | StructSet nat nat | RefI31 | I31GetS | I31GetU

datatype array_op =
    ArrayNew nat | ArrayNewDefault nat | ArrayNewFixed nat nat | ArrayNewData nat nat | ArrayNewElem nat nat
  | ArrayGet nat | ArrayGetS nat | ArrayGetU nat | ArraySet nat | ArrayLen | ArrayFill nat | ArrayCopy nat nat
  | ArrayInitData nat nat | ArrayInitElem nat nat

datatype cast_op = RefTest ir_heap bool | RefCast ir_heap bool | RefEq | AnyConvertExtern | ExternConvertAny

datatype op =
    OpUnreachable
  | OpNop
  | OpBr branch_target
  | OpBrIf branch_target
  | OpBrIfNot branch_target
  | OpBrIfCmp cmp_kind bool branch_target
  | OpBrTable br_table_range
  | OpCall nat
  | OpCallIndirect nat nat
  | OpCallRef nat
  | OpReturnCall nat
  | OpReturnCallIndirect nat nat
  | OpReturnCallRef nat
  | OpBrOnNull branch_target
  | OpBrOnNonNull branch_target
  | OpThrow nat
  | OpThrowRef
  | OpDrop
  | OpSelect
  | OpLocalGet nat
  | OpLocalSet nat
  | OpLocalTee nat
  | OpGlobalGet nat
  | OpGlobalSet nat
  | OpMemoryGrow nat
  | OpTableGrow nat
  | OpI32Const u32
  | OpI64Const u64
  | OpF32Const u32
  | OpF64Const u64
  | OpMemory mem_op
  | OpTable table_op
  | OpRef ref_op
  | OpNumeric numeric_op
  | OpGc gc_op
  | OpArray array_op
  | OpCast cast_op
  | OpBrOnCast ir_heap u32
  | OpBrOnCastFail ir_heap u32

section \<open>Functions and modules\<close>

record handler_rec =
  hr_tag :: "nat option"
  hr_restore_height :: nat
  hr_payload_args :: bool
  hr_payload_ref :: bool
  hr_landing_ip :: nat

record handler_span =
  hs_start_ip :: nat
  hs_end_ip :: nat
  hs_clauses :: "handler_rec list"

record span =
  sp_start :: nat
  sp_len :: nat

record big_mem_arg =
  bma_memory :: nat
  bma_offset :: nat

record code_arenas =
  ca_ops :: "op list"
  ca_local_types :: "ir_val list"
  ca_handlers :: "handler_span list"
  ca_br_tables :: "branch_target list"
  ca_big_memargs :: "big_mem_arg list"

record compiled_func =
  cf_ops :: span
  cf_type_idx :: nat
  cf_n_params :: nat
  cf_n_results :: nat
  cf_local_types :: span
  cf_max_operands :: nat
  cf_handlers :: span
  cf_br_tables :: span
  cf_big_memargs :: span

text \<open>Constant expressions, segments, imports and exports.\<close>

datatype const_op =
    CI32 u32 | CI64 u64 | CF32 u32 | CF64 u64 | CRefNull ir_heap | CRefFunc nat | CGlobalGet nat
  | CI32Add | CI32Sub | CI32Mul | CI64Add | CI64Sub | CI64Mul | CRefI31
  | CStructNew nat | CStructNewDefault nat | CArrayNew nat | CArrayNewDefault nat | CArrayNewFixed nat nat
  | CArrayNewData nat nat | CArrayNewElem nat nat | CAnyConvertExtern | CExternConvertAny

type_synonym const_expr = "const_op list"

datatype import_kind = ImFunc nat | ImTable ir_table_type | ImMemory memory_type | ImGlobal ir_global_type | ImTag nat

record import =
  im_module :: string
  im_name :: string
  im_kind :: import_kind

datatype export_kind = ExFunc nat | ExTable nat | ExMemory nat | ExGlobal nat | ExTag nat

record export =
  ep_name :: string
  ep_kind :: export_kind

record table_def =
  td_ty :: ir_table_type
  td_init :: "const_expr option"

record global_def =
  gd_ty :: ir_global_type
  gd_init :: const_expr

datatype data_mode = DataPassive | DataActive nat const_expr

record data_segment =
  ds_mode :: data_mode
  ds_bytes :: "u8 list"

datatype elem_mode = ElemPassive | ElemDeclared | ElemActive nat const_expr

datatype elem_items = ElemFuncs "nat list" | ElemExprs "const_expr list"

record elem_segment =
  es_mode :: elem_mode
  es_items :: elem_items

record module_inner =
  mi_types :: "module_type list"
  mi_func_types :: "nat list"
  mi_num_imported_funcs :: nat
  mi_functions :: "compiled_func list"
  mi_code :: code_arenas
  mi_imports :: "import list"
  mi_exports :: "export list"
  mi_memories :: "memory_type list"
  mi_tables :: "table_def list"
  mi_globals :: "global_def list"
  mi_tags :: "nat list"
  mi_num_imported_tags :: nat
  mi_datas :: "data_segment list"
  mi_elems :: "elem_segment list"
  mi_start :: "nat option"
  mi_type_ids :: "canonical_type_id list"
  mi_layouts :: "layout option list"

record code =
  co_module :: module_inner
  co_index :: nat

definition span_of :: "'a list \<Rightarrow> span \<Rightarrow> 'a list" where
  "span_of xs s = take (sp_len s) (drop (sp_start s) xs)"

definition code_func :: "code \<Rightarrow> compiled_func" where
  "code_func c = mi_functions (co_module c) ! co_index c"

definition ops_of :: "code \<Rightarrow> compiled_func \<Rightarrow> op list" where
  "ops_of c f = span_of (ca_ops (mi_code (co_module c))) (cf_ops f)"

definition local_types_of :: "code \<Rightarrow> compiled_func \<Rightarrow> ir_val list" where
  "local_types_of c f = span_of (ca_local_types (mi_code (co_module c))) (cf_local_types f)"

definition code_handlers :: "code \<Rightarrow> handler_span list" where
  "code_handlers c = span_of (ca_handlers (mi_code (co_module c))) (cf_handlers (code_func c))"

definition code_br_tables :: "code \<Rightarrow> branch_target list" where
  "code_br_tables c = span_of (ca_br_tables (mi_code (co_module c))) (cf_br_tables (code_func c))"

definition code_big_memargs :: "code \<Rightarrow> big_mem_arg list" where
  "code_big_memargs c = span_of (ca_big_memargs (mi_code (co_module c))) (cf_big_memargs (code_func c))"

definition mi_layout :: "module_inner \<Rightarrow> nat \<Rightarrow> layout option" where
  "mi_layout m t = Option.bind (get_at (mi_layouts m) t) (\<lambda>x. x)"

definition mi_struct_layout :: "module_inner \<Rightarrow> nat \<Rightarrow> struct_layout result" where
  "mi_struct_layout m t = (case mi_layout m t of
     Some (LayoutStruct l) \<Rightarrow> Inr l | _ \<Rightarrow> Inl (Msg ''not a struct type''))"

definition mi_array_layout :: "module_inner \<Rightarrow> nat \<Rightarrow> array_layout result" where
  "mi_array_layout m t = (case mi_layout m t of
     Some (LayoutArray l) \<Rightarrow> Inr l | _ \<Rightarrow> Inl (Msg ''not an array type''))"

definition mi_struct_field :: "module_inner \<Rightarrow> nat \<Rightarrow> nat \<Rightarrow> slot result" where
  "mi_struct_field m t f = bindr (mi_struct_layout m t) (\<lambda>l.
     ok_or (Msg ''no such struct field'') (struct_field_at l f))"

end
