(* ===== verification/Exec_Stack.thy ===== *)
theory Exec_Stack
  imports Code
begin

text \<open>
  The operand stack and its root shadow, \<^verbatim>\<open>src/exec/stack.rs\<close>, over the \<^verbatim>\<open>Execution\<close> of
  \<^verbatim>\<open>src/exec/mod.rs\<close> and the frames of \<^verbatim>\<open>src/exec/frame.rs\<close>. Every method is an action on the
  execution; the record is extensible, so the same definitions act on the machine state that adds
  the store. Stacks are lists with their top at the end, as the vectors of the source.
\<close>

record entity_handle =
  eh_index :: u32
  eh_store :: u64

datatype delimiter = TopLevel | HostReentry

record frame =
  fr_code :: code
  fr_func :: compiled_func
  fr_ip :: nat
  fr_locals_base :: nat
  fr_operand_base :: nat
  fr_instance :: entity_handle
  fr_func_index :: nat
  fr_delimiter :: "delimiter option"

record execution =
  ex_values :: "cell list"
  ex_shadow :: "ref_tag list"
  ex_frames :: "frame list"
  ex_host_reentry_depth :: nat

definition execution_default :: execution where
  "execution_default = \<lparr>ex_values = [], ex_shadow = [], ex_frames = [], ex_host_reentry_depth = 0\<rparr>"

text \<open>\<open>ask q\<close> runs a query that may fail and leaves the state alone.\<close>

definition ask :: "('s \<Rightarrow> 'a result) \<Rightarrow> ('s, 'a) action" where
  "ask q s = (q s, s)"

abbreviation operand_err :: "string \<Rightarrow> error" where
  "operand_err m \<equiv> Internal (OperandStack m)"

abbreviation frame_err :: "string \<Rightarrow> error" where
  "frame_err m \<equiv> Internal (FrameStack m)"

definition truncate_to :: "nat \<Rightarrow> 'a execution_scheme \<Rightarrow> 'a execution_scheme" where
  "truncate_to base s = s\<lparr>ex_values := take base (ex_values s), ex_shadow := take base (ex_shadow s)\<rparr>"

section \<open>Checks\<close>

definition last_frame :: "string \<Rightarrow> 'a execution_scheme \<Rightarrow> frame result" where
  "last_frame m s = (if ex_frames s = [] then Inl (frame_err m) else Inr (last (ex_frames s)))"

definition operand_floor :: "'a execution_scheme \<Rightarrow> nat result" where
  "operand_floor s = bindr (last_frame ''missing current frame'' s) (\<lambda>f. Inr (fr_operand_base f))"

definition ensure_operands :: "nat \<Rightarrow> 'a execution_scheme \<Rightarrow> nat result" where
  "ensure_operands needed s =
     (if length (ex_values s) \<noteq> length (ex_shadow s) then Inl (operand_err ''value/shadow length mismatch'')
      else bindr (operand_floor s) (\<lambda>floor.
        bindr (ok_or (operand_err ''stack is below the current frame floor'')
            (checked_sub (length (ex_values s)) floor)) (\<lambda>available.
        if available < needed then Inl (operand_err ''operand stack underflow'')
        else Inr (length (ex_values s) - needed))))"

definition ensure_scalar_operands :: "nat \<Rightarrow> 'a execution_scheme \<Rightarrow> nat result" where
  "ensure_scalar_operands needed s = bindr (ensure_operands needed s) (\<lambda>base.
     if \<exists>t \<in> set (drop base (ex_shadow s)). t \<noteq> TagNone
     then Inl (operand_err ''numeric operation found a reference tag'') else Inr base)"

section \<open>Pops and pushes\<close>

definition pop_scalar :: "('a execution_scheme, cell) action" where
  "pop_scalar = bindc (ask (ensure_scalar_operands 1)) (\<lambda>base.
     bindc (getc (\<lambda>s. ex_values s ! base)) (\<lambda>c. bindc (putc (truncate_to base)) (\<lambda>_. ret c)))"

definition push_cell :: "cell \<Rightarrow> ref_tag \<Rightarrow> ('a execution_scheme, unit) action" where
  "push_cell c t = putc (\<lambda>s. s\<lparr>ex_shadow := ex_shadow s @ [t], ex_values := ex_values s @ [c]\<rparr>)"

definition push_scalar :: "u8 list \<Rightarrow> ('a execution_scheme, unit) action" where
  "push_scalar bs = putc (\<lambda>s. s\<lparr>ex_shadow := ex_shadow s @ [TagNone], ex_values := ex_values s @ [of_bytes bs]\<rparr>)"

definition push_i32 :: "u32 \<Rightarrow> ('a execution_scheme, unit) action" where
  "push_i32 v = push_scalar (le_bytes 4 v)"

definition push_i64 :: "u64 \<Rightarrow> ('a execution_scheme, unit) action" where
  "push_i64 v = push_scalar (le_bytes 8 v)"

definition push_f32_bits :: "u32 \<Rightarrow> ('a execution_scheme, unit) action" where
  "push_f32_bits v = push_scalar (le_bytes 4 v)"

definition push_f64_bits :: "u64 \<Rightarrow> ('a execution_scheme, unit) action" where
  "push_f64_bits v = push_scalar (le_bytes 8 v)"

definition push_default :: "ir_val \<Rightarrow> ('a execution_scheme, unit) action" where
  "push_default t = (case t of
     IvRef _ heap \<Rightarrow> push_cell (of_bytes (le_bytes 4 NULL_REF)) (of_refkind (refkind_of_irheap heap))
   | _ \<Rightarrow> push_scalar (replicate SLOT_BYTES 0))"

text \<open>In-place numeric operations: the result replaces the first operand, before the second is cut
  off; the fallible variant stops before it writes.\<close>

definition binop_cells_try :: "(cell \<Rightarrow> cell \<Rightarrow> cell result) \<Rightarrow> ('a execution_scheme, unit) action" where
  "binop_cells_try f = bindc (ask (ensure_scalar_operands 2)) (\<lambda>base.
     bindc (ask (\<lambda>s. f (ex_values s ! base) (ex_values s ! (base + 1)))) (\<lambda>c.
     putc (\<lambda>s. truncate_to (base + 1) (s\<lparr>ex_values := (ex_values s)[base := c]\<rparr>))))"

definition binop_cells :: "(cell \<Rightarrow> cell \<Rightarrow> cell) \<Rightarrow> ('a execution_scheme, unit) action" where
  "binop_cells f = bindc (ask (ensure_scalar_operands 2)) (\<lambda>base.
     putc (\<lambda>s. truncate_to (base + 1) (s\<lparr>ex_values :=
       (ex_values s)[base := f (ex_values s ! base) (ex_values s ! (base + 1))]\<rparr>)))"

definition unop_cell :: "(cell \<Rightarrow> cell) \<Rightarrow> ('a execution_scheme, unit) action" where
  "unop_cell f = bindc (ask (ensure_scalar_operands 1)) (\<lambda>base.
     putc (\<lambda>s. s\<lparr>ex_values := (ex_values s)[base := f (ex_values s ! base)]\<rparr>))"

definition pop_tagged :: "('a execution_scheme, cell \<times> ref_tag) action" where
  "pop_tagged = bindc (ask (ensure_operands 1)) (\<lambda>base.
     bindc (getc (\<lambda>s. (ex_values s ! base, ex_shadow s ! base))) (\<lambda>p.
     bindc (putc (truncate_to base)) (\<lambda>_. ret p)))"

definition pop_cell :: "('a execution_scheme, cell) action" where
  "pop_cell = bindc (ask (ensure_operands 1)) (\<lambda>base.
     bindc (getc (\<lambda>s. ex_values s ! base)) (\<lambda>c.
     bindc (putc (truncate_to base)) (\<lambda>_. ret c)))"

definition push_val :: "val \<Rightarrow> ('a execution_scheme, unit) action" where
  "push_val v = bindc (putc (\<lambda>s. s\<lparr>ex_shadow := ex_shadow s @ [of_val v]\<rparr>)) (\<lambda>_.
     bindc (lift_res (encode v)) (\<lambda>c. putc (\<lambda>s. s\<lparr>ex_values := ex_values s @ [c]\<rparr>)))"

definition cell_at :: "nat \<Rightarrow> 'a execution_scheme \<Rightarrow> (cell \<times> ref_tag) result" where
  "cell_at i s = (if length (ex_values s) \<noteq> length (ex_shadow s)
     then Inl (operand_err ''value/shadow length mismatch'')
     else bindr (ok_or (operand_err ''local index out of bounds'') (get_at (ex_values s) i)) (\<lambda>c.
       Inr (c, ex_shadow s ! i)))"

definition set_cell :: "nat \<Rightarrow> cell \<Rightarrow> ref_tag \<Rightarrow> ('a execution_scheme, unit) action" where
  "set_cell i c t s = (if length (ex_values s) \<noteq> length (ex_shadow s) \<or> length (ex_values s) \<le> i
     then (Inl (operand_err ''local index out of bounds''), s)
     else (Inr (), s\<lparr>ex_values := (ex_values s)[i := c], ex_shadow := (ex_shadow s)[i := t]\<rparr>))"

definition top_i32 :: "'a execution_scheme \<Rightarrow> u32 result" where
  "top_i32 s = bindr (ensure_scalar_operands 1 s) (\<lambda>base. Inr (cell_i32 (ex_values s ! base)))"

definition top_cell :: "'a execution_scheme \<Rightarrow> (cell \<times> ref_tag) result" where
  "top_cell s = bindr (ensure_operands 1 s) (\<lambda>base. Inr (ex_values s ! base, ex_shadow s ! base))"

definition pop_i32 :: "('a execution_scheme, u32) action" where
  "pop_i32 = bindc pop_scalar (\<lambda>c. ret (cell_i32 c))"

definition pop_i64 :: "('a execution_scheme, u64) action" where
  "pop_i64 = bindc pop_scalar (\<lambda>c. ret (cell_i64 c))"

text \<open>\<^verbatim>\<open>pop_f32\<close>/\<^verbatim>\<open>pop_f64\<close> as far as the bits go.\<close>

definition pop_f32_bits :: "('a execution_scheme, u32) action" where
  "pop_f32_bits = bindc pop_scalar (\<lambda>c. ret (cell_i32 c))"

definition pop_f64_bits :: "('a execution_scheme, u64) action" where
  "pop_f64_bits = bindc pop_scalar (\<lambda>c. ret (cell_i64 c))"

definition pop_i32_pair :: "('a execution_scheme, u32 \<times> u32) action" where
  "pop_i32_pair = bindc (ask (ensure_scalar_operands 2)) (\<lambda>base.
     bindc (getc (\<lambda>s. (cell_i32 (ex_values s ! base), cell_i32 (ex_values s ! (base + 1))))) (\<lambda>p.
     bindc (putc (truncate_to base)) (\<lambda>_. ret p)))"

definition pop_index :: "bool \<Rightarrow> ('a execution_scheme, nat) action" where
  "pop_index is_64 = bindc pop_scalar (\<lambda>c.
     ret (if is_64 then unat (cell_i64 c) else unat (cell_i32 c)))"

definition push_index :: "bool \<Rightarrow> nat \<Rightarrow> ('a execution_scheme, unit) action" where
  "push_index is_64 v = push_val (if is_64 then I64 (of_nat v) else I32 (of_nat v))"

definition pop_ref :: "ref_kind \<Rightarrow> ('a execution_scheme, val) action" where
  "pop_ref kind = bindc (ask (ensure_operands 1)) (\<lambda>base.
     bindc (ask (\<lambda>s. if ex_shadow s ! base \<noteq> of_refkind kind
       then Inl (operand_err ''reference tag does not match operand type'') else Inr ())) (\<lambda>_.
     bindc pop_cell (\<lambda>c. lift_res (read_slot (SlotRef 0 kind) c))))"

definition pop_tagged_ref :: "('a execution_scheme, cell \<times> ref_tag) action" where
  "pop_tagged_ref = bindc (ask (ensure_operands 1)) (\<lambda>base.
     bindc (ask (\<lambda>s. if tag_refkind (ex_shadow s ! base) = None
       then Inl (operand_err ''reference operation found a scalar tag'') else Inr ())) (\<lambda>_.
     bindc (getc (\<lambda>s. (ex_values s ! base, ex_shadow s ! base))) (\<lambda>p.
     bindc (putc (truncate_to base)) (\<lambda>_. ret p))))"

definition pop_anyref :: "('a execution_scheme, val) action" where
  "pop_anyref = pop_ref RkAny"

definition pop_val_for :: "slot \<Rightarrow> ('a execution_scheme, val) action" where
  "pop_val_for field = bindc (ask (ensure_operands 1)) (\<lambda>base.
     bindc (ask (\<lambda>s. if ex_shadow s ! base \<noteq> (case stack_slot_for_field field of
         SlotRef _ k \<Rightarrow> of_refkind k | SlotScalar _ _ \<Rightarrow> TagNone)
       then Inl (operand_err ''operand tag does not match field type'') else Inr ())) (\<lambda>_.
     bindc pop_cell (\<lambda>c. lift_res (read_slot (stack_slot_for_field field) c))))"

definition pop_typed :: "val_type \<Rightarrow> ('a execution_scheme, val) action" where
  "pop_typed t = bindc (ask (ensure_operands 1)) (\<lambda>base.
     bindc (ask (\<lambda>s. if ex_shadow s ! base \<noteq> expected_tag t
       then Inl (operand_err ''operand tag does not match value type'') else Inr ())) (\<lambda>_.
     bindc (ask (\<lambda>s. decode_val (ex_values s ! base) t)) (\<lambda>v.
     bindc (putc (truncate_to base)) (\<lambda>_. ret v))))"

definition pop_select :: "('a execution_scheme, cell \<times> ref_tag) action" where
  "pop_select = bindc (ask (ensure_operands 3)) (\<lambda>base.
     bindc (ask (\<lambda>s. if ex_shadow s ! base \<noteq> ex_shadow s ! (base + 1) \<or> ex_shadow s ! (base + 2) \<noteq> TagNone
       then Inl (operand_err ''select operand tag mismatch'') else Inr ())) (\<lambda>_.
     bindc (getc (\<lambda>s. if cell_i32 (ex_values s ! (base + 2)) \<noteq> 0
       then (ex_values s ! base, ex_shadow s ! base) else (ex_values s ! (base + 1), ex_shadow s ! (base + 1)))) (\<lambda>p.
     bindc (putc (truncate_to base)) (\<lambda>_. ret p))))"

fun decode_all :: "cell list \<Rightarrow> val_type list \<Rightarrow> val list result" where
  "decode_all (c # cs) (t # ts) = bindr (decode c t) (\<lambda>v. bindr (decode_all cs ts) (\<lambda>vs. Inr (v # vs)))"
| "decode_all _ _ = Inr []"

definition pop_params :: "val_type list \<Rightarrow> ('a execution_scheme, val list) action" where
  "pop_params tys = bindc (ask (ensure_operands (length tys))) (\<lambda>base.
     bindc (ask (\<lambda>s. if \<exists>(t, ty) \<in> set (zip (drop base (ex_shadow s)) tys). t \<noteq> expected_tag ty
       then Inl (operand_err ''host parameter tag mismatch'') else Inr ())) (\<lambda>_.
     bindc (ask (\<lambda>s. decode_all (drop base (ex_values s)) tys)) (\<lambda>vs.
     bindc (putc (truncate_to base)) (\<lambda>_. ret vs))))"

definition validate_result_tags :: "nat \<Rightarrow> val_type list \<Rightarrow> 'a execution_scheme \<Rightarrow> unit result" where
  "validate_result_tags base tys s =
     (if length (ex_values s) \<noteq> length (ex_shadow s) \<or> length (ex_values s) < base
      then Inl (operand_err ''invalid result stack boundary'')
      else if length (drop base (ex_shadow s)) \<noteq> length tys
      then Inl (Internal (ResultShape ''wrong number of execution results''))
      else if \<exists>(t, ty) \<in> set (zip (drop base (ex_shadow s)) tys). t \<noteq> expected_tag ty
      then Inl (Internal (ResultShape ''execution result tag mismatch''))
      else Inr ())"

fun push_results :: "val list \<Rightarrow> ('a execution_scheme, unit) action" where
  "push_results [] = ret ()"
| "push_results (v # vs) =
     bindc (putc (\<lambda>s. s\<lparr>ex_shadow := ex_shadow s @ [of_val v]\<rparr>)) (\<lambda>_.
     bindc (lift_res (encode_val v)) (\<lambda>c.
     bindc (putc (\<lambda>s. s\<lparr>ex_values := ex_values s @ [c]\<rparr>)) (\<lambda>_. push_results vs)))"

text \<open>The live references of the stack, for the collector.\<close>

definition root_of :: "cell \<times> ref_tag \<Rightarrow> (u32 \<times> ref_kind) option" where
  "root_of = (\<lambda>(c, t). case tag_refkind t of None \<Rightarrow> None
     | Some k \<Rightarrow> if cell_is_null c then None else Some (cell_handle c, k))"

definition operand_roots :: "'a execution_scheme \<Rightarrow> (u32 \<times> ref_kind) list result" where
  "operand_roots s = (if length (ex_values s) \<noteq> length (ex_shadow s)
     then Inl (operand_err ''value/shadow length mismatch during root scan'')
     else Inr (List.map_filter root_of (zip (ex_values s) (ex_shadow s))))"

end
