(* ===== verification/Exec_Frames.thy ===== *)
theory Exec_Frames
  imports Exec_Stack
begin

text \<open>
  Frames and call boundaries: \<^verbatim>\<open>src/exec/frame.rs\<close> (calls, delimiters, branches, returns) and the
  boundary handling of \<^verbatim>\<open>src/exec/mod.rs\<close> (entering a call from the host, taking its results,
  discarding a failed call, the stack budget).
\<close>

section \<open>Calls, branches and returns\<close>

fun push_defaults :: "ir_val list \<Rightarrow> ('a execution_scheme, unit) action" where
  "push_defaults [] = ret ()"
| "push_defaults (t # ts) = bindc (push_default t) (\<lambda>_. push_defaults ts)"

definition lockstep_check :: "'a execution_scheme \<Rightarrow> unit result" where
  "lockstep_check s = (if length (ex_values s) \<noteq> length (ex_shadow s)
     then Inl (operand_err ''value/shadow length mismatch'') else Inr ())"

definition caller_floor :: "'a execution_scheme \<Rightarrow> nat" where
  "caller_floor s = (if ex_frames s = [] then 0 else fr_operand_base (last (ex_frames s)))"

definition push_frame :: "frame \<Rightarrow> ('a execution_scheme, unit) action" where
  "push_frame f = putc (\<lambda>s. s\<lparr>ex_frames := ex_frames s @ [f]\<rparr>)"

text \<open>The checks of a call, in their order, giving the bases of the new frame.\<close>

definition call_check :: "code \<Rightarrow> 'a execution_scheme \<Rightarrow> (nat \<times> nat) result" where
  "call_check c s = (let func = code_func c in
     bindr (lockstep_check s) (\<lambda>_.
     bindr (ok_or (frame_err ''operand stack length exceeds u32'') (try_u32 (length (ex_values s)))) (\<lambda>value_len.
     bindr (case checked_sub value_len (caller_floor s) of
         None \<Rightarrow> Inl (operand_err ''call parameter underflow'')
       | Some available \<Rightarrow> if available < cf_n_params func then Inl (operand_err ''call parameter underflow'') else Inr ()) (\<lambda>_.
     bindr (ok_or (frame_err ''call parameter underflow'') (checked_sub value_len (cf_n_params func))) (\<lambda>locals_base.
     bindr (ok_or (frame_err ''local count exceeds u32'') (try_u32 (length (local_types_of c func)))) (\<lambda>n.
     bindr (ok_or (frame_err ''frame operand base exceeds u32'') (checked_add u32_max value_len n)) (\<lambda>operand_base.
     Inr (locals_base, operand_base))))))))"

definition push_call :: "entity_handle \<Rightarrow> nat \<Rightarrow> code \<Rightarrow> ('a execution_scheme, unit) action" where
  "push_call inst func_index c = (let func = code_func c in
     bindc (ask (call_check c)) (\<lambda>(locals_base, operand_base).
     bindc (push_defaults (local_types_of c func)) (\<lambda>_.
     push_frame \<lparr>fr_code = c, fr_func = func, fr_ip = 0, fr_locals_base = locals_base,
       fr_operand_base = operand_base, fr_instance = inst, fr_func_index = func_index,
       fr_delimiter = None\<rparr>)))"

definition push_delimiter :: "delimiter \<Rightarrow> entity_handle \<Rightarrow> code \<Rightarrow> ('a execution_scheme, unit) action" where
  "push_delimiter kind inst c =
     bindc (ask lockstep_check) (\<lambda>_.
     bindc (ask (\<lambda>s. ok_or (frame_err ''operand stack length exceeds u32'') (try_u32 (length (ex_values s))))) (\<lambda>locals_base.
     push_frame \<lparr>fr_code = c, fr_func = code_func c, fr_ip = 0, fr_locals_base = locals_base,
       fr_operand_base = locals_base, fr_instance = inst, fr_func_index = 0,
       fr_delimiter = Some kind\<rparr>))"

text \<open>The stack fix-up shared by branches and returns: the top \<open>keep\<close> cells and tags move down to
  \<open>dst\<close> and everything above is cut off.\<close>

definition slide :: "nat \<Rightarrow> nat \<Rightarrow> 'a execution_scheme \<Rightarrow> 'a execution_scheme" where
  "slide dst keep s = (let len = length (ex_values s) in
     s\<lparr>ex_values := take (dst + keep) (copy_within (ex_values s) (len - keep) len dst),
       ex_shadow := take (dst + keep) (copy_within (ex_shadow s) (len - keep) len dst)\<rparr>)"

definition take_branch :: "branch_target \<Rightarrow> ('a execution_scheme, unit) action" where
  "take_branch t =
     bindc (ask lockstep_check) (\<lambda>_.
     bindc (lift_opt (operand_err ''branch stack fixup overflow'') (checked_add usize_max (bt_keep t) (bt_pop t))) (\<lambda>needed.
     bindc (ask (last_frame ''missing branch frame'')) (\<lambda>f.
     bindc (ask (\<lambda>s. case checked_sub (length (ex_values s)) (fr_operand_base f) of
         None \<Rightarrow> Inl (operand_err ''branch stack fixup underflow'')
       | Some available \<Rightarrow> if available < needed then Inl (operand_err ''branch stack fixup underflow'') else Inr ())) (\<lambda>_.
     putc (\<lambda>s. slide (length (ex_values s) - bt_keep t - bt_pop t) (bt_keep t) s)))))"

definition top_frame :: "'a execution_scheme \<Rightarrow> frame result" where
  "top_frame s = bindr (last_frame ''missing current frame'' s) (\<lambda>f.
     if fr_delimiter f \<noteq> None then Inl (frame_err ''delimiter used as executable frame'') else Inr f)"

text \<open>The checks of a return, in their order, then the return itself.\<close>

definition return_check :: "nat \<Rightarrow> nat \<Rightarrow> bool \<Rightarrow> 'a execution_scheme \<Rightarrow> frame result" where
  "return_check n stop_depth is_tail s =
     (if length (ex_frames s) \<le> stop_depth \<or> length (ex_values s) \<noteq> length (ex_shadow s)
      then Inl (frame_err ''invalid return boundary'')
      else bindr (last_frame ''frame stack underflow'' s) (\<lambda>f.
        if fr_delimiter f \<noteq> None then Inl (frame_err ''cannot return from a delimiter'')
        else bindr (ok_or (operand_err ''return stack below frame floor'')
            (checked_sub (length (ex_values s)) (fr_operand_base f))) (\<lambda>available.
          bindr (ok_or (operand_err ''return result position overflow'')
            (checked_add usize_max (fr_locals_base f) n)) (\<lambda>result_end.
          if fr_operand_base f < fr_locals_base f \<or> length (ex_values s) < result_end \<or>
             available < n \<or> (\<not> is_tail \<and> available \<noteq> n)
          then Inl (Internal (ResultShape ''wrong number of frame results'')) else Inr f))))"

definition do_return :: "nat \<Rightarrow> nat \<Rightarrow> bool \<Rightarrow> ('a execution_scheme, bool) action" where
  "do_return n stop_depth is_tail =
     bindc (ask (return_check n stop_depth is_tail)) (\<lambda>f.
     bindc (putc (\<lambda>s. slide (fr_locals_base f) n (s\<lparr>ex_frames := butlast (ex_frames s)\<rparr>))) (\<lambda>_.
     getc (\<lambda>s. length (ex_frames s) = stop_depth)))"

section \<open>Call boundaries\<close>

text \<open>The arguments of a host call are encoded one by one; a \<^verbatim>\<open>v128\<close> panics in this build.\<close>

fun encode_all :: "val list \<Rightarrow> cell list result" where
  "encode_all [] = Inr []"
| "encode_all (v # vs) = bindr (encode v) (\<lambda>c. bindr (encode_all vs) (\<lambda>cs. Inr (c # cs)))"

definition enter_call :: "delimiter \<Rightarrow> entity_handle \<Rightarrow> nat \<Rightarrow> code \<Rightarrow> val list \<Rightarrow> ('a execution_scheme, unit) action" where
  "enter_call delim inst func_index c args s =
     (let value_base = length (ex_values s); frame_base = length (ex_frames s);
          old_depth = ex_host_reentry_depth s;
          entered = (if delim = HostReentry then checked_add usize_max old_depth 1 else Some old_depth)
      in case entered of
        None \<Rightarrow> (Inl (frame_err ''host re-entry depth overflow''), s)
      | Some d \<Rightarrow>
        (case push_delimiter delim inst c (s\<lparr>ex_host_reentry_depth := d\<rparr>) of
          (Inl e, t) \<Rightarrow> (Inl e, t\<lparr>ex_host_reentry_depth := old_depth\<rparr>)
        | (Inr _, t) \<Rightarrow>
          (let t1 = t\<lparr>ex_shadow := ex_shadow t @ map of_val args\<rparr> in
           case encode_all args of
            Inl e \<Rightarrow> (Inl e, t1)
          | Inr cells \<Rightarrow>
            (case push_call inst func_index c (t1\<lparr>ex_values := ex_values t1 @ cells\<rparr>) of
              (Inl e, u) \<Rightarrow> (Inl e, u\<lparr>ex_values := take value_base (ex_values u),
                 ex_shadow := take value_base (ex_shadow u), ex_frames := take frame_base (ex_frames u),
                 ex_host_reentry_depth := old_depth\<rparr>)
            | (Inr _, u) \<Rightarrow> (Inr (), u)))))"

definition release_reentry :: "nat \<Rightarrow> ('a execution_scheme, unit) action" where
  "release_reentry stop_depth s =
     (case Option.bind (get_at (ex_frames s) stop_depth) fr_delimiter of
        Some HostReentry \<Rightarrow> (case checked_sub (ex_host_reentry_depth s) 1 of
            None \<Rightarrow> (Inl (frame_err ''host re-entry depth underflow''), s)
          | Some d \<Rightarrow> (Inr (), s\<lparr>ex_host_reentry_depth := d\<rparr>))
      | Some TopLevel \<Rightarrow> (Inr (), s)
      | None \<Rightarrow> (Inl (frame_err ''missing call boundary delimiter''), s))"

definition cut_to :: "nat \<Rightarrow> nat \<Rightarrow> 'a execution_scheme \<Rightarrow> 'a execution_scheme" where
  "cut_to value_base stop_depth s = s\<lparr>ex_values := take value_base (ex_values s),
     ex_shadow := take value_base (ex_shadow s), ex_frames := take stop_depth (ex_frames s)\<rparr>"

definition take_results :: "nat \<Rightarrow> nat \<Rightarrow> val_type list \<Rightarrow> ('a execution_scheme, cell list) action" where
  "take_results value_base stop_depth tys =
     bindc (ask (\<lambda>s. if length (ex_values s) \<noteq> length (ex_shadow s) \<or> length (ex_values s) < value_base \<or>
         length (ex_frames s) < stop_depth
       then Inl (frame_err ''invalid completed call boundary'') else Inr ())) (\<lambda>_.
     bindc (ask (validate_result_tags value_base tys)) (\<lambda>_.
     bindc (release_reentry stop_depth) (\<lambda>_.
     bindc (getc (\<lambda>s. drop value_base (ex_values s))) (\<lambda>results.
     bindc (putc (cut_to value_base stop_depth)) (\<lambda>_. ret results)))))"

definition discard_to :: "nat \<Rightarrow> nat \<Rightarrow> ('a execution_scheme, unit) action" where
  "discard_to value_base stop_depth =
     bindc (ask (\<lambda>s. if length (ex_values s) \<noteq> length (ex_shadow s) \<or> length (ex_values s) < value_base \<or>
         length (ex_shadow s) < value_base \<or> length (ex_frames s) < stop_depth
       then Inl (frame_err ''invalid failed call boundary'') else Inr ())) (\<lambda>_.
     bindc (release_reentry stop_depth) (\<lambda>_.
     putc (cut_to value_base stop_depth)))"

text \<open>The innermost delimiter, searched from the top.\<close>

fun find_delimiter :: "(nat \<times> frame) list \<Rightarrow> (nat \<times> nat) option" where
  "find_delimiter [] = None"
| "find_delimiter ((depth, f) # fs) =
     (if fr_delimiter f \<noteq> None then Some (depth, fr_locals_base f) else find_delimiter fs)"

definition discard_current_call :: "('a execution_scheme, nat \<times> nat) action" where
  "discard_current_call =
     bindc (ask (\<lambda>s. ok_or (frame_err ''missing call boundary during panic cleanup'')
       (find_delimiter (rev (enumerate 0 (ex_frames s)))))) (\<lambda>(stop_depth, value_base).
     bindc (discard_to value_base stop_depth) (\<lambda>_. ret (value_base, stop_depth)))"

text \<open>The stack budget: 8 bytes per cell, one per shadow tag, \<open>FRAME_BYTES\<close> per frame
  (\<^verbatim>\<open>size_of::<Frame>()\<close> on a 64-bit target) and a reserve per host re-entry.\<close>

definition HOST_REENTRY_RESERVE :: nat where
  "HOST_REENTRY_RESERVE = 4096"

definition FRAME_BYTES :: nat where
  "FRAME_BYTES = 120"

definition stack_bytes :: "'a execution_scheme \<Rightarrow> nat result" where
  "stack_bytes s =
     bindr (ok_or (frame_err ''operand stack byte size overflow'') (checked_mul usize_max (length (ex_values s)) SLOT_BYTES)) (\<lambda>values.
     bindr (ok_or (frame_err ''frame stack byte size overflow'') (checked_mul usize_max (length (ex_frames s)) FRAME_BYTES)) (\<lambda>frames.
     bindr (ok_or (frame_err ''host re-entry byte size overflow'') (checked_mul usize_max (ex_host_reentry_depth s) HOST_REENTRY_RESERVE)) (\<lambda>reentry.
     ok_or (frame_err ''execution stack byte size overflow'')
       (Option.bind (checked_add usize_max values (length (ex_shadow s))) (\<lambda>n.
        Option.bind (checked_add usize_max n frames) (\<lambda>n.
        checked_add usize_max n reentry))))))"

section \<open>The stack invariant\<close>

text \<open>Frames nest: going down, each frame's region starts where it must, and the top frame's operand
  floor is inside the stack. Cells are whole and the shadow runs in lockstep with them.\<close>

fun chain_ok :: "frame list \<Rightarrow> nat \<Rightarrow> bool" where
  "chain_ok [] n \<longleftrightarrow> True"
| "chain_ok (f # fs) n \<longleftrightarrow> fr_locals_base f \<le> fr_operand_base f \<and> fr_operand_base f \<le> n \<and>
     chain_ok fs (fr_locals_base f)"

definition stack_ok :: "'a execution_scheme \<Rightarrow> bool" where
  "stack_ok s \<longleftrightarrow> length (ex_values s) = length (ex_shadow s) \<and>
     (\<forall>c \<in> set (ex_values s). length c = SLOT_BYTES) \<and> chain_ok (rev (ex_frames s)) (length (ex_values s))"

lemma chain_ok_mono: "chain_ok fs n \<Longrightarrow> n \<le> m \<Longrightarrow> chain_ok fs m"
  by (cases fs) auto

lemma ask_apply [simp, monad_simps]: "ask q s = (q s, s)"
  by (simp add: ask_def)

lemma last_frame_Inr: "last_frame m s = Inr f \<longleftrightarrow> ex_frames s \<noteq> [] \<and> f = last (ex_frames s)"
  by (auto simp: last_frame_def)

lemma ok_or_Inr [simp]: "ok_or e x = Inr y \<longleftrightarrow> x = Some y"
  by (cases x) simp_all

lemma ensure_operands_Inr:
  "ensure_operands n s = Inr b \<longleftrightarrow> length (ex_values s) = length (ex_shadow s) \<and> ex_frames s \<noteq> [] \<and>
     fr_operand_base (last (ex_frames s)) + n \<le> length (ex_values s) \<and> b = length (ex_values s) - n"
  by (auto simp: ensure_operands_def operand_floor_def last_frame_Inr)

lemma ensure_scalar_operands_Inr:
  "ensure_scalar_operands n s = Inr b \<longleftrightarrow> ensure_operands n s = Inr b \<and> (\<forall>t \<in> set (drop b (ex_shadow s)). t = TagNone)"
  by (auto simp: ensure_scalar_operands_def)

text \<open>The stack may be cut anywhere at or above the top frame's floor.\<close>

lemma chain_ok_last:
  "fs \<noteq> [] \<Longrightarrow> chain_ok (rev fs) n \<longleftrightarrow> fr_locals_base (last fs) \<le> fr_operand_base (last fs) \<and>
     fr_operand_base (last fs) \<le> n \<and> chain_ok (rev (butlast fs)) (fr_locals_base (last fs))"
  by (cases fs rule: rev_cases) auto

lemma stack_ok_truncate:
  assumes "stack_ok s" and "ex_frames s \<noteq> []" and "fr_operand_base (last (ex_frames s)) \<le> b" and "b \<le> length (ex_values s)"
  shows "stack_ok (truncate_to b s)"
  using assms by (auto simp: stack_ok_def truncate_to_def chain_ok_last dest: in_set_takeD)

lemma stack_ok_push:
  "stack_ok s \<Longrightarrow> length c = SLOT_BYTES \<Longrightarrow>
     stack_ok (s\<lparr>ex_shadow := ex_shadow s @ [t], ex_values := ex_values s @ [c]\<rparr>)"
  by (auto simp: stack_ok_def intro: chain_ok_mono)

lemma stack_ok_set:
  "stack_ok s \<Longrightarrow> length c = SLOT_BYTES \<Longrightarrow>
     stack_ok (s\<lparr>ex_values := (ex_values s)[i := c], ex_shadow := (ex_shadow s)[i := t]\<rparr>)"
  by (auto simp: stack_ok_def dest: set_update_subset_insert [THEN subsetD])

text \<open>Every pop checks before it cuts: it fails with the state untouched, or it removes exactly its
  operands, and never one below the current frame's floor.\<close>

definition pops :: "nat \<Rightarrow> ('a execution_scheme, 'b) action \<Rightarrow> bool" where
  "pops n m \<longleftrightarrow> (\<forall>s r t. m s = (r, t) \<longrightarrow> (case r of
     Inl e \<Rightarrow> t = s \<or> is_panic r
   | Inr _ \<Rightarrow> ensure_operands n s = Inr (length (ex_values s) - n) \<and> t = truncate_to (length (ex_values s) - n) s))"

lemmas stack_defs = pop_scalar_def pop_tagged_def pop_cell_def pop_i32_pair_def pop_tagged_ref_def
  pop_select_def pop_params_def

lemma pops_cells:
  "pops 1 pop_scalar" "pops 1 pop_tagged" "pops 1 pop_cell" "pops 2 pop_i32_pair" "pops 1 pop_tagged_ref"
  "pops 3 pop_select" "pops (length tys) (pop_params tys)"
  unfolding pops_def stack_defs
  by (auto simp: bindc_def ensure_scalar_operands_Inr ensure_operands_Inr
      split: sum.splits prod.splits if_splits)

lemma pops_bind_ret:
  assumes "pops n m"
  shows "pops n (bindc m (\<lambda>x. ret (f x)))"
  unfolding pops_def
proof (intro allI impI)
  fix s r t
  assume run: "bindc m (\<lambda>x. ret (f x)) s = (r, t)"
  obtain q u where q: "m s = (q, u)" by fastforce
  with assms have "case q of Inl e \<Rightarrow> u = s \<or> is_panic q
    | Inr _ \<Rightarrow> ensure_operands n s = Inr (length (ex_values s) - n) \<and> u = truncate_to (length (ex_values s) - n) s"
    unfolding pops_def by blast
  with run q show "case r of Inl e \<Rightarrow> t = s \<or> is_panic r
    | Inr _ \<Rightarrow> ensure_operands n s = Inr (length (ex_values s) - n) \<and> t = truncate_to (length (ex_values s) - n) s"
    by (cases q) (auto simp: bindc_def is_panic_def)
qed

lemma pops_values:
  "pops 1 pop_i32" "pops 1 pop_i64" "pops 1 pop_f32_bits" "pops 1 pop_f64_bits" "pops 1 (pop_index w)"
  unfolding pop_i32_def pop_i64_def pop_f32_bits_def pop_f64_bits_def pop_index_def
  by (intro pops_bind_ret pops_cells)+

lemma read_ref_slot_Inr: "length c = SLOT_BYTES \<Longrightarrow> read_slot (SlotRef 0 k) c = Inr (read_ref k (cell_handle c))"
  by (simp add: read_slot_def slice_from_def le_u32_def slice_to_def cell_handle_def cell_lo_def SLOT_BYTES_def)

text \<open>Results of the pops.\<close>

lemma pop_scalar_Inr:
  "pop_scalar s = (Inr c, t) \<longleftrightarrow> (\<exists>b. ensure_scalar_operands 1 s = Inr b \<and> c = ex_values s ! b \<and> t = truncate_to b s)"
  by (auto simp: pop_scalar_def bindc_eq_Inr)

lemma keeps_pops:
  assumes "pops n m"
  shows "stack_ok s \<Longrightarrow> m s = (Inr x, t) \<Longrightarrow> stack_ok t"
  using assms unfolding pops_def
  by (fastforce simp: ensure_operands_Inr intro: stack_ok_truncate)

section \<open>Branches and returns\<close>

lemma slide_eq:
  assumes "dst + keep \<le> length (ex_values s)" and "length (ex_shadow s) = length (ex_values s)"
  shows "slide dst keep s = s\<lparr>ex_values := take dst (ex_values s) @ drop (length (ex_values s) - keep) (ex_values s),
    ex_shadow := take dst (ex_shadow s) @ drop (length (ex_shadow s) - keep) (ex_shadow s)\<rparr>"
  using copy_within_truncate [of dst keep "ex_values s"] copy_within_truncate [of dst keep "ex_shadow s"] assms
  by (simp add: slide_def Let_def)

lemma take_branch_Inr:
  "take_branch t s = (Inr (), u) \<longleftrightarrow> length (ex_values s) = length (ex_shadow s) \<and> ex_frames s \<noteq> [] \<and>
     bt_keep t + bt_pop t \<le> usize_max \<and>
     fr_operand_base (last (ex_frames s)) + (bt_keep t + bt_pop t) \<le> length (ex_values s) \<and>
     u = slide (length (ex_values s) - bt_keep t - bt_pop t) (bt_keep t) s"
  by (auto simp: take_branch_def bindc_eq_Inr lockstep_check_def last_frame_Inr checked_add_def checked_sub_def
      split: if_splits)

lemma transactional_take_branch: "transactional (take_branch t)"
  unfolding transactional_def take_branch_def by (auto simp: bindc_eq_Inl bindc_eq_Inr lift_opt_def split: option.splits)

lemma return_check_Inr:
  "return_check n stop is_tail s = Inr f \<longleftrightarrow> stop < length (ex_frames s) \<and> length (ex_values s) = length (ex_shadow s) \<and>
     f = last (ex_frames s) \<and> fr_delimiter f = None \<and> fr_locals_base f + n \<le> usize_max \<and>
     fr_operand_base f + n \<le> length (ex_values s) \<and> fr_locals_base f \<le> fr_operand_base f \<and>
     (is_tail \<or> fr_operand_base f + n = length (ex_values s))"
  by (auto simp: return_check_def last_frame_Inr)

lemma do_return_Inr:
  "do_return n stop is_tail s = (Inr b, u) \<longleftrightarrow> (\<exists>f. return_check n stop is_tail s = Inr f \<and>
     b = (length (ex_frames s) - 1 = stop) \<and>
     u = slide (fr_locals_base f) n (s\<lparr>ex_frames := butlast (ex_frames s)\<rparr>))"
  by (auto simp: do_return_def bindc_eq_Inr slide_def Let_def)

lemma transactional_do_return: "transactional (do_return n stop is_tail)"
  unfolding transactional_def do_return_def by (auto simp: bindc_eq_Inl bindc_eq_Inr)

lemma stack_ok_slide:
  assumes ok: "stack_ok s" and "dst + keep \<le> length (ex_values s)" and "chain_ok (rev fs) dst"
  shows "stack_ok (slide dst keep (s\<lparr>ex_frames := fs\<rparr>))"
proof -
  have "length (ex_shadow s) = length (ex_values s)" using ok by (simp add: stack_ok_def)
  with assms show ?thesis
    by (auto simp: slide_eq stack_ok_def intro: chain_ok_mono dest: in_set_takeD in_set_dropD)
qed

lemma stack_ok_take_branch:
  assumes ok: "stack_ok s" and run: "take_branch t s = (Inr (), u)"
  shows "stack_ok u"
proof -
  have r: "ex_frames s \<noteq> []" "fr_operand_base (last (ex_frames s)) + (bt_keep t + bt_pop t) \<le> length (ex_values s)"
    "u = slide (length (ex_values s) - bt_keep t - bt_pop t) (bt_keep t) (s\<lparr>ex_frames := ex_frames s\<rparr>)"
    using run by (auto simp: take_branch_Inr)
  have "chain_ok (rev (ex_frames s)) (length (ex_values s) - bt_keep t - bt_pop t)"
    using ok r(1,2) by (auto simp: stack_ok_def chain_ok_last)
  then show ?thesis unfolding r(3) using ok r(2) by (intro stack_ok_slide) auto
qed

lemma stack_ok_do_return:
  assumes ok: "stack_ok s" and run: "do_return n stop is_tail s = (Inr b, u)"
  shows "stack_ok u"
proof -
  from run obtain f where f: "return_check n stop is_tail s = Inr f"
    "u = slide (fr_locals_base f) n (s\<lparr>ex_frames := butlast (ex_frames s)\<rparr>)"
    by (auto simp: do_return_Inr)
  then have "ex_frames s \<noteq> []" "f = last (ex_frames s)" by (auto simp: return_check_Inr)
  then have "chain_ok (rev (butlast (ex_frames s))) (fr_locals_base f)"
    using ok by (auto simp: stack_ok_def chain_ok_last)
  then show ?thesis unfolding f(2) using ok f(1) by (intro stack_ok_slide) (auto simp: return_check_Inr)
qed

section \<open>Calls\<close>

definition default_cell :: "ir_val \<Rightarrow> cell" where
  "default_cell t = (case t of IvRef _ _ \<Rightarrow> of_bytes (le_bytes 4 NULL_REF) | _ \<Rightarrow> replicate SLOT_BYTES 0)"

definition default_tag :: "ir_val \<Rightarrow> ref_tag" where
  "default_tag t = (case t of IvRef _ h \<Rightarrow> of_refkind (refkind_of_irheap h) | _ \<Rightarrow> TagNone)"

lemma length_default_cell [simp]: "length (default_cell t) = SLOT_BYTES"
  by (cases t) (simp_all add: default_cell_def SLOT_BYTES_def of_bytes_def)

lemma push_defaults_eq:
  "push_defaults ts s = (Inr (), s\<lparr>ex_shadow := ex_shadow s @ map default_tag ts, ex_values := ex_values s @ map default_cell ts\<rparr>)"
proof (induction ts arbitrary: s)
  case (Cons t ts)
  have "push_default t s = (Inr (), s\<lparr>ex_shadow := ex_shadow s @ [default_tag t], ex_values := ex_values s @ [default_cell t]\<rparr>)"
    by (cases t) (simp_all add: push_default_def push_cell_def push_scalar_def default_tag_def default_cell_def
        of_bytes_def SLOT_BYTES_def)
  with Cons show ?case by simp
qed simp

lemma call_check_Inr:
  "call_check c s = Inr (lb, ob) \<longleftrightarrow> length (ex_values s) = length (ex_shadow s) \<and> length (ex_values s) \<le> u32_max \<and>
     caller_floor s + cf_n_params (code_func c) \<le> length (ex_values s) \<and>
     length (ex_values s) + length (local_types_of c (code_func c)) \<le> u32_max \<and>
     lb = length (ex_values s) - cf_n_params (code_func c) \<and>
     ob = length (ex_values s) + length (local_types_of c (code_func c))"
  by (auto simp: call_check_def Let_def lockstep_check_def checked_sub_def split: if_splits)

definition call_frame :: "entity_handle \<Rightarrow> nat \<Rightarrow> code \<Rightarrow> nat \<Rightarrow> frame" where
  "call_frame inst func_index c len = \<lparr>fr_code = c, fr_func = code_func c, fr_ip = 0,
     fr_locals_base = len - cf_n_params (code_func c),
     fr_operand_base = len + length (local_types_of c (code_func c)),
     fr_instance = inst, fr_func_index = func_index, fr_delimiter = None\<rparr>"

text \<open>A call turns its arguments into the first locals of the new frame and appends the declared
  locals, zero or null.\<close>

lemma push_call_Inr:
  "push_call inst fi c s = (Inr (), u) \<longleftrightarrow> (\<exists>p. call_check c s = Inr p) \<and>
     u = s\<lparr>ex_shadow := ex_shadow s @ map default_tag (local_types_of c (code_func c)),
       ex_values := ex_values s @ map default_cell (local_types_of c (code_func c)),
       ex_frames := ex_frames s @ [call_frame inst fi c (length (ex_values s))]\<rparr>"
  by (auto simp: push_call_def Let_def bindc_eq_Inr push_defaults_eq push_frame_def call_check_Inr call_frame_def)

lemma transactional_push_call: "transactional (push_call inst fi c)"
  unfolding transactional_def push_call_def
  by (auto simp: Let_def bindc_eq_Inl push_defaults_eq push_frame_def)

lemma chain_ok_floor:
  "chain_ok (rev (ex_frames s)) n \<Longrightarrow> caller_floor s \<le> m \<Longrightarrow> chain_ok (rev (ex_frames s)) m"
  by (cases "ex_frames s = []") (auto simp: caller_floor_def chain_ok_last)

lemma stack_ok_push_call:
  assumes ok: "stack_ok s" and run: "push_call inst fi c s = (Inr (), u)"
  shows "stack_ok u"
proof -
  from run obtain lb ob where cc: "call_check c s = Inr (lb, ob)" by (auto simp: push_call_Inr)
  have "chain_ok (rev (ex_frames s)) (length (ex_values s) - cf_n_params (code_func c))"
    by (rule chain_ok_floor [of s "length (ex_values s)"]) (use ok cc in \<open>auto simp: stack_ok_def call_check_Inr\<close>)
  with ok cc run show ?thesis by (auto simp: push_call_Inr stack_ok_def call_frame_def)
qed

lemma push_delimiter_Inr:
  "push_delimiter k inst c s = (Inr (), u) \<longleftrightarrow> length (ex_values s) = length (ex_shadow s) \<and> length (ex_values s) \<le> u32_max \<and>
     u = s\<lparr>ex_frames := ex_frames s @ [\<lparr>fr_code = c, fr_func = code_func c, fr_ip = 0,
       fr_locals_base = length (ex_values s), fr_operand_base = length (ex_values s), fr_instance = inst,
       fr_func_index = 0, fr_delimiter = Some k\<rparr>]\<rparr>"
  by (auto simp: push_delimiter_def bindc_eq_Inr lockstep_check_def push_frame_def split: if_splits)

lemma transactional_push_delimiter: "transactional (push_delimiter k inst c)"
  unfolding transactional_def push_delimiter_def by (auto simp: bindc_eq_Inl push_frame_def)

section \<open>Entering and leaving\<close>

lemma length_encode_all: "encode_all vs = Inr cs \<Longrightarrow> length cs = length vs \<and> (\<forall>c \<in> set cs. length c = SLOT_BYTES)"
  by (induction vs arbitrary: cs) (auto dest: length_encode)

text \<open>Entering a call: the delimiter, the arguments and the callee's frame on top of the caller's
  execution. A call that cannot be entered leaves the execution exactly as it was.\<close>

definition boundary_frame :: "delimiter \<Rightarrow> entity_handle \<Rightarrow> code \<Rightarrow> nat \<Rightarrow> frame" where
  "boundary_frame k inst c len = \<lparr>fr_code = c, fr_func = code_func c, fr_ip = 0,
     fr_locals_base = len, fr_operand_base = len, fr_instance = inst, fr_func_index = 0, fr_delimiter = Some k\<rparr>"

definition bounded :: "delimiter \<Rightarrow> entity_handle \<Rightarrow> code \<Rightarrow> val list \<Rightarrow> cell list \<Rightarrow> 'a execution_scheme \<Rightarrow> 'a execution_scheme" where
  "bounded k inst c args cells s = s\<lparr>ex_values := ex_values s @ cells, ex_shadow := ex_shadow s @ map of_val args,
     ex_frames := ex_frames s @ [boundary_frame k inst c (length (ex_values s))],
     ex_host_reentry_depth := (if k = HostReentry then ex_host_reentry_depth s + 1 else ex_host_reentry_depth s)\<rparr>"

lemma bounded_simps [simp]:
  "ex_values (bounded k inst c args cells s) = ex_values s @ cells"
  "ex_shadow (bounded k inst c args cells s) = ex_shadow s @ map of_val args"
  "ex_frames (bounded k inst c args cells s) = ex_frames s @ [boundary_frame k inst c (length (ex_values s))]"
  by (simp_all add: bounded_def)

lemma push_delimiter_Inl: "push_delimiter k inst c s = (Inl e, t) \<Longrightarrow> t = s"
  using transactional_push_delimiter unfolding transactional_def by blast

lemma push_call_Inl: "push_call inst fi c s = (Inl e, t) \<Longrightarrow> t = s"
  using transactional_push_call unfolding transactional_def by blast

lemma enter_call_cases:
  assumes enc: "encode_all args = Inr cells" and run: "enter_call k inst fi c args s = (r, u)"
  obtains (refused) e where "r = Inl e" "u = s"
  | (call) r' v where "push_call inst fi c (bounded k inst c args cells s) = (r', v)" "r = r'"
      "length (ex_values s) = length (ex_shadow s)"
      "u = (case r' of Inr _ \<Rightarrow> v | Inl _ \<Rightarrow> v\<lparr>ex_values := take (length (ex_values s)) (ex_values v),
        ex_shadow := take (length (ex_values s)) (ex_shadow v), ex_frames := take (length (ex_frames s)) (ex_frames v),
        ex_host_reentry_depth := ex_host_reentry_depth s\<rparr>)"
proof -
  define d where "d = (if k = HostReentry then ex_host_reentry_depth s + 1 else ex_host_reentry_depth s)"
  show thesis
  proof (cases "k = HostReentry \<and> usize_max < d")
    case True
    then have "k = HostReentry" "checked_add usize_max (ex_host_reentry_depth s) 1 = None"
      by (auto simp: d_def)
    then have "enter_call k inst fi c args s = (Inl (frame_err ''host re-entry depth overflow''), s)"
      unfolding enter_call_def Let_def by (simp only: simp_thms if_True option.case)
    with run have "r = Inl (frame_err ''host re-entry depth overflow'')" "u = s" by simp_all
    then show thesis by (rule refused)
  next
    case False
    then have ent: "(if k = HostReentry then checked_add usize_max (ex_host_reentry_depth s) 1 else Some (ex_host_reentry_depth s)) = Some d"
      by (auto simp: d_def)
    obtain x t where pd: "push_delimiter k inst c (s\<lparr>ex_host_reentry_depth := d\<rparr>) = (x, t)" by fastforce
    show thesis
    proof (cases x)
      case (Inl e)
      with pd have "t = s\<lparr>ex_host_reentry_depth := d\<rparr>" by (auto dest: push_delimiter_Inl)
      with run ent pd Inl have "r = Inl e" "u = s" by (simp_all add: enter_call_def Let_def)
      then show thesis by (rule refused)
    next
      case (Inr y)
      with pd have t: "length (ex_values s) = length (ex_shadow s)"
        "t\<lparr>ex_shadow := ex_shadow t @ map of_val args, ex_values := ex_values t @ cells\<rparr> = bounded k inst c args cells s"
        by (auto simp: push_delimiter_Inr bounded_def boundary_frame_def d_def)
      obtain r' v where pc: "push_call inst fi c (bounded k inst c args cells s) = (r', v)" by fastforce
      show thesis
      proof (rule call)
        show "push_call inst fi c (bounded k inst c args cells s) = (r', v)" by (rule pc)
        show "length (ex_values s) = length (ex_shadow s)" by (rule t(1))
        have e: "enter_call k inst fi c args s = (case push_call inst fi c (bounded k inst c args cells s) of
              (Inl e, u) \<Rightarrow> (Inl e, u\<lparr>ex_values := take (length (ex_values s)) (ex_values u),
                 ex_shadow := take (length (ex_values s)) (ex_shadow u), ex_frames := take (length (ex_frames s)) (ex_frames u),
                 ex_host_reentry_depth := ex_host_reentry_depth s\<rparr>)
            | (Inr _, u) \<Rightarrow> (Inr (), u))"
          unfolding enter_call_def Let_def ent t(2) [symmetric] by (simp add: pd Inr enc)
        from e run pc show "r = r'" by (cases r') auto
        from e run pc show "u = (case r' of Inr _ \<Rightarrow> v | Inl _ \<Rightarrow> v\<lparr>ex_values := take (length (ex_values s)) (ex_values v),
            ex_shadow := take (length (ex_values s)) (ex_shadow v), ex_frames := take (length (ex_frames s)) (ex_frames v),
            ex_host_reentry_depth := ex_host_reentry_depth s\<rparr>)"
          by (cases r') auto
      qed
    qed
  qed
qed

lemma enter_call_Inl:
  assumes enc: "encode_all args = Inr cells" and run: "enter_call k inst fi c args s = (Inl e, u)"
  shows "u = s"
  using enc run
proof (cases rule: enter_call_cases)
  case (call r' v)
  then have v: "v = bounded k inst c args cells s" by (auto dest: push_call_Inl)
  have "r' = Inl e" using call(2) by simp
  then have "u = v\<lparr>ex_values := take (length (ex_values s)) (ex_values v),
        ex_shadow := take (length (ex_values s)) (ex_shadow v), ex_frames := take (length (ex_frames s)) (ex_frames v),
        ex_host_reentry_depth := ex_host_reentry_depth s\<rparr>" using call(4) by simp
  then show ?thesis using call(3) by (simp add: v bounded_def)
qed simp


text \<open>What a completed entry leaves on the stacks.\<close>

lemma enter_call_Inr:
  assumes enc: "encode_all args = Inr cells" and run: "enter_call k inst fi c args s = (Inr (), u)"
  shows "length (ex_values s) = length (ex_shadow s) \<and>
    u = s\<lparr>ex_values := ex_values s @ cells @ map default_cell (local_types_of c (code_func c)),
      ex_shadow := ex_shadow s @ map of_val args @ map default_tag (local_types_of c (code_func c)),
      ex_frames := ex_frames s @ [boundary_frame k inst c (length (ex_values s)),
        call_frame inst fi c (length (ex_values s) + length cells)],
      ex_host_reentry_depth := (if k = HostReentry then ex_host_reentry_depth s + 1 else ex_host_reentry_depth s)\<rparr>"
  using enc run
proof (cases rule: enter_call_cases)
  case (call r' v)
  from call(2) have "r' = Inr ()" by simp
  with call(1,4) have "push_call inst fi c (bounded k inst c args cells s) = (Inr (), u)" by simp
  then have "u = (bounded k inst c args cells s)\<lparr>
      ex_shadow := ex_shadow s @ map of_val args @ map default_tag (local_types_of c (code_func c)),
      ex_values := ex_values s @ cells @ map default_cell (local_types_of c (code_func c)),
      ex_frames := ex_frames s @ [boundary_frame k inst c (length (ex_values s)),
       call_frame inst fi c (length (ex_values s) + length cells)]\<rparr>"
    by (simp add: push_call_Inr)
  then show ?thesis using call(3) by (simp add: bounded_def)
qed simp

text \<open>Discarding a failed call. Whatever ran above the boundary, the caller gets back its own stacks,
  frames and re-entry depth.\<close>

definition above :: "delimiter \<Rightarrow> entity_handle \<Rightarrow> code \<Rightarrow> 'a execution_scheme \<Rightarrow> 'b execution_scheme \<Rightarrow> bool" where
  "above k inst c s t \<longleftrightarrow> length (ex_values t) = length (ex_shadow t) \<and> length (ex_values s) = length (ex_shadow s) \<and>
     take (length (ex_values s)) (ex_values t) = ex_values s \<and> length (ex_values s) \<le> length (ex_values t) \<and>
     take (length (ex_shadow s)) (ex_shadow t) = ex_shadow s \<and>
     (\<exists>fs. ex_frames t = ex_frames s @ boundary_frame k inst c (length (ex_values s)) # fs) \<and>
     ex_host_reentry_depth t = (if k = HostReentry then ex_host_reentry_depth s + 1 else ex_host_reentry_depth s)"

lemma above_enter_call:
  assumes "encode_all args = Inr cells" and "enter_call k inst fi c args s = (Inr (), u)"
  shows "above k inst c s u"
  using enter_call_Inr [OF assms] length_encode_all [OF assms(1)] by (simp add: above_def)

lemma release_reentry_above:
  assumes "above k inst c s t"
  shows "release_reentry (length (ex_frames s)) t = (Inr (), t\<lparr>ex_host_reentry_depth := ex_host_reentry_depth s\<rparr>)"
proof -
  from assms obtain fs where f: "ex_frames t = ex_frames s @ boundary_frame k inst c (length (ex_values s)) # fs"
    and d: "ex_host_reentry_depth t = (if k = HostReentry then ex_host_reentry_depth s + 1 else ex_host_reentry_depth s)"
    by (auto simp: above_def)
  have "Option.bind (get_at (ex_frames t) (length (ex_frames s))) fr_delimiter = Some k"
    by (simp add: get_at_def f boundary_frame_def)
  with d show ?thesis by (cases k) (simp_all add: release_reentry_def checked_sub_def)
qed

lemma discard_to_above:
  assumes "above k inst c s t"
  shows "discard_to (length (ex_values s)) (length (ex_frames s)) t =
    (Inr (), t\<lparr>ex_values := ex_values s, ex_shadow := ex_shadow s, ex_frames := ex_frames s,
       ex_host_reentry_depth := ex_host_reentry_depth s\<rparr>)"
proof -
  have "discard_to (length (ex_values s)) (length (ex_frames s)) t =
      (Inr (), cut_to (length (ex_values s)) (length (ex_frames s)) (t\<lparr>ex_host_reentry_depth := ex_host_reentry_depth s\<rparr>))"
    using assms release_reentry_above [OF assms] by (auto simp: discard_to_def above_def)
  with assms show ?thesis by (auto simp: above_def cut_to_def)
qed

text \<open>Panic cleanup finds the innermost boundary by itself.\<close>

lemma find_delimiter_above:
  "\<forall>f \<in> set fs. fr_delimiter f = None \<Longrightarrow>
    find_delimiter (rev (enumerate 0 (gs @ boundary_frame k inst c n # fs))) = Some (length gs, n)"
proof (induction fs rule: rev_induct)
  case Nil
  then show ?case by (simp add: enumerate_append_eq boundary_frame_def)
next
  case (snoc f fs)
  then have "find_delimiter (rev (enumerate 0 (gs @ boundary_frame k inst c n # fs))) = Some (length gs, n)" by simp
  with snoc.prems show ?case by (simp add: enumerate_append_eq)
qed

lemma discard_current_call_above:
  assumes "above k inst c s t" and "\<forall>f \<in> set (drop (Suc (length (ex_frames s))) (ex_frames t)). fr_delimiter f = None"
  shows "discard_current_call t =
    (Inr (length (ex_values s), length (ex_frames s)), t\<lparr>ex_values := ex_values s, ex_shadow := ex_shadow s,
       ex_frames := ex_frames s, ex_host_reentry_depth := ex_host_reentry_depth s\<rparr>)"
proof -
  from assms(1) obtain fs where f: "ex_frames t = ex_frames s @ boundary_frame k inst c (length (ex_values s)) # fs"
    by (auto simp: above_def)
  with assms(2) have "find_delimiter (rev (enumerate 0 (ex_frames t))) = Some (length (ex_frames s), length (ex_values s))"
    by (simp add: find_delimiter_above)
  with discard_to_above [OF assms(1)] show ?thesis by (simp add: discard_current_call_def)
qed

section \<open>Values on the stack\<close>

text \<open>A pushed value is popped again, up to the erased parts of its handle, and the execution is as
  before.\<close>

lemma push_val_Inr: "encode v = Inr c \<Longrightarrow>
    push_val v s = (Inr (), s\<lparr>ex_shadow := ex_shadow s @ [of_val v], ex_values := ex_values s @ [c]\<rparr>)"
  by (simp add: push_val_def)

lemma truncate_pushed:
  "length (ex_values s) = length (ex_shadow s) \<Longrightarrow>
     truncate_to (length (ex_values s)) (s\<lparr>ex_shadow := ex_shadow s @ ts, ex_values := ex_values s @ cs\<rparr>) = s"
  by (simp add: truncate_to_def)

text \<open>The collector's view of the stack.\<close>

lemma operand_roots_exact:
  assumes "operand_roots s = Inr rs"
  shows "(h, k) \<in> set rs \<longleftrightarrow> (\<exists>i < length (ex_values s). ex_shadow s ! i = of_refkind k \<and>
    cell_handle (ex_values s ! i) = h \<and> h \<noteq> NULL_REF)"
proof -
  have len: "length (ex_values s) = length (ex_shadow s)"
    and rs: "rs = List.map_filter root_of (zip (ex_values s) (ex_shadow s))"
    using assms by (auto simp: operand_roots_def split: if_splits)
  have tag: "tag_refkind t = Some k \<longleftrightarrow> t = of_refkind k" for t
    by (cases t; cases k) (simp_all add: tag_refkind_def of_refkind_def)
  have root: "root_of (c, t) = Some (h, k) \<longleftrightarrow> t = of_refkind k \<and> cell_handle c = h \<and> h \<noteq> NULL_REF" for c t
    by (auto simp: root_of_def cell_is_null_def tag [symmetric] split: option.splits)
  have "(h, k) \<in> set rs \<longleftrightarrow> (\<exists>p \<in> set (zip (ex_values s) (ex_shadow s)). root_of p = Some (h, k))"
    by (force simp: rs map_filter_def)
  also have "\<dots> \<longleftrightarrow> (\<exists>i < length (ex_values s). root_of (ex_values s ! i, ex_shadow s ! i) = Some (h, k))"
    using len by (auto simp: set_zip)
  finally show ?thesis by (simp add: root)
qed

section \<open>A small program for the witnesses\<close>

text \<open>One function with one parameter, one declared local and one result, and an execution inside
  it with two operands on the stack.\<close>

definition sample_func :: compiled_func where
  "sample_func = \<lparr>cf_ops = \<lparr>sp_start = 0, sp_len = 1\<rparr>, cf_type_idx = 0, cf_n_params = 1, cf_n_results = 1,
     cf_local_types = \<lparr>sp_start = 0, sp_len = 1\<rparr>, cf_max_operands = 2, cf_handlers = \<lparr>sp_start = 0, sp_len = 0\<rparr>,
     cf_br_tables = \<lparr>sp_start = 0, sp_len = 0\<rparr>, cf_big_memargs = \<lparr>sp_start = 0, sp_len = 0\<rparr>\<rparr>"

definition sample_code :: code where
  "sample_code = \<lparr>co_module = \<lparr>mi_types = [], mi_func_types = [0], mi_num_imported_funcs = 0, mi_functions = [sample_func],
     mi_code = \<lparr>ca_ops = [OpNop], ca_local_types = [IvI64], ca_handlers = [], ca_br_tables = [], ca_big_memargs = []\<rparr>,
     mi_imports = [], mi_exports = [], mi_memories = [], mi_tables = [], mi_globals = [], mi_tags = [], mi_num_imported_tags = 0,
     mi_datas = [], mi_elems = [], mi_start = None, mi_type_ids = [], mi_layouts = []\<rparr>, co_index = 0\<rparr>"

definition sample_instance :: entity_handle where
  "sample_instance = \<lparr>eh_index = 0, eh_store = 1\<rparr>"

definition sample_exec :: execution where
  "sample_exec = snd (push_val (AnyRef (Some (rooted_from_raw 3 RkAny)))
     (snd (push_i32 9 (snd (enter_call TopLevel sample_instance 0 sample_code [I32 5] execution_default)))))"

lemma stack_ok_sample: "stack_ok sample_exec"
  by code_simp

section \<open>Properties\<close>

text \<open>C13. A call boundary isolates its caller. Entering a call either fails with the caller's
  execution untouched, or puts the boundary, the arguments and the callee's frame with zeroed
  locals above it; and from any later state that still has the boundary in place, discarding the
  call (knowing the boundary or searching for it after a panic) gives the caller back exactly its
  stacks, frames and re-entry depth.\<close>

theorem call_boundary_restores:
  assumes "encode_all args = Inr cells" and "enter_call k inst fi c args s = (r, u)"
  shows "(case r of
     Inl _ \<Rightarrow> u = s
   | Inr _ \<Rightarrow> above k inst c s u \<and>
      ex_values u = ex_values s @ cells @ map default_cell (local_types_of c (code_func c)) \<and>
      (\<forall>t. above k inst c s t \<longrightarrow>
        discard_to (length (ex_values s)) (length (ex_frames s)) t =
          (Inr (), t\<lparr>ex_values := ex_values s, ex_shadow := ex_shadow s, ex_frames := ex_frames s,
             ex_host_reentry_depth := ex_host_reentry_depth s\<rparr>) \<and>
        ((\<forall>f \<in> set (drop (Suc (length (ex_frames s))) (ex_frames t)). fr_delimiter f = None) \<longrightarrow>
          discard_current_call t = (Inr (length (ex_values s), length (ex_frames s)),
            snd (discard_to (length (ex_values s)) (length (ex_frames s)) t)))))"
proof (cases r)
  case (Inl e)
  with assms(2) enter_call_Inl [OF assms(1)] show ?thesis by simp
next
  case (Inr x)
  with assms(2) have run: "enter_call k inst fi c args s = (Inr (), u)" by simp
  have "ex_values u = ex_values s @ cells @ map default_cell (local_types_of c (code_func c))"
    using enter_call_Inr [OF assms(1) run] by simp
  with Inr above_enter_call [OF assms(1) run] discard_to_above discard_current_call_above show ?thesis by fastforce
qed

theorem call_boundary_restores_witness:
  "fst (discard_to 4 2 (snd (enter_call HostReentry sample_instance 0 sample_code [I32 5] sample_exec))) = Inr ()"
proof -
  let ?c = "of_bytes (le_bytes 4 (5 :: u32))" and ?r = "enter_call HostReentry sample_instance 0 sample_code [I32 5] sample_exec"
  have h: "encode_all [I32 5] = Inr [?c]" "?r = (Inr (), snd ?r)" "length (ex_values sample_exec) = 4" "length (ex_frames sample_exec) = 2"
    by code_simp+
  from call_boundary_restores [OF h(1,2)] h(3,4) show ?thesis by auto
qed

text \<open>Branches. A branch either fails with the state untouched or keeps exactly its top
  \<open>keep\<close> operands, drops the \<open>pop\<close> below them and leaves everything under those alone; it never
  reaches below the current frame's operand floor, and it preserves the stack invariant.\<close>

theorem take_branch_exact:
  assumes "stack_ok s" and "take_branch t s = (r, u)"
  shows "(case r of
     Inl _ \<Rightarrow> u = s
   | Inr _ \<Rightarrow> stack_ok u \<and> ex_frames u = ex_frames s \<and>
      fr_operand_base (last (ex_frames s)) + (bt_keep t + bt_pop t) \<le> length (ex_values s) \<and>
      (let n = length (ex_values s); d = n - bt_keep t - bt_pop t in
        ex_values u = take d (ex_values s) @ drop (n - bt_keep t) (ex_values s) \<and>
        ex_shadow u = take d (ex_shadow s) @ drop (n - bt_keep t) (ex_shadow s)))"
proof (cases r)
  case (Inl e)
  with assms(2) transactional_take_branch [of t] show ?thesis unfolding transactional_def by auto
next
  case (Inr x)
  with assms have "stack_ok u" using stack_ok_take_branch by auto
  moreover have "length (ex_shadow s) = length (ex_values s)" using assms(1) by (simp add: stack_ok_def)
  ultimately show ?thesis
    using Inr assms(2) by (auto simp: take_branch_Inr slide_eq Let_def)
qed

theorem take_branch_exact_witness:
  "length (ex_values (snd (take_branch \<lparr>bt_ip = 0, bt_keep = 1, bt_pop = 1\<rparr> sample_exec))) = 3"
proof -
  let ?t = "\<lparr>bt_ip = 0, bt_keep = 1, bt_pop = 1\<rparr>"
  have h: "take_branch ?t sample_exec = (Inr (), snd (take_branch ?t sample_exec))" "length (ex_values sample_exec) = 4" by code_simp+
  from take_branch_exact [OF stack_ok_sample h(1)] h(2) show ?thesis by (simp add: Let_def)
qed

text \<open>Returns. A return either fails with the state untouched or drops the current frame and
  leaves its \<open>n\<close> results where the frame's locals began; what lies under them is unchanged, the
  stack invariant holds, and it reports whether the call boundary has been reached.\<close>

theorem do_return_exact:
  assumes "stack_ok s" and "do_return n stop is_tail s = (r, u)"
  shows "(case r of
     Inl _ \<Rightarrow> u = s
   | Inr b \<Rightarrow> stack_ok u \<and> ex_frames u = butlast (ex_frames s) \<and> b = (length (ex_frames u) = stop) \<and>
      stop < length (ex_frames s) \<and>
      (let base = fr_locals_base (last (ex_frames s)) in
        ex_values u = take base (ex_values s) @ drop (length (ex_values s) - n) (ex_values s) \<and>
        ex_shadow u = take base (ex_shadow s) @ drop (length (ex_values s) - n) (ex_shadow s)))"
proof (cases r)
  case (Inl e)
  with assms(2) transactional_do_return [of n stop is_tail] show ?thesis unfolding transactional_def by auto
next
  case (Inr b)
  with assms have "stack_ok u" using stack_ok_do_return by blast
  moreover have "length (ex_shadow s) = length (ex_values s)" using assms(1) by (simp add: stack_ok_def)
  ultimately show ?thesis
    using Inr assms(2) by (auto simp: do_return_Inr return_check_Inr slide_eq Let_def)
qed

theorem do_return_exact_witness:
  "ex_values (snd (do_return 1 1 True sample_exec)) = [of_bytes (le_bytes 4 (3 :: u32))]"
proof -
  have h: "do_return 1 1 True sample_exec = (Inr True, snd (do_return 1 1 True sample_exec))"
    "fr_locals_base (last (ex_frames sample_exec)) = 0"
    "drop (length (ex_values sample_exec) - 1) (ex_values sample_exec) = [of_bytes (le_bytes 4 (3 :: u32))]" by code_simp+
  from do_return_exact [OF stack_ok_sample h(1)] h(2,3) show ?thesis by (simp add: Let_def)
qed

text \<open>C14. The root scan is exact: it reports precisely the handles of the non-null references on the
  stack, each with the hierarchy its tag gives; and a reference just pushed is among them.\<close>

theorem operand_roots_correct:
  assumes "stack_ok s"
  shows "\<exists>rs. operand_roots s = Inr rs \<and>
    (\<forall>h k. (h, k) \<in> set rs \<longleftrightarrow> (\<exists>i < length (ex_values s). ex_shadow s ! i = of_refkind k \<and>
      cell_handle (ex_values s ! i) = h \<and> h \<noteq> NULL_REF)) \<and>
    (\<forall>v c h k. encode v = Inr c \<longrightarrow> of_val v = of_refkind k \<longrightarrow> ref_handle v = Inr h \<longrightarrow> h \<noteq> NULL_REF \<longrightarrow>
      (\<exists>rs'. operand_roots (snd (push_val v s)) = Inr rs' \<and> (h, k) \<in> set rs'))"
proof -
  have len: "length (ex_values s) = length (ex_shadow s)" using assms by (simp add: stack_ok_def)
  then obtain rs where rs: "operand_roots s = Inr rs" by (simp add: operand_roots_def)
  moreover have "\<exists>rs'. operand_roots (snd (push_val v s)) = Inr rs' \<and> (h, k) \<in> set rs'"
    if v: "encode v = Inr c" "of_val v = of_refkind k" "ref_handle v = Inr h" "h \<noteq> NULL_REF" for v c h k
  proof -
    let ?u = "s\<lparr>ex_shadow := ex_shadow s @ [of_val v], ex_values := ex_values s @ [c]\<rparr>"
    have "cell_handle c = h" using encode_handle [OF v(1)] v(2,3) by simp
    then have "\<exists>i < length (ex_values ?u). ex_shadow ?u ! i = of_refkind k \<and> cell_handle (ex_values ?u ! i) = h \<and> h \<noteq> NULL_REF"
      using len v(2,4) by (intro exI [of _ "length (ex_values s)"]) (simp add: nth_append)
    moreover obtain rs' where "operand_roots ?u = Inr rs'" using len by (simp add: operand_roots_def)
    ultimately show ?thesis using v(1) by (auto simp: push_val_Inr operand_roots_exact)
  qed
  ultimately show ?thesis using operand_roots_exact [OF rs] by blast
qed

theorem operand_roots_correct_witness:
  "\<exists>rs. operand_roots sample_exec = Inr rs \<and> (3, RkAny) \<in> set rs"
proof -
  have h: "3 < length (ex_values sample_exec)" "ex_shadow sample_exec ! 3 = of_refkind RkAny"
    "cell_handle (ex_values sample_exec ! 3) = 3" "(3 :: u32) \<noteq> NULL_REF" by code_simp+
  from operand_roots_correct [OF stack_ok_sample] h show ?thesis by blast
qed

end
