(* ===== verification/Slot_Arena.thy ===== *)
theory Slot_Arena
  imports Gc_Codec
begin

text \<open>
  The contract of a reclaimable slot arena, shared by the managed object heap
  (\<^verbatim>\<open>src/store/gc.rs\<close>) and by the \<^verbatim>\<open>externref\<close> and exception arenas
  (\<^verbatim>\<open>src/store/reclaim.rs\<close>): a vector of optional entries, a parallel vector of reuse
  generations and a LIFO free-list. The locale \<open>slot_arena\<close> fixes the three vectors, the
  allocation and the sweep of such an arena, assumes what one allocation and one sweep do to the
  vectors, and derives what a client relies on: which handles resolve afterwards, to what, and
  with which generation.
\<close>

text \<open>The generation of a slot after one more reuse; \<^verbatim>\<open>u32::MAX\<close> is reserved for unchecked
  handles and skipped.\<close>

definition bump_generation :: "u32 \<Rightarrow> u32" where
  "bump_generation g = (let next = g + 1 in if next = 0xFFFFFFFF then 0 else next)"

definition slot_live :: "'e option list \<Rightarrow> nat \<Rightarrow> bool" where
  "slot_live ss i \<longleftrightarrow> i < length ss \<and> ss ! i \<noteq> None"

definition arena_ok :: "'e option list \<Rightarrow> u32 list \<Rightarrow> u32 list \<Rightarrow> bool" where
  "arena_ok ss gs fs \<longleftrightarrow> length gs = length ss \<and> length ss \<le> 2 ^ 32 \<and> distinct fs
     \<and> (\<forall>i. i \<in> set fs \<longleftrightarrow> unat i < length ss \<and> ss ! unat i = None)
     \<and> (\<forall>g \<in> set gs. g \<noteq> 0xFFFFFFFF)"

text \<open>What a sweep that keeps the slots \<open>live\<close> makes of the vectors.\<close>

definition swept_slots :: "(nat \<Rightarrow> bool) \<Rightarrow> 'e option list \<Rightarrow> 'e option list" where
  "swept_slots live ss = map (\<lambda>i. if live i then ss ! i else None) [0..<length ss]"

definition swept_generations :: "(nat \<Rightarrow> bool) \<Rightarrow> 'e option list \<Rightarrow> u32 list \<Rightarrow> u32 list" where
  "swept_generations live ss gs =
     map (\<lambda>i. if slot_live ss i \<and> \<not> live i then bump_generation (gs ! i) else gs ! i) [0..<length gs]"

definition swept_indices :: "(nat \<Rightarrow> bool) \<Rightarrow> 'e option list \<Rightarrow> nat list" where
  "swept_indices live ss = filter (\<lambda>i. slot_live ss i \<and> \<not> live i) [0..<length ss]"

section \<open>Generations\<close>

text \<open>Generations count modulo \<open>2 ^ 32 - 1\<close>.\<close>

lemma bump_generation_unat:
  assumes "g \<noteq> 0xFFFFFFFF"
  shows "unat (bump_generation g) = (unat g + 1) mod (2 ^ 32 - 1)"
proof -
  have ne: "unat g \<noteq> 4294967295" using assms by (simp add: unat_u32_max_iff)
  have lt: "unat g < 4294967296" by simp
  from ne lt have "Suc (unat g) < 4294967296" by linarith
  then have "unat (g + 1) = unat g + 1" by (simp add: unat_word_ariths)
  moreover have "g + 1 = 0xFFFFFFFF \<longleftrightarrow> unat (g + 1) = 4294967295"
    by (simp add: unat_u32_max_iff)
  moreover have "Suc (unat g) < 4294967295" if "Suc (unat g) \<noteq> 4294967295"
    using that ne lt by linarith
  ultimately show ?thesis by (auto simp: bump_generation_def Let_def)
qed

lemma bump_generation_not_max: "g \<noteq> 0xFFFFFFFF \<Longrightarrow> bump_generation g \<noteq> 0xFFFFFFFF"
  by (auto simp: bump_generation_def Let_def)

lemma bump_generation_pow:
  "g \<noteq> 0xFFFFFFFF \<Longrightarrow> (bump_generation ^^ k) g \<noteq> 0xFFFFFFFF \<and>
     unat ((bump_generation ^^ k) g) = (unat g + k) mod (2 ^ 32 - 1)"
proof (induction k)
  case 0
  then have "unat g \<noteq> 4294967295" by (simp add: unat_u32_max_iff)
  then have "unat g < 4294967295" using unat_u32_less [of g] by linarith
  with 0 show ?case by simp
next
  case (Suc k)
  then show ?case
    by (simp add: bump_generation_not_max bump_generation_unat mod_Suc_eq)
qed

lemma bump_generation_pow_eq_iff:
  assumes "g \<noteq> 0xFFFFFFFF"
  shows "(bump_generation ^^ k) g = g \<longleftrightarrow> k mod (2 ^ 32 - 1) = 0"
proof -
  have g: "unat g = unat g mod (2 ^ 32 - 1)"
    using bump_generation_pow [OF assms, of 0] by simp
  have "(bump_generation ^^ k) g = g \<longleftrightarrow> (unat g + k) mod (2 ^ 32 - 1) = unat g mod (2 ^ 32 - 1)"
    using bump_generation_pow [OF assms, of k] g by (metis unat_eq_iff)
  also have "\<dots> \<longleftrightarrow> k mod (2 ^ 32 - 1) = 0"
    using mod_eq_dvd_iff_nat [of "unat g" "unat g + k" "2 ^ 32 - 1"] by (auto simp: mod_eq_0_iff_dvd)
  finally show ?thesis .
qed

section \<open>The vectors after a sweep\<close>

lemma length_swept [simp]:
  "length (swept_slots live ss) = length ss" "length (swept_generations live ss gs) = length gs"
  by (simp_all add: swept_slots_def swept_generations_def)

lemma nth_swept_slots [simp]:
  "i < length ss \<Longrightarrow> swept_slots live ss ! i = (if live i then ss ! i else None)"
  by (simp add: swept_slots_def)

lemma nth_swept_generations:
  "i < length gs \<Longrightarrow> swept_generations live ss gs ! i =
     (if slot_live ss i \<and> \<not> live i then bump_generation (gs ! i) else gs ! i)"
  by (simp add: swept_generations_def)

lemma slot_live_swept [simp]: "slot_live (swept_slots live ss) i \<longleftrightarrow> slot_live ss i \<and> live i"
  by (auto simp: slot_live_def split: if_splits)

lemma set_swept_indices: "i \<in> set (swept_indices live ss) \<longleftrightarrow> slot_live ss i \<and> \<not> live i"
  by (auto simp: swept_indices_def slot_live_def)

lemma arena_ok_sweep:
  assumes ok: "arena_ok ss gs fs"
  shows "arena_ok (swept_slots live ss) (swept_generations live ss gs)
    (fs @ map of_nat (swept_indices live ss))"
proof -
  have small: "i < length ss \<Longrightarrow> unat (of_nat i :: u32) = i" for i
    using ok by (simp add: arena_ok_def unat_of_nat_u32)
  have inj: "inj_on (of_nat :: nat \<Rightarrow> u32) (set (swept_indices live ss))"
    by (rule inj_onI) (metis set_swept_indices slot_live_def small)
  have fresh: "of_nat i \<notin> set fs" if "i \<in> set (swept_indices live ss)" for i
    using that ok small by (auto simp: set_swept_indices slot_live_def arena_ok_def)
  have mem: "i \<in> set (fs @ map of_nat (swept_indices live ss)) \<longleftrightarrow>
      unat i < length ss \<and> swept_slots live ss ! unat i = None" for i
  proof
    assume "i \<in> set (fs @ map of_nat (swept_indices live ss))"
    then show "unat i < length ss \<and> swept_slots live ss ! unat i = None"
      using ok small by (auto simp: arena_ok_def set_swept_indices slot_live_def)
  next
    assume r: "unat i < length ss \<and> swept_slots live ss ! unat i = None"
    then show "i \<in> set (fs @ map of_nat (swept_indices live ss))"
      using ok by (cases "ss ! unat i = None")
        (auto simp: arena_ok_def image_iff set_swept_indices slot_live_def
          intro!: bexI [of _ "unat i"] split: if_splits)
  qed
  have dist: "distinct (fs @ map of_nat (swept_indices live ss) :: u32 list)"
  proof -
    have "distinct (map of_nat (swept_indices live ss) :: u32 list)"
      using inj by (simp add: distinct_map) (simp add: swept_indices_def)
    moreover have "set fs \<inter> set (map of_nat (swept_indices live ss)) = {}"
      using fresh by auto
    ultimately show ?thesis using ok by (simp add: arena_ok_def)
  qed
  have gens: "g \<noteq> 0xFFFFFFFF" if "g \<in> set (swept_generations live ss gs)" for g
    using that ok bump_generation_not_max
    by (fastforce simp: arena_ok_def swept_generations_def split: if_splits)
  show ?thesis
    unfolding arena_ok_def using ok dist gens by (simp add: mem arena_ok_def del: set_append)
qed

section \<open>The sweep loop\<close>

text \<open>What both sweeps do at a slot they free, and the loop over all slots.\<close>

definition free_slot :: "nat \<Rightarrow> 'e option list \<times> u32 list \<times> u32 list \<Rightarrow> 'e option list \<times> u32 list \<times> u32 list" where
  "free_slot i = (\<lambda>(ss, gs, fs). (ss[i := None], gs[i := bump_generation (gs ! i)], fs @ [of_nat i]))"

definition sweep_slot :: "(nat \<Rightarrow> bool) \<Rightarrow> nat \<Rightarrow> 'e option list \<times> u32 list \<times> u32 list \<Rightarrow>
    'e option list \<times> u32 list \<times> u32 list" where
  "sweep_slot live i v = (if slot_live (fst v) i \<and> \<not> live i then free_slot i v else v)"

lemma fold_sweep_slot_upto:
  assumes "k \<le> length ss" and "length gs = length ss"
  shows "fold (sweep_slot live) [0..<k] (ss, gs, fs) =
    (map (\<lambda>i. if i < k \<and> \<not> live i then None else ss ! i) [0..<length ss],
     map (\<lambda>i. if i < k \<and> slot_live ss i \<and> \<not> live i then bump_generation (gs ! i) else gs ! i) [0..<length gs],
     fs @ map of_nat (filter (\<lambda>i. slot_live ss i \<and> \<not> live i) [0..<k]))"
  using assms(1)
proof (induction k)
  case 0
  show ?case by (simp add: map_nth)
next
  case (Suc k)
  let ?ss = "\<lambda>k. map (\<lambda>i. if i < k \<and> \<not> live i then None else ss ! i) [0..<length ss]"
  let ?gs = "\<lambda>k. map (\<lambda>i. if i < k \<and> slot_live ss i \<and> \<not> live i then bump_generation (gs ! i) else gs ! i) [0..<length gs]"
  let ?fs = "\<lambda>k. fs @ map of_nat (filter (\<lambda>i. slot_live ss i \<and> \<not> live i) [0..<k])"
  have k: "k < length ss" "k < length gs" using Suc.prems assms(2) by simp_all
  then have live: "slot_live (?ss k) k \<longleftrightarrow> slot_live ss k" by (simp add: slot_live_def)
  have "fold (sweep_slot live) [0..<Suc k] (ss, gs, fs) = sweep_slot live k (?ss k, ?gs k, ?fs k)"
    using Suc by simp
  also have "\<dots> = (?ss (Suc k), ?gs (Suc k), ?fs (Suc k))"
  proof (cases "slot_live ss k \<and> \<not> live k")
    case True
    have "(?ss k)[k := None] = ?ss (Suc k)"
      by (rule nth_equalityI) (use True k in \<open>auto simp: nth_list_update\<close>)
    moreover have "(?gs k)[k := bump_generation (?gs k ! k)] = ?gs (Suc k)"
      by (rule nth_equalityI) (use True k in \<open>auto simp: nth_list_update\<close>)
    ultimately show ?thesis using True live by (simp add: sweep_slot_def free_slot_def)
  next
    case False
    have "?ss k = ?ss (Suc k)"
      by (rule nth_equalityI) (use False k in \<open>auto simp: slot_live_def less_Suc_eq\<close>)
    moreover have "?gs k = ?gs (Suc k)"
      by (rule nth_equalityI) (use False in \<open>auto simp: less_Suc_eq\<close>)
    ultimately show ?thesis using False live by (auto simp: sweep_slot_def)
  qed
  finally show ?case .
qed

lemma fold_sweep_slot:
  assumes "length gs = length ss"
  shows "fold (sweep_slot live) [0..<length ss] (ss, gs, fs) =
    (swept_slots live ss, swept_generations live ss gs, fs @ map of_nat (swept_indices live ss))"
  using fold_sweep_slot_upto [OF order_refl assms, of live fs] assms
  by (auto simp: swept_slots_def swept_generations_def swept_indices_def)

text \<open>A loop over a record that acts on its three vectors as \<open>sweep_slot\<close> does.\<close>

lemma fold_view:
  assumes "\<And>i s. i \<in> set is \<Longrightarrow> view (f i s) = g i (view s)"
  shows "view (fold f is s) = fold g is (view s)"
  using assms by (induction "is" arbitrary: s) auto

section \<open>Sequences of operations\<close>

datatype ('e, 'l) arena_op = OpAlloc 'e | OpSweep 'l

fun run_ops :: "('e \<Rightarrow> ('s, u32) action) \<Rightarrow> ('l \<Rightarrow> 's \<Rightarrow> 's) \<Rightarrow> ('e, 'l) arena_op list \<Rightarrow> 's \<Rightarrow> 's" where
  "run_ops al sw [] s = s"
| "run_ops al sw (OpAlloc e # ops) s = run_ops al sw ops (snd (al e s))"
| "run_ops al sw (OpSweep l # ops) s = run_ops al sw ops (sw l s)"

text \<open>How often the slot \<open>i\<close> is freed on the way, and that the index space suffices.\<close>

fun frees :: "('s \<Rightarrow> 'e option list) \<Rightarrow> ('e \<Rightarrow> ('s, u32) action) \<Rightarrow> ('l \<Rightarrow> 's \<Rightarrow> 's) \<Rightarrow> ('l \<Rightarrow> 's \<Rightarrow> nat \<Rightarrow> bool) \<Rightarrow>
    ('e, 'l) arena_op list \<Rightarrow> nat \<Rightarrow> 's \<Rightarrow> nat" where
  "frees sl al sw keep [] i s = 0"
| "frees sl al sw keep (OpAlloc e # ops) i s = frees sl al sw keep ops i (snd (al e s))"
| "frees sl al sw keep (OpSweep l # ops) i s =
     (if slot_live (sl s) i \<and> \<not> keep l s i then 1 else 0) + frees sl al sw keep ops i (sw l s)"

fun roomy :: "('e \<Rightarrow> ('s, u32) action) \<Rightarrow> ('l \<Rightarrow> 's \<Rightarrow> 's) \<Rightarrow> ('s \<Rightarrow> bool) \<Rightarrow> ('e, 'l) arena_op list \<Rightarrow> 's \<Rightarrow> bool" where
  "roomy al sw room [] s \<longleftrightarrow> True"
| "roomy al sw room (OpAlloc e # ops) s \<longleftrightarrow> room s \<and> roomy al sw room ops (snd (al e s))"
| "roomy al sw room (OpSweep l # ops) s \<longleftrightarrow> roomy al sw room ops (sw l s)"

section \<open>The contract\<close>

locale slot_arena =
  fixes slots :: "'s \<Rightarrow> 'e option list"
    and generations :: "'s \<Rightarrow> u32 list"
    and free :: "'s \<Rightarrow> u32 list"
    and alloc :: "'e \<Rightarrow> ('s, u32) action"
    and sweep :: "'l \<Rightarrow> 's \<Rightarrow> 's"
    and keep :: "'l \<Rightarrow> 's \<Rightarrow> nat \<Rightarrow> bool"
    and room :: "'s \<Rightarrow> bool"
  assumes alloc_reuse: "arena_ok (slots s) (generations s) (free s) \<Longrightarrow> free s \<noteq> [] \<Longrightarrow>
      alloc e s = (Inr i, t) \<Longrightarrow> i = last (free s) \<and> slots t = (slots s)[unat i := Some e] \<and>
        generations t = generations s \<and> free t = butlast (free s)"
    and alloc_fresh: "arena_ok (slots s) (generations s) (free s) \<Longrightarrow> free s = [] \<Longrightarrow> room s \<Longrightarrow>
      alloc e s = (Inr i, t) \<Longrightarrow> i = of_nat (length (slots s)) \<and> length (slots s) < 2 ^ 32 \<and>
        slots t = slots s @ [Some e] \<and> generations t = generations s @ [0] \<and> free t = []"
    and alloc_total: "arena_ok (slots s) (generations s) (free s) \<Longrightarrow> room s \<Longrightarrow>
      \<exists>i t. alloc e s = (Inr i, t)"
    and sweep_slots: "arena_ok (slots s) (generations s) (free s) \<Longrightarrow>
      slots (sweep l s) = swept_slots (keep l s) (slots s)"
    and sweep_generations: "arena_ok (slots s) (generations s) (free s) \<Longrightarrow>
      generations (sweep l s) = swept_generations (keep l s) (slots s) (generations s)"
    and sweep_free: "arena_ok (slots s) (generations s) (free s) \<Longrightarrow>
      free (sweep l s) = free s @ map of_nat (swept_indices (keep l s) (slots s))"
begin

lemma ok_sweep:
  "arena_ok (slots s) (generations s) (free s) \<Longrightarrow>
     arena_ok (slots (sweep l s)) (generations (sweep l s)) (free (sweep l s))"
  by (simp add: sweep_slots sweep_generations sweep_free arena_ok_sweep)

lemma alloc_index:
  assumes "arena_ok (slots s) (generations s) (free s)" and "room s" and "alloc e s = (Inr i, t)"
  shows "\<not> slot_live (slots s) (unat i)"
proof (cases "free s = []")
  case True
  then show ?thesis
    using alloc_fresh [OF assms(1) True assms(2,3)]
    by (auto simp: slot_live_def unat_of_nat_u32)
next
  case False
  then have "last (free s) \<in> set (free s)" by simp
  then show ?thesis
    using alloc_reuse [OF assms(1) False assms(3)] assms(1) by (auto simp: slot_live_def arena_ok_def)
qed

lemma ok_alloc:
  assumes ok: "arena_ok (slots s) (generations s) (free s)" and "room s" and "alloc e s = (Inr i, t)"
  shows "arena_ok (slots t) (generations t) (free t)"
proof (cases "free s = []")
  case True
  with ok have none: "\<And>k :: u32. unat k < length (slots s) \<Longrightarrow> slots s ! unat k \<noteq> None"
    unfolding arena_ok_def by (metis empty_iff empty_set)
  show ?thesis
    using alloc_fresh [OF ok True assms(2,3)] ok none
    by (auto simp: arena_ok_def nth_append less_Suc_eq split: if_splits)
next
  case False
  define f where "f = butlast (free s)"
  have fs: "free s = f @ [last (free s)]" using False by (simp add: f_def)
  from ok have dist: "distinct (f @ [last (free s)])" by (simp add: arena_ok_def flip: fs)
  from ok have mem: "\<And>k. k \<in> set (f @ [last (free s)]) \<longleftrightarrow>
      unat k < length (slots s) \<and> slots s ! unat k = None"
    by (simp add: arena_ok_def flip: fs)
  have a: "i = last (free s)" "slots t = (slots s)[unat i := Some e]" "generations t = generations s"
    "free t = f"
    using alloc_reuse [OF ok False assms(3)] by (auto simp: f_def)
  have "k \<in> set f \<longleftrightarrow> unat k < length (slots s) \<and> slots t ! unat k = None" for k
  proof (cases "k = i")
    case True
    then show ?thesis using dist mem [of i] a by auto
  next
    case False
    then have "unat k \<noteq> unat i" by simp
    then show ?thesis using False mem [of k] a by auto
  qed
  with a ok dist show ?thesis by (simp add: arena_ok_def)
qed

text \<open>The new entry is found under its handle; every other handle resolves as before.\<close>

lemma alloc_slots:
  assumes "arena_ok (slots s) (generations s) (free s)" and "room s" and "alloc e s = (Inr i, t)"
  shows "get_at (slots t) k = (if k = unat i then Some (Some e) else get_at (slots s) k)"
proof (cases "free s = []")
  case True
  then show ?thesis
    using alloc_fresh [OF assms(1) True assms(2,3)]
    by (auto simp: get_at_def nth_append unat_of_nat_u32)
next
  case False
  then have "last (free s) \<in> set (free s)" by simp
  then show ?thesis
    using alloc_reuse [OF assms(1) False assms(3)] assms(1)
    by (auto simp: get_at_def arena_ok_def)
qed

text \<open>Allocation changes no generation of a slot that exists; a fresh slot starts at 0.\<close>

lemma alloc_generation:
  assumes "arena_ok (slots s) (generations s) (free s)" and "room s" and "alloc e s = (Inr i, t)"
    and "k < length (generations s)"
  shows "get_at (generations t) k = get_at (generations s) k"
  using alloc_fresh [OF assms(1) _ assms(2,3)] alloc_reuse [OF assms(1) _ assms(3)] assms(4)
  by (cases "free s = []") (auto simp: get_at_def nth_append)

lemma sweep_get:
  assumes "arena_ok (slots s) (generations s) (free s)"
  shows "get_at (slots (sweep l s)) k =
    map_option (\<lambda>x. if keep l s k then x else None) (get_at (slots s) k)"
  using sweep_slots [OF assms, of l] by (simp add: get_at_def)

lemma sweep_generation:
  assumes "arena_ok (slots s) (generations s) (free s)"
  shows "get_at (generations (sweep l s)) k =
    map_option (\<lambda>g. if slot_live (slots s) k \<and> \<not> keep l s k then bump_generation g else g)
      (get_at (generations s) k)"
  using sweep_generations [OF assms, of l] by (simp add: get_at_def nth_swept_generations)

text \<open>A slot's generation counts how often it was freed; until then the entry is the one it held.\<close>

lemma run_generation:
  assumes "arena_ok (slots s) (generations s) (free s)" and "roomy alloc sweep room ops s"
    and "i < length (generations s)"
  shows "get_at (generations (run_ops alloc sweep ops s)) i =
      Some ((bump_generation ^^ frees slots alloc sweep keep ops i s) (generations s ! i))
    \<and> (slot_live (slots s) i \<longrightarrow> frees slots alloc sweep keep ops i s = 0 \<longrightarrow>
         get_at (slots (run_ops alloc sweep ops s)) i = get_at (slots s) i)"
  using assms
proof (induction ops arbitrary: s)
  case Nil
  then show ?case by simp
next
  case (Cons op ops)
  show ?case
  proof (cases op)
    case (OpAlloc e)
    with Cons.prems have room: "room s" by simp
    obtain k t where t: "alloc e s = (Inr k, t)" using alloc_total [OF Cons.prems(1) room] by blast
    have ok: "arena_ok (slots t) (generations t) (free t)" by (rule ok_alloc [OF Cons.prems(1) room t])
    have gen: "get_at (generations t) i = get_at (generations s) i"
      by (rule alloc_generation [OF Cons.prems(1) room t Cons.prems(3)])
    then have i: "i < length (generations t)" "generations t ! i = generations s ! i"
      using Cons.prems(3) by (auto simp: get_at_def split: if_splits)
    have "slot_live (slots s) i \<Longrightarrow> i \<noteq> unat k" using alloc_index [OF Cons.prems(1) room t] by auto
    then have keep: "slot_live (slots s) i \<Longrightarrow> get_at (slots t) i = get_at (slots s) i"
      using alloc_slots [OF Cons.prems(1) room t] by simp
    then have live: "slot_live (slots s) i \<Longrightarrow> slot_live (slots t) i"
      by (auto simp: slot_live_def get_at_def split: if_splits)
    show ?thesis
      using Cons.IH [OF ok _ i(1)] Cons.prems(2) OpAlloc t i(2) keep live by simp
  next
    case (OpSweep l)
    let ?t = "sweep l s"
    have ok: "arena_ok (slots ?t) (generations ?t) (free ?t)" by (rule ok_sweep [OF Cons.prems(1)])
    have gen: "get_at (generations ?t) i =
        Some (if slot_live (slots s) i \<and> \<not> keep l s i then bump_generation (generations s ! i) else generations s ! i)"
      using sweep_generation [OF Cons.prems(1), of l i] Cons.prems(3) by (simp add: get_at_def)
    then have i: "i < length (generations ?t)" by (auto simp: get_at_def split: if_splits)
    have kept: "slot_live (slots s) i \<Longrightarrow> keep l s i \<Longrightarrow> get_at (slots ?t) i = get_at (slots s) i \<and> slot_live (slots ?t) i"
      using sweep_get [OF Cons.prems(1), of l i] by (auto simp: slot_live_def get_at_def split: if_splits)
    have g: "generations ?t ! i = (if slot_live (slots s) i \<and> \<not> keep l s i then bump_generation (generations s ! i) else generations s ! i)"
      using gen i by (simp add: get_at_def)
    show ?thesis
      using Cons.IH [OF ok _ i] Cons.prems(2) OpSweep g kept by (auto simp: funpow_swap1)
  qed
qed

text \<open>So the generation test tells exactly whether the entry is still the one the handle was made
  for, as long as its slot was freed less than \<open>2 ^ 32 - 1\<close> times.\<close>

lemma stale_check:
  assumes ok: "arena_ok (slots s) (generations s) (free s)" and "roomy alloc sweep room ops s"
    and live: "slot_live (slots s) i" and few: "frees slots alloc sweep keep ops i s < 2 ^ 32 - 1"
  shows "get_at (generations (run_ops alloc sweep ops s)) i = get_at (generations s) i \<longleftrightarrow>
      frees slots alloc sweep keep ops i s = 0"
    and "get_at (generations (run_ops alloc sweep ops s)) i = get_at (generations s) i \<Longrightarrow>
      get_at (slots (run_ops alloc sweep ops s)) i = get_at (slots s) i"
proof -
  have i: "i < length (generations s)" using ok live by (simp add: arena_ok_def slot_live_def)
  then have g: "generations s ! i \<noteq> 0xFFFFFFFF" using ok by (simp add: arena_ok_def)
  note run = run_generation [OF assms(1,2) i]
  show iff: "get_at (generations (run_ops alloc sweep ops s)) i = get_at (generations s) i \<longleftrightarrow>
      frees slots alloc sweep keep ops i s = 0"
    using run i few bump_generation_pow_eq_iff [OF g, of "frees slots alloc sweep keep ops i s"]
    by (auto simp: get_at_def)
  show "get_at (slots (run_ops alloc sweep ops s)) i = get_at (slots s) i"
    if "get_at (generations (run_ops alloc sweep ops s)) i = get_at (generations s) i"
    using run live that iff by simp
qed

end

end
