(* ===== verification/Reclaim.thy ===== *)
theory Reclaim
  imports Slot_Arena
begin

text \<open>
  The reclaimable arena of \<^verbatim>\<open>externref\<close> entries and exceptions, \<^verbatim>\<open>src/store/reclaim.rs\<close>.
  The visited set of the collector is a set of handles; the sweep is the source's loop over the
  slots, returning the bytes it freed.
\<close>

record 'e reclaim_arena =
  ra_slots :: "'e option list"
  ra_generations :: "u32 list"
  ra_free :: "u32 list"

definition ra_default :: "'e reclaim_arena" where
  "ra_default = \<lparr>ra_slots = [], ra_generations = [], ra_free = []\<rparr>"

definition ra_alloc :: "'e \<Rightarrow> ('e reclaim_arena, u32) action" where
  "ra_alloc e a = (case ra_free a of
     [] \<Rightarrow> (Inr (of_nat (length (ra_slots a))), a\<lparr>ra_slots := ra_slots a @ [Some e],
             ra_generations := ra_generations a @ [0]\<rparr>)
   | fs \<Rightarrow> (if unat (last fs) < length (ra_slots a)
        then (Inr (last fs), a\<lparr>ra_free := butlast fs, ra_slots := (ra_slots a)[unat (last fs) := Some e]\<rparr>)
        else (Inl (Panic ''index out of bounds''), a\<lparr>ra_free := butlast fs\<rparr>)))"

definition ra_get :: "'e reclaim_arena \<Rightarrow> u32 \<Rightarrow> 'e option" where
  "ra_get a i = Option.bind (get_at (ra_slots a) (unat i)) (\<lambda>x. x)"

definition ra_generation :: "'e reclaim_arena \<Rightarrow> u32 \<Rightarrow> u32 option" where
  "ra_generation a i = get_at (ra_generations a) (unat i)"

definition ra_sweep_slot :: "u32 set \<Rightarrow> ('e \<Rightarrow> nat) \<Rightarrow> nat \<Rightarrow> nat \<times> 'e reclaim_arena \<Rightarrow> nat \<times> 'e reclaim_arena" where
  "ra_sweep_slot live byte_of i = (\<lambda>(freed_bytes, a). (case ra_slots a ! i of
     None \<Rightarrow> (freed_bytes, a)
   | Some entry \<Rightarrow> (if of_nat i \<in> live then (freed_bytes, a)
       else (freed_bytes + byte_of entry, a\<lparr>ra_slots := (ra_slots a)[i := None],
          ra_generations := (ra_generations a)[i := bump_generation (ra_generations a ! i)],
          ra_free := ra_free a @ [of_nat i]\<rparr>))))"

definition ra_sweep :: "u32 set \<Rightarrow> ('e \<Rightarrow> nat) \<Rightarrow> 'e reclaim_arena \<Rightarrow> nat \<times> 'e reclaim_arena" where
  "ra_sweep live byte_of a = fold (ra_sweep_slot live byte_of) [0..<length (ra_slots a)] (0, a)"

section \<open>The arena meets the contract\<close>

definition ra_ok :: "'e reclaim_arena \<Rightarrow> bool" where
  "ra_ok a \<longleftrightarrow> arena_ok (ra_slots a) (ra_generations a) (ra_free a)"

definition ra_view :: "nat \<times> 'e reclaim_arena \<Rightarrow> 'e option list \<times> u32 list \<times> u32 list" where
  "ra_view p = (ra_slots (snd p), ra_generations (snd p), ra_free (snd p))"

lemma ra_sweep_slot_lengths [simp]:
  "length (ra_slots (snd (ra_sweep_slot live b i p))) = length (ra_slots (snd p))"
  by (auto simp: ra_sweep_slot_def split: prod.split option.split)

lemma ra_view_sweep:
  "ra_view (ra_sweep live b a) = fold (sweep_slot (\<lambda>i. of_nat i \<in> live)) [0..<length (ra_slots a)] (ra_view (0, a))"
proof -
  have "ra_view (fold (ra_sweep_slot live b) is p) = fold (sweep_slot (\<lambda>i. of_nat i \<in> live)) is (ra_view p)"
    if "\<forall>i \<in> set is. i < length (ra_slots (snd p))" for "is" p
    using that
  proof (induction "is" arbitrary: p)
    case (Cons i "is")
    have "ra_view (ra_sweep_slot live b i p) = sweep_slot (\<lambda>i. of_nat i \<in> live) i (ra_view p)"
      using Cons.prems by (auto simp: ra_sweep_slot_def sweep_slot_def free_slot_def ra_view_def slot_live_def
          split: prod.split option.split)
    with Cons show ?case by simp
  qed simp
  from this [of "[0..<length (ra_slots a)]" "(0, a)"] show ?thesis by (simp add: ra_sweep_def)
qed

lemma ra_sweep_vectors:
  assumes "length (ra_generations a) = length (ra_slots a)"
  shows "ra_slots (snd (ra_sweep live b a)) = swept_slots (\<lambda>i. of_nat i \<in> live) (ra_slots a)"
    and "ra_generations (snd (ra_sweep live b a)) =
      swept_generations (\<lambda>i. of_nat i \<in> live) (ra_slots a) (ra_generations a)"
    and "ra_free (snd (ra_sweep live b a)) = ra_free a @ map of_nat (swept_indices (\<lambda>i. of_nat i \<in> live) (ra_slots a))"
  using ra_view_sweep [of live b a] fold_sweep_slot [OF assms]
  by (simp_all add: ra_view_def)

interpretation ra: slot_arena ra_slots ra_generations ra_free ra_alloc
  "\<lambda>(live, byte_of) a. snd (ra_sweep live byte_of a)" "\<lambda>(live, byte_of) a i. of_nat i \<in> live"
  "\<lambda>a. ra_free a \<noteq> [] \<or> length (ra_slots a) < 2 ^ 32"
proof
  fix s :: "'a reclaim_arena" and e :: 'a and i t
  assume ok: "arena_ok (ra_slots s) (ra_generations s) (ra_free s)"
  have last: "ra_free s \<noteq> [] \<Longrightarrow> unat (last (ra_free s)) < length (ra_slots s)"
    using ok last_in_set [of "ra_free s"] by (auto simp: arena_ok_def)
  show "ra_free s \<noteq> [] \<Longrightarrow> ra_alloc e s = (Inr i, t) \<Longrightarrow> i = last (ra_free s) \<and>
      ra_slots t = (ra_slots s)[unat i := Some e] \<and> ra_generations t = ra_generations s \<and> ra_free t = butlast (ra_free s)"
    by (auto simp: ra_alloc_def split: list.splits if_splits)
  show "ra_free s = [] \<Longrightarrow> ra_free s \<noteq> [] \<or> length (ra_slots s) < 2 ^ 32 \<Longrightarrow> ra_alloc e s = (Inr i, t) \<Longrightarrow>
      i = of_nat (length (ra_slots s)) \<and> length (ra_slots s) < 2 ^ 32 \<and> ra_slots t = ra_slots s @ [Some e] \<and>
      ra_generations t = ra_generations s @ [0] \<and> ra_free t = []"
    by (auto simp: ra_alloc_def)
  show "\<exists>i t. ra_alloc e s = (Inr i, t)"
    using last by (cases "ra_free s") (auto simp: ra_alloc_def)
qed (auto simp: ra_sweep_vectors arena_ok_def)

text \<open>The bytes a sweep reports are those of the entries it freed.\<close>

lemma ra_sweep_bytes:
  assumes "length (ra_generations a) = length (ra_slots a)"
  shows "fst (ra_sweep live b a) =
    sum_list (map (\<lambda>i. b (the (ra_slots a ! i))) (swept_indices (\<lambda>i. of_nat i \<in> live) (ra_slots a)))"
proof -
  have "fst (fold (ra_sweep_slot live b) [0..<k] (0, a)) =
      sum_list (map (\<lambda>i. b (the (ra_slots a ! i))) (filter (\<lambda>i. slot_live (ra_slots a) i \<and> of_nat i \<notin> live) [0..<k]))
    \<and> (\<forall>j. k \<le> j \<longrightarrow> ra_slots (snd (fold (ra_sweep_slot live b) [0..<k] (0, a))) ! j = ra_slots a ! j)"
    if "k \<le> length (ra_slots a)" for k
    using that
  proof (induction k)
    case (Suc k)
    then show ?case
      by (cases "ra_slots a ! k") (auto simp: ra_sweep_slot_def slot_live_def split: prod.splits)
  qed simp
  then show ?thesis by (simp add: ra_sweep_def swept_indices_def)
qed

text \<open>Lookups after a sweep, and the bytes that stay.\<close>

lemma ra_get_sweep:
  assumes "ra_ok a"
  shows "ra_get (snd (ra_sweep live b a)) i = (if i \<in> live then ra_get a i else None)"
  using ra.sweep_get [OF assms [unfolded ra_ok_def], of "(live, b)" "unat i"]
  by (cases "get_at (ra_slots a) (unat i)") (simp_all add: ra_get_def del: get_at_Some get_at_None)

lemma ra_generation_sweep:
  assumes "ra_ok a"
  shows "ra_generation (snd (ra_sweep live b a)) i = map_option (\<lambda>g.
    if ra_get a i \<noteq> None \<and> i \<notin> live then bump_generation g else g) (ra_generation a i)"
proof -
  have "slot_live (ra_slots a) (unat i) \<longleftrightarrow> ra_get a i \<noteq> None"
    by (auto simp: ra_get_def slot_live_def get_at_def)
  with ra.sweep_generation [OF assms [unfolded ra_ok_def], of "(live, b)" "unat i"] show ?thesis
    by (simp add: ra_generation_def)
qed

lemma ra_ok_sweep: "ra_ok a \<Longrightarrow> ra_ok (snd (ra_sweep live b a))"
  using ra.ok_sweep [of a "(live, b)"] by (simp add: ra_ok_def)

lemma ra_ok_default [simp]: "ra_ok ra_default"
  by (simp add: ra_ok_def arena_ok_def ra_default_def)

definition arena_bytes :: "('e \<Rightarrow> nat) \<Rightarrow> 'e option list \<Rightarrow> nat" where
  "arena_bytes b ss = sum_list (map (\<lambda>x. case x of None \<Rightarrow> 0 | Some e \<Rightarrow> b e) ss)"

lemma sum_list_split_filter:
  fixes f g :: "nat \<Rightarrow> nat"
  shows "\<forall>i \<in> set is. (if P i then f i = g i + h i else f i = g i) \<Longrightarrow>
    sum_list (map f is) = sum_list (map g is) + sum_list (map h (filter P is))"
  by (induction "is") (auto split: if_splits)

lemma ra_sweep_arena_bytes:
  assumes "length (ra_generations a) = length (ra_slots a)"
  shows "arena_bytes b (ra_slots a) = arena_bytes b (ra_slots (snd (ra_sweep live b a))) + fst (ra_sweep live b a)"
proof -
  let ?w = "\<lambda>x. case x of None \<Rightarrow> 0 | Some e \<Rightarrow> b e" and ?n = "[0..<length (ra_slots a)]"
  let ?keep = "\<lambda>i. (of_nat i :: u32) \<in> live"
  have "arena_bytes b (ra_slots a) = sum_list (map (\<lambda>i. ?w (ra_slots a ! i)) ?n)"
    unfolding arena_bytes_def by (subst map_nth [symmetric]) (simp add: comp_def)
  also have "\<dots> = sum_list (map (\<lambda>i. ?w (if ?keep i then ra_slots a ! i else None)) ?n)
      + sum_list (map (\<lambda>i. b (the (ra_slots a ! i))) (filter (\<lambda>i. slot_live (ra_slots a) i \<and> \<not> ?keep i) ?n))"
    by (rule sum_list_split_filter) (auto simp: slot_live_def split: option.splits)
  also have "sum_list (map (\<lambda>i. ?w (if ?keep i then ra_slots a ! i else None)) ?n) =
      arena_bytes b (ra_slots (snd (ra_sweep live b a)))"
    by (simp add: arena_bytes_def ra_sweep_vectors [OF assms] swept_slots_def comp_def)
  finally show ?thesis by (simp add: ra_sweep_bytes [OF assms] swept_indices_def)
qed

lemma ra_alloc_arena_bytes:
  assumes ok: "ra_ok a" and room: "ra_free a \<noteq> [] \<or> length (ra_slots a) < 2 ^ 32" and run: "ra_alloc e a = (Inr i, a')"
  shows "arena_bytes b (ra_slots a') = arena_bytes b (ra_slots a) + b e"
proof (cases "ra_free a = []")
  case True
  with run show ?thesis by (auto simp: ra_alloc_def arena_bytes_def)
next
  case False
  have "slot_live (ra_slots a) (unat i) = False" using ra.alloc_index [OF ok [unfolded ra_ok_def] room run] by simp
  moreover have r: "i = last (ra_free a)" "ra_slots a' = (ra_slots a)[unat i := Some e]"
    using ra.alloc_reuse [OF ok [unfolded ra_ok_def] False run] by simp_all
  moreover have "unat i < length (ra_slots a)"
    using ok last_in_set [OF False] r(1) by (auto simp: ra_ok_def arena_ok_def)
  ultimately show ?thesis
    by (simp add: arena_bytes_def slot_live_def map_update sum_list_update)
qed

end
