(* ===== verification/Gc_Heap.thy ===== *)
theory Gc_Heap
  imports Reclaim
begin

text \<open>
  The managed object heap, \<^verbatim>\<open>src/store/gc.rs\<close>: objects with a packed body, the handle table with
  its generations and free-list, the byte budget, the mark bitmap and the sweep. The heap is the
  second interpretation of the slot arena contract; the lemmas after it account for the bytes and
  for the bitmap.
\<close>

datatype obj_kind = ObjStruct | ObjArray | ObjExtern

record gc_object =
  go_type_id :: canonical_type_id
  go_kind :: obj_kind
  go_data :: "u8 list"

definition new_struct :: "canonical_type_id \<Rightarrow> u8 list \<Rightarrow> gc_object" where
  "new_struct tid data = \<lparr>go_type_id = tid, go_kind = ObjStruct, go_data = data\<rparr>"

definition new_array :: "canonical_type_id \<Rightarrow> u8 list \<Rightarrow> gc_object" where
  "new_array tid data = \<lparr>go_type_id = tid, go_kind = ObjArray, go_data = data\<rparr>"

definition extern_wrapper :: "u32 \<Rightarrow> gc_object" where
  "extern_wrapper idx = \<lparr>go_type_id = u32_max, go_kind = ObjExtern, go_data = le_bytes 4 idx\<rparr>"

definition extern_index :: "gc_object \<Rightarrow> u32 option" where
  "extern_index ob = (case go_kind ob of
     ObjExtern \<Rightarrow> map_option le_word (get_range (go_data ob) 0 4)
   | _ \<Rightarrow> None)"

definition array_len :: "gc_object \<Rightarrow> nat \<Rightarrow> u32" where
  "array_len ob stride = of_nat (length (go_data ob) div max stride 1)"

text \<open>\<^verbatim>\<open>size_of::<Option<GcObject>>()\<close> is 24 on a 64-bit target (a 16-byte box, a 4-byte id, a tag
  byte with room for the niche), plus the 4-byte generation and 16 bytes of allocator overhead.\<close>

definition OBJECT_OVERHEAD :: nat where
  "OBJECT_OVERHEAD = 24 + 4 + 16"

definition object_charge :: "nat \<Rightarrow> nat" where
  "object_charge data_len = saturating_add usize_max OBJECT_OVERHEAD data_len"

definition object_byte_size :: "gc_object \<Rightarrow> nat" where
  "object_byte_size ob = saturating_add usize_max OBJECT_OVERHEAD (length (go_data ob))"

definition ABORT_SAFETY_CAP :: nat where
  "ABORT_SAFETY_CAP = 2 ^ 30"

definition RESERVE_BATCH :: nat where
  "RESERVE_BATCH = 64 * 1024"

record gc_heap =
  gh_slots :: "gc_object option list"
  gh_generations :: "u32 list"
  gh_free :: "u32 list"
  gh_used :: nat
  gh_reserved :: nat
  gh_reservation :: nat
  gh_next_grow :: nat
  gh_marks :: "u64 list"
  gh_collecting :: bool

definition gc_heap_new :: "bool \<Rightarrow> nat \<Rightarrow> gc_heap" where
  "gc_heap_new collecting reservation = \<lparr>gh_slots = [], gh_generations = [], gh_free = [], gh_used = 0,
     gh_reserved = 0, gh_reservation = min reservation ABORT_SAFETY_CAP, gh_next_grow = RESERVE_BATCH,
     gh_marks = [], gh_collecting = collecting\<rparr>"

section \<open>The byte budget\<close>

definition gc_charge :: "nat \<Rightarrow> gc_heap \<Rightarrow> gc_heap" where
  "gc_charge bytes h = h\<lparr>gh_used := saturating_add usize_max (gh_used h) bytes\<rparr>"

definition gc_credit :: "nat \<Rightarrow> gc_heap \<Rightarrow> gc_heap" where
  "gc_credit bytes h = h\<lparr>gh_used := gh_used h - bytes\<rparr>"

definition is_free_grant :: "gc_heap \<Rightarrow> nat \<Rightarrow> bool" where
  "is_free_grant h target \<longleftrightarrow> target \<le> gh_reservation h"

definition footprint_over_floor :: "gc_heap \<Rightarrow> bool" where
  "footprint_over_floor h \<longleftrightarrow> RESERVE_BATCH \<le> gh_used h"

definition gc_fits :: "gc_heap \<Rightarrow> nat \<Rightarrow> bool" where
  "gc_fits h sz = (case checked_add usize_max (gh_used h) sz of None \<Rightarrow> False | Some n \<Rightarrow> n \<le> gh_reserved h)"

definition unreserved_ceiling :: "gc_heap \<Rightarrow> nat" where
  "unreserved_ceiling h = max (max (gh_reserved h) (gh_reservation h)) ABORT_SAFETY_CAP"

definition can_fit_limit :: "gc_heap \<Rightarrow> nat \<Rightarrow> bool" where
  "can_fit_limit h sz = (case checked_add usize_max (gh_used h) sz of None \<Rightarrow> False | Some n \<Rightarrow> n \<le> unreserved_ceiling h)"

definition desired_reservation :: "gc_heap \<Rightarrow> nat \<Rightarrow> nat" where
  "desired_reservation h sz = max (saturating_add usize_max (gh_reserved h) (gh_next_grow h))
     (saturating_add usize_max (gh_used h) sz)"

definition gc_grant :: "nat \<Rightarrow> gc_heap \<Rightarrow> nat \<times> gc_heap" where
  "gc_grant target h = (let step_cap = max (gh_reservation h) RESERVE_BATCH in
     (target - gh_reserved h,
      h\<lparr>gh_reserved := target, gh_next_grow := min (saturating_mul usize_max (gh_next_grow h) 2) step_cap\<rparr>))"

section \<open>Allocation\<close>

definition gc_alloc :: "gc_object \<Rightarrow> (gc_heap, u32) action" where
  "gc_alloc ob h = (let sz = object_byte_size ob in case gh_free h of
     [] \<Rightarrow> (if unat NULL_REF \<le> length (gh_slots h) then (Inl (Trapped AllocationTooLarge), h)
        else (Inr (of_nat (length (gh_slots h))), h\<lparr>gh_slots := gh_slots h @ [Some ob],
          gh_generations := gh_generations h @ [0], gh_used := saturating_add usize_max (gh_used h) sz\<rparr>))
   | fs \<Rightarrow> (if unat (last fs) < length (gh_slots h)
        then (Inr (last fs), h\<lparr>gh_free := butlast fs, gh_slots := (gh_slots h)[unat (last fs) := Some ob],
          gh_used := saturating_add usize_max (gh_used h) sz\<rparr>)
        else (Inl (Panic ''index out of bounds''), h\<lparr>gh_free := butlast fs\<rparr>)))"

definition alloc_unreserved :: "gc_object \<Rightarrow> (gc_heap, u32) action" where
  "alloc_unreserved ob h = (if \<not> can_fit_limit h (object_byte_size ob)
     then (Inl (Trapped AllocationTooLarge), h) else gc_alloc ob h)"

definition check_capacity :: "gc_heap \<Rightarrow> nat \<Rightarrow> unit result" where
  "check_capacity h extra = (if can_fit_limit h extra then Inr () else Inl (Trapped AllocationTooLarge))"

definition gc_get :: "gc_heap \<Rightarrow> u32 \<Rightarrow> gc_object option" where
  "gc_get h i = Option.bind (get_at (gh_slots h) (unat i)) (\<lambda>x. x)"

text \<open>Writing through \<^verbatim>\<open>get_mut\<close>: the entry is replaced when it is live.\<close>

definition gc_update :: "u32 \<Rightarrow> (gc_object \<Rightarrow> gc_object) \<Rightarrow> gc_heap \<Rightarrow> gc_heap" where
  "gc_update i f h = (case gc_get h i of None \<Rightarrow> h
     | Some ob \<Rightarrow> h\<lparr>gh_slots := (gh_slots h)[unat i := Some (f ob)]\<rparr>)"

definition gc_generation :: "gc_heap \<Rightarrow> u32 \<Rightarrow> u32 option" where
  "gc_generation h i = get_at (gh_generations h) (unat i)"

section \<open>Marking and sweeping\<close>

definition mark_bit :: "nat \<Rightarrow> u64" where
  "mark_bit i = push_bit (i mod 64) 1"

definition gc_mark :: "u32 \<Rightarrow> gc_heap \<Rightarrow> bool \<times> gc_heap" where
  "gc_mark index h = (let i = unat index in
     if \<not> slot_live (gh_slots h) i then (False, h)
     else let w = i div 64;
            marks = (if length (gh_marks h) \<le> w then gh_marks h @ replicate (w + 1 - length (gh_marks h)) 0
                     else gh_marks h)
       in if (marks ! w) AND mark_bit i \<noteq> 0 then (False, h\<lparr>gh_marks := marks\<rparr>)
          else (True, h\<lparr>gh_marks := marks[w := (marks ! w) OR mark_bit i]\<rparr>))"

definition is_marked :: "u64 list \<Rightarrow> nat \<Rightarrow> bool" where
  "is_marked marks i = (case get_at marks (i div 64) of None \<Rightarrow> False | Some w \<Rightarrow> w AND mark_bit i \<noteq> 0)"

definition gc_sweep_slot :: "nat \<Rightarrow> gc_heap \<Rightarrow> gc_heap" where
  "gc_sweep_slot i h = (case gh_slots h ! i of
     None \<Rightarrow> h
   | Some ob \<Rightarrow> (if is_marked (gh_marks h) i then h
       else h\<lparr>gh_used := gh_used h - object_byte_size ob, gh_slots := (gh_slots h)[i := None],
          gh_generations := (gh_generations h)[i := bump_generation (gh_generations h ! i)],
          gh_free := gh_free h @ [of_nat i]\<rparr>))"

definition gc_sweep :: "gc_heap \<Rightarrow> gc_heap" where
  "gc_sweep h = (fold gc_sweep_slot [0..<length (gh_slots h)] h)\<lparr>gh_marks := []\<rparr>"

definition clear_marks :: "gc_heap \<Rightarrow> gc_heap" where
  "clear_marks h = h\<lparr>gh_marks := []\<rparr>"

section \<open>The heap meets the arena contract\<close>

definition heap_ok :: "gc_heap \<Rightarrow> bool" where
  "heap_ok h \<longleftrightarrow> arena_ok (gh_slots h) (gh_generations h) (gh_free h) \<and> length (gh_slots h) \<le> unat NULL_REF"

definition gc_view :: "gc_heap \<Rightarrow> gc_object option list \<times> u32 list \<times> u32 list" where
  "gc_view h = (gh_slots h, gh_generations h, gh_free h)"

lemma gc_sweep_slot_keeps [simp]:
  "length (gh_slots (gc_sweep_slot i h)) = length (gh_slots h)" "gh_marks (gc_sweep_slot i h) = gh_marks h"
  by (auto simp: gc_sweep_slot_def split: option.split)

lemma gc_view_sweep:
  "gc_view (fold gc_sweep_slot [0..<length (gh_slots h)] h) =
     fold (sweep_slot (is_marked (gh_marks h))) [0..<length (gh_slots h)] (gc_view h)"
proof -
  have "gc_view (fold gc_sweep_slot is h) = fold (sweep_slot (is_marked (gh_marks h))) is (gc_view h)"
    if "\<forall>i \<in> set is. i < length (gh_slots h)" for "is" h
    using that
  proof (induction "is" arbitrary: h)
    case (Cons i "is")
    have "gc_view (gc_sweep_slot i h) = sweep_slot (is_marked (gh_marks h)) i (gc_view h)"
      using Cons.prems by (auto simp: gc_sweep_slot_def sweep_slot_def free_slot_def gc_view_def slot_live_def
          split: option.split)
    with Cons show ?case by simp
  qed simp
  then show ?thesis by simp
qed

lemma gc_sweep_vectors:
  assumes "length (gh_generations h) = length (gh_slots h)"
  shows "gh_slots (gc_sweep h) = swept_slots (is_marked (gh_marks h)) (gh_slots h)"
    and "gh_generations (gc_sweep h) = swept_generations (is_marked (gh_marks h)) (gh_slots h) (gh_generations h)"
    and "gh_free (gc_sweep h) = gh_free h @ map of_nat (swept_indices (is_marked (gh_marks h)) (gh_slots h))"
  using gc_view_sweep [of h] fold_sweep_slot [OF assms] by (simp_all add: gc_view_def gc_sweep_def)

interpretation gc: slot_arena gh_slots gh_generations gh_free gc_alloc
  "\<lambda>(_ :: unit). gc_sweep" "\<lambda>_ h. is_marked (gh_marks h)"
  "\<lambda>h. gh_free h \<noteq> [] \<or> length (gh_slots h) < unat NULL_REF"
proof
  fix s :: gc_heap and e i t
  assume ok: "arena_ok (gh_slots s) (gh_generations s) (gh_free s)"
  have last: "gh_free s \<noteq> [] \<Longrightarrow> unat (last (gh_free s)) < length (gh_slots s)"
    using ok last_in_set [of "gh_free s"] by (auto simp: arena_ok_def)
  show "gh_free s \<noteq> [] \<Longrightarrow> gc_alloc e s = (Inr i, t) \<Longrightarrow> i = last (gh_free s) \<and>
      gh_slots t = (gh_slots s)[unat i := Some e] \<and> gh_generations t = gh_generations s \<and> gh_free t = butlast (gh_free s)"
    by (auto simp: gc_alloc_def Let_def split: list.splits if_splits)
  show "gh_free s = [] \<Longrightarrow> gh_free s \<noteq> [] \<or> length (gh_slots s) < unat NULL_REF \<Longrightarrow> gc_alloc e s = (Inr i, t) \<Longrightarrow>
      i = of_nat (length (gh_slots s)) \<and> length (gh_slots s) < 2 ^ 32 \<and> gh_slots t = gh_slots s @ [Some e] \<and>
      gh_generations t = gh_generations s @ [0] \<and> gh_free t = []"
    by (auto simp: gc_alloc_def Let_def split: if_splits intro: less_trans [OF _ unat_u32_less])
  show "gh_free s \<noteq> [] \<or> length (gh_slots s) < unat NULL_REF \<Longrightarrow> \<exists>i t. gc_alloc e s = (Inr i, t)"
    using last by (cases "gh_free s") (auto simp: gc_alloc_def Let_def)
qed (auto simp: gc_sweep_vectors arena_ok_def)

section \<open>The mark bitmap\<close>

lemma bit_mark_bit: "bit (mark_bit i) n \<longleftrightarrow> n = i mod 64"
  unfolding mark_bit_def bit_push_bit_iff bit_1_iff by auto

lemma and_mark_bit: "w AND mark_bit i \<noteq> 0 \<longleftrightarrow> bit w (i mod 64)"
proof
  assume "bit w (i mod 64)"
  then have "bit (w AND mark_bit i) (i mod 64)" by (simp add: bit_and_iff bit_mark_bit)
  then show "w AND mark_bit i \<noteq> 0" by auto
next
  assume "w AND mark_bit i \<noteq> 0"
  then obtain n where "bit (w AND mark_bit i) n" by (metis bit_word_eqI bit_0_eq bot_apply bot_bool_def)
  then show "bit w (i mod 64)" by (auto simp: bit_and_iff bit_mark_bit)
qed

lemma is_marked_iff: "is_marked ms i \<longleftrightarrow> i div 64 < length ms \<and> bit (ms ! (i div 64)) (i mod 64)"
  by (auto simp: is_marked_def get_at_def and_mark_bit)

lemma is_marked_extend: "is_marked (ms @ replicate n 0) i \<longleftrightarrow> is_marked ms i"
  by (auto simp: is_marked_iff nth_append)

lemma is_marked_set:
  assumes "i div 64 < length ms"
  shows "is_marked (ms[i div 64 := (ms ! (i div 64)) OR mark_bit i]) j \<longleftrightarrow> is_marked ms j \<or> j = i"
proof (cases "j div 64 = i div 64")
  case True
  have "j = i \<longleftrightarrow> j mod 64 = i mod 64" using True by (metis div_mult_mod_eq)
  with True assms show ?thesis by (auto simp: is_marked_iff bit_or_iff bit_mark_bit)
next
  case False
  then show ?thesis using assms by (auto simp: is_marked_iff nth_list_update)
qed

text \<open>Marking sets exactly one bit of the bitmap, and reports whether it was set before.\<close>

lemma gc_mark_spec:
  "fst (gc_mark i h) \<longleftrightarrow> slot_live (gh_slots h) (unat i) \<and> \<not> is_marked (gh_marks h) (unat i)"
  "is_marked (gh_marks (snd (gc_mark i h))) j \<longleftrightarrow>
     is_marked (gh_marks h) j \<or> (j = unat i \<and> slot_live (gh_slots h) (unat i))"
  "snd (gc_mark i h) = h\<lparr>gh_marks := gh_marks (snd (gc_mark i h))\<rparr>"
proof -
  let ?w = "unat i div 64"
  define ms where "ms = (if length (gh_marks h) \<le> ?w then gh_marks h @ replicate (?w + 1 - length (gh_marks h)) 0
    else gh_marks h)"
  have len: "?w < length ms" by (auto simp: ms_def)
  have same: "is_marked ms k \<longleftrightarrow> is_marked (gh_marks h) k" for k
    by (simp add: ms_def is_marked_extend)
  have test: "ms ! ?w AND mark_bit (unat i) \<noteq> 0 \<longleftrightarrow> is_marked (gh_marks h) (unat i)"
    using len same [of "unat i"] by (simp add: is_marked_iff and_mark_bit)
  have run: "gc_mark i h = (if \<not> slot_live (gh_slots h) (unat i) then (False, h)
      else if is_marked (gh_marks h) (unat i) then (False, h\<lparr>gh_marks := ms\<rparr>)
      else (True, h\<lparr>gh_marks := ms[?w := (ms ! ?w) OR mark_bit (unat i)]\<rparr>))"
    unfolding test [symmetric] by (simp add: gc_mark_def Let_def ms_def)
  show "fst (gc_mark i h) \<longleftrightarrow> slot_live (gh_slots h) (unat i) \<and> \<not> is_marked (gh_marks h) (unat i)"
    by (simp add: run)
  show "is_marked (gh_marks (snd (gc_mark i h))) j \<longleftrightarrow>
      is_marked (gh_marks h) j \<or> (j = unat i \<and> slot_live (gh_slots h) (unat i))"
    using is_marked_set [OF len, of j] by (auto simp: run same)
  show "snd (gc_mark i h) = h\<lparr>gh_marks := gh_marks (snd (gc_mark i h))\<rparr>"
    by (auto simp: run)
qed

section \<open>Bytes\<close>

definition live_bytes :: "gc_object option list \<Rightarrow> nat" where
  "live_bytes ss = sum_list (map (\<lambda>x. case x of None \<Rightarrow> 0 | Some ob \<Rightarrow> object_byte_size ob) ss)"

lemma live_bytes_append [simp]: "live_bytes (xs @ ys) = live_bytes xs + live_bytes ys"
  by (simp add: live_bytes_def)

lemma live_bytes_update:
  "i < length ss \<Longrightarrow> live_bytes (ss[i := x]) + live_bytes [ss ! i] = live_bytes ss + live_bytes [x]"
proof (induction ss arbitrary: i)
  case (Cons a ss)
  then show ?case by (cases i) (fastforce simp: live_bytes_def)+
qed simp

text \<open>\<open>used\<close> is the bytes of the live objects plus what the other arenas were charged.\<close>

lemma gc_alloc_used:
  assumes ok: "heap_ok h" and used: "gh_used h = live_bytes (gh_slots h) + other"
    and fit: "gh_used h + object_byte_size ob \<le> usize_max" and run: "gc_alloc ob h = (Inr i, h')"
  shows "gh_used h' = live_bytes (gh_slots h') + other"
proof (cases "gh_free h = []")
  case True
  with run used fit show ?thesis
    by (auto simp: gc_alloc_def Let_def live_bytes_def saturating_add_def split: if_splits)
next
  case False
  then have l: "unat (last (gh_free h)) < length (gh_slots h)" "gh_slots h ! unat (last (gh_free h)) = None"
    using ok last_in_set [OF False] by (auto simp: heap_ok_def arena_ok_def)
  with run False have h': "gh_slots h' = (gh_slots h)[unat (last (gh_free h)) := Some ob]"
    "gh_used h' = saturating_add usize_max (gh_used h) (object_byte_size ob)"
    by (auto simp: gc_alloc_def Let_def split: list.splits)
  with live_bytes_update [OF l(1), of "Some ob"] l(2) used fit show ?thesis
    by (simp add: live_bytes_def saturating_add_def)
qed

lemma gc_sweep_slot_used:
  assumes "i < length (gh_slots h)" and "gh_used h = live_bytes (gh_slots h) + other"
  shows "gh_used (gc_sweep_slot i h) = live_bytes (gh_slots (gc_sweep_slot i h)) + other"
proof (cases "gh_slots h ! i")
  case None
  then show ?thesis using assms by (simp add: gc_sweep_slot_def)
next
  case (Some ob)
  then show ?thesis
    using assms live_bytes_update [OF assms(1), of None]
    by (auto simp: gc_sweep_slot_def live_bytes_def)
qed

lemma gc_sweep_used:
  assumes "gh_used h = live_bytes (gh_slots h) + other"
  shows "gh_used (gc_sweep h) = live_bytes (gh_slots (gc_sweep h)) + other"
proof -
  have "gh_used (fold gc_sweep_slot is h) = live_bytes (gh_slots (fold gc_sweep_slot is h)) + other"
    if "gh_used h = live_bytes (gh_slots h) + other" "\<forall>i \<in> set is. i < length (gh_slots h)" for "is" h
    using that by (induction "is" arbitrary: h) (auto simp: gc_sweep_slot_used)
  from this [OF assms, of "[0..<length (gh_slots h)]"] show ?thesis by (simp add: gc_sweep_def)
qed

text \<open>Growing the reservation as asked makes the allocation fit, and the growth step stays between
  one batch and the cap.\<close>

lemma grant_desired_fits:
  assumes "gh_used h + sz \<le> usize_max"
  shows "gc_fits (snd (gc_grant (desired_reservation h sz) h)) sz"
  using assms by (simp add: gc_fits_def gc_grant_def desired_reservation_def Let_def checked_add_def saturating_add_def)

lemma heap_ok_new: "heap_ok (gc_heap_new c r)"
  by (simp add: heap_ok_def arena_ok_def gc_heap_new_def)

lemma heap_ok_alloc:
  assumes ok: "heap_ok h" and run: "gc_alloc ob h = (Inr i, h')"
  shows "heap_ok h'" and "unat i < unat NULL_REF"
proof -
  have a: "arena_ok (gh_slots h) (gh_generations h) (gh_free h)" using ok by (simp add: heap_ok_def)
  have room: "gh_free h \<noteq> [] \<or> length (gh_slots h) < unat NULL_REF"
    using run by (auto simp: gc_alloc_def Let_def split: list.splits if_splits)
  have small: "length (gh_slots h) < unat NULL_REF \<Longrightarrow> unat (of_nat (length (gh_slots h)) :: u32) = length (gh_slots h)"
    by (intro unat_of_nat_u32) (auto intro: less_trans [OF _ unat_u32_less])
  have "length (gh_slots h') \<le> unat NULL_REF \<and> unat i < unat NULL_REF"
  proof (cases "gh_free h = []")
    case True
    with run small show ?thesis by (auto simp: gc_alloc_def Let_def split: if_splits)
  next
    case False
    then have "unat (last (gh_free h)) < length (gh_slots h)"
      using a last_in_set [OF False] by (auto simp: arena_ok_def)
    with run False ok show ?thesis by (auto simp: gc_alloc_def Let_def heap_ok_def split: list.splits)
  qed
  then show "heap_ok h'" "unat i < unat NULL_REF"
    using gc.ok_alloc [OF a room run] by (auto simp: heap_ok_def)
qed

lemma gc_get_alloc:
  assumes "heap_ok h" and "gc_alloc ob h = (Inr i, h')"
  shows "gc_get h i = None" and "gc_get h' k = (if k = i then Some ob else gc_get h k)"
proof -
  have a: "arena_ok (gh_slots h) (gh_generations h) (gh_free h)" using assms(1) by (simp add: heap_ok_def)
  have room: "gh_free h \<noteq> [] \<or> length (gh_slots h) < unat NULL_REF"
    using assms(2) by (auto simp: gc_alloc_def Let_def split: list.splits if_splits)
  show "gc_get h i = None"
    using gc.alloc_index [OF a room assms(2)] by (auto simp: gc_get_def slot_live_def get_at_def)
  show "gc_get h' k = (if k = i then Some ob else gc_get h k)"
    using gc.alloc_slots [OF a room assms(2), of "unat k"] by (simp add: gc_get_def)
qed

lemma heap_ok_sweep: "heap_ok h \<Longrightarrow> heap_ok (gc_sweep h)"
  using gc.ok_sweep [of h] by (simp add: heap_ok_def gc_sweep_vectors arena_ok_def)

lemma gc_get_sweep:
  assumes "heap_ok h"
  shows "gc_get (gc_sweep h) k = (if is_marked (gh_marks h) (unat k) then gc_get h k else None)"
  using gc.sweep_get [of h "unat k"] assms
  by (cases "get_at (gh_slots h) (unat k)") (simp_all add: gc_get_def heap_ok_def del: get_at_Some get_at_None)

lemma gc_generation_sweep:
  assumes "heap_ok h"
  shows "gc_generation (gc_sweep h) k = map_option (\<lambda>g.
    if gc_get h k \<noteq> None \<and> \<not> is_marked (gh_marks h) (unat k) then bump_generation g else g) (gc_generation h k)"
proof -
  have "slot_live (gh_slots h) (unat k) \<longleftrightarrow> gc_get h k \<noteq> None"
    by (auto simp: gc_get_def slot_live_def get_at_def)
  with gc.sweep_generation [of h "unat k"] assms show ?thesis by (simp add: gc_generation_def heap_ok_def)
qed

section \<open>Collections\<close>

text \<open>A collection as the collector runs it on this heap: it marks some handles, then sweeps.
  Marking leaves the vectors alone, so a collection with any set of marked handles is a sweep of
  the arena contract too.\<close>

definition mark_all :: "u32 list \<Rightarrow> gc_heap \<Rightarrow> gc_heap" where
  "mark_all is h = fold (\<lambda>i h. snd (gc_mark i h)) is h"

definition mark_sweep :: "u32 list \<Rightarrow> gc_heap \<Rightarrow> gc_heap" where
  "mark_sweep is h = gc_sweep (mark_all is h)"

lemma mark_all_frame: "mark_all is h = h\<lparr>gh_marks := gh_marks (mark_all is h)\<rparr>"
proof (induction "is" arbitrary: h)
  case (Cons i "is")
  have "mark_all (i # is) h = mark_all is (snd (gc_mark i h))" by (simp add: mark_all_def)
  also have "\<dots> = (snd (gc_mark i h))\<lparr>gh_marks := gh_marks (mark_all is (snd (gc_mark i h)))\<rparr>" by (rule Cons.IH)
  also have "\<dots> = h\<lparr>gh_marks := gh_marks (mark_all is (snd (gc_mark i h)))\<rparr>"
    by (subst gc_mark_spec(3)) simp
  finally show ?case by (simp add: mark_all_def)
qed (simp add: mark_all_def)

lemma mark_all_simps [simp]:
  "gh_slots (mark_all is h) = gh_slots h" "gh_generations (mark_all is h) = gh_generations h"
  "gh_free (mark_all is h) = gh_free h" "gh_used (mark_all is h) = gh_used h"
  by (subst mark_all_frame, simp)+

lemma is_marked_mark_all:
  "is_marked (gh_marks (mark_all is h)) j \<longleftrightarrow>
     is_marked (gh_marks h) j \<or> (slot_live (gh_slots h) j \<and> j \<in> unat ` set is)"
proof (induction "is" arbitrary: h)
  case (Cons i "is")
  have "gh_slots (snd (gc_mark i h)) = gh_slots h" by (subst gc_mark_spec(3)) simp
  then have "is_marked (gh_marks (mark_all is (snd (gc_mark i h)))) j \<longleftrightarrow>
      is_marked (gh_marks h) j \<or> (slot_live (gh_slots h) j \<and> j \<in> unat ` set (i # is))"
    unfolding Cons gc_mark_spec(2) by auto
  then show ?case by (simp add: mark_all_def)
qed (simp add: mark_all_def)

interpretation ms: slot_arena gh_slots gh_generations gh_free gc_alloc mark_sweep
  "\<lambda>is h. is_marked (gh_marks (mark_all is h))"
  "\<lambda>h. gh_free h \<noteq> [] \<or> length (gh_slots h) < unat NULL_REF"
proof unfold_locales
  fix s :: gc_heap and e i t
  assume ok: "arena_ok (gh_slots s) (gh_generations s) (gh_free s)"
  show "gh_free s \<noteq> [] \<Longrightarrow> gc_alloc e s = (Inr i, t) \<Longrightarrow> i = last (gh_free s) \<and>
      gh_slots t = (gh_slots s)[unat i := Some e] \<and> gh_generations t = gh_generations s \<and> gh_free t = butlast (gh_free s)"
    by (rule gc.alloc_reuse [OF ok])
  show "gh_free s = [] \<Longrightarrow> gh_free s \<noteq> [] \<or> length (gh_slots s) < unat NULL_REF \<Longrightarrow> gc_alloc e s = (Inr i, t) \<Longrightarrow>
      i = of_nat (length (gh_slots s)) \<and> length (gh_slots s) < 2 ^ 32 \<and> gh_slots t = gh_slots s @ [Some e] \<and>
      gh_generations t = gh_generations s @ [0] \<and> gh_free t = []"
    by (rule gc.alloc_fresh [OF ok])
  show "gh_free s \<noteq> [] \<or> length (gh_slots s) < unat NULL_REF \<Longrightarrow> \<exists>i t. gc_alloc e s = (Inr i, t)"
    by (rule gc.alloc_total [OF ok])
qed (auto simp: mark_sweep_def gc_sweep_vectors arena_ok_def)

text \<open>Histories of allocations and collections: the heap they lead to, how often they free a slot,
  and that the index space suffices for them.\<close>

definition gc_later :: "(gc_object, u32 list) arena_op list \<Rightarrow> gc_heap \<Rightarrow> gc_heap" where
  "gc_later ops h = run_ops gc_alloc mark_sweep ops h"

definition gc_freed :: "(gc_object, u32 list) arena_op list \<Rightarrow> nat \<Rightarrow> gc_heap \<Rightarrow> nat" where
  "gc_freed ops i h = frees gh_slots gc_alloc mark_sweep (\<lambda>is h. is_marked (gh_marks (mark_all is h))) ops i h"

definition gc_roomy :: "(gc_object, u32 list) arena_op list \<Rightarrow> gc_heap \<Rightarrow> bool" where
  "gc_roomy ops h = roomy gc_alloc mark_sweep (\<lambda>h. gh_free h \<noteq> [] \<or> length (gh_slots h) < unat NULL_REF) ops h"

section \<open>Properties\<close>

text \<open>C11. Stale handles are detected exactly. However many allocations and collections follow, the
  generation recorded for a live object's slot equals the slot's current generation if and only if
  the object was never freed in between, and then the slot still holds that very object; a slot
  can be mistaken only after it was freed \<open>2 ^ 32 - 1\<close> times.\<close>

theorem gc_handle_exact:
  assumes "heap_ok h" and "gc_get h i = Some ob" and "gc_roomy ops h" and "gc_freed ops (unat i) h < 2 ^ 32 - 1"
  shows "(gc_generation (gc_later ops h) i = gc_generation h i \<longleftrightarrow> gc_freed ops (unat i) h = 0) \<and>
    (gc_generation (gc_later ops h) i = gc_generation h i \<longrightarrow> gc_get (gc_later ops h) i = Some ob)"
proof -
  have live: "slot_live (gh_slots h) (unat i)" "get_at (gh_slots h) (unat i) = Some (Some ob)"
    using assms(2) by (auto simp: gc_get_def slot_live_def get_at_def split: if_splits)
  have ok: "arena_ok (gh_slots h) (gh_generations h) (gh_free h)" using assms(1) by (simp add: heap_ok_def)
  note st = ms.stale_check [OF ok assms(3) [unfolded gc_roomy_def] live(1) assms(4) [unfolded gc_freed_def]]
  show ?thesis
    unfolding gc_generation_def gc_freed_def gc_later_def using st live(2)
    by (simp add: gc_get_def del: get_at_Some)
qed

theorem gc_handle_exact_witness:
  "gc_generation (gc_later [OpSweep [0], OpSweep [], OpAlloc (new_array 2 [])] (snd (gc_alloc (new_struct 1 []) (gc_heap_new True 0)))) 0
     \<noteq> gc_generation (snd (gc_alloc (new_struct 1 []) (gc_heap_new True 0))) 0"
proof -
  let ?h = "snd (gc_alloc (new_struct 1 []) (gc_heap_new True 0))"
  let ?ops = "[OpSweep [0], OpSweep [], OpAlloc (new_array 2 [])]"
  have "gc_alloc (new_struct 1 []) (gc_heap_new True 0) = (Inr 0, ?h)" by code_simp
  then have ok: "heap_ok ?h" by (rule heap_ok_alloc(1) [OF heap_ok_new])
  have h: "gc_get ?h 0 = Some (new_struct 1 [])" "gc_freed ?ops (unat (0 :: u32)) ?h = 1" by code_simp+
  have r: "gc_roomy ?ops ?h" by code_simp
  from gc_handle_exact [OF ok h(1) r] h(2) show ?thesis by simp
qed

text \<open>Allocation and byte accounting. A successful allocation returns a handle that is not null
  and was not in use, under which exactly the new object is found while every other handle resolves
  as before; the heap stays well formed and the bytes in use stay those of the live objects plus
  what other arenas were charged. Growing the reservation to the desired size makes the request
  fit.\<close>

theorem gc_alloc_correct:
  assumes "heap_ok h" and "gh_used h = live_bytes (gh_slots h) + other"
    and "gh_used h + object_byte_size ob \<le> usize_max" and "gc_alloc ob h = (Inr i, h')"
  shows "i < NULL_REF \<and> gc_get h i = None \<and> (\<forall>k. gc_get h' k = (if k = i then Some ob else gc_get h k)) \<and>
    heap_ok h' \<and> gh_used h' = live_bytes (gh_slots h') + other \<and>
    gc_fits (snd (gc_grant (desired_reservation h (object_byte_size ob)) h)) (object_byte_size ob)"
proof -
  note get = gc_get_alloc [OF assms(1,4)]
  have "i < NULL_REF" using heap_ok_alloc(2) [OF assms(1,4)] by (simp add: word_less_nat_alt)
  then show ?thesis
    using get heap_ok_alloc(1) [OF assms(1,4)] gc_alloc_used [OF assms] grant_desired_fits [OF assms(3)] by blast
qed

theorem gc_alloc_correct_witness:
  "heap_ok (snd (gc_alloc (new_struct 1 [5]) (gc_heap_new True 0)))"
proof -
  let ?h = "gc_heap_new True 0"
  have ok: "heap_ok ?h" by (rule heap_ok_new)
  have h: "gh_used ?h = live_bytes (gh_slots ?h) + 0" "gh_used ?h + object_byte_size (new_struct 1 [5]) \<le> usize_max"
    "gc_alloc (new_struct 1 [5]) ?h = (Inr 0, snd (gc_alloc (new_struct 1 [5]) ?h))" by code_simp+
  from gc_alloc_correct [OF ok h] show ?thesis by blast
qed

text \<open>A collection keeps exactly what was marked. From unmarked bitmaps, the objects whose handles
  were marked keep their slot, contents and generation; every other live object is freed, its
  generation moved on; no handle that was dead comes to life; the bitmap is cleared and the bytes
  of the freed objects are given back.\<close>

theorem gc_mark_sweep_correct:
  assumes "heap_ok h" and "gh_marks h = []" and "gh_used h = live_bytes (gh_slots h) + other"
  shows "(\<forall>k. gc_get (mark_sweep is h) k = (if k \<in> set is then gc_get h k else None)) \<and>
    (\<forall>k g. gc_generation h k = Some g \<longrightarrow> gc_generation (mark_sweep is h) k =
       Some (if gc_get h k \<noteq> None \<and> k \<notin> set is then bump_generation g else g)) \<and>
    heap_ok (mark_sweep is h) \<and> gh_marks (mark_sweep is h) = [] \<and>
    gh_used (mark_sweep is h) = live_bytes (gh_slots (mark_sweep is h)) + other"
proof -
  have a: "arena_ok (gh_slots h) (gh_generations h) (gh_free h)" using assms(1) by (simp add: heap_ok_def)
  have m: "is_marked (gh_marks (mark_all is h)) (unat k) \<longleftrightarrow> gc_get h k \<noteq> None \<and> k \<in> set is" for k
    using is_marked_mark_all [of "is" h "unat k"] assms(2)
    by (auto simp: is_marked_def gc_get_def slot_live_def get_at_def)
  have live: "slot_live (gh_slots h) (unat k) \<longleftrightarrow> gc_get h k \<noteq> None" for k
    by (auto simp: gc_get_def slot_live_def get_at_def)
  have "gc_get (mark_sweep is h) k = (if k \<in> set is then gc_get h k else None)" for k
  proof -
    have "gc_get (mark_sweep is h) k =
        Option.bind (map_option (\<lambda>x. if gc_get h k \<noteq> None \<and> k \<in> set is then x else None) (get_at (gh_slots h) (unat k))) (\<lambda>x. x)"
      using ms.sweep_get [OF a, of "is" "unat k"] by (simp add: gc_get_def m [unfolded gc_get_def])
    then show ?thesis
      by (cases "get_at (gh_slots h) (unat k)") (simp_all add: gc_get_def del: get_at_Some get_at_None)
  qed
  moreover have "gc_generation (mark_sweep is h) k = Some (if gc_get h k \<noteq> None \<and> k \<notin> set is then bump_generation g else g)"
    if "gc_generation h k = Some g" for k g
    using ms.sweep_generation [OF a, of "is" "unat k"] that by (auto simp: gc_generation_def m live)
  moreover have "heap_ok (mark_all is h)" using assms(1) by (simp add: heap_ok_def)
  then have "heap_ok (mark_sweep is h)" unfolding mark_sweep_def by (rule heap_ok_sweep)
  moreover have "gh_used (mark_sweep is h) = live_bytes (gh_slots (mark_sweep is h)) + other"
    unfolding mark_sweep_def by (rule gc_sweep_used) (simp add: assms(3))
  moreover have "gh_marks (mark_sweep is h) = []" by (simp add: mark_sweep_def gc_sweep_def)
  ultimately show ?thesis by blast
qed

theorem gc_mark_sweep_correct_witness:
  "gc_get (mark_sweep [1] (run_ops gc_alloc mark_sweep [OpAlloc (new_struct 1 [5]), OpAlloc (new_struct 2 [6])] (gc_heap_new True 0))) 1
    = Some (new_struct 2 [6]) \<and>
   gc_get (mark_sweep [1] (run_ops gc_alloc mark_sweep [OpAlloc (new_struct 1 [5]), OpAlloc (new_struct 2 [6])] (gc_heap_new True 0))) 0 = None"
proof -
  let ?h = "run_ops gc_alloc mark_sweep [OpAlloc (new_struct 1 [5]), OpAlloc (new_struct 2 [6])] (gc_heap_new True 0)"
  have "gc_alloc (new_struct 1 [5]) (gc_heap_new True 0) = (Inr 0, snd (gc_alloc (new_struct 1 [5]) (gc_heap_new True 0)))"
    by code_simp
  then have ok1: "heap_ok (snd (gc_alloc (new_struct 1 [5]) (gc_heap_new True 0)))" by (rule heap_ok_alloc(1) [OF heap_ok_new])
  have "gc_alloc (new_struct 2 [6]) (snd (gc_alloc (new_struct 1 [5]) (gc_heap_new True 0))) = (Inr 1, ?h)" by code_simp
  then have ok: "heap_ok ?h" by (rule heap_ok_alloc(1) [OF ok1])
  have h: "gh_marks ?h = []" "gh_used ?h = live_bytes (gh_slots ?h) + 0" "gc_get ?h 1 = Some (new_struct 2 [6])" by code_simp+
  from gc_mark_sweep_correct [OF ok h(1,2), of "[1]"] h(3) show ?thesis by auto
qed

end
