(* ===== verification/Store_Entity.thy ===== *)
theory Store_Entity
  imports Exec_Frames Gc_Heap Registry
begin

text \<open>
  The entities a store owns, \<^verbatim>\<open>src/store/entity.rs\<close>, the grow-only arena that holds them
  (\<^verbatim>\<open>src/store/arena.rs\<close>). A fallible host
  allocation (\<^verbatim>\<open>try_reserve_exact\<close>) is a parameter of the definitions that make one: a predicate
  on the number of elements asked for. A \<^verbatim>\<open>u64\<close> page or element count is a \<open>nat\<close> with its bound
  checked where the source checks it.
\<close>

section \<open>Entities\<close>

definition ARENA_ENTRY_OVERHEAD :: nat where
  "ARENA_ENTRY_OVERHEAD = 64"

text \<open>A host payload is opaque; it is named by a number.\<close>

datatype extern_entry = ExternHost nat | ExternInternal u32

definition extern_byte_size :: "extern_entry \<Rightarrow> nat" where
  "extern_byte_size e = ARENA_ENTRY_OVERHEAD"

definition extern_charge :: nat where
  "extern_charge = ARENA_ENTRY_OVERHEAD"

text \<open>\<^verbatim>\<open>size_of::<Val>()\<close> is 32 on a 64-bit target: a 24-byte \<^verbatim>\<open>Option<Rooted<_>>\<close> behind an
  8-byte aligned tag.\<close>

definition VAL_BYTES :: nat where
  "VAL_BYTES = 32"

definition exn_charge :: "nat \<Rightarrow> nat" where
  "exn_charge n_args = saturating_add usize_max ARENA_ENTRY_OVERHEAD (saturating_mul usize_max n_args VAL_BYTES)"

definition PAGE_SIZE :: nat where
  "PAGE_SIZE = 64 * 1024"

definition MAX_PAGES :: nat where
  "MAX_PAGES = 2 ^ 16"

record memory_entity =
  me_bytes :: "u8 list"
  me_ty :: memory_type

record global_entity =
  ge_value :: val
  ge_ty :: global_type

record table_entity =
  te_elems :: "ref_val list"
  te_ty :: table_type

record exn_entity =
  ee_tag :: entity_handle
  ee_args :: "val list"

definition exn_byte_size :: "exn_entity \<Rightarrow> nat" where
  "exn_byte_size e = exn_charge (length (ee_args e))"

record host_sig =
  hs_params :: "val_type list"
  hs_results :: "val_type list"
  hs_result_defaults :: "val list"

datatype func_entity =
    FuncWasm entity_handle nat
  | FuncHost canonical_type_id host_sig nat

record instance_entity =
  ie_module :: module_inner
  ie_funcs :: "func_handle list"
  ie_memories :: "entity_handle list"
  ie_globals :: "entity_handle list"
  ie_tables :: "entity_handle list"
  ie_tags :: "entity_handle list"
  ie_dropped_data :: "bool list"
  ie_elems :: "ref_val list list"

section \<open>Memories\<close>

definition alloc_err :: error where
  "alloc_err = Msg ''failed to allocate the initial memory or table''"

definition memory_new :: "(nat \<Rightarrow> bool) \<Rightarrow> memory_type \<Rightarrow> memory_entity result" where
  "memory_new can_alloc ty =
     bindr (ok_or alloc_err (checked_mul usize_max (mt_minimum ty) PAGE_SIZE)) (\<lambda>len.
     if can_alloc len then Inr \<lparr>me_bytes = replicate len 0, me_ty = ty\<rparr> else Inl alloc_err)"

definition size_pages :: "memory_entity \<Rightarrow> nat" where
  "size_pages m = length (me_bytes m) div PAGE_SIZE"

definition page_limit :: "memory_type \<Rightarrow> nat" where
  "page_limit ty = (let arch_max = (if mt_memory64 ty then 2 ^ 48 else MAX_PAGES) in
     min (case mt_maximum ty of None \<Rightarrow> arch_max | Some m \<Rightarrow> m) arch_max)"

definition memory_grow :: "(nat \<Rightarrow> bool) \<Rightarrow> nat \<Rightarrow> memory_entity \<Rightarrow> nat option \<times> memory_entity" where
  "memory_grow can_alloc delta m = (let old = size_pages m in
     case checked_add u64_max old delta of None \<Rightarrow> (None, m)
   | Some new \<Rightarrow> (if page_limit (me_ty m) < new then (None, m)
      else case checked_mul usize_max new PAGE_SIZE of None \<Rightarrow> (None, m)
       | Some new_bytes \<Rightarrow> (if \<not> can_alloc (new_bytes - length (me_bytes m)) then (None, m)
          else (Some old, m\<lparr>me_bytes := take new_bytes (me_bytes m) @ replicate (new_bytes - length (me_bytes m)) 0\<rparr>))))"

section \<open>Tables\<close>

definition table_new :: "(nat \<Rightarrow> bool) \<Rightarrow> table_type \<Rightarrow> ref_val \<Rightarrow> table_entity result" where
  "table_new can_alloc ty init = (if usize_max < tt_minimum ty then Inl alloc_err
     else if can_alloc (tt_minimum ty) then Inr \<lparr>te_elems = replicate (tt_minimum ty) init, te_ty = ty\<rparr>
     else Inl alloc_err)"

definition table_size :: "table_entity \<Rightarrow> nat" where
  "table_size t = length (te_elems t)"

definition table_get_elem :: "table_entity \<Rightarrow> nat \<Rightarrow> ref_val option" where
  "table_get_elem t i = get_at (te_elems t) i"

definition table_set_elem :: "nat \<Rightarrow> ref_val \<Rightarrow> table_entity \<Rightarrow> bool \<times> table_entity" where
  "table_set_elem i v t = (if i < length (te_elems t) then (True, t\<lparr>te_elems := (te_elems t)[i := v]\<rparr>) else (False, t))"

definition elem_limit :: "table_type \<Rightarrow> nat" where
  "elem_limit ty = (let arch_max = (if tt_table64 ty then u64_max else u32_max) in
     min (case tt_maximum ty of None \<Rightarrow> arch_max | Some m \<Rightarrow> m) arch_max)"

definition table_grow :: "(nat \<Rightarrow> bool) \<Rightarrow> nat \<Rightarrow> ref_val \<Rightarrow> table_entity \<Rightarrow> nat option \<times> table_entity" where
  "table_grow can_alloc delta init t = (let old = table_size t in
     case checked_add u64_max old delta of None \<Rightarrow> (None, t)
   | Some new \<Rightarrow> (if elem_limit (te_ty t) < new then (None, t)
      else if \<not> can_alloc (new - length (te_elems t)) then (None, t)
      else (Some old, t\<lparr>te_elems := te_elems t @ replicate (new - length (te_elems t)) init\<rparr>)))"

definition table_fill_elems :: "nat \<Rightarrow> ref_val \<Rightarrow> nat \<Rightarrow> table_entity \<Rightarrow> bool \<times> table_entity" where
  "table_fill_elems dst v len t = (case checked_add u64_max dst len of
     None \<Rightarrow> (False, t)
   | Some e \<Rightarrow> (if table_size t < e then (False, t)
      else (True, t\<lparr>te_elems := fold (\<lambda>i es. es[i := v]) [dst..<e] (te_elems t)\<rparr>)))"

section \<open>Lemmas\<close>

text \<open>A well-formed memory holds whole pages, within the limits of its type; a well-formed table
  stays within its limits.\<close>

definition memory_ok :: "memory_entity \<Rightarrow> bool" where
  "memory_ok m \<longleftrightarrow> length (me_bytes m) = size_pages m * PAGE_SIZE \<and> mt_minimum (me_ty m) \<le> size_pages m \<and>
     size_pages m \<le> page_limit (me_ty m)"

definition table_ok :: "table_entity \<Rightarrow> bool" where
  "table_ok t \<longleftrightarrow> tt_minimum (te_ty t) \<le> table_size t \<and> table_size t \<le> elem_limit (te_ty t)"

lemma page_limit_le: "page_limit ty \<le> 2 ^ 48"
  by (auto simp: page_limit_def Let_def MAX_PAGES_def split: option.split)

lemma memory_ok_new:
  assumes "memory_new can_alloc ty = Inr m" and "mt_minimum ty \<le> page_limit ty"
  shows "memory_ok m \<and> me_bytes m = replicate (mt_minimum ty * PAGE_SIZE) 0 \<and> me_ty m = ty"
  using assms by (auto simp: memory_new_def memory_ok_def size_pages_def PAGE_SIZE_def split: if_splits)

text \<open>A growth reports the old size and appends zeroed pages, or changes nothing; it fails exactly
  when the limit, the address space or the host refuses.\<close>

definition memory_can_grow :: "(nat \<Rightarrow> bool) \<Rightarrow> nat \<Rightarrow> memory_entity \<Rightarrow> bool" where
  "memory_can_grow can_alloc delta m \<longleftrightarrow> size_pages m + delta \<le> page_limit (me_ty m) \<and>
     (size_pages m + delta) * PAGE_SIZE \<le> usize_max \<and> can_alloc (delta * PAGE_SIZE)"

lemma memory_grow_spec:
  assumes ok: "memory_ok m"
  shows "memory_grow can_alloc delta m =
    (if memory_can_grow can_alloc delta m
     then (Some (size_pages m), m\<lparr>me_bytes := me_bytes m @ replicate (delta * PAGE_SIZE) 0\<rparr>)
     else (None, m))"
proof (cases "size_pages m + delta \<le> page_limit (me_ty m)")
  case True
  with page_limit_le [of "me_ty m"] have "size_pages m + delta \<le> 2 ^ 48" by linarith
  then have fits: "size_pages m + delta \<le> u64_max" by simp
  have len: "(size_pages m + delta) * PAGE_SIZE = length (me_bytes m) + delta * PAGE_SIZE"
    using ok by (simp add: memory_ok_def algebra_simps)
  show ?thesis
    using True fits by (simp add: memory_can_grow_def memory_grow_def Let_def checked_add_def checked_mul_def len)
next
  case False
  then show ?thesis by (simp add: memory_grow_def memory_can_grow_def Let_def checked_add_def)
qed

lemma memory_ok_grow:
  assumes "memory_ok m" and "memory_grow can_alloc delta m = (r, m')"
  shows "memory_ok m'"
proof (cases "memory_can_grow can_alloc delta m")
  case True
  with assms have m': "m' = m\<lparr>me_bytes := me_bytes m @ replicate (delta * PAGE_SIZE) 0\<rparr>"
    by (simp add: memory_grow_spec)
  have "length (me_bytes m') = (size_pages m + delta) * PAGE_SIZE"
    using assms(1) by (simp add: m' memory_ok_def algebra_simps)
  then have "size_pages m' = size_pages m + delta" by (simp add: size_pages_def PAGE_SIZE_def)
  with True assms(1) \<open>length (me_bytes m') = _\<close> show ?thesis by (simp add: memory_ok_def m' memory_can_grow_def)
next
  case False
  with assms show ?thesis by (simp add: memory_grow_spec)
qed

lemma elem_limit_le: "elem_limit ty \<le> u64_max"
  by (auto simp: elem_limit_def Let_def split: option.split)

lemma table_grow_spec:
  "table_grow can_alloc delta init t =
    (if table_size t + delta \<le> elem_limit (te_ty t) \<and> can_alloc delta
     then (Some (table_size t), t\<lparr>te_elems := te_elems t @ replicate delta init\<rparr>) else (None, t))"
proof (cases "table_size t + delta \<le> elem_limit (te_ty t)")
  case True
  with elem_limit_le [of "te_ty t"] have "table_size t + delta \<le> u64_max" by linarith
  with True show ?thesis by (simp add: table_grow_def Let_def checked_add_def) (simp add: table_size_def)
next
  case False
  then show ?thesis by (simp add: table_grow_def Let_def checked_add_def)
qed

lemma fold_fill:
  "dst + n \<le> length es \<Longrightarrow> fold (\<lambda>i es. es[i := v]) [dst..<dst + n] es = write_at es dst (replicate n v)"
proof (induction n)
  case (Suc n)
  have "(write_at es dst (replicate n v))[dst + n := v] = write_at es dst (replicate (Suc n) v)"
    by (rule nth_equalityI) (use Suc.prems in \<open>auto simp: nth_list_update nth_write_at simp del: replicate_Suc\<close>)
  with Suc show ?case by simp
qed (simp add: write_at_def)

lemma table_fill_spec:
  "length (te_elems t) \<le> u64_max \<Longrightarrow> table_fill_elems dst v len t =
    (if dst + len \<le> table_size t then (True, t\<lparr>te_elems := write_at (te_elems t) dst (replicate len v)\<rparr>) else (False, t))"
  by (auto simp: table_fill_elems_def checked_add_def table_size_def fold_fill)

end
