(* ===== verification/Store.thy ===== *)
theory Store
  imports Store_Entity
begin

text \<open>
  The store, \<^verbatim>\<open>src/store/inner.rs\<close>, \<^verbatim>\<open>src/store/accessors.rs\<close> and \<^verbatim>\<open>src/store/managed.rs\<close>, with
  the part of the engine it uses (\<^verbatim>\<open>src/engine.rs\<close>) and the host-handle checks of
  \<^verbatim>\<open>src/value/gc_ref.rs\<close>. The engine is shared by its stores behind locks and atomics; the model
  follows one store, with the engine's state inside it, so what another store does to the engine
  between two operations is a change of that state. The mailbox of collection requests is this
  store's flag. Reused buffers and captured backtraces carry no state of their own and are left
  out.
\<close>

section \<open>The engine\<close>

record engine =
  en_types :: type_registry
  en_epoch :: nat
  en_max_wasm_stack :: nat
  en_consume_fuel :: bool
  en_epoch_interruption :: bool
  en_mark_sweep :: bool
  en_gc_memory_threshold :: "nat option"
  en_gc_heap_reservation :: nat
  en_gc_committed :: nat

text \<open>Materialized types of the registry (\<^verbatim>\<open>src/canon/materialize.rs\<close>).\<close>

fun mat_fields :: "cfield list \<Rightarrow> field_type list result" where
  "mat_fields [] = Inr []"
| "mat_fields (f # fs) = bindr (mat_field f) (\<lambda>t. bindr (mat_fields fs) (\<lambda>ts. Inr (t # ts)))"

definition struct_fields :: "type_registry \<Rightarrow> canonical_type_id \<Rightarrow> field_type list result" where
  "struct_fields r tid = bindr (ok_or (Msg ''not a live struct type'') (struct_fields_raw r tid)) mat_fields"

definition array_field :: "type_registry \<Rightarrow> canonical_type_id \<Rightarrow> field_type result" where
  "array_field r tid = bindr (ok_or (Msg ''not a live array type'') (array_field_raw r tid)) mat_field"

section \<open>The store\<close>

record store_inner =
  si_store_id :: u64
  si_engine :: engine
  si_funcs :: "func_entity list"
  si_memories :: "memory_entity list"
  si_tables :: "table_entity list"
  si_globals :: "global_entity list"
  si_tags :: "canonical_type_id list"
  si_exns :: "exn_entity reclaim_arena"
  si_instances :: "instance_entity list"
  si_externrefs :: "extern_entry reclaim_arena"
  si_gc :: gc_heap
  si_gc_roots :: "(u32 \<times> ref_kind) list"
  si_gc_host_alloc_types :: "canonical_type_id set"
  si_fuel :: nat
  si_fuel_reserve :: nat
  si_fuel_yield_interval :: "nat option"
  si_epoch_deadline :: nat
  si_pending_exception :: "rooted option"
  si_pending_exception_generation :: u64
  si_internal_error :: "internal_error option"
  si_exec_slot :: execution
  si_gc_request :: bool

definition store_new :: "u64 \<Rightarrow> engine \<Rightarrow> store_inner" where
  "store_new sid e = \<lparr>si_store_id = sid, si_engine = e, si_funcs = [], si_memories = [], si_tables = [],
     si_globals = [], si_tags = [], si_exns = ra_default, si_instances = [], si_externrefs = ra_default,
     si_gc = gc_heap_new (en_mark_sweep e) (en_gc_heap_reservation e), si_gc_roots = [],
     si_gc_host_alloc_types = {}, si_fuel = 0, si_fuel_reserve = 0, si_fuel_yield_interval = None,
     si_epoch_deadline = u64_max, si_pending_exception = None, si_pending_exception_generation = 0,
     si_internal_error = None, si_exec_slot = execution_default, si_gc_request = False\<rparr>"

definition add_gc_committed :: "nat \<Rightarrow> store_inner \<Rightarrow> store_inner" where
  "add_gc_committed delta s = (let n = en_gc_committed (si_engine s) + delta in
     s\<lparr>si_engine := (si_engine s)\<lparr>en_gc_committed := n\<rparr>,
       si_gc_request := (case en_gc_memory_threshold (si_engine s) of
          None \<Rightarrow> si_gc_request s | Some t \<Rightarrow> (if n \<le> t then si_gc_request s else True))\<rparr>)"

definition take_gc_request :: "store_inner \<Rightarrow> bool \<times> store_inner" where
  "take_gc_request s = (si_gc_request s, s\<lparr>si_gc_request := False\<rparr>)"

subsection \<open>Parked execution and latched errors\<close>

definition take_exec :: "store_inner \<Rightarrow> execution \<times> store_inner" where
  "take_exec s = (si_exec_slot s, s\<lparr>si_exec_slot := execution_default\<rparr>)"

definition park_exec :: "execution \<Rightarrow> store_inner \<Rightarrow> store_inner" where
  "park_exec e s = s\<lparr>si_exec_slot := e\<rparr>"

definition exec_roots :: "store_inner \<Rightarrow> (u32 \<times> ref_kind) list result" where
  "exec_roots s = operand_roots (si_exec_slot s)"

definition latch_internal_error :: "internal_error \<Rightarrow> store_inner \<Rightarrow> store_inner" where
  "latch_internal_error e s = (case si_internal_error s of None \<Rightarrow> s\<lparr>si_internal_error := Some e\<rparr> | Some _ \<Rightarrow> s)"

definition take_internal_error :: "store_inner \<Rightarrow> error option \<times> store_inner" where
  "take_internal_error s = (map_option Internal (si_internal_error s), s\<lparr>si_internal_error := None\<rparr>)"

subsection \<open>Fuel and epochs\<close>

text \<open>The sum of the two fuel counters is a \<^verbatim>\<open>u64\<close> addition, which panics on overflow in a checked
  build.\<close>

definition store_fuel :: "store_inner \<Rightarrow> nat result" where
  "store_fuel s = ok_or (Panic ''attempt to add with overflow'') (checked_add u64_max (si_fuel s) (si_fuel_reserve s))"

definition set_fuel :: "nat \<Rightarrow> store_inner \<Rightarrow> store_inner" where
  "set_fuel fuel_total s = (let active = (case si_fuel_yield_interval s of None \<Rightarrow> fuel_total | Some i \<Rightarrow> min fuel_total i) in
     s\<lparr>si_fuel := active, si_fuel_reserve := fuel_total - active\<rparr>)"

definition set_fuel_yield_interval :: "nat option \<Rightarrow> (store_inner, unit) action" where
  "set_fuel_yield_interval interval s =
     (let t = s\<lparr>si_fuel_yield_interval := Option.bind interval (\<lambda>i. if i = 0 then None else Some i)\<rparr> in
      case store_fuel t of Inl e \<Rightarrow> (Inl e, t) | Inr n \<Rightarrow> (Inr (), set_fuel n t))"

datatype fuel_step = FuelRan | FuelNeedYield | FuelExhausted

definition consume_fuel_step :: "store_inner \<Rightarrow> fuel_step \<times> store_inner" where
  "consume_fuel_step s = (if 0 < si_fuel s then (FuelRan, s\<lparr>si_fuel := si_fuel s - 1\<rparr>)
     else if 0 < si_fuel_reserve s then (FuelNeedYield, s) else (FuelExhausted, s))"

definition refuel_from_reserve :: "store_inner \<Rightarrow> store_inner" where
  "refuel_from_reserve s = (let n = min (case si_fuel_yield_interval s of None \<Rightarrow> 0 | Some i \<Rightarrow> i) (si_fuel_reserve s) in
     s\<lparr>si_fuel := si_fuel s + n, si_fuel_reserve := si_fuel_reserve s - n\<rparr>)"

definition set_epoch_deadline :: "nat \<Rightarrow> store_inner \<Rightarrow> store_inner" where
  "set_epoch_deadline d s = s\<lparr>si_epoch_deadline := d\<rparr>"

definition epoch_deadline_reached :: "store_inner \<Rightarrow> bool" where
  "epoch_deadline_reached s \<longleftrightarrow> si_epoch_deadline s \<le> en_epoch (si_engine s)"

subsection \<open>Handles and entities\<close>

definition check_handle :: "u64 \<Rightarrow> store_inner \<Rightarrow> unit result" where
  "check_handle st s = (if st = 0 \<or> st = si_store_id s then Inr ()
     else Inl (Panic ''handle used with the wrong store (cross-store misuse)''))"

definition entity_at :: "(store_inner \<Rightarrow> 'e list) \<Rightarrow> entity_handle \<Rightarrow> store_inner \<Rightarrow> 'e result" where
  "entity_at arena h s = bindr (check_handle (eh_store h) s) (\<lambda>_. index_at (arena s) (unat (eh_index h)))"

definition func_at :: "func_handle \<Rightarrow> store_inner \<Rightarrow> func_entity result" where
  "func_at h s = bindr (check_handle (fh_store h) s) (\<lambda>_. index_at (si_funcs s) (unat (fh_index h)))"

abbreviation memory_at :: "entity_handle \<Rightarrow> store_inner \<Rightarrow> memory_entity result" where
  "memory_at \<equiv> entity_at si_memories"

abbreviation table_at :: "entity_handle \<Rightarrow> store_inner \<Rightarrow> table_entity result" where
  "table_at \<equiv> entity_at si_tables"

abbreviation global_at :: "entity_handle \<Rightarrow> store_inner \<Rightarrow> global_entity result" where
  "global_at \<equiv> entity_at si_globals"

abbreviation tag_at :: "entity_handle \<Rightarrow> store_inner \<Rightarrow> canonical_type_id result" where
  "tag_at \<equiv> entity_at si_tags"

abbreviation instance_at :: "entity_handle \<Rightarrow> store_inner \<Rightarrow> instance_entity result" where
  "instance_at \<equiv> entity_at si_instances"

text \<open>Writes through the \<^verbatim>\<open>_mut\<close> accessors replace the entity.\<close>

definition put_memory :: "entity_handle \<Rightarrow> memory_entity \<Rightarrow> store_inner \<Rightarrow> store_inner" where
  "put_memory h m s = s\<lparr>si_memories := (si_memories s)[unat (eh_index h) := m]\<rparr>"

definition put_table :: "entity_handle \<Rightarrow> table_entity \<Rightarrow> store_inner \<Rightarrow> store_inner" where
  "put_table h t s = s\<lparr>si_tables := (si_tables s)[unat (eh_index h) := t]\<rparr>"

definition put_global :: "entity_handle \<Rightarrow> global_entity \<Rightarrow> store_inner \<Rightarrow> store_inner" where
  "put_global h g s = s\<lparr>si_globals := (si_globals s)[unat (eh_index h) := g]\<rparr>"

definition put_instance :: "entity_handle \<Rightarrow> instance_entity \<Rightarrow> store_inner \<Rightarrow> store_inner" where
  "put_instance h i s = s\<lparr>si_instances := (si_instances s)[unat (eh_index h) := i]\<rparr>"

text \<open>The grow-only arenas: \<^verbatim>\<open>alloc\<close> appends, the handle is the old length with the store's id.\<close>

definition fresh_handle :: "'e list \<Rightarrow> store_inner \<Rightarrow> entity_handle" where
  "fresh_handle arena s = \<lparr>eh_index = of_nat (length arena), eh_store = si_store_id s\<rparr>"

definition alloc_func :: "func_entity \<Rightarrow> store_inner \<Rightarrow> func_handle \<times> store_inner" where
  "alloc_func e s = (\<lparr>fh_index = of_nat (length (si_funcs s)), fh_store = si_store_id s\<rparr>,
     s\<lparr>si_funcs := si_funcs s @ [e]\<rparr>)"

definition alloc_memory :: "memory_entity \<Rightarrow> store_inner \<Rightarrow> entity_handle \<times> store_inner" where
  "alloc_memory e s = (fresh_handle (si_memories s) s, s\<lparr>si_memories := si_memories s @ [e]\<rparr>)"

definition alloc_table :: "table_entity \<Rightarrow> store_inner \<Rightarrow> entity_handle \<times> store_inner" where
  "alloc_table e s = (fresh_handle (si_tables s) s, s\<lparr>si_tables := si_tables s @ [e]\<rparr>)"

definition alloc_global :: "global_entity \<Rightarrow> store_inner \<Rightarrow> entity_handle \<times> store_inner" where
  "alloc_global e s = (fresh_handle (si_globals s) s, s\<lparr>si_globals := si_globals s @ [e]\<rparr>)"

definition alloc_tag :: "canonical_type_id \<Rightarrow> store_inner \<Rightarrow> entity_handle \<times> store_inner" where
  "alloc_tag e s = (fresh_handle (si_tags s) s, s\<lparr>si_tags := si_tags s @ [e]\<rparr>)"

definition reserve_instance :: "store_inner \<Rightarrow> entity_handle" where
  "reserve_instance s = fresh_handle (si_instances s) s"

definition alloc_instance :: "instance_entity \<Rightarrow> store_inner \<Rightarrow> entity_handle \<times> store_inner" where
  "alloc_instance e s = (fresh_handle (si_instances s) s, s\<lparr>si_instances := si_instances s @ [e]\<rparr>)"

text \<open>An engine without types, for the witnesses.\<close>

definition sample_engine :: engine where
  "sample_engine = \<lparr>en_types = \<lparr>tr_types = [], tr_type_to_group = [], tr_free_types = [], tr_groups = [], tr_free_groups = [], tr_interned = []\<rparr>,
     en_epoch = 0, en_max_wasm_stack = 1048576, en_consume_fuel = False, en_epoch_interruption = False,
     en_mark_sweep = True, en_gc_memory_threshold = None, en_gc_heap_reservation = 0, en_gc_committed = 0\<rparr>"

end
