(* ===== verification/Store_Managed.thy ===== *)
theory Store_Managed
  imports Store
begin

text \<open>
  The garbage-collected side of the store, \<^verbatim>\<open>src/store/managed.rs\<close>: the \<^verbatim>\<open>externref\<close> and exception
  arenas, the \<^verbatim>\<open>extern\<close>/\<^verbatim>\<open>any\<close> bridge, stamping and rooting of values that leave the store, the
  pending exception, host roots and pinned types; with the handle checks of
  \<^verbatim>\<open>src/value/gc_ref.rs\<close>.
\<close>

section \<open>Handle checks\<close>

definition rooted_from_raw_store :: "u32 \<Rightarrow> u64 \<Rightarrow> ref_kind \<Rightarrow> rooted" where
  "rooted_from_raw_store i st k = \<lparr>ro_index = i, ro_arena = k, ro_store = st, ro_generation = UNCHECKED_GENERATION\<rparr>"

definition belongs_to_store :: "rooted \<Rightarrow> store_inner \<Rightarrow> bool" where
  "belongs_to_store r s \<longleftrightarrow> ro_store r = UNCHECKED_STORE \<or> ro_store r = si_store_id s"

definition gc_slot :: "store_inner \<Rightarrow> u32 \<Rightarrow> u32 result" where
  "gc_slot s handle = (case decode_anyref_handle handle of
     HandleI31 _ \<Rightarrow> Inl (Msg ''reference is an i31, not a heap object'')
   | HandleSlot i \<Rightarrow> (case gc_get (si_gc s) i of
        None \<Rightarrow> Inl (Msg ''dangling gc reference'') | Some _ \<Rightarrow> Inr i))"

definition gc_slot_checked :: "rooted \<Rightarrow> store_inner \<Rightarrow> u32 result" where
  "gc_slot_checked r s = bindr (check_handle (ro_store r) s) (\<lambda>_.
     bindr (gc_slot s (ro_index r)) (\<lambda>slot.
     if ro_generation r \<noteq> UNCHECKED_GENERATION \<and> gc_generation (si_gc s) slot \<noteq> Some (ro_generation r)
     then Inl (Msg ''stale gc reference (object was collected)'') else Inr slot))"

definition rooted_checked :: "rooted \<Rightarrow> u32 option \<Rightarrow> store_inner \<Rightarrow> u32 result" where
  "rooted_checked r current s = bindr (check_handle (ro_store r) s) (\<lambda>_. case current of
     None \<Rightarrow> Inl (Msg ''stale reference (object was collected)'')
   | Some g \<Rightarrow> (if ro_generation r \<noteq> UNCHECKED_GENERATION \<and> g \<noteq> ro_generation r
       then Inl (Msg ''stale reference (object was collected)'') else Inr (ro_index r)))"

section \<open>Externrefs\<close>

definition push_extern :: "extern_entry \<Rightarrow> (store_inner, u32) action" where
  "push_extern entry s = (let charge = extern_byte_size entry in
     if \<not> can_fit_limit (si_gc s) charge then (Inl (Trapped AllocationTooLarge), s)
     else case ra_alloc entry (si_externrefs s) of
       (r, a) \<Rightarrow> (r, s\<lparr>si_gc := gc_charge charge (si_gc s), si_externrefs := a\<rparr>))"

definition alloc_externref :: "nat \<Rightarrow> (store_inner, u32) action" where
  "alloc_externref payload = push_extern (ExternHost payload)"

definition externref :: "store_inner \<Rightarrow> u32 \<Rightarrow> nat option" where
  "externref s i = Option.bind (ra_get (si_externrefs s) i) (\<lambda>e. case e of ExternHost p \<Rightarrow> Some p | ExternInternal _ \<Rightarrow> None)"

definition externref_generation :: "store_inner \<Rightarrow> u32 \<Rightarrow> u32" where
  "externref_generation s i = (case ra_generation (si_externrefs s) i of None \<Rightarrow> 0 | Some g \<Rightarrow> g)"

definition externref_checked :: "rooted \<Rightarrow> store_inner \<Rightarrow> nat option result" where
  "externref_checked r s = bindr (rooted_checked r (ra_generation (si_externrefs s) (ro_index r)) s) (\<lambda>i. Inr (externref s i))"

definition extern_convert_any :: "val \<Rightarrow> (store_inner, val) action" where
  "extern_convert_any v s = (case v of
     AnyRef None \<Rightarrow> (Inr (ExternRef None), s)
   | ExternRef _ \<Rightarrow> (Inr v, s)
   | AnyRef (Some r) \<Rightarrow>
      (let wrap = (case push_extern (ExternInternal (ro_index r)) s of
           (Inl e, t) \<Rightarrow> (Inl e, t)
         | (Inr i, t) \<Rightarrow> (Inr (ExternRef (Some (rooted_from_raw i RkExtern))), t))
       in case decode_anyref_handle (ro_index r) of
          HandleSlot i \<Rightarrow> (case gc_get (si_gc s) i of
             None \<Rightarrow> (Inl (Internal (GcMetadata ''extern.convert_any referenced a missing GC object'')), s)
           | Some ob \<Rightarrow> (case extern_index ob of
                Some e \<Rightarrow> (Inr (ExternRef (Some (rooted_from_raw e RkExtern))), s)
              | None \<Rightarrow> wrap))
        | HandleI31 _ \<Rightarrow> wrap)
   | _ \<Rightarrow> (Inl (Panic ''extern.convert_any operand is a reference''), s))"

definition any_convert_extern :: "val \<Rightarrow> (store_inner, val) action" where
  "any_convert_extern v s = (case v of
     ExternRef None \<Rightarrow> (Inr (AnyRef None), s)
   | AnyRef _ \<Rightarrow> (Inr v, s)
   | ExternRef (Some r) \<Rightarrow> (case ra_get (si_externrefs s) (ro_index r) of
        Some (ExternInternal h) \<Rightarrow> (Inr (anyref_value h), s)
      | Some (ExternHost _) \<Rightarrow> (case alloc_unreserved (extern_wrapper (ro_index r)) (si_gc s) of
           (Inl e, h) \<Rightarrow> (Inl e, s\<lparr>si_gc := h\<rparr>)
         | (Inr slot, h) \<Rightarrow> (Inr (anyref_value (anyref_handle_slot slot)), s\<lparr>si_gc := h\<rparr>))
      | None \<Rightarrow> (Inl (Internal (GcMetadata ''any.convert_extern referenced a missing externref'')), s))
   | _ \<Rightarrow> (Inl (Panic ''any.convert_extern operand is a reference''), s))"

section \<open>Exceptions\<close>

definition alloc_exn :: "exn_entity \<Rightarrow> (store_inner, rooted) action" where
  "alloc_exn e s = (let charge = exn_byte_size e in
     if \<not> can_fit_limit (si_gc s) charge then (Inl (Trapped AllocationTooLarge), s)
     else case ra_alloc e (si_exns s) of
       (Inl err, a) \<Rightarrow> (Inl err, s\<lparr>si_gc := gc_charge charge (si_gc s), si_exns := a\<rparr>)
     | (Inr i, a) \<Rightarrow> (Inr (rooted_from_raw i RkExn), s\<lparr>si_gc := gc_charge charge (si_gc s), si_exns := a\<rparr>))"

definition exn_at :: "rooted \<Rightarrow> store_inner \<Rightarrow> exn_entity result" where
  "exn_at r s = ok_or (Internal (GcMetadata ''missing in-flight exception'')) (ra_get (si_exns s) (ro_index r))"

definition exn_checked :: "rooted \<Rightarrow> store_inner \<Rightarrow> exn_entity result" where
  "exn_checked r s = bindr (rooted_checked r (ra_generation (si_exns s) (ro_index r)) s) (\<lambda>i.
     ok_or (Msg ''stale exnref (exception was collected)'') (ra_get (si_exns s) i))"

section \<open>Values that leave the store\<close>

definition stamp_func :: "func_handle \<Rightarrow> store_inner \<Rightarrow> val result" where
  "stamp_func f s = bindr (check_handle (fh_store f) s) (\<lambda>_. case get_at (si_funcs s) (unat (fh_index f)) of
     None \<Rightarrow> Inl (Internal (GcMetadata ''store value referenced a missing function''))
   | Some _ \<Rightarrow> Inr (FuncRef (Some \<lparr>fh_index = fh_index f, fh_store = si_store_id s\<rparr>)))"

definition stamp_anyref :: "rooted \<Rightarrow> store_inner \<Rightarrow> val result" where
  "stamp_anyref r s = (case decode_anyref_handle (ro_index r) of
     HandleI31 _ \<Rightarrow> bindr (check_handle (ro_store r) s) (\<lambda>_.
        Inr (AnyRef (Some (rooted_from_raw_store (ro_index r) (si_store_id s) RkAny))))
   | HandleSlot slot \<Rightarrow> bindr (gc_slot_checked r s) (\<lambda>i.
        if i \<noteq> slot then Inl (Internal (GcMetadata ''anyref handle resolved to an inconsistent GC slot''))
        else bindr (ok_or (Internal (GcMetadata ''store value referenced a missing GC object'')) (gc_generation (si_gc s) slot)) (\<lambda>g.
          Inr (AnyRef (Some (rooted_from_raw_gen (ro_index r) g (si_store_id s) RkAny))))))"

definition stamp_externref :: "rooted \<Rightarrow> store_inner \<Rightarrow> val result" where
  "stamp_externref r s = bindr (externref_checked r s) (\<lambda>_.
     bindr (ok_or (Internal (GcMetadata ''store value referenced a missing externref'')) (ra_generation (si_externrefs s) (ro_index r))) (\<lambda>g.
     Inr (ExternRef (Some (rooted_from_raw_gen (ro_index r) g (si_store_id s) RkExtern)))))"

definition stamp_exnref :: "rooted \<Rightarrow> store_inner \<Rightarrow> val result" where
  "stamp_exnref r s = bindr (exn_checked r s) (\<lambda>_.
     bindr (ok_or (Internal (GcMetadata ''store value referenced a missing exception'')) (ra_generation (si_exns s) (ro_index r))) (\<lambda>g.
     Inr (ExnRef (Some (rooted_from_raw_gen (ro_index r) g (si_store_id s) RkExn)))))"

definition stamp_host_value :: "val \<Rightarrow> store_inner \<Rightarrow> val result" where
  "stamp_host_value v s = (case v of
     FuncRef (Some f) \<Rightarrow> stamp_func f s
   | AnyRef (Some r) \<Rightarrow> stamp_anyref r s
   | ExternRef (Some r) \<Rightarrow> stamp_externref r s
   | ExnRef (Some r) \<Rightarrow> stamp_exnref r s
   | _ \<Rightarrow> Inr v)"

definition push_gc_root :: "u32 \<Rightarrow> ref_kind \<Rightarrow> store_inner \<Rightarrow> store_inner" where
  "push_gc_root h k s = s\<lparr>si_gc_roots := si_gc_roots s @ [(h, k)]\<rparr>"

definition gc_roots_mark :: "store_inner \<Rightarrow> nat" where
  "gc_roots_mark s = length (si_gc_roots s)"

definition gc_roots_truncate :: "nat \<Rightarrow> store_inner \<Rightarrow> store_inner" where
  "gc_roots_truncate mark s = s\<lparr>si_gc_roots := take mark (si_gc_roots s)\<rparr>"

definition root_host_result :: "val \<Rightarrow> (store_inner, val) action" where
  "root_host_result v s = (case stamp_host_value v s of Inl e \<Rightarrow> (Inl e, s)
   | Inr w \<Rightarrow> (Inr w, case w of
       AnyRef (Some r) \<Rightarrow> (case decode_anyref_handle (ro_index r) of
           HandleSlot _ \<Rightarrow> push_gc_root (ro_index r) RkAny s | HandleI31 _ \<Rightarrow> s)
     | ExternRef (Some r) \<Rightarrow> push_gc_root (ro_index r) RkExtern s
     | ExnRef (Some r) \<Rightarrow> push_gc_root (ro_index r) RkExn s
     | _ \<Rightarrow> s))"

definition root_stored_value :: "val \<Rightarrow> (store_inner, val) action" where
  "root_stored_value v s = (case root_host_result v s of
     (Inr w, t) \<Rightarrow> (Inr w, t)
   | (Inl (Panic m), t) \<Rightarrow> (Inl (Panic m), t)
   | (Inl e, t) \<Rightarrow> (Inr v, latch_internal_error (case e of Internal i \<Rightarrow> i
       | _ \<Rightarrow> GcMetadata ''stored reference could not be handed to the host'') t))"

section \<open>The pending exception\<close>

definition set_pending_exception :: "rooted \<Rightarrow> store_inner \<Rightarrow> store_inner" where
  "set_pending_exception e s = s\<lparr>si_pending_exception_generation := si_pending_exception_generation s + 1,
     si_pending_exception := Some e\<rparr>"

definition restore_pending_exception :: "rooted option \<Rightarrow> u64 \<Rightarrow> store_inner \<Rightarrow> store_inner" where
  "restore_pending_exception e g s = s\<lparr>si_pending_exception := e, si_pending_exception_generation := g\<rparr>"

definition take_pending_exception :: "store_inner \<Rightarrow> rooted option \<times> store_inner" where
  "take_pending_exception s = (si_pending_exception s, s\<lparr>si_pending_exception := None\<rparr>)"

definition take_pending_exception_host :: "store_inner \<Rightarrow> rooted option \<times> store_inner" where
  "take_pending_exception_host s = (case si_pending_exception s of None \<Rightarrow> (None, s)
   | Some e \<Rightarrow> (case ra_generation (si_exns s) (ro_index e) of
       None \<Rightarrow> (None, latch_internal_error (GcMetadata ''pending exception referenced a missing exception'') s)
     | Some g \<Rightarrow> (Some (rooted_from_raw_gen (ro_index e) g (si_store_id s) RkExn),
         push_gc_root (ro_index e) RkExn (s\<lparr>si_pending_exception := None\<rparr>))))"

section \<open>Allocation and pinned types\<close>

definition alloc_gc :: "gc_object \<Rightarrow> (store_inner, u32) action" where
  "alloc_gc ob s = (case gc_alloc ob (si_gc s) of (r, h) \<Rightarrow> (r, s\<lparr>si_gc := h\<rparr>))"

definition alloc_gc_unreserved :: "gc_object \<Rightarrow> (store_inner, u32) action" where
  "alloc_gc_unreserved ob s = (case alloc_unreserved ob (si_gc s) of (r, h) \<Rightarrow> (r, s\<lparr>si_gc := h\<rparr>))"

text \<open>An operation of the registry, through the engine.\<close>

definition on_types :: "(type_registry, 'a) action \<Rightarrow> (store_inner, 'a) action" where
  "on_types m s = (case m (en_types (si_engine s)) of
     (r, ty) \<Rightarrow> (r, s\<lparr>si_engine := (si_engine s)\<lparr>en_types := ty\<rparr>\<rparr>))"

definition pin_gc_type :: "canonical_type_id \<Rightarrow> (store_inner, bool) action" where
  "pin_gc_type tid s = (if tid \<in> si_gc_host_alloc_types s then (Inr False, s)
     else case on_types (incref_type tid) (s\<lparr>si_gc_host_alloc_types := insert tid (si_gc_host_alloc_types s)\<rparr>) of
       (Inl e, t) \<Rightarrow> (Inl e, t) | (Inr _, t) \<Rightarrow> (Inr True, t))"

definition unpin_gc_type :: "canonical_type_id \<Rightarrow> (store_inner, unit) action" where
  "unpin_gc_type tid s = (if tid \<in> si_gc_host_alloc_types s
     then on_types (decref_type tid) (s\<lparr>si_gc_host_alloc_types := si_gc_host_alloc_types s - {tid}\<rparr>)
     else (Inr (), s))"

definition alloc_host_gc :: "canonical_type_id \<Rightarrow> gc_object \<Rightarrow> (store_inner, u32) action" where
  "alloc_host_gc tid ob = bindc (pin_gc_type tid) (\<lambda>pinned s.
     case alloc_gc ob s of
       (Inr i, t) \<Rightarrow> (Inr i, t)
     | (Inl e, t) \<Rightarrow> (if pinned then (case unpin_gc_type tid t of (Inl p, u) \<Rightarrow> (Inl p, u) | (Inr _, u) \<Rightarrow> (Inl e, u))
         else (Inl e, t)))"

end
