(* ===== verification/Gc_Collect.thy ===== *)
theory Gc_Collect
  imports Store_Managed
begin

text \<open>
  The mark-sweep collector, \<^verbatim>\<open>src/store/gc_collect.rs\<close>: the seeding of the worklist from the stack
  and from the store's own roots, the trace that follows the reference slots of each object through
  its layout and across the three arenas, and the sweep. The worklist is a list with its top at the
  head. The lemmas relate the trace to reachability in the object graph: it visits exactly the
  reachable referents, and it fails exactly when a reachable referent is damaged.
\<close>

datatype reached = RGc u32 | RExtern u32 | RExn u32

section \<open>Seeding\<close>

definition seed_handle :: "u32 \<Rightarrow> ref_kind \<Rightarrow> reached list" where
  "seed_handle h k = (if h = NULL_REF then [] else case k of
     RkFunc \<Rightarrow> []
   | RkAny \<Rightarrow> (case decode_anyref_handle h of HandleSlot i \<Rightarrow> [RGc i] | HandleI31 _ \<Rightarrow> [])
   | RkExtern \<Rightarrow> [RExtern h]
   | RkExn \<Rightarrow> [RExn h])"

definition seed_val :: "val \<Rightarrow> reached list" where
  "seed_val v = (case v of
     ExternRef (Some r) \<Rightarrow> seed_handle (ro_index r) RkExtern
   | AnyRef (Some r) \<Rightarrow> seed_handle (ro_index r) RkAny
   | ExnRef (Some r) \<Rightarrow> seed_handle (ro_index r) RkExn
   | _ \<Rightarrow> [])"

definition seed_ref :: "ref_val \<Rightarrow> reached list" where
  "seed_ref v = (case v of
     RefExtern (Some r) \<Rightarrow> seed_handle (ro_index r) RkExtern
   | RefAny (Some r) \<Rightarrow> seed_handle (ro_index r) RkAny
   | RefExn (Some r) \<Rightarrow> seed_handle (ro_index r) RkExn
   | _ \<Rightarrow> [])"

definition seed_slot :: "slot \<Rightarrow> u8 list \<Rightarrow> reached list result" where
  "seed_slot sl data = (case sl of
     SlotScalar _ _ \<Rightarrow> Inr []
   | SlotRef offset kind \<Rightarrow>
       bindr (ok_or (Internal (GcMetadata ''reference slot offset overflow'')) (checked_add usize_max offset 4)) (\<lambda>e.
       bindr (ok_or (Internal (GcMetadata ''reference slot exceeds object body'')) (get_range data offset e)) (\<lambda>bytes.
       bindr (le_u32 bytes) (\<lambda>h. Inr (seed_handle h kind)))))"

fun seed_slots :: "slot list \<Rightarrow> u8 list \<Rightarrow> reached list result" where
  "seed_slots [] data = Inr []"
| "seed_slots (sl # sls) data =
     bindr (seed_slot sl data) (\<lambda>a. bindr (seed_slots sls data) (\<lambda>b. Inr (a @ b)))"

text \<open>The roots the store holds itself, in the order they are pushed.\<close>

definition entity_roots :: "store_inner \<Rightarrow> reached list" where
  "entity_roots s =
     concat (map (\<lambda>g. seed_val (ge_value g)) (si_globals s))
   @ concat (map (\<lambda>t. concat (map seed_ref (te_elems t))) (si_tables s))
   @ concat (map (\<lambda>i. concat (map (\<lambda>seg. concat (map seed_ref seg)) (ie_elems i))) (si_instances s))
   @ (case si_pending_exception s of None \<Rightarrow> [] | Some e \<Rightarrow> [RExn (ro_index e)])
   @ concat (map (\<lambda>(h, k). seed_handle h k) (si_gc_roots s))"

section \<open>Tracing\<close>

definition trace_gc :: "store_inner \<Rightarrow> u32 \<Rightarrow> reached list result" where
  "trace_gc s i = bindr (ok_or (Internal (GcMetadata ''marked GC object is missing'')) (gc_get (si_gc s) i)) (\<lambda>ob.
     case go_kind ob of
       ObjStruct \<Rightarrow> (case struct_fields (en_types (si_engine s)) (go_type_id ob) of
          Inl (Panic m) \<Rightarrow> Inl (Panic m)
        | Inl _ \<Rightarrow> Inl (Internal (GcMetadata ''struct type metadata is missing''))
        | Inr fts \<Rightarrow> seed_slots (sl_fields (layout_for_struct fts)) (go_data ob))
     | ObjArray \<Rightarrow> (case array_field (en_types (si_engine s)) (go_type_id ob) of
          Inl (Panic m) \<Rightarrow> Inl (Panic m)
        | Inl _ \<Rightarrow> Inl (Internal (GcMetadata ''array type metadata is missing''))
        | Inr field \<Rightarrow> (let l = layout_for_array field in
            if al_stride l = 0 \<or> length (go_data ob) mod al_stride l \<noteq> 0
            then Inl (Internal (GcMetadata ''array body does not match its element layout''))
            else seed_slots (map (elem_at l) [0..<unat (array_len ob (al_stride l))]) (go_data ob)))
     | ObjExtern \<Rightarrow> bindr (ok_or (Internal (GcMetadata ''extern wrapper body is truncated'')) (extern_index ob)) (\<lambda>e.
          Inr [RExtern e]))"

definition trace_extern :: "store_inner \<Rightarrow> u32 \<Rightarrow> reached list result" where
  "trace_extern s i = bindr (ok_or (Internal (GcMetadata ''dangling externref root'')) (ra_get (si_externrefs s) i)) (\<lambda>e.
     case e of ExternInternal h \<Rightarrow> Inr (seed_handle h RkAny) | ExternHost _ \<Rightarrow> Inr [])"

definition trace_exn :: "store_inner \<Rightarrow> u32 \<Rightarrow> reached list result" where
  "trace_exn s i = bindr (ok_or (Internal (GcMetadata ''dangling exception root'')) (ra_get (si_exns s) i)) (\<lambda>x.
     Inr (concat (map seed_val (ee_args x))))"

definition set_gc :: "gc_heap \<Rightarrow> store_inner \<Rightarrow> store_inner" where
  "set_gc h s = s\<lparr>si_gc := h\<rparr>"

definition unmarked :: "gc_heap \<Rightarrow> nat set" where
  "unmarked h = {i. i < length (gh_slots h) \<and> \<not> is_marked (gh_marks h) i}"

lemma unmarked_gc_mark:
  assumes "fst (gc_mark i h)"
  shows "card (unmarked (snd (gc_mark i h))) < card (unmarked h)"
proof -
  have i: "unat i < length (gh_slots h)" "\<not> is_marked (gh_marks h) (unat i)"
    using assms by (auto simp: gc_mark_spec(1) slot_live_def)
  have slots: "gh_slots (snd (gc_mark i h)) = gh_slots h" by (subst gc_mark_spec(3)) simp
  have "unmarked (snd (gc_mark i h)) \<subset> unmarked h"
    using i assms by (auto simp: unmarked_def slots gc_mark_spec(1,2))
  moreover have "finite (unmarked h)" by (simp add: unmarked_def)
  ultimately show ?thesis by (rule psubset_card_mono [rotated])
qed

lemma unmarked_gc_mark_le: "card (unmarked (snd (gc_mark i h))) \<le> card (unmarked h)"
proof -
  have slots: "gh_slots (snd (gc_mark i h)) = gh_slots h" by (subst gc_mark_spec(3)) simp
  show ?thesis by (rule card_mono) (auto simp: unmarked_def slots gc_mark_spec(1,2))
qed

function (sequential) trace_reachable ::
    "store_inner \<Rightarrow> u32 set \<Rightarrow> u32 set \<Rightarrow> reached list \<Rightarrow> (u32 set \<times> u32 set) result \<times> store_inner" where
  "trace_reachable s extern_seen exn_seen [] = (Inr (extern_seen, exn_seen), s)"
| "trace_reachable s extern_seen exn_seen (RGc i # work) =
     (if gc_get (si_gc s) i = None then (Inl (Internal (GcMetadata ''dangling GC root'')), s)
      else let (fresh, h) = gc_mark i (si_gc s); t = set_gc h s in
        if fresh then (case trace_gc t i of Inl e \<Rightarrow> (Inl e, t)
          | Inr ps \<Rightarrow> trace_reachable t extern_seen exn_seen (rev ps @ work))
        else trace_reachable t extern_seen exn_seen work)"
| "trace_reachable s extern_seen exn_seen (RExtern i # work) =
     (if i \<in> extern_seen then trace_reachable s extern_seen exn_seen work
      else case trace_extern s i of Inl e \<Rightarrow> (Inl e, s)
        | Inr ps \<Rightarrow> trace_reachable s (insert i extern_seen) exn_seen (rev ps @ work))"
| "trace_reachable s extern_seen exn_seen (RExn i # work) =
     (if i \<in> exn_seen then trace_reachable s extern_seen exn_seen work
      else case trace_exn s i of Inl e \<Rightarrow> (Inl e, s)
        | Inr ps \<Rightarrow> trace_reachable s extern_seen (insert i exn_seen) (rev ps @ work))"
  by pat_completeness auto

lemma card_Compl_insert: "i \<notin> (A :: u32 set) \<Longrightarrow> card (- insert i A) < card (- A)"
  by (rule psubset_card_mono) auto

termination trace_reachable
proof (relation "measures [\<lambda>(s, es, xs, w). card (unmarked (si_gc s)) + card (- es) + card (- xs), \<lambda>(s, es, xs, w). length w]")
  show "wf (measures [\<lambda>(s, es, xs, w). card (unmarked (si_gc s)) + card (- es) + card (- xs), \<lambda>(s, es, xs, w). length w])"
    by simp
next
  fix s es xs i work x fresh h t ps
  assume "x = gc_mark i (si_gc s)" "(fresh, h) = x" "t = set_gc h s" "fresh"
  then have "fst (gc_mark i (si_gc s))" "t = set_gc (snd (gc_mark i (si_gc s))) s" by (metis fst_conv, metis snd_conv)
  with unmarked_gc_mark [of i "si_gc s"]
  show "((t, es, xs, rev ps @ work), (s, es, xs, RGc i # work)) \<in>
      measures [\<lambda>(s, es, xs, w). card (unmarked (si_gc s)) + card (- es) + card (- xs), \<lambda>(s, es, xs, w). length w]"
    by (simp add: set_gc_def)
next
  fix s es xs i work x fresh h t
  assume "x = gc_mark i (si_gc s)" "(fresh, h) = x" "t = set_gc h s"
  then have "t = set_gc (snd (gc_mark i (si_gc s))) s" by (metis snd_conv)
  with unmarked_gc_mark_le [of i "si_gc s"]
  show "((t, es, xs, work), (s, es, xs, RGc i # work)) \<in>
      measures [\<lambda>(s, es, xs, w). card (unmarked (si_gc s)) + card (- es) + card (- xs), \<lambda>(s, es, xs, w). length w]"
    by (auto simp: set_gc_def)
qed (auto simp: card_Compl_insert)

section \<open>Collection\<close>

definition collect :: "(u32 \<times> ref_kind) list \<Rightarrow> (store_inner, unit) action" where
  "collect stack_roots s = (if \<not> gh_collecting (si_gc s) then (Inr (), s)
     else let work = rev (concat (map (\<lambda>(h, k). seed_handle h k) stack_roots) @ entity_roots s) in
       case trace_reachable s {} {} work of
         (Inl e, t) \<Rightarrow> (Inl e, set_gc (clear_marks (si_gc t)) t)
       | (Inr (extern_seen, exn_seen), t) \<Rightarrow>
           (let (freed1, externs) = ra_sweep extern_seen extern_byte_size (si_externrefs t);
                (freed2, exns) = ra_sweep exn_seen exn_byte_size (si_exns t)
            in (Inr (), t\<lparr>si_externrefs := externs, si_exns := exns,
                  si_gc := gc_sweep (gc_credit freed2 (gc_credit freed1 (si_gc t)))\<rparr>)))"

section \<open>Reachability\<close>

text \<open>The object graph: the referents one referent holds, and what can be reached from roots.\<close>

definition kids :: "store_inner \<Rightarrow> reached \<Rightarrow> reached list result" where
  "kids s r = (case r of RGc i \<Rightarrow> trace_gc s i | RExtern i \<Rightarrow> trace_extern s i | RExn i \<Rightarrow> trace_exn s i)"

inductive_set reachable :: "store_inner \<Rightarrow> reached set \<Rightarrow> reached set" for s R where
  root: "r \<in> R \<Longrightarrow> r \<in> reachable s R"
| kid: "r \<in> reachable s R \<Longrightarrow> kids s r = Inr ps \<Longrightarrow> q \<in> set ps \<Longrightarrow> q \<in> reachable s R"

text \<open>Marking does not change the graph.\<close>

definition remark :: "u64 list \<Rightarrow> store_inner \<Rightarrow> store_inner" where
  "remark m s = set_gc ((si_gc s)\<lparr>gh_marks := m\<rparr>) s"

lemma remark_simps [simp]:
  "si_gc (remark m s) = (si_gc s)\<lparr>gh_marks := m\<rparr>" "si_engine (remark m s) = si_engine s"
  "si_externrefs (remark m s) = si_externrefs s" "si_exns (remark m s) = si_exns s"
  "remark m (remark n s) = remark m s"
  by (simp_all add: remark_def set_gc_def)

lemma gc_get_remark [simp]: "gc_get (h\<lparr>gh_marks := m\<rparr>) i = gc_get h i"
  by (simp add: gc_get_def)

lemma kids_remark [simp]: "kids (remark m s) r = kids s r"
  by (cases r) (simp_all only: kids_def trace_gc_def trace_extern_def trace_exn_def remark_simps gc_get_remark reached.case)

lemma reachable_remark [simp]: "reachable (remark m s) R = reachable s R"
proof (intro set_eqI iffI)
  fix x show "x \<in> reachable (remark m s) R \<Longrightarrow> x \<in> reachable s R"
    by (induction rule: reachable.induct) (auto intro: reachable.intros)
  show "x \<in> reachable s R \<Longrightarrow> x \<in> reachable (remark m s) R"
    by (induction rule: reachable.induct) (auto intro: reachable.intros)
qed

lemma set_gc_mark: "set_gc (snd (gc_mark i (si_gc s))) s = remark (gh_marks (snd (gc_mark i (si_gc s)))) s"
  unfolding remark_def by (subst gc_mark_spec(3)) (rule refl)

definition visited :: "store_inner \<Rightarrow> u32 set \<Rightarrow> u32 set \<Rightarrow> reached set" where
  "visited s es xs = {RGc i | i. is_marked (gh_marks (si_gc s)) (unat i)} \<union> RExtern ` es \<union> RExn ` xs"

lemma visited_mark:
  "slot_live (gh_slots (si_gc s)) (unat i) \<Longrightarrow>
     visited (remark (gh_marks (snd (gc_mark i (si_gc s)))) s) es xs = insert (RGc i) (visited s es xs)"
  by (auto simp: visited_def gc_mark_spec(2))

lemma visited_insert:
  "visited s (insert i es) xs = insert (RExtern i) (visited s es xs)"
  "visited s es (insert i xs) = insert (RExn i) (visited s es xs)"
  by (auto simp: visited_def)

text \<open>The invariant of the trace: what was visited or waits is reachable, the roots are among them, and
  everything visited has its referents among them.\<close>

definition tracing :: "store_inner \<Rightarrow> reached set \<Rightarrow> reached set \<Rightarrow> reached set \<Rightarrow> bool" where
  "tracing s R V W \<longleftrightarrow> V \<union> W \<subseteq> reachable s R \<and> R \<subseteq> V \<union> W \<and>
     (\<forall>v \<in> V. \<exists>ps. kids s v = Inr ps \<and> set ps \<subseteq> V \<union> W)"

lemma tracing_remark [simp]: "tracing (remark m s) R V W \<longleftrightarrow> tracing s R V W"
  by (simp add: tracing_def)

lemma tracing_skip: "tracing s R V (insert r W) \<Longrightarrow> r \<in> V \<Longrightarrow> tracing s R V W"
  by (auto simp: tracing_def insert_absorb)

lemma tracing_visit:
  assumes tr: "tracing s R V (insert r W)" and k: "kids s r = Inr ps"
  shows "tracing s R (insert r V) (set ps \<union> W)"
proof -
  have "r \<in> reachable s R" using tr by (simp add: tracing_def)
  then have "set ps \<subseteq> reachable s R" using k by (auto intro: reachable.kid)
  moreover have "\<exists>qs. kids s v = Inr qs \<and> set qs \<subseteq> insert r V \<union> (set ps \<union> W)" if "v \<in> insert r V" for v
  proof (cases "v = r")
    case False
    with that tr obtain qs where "kids s v = Inr qs" "set qs \<subseteq> V \<union> insert r W" by (auto simp: tracing_def)
    then show ?thesis by auto
  qed (use k in auto)
  ultimately show ?thesis using tr by (auto simp: tracing_def)
qed

lemma tracing_done:
  assumes tr: "tracing s R V {}"
  shows "V = reachable s R \<and> (\<forall>v \<in> reachable s R. \<exists>ps. kids s v = Inr ps)"
proof -
  have "v \<in> V" if "v \<in> reachable s R" for v
    using that
  proof (induction rule: reachable.induct)
    case (kid r ps q)
    with tr obtain qs where "kids s r = Inr qs" "set qs \<subseteq> V" by (auto simp: tracing_def)
    with kid show ?case by auto
  qed (use tr in \<open>auto simp: tracing_def\<close>)
  with tr show ?thesis by (fastforce simp: tracing_def)
qed

definition trace_post :: "store_inner \<Rightarrow> reached set \<Rightarrow> (u32 set \<times> u32 set) result \<Rightarrow> store_inner \<Rightarrow> bool" where
  "trace_post s R r t \<longleftrightarrow> (\<exists>m. t = remark m s) \<and> (case r of
     Inr (es, xs) \<Rightarrow> visited t es xs = reachable s R \<and> (\<forall>v \<in> reachable s R. \<exists>ps. kids s v = Inr ps)
   | Inl _ \<Rightarrow> (\<exists>v \<in> reachable s R. \<exists>e. kids s v = Inl e))"

lemma trace_post_remark: "trace_post (remark m s) R r t \<Longrightarrow> trace_post s R r t"
  by (auto simp: trace_post_def split: sum.splits)

lemma remark_self: "remark (gh_marks (si_gc s)) s = s"
  by (simp add: remark_def set_gc_def)

lemma trace_post_fail: "tracing s R V (insert r W) \<Longrightarrow> kids s r = Inl e \<Longrightarrow> trace_post s R (Inl e') (remark m s)"
  by (auto simp: trace_post_def tracing_def)

lemma trace_reachable_post:
  "tracing s R (visited s es xs) (set work) \<Longrightarrow> trace_reachable s es xs work = (r, t) \<Longrightarrow> trace_post s R r t"
proof (induction s es xs work arbitrary: r t rule: trace_reachable.induct)
  case (1 s es xs)
  have "\<exists>m. s = remark m s" by (rule exI [of _ "gh_marks (si_gc s)"]) (simp only: remark_self)
  with 1(1) have "trace_post s R (Inr (es, xs)) s"
    using tracing_done [of s R "visited s es xs"] unfolding trace_post_def by simp
  with 1(2) show ?case by simp
next
  case (2 s es xs i work)
  let ?m = "gh_marks (snd (gc_mark i (si_gc s)))"
  show ?case
  proof (cases "gc_get (si_gc s) i = None")
    case True
    then have "kids s (RGc i) = Inl (Internal (GcMetadata ''marked GC object is missing''))"
      by (simp add: kids_def trace_gc_def)
    from trace_post_fail [OF _ this, of R "visited s es xs" "set work" _ "gh_marks (si_gc s)"] 2(3,4) True
    show ?thesis by (auto simp: remark_self)
  next
    case live: False
    then have slot: "slot_live (gh_slots (si_gc s)) (unat i)"
      by (auto simp: gc_get_def slot_live_def get_at_def split: if_splits)
    let ?t = "remark ?m s"
    obtain fresh h where gm: "gc_mark i (si_gc s) = (fresh, h)" by fastforce
    have t: "set_gc h s = ?t" using set_gc_mark [of i s] gm by simp
    have V: "visited ?t es xs = insert (RGc i) (visited s es xs)" by (rule visited_mark [OF slot])
    show ?thesis
    proof (cases fresh)
      case True
      show ?thesis
      proof (cases "trace_gc ?t i")
        case (Inl e)
        have "kids s (RGc i) = Inl e" using Inl kids_remark [of ?m s "RGc i"] by (simp add: kids_def)
        from trace_post_fail [OF _ this, of R "visited s es xs" "set work" e ?m] 2(3)
        have "trace_post s R (Inl e) ?t" by simp
        with 2(4) Inl live gm t True show ?thesis by simp
      next
        case (Inr ps)
        have k: "kids s (RGc i) = Inr ps" using Inr kids_remark [of ?m s "RGc i"] by (simp add: kids_def)
        have "trace_reachable ?t es xs (rev ps @ work) = (r, t)"
          using 2(4) live gm t True Inr by simp
        moreover have "tracing ?t R (visited ?t es xs) (set (rev ps @ work))"
          using tracing_visit [OF _ k] 2(3) V by simp
        ultimately have "trace_post ?t R r t"
          using 2(1) [OF live refl gm [symmetric] t [symmetric] True] Inr by simp
        then show ?thesis by (rule trace_post_remark)
      qed
    next
      case False
      then have "RGc i \<in> visited s es xs" using slot gm gc_mark_spec(1) [of i "si_gc s"] by (auto simp: visited_def)
      then have "visited ?t es xs = visited s es xs" "tracing s R (visited s es xs) (set work)"
        using 2(3) V tracing_skip [of s R "visited s es xs" "RGc i" "set work"] by (simp_all add: insert_absorb)
      then have "tracing ?t R (visited ?t es xs) (set work)" by simp
      moreover have "trace_reachable ?t es xs work = (r, t)" using 2(4) live gm t False by simp
      ultimately have "trace_post ?t R r t"
        using 2(2) [OF live refl gm [symmetric] t [symmetric] False] by simp
      then show ?thesis by (rule trace_post_remark)
    qed
  qed
next
  case (3 s es xs i work)
  show ?case
  proof (cases "i \<in> es")
    case True
    then have "RExtern i \<in> visited s es xs" by (simp add: visited_def)
    with 3(3) have "tracing s R (visited s es xs) (set work)" using tracing_skip by auto
    with 3(1) [OF True] 3(4) True show ?thesis by simp
  next
    case new: False
    show ?thesis
    proof (cases "trace_extern s i")
      case (Inl e)
      then have "kids s (RExtern i) = Inl e" by (simp add: kids_def)
      from trace_post_fail [OF _ this, of R "visited s es xs" "set work" e "gh_marks (si_gc s)"] 3(3,4) new Inl
      show ?thesis by (simp add: remark_self)
    next
      case (Inr ps)
      then have "kids s (RExtern i) = Inr ps" by (simp add: kids_def)
      from tracing_visit [OF _ this] 3(3) have "tracing s R (visited s (insert i es) xs) (set (rev ps @ work))"
        by (simp add: visited_insert)
      with 3(2) [OF new Inr] 3(4) new Inr show ?thesis by simp
    qed
  qed
next
  case (4 s es xs i work)
  show ?case
  proof (cases "i \<in> xs")
    case True
    then have "RExn i \<in> visited s es xs" by (simp add: visited_def)
    with 4(3) have "tracing s R (visited s es xs) (set work)" using tracing_skip by auto
    with 4(1) [OF True] 4(4) True show ?thesis by simp
  next
    case new: False
    show ?thesis
    proof (cases "trace_exn s i")
      case (Inl e)
      then have "kids s (RExn i) = Inl e" by (simp add: kids_def)
      from trace_post_fail [OF _ this, of R "visited s es xs" "set work" e "gh_marks (si_gc s)"] 4(3,4) new Inl
      show ?thesis by (simp add: remark_self)
    next
      case (Inr ps)
      then have "kids s (RExn i) = Inr ps" by (simp add: kids_def)
      from tracing_visit [OF _ this] 4(3) have "tracing s R (visited s es (insert i xs)) (set (rev ps @ work))"
        by (simp add: visited_insert)
      with 4(2) [OF new Inr] 4(4) new Inr show ?thesis by simp
    qed
  qed
qed

section \<open>What a collection does\<close>

definition stack_seeds :: "(u32 \<times> ref_kind) list \<Rightarrow> reached list" where
  "stack_seeds roots = concat (map (\<lambda>(h, k). seed_handle h k) roots)"

definition gc_reach :: "store_inner \<Rightarrow> (u32 \<times> ref_kind) list \<Rightarrow> reached set" where
  "gc_reach s roots = reachable s (set (stack_seeds roots) \<union> set (entity_roots s))"

definition gc_store_ok :: "store_inner \<Rightarrow> bool" where
  "gc_store_ok s \<longleftrightarrow> heap_ok (si_gc s) \<and> gh_marks (si_gc s) = [] \<and> ra_ok (si_externrefs s) \<and> ra_ok (si_exns s) \<and>
     gh_used (si_gc s) = live_bytes (gh_slots (si_gc s)) + arena_bytes extern_byte_size (ra_slots (si_externrefs s))
       + arena_bytes exn_byte_size (ra_slots (si_exns s))"

lemma trace_from_roots:
  assumes "gh_marks (si_gc s) = []" and "trace_reachable s {} {} (rev (stack_seeds roots @ entity_roots s)) = (r, t)"
  shows "trace_post s (set (stack_seeds roots) \<union> set (entity_roots s)) r t"
proof (rule trace_reachable_post [OF _ assms(2)])
  have "visited s {} {} = {}" using assms(1) by (simp add: visited_def is_marked_iff)
  then show "tracing s (set (stack_seeds roots) \<union> set (entity_roots s)) (visited s {} {}) (set (rev (stack_seeds roots @ entity_roots s)))"
    by (auto simp: tracing_def intro: reachable.root)
qed

lemma collect_failed:
  assumes ok: "gc_store_ok s" and run: "collect roots s = (Inl e, t)"
  shows "t = s \<and> (\<exists>v \<in> gc_reach s roots. \<exists>e. kids s v = Inl e)"
proof -
  from run obtain t' where tr: "trace_reachable s {} {} (rev (stack_seeds roots @ entity_roots s)) = (Inl e, t')"
    and t: "t = set_gc (clear_marks (si_gc t')) t'"
    by (auto simp: collect_def stack_seeds_def Let_def split: if_splits prod.splits sum.splits)
  have marks: "gh_marks (si_gc s) = []" using ok by (simp add: gc_store_ok_def)
  from trace_from_roots [OF marks tr] obtain m where m: "t' = remark m s" "\<exists>v \<in> gc_reach s roots. \<exists>e. kids s v = Inl e"
    by (auto simp: trace_post_def gc_reach_def)
  have "t = s" using marks by (simp add: t m(1) clear_marks_def set_gc_def remark_def)
  with m(2) show ?thesis by simp
qed

text \<open>The sweep after a trace, as one state.\<close>

definition swept_store :: "u64 list \<Rightarrow> u32 set \<Rightarrow> u32 set \<Rightarrow> store_inner \<Rightarrow> store_inner" where
  "swept_store m es xs s =
     s\<lparr>si_externrefs := snd (ra_sweep es extern_byte_size (si_externrefs s)),
       si_exns := snd (ra_sweep xs exn_byte_size (si_exns s)),
       si_gc := gc_sweep (gc_credit (fst (ra_sweep xs exn_byte_size (si_exns s)))
         (gc_credit (fst (ra_sweep es extern_byte_size (si_externrefs s))) ((si_gc s)\<lparr>gh_marks := m\<rparr>)))\<rparr>"

lemma collect_done:
  assumes marks: "gh_marks (si_gc s) = []" and on: "gh_collecting (si_gc s)" and run: "collect roots s = (Inr (), t)"
  obtains m es xs where "t = swept_store m es xs s"
    "\<And>i. is_marked m (unat i) \<longleftrightarrow> RGc i \<in> gc_reach s roots" "es = {i. RExtern i \<in> gc_reach s roots}"
    "xs = {i. RExn i \<in> gc_reach s roots}" "\<forall>v \<in> gc_reach s roots. \<exists>ps. kids s v = Inr ps"
proof -
  obtain q t' where tr: "trace_reachable s {} {} (rev (stack_seeds roots @ entity_roots s)) = (q, t')" by fastforce
  with run on obtain es xs where q: "q = Inr (es, xs)"
    by (cases q) (auto simp: collect_def stack_seeds_def Let_def)
  from trace_from_roots [OF marks tr] obtain m where m: "t' = remark m s" "visited t' es xs = gc_reach s roots"
    "\<forall>v \<in> gc_reach s roots. \<exists>ps. kids s v = Inr ps"
    by (auto simp: trace_post_def gc_reach_def q)
  have "t = swept_store m es xs s"
    using run on tr unfolding q m(1) by (simp add: collect_def stack_seeds_def Let_def swept_store_def remark_def set_gc_def split_beta)
  moreover have "is_marked m (unat i) \<longleftrightarrow> RGc i \<in> gc_reach s roots" for i
    using m(1) unfolding m(2) [symmetric] by (auto simp: visited_def)
  moreover have "es = {i. RExtern i \<in> gc_reach s roots}" "xs = {i. RExn i \<in> gc_reach s roots}"
    unfolding m(2) [symmetric] by (auto simp: visited_def)
  ultimately show thesis using m(3) by (rule that)
qed

lemma heap_ok_frame: "heap_ok (gc_credit n h) = heap_ok h" "heap_ok (h\<lparr>gh_marks := m\<rparr>) = heap_ok h"
  by (simp_all add: heap_ok_def gc_credit_def)

lemma gc_get_credit [simp]: "gc_get (gc_credit n h) i = gc_get h i" "gh_marks (gc_credit n h) = gh_marks h"
  "gh_slots (gc_credit n h) = gh_slots h" "gh_used (gc_credit n h) = gh_used h - n"
  "gc_generation (gc_credit n h) i = gc_generation h i"
  by (simp_all add: gc_credit_def gc_get_def gc_generation_def)

lemma gc_store_ok_swept:
  assumes ok: "gc_store_ok s"
  shows "gc_store_ok (swept_store m es xs s)"
proof -
  define h where "h = gc_credit (fst (ra_sweep xs exn_byte_size (si_exns s)))
      (gc_credit (fst (ra_sweep es extern_byte_size (si_externrefs s))) ((si_gc s)\<lparr>gh_marks := m\<rparr>))"
  have hok: "heap_ok h" using ok by (simp add: h_def heap_ok_frame gc_store_ok_def)
  have len: "length (ra_generations (si_externrefs s)) = length (ra_slots (si_externrefs s))"
    "length (ra_generations (si_exns s)) = length (ra_slots (si_exns s))"
    using ok by (simp_all add: gc_store_ok_def ra_ok_def arena_ok_def)
  have "gh_used h = live_bytes (gh_slots h) +
      (arena_bytes extern_byte_size (ra_slots (snd (ra_sweep es extern_byte_size (si_externrefs s))))
       + arena_bytes exn_byte_size (ra_slots (snd (ra_sweep xs exn_byte_size (si_exns s)))))"
    using ok ra_sweep_arena_bytes [OF len(1), of extern_byte_size es] ra_sweep_arena_bytes [OF len(2), of exn_byte_size xs]
    by (simp add: h_def gc_store_ok_def)
  from gc_sweep_used [OF this] heap_ok_sweep [OF hok] ok show ?thesis
    by (simp add: gc_store_ok_def swept_store_def h_def [symmetric] ra_ok_sweep) (simp add: gc_sweep_def)
qed

section \<open>Allocation keeps the store consistent\<close>

text \<open>Every arena entry is charged at least \<open>ARENA_ENTRY_OVERHEAD\<close> bytes, so a budget below
  \<open>2 ^ 37\<close> bytes keeps the indices below the null handle.\<close>

definition small_budget :: "store_inner \<Rightarrow> bool" where
  "small_budget s \<longleftrightarrow> unreserved_ceiling (si_gc s) < 2 ^ 37"

lemma arena_bytes_full:
  assumes "ra_ok a" and "ra_free a = []" and "\<And>e. ARENA_ENTRY_OVERHEAD \<le> b e"
  shows "ARENA_ENTRY_OVERHEAD * length (ra_slots a) \<le> arena_bytes b (ra_slots a)"
proof -
  have full: "x \<noteq> None" if "x \<in> set (ra_slots a)" for x
  proof -
    from that obtain i where i: "i < length (ra_slots a)" "x = ra_slots a ! i" by (auto simp: in_set_conv_nth)
    have "i < 2 ^ 32" using i(1) assms(1) by (auto simp: ra_ok_def arena_ok_def)
    then have "unat (of_nat i :: u32) = i" by (simp add: unat_of_nat_u32)
    with i assms(1,2) show ?thesis unfolding ra_ok_def arena_ok_def by (metis empty_iff empty_set)
  qed
  have "ARENA_ENTRY_OVERHEAD * length ss \<le> arena_bytes b ss" if "\<forall>x \<in> set ss. x \<noteq> None" for ss
    using that
  proof (induction ss)
    case (Cons x ss)
    then obtain e where "x = Some e" by auto
    with Cons assms(3) [of e] show ?case by (simp add: arena_bytes_def)
  qed (simp add: arena_bytes_def)
  with full show ?thesis by blast
qed

lemma exn_byte_size_ge: "ARENA_ENTRY_OVERHEAD \<le> exn_byte_size e"
  by (simp add: exn_byte_size_def exn_charge_def saturating_add_def ARENA_ENTRY_OVERHEAD_def)

lemma arena_room:
  assumes ok: "ra_ok a" and ge: "\<And>e. ARENA_ENTRY_OVERHEAD \<le> b e" and bytes: "arena_bytes b (ra_slots a) + ARENA_ENTRY_OVERHEAD \<le> n"
    and small: "n < 2 ^ 37"
  shows "ra_free a \<noteq> [] \<or> length (ra_slots a) < unat NULL_REF"
proof (cases "ra_free a = []")
  case True
  have "64 * length (ra_slots a) + 64 \<le> n"
    using arena_bytes_full [where b = b, OF ok True ge] bytes by (simp add: ARENA_ENTRY_OVERHEAD_def)
  with small have "64 * length (ra_slots a) + 64 < 137438953472" by simp
  then show ?thesis by (simp add: NULL_REF_def)
qed simp

lemma can_fit_limit_iff: "can_fit_limit h n \<longleftrightarrow> gh_used h + n \<le> usize_max \<and> gh_used h + n \<le> unreserved_ceiling h"
  by (auto simp: can_fit_limit_def split: option.split)

lemma ra_alloc_ok:
  assumes "ra_ok a" and "ra_free a \<noteq> [] \<or> length (ra_slots a) < unat NULL_REF"
  obtains i a' where "ra_alloc e a = (Inr i, a')" "ra_ok a'" "i < NULL_REF \<or> ra_free a \<noteq> []" "ra_get a i = None"
    "\<And>k. ra_get a' k = (if k = i then Some e else ra_get a k)" "arena_bytes b (ra_slots a') = arena_bytes b (ra_slots a) + b e"
proof -
  have n: "unat NULL_REF = 2147483647" by (simp add: NULL_REF_def)
  have room: "ra_free a \<noteq> [] \<or> length (ra_slots a) < 2 ^ 32" using assms(2) n by auto
  have ok: "arena_ok (ra_slots a) (ra_generations a) (ra_free a)" using assms(1) by (simp add: ra_ok_def)
  obtain i a' where run: "ra_alloc e a = (Inr i, a')" using ra.alloc_total [OF ok room] by blast
  have "i < NULL_REF" if "ra_free a = []"
    using ra.alloc_fresh [OF ok that room run] assms(2) that n by (simp add: word_less_nat_alt unat_of_nat_u32)
  moreover have "ra_get a i = None"
    using ra.alloc_index [OF ok room run] by (auto simp: ra_get_def slot_live_def get_at_def)
  moreover have "ra_get a' k = (if k = i then Some e else ra_get a k)" for k
    using ra.alloc_slots [OF ok room run, of "unat k"] by (simp add: ra_get_def)
  ultimately show thesis
    using that [OF run] ra.ok_alloc [OF ok room run] ra_alloc_arena_bytes [OF assms(1) room run] by (auto simp: ra_ok_def)
qed

lemma extern_room:
  assumes ok: "gc_store_ok s" and small: "small_budget s" and fit: "can_fit_limit (si_gc s) (extern_byte_size e)"
  shows "ra_free (si_externrefs s) \<noteq> [] \<or> length (ra_slots (si_externrefs s)) < unat NULL_REF"
  by (rule arena_room [of _ extern_byte_size "unreserved_ceiling (si_gc s)"])
    (use ok fit small in \<open>auto simp: gc_store_ok_def small_budget_def extern_byte_size_def can_fit_limit_iff\<close>)

lemma push_extern_ok:
  assumes ok: "gc_store_ok s" and small: "small_budget s" and run: "push_extern e s = (r, t)"
  shows "gc_store_ok t \<and> (case r of Inl _ \<Rightarrow> t = s | Inr i \<Rightarrow> ra_get (si_externrefs s) i = None \<and>
     (\<forall>k. ra_get (si_externrefs t) k = (if k = i then Some e else ra_get (si_externrefs s) k)) \<and>
     si_exns t = si_exns s \<and> gh_slots (si_gc t) = gh_slots (si_gc s))"
proof (cases "can_fit_limit (si_gc s) (extern_byte_size e)")
  case False
  with run ok show ?thesis by (auto simp: push_extern_def Let_def)
next
  case True
  then have fit: "gh_used (si_gc s) + extern_byte_size e \<le> usize_max"
    "gh_used (si_gc s) + extern_byte_size e \<le> unreserved_ceiling (si_gc s)" by (simp_all add: can_fit_limit_iff)
  have a: "ra_ok (si_externrefs s)" using ok by (simp add: gc_store_ok_def)
  from ra_alloc_ok [OF a extern_room [OF ok small True], of e extern_byte_size] obtain i a' where al: "ra_alloc e (si_externrefs s) = (Inr i, a')" "ra_ok a'"
    "ra_get (si_externrefs s) i = None" "\<And>k. ra_get a' k = (if k = i then Some e else ra_get (si_externrefs s) k)"
    "arena_bytes extern_byte_size (ra_slots a') = arena_bytes extern_byte_size (ra_slots (si_externrefs s)) + extern_byte_size e"
    by metis
  have t: "r = Inr i" "t = s\<lparr>si_gc := gc_charge (extern_byte_size e) (si_gc s), si_externrefs := a'\<rparr>"
    using run True al(1) by (simp_all add: push_extern_def Let_def)
  have "gc_store_ok t"
    using ok al(2,5) fit(1) by (simp add: t gc_store_ok_def gc_charge_def heap_ok_def saturating_add_def)
  with t al(3,4) show ?thesis by (simp add: gc_charge_def)
qed

lemma push_extern_error:
  assumes ok: "gc_store_ok s" and small: "small_budget s" and run: "push_extern e s = (Inl err, t)"
  shows "err = Trapped AllocationTooLarge"
proof (cases "can_fit_limit (si_gc s) (extern_byte_size e)")
  case True
  have "ra_ok (si_externrefs s)" using ok by (simp add: gc_store_ok_def)
  from ra_alloc_ok [OF this extern_room [OF ok small True], of e extern_byte_size] run True show ?thesis
    by (auto simp: push_extern_def Let_def split: prod.splits)
qed (use run in \<open>simp add: push_extern_def Let_def\<close>)

lemma alloc_exn_ok:
  assumes ok: "gc_store_ok s" and small: "small_budget s" and run: "alloc_exn e s = (r, t)"
  shows "gc_store_ok t \<and> (case r of Inl _ \<Rightarrow> t = s | Inr h \<Rightarrow> ra_get (si_exns s) (ro_index h) = None \<and>
     (\<forall>k. ra_get (si_exns t) k = (if k = ro_index h then Some e else ra_get (si_exns s) k)) \<and>
     si_externrefs t = si_externrefs s \<and> gh_slots (si_gc t) = gh_slots (si_gc s))"
proof (cases "can_fit_limit (si_gc s) (exn_byte_size e)")
  case False
  with run ok show ?thesis by (auto simp: alloc_exn_def Let_def)
next
  case True
  then have fit: "gh_used (si_gc s) + exn_byte_size e \<le> usize_max"
    "gh_used (si_gc s) + exn_byte_size e \<le> unreserved_ceiling (si_gc s)" by (simp_all add: can_fit_limit_iff)
  have a: "ra_ok (si_exns s)" using ok by (simp add: gc_store_ok_def)
  have "arena_bytes exn_byte_size (ra_slots (si_exns s)) + ARENA_ENTRY_OVERHEAD \<le> unreserved_ceiling (si_gc s)"
    using ok fit(2) exn_byte_size_ge [of e] unfolding gc_store_ok_def by linarith
  then have "ra_free (si_exns s) \<noteq> [] \<or> length (ra_slots (si_exns s)) < unat NULL_REF"
    by (rule arena_room [OF a exn_byte_size_ge]) (use small in \<open>simp add: small_budget_def\<close>)
  from ra_alloc_ok [OF a this, of e exn_byte_size] obtain i a' where al: "ra_alloc e (si_exns s) = (Inr i, a')" "ra_ok a'"
    "ra_get (si_exns s) i = None" "\<And>k. ra_get a' k = (if k = i then Some e else ra_get (si_exns s) k)"
    "arena_bytes exn_byte_size (ra_slots a') = arena_bytes exn_byte_size (ra_slots (si_exns s)) + exn_byte_size e"
    by metis
  have t: "r = Inr (rooted_from_raw i RkExn)" "t = s\<lparr>si_gc := gc_charge (exn_byte_size e) (si_gc s), si_exns := a'\<rparr>"
    using run True al(1) by (simp_all add: alloc_exn_def Let_def)
  have "gc_store_ok t"
    using ok al(2,5) fit(1) by (simp add: t gc_store_ok_def gc_charge_def heap_ok_def saturating_add_def)
  with t al(3,4) show ?thesis by (simp add: gc_charge_def rooted_from_raw_def)
qed

text \<open>Allocation in the heap, bounded by the ceiling.\<close>

lemma alloc_unreserved_ok:
  assumes ok: "gc_store_ok s" and run: "alloc_unreserved ob (si_gc s) = (r, h)"
  shows "gc_store_ok (s\<lparr>si_gc := h\<rparr>) \<and> (case r of Inl _ \<Rightarrow> h = si_gc s | Inr i \<Rightarrow> i < NULL_REF \<and> gc_get (si_gc s) i = None \<and>
     (\<forall>k. gc_get h k = (if k = i then Some ob else gc_get (si_gc s) k)))"
proof (cases "can_fit_limit (si_gc s) (object_byte_size ob)")
  case False
  with run ok show ?thesis by (auto simp: alloc_unreserved_def)
next
  case fits: True
  then have al: "gc_alloc ob (si_gc s) = (r, h)" using run by (simp add: alloc_unreserved_def)
  have hok: "heap_ok (si_gc s)" using ok by (simp add: gc_store_ok_def)
  show ?thesis
  proof (cases r)
    case (Inl e)
    have "\<not> (\<exists>i t. gc_alloc ob (si_gc s) = (Inr i, t))" using al Inl by auto
    then have "gh_free (si_gc s) = []" "unat NULL_REF \<le> length (gh_slots (si_gc s))"
      using gc.alloc_total [of "si_gc s" ob] hok unfolding heap_ok_def by (meson linorder_not_less)+
    then have "h = si_gc s" using al by (simp add: gc_alloc_def Let_def)
    with Inl ok show ?thesis by simp
  next
    case (Inr i)
    define other where "other = arena_bytes extern_byte_size (ra_slots (si_externrefs s)) + arena_bytes exn_byte_size (ra_slots (si_exns s))"
    have used: "gh_used (si_gc s) = live_bytes (gh_slots (si_gc s)) + other"
      using ok by (simp add: gc_store_ok_def other_def)
    have cap: "gh_used (si_gc s) + object_byte_size ob \<le> usize_max" using fits by (simp add: can_fit_limit_iff)
    have run': "gc_alloc ob (si_gc s) = (Inr i, h)" using al Inr by simp
    have a: "arena_ok (gh_slots (si_gc s)) (gh_generations (si_gc s)) (gh_free (si_gc s))" using hok by (simp add: heap_ok_def)
    have room: "gh_free (si_gc s) \<noteq> [] \<or> length (gh_slots (si_gc s)) < unat NULL_REF"
      using run' by (auto simp: gc_alloc_def Let_def split: list.splits if_splits)
    have "gc_get (si_gc s) i = None"
      using gc.alloc_index [OF a room run'] by (auto simp: gc_get_def slot_live_def get_at_def)
    moreover have "gc_get h k = (if k = i then Some ob else gc_get (si_gc s) k)" for k
      using gc.alloc_slots [OF a room run', of "unat k"] by (simp add: gc_get_def)
    moreover have "i < NULL_REF" using heap_ok_alloc(2) [OF hok run'] by (simp add: word_less_nat_alt)
    moreover have "gh_marks h = gh_marks (si_gc s)" using run' by (auto simp: gc_alloc_def Let_def split: list.splits if_splits)
    ultimately show ?thesis
      using Inr ok heap_ok_alloc(1) [OF hok run'] gc_alloc_used [OF hok used cap run']
      by (simp add: gc_store_ok_def other_def)
  qed
qed

section \<open>A small store for the witnesses\<close>

text \<open>Two host externrefs, each internalized as a wrapper object.\<close>

definition sample_store1 :: store_inner where
  "sample_store1 = snd (alloc_externref 8 (snd (alloc_externref 7 (store_new 1 sample_engine))))"

definition sample_store :: store_inner where
  "sample_store = snd (alloc_gc_unreserved (extern_wrapper 1) (snd (alloc_gc_unreserved (extern_wrapper 0) sample_store1)))"

lemma alloc_unreserved_error:
  assumes ok: "gc_store_ok s" and run: "alloc_unreserved ob (si_gc s) = (Inl err, h)"
  shows "err = Trapped AllocationTooLarge"
proof -
  have "arena_ok (gh_slots (si_gc s)) (gh_generations (si_gc s)) (gh_free (si_gc s))" using ok by (simp add: gc_store_ok_def heap_ok_def)
  then have "\<forall>f \<in> set (gh_free (si_gc s)). unat f < length (gh_slots (si_gc s))" by (auto simp: arena_ok_def)
  then show ?thesis using run
    by (auto simp: alloc_unreserved_def gc_alloc_def Let_def split: if_splits list.splits)
qed

lemma store_new_ok: "gc_store_ok (store_new sid e)"
  by (simp add: gc_store_ok_def store_new_def heap_ok_new) (simp add: gc_heap_new_def live_bytes_def arena_bytes_def ra_default_def)

lemma alloc_externref_ok: "gc_store_ok s \<Longrightarrow> small_budget s \<Longrightarrow> gc_store_ok (snd (alloc_externref p s))"
  unfolding alloc_externref_def using push_extern_ok [OF _ _ prod.collapse [symmetric]] by blast

lemma alloc_gc_unreserved_ok: "gc_store_ok s \<Longrightarrow> gc_store_ok (snd (alloc_gc_unreserved ob s))"
  unfolding alloc_gc_unreserved_def using alloc_unreserved_ok [OF _ prod.collapse [symmetric]] by (simp add: split_beta)

lemma sample_store_ok: "gc_store_ok sample_store"
proof -
  have "small_budget (store_new 1 sample_engine)" "small_budget (snd (alloc_externref 7 (store_new 1 sample_engine)))" by code_simp+
  then show ?thesis unfolding sample_store_def sample_store1_def
    by (intro alloc_gc_unreserved_ok alloc_externref_ok store_new_ok)
qed

text \<open>A part of the store that none of the three arenas reaches is the same after a collection.\<close>

lemma trace_view:
  assumes "\<And>s h. g (s\<lparr>si_gc := h\<rparr>) = g s"
  shows "g (snd (trace_reachable s es xs work)) = g s"
proof (induction s es xs work rule: trace_reachable.induct)
  case (2 s es xs i work)
  have set_gc: "g (set_gc h s) = g s" for h by (simp add: set_gc_def assms)
  obtain fresh h where m: "gc_mark i (si_gc s) = (fresh, h)" by fastforce
  show ?case
  proof (cases "gc_get (si_gc s) i = None")
    case False
    then show ?thesis using 2(1) [OF False m [symmetric] _ refl] 2(2) [OF False m [symmetric] _ refl] m
      by (cases fresh; cases "trace_gc (set_gc h s) i") (simp_all add: set_gc)
  qed simp
qed (simp_all split: sum.split)

lemma collect_view:
  assumes "\<And>s h x y. g (s\<lparr>si_gc := h, si_externrefs := x, si_exns := y\<rparr>) = g s"
  shows "g (snd (collect roots s)) = g s"
proof -
  have gc: "g (u\<lparr>si_gc := h\<rparr>) = g u" for u h using assms [where s = u and h = h and x = "si_externrefs u" and y = "si_exns u"] by simp
  let ?work = "rev (concat (map (\<lambda>(h, k). seed_handle h k) roots) @ entity_roots s)"
  obtain r t where t: "trace_reachable s {} {} ?work = (r, t)" by fastforce
  have g: "g t = g s" using trace_view [of g s "{}" "{}" ?work, OF gc] t by simp
  have arenas: "g (u\<lparr>si_externrefs := x, si_exns := y\<rparr>) = g u" for u x y
    using assms [where s = u and h = "si_gc u" and x = x and y = y] by simp
  show ?thesis using t g by (cases r) (auto simp: collect_def split_beta set_gc_def gc arenas)
qed

section \<open>Properties\<close>

text \<open>C15. The collector is exact. Starting from a store with consistent arenas and byte accounting, a
  collection keeps precisely the objects, externrefs and exceptions reachable from the given stack
  roots, the globals, tables, element segments, the pending exception and the host roots; they keep
  their contents and generations, everything else is freed and its generation moved on, nothing
  outside the three arenas changes, and consistency and accounting hold again. A collection that
  fails leaves the store as it was, and fails only if a reachable referent is missing or its
  metadata is damaged.\<close>

theorem collect_exact:
  assumes "gc_store_ok s" and "gh_collecting (si_gc s)" and "collect roots s = (r, t)"
  shows "case r of
     Inl _ \<Rightarrow> t = s \<and> (\<exists>v \<in> gc_reach s roots. \<exists>e. kids s v = Inl e)
   | Inr _ \<Rightarrow> (\<forall>v \<in> gc_reach s roots. \<exists>ps. kids s v = Inr ps) \<and>
      (\<forall>i. gc_get (si_gc t) i = (if RGc i \<in> gc_reach s roots then gc_get (si_gc s) i else None)) \<and>
      (\<forall>i. ra_get (si_externrefs t) i = (if RExtern i \<in> gc_reach s roots then ra_get (si_externrefs s) i else None)) \<and>
      (\<forall>i. ra_get (si_exns t) i = (if RExn i \<in> gc_reach s roots then ra_get (si_exns s) i else None)) \<and>
      (\<forall>i. gc_generation (si_gc t) i = map_option (\<lambda>g.
         if gc_get (si_gc s) i \<noteq> None \<and> RGc i \<notin> gc_reach s roots then bump_generation g else g) (gc_generation (si_gc s) i)) \<and>
      gc_store_ok t \<and> t = s\<lparr>si_gc := si_gc t, si_externrefs := si_externrefs t, si_exns := si_exns t\<rparr>"
proof (cases r)
  case (Inl e)
  with collect_failed [OF assms(1)] assms(3) show ?thesis by simp
next
  case (Inr u)
  with assms(3) have run: "collect roots s = (Inr (), t)" by simp
  have marks: "gh_marks (si_gc s) = []" using assms(1) by (simp add: gc_store_ok_def)
  from collect_done [OF marks assms(2) run] obtain m es xs where c: "t = swept_store m es xs s"
    "\<And>i. is_marked m (unat i) \<longleftrightarrow> RGc i \<in> gc_reach s roots" "es = {i. RExtern i \<in> gc_reach s roots}"
    "xs = {i. RExn i \<in> gc_reach s roots}" "\<forall>v \<in> gc_reach s roots. \<exists>ps. kids s v = Inr ps" by metis
  have a: "heap_ok (si_gc s)" "ra_ok (si_externrefs s)" "ra_ok (si_exns s)" using assms(1) by (simp_all add: gc_store_ok_def)
  have "gc_store_ok t" unfolding c(1) by (rule gc_store_ok_swept [OF assms(1)])
  moreover have "gc_get (si_gc t) i = (if RGc i \<in> gc_reach s roots then gc_get (si_gc s) i else None)" for i
    using a(1) by (simp add: c(1) swept_store_def gc_get_sweep heap_ok_frame c(2))
  moreover have "gc_generation (si_gc t) i = map_option (\<lambda>g.
      if gc_get (si_gc s) i \<noteq> None \<and> RGc i \<notin> gc_reach s roots then bump_generation g else g) (gc_generation (si_gc s) i)" for i
    using a(1) by (simp add: c(1) swept_store_def gc_generation_sweep heap_ok_frame c(2)) (simp add: gc_generation_def)
  moreover have "ra_get (si_externrefs t) i = (if RExtern i \<in> gc_reach s roots then ra_get (si_externrefs s) i else None)" for i
    using a(2) by (simp add: c(1) swept_store_def ra_get_sweep c(3))
  moreover have "ra_get (si_exns t) i = (if RExn i \<in> gc_reach s roots then ra_get (si_exns s) i else None)" for i
    using a(3) by (simp add: c(1) swept_store_def ra_get_sweep c(4))
  moreover have "t = s\<lparr>si_gc := si_gc t, si_externrefs := si_externrefs t, si_exns := si_exns t\<rparr>"
    by (simp add: c(1) swept_store_def)
  ultimately show ?thesis using Inr c(5) by auto
qed

theorem collect_exact_witness:
  "gc_get (si_gc (snd (collect [(0, RkAny)] sample_store))) 0 = Some (extern_wrapper 0) \<and>
   gc_get (si_gc (snd (collect [(0, RkAny)] sample_store))) 1 = None \<and>
   ra_get (si_externrefs (snd (collect [(0, RkAny)] sample_store))) 0 = Some (ExternHost 7)"
proof -
  let ?r = "collect [(0, RkAny)] sample_store"
  have h: "gh_collecting (si_gc sample_store)" "?r = (Inr (), snd ?r)"
    "gc_get (si_gc sample_store) 0 = Some (extern_wrapper 0)" "ra_get (si_externrefs sample_store) 0 = Some (ExternHost 7)"
    "trace_gc sample_store 0 = Inr [RExtern 0]" "trace_extern sample_store 0 = Inr []"
    "stack_seeds [(0, RkAny)] = [RGc 0]" "entity_roots sample_store = []" by code_simp+
  have k: "kids sample_store (RGc 0) = Inr [RExtern 0]" "kids sample_store (RExtern 0) = Inr []"
    using h(5,6) by (simp_all add: kids_def)
  have only: "v \<in> {RGc 0, RExtern 0}" if "v \<in> gc_reach sample_store [(0, RkAny)]" for v
    using that unfolding gc_reach_def h(7,8) by (induction rule: reachable.induct) (auto simp: k)
  moreover have "RGc 0 \<in> gc_reach sample_store [(0, RkAny)]" unfolding gc_reach_def h(7,8) by (rule reachable.root) simp
  moreover from this have "RExtern 0 \<in> gc_reach sample_store [(0, RkAny)]"
    unfolding gc_reach_def using k(1) by (rule reachable.kid) simp
  ultimately have m: "RGc 0 \<in> gc_reach sample_store [(0, RkAny)]" "RExtern 0 \<in> gc_reach sample_store [(0, RkAny)]"
    "RGc 1 \<notin> gc_reach sample_store [(0, RkAny)]" using only [of "RGc 1"] by auto
  from collect_exact [OF sample_store_ok h(1,2)] m h(3,4) show ?thesis by simp
qed

text \<open>The bridge between \<^verbatim>\<open>anyref\<close> and \<^verbatim>\<open>externref\<close> loses nothing. Externalizing an \<^verbatim>\<open>i31\<close> or a
  live struct or array and internalizing the result gives the same reference; internalizing a host
  externref and externalizing the wrapper gives the same externref. Both directions keep the store
  consistent, and an allocation that is refused leaves it as it was.\<close>

theorem convert_round_trip:
  assumes "gc_store_ok s" and "small_budget s"
  shows "(\<forall>r v t. extern_convert_any (AnyRef (Some r)) s = (v, t) \<longrightarrow>
      (\<forall>i. decode_anyref_handle (ro_index r) = HandleSlot i \<longrightarrow> (\<exists>ob. gc_get (si_gc s) i = Some ob \<and> go_kind ob \<noteq> ObjExtern)) \<longrightarrow>
      gc_store_ok t \<and> (case v of Inl _ \<Rightarrow> t = s | Inr w \<Rightarrow> any_convert_extern w t = (Inr (anyref_value (ro_index r)), t))) \<and>
    (\<forall>r p v t. ra_get (si_externrefs s) (ro_index r) = Some (ExternHost p) \<longrightarrow> any_convert_extern (ExternRef (Some r)) s = (v, t) \<longrightarrow>
      gc_store_ok t \<and> (case v of Inl _ \<Rightarrow> t = s
        | Inr w \<Rightarrow> extern_convert_any w t = (Inr (ExternRef (Some (rooted_from_raw (ro_index r) RkExtern))), t)))"
proof (intro conjI allI impI)
  fix r v t
  assume run: "extern_convert_any (AnyRef (Some r)) s = (v, t)"
    and live: "\<forall>i. decode_anyref_handle (ro_index r) = HandleSlot i \<longrightarrow> (\<exists>ob. gc_get (si_gc s) i = Some ob \<and> go_kind ob \<noteq> ObjExtern)"
  obtain q u where pe: "push_extern (ExternInternal (ro_index r)) s = (q, u)" by fastforce
  have plain: "extern_index ob = None" if "go_kind ob \<noteq> ObjExtern" for ob
    using that by (cases "go_kind ob") (simp_all add: extern_index_def)
  have "(v, t) = (case q of Inl e \<Rightarrow> (Inl e, u) | Inr i \<Rightarrow> (Inr (ExternRef (Some (rooted_from_raw i RkExtern))), u))"
    using run live pe plain by (auto simp: extern_convert_any_def Let_def split: anyref_handle.splits sum.splits)
  with push_extern_ok [OF assms pe] show "gc_store_ok t" "case v of Inl _ \<Rightarrow> t = s
      | Inr w \<Rightarrow> any_convert_extern w t = (Inr (anyref_value (ro_index r)), t)"
    by (cases q; auto simp: any_convert_extern_def rooted_from_raw_def)+
next
  fix r p v t
  assume host: "ra_get (si_externrefs s) (ro_index r) = Some (ExternHost p)" and run: "any_convert_extern (ExternRef (Some r)) s = (v, t)"
  obtain q h where al: "alloc_unreserved (extern_wrapper (ro_index r)) (si_gc s) = (q, h)" by fastforce
  have vt: "(v, t) = (case q of Inl e \<Rightarrow> (Inl e, s\<lparr>si_gc := h\<rparr>)
      | Inr slot \<Rightarrow> (Inr (anyref_value (anyref_handle_slot slot)), s\<lparr>si_gc := h\<rparr>))"
    using run host al by (auto simp: any_convert_extern_def split: sum.splits)
  note aok = alloc_unreserved_ok [OF assms(1) al]
  from vt aok show "gc_store_ok t" by (auto split: sum.splits)
  have idx: "extern_index (extern_wrapper e) = Some e" for e
    by (simp add: extern_index_def extern_wrapper_def get_range_def)
  show "case v of Inl _ \<Rightarrow> t = s
      | Inr w \<Rightarrow> extern_convert_any w t = (Inr (ExternRef (Some (rooted_from_raw (ro_index r) RkExtern))), t)"
  proof (cases q)
    case (Inr slot)
    with aok have "slot < NULL_REF" and ob: "gc_get h slot = Some (extern_wrapper (ro_index r))" by auto
    then have "decode_anyref_handle (anyref_handle_slot slot) = HandleSlot slot"
      by (simp add: decode_anyref_handle_slot slot_not_tagged)
    with vt Inr idx ob show ?thesis
      by (simp add: extern_convert_any_def anyref_value_def rooted_from_raw_def Let_def)
  qed (use vt aok in auto)
qed

theorem convert_round_trip_witness:
  "any_convert_extern (ExternRef (Some (rooted_from_raw 2 RkExtern))) (snd (extern_convert_any (anyref_value (anyref_handle_i31 5)) sample_store))
    = (Inr (anyref_value (anyref_handle_i31 5)), snd (extern_convert_any (anyref_value (anyref_handle_i31 5)) sample_store))"
proof -
  let ?v = "anyref_value (anyref_handle_i31 5)"
  have h: "extern_convert_any ?v sample_store = (Inr (ExternRef (Some (rooted_from_raw 2 RkExtern))), snd (extern_convert_any ?v sample_store))"
    "?v = AnyRef (Some (rooted_from_raw (anyref_handle_i31 5) RkAny))" "small_budget sample_store"
    "decode_anyref_handle (anyref_handle_i31 5) = HandleI31 5" by code_simp+
  let ?w = "ExternRef (Some (rooted_from_raw 2 RkExtern))" and ?t = "snd (extern_convert_any ?v sample_store)"
  have slots: "\<forall>i. decode_anyref_handle (ro_index (rooted_from_raw (anyref_handle_i31 5) RkAny)) = HandleSlot i \<longrightarrow>
      (\<exists>ob. gc_get (si_gc sample_store) i = Some ob \<and> go_kind ob \<noteq> ObjExtern)"
    using h(4) by (simp add: rooted_from_raw_def)
  from convert_round_trip [OF sample_store_ok h(3), THEN conjunct1, THEN spec, THEN spec, THEN spec,
      THEN mp, OF h(1) [unfolded h(2)], THEN mp, OF slots, THEN conjunct2]
  have "any_convert_extern ?w ?t = (Inr (anyref_value (ro_index (rooted_from_raw (anyref_handle_i31 5) RkAny))), ?t)"
    unfolding h(2) by (simp only: sum.case)
  then show ?thesis by (simp add: rooted_from_raw_def)
qed

end
