(* ===== verification/Machine.thy ===== *)
theory Machine
  imports Store_Managed
begin

text \<open>
  The state the instruction handlers run on: an execution and the store, as the source passes
  \<^verbatim>\<open>&mut self\<close> (the \<^verbatim>\<open>Execution\<close>) and \<^verbatim>\<open>&mut StoreInner\<close> to each of them. The operations of
  \<^verbatim>\<open>Exec_Stack\<close> and \<^verbatim>\<open>Exec_Frames\<close> act on it unchanged, because the record extends theirs.
\<close>

record machine = execution +
  ma_inner :: store_inner

definition inner_of :: "(store_inner \<Rightarrow> 'a result) \<Rightarrow> (machine, 'a) action" where
  "inner_of q = ask (\<lambda>m. q (ma_inner m))"

definition on_inner :: "(store_inner, 'a) action \<Rightarrow> (machine, 'a) action" where
  "on_inner f m = (case f (ma_inner m) of (r, s) \<Rightarrow> (r, m\<lparr>ma_inner := s\<rparr>))"

definition upd_inner :: "(store_inner \<Rightarrow> store_inner) \<Rightarrow> (machine, unit) action" where
  "upd_inner f = putc (\<lambda>m. m\<lparr>ma_inner := f (ma_inner m)\<rparr>)"

text \<open>\<^verbatim>\<open>Ok(end)\<close> when the range fits, the given error otherwise (\<^verbatim>\<open>checked_range\<close> of the memory and
  table handlers).\<close>

definition checked_range :: "error \<Rightarrow> nat \<Rightarrow> nat \<Rightarrow> nat \<Rightarrow> nat result" where
  "checked_range oob start len n = (case checked_add u64_max start len of
     None \<Rightarrow> Inl oob | Some e \<Rightarrow> (if e \<le> n then Inr e else Inl oob))"

text \<open>A handle of the executing instance's index space.\<close>

definition inst_handle :: "(instance_entity \<Rightarrow> 'h list) \<Rightarrow> entity_handle \<Rightarrow> nat \<Rightarrow> store_inner \<Rightarrow> 'h result" where
  "inst_handle space inst idx s = bindr (instance_at inst s) (\<lambda>i. index_at (space i) idx)"

lemma inner_of_apply [simp, monad_simps]: "inner_of q m = (q (ma_inner m), m)"
  by (simp add: inner_of_def ask_def)

lemma upd_inner_apply [simp, monad_simps]: "upd_inner f m = (Inr (), m\<lparr>ma_inner := f (ma_inner m)\<rparr>)"
  by (simp add: upd_inner_def)

lemma stack_ok_inner [simp]: "stack_ok (m\<lparr>ma_inner := s\<rparr>) \<longleftrightarrow> stack_ok m"
  by (simp add: stack_ok_def)

lemma checked_range_Inr [simp]: "checked_range oob a n k = Inr e \<longleftrightarrow> a + n \<le> u64_max \<and> a + n \<le> k \<and> e = a + n"
  by (auto simp: checked_range_def split: option.splits)

lemma checked_range_Inl: "checked_range oob a n k = Inl e \<longleftrightarrow> \<not> (a + n \<le> u64_max \<and> a + n \<le> k) \<and> e = oob"
  by (auto simp: checked_range_def split: option.splits)

lemma entity_at_Inr:
  "entity_at arena h s = Inr e \<longleftrightarrow> check_handle (eh_store h) s = Inr () \<and> unat (eh_index h) < length (arena s) \<and>
     e = arena s ! unat (eh_index h)"
  by (auto simp: entity_at_def)

section \<open>Actions that leave the store alone, and actions that commit last\<close>

text \<open>\<open>quiet\<close>: no branch touches the store. \<open>commits\<close>: a failure leaves the store as it was, so every
  write comes after the last check.\<close>

named_theorems quiet_intros \<open>actions that leave the store alone\<close>
named_theorems commit_intros \<open>actions that write the store only after their last check\<close>

definition quiet :: "(machine, 'a) action \<Rightarrow> bool" where
  "quiet a \<longleftrightarrow> (\<forall>m. ma_inner (snd (a m)) = ma_inner m)"

definition commits :: "(machine, 'a) action \<Rightarrow> bool" where
  "commits a \<longleftrightarrow> (\<forall>m e m'. a m = (Inl e, m') \<longrightarrow> ma_inner m' = ma_inner m)"

lemma quietD: "quiet a \<Longrightarrow> a m = (r, m') \<Longrightarrow> ma_inner m' = ma_inner m"
  unfolding quiet_def by (metis snd_conv)

lemma quietI: "(\<And>m r m'. a m = (r, m') \<Longrightarrow> ma_inner m' = ma_inner m) \<Longrightarrow> quiet a"
  unfolding quiet_def by (metis prod.collapse)

lemma commitsD: "commits a \<Longrightarrow> a m = (Inl e, m') \<Longrightarrow> ma_inner m' = ma_inner m"
  unfolding commits_def by blast

lemma quiet_basic [quiet_intros]:
  "quiet (ret x)" "quiet (fail e)" "quiet (getc f)" "quiet (ask q)" "quiet (lift_res r)" "quiet (inner_of q')"
  by (simp_all add: quiet_def ask_def)

lemma quiet_lift_opt [quiet_intros]: "quiet (lift_opt e x)"
  by (cases x) (simp_all add: quiet_basic)

lemma quiet_bindc [quiet_intros]: "quiet a \<Longrightarrow> (\<And>x. quiet (f x)) \<Longrightarrow> quiet (bindc a f)"
proof (rule quietI)
  fix m r m'
  assume a: "quiet a" and f: "\<And>x. quiet (f x)" and run: "bindc a f m = (r, m')"
  obtain q m1 where q: "a m = (q, m1)" by fastforce
  show "ma_inner m' = ma_inner m"
    using run q quietD [OF a q] quietD [OF f] by (cases q) (auto simp: bindc_def)
qed

lemma quiet_if [quiet_intros]: "quiet a \<Longrightarrow> quiet b \<Longrightarrow> quiet (if p then a else b)"
  by simp

lemma quiet_truncate [quiet_intros]: "quiet (putc (truncate_to b))"
  by (simp add: quiet_def truncate_to_def)

lemma quiet_push_cells [quiet_intros]:
  "quiet (putc (\<lambda>m. m\<lparr>ex_shadow := f m\<rparr>))" "quiet (putc (\<lambda>m. m\<lparr>ex_values := g m\<rparr>))"
  "quiet (putc (\<lambda>m. m\<lparr>ex_shadow := f m, ex_values := g m\<rparr>))"
  by (simp_all add: quiet_def)

lemma quiet_pops [quiet_intros]:
  "quiet pop_scalar" "quiet pop_tagged" "quiet pop_cell" "quiet pop_i32" "quiet pop_i64" "quiet pop_f32_bits"
  "quiet pop_f64_bits" "quiet pop_i32_pair" "quiet (pop_index w)" "quiet (pop_ref k)" "quiet pop_tagged_ref"
  "quiet pop_anyref" "quiet (pop_val_for sl)" "quiet (pop_typed t)" "quiet pop_select" "quiet (pop_params ts)"
  unfolding stack_defs pop_i32_def pop_i64_def pop_f32_bits_def pop_f64_bits_def pop_index_def pop_ref_def pop_anyref_def
    pop_val_for_def pop_typed_def
  by (intro quiet_intros)+

lemma quiet_pushes [quiet_intros]:
  "quiet (push_cell c t)" "quiet (push_scalar bs)" "quiet (push_i32 v)" "quiet (push_i64 w)" "quiet (push_f32_bits v)"
  "quiet (push_f64_bits w)" "quiet (push_val x)" "quiet (push_index b n)"
  unfolding push_cell_def push_scalar_def push_i32_def push_i64_def push_f32_bits_def push_f64_bits_def push_val_def push_index_def
  by (intro quiet_intros)+

lemma commits_quiet: "quiet a \<Longrightarrow> commits a"
  unfolding quiet_def commits_def by (metis snd_conv)

lemma commits_upd [commit_intros]: "commits (upd_inner f)"
  by (simp add: commits_def)

lemma commits_bindc [commit_intros]: "quiet a \<Longrightarrow> (\<And>x. commits (f x)) \<Longrightarrow> commits (bindc a f)"
  unfolding commits_def
proof (intro allI impI)
  fix m e m'
  assume a: "quiet a" and f: "\<And>x. \<forall>m e m'. f x m = (Inl e, m') \<longrightarrow> ma_inner m' = ma_inner m"
    and run: "bindc a f m = (Inl e, m')"
  obtain q m1 where q: "a m = (q, m1)" by fastforce
  with run f have "m' = m1 \<or> ma_inner m' = ma_inner m1" by (cases q) auto
  with quietD [OF a q] show "ma_inner m' = ma_inner m" by auto
qed

lemma commits_if [commit_intros]: "commits a \<Longrightarrow> commits b \<Longrightarrow> commits (if p then a else b)"
  by simp

text \<open>What the store can be after an action that started with the store \<open>s\<close>, on every branch.\<close>

named_theorems ends_intros \<open>stores an action can end with\<close>

definition ends :: "store_inner \<Rightarrow> (store_inner \<Rightarrow> bool) \<Rightarrow> (machine, 'a) action \<Rightarrow> bool" where
  "ends s Q a \<longleftrightarrow> (\<forall>m r m'. ma_inner m = s \<longrightarrow> a m = (r, m') \<longrightarrow> Q (ma_inner m'))"

lemma endsD: "ends (ma_inner m) Q a \<Longrightarrow> a m = (r, m') \<Longrightarrow> Q (ma_inner m')"
  unfolding ends_def by blast

lemma ends_quiet: "quiet a \<Longrightarrow> Q s \<Longrightarrow> ends s Q a"
  unfolding ends_def using quietD by metis

lemma ends_bind_inner [ends_intros]:
  "Q s \<Longrightarrow> (\<And>x. q s = Inr x \<Longrightarrow> ends s Q (f x)) \<Longrightarrow> ends s Q (bindc (inner_of q) f)"
  unfolding ends_def by (auto simp: bindc_def split: sum.splits)

lemma ends_bind_res [ends_intros]:
  "Q s \<Longrightarrow> (\<And>x. q = Inr x \<Longrightarrow> ends s Q (f x)) \<Longrightarrow> ends s Q (bindc (lift_res q) f)"
  unfolding ends_def by (auto simp: bindc_def split: sum.splits)

lemma ends_bind_quiet:
  assumes "quiet a" and "Q s" and "\<And>x. ends s Q (f x)"
  shows "ends s Q (bindc a f)"
  unfolding ends_def
proof (intro allI impI)
  fix m r m'
  assume m: "ma_inner m = s" and run: "bindc a f m = (r, m')"
  obtain q m1 where q: "a m = (q, m1)" by fastforce
  with quietD [OF assms(1) q] m have "ma_inner m1 = s" by simp
  with run q assms(2,3) show "Q (ma_inner m')" by (cases q) (auto simp: bindc_def ends_def)
qed

lemma ends_upd [ends_intros]: "Q (g s) \<Longrightarrow> ends s Q (upd_inner g)"
  by (simp add: ends_def)

lemma ends_if [ends_intros]: "(p \<Longrightarrow> ends s Q a) \<Longrightarrow> (\<not> p \<Longrightarrow> ends s Q b) \<Longrightarrow> ends s Q (if p then a else b)"
  by simp

lemma ends_pops [ends_intros]:
  "Q s \<Longrightarrow> (\<And>x. ends s Q (f x)) \<Longrightarrow> ends s Q (bindc (pop_index w) f)"
  "Q s \<Longrightarrow> (\<And>x. ends s Q (g x)) \<Longrightarrow> ends s Q (bindc pop_i32 g)"
  "Q s \<Longrightarrow> (\<And>x. ends s Q (k x)) \<Longrightarrow> ends s Q (bindc (pop_ref rk) k)"
  by (rule ends_bind_quiet, intro quiet_intros; assumption)+

text \<open>The same with the result: \<open>Q\<close> is told whether the action failed.\<close>

named_theorems yields_intros \<open>what an action can do to the store, by outcome\<close>

definition yields :: "store_inner \<Rightarrow> (bool \<Rightarrow> store_inner \<Rightarrow> bool) \<Rightarrow> (machine, 'a) action \<Rightarrow> bool" where
  "yields s Q a \<longleftrightarrow> (\<forall>m r m'. ma_inner m = s \<longrightarrow> a m = (r, m') \<longrightarrow> Q (isl r) (ma_inner m'))"

lemma yieldsD: "yields (ma_inner m) Q a \<Longrightarrow> a m = (r, m') \<Longrightarrow> Q (isl r) (ma_inner m')"
  unfolding yields_def by blast

lemma yields_quiet: "quiet a \<Longrightarrow> Q True s \<Longrightarrow> Q False s \<Longrightarrow> yields s Q a"
  unfolding yields_def using quietD by (metis (full_types))

lemma yields_fail [yields_intros]: "Q True s \<Longrightarrow> yields s Q (fail e)"
  by (simp add: yields_def)

lemma yields_bind_inner [yields_intros]:
  "Q True s \<Longrightarrow> (\<And>x. q s = Inr x \<Longrightarrow> yields s Q (f x)) \<Longrightarrow> yields s Q (bindc (inner_of q) f)"
  unfolding yields_def by (auto simp: bindc_def split: sum.splits)

lemma yields_bind_res [yields_intros]:
  "Q True s \<Longrightarrow> (\<And>x. q = Inr x \<Longrightarrow> yields s Q (f x)) \<Longrightarrow> yields s Q (bindc (lift_res q) f)"
  unfolding yields_def by (auto simp: bindc_def split: sum.splits)

lemma yields_bind_quiet:
  assumes "quiet a" and "Q True s" and "\<And>x. yields s Q (f x)"
  shows "yields s Q (bindc a f)"
  unfolding yields_def
proof (intro allI impI)
  fix m r m'
  assume m: "ma_inner m = s" and run: "bindc a f m = (r, m')"
  obtain q m1 where q: "a m = (q, m1)" by fastforce
  with quietD [OF assms(1) q] m have "ma_inner m1 = s" by simp
  with run q assms(2,3) show "Q (isl r) (ma_inner m')" by (cases q) (auto simp: bindc_def yields_def)
qed

lemma yields_upd [yields_intros]: "Q False (g s) \<Longrightarrow> yields s Q (upd_inner g)"
  by (simp add: yields_def)

lemma yields_if [yields_intros]: "(p \<Longrightarrow> yields s Q a) \<Longrightarrow> (\<not> p \<Longrightarrow> yields s Q b) \<Longrightarrow> yields s Q (if p then a else b)"
  by simp

section \<open>Index operands\<close>

definition index_bound :: "bool \<Rightarrow> nat" where
  "index_bound w = (if w then 2 ^ 64 else 2 ^ 32)"

text \<open>An index pushed is the index popped.\<close>

lemma ensure_scalar_pushed:
  assumes "stack_ok m" and "ex_frames m \<noteq> []"
  shows "ensure_scalar_operands 1 (m\<lparr>ex_shadow := ex_shadow m @ [TagNone], ex_values := ex_values m @ [cl]\<rparr>) = Inr (length (ex_values m))"
  using assms by (auto simp: ensure_scalar_operands_Inr ensure_operands_Inr stack_ok_def chain_ok_last)

lemma pop_push_index:
  assumes "stack_ok m" and "ex_frames m \<noteq> []" and "a < index_bound w"
  shows "pop_index w (snd (push_index w a m)) = (Inr a, m)"
proof -
  have len: "length (ex_values m) = length (ex_shadow m)" using assms(1) by (simp add: stack_ok_def)
  define v where "v = (if w then I64 (of_nat a) else I32 (of_nat a))"
  define cl where "cl = (if w then from_i64 (of_nat a) else from_i32 (of_nat a))"
  have enc: "encode v = Inr cl" using encode_val_eq [of v] by (auto simp: v_def cl_def encode_val_def)
  have "of_val v = TagNone" by (simp add: v_def of_val_def)
  with push_val_Inr [OF enc, of m]
  have p: "snd (push_index w a m) = m\<lparr>ex_shadow := ex_shadow m @ [TagNone], ex_values := ex_values m @ [cl]\<rparr>"
    by (simp add: push_index_def v_def [symmetric])
  have "unat (cell_i64 cl) = a" if w using that assms(3) by (simp add: index_bound_def cl_def unat_of_nat)
  moreover have "unat (cell_i32 cl) = a" if "\<not> w" using that assms(3) by (simp add: index_bound_def cl_def unat_of_nat)
  ultimately show ?thesis
    unfolding p pop_index_def pop_scalar_def using ensure_scalar_pushed [OF assms(1,2), of cl] truncate_pushed [OF len]
    by (simp add: nth_append len)
qed

lemma inner_push_index [simp]: "ma_inner (snd (push_index w x (m :: machine))) = ma_inner m"
  using quiet_pushes(8) [of w x] unfolding quiet_def by (rule spec)

lemma stack_ok_push_index:
  assumes "stack_ok m" and "ex_frames m \<noteq> []"
  shows "stack_ok (snd (push_index w x m)) \<and> ex_frames (snd (push_index w x m)) \<noteq> []"
proof -
  define v where "v = (if w then I64 (of_nat x) else I32 (of_nat x))"
  have "encode v = Inr (if w then from_i64 (of_nat x) else from_i32 (of_nat x))"
    using encode_val_eq [of v] by (auto simp: v_def encode_val_def)
  then obtain c where c: "encode v = Inr c" by blast
  from push_val_Inr [OF c, of m] show ?thesis
    using stack_ok_push [OF assms(1) length_encode [OF c]] assms(2) by (simp add: push_index_def v_def)
qed

section \<open>A small machine for the witnesses\<close>

text \<open>One instance with a 32-bit memory of four bytes and a table of three null references; the execution of \<^verbatim>\<open>Exec_Frames\<close> with the
  operands \<open>0\<close> and \<open>7\<close> pushed.\<close>

definition sample_memory :: memory_entity where
  "sample_memory = \<lparr>me_bytes = [1, 2, 3, 4], me_ty = \<lparr>mt_minimum = 0, mt_maximum = None, mt_memory64 = False\<rparr>\<rparr>"

definition sample_table :: table_entity where
  "sample_table = \<lparr>te_elems = [RefAny None, RefAny None, RefAny (Some (rooted_from_raw 5 RkAny))],
     te_ty = \<lparr>tt_element = \<lparr>rt_nullable = True, rt_heap = HtAny\<rparr>, tt_minimum = 0, tt_maximum = None, tt_table64 = False\<rparr>\<rparr>"

definition sample_inner :: store_inner where
  "sample_inner = (store_new 1 sample_engine)\<lparr>si_memories := [sample_memory], si_tables := [sample_table],
     si_instances := [\<lparr>ie_module = co_module sample_code, ie_funcs = [], ie_memories = [\<lparr>eh_index = 0, eh_store = 1\<rparr>],
       ie_globals = [], ie_tables = [\<lparr>eh_index = 0, eh_store = 1\<rparr>], ie_tags = [], ie_dropped_data = [], ie_elems = []\<rparr>]\<rparr>"

definition machine_of :: "execution \<Rightarrow> store_inner \<Rightarrow> machine" where
  "machine_of e s = \<lparr>ex_values = ex_values e, ex_shadow = ex_shadow e, ex_frames = ex_frames e,
     ex_host_reentry_depth = ex_host_reentry_depth e, ma_inner = s\<rparr>"

definition base_machine :: machine where
  "base_machine = machine_of sample_exec sample_inner"

definition sample_machine :: machine where
  "sample_machine = snd (push_i32 7 (snd (push_i32 0 base_machine)))"

lemma stack_ok_base: "stack_ok base_machine"
  by code_simp

end
