(* ===== verification/Exec_Memory.thy ===== *)
theory Exec_Memory
  imports Machine
begin

text \<open>
  The memory instructions, \<^verbatim>\<open>src/exec/memory.rs\<close>: bounds-checked loads and stores of every width, the
  bulk operations and \<^verbatim>\<open>data.drop\<close>. \<^verbatim>\<open>memory.grow\<close> is serviced by the run loop.
\<close>

abbreviation mem_oob :: error where
  "mem_oob \<equiv> Trapped MemoryOutOfBounds"

definition resolve_memarg :: "code \<Rightarrow> mem_arg \<Rightarrow> (nat \<times> nat) result" where
  "resolve_memarg c m = (if ma_offset m = BIG_MEMARG
     then bindr (index_at (code_big_memargs c) (ma_memory m)) (\<lambda>big. Inr (bma_memory big, bma_offset big))
     else Inr (ma_memory m, ma_offset m))"

definition mem :: "entity_handle \<Rightarrow> nat \<Rightarrow> store_inner \<Rightarrow> entity_handle result" where
  "mem inst idx s = inst_handle ie_memories inst idx s"

definition mem_ea :: "nat \<Rightarrow> memory_entity \<Rightarrow> nat \<Rightarrow> (machine, nat) action" where
  "mem_ea n entity offset =
     bindc (pop_index (mt_memory64 (me_ty entity))) (\<lambda>addr.
     bindc (lift_opt mem_oob (checked_add u64_max addr offset)) (\<lambda>ea.
     bindc (lift_opt mem_oob (checked_add u64_max ea n)) (\<lambda>e.
     if length (me_bytes entity) < e then fail mem_oob else ret ea)))"

definition load_n :: "nat \<Rightarrow> code \<Rightarrow> entity_handle \<Rightarrow> mem_arg \<Rightarrow> (machine, u8 list) action" where
  "load_n n c inst m =
     bindc (lift_res (resolve_memarg c m)) (\<lambda>(memory, offset).
     bindc (inner_of (mem inst memory)) (\<lambda>h.
     bindc (inner_of (memory_at h)) (\<lambda>entity.
     bindc (mem_ea n entity offset) (\<lambda>ea.
     lift_res (slice_range (me_bytes entity) ea (ea + n))))))"

definition store_n :: "code \<Rightarrow> entity_handle \<Rightarrow> mem_arg \<Rightarrow> u8 list \<Rightarrow> (machine, unit) action" where
  "store_n c inst m data =
     bindc (lift_res (resolve_memarg c m)) (\<lambda>(memory, offset).
     bindc (inner_of (mem inst memory)) (\<lambda>h.
     bindc (inner_of (memory_at h)) (\<lambda>entity.
     bindc (mem_ea (length data) entity offset) (\<lambda>ea.
     upd_inner (put_memory h (entity\<lparr>me_bytes := write_at (me_bytes entity) ea data\<rparr>))))))"

definition load_width :: "load_kind \<Rightarrow> nat" where
  "load_width k = (case k of
     LI32 \<Rightarrow> 4 | LI64 \<Rightarrow> 8 | LF32 \<Rightarrow> 4 | LF64 \<Rightarrow> 8 | LI32_8S \<Rightarrow> 1 | LI32_8U \<Rightarrow> 1 | LI32_16S \<Rightarrow> 2 | LI32_16U \<Rightarrow> 2
   | LI64_8S \<Rightarrow> 1 | LI64_8U \<Rightarrow> 1 | LI64_16S \<Rightarrow> 2 | LI64_16U \<Rightarrow> 2 | LI64_32S \<Rightarrow> 4 | LI64_32U \<Rightarrow> 4)"

definition push_loaded :: "load_kind \<Rightarrow> u8 list \<Rightarrow> (machine, unit) action" where
  "push_loaded k b = (case k of
     LI32 \<Rightarrow> push_i32 (le_word b) | LI64 \<Rightarrow> push_i64 (le_word b)
   | LF32 \<Rightarrow> push_f32_bits (le_word b) | LF64 \<Rightarrow> push_f64_bits (le_word b)
   | LI32_8S \<Rightarrow> push_i32 (scast (le_word b :: u8)) | LI32_8U \<Rightarrow> push_i32 (ucast (le_word b :: u8))
   | LI32_16S \<Rightarrow> push_i32 (scast (le_word b :: u16)) | LI32_16U \<Rightarrow> push_i32 (ucast (le_word b :: u16))
   | LI64_8S \<Rightarrow> push_i64 (scast (le_word b :: u8)) | LI64_8U \<Rightarrow> push_i64 (ucast (le_word b :: u8))
   | LI64_16S \<Rightarrow> push_i64 (scast (le_word b :: u16)) | LI64_16U \<Rightarrow> push_i64 (ucast (le_word b :: u16))
   | LI64_32S \<Rightarrow> push_i64 (scast (le_word b :: u32)) | LI64_32U \<Rightarrow> push_i64 (ucast (le_word b :: u32)))"

definition pop_stored :: "store_kind \<Rightarrow> (machine, u8 list) action" where
  "pop_stored k = (case k of
     SI32 \<Rightarrow> bindc pop_i32 (\<lambda>v. ret (le_bytes 4 v))
   | SI64 \<Rightarrow> bindc pop_i64 (\<lambda>v. ret (le_bytes 8 v))
   | SF32 \<Rightarrow> bindc pop_f32_bits (\<lambda>v. ret (le_bytes 4 v))
   | SF64 \<Rightarrow> bindc pop_f64_bits (\<lambda>v. ret (le_bytes 8 v))
   | SI32_8 \<Rightarrow> bindc pop_i32 (\<lambda>v. ret [ucast v])
   | SI32_16 \<Rightarrow> bindc pop_i32 (\<lambda>v. ret (le_bytes 2 (ucast v :: u16)))
   | SI64_8 \<Rightarrow> bindc pop_i64 (\<lambda>v. ret [ucast v])
   | SI64_16 \<Rightarrow> bindc pop_i64 (\<lambda>v. ret (le_bytes 2 (ucast v :: u16)))
   | SI64_32 \<Rightarrow> bindc pop_i64 (\<lambda>v. ret (le_bytes 4 (ucast v :: u32))))"

definition memory_fill :: "entity_handle \<Rightarrow> nat \<Rightarrow> (machine, unit) action" where
  "memory_fill inst i =
     bindc (inner_of (mem inst i)) (\<lambda>h.
     bindc (inner_of (memory_at h)) (\<lambda>entity.
     bindc (pop_index (mt_memory64 (me_ty entity))) (\<lambda>len.
     bindc pop_i32 (\<lambda>v.
     bindc (pop_index (mt_memory64 (me_ty entity))) (\<lambda>dst.
     bindc (lift_res (checked_range mem_oob dst len (length (me_bytes entity)))) (\<lambda>e.
     upd_inner (put_memory h (entity\<lparr>me_bytes := write_at (me_bytes entity) dst (replicate (e - dst) (ucast v))\<rparr>))))))))"

definition memory_copy :: "entity_handle \<Rightarrow> nat \<Rightarrow> nat \<Rightarrow> (machine, unit) action" where
  "memory_copy inst dst_i src_i =
     bindc (inner_of (mem inst dst_i)) (\<lambda>dst_mem.
     bindc (inner_of (mem inst src_i)) (\<lambda>src_mem.
     bindc (inner_of (memory_at dst_mem)) (\<lambda>de.
     bindc (inner_of (memory_at src_mem)) (\<lambda>se.
     bindc (pop_index (mt_memory64 (me_ty de) \<and> mt_memory64 (me_ty se))) (\<lambda>len.
     bindc (pop_index (mt_memory64 (me_ty se))) (\<lambda>src.
     bindc (pop_index (mt_memory64 (me_ty de))) (\<lambda>dst.
     bindc (lift_res (checked_range mem_oob src len (length (me_bytes se)))) (\<lambda>_.
     bindc (lift_res (checked_range mem_oob dst len (length (me_bytes de)))) (\<lambda>_.
     if dst_i = src_i
     then upd_inner (put_memory dst_mem (de\<lparr>me_bytes := copy_within (me_bytes de) src (src + len) dst\<rparr>))
     else bindc (lift_res (slice_range (me_bytes se) src (src + len))) (\<lambda>chunk.
       upd_inner (put_memory dst_mem (de\<lparr>me_bytes := write_at (me_bytes de) dst chunk\<rparr>))))))))))))"

definition memory_init :: "entity_handle \<Rightarrow> nat \<Rightarrow> nat \<Rightarrow> (machine, unit) action" where
  "memory_init inst seg mem_i =
     bindc (inner_of (mem inst mem_i)) (\<lambda>h.
     bindc (inner_of (memory_at h)) (\<lambda>entity.
     bindc pop_i32 (\<lambda>len. bindc pop_i32 (\<lambda>src.
     bindc (pop_index (mt_memory64 (me_ty entity))) (\<lambda>dst.
     bindc (inner_of (instance_at inst)) (\<lambda>ie.
     bindc (lift_res (index_at (ie_dropped_data ie) seg)) (\<lambda>dropped.
     bindc (lift_res (index_at (map ds_bytes (mi_datas (ie_module ie))) seg)) (\<lambda>data.
     bindc (lift_res (checked_range mem_oob (unat src) (unat len) (if dropped then 0 else length data))) (\<lambda>src_end.
     bindc (lift_res (checked_range mem_oob dst (unat len) (length (me_bytes entity)))) (\<lambda>_.
     bindc (lift_res (slice_range data (unat src) src_end)) (\<lambda>chunk.
     upd_inner (put_memory h (entity\<lparr>me_bytes := write_at (me_bytes entity) dst chunk\<rparr>)))))))))))))"

definition data_drop :: "entity_handle \<Rightarrow> nat \<Rightarrow> (machine, unit) action" where
  "data_drop inst seg =
     bindc (inner_of (instance_at inst)) (\<lambda>ie.
     bindc (lift_res (index_at (ie_dropped_data ie) seg)) (\<lambda>_.
     upd_inner (put_instance inst (ie\<lparr>ie_dropped_data := (ie_dropped_data ie)[seg := True]\<rparr>))))"

definition exec_memory :: "code \<Rightarrow> mem_op \<Rightarrow> entity_handle \<Rightarrow> (machine, unit) action" where
  "exec_memory c mop inst = (case mop of
     DataDrop seg \<Rightarrow> data_drop inst seg
   | MLoad k m \<Rightarrow> bindc (load_n (load_width k) c inst m) (push_loaded k)
   | MStore k m \<Rightarrow> bindc (pop_stored k) (store_n c inst m)
   | MemorySize i \<Rightarrow>
       bindc (inner_of (mem inst i)) (\<lambda>h. bindc (inner_of (memory_at h)) (\<lambda>e.
       push_index (mt_memory64 (me_ty e)) (size_pages e)))
   | MemoryFill i \<Rightarrow> memory_fill inst i
   | MemoryCopy dst_i src_i \<Rightarrow> memory_copy inst dst_i src_i
   | MemoryInit seg i \<Rightarrow> memory_init inst seg i)"

section \<open>Where the handlers write\<close>

lemma mem_ea_Inr:
  "mem_ea n e off m = (Inr ea, m') \<longleftrightarrow> (\<exists>addr. pop_index (mt_memory64 (me_ty e)) m = (Inr addr, m') \<and> ea = addr + off \<and>
     ea + n \<le> u64_max \<and> ea + n \<le> length (me_bytes e))"
  (is "?run \<longleftrightarrow> ?spec")
proof
  show "?run \<Longrightarrow> ?spec"
    by (auto simp: mem_ea_def bindc_eq_Inr lift_opt_def checked_add_def split: option.splits if_splits)
  show "?spec \<Longrightarrow> ?run"
    by (auto simp: mem_ea_def checked_add_def)
qed

lemma quiet_mem [quiet_intros]:
  "quiet (mem_ea n e off)" "quiet (load_n n c inst ma)" "quiet (push_loaded k b)" "quiet (pop_stored sk)"
proof -
  show ea: "quiet (mem_ea n e off)" for n e off unfolding mem_ea_def by (intro quiet_intros)
  show "quiet (load_n n c inst ma)"
    unfolding load_n_def by (intro quiet_intros ea) (simp add: split_beta quiet_intros ea)
  show "quiet (push_loaded k b)" by (cases k) (simp_all add: push_loaded_def quiet_intros)
  show "quiet (pop_stored sk)" by (cases sk) (simp_all add: pop_stored_def quiet_intros)
qed

lemma commits_store_n [commit_intros]: "commits (store_n c inst ma data)"
  unfolding store_n_def by (intro commit_intros quiet_intros) (simp add: split_beta commit_intros quiet_intros)

lemma commits_exec_memory: "commits (exec_memory c mop inst)"
proof (cases mop)
  case (MLoad k m)
  then show ?thesis by (simp add: exec_memory_def commits_quiet quiet_intros)
next
  case (MemorySize i)
  then show ?thesis by (simp add: exec_memory_def commits_quiet quiet_intros)
qed (auto simp: exec_memory_def memory_init_def data_drop_def memory_copy_def memory_fill_def intro!: commit_intros quiet_intros)

text \<open>A write that stays within a memory and keeps its size.\<close>

definition same_shape :: "store_inner \<Rightarrow> store_inner \<Rightarrow> bool" where
  "same_shape s t \<longleftrightarrow> length (si_memories t) = length (si_memories s) \<and>
     (\<forall>k < length (si_memories s). length (me_bytes (si_memories t ! k)) = length (me_bytes (si_memories s ! k)) \<and>
        me_ty (si_memories t ! k) = me_ty (si_memories s ! k)) \<and>
     t = s\<lparr>si_memories := si_memories t, si_instances := si_instances t\<rparr>"

lemma same_shape_refl [simp]: "same_shape s s"
  by (simp add: same_shape_def)

lemma same_shape_put:
  assumes "memory_at h s = Inr e" and "length bs = length (me_bytes e)"
  shows "same_shape s (put_memory h (e\<lparr>me_bytes := bs\<rparr>) s)"
  using assms by (auto simp: same_shape_def put_memory_def entity_at_Inr nth_list_update)

lemma store_n_Inr:
  assumes "store_n c inst ma data m = (Inr (), m')"
  obtains memory off h e addr m1 where "resolve_memarg c ma = Inr (memory, off)" "mem inst memory (ma_inner m) = Inr h"
    "memory_at h (ma_inner m) = Inr e" "pop_index (mt_memory64 (me_ty e)) m = (Inr addr, m1)"
    "addr + off + length data \<le> u64_max" "addr + off + length data \<le> length (me_bytes e)"
    "m' = m1\<lparr>ma_inner := put_memory h (e\<lparr>me_bytes := write_at (me_bytes e) (addr + off) data\<rparr>) (ma_inner m)\<rparr>"
proof -
  from assms obtain memory off h e ea m1 where r: "resolve_memarg c ma = Inr (memory, off)" "mem inst memory (ma_inner m) = Inr h"
    "memory_at h (ma_inner m) = Inr e" "mem_ea (length data) e off m = (Inr ea, m1)"
    "m' = m1\<lparr>ma_inner := put_memory h (e\<lparr>me_bytes := write_at (me_bytes e) ea data\<rparr>) (ma_inner m1)\<rparr>"
    by (auto simp: store_n_def bindc_eq_Inr)
  from r(4) obtain addr where a: "pop_index (mt_memory64 (me_ty e)) m = (Inr addr, m1)" "ea = addr + off"
    "ea + length data \<le> u64_max" "ea + length data \<le> length (me_bytes e)" by (auto simp: mem_ea_Inr)
  have "ma_inner m1 = ma_inner m" using a(1) quietD quiet_pops(9) by blast
  with that r a show thesis by simp
qed

lemma exec_memory_shape:
  assumes "exec_memory c mop inst m = (r, m')"
  shows "same_shape (ma_inner m) (ma_inner m')"
proof -
  have st: "ends s (same_shape s) (store_n c inst ma data)" for s ma data
    unfolding ends_def
  proof (intro allI impI)
    fix m r m'
    assume s: "ma_inner m = s" and run: "store_n c inst ma data m = (r, m')"
    show "same_shape s (ma_inner m')"
    proof (cases r)
      case (Inl e)
      with run commits_store_n s show ?thesis by (metis commitsD same_shape_refl)
    next
      case (Inr u)
      with run have "store_n c inst ma data m = (Inr (), m')" by simp
      then show ?thesis by (rule store_n_Inr) (use s in \<open>auto intro: same_shape_put\<close>)
    qed
  qed
  have "ends s (same_shape s) (exec_memory c mop inst)" for s
  proof (cases mop)
    case (MLoad k ma)
    then show ?thesis by (simp add: exec_memory_def) (intro ends_quiet quiet_intros same_shape_refl)
  next
    case (MStore k ma)
    then show ?thesis by (simp add: exec_memory_def) (intro ends_bind_quiet quiet_intros same_shape_refl st)
  next
    case (MemorySize i)
    then show ?thesis by (simp add: exec_memory_def) (intro ends_quiet quiet_intros same_shape_refl)
  next
    case (MemoryInit seg i)
    then show ?thesis
      by (simp add: exec_memory_def memory_init_def)
        (intro ends_intros same_shape_refl same_shape_put; auto)
  next
    case (DataDrop seg)
    then show ?thesis
      by (simp add: exec_memory_def data_drop_def) (intro ends_intros same_shape_refl; simp add: same_shape_def put_instance_def)
  next
    case (MemoryCopy d sr)
    then show ?thesis
      by (simp add: exec_memory_def memory_copy_def) (intro ends_intros same_shape_refl same_shape_put; auto)
  next
    case (MemoryFill i)
    then show ?thesis
      by (simp add: exec_memory_def memory_fill_def) (intro ends_intros same_shape_refl same_shape_put; auto)
  qed
  from endsD [OF this assms] show ?thesis .
qed

text \<open>What was stored is loaded again, through the same or another instruction with the same
  effective address.\<close>

lemma load_n_eq:
  assumes "resolve_memarg c ma = Inr (memory, off)" and "mem inst memory (ma_inner m) = Inr h" and "memory_at h (ma_inner m) = Inr e"
    and "pop_index (mt_memory64 (me_ty e)) m = (Inr addr, m1)" and "addr + off + n \<le> u64_max"
  shows "load_n n c inst ma m = (if addr + off + n \<le> length (me_bytes e)
    then Inr (take n (drop (addr + off) (me_bytes e))) else Inl mem_oob, m1)"
  using assms by (simp add: load_n_def mem_ea_def checked_add_def slice_range_def get_range_def)

lemma mem_put_memory [simp]: "mem inst i (put_memory h e s) = mem inst i s"
  by (simp add: mem_def inst_handle_def entity_at_def put_memory_def check_handle_def)

lemma memory_at_put_memory: "memory_at h s = Inr e \<Longrightarrow> memory_at h (put_memory h e' s) = Inr e'"
  by (auto simp: entity_at_def put_memory_def check_handle_def)

section \<open>Properties\<close>



text \<open>Loads return what was stored. A store that succeeds at an address, followed by a load of the same
  width at that address, gives exactly the bytes stored; bytes outside the stored range, and every
  other memory, are as before.\<close>

theorem store_load_round_trip:
  assumes "stack_ok m" and "ex_frames m \<noteq> []" and "resolve_memarg c ma = Inr (memory, off)"
    and "mem inst memory (ma_inner m) = Inr h" and "memory_at h (ma_inner m) = Inr e"
    and "a < index_bound (mt_memory64 (me_ty e))"
    and "store_n c inst ma data (snd (push_index (mt_memory64 (me_ty e)) a m)) = (Inr (), m')"
  shows "load_n (length data) c inst ma (snd (push_index (mt_memory64 (me_ty e)) a m')) = (Inr data, m') \<and>
    (\<forall>k < length (me_bytes e). k < a + off \<or> a + off + length data \<le> k \<longrightarrow>
       me_bytes (si_memories (ma_inner m') ! unat (eh_index h)) ! k = me_bytes e ! k) \<and>
    (\<forall>j. j \<noteq> unat (eh_index h) \<longrightarrow> si_memories (ma_inner m') ! j = si_memories (ma_inner m) ! j)"
proof -
  let ?w = "mt_memory64 (me_ty e)" and ?b = "write_at (me_bytes e) (a + off) data"
  have pop: "pop_index ?w (snd (push_index ?w a m)) = (Inr a, m)" by (rule pop_push_index [OF assms(1,2,6)])
  from assms(7) have bound: "a + off + length data \<le> u64_max" "a + off + length data \<le> length (me_bytes e)"
    and m': "m' = m\<lparr>ma_inner := put_memory h (e\<lparr>me_bytes := ?b\<rparr>) (ma_inner m)\<rparr>"
    by (auto elim!: store_n_Inr simp: assms(3-5) pop)
  have ok': "stack_ok m'" "ex_frames m' \<noteq> []" using assms(1,2) by (simp_all add: m')
  let ?e' = "e\<lparr>me_bytes := ?b\<rparr>"
  have at: "memory_at h (ma_inner m') = Inr ?e'" using memory_at_put_memory [OF assms(5)] by (simp add: m')
  have "load_n (length data) c inst ma (snd (push_index ?w a m')) = (Inr data, m')"
    using load_n_eq [of c ma memory off inst "snd (push_index ?w a m')" h ?e' a m' "length data"]
      assms(3,4) at pop_push_index [OF ok', of a ?w] assms(6) bound by simp (simp add: m')
  moreover have "si_memories (ma_inner m') ! unat (eh_index h) = ?e'"
    using at by (simp add: entity_at_Inr)
  ultimately show ?thesis using bound by (auto simp: nth_write_at m' put_memory_def)
qed

theorem store_load_round_trip_witness:
  "fst (load_n 2 sample_code sample_instance \<lparr>ma_memory = 0, ma_offset = 1\<rparr>
     (snd (push_index False 1 (snd (store_n sample_code sample_instance \<lparr>ma_memory = 0, ma_offset = 1\<rparr> [8, 9] (snd (push_index False 1 base_machine))))))) = Inr [8, 9]"
proof -
  let ?ma = "\<lparr>ma_memory = 0, ma_offset = 1\<rparr>" and ?h = "\<lparr>eh_index = 0, eh_store = 1\<rparr> :: entity_handle"
  let ?r = "store_n sample_code sample_instance ?ma [8, 9] (snd (push_index (mt_memory64 (me_ty sample_memory)) 1 base_machine))"
  have h: "ex_frames base_machine \<noteq> []" "resolve_memarg sample_code ?ma = Inr (0, 1)"
    "mem sample_instance 0 (ma_inner base_machine) = Inr ?h" "memory_at ?h (ma_inner base_machine) = Inr sample_memory"
    "1 < index_bound (mt_memory64 (me_ty sample_memory))" "?r = (Inr (), snd ?r)"
    "mt_memory64 (me_ty sample_memory) = False" by code_simp+
  have l: "length [8, 9 :: u8] = 2" by simp
  from store_load_round_trip [OF stack_ok_base h(1-6), THEN conjunct1] show ?thesis unfolding h(7) l by (simp only: fst_conv)
qed

text \<open>C17. \<^verbatim>\<open>memory.copy\<close> moves bytes as if the whole source range were read before anything is written,
  for overlapping ranges and for two indices that name the same memory, and checks both ranges
  before it writes.\<close>

theorem memory_copy_exact:
  assumes "stack_ok m" and "ex_frames m \<noteq> []" and "mem inst di (ma_inner m) = Inr dh" and "mem inst si (ma_inner m) = Inr sh"
    and "memory_at dh (ma_inner m) = Inr de" and "memory_at sh (ma_inner m) = Inr se"
    and "d < index_bound (mt_memory64 (me_ty de))" and "a < index_bound (mt_memory64 (me_ty se))"
    and "n < index_bound (mt_memory64 (me_ty de) \<and> mt_memory64 (me_ty se))"
    and "length (me_bytes de) \<le> usize_max" and "length (me_bytes se) \<le> usize_max"
  shows "memory_copy inst di si (snd (push_index (mt_memory64 (me_ty de) \<and> mt_memory64 (me_ty se)) n
      (snd (push_index (mt_memory64 (me_ty se)) a (snd (push_index (mt_memory64 (me_ty de)) d m)))))) =
    (if a + n \<le> length (me_bytes se) \<and> d + n \<le> length (me_bytes de)
     then (Inr (), m\<lparr>ma_inner := put_memory dh (de\<lparr>me_bytes := write_at (me_bytes de) d (take n (drop a (me_bytes se)))\<rparr>) (ma_inner m)\<rparr>)
     else (Inl mem_oob, m))"
proof -
  let ?m1 = "snd (push_index (mt_memory64 (me_ty de)) d m)"
  let ?m2 = "snd (push_index (mt_memory64 (me_ty se)) a ?m1)"
  have ok1: "stack_ok ?m1" "ex_frames ?m1 \<noteq> []" using stack_ok_push_index [OF assms(1,2)] by auto
  have ok2: "stack_ok ?m2" "ex_frames ?m2 \<noteq> []" using stack_ok_push_index [OF ok1] by auto
  have bounds: "a + n \<le> length (me_bytes se) \<Longrightarrow> a + n \<le> u64_max" "d + n \<le> length (me_bytes de) \<Longrightarrow> d + n \<le> u64_max"
    using assms(10,11) by linarith+
  have same: "de = se" if "di = si" using that assms(3-6) by simp
  show ?thesis
    using pop_push_index [OF ok2, of n] pop_push_index [OF ok1, of a] pop_push_index [OF assms(1,2), of d] assms(3-9) bounds
    by (auto simp: memory_copy_def inner_push_index bindc_def checked_range_def checked_add_def slice_range_def get_range_def copy_within_def
        same index_bound_def split: sum.splits)
qed

theorem memory_copy_exact_witness:
  "map me_bytes (si_memories (ma_inner (snd (memory_copy sample_instance 0 0 (snd (push_index False 3 (snd (push_index False 0 (snd (push_index False 1 base_machine)))))))))) = [[1, 1, 2, 3]]"
proof -
  let ?h = "\<lparr>eh_index = 0, eh_store = 1\<rparr> :: entity_handle"
  have h: "ex_frames base_machine \<noteq> []" "mem sample_instance 0 (ma_inner base_machine) = Inr ?h" "mem sample_instance 0 (ma_inner base_machine) = Inr ?h"
    "memory_at ?h (ma_inner base_machine) = Inr sample_memory" "memory_at ?h (ma_inner base_machine) = Inr sample_memory"
    "1 < index_bound (mt_memory64 (me_ty sample_memory))" "0 < index_bound (mt_memory64 (me_ty sample_memory))"
    "3 < index_bound (mt_memory64 (me_ty sample_memory) \<and> mt_memory64 (me_ty sample_memory))"
    "length (me_bytes sample_memory) \<le> usize_max" "length (me_bytes sample_memory) \<le> usize_max" by code_simp+
  have w: "mt_memory64 (me_ty sample_memory) = False" "me_bytes sample_memory = [1, 2, 3, 4]" by code_simp+
  from memory_copy_exact [OF stack_ok_base h] show ?thesis
    by (simp add: w write_at_def put_memory_def base_machine_def machine_of_def sample_inner_def numeral_eq_Suc)
qed

end
