(* ===== verification/Exec_Table.thy ===== *)
theory Exec_Table
  imports Machine
begin

text \<open>
  The table instructions, \<^verbatim>\<open>src/exec/table.rs\<close>: \<^verbatim>\<open>table.get/set/size/fill/init/copy\<close> and
  \<^verbatim>\<open>elem.drop\<close>. \<^verbatim>\<open>table.grow\<close> is serviced by the run loop.
\<close>

abbreviation table_oob :: error where
  "table_oob \<equiv> Trapped TableOutOfBounds"

definition tab :: "entity_handle \<Rightarrow> nat \<Rightarrow> store_inner \<Rightarrow> entity_handle result" where
  "tab inst idx s = inst_handle ie_tables inst idx s"

definition table_kind :: "table_entity \<Rightarrow> ref_kind" where
  "table_kind t = refkind_of_heap (rt_heap (tt_element (te_ty t)))"

definition to_ref_res :: "val \<Rightarrow> (machine, ref_val) action" where
  "to_ref_res v = lift_res (to_ref v)"

definition table_get :: "entity_handle \<Rightarrow> nat \<Rightarrow> (machine, unit) action" where
  "table_get inst t =
     bindc (inner_of (tab inst t)) (\<lambda>h.
     bindc (inner_of (table_at h)) (\<lambda>te.
     bindc (pop_index (tt_table64 (te_ty te))) (\<lambda>idx.
     bindc (lift_opt table_oob (table_get_elem te idx)) (\<lambda>r.
     push_val (from_ref r)))))"

definition table_set :: "entity_handle \<Rightarrow> nat \<Rightarrow> (machine, unit) action" where
  "table_set inst t =
     bindc (inner_of (tab inst t)) (\<lambda>h.
     bindc (inner_of (table_at h)) (\<lambda>te.
     bindc (pop_ref (table_kind te)) (\<lambda>v.
     bindc (to_ref_res v) (\<lambda>r.
     bindc (pop_index (tt_table64 (te_ty te))) (\<lambda>idx.
     case table_set_elem idx r te of
       (True, te') \<Rightarrow> upd_inner (put_table h te')
     | (False, _) \<Rightarrow> fail table_oob)))))"

definition table_fill :: "entity_handle \<Rightarrow> nat \<Rightarrow> (machine, unit) action" where
  "table_fill inst t =
     bindc (inner_of (tab inst t)) (\<lambda>h.
     bindc (inner_of (table_at h)) (\<lambda>te.
     bindc (pop_index (tt_table64 (te_ty te))) (\<lambda>len.
     bindc (pop_ref (table_kind te)) (\<lambda>v.
     bindc (to_ref_res v) (\<lambda>r.
     bindc (pop_index (tt_table64 (te_ty te))) (\<lambda>dst.
     case table_fill_elems dst r len te of
       (True, te') \<Rightarrow> upd_inner (put_table h te')
     | (False, _) \<Rightarrow> fail table_oob))))))"

text \<open>The loop that writes a list of references from \<open>dst\<close> on; a write out of range is ignored, as the
  source ignores the result of \<^verbatim>\<open>set\<close>.\<close>

fun set_elems :: "nat \<Rightarrow> ref_val list \<Rightarrow> table_entity \<Rightarrow> table_entity" where
  "set_elems dst [] te = te"
| "set_elems dst (r # rs) te = set_elems (dst + 1) rs (snd (table_set_elem dst r te))"

text \<open>Each write goes through the handle again, so two handles of one table alias.\<close>

definition put_elems :: "entity_handle \<Rightarrow> nat \<Rightarrow> ref_val list \<Rightarrow> store_inner \<Rightarrow> store_inner" where
  "put_elems h dst rs s = put_table h (set_elems dst rs (si_tables s ! unat (eh_index h))) s"

definition table_init :: "entity_handle \<Rightarrow> nat \<Rightarrow> nat \<Rightarrow> (machine, unit) action" where
  "table_init inst elem t =
     bindc (inner_of (tab inst t)) (\<lambda>h.
     bindc pop_i32 (\<lambda>len. bindc pop_i32 (\<lambda>src.
     bindc (inner_of (table_at h)) (\<lambda>te.
     bindc (pop_index (tt_table64 (te_ty te))) (\<lambda>dst.
     bindc (inner_of (instance_at inst)) (\<lambda>ie.
     bindc (lift_res (index_at (ie_elems ie) elem)) (\<lambda>refs.
     bindc (lift_res (checked_range table_oob (unat src) (unat len) (length refs))) (\<lambda>src_end.
     bindc (lift_res (checked_range table_oob dst (unat len) (table_size te))) (\<lambda>_.
     bindc (lift_res (slice_range refs (unat src) src_end)) (\<lambda>rs.
     upd_inner (put_elems h dst rs)))))))))))"

definition table_copy :: "entity_handle \<Rightarrow> nat \<Rightarrow> nat \<Rightarrow> (machine, unit) action" where
  "table_copy inst dst_t src_t =
     bindc (inner_of (tab inst dst_t)) (\<lambda>dst_h.
     bindc (inner_of (tab inst src_t)) (\<lambda>src_h.
     bindc (inner_of (table_at dst_h)) (\<lambda>de.
     bindc (inner_of (table_at src_h)) (\<lambda>se.
     bindc (pop_index (tt_table64 (te_ty de) \<and> tt_table64 (te_ty se))) (\<lambda>len.
     bindc (pop_index (tt_table64 (te_ty se))) (\<lambda>src.
     bindc (pop_index (tt_table64 (te_ty de))) (\<lambda>dst.
     bindc (lift_res (checked_range table_oob src len (table_size se))) (\<lambda>src_end.
     bindc (lift_res (checked_range table_oob dst len (table_size de))) (\<lambda>_.
     bindc (lift_res (slice_range (te_elems se) src src_end)) (\<lambda>snapshot.
     upd_inner (put_elems dst_h dst snapshot)))))))))))"

definition elem_drop :: "entity_handle \<Rightarrow> nat \<Rightarrow> (machine, unit) action" where
  "elem_drop inst elem =
     bindc (inner_of (instance_at inst)) (\<lambda>ie.
     bindc (lift_res (index_at (ie_elems ie) elem)) (\<lambda>_.
     upd_inner (put_instance inst (ie\<lparr>ie_elems := (ie_elems ie)[elem := []]\<rparr>))))"

definition exec_table :: "table_op \<Rightarrow> entity_handle \<Rightarrow> (machine, unit) action" where
  "exec_table tp inst = (case tp of
     TableInit elem t \<Rightarrow> table_init inst elem t
   | TableCopy dst_t src_t \<Rightarrow> table_copy inst dst_t src_t
   | ElemDrop elem \<Rightarrow> elem_drop inst elem
   | TableGet t \<Rightarrow> table_get inst t
   | TableSet t \<Rightarrow> table_set inst t
   | TableSize t \<Rightarrow> bindc (inner_of (tab inst t)) (\<lambda>h. bindc (inner_of (table_at h)) (\<lambda>te.
       push_index (tt_table64 (te_ty te)) (table_size te)))
   | TableFill t \<Rightarrow> table_fill inst t)"

section \<open>Where the handlers write\<close>

lemma set_elems_eq:
  "dst + length rs \<le> length (te_elems te) \<Longrightarrow> set_elems dst rs te = te\<lparr>te_elems := write_at (te_elems te) dst rs\<rparr>"
proof (induction rs arbitrary: dst te)
  case (Cons r rs)
  have "write_at ((te_elems te)[dst := r]) (Suc dst) rs = write_at (te_elems te) dst (r # rs)"
    by (rule nth_equalityI) (use Cons.prems in \<open>auto simp: nth_write_at nth_list_update nth_Cons' not_less_eq_eq\<close>)
  with Cons show ?case by (simp add: table_set_elem_def)
qed (simp add: write_at_def)

lemma set_elems_keeps [simp]:
  "length (te_elems (set_elems dst rs te)) = length (te_elems te)" "te_ty (set_elems dst rs te) = te_ty te"
  by (induction dst rs te rule: set_elems.induct) (auto simp: table_set_elem_def)

lemma commits_exec_table: "commits (exec_table tp inst)"
proof -
  have a: "commits (case table_set_elem i r te of (True, te') \<Rightarrow> upd_inner (put_table h te') | (False, uu) \<Rightarrow> fail e)" for i r te h e
    by (auto simp: table_set_elem_def commits_upd commits_quiet quiet_intros)
  have b: "commits (case table_fill_elems d v n te of (True, te') \<Rightarrow> upd_inner (put_table h te') | (False, uu) \<Rightarrow> fail e)" for d v n te h e
    by (auto simp: table_fill_elems_def commits_upd commits_quiet quiet_intros split: option.splits)
  show ?thesis
  proof (cases tp)
    case (TableGet t)
    then show ?thesis by (simp add: exec_table_def table_get_def commits_quiet quiet_intros)
  next
    case (TableSize t)
    then show ?thesis by (simp add: exec_table_def commits_quiet quiet_intros)
  qed (auto simp: exec_table_def table_init_def table_copy_def elem_drop_def table_set_def table_fill_def to_ref_res_def
      intro!: commit_intros quiet_intros a b)
qed

definition same_tables :: "store_inner \<Rightarrow> store_inner \<Rightarrow> bool" where
  "same_tables s t \<longleftrightarrow> length (si_tables t) = length (si_tables s) \<and>
     (\<forall>k < length (si_tables s). length (te_elems (si_tables t ! k)) = length (te_elems (si_tables s ! k)) \<and>
        te_ty (si_tables t ! k) = te_ty (si_tables s ! k)) \<and>
     t = s\<lparr>si_tables := si_tables t, si_instances := si_instances t\<rparr>"

lemma same_tables_refl [simp]: "same_tables s s"
  by (simp add: same_tables_def)

lemma same_tables_put:
  assumes "table_at h s = Inr te" and "length (te_elems te') = length (te_elems te)" and "te_ty te' = te_ty te"
  shows "same_tables s (put_table h te' s)"
  using assms by (auto simp: same_tables_def put_table_def entity_at_Inr nth_list_update)

lemma same_tables_put_elems: "table_at h s = Inr te \<Longrightarrow> same_tables s (put_elems h dst rs s)"
  unfolding put_elems_def by (rule same_tables_put) (auto simp: entity_at_Inr)

lemma exec_table_shape:
  assumes "exec_table tp inst m = (r, m')"
  shows "same_tables (ma_inner m) (ma_inner m')"
proof -
  have a: "ends s (same_tables s) (case table_set_elem i r te of (True, te') \<Rightarrow> upd_inner (put_table h te') | (False, uu) \<Rightarrow> fail e)"
    if "table_at h s = Inr te" for i r te h e s
    using that by (auto simp: table_set_elem_def intro!: ends_upd same_tables_put ends_quiet quiet_intros)
  have fill: "length (te_elems (snd (table_fill_elems d v n te))) = length (te_elems te) \<and> te_ty (snd (table_fill_elems d v n te)) = te_ty te" for d v n te
  proof -
    have "length (fold (\<lambda>i es. es[i := v]) is es) = length es" for "is" es by (induction "is" arbitrary: es) auto
    then show ?thesis by (auto simp: table_fill_elems_def split: option.splits)
  qed
  have b: "ends s (same_tables s) (case table_fill_elems d v n te of (True, te') \<Rightarrow> upd_inner (put_table h te') | (False, uu) \<Rightarrow> fail e)"
    if "table_at h s = Inr te" for d v n te h e s
    using that fill [of d v n te]
    by (auto split: prod.splits bool.splits intro!: ends_upd same_tables_put ends_quiet quiet_intros)
  have "ends s (same_tables s) (exec_table tp inst)" for s
  proof (cases tp)
    case (TableGet t)
    then show ?thesis by (simp add: exec_table_def table_get_def) (intro ends_quiet quiet_intros same_tables_refl)
  next
    case (TableSize t)
    then show ?thesis by (simp add: exec_table_def) (intro ends_quiet quiet_intros same_tables_refl)
  next
    case (ElemDrop e)
    then show ?thesis
      by (simp add: exec_table_def elem_drop_def) (intro ends_intros same_tables_refl; simp add: same_tables_def put_instance_def)
  next
    case (TableSet t)
    then show ?thesis by (simp add: exec_table_def table_set_def to_ref_res_def) (intro ends_intros same_tables_refl a)
  next
    case (TableFill t)
    then show ?thesis by (simp add: exec_table_def table_fill_def to_ref_res_def) (intro ends_intros same_tables_refl b)
  next
    case (TableInit e t)
    then show ?thesis by (simp add: exec_table_def table_init_def) (intro ends_intros same_tables_refl same_tables_put_elems)
  next
    case (TableCopy d sr)
    then show ?thesis by (simp add: exec_table_def table_copy_def) (intro ends_intros same_tables_refl same_tables_put_elems)
  qed
  from endsD [OF this assms] show ?thesis .
qed

section \<open>Properties\<close>

text \<open>Sandboxing of tables. No table instruction changes anything of the store but the elements of
  its tables (and, for \<^verbatim>\<open>elem.drop\<close>, the instance's segments); no table changes its size or type,
  and an instruction that fails writes nothing.\<close>

theorem exec_table_confined:
  assumes "exec_table tp inst m = (r, m')"
  shows "(let s = ma_inner m; t = ma_inner m' in
     length (si_tables t) = length (si_tables s) \<and>
     (\<forall>k < length (si_tables s). length (te_elems (si_tables t ! k)) = length (te_elems (si_tables s ! k)) \<and>
        te_ty (si_tables t ! k) = te_ty (si_tables s ! k)) \<and>
     t = s\<lparr>si_tables := si_tables t, si_instances := si_instances t\<rparr> \<and>
     (\<forall>e. r = Inl e \<longrightarrow> t = s))"
proof -
  have "r = Inl e \<Longrightarrow> ma_inner m' = ma_inner m" for e
    using assms commits_exec_table commitsD by blast
  with exec_table_shape [OF assms] show ?thesis unfolding same_tables_def Let_def by blast
qed

theorem exec_table_confined_witness:
  "ma_inner (snd (exec_table (TableGet 0) sample_instance sample_machine)) = ma_inner sample_machine"
proof -
  let ?r = "exec_table (TableGet 0) sample_instance sample_machine"
  have h: "?r = (Inl table_oob, snd ?r)" by code_simp
  from exec_table_confined [OF h] show ?thesis by (simp add: Let_def)
qed

text \<open>\<^verbatim>\<open>table.copy\<close> moves references as if the whole source range were read before anything is
  written, for overlapping ranges and aliased tables, and checks both ranges before it writes.\<close>

theorem table_copy_exact:
  assumes "stack_ok m" and "ex_frames m \<noteq> []" and "tab inst di (ma_inner m) = Inr dh" and "tab inst si (ma_inner m) = Inr sh"
    and "table_at dh (ma_inner m) = Inr de" and "table_at sh (ma_inner m) = Inr se"
    and "d < index_bound (tt_table64 (te_ty de))" and "a < index_bound (tt_table64 (te_ty se))"
    and "n < index_bound (tt_table64 (te_ty de) \<and> tt_table64 (te_ty se))"
    and "length (te_elems de) \<le> usize_max" and "length (te_elems se) \<le> usize_max"
  shows "table_copy inst di si (snd (push_index (tt_table64 (te_ty de) \<and> tt_table64 (te_ty se)) n
      (snd (push_index (tt_table64 (te_ty se)) a (snd (push_index (tt_table64 (te_ty de)) d m)))))) =
    (if a + n \<le> table_size se \<and> d + n \<le> table_size de
     then (Inr (), m\<lparr>ma_inner := put_table dh (de\<lparr>te_elems := write_at (te_elems de) d (take n (drop a (te_elems se)))\<rparr>) (ma_inner m)\<rparr>)
     else (Inl table_oob, m))"
proof -
  let ?m1 = "snd (push_index (tt_table64 (te_ty de)) d m)"
  let ?m2 = "snd (push_index (tt_table64 (te_ty se)) a ?m1)"
  have ok1: "stack_ok ?m1" "ex_frames ?m1 \<noteq> []" using stack_ok_push_index [OF assms(1,2)] by auto
  have ok2: "stack_ok ?m2" "ex_frames ?m2 \<noteq> []" using stack_ok_push_index [OF ok1] by auto
  have bounds: "a + n \<le> table_size se \<Longrightarrow> a + n \<le> u64_max" "d + n \<le> table_size de \<Longrightarrow> d + n \<le> u64_max"
    using assms(10,11) unfolding table_size_def by linarith+
  have el: "put_elems dh d (take n (drop a (te_elems se))) (ma_inner m) =
      put_table dh (de\<lparr>te_elems := write_at (te_elems de) d (take n (drop a (te_elems se)))\<rparr>) (ma_inner m)"
    if "a + n \<le> table_size se" "d + n \<le> table_size de"
    using that assms(5) by (simp add: put_elems_def entity_at_Inr set_elems_eq table_size_def)
  show ?thesis
    using pop_push_index [OF ok2, of n] pop_push_index [OF ok1, of a] pop_push_index [OF assms(1,2), of d] assms(3-9) bounds el
    by (auto simp: table_copy_def bindc_def checked_range_def checked_add_def slice_range_def get_range_def table_size_def
        split: sum.splits)
qed

theorem table_copy_exact_witness:
  "map te_elems (si_tables (ma_inner (snd (table_copy sample_instance 0 0 (snd (push_index False 2 (snd (push_index False 1 (snd (push_index False 0 base_machine))))))))))
    = [[RefAny None, RefAny (Some (rooted_from_raw 5 RkAny)), RefAny (Some (rooted_from_raw 5 RkAny))]]"
proof -
  let ?h = "\<lparr>eh_index = 0, eh_store = 1\<rparr> :: entity_handle"
  have h: "ex_frames base_machine \<noteq> []" "tab sample_instance 0 (ma_inner base_machine) = Inr ?h" "tab sample_instance 0 (ma_inner base_machine) = Inr ?h"
    "table_at ?h (ma_inner base_machine) = Inr sample_table" "table_at ?h (ma_inner base_machine) = Inr sample_table"
    "0 < index_bound (tt_table64 (te_ty sample_table))" "1 < index_bound (tt_table64 (te_ty sample_table))"
    "2 < index_bound (tt_table64 (te_ty sample_table) \<and> tt_table64 (te_ty sample_table))"
    "length (te_elems sample_table) \<le> usize_max" "length (te_elems sample_table) \<le> usize_max" by code_simp+
  have w: "tt_table64 (te_ty sample_table) = False"
    "te_elems sample_table = [RefAny None, RefAny None, RefAny (Some (rooted_from_raw 5 RkAny))]" by code_simp+
  from table_copy_exact [OF stack_ok_base h] show ?thesis
    by (simp add: w write_at_def put_table_def base_machine_def machine_of_def sample_inner_def table_size_def numeral_eq_Suc)
qed

end
