(* ===== verification/Exec_Gc.thy ===== *)
theory Exec_Gc
  imports Gc_Collect Machine
begin

text \<open>
  The instructions on references and aggregates: \<^verbatim>\<open>src/exec/ref_.rs\<close>, \<^verbatim>\<open>src/exec/gc.rs\<close> (structs
  and \<^verbatim>\<open>i31\<close>) and \<^verbatim>\<open>src/exec/gc_array.rs\<close>. A body is written through the codec of
  \<^verbatim>\<open>Gc_Codec\<close>; the loops that fill a body work on the byte list and store it once, since nothing
  else can see the object in between.
\<close>

section \<open>Shared helpers\<close>

definition module_of :: "entity_handle \<Rightarrow> store_inner \<Rightarrow> module_inner result" where
  "module_of inst s = bindr (instance_at inst s) (\<lambda>i. Inr (ie_module i))"

definition mi_type_id :: "module_inner \<Rightarrow> nat \<Rightarrow> canonical_type_id result" where
  "mi_type_id m t = index_at (mi_type_ids m) t"

definition gc_object_at :: "string \<Rightarrow> u32 \<Rightarrow> store_inner \<Rightarrow> gc_object result" where
  "gc_object_at what i s = ok_or (Internal (GcMetadata what)) (gc_get (si_gc s) i)"

definition put_body :: "u32 \<Rightarrow> u8 list \<Rightarrow> store_inner \<Rightarrow> store_inner" where
  "put_body i d s = s\<lparr>si_gc := gc_update i (\<lambda>ob. ob\<lparr>go_data := d\<rparr>) (si_gc s)\<rparr>"

definition anyref_slot :: "val \<Rightarrow> trap \<Rightarrow> u32 result" where
  "anyref_slot r null_trap = (case r of
     AnyRef (Some ro) \<Rightarrow> (case decode_anyref_handle (ro_index ro) of
        HandleSlot i \<Rightarrow> Inr i | HandleI31 _ \<Rightarrow> Inl (operand_err ''aggregate operand is an i31''))
   | AnyRef None \<Rightarrow> Inl (Trapped null_trap)
   | _ \<Rightarrow> Inl (operand_err ''aggregate operand is not an anyref''))"

text \<open>Writing a list of values, each through its slot.\<close>

fun write_slots :: "(slot \<times> val) list \<Rightarrow> u8 list \<Rightarrow> u8 list result" where
  "write_slots [] d = Inr d"
| "write_slots ((sl, v) # rest) d = bindr (write_slot sl d v) (write_slots rest)"

section \<open>References\<close>

definition exec_ref :: "ref_op \<Rightarrow> entity_handle \<Rightarrow> (machine, unit) action" where
  "exec_ref op inst = (case op of
     RefNull heap \<Rightarrow> push_val (null_for_heap heap)
   | RefFuncOp f \<Rightarrow> bindc (inner_of (\<lambda>s. bindr (instance_at inst s) (\<lambda>i. index_at (ie_funcs i) f))) (\<lambda>h. push_val (FuncRef (Some h)))
   | RefIsNull \<Rightarrow> bindc pop_tagged_ref (\<lambda>(r, _). push_val (I32 (if cell_is_null r then 1 else 0)))
   | RefAsNonNull \<Rightarrow> bindc pop_tagged_ref (\<lambda>(r, tag).
       if cell_is_null r then fail (Trapped NullReference) else push_cell r tag))"

section \<open>Structs and i31\<close>

text \<open>The operands of \<^verbatim>\<open>struct.new\<close> lie in field order; the body is filled from the last field back.\<close>

fun pop_fields :: "slot list \<Rightarrow> u8 list \<Rightarrow> (machine, u8 list) action" where
  "pop_fields [] d = ret d"
| "pop_fields (sl # sls) d = bindc (pop_val_for sl) (\<lambda>v. bindc (lift_res (write_slot sl d v)) (pop_fields sls))"

definition struct_new :: "entity_handle \<Rightarrow> nat \<Rightarrow> bool \<Rightarrow> (machine, unit) action" where
  "struct_new inst ty dflt =
     bindc (inner_of (module_of inst)) (\<lambda>m.
     bindc (lift_res (mi_type_id m ty)) (\<lambda>tid.
     bindc (lift_res (mi_struct_layout m ty)) (\<lambda>l.
     bindc (let d = replicate (sl_size l) 0 in
       if dflt then lift_res (write_slots (map (\<lambda>sl. (sl, default_for_slot sl)) (sl_fields l)) d)
       else pop_fields (rev (sl_fields l)) d) (\<lambda>d.
     bindc (on_inner (alloc_gc (new_struct tid d))) (\<lambda>h.
     push_val (anyref_value (anyref_handle_slot h)))))))"

definition struct_get :: "entity_handle \<Rightarrow> nat \<Rightarrow> nat \<Rightarrow> bool option \<Rightarrow> (machine, unit) action" where
  "struct_get inst ty fld ext =
     bindc (inner_of (module_of inst)) (\<lambda>m.
     bindc (lift_res (mi_struct_field m ty fld)) (\<lambda>sl.
     bindc pop_anyref (\<lambda>r.
     bindc (lift_res (anyref_slot r NullStructReference)) (\<lambda>i.
     bindc (inner_of (gc_object_at ''struct operand refers to a missing object'' i)) (\<lambda>ob.
     bindc (lift_res (case ext of None \<Rightarrow> read_slot sl (go_data ob)
       | Some sg \<Rightarrow> bindr (read_slot_packed sl (go_data ob) sg) (\<lambda>x. Inr (I32 x)))) push_val)))))"

definition struct_set :: "entity_handle \<Rightarrow> nat \<Rightarrow> nat \<Rightarrow> (machine, unit) action" where
  "struct_set inst ty fld =
     bindc (inner_of (module_of inst)) (\<lambda>m.
     bindc (lift_res (mi_struct_field m ty fld)) (\<lambda>sl.
     bindc (pop_val_for sl) (\<lambda>v.
     bindc pop_anyref (\<lambda>r.
     bindc (lift_res (anyref_slot r NullStructReference)) (\<lambda>i.
     bindc (inner_of (gc_object_at ''struct operand refers to a missing object'' i)) (\<lambda>ob.
     bindc (lift_res (write_slot sl (go_data ob) v)) (\<lambda>d. upd_inner (put_body i d))))))))"

definition i31_get :: "bool \<Rightarrow> (machine, unit) action" where
  "i31_get sg = bindc pop_anyref (\<lambda>r.
     bindc (lift_res (case r of
         AnyRef (Some ro) \<Rightarrow> Inr (ro_index ro)
       | AnyRef None \<Rightarrow> Inl (Trapped NullI31Reference)
       | _ \<Rightarrow> Inl (operand_err ''i31.get operand is not an anyref''))) (\<lambda>h.
     bindc (lift_res (case decode_anyref_handle h of
         HandleI31 v \<Rightarrow> Inr (if sg then v else v AND 0x7FFFFFFF)
       | HandleSlot _ \<Rightarrow> Inl (operand_err ''i31.get operand is not an i31''))) (\<lambda>v. push_val (I32 v))))"

definition exec_gc :: "gc_op \<Rightarrow> entity_handle \<Rightarrow> (machine, unit) action" where
  "exec_gc op inst = (case op of
     StructNew ty \<Rightarrow> struct_new inst ty False
   | StructNewDefault ty \<Rightarrow> struct_new inst ty True
   | StructGet ty fld \<Rightarrow> struct_get inst ty fld None
   | StructGetS ty fld \<Rightarrow> struct_get inst ty fld (Some True)
   | StructGetU ty fld \<Rightarrow> struct_get inst ty fld (Some False)
   | StructSet ty fld \<Rightarrow> struct_set inst ty fld
   | RefI31 \<Rightarrow> bindc pop_i32 (\<lambda>v. push_val (anyref_value (anyref_handle_i31 v)))
   | I31GetS \<Rightarrow> i31_get True
   | I31GetU \<Rightarrow> i31_get False)"

section \<open>Arrays\<close>

definition elem_bytes :: "nat \<Rightarrow> nat \<Rightarrow> nat result" where
  "elem_bytes count width = ok_or (Trapped AllocationTooLarge) (checked_mul usize_max count width)"

definition arr_range :: "nat \<Rightarrow> nat \<Rightarrow> nat \<Rightarrow> trap \<Rightarrow> unit result" where
  "arr_range start len n t = (case checked_add usize_max start len of
     Some e \<Rightarrow> (if e \<le> n then Inr () else Inl (Trapped t)) | None \<Rightarrow> Inl (Trapped t))"

abbreviation array_at :: "u32 \<Rightarrow> store_inner \<Rightarrow> gc_object result" where
  "array_at \<equiv> gc_object_at ''array operand refers to a missing object''"

definition arr_len :: "u32 \<Rightarrow> nat \<Rightarrow> store_inner \<Rightarrow> nat result" where
  "arr_len i stride s = bindr (array_at i s) (\<lambda>ob. Inr (unat (array_len ob stride)))"

definition elem_slot :: "u32 \<Rightarrow> array_layout \<Rightarrow> nat \<Rightarrow> store_inner \<Rightarrow> slot result" where
  "elem_slot i l idx s = bindr (arr_len i (al_stride l) s) (\<lambda>n.
     if idx < n then Inr (elem_at l idx) else Inl (Trapped ArrayOutOfBounds))"

definition pop_count :: "(machine, nat) action" where
  "pop_count = bindc pop_i32 (\<lambda>v. ret (unat v))"

definition write_each :: "array_layout \<Rightarrow> nat \<Rightarrow> val \<Rightarrow> u8 list \<Rightarrow> u8 list result" where
  "write_each l count v = write_slots (map (\<lambda>i. (elem_at l i, v)) [0..<count])"

definition alloc_array :: "canonical_type_id \<Rightarrow> u8 list \<Rightarrow> (machine, unit) action" where
  "alloc_array tid d = bindc (on_inner (alloc_gc (new_array tid d))) (\<lambda>h. push_val (anyref_value (anyref_handle_slot h)))"

definition segment_refs :: "entity_handle \<Rightarrow> nat \<Rightarrow> store_inner \<Rightarrow> ref_val list result" where
  "segment_refs inst e s = bindr (instance_at inst s) (\<lambda>i. index_at (ie_elems i) e)"

text \<open>The bytes of a data segment and its length, zero once dropped.\<close>

definition segment_bytes :: "entity_handle \<Rightarrow> nat \<Rightarrow> module_inner \<Rightarrow> store_inner \<Rightarrow> (u8 list \<times> nat) result" where
  "segment_bytes inst d m s = bindr (instance_at inst s) (\<lambda>i.
     bindr (index_at (ie_dropped_data i) d) (\<lambda>dropped.
     bindr (index_at (mi_datas m) d) (\<lambda>seg. Inr (ds_bytes seg, if dropped then 0 else length (ds_bytes seg)))))"

definition array_new :: "entity_handle \<Rightarrow> nat \<Rightarrow> bool \<Rightarrow> (machine, unit) action" where
  "array_new inst ty dflt =
     bindc (inner_of (module_of inst)) (\<lambda>m.
     bindc (lift_res (mi_type_id m ty)) (\<lambda>tid.
     bindc (lift_res (mi_array_layout m ty)) (\<lambda>l.
     bindc pop_count (\<lambda>count.
     bindc (lift_res (elem_bytes count (al_stride l))) (\<lambda>n.
     bindc (if dflt then ret (default_for_slot (elem_at l 0)) else pop_val_for (elem_at l 0)) (\<lambda>v.
     bindc (lift_res (write_each l count v (replicate n 0))) (\<lambda>d. alloc_array tid d)))))))"

fun pop_elems :: "array_layout \<Rightarrow> nat list \<Rightarrow> u8 list \<Rightarrow> (machine, u8 list) action" where
  "pop_elems l [] d = ret d"
| "pop_elems l (i # is) d = bindc (pop_val_for (elem_at l i)) (\<lambda>v.
     bindc (lift_res (write_slot (elem_at l i) d v)) (pop_elems l is))"

definition array_new_fixed :: "entity_handle \<Rightarrow> nat \<Rightarrow> nat \<Rightarrow> (machine, unit) action" where
  "array_new_fixed inst ty n =
     bindc (inner_of (module_of inst)) (\<lambda>m.
     bindc (lift_res (mi_type_id m ty)) (\<lambda>tid.
     bindc (lift_res (mi_array_layout m ty)) (\<lambda>l.
     bindc (pop_elems l (rev [0..<n]) (replicate (body_size l n) 0)) (\<lambda>d. alloc_array tid d))))"

definition array_new_data :: "entity_handle \<Rightarrow> nat \<Rightarrow> nat \<Rightarrow> (machine, unit) action" where
  "array_new_data inst ty data =
     bindc (inner_of (module_of inst)) (\<lambda>m.
     bindc (lift_res (mi_type_id m ty)) (\<lambda>tid.
     bindc (lift_res (mi_array_layout m ty)) (\<lambda>l.
     bindc pop_count (\<lambda>count.
     bindc pop_count (\<lambda>off.
     bindc (lift_res (elem_bytes count (al_stride l))) (\<lambda>n.
     bindc (inner_of (segment_bytes inst data m)) (\<lambda>(seg, seg_len).
     bindc (lift_res (arr_range off n seg_len MemoryOutOfBounds)) (\<lambda>_.
     bindc (inner_of (\<lambda>s. check_capacity (si_gc s) n)) (\<lambda>_.
     bindc (lift_res (slice_range seg off (off + n))) (\<lambda>body. alloc_array tid body))))))))))"

definition array_new_elem :: "entity_handle \<Rightarrow> nat \<Rightarrow> nat \<Rightarrow> (machine, unit) action" where
  "array_new_elem inst ty elem =
     bindc (inner_of (module_of inst)) (\<lambda>m.
     bindc (lift_res (mi_type_id m ty)) (\<lambda>tid.
     bindc (lift_res (mi_array_layout m ty)) (\<lambda>l.
     bindc pop_count (\<lambda>count.
     bindc pop_count (\<lambda>off.
     bindc (inner_of (segment_refs inst elem)) (\<lambda>refs.
     bindc (lift_res (arr_range off count (length refs) TableOutOfBounds)) (\<lambda>_.
     bindc (lift_res (elem_bytes count (al_stride l))) (\<lambda>n.
     bindc (inner_of (\<lambda>s. check_capacity (si_gc s) n)) (\<lambda>_.
     bindc (lift_res (slice_range refs off (off + count))) (\<lambda>rs.
     bindc (lift_res (write_slots (map (\<lambda>(i, r). (elem_at l i, from_ref r)) (enumerate 0 rs)) (replicate (body_size l count) 0))) (\<lambda>d.
     alloc_array tid d)))))))))))"

definition array_get :: "entity_handle \<Rightarrow> nat \<Rightarrow> bool option \<Rightarrow> (machine, unit) action" where
  "array_get inst ty ext =
     bindc (inner_of (module_of inst)) (\<lambda>m.
     bindc (lift_res (mi_array_layout m ty)) (\<lambda>l.
     bindc pop_count (\<lambda>idx.
     bindc pop_anyref (\<lambda>r.
     bindc (lift_res (anyref_slot r NullArrayReference)) (\<lambda>i.
     bindc (inner_of (elem_slot i l idx)) (\<lambda>sl.
     bindc (inner_of (array_at i)) (\<lambda>ob.
     bindc (lift_res (case ext of None \<Rightarrow> read_slot sl (go_data ob)
       | Some sg \<Rightarrow> bindr (read_slot_packed sl (go_data ob) sg) (\<lambda>x. Inr (I32 x)))) push_val)))))))"

definition array_set :: "entity_handle \<Rightarrow> nat \<Rightarrow> (machine, unit) action" where
  "array_set inst ty =
     bindc (inner_of (module_of inst)) (\<lambda>m.
     bindc (lift_res (mi_array_layout m ty)) (\<lambda>l.
     bindc (pop_val_for (elem_at l 0)) (\<lambda>v.
     bindc pop_count (\<lambda>idx.
     bindc pop_anyref (\<lambda>r.
     bindc (lift_res (anyref_slot r NullArrayReference)) (\<lambda>i.
     bindc (inner_of (elem_slot i l idx)) (\<lambda>sl.
     bindc (inner_of (array_at i)) (\<lambda>ob.
     bindc (lift_res (write_slot sl (go_data ob) v)) (\<lambda>d. upd_inner (put_body i d))))))))))"

definition array_len_op :: "(machine, unit) action" where
  "array_len_op = bindc pop_anyref (\<lambda>r.
     bindc (lift_res (anyref_slot r NullArrayReference)) (\<lambda>i.
     bindc (inner_of (array_at i)) (\<lambda>ob.
     bindc (inner_of (\<lambda>s. array_field (en_types (si_engine s)) (go_type_id ob))) (\<lambda>f.
     bindc (inner_of (arr_len i (al_stride (layout_for_array f)))) (\<lambda>n. push_val (I32 (of_nat n)))))))"

definition array_fill :: "entity_handle \<Rightarrow> nat \<Rightarrow> (machine, unit) action" where
  "array_fill inst ty =
     bindc (inner_of (module_of inst)) (\<lambda>m.
     bindc (lift_res (mi_array_layout m ty)) (\<lambda>l.
     bindc pop_count (\<lambda>len.
     bindc (pop_val_for (elem_at l 0)) (\<lambda>v.
     bindc pop_count (\<lambda>idx.
     bindc pop_anyref (\<lambda>r.
     bindc (lift_res (anyref_slot r NullArrayReference)) (\<lambda>i.
     bindc (inner_of (arr_len i (al_stride l))) (\<lambda>n.
     bindc (lift_res (arr_range idx len n ArrayOutOfBounds)) (\<lambda>_.
     bindc (inner_of (array_at i)) (\<lambda>ob.
     bindc (lift_res (write_slots (map (\<lambda>k. (elem_at l k, v)) [idx..<idx + len]) (go_data ob))) (\<lambda>d.
     upd_inner (put_body i d))))))))))))"

text \<open>The source range is copied out before the destination is written, so overlapping ranges of one array are safe.
  A byte range that does not fit the body panics.\<close>

definition array_copy :: "entity_handle \<Rightarrow> nat \<Rightarrow> (machine, unit) action" where
  "array_copy inst dst_ty =
     bindc (inner_of (module_of inst)) (\<lambda>m.
     bindc (lift_res (mi_array_layout m dst_ty)) (\<lambda>l.
     bindc pop_count (\<lambda>len.
     bindc pop_count (\<lambda>src_idx.
     bindc pop_anyref (\<lambda>src_r.
     bindc pop_count (\<lambda>dst_idx.
     bindc pop_anyref (\<lambda>dst_r.
     bindc (lift_res (anyref_slot src_r NullArrayReference)) (\<lambda>src.
     bindc (lift_res (anyref_slot dst_r NullArrayReference)) (\<lambda>dst.
     bindc (inner_of (arr_len src (al_stride l))) (\<lambda>n.
     bindc (lift_res (arr_range src_idx len n ArrayOutOfBounds)) (\<lambda>_.
     bindc (inner_of (arr_len dst (al_stride l))) (\<lambda>k.
     bindc (lift_res (arr_range dst_idx len k ArrayOutOfBounds)) (\<lambda>_.
     bindc (inner_of (array_at src)) (\<lambda>sob.
     bindc (lift_res (slice_range (go_data sob) (src_idx * al_stride l) (src_idx * al_stride l + len * al_stride l))) (\<lambda>snapshot.
     bindc (inner_of (array_at dst)) (\<lambda>dob.
     bindc (lift_res (slice_range (go_data dob) (dst_idx * al_stride l) (dst_idx * al_stride l + len * al_stride l))) (\<lambda>_.
     upd_inner (put_body dst (write_at (go_data dob) (dst_idx * al_stride l) snapshot)))))))))))))))))))"

definition array_init_data :: "entity_handle \<Rightarrow> nat \<Rightarrow> nat \<Rightarrow> (machine, unit) action" where
  "array_init_data inst ty data =
     bindc (inner_of (module_of inst)) (\<lambda>m.
     bindc (lift_res (mi_array_layout m ty)) (\<lambda>l.
     bindc pop_count (\<lambda>len.
     bindc pop_count (\<lambda>src.
     bindc pop_count (\<lambda>dst.
     bindc pop_anyref (\<lambda>r.
     bindc (lift_res (anyref_slot r NullArrayReference)) (\<lambda>i.
     bindc (inner_of (arr_len i (al_stride l))) (\<lambda>n.
     bindc (lift_res (arr_range dst len n ArrayOutOfBounds)) (\<lambda>_.
     bindc (lift_res (elem_bytes len (al_stride l))) (\<lambda>byte_len.
     bindc (inner_of (segment_bytes inst data m)) (\<lambda>(seg, seg_len).
     bindc (lift_res (arr_range src byte_len seg_len MemoryOutOfBounds)) (\<lambda>_.
     bindc (lift_res (slice_range seg src (src + byte_len))) (\<lambda>bytes.
     bindc (inner_of (array_at i)) (\<lambda>ob.
     bindc (lift_res (slice_range (go_data ob) (dst * al_stride l) (dst * al_stride l + byte_len))) (\<lambda>_.
     upd_inner (put_body i (write_at (go_data ob) (dst * al_stride l) bytes)))))))))))))))))"

definition array_init_elem :: "entity_handle \<Rightarrow> nat \<Rightarrow> nat \<Rightarrow> (machine, unit) action" where
  "array_init_elem inst ty elem =
     bindc (inner_of (module_of inst)) (\<lambda>m.
     bindc (lift_res (mi_array_layout m ty)) (\<lambda>l.
     bindc pop_count (\<lambda>len.
     bindc pop_count (\<lambda>src.
     bindc pop_count (\<lambda>dst.
     bindc pop_anyref (\<lambda>r.
     bindc (lift_res (anyref_slot r NullArrayReference)) (\<lambda>i.
     bindc (inner_of (arr_len i (al_stride l))) (\<lambda>n.
     bindc (lift_res (arr_range dst len n ArrayOutOfBounds)) (\<lambda>_.
     bindc (inner_of (segment_refs inst elem)) (\<lambda>refs.
     bindc (lift_res (arr_range src len (length refs) TableOutOfBounds)) (\<lambda>_.
     bindc (inner_of (array_at i)) (\<lambda>ob.
     bindc (lift_res (slice_range refs src (src + len))) (\<lambda>rs.
     bindc (lift_res (write_slots (map (\<lambda>(k, rf). (elem_at l (dst + k), from_ref rf)) (enumerate 0 rs)) (go_data ob))) (\<lambda>d.
     upd_inner (put_body i d)))))))))))))))"

definition exec_gc_array :: "array_op \<Rightarrow> entity_handle \<Rightarrow> (machine, unit) action" where
  "exec_gc_array op inst = (case op of
     ArrayNew ty \<Rightarrow> array_new inst ty False
   | ArrayNewDefault ty \<Rightarrow> array_new inst ty True
   | ArrayNewFixed ty n \<Rightarrow> array_new_fixed inst ty n
   | ArrayNewData ty d \<Rightarrow> array_new_data inst ty d
   | ArrayNewElem ty e \<Rightarrow> array_new_elem inst ty e
   | ArrayGet ty \<Rightarrow> array_get inst ty None
   | ArrayGetS ty \<Rightarrow> array_get inst ty (Some True)
   | ArrayGetU ty \<Rightarrow> array_get inst ty (Some False)
   | ArraySet ty \<Rightarrow> array_set inst ty
   | ArrayLen \<Rightarrow> array_len_op
   | ArrayFill ty \<Rightarrow> array_fill inst ty
   | ArrayCopy dst _ \<Rightarrow> array_copy inst dst
   | ArrayInitData ty d \<Rightarrow> array_init_data inst ty d
   | ArrayInitElem ty e \<Rightarrow> array_init_elem inst ty e)"

section \<open>What the aggregate instructions do to the store\<close>

text \<open>The store is unchanged, or one object is placed in a fresh slot, or the body of one live object is
  replaced by one of the same length. An instruction that fails changes nothing.\<close>

inductive heap_change :: "store_inner \<Rightarrow> bool \<Rightarrow> store_inner \<Rightarrow> bool" for s where
  unchanged: "heap_change s failed s"
| placed: "gc_alloc ob (si_gc s) = (Inr i, h) \<Longrightarrow> heap_change s False (s\<lparr>si_gc := h\<rparr>)"
| written: "gc_get (si_gc s) i = Some ob \<Longrightarrow> length d = length (go_data ob) \<Longrightarrow> heap_change s False (put_body i d s)"

lemma length_write_slots: "write_slots ps d = Inr d' \<Longrightarrow> length d' = length d"
proof (induction ps d rule: write_slots.induct)
  case (2 sl v rest d)
  then obtain e where e: "write_slot sl d v = Inr e" and "write_slots rest e = Inr d'" by auto
  with 2 show ?case using length_write_slot [OF e] by simp
qed simp

lemma quiet_pop_fields [quiet_intros]: "quiet (pop_fields sls d)"
  by (induction sls arbitrary: d) (simp_all, (intro quiet_intros; assumption)+)

lemma quiet_pop_elems [quiet_intros]: "quiet (pop_elems l is d)"
  by (induction "is" arbitrary: d) (simp_all, (intro quiet_intros; assumption)+)

lemma quiet_pop_count [quiet_intros]: "quiet pop_count"
  unfolding pop_count_def by (intro quiet_intros)

lemma gc_alloc_failed: "heap_ok h \<Longrightarrow> gc_alloc ob h = (Inl e, h') \<Longrightarrow> h' = h"
  by (auto simp: gc_alloc_def Let_def heap_ok_def arena_ok_def split: list.splits if_splits)

lemma encode_anyref: "\<exists>c. encode (anyref_value h) = Inr c"
  by (simp add: anyref_value_def encode_def slot_for_val_def write_slot_def ref_handle_def slice_from_def write_le_def SLOT_BYTES_def)

text \<open>An allocation that is pushed afterwards.\<close>

lemma yields_alloc:
  assumes "heap_ok (si_gc s)"
  shows "yields s (heap_change s) (bindc (on_inner (alloc_gc ob)) (\<lambda>h. push_val (anyref_value (anyref_handle_slot h))))"
  unfolding yields_def
proof (intro allI impI)
  fix m r m'
  assume m: "ma_inner m = s" and run: "bindc (on_inner (alloc_gc ob)) (\<lambda>h. push_val (anyref_value (anyref_handle_slot h))) m = (r, m')"
  obtain q h where q: "gc_alloc ob (si_gc s) = (q, h)" by fastforce
  show "heap_change s (isl r) (ma_inner m')"
  proof (cases q)
    case (Inl e)
    with q gc_alloc_failed [OF assms] have "h = si_gc s" by blast
    with run m q Inl show ?thesis by (auto simp: bindc_def on_inner_def alloc_gc_def intro: unchanged)
  next
    case (Inr i)
    obtain c where "encode (anyref_value (anyref_handle_slot i)) = Inr c" using encode_anyref by blast
    from push_val_Inr [OF this, of "m\<lparr>ma_inner := s\<lparr>si_gc := h\<rparr>\<rparr>"] run m q Inr have "\<not> isl r" "ma_inner m' = s\<lparr>si_gc := h\<rparr>"
      by (auto simp: bindc_def on_inner_def alloc_gc_def)
    with placed [OF q [unfolded Inr]] show ?thesis by simp
  qed
qed

lemma yields_put_body: "array_at i s = Inr ob \<Longrightarrow> length d = length (go_data ob) \<Longrightarrow> yields s (heap_change s) (upd_inner (put_body i d))"
  "gc_object_at what i s = Inr ob \<Longrightarrow> length d = length (go_data ob) \<Longrightarrow> yields s (heap_change s) (upd_inner (put_body i d))"
  by (rule yields_upd, rule written, auto simp: gc_object_at_def ok_or_def split: option.splits)+

text \<open>Collected: how a handler's steps are discharged.\<close>

lemmas gc_steps = yields_bind_inner yields_bind_res yields_alloc yields_if yields_put_body
lemmas gc_pops = yields_bind_quiet [OF quiet_pops(4)] yields_bind_quiet [OF quiet_pop_count] yields_bind_quiet [OF quiet_pops(12)]
  yields_bind_quiet [OF quiet_pops(13)] yields_bind_quiet [OF quiet_pop_fields] yields_bind_quiet [OF quiet_pop_elems]

lemma unchanged_both [simp]: "heap_change s b s"
  by (rule unchanged)

lemma quiet_change: "quiet a \<Longrightarrow> yields s (heap_change s) a"
  by (rule yields_quiet) simp_all

lemma struct_new_yields: "heap_ok (si_gc s) \<Longrightarrow> yields s (heap_change s) (struct_new inst ty dflt)"
  unfolding struct_new_def Let_def
  by (cases dflt; simp) (intro gc_steps gc_pops unchanged; assumption)+

lemma struct_get_yields: "yields s (heap_change s) (struct_get inst ty fld ext)"
  unfolding struct_get_def module_of_def [abs_def] by (rule quiet_change) (intro quiet_intros)

lemma struct_set_yields: "yields s (heap_change s) (struct_set inst ty fld)"
  unfolding struct_set_def
  by (intro yields_bind_inner yields_bind_res gc_pops unchanged) (auto intro: yields_put_body dest: length_write_slot)

lemma exec_gc_yields: "heap_ok (si_gc s) \<Longrightarrow> yields s (heap_change s) (exec_gc op inst)"
  by (cases op)
    (simp_all add: exec_gc_def struct_new_yields struct_get_yields struct_set_yields i31_get_def quiet_change quiet_intros)

lemma alloc_array_yields: "heap_ok (si_gc s) \<Longrightarrow> yields s (heap_change s) (alloc_array tid d)"
  unfolding alloc_array_def by (rule yields_alloc)

lemma array_new_yields: "heap_ok (si_gc s) \<Longrightarrow> yields s (heap_change s) (array_new inst ty dflt)"
  unfolding array_new_def
  by (intro yields_bind_inner yields_bind_res gc_pops yields_bind_quiet [OF quiet_if [OF quiet_basic(1) quiet_pops(13)]] unchanged alloc_array_yields)

lemma array_new_fixed_yields: "heap_ok (si_gc s) \<Longrightarrow> yields s (heap_change s) (array_new_fixed inst ty n)"
  unfolding array_new_fixed_def by (intro yields_bind_inner yields_bind_res gc_pops unchanged alloc_array_yields)

lemma array_new_data_yields: "heap_ok (si_gc s) \<Longrightarrow> yields s (heap_change s) (array_new_data inst ty data)"
  unfolding array_new_data_def split_def by (intro yields_bind_inner yields_bind_res gc_pops unchanged alloc_array_yields)

lemma array_new_elem_yields: "heap_ok (si_gc s) \<Longrightarrow> yields s (heap_change s) (array_new_elem inst ty elem)"
  unfolding array_new_elem_def split_def by (intro yields_bind_inner yields_bind_res gc_pops unchanged alloc_array_yields)

lemma array_reads_yield: "yields s (heap_change s) (array_get inst ty ext)" "yields s (heap_change s) array_len_op"
  unfolding array_get_def array_len_op_def by (rule quiet_change, intro quiet_intros)+

lemma array_set_yields: "yields s (heap_change s) (array_set inst ty)"
  unfolding array_set_def
  by (intro yields_bind_inner yields_bind_res gc_pops unchanged) (auto intro: yields_put_body dest: length_write_slot)

lemma array_fill_yields: "yields s (heap_change s) (array_fill inst ty)"
  unfolding array_fill_def
  by (intro yields_bind_inner yields_bind_res gc_pops unchanged) (auto intro: yields_put_body dest: length_write_slots)

lemma array_copy_yields: "yields s (heap_change s) (array_copy inst ty)"
  unfolding array_copy_def
  by (intro yields_bind_inner yields_bind_res gc_pops unchanged) (auto intro: yields_put_body)

lemma array_init_data_yields: "yields s (heap_change s) (array_init_data inst ty data)"
  unfolding array_init_data_def split_def
  by (intro yields_bind_inner yields_bind_res gc_pops unchanged) (auto intro: yields_put_body)

lemma array_init_elem_yields: "yields s (heap_change s) (array_init_elem inst ty elem)"
  unfolding array_init_elem_def split_def
  by (intro yields_bind_inner yields_bind_res gc_pops unchanged) (auto intro: yields_put_body dest: length_write_slots)

lemma exec_gc_array_yields: "heap_ok (si_gc s) \<Longrightarrow> yields s (heap_change s) (exec_gc_array op inst)"
  by (cases op)
    (simp_all add: exec_gc_array_def array_new_yields array_new_fixed_yields array_new_data_yields array_new_elem_yields
      array_reads_yield array_set_yields array_fill_yields array_copy_yields array_init_data_yields array_init_elem_yields)

text \<open>What the three kinds of change amount to.\<close>

definition same_shape_object :: "gc_object \<Rightarrow> gc_object \<Rightarrow> bool" where
  "same_shape_object a b \<longleftrightarrow> go_type_id b = go_type_id a \<and> go_kind b = go_kind a \<and> length (go_data b) = length (go_data a)"

lemma gc_get_update: "gc_get (gc_update i f h) j = (if j = i then map_option f (gc_get h i) else gc_get h j)"
  by (auto simp: gc_update_def gc_get_def get_at_def nth_list_update split: option.splits)

lemma heap_ok_update:
  assumes "heap_ok h"
  shows "heap_ok (gc_update i f h)"
proof (cases "gc_get h i")
  case (Some ob)
  then have i: "unat i < length (gh_slots h)" "gh_slots h ! unat i = Some ob"
    by (auto simp: gc_get_def get_at_def bind_eq_Some_conv split: if_splits)
  have "(gh_slots h)[unat i := Some (f ob)] ! k = None \<longleftrightarrow> gh_slots h ! k = None" if "k < length (gh_slots h)" for k
    using that i by (auto simp: nth_list_update)
  with assms Some show ?thesis by (auto simp: gc_update_def heap_ok_def arena_ok_def)
qed (use assms in \<open>simp add: gc_update_def\<close>)

lemma heap_change_effect:
  assumes "heap_change s failed t" and "heap_ok (si_gc s)"
  shows "t = s\<lparr>si_gc := si_gc t\<rparr> \<and> (failed \<longrightarrow> t = s) \<and> heap_ok (si_gc t) \<and>
    (\<exists>i. \<forall>j. j \<noteq> i \<longrightarrow> gc_get (si_gc t) j = gc_get (si_gc s) j) \<and>
    (\<forall>j ob. gc_get (si_gc s) j = Some ob \<longrightarrow> (\<exists>ob'. gc_get (si_gc t) j = Some ob' \<and> same_shape_object ob ob'))"
  using assms(1)
proof cases
  case unchanged
  then show ?thesis using assms(2) by (auto simp: same_shape_object_def)
next
  case (placed ob i h)
  have "gc_get h j = (if j = i then Some ob else gc_get (si_gc s) j)" for j
    using gc_get_alloc(2) [OF assms(2) placed(3)] .
  with placed show ?thesis using gc_get_alloc(1) [OF assms(2) placed(3)] heap_ok_alloc(1) [OF assms(2) placed(3)]
    by (auto simp: same_shape_object_def)
next
  case (written i ob d)
  then show ?thesis using heap_ok_update [OF assms(2)]
    by (auto simp: put_body_def gc_get_update same_shape_object_def)
qed


section \<open>Array elements\<close>

text \<open>An operand pushed is the operand a typed pop gives back.\<close>

lemma stack_slot_view:
  assumes "slot_for_val v = Inr k"
  shows "slot_view k v = erase_val v" and "of_val v = (case k of SlotRef _ rk \<Rightarrow> of_refkind rk | SlotScalar _ _ \<Rightarrow> TagNone)"
  using assms by (cases v; auto simp: slot_for_val_def slot_view_def erase_val_def of_val_def of_refkind_def)+

lemma stack_slot_accepts:
  "slot_accepts sl v \<Longrightarrow> \<forall>x. v \<noteq> V128 x \<Longrightarrow> slot_for_val v = Inr (stack_slot_for_field sl)"
  by (cases sl; cases v) (auto simp: slot_for_val_def stack_slot_for_field_def slot_accepts_def split: scalar_kind.splits ref_kind.splits)

lemma pop_val_for_push:
  assumes "stack_ok m" and "ex_frames m \<noteq> []" and "slot_accepts sl v" and "handle_ok v" and "\<forall>x. v \<noteq> V128 x"
  shows "pop_val_for sl (snd (push_val v m)) = (Inr (erase_val v), m)"
proof -
  let ?k = "stack_slot_for_field sl"
  have slot: "slot_for_val v = Inr ?k"
    using stack_slot_accepts [OF assms(3,5)] .
  have acc: "slot_accepts ?k v" and fit: "slot_end ?k \<le> length (replicate SLOT_BYTES (0 :: u8))"
    using slot_for_val_accepts [OF slot] by auto
  from slot_round_trip [OF acc assms(4) fit] obtain c where
    c: "encode v = Inr c" "read_slot ?k c = Inr (slot_view ?k v)" by (auto simp: encode_def slot)
  note view = stack_slot_view [OF slot]
  have len: "length (ex_values m) = length (ex_shadow m)" using assms(1) by (simp add: stack_ok_def)
  let ?m = "m\<lparr>ex_shadow := ex_shadow m @ [of_val v], ex_values := ex_values m @ [c]\<rparr>"
  have e: "ensure_operands 1 ?m = Inr (length (ex_values m))"
    using assms(1,2) by (auto simp: ensure_operands_Inr stack_ok_def chain_ok_last)
  show ?thesis
    using e push_val_Inr [OF c(1), of m] truncate_pushed [OF len] len c(2) view
    by (simp add: pop_val_for_def pop_cell_def ask_def bindc_def nth_append)
qed

lemma stack_ok_push_val:
  assumes "stack_ok m" and "ex_frames m \<noteq> []" and "encode v = Inr c"
  shows "stack_ok (snd (push_val v m)) \<and> ex_frames (snd (push_val v m)) \<noteq> []"
  using stack_ok_push [OF assms(1) length_encode [OF assms(3)]] push_val_Inr [OF assms(3), of m] assms(2) by simp

lemma pop_count_index: "pop_count = pop_index False"
  by (rule ext) (simp add: pop_count_def pop_i32_def pop_index_def bindc_def split: sum.splits prod.splits)

lemma pop_ref_val_for: "pop_val_for (SlotRef off k) s = (Inr v, t) \<Longrightarrow> pop_ref k s = (Inr v, t)"
  by (auto simp: pop_ref_def pop_val_for_def stack_slot_for_field_def bindc_eq_Inr ask_def split: if_splits)

lemma pop_anyref_push:
  assumes "stack_ok m" and "ex_frames m \<noteq> []" and "i \<noteq> NULL_REF"
  shows "pop_anyref (snd (push_val (anyref_value i) m)) = (Inr (anyref_value i), m)"
proof -
  have "pop_val_for (SlotRef 0 RkAny) (snd (push_val (anyref_value i) m)) = (Inr (erase_val (anyref_value i)), m)"
    using assms by (intro pop_val_for_push) (simp_all add: slot_accepts_def anyref_value_def handle_ok_def rooted_from_raw_def)
  then have "pop_anyref (snd (push_val (anyref_value i) m)) = (Inr (erase_val (anyref_value i)), m)"
    unfolding pop_anyref_def by (rule pop_ref_val_for)
  then show ?thesis by (simp add: anyref_value_def erase_val_def erase_rooted_def rooted_from_raw_def)
qed

lemma anyref_slot_value: "i < NULL_REF \<Longrightarrow> anyref_slot (anyref_value i) t = Inr i"
  using slot_not_tagged [of i] decode_anyref_handle_slot [of i]
  by (simp add: anyref_slot_def anyref_value_def rooted_from_raw_def anyref_handle_slot_def)

lemma slot_accepts_erase: "slot_accepts (with_offset e a) v \<Longrightarrow> slot_accepts (with_offset e b) (erase_val v)"
  by (cases e; cases v) (auto simp: slot_accepts_def erase_val_def split: scalar_kind.splits ref_kind.splits)

lemma handle_ok_erase: "handle_ok v \<Longrightarrow> handle_ok (erase_val v)"
  by (cases v) (auto simp: handle_ok_def erase_val_def erase_func_def erase_rooted_def func_from_raw_def rooted_from_raw_def split: option.splits)

text \<open>C24. Array accesses are bounds-checked exactly. With a live array of \<open>n\<close> elements, an index and (for a
  store) a value of the element type on the stack, \<^verbatim>\<open>array.get\<close> and \<^verbatim>\<open>array.set\<close> succeed if and only
  if the index is below \<open>n\<close>; then the read pushes the element, and the write replaces that element (cut to the
  packed width) and leaves every other element of the array as it was. Otherwise they trap and change nothing of the
  store.\<close>

theorem array_access_exact:
  assumes "stack_ok m" and "ex_frames m \<noteq> []" and "module_of inst (ma_inner m) = Inr md" and "mi_array_layout md ty = Inr l"
    and "layout_from_body (CompArray fld) = Some (LayoutArray l)"
    and "i < NULL_REF" and "gc_get (si_gc (ma_inner m)) i = Some ob" and "length (go_data ob) = body_size l n" and "n < 2 ^ 32"
    and "idx < 2 ^ 32" and "slot_accepts (elem_at l 0) v" and "handle_ok v" and "\<forall>x. v \<noteq> V128 x"
  shows "array_get inst ty None (snd (push_index False idx (snd (push_val (anyref_value i) m)))) =
      (if idx < n then bindc (lift_res (read_slot (elem_at l idx) (go_data ob))) push_val m else (Inl (Trapped ArrayOutOfBounds), m)) \<and>
    (if idx < n then
       \<exists>d. array_set inst ty (snd (push_val v (snd (push_index False idx (snd (push_val (anyref_value i) m)))))) =
          (Inr (), m\<lparr>ma_inner := put_body i d (ma_inner m)\<rparr>) \<and> length d = length (go_data ob) \<and>
          read_slot (elem_at l idx) d = Inr (slot_view (elem_at l idx) (erase_val v)) \<and>
          (\<forall>j < n. j \<noteq> idx \<longrightarrow> read_slot (elem_at l j) d = read_slot (elem_at l j) (go_data ob))
     else array_set inst ty (snd (push_val v (snd (push_index False idx (snd (push_val (anyref_value i) m)))))) =
          (Inl (Trapped ArrayOutOfBounds), m))"
proof -
  let ?s = "ma_inner m" and ?v = "erase_val v"
  have null: "i \<noteq> NULL_REF" using assms(6) by simp
  obtain c where c: "encode (anyref_value i) = Inr c" using encode_anyref by blast
  let ?m1 = "snd (push_val (anyref_value i) m)" and ?m2 = "snd (push_index False idx (snd (push_val (anyref_value i) m)))"
  note ok1 = stack_ok_push_val [OF assms(1,2) c, THEN conjunct1] stack_ok_push_val [OF assms(1,2) c, THEN conjunct2]
  note ok2 = stack_ok_push_index [OF ok1, THEN conjunct1] stack_ok_push_index [OF ok1, THEN conjunct2]
  have in1: "ma_inner ?m1 = ?s" using push_val_Inr [OF c, of m] by simp
  have in2: "ma_inner ?m2 = ?s" using inner_push_index [of False idx ?m1] in1 by simp
  have in3: "ma_inner (snd (push_val v ?m2)) = ?s"
    using quietD [OF quiet_pushes(7), of v ?m2] in2 by (metis prod.collapse)
  have idx: "idx < index_bound False" using assms(10) by (simp add: index_bound_def)
  note pops = pop_push_index [OF ok1 idx, folded pop_count_index] pop_anyref_push [OF assms(1,2) null]
  have w: "0 < al_stride l" using assms(5) by (auto simp: layout_from_body_def array_layout_of_def)
  have ob: "array_at i ?s = Inr ob" using assms(7) by (simp add: gc_object_at_def)
  have len: "arr_len i (al_stride l) ?s = Inr n"
  proof -
    have "max (al_stride l) 1 = al_stride l" using w by simp
    with ob assms(8,9) w show ?thesis by (simp add: arr_len_def array_len_def body_size_def unat_of_nat_u32)
  qed
  have sl: "elem_slot i l idx ?s = (if idx < n then Inr (elem_at l idx) else Inl (Trapped ArrayOutOfBounds))"
    using len by (simp add: elem_slot_def)
  note reads = in1 in2 in3 assms(3,4) ob sl anyref_slot_value [OF assms(6)]
  have get: "array_get inst ty None ?m2 =
      (if idx < n then bindc (lift_res (read_slot (elem_at l idx) (go_data ob))) push_val m else (Inl (Trapped ArrayOutOfBounds), m))"
    using pops reads by (simp add: array_get_def bindc_def)
  have pop: "pop_val_for (elem_at l 0) (snd (push_val v ?m2)) = (Inr ?v, ?m2)"
    by (rule pop_val_for_push [OF ok2 assms(11-13)])
  have set_run: "array_set inst ty (snd (push_val v ?m2)) = (if idx < n
      then bindc (lift_res (write_slot (elem_at l idx) (go_data ob) ?v)) (\<lambda>d. upd_inner (put_body i d)) m
      else (Inl (Trapped ArrayOutOfBounds), m))"
    using pops reads pop by (simp add: array_set_def bindc_def)
  have acc: "slot_accepts (elem_at l idx) ?v" "handle_ok ?v"
    using assms(11,12) slot_accepts_erase handle_ok_erase by (auto simp: elem_at_def)
  show ?thesis
  proof (cases "idx < n")
    case True
    from array_elem_write [OF assms(5,8) True acc] obtain d where
      "write_slot (elem_at l idx) (go_data ob) ?v = Inr d" "length d = length (go_data ob)"
      "read_slot (elem_at l idx) d = Inr (slot_view (elem_at l idx) ?v)"
      "\<forall>j < n. j \<noteq> idx \<longrightarrow> read_slot (elem_at l j) d = read_slot (elem_at l j) (go_data ob)" by blast
    with True get set_run show ?thesis by auto
  qed (use get set_run in simp)
qed

section \<open>A machine with an array, for the witnesses\<close>

definition gc_module :: module_inner where
  "gc_module = (co_module sample_code)\<lparr>mi_type_ids := [0], mi_layouts := [Some (LayoutArray \<lparr>al_elem = SlotScalar 0 SkI16, al_stride = 2\<rparr>)]\<rparr>"

definition gc_inner :: store_inner where
  "gc_inner = snd (alloc_gc (new_array 0 [1, 0, 2, 0, 3, 0]) (sample_inner\<lparr>si_instances := map (\<lambda>i. i\<lparr>ie_module := gc_module\<rparr>) (si_instances sample_inner)\<rparr>))"

definition gc_machine :: machine where
  "gc_machine = machine_of sample_exec gc_inner"

lemma gc_machine_ok: "stack_ok gc_machine" "heap_ok (si_gc (ma_inner gc_machine))"
proof -
  show "stack_ok gc_machine" by code_simp
  have "heap_ok (si_gc sample_inner)" by (simp add: sample_inner_def store_new_def heap_ok_new)
  then have ok: "heap_ok (si_gc (sample_inner\<lparr>si_instances := map (\<lambda>i. i\<lparr>ie_module := gc_module\<rparr>) (si_instances sample_inner)\<rparr>))" by simp
  have "gc_alloc (new_array 0 [1, 0, 2, 0, 3, 0]) (si_gc sample_inner) = (Inr 0, si_gc gc_inner)" by code_simp
  with heap_ok_alloc(1) [OF ok] show "heap_ok (si_gc (ma_inner gc_machine))" by (simp add: gc_machine_def machine_of_def)
qed


theorem array_access_exact_witness:
  "fst (array_set sample_instance 0 (snd (push_val (I32 9) (snd (push_index False 1 (snd (push_val (anyref_value 0) gc_machine))))))) = Inr () \<and>
   array_set sample_instance 0 (snd (push_val (I32 9) (snd (push_index False 3 (snd (push_val (anyref_value 0) gc_machine)))))) =
     (Inl (Trapped ArrayOutOfBounds), gc_machine)"
proof -
  let ?l = "\<lparr>al_elem = SlotScalar 0 SkI16, al_stride = 2\<rparr>"
  have f: "ex_frames gc_machine \<noteq> []" by code_simp
  have h: "module_of sample_instance (ma_inner gc_machine) = Inr gc_module" "mi_array_layout gc_module 0 = Inr ?l"
    "layout_from_body (CompArray \<lparr>irf_mutable = True, irf_storage = IsI16\<rparr>) = Some (LayoutArray ?l)"
    "(0 :: u32) < NULL_REF" "gc_get (si_gc (ma_inner gc_machine)) 0 = Some (new_array 0 [1, 0, 2, 0, 3, 0])"
    "length (go_data (new_array 0 [1, 0, 2, 0, 3, 0])) = body_size ?l 3" "(3 :: nat) < 2 ^ 32"
    "slot_accepts (elem_at ?l 0) (I32 9)" "handle_ok (I32 9)" by code_simp+
  have v: "\<forall>x. I32 9 \<noteq> V128 x" by simp
  note a = array_access_exact [OF gc_machine_ok(1) f h(1-7) _ h(8,9) v, THEN conjunct2]
  from a [of 1] a [of 3] show ?thesis by auto
qed

end
