(* ===== verification/Exec_Cast.thy ===== *)
theory Exec_Cast
  imports Exec_Gc
begin

text \<open>
  Type tests on references, \<^verbatim>\<open>src/exec/cast.rs\<close>: \<^verbatim>\<open>ref.test\<close>, \<^verbatim>\<open>ref.cast\<close>,
  \<^verbatim>\<open>br_on_cast[_fail]\<close>, \<^verbatim>\<open>ref.eq\<close> and the conversions between the \<^verbatim>\<open>any\<close> and
  \<^verbatim>\<open>extern\<close> hierarchies. Concrete types are decided by the subtype walk of the engine's
  registry, which the registry's invariant proves to end; a walk that would not end is the error
  \<open>diverged\<close> here.
\<close>

abbreviation diverged :: error where
  "diverged \<equiv> Panic ''subtype walk does not end''"

definition engine_is_subtype :: "canonical_type_id \<Rightarrow> canonical_type_id \<Rightarrow> store_inner \<Rightarrow> bool result" where
  "engine_is_subtype a b s = ok_or diverged (is_subtype (en_types (si_engine s)) a b)"

definition decode_any :: "val \<Rightarrow> anyref_handle option" where
  "decode_any v = (case v of AnyRef (Some r) \<Rightarrow> Some (decode_anyref_handle (ro_index r)) | _ \<Rightarrow> None)"

abbreviation cast_object :: "u32 \<Rightarrow> store_inner \<Rightarrow> gc_object result" where
  "cast_object \<equiv> gc_object_at ''cast operand refers to a missing GC object''"

definition cast_gc_kind :: "val \<Rightarrow> store_inner \<Rightarrow> agg_kind option result" where
  "cast_gc_kind v s = (case decode_any v of
     Some (HandleSlot i) \<Rightarrow> bindr (cast_object i s) (\<lambda>ob. Inr (case go_kind ob of
        ObjStruct \<Rightarrow> Some AkStruct | ObjArray \<Rightarrow> Some AkArray | ObjExtern \<Rightarrow> None))
   | _ \<Rightarrow> Inr None)"

definition cast_gc_type_id :: "val \<Rightarrow> store_inner \<Rightarrow> canonical_type_id option result" where
  "cast_gc_type_id v s = (case decode_any v of
     Some (HandleSlot i) \<Rightarrow> bindr (cast_object i s) (\<lambda>ob. Inr (case go_kind ob of
        ObjExtern \<Rightarrow> None | _ \<Rightarrow> Some (go_type_id ob)))
   | _ \<Rightarrow> Inr None)"

definition func_type_id :: "func_handle \<Rightarrow> store_inner \<Rightarrow> canonical_type_id result" where
  "func_type_id f s = bindr (func_at f s) (\<lambda>fe. case fe of
     FuncWasm inst fi \<Rightarrow> bindr (module_of inst s) (\<lambda>m. bindr (index_at (mi_func_types m) fi) (mi_type_id m))
   | FuncHost tid _ _ \<Rightarrow> Inr tid)"

definition is_eq_ref :: "val \<Rightarrow> store_inner \<Rightarrow> bool result" where
  "is_eq_ref v s = (case decode_any v of
     Some (HandleI31 _) \<Rightarrow> Inr True
   | _ \<Rightarrow> bindr (cast_gc_kind v s) (\<lambda>k. Inr (k \<noteq> None)))"

definition concrete_matches :: "entity_handle \<Rightarrow> val \<Rightarrow> nat \<Rightarrow> agg_kind \<Rightarrow> store_inner \<Rightarrow> bool result" where
  "concrete_matches inst v idx kind s =
     bindr (module_of inst s) (\<lambda>m.
     bindr (mi_type_id m idx) (\<lambda>target.
     bindr (case kind of
         AkFunc \<Rightarrow> (case v of FuncRef (Some f) \<Rightarrow> bindr (func_type_id f s) (\<lambda>t. Inr (Some t)) | _ \<Rightarrow> Inr None)
       | _ \<Rightarrow> cast_gc_type_id v s) (\<lambda>actual.
     case actual of None \<Rightarrow> Inr False | Some a \<Rightarrow> engine_is_subtype a target s)))"

definition matches_heaptype :: "entity_handle \<Rightarrow> val \<Rightarrow> ir_heap \<Rightarrow> bool \<Rightarrow> store_inner \<Rightarrow> bool result" where
  "matches_heaptype inst v target nullable s = (if is_null_ref v then Inr nullable else case target of
     IhAny \<Rightarrow> Inr (case v of AnyRef (Some _) \<Rightarrow> True | _ \<Rightarrow> False)
   | IhEq \<Rightarrow> is_eq_ref v s
   | IhI31 \<Rightarrow> Inr (case decode_any v of Some (HandleI31 _) \<Rightarrow> True | _ \<Rightarrow> False)
   | IhStruct \<Rightarrow> bindr (cast_gc_kind v s) (\<lambda>k. Inr (k = Some AkStruct))
   | IhArray \<Rightarrow> bindr (cast_gc_kind v s) (\<lambda>k. Inr (k = Some AkArray))
   | IhFunc \<Rightarrow> Inr (case v of FuncRef (Some _) \<Rightarrow> True | _ \<Rightarrow> False)
   | IhExtern \<Rightarrow> Inr (case v of ExternRef (Some _) \<Rightarrow> True | _ \<Rightarrow> False)
   | IhExn \<Rightarrow> Inr (case v of ExnRef (Some _) \<Rightarrow> True | _ \<Rightarrow> False)
   | IhNoFunc \<Rightarrow> Inr False | IhNoExtern \<Rightarrow> Inr False | IhNoExn \<Rightarrow> Inr False | IhNone \<Rightarrow> Inr False
   | IhConcrete idx kind \<Rightarrow> concrete_matches inst v idx kind s)"

definition ref_eq :: "val \<Rightarrow> val \<Rightarrow> bool result" where
  "ref_eq a b = (case (a, b) of
     (AnyRef None, AnyRef None) \<Rightarrow> Inr True
   | (AnyRef (Some x), AnyRef (Some y)) \<Rightarrow> Inr (ro_index x = ro_index y)
   | (AnyRef _, AnyRef _) \<Rightarrow> Inr False
   | _ \<Rightarrow> Inl (Panic ''ref.eq operands are eqref''))"

definition exec_cast :: "cast_op \<Rightarrow> entity_handle \<Rightarrow> (machine, unit) action" where
  "exec_cast op inst = (case op of
     RefTest ty nullable \<Rightarrow>
       bindc (pop_ref (refkind_of_irheap ty)) (\<lambda>r.
       bindc (inner_of (matches_heaptype inst r ty nullable)) (\<lambda>hit. push_val (I32 (if hit then 1 else 0))))
   | RefCast ty nullable \<Rightarrow>
       bindc (pop_ref (refkind_of_irheap ty)) (\<lambda>r.
       bindc (inner_of (matches_heaptype inst r ty nullable)) (\<lambda>hit.
       if hit then push_val r else fail (Trapped CastFailure)))
   | RefEq \<Rightarrow> bindc pop_anyref (\<lambda>b. bindc pop_anyref (\<lambda>a.
       bindc (lift_res (ref_eq a b)) (\<lambda>q. push_val (I32 (if q then 1 else 0)))))
   | AnyConvertExtern \<Rightarrow> bindc (pop_ref RkExtern) (\<lambda>e. bindc (on_inner (any_convert_extern e)) push_val)
   | ExternConvertAny \<Rightarrow> bindc pop_anyref (\<lambda>a. bindc (on_inner (extern_convert_any a)) push_val))"

text \<open>Bit 31 of the packed edge is the cast's nullable flag, the rest indexes the function's edge pool.\<close>

definition br_on_cast :: "code \<Rightarrow> entity_handle \<Rightarrow> ir_heap \<Rightarrow> u32 \<Rightarrow> bool \<Rightarrow> (machine, nat option) action" where
  "br_on_cast c inst ty packed on_fail = (let nullable = packed AND NULLABLE_BIT \<noteq> 0 in
     bindc (lift_res (index_at (code_br_tables c) (unat (packed AND NOT NULLABLE_BIT)))) (\<lambda>target.
     bindc (pop_ref (refkind_of_irheap ty)) (\<lambda>r.
     bindc (inner_of (matches_heaptype inst r ty nullable)) (\<lambda>hit.
     bindc (push_val r) (\<lambda>_.
     if hit \<noteq> on_fail then bindc (take_branch target) (\<lambda>_. ret (Some (bt_ip target))) else ret None)))))"

end
