(* ===== verification/Exec_Reserve.thy ===== *)
theory Exec_Reserve
  imports Exec_Gc
begin

text \<open>
  The run loop's side of garbage collection, \<^verbatim>\<open>src/exec/collect.rs\<close>, and its rare gates,
  \<^verbatim>\<open>src/exec/gates.rs\<close>: the byte charge of an allocating instruction is computed and reserved
  before its operands are popped, so that a collection it triggers still sees them as roots; fuel
  and epoch deadlines are checked before each instruction when the engine asks for it. The
  outcomes of \<^verbatim>\<open>src/exec/outcome.rs\<close> are here too, without the asynchronous ones.
\<close>

section \<open>Outcomes\<close>

record call_req =
  cr_return_ip :: nat
  cr_instance :: entity_handle
  cr_func_index :: nat
  cr_code :: code

datatype resolved_call = ResolvedWasm entity_handle nat code | ResolvedHost func_handle

datatype step_outcome =
    Advance nat
  | DoCall call_req
  | DoTailCall call_req
  | DoTailHostCall func_handle entity_handle nat
  | DoHostCall func_handle entity_handle nat
  | DoGrow entity_handle nat nat
  | DoTableGrow entity_handle nat ref_val nat
  | DoGcGrow nat nat nat

datatype outcome =
    Finished
  | EpochDeadline
  | OutGrow entity_handle nat
  | OutTableGrow entity_handle nat ref_val
  | OutGcGrow nat nat

section \<open>Reservation\<close>

definition gc_collect_now :: "(machine, unit) action" where
  "gc_collect_now = bindc (ask operand_roots) (\<lambda>roots. on_inner (collect roots))"

definition gc_reserve :: "nat \<Rightarrow> nat \<Rightarrow> (machine, step_outcome option) action" where
  "gc_reserve charge ip =
     bindc (getc (\<lambda>m. gc_fits (si_gc (ma_inner m)) charge)) (\<lambda>fits.
     if fits then ret None else
     bindc (getc (\<lambda>m. \<not> is_free_grant (si_gc (ma_inner m)) (desired_reservation (si_gc (ma_inner m)) charge) \<and>
        gh_collecting (si_gc (ma_inner m)))) (\<lambda>pressure.
     bindc (if pressure then bindc gc_collect_now (\<lambda>_. getc (\<lambda>m. gc_fits (si_gc (ma_inner m)) charge)) else ret False) (\<lambda>fits_now.
     if fits_now then ret None else
     bindc (getc (\<lambda>m. desired_reservation (si_gc (ma_inner m)) charge)) (\<lambda>target.
     bindc (getc (\<lambda>m. is_free_grant (si_gc (ma_inner m)) target)) (\<lambda>free.
     if free then bindc (upd_inner (\<lambda>s. case gc_grant target (si_gc s) of (granted, h) \<Rightarrow> add_gc_committed granted (s\<lparr>si_gc := h\<rparr>)))
         (\<lambda>_. ret None)
     else ret (Some (DoGcGrow target charge ip)))))))"

text \<open>Charges, computed without popping: the element count is read off the top of the stack.\<close>

definition peek_count :: "machine \<Rightarrow> nat result" where
  "peek_count m = bindr (top_i32 m) (\<lambda>v. Inr (unat v))"

definition array_bytes :: "nat \<Rightarrow> nat \<Rightarrow> nat result" where
  "array_bytes count stride = ok_or (Trapped AllocationTooLarge) (checked_mul usize_max count stride)"

definition seg_clamped_charge :: "nat \<Rightarrow> nat \<Rightarrow> nat \<Rightarrow> nat" where
  "seg_clamped_charge count stride seg_bytes = (case checked_mul usize_max count stride of
     None \<Rightarrow> seg_bytes | Some v \<Rightarrow> min v seg_bytes)"

definition data_bytes :: "entity_handle \<Rightarrow> nat \<Rightarrow> module_inner \<Rightarrow> store_inner \<Rightarrow> nat result" where
  "data_bytes inst data md s = bindr (instance_at inst s) (\<lambda>i.
     bindr (index_at (ie_dropped_data i) data) (\<lambda>dropped.
     if dropped then Inr 0 else bindr (index_at (mi_datas md) data) (\<lambda>seg. Inr (length (ds_bytes seg)))))"

definition array_charge :: "entity_handle \<Rightarrow> module_inner \<Rightarrow> array_op \<Rightarrow> machine \<Rightarrow> nat option result" where
  "array_charge inst md op m = (let stride = (\<lambda>ty. bindr (mi_array_layout md ty) (\<lambda>l. Inr (al_stride l))) in case op of
     ArrayNew ty \<Rightarrow> bindr (stride ty) (\<lambda>w. bindr (peek_count m) (\<lambda>n. bindr (array_bytes n w) (\<lambda>b. Inr (Some b))))
   | ArrayNewDefault ty \<Rightarrow> bindr (stride ty) (\<lambda>w. bindr (peek_count m) (\<lambda>n. bindr (array_bytes n w) (\<lambda>b. Inr (Some b))))
   | ArrayNewFixed ty n \<Rightarrow> bindr (mi_array_layout md ty) (\<lambda>l. Inr (Some (body_size l n)))
   | ArrayNewData ty data \<Rightarrow> bindr (stride ty) (\<lambda>w.
       bindr (data_bytes inst data md (ma_inner m)) (\<lambda>seg.
       bindr (peek_count m) (\<lambda>n. Inr (Some (seg_clamped_charge n w seg)))))
   | ArrayNewElem ty elem \<Rightarrow> bindr (stride ty) (\<lambda>w.
       bindr (segment_refs inst elem (ma_inner m)) (\<lambda>refs.
       bindr (peek_count m) (\<lambda>n. Inr (Some (seg_clamped_charge n w (saturating_mul usize_max (length refs) w))))))
   | _ \<Rightarrow> Inr None)"

definition struct_charge :: "module_inner \<Rightarrow> gc_op \<Rightarrow> nat option result" where
  "struct_charge md op = (case op of
     StructNew ty \<Rightarrow> bindr (mi_struct_layout md ty) (\<lambda>l. Inr (Some (sl_size l)))
   | StructNewDefault ty \<Rightarrow> bindr (mi_struct_layout md ty) (\<lambda>l. Inr (Some (sl_size l)))
   | _ \<Rightarrow> Inr None)"

definition gc_alloc_charge :: "entity_handle \<Rightarrow> op \<Rightarrow> machine \<Rightarrow> nat option result" where
  "gc_alloc_charge inst op m = bindr (module_of inst (ma_inner m)) (\<lambda>md.
     bindr (case op of OpGc g \<Rightarrow> struct_charge md g | OpArray a \<Rightarrow> array_charge inst md a m | _ \<Rightarrow> Inr None) (\<lambda>len.
     Inr (map_option object_charge len)))"

section \<open>Gates\<close>

definition set_top_ip :: "string \<Rightarrow> nat \<Rightarrow> (machine, unit) action" where
  "set_top_ip what ip m = (if ex_frames m = [] then (Inl (frame_err what), m)
     else (Inr (), m\<lparr>ex_frames := butlast (ex_frames m) @ [(last (ex_frames m))\<lparr>fr_ip := ip\<rparr>]\<rparr>))"

text \<open>Without the asynchronous build a needed fuel yield traps like exhausted fuel.\<close>

definition service_gates :: "bool \<Rightarrow> bool \<Rightarrow> nat \<Rightarrow> (machine, outcome option) action" where
  "service_gates fuel epoch ip =
     bindc (if fuel then (\<lambda>m. case consume_fuel_step (ma_inner m) of (st, s) \<Rightarrow> (Inr st, m\<lparr>ma_inner := s\<rparr>)) else ret FuelRan) (\<lambda>st.
     if st \<noteq> FuelRan then fail (Trapped OutOfFuel) else
     bindc (getc (\<lambda>m. epoch \<and> epoch_deadline_reached (ma_inner m))) (\<lambda>due.
     if due then bindc (set_top_ip ''missing frame at epoch deadline'' ip) (\<lambda>_. ret (Some EpochDeadline)) else ret None))"

definition service_gc_pressure :: "(machine, unit) action" where
  "service_gc_pressure =
     bindc (getc (\<lambda>m. footprint_over_floor (si_gc (ma_inner m)))) (\<lambda>big.
     if big then bindc (\<lambda>m. case take_gc_request (ma_inner m) of (q, s) \<Rightarrow> (Inr q, m\<lparr>ma_inner := s\<rparr>)) (\<lambda>q.
       if q then gc_collect_now else ret ()) else ret ())"

end
