(* ===== verification/Exec_Control.thy ===== *)
theory Exec_Control
  imports Exec_Cast Exec_Reserve
begin

text \<open>
  Calls (\<^verbatim>\<open>src/exec/call.rs\<close>) and exceptions (\<^verbatim>\<open>src/exec/exn.rs\<close>): resolving a callee, the signature
  check of an indirect call, raising an exception and the unwinder that searches the frames for a
  handler. Backtraces are not modelled: capturing one changes neither the stacks nor the store's
  behaviour.
\<close>

section \<open>Calls\<close>

datatype call_kind = CallNested nat | CallTail

text \<open>The compiled function of a code handle is looked up at every use; here its index is checked once, when the handle is
  made.\<close>

definition module_code :: "module_inner \<Rightarrow> nat \<Rightarrow> code result" where
  "module_code m fi = (if mi_num_imported_funcs m \<le> fi \<and> fi - mi_num_imported_funcs m < length (mi_functions m)
     then Inr \<lparr>co_module = m, co_index = fi - mi_num_imported_funcs m\<rparr> else Inl (Panic ''function index out of bounds''))"

definition resolve_call :: "func_handle \<Rightarrow> store_inner \<Rightarrow> resolved_call result" where
  "resolve_call f s = bindr (func_at f s) (\<lambda>fe. case fe of
     FuncWasm inst fi \<Rightarrow> bindr (module_of inst s) (\<lambda>m. bindr (module_code m fi) (\<lambda>c. Inr (ResolvedWasm inst fi c)))
   | FuncHost _ _ _ \<Rightarrow> Inr (ResolvedHost f))"

fun mat_vals :: "cval list \<Rightarrow> val_type list result" where
  "mat_vals [] = Inr []"
| "mat_vals (c # cs) = bindr (mat_val c) (\<lambda>t. bindr (mat_vals cs) (\<lambda>ts. Inr (t # ts)))"

definition func_sig :: "canonical_type_id \<Rightarrow> store_inner \<Rightarrow> (val_type list \<times> val_type list) result" where
  "func_sig tid s = (case func_body_raw (en_types (si_engine s)) tid of
     None \<Rightarrow> Inl (Msg ''not a live func type'')
   | Some (ps, rs) \<Rightarrow> bindr (mat_vals ps) (\<lambda>pt. bindr (mat_vals rs) (\<lambda>rt. Inr (pt, rt))))"

definition host_ty :: "func_handle \<Rightarrow> store_inner \<Rightarrow> canonical_type_id result" where
  "host_ty f s = bindr (func_at f s) (\<lambda>fe. case fe of
     FuncHost tid _ _ \<Rightarrow> Inr tid | FuncWasm _ _ \<Rightarrow> Inl (Panic ''resolve returned a host func''))"

text \<open>A \<^verbatim>\<open>FuncType\<close> handle keeps its type alive; the lookup that misses panics.\<close>

definition live_sig :: "canonical_type_id \<Rightarrow> store_inner \<Rightarrow> (val_type list \<times> val_type list) result" where
  "live_sig tid s = (case func_sig tid s of Inr x \<Rightarrow> Inr x | Inl _ \<Rightarrow> Inl (Panic ''live FuncType registration must retain its signature''))"

definition call_outcome :: "resolved_call \<Rightarrow> entity_handle \<Rightarrow> call_kind \<Rightarrow> store_inner \<Rightarrow> step_outcome result" where
  "call_outcome rc inst kind s = (case rc of
     ResolvedWasm di fi c \<Rightarrow>
       (let req = (\<lambda>rip. \<lparr>cr_return_ip = rip, cr_instance = di, cr_func_index = fi, cr_code = c\<rparr>) in
        case kind of CallTail \<Rightarrow> Inr (DoTailCall (req 0)) | CallNested rip \<Rightarrow> Inr (DoCall (req rip)))
   | ResolvedHost f \<Rightarrow> (case kind of
       CallTail \<Rightarrow> bindr (host_ty f s) (\<lambda>tid. bindr (live_sig tid s) (\<lambda>(ps, _). Inr (DoTailHostCall f inst (length ps))))
     | CallNested rip \<Rightarrow> Inr (DoHostCall f inst rip)))"

definition sig_ok :: "canonical_type_id \<Rightarrow> canonical_type_id \<Rightarrow> store_inner \<Rightarrow> unit result" where
  "sig_ok actual expected s = bindr (engine_is_subtype actual expected s) (\<lambda>ok.
     if ok then Inr () else Inl (Trapped BadSignature))"

definition host_sig_ok :: "func_handle \<Rightarrow> canonical_type_id \<Rightarrow> store_inner \<Rightarrow> unit result" where
  "host_sig_ok f expected s = bindr (host_ty f s) (\<lambda>tid. sig_ok tid expected s)"

definition check_callee :: "resolved_call \<Rightarrow> canonical_type_id \<Rightarrow> store_inner \<Rightarrow> unit result" where
  "check_callee rc expected s = (case rc of
     ResolvedWasm di _ c \<Rightarrow> bindr (module_of di s) (\<lambda>m. bindr (mi_type_id m (cf_type_idx (code_func c))) (\<lambda>actual. sig_ok actual expected s))
   | ResolvedHost f \<Rightarrow> host_sig_ok f expected s)"

definition do_call_indirect :: "entity_handle \<Rightarrow> nat \<Rightarrow> nat \<Rightarrow> call_kind \<Rightarrow> (machine, step_outcome) action" where
  "do_call_indirect inst type_idx table kind =
     bindc (inner_of (\<lambda>s. inst_handle ie_tables inst table s)) (\<lambda>h.
     bindc (inner_of (table_at h)) (\<lambda>te.
     bindc (pop_index (tt_table64 (te_ty te))) (\<lambda>idx.
     bindc (lift_res (case table_get_elem te idx of
         Some (RefFunc (Some f)) \<Rightarrow> Inr f
       | Some (RefFunc None) \<Rightarrow> Inl (Trapped IndirectCallToNull)
       | Some _ \<Rightarrow> Inl (Trapped BadSignature)
       | None \<Rightarrow> Inl (Trapped TableOutOfBounds))) (\<lambda>f.
     bindc (inner_of (module_of inst)) (\<lambda>md.
     bindc (lift_res (mi_type_id md type_idx)) (\<lambda>expected.
     bindc (inner_of (resolve_call f)) (\<lambda>rc.
     bindc (inner_of (check_callee rc expected)) (\<lambda>_.
     inner_of (call_outcome rc inst kind)))))))))"

definition do_call_ref :: "entity_handle \<Rightarrow> call_kind \<Rightarrow> (machine, step_outcome) action" where
  "do_call_ref inst kind =
     bindc (pop_ref RkFunc) (\<lambda>v.
     bindc (lift_res (to_ref v)) (\<lambda>r.
     bindc (lift_res (case r of RefFunc (Some f) \<Rightarrow> Inr f
       | RefFunc None \<Rightarrow> Inl (Trapped NullReference) | _ \<Rightarrow> Inl (Trapped BadSignature))) (\<lambda>f.
     bindc (inner_of (resolve_call f)) (\<lambda>rc. inner_of (call_outcome rc inst kind)))))"

section \<open>Exceptions\<close>

definition throw_exn :: "entity_handle \<Rightarrow> nat \<Rightarrow> nat \<Rightarrow> (machine, step_outcome) action" where
  "throw_exn inst tag_idx ip =
     bindc (inner_of (\<lambda>s. inst_handle ie_tags inst tag_idx s)) (\<lambda>tag.
     bindc (inner_of (tag_at tag)) (\<lambda>tid.
     bindc (inner_of (live_sig tid)) (\<lambda>(params, _).
     bindc (gc_reserve (exn_charge (length params)) ip) (\<lambda>out. case out of
       Some o' \<Rightarrow> ret o'
     | None \<Rightarrow>
       bindc (pop_params params) (\<lambda>args.
       bindc (on_inner (alloc_exn \<lparr>ee_tag = tag, ee_args = args\<rparr>)) (\<lambda>e. fail (Pending (ro_index e))))))))"

definition throw_ref :: "(machine, step_outcome) action" where
  "throw_ref = bindc (pop_ref RkExn) (\<lambda>v. case v of
     ExnRef (Some e) \<Rightarrow> fail (Pending (ro_index e))
   | ExnRef None \<Rightarrow> fail (Trapped NullReference)
   | _ \<Rightarrow> fail (Panic ''throw_ref operand is an exnref (validated)''))"

text \<open>The clauses of a span in order, the spans innermost first. A tag matches by its address in the store. The frame's
  instance is looked up only when a clause names a tag.\<close>

fun match_clause :: "entity_handle list result \<Rightarrow> entity_handle \<Rightarrow> handler_rec list \<Rightarrow> handler_rec option result" where
  "match_clause tags thrown [] = Inr None"
| "match_clause tags thrown (c # cs) = (case hr_tag c of
     None \<Rightarrow> Inr (Some c)
   | Some idx \<Rightarrow> bindr tags (\<lambda>ts. case get_at ts idx of
       None \<Rightarrow> Inl (Internal (Compiler ''exception handler tag is missing''))
     | Some t \<Rightarrow> (if eh_index t = eh_index thrown then Inr (Some c) else match_clause tags thrown cs)))"

fun find_in_spans :: "entity_handle list result \<Rightarrow> entity_handle \<Rightarrow> nat \<Rightarrow> handler_span list \<Rightarrow> handler_rec option result" where
  "find_in_spans tags thrown ip [] = Inr None"
| "find_in_spans tags thrown ip (sp # sps) = (if hs_start_ip sp \<le> ip \<and> ip < hs_end_ip sp
     then bindr (match_clause tags thrown (hs_clauses sp)) (\<lambda>r. case r of
        Some c \<Rightarrow> Inr (Some c) | None \<Rightarrow> find_in_spans tags thrown ip sps)
     else find_in_spans tags thrown ip sps)"

definition find_clause :: "code \<Rightarrow> nat \<Rightarrow> entity_handle \<Rightarrow> entity_handle \<Rightarrow> store_inner \<Rightarrow> handler_rec option result" where
  "find_clause c ip inst thrown s =
     find_in_spans (bindr (instance_at inst s) (\<lambda>i. Inr (ie_tags i))) thrown ip (code_handlers c)"

text \<open>Entering a handler: cut the stack to the height the clause restores, push the payload, go to the landing pad.\<close>

fun push_vals :: "val list \<Rightarrow> (machine, unit) action" where
  "push_vals [] = ret ()"
| "push_vals (v # vs) = bindc (push_val v) (\<lambda>_. push_vals vs)"

definition enter_exception_handler :: "u32 \<Rightarrow> handler_rec \<Rightarrow> nat \<Rightarrow> (machine, unit) action" where
  "enter_exception_handler exn c floor =
     bindc (lift_opt (operand_err ''exception restore height overflow'') (checked_add u32_max floor (hr_restore_height c))) (\<lambda>restore.
     bindc (ask (\<lambda>m. if length (ex_values m) \<noteq> length (ex_shadow m) \<or> length (ex_values m) < restore
       then Inl (operand_err ''exception restore height exceeds operand stack'') else Inr ())) (\<lambda>_.
     bindc (putc (truncate_to restore)) (\<lambda>_.
     bindc (if hr_payload_args c then bindc (inner_of (exn_at (rooted_from_raw exn RkExn))) (\<lambda>e. push_vals (ee_args e)) else ret ()) (\<lambda>_.
     bindc (if hr_payload_ref c then push_val (ExnRef (Some (rooted_from_raw exn RkExn))) else ret ()) (\<lambda>_.
     set_top_ip ''missing handler frame'' (hr_landing_ip c))))))"

definition pop_unwound_frame :: "nat \<Rightarrow> (machine, unit) action" where
  "pop_unwound_frame base =
     bindc (ask (\<lambda>m. if length (ex_values m) \<noteq> length (ex_shadow m) \<or> length (ex_values m) < base
       then Inl (operand_err ''frame base exceeds operand stack during unwind'') else Inr ())) (\<lambda>_.
     putc (\<lambda>m. truncate_to base (m\<lparr>ex_frames := butlast (ex_frames m)\<rparr>)))"

text \<open>The loop of \<^verbatim>\<open>unwind\<close> pops a frame per round; \<open>n\<close> bounds the rounds by the number of frames.\<close>

fun unwind_loop :: "nat \<Rightarrow> u32 \<Rightarrow> entity_handle \<Rightarrow> nat \<Rightarrow> nat \<Rightarrow> (machine, unit) action" where
  "unwind_loop 0 exn thrown fault_ip stop_depth = fail (Pending exn)"
| "unwind_loop (Suc n) exn thrown fault_ip stop_depth =
     bindc (getc (\<lambda>m. length (ex_frames m) \<le> stop_depth)) (\<lambda>out.
     if out then fail (Pending exn) else
     bindc (ask (last_frame ''missing frame during exception unwind'')) (\<lambda>f.
     bindc (inner_of (find_clause (fr_code f) fault_ip (fr_instance f) thrown)) (\<lambda>c. case c of
       Some h \<Rightarrow> enter_exception_handler exn h (fr_operand_base f)
     | None \<Rightarrow>
       bindc (pop_unwound_frame (fr_locals_base f)) (\<lambda>_.
       bindc (getc (\<lambda>m. length (ex_frames m) = stop_depth)) (\<lambda>out.
       if out then fail (Pending exn) else
       bindc (ask (last_frame ''missing caller frame during unwind'')) (\<lambda>f.
       bindc (lift_opt (frame_err ''caller return address underflow'') (checked_sub (fr_ip f) 1)) (\<lambda>ip.
       unwind_loop n exn thrown ip stop_depth)))))))"

definition unwind :: "error \<Rightarrow> nat \<Rightarrow> nat \<Rightarrow> (machine, unit) action" where
  "unwind err fault_ip stop_depth = (case err of
     Pending exn \<Rightarrow>
       bindc (inner_of (exn_at (rooted_from_raw exn RkExn))) (\<lambda>e.
       bindc (getc (\<lambda>m. length (ex_frames m))) (\<lambda>n. unwind_loop (Suc n) exn (ee_tag e) fault_ip stop_depth))
   | _ \<Rightarrow> fail err)"

definition raise_host_exception :: "rooted \<Rightarrow> nat \<Rightarrow> (machine, unit) action" where
  "raise_host_exception exn stop_depth =
     bindc (getc (\<lambda>m. length (ex_frames m) \<le> stop_depth)) (\<lambda>out.
     if out then fail (Pending (ro_index exn)) else
     bindc (ask (last_frame ''missing host call frame'')) (\<lambda>f.
     bindc (lift_opt (frame_err ''host call return address underflow'') (checked_sub (fr_ip f) 1)) (\<lambda>ip.
     bindc (inner_of (exn_at exn)) (\<lambda>_. unwind (Pending (ro_index exn)) ip stop_depth))))"

definition surface_exception :: "error \<Rightarrow> store_inner \<Rightarrow> error \<times> store_inner" where
  "surface_exception err s = (case err of
     Pending exn \<Rightarrow> (case exn_at (rooted_from_raw exn RkExn) s of
        Inl e \<Rightarrow> (e, s) | Inr _ \<Rightarrow> (ThrownException, set_pending_exception (rooted_from_raw exn RkExn) s))
   | _ \<Rightarrow> (err, s))"

end
