(* ===== verification/Float_Ops.thy ===== *)
theory Float_Ops
  imports Machine Ieee
begin

text \<open>
  Float instructions: NaN canonicalization, \<^verbatim>\<open>min\<close>, \<^verbatim>\<open>max\<close> and the operand plumbing of \<^verbatim>\<open>src/exec/arith.rs\<close>, the conversions of
  \<^verbatim>\<open>src/exec/convert.rs\<close>, and the float part of the dispatch of \<^verbatim>\<open>src/exec/numeric.rs\<close>. A float is its bit pattern, and its cell that of the integer
  with these bits; the operations of Rust are those of \<open>Ieee\<close>.
\<close>

section \<open>NaN, minimum and maximum\<close>

definition CANON_F32 :: u32 where
  "CANON_F32 = 0x7FC00000"

definition CANON_F64 :: u64 where
  "CANON_F64 = 0x7FF8000000000000"

definition QUIET_F32 :: u32 where
  "QUIET_F32 = 0x00400000"

definition QUIET_F64 :: u64 where
  "QUIET_F64 = 0x0008000000000000"

definition canon_f32 :: "u32 \<Rightarrow> bool \<Rightarrow> u32" where
  "canon_f32 r had_nan = (if \<not> f_nan 23 r then r else if had_nan then r OR QUIET_F32 else CANON_F32)"

definition canon_f64 :: "u64 \<Rightarrow> bool \<Rightarrow> u64" where
  "canon_f64 r had_nan = (if \<not> f_nan 52 r then r else if had_nan then r OR QUIET_F64 else CANON_F64)"

definition f32_min :: "u32 \<Rightarrow> u32 \<Rightarrow> u32" where
  "f32_min a b = (if f_nan 23 a \<or> f_nan 23 b then CANON_F32 else if f_eq 23 a b then a OR b else if f_lt 23 a b then a else b)"

definition f32_max :: "u32 \<Rightarrow> u32 \<Rightarrow> u32" where
  "f32_max a b = (if f_nan 23 a \<or> f_nan 23 b then CANON_F32 else if f_eq 23 a b then a AND b else if f_lt 23 b a then a else b)"

definition f64_min :: "u64 \<Rightarrow> u64 \<Rightarrow> u64" where
  "f64_min a b = (if f_nan 52 a \<or> f_nan 52 b then CANON_F64 else if f_eq 52 a b then a OR b else if f_lt 52 a b then a else b)"

definition f64_max :: "u64 \<Rightarrow> u64 \<Rightarrow> u64" where
  "f64_max a b = (if f_nan 52 a \<or> f_nan 52 b then CANON_F64 else if f_eq 52 a b then a AND b else if f_lt 52 b a then a else b)"

section \<open>Operand plumbing\<close>

definition bool_i32 :: "bool \<Rightarrow> u32" where
  "bool_i32 p = (if p then 1 else 0)"

definition f32_arith :: "(u32 \<Rightarrow> u32 \<Rightarrow> u32) \<Rightarrow> ('a execution_scheme, unit) action" where
  "f32_arith f = binop_cells (\<lambda>ac bc. let a = cell_i32 ac; b = cell_i32 bc in from_i32 (canon_f32 (f a b) (f_nan 23 a \<or> f_nan 23 b)))"

definition f32_binop :: "(u32 \<Rightarrow> u32 \<Rightarrow> u32) \<Rightarrow> ('a execution_scheme, unit) action" where
  "f32_binop f = binop_cells (\<lambda>a b. from_i32 (f (cell_i32 a) (cell_i32 b)))"

definition f32_unop :: "(u32 \<Rightarrow> u32) \<Rightarrow> ('a execution_scheme, unit) action" where
  "f32_unop f = unop_cell (\<lambda>a. from_i32 (f (cell_i32 a)))"

definition f32_unop_canon :: "(u32 \<Rightarrow> u32) \<Rightarrow> ('a execution_scheme, unit) action" where
  "f32_unop_canon f = unop_cell (\<lambda>ac. let a = cell_i32 ac in from_i32 (canon_f32 (f a) (f_nan 23 a)))"

definition f32_relop :: "(u32 \<Rightarrow> u32 \<Rightarrow> bool) \<Rightarrow> ('a execution_scheme, unit) action" where
  "f32_relop f = binop_cells (\<lambda>a b. from_i32 (bool_i32 (f (cell_i32 a) (cell_i32 b))))"

definition f64_arith :: "(u64 \<Rightarrow> u64 \<Rightarrow> u64) \<Rightarrow> ('a execution_scheme, unit) action" where
  "f64_arith f = binop_cells (\<lambda>ac bc. let a = cell_i64 ac; b = cell_i64 bc in from_i64 (canon_f64 (f a b) (f_nan 52 a \<or> f_nan 52 b)))"

definition f64_binop :: "(u64 \<Rightarrow> u64 \<Rightarrow> u64) \<Rightarrow> ('a execution_scheme, unit) action" where
  "f64_binop f = binop_cells (\<lambda>a b. from_i64 (f (cell_i64 a) (cell_i64 b)))"

definition f64_unop :: "(u64 \<Rightarrow> u64) \<Rightarrow> ('a execution_scheme, unit) action" where
  "f64_unop f = unop_cell (\<lambda>a. from_i64 (f (cell_i64 a)))"

definition f64_unop_canon :: "(u64 \<Rightarrow> u64) \<Rightarrow> ('a execution_scheme, unit) action" where
  "f64_unop_canon f = unop_cell (\<lambda>ac. let a = cell_i64 ac in from_i64 (canon_f64 (f a) (f_nan 52 a)))"

definition f64_relop :: "(u64 \<Rightarrow> u64 \<Rightarrow> bool) \<Rightarrow> ('a execution_scheme, unit) action" where
  "f64_relop f = binop_cells (\<lambda>a b. from_i32 (bool_i32 (f (cell_i64 a) (cell_i64 b))))"

section \<open>Conversions\<close>

definition bad_conv :: error where
  "bad_conv = Trapped BadConversionToInteger"

definition overflow :: error where
  "overflow = Trapped IntegerOverflow"

text \<open>Trapping truncation compares with the bounds, as floats; saturating truncation is the cast.\<close>

definition i32_trunc_f32_s :: "u32 \<Rightarrow> u32 result" where
  "i32_trunc_f32_s x = (if f_nan 23 x then Inl bad_conv else let t = f_integral 23 towards_zero x in
     if f_le 23 (f_of_int 23 (- 2147483648)) t \<and> f_lt 23 t (f_of_int 23 2147483648) then Inr (word_of_int (f_to_int 23 (- 2147483648) 2147483647 t)) else Inl overflow)"

definition i32_trunc_f32_u :: "u32 \<Rightarrow> u32 result" where
  "i32_trunc_f32_u x = (if f_nan 23 x then Inl bad_conv else let t = f_integral 23 towards_zero x in
     if f_le 23 (f_of_int 23 (0)) t \<and> f_lt 23 t (f_of_int 23 4294967296) then Inr (word_of_int (f_to_int 23 (0) 4294967295 t)) else Inl overflow)"

definition i32_trunc_f64_s :: "u64 \<Rightarrow> u32 result" where
  "i32_trunc_f64_s x = (if f_nan 52 x then Inl bad_conv else let t = f_integral 52 towards_zero x in
     if f_le 52 (f_of_int 52 (- 2147483648)) t \<and> f_lt 52 t (f_of_int 52 2147483648) then Inr (word_of_int (f_to_int 52 (- 2147483648) 2147483647 t)) else Inl overflow)"

definition i32_trunc_f64_u :: "u64 \<Rightarrow> u32 result" where
  "i32_trunc_f64_u x = (if f_nan 52 x then Inl bad_conv else let t = f_integral 52 towards_zero x in
     if f_le 52 (f_of_int 52 (0)) t \<and> f_lt 52 t (f_of_int 52 4294967296) then Inr (word_of_int (f_to_int 52 (0) 4294967295 t)) else Inl overflow)"

definition i64_trunc_f32_s :: "u32 \<Rightarrow> u64 result" where
  "i64_trunc_f32_s x = (if f_nan 23 x then Inl bad_conv else let t = f_integral 23 towards_zero x in
     if f_le 23 (f_of_int 23 (- 9223372036854775808)) t \<and> f_lt 23 t (f_of_int 23 9223372036854775808) then Inr (word_of_int (f_to_int 23 (- 9223372036854775808) 9223372036854775807 t)) else Inl overflow)"

definition i64_trunc_f32_u :: "u32 \<Rightarrow> u64 result" where
  "i64_trunc_f32_u x = (if f_nan 23 x then Inl bad_conv else let t = f_integral 23 towards_zero x in
     if f_le 23 (f_of_int 23 (0)) t \<and> f_lt 23 t (f_of_int 23 18446744073709551616) then Inr (word_of_int (f_to_int 23 (0) 18446744073709551615 t)) else Inl overflow)"

definition i64_trunc_f64_s :: "u64 \<Rightarrow> u64 result" where
  "i64_trunc_f64_s x = (if f_nan 52 x then Inl bad_conv else let t = f_integral 52 towards_zero x in
     if f_le 52 (f_of_int 52 (- 9223372036854775808)) t \<and> f_lt 52 t (f_of_int 52 9223372036854775808) then Inr (word_of_int (f_to_int 52 (- 9223372036854775808) 9223372036854775807 t)) else Inl overflow)"

definition i64_trunc_f64_u :: "u64 \<Rightarrow> u64 result" where
  "i64_trunc_f64_u x = (if f_nan 52 x then Inl bad_conv else let t = f_integral 52 towards_zero x in
     if f_le 52 (f_of_int 52 (0)) t \<and> f_lt 52 t (f_of_int 52 18446744073709551616) then Inr (word_of_int (f_to_int 52 (0) 18446744073709551615 t)) else Inl overflow)"

definition i32_trunc_sat_f32_s :: "u32 \<Rightarrow> u32" where
  "i32_trunc_sat_f32_s x = word_of_int (f_to_int 23 (- 2147483648) 2147483647 x)"

definition i32_trunc_sat_f32_u :: "u32 \<Rightarrow> u32" where
  "i32_trunc_sat_f32_u x = word_of_int (f_to_int 23 (0) 4294967295 x)"

definition i32_trunc_sat_f64_s :: "u64 \<Rightarrow> u32" where
  "i32_trunc_sat_f64_s x = word_of_int (f_to_int 52 (- 2147483648) 2147483647 x)"

definition i32_trunc_sat_f64_u :: "u64 \<Rightarrow> u32" where
  "i32_trunc_sat_f64_u x = word_of_int (f_to_int 52 (0) 4294967295 x)"

definition i64_trunc_sat_f32_s :: "u32 \<Rightarrow> u64" where
  "i64_trunc_sat_f32_s x = word_of_int (f_to_int 23 (- 9223372036854775808) 9223372036854775807 x)"

definition i64_trunc_sat_f32_u :: "u32 \<Rightarrow> u64" where
  "i64_trunc_sat_f32_u x = word_of_int (f_to_int 23 (0) 18446744073709551615 x)"

definition i64_trunc_sat_f64_s :: "u64 \<Rightarrow> u64" where
  "i64_trunc_sat_f64_s x = word_of_int (f_to_int 52 (- 9223372036854775808) 9223372036854775807 x)"

definition i64_trunc_sat_f64_u :: "u64 \<Rightarrow> u64" where
  "i64_trunc_sat_f64_u x = word_of_int (f_to_int 52 (0) 18446744073709551615 x)"

definition f32_convert_i32_s :: "u32 \<Rightarrow> u32" where
  "f32_convert_i32_s x = f_of_int 23 (sint x)"

definition f32_convert_i32_u :: "u32 \<Rightarrow> u32" where
  "f32_convert_i32_u x = f_of_int 23 (uint x)"

definition f32_convert_i64_s :: "u64 \<Rightarrow> u32" where
  "f32_convert_i64_s x = f_of_int 23 (sint x)"

definition f32_convert_i64_u :: "u64 \<Rightarrow> u32" where
  "f32_convert_i64_u x = f_of_int 23 (uint x)"

definition f64_convert_i32_s :: "u32 \<Rightarrow> u64" where
  "f64_convert_i32_s x = f_of_int 52 (sint x)"

definition f64_convert_i32_u :: "u32 \<Rightarrow> u64" where
  "f64_convert_i32_u x = f_of_int 52 (uint x)"

definition f64_convert_i64_s :: "u64 \<Rightarrow> u64" where
  "f64_convert_i64_s x = f_of_int 52 (sint x)"

definition f64_convert_i64_u :: "u64 \<Rightarrow> u64" where
  "f64_convert_i64_u x = f_of_int 52 (uint x)"

definition f32_demote_f64 :: "u64 \<Rightarrow> u32" where
  "f32_demote_f64 x = f_demote x"

definition f64_promote_f32 :: "u32 \<Rightarrow> u64" where
  "f64_promote_f32 x = f_promote x"

section \<open>Dispatch\<close>

primrec f32_rel :: "float_rel \<Rightarrow> ('a execution_scheme, unit) action" where
  "f32_rel FEq = f32_relop (f_eq 23)"
| "f32_rel FNe = f32_relop (\<lambda>a b. \<not> f_eq 23 a b)"
| "f32_rel FLt = f32_relop (f_lt 23)"
| "f32_rel FGt = f32_relop (\<lambda>a b. f_lt 23 b a)"
| "f32_rel FLe = f32_relop (f_le 23)"
| "f32_rel FGe = f32_relop (\<lambda>a b. f_le 23 b a)"

primrec f32_un :: "float_un \<Rightarrow> ('a execution_scheme, unit) action" where
  "f32_un FAbs = f32_unop f_abs"
| "f32_un FNeg = f32_unop f_neg"
| "f32_un FCeil = f32_unop_canon (f_integral 23 upwards)"
| "f32_un FFloor = f32_unop_canon (f_integral 23 downwards)"
| "f32_un FTrunc = f32_unop_canon (f_integral 23 towards_zero)"
| "f32_un FNearest = f32_unop_canon (f_integral 23 ties_even)"
| "f32_un FSqrt = f32_unop_canon (f_sqrt 23)"

primrec f32_bin :: "float_bin \<Rightarrow> ('a execution_scheme, unit) action" where
  "f32_bin FAdd = f32_arith (f_add 23)"
| "f32_bin FSub = f32_arith (f_sub 23)"
| "f32_bin FMul = f32_arith (f_mul 23)"
| "f32_bin FDiv = f32_arith (f_div 23)"
| "f32_bin FMin = f32_binop f32_min"
| "f32_bin FMax = f32_binop f32_max"
| "f32_bin FCopysign = f32_binop f_copysign"

primrec f64_rel :: "float_rel \<Rightarrow> ('a execution_scheme, unit) action" where
  "f64_rel FEq = f64_relop (f_eq 52)"
| "f64_rel FNe = f64_relop (\<lambda>a b. \<not> f_eq 52 a b)"
| "f64_rel FLt = f64_relop (f_lt 52)"
| "f64_rel FGt = f64_relop (\<lambda>a b. f_lt 52 b a)"
| "f64_rel FLe = f64_relop (f_le 52)"
| "f64_rel FGe = f64_relop (\<lambda>a b. f_le 52 b a)"

primrec f64_un :: "float_un \<Rightarrow> ('a execution_scheme, unit) action" where
  "f64_un FAbs = f64_unop f_abs"
| "f64_un FNeg = f64_unop f_neg"
| "f64_un FCeil = f64_unop_canon (f_integral 52 upwards)"
| "f64_un FFloor = f64_unop_canon (f_integral 52 downwards)"
| "f64_un FTrunc = f64_unop_canon (f_integral 52 towards_zero)"
| "f64_un FNearest = f64_unop_canon (f_integral 52 ties_even)"
| "f64_un FSqrt = f64_unop_canon (f_sqrt 52)"

primrec f64_bin :: "float_bin \<Rightarrow> ('a execution_scheme, unit) action" where
  "f64_bin FAdd = f64_arith (f_add 52)"
| "f64_bin FSub = f64_arith (f_sub 52)"
| "f64_bin FMul = f64_arith (f_mul 52)"
| "f64_bin FDiv = f64_arith (f_div 52)"
| "f64_bin FMin = f64_binop f64_min"
| "f64_bin FMax = f64_binop f64_max"
| "f64_bin FCopysign = f64_binop f_copysign"

definition trunc_to_i32 :: "(u32 \<Rightarrow> u32 result) \<Rightarrow> ('a execution_scheme, unit) action" where
  "trunc_to_i32 f = bindc pop_f32_bits (\<lambda>x. bindc (lift_res (f x)) push_i32)"

definition trunc64_to_i32 :: "(u64 \<Rightarrow> u32 result) \<Rightarrow> ('a execution_scheme, unit) action" where
  "trunc64_to_i32 f = bindc pop_f64_bits (\<lambda>x. bindc (lift_res (f x)) push_i32)"

definition trunc_to_i64 :: "(u32 \<Rightarrow> u64 result) \<Rightarrow> ('a execution_scheme, unit) action" where
  "trunc_to_i64 f = bindc pop_f32_bits (\<lambda>x. bindc (lift_res (f x)) push_i64)"

definition trunc64_to_i64 :: "(u64 \<Rightarrow> u64 result) \<Rightarrow> ('a execution_scheme, unit) action" where
  "trunc64_to_i64 f = bindc pop_f64_bits (\<lambda>x. bindc (lift_res (f x)) push_i64)"

definition map_f32_i32 :: "(u32 \<Rightarrow> u32) \<Rightarrow> ('a execution_scheme, unit) action" where
  "map_f32_i32 f = bindc pop_f32_bits (\<lambda>x. push_i32 (f x))"

definition map_f64_i32 :: "(u64 \<Rightarrow> u32) \<Rightarrow> ('a execution_scheme, unit) action" where
  "map_f64_i32 f = bindc pop_f64_bits (\<lambda>x. push_i32 (f x))"

definition map_f32_i64 :: "(u32 \<Rightarrow> u64) \<Rightarrow> ('a execution_scheme, unit) action" where
  "map_f32_i64 f = bindc pop_f32_bits (\<lambda>x. push_i64 (f x))"

definition map_f64_i64 :: "(u64 \<Rightarrow> u64) \<Rightarrow> ('a execution_scheme, unit) action" where
  "map_f64_i64 f = bindc pop_f64_bits (\<lambda>x. push_i64 (f x))"

definition map_i32_f32 :: "(u32 \<Rightarrow> u32) \<Rightarrow> ('a execution_scheme, unit) action" where
  "map_i32_f32 f = bindc pop_i32 (\<lambda>x. push_f32_bits (f x))"

definition map_i64_f32 :: "(u64 \<Rightarrow> u32) \<Rightarrow> ('a execution_scheme, unit) action" where
  "map_i64_f32 f = bindc pop_i64 (\<lambda>x. push_f32_bits (f x))"

definition map_f64_f32 :: "(u64 \<Rightarrow> u32) \<Rightarrow> ('a execution_scheme, unit) action" where
  "map_f64_f32 f = bindc pop_f64_bits (\<lambda>x. push_f32_bits (f x))"

definition map_i32_f64 :: "(u32 \<Rightarrow> u64) \<Rightarrow> ('a execution_scheme, unit) action" where
  "map_i32_f64 f = bindc pop_i32 (\<lambda>x. push_f64_bits (f x))"

definition map_i64_f64 :: "(u64 \<Rightarrow> u64) \<Rightarrow> ('a execution_scheme, unit) action" where
  "map_i64_f64 f = bindc pop_i64 (\<lambda>x. push_f64_bits (f x))"

definition map_f32_f64 :: "(u32 \<Rightarrow> u64) \<Rightarrow> ('a execution_scheme, unit) action" where
  "map_f32_f64 f = bindc pop_f32_bits (\<lambda>x. push_f64_bits (f x))"

primrec exec_conv :: "conv_op \<Rightarrow> ('a execution_scheme, unit) action" where
  "exec_conv I32TruncF32S = trunc_to_i32 i32_trunc_f32_s"
| "exec_conv I32TruncF32U = trunc_to_i32 i32_trunc_f32_u"
| "exec_conv I32TruncF64S = trunc64_to_i32 i32_trunc_f64_s"
| "exec_conv I32TruncF64U = trunc64_to_i32 i32_trunc_f64_u"
| "exec_conv I64TruncF32S = trunc_to_i64 i64_trunc_f32_s"
| "exec_conv I64TruncF32U = trunc_to_i64 i64_trunc_f32_u"
| "exec_conv I64TruncF64S = trunc64_to_i64 i64_trunc_f64_s"
| "exec_conv I64TruncF64U = trunc64_to_i64 i64_trunc_f64_u"
| "exec_conv I32TruncSatF32S = map_f32_i32 i32_trunc_sat_f32_s"
| "exec_conv I32TruncSatF32U = map_f32_i32 i32_trunc_sat_f32_u"
| "exec_conv I32TruncSatF64S = map_f64_i32 i32_trunc_sat_f64_s"
| "exec_conv I32TruncSatF64U = map_f64_i32 i32_trunc_sat_f64_u"
| "exec_conv I64TruncSatF32S = map_f32_i64 i64_trunc_sat_f32_s"
| "exec_conv I64TruncSatF32U = map_f32_i64 i64_trunc_sat_f32_u"
| "exec_conv I64TruncSatF64S = map_f64_i64 i64_trunc_sat_f64_s"
| "exec_conv I64TruncSatF64U = map_f64_i64 i64_trunc_sat_f64_u"
| "exec_conv F32ConvertI32S = map_i32_f32 f32_convert_i32_s"
| "exec_conv F32ConvertI32U = map_i32_f32 f32_convert_i32_u"
| "exec_conv F32ConvertI64S = map_i64_f32 f32_convert_i64_s"
| "exec_conv F32ConvertI64U = map_i64_f32 f32_convert_i64_u"
| "exec_conv F64ConvertI32S = map_i32_f64 f64_convert_i32_s"
| "exec_conv F64ConvertI32U = map_i32_f64 f64_convert_i32_u"
| "exec_conv F64ConvertI64S = map_i64_f64 f64_convert_i64_s"
| "exec_conv F64ConvertI64U = map_i64_f64 f64_convert_i64_u"
| "exec_conv F32DemoteF64 = map_f64_f32 f32_demote_f64"
| "exec_conv F64PromoteF32 = map_f32_f64 f64_promote_f32"

end
