(* ===== verification/Exec_Numeric.thy ===== *)
theory Exec_Numeric
  imports Float_Ops "HOL-Library.Signed_Division"
begin

text \<open>
  Integer arithmetic: the checked divisions and the operand plumbing of \<^verbatim>\<open>src/exec/arith.rs\<close>, the
  integer conversions of \<^verbatim>\<open>src/exec/convert.rs\<close>, and the dispatch
  \<^verbatim>\<open>exec_numeric\<close> of \<^verbatim>\<open>src/exec/numeric.rs\<close>. An \<^verbatim>\<open>i32\<close> and a \<^verbatim>\<open>u32\<close> are the same 32 bits, a
  word; a signed operation reads it with \<open>sint\<close>, an unsigned one with \<open>uint\<close>. The float part is in \<open>Float_Ops\<close>.
\<close>

section \<open>Rust's integer operations\<close>

text \<open>Signed division truncates towards zero; \<^verbatim>\<open>wrapping_rem\<close> is total for a divisor other than zero;
  \<^verbatim>\<open>wrapping_shl\<close> and \<^verbatim>\<open>wrapping_shr\<close> take the shift amount modulo the width.\<close>

definition wrapping_shl :: "'a::len word \<Rightarrow> u32 \<Rightarrow> 'a word" where
  "wrapping_shl a n = push_bit (unat n mod LENGTH('a)) a"

definition wrapping_shr_u :: "'a::len word \<Rightarrow> u32 \<Rightarrow> 'a word" where
  "wrapping_shr_u a n = drop_bit (unat n mod LENGTH('a)) a"

definition wrapping_shr_s :: "'a::len word \<Rightarrow> u32 \<Rightarrow> 'a word" where
  "wrapping_shr_s a n = signed_drop_bit (unat n mod LENGTH('a)) a"

definition wrapping_rem :: "'a::len word \<Rightarrow> 'a word \<Rightarrow> 'a word" where
  "wrapping_rem a b = word_of_int (sint a smod sint b)"

definition leading_zeros :: "'a::len word \<Rightarrow> nat" where
  "leading_zeros w = length (takeWhile (\<lambda>i. \<not> bit w i) (rev [0..<LENGTH('a)]))"

definition trailing_zeros :: "'a::len word \<Rightarrow> nat" where
  "trailing_zeros w = length (takeWhile (\<lambda>i. \<not> bit w i) [0..<LENGTH('a)])"

definition count_ones :: "'a::len word \<Rightarrow> nat" where
  "count_ones w = length (filter (bit w) [0..<LENGTH('a)])"

section \<open>Division that traps\<close>

definition nz :: "'a::len word \<Rightarrow> unit result" where
  "nz b = (if b = 0 then Inl (Trapped IntegerDivisionByZero) else Inr ())"

definition div_s_i32 :: "u32 \<Rightarrow> u32 \<Rightarrow> u32 result" where
  "div_s_i32 a b = (if b = 0 then Inl (Trapped IntegerDivisionByZero)
     else if a = 0x80000000 \<and> b = -1 then Inl (Trapped IntegerOverflow)
     else Inr (word_of_int (sint a sdiv sint b)))"

definition div_s_i64 :: "u64 \<Rightarrow> u64 \<Rightarrow> u64 result" where
  "div_s_i64 a b = (if b = 0 then Inl (Trapped IntegerDivisionByZero)
     else if a = 0x8000000000000000 \<and> b = -1 then Inl (Trapped IntegerOverflow)
     else Inr (word_of_int (sint a sdiv sint b)))"

section \<open>Operand plumbing\<close>

text \<open>The signed and unsigned variants differ only in how the closure they are given reads its words.\<close>

definition i32_binop :: "(u32 \<Rightarrow> u32 \<Rightarrow> u32) \<Rightarrow> ('a execution_scheme, unit) action" where
  "i32_binop f = binop_cells (\<lambda>a b. from_i32 (f (cell_i32 a) (cell_i32 b)))"

definition i32_unop :: "(u32 \<Rightarrow> u32) \<Rightarrow> ('a execution_scheme, unit) action" where
  "i32_unop f = unop_cell (\<lambda>a. from_i32 (f (cell_i32 a)))"

definition i32_relop :: "(u32 \<Rightarrow> u32 \<Rightarrow> bool) \<Rightarrow> ('a execution_scheme, unit) action" where
  "i32_relop f = binop_cells (\<lambda>a b. from_i32 (bool_i32 (f (cell_i32 a) (cell_i32 b))))"

definition u32_binop :: "(u32 \<Rightarrow> u32 \<Rightarrow> u32) \<Rightarrow> ('a execution_scheme, unit) action" where
  "u32_binop f = binop_cells (\<lambda>a b. from_i32 (f (cell_i32 a) (cell_i32 b)))"

definition u32_relop :: "(u32 \<Rightarrow> u32 \<Rightarrow> bool) \<Rightarrow> ('a execution_scheme, unit) action" where
  "u32_relop f = binop_cells (\<lambda>a b. from_i32 (bool_i32 (f (cell_i32 a) (cell_i32 b))))"

definition i32_try_binop :: "(u32 \<Rightarrow> u32 \<Rightarrow> u32 result) \<Rightarrow> ('a execution_scheme, unit) action" where
  "i32_try_binop f = binop_cells_try (\<lambda>a b. bindr (f (cell_i32 a) (cell_i32 b)) (\<lambda>r. Inr (from_i32 r)))"

definition u32_try_binop :: "(u32 \<Rightarrow> u32 \<Rightarrow> u32 result) \<Rightarrow> ('a execution_scheme, unit) action" where
  "u32_try_binop f = binop_cells_try (\<lambda>a b. bindr (f (cell_i32 a) (cell_i32 b)) (\<lambda>r. Inr (from_i32 r)))"

definition i64_binop :: "(u64 \<Rightarrow> u64 \<Rightarrow> u64) \<Rightarrow> ('a execution_scheme, unit) action" where
  "i64_binop f = binop_cells (\<lambda>a b. from_i64 (f (cell_i64 a) (cell_i64 b)))"

definition i64_unop :: "(u64 \<Rightarrow> u64) \<Rightarrow> ('a execution_scheme, unit) action" where
  "i64_unop f = unop_cell (\<lambda>a. from_i64 (f (cell_i64 a)))"

definition i64_relop :: "(u64 \<Rightarrow> u64 \<Rightarrow> bool) \<Rightarrow> ('a execution_scheme, unit) action" where
  "i64_relop f = binop_cells (\<lambda>a b. from_i32 (bool_i32 (f (cell_i64 a) (cell_i64 b))))"

definition u64_binop :: "(u64 \<Rightarrow> u64 \<Rightarrow> u64) \<Rightarrow> ('a execution_scheme, unit) action" where
  "u64_binop f = binop_cells (\<lambda>a b. from_i64 (f (cell_i64 a) (cell_i64 b)))"

definition u64_relop :: "(u64 \<Rightarrow> u64 \<Rightarrow> bool) \<Rightarrow> ('a execution_scheme, unit) action" where
  "u64_relop f = binop_cells (\<lambda>a b. from_i32 (bool_i32 (f (cell_i64 a) (cell_i64 b))))"

definition i64_try_binop :: "(u64 \<Rightarrow> u64 \<Rightarrow> u64 result) \<Rightarrow> ('a execution_scheme, unit) action" where
  "i64_try_binop f = binop_cells_try (\<lambda>a b. bindr (f (cell_i64 a) (cell_i64 b)) (\<lambda>r. Inr (from_i64 r)))"

definition u64_try_binop :: "(u64 \<Rightarrow> u64 \<Rightarrow> u64 result) \<Rightarrow> ('a execution_scheme, unit) action" where
  "u64_try_binop f = binop_cells_try (\<lambda>a b. bindr (f (cell_i64 a) (cell_i64 b)) (\<lambda>r. Inr (from_i64 r)))"

section \<open>Conversions\<close>

definition i32_wrap_i64 :: "u64 \<Rightarrow> u32" where
  "i32_wrap_i64 x = ucast x"

definition i64_extend_i32_s :: "u32 \<Rightarrow> u64" where
  "i64_extend_i32_s x = scast x"

definition i64_extend_i32_u :: "u32 \<Rightarrow> u64" where
  "i64_extend_i32_u x = ucast x"

section \<open>Dispatch\<close>

fun i32_rel :: "cmp_kind \<Rightarrow> ('a execution_scheme, unit) action" where
  "i32_rel CEq = i32_relop (\<lambda>a b. a = b)"
| "i32_rel CNe = i32_relop (\<lambda>a b. a \<noteq> b)"
| "i32_rel CLtS = i32_relop (\<lambda>a b. sint a < sint b)"
| "i32_rel CLtU = u32_relop (\<lambda>a b. a < b)"
| "i32_rel CGtS = i32_relop (\<lambda>a b. sint a > sint b)"
| "i32_rel CGtU = u32_relop (\<lambda>a b. a > b)"
| "i32_rel CLeS = i32_relop (\<lambda>a b. sint a \<le> sint b)"
| "i32_rel CLeU = u32_relop (\<lambda>a b. a \<le> b)"
| "i32_rel CGeS = i32_relop (\<lambda>a b. sint a \<ge> sint b)"
| "i32_rel CGeU = u32_relop (\<lambda>a b. a \<ge> b)"

fun i64_rel :: "cmp_kind \<Rightarrow> ('a execution_scheme, unit) action" where
  "i64_rel CEq = i64_relop (\<lambda>a b. a = b)"
| "i64_rel CNe = i64_relop (\<lambda>a b. a \<noteq> b)"
| "i64_rel CLtS = i64_relop (\<lambda>a b. sint a < sint b)"
| "i64_rel CLtU = u64_relop (\<lambda>a b. a < b)"
| "i64_rel CGtS = i64_relop (\<lambda>a b. sint a > sint b)"
| "i64_rel CGtU = u64_relop (\<lambda>a b. a > b)"
| "i64_rel CLeS = i64_relop (\<lambda>a b. sint a \<le> sint b)"
| "i64_rel CLeU = u64_relop (\<lambda>a b. a \<le> b)"
| "i64_rel CGeS = i64_relop (\<lambda>a b. sint a \<ge> sint b)"
| "i64_rel CGeU = u64_relop (\<lambda>a b. a \<ge> b)"

fun i32_un :: "int_un \<Rightarrow> ('a execution_scheme, unit) action" where
  "i32_un UClz = i32_unop (\<lambda>a. of_nat (leading_zeros a))"
| "i32_un UCtz = i32_unop (\<lambda>a. of_nat (trailing_zeros a))"
| "i32_un UPopcnt = i32_unop (\<lambda>a. of_nat (count_ones a))"
| "i32_un UExtend8S = i32_unop (\<lambda>a. scast (ucast a :: u8))"
| "i32_un UExtend16S = i32_unop (\<lambda>a. scast (ucast a :: u16))"

fun i64_un :: "int_un \<Rightarrow> ('a execution_scheme, unit) action" where
  "i64_un UClz = i64_unop (\<lambda>a. of_nat (leading_zeros a))"
| "i64_un UCtz = i64_unop (\<lambda>a. of_nat (trailing_zeros a))"
| "i64_un UPopcnt = i64_unop (\<lambda>a. of_nat (count_ones a))"
| "i64_un UExtend8S = i64_unop (\<lambda>a. scast (ucast a :: u8))"
| "i64_un UExtend16S = i64_unop (\<lambda>a. scast (ucast a :: u16))"

fun i32_bin :: "int_bin \<Rightarrow> ('a execution_scheme, unit) action" where
  "i32_bin BAdd = i32_binop (+)"
| "i32_bin BSub = i32_binop (-)"
| "i32_bin BMul = i32_binop (*)"
| "i32_bin BDivS = i32_try_binop div_s_i32"
| "i32_bin BDivU = u32_try_binop (\<lambda>a b. bindr (nz b) (\<lambda>_. Inr (a div b)))"
| "i32_bin BRemS = i32_try_binop (\<lambda>a b. bindr (nz b) (\<lambda>_. Inr (wrapping_rem a b)))"
| "i32_bin BRemU = u32_try_binop (\<lambda>a b. bindr (nz b) (\<lambda>_. Inr (a mod b)))"
| "i32_bin BAnd = i32_binop (\<lambda>a b. a AND b)"
| "i32_bin BOr = i32_binop (\<lambda>a b. a OR b)"
| "i32_bin BXor = i32_binop (\<lambda>a b. a XOR b)"
| "i32_bin BShl = i32_binop (\<lambda>a b. wrapping_shl a b)"
| "i32_bin BShrS = i32_binop (\<lambda>a b. wrapping_shr_s a b)"
| "i32_bin BShrU = u32_binop (\<lambda>a b. wrapping_shr_u a b)"
| "i32_bin BRotl = u32_binop (\<lambda>a b. word_rotl (unat (b mod 32)) a)"
| "i32_bin BRotr = u32_binop (\<lambda>a b. word_rotr (unat (b mod 32)) a)"

text \<open>\<^verbatim>\<open>b as u32\<close> keeps the low half of the 64-bit shift amount.\<close>

fun i64_bin :: "int_bin \<Rightarrow> ('a execution_scheme, unit) action" where
  "i64_bin BAdd = i64_binop (+)"
| "i64_bin BSub = i64_binop (-)"
| "i64_bin BMul = i64_binop (*)"
| "i64_bin BDivS = i64_try_binop div_s_i64"
| "i64_bin BDivU = u64_try_binop (\<lambda>a b. bindr (nz b) (\<lambda>_. Inr (a div b)))"
| "i64_bin BRemS = i64_try_binop (\<lambda>a b. bindr (nz b) (\<lambda>_. Inr (wrapping_rem a b)))"
| "i64_bin BRemU = u64_try_binop (\<lambda>a b. bindr (nz b) (\<lambda>_. Inr (a mod b)))"
| "i64_bin BAnd = i64_binop (\<lambda>a b. a AND b)"
| "i64_bin BOr = i64_binop (\<lambda>a b. a OR b)"
| "i64_bin BXor = i64_binop (\<lambda>a b. a XOR b)"
| "i64_bin BShl = i64_binop (\<lambda>a b. wrapping_shl a (ucast b))"
| "i64_bin BShrS = i64_binop (\<lambda>a b. wrapping_shr_s a (ucast b))"
| "i64_bin BShrU = u64_binop (\<lambda>a b. wrapping_shr_u a (ucast b))"
| "i64_bin BRotl = u64_binop (\<lambda>a b. word_rotl (unat (ucast (b mod 64) :: u32)) a)"
| "i64_bin BRotr = u64_binop (\<lambda>a b. word_rotr (unat (ucast (b mod 64) :: u32)) a)"

definition exec_numeric :: "numeric_op \<Rightarrow> ('a execution_scheme, unit) action" where
  "exec_numeric op = (case op of
     NI32Eqz \<Rightarrow> i32_unop (\<lambda>a. bool_i32 (a = 0))
   | NI32Rel k \<Rightarrow> i32_rel k
   | NI32Un u \<Rightarrow> i32_un u
   | NI32Bin b \<Rightarrow> i32_bin b
   | NI64Eqz \<Rightarrow> bindc pop_i64 (\<lambda>a. push_i32 (bool_i32 (a = 0)))
   | NI64Rel k \<Rightarrow> i64_rel k
   | NI64Un u \<Rightarrow> i64_un u
   | NI64Bin b \<Rightarrow> i64_bin b
   | NI64Extend32S \<Rightarrow> i64_unop (\<lambda>a. scast (ucast a :: u32))
   | NI32WrapI64 \<Rightarrow> bindc pop_i64 (\<lambda>x. push_i32 (i32_wrap_i64 x))
   | NI64ExtendI32S \<Rightarrow> bindc pop_i32 (\<lambda>x. push_i64 (i64_extend_i32_s x))
   | NI64ExtendI32U \<Rightarrow> bindc pop_i32 (\<lambda>x. push_i64 (i64_extend_i32_u x))
   | NI32ReinterpretF32 \<Rightarrow> bindc pop_f32_bits (\<lambda>x. push_i32 x)
   | NI64ReinterpretF64 \<Rightarrow> bindc pop_f64_bits (\<lambda>x. push_i64 x)
   | NF32ReinterpretI32 \<Rightarrow> bindc pop_i32 (\<lambda>x. push_f32_bits x)
   | NF64ReinterpretI64 \<Rightarrow> bindc pop_i64 (\<lambda>x. push_f64_bits x)
   | NF32Rel k \<Rightarrow> f32_rel k
   | NF32Un u \<Rightarrow> f32_un u
   | NF32Bin b \<Rightarrow> f32_bin b
   | NF64Rel k \<Rightarrow> f64_rel k
   | NF64Un u \<Rightarrow> f64_un u
   | NF64Bin b \<Rightarrow> f64_bin b
   | NConv c \<Rightarrow> exec_conv c)"

section \<open>The reference: integer operators on mathematical integers\<close>

text \<open>The operators as the WebAssembly specification defines them, on integers \<open>0 \<le> i < 2 ^ N\<close>
  with \<open>signed_of\<close> as their two's-complement reading.\<close>

definition signed_of :: "nat \<Rightarrow> int \<Rightarrow> int" where
  "signed_of N i = (if i < 2 ^ (N - 1) then i else i - 2 ^ N)"

definition trunc_quot :: "int \<Rightarrow> int \<Rightarrow> int" where
  "trunc_quot x y = sgn x * sgn y * (\<bar>x\<bar> div \<bar>y\<bar>)"

definition wasm_bin :: "nat \<Rightarrow> int_bin \<Rightarrow> int \<Rightarrow> int \<Rightarrow> trap + int" where
  "wasm_bin N op i j = (let k = nat (j mod int N) in case op of
     BAdd \<Rightarrow> Inr ((i + j) mod 2 ^ N)
   | BSub \<Rightarrow> Inr ((i - j) mod 2 ^ N)
   | BMul \<Rightarrow> Inr ((i * j) mod 2 ^ N)
   | BDivU \<Rightarrow> (if j = 0 then Inl IntegerDivisionByZero else Inr (i div j))
   | BRemU \<Rightarrow> (if j = 0 then Inl IntegerDivisionByZero else Inr (i mod j))
   | BDivS \<Rightarrow> (if j = 0 then Inl IntegerDivisionByZero
       else let q = trunc_quot (signed_of N i) (signed_of N j)
         in if q = 2 ^ (N - 1) then Inl IntegerOverflow else Inr (q mod 2 ^ N))
   | BRemS \<Rightarrow> (if j = 0 then Inl IntegerDivisionByZero
       else Inr ((signed_of N i - signed_of N j * trunc_quot (signed_of N i) (signed_of N j)) mod 2 ^ N))
   | BAnd \<Rightarrow> Inr (i AND j)
   | BOr \<Rightarrow> Inr (i OR j)
   | BXor \<Rightarrow> Inr (i XOR j)
   | BShl \<Rightarrow> Inr ((i * 2 ^ k) mod 2 ^ N)
   | BShrU \<Rightarrow> Inr (i div 2 ^ k)
   | BShrS \<Rightarrow> Inr ((signed_of N i div 2 ^ k) mod 2 ^ N)
   | BRotl \<Rightarrow> Inr ((i * 2 ^ k) mod 2 ^ N + i div 2 ^ (N - k))
   | BRotr \<Rightarrow> Inr (i div 2 ^ k + (i * 2 ^ (N - k)) mod 2 ^ N))"

text \<open>Comparisons of the specification, on the unsigned and the signed reading.\<close>

definition wasm_rel :: "nat \<Rightarrow> cmp_kind \<Rightarrow> int \<Rightarrow> int \<Rightarrow> bool" where
  "wasm_rel N c i j = (case c of
     CEq \<Rightarrow> i = j | CNe \<Rightarrow> i \<noteq> j | CLtU \<Rightarrow> i < j | CGtU \<Rightarrow> j < i | CLeU \<Rightarrow> i \<le> j | CGeU \<Rightarrow> j \<le> i
   | CLtS \<Rightarrow> signed_of N i < signed_of N j | CGtS \<Rightarrow> signed_of N j < signed_of N i
   | CLeS \<Rightarrow> signed_of N i \<le> signed_of N j | CGeS \<Rightarrow> signed_of N j \<le> signed_of N i)"


text \<open>Unary operators, as a relation between operand and result: the count of leading zeros places the
  operand between two powers of two, the count of trailing zeros is the largest power of two that divides it.\<close>

definition wasm_un :: "nat \<Rightarrow> int_un \<Rightarrow> int \<Rightarrow> int \<Rightarrow> bool" where
  "wasm_un N u i r \<longleftrightarrow> (case u of
     UClz \<Rightarrow> (if i = 0 then r = int N else 0 \<le> r \<and> r < int N \<and> 2 ^ nat (int N - 1 - r) \<le> i \<and> i < 2 ^ nat (int N - r))
   | UCtz \<Rightarrow> (if i = 0 then r = int N else 0 \<le> r \<and> r < int N \<and> 2 ^ nat r dvd i \<and> \<not> 2 ^ nat (r + 1) dvd i)
   | UPopcnt \<Rightarrow> r = int (card {k. k < N \<and> bit i k})
   | UExtend8S \<Rightarrow> r = signed_of 8 (i mod 2 ^ 8) mod 2 ^ N
   | UExtend16S \<Rightarrow> r = signed_of 16 (i mod 2 ^ 16) mod 2 ^ N)"

section \<open>The words compute the reference\<close>

lemma take_bit_uint_self: "take_bit LENGTH('a) (uint (w :: 'a::len word)) = uint w"
  by (simp add: take_bit_int_eq_self)

lemma sint_signed_of: "sint (w :: 'a::len word) = signed_of LENGTH('a) (uint w)"
proof -
  define n where "n = LENGTH('a) - 1"
  then have N: "LENGTH('a) = Suc n" by simp
  have u: "uint w = take_bit n (uint w) + 2 ^ n * of_bool (bit (uint w) n)"
    using take_bit_Suc_from_most [of n "uint w"] take_bit_int_eq_self [of "uint w" "Suc n"] uint_lt2p [of w] by (simp add: N)
  have "take_bit n (uint w) < 2 ^ n" "0 \<le> take_bit n (uint w)" by simp_all
  moreover have "uint w = take_bit n (uint w) + (if bit (uint w) n then 2 ^ n else 0)"
    using u by (cases "bit (uint w) n") (simp_all only: of_bool_eq if_True if_False mult_1_right mult_zero_right)
  ultimately have "bit (uint w) n \<longleftrightarrow> \<not> uint w < 2 ^ n" by (smt (verit))
  then show ?thesis
    using uint_lt2p [of w] by (simp add: sint_uint signed_take_bit_eq_take_bit_minus signed_of_def take_bit_int_eq_self N)
qed

lemma trunc_quot_sdiv: "trunc_quot x y = x sdiv y"
  by (simp add: trunc_quot_def signed_divide_int_def)

lemma smod_trunc_quot: "x smod y = x - y * trunc_quot x y"
  using smod_mult_sdiv_eq [of x y] by (simp add: trunc_quot_sdiv)

lemma uint_wrapping_shl: "uint (wrapping_shl a n) = (uint a * 2 ^ (unat n mod LENGTH('a))) mod 2 ^ LENGTH('a)" for a :: "'a::len word"
  by (simp only: wrapping_shl_def unsigned_push_bit_eq) (simp add: push_bit_eq_mult take_bit_eq_mod)

lemma uint_wrapping_shr_u: "uint (wrapping_shr_u a n) = uint a div 2 ^ (unat n mod LENGTH('a))" for a :: "'a::len word"
  by (simp only: wrapping_shr_u_def unsigned_drop_bit_eq take_bit_length_eq) (simp only: drop_bit_eq_div take_bit_uint_self)

lemma uint_wrapping_shr_s:
  "uint (wrapping_shr_s a n) = (signed_of LENGTH('a) (uint a) div 2 ^ (unat n mod LENGTH('a))) mod 2 ^ LENGTH('a)" for a :: "'a::len word"
proof -
  have "uint (wrapping_shr_s a n) = sint (wrapping_shr_s a n) mod 2 ^ LENGTH('a)"
    by (simp add: uint_sint take_bit_eq_mod)
  also have "sint (wrapping_shr_s a n) = signed_of LENGTH('a) (uint a) div 2 ^ (unat n mod LENGTH('a))"
    by (simp only: wrapping_shr_s_def sint_signed_drop_bit_eq drop_bit_eq_div sint_signed_of [of a])
  finally show ?thesis .
qed

lemma uint_wrapping_rem:
  "uint (wrapping_rem a b) = (signed_of LENGTH('a) (uint a) - signed_of LENGTH('a) (uint b) *
     trunc_quot (signed_of LENGTH('a) (uint a)) (signed_of LENGTH('a) (uint b))) mod 2 ^ LENGTH('a)" for a :: "'a::len word"
  by (simp only: wrapping_rem_def uint_word_of_int sint_signed_of smod_trunc_quot)

lemma uint_rotr: "k < LENGTH('a) \<Longrightarrow> uint (word_rotr k a) = uint a div 2 ^ k + (uint a * 2 ^ (LENGTH('a) - k)) mod 2 ^ LENGTH('a)"
  for a :: "'a::len word"
proof -
  assume k: "k < LENGTH('a)"
  let ?N = "LENGTH('a)"
  have hi: "take_bit (?N - k) (drop_bit k (uint a)) = uint a div 2 ^ k"
    using drop_bit_take_bit [of k ?N "uint a"] by (simp add: drop_bit_eq_div take_bit_uint_self)
  have "uint (take_bit k a) = uint a mod 2 ^ k" by (simp only: unsigned_take_bit_eq) (simp only: take_bit_eq_mod)
  moreover have "(2 :: int) ^ k * 2 ^ (?N - k) = 2 ^ ?N" using k by (simp flip: power_add)
  ultimately have lo: "push_bit (?N - k) (uint (take_bit k a)) = (uint a * 2 ^ (?N - k)) mod 2 ^ ?N"
    by (simp only: push_bit_eq_mult mult_mod_left)
  show ?thesis using k hi lo by (simp add: uint_word_rotr_eq concat_bit_eq)
qed

lemma uint_rotl: "k < LENGTH('a) \<Longrightarrow> uint (word_rotl k a) = (uint a * 2 ^ k) mod 2 ^ LENGTH('a) + uint a div 2 ^ (LENGTH('a) - k)"
  for a :: "'a::len word"
proof -
  assume k: "k < LENGTH('a)"
  show ?thesis
  proof (cases "k = 0")
    case True
    have "uint a div 2 ^ LENGTH('a) = 0" using uint_lt2p [of a] by simp
    with True show ?thesis by (simp add: word_rotl_eq_word_rotr uint_word_rotr_eq concat_bit_eq take_bit_int_eq_self)
  next
    case False
    then have "word_rotl k a = word_rotr (LENGTH('a) - k) a" using k by (simp add: word_rotl_eq_word_rotr)
    with uint_rotr [of "LENGTH('a) - k" a] False k show ?thesis by (simp add: add.commute)
  qed
qed

lemma uint_shift_mod: "nat (uint (b :: 'a::len word) mod int n) = unat b mod n"
  by (simp add: nat_mod_distrib)

lemma signed_quot_overflow:
  fixes a b :: "'a::len word"
  assumes "b \<noteq> 0"
  shows "trunc_quot (sint a) (sint b) = 2 ^ (LENGTH('a) - 1) \<longleftrightarrow> sint a = - (2 ^ (LENGTH('a) - 1)) \<and> b = -1"
proof
  let ?M = "(2 :: int) ^ (LENGTH('a) - 1)"
  have M: "0 < ?M" by simp
  assume q: "trunc_quot (sint a) (sint b) = ?M"
  have a: "- ?M \<le> sint a" "sint a < ?M" using sint_greater_eq [of a] sint_less [of a] by auto
  have b: "sint b \<noteq> 0" using assms by (metis sint_0 signed_word_eqI)
  have le: "\<bar>sint a\<bar> div \<bar>sint b\<bar> \<le> \<bar>sint a\<bar>" using zdiv_mono2 [of "\<bar>sint a\<bar>" 1 "\<bar>sint b\<bar>"] b by simp
  have "\<bar>trunc_quot (sint a) (sint b)\<bar> = \<bar>sgn (sint a)\<bar> * \<bar>sgn (sint b)\<bar> * (\<bar>sint a\<bar> div \<bar>sint b\<bar>)"
    using b by (simp add: trunc_quot_def abs_mult pos_imp_zdiv_nonneg_iff)
  with q M have q': "?M = \<bar>sgn (sint a)\<bar> * (\<bar>sint a\<bar> div \<bar>sint b\<bar>)" using b by (simp add: abs_sgn_eq)
  with M have "\<bar>sint a\<bar> div \<bar>sint b\<bar> = ?M" by (cases "sint a = 0") (auto simp: abs_sgn_eq)
  with le a have ea: "sint a = - ?M" by linarith
  have "\<bar>sint b\<bar> = 1"
  proof (rule ccontr)
    assume "\<bar>sint b\<bar> \<noteq> 1"
    with b have "1 < \<bar>sint b\<bar>" by linarith
    then have "\<bar>sint a\<bar> div \<bar>sint b\<bar> < \<bar>sint a\<bar>" using ea M by (intro int_div_less_self) auto
    with \<open>\<bar>sint a\<bar> div \<bar>sint b\<bar> = ?M\<close> ea show False by simp
  qed
  then have "sint b = -1 \<or> sint b = 1" by linarith
  moreover have "sint b \<noteq> 1" using q ea M by (auto simp: trunc_quot_def)
  ultimately have "sint b = sint (-1 :: 'a word)" by simp
  then have "b = -1" by (simp only: signed_word_eqI)
  with ea show "sint a = - ?M \<and> b = -1" by simp
next
  assume "sint a = - (2 ^ (LENGTH('a) - 1)) \<and> b = -1"
  then show "trunc_quot (sint a) (sint b) = 2 ^ (LENGTH('a) - 1)" by (simp add: trunc_quot_def)
qed

section \<open>The stack effect\<close>

text \<open>\<open>pushed cs m\<close> is \<open>m\<close> with the scalar cells \<open>cs\<close> on top.\<close>

definition pushed :: "cell list \<Rightarrow> 'a execution_scheme \<Rightarrow> 'a execution_scheme" where
  "pushed cs m = m\<lparr>ex_shadow := ex_shadow m @ replicate (length cs) TagNone, ex_values := ex_values m @ cs\<rparr>"

lemma ensure_pushed:
  assumes "stack_ok m" and "ex_frames m \<noteq> []"
  shows "ensure_scalar_operands (length cs) (pushed cs m) = Inr (length (ex_values m))"
  using assms by (auto simp: pushed_def ensure_scalar_operands_Inr ensure_operands_Inr stack_ok_def chain_ok_last)

lemma truncate_pushed_more: "length (ex_values m) = length (ex_shadow m) \<Longrightarrow>
    truncate_to (length (ex_values m) + length cs) (pushed (cs @ ds) m) = pushed cs m"
  by (simp add: truncate_to_def pushed_def)

lemma binop_cells_pushed:
  assumes "stack_ok m" and "ex_frames m \<noteq> []"
  shows "binop_cells f (pushed [x, y] m) = (Inr (), pushed [f x y] m)"
proof -
  have len: "length (ex_values m) = length (ex_shadow m)" using assms(1) by (simp add: stack_ok_def)
  have two: "ensure_scalar_operands 2 (pushed [x, y] m) = Inr (length (ex_values m))"
    using ensure_pushed [OF assms, of "[x, y]"] by (simp add: numeral_2_eq_2)
  show ?thesis
    using two len
    by (simp add: binop_cells_def ask_def bindc_def truncate_to_def) (simp add: pushed_def nth_append list_update_append)
qed

lemma binop_cells_try_pushed:
  assumes "stack_ok m" and "ex_frames m \<noteq> []"
  shows "binop_cells_try f (pushed [x, y] m) =
    (case f x y of Inl e \<Rightarrow> (Inl e, pushed [x, y] m) | Inr r \<Rightarrow> (Inr (), pushed [r] m))"
proof -
  have len: "length (ex_values m) = length (ex_shadow m)" using assms(1) by (simp add: stack_ok_def)
  have nth: "ex_values (pushed [x, y] m) ! length (ex_values m) = x" "ex_values (pushed [x, y] m) ! Suc (length (ex_values m)) = y"
    by (simp_all add: pushed_def nth_append)
  have two: "ensure_scalar_operands 2 (pushed [x, y] m) = Inr (length (ex_values m))"
    using ensure_pushed [OF assms, of "[x, y]"] by (simp add: numeral_2_eq_2)
  show ?thesis
    using two len
    by (cases "f x y") (simp_all add: binop_cells_try_def ask_def bindc_def truncate_to_def nth [unfolded len], simp_all add: pushed_def list_update_append)
qed

lemma unop_cell_pushed:
  assumes "stack_ok m" and "ex_frames m \<noteq> []"
  shows "unop_cell f (pushed [x] m) = (Inr (), pushed [f x] m)"
proof -
  have len: "length (ex_values m) = length (ex_shadow m)" using assms(1) by (simp add: stack_ok_def)
  show ?thesis
    using ensure_pushed [OF assms, of "[x]"] len
    by (simp add: unop_cell_def ask_def bindc_def) (simp add: pushed_def nth_append list_update_append)
qed

lemma pop_scalar_pushed:
  assumes "stack_ok m" and "ex_frames m \<noteq> []"
  shows "pop_scalar (pushed [x] m) = (Inr x, m)"
proof -
  have len: "length (ex_values m) = length (ex_shadow m)" using assms(1) by (simp add: stack_ok_def)
  show ?thesis
    using ensure_pushed [OF assms, of "[x]"] len
    by (simp add: pop_scalar_def ask_def bindc_def truncate_to_def) (simp add: pushed_def nth_append)
qed

lemma push_scalar_pushed:
  "push_i32 v m = (Inr (), pushed [from_i32 v] m)" "push_i64 w m = (Inr (), pushed [from_i64 w] m)"
  "push_f32_bits v m = (Inr (), pushed [from_i32 v] m)" "push_f64_bits w m = (Inr (), pushed [from_i64 w] m)"
  by (simp_all add: push_i32_def push_i64_def push_f32_bits_def push_f64_bits_def push_scalar_def pushed_def from_i32_def from_i64_def)

lemmas plumbing_defs = i32_binop_def i32_unop_def i32_relop_def u32_binop_def u32_relop_def i32_try_binop_def u32_try_binop_def
  i64_binop_def i64_unop_def i64_relop_def u64_binop_def u64_relop_def i64_try_binop_def u64_try_binop_def

text \<open>What the dispatch leaves on the stack for an integer result of the reference.\<close>

definition int_outcome :: "('b \<Rightarrow> cell) \<Rightarrow> trap + 'b \<Rightarrow> cell list \<Rightarrow> 'a execution_scheme \<Rightarrow> (error + unit) \<times> 'a execution_scheme" where
  "int_outcome put r cs m = (case r of Inl t \<Rightarrow> (Inl (Trapped t), pushed cs m) | Inr v \<Rightarrow> (Inr (), pushed [put v] m))"

lemma word_from_uint: "r = uint w \<Longrightarrow> word_of_int r = w"
  by simp

lemma word_rots:
  fixes a :: "'a::len word"
  assumes "k < LENGTH('a)"
  shows "word_of_int ((uint a * 2 ^ k) mod 2 ^ LENGTH('a)) + word_of_int (uint a div 2 ^ (LENGTH('a) - k)) = word_rotl k a"
    "word_of_int (uint a div 2 ^ k) + word_of_int ((uint a * 2 ^ (LENGTH('a) - k)) mod 2 ^ LENGTH('a)) = word_rotr k a"
  using word_from_uint [OF uint_rotl [OF assms, of a, symmetric]] word_from_uint [OF uint_rotr [OF assms, of a, symmetric]]
  by (simp_all only: of_int_add)

lemma word_of_int_mod: "word_of_int (x mod 4294967296) = (word_of_int x :: u32)"
    "word_of_int (x mod 18446744073709551616) = (word_of_int x :: u64)"
  using take_bit_eq_mod [of 32 x] take_bit_eq_mod [of 64 x] by (auto simp: word_of_int_eq_iff take_bit_eq_mod)

lemma div_s_spec:
  "div_s_i32 a b = (case wasm_bin 32 BDivS (uint a) (uint b) of Inl t \<Rightarrow> Inl (Trapped t) | Inr q \<Rightarrow> Inr (word_of_int q))"
  "div_s_i64 c d = (case wasm_bin 64 BDivS (uint c) (uint d) of Inl t \<Rightarrow> Inl (Trapped t) | Inr q \<Rightarrow> Inr (word_of_int q))"
proof -
  have min: "a = 0x80000000 \<longleftrightarrow> sint a = - (2 ^ (LENGTH(32) - 1))" "c = 0x8000000000000000 \<longleftrightarrow> sint c = - (2 ^ (LENGTH(64) - 1))"
    by (auto intro: signed_word_eqI)
  show "div_s_i32 a b = (case wasm_bin 32 BDivS (uint a) (uint b) of Inl t \<Rightarrow> Inl (Trapped t) | Inr q \<Rightarrow> Inr (word_of_int q))"
    using signed_quot_overflow [of b a] min(1) sint_signed_of [of a] sint_signed_of [of b]
    by (auto simp: div_s_i32_def wasm_bin_def Let_def trunc_quot_sdiv uint_0_iff word_of_int_mod)
  show "div_s_i64 c d = (case wasm_bin 64 BDivS (uint c) (uint d) of Inl t \<Rightarrow> Inl (Trapped t) | Inr q \<Rightarrow> Inr (word_of_int q))"
    using signed_quot_overflow [of d c] min(2) sint_signed_of [of c] sint_signed_of [of d]
    by (auto simp: div_s_i64_def wasm_bin_def Let_def trunc_quot_sdiv uint_0_iff word_of_int_mod)
qed

text \<open>The simplifier's view of a binary operator that cannot trap.\<close>

lemmas bin_specs = uint_word_ariths uint_wrapping_shl uint_wrapping_shr_u uint_wrapping_shr_s uint_wrapping_rem uint_rotl uint_rotr
  uint_and uint_or uint_xor uint_div uint_mod uint_shift_mod

lemma i32_bin_pushed:
  assumes "stack_ok m" and "ex_frames m \<noteq> []"
  shows "i32_bin op (pushed [from_i32 a, from_i32 b] m) =
    int_outcome (\<lambda>v. from_i32 (word_of_int v)) (wasm_bin 32 op (uint a) (uint b)) [from_i32 a, from_i32 b] m"
proof -
  note run = binop_cells_pushed [OF assms] binop_cells_try_pushed [OF assms]
  have zero: "uint b = 0 \<longleftrightarrow> b = 0" by (simp add: uint_0_iff)
  have sh: "unat (b mod 32) = unat b mod 32" by (simp add: unat_mod)
  have rot: "unat b mod 32 < LENGTH(32)" by simp
  show ?thesis
    by (cases op)
      (auto simp: run plumbing_defs int_outcome_def wasm_bin_def Let_def div_s_spec(1) nz_def zero sh split: sum.splits
        intro!: word_from_uint [symmetric] arg_cong [of _ _ "\<lambda>v. pushed [from_i32 v] m"],
        simp_all add: bin_specs uint_shift_mod [of b 32, simplified] word_rots [OF rot, of a, simplified])
qed

lemma i64_bin_pushed:
  assumes "stack_ok m" and "ex_frames m \<noteq> []"
  shows "i64_bin op (pushed [from_i64 a, from_i64 b] m) =
    int_outcome (\<lambda>v. from_i64 (word_of_int v)) (wasm_bin 64 op (uint a) (uint b)) [from_i64 a, from_i64 b] m"
proof -
  note run = binop_cells_pushed [OF assms] binop_cells_try_pushed [OF assms]
  have zero: "uint b = 0 \<longleftrightarrow> b = 0" by (simp add: uint_0_iff)
  have low: "unat (ucast b :: u32) mod 64 = unat b mod 64"
    by (simp add: unsigned_ucast_eq take_bit_eq_mod mod_mod_cancel)
  have sh: "unat (ucast (b mod 64) :: u32) = unat b mod 64"
    by (simp add: unsigned_ucast_eq take_bit_eq_mod unat_mod)
  have rot: "unat b mod 64 < LENGTH(64)" by simp
  show ?thesis
    by (cases op)
      (auto simp: run plumbing_defs int_outcome_def wasm_bin_def Let_def div_s_spec(2) nz_def zero sh split: sum.splits
        intro!: word_from_uint [symmetric] arg_cong [of _ _ "\<lambda>v. pushed [from_i64 v] m"],
        simp_all add: bin_specs low uint_shift_mod [of b 64, simplified] word_rots [OF rot, of a, simplified])
qed

lemma i32_rel_pushed:
  assumes "stack_ok m" and "ex_frames m \<noteq> []"
  shows "i32_rel c (pushed [from_i32 a, from_i32 b] m) = (Inr (), pushed [from_i32 (bool_i32 (wasm_rel 32 c (uint a) (uint b)))] m)"
  using sint_signed_of [of a] sint_signed_of [of b]
  by (cases c) (simp_all add: binop_cells_pushed [OF assms] plumbing_defs wasm_rel_def word_le_def word_less_def word_uint_eq_iff)

lemma i64_rel_pushed:
  assumes "stack_ok m" and "ex_frames m \<noteq> []"
  shows "i64_rel c (pushed [from_i64 a, from_i64 b] m) = (Inr (), pushed [from_i32 (bool_i32 (wasm_rel 64 c (uint a) (uint b)))] m)"
  using sint_signed_of [of a] sint_signed_of [of b]
  by (cases c) (simp_all add: binop_cells_pushed [OF assms] plumbing_defs wasm_rel_def word_le_def word_less_def word_uint_eq_iff)

lemma length_takeWhile_less: "\<exists>x \<in> set xs. \<not> P x \<Longrightarrow> length (takeWhile P xs) < length xs"
  by (induction xs) auto

lemma trailing_zeros_spec:
  fixes w :: "'a::len word"
  shows "wasm_un LENGTH('a) UCtz (uint w) (int (trailing_zeros w))"
proof (cases "w = 0")
  case True
  then have "trailing_zeros w = LENGTH('a)" by (simp add: trailing_zeros_def takeWhile_eq_all_conv [THEN iffD2])
  with True show ?thesis by (simp add: wasm_un_def)
next
  case False
  let ?z = "trailing_zeros w" and ?xs = "[0..<LENGTH('a)]"
  obtain j where j: "bit w j" using False by (auto simp: bit_eq_iff)
  then have "j < LENGTH('a)" by (rule bit_imp_le_length)
  with j have z: "?z < LENGTH('a)"
    using length_takeWhile_less [of ?xs "\<lambda>i. \<not> bit w i"] by (simp add: trailing_zeros_def) fastforce
  have at: "bit w ?z" using nth_length_takeWhile [of "\<lambda>i. \<not> bit w i" ?xs] z by (simp add: trailing_zeros_def)
  have below: "\<not> bit w i" if "i < ?z" for i
  proof -
    have "takeWhile (\<lambda>i. \<not> bit w i) ?xs ! i = i" using that z by (simp add: trailing_zeros_def takeWhile_nth)
    with that show ?thesis using nth_mem [of i "takeWhile (\<lambda>i. \<not> bit w i) ?xs"] set_takeWhileD [of i "\<lambda>i. \<not> bit w i" ?xs]
      by (simp add: trailing_zeros_def)
  qed
  have div: "2 ^ n dvd uint w \<longleftrightarrow> (\<forall>i < n. \<not> bit w i)" for n
    by (auto simp: dvd_eq_mod_eq_0 bit_eq_iff bit_take_bit_iff bit_uint_iff dest: bit_imp_le_length simp flip: take_bit_eq_mod)
  from z at below div [of ?z] div [of "Suc ?z"] False show ?thesis
    by (auto simp: wasm_un_def uint_0_iff nat_add_distrib)
qed

lemma uint_less_iff_bits: "uint (w :: 'a::len word) < 2 ^ n \<longleftrightarrow> (\<forall>i \<ge> n. \<not> bit w i)"
proof -
  have "uint w < 2 ^ n \<longleftrightarrow> take_bit n (uint w) = uint w" by (simp add: take_bit_int_eq_self_iff)
  also have "\<dots> \<longleftrightarrow> (\<forall>i. bit (take_bit n (uint w)) i = bit (uint w) i)" by (simp only: bit_eq_iff possible_bit_int simp_thms)
  also have "\<dots> \<longleftrightarrow> (\<forall>i \<ge> n. \<not> bit w i)"
    unfolding bit_take_bit_iff bit_uint_iff by (meson bit_imp_le_length not_le)
  finally show ?thesis .
qed

lemma leading_zeros_spec:
  fixes w :: "'a::len word"
  shows "wasm_un LENGTH('a) UClz (uint w) (int (leading_zeros w))"
proof (cases "w = 0")
  case True
  then have "leading_zeros w = LENGTH('a)" by (simp add: leading_zeros_def takeWhile_eq_all_conv [THEN iffD2])
  with True show ?thesis by (simp add: wasm_un_def)
next
  case False
  let ?z = "leading_zeros w" and ?xs = "rev [0..<LENGTH('a)]" and ?n = "LENGTH('a)"
  obtain j where j: "bit w j" using False by (auto simp: bit_eq_iff)
  then have "j < ?n" by (rule bit_imp_le_length)
  with j have z: "?z < ?n"
    using length_takeWhile_less [of ?xs "\<lambda>i. \<not> bit w i"] by (simp add: leading_zeros_def) fastforce
  have at: "bit w (?n - 1 - ?z)"
    using nth_length_takeWhile [of "\<lambda>i. \<not> bit w i" ?xs] z by (simp add: leading_zeros_def rev_nth)
  have above: "\<not> bit w i" if "?n - ?z \<le> i" for i
  proof (cases "i < ?n")
    case True
    let ?k = "?n - 1 - i"
    from True that z have k: "?k < ?z" by linarith
    then have "takeWhile (\<lambda>i. \<not> bit w i) ?xs ! ?k = i"
      using True z by (simp add: leading_zeros_def takeWhile_nth rev_nth)
    with k show ?thesis using nth_mem [of ?k "takeWhile (\<lambda>i. \<not> bit w i) ?xs"] set_takeWhileD [of i "\<lambda>i. \<not> bit w i" ?xs]
      by (simp add: leading_zeros_def)
  qed (use bit_imp_le_length in blast)
  have "uint w < 2 ^ (?n - ?z)" using above by (simp add: uint_less_iff_bits)
  moreover have "2 ^ (?n - 1 - ?z) \<le> uint w" using at uint_less_iff_bits [of w "?n - 1 - ?z"] by force
  moreover have "nat (int ?n - 1 - int ?z) = ?n - 1 - ?z" "nat (int ?n - int ?z) = ?n - ?z" by auto
  ultimately show ?thesis using z False by (simp add: wasm_un_def uint_0_iff)
qed

lemma count_ones_spec: "wasm_un LENGTH('a) UPopcnt (uint w) (int (count_ones w))" for w :: "'a::len word"
proof -
  have "{k. k < LENGTH('a) \<and> bit (uint w) k} = set (filter (bit w) [0..<LENGTH('a)])" by (auto simp: bit_uint_iff)
  moreover have "card (set (filter (bit w) [0..<LENGTH('a)])) = length (filter (bit w) [0..<LENGTH('a)])"
    by (simp add: distinct_card del: set_filter)
  ultimately show ?thesis by (simp add: wasm_un_def count_ones_def)
qed

lemma uint_extend:
  assumes "LENGTH('b) \<le> LENGTH('a)"
  shows "uint (scast (ucast (w :: 'a::len word) :: 'b::len word) :: 'a word) = signed_of LENGTH('b) (uint w mod 2 ^ LENGTH('b)) mod 2 ^ LENGTH('a)"
proof -
  have "uint (scast (ucast w :: 'b word) :: 'a word) = sint (ucast w :: 'b word) mod 2 ^ LENGTH('a)"
    by (simp only: scast_eq uint_word_of_int)
  then show ?thesis using sint_signed_of [of "ucast w :: 'b word"] by (simp add: unsigned_ucast_eq take_bit_eq_mod)
qed

lemma word_extend:
  assumes "LENGTH('b) \<le> LENGTH('a)"
  shows "(scast (ucast (w :: 'a::len word) :: 'b::len word) :: 'a word) = word_of_int (signed_of LENGTH('b) (uint w mod 2 ^ LENGTH('b)) mod 2 ^ LENGTH('a))"
  by (rule word_from_uint [OF uint_extend [OF assms, symmetric], symmetric])

text \<open>The conversions on the mathematical readings.\<close>

lemma convert_specs:
  "uint (i32_wrap_i64 x) = uint x mod 2 ^ 32" "sint (i64_extend_i32_s y) = sint y" "uint (i64_extend_i32_u y) = uint y"
  using uint_lt2p [of y]
  by (simp_all add: i32_wrap_i64_def i64_extend_i32_s_def i64_extend_i32_u_def unsigned_ucast_eq take_bit_eq_mod sint_up_scast is_up_def
      source_size target_size)

lemma i32_un_pushed:
  assumes "stack_ok m" and "ex_frames m \<noteq> []"
  shows "\<exists>r. wasm_un 32 u (uint a) r \<and> i32_un u (pushed [from_i32 a] m) = (Inr (), pushed [from_i32 (word_of_int r)] m)"
proof (cases u)
  case UClz
  then show ?thesis using leading_zeros_spec [of a] by (intro exI [of _ "int (leading_zeros a)"]) (simp add: unop_cell_pushed [OF assms] plumbing_defs)
next
  case UCtz
  then show ?thesis using trailing_zeros_spec [of a] by (intro exI [of _ "int (trailing_zeros a)"]) (simp add: unop_cell_pushed [OF assms] plumbing_defs)
next
  case UPopcnt
  then show ?thesis using count_ones_spec [of a] by (intro exI [of _ "int (count_ones a)"]) (simp add: unop_cell_pushed [OF assms] plumbing_defs)
next
  case UExtend8S
  then show ?thesis using word_extend [where 'b = 8, of a]
    by (intro exI [of _ "signed_of 8 (uint a mod 2 ^ 8) mod 2 ^ 32"]) (simp add: unop_cell_pushed [OF assms] plumbing_defs wasm_un_def)
next
  case UExtend16S
  then show ?thesis using word_extend [where 'b = 16, of a]
    by (intro exI [of _ "signed_of 16 (uint a mod 2 ^ 16) mod 2 ^ 32"]) (simp add: unop_cell_pushed [OF assms] plumbing_defs wasm_un_def)
qed

lemma i64_un_pushed:
  assumes "stack_ok m" and "ex_frames m \<noteq> []"
  shows "\<exists>r. wasm_un 64 u (uint a) r \<and> i64_un u (pushed [from_i64 a] m) = (Inr (), pushed [from_i64 (word_of_int r)] m)"
proof (cases u)
  case UClz
  then show ?thesis using leading_zeros_spec [of a] by (intro exI [of _ "int (leading_zeros a)"]) (simp add: unop_cell_pushed [OF assms] plumbing_defs)
next
  case UCtz
  then show ?thesis using trailing_zeros_spec [of a] by (intro exI [of _ "int (trailing_zeros a)"]) (simp add: unop_cell_pushed [OF assms] plumbing_defs)
next
  case UPopcnt
  then show ?thesis using count_ones_spec [of a] by (intro exI [of _ "int (count_ones a)"]) (simp add: unop_cell_pushed [OF assms] plumbing_defs)
next
  case UExtend8S
  then show ?thesis using word_extend [where 'b = 8, of a]
    by (intro exI [of _ "signed_of 8 (uint a mod 2 ^ 8) mod 2 ^ 64"]) (simp add: unop_cell_pushed [OF assms] plumbing_defs wasm_un_def)
next
  case UExtend16S
  then show ?thesis using word_extend [where 'b = 16, of a]
    by (intro exI [of _ "signed_of 16 (uint a mod 2 ^ 16) mod 2 ^ 64"]) (simp add: unop_cell_pushed [OF assms] plumbing_defs wasm_un_def)
qed

text \<open>C18. Binary integer instructions of both widths agree with the operators of the WebAssembly
  specification on mathematical integers: with two operands on the stack the handler leaves exactly the specified
  result, wrapped to the width, and where the specification has no result (division by zero, the one overflowing
  quotient) it traps with the matching code and leaves the operands in place. Shift and rotation counts are taken
  modulo the width.\<close>

theorem int_binary_exact:
  assumes "stack_ok m" and "ex_frames m \<noteq> []"
  shows "exec_numeric (NI32Bin op) (pushed [from_i32 a, from_i32 b] m) =
      int_outcome (\<lambda>v. from_i32 (word_of_int v)) (wasm_bin 32 op (uint a) (uint b)) [from_i32 a, from_i32 b] m \<and>
    exec_numeric (NI64Bin op) (pushed [from_i64 c, from_i64 d] m) =
      int_outcome (\<lambda>v. from_i64 (word_of_int v)) (wasm_bin 64 op (uint c) (uint d)) [from_i64 c, from_i64 d] m"
  using i32_bin_pushed [OF assms] i64_bin_pushed [OF assms] by (simp add: exec_numeric_def)

theorem int_binary_exact_witness:
  "exec_numeric (NI32Bin BDivS) (pushed [from_i32 0xFFFFFFF9, from_i32 2] base_machine) = (Inr (), pushed [from_i32 0xFFFFFFFD] base_machine) \<and>
   exec_numeric (NI32Bin BDivS) (pushed [from_i32 0x80000000, from_i32 0xFFFFFFFF] base_machine) =
     (Inl (Trapped IntegerOverflow), pushed [from_i32 0x80000000, from_i32 0xFFFFFFFF] base_machine)"
proof -
  have f: "ex_frames base_machine \<noteq> []" by code_simp
  note ex = int_binary_exact [OF stack_ok_base f, THEN conjunct1]
  show ?thesis
    unfolding ex by (simp add: wasm_bin_def int_outcome_def signed_of_def trunc_quot_def)
qed

text \<open>Comparisons, counts and sign extensions agree with the specification as well: a comparison leaves one or
  zero according to the order of the signed or unsigned readings, \<^verbatim>\<open>clz\<close> and \<^verbatim>\<open>ctz\<close> leave the
  position of the first and last set bit (the width for zero), and neither traps nor panics.\<close>

theorem int_compare_count_exact:
  assumes "stack_ok m" and "ex_frames m \<noteq> []"
  shows "exec_numeric (NI32Rel k) (pushed [from_i32 a, from_i32 b] m) =
      (Inr (), pushed [from_i32 (bool_i32 (wasm_rel 32 k (uint a) (uint b)))] m) \<and>
    exec_numeric (NI64Rel k) (pushed [from_i64 c, from_i64 d] m) =
      (Inr (), pushed [from_i32 (bool_i32 (wasm_rel 64 k (uint c) (uint d)))] m) \<and>
    (\<exists>r. wasm_un 32 u (uint a) r \<and> exec_numeric (NI32Un u) (pushed [from_i32 a] m) = (Inr (), pushed [from_i32 (word_of_int r)] m)) \<and>
    (\<exists>r. wasm_un 64 u (uint c) r \<and> exec_numeric (NI64Un u) (pushed [from_i64 c] m) = (Inr (), pushed [from_i64 (word_of_int r)] m))"
  using i32_rel_pushed [OF assms] i64_rel_pushed [OF assms] i32_un_pushed [OF assms] i64_un_pushed [OF assms]
  by (simp add: exec_numeric_def)

theorem int_compare_count_exact_witness:
  "exec_numeric (NI32Rel CLtU) (pushed [from_i32 1, from_i32 0xFFFFFFFF] base_machine) = (Inr (), pushed [from_i32 1] base_machine)"
proof -
  have f: "ex_frames base_machine \<noteq> []" by code_simp
  show ?thesis
    using int_compare_count_exact [OF stack_ok_base f, of CLtU 1 "0xFFFFFFFF", THEN conjunct1] by (simp add: wasm_rel_def bool_i32_def)
qed

end
