(* ===== verification/Exec_Step.thy ===== *)
theory Exec_Step
  imports Exec_Control Exec_Memory Exec_Table Exec_Numeric
begin

text \<open>
  One instruction, \<^verbatim>\<open>src/exec/step.rs\<close>: the dispatch to the handlers of the other theories, with
  constants, locals, globals, branches and the suspending instructions done in place. \<open>next\<close> is the
  position after the instruction, so the source's \<^verbatim>\<open>next - 1\<close> is the instruction itself.
\<close>

definition cmp_i32 :: "cmp_kind \<Rightarrow> u32 \<Rightarrow> u32 \<Rightarrow> bool" where
  "cmp_i32 kind a b = (case kind of
     CEq \<Rightarrow> a = b | CNe \<Rightarrow> a \<noteq> b
   | CLtS \<Rightarrow> sint a < sint b | CLtU \<Rightarrow> a < b
   | CGtS \<Rightarrow> sint b < sint a | CGtU \<Rightarrow> b < a
   | CLeS \<Rightarrow> sint a \<le> sint b | CLeU \<Rightarrow> a \<le> b
   | CGeS \<Rightarrow> sint b \<le> sint a | CGeU \<Rightarrow> b \<le> a)"

definition tail_kind :: "bool \<Rightarrow> nat \<Rightarrow> call_kind" where
  "tail_kind tail ip = (if tail then CallTail else CallNested ip)"

definition local_index :: "nat \<Rightarrow> nat \<Rightarrow> nat result" where
  "local_index base i = ok_or (frame_err ''local index overflow'') (checked_add u32_max base i)"

definition local_get :: "nat \<Rightarrow> nat \<Rightarrow> (machine, unit) action" where
  "local_get base i = bindc (lift_res (local_index base i)) (\<lambda>l.
     bindc (ask (cell_at l)) (\<lambda>(c, t). push_cell c t))"

definition local_set :: "nat \<Rightarrow> nat \<Rightarrow> (machine, unit) action" where
  "local_set base i = bindc pop_tagged (\<lambda>(c, t).
     bindc (lift_res (local_index base i)) (\<lambda>l. set_cell l c t))"

definition local_tee :: "nat \<Rightarrow> nat \<Rightarrow> (machine, unit) action" where
  "local_tee base i = bindc (ask top_cell) (\<lambda>(c, t).
     bindc (lift_res (local_index base i)) (\<lambda>l. set_cell l c t))"

definition global_get :: "entity_handle \<Rightarrow> nat \<Rightarrow> (machine, unit) action" where
  "global_get inst g = bindc (inner_of (inst_handle ie_globals inst g)) (\<lambda>h.
     bindc (inner_of (global_at h)) (\<lambda>ge. push_val (ge_value ge)))"

definition global_set :: "entity_handle \<Rightarrow> nat \<Rightarrow> (machine, unit) action" where
  "global_set inst g = bindc (inner_of (inst_handle ie_globals inst g)) (\<lambda>h.
     bindc (inner_of (global_at h)) (\<lambda>ge.
     bindc (pop_typed (gt_content (ge_ty ge))) (\<lambda>v. upd_inner (put_global h (ge\<lparr>ge_value := v\<rparr>)))))"

definition goto_target :: "branch_target \<Rightarrow> (machine, step_outcome) action" where
  "goto_target t = bindc (take_branch t) (\<lambda>_. ret (Advance (bt_ip t)))"

text \<open>The cases of a table and, after them, its default.\<close>

definition br_table_cases :: "code \<Rightarrow> br_table_range \<Rightarrow> (branch_target list \<times> branch_target) result" where
  "br_table_cases c rg = (let pool = code_br_tables c in
     bindr (ok_or (Internal (Compiler ''branch table range overflow'')) (checked_add u32_max (btr_base rg) (btr_len rg))) (\<lambda>e.
     bindr (if e \<le> length pool then Inr (take (btr_len rg) (drop (btr_base rg) pool))
       else Inl (Internal (Compiler ''branch table range is invalid''))) (\<lambda>cases.
     bindr (ok_or (Internal (Compiler ''branch table default is missing'')) (get_at pool e)) (\<lambda>default.
     Inr (cases, default)))))"

definition br_table :: "code \<Rightarrow> br_table_range \<Rightarrow> (machine, step_outcome) action" where
  "br_table c rg = bindc (lift_res (br_table_cases c rg)) (\<lambda>(cases, default).
     bindc pop_i32 (\<lambda>i. goto_target (case get_at cases (unat i) of Some t \<Rightarrow> t | None \<Rightarrow> default)))"

definition call_func :: "entity_handle \<Rightarrow> nat \<Rightarrow> call_kind \<Rightarrow> (machine, step_outcome) action" where
  "call_func inst f kind = bindc (inner_of (inst_handle ie_funcs inst f)) (\<lambda>callee.
     bindc (inner_of (resolve_call callee)) (\<lambda>rc. inner_of (call_outcome rc inst kind)))"

definition br_on_null :: "branch_target \<Rightarrow> nat \<Rightarrow> (machine, step_outcome) action" where
  "br_on_null t next = bindc pop_tagged_ref (\<lambda>(r, tag).
     if cell_is_null r then goto_target t else bindc (push_cell r tag) (\<lambda>_. ret (Advance next)))"

definition br_on_non_null :: "branch_target \<Rightarrow> nat \<Rightarrow> (machine, step_outcome) action" where
  "br_on_non_null t next = bindc pop_tagged_ref (\<lambda>(r, tag).
     if cell_is_null r then ret (Advance next) else bindc (push_cell r tag) (\<lambda>_. goto_target t))"

definition memory_grow_op :: "entity_handle \<Rightarrow> nat \<Rightarrow> nat \<Rightarrow> (machine, step_outcome) action" where
  "memory_grow_op inst i next = bindc (inner_of (inst_handle ie_memories inst i)) (\<lambda>h.
     bindc (inner_of (memory_at h)) (\<lambda>me.
     bindc (pop_index (mt_memory64 (me_ty me))) (\<lambda>delta. ret (DoGrow h delta next))))"

definition table_grow_op :: "entity_handle \<Rightarrow> nat \<Rightarrow> nat \<Rightarrow> (machine, step_outcome) action" where
  "table_grow_op inst i next = bindc (inner_of (inst_handle ie_tables inst i)) (\<lambda>h.
     bindc (inner_of (table_at h)) (\<lambda>te.
     bindc (pop_index (tt_table64 (te_ty te))) (\<lambda>delta.
     bindc (pop_ref (refkind_of_heap (rt_heap (tt_element (te_ty te))))) (\<lambda>v.
     bindc (lift_res (to_ref v)) (\<lambda>init. ret (DoTableGrow h delta init next))))))"

text \<open>An allocating instruction reserves its charge while its operands are still on the stack.\<close>

definition allocates :: "op \<Rightarrow> bool" where
  "allocates op = (case op of
     OpGc (StructNew _) \<Rightarrow> True | OpGc (StructNewDefault _) \<Rightarrow> True
   | OpArray (ArrayNew _) \<Rightarrow> True | OpArray (ArrayNewDefault _) \<Rightarrow> True | OpArray (ArrayNewFixed _ _) \<Rightarrow> True
   | OpArray (ArrayNewData _ _) \<Rightarrow> True | OpArray (ArrayNewElem _ _) \<Rightarrow> True
   | _ \<Rightarrow> False)"

definition reserve_for :: "entity_handle \<Rightarrow> op \<Rightarrow> nat \<Rightarrow> (machine, step_outcome option) action" where
  "reserve_for inst op ip = (if allocates op
     then bindc (ask (gc_alloc_charge inst op)) (\<lambda>charge. case charge of
       None \<Rightarrow> ret None | Some n \<Rightarrow> gc_reserve n ip)
     else ret None)"

definition straight :: "nat \<Rightarrow> (machine, unit) action \<Rightarrow> (machine, step_outcome) action" where
  "straight next a = bindc a (\<lambda>_. ret (Advance next))"

definition step :: "code \<Rightarrow> op \<Rightarrow> nat \<Rightarrow> nat \<Rightarrow> entity_handle \<Rightarrow> (machine, step_outcome) action" where
  "step c op next base inst = (case op of
     OpNop \<Rightarrow> ret (Advance next)
   | OpUnreachable \<Rightarrow> fail (Trapped UnreachableCodeReached)
   | OpI32Const v \<Rightarrow> straight next (push_i32 v)
   | OpI64Const v \<Rightarrow> straight next (push_i64 v)
   | OpF32Const v \<Rightarrow> straight next (push_f32_bits v)
   | OpF64Const v \<Rightarrow> straight next (push_f64_bits v)
   | OpDrop \<Rightarrow> straight next (bindc pop_cell (\<lambda>_. ret ()))
   | OpSelect \<Rightarrow> straight next (bindc pop_select (\<lambda>(cl, t). push_cell cl t))
   | OpLocalGet i \<Rightarrow> straight next (local_get base i)
   | OpLocalSet i \<Rightarrow> straight next (local_set base i)
   | OpLocalTee i \<Rightarrow> straight next (local_tee base i)
   | OpGlobalGet g \<Rightarrow> straight next (global_get inst g)
   | OpGlobalSet g \<Rightarrow> straight next (global_set inst g)
   | OpBr t \<Rightarrow> goto_target t
   | OpBrIf t \<Rightarrow> bindc pop_i32 (\<lambda>v. if v \<noteq> 0 then goto_target t else ret (Advance next))
   | OpBrIfNot t \<Rightarrow> bindc pop_i32 (\<lambda>v. if v = 0 then goto_target t else ret (Advance next))
   | OpBrIfCmp kind negate t \<Rightarrow> bindc pop_i32_pair (\<lambda>(a, b).
       if cmp_i32 kind a b \<noteq> negate then goto_target t else ret (Advance next))
   | OpBrTable rg \<Rightarrow> br_table c rg
   | OpCall f \<Rightarrow> call_func inst f (tail_kind False next)
   | OpReturnCall f \<Rightarrow> call_func inst f (tail_kind True next)
   | OpCallIndirect ty t \<Rightarrow> do_call_indirect inst ty t (CallNested next)
   | OpReturnCallIndirect ty t \<Rightarrow> do_call_indirect inst ty t CallTail
   | OpCallRef _ \<Rightarrow> do_call_ref inst (CallNested next)
   | OpReturnCallRef _ \<Rightarrow> do_call_ref inst CallTail
   | OpBrOnNull t \<Rightarrow> br_on_null t next
   | OpBrOnNonNull t \<Rightarrow> br_on_non_null t next
   | OpMemoryGrow i \<Rightarrow> memory_grow_op inst i next
   | OpTableGrow t \<Rightarrow> table_grow_op inst t next
   | OpMemory m \<Rightarrow> straight next (exec_memory c m inst)
   | OpRef r \<Rightarrow> straight next (exec_ref r inst)
   | OpTable t \<Rightarrow> straight next (exec_table t inst)
   | OpThrow tag \<Rightarrow> throw_exn inst tag (next - 1)
   | OpThrowRef \<Rightarrow> throw_ref
   | OpBrOnCast ty packed \<Rightarrow> bindc (br_on_cast c inst ty packed False) (\<lambda>r. ret (Advance (case r of Some ip \<Rightarrow> ip | None \<Rightarrow> next)))
   | OpBrOnCastFail ty packed \<Rightarrow> bindc (br_on_cast c inst ty packed True) (\<lambda>r. ret (Advance (case r of Some ip \<Rightarrow> ip | None \<Rightarrow> next)))
   | OpGc g \<Rightarrow> bindc (reserve_for inst op (next - 1)) (\<lambda>out. case out of
       Some o' \<Rightarrow> ret o' | None \<Rightarrow> straight next (exec_gc g inst))
   | OpArray a \<Rightarrow> bindc (reserve_for inst op (next - 1)) (\<lambda>out. case out of
       Some o' \<Rightarrow> ret o' | None \<Rightarrow> straight next (exec_gc_array a inst))
   | OpCast k \<Rightarrow> straight next (exec_cast k inst)
   | OpNumeric n \<Rightarrow> straight next (exec_numeric n))"

end
