(* ===== verification/Store_Grow.thy ===== *)
theory Store_Grow
  imports Exec_Reserve
begin

text \<open>
  Resource limits and growth: the limiter interface and the ready-made limiter of
  \<^verbatim>\<open>src/store/limits.rs\<close>, and the growth of memories, tables and the reservation of the managed heap
  in \<^verbatim>\<open>src/store/grow.rs\<close>, without the asynchronous siblings. A store is \<^verbatim>\<open>Store<T>\<close> with its data
  \<open>'d\<close>; its limiter reaches only that data. Whether the host can allocate is a parameter, as in
  \<^verbatim>\<open>Store_Entity\<close>.
\<close>

section \<open>Limiters\<close>

definition DEFAULT_LIMIT :: nat where
  "DEFAULT_LIMIT = 10000"

definition isize_max :: nat where
  "isize_max = 2 ^ 63 - 1"

definition host_ceiling :: "nat \<Rightarrow> nat" where
  "host_ceiling limit = (if isize_max < limit then isize_max else limit)"

definition DEFAULT_MEMORY_CEILING_BYTES :: nat where
  "DEFAULT_MEMORY_CEILING_BYTES = host_ceiling (2 ^ 32)"

definition DEFAULT_TABLE_CEILING_ELEMS :: nat where
  "DEFAULT_TABLE_CEILING_ELEMS = host_ceiling u32_max"

record 'd limiter =
  lm_memory_growing :: "nat \<Rightarrow> nat \<Rightarrow> nat option \<Rightarrow> ('d, bool) action"
  lm_table_growing :: "nat \<Rightarrow> nat \<Rightarrow> nat option \<Rightarrow> ('d, bool) action"
  lm_memory_grow_failed :: "error \<Rightarrow> ('d, unit) action"
  lm_table_grow_failed :: "error \<Rightarrow> ('d, unit) action"
  lm_instances :: "'d \<Rightarrow> nat"
  lm_tables :: "'d \<Rightarrow> nat"
  lm_memories :: "'d \<Rightarrow> nat"

record store_limits =
  sl_memory_size :: "nat option"
  sl_table_elements :: "nat option"
  sl_instances :: nat
  sl_tables :: nat
  sl_memories :: nat
  sl_trap_on_grow_failure :: bool

definition store_limits_default :: store_limits where
  "store_limits_default = \<lparr>sl_memory_size = None, sl_table_elements = None, sl_instances = DEFAULT_LIMIT,
     sl_tables = DEFAULT_LIMIT, sl_memories = DEFAULT_LIMIT, sl_trap_on_grow_failure = False\<rparr>"

definition within :: "nat option \<Rightarrow> nat \<Rightarrow> bool" where
  "within bound n \<longleftrightarrow> (case bound of None \<Rightarrow> True | Some b \<Rightarrow> n \<le> b)"

definition limits_memory_growing :: "nat \<Rightarrow> nat \<Rightarrow> nat option \<Rightarrow> (store_limits, bool) action" where
  "limits_memory_growing current desired maximum =
     getc (\<lambda>l. within (sl_memory_size l) desired \<and> within maximum desired)"

definition limits_table_growing :: "nat \<Rightarrow> nat \<Rightarrow> nat option \<Rightarrow> (store_limits, bool) action" where
  "limits_table_growing current desired maximum =
     getc (\<lambda>l. within (sl_table_elements l) desired \<and> within maximum desired)"

definition limits_grow_failed :: "error \<Rightarrow> (store_limits, unit) action" where
  "limits_grow_failed e l = (if sl_trap_on_grow_failure l then (Inl e, l) else (Inr (), l))"

definition limits_limiter :: "store_limits limiter" where
  "limits_limiter = \<lparr>lm_memory_growing = limits_memory_growing, lm_table_growing = limits_table_growing,
     lm_memory_grow_failed = limits_grow_failed, lm_table_grow_failed = limits_grow_failed,
     lm_instances = sl_instances, lm_tables = sl_tables, lm_memories = sl_memories\<rparr>"

section \<open>Growth\<close>

record 'd store =
  st_inner :: store_inner
  st_data :: 'd
  st_limiter :: "'d limiter option"

definition bytes_of :: "nat \<Rightarrow> nat" where
  "bytes_of pages = saturating_mul usize_max pages PAGE_SIZE"

text \<open>\<^verbatim>\<open>None\<close> without a limiter, its answer otherwise.\<close>

definition with_sync_limiter :: "('d limiter \<Rightarrow> ('d, 'a) action) \<Rightarrow> ('d store, 'a option) action" where
  "with_sync_limiter f s = (case st_limiter s of
     None \<Rightarrow> (Inr None, s)
   | Some l \<Rightarrow> (case f l (st_data s) of (r, d) \<Rightarrow> (case r of Inl e \<Rightarrow> Inl e | Inr x \<Rightarrow> Inr (Some x), s\<lparr>st_data := d\<rparr>)))"

definition limiter_memories :: "'d store \<Rightarrow> nat option" where
  "limiter_memories s = map_option (\<lambda>l. lm_memories l (st_data s)) (st_limiter s)"

definition limiter_tables :: "'d store \<Rightarrow> nat option" where
  "limiter_tables s = map_option (\<lambda>l. lm_tables l (st_data s)) (st_limiter s)"

definition limiter_instances :: "'d store \<Rightarrow> nat option" where
  "limiter_instances s = map_option (\<lambda>l. lm_instances l (st_data s)) (st_limiter s)"

definition unless_limited :: "'a option \<Rightarrow> 'a \<Rightarrow> 'a" where
  "unless_limited r x = (case r of None \<Rightarrow> x | Some y \<Rightarrow> y)"

definition in_store :: "(store_inner \<Rightarrow> 'a result) \<Rightarrow> ('d store, 'a) action" where
  "in_store q s = (q (st_inner s), s)"

definition upd_store :: "(store_inner \<Rightarrow> store_inner) \<Rightarrow> ('d store, unit) action" where
  "upd_store f s = (Inr (), s\<lparr>st_inner := f (st_inner s)\<rparr>)"

definition memory_grow_failed :: "('d store, unit) action" where
  "memory_grow_failed = bindc (with_sync_limiter (\<lambda>l. lm_memory_grow_failed l (Msg ''failed to grow memory''))) (\<lambda>_. ret ())"

definition table_grow_failed :: "('d store, unit) action" where
  "table_grow_failed = bindc (with_sync_limiter (\<lambda>l. lm_table_grow_failed l (Msg ''failed to grow table''))) (\<lambda>_. ret ())"

definition grow_memory :: "(nat \<Rightarrow> bool) \<Rightarrow> entity_handle \<Rightarrow> nat \<Rightarrow> ('d store, nat option) action" where
  "grow_memory can_alloc h delta =
     bindc (in_store (memory_at h)) (\<lambda>e.
     let current = size_pages e; desired = saturating_add u64_max current delta in
     bindc (with_sync_limiter (\<lambda>l. lm_memory_growing l (bytes_of current) (bytes_of desired) (map_option bytes_of (mt_maximum (me_ty e))))) (\<lambda>r.
     case (if unless_limited r (bytes_of desired \<le> DEFAULT_MEMORY_CEILING_BYTES) then memory_grow can_alloc delta e else (None, e)) of
       (Some old, e') \<Rightarrow> bindc (upd_store (put_memory h e')) (\<lambda>_. ret (Some old))
     | (None, _) \<Rightarrow> bindc memory_grow_failed (\<lambda>_. ret None)))"

definition grow_table :: "(nat \<Rightarrow> bool) \<Rightarrow> entity_handle \<Rightarrow> nat \<Rightarrow> ref_val \<Rightarrow> ('d store, nat option) action" where
  "grow_table can_alloc h delta init =
     bindc (in_store (table_at h)) (\<lambda>e.
     let current = table_size e; desired = saturating_add usize_max current delta in
     bindc (with_sync_limiter (\<lambda>l. lm_table_growing l current desired (tt_maximum (te_ty e)))) (\<lambda>r.
     case (if unless_limited r (desired \<le> DEFAULT_TABLE_CEILING_ELEMS) then table_grow can_alloc delta init e else (None, e)) of
       (Some old, e') \<Rightarrow> bindc (upd_store (put_table h e')) (\<lambda>_. ret (Some old))
     | (None, _) \<Rightarrow> bindc table_grow_failed (\<lambda>_. ret None)))"

definition grant_reservation :: "nat \<Rightarrow> store_inner \<Rightarrow> store_inner" where
  "grant_reservation target s = (case gc_grant target (si_gc s) of (granted, h) \<Rightarrow> add_gc_committed granted (s\<lparr>si_gc := h\<rparr>))"

definition grow_gc_reservation :: "nat \<Rightarrow> nat \<Rightarrow> ('d store, unit) action" where
  "grow_gc_reservation target bytes_needed =
     bindc (getc (\<lambda>s. gh_reserved (si_gc (st_inner s)))) (\<lambda>current.
     if target \<le> current then ret () else
     bindc (with_sync_limiter (\<lambda>l. lm_memory_growing l current target None)) (\<lambda>r.
     if unless_limited r (target \<le> ABORT_SAFETY_CAP) then upd_store (grant_reservation target)
     else fail (GcHeapOutOfMemory bytes_needed)))"

definition gc_reserve_host :: "nat \<Rightarrow> ('d store, unit) action" where
  "gc_reserve_host charge =
     bindc (getc (\<lambda>s. gc_fits (si_gc (st_inner s)) charge)) (\<lambda>fits.
     if fits then ret () else
     bindc (getc (\<lambda>s. \<not> is_free_grant (si_gc (st_inner s)) (desired_reservation (si_gc (st_inner s)) charge) \<and>
        gh_collecting (si_gc (st_inner s)))) (\<lambda>pressure.
     bindc (if pressure
        then bindc (in_store exec_roots) (\<lambda>roots.
             bindc (\<lambda>s. case collect roots (st_inner s) of (r, t) \<Rightarrow> (r, s\<lparr>st_inner := t\<rparr>)) (\<lambda>_.
             getc (\<lambda>s. gc_fits (si_gc (st_inner s)) charge)))
        else ret False) (\<lambda>fits_now.
     if fits_now then ret () else
     bindc (getc (\<lambda>s. desired_reservation (si_gc (st_inner s)) charge)) (\<lambda>target.
     bindc (getc (\<lambda>s. is_free_grant (si_gc (st_inner s)) target)) (\<lambda>free.
     if free then upd_store (grant_reservation target) else grow_gc_reservation target charge)))))"

definition on_store_inner :: "(store_inner, 'a) action \<Rightarrow> ('d store, 'a) action" where
  "on_store_inner f s = (case f (st_inner s) of (r, t) \<Rightarrow> (r, s\<lparr>st_inner := t\<rparr>))"

definition gc_alloc_externref :: "nat \<Rightarrow> ('d store, u32) action" where
  "gc_alloc_externref v = bindc (gc_reserve_host extern_charge) (\<lambda>_. on_store_inner (alloc_externref v))"

definition gc_alloc_exn :: "exn_entity \<Rightarrow> ('d store, rooted) action" where
  "gc_alloc_exn e = bindc (gc_reserve_host (exn_byte_size e)) (\<lambda>_. on_store_inner (alloc_exn e))"

definition limiter_allows_memory :: "nat \<Rightarrow> nat option \<Rightarrow> ('d store, bool) action" where
  "limiter_allows_memory initial mx =
     bindc (with_sync_limiter (\<lambda>l. lm_memory_growing l 0 (bytes_of initial) (map_option bytes_of mx))) (\<lambda>r.
     ret (unless_limited r (bytes_of initial \<le> DEFAULT_MEMORY_CEILING_BYTES)))"

definition limiter_allows_table :: "nat \<Rightarrow> nat option \<Rightarrow> ('d store, bool) action" where
  "limiter_allows_table initial mx =
     bindc (with_sync_limiter (\<lambda>l. lm_table_growing l 0 initial mx)) (\<lambda>r.
     ret (unless_limited r (initial \<le> DEFAULT_TABLE_CEILING_ELEMS)))"

section \<open>Lemmas\<close>

named_theorems grow_simps \<open>the plumbing of the growth operations\<close>

lemma within_simps [simp]: "within None n" "within (Some b) n \<longleftrightarrow> n \<le> b"
  by (simp_all add: within_def)

lemma store_plumbing [grow_simps]:
  "in_store q s = (q (st_inner s), s)" "upd_store f s = (Inr (), s\<lparr>st_inner := f (st_inner s)\<rparr>)"
  by (simp_all add: in_store_def upd_store_def)

lemma with_sync_limiter_keeps:
  "with_sync_limiter f s = (r, t) \<Longrightarrow> st_inner t = st_inner s \<and> st_limiter t = st_limiter s"
  by (auto simp: with_sync_limiter_def split: option.splits prod.splits)

lemma with_sync_limiter_Inr:
  "with_sync_limiter f s = (Inr x, t) \<Longrightarrow> (case st_limiter s of None \<Rightarrow> x = None \<and> t = s
     | Some l \<Rightarrow> \<exists>y d. f l (st_data s) = (Inr y, d) \<and> x = Some y \<and> t = s\<lparr>st_data := d\<rparr>)"
  by (cases "st_limiter s")
    (auto simp: with_sync_limiter_def split: prod.splits sum.splits)

text \<open>What the bound says of a growth to \<open>n\<close>: without a limiter the default ceiling, with one its approval.\<close>

definition memory_approved :: "'d store \<Rightarrow> nat \<Rightarrow> nat \<Rightarrow> nat option \<Rightarrow> bool" where
  "memory_approved s current desired mx \<longleftrightarrow> (case st_limiter s of
     None \<Rightarrow> desired \<le> DEFAULT_MEMORY_CEILING_BYTES
   | Some l \<Rightarrow> \<exists>d. lm_memory_growing l current desired mx (st_data s) = (Inr True, d))"

definition table_approved :: "'d store \<Rightarrow> nat \<Rightarrow> nat \<Rightarrow> nat option \<Rightarrow> bool" where
  "table_approved s current desired mx \<longleftrightarrow> (case st_limiter s of
     None \<Rightarrow> desired \<le> DEFAULT_TABLE_CEILING_ELEMS
   | Some l \<Rightarrow> \<exists>d. lm_table_growing l current desired mx (st_data s) = (Inr True, d))"

lemma limiter_verdict:
  assumes "with_sync_limiter g s = (v, t)"
  shows "(case st_limiter s of None \<Rightarrow> ok | Some l \<Rightarrow> \<exists>d. g l (st_data s) = (Inr True, d)) \<longleftrightarrow> (\<exists>x. v = Inr x \<and> unless_limited x ok)"
  using assms by (cases "st_limiter s") (auto simp: with_sync_limiter_def unless_limited_def split: prod.splits sum.splits)

lemma grow_failed_keeps:
  "memory_grow_failed s = (r, t) \<Longrightarrow> st_inner t = st_inner s" "table_grow_failed s = (r, t) \<Longrightarrow> st_inner t = st_inner s"
  by (auto simp: memory_grow_failed_def table_grow_failed_def bindc_def split: prod.splits sum.splits
      dest: with_sync_limiter_keeps)

lemma grow_failed_none:
  assumes "bindc f (\<lambda>_. ret None) u = (r, t)" and "f = memory_grow_failed \<or> f = table_grow_failed"
  shows "st_inner t = st_inner u \<and> (\<forall>n. r \<noteq> Inr (Some n))"
  using assms grow_failed_keeps by (auto simp: bindc_def split: prod.splits sum.splits)

lemma grow_memory_cases:
  assumes run: "grow_memory can_alloc h delta s = (r, t)" and e: "memory_at h (st_inner s) = Inr e"
  shows "(st_inner t = st_inner s \<and> (\<forall>n. r \<noteq> Inr (Some n)) \<and> \<not> (memory_approved s (bytes_of (size_pages e)) (bytes_of (saturating_add u64_max (size_pages e) delta)) (map_option bytes_of (mt_maximum (me_ty e))) \<and>
       fst (memory_grow can_alloc delta e) \<noteq> None)) \<or>
    (\<exists>old e'. r = Inr (Some old) \<and> memory_grow can_alloc delta e = (Some old, e') \<and> st_inner t = put_memory h e' (st_inner s) \<and>
       memory_approved s (bytes_of (size_pages e)) (bytes_of (saturating_add u64_max (size_pages e) delta)) (map_option bytes_of (mt_maximum (me_ty e))))"
proof -
  let ?desired = "saturating_add u64_max (size_pages e) delta"
  obtain v u where v: "with_sync_limiter (\<lambda>l. lm_memory_growing l (bytes_of (size_pages e)) (bytes_of ?desired) (map_option bytes_of (mt_maximum (me_ty e)))) s = (v, u)" by fastforce
  note keep = with_sync_limiter_keeps [OF v]
  have ap: "memory_approved s (bytes_of (size_pages e)) (bytes_of ?desired) (map_option bytes_of (mt_maximum (me_ty e))) \<longleftrightarrow>
      (\<exists>x. v = Inr x \<and> unless_limited x (bytes_of ?desired \<le> DEFAULT_MEMORY_CEILING_BYTES))"
    unfolding memory_approved_def by (rule limiter_verdict [OF v])
  show ?thesis
  proof (cases v)
    case (Inl err)
    with run v e have "r = Inl err \<and> t = u" by (simp add: grow_memory_def Let_def grow_simps)
    with keep ap Inl show ?thesis by simp
  next
    case (Inr x)
    obtain go e' where g: "(if unless_limited x (bytes_of ?desired \<le> DEFAULT_MEMORY_CEILING_BYTES) then memory_grow can_alloc delta e else (None, e)) = (go, e')"
      by fastforce
    show ?thesis
    proof (cases go)
      case None
      with run v e g Inr have "bindc memory_grow_failed (\<lambda>_. ret None) u = (r, t)"
        by (simp add: grow_memory_def Let_def grow_simps)
      then have "st_inner t = st_inner u \<and> (\<forall>n. r \<noteq> Inr (Some n))" by (rule grow_failed_none) simp
      then show ?thesis using keep ap Inr g None by (auto split: if_splits)
    next
      case (Some old)
      with g have ok: "unless_limited x (bytes_of ?desired \<le> DEFAULT_MEMORY_CEILING_BYTES)" "memory_grow can_alloc delta e = (Some old, e')"
        by (auto split: if_splits)
      have "(Inr (Some old), u\<lparr>st_inner := put_memory h e' (st_inner s)\<rparr>) = (r, t)"
        using run v e g Inr Some keep by (simp add: grow_memory_def Let_def grow_simps)
      then have "r = Inr (Some old)" "st_inner t = put_memory h e' (st_inner s)" by auto
      then show ?thesis using ok ap Inr by blast
    qed
  qed
qed

lemma grow_table_cases:
  assumes run: "grow_table can_alloc h delta init s = (r, t)" and e: "table_at h (st_inner s) = Inr e"
  shows "(st_inner t = st_inner s \<and> (\<forall>n. r \<noteq> Inr (Some n)) \<and> \<not> (table_approved s (table_size e) (saturating_add usize_max (table_size e) delta) (tt_maximum (te_ty e)) \<and>
       fst (table_grow can_alloc delta init e) \<noteq> None)) \<or>
    (\<exists>old e'. r = Inr (Some old) \<and> table_grow can_alloc delta init e = (Some old, e') \<and> st_inner t = put_table h e' (st_inner s) \<and>
       table_approved s (table_size e) (saturating_add usize_max (table_size e) delta) (tt_maximum (te_ty e)))"
proof -
  let ?desired = "saturating_add usize_max (table_size e) delta"
  obtain v u where v: "with_sync_limiter (\<lambda>l. lm_table_growing l (table_size e) ?desired (tt_maximum (te_ty e))) s = (v, u)" by fastforce
  note keep = with_sync_limiter_keeps [OF v]
  have ap: "table_approved s (table_size e) ?desired (tt_maximum (te_ty e)) \<longleftrightarrow>
      (\<exists>x. v = Inr x \<and> unless_limited x (?desired \<le> DEFAULT_TABLE_CEILING_ELEMS))"
    unfolding table_approved_def by (rule limiter_verdict [OF v])
  show ?thesis
  proof (cases v)
    case (Inl err)
    with run v e have "r = Inl err \<and> t = u" by (simp add: grow_table_def Let_def grow_simps)
    with keep ap Inl show ?thesis by simp
  next
    case (Inr x)
    obtain go e' where g: "(if unless_limited x (?desired \<le> DEFAULT_TABLE_CEILING_ELEMS) then table_grow can_alloc delta init e else (None, e)) = (go, e')"
      by fastforce
    show ?thesis
    proof (cases go)
      case None
      with run v e g Inr have "bindc table_grow_failed (\<lambda>_. ret None) u = (r, t)"
        by (simp add: grow_table_def Let_def grow_simps)
      then have "st_inner t = st_inner u \<and> (\<forall>n. r \<noteq> Inr (Some n))" by (rule grow_failed_none) simp
      then show ?thesis using keep ap Inr g None by (auto split: if_splits)
    next
      case (Some old)
      with g have ok: "unless_limited x (?desired \<le> DEFAULT_TABLE_CEILING_ELEMS)" "table_grow can_alloc delta init e = (Some old, e')"
        by (auto split: if_splits)
      have "(Inr (Some old), u\<lparr>st_inner := put_table h e' (st_inner s)\<rparr>) = (r, t)"
        using run v e g Inr Some keep by (simp add: grow_table_def Let_def grow_simps)
      then have "r = Inr (Some old)" "st_inner t = put_table h e' (st_inner s)" by auto
      then show ?thesis using ok ap Inr by blast
    qed
  qed
qed

text \<open>Growth of one entity, seen from the store: it appends, or it changes nothing.\<close>

lemma bytes_of_size: "memory_ok e \<Longrightarrow> length (me_bytes e) \<le> usize_max \<Longrightarrow> bytes_of (size_pages e) = length (me_bytes e)"
  by (simp add: bytes_of_def memory_ok_def saturating_mul_def)

lemma grown_bytes:
  assumes "memory_ok e" and "memory_grow can_alloc delta e = (Some old, e')"
  shows "bytes_of (saturating_add u64_max (size_pages e) delta) = length (me_bytes e') \<and>
    me_bytes e' = me_bytes e @ replicate (delta * PAGE_SIZE) 0 \<and> me_ty e' = me_ty e \<and> old = size_pages e"
proof -
  have g: "memory_can_grow can_alloc delta e" "e' = e\<lparr>me_bytes := me_bytes e @ replicate (delta * PAGE_SIZE) 0\<rparr>" "old = size_pages e"
    using assms(2) by (simp_all add: memory_grow_spec [OF assms(1)] split: if_splits)
  have "size_pages e + delta \<le> 2 ^ 48" using g(1) page_limit_le [of "me_ty e"] by (simp add: memory_can_grow_def)
  then have "saturating_add u64_max (size_pages e) delta = size_pages e + delta" by (simp add: saturating_add_def)
  moreover have "length (me_bytes e') = (size_pages e + delta) * PAGE_SIZE"
    using assms(1) by (simp add: g(2) memory_ok_def algebra_simps)
  ultimately show ?thesis using g by (simp add: bytes_of_def saturating_mul_def memory_can_grow_def)
qed

lemma grown_elems:
  assumes "table_grow can_alloc delta init e = (Some old, e')"
  shows "saturating_add usize_max (table_size e) delta = table_size e' \<and>
    te_elems e' = te_elems e @ replicate delta init \<and> te_ty e' = te_ty e \<and> old = table_size e"
proof -
  have g: "table_size e + delta \<le> elem_limit (te_ty e)" "e' = e\<lparr>te_elems := te_elems e @ replicate delta init\<rparr>" "old = table_size e"
    using assms by (simp_all add: table_grow_spec split: if_splits)
  with elem_limit_le [of "te_ty e"] show ?thesis by (simp add: table_size_def saturating_add_def)
qed

section \<open>Reserving for the host\<close>

lemma operand_roots_machine [simp]: "operand_roots (machine_of e s) = operand_roots e"
  by (simp add: operand_roots_def machine_of_def)

lemma machine_of_simps [simp]: "ma_inner (machine_of e s) = s" "(machine_of e s)\<lparr>ma_inner := t\<rparr> = machine_of e t"
  by (simp_all add: machine_of_def)

text \<open>The tail shared by both paths: grow within the free budget, or ask for more.\<close>

definition reserve_tail :: "nat \<Rightarrow> nat \<Rightarrow> (machine, step_outcome option) action" where
  "reserve_tail charge ip =
     bindc (getc (\<lambda>m. desired_reservation (si_gc (ma_inner m)) charge)) (\<lambda>target.
     bindc (getc (\<lambda>m. is_free_grant (si_gc (ma_inner m)) target)) (\<lambda>free.
     if free then bindc (upd_inner (grant_reservation target)) (\<lambda>_. ret None)
     else ret (Some (DoGcGrow target charge ip))))"

definition reserve_tail_host :: "nat \<Rightarrow> ('d store, unit) action" where
  "reserve_tail_host charge =
     bindc (getc (\<lambda>s. desired_reservation (si_gc (st_inner s)) charge)) (\<lambda>target.
     bindc (getc (\<lambda>s. is_free_grant (si_gc (st_inner s)) target)) (\<lambda>free.
     if free then upd_store (grant_reservation target) else grow_gc_reservation target charge))"

definition after_reserve :: "'d store \<Rightarrow> step_outcome option result \<Rightarrow> store_inner \<Rightarrow> unit result \<times> 'd store" where
  "after_reserve s r i = (case r of
      Inl e \<Rightarrow> (Inl e, s\<lparr>st_inner := i\<rparr>)
    | Inr (Some (DoGcGrow target bytes _)) \<Rightarrow> grow_gc_reservation target bytes (s\<lparr>st_inner := i\<rparr>)
    | Inr _ \<Rightarrow> (Inr (), s\<lparr>st_inner := i\<rparr>))"

lemma after_reserve_simps [simp]:
  "after_reserve s (Inl e) i = (Inl e, s\<lparr>st_inner := i\<rparr>)" "after_reserve s (Inr None) i = (Inr (), s\<lparr>st_inner := i\<rparr>)"
  "after_reserve s (Inr (Some (DoGcGrow n b ip))) i = grow_gc_reservation n b (s\<lparr>st_inner := i\<rparr>)"
  by (simp_all add: after_reserve_def)

lemma reserve_tails:
  "(case reserve_tail charge ip (machine_of e i) of (r, m) \<Rightarrow> after_reserve s r (ma_inner m)) = reserve_tail_host charge (s\<lparr>st_inner := i\<rparr>)"
  by (simp add: reserve_tail_def reserve_tail_host_def store_plumbing)

lemma gc_reserve_eq: "gc_reserve charge ip m =
   (if gc_fits (si_gc (ma_inner m)) charge then (Inr None, m)
    else if is_free_grant (si_gc (ma_inner m)) (desired_reservation (si_gc (ma_inner m)) charge) \<or> \<not> gh_collecting (si_gc (ma_inner m))
    then reserve_tail charge ip m
    else case gc_collect_now m of (Inl e, m') \<Rightarrow> (Inl e, m')
      | (Inr _, m') \<Rightarrow> if gc_fits (si_gc (ma_inner m')) charge then (Inr None, m') else reserve_tail charge ip m')"
  by (auto simp: gc_reserve_def reserve_tail_def grant_reservation_def bindc_def split: prod.splits sum.splits)

lemma gc_reserve_host_eq: "gc_reserve_host charge s =
   (if gc_fits (si_gc (st_inner s)) charge then (Inr (), s)
    else if is_free_grant (si_gc (st_inner s)) (desired_reservation (si_gc (st_inner s)) charge) \<or> \<not> gh_collecting (si_gc (st_inner s))
    then reserve_tail_host charge s
    else case exec_roots (st_inner s) of Inl e \<Rightarrow> (Inl e, s)
      | Inr roots \<Rightarrow> (case collect roots (st_inner s) of (Inl e, i) \<Rightarrow> (Inl e, s\<lparr>st_inner := i\<rparr>)
        | (Inr _, i) \<Rightarrow> if gc_fits (si_gc i) charge then (Inr (), s\<lparr>st_inner := i\<rparr>) else reserve_tail_host charge (s\<lparr>st_inner := i\<rparr>)))"
  by (auto simp: gc_reserve_host_def reserve_tail_host_def bindc_def store_plumbing split: prod.splits sum.splits)

lemma gc_collect_now_machine: "gc_collect_now (machine_of (si_exec_slot s) s) =
   (case exec_roots s of Inl e \<Rightarrow> (Inl e, machine_of (si_exec_slot s) s)
    | Inr roots \<Rightarrow> (case collect roots s of (r, i) \<Rightarrow> (r, machine_of (si_exec_slot s) i)))"
  by (auto simp: gc_collect_now_def exec_roots_def on_inner_def split: sum.splits prod.splits)

lemma gc_reserve_parked:
  "gc_reserve_host charge s = (case gc_reserve charge ip (machine_of (si_exec_slot (st_inner s)) (st_inner s)) of
     (r, m) \<Rightarrow> after_reserve s r (ma_inner m))"
proof -
  have tail: "reserve_tail_host charge s = (case reserve_tail charge ip (machine_of e (st_inner s)) of (r, m) \<Rightarrow> after_reserve s r (ma_inner m))" for e
    using reserve_tails [of s charge ip e "st_inner s"] by simp
  let ?i = "st_inner s"
  consider "gc_fits (si_gc ?i) charge"
    | "\<not> gc_fits (si_gc ?i) charge" "is_free_grant (si_gc ?i) (desired_reservation (si_gc ?i) charge) \<or> \<not> gh_collecting (si_gc ?i)"
    | e where "\<not> gc_fits (si_gc ?i) charge" "\<not> (is_free_grant (si_gc ?i) (desired_reservation (si_gc ?i) charge) \<or> \<not> gh_collecting (si_gc ?i))"
        "exec_roots ?i = Inl e"
    | roots q j where "\<not> gc_fits (si_gc ?i) charge" "\<not> (is_free_grant (si_gc ?i) (desired_reservation (si_gc ?i) charge) \<or> \<not> gh_collecting (si_gc ?i))"
        "exec_roots ?i = Inr roots" "collect roots ?i = (q, j)"
    by (metis old.sum.exhaust surj_pair)
  then show ?thesis
  proof cases
    case (4 roots q j)
    then show ?thesis
      by (cases q) (auto simp: gc_reserve_eq gc_reserve_host_eq gc_collect_now_machine reserve_tails)
  qed (simp_all add: gc_reserve_eq gc_reserve_host_eq gc_collect_now_machine tail)
qed

section \<open>The contract of a limiter\<close>

text \<open>A limiter with caps: whatever it approves is within the cap its state sets, and being asked does not move the cap. Every
  store with such a limiter keeps its entities within the caps.\<close>

definition capped :: "nat option \<Rightarrow> nat option \<Rightarrow> store_inner \<Rightarrow> bool" where
  "capped mem tab s \<longleftrightarrow> (\<forall>e \<in> set (si_memories s). memory_ok e \<and> within mem (length (me_bytes e))) \<and>
     (\<forall>e \<in> set (si_tables s). within tab (table_size e))"

lemma capped_put_memory: "capped mem tab s \<Longrightarrow> memory_ok e \<Longrightarrow> within mem (length (me_bytes e)) \<Longrightarrow> capped mem tab (put_memory h e s)"
  by (auto simp: capped_def put_memory_def dest!: set_update_subset_insert [THEN subsetD])

lemma capped_put_table: "capped mem tab s \<Longrightarrow> within tab (table_size e) \<Longrightarrow> capped mem tab (put_table h e s)"
  by (auto simp: capped_def put_table_def dest!: set_update_subset_insert [THEN subsetD])

lemma entity_in: "entity_at arena h s = Inr e \<Longrightarrow> e \<in> set (arena s)"
  by (auto simp: entity_at_Inr)

locale capping_limiter =
  fixes L :: "'d limiter"
    and mem_cap tab_cap :: "'d \<Rightarrow> nat option"
  assumes memory_within: "lm_memory_growing L current desired mx d = (Inr True, d') \<Longrightarrow> within (mem_cap d) desired"
    and table_within: "lm_table_growing L current desired mx d = (Inr True, d') \<Longrightarrow> within (tab_cap d) desired"
begin

lemma grow_memory_capped:
  assumes lim: "st_limiter s = Some L" and ok: "capped (mem_cap (st_data s)) tab (st_inner s)"
    and run: "grow_memory can_alloc h delta s = (r, t)" and at: "memory_at h (st_inner s) = Inr e"
  shows "capped (mem_cap (st_data s)) tab (st_inner t)"
  using grow_memory_cases [OF run at]
proof (elim disjE exE conjE)
  fix old e'
  assume g: "memory_grow can_alloc delta e = (Some old, e')" and t: "st_inner t = put_memory h e' (st_inner s)"
    and ap: "memory_approved s (bytes_of (size_pages e)) (bytes_of (saturating_add u64_max (size_pages e) delta)) (map_option bytes_of (mt_maximum (me_ty e)))"
  have e: "memory_ok e" using entity_in [OF at] ok by (simp add: capped_def)
  have "memory_ok e'" using memory_ok_grow [OF e g] .
  moreover have "within (mem_cap (st_data s)) (length (me_bytes e'))"
    using ap lim grown_bytes [OF e g] memory_within by (auto simp: memory_approved_def)
  ultimately show ?thesis using ok t by (simp add: capped_put_memory)
qed (use ok in simp)

lemma grow_table_capped:
  assumes lim: "st_limiter s = Some L" and ok: "capped mem (tab_cap (st_data s)) (st_inner s)"
    and run: "grow_table can_alloc h delta init s = (r, t)" and at: "table_at h (st_inner s) = Inr e"
  shows "capped mem (tab_cap (st_data s)) (st_inner t)"
  using grow_table_cases [OF run at]
proof (elim disjE exE conjE)
  fix old e'
  assume g: "table_grow can_alloc delta init e = (Some old, e')" and t: "st_inner t = put_table h e' (st_inner s)"
    and ap: "table_approved s (table_size e) (saturating_add usize_max (table_size e) delta) (tt_maximum (te_ty e))"
  have "within (tab_cap (st_data s)) (table_size e')"
    using ap lim grown_elems [OF g] table_within by (auto simp: table_approved_def)
  then show ?thesis using ok t by (simp add: capped_put_table)
qed (use ok in simp)

end

interpretation store_limits: capping_limiter limits_limiter sl_memory_size sl_table_elements
  by unfold_locales (auto simp: limits_limiter_def limits_memory_growing_def limits_table_growing_def)

section \<open>Properties\<close>

text \<open>C26. Growing a memory. The growth succeeds exactly when the limiter (or, without one, the default ceiling) approves the size
  in bytes the memory will have and the type's limit, the address space and the host allow it. It then reports the old size and
  appends that many zeroed pages, and the store is otherwise unchanged; a refused growth leaves the store as it was.\<close>

theorem grow_memory_exact:
  assumes "memory_at h (st_inner s) = Inr e" and "memory_ok e" and "grow_memory can_alloc h delta s = (r, t)"
  shows "(if memory_approved s (bytes_of (size_pages e)) (bytes_of (saturating_add u64_max (size_pages e) delta)) (map_option bytes_of (mt_maximum (me_ty e))) \<and>
       memory_can_grow can_alloc delta e
     then r = Inr (Some (size_pages e)) \<and> (\<exists>e'. st_inner t = put_memory h e' (st_inner s) \<and> memory_ok e' \<and> me_ty e' = me_ty e \<and>
       me_bytes e' = me_bytes e @ replicate (delta * PAGE_SIZE) 0 \<and>
       length (me_bytes e') = bytes_of (saturating_add u64_max (size_pages e) delta))
     else st_inner t = st_inner s \<and> (\<forall>n. r \<noteq> Inr (Some n)))"
proof (cases "memory_can_grow can_alloc delta e")
  case True
  then obtain e' where g: "memory_grow can_alloc delta e = (Some (size_pages e), e')" by (simp add: memory_grow_spec [OF assms(2)])
  with grow_memory_cases [OF assms(3,1)] grown_bytes [OF assms(2) g] memory_ok_grow [OF assms(2) g]
  show ?thesis using True by auto
next
  case False
  then have "memory_grow can_alloc delta e = (None, e)" by (simp add: memory_grow_spec [OF assms(2)])
  with grow_memory_cases [OF assms(3,1)] False show ?thesis by auto
qed

definition empty_memory :: memory_entity where
  "empty_memory = \<lparr>me_bytes = [], me_ty = \<lparr>mt_minimum = 0, mt_maximum = Some 4, mt_memory64 = False\<rparr>\<rparr>"

definition null_table :: table_entity where
  "null_table = sample_table\<lparr>te_elems := [RefAny None, RefAny None]\<rparr>"

definition grow_store :: "'d \<Rightarrow> 'd limiter option \<Rightarrow> 'd store" where
  "grow_store d l = \<lparr>st_inner = (store_new 1 sample_engine)\<lparr>si_memories := [empty_memory], si_tables := [null_table]\<rparr>, st_data = d, st_limiter = l\<rparr>"

definition handle0 :: entity_handle where
  "handle0 = \<lparr>eh_index = 0, eh_store = 1\<rparr>"

definition tight_limits :: store_limits where
  "tight_limits = store_limits_default\<lparr>sl_memory_size := Some 65536, sl_table_elements := Some 4\<rparr>"

lemma memory_ok_empty: "memory_ok empty_memory"
  by code_simp

theorem grow_memory_exact_witness: "fst (grow_memory (\<lambda>n. True) handle0 1 (grow_store () None)) = Inr (Some 0)"
proof -
  obtain r t where run: "grow_memory (\<lambda>n. True) handle0 1 (grow_store () None) = (r, t)" by fastforce
  have at: "memory_at handle0 (st_inner (grow_store () None)) = Inr empty_memory"
    by (simp add: entity_at_Inr check_handle_def handle0_def grow_store_def store_new_def)
  have "memory_approved (grow_store () None) (bytes_of (size_pages empty_memory)) (bytes_of (saturating_add u64_max (size_pages empty_memory) 1))
      (map_option bytes_of (mt_maximum (me_ty empty_memory)))" "memory_can_grow (\<lambda>n. True) 1 empty_memory" "size_pages empty_memory = 0"
    by (simp add: memory_approved_def grow_store_def, code_simp) code_simp+
  with grow_memory_exact [OF at memory_ok_empty run] run show ?thesis by auto
qed

text \<open>C27. A store under the ready-made limiter never outgrows it: whatever growth is asked for, through whichever handle, every
  memory stays within the configured byte size (whole pages, within its type) and every table within the configured element count.\<close>

theorem store_limits_hold:
  assumes "st_limiter s = Some limits_limiter" and "capped (sl_memory_size (st_data s)) (sl_table_elements (st_data s)) (st_inner s)"
    and "memory_at h (st_inner s) = Inr e" and "grow_memory can_alloc h delta s = (r, t)"
    and "table_at k (st_inner s) = Inr f" and "grow_table can_alloc k n init s = (q, u)"
  shows "capped (sl_memory_size (st_data s)) (sl_table_elements (st_data s)) (st_inner t) \<and>
    capped (sl_memory_size (st_data s)) (sl_table_elements (st_data s)) (st_inner u)"
  using store_limits.grow_memory_capped [OF assms(1,2,4,3)] store_limits.grow_table_capped [OF assms(1,2,6,5)] by blast

theorem store_limits_hold_witness:
  "capped (Some 65536) (Some 4) (st_inner (snd (grow_memory (\<lambda>n. True) handle0 2 (grow_store tight_limits (Some limits_limiter)))))"
proof -
  let ?s = "grow_store tight_limits (Some limits_limiter)"
  obtain r t where m: "grow_memory (\<lambda>n. True) handle0 2 ?s = (r, t)" by fastforce
  obtain q u where n: "grow_table (\<lambda>n. True) handle0 2 (RefAny None) ?s = (q, u)" by fastforce
  have at: "memory_at handle0 (st_inner ?s) = Inr empty_memory" "table_at handle0 (st_inner ?s) = Inr null_table"
    by (simp_all add: entity_at_Inr check_handle_def handle0_def grow_store_def store_new_def)
  have lim: "st_limiter ?s = Some limits_limiter" "sl_memory_size (st_data ?s) = Some 65536" "sl_table_elements (st_data ?s) = Some 4"
    by (simp_all add: grow_store_def tight_limits_def)
  have "capped (Some 65536) (Some 4) (st_inner ?s)"
    using memory_ok_empty by (simp add: capped_def grow_store_def store_new_def empty_memory_def null_table_def table_size_def)
  then show ?thesis using store_limits_hold [OF lim(1) _ at(1) m at(2) n] lim(2,3) m by simp
qed

text \<open>C28. The two reservation paths are in lockstep. A host allocation made while the guest is parked reserves exactly as the
  guest's own allocation would on the same stacks: it collects in the same cases with the same roots, takes the free grant in the
  same cases, and where the guest suspends to have its reservation grown it asks the limiter for that same growth itself.\<close>

theorem gc_reserve_lockstep:
  assumes "gc_reserve charge ip (machine_of (si_exec_slot (st_inner s)) (st_inner s)) = (r, m)"
  shows "gc_reserve_host charge s = (case r of
      Inl e \<Rightarrow> (Inl e, s\<lparr>st_inner := ma_inner m\<rparr>)
    | Inr (Some (DoGcGrow target bytes _)) \<Rightarrow> grow_gc_reservation target bytes (s\<lparr>st_inner := ma_inner m\<rparr>)
    | Inr _ \<Rightarrow> (Inr (), s\<lparr>st_inner := ma_inner m\<rparr>))"
  using gc_reserve_parked [of charge s ip] assms by (simp add: after_reserve_def)

theorem gc_reserve_lockstep_witness:
  "\<exists>i. gc_reserve_host 40 (grow_store () None) = grow_gc_reservation RESERVE_BATCH 40 ((grow_store () None)\<lparr>st_inner := i\<rparr>)"
proof -
  let ?s = "grow_store () None" and ?m = "machine_of (si_exec_slot (st_inner (grow_store () None))) (st_inner (grow_store () None))"
  obtain r m where run: "gc_reserve 40 7 ?m = (r, m)" by fastforce
  have "fst (gc_reserve 40 7 ?m) = Inr (Some (DoGcGrow RESERVE_BATCH 40 7))" by code_simp
  with run gc_reserve_lockstep [OF run] show ?thesis by auto
qed

end
