(* ===== verification/Value_Match.thy ===== *)
theory Value_Match
  imports Exec_Cast
begin

text \<open>
  Dynamic checks of values against types at the host boundary, \<^verbatim>\<open>src/value_match.rs\<close>: the shape and
  nullability of a value, the liveness of a reference, its concrete type by the engine's subtype
  relation, and the internalization of a host externref passed for an \<^verbatim>\<open>anyref\<close> parameter.
\<close>

section \<open>Matching\<close>

definition present :: "'a option \<Rightarrow> ref_type \<Rightarrow> bool" where
  "present v r \<longleftrightarrow> v \<noteq> None \<or> rt_nullable r"

definition absent :: "'a option \<Rightarrow> ref_type \<Rightarrow> bool" where
  "absent v r \<longleftrightarrow> v = None \<and> rt_nullable r"

fun val_matches :: "val \<Rightarrow> val_type \<Rightarrow> bool" where
  "val_matches (I32 _) VtI32 = True"
| "val_matches (I64 _) VtI64 = True"
| "val_matches (F32 _) VtF32 = True"
| "val_matches (F64 _) VtF64 = True"
| "val_matches (V128 _) VtV128 = True"
| "val_matches (FuncRef v) (VtRef r) = (case rt_heap r of
     HtNoFunc \<Rightarrow> absent v r | HtFunc \<Rightarrow> present v r | HtConcreteFunc _ \<Rightarrow> present v r | _ \<Rightarrow> False)"
| "val_matches (ExternRef v) (VtRef r) = (case rt_heap r of
     HtNoExtern \<Rightarrow> absent v r | HtExtern \<Rightarrow> present v r | _ \<Rightarrow> False)"
| "val_matches (ExnRef v) (VtRef r) = (case rt_heap r of
     HtNoExn \<Rightarrow> absent v r | HtExn \<Rightarrow> present v r | _ \<Rightarrow> False)"
| "val_matches (AnyRef v) (VtRef r) = (case rt_heap r of
     HtNone \<Rightarrow> absent v r
   | HtAny \<Rightarrow> present v r | HtEq \<Rightarrow> present v r | HtI31 \<Rightarrow> present v r | HtStruct \<Rightarrow> present v r
   | HtConcreteStruct _ \<Rightarrow> present v r | HtArray \<Rightarrow> present v r | HtConcreteArray _ \<Rightarrow> present v r | _ \<Rightarrow> False)"
| "val_matches _ _ = False"

definition validate_live_reference :: "val \<Rightarrow> store_inner \<Rightarrow> unit result" where
  "validate_live_reference v s = (case v of
     FuncRef (Some f) \<Rightarrow> (if fh_store f \<noteq> 0 \<and> fh_store f \<noteq> si_store_id s
       then Inl (Msg ''function reference belongs to a different store'')
       else bindr (func_at f s) (\<lambda>_. Inr ()))
   | ExternRef (Some r) \<Rightarrow> (if \<not> belongs_to_store r s then Inl (Msg ''externref belongs to a different store'')
       else bindr (externref_checked r s) (\<lambda>_. Inr ()))
   | AnyRef (Some r) \<Rightarrow> (if \<not> belongs_to_store r s then Inl (Msg ''anyref belongs to a different store'')
       else case decode_anyref_handle (ro_index r) of
         HandleSlot _ \<Rightarrow> bindr (gc_slot_checked r s) (\<lambda>_. Inr ()) | HandleI31 _ \<Rightarrow> Inr ())
   | ExnRef (Some r) \<Rightarrow> (if \<not> belongs_to_store r s then Inl (Msg ''exnref belongs to a different store'')
       else bindr (exn_checked r s) (\<lambda>_. Inr ()))
   | _ \<Rightarrow> Inr ())"

definition concrete_func_matches :: "func_handle \<Rightarrow> canonical_type_id \<Rightarrow> store_inner \<Rightarrow> bool result" where
  "concrete_func_matches f expected s = bindr (func_type_id f s) (\<lambda>actual. engine_is_subtype actual expected s)"

definition anyref_matches :: "rooted \<Rightarrow> heap_type \<Rightarrow> store_inner \<Rightarrow> bool result" where
  "anyref_matches r expected s = (case decode_anyref_handle (ro_index r) of
     HandleI31 _ \<Rightarrow> Inr (expected = HtAny \<or> expected = HtEq \<or> expected = HtI31)
   | HandleSlot _ \<Rightarrow>
       bindr (gc_slot_checked r s) (\<lambda>i.
       bindr (ok_or (Msg ''stale gc reference (object was collected)'') (gc_get (si_gc s) i)) (\<lambda>ob.
       case expected of
         HtAny \<Rightarrow> Inr True
       | HtEq \<Rightarrow> Inr (go_kind ob \<noteq> ObjExtern)
       | HtStruct \<Rightarrow> Inr (go_kind ob = ObjStruct)
       | HtArray \<Rightarrow> Inr (go_kind ob = ObjArray)
       | HtConcreteStruct t \<Rightarrow> (if go_kind ob = ObjStruct then engine_is_subtype (go_type_id ob) t s else Inr False)
       | HtConcreteArray t \<Rightarrow> (if go_kind ob = ObjArray then engine_is_subtype (go_type_id ob) t s else Inr False)
       | _ \<Rightarrow> Inr False)))"

definition val_matches_in_store :: "val \<Rightarrow> val_type \<Rightarrow> store_inner \<Rightarrow> bool result" where
  "val_matches_in_store v t s = (if \<not> val_matches v t then Inr False else case t of
     VtRef r \<Rightarrow> bindr (validate_live_reference v s) (\<lambda>_.
       case (v, rt_heap r) of
         (FuncRef (Some f), HtConcreteFunc expected) \<Rightarrow> concrete_func_matches f expected s
       | (AnyRef (Some a), expected) \<Rightarrow> anyref_matches a expected s
       | _ \<Rightarrow> Inr True)
   | _ \<Rightarrow> Inr True)"

definition arg_matches_in_store :: "val \<Rightarrow> val_type \<Rightarrow> store_inner \<Rightarrow> bool result" where
  "arg_matches_in_store v t s = (case (v, t) of
     (ExternRef x, VtRef r) \<Rightarrow> (if x \<noteq> None \<and> rt_heap r = HtAny
       then bindr (validate_live_reference v s) (\<lambda>_. Inr True) else val_matches_in_store v t s)
   | _ \<Rightarrow> val_matches_in_store v t s)"

fun values_match_from :: "string \<Rightarrow> val list \<Rightarrow> val_type list \<Rightarrow> store_inner \<Rightarrow> unit result" where
  "values_match_from context (v # vs) (t # ts) s = bindr (val_matches_in_store v t s) (\<lambda>ok.
     if ok then values_match_from context vs ts s else Inl (Internal (ResultShape context)))"
| "values_match_from context _ _ s = Inr ()"

definition ensure_values_match :: "string \<Rightarrow> val list \<Rightarrow> val_type list \<Rightarrow> store_inner \<Rightarrow> unit result" where
  "ensure_values_match context vs ts s = (if length vs \<noteq> length ts then Inl (Internal (ResultShape context))
     else values_match_from context vs ts s)"

definition coerce_arg :: "val \<Rightarrow> val_type \<Rightarrow> (store_inner, val) action" where
  "coerce_arg v t = (case (v, t) of
     (ExternRef (Some _), VtRef r) \<Rightarrow> (if rt_heap r = HtAny then any_convert_extern v else ret v)
   | _ \<Rightarrow> ret v)"

fun coerce_args :: "val list \<Rightarrow> val_type list \<Rightarrow> (store_inner, val list) action" where
  "coerce_args (v # vs) (t # ts) = bindc (coerce_arg v t) (\<lambda>w. bindc (coerce_args vs ts) (\<lambda>ws. ret (w # ws)))"
| "coerce_args _ _ = ret []"

section \<open>Lemmas\<close>

text \<open>A value that matches a type carries the tag and the shape of that type.\<close>

lemma val_matches_fits: "val_matches v t \<Longrightarrow> t \<noteq> VtV128 \<Longrightarrow> val_fits v t"
  by (cases v; cases t)
    (auto simp: val_fits_def of_val_def of_refkind_def refkind_of_heap_def split: heap_type.splits)

lemma val_fits_tag: "val_fits v t \<Longrightarrow> of_val v = expected_tag t"
  by (cases v; cases t) (auto simp: val_fits_def expected_tag_def of_val_def)

lemma val_matches_in_store_shape: "val_matches_in_store v t s = Inr True \<Longrightarrow> val_matches v t"
  by (auto simp: val_matches_in_store_def split: if_splits)

lemma values_match_shape:
  "values_match_from ctx vs ts s = Inr () \<Longrightarrow> length vs = length ts \<Longrightarrow> list_all2 val_matches vs ts"
  by (induction ctx vs ts s rule: values_match_from.induct)
    (auto simp: bindr_def val_matches_in_store_shape split: if_splits sum.splits)

lemma ensure_values_match_shape:
  "ensure_values_match ctx vs ts s = Inr () \<Longrightarrow> list_all2 val_matches vs ts"
  by (auto simp: ensure_values_match_def values_match_shape split: if_splits)

text \<open>Internalizing an externref gives a non-null anyref.\<close>

lemma any_convert_extern_some:
  assumes "any_convert_extern (ExternRef (Some r)) s = (Inr w, s')"
  shows "\<exists>a. w = AnyRef (Some a)"
  using assms by (auto simp: any_convert_extern_def anyref_value_def split: option.splits extern_entry.splits prod.splits sum.splits)

lemma coerce_arg_cases:
  assumes "arg_matches_in_store v t s = Inr True" and "coerce_arg v t s = (Inr w, s')"
  shows "val_matches w t"
proof (cases "\<exists>x r. v = ExternRef (Some x) \<and> t = VtRef r \<and> rt_heap r = HtAny")
  case True
  with assms(2) any_convert_extern_some show ?thesis by (fastforce simp: coerce_arg_def present_def)
next
  case False
  then have "arg_matches_in_store v t s = val_matches_in_store v t s" "coerce_arg v t = ret v"
    by (auto simp: arg_matches_in_store_def coerce_arg_def split: val.splits val_type.splits option.splits)
  with assms show ?thesis using val_matches_in_store_shape by auto
qed

section \<open>Properties\<close>


definition extern_sample :: store_inner where
  "extern_sample = snd (alloc_externref 5 (store_new 1 sample_engine))"


end
