(* ===== verification/Exec_Host.thy ===== *)
theory Exec_Host
  imports Exec_Step Store_Grow Value_Match
begin

text \<open>
  The crossings from the interpreter to the embedder: host function calls and the growth services of
  \<^verbatim>\<open>src/exec/host.rs\<close>, the epoch callback of \<^verbatim>\<open>src/exec/epoch.rs\<close>, and the containment of a host panic
  in \<^verbatim>\<open>src/exec/guard.rs\<close>. Host functions, the epoch callback and the host allocator are embedder code,
  so they are parameters, collected in a record: any function of the store, which may re-enter the
  interpreter through the execution parked in it. They return; a panic is the error \<open>Panic\<close>.
\<close>

section \<open>The embedder and the world\<close>

datatype update_deadline = DeadlineInterrupt | DeadlineContinue nat

record 'd embedder =
  em_call :: "nat \<Rightarrow> (entity_handle option \<Rightarrow> val list \<Rightarrow> val list \<Rightarrow> ('d store, val list) action) option"
  em_epoch :: "('d store, update_deadline) action option"
  em_alloc :: "nat \<Rightarrow> bool"

text \<open>The two \<^verbatim>\<open>&mut\<close> arguments of the driver: the execution and the store.\<close>

record 'd world =
  wo_exec :: execution
  wo_store :: "'d store"

definition exec_of :: "machine \<Rightarrow> execution" where
  "exec_of m = execution.truncate m"

definition world_machine :: "'d world \<Rightarrow> machine" where
  "world_machine w = machine_of (wo_exec w) (st_inner (wo_store w))"

definition put_machine :: "machine \<Rightarrow> 'd world \<Rightarrow> 'd world" where
  "put_machine m w = w\<lparr>wo_exec := exec_of m, wo_store := (wo_store w)\<lparr>st_inner := ma_inner m\<rparr>\<rparr>"

definition on_machine :: "(machine, 'a) action \<Rightarrow> ('d world, 'a) action" where
  "on_machine a w = (case a (world_machine w) of (r, m) \<Rightarrow> (r, put_machine m w))"

definition on_store :: "('d store, 'a) action \<Rightarrow> ('d world, 'a) action" where
  "on_store a w = (case a (wo_store w) of (r, s) \<Rightarrow> (r, w\<lparr>wo_store := s\<rparr>))"

definition inner_upd :: "(store_inner \<Rightarrow> store_inner) \<Rightarrow> ('d world, unit) action" where
  "inner_upd f = on_store (upd_store f)"

definition inner_get :: "(store_inner \<Rightarrow> 'a) \<Rightarrow> ('d world, 'a) action" where
  "inner_get f = getc (\<lambda>w. f (st_inner (wo_store w)))"

definition swap_exec :: "('d world, unit) action" where
  "swap_exec = putc (\<lambda>w. w\<lparr>wo_exec := si_exec_slot (st_inner (wo_store w)),
     wo_store := (wo_store w)\<lparr>st_inner := (st_inner (wo_store w))\<lparr>si_exec_slot := wo_exec w\<rparr>\<rparr>\<rparr>)"

section \<open>Panic containment\<close>

definition restore_after_panic :: "nat \<Rightarrow> rooted option \<Rightarrow> u64 \<Rightarrow> store_inner \<Rightarrow> store_inner" where
  "restore_after_panic mark pending gen s =
     (let (ex, s1) = take_exec (s\<lparr>si_internal_error := None\<rparr>);
          s2 = (case discard_current_call ex of
             (Inr (_, stop_depth), ex') \<Rightarrow> (if stop_depth \<noteq> 0 then park_exec ex' s1 else s1)
           | (Inl (Internal i), _) \<Rightarrow> latch_internal_error i s1
           | (Inl _, _) \<Rightarrow> s1)
      in restore_pending_exception pending gen (gc_roots_truncate mark s2))"

definition restore_direct_after_panic :: "nat \<Rightarrow> rooted option \<Rightarrow> u64 \<Rightarrow> store_inner \<Rightarrow> store_inner" where
  "restore_direct_after_panic mark pending gen s = restore_pending_exception pending gen (gc_roots_truncate mark s)"

text \<open>What a host operation captures first: the root mark and the pending exception, which it roots.\<close>

record host_scope =
  sc_mark :: nat
  sc_pending :: "rooted option"
  sc_generation :: u64

definition open_scope :: "('d world, host_scope) action" where
  "open_scope =
     bindc (inner_get (\<lambda>s. \<lparr>sc_mark = gc_roots_mark s, sc_pending = si_pending_exception s,
        sc_generation = si_pending_exception_generation s\<rparr>)) (\<lambda>sc.
     bindc (inner_upd (\<lambda>s. case sc_pending sc of None \<Rightarrow> s | Some e \<Rightarrow> push_gc_root (ro_index e) RkExn s)) (\<lambda>_.
     ret sc))"

text \<open>Runs embedder code with the execution parked; a panic restores the store and goes on unwinding.\<close>

definition guarded :: "host_scope \<Rightarrow> ('d store, 'a) action \<Rightarrow> ('d world, 'a result) action" where
  "guarded sc f =
     bindc swap_exec (\<lambda>_.
     bindc (\<lambda>w. case f (wo_store w) of (r, s) \<Rightarrow> (Inr r, w\<lparr>wo_store := s\<rparr>)) (\<lambda>r. case r of
       Inl (Panic p) \<Rightarrow> bindc (inner_upd (restore_after_panic (sc_mark sc) (sc_pending sc) (sc_generation sc))) (\<lambda>_. fail (Panic p))
     | _ \<Rightarrow> bindc swap_exec (\<lambda>_. ret r)))"

definition with_parked_host_operation :: "('d store, 'a) action \<Rightarrow> ('d world, 'a) action" where
  "with_parked_host_operation f =
     bindc open_scope (\<lambda>sc.
     bindc (guarded sc f) (\<lambda>r.
     bindc (inner_upd (gc_roots_truncate (sc_mark sc))) (\<lambda>_. lift_res r)))"

section \<open>Host calls\<close>

record host_call_state =
  hc_params :: "val list"
  hc_results :: "val list"
  hc_scope :: host_scope
  hc_host_index :: nat
  hc_sig :: host_sig

fun root_ref_params :: "val list \<Rightarrow> store_inner \<Rightarrow> store_inner" where
  "root_ref_params [] s = s"
| "root_ref_params (v # vs) s = root_ref_params vs (case v of
     AnyRef (Some r) \<Rightarrow> push_gc_root (ro_index r) RkAny s
   | ExternRef (Some r) \<Rightarrow> push_gc_root (ro_index r) RkExtern s
   | ExnRef (Some r) \<Rightarrow> push_gc_root (ro_index r) RkExn s
   | _ \<Rightarrow> s)"

definition prepare_host_call :: "nat \<Rightarrow> host_sig \<Rightarrow> ('d world, host_call_state) action" where
  "prepare_host_call host_index hsig =
     bindc (on_machine (pop_params (hs_params hsig))) (\<lambda>params.
     bindc open_scope (\<lambda>sc.
     bindc (inner_upd (root_ref_params params)) (\<lambda>_.
     ret \<lparr>hc_params = params, hc_results = hs_result_defaults hsig, hc_scope = sc, hc_host_index = host_index, hc_sig = hsig\<rparr>)))"

definition prep_host :: "func_handle \<Rightarrow> ('d world, host_call_state) action" where
  "prep_host f = bindc (on_machine (inner_of (func_at f))) (\<lambda>fe. case fe of
     FuncHost _ hsig host_index \<Rightarrow> prepare_host_call host_index hsig
   | FuncWasm _ _ \<Rightarrow> fail (Panic ''HostCall only suspends on sync host funcs''))"

definition discard_host_call :: "host_call_state \<Rightarrow> ('d world, unit) action" where
  "discard_host_call st = inner_upd (gc_roots_truncate (sc_mark (hc_scope st)))"

definition restore_pending :: "host_call_state \<Rightarrow> ('d world, unit) action" where
  "restore_pending st = inner_upd (restore_pending_exception (sc_pending (hc_scope st)) (sc_generation (hc_scope st)))"

definition take_pending :: "('d world, rooted option) action" where
  "take_pending = on_machine (on_inner (\<lambda>s. case take_pending_exception s of (e, t) \<Rightarrow> (Inr e, t)))"

definition finish_host_call :: "host_call_state \<Rightarrow> val list result \<Rightarrow> nat \<Rightarrow> ('d world, unit) action" where
  "finish_host_call st r stop_depth = (case r of
     Inl e \<Rightarrow>
       bindc (inner_get (\<lambda>s. e = ThrownException \<and> si_pending_exception_generation s \<noteq> sc_generation (hc_scope st))) (\<lambda>fresh.
       if fresh then
         bindc take_pending (\<lambda>exn. case exn of
           None \<Rightarrow> bindc (restore_pending st) (\<lambda>_. bindc (discard_host_call st) (\<lambda>_.
             fail (Internal (ResultShape ''host throw marker had no pending exception''))))
         | Some x \<Rightarrow> bindc (discard_host_call st) (\<lambda>_. bindc (restore_pending st) (\<lambda>_.
             on_machine (raise_host_exception x stop_depth))))
       else bindc (discard_host_call st) (\<lambda>_. fail e))
   | Inr results \<Rightarrow>
       bindc (inner_get (ensure_values_match ''function attempted to return an incompatible value'' results (hs_results (hc_sig st)))) (\<lambda>ok. case ok of
         Inl (Panic p) \<Rightarrow> fail (Panic p)
       | Inl e \<Rightarrow> bindc (restore_pending st) (\<lambda>_. bindc (discard_host_call st) (\<lambda>_. fail e))
       | Inr _ \<Rightarrow> bindc (on_machine (push_results results)) (\<lambda>_. discard_host_call st)))"

definition latched_error :: "('d world, error option) action" where
  "latched_error = on_machine (on_inner (\<lambda>s. case take_internal_error s of (e, t) \<Rightarrow> (Inr e, t)))"

definition invoke_host :: "'d embedder \<Rightarrow> func_handle \<Rightarrow> entity_handle \<Rightarrow> nat \<Rightarrow> ('d world, unit) action" where
  "invoke_host em f inst stop_depth =
     bindc (prep_host f) (\<lambda>st.
     bindc (lift_opt (Panic ''index out of bounds'') (em_call em (hc_host_index st))) (\<lambda>cb.
     bindc (guarded (hc_scope st) (cb (Some inst) (hc_params st) (hc_results st))) (\<lambda>r.
     bindc latched_error (\<lambda>err. case err of
       Some e \<Rightarrow> bindc (restore_pending st) (\<lambda>_. bindc (discard_host_call st) (\<lambda>_. fail e))
     | None \<Rightarrow> finish_host_call st r stop_depth))))"

section \<open>Growth services\<close>

definition index_or_minus_one :: "bool \<Rightarrow> nat option \<Rightarrow> (machine, unit) action" where
  "index_or_minus_one is_64 old = push_index is_64 (case old of Some n \<Rightarrow> n | None \<Rightarrow> u64_max)"

definition do_grow :: "'d embedder \<Rightarrow> entity_handle \<Rightarrow> nat \<Rightarrow> ('d world, unit) action" where
  "do_grow em h delta =
     bindc (on_machine (inner_of (memory_at h))) (\<lambda>me.
     bindc (with_parked_host_operation (grow_memory (em_alloc em) h delta)) (\<lambda>old.
     on_machine (index_or_minus_one (mt_memory64 (me_ty me)) old)))"

definition do_grow_table :: "'d embedder \<Rightarrow> entity_handle \<Rightarrow> nat \<Rightarrow> ref_val \<Rightarrow> ('d world, unit) action" where
  "do_grow_table em h delta init =
     bindc (on_machine (inner_of (table_at h))) (\<lambda>te.
     bindc (with_parked_host_operation (grow_table (em_alloc em) h delta init)) (\<lambda>old.
     on_machine (index_or_minus_one (tt_table64 (te_ty te)) old)))"

definition do_grow_gc :: "nat \<Rightarrow> nat \<Rightarrow> ('d world, unit) action" where
  "do_grow_gc target bytes_needed = with_parked_host_operation (grow_gc_reservation target bytes_needed)"

section \<open>Epoch deadlines\<close>

definition take_epoch_action :: "'d embedder \<Rightarrow> ('d world, update_deadline) action" where
  "take_epoch_action em = (case em_epoch em of
     None \<Rightarrow> ret DeadlineInterrupt
   | Some f \<Rightarrow>
       bindc open_scope (\<lambda>sc.
       bindc (guarded sc f) (\<lambda>r.
       bindc (inner_upd (gc_roots_truncate (sc_mark sc))) (\<lambda>_.
       bindc latched_error (\<lambda>err. case err of
         Some e \<Rightarrow> bindc (inner_upd (restore_pending_exception (sc_pending sc) (sc_generation sc))) (\<lambda>_. fail e)
       | None \<Rightarrow> lift_res r)))))"

definition extend_epoch_deadline :: "nat \<Rightarrow> ('d world, unit) action" where
  "extend_epoch_deadline delta = inner_upd (\<lambda>s. set_epoch_deadline (saturating_add u64_max (en_epoch (si_engine s)) delta) s)"

definition apply_epoch_deadline :: "'d embedder \<Rightarrow> ('d world, unit) action" where
  "apply_epoch_deadline em = bindc (take_epoch_action em) (\<lambda>a. case a of
     DeadlineInterrupt \<Rightarrow> fail (Trapped Interrupt)
   | DeadlineContinue delta \<Rightarrow> extend_epoch_deadline delta)"

end
