(* ===== verification/Exec_Run.thy ===== *)
theory Exec_Run
  imports Exec_Host
begin

text \<open>
  The run loop of \<^verbatim>\<open>src/exec/mod.rs\<close> (\<^verbatim>\<open>run\<close>, \<^verbatim>\<open>dispatch\<close>) and the driver around it in
  \<^verbatim>\<open>src/exec/host.rs\<close> (\<^verbatim>\<open>enter\<close>, \<^verbatim>\<open>drive\<close>, \<^verbatim>\<open>finish\<close>, \<^verbatim>\<open>execute\<close>). The loop may run forever, so it is a
  partial function: \<open>None\<close> is a run that does not return. The locals of \<^verbatim>\<open>dispatch\<close> that change are the
  cursor (code, function, position, base, instance) and the countdown to the next look at the
  mailbox of collection requests.
\<close>

section \<open>One turn of the loop\<close>

definition GC_CHECK_INTERVAL :: nat where
  "GC_CHECK_INTERVAL = 1024"

record cursor =
  cu_code :: code
  cu_func :: compiled_func
  cu_ip :: nat
  cu_base :: nat
  cu_instance :: entity_handle
  cu_countdown :: nat

text \<open>What stays the same during one \<^verbatim>\<open>dispatch\<close>.\<close>

record loop_env =
  le_fuel :: bool
  le_epoch :: bool
  le_stop :: nat
  le_limit :: nat
  le_watch :: bool

definition cursor_of :: "nat \<Rightarrow> frame \<Rightarrow> cursor" where
  "cursor_of countdown f = \<lparr>cu_code = fr_code f, cu_func = fr_func f, cu_ip = fr_ip f, cu_base = fr_locals_base f,
     cu_instance = fr_instance f, cu_countdown = countdown\<rparr>"

definition reload :: "nat \<Rightarrow> ('d world, outcome + cursor) action" where
  "reload countdown = bindc (on_machine (ask top_frame)) (\<lambda>f. ret (Inr (cursor_of countdown f)))"

text \<open>After a call: reload the cursor, then look at the mailbox every \<open>GC_CHECK_INTERVAL\<close> calls.\<close>

definition after_call :: "loop_env \<Rightarrow> nat \<Rightarrow> ('d world, outcome + cursor) action" where
  "after_call env countdown =
     bindc (on_machine (ask top_frame)) (\<lambda>f.
     if \<not> le_watch env then ret (Inr (cursor_of countdown f))
     else if countdown - 1 = 0
       then bindc (on_machine service_gc_pressure) (\<lambda>_. ret (Inr (cursor_of GC_CHECK_INTERVAL f)))
       else ret (Inr (cursor_of (countdown - 1) f)))"

definition suspend :: "nat \<Rightarrow> outcome \<Rightarrow> ('d world, outcome + cursor) action" where
  "suspend ip out = bindc (on_machine (set_top_ip ''missing caller frame'' ip)) (\<lambda>_. ret (Inl out))"

definition after_host :: "loop_env \<Rightarrow> nat \<Rightarrow> ('d world, outcome + cursor) action" where
  "after_host env countdown =
     bindc (getc (\<lambda>w. length (ex_frames (wo_exec w)) = le_stop env)) (\<lambda>over.
     if over then ret (Inl Finished) else reload countdown)"

definition serve_step :: "'d embedder \<Rightarrow> loop_env \<Rightarrow> cursor \<Rightarrow> step_outcome \<Rightarrow> ('d world, outcome + cursor) action" where
  "serve_step em env cur out = (let cd = cu_countdown cur in case out of
     Advance ip \<Rightarrow> ret (Inr (cur\<lparr>cu_ip := ip\<rparr>))
   | DoCall req \<Rightarrow>
       bindc (on_machine (ask stack_bytes)) (\<lambda>used.
       if le_limit env \<le> used then fail (Trapped StackOverflow) else
       bindc (on_machine (set_top_ip ''missing caller frame'' (cr_return_ip req))) (\<lambda>_.
       bindc (on_machine (push_call (cr_instance req) (cr_func_index req) (cr_code req))) (\<lambda>_.
       after_call env cd)))
   | DoTailCall req \<Rightarrow>
       bindc (on_machine (do_return (cf_n_params (code_func (cr_code req))) (le_stop env) True)) (\<lambda>_.
       bindc (on_machine (push_call (cr_instance req) (cr_func_index req) (cr_code req))) (\<lambda>_.
       after_call env cd))
   | DoTailHostCall f inst n_params \<Rightarrow>
       bindc (on_machine (do_return n_params (le_stop env) True)) (\<lambda>_.
       bindc (invoke_host em f inst (le_stop env)) (\<lambda>_. after_host env cd))
   | DoHostCall f inst ip \<Rightarrow>
       bindc (on_machine (set_top_ip ''missing caller frame'' ip)) (\<lambda>_.
       bindc (invoke_host em f inst (le_stop env)) (\<lambda>_. after_host env cd))
   | DoGrow h delta ip \<Rightarrow> suspend ip (OutGrow h delta)
   | DoTableGrow h delta init ip \<Rightarrow> suspend ip (OutTableGrow h delta init)
   | DoGcGrow target bytes ip \<Rightarrow> suspend ip (OutGcGrow target bytes))"

definition run_op :: "'d embedder \<Rightarrow> loop_env \<Rightarrow> cursor \<Rightarrow> op \<Rightarrow> ('d world, outcome + cursor) action" where
  "run_op em env cur op w =
     (case on_machine (step (cu_code cur) op (cu_ip cur + 1) (cu_base cur) (cu_instance cur)) w of
        (Inl e, w') \<Rightarrow> bindc (on_machine (unwind e (cu_ip cur) (le_stop env))) (\<lambda>_. reload (cu_countdown cur)) w'
      | (Inr out, w') \<Rightarrow> serve_step em env cur out w')"

definition turn :: "'d embedder \<Rightarrow> loop_env \<Rightarrow> cursor \<Rightarrow> ('d world, outcome + cursor) action" where
  "turn em env cur = (case get_at (ops_of (cu_code cur) (cu_func cur)) (cu_ip cur) of
     None \<Rightarrow>
       bindc (on_machine (do_return (cf_n_results (cu_func cur)) (le_stop env) False)) (\<lambda>over.
       if over then ret (Inl Finished) else reload (cu_countdown cur))
   | Some op \<Rightarrow>
       bindc (if le_fuel env \<or> le_epoch env then on_machine (service_gates (le_fuel env) (le_epoch env) (cu_ip cur)) else ret None) (\<lambda>gate.
       case gate of Some out \<Rightarrow> ret (Inl out) | None \<Rightarrow> run_op em env cur op))"

section \<open>The loop\<close>

partial_function (option) dispatch :: "'d embedder \<Rightarrow> loop_env \<Rightarrow> cursor \<Rightarrow> 'd world \<Rightarrow> (outcome result \<times> 'd world) option" where
  "dispatch em env cur w = (case turn em env cur w of
     (r, w') \<Rightarrow> (case r of
       Inl e \<Rightarrow> Some (Inl e, w')
     | Inr x \<Rightarrow> (case x of Inl out \<Rightarrow> Some (Inr out, w') | Inr cur' \<Rightarrow> dispatch em env cur' w')))"

definition loop_env_of :: "nat \<Rightarrow> store_inner \<Rightarrow> loop_env" where
  "loop_env_of stop_depth s = \<lparr>le_fuel = en_consume_fuel (si_engine s), le_epoch = en_epoch_interruption (si_engine s),
     le_stop = stop_depth, le_limit = en_max_wasm_stack (si_engine s),
     le_watch = (gh_collecting (si_gc s) \<and> en_gc_memory_threshold (si_engine s) \<noteq> None)\<rparr>"

definition run :: "'d embedder \<Rightarrow> nat \<Rightarrow> 'd world \<Rightarrow> (outcome result \<times> 'd world) option" where
  "run em stop_depth w = (if length (ex_frames (wo_exec w)) = stop_depth then Some (Inr Finished, w)
     else let env = loop_env_of stop_depth (st_inner (wo_store w)) in
       case stack_bytes (wo_exec w) of
         Inl e \<Rightarrow> Some (Inl e, w)
       | Inr used \<Rightarrow> (if le_limit env \<le> used then Some (Inl (Trapped StackOverflow), w)
           else case top_frame (wo_exec w) of
             Inl e \<Rightarrow> Some (Inl e, w)
           | Inr f \<Rightarrow> dispatch em env (cursor_of GC_CHECK_INTERVAL f) w))"

section \<open>The driver\<close>

definition serve_outcome :: "'d embedder \<Rightarrow> outcome \<Rightarrow> ('d world, unit) action" where
  "serve_outcome em out = (case out of
     Finished \<Rightarrow> ret ()
   | EpochDeadline \<Rightarrow> apply_epoch_deadline em
   | OutGrow h delta \<Rightarrow> do_grow em h delta
   | OutTableGrow h delta init \<Rightarrow> do_grow_table em h delta init
   | OutGcGrow target bytes \<Rightarrow> do_grow_gc target bytes)"

partial_function (option) drive :: "'d embedder \<Rightarrow> nat \<Rightarrow> 'd world \<Rightarrow> (unit result \<times> 'd world) option" where
  "drive em run_stop w = Option.bind (run em run_stop w) (\<lambda>p. case p of
     (r, w') \<Rightarrow> (case r of
       Inl e \<Rightarrow> Some (Inl e, w')
     | Inr out \<Rightarrow> (if out = Finished then Some (Inr (), w')
         else case serve_outcome em out w' of
           (q, w'') \<Rightarrow> (case q of Inl e \<Rightarrow> Some (Inl e, w'') | Inr _ \<Rightarrow> drive em run_stop w''))))"

declare dispatch.simps [code] drive.simps [code]

record boundary =
  bo_value_base :: nat
  bo_stop_depth :: nat
  bo_run_stop :: nat

definition is_empty_exec :: "execution \<Rightarrow> bool" where
  "is_empty_exec e \<longleftrightarrow> ex_frames e = [] \<and> ex_values e = [] \<and> ex_shadow e = []"

definition entry_error :: "(store_inner, unit) action" where
  "entry_error s = (let (err, s') = (if is_empty_exec (si_exec_slot s) then take_internal_error s
       else (map_option Internal (si_internal_error s), s))
     in case err of Some e \<Rightarrow> (Inl e, s') | None \<Rightarrow> (Inr (), s'))"

definition enter :: "entity_handle \<Rightarrow> nat \<Rightarrow> code \<Rightarrow> val list \<Rightarrow> (store_inner, execution \<times> boundary) action" where
  "enter inst func_index c args =
     bindc entry_error (\<lambda>_ s.
       (let (ex, s1) = take_exec s; value_base = length (ex_values ex); stop_depth = length (ex_frames ex);
            delim = (if stop_depth = 0 then TopLevel else HostReentry)
        in case enter_call delim inst func_index c args ex of
          (Inl (Panic p), _) \<Rightarrow> (Inl (Panic p), s1)
        | (Inl e, ex') \<Rightarrow> (Inl e, if stop_depth \<noteq> 0 then park_exec ex' s1 else s1)
        | (Inr _, ex') \<Rightarrow> (case checked_add usize_max stop_depth 1 of
              None \<Rightarrow> (Inl (frame_err ''execution boundary depth overflow''), s1)
            | Some n \<Rightarrow> (Inr (ex', \<lparr>bo_value_base = value_base, bo_stop_depth = stop_depth, bo_run_stop = n\<rparr>), s1))))"

definition as_internal :: "internal_error \<Rightarrow> error \<Rightarrow> error" where
  "as_internal d e = (case e of Internal i \<Rightarrow> Internal i | Panic p \<Rightarrow> Panic p | _ \<Rightarrow> Internal d)"

definition internal_or :: "internal_error \<Rightarrow> 'a result \<Rightarrow> 'a result" where
  "internal_or d r = (case r of Inl e \<Rightarrow> Inl (as_internal d e) | Inr x \<Rightarrow> Inr x)"

fun root_results :: "val list \<Rightarrow> (store_inner, val list) action" where
  "root_results [] = ret []"
| "root_results (v # vs) =
     bindc (\<lambda>s. case root_host_result v s of (r, t) \<Rightarrow> (internal_or (GcMetadata ''execution result referenced invalid GC state'') r, t)) (\<lambda>w.
     bindc (root_results vs) (\<lambda>ws. ret (w # ws)))"

definition decode_results :: "val_type list \<Rightarrow> cell list \<Rightarrow> (store_inner, val list) action" where
  "decode_results tys cells s = (if length tys \<noteq> length cells then (Inl (Internal (ResultShape ''wrong number of execution results'')), s)
     else case decode_all cells tys of
       Inl e \<Rightarrow> (Inl e, s)
     | Inr decoded \<Rightarrow>
        (case internal_or (ResultShape ''execution returned an invalid or dangling value'')
            (ensure_values_match ''execution attempted to return an incompatible value'' decoded tys s) of
           Inl e \<Rightarrow> (Inl e, s)
         | Inr _ \<Rightarrow> (case root_results decoded s of
             (Inl (Panic p), t) \<Rightarrow> (Inl (Panic p), t)
           | (Inl e, t) \<Rightarrow> (Inl e, gc_roots_truncate (gc_roots_mark s) t)
           | (Inr vs, t) \<Rightarrow> (Inr vs, t))))"

definition close_call :: "execution \<Rightarrow> boundary \<Rightarrow> val_type list \<Rightarrow> unit result \<Rightarrow> store_inner \<Rightarrow> val list result \<times> execution \<times> store_inner" where
  "close_call ex b tys out s = (case out of
     Inr _ \<Rightarrow> (case take_results (bo_value_base b) (bo_stop_depth b) tys ex of
         (Inr cells, ex') \<Rightarrow> (case decode_results tys cells s of (r, s') \<Rightarrow> (r, ex', s'))
       | (Inl e, ex') \<Rightarrow> (case discard_to (bo_value_base b) (bo_stop_depth b) ex' of
            (Inr _, ex'') \<Rightarrow> (Inl e, ex'', s) | (Inl e', ex'') \<Rightarrow> (Inl e', ex'', s)))
   | Inl e \<Rightarrow> (case discard_to (bo_value_base b) (bo_stop_depth b) ex of
         (Inr _, ex') \<Rightarrow> (case surface_exception e s of (e', s') \<Rightarrow> (Inl e', ex', s'))
       | (Inl e', ex') \<Rightarrow> (Inl e', ex', s)))"

text \<open>A panic unwinds past \<^verbatim>\<open>finish\<close>.\<close>

definition finish :: "execution \<Rightarrow> boundary \<Rightarrow> val_type list \<Rightarrow> unit result \<Rightarrow> (store_inner, val list) action" where
  "finish ex b tys out s = (case out of Inl (Panic p) \<Rightarrow> (Inl (Panic p), s) | _ \<Rightarrow>
     (case close_call ex b tys out s of
        (Inl (Panic p), _, s') \<Rightarrow> (Inl (Panic p), s')
      | (r, ex', s') \<Rightarrow> (r, if bo_stop_depth b = 0 then s'
          else park_exec ex' (case r of Inl (Internal i) \<Rightarrow> latch_internal_error i s' | _ \<Rightarrow> s'))))"

definition execute :: "'d embedder \<Rightarrow> entity_handle \<Rightarrow> nat \<Rightarrow> code \<Rightarrow> val list \<Rightarrow> val_type list \<Rightarrow> 'd store \<Rightarrow> (val list result \<times> 'd store) option" where
  "execute em inst func_index c args tys st = (case on_store_inner (enter inst func_index c args) st of
     (Inl e, st') \<Rightarrow> Some (Inl e, st')
   | (Inr (ex, b), st') \<Rightarrow>
       map_option (\<lambda>(out, w). on_store_inner (finish (wo_exec w) b tys out) (wo_store w))
         (drive em (bo_run_stop b) \<lparr>wo_exec = ex, wo_store = st'\<rparr>))"

end
