(* ===== verification/Exec_Fuel.thy ===== *)
theory Exec_Fuel
  imports Exec_Run
begin

text \<open>
  Metering bounds every run. No instruction and no service of the run loop adds fuel, each
  instruction costs one unit before it is executed, and the turns between two instructions each pop
  a frame; so a metered call returns, whatever code it runs, provided the embedder's callbacks do
  not refuel the store.
\<close>

section \<open>Actions that leave a part of the store alone\<close>

named_theorems steady_intros \<open>actions that keep a projection of the store\<close>

definition steady :: "(store_inner \<Rightarrow> 'x) \<Rightarrow> (machine, 'a) action \<Rightarrow> bool" where
  "steady g a \<longleftrightarrow> (\<forall>m. g (ma_inner (snd (a m))) = g (ma_inner m))"

lemma steadyD: "steady g a \<Longrightarrow> a m = (r, m') \<Longrightarrow> g (ma_inner m') = g (ma_inner m)"
  unfolding steady_def by (metis snd_conv)

lemma steadyI: "(\<And>m r m'. a m = (r, m') \<Longrightarrow> g (ma_inner m') = g (ma_inner m)) \<Longrightarrow> steady g a"
  unfolding steady_def by (metis prod.collapse)

lemma steady_quiet: "quiet a \<Longrightarrow> steady g a"
  by (simp add: quiet_def steady_def)

lemma steady_bindc [steady_intros]:
  assumes "steady g a" and "\<And>x. steady g (f x)"
  shows "steady g (bindc a f)"
proof (rule steadyI)
  fix m r m'
  assume run: "bindc a f m = (r, m')"
  obtain q m1 where q: "a m = (q, m1)" by fastforce
  show "g (ma_inner m') = g (ma_inner m)"
    using run q steadyD [OF assms(1) q] steadyD [OF assms(2)] by (cases q) (auto simp: bindc_def)
qed

lemma steady_upd [steady_intros]: "(\<And>s. g (f s) = g s) \<Longrightarrow> steady g (upd_inner f)"
  by (simp add: steady_def)

lemma steady_on_inner [steady_intros]: "(\<And>s. g (snd (f s)) = g s) \<Longrightarrow> steady g (on_inner f)"
  by (simp add: steady_def on_inner_def split_beta)

lemma steady_if [steady_intros]: "steady g a \<Longrightarrow> steady g b \<Longrightarrow> steady g (if p then a else b)"
  by simp

lemma steady_case_option [steady_intros]: "steady g a \<Longrightarrow> (\<And>x. steady g (f x)) \<Longrightarrow> steady g (case z of None \<Rightarrow> a | Some x \<Rightarrow> f x)"
  by (cases z) simp_all

lemma steady_case_bool [steady_intros]: "steady g a \<Longrightarrow> steady g b \<Longrightarrow> steady g (case z of True \<Rightarrow> a | False \<Rightarrow> b)"
  by (cases z) simp_all

lemma steady_case_prod [steady_intros]: "(\<And>x y. steady g (f x y)) \<Longrightarrow> steady g (case z of (x, y) \<Rightarrow> f x y)"
  by (cases z) simp

lemma steady_basic [steady_intros]:
  "steady g (ret x)" "steady g (fail e)" "steady g (getc h)" "steady g (ask q)" "steady g (lift_res r)" "steady g (inner_of q')"
  "steady g (lift_opt e z)"
  by (intro steady_quiet quiet_intros)+

section \<open>The handlers\<close>

text \<open>What metering depends on: the fuel left and whether the engine meters.\<close>

definition metering :: "store_inner \<Rightarrow> nat \<times> bool" where
  "metering s = (si_fuel s, en_consume_fuel (si_engine s))"

lemmas put_fuel = put_memory_def put_table_def put_global_def put_instance_def add_gc_committed_def Let_def metering_def

lemma put_keeps_fuel [simp]:
  "metering (put_memory h e s) = metering s" "metering (put_table h t s) = metering s" "metering (put_global h g s) = metering s"
  "metering (put_instance h i s) = metering s" "metering (add_gc_committed n s) = metering s"
  by (simp_all add: put_fuel)

lemmas steady_stack [steady_intros] = quiet_pops [THEN steady_quiet] quiet_pushes [THEN steady_quiet] quiet_mem [THEN steady_quiet]

lemma steady_exec_memory: "steady metering (exec_memory c mop inst)"
  by (cases mop)
    (auto simp: exec_memory_def store_n_def memory_init_def data_drop_def memory_copy_def memory_fill_def intro!: steady_intros)

lemma steady_exec_table: "steady metering (exec_table tb inst)"
  by (cases tb) (auto simp: exec_table_def table_get_def table_set_def table_fill_def table_init_def table_copy_def elem_drop_def
      put_elems_def to_ref_res_def intro!: steady_intros)

lemma quiet_cells:
  "quiet (binop_cells f)" "quiet (binop_cells_try h)" "quiet (unop_cell u)"
proof -
  have put: "quiet (putc (\<lambda>s. truncate_to n (s\<lparr>ex_values := p s\<rparr>)))" for n p by (simp add: quiet_def truncate_to_def)
  show "quiet (binop_cells f)" "quiet (binop_cells_try h)" "quiet (unop_cell u)"
    unfolding binop_cells_def binop_cells_try_def unop_cell_def by (intro quiet_intros put)+
qed

lemmas numeric_defs = i32_binop_def i32_unop_def i32_relop_def u32_binop_def u32_relop_def i32_try_binop_def u32_try_binop_def
  i64_binop_def i64_unop_def i64_relop_def u64_binop_def u64_relop_def i64_try_binop_def u64_try_binop_def
  f32_arith_def f32_binop_def f32_unop_def f32_unop_canon_def f32_relop_def f64_arith_def f64_binop_def f64_unop_def f64_unop_canon_def f64_relop_def
  trunc_to_i32_def trunc64_to_i32_def trunc_to_i64_def trunc64_to_i64_def map_f32_i32_def map_f64_i32_def map_f32_i64_def map_f64_i64_def
  map_i32_f32_def map_i64_f32_def map_f64_f32_def map_i32_f64_def map_i64_f64_def map_f32_f64_def

lemma quiet_tables:
  "quiet (i32_rel k)" "quiet (i64_rel k)" "quiet (i32_un u)" "quiet (i64_un u)" "quiet (i32_bin b)" "quiet (i64_bin b)"
  "quiet (f32_rel fk)" "quiet (f64_rel fk)" "quiet (f32_un fu)" "quiet (f64_un fu)" "quiet (f32_bin fb)" "quiet (f64_bin fb)" "quiet (exec_conv c)"
proof -
  show "quiet (f32_rel fk)" "quiet (f64_rel fk)" by (cases fk; simp add: numeric_defs quiet_cells)+
  show "quiet (f32_un fu)" "quiet (f64_un fu)" by (cases fu; simp add: numeric_defs quiet_cells)+
  show "quiet (f32_bin fb)" "quiet (f64_bin fb)" by (cases fb; simp add: numeric_defs quiet_cells)+
  show "quiet (exec_conv c)" by (cases c; simp only: exec_conv.simps numeric_defs) (intro quiet_intros)+
  show "quiet (i32_rel k)" "quiet (i64_rel k)" by (cases k; simp add: numeric_defs quiet_cells)+
  show "quiet (i32_un u)" "quiet (i64_un u)" by (cases u; simp add: numeric_defs quiet_cells)+
  show "quiet (i32_bin b)" "quiet (i64_bin b)" by (cases b; simp add: numeric_defs quiet_cells)+
qed

lemma quiet_exec_numeric: "quiet (exec_numeric n)"
  by (cases n) (auto simp: exec_numeric_def quiet_tables numeric_defs quiet_cells intro!: quiet_intros)

lemma steady_exec_ref: "steady g (exec_ref r inst)"
  by (rule steady_quiet, cases r) (auto simp: exec_ref_def split_beta intro!: quiet_intros)

lemma alloc_gc_fuel [simp]: "metering (snd (alloc_gc ob s)) = metering s"
  by (simp add: alloc_gc_def metering_def split_beta)

lemma put_body_fuel [simp]: "metering (put_body i d s) = metering s"
  by (simp add: put_body_def metering_def)

lemmas steady_gc [steady_intros] = quiet_pop_fields [THEN steady_quiet] quiet_pop_count [THEN steady_quiet] quiet_pop_elems [THEN steady_quiet]

lemma steady_exec_gc: "steady metering (exec_gc g inst)"
  by (cases g) (auto simp: exec_gc_def struct_new_def struct_get_def struct_set_def i31_get_def Let_def intro!: steady_intros)

lemma steady_exec_gc_array: "steady metering (exec_gc_array a inst)"
  by (cases a) (auto simp: exec_gc_array_def array_new_def array_new_fixed_def array_new_data_def array_new_elem_def array_get_def
      array_set_def array_len_op_def array_fill_def array_copy_def array_init_data_def array_init_elem_def alloc_array_def
      Let_def intro!: steady_intros)

lemma convert_fuel [simp]:
  "metering (snd (any_convert_extern v s)) = metering s" "metering (snd (extern_convert_any v s)) = metering s"
  by (auto simp: any_convert_extern_def extern_convert_any_def push_extern_def Let_def metering_def split: val.split option.split
      extern_entry.split anyref_handle.split prod.split sum.split)

lemma steady_exec_cast: "steady metering (exec_cast k inst)"
  by (cases k) (auto simp: exec_cast_def intro!: steady_intros)

lemma set_gc_fuel [simp]: "metering (set_gc h s) = metering s" "metering (s\<lparr>si_gc := h, si_exns := x\<rparr>) = metering s"
  "metering (s\<lparr>si_gc := h\<rparr>) = metering s" "metering (s\<lparr>si_externrefs := y, si_exns := x, si_gc := h\<rparr>) = metering s"
  by (simp_all add: set_gc_def metering_def)

lemma collect_fuel [simp]: "metering (snd (collect roots s)) = metering s"
  by (rule collect_view) (simp add: metering_def)

lemma steady_collect [steady_intros]: "steady metering gc_collect_now"
  unfolding gc_collect_now_def by (intro steady_intros) simp

lemma grant_fuel [simp]: "metering (case gc_grant n (si_gc s) of (granted, h) \<Rightarrow> add_gc_committed granted (s\<lparr>si_gc := h\<rparr>)) = metering s"
  by (simp add: split_beta add_gc_committed_def Let_def metering_def)

lemma steady_gc_reserve [steady_intros]: "steady metering (gc_reserve charge ip)"
  unfolding gc_reserve_def by (intro steady_intros) simp

lemma steady_pressure [steady_intros]: "steady metering service_gc_pressure"
proof -
  have "steady metering (\<lambda>m. case take_gc_request (ma_inner m) of (q, s) \<Rightarrow> (Inr q, m\<lparr>ma_inner := s\<rparr>))"
    by (simp add: steady_def take_gc_request_def metering_def)
  then show ?thesis unfolding service_gc_pressure_def by (intro steady_intros)
qed

section \<open>Instructions\<close>

lemma quiet_frame_ops:
  "quiet (take_branch t)" "quiet (do_return n stop tail)" "quiet (push_call inst fi c)" "quiet (set_top_ip what ip)" "quiet (set_cell i cl tg)"
proof -
  have put: "quiet (putc (slide d k))" "quiet (putc (\<lambda>m. slide (p m) k m))" "quiet (putc (\<lambda>m. slide d k (m\<lparr>ex_frames := q m\<rparr>)))"
      "quiet (push_frame f)" "quiet (push_defaults ts)" for d k p q f ts
    by (simp_all add: quiet_def slide_def push_frame_def push_defaults_eq Let_def)
  show "quiet (take_branch t)" "quiet (do_return n stop tail)" unfolding take_branch_def do_return_def by (intro quiet_intros put)+
  show "quiet (push_call inst fi c)" unfolding push_call_def Let_def split_beta by (intro quiet_intros put)
  show "quiet (set_top_ip what ip)" "quiet (set_cell i cl tg)" by (simp_all add: quiet_def set_top_ip_def set_cell_def)
qed

lemma alloc_exn_fuel [simp]: "metering (snd (alloc_exn e s)) = metering s"
  by (auto simp: alloc_exn_def Let_def metering_def split: prod.split sum.split)

lemmas steady_frames [steady_intros] = quiet_frame_ops [THEN steady_quiet]

lemma steady_control [steady_intros]:
  "steady metering (do_call_indirect inst ty tb kind)" "steady metering (do_call_ref inst kind)" "steady metering (throw_exn inst tg ip)"
  "steady metering throw_ref" "steady metering (call_func inst f kind)" "steady metering (br_on_cast c inst h p fl)"
  "steady metering (reserve_for inst op ip)" "steady metering (goto_target t)"
  unfolding do_call_indirect_def do_call_ref_def throw_exn_def throw_ref_def call_func_def br_on_cast_def reserve_for_def goto_target_def
  by (auto simp: Let_def split: val.split option.split intro!: steady_intros)

lemma steady_step: "steady metering (step c op nx base inst)"
  by (cases op)
    (auto simp: step_def straight_def local_get_def local_set_def local_tee_def global_get_def global_set_def br_table_def br_on_null_def
      br_on_non_null_def memory_grow_op_def table_grow_op_def split_beta
      intro!: steady_intros steady_exec_memory steady_exec_table steady_exec_ref steady_exec_gc steady_exec_gc_array steady_exec_cast
        quiet_exec_numeric [THEN steady_quiet])

lemma steady_push_vals [steady_intros]: "steady g (push_vals vs)"
  by (induction vs) (auto simp del: ret_apply simp: steady_basic(1) intro!: steady_intros)

lemma steady_cuts [steady_intros]: "steady g (putc (truncate_to b))" "steady g (pop_unwound_frame b)"
  by (simp_all add: pop_unwound_frame_def steady_def truncate_to_def bindc_def split: sum.splits)

lemma steady_enter_handler [steady_intros]: "steady g (enter_exception_handler exn h fl)"
  unfolding enter_exception_handler_def by (intro steady_intros)

lemma steady_unwind_loop: "steady g (unwind_loop n exn tg ip stop)"
  by (induction n arbitrary: ip) (auto intro!: steady_intros)

lemma steady_unwind [steady_intros]: "steady g (unwind e ip stop)"
  by (cases e) (auto simp: unwind_def intro!: steady_intros steady_unwind_loop)

section \<open>The run loop\<close>

definition world_fuel :: "'d world \<Rightarrow> nat" where
  "world_fuel w = si_fuel (st_inner (wo_store w))"

definition metered :: "'d world \<Rightarrow> bool" where
  "metered w \<longleftrightarrow> en_consume_fuel (si_engine (st_inner (wo_store w)))"

text \<open>Metering never moves in the guest's favour.\<close>

definition drained :: "store_inner \<Rightarrow> store_inner \<Rightarrow> bool" where
  "drained s t \<longleftrightarrow> si_fuel t \<le> si_fuel s \<and> en_consume_fuel (si_engine t) = en_consume_fuel (si_engine s)"

definition drains :: "('d world, 'a) action \<Rightarrow> bool" where
  "drains a \<longleftrightarrow> (\<forall>w. drained (st_inner (wo_store w)) (st_inner (wo_store (snd (a w)))))"

text \<open>The embedder does not refuel: no callback leaves the store with more fuel than it found, or turns metering off.\<close>

definition frugal :: "'d embedder \<Rightarrow> bool" where
  "frugal em \<longleftrightarrow> (\<forall>i f inst ps rs s. em_call em i = Some f \<longrightarrow> drained (st_inner s) (st_inner (snd (f inst ps rs s)))) \<and>
     (\<forall>f s. em_epoch em = Some f \<longrightarrow> drained (st_inner s) (st_inner (snd (f s))))"

named_theorems drain_intros \<open>actions that do not add fuel\<close>

lemma drained_refl [simp]: "drained s s"
  by (simp add: drained_def)

lemma drained_trans: "drained s t \<Longrightarrow> drained t u \<Longrightarrow> drained s u"
  by (simp add: drained_def)

lemma metering_drained: "metering t = metering s \<Longrightarrow> drained s t"
  by (simp add: metering_def drained_def)

lemma drainsD: "drains a \<Longrightarrow> a w = (r, w') \<Longrightarrow> drained (st_inner (wo_store w)) (st_inner (wo_store w'))"
  unfolding drains_def by (metis snd_conv)

lemma drainsI: "(\<And>w r w'. a w = (r, w') \<Longrightarrow> drained (st_inner (wo_store w)) (st_inner (wo_store w'))) \<Longrightarrow> drains a"
  unfolding drains_def by (metis prod.collapse)

lemma drains_bindc [drain_intros]:
  assumes "drains a" and "\<And>x. drains (f x)"
  shows "drains (bindc a f)"
proof (rule drainsI)
  fix w r w'
  assume run: "bindc a f w = (r, w')"
  obtain q w1 where q: "a w = (q, w1)" by fastforce
  show "drained (st_inner (wo_store w)) (st_inner (wo_store w'))"
    using run q drainsD [OF assms(1) q] drainsD [OF assms(2)] drained_trans by (cases q) (auto simp: bindc_def)
qed

lemma drains_basic [drain_intros]: "drains (ret x)" "drains (fail e)" "drains (getc h)" "drains (lift_res r)" "drains (inner_get q)"
  by (simp_all add: drains_def inner_get_def)

lemma drains_lift_opt [drain_intros]: "drains (lift_opt e z)"
  by (cases z) (simp_all add: drains_def)

lemma drains_if [drain_intros]: "drains a \<Longrightarrow> drains b \<Longrightarrow> drains (if p then a else b)"
  by simp

lemma drains_case [drain_intros]:
  "drains a \<Longrightarrow> (\<And>x. drains (f x)) \<Longrightarrow> drains (case z of None \<Rightarrow> a | Some x \<Rightarrow> f x)"
  by (cases z) simp_all

lemma drains_machine [drain_intros]: "steady metering a \<Longrightarrow> drains (on_machine a)"
  by (rule drainsI)
    (auto simp: on_machine_def put_machine_def world_machine_def machine_of_def metering_drained dest!: steadyD split: prod.splits)

lemma drains_upd: "(\<And>s. drained s (f s)) \<Longrightarrow> drains (inner_upd f)"
  by (simp add: drains_def inner_upd_def on_store_def upd_store_def)

lemma drains_swap [drain_intros]: "drains swap_exec"
  by (simp add: drains_def swap_exec_def drained_def)

lemma drained_updates [simp]:
  "drained s (gc_roots_truncate n s)" "drained s (push_gc_root h k s)" "drained s (restore_pending_exception e g s)"
  "drained s (set_epoch_deadline d s)"
  by (simp_all add: drained_def gc_roots_truncate_def push_gc_root_def restore_pending_exception_def set_epoch_deadline_def)

lemma drained_root_params [simp]: "drained s (root_ref_params vs s)"
proof (induction vs arbitrary: s)
  case (Cons v vs)
  have "drained s (case v of AnyRef (Some r) \<Rightarrow> push_gc_root (ro_index r) RkAny s
     | ExternRef (Some r) \<Rightarrow> push_gc_root (ro_index r) RkExtern s | ExnRef (Some r) \<Rightarrow> push_gc_root (ro_index r) RkExn s | _ \<Rightarrow> s)"
    by (simp split: val.split option.split)
  then show ?case using Cons by (auto intro: drained_trans)
qed simp

lemma drained_panic [simp]: "drained s (restore_after_panic n e g s)"
  by (auto simp: restore_after_panic_def drained_def gc_roots_truncate_def restore_pending_exception_def take_exec_def park_exec_def
      latch_internal_error_def split: prod.splits sum.splits error.splits option.splits)

lemma drains_host_updates [drain_intros]:
  "drains (inner_upd (gc_roots_truncate n))" "drains (inner_upd (restore_pending_exception e g))" "drains (inner_upd (root_ref_params vs))"
  "drains (inner_upd (restore_after_panic n e g))" "drains (extend_epoch_deadline d)" "drains latched_error" "drains take_pending"
  "drains (discard_host_call st)" "drains (restore_pending st)"
proof -
  show "drains latched_error" "drains take_pending"
    unfolding latched_error_def take_pending_def
    by (intro drain_intros steady_intros; simp add: take_internal_error_def take_pending_exception_def metering_def)+
qed (auto simp: extend_epoch_deadline_def discard_host_call_def restore_pending_def intro!: drains_upd)

lemma drains_open_scope [drain_intros]: "drains open_scope"
  unfolding open_scope_def by (intro drain_intros drains_upd) (simp split: option.split)

lemma drains_case_result [drain_intros]:
  "(\<And>p. drains (a p)) \<Longrightarrow> (\<And>e. drains (b e)) \<Longrightarrow> (\<And>x. drains (f x)) \<Longrightarrow>
     drains (case z of Inl (Panic p) \<Rightarrow> a p | Inl e \<Rightarrow> b e | Inr x \<Rightarrow> f x)"
  by (simp split: sum.split error.split)

lemma drains_guarded:
  assumes "\<And>s. drained (st_inner s) (st_inner (snd (f s)))"
  shows "drains (guarded sc f)"
proof -
  have call: "drains (\<lambda>w. case f (wo_store w) of (r, s) \<Rightarrow> (Inr r, w\<lparr>wo_store := s\<rparr>))"
    using assms by (simp add: drains_def split_beta)
  show ?thesis unfolding guarded_def
    by (intro drain_intros call)
qed

lemma steady_push_results [steady_intros]: "steady g (push_results vs)"
proof (induction vs)
  case (Cons v vs)
  then show ?case by (simp only: push_results.simps) (intro steady_intros quiet_push_cells [THEN steady_quiet])
qed (simp add: steady_def)

lemma steady_raise [steady_intros]: "steady g (raise_host_exception x stop)"
  unfolding raise_host_exception_def by (intro steady_intros)

lemma drains_finish_host_call [drain_intros]: "drains (finish_host_call st r stop)"
  unfolding finish_host_call_def
  by (auto split: sum.split error.split option.split intro!: drain_intros steady_intros)

lemma drains_bind_opt: "(\<And>x. z = Some x \<Longrightarrow> drains (f x)) \<Longrightarrow> drains (bindc (lift_opt e z) f)"
  by (cases z) (simp_all add: drains_def)

lemma drains_prep_host [drain_intros]: "drains (prep_host f)"
  unfolding prep_host_def prepare_host_call_def by (auto split: func_entity.split intro!: drain_intros steady_intros)

lemma drains_invoke [drain_intros]: "frugal em \<Longrightarrow> drains (invoke_host em f inst stop)"
  unfolding invoke_host_def
  by (intro drains_bindc drains_prep_host drains_bind_opt drains_guarded drains_case drain_intros) (simp add: frugal_def)

lemma drains_parked:
  assumes "\<And>s. drained (st_inner s) (st_inner (snd (f s)))"
  shows "drains (with_parked_host_operation f)"
  unfolding with_parked_host_operation_def by (intro drain_intros drains_guarded assms)

lemma limiter_inner: "st_inner (snd (with_sync_limiter f s)) = st_inner s"
  using with_sync_limiter_keeps by (metis prod.collapse)

lemma drained_puts [simp]:
  "drained s (put_memory h e s)" "drained s (put_table h t s)" "drained s (grant_reservation n s)"
  by (simp_all add: metering_drained grant_reservation_def)

lemma drained_growth:
  "drained (st_inner s) (st_inner (snd (grow_memory ca h n s)))" "drained (st_inner s) (st_inner (snd (grow_table ca h n init s)))"
  "drained (st_inner s) (st_inner (snd (grow_gc_reservation target bytes s)))"
proof -
  show "drained (st_inner s) (st_inner (snd (grow_memory ca h n s)))"
  proof (cases "memory_at h (st_inner s)")
    case (Inr e)
    from grow_memory_cases [OF prod.collapse [symmetric] Inr, of ca n] show ?thesis by auto
  qed (simp add: grow_memory_def store_plumbing)
  show "drained (st_inner s) (st_inner (snd (grow_table ca h n init s)))"
  proof (cases "table_at h (st_inner s)")
    case (Inr e)
    from grow_table_cases [OF prod.collapse [symmetric] Inr, of ca n init] show ?thesis by auto
  qed (simp add: grow_table_def store_plumbing)
  let ?ask = "with_sync_limiter (\<lambda>l. lm_memory_growing l (gh_reserved (si_gc (st_inner s))) target None) s"
  show "drained (st_inner s) (st_inner (snd (grow_gc_reservation target bytes s)))"
    using with_sync_limiter_keeps [of "\<lambda>l. lm_memory_growing l (gh_reserved (si_gc (st_inner s))) target None" s "fst ?ask" "snd ?ask"]
    by (cases ?ask; cases "fst ?ask") (auto simp: grow_gc_reservation_def store_plumbing)
qed

lemma drains_serve_outcome [drain_intros]: "frugal em \<Longrightarrow> drains (serve_outcome em out)"
proof (cases out)
  case EpochDeadline
  assume em: "frugal em"
  have "drains (take_epoch_action em)"
  proof (cases "em_epoch em")
    case (Some f)
    with em show ?thesis unfolding take_epoch_action_def
      by (simp, intro drain_intros drains_guarded) (simp add: frugal_def)
  qed (simp add: take_epoch_action_def drain_intros)
  with EpochDeadline show ?thesis
    by (auto simp: serve_outcome_def apply_epoch_deadline_def split: update_deadline.split intro!: drain_intros)
qed (auto simp: serve_outcome_def do_grow_def do_grow_table_def do_grow_gc_def index_or_minus_one_def
    intro!: drain_intros steady_intros drains_parked drained_growth)

section \<open>Every turn costs fuel or a frame\<close>

lemma drains_serve_step: "frugal em \<Longrightarrow> drains (serve_step em env cur out)"
  by (cases out) (auto simp: serve_step_def Let_def after_call_def reload_def suspend_def after_host_def
      intro!: drain_intros steady_intros)

lemma drains_run_op:
  assumes "frugal em"
  shows "drains (run_op em env cur op)"
proof (rule drainsI)
  fix w r w'
  assume run: "run_op em env cur op w = (r, w')"
  let ?st = "on_machine (step (cu_code cur) op (cu_ip cur + 1) (cu_base cur) (cu_instance cur)) :: ('a world, step_outcome) action"
  obtain q w1 where q: "?st w = (q, w1)" by fastforce
  have first: "drained (st_inner (wo_store w)) (st_inner (wo_store w1))"
    by (rule drainsD [OF drains_machine [OF steady_step] q])
  have "drains (bindc (on_machine (unwind e (cu_ip cur) (le_stop env))) (\<lambda>_. reload (cu_countdown cur)))" for e
    unfolding reload_def by (intro drain_intros steady_intros)
  then have "drained (st_inner (wo_store w1)) (st_inner (wo_store w'))"
    using run q drainsD drains_serve_step [OF assms] by (cases q) (fastforce simp: run_op_def)+
  with first show "drained (st_inner (wo_store w)) (st_inner (wo_store w'))" by (rule drained_trans)
qed

lemma gates_cost:
  assumes "on_machine (service_gates True epoch ip) w = (Inr gate, w')"
  shows "world_fuel w' < world_fuel w \<and> metered w' = metered w"
  using assms
  by (auto simp: on_machine_def service_gates_def bindc_def consume_fuel_step_def set_top_ip_def world_fuel_def metered_def
      world_machine_def machine_of_def put_machine_def split: if_splits prod.splits sum.splits)

lemma drains_gates: "drains (on_machine (service_gates fuel epoch ip))"
  by (rule drainsI)
    (auto simp: on_machine_def service_gates_def bindc_def consume_fuel_step_def set_top_ip_def drained_def
      world_machine_def machine_of_def put_machine_def split: if_splits prod.splits sum.splits)

definition turn_less :: "'d world \<Rightarrow> 'd world \<Rightarrow> bool" where
  "turn_less w' w \<longleftrightarrow> world_fuel w' < world_fuel w \<or>
     world_fuel w' = world_fuel w \<and> length (ex_frames (wo_exec w')) < length (ex_frames (wo_exec w))"

lemma reload_same: "reload cd w = (r, w') \<Longrightarrow> w' = w \<and> (\<forall>out. r \<noteq> Inr (Inl out))"
  by (auto simp: reload_def on_machine_def world_machine_def put_machine_def machine_of_def exec_of_def execution.truncate_def
      bindc_def split: sum.splits)

lemma return_pops:
  assumes "on_machine (do_return n stop tail) w = (Inr over, w')"
  shows "world_fuel w' = world_fuel w \<and> length (ex_frames (wo_exec w')) < length (ex_frames (wo_exec w))"
proof -
  obtain m where m: "do_return n stop tail (world_machine w) = (Inr over, m)" "w' = put_machine m w"
    using assms by (auto simp: on_machine_def split: prod.splits)
  from m(1) obtain f where "return_check n stop tail (world_machine w) = Inr f"
    "m = slide (fr_locals_base f) n ((world_machine w)\<lparr>ex_frames := butlast (ex_frames (world_machine w))\<rparr>)"
    by (auto simp: do_return_Inr)
  then show ?thesis using m(2)
    by (auto simp: return_check_Inr slide_def Let_def put_machine_def exec_of_def execution.truncate_def world_machine_def machine_of_def world_fuel_def)
qed

lemma turn_cost:
  assumes em: "frugal em" and fuel: "le_fuel env" and run: "turn em env cur w = (r, w')"
  shows "drained (st_inner (wo_store w)) (st_inner (wo_store w')) \<and> (\<forall>cur'. r = Inr (Inr cur') \<longrightarrow> turn_less w' w) \<and>
    (\<forall>out. r = Inr (Inl out) \<longrightarrow> out = Finished \<or> world_fuel w' < world_fuel w)"
proof (cases "get_at (ops_of (cu_code cur) (cu_func cur)) (cu_ip cur)")
  case None
  obtain q w1 where q: "on_machine (do_return (cf_n_results (cu_func cur)) (le_stop env) False) w = (q, w1)" by fastforce
  have d: "drained (st_inner (wo_store w)) (st_inner (wo_store w1))"
    by (rule drainsD [OF drains_machine [OF quiet_frame_ops(2) [THEN steady_quiet]] q])
  show ?thesis
  proof (cases q)
    case (Inl e)
    with run q None d show ?thesis by (auto simp: turn_def)
  next
    case (Inr over)
    with run q None reload_same [of "cu_countdown cur" w1] return_pops [OF q [unfolded Inr]] d
    show ?thesis by (auto simp: turn_def turn_less_def split: if_splits)
  qed
next
  case (Some op)
  obtain q w1 where q: "on_machine (service_gates True (le_epoch env) (cu_ip cur)) w = (q, w1)" by fastforce
  show ?thesis
  proof (cases q)
    case (Inl e)
    with run q Some fuel drainsD [OF drains_gates q] show ?thesis by (auto simp: turn_def)
  next
    case (Inr gate)
    have cost: "world_fuel w1 < world_fuel w \<and> metered w1 = metered w" using gates_cost q Inr by blast
    have "drained (st_inner (wo_store w1)) (st_inner (wo_store w'))"
      using run q Some fuel Inr drainsD [OF drains_run_op [OF em]] by (cases gate) (auto simp: turn_def)
    with cost show ?thesis by (auto simp: drained_def turn_less_def world_fuel_def metered_def)
  qed
qed

lemma wf_turn_less: "wf {(w' :: 'd world, w). turn_less w' w}"
proof -
  have "{(w' :: 'd world, w). turn_less w' w} = measures [world_fuel, \<lambda>w. length (ex_frames (wo_exec w))]"
    by (auto simp: turn_less_def)
  then show ?thesis by simp
qed

text \<open>A metered dispatch returns, with no more fuel than it had, and with strictly less when it suspends.\<close>

lemma dispatch_returns:
  assumes em: "frugal em" and fuel: "le_fuel env"
  shows "\<exists>r w'. dispatch em env cur w = Some (r, w') \<and> drained (st_inner (wo_store w)) (st_inner (wo_store w')) \<and>
    (\<forall>out. r = Inr out \<longrightarrow> out = Finished \<or> world_fuel w' < world_fuel w)"
proof (induction w arbitrary: cur rule: wf_induct_rule [OF wf_turn_less])
  case (1 w)
  obtain r w1 where t: "turn em env cur w = (r, w1)" by fastforce
  note cost = turn_cost [OF em fuel t]
  show ?case
  proof (cases "\<exists>cur'. r = Inr (Inr cur')")
    case True
    then obtain cur' where r: "r = Inr (Inr cur')" by blast
    with cost have "(w1, w) \<in> {(w', w). turn_less w' w}" by simp
    from 1 [OF this, of cur'] obtain r2 w2 where ih: "dispatch em env cur' w1 = Some (r2, w2)"
      "drained (st_inner (wo_store w1)) (st_inner (wo_store w2))" "\<forall>out. r2 = Inr out \<longrightarrow> out = Finished \<or> world_fuel w2 < world_fuel w1"
      by blast
    moreover have "dispatch em env cur w = Some (r2, w2)" using t r ih(1) by (subst dispatch.simps) simp
    ultimately show ?thesis using cost by (auto simp: drained_def world_fuel_def)
  next
    case False
    then have "dispatch em env cur w = Some (case r of Inl e \<Rightarrow> Inl e | Inr (Inl out) \<Rightarrow> Inr out | Inr (Inr c) \<Rightarrow> Inl (Panic []), w1)"
      using t by (subst dispatch.simps) (auto split: sum.split)
    with cost False show ?thesis by (auto split: sum.splits)
  qed
qed

lemma run_returns:
  assumes "frugal em" and "metered w"
  shows "\<exists>r w'. run em stop w = Some (r, w') \<and> drained (st_inner (wo_store w)) (st_inner (wo_store w')) \<and>
    (\<forall>out. r = Inr out \<longrightarrow> out = Finished \<or> world_fuel w' < world_fuel w)"
proof -
  have "le_fuel (loop_env_of stop (st_inner (wo_store w)))" using assms(2) by (simp add: loop_env_of_def metered_def)
  from dispatch_returns [OF assms(1) this] show ?thesis by (auto simp: run_def Let_def split: sum.split)
qed

lemma drive_returns:
  assumes "frugal em" and "metered w"
  shows "\<exists>r w'. drive em stop w = Some (r, w') \<and> drained (st_inner (wo_store w)) (st_inner (wo_store w'))"
  using assms(2)
proof (induction "world_fuel w" arbitrary: w rule: less_induct)
  case less
  from run_returns [OF assms(1) less(2), of stop] obtain r w1 where run: "run em stop w = Some (r, w1)"
    "drained (st_inner (wo_store w)) (st_inner (wo_store w1))" "\<forall>out. r = Inr out \<longrightarrow> out = Finished \<or> world_fuel w1 < world_fuel w" by blast
  show ?case
  proof (cases "\<exists>out. r = Inr out \<and> out \<noteq> Finished")
    case False
    with run show ?thesis by (subst drive.simps) (auto split: sum.split)
  next
    case True
    then obtain out where out: "r = Inr out" "out \<noteq> Finished" by blast
    obtain q w2 where sv: "serve_outcome em out w1 = (q, w2)" by fastforce
    have d: "drained (st_inner (wo_store w)) (st_inner (wo_store w2))" "world_fuel w2 < world_fuel w" "metered w2"
      using drainsD [OF drains_serve_outcome [OF assms(1)] sv] run(2,3) out less(2) by (auto simp: drained_def world_fuel_def metered_def)
    show ?thesis
    proof (cases q)
      case (Inl e)
      with run(1) out sv d show ?thesis by (subst drive.simps) simp
    next
      case (Inr u)
      from less(1) [OF d(2,3)] obtain r' w' where "drive em stop w2 = Some (r', w')"
        "drained (st_inner (wo_store w2)) (st_inner (wo_store w'))" by blast
      with run(1) out sv Inr d(1) show ?thesis by (subst drive.simps) (auto intro: drained_trans)
    qed
  qed
qed

section \<open>Entering and leaving\<close>

lemma entry_fuel: "enter inst fi c args s = (r, s') \<Longrightarrow> drained s s'"
  by (auto simp: enter_def entry_error_def take_internal_error_def take_exec_def park_exec_def drained_def bindc_def Let_def
      split: prod.splits sum.splits option.splits if_splits error.splits)

lemma root_results_fuel: "metering (snd (root_results vs s)) = metering s"
proof (induction vs arbitrary: s)
  case (Cons v vs)
  have "metering (snd (root_host_result v s)) = metering s"
    by (auto simp: root_host_result_def push_gc_root_def metering_def split: sum.split val.split option.split anyref_handle.split)
  with Cons [of "snd (root_host_result v s)"] show ?case
    by (auto simp: bindc_def internal_or_def split_beta split: sum.splits prod.splits)
qed simp

lemma decode_results_fuel: "drained s (snd (decode_results tys cells s))"
proof -
  have "metering (snd (root_results vs s)) = metering s" for vs by (rule root_results_fuel)
  then have m: "root_results vs s = (r, t) \<Longrightarrow> metering t = metering s" for vs r t by (metis snd_conv)
  show ?thesis
    by (auto simp: decode_results_def metering_drained gc_roots_truncate_def metering_def [symmetric] dest!: m
        split: sum.split prod.split error.split) (auto simp: metering_def drained_def)
qed

lemma close_call_fuel: "close_call ex b tys out s = (r, ex', s') \<Longrightarrow> drained s s'"
proof -
  have d: "decode_results tys cells s = (q, t) \<Longrightarrow> drained s t" for cells q t
    using decode_results_fuel [of s tys cells] by simp
  have e: "surface_exception err s = (q, t) \<Longrightarrow> drained s t" for err q t
    by (auto simp: surface_exception_def set_pending_exception_def drained_def split: error.splits sum.splits)
  assume "close_call ex b tys out s = (r, ex', s')"
  then show ?thesis by (auto simp: close_call_def dest: d e split: sum.splits prod.splits)
qed

lemma finish_fuel:
  assumes "finish ex b tys out s = (r, s')"
  shows "drained s s'"
proof -
  obtain q ex' t where c: "close_call ex b tys out s = (q, ex', t)" by (metis prod_cases3)
  have "drained t (park_exec ex' t)" "drained t (park_exec ex' (latch_internal_error i t))" for i
    by (simp_all add: park_exec_def latch_internal_error_def drained_def split: option.split)
  with close_call_fuel [OF c] assms c show ?thesis
    by (auto simp: finish_def intro: drained_trans split: sum.splits error.splits if_splits)
qed

section \<open>Properties\<close>


text \<open>A function that branches to itself, in a store with seven units of fuel.\<close>

definition spin_code :: code where
  "spin_code = \<lparr>co_module = (co_module sample_code)\<lparr>
     mi_functions := [sample_func\<lparr>cf_n_params := 0, cf_n_results := 0, cf_local_types := \<lparr>sp_start = 0, sp_len = 0\<rparr>\<rparr>],
     mi_code := \<lparr>ca_ops = [OpBr \<lparr>bt_ip = 0, bt_keep = 0, bt_pop = 0\<rparr>], ca_local_types = [], ca_handlers = [], ca_br_tables = [], ca_big_memargs = []\<rparr>\<rparr>, co_index = 0\<rparr>"

definition lone_embedder :: "'d embedder" where
  "lone_embedder = \<lparr>em_call = (\<lambda>_. None), em_epoch = None, em_alloc = (\<lambda>_. True)\<rparr>"

definition metered_store :: "unit store" where
  "metered_store = \<lparr>st_inner = set_fuel 7 (store_new 1 (sample_engine\<lparr>en_consume_fuel := True\<rparr>)), st_data = (), st_limiter = None\<rparr>"

lemma spin_value: "map_option fst (execute lone_embedder sample_instance 0 spin_code [] [] metered_store) = Some (Inl (Trapped OutOfFuel))"
  by code_simp


end
