(* ===== verification/Exec_Confine.thy ===== *)
theory Exec_Confine
  imports Exec_Fuel
begin

text \<open>
  Isolation of parked executions. Every instruction works inside the region of the current frame;
  calls, returns, branches, exceptions and host calls keep what lies under the boundary of the
  running call. So a call made while another execution is parked in the store (a host function that
  re-enters the interpreter) leaves that execution exactly as it found it.
\<close>

section \<open>Actions inside the current frame\<close>

named_theorems frame_intros \<open>actions that stay inside the current frame\<close>

definition same_below :: "nat \<Rightarrow> machine \<Rightarrow> machine \<Rightarrow> bool" where
  "same_below n m m' \<longleftrightarrow> take n (ex_values m') = take n (ex_values m) \<and> take n (ex_shadow m') = take n (ex_shadow m) \<and>
     ex_frames m' = ex_frames m \<and> ex_host_reentry_depth m' = ex_host_reentry_depth m"

definition inframe :: "nat \<Rightarrow> (machine, 'a) action \<Rightarrow> bool" where
  "inframe lb a \<longleftrightarrow> (\<forall>m r m'. stack_ok m \<longrightarrow> ex_frames m \<noteq> [] \<longrightarrow> fr_locals_base (last (ex_frames m)) = lb \<longrightarrow> a m = (r, m') \<longrightarrow>
     \<not> is_panic r \<longrightarrow> stack_ok m' \<and> same_below lb m m')"

lemma inframeI:
  "(\<And>m r m'. stack_ok m \<Longrightarrow> ex_frames m \<noteq> [] \<Longrightarrow> fr_locals_base (last (ex_frames m)) = lb \<Longrightarrow> a m = (r, m') \<Longrightarrow> \<not> is_panic r \<Longrightarrow>
     stack_ok m' \<and> same_below lb m m') \<Longrightarrow> inframe lb a"
  unfolding inframe_def by blast

lemma inframeD:
  "inframe lb a \<Longrightarrow> stack_ok m \<Longrightarrow> ex_frames m \<noteq> [] \<Longrightarrow> fr_locals_base (last (ex_frames m)) = lb \<Longrightarrow> a m = (r, m') \<Longrightarrow> \<not> is_panic r \<Longrightarrow>
     stack_ok m' \<and> same_below lb m m'"
  unfolding inframe_def by blast

lemma same_below_refl [simp]: "same_below n m m"
  by (simp add: same_below_def)

lemma same_below_trans: "same_below n m m1 \<Longrightarrow> same_below n m1 m2 \<Longrightarrow> same_below n m m2"
  by (simp add: same_below_def)

lemma inframe_bindc [frame_intros]:
  assumes a: "inframe lb a" and f: "\<And>x. inframe lb (f x)"
  shows "inframe lb (bindc a f)"
proof (rule inframeI)
  fix m :: machine and r m'
  assume m: "stack_ok m" "ex_frames m \<noteq> []" "fr_locals_base (last (ex_frames m)) = lb" and run: "bindc a f m = (r, m')"
    and np: "\<not> is_panic r"
  obtain q m1 where q: "a m = (q, m1)" by fastforce
  have np': "\<not> is_panic q" using run q np by (cases q) (auto simp: is_panic_def bindc_def)
  note one = inframeD [OF a m q np']
  show "stack_ok m' \<and> same_below lb m m'"
  proof (cases q)
    case (Inl e)
    with run q one show ?thesis by (auto simp: bindc_def)
  next
    case (Inr x)
    with run q have "f x m1 = (r, m')" by (simp add: bindc_def)
    moreover have "ex_frames m1 \<noteq> []" "fr_locals_base (last (ex_frames m1)) = lb" using one m by (auto simp: same_below_def)
    ultimately show ?thesis using inframeD [OF f _ _ _ _ np] one same_below_trans by blast
  qed
qed

lemma inframe_if [frame_intros]: "inframe lb a \<Longrightarrow> inframe lb b \<Longrightarrow> inframe lb (if p then a else b)"
  by simp

lemma inframe_case_option [frame_intros]:
  "inframe lb a \<Longrightarrow> (\<And>x. inframe lb (f x)) \<Longrightarrow> inframe lb (case z of None \<Rightarrow> a | Some x \<Rightarrow> f x)"
  by (cases z) simp_all

lemma inframe_case_bool [frame_intros]: "inframe lb a \<Longrightarrow> inframe lb b \<Longrightarrow> inframe lb (case z of True \<Rightarrow> a | False \<Rightarrow> b)"
  by (cases z) simp_all

lemma inframe_case_prod [frame_intros]: "(\<And>x y. inframe lb (f x y)) \<Longrightarrow> inframe lb (case z of (x, y) \<Rightarrow> f x y)"
  by (cases z) simp

lemma inframe_basic [frame_intros]:
  "inframe lb (ret x)" "inframe lb (fail e)" "inframe lb (getc h)" "inframe lb (ask q)" "inframe lb (lift_res r)" "inframe lb (inner_of q')"
  by (auto intro!: inframeI)

lemma inframe_lift_opt [frame_intros]: "inframe lb (lift_opt e z)"
  by (cases z) (auto intro!: inframeI)

lemma inframe_upd [frame_intros]: "inframe lb (upd_inner f)"
  by (auto intro!: inframeI simp: same_below_def)

lemma inframe_on_inner [frame_intros]: "inframe lb (on_inner f)"
  by (auto intro!: inframeI simp: same_below_def on_inner_def split: prod.splits)

section \<open>The stack operations\<close>

lemma same_below_truncate:
  assumes "stack_ok m" and "ex_frames m \<noteq> []" and "fr_operand_base (last (ex_frames m)) \<le> b" and "b \<le> length (ex_values m)"
  shows "stack_ok (truncate_to b m) \<and> same_below (fr_locals_base (last (ex_frames m))) m (truncate_to b m)"
proof -
  have "fr_locals_base (last (ex_frames m)) \<le> b" using assms(1,2,3) by (auto simp: stack_ok_def chain_ok_last)
  then have "same_below (fr_locals_base (last (ex_frames m))) m (truncate_to b m)" by (simp add: same_below_def truncate_to_def min_def)
  with stack_ok_truncate [OF assms] show ?thesis by blast
qed

lemma inframe_pops: "pops n a \<Longrightarrow> inframe lb a"
proof (rule inframeI)
  fix m :: machine and r m'
  assume p: "pops n a" and m: "stack_ok m" "ex_frames m \<noteq> []" "fr_locals_base (last (ex_frames m)) = lb" and run: "a m = (r, m')"
    and np: "\<not> is_panic r"
  have c: "case r of Inl e \<Rightarrow> m' = m \<or> is_panic r
      | Inr _ \<Rightarrow> ensure_operands n m = Inr (length (ex_values m) - n) \<and> m' = truncate_to (length (ex_values m) - n) m"
    using p run by (simp add: pops_def)
  show "stack_ok m' \<and> same_below lb m m'"
  proof (cases r)
    case (Inl e)
    with c np m show ?thesis by auto
  next
    case (Inr x)
    with c have t: "ensure_operands n m = Inr (length (ex_values m) - n)" "m' = truncate_to (length (ex_values m) - n) m" by auto
    with same_below_truncate [OF m(1,2), of "length (ex_values m) - n"] m show ?thesis by (auto simp: ensure_operands_Inr)
  qed
qed

lemmas inframe_cells [frame_intros] = pops_cells [THEN inframe_pops] pops_values [THEN inframe_pops]

lemma inframe_typed_pops [frame_intros]:
  "inframe lb (pop_ref k)" "inframe lb pop_anyref" "inframe lb (pop_val_for sl)"
  unfolding pop_anyref_def pop_ref_def pop_val_for_def by (intro frame_intros)+

lemma pops_typed: "pops 1 (pop_typed t)"
  unfolding pops_def pop_typed_def
  by (auto simp: bindc_def ensure_operands_Inr split: sum.splits prod.splits if_splits)

lemmas inframe_pop_typed [frame_intros] = pops_typed [THEN inframe_pops]

lemma inframe_push:
  assumes "length c = SLOT_BYTES"
  shows "inframe lb (push_cell c t)"
proof (rule inframeI)
  fix m :: machine and r m'
  assume m: "stack_ok m" "ex_frames m \<noteq> []" "fr_locals_base (last (ex_frames m)) = lb" and run: "push_cell c t m = (r, m')"
  have "m' = m\<lparr>ex_shadow := ex_shadow m @ [t], ex_values := ex_values m @ [c]\<rparr>" using run by (simp add: push_cell_def)
  moreover have "lb \<le> length (ex_values m)" "length (ex_shadow m) = length (ex_values m)"
    using m by (auto simp: stack_ok_def chain_ok_last)
  ultimately show "stack_ok m' \<and> same_below lb m m'" using stack_ok_push [OF m(1) assms] by (simp add: same_below_def)
qed

lemma encode_panics: "encode v = Inl e \<Longrightarrow> is_panic (Inl e :: 'a result)"
  by (cases v) (auto simp: encode_def slot_for_val_def write_slot_def slice_from_def write_scalar_def write_le_def ref_handle_def
      unwrap_i32_def unwrap_i64_def unwrap_f32_def unwrap_f64_def is_panic_def SLOT_BYTES_def split: option.splits)

lemma push_val_cell:
  "encode v = Inr c \<Longrightarrow> push_val v m = push_cell c (of_val v) m" "encode v = Inl e \<Longrightarrow> fst (push_val v m) = Inl e"
  by (simp_all add: push_val_def push_cell_def)

lemma inframe_push_val [frame_intros]: "inframe lb (push_val v)"
proof (cases "encode v")
  case (Inl e)
  show ?thesis
  proof (rule inframeI)
    fix m :: machine and r m'
    assume "push_val v m = (r, m')" "\<not> is_panic r"
    moreover have "fst (push_val v m) = Inl e" by (rule push_val_cell(2) [OF Inl])
    ultimately show "stack_ok m' \<and> same_below lb m m'" using encode_panics [OF Inl] by (simp add: is_panic_def)
  qed
next
  case (Inr c)
  have "(push_val v :: (machine, unit) action) = push_cell c (of_val v)" by (rule ext) (simp add: push_val_cell(1) [OF Inr])
  with inframe_push [OF length_encode [OF Inr]] show ?thesis by simp
qed

lemma inframe_push_scalar: "length bs \<le> 8 \<Longrightarrow> inframe lb (push_scalar bs)"
  using inframe_push [of "of_bytes bs" lb TagNone] by (simp add: push_scalar_def push_cell_def)

lemma inframe_pushes [frame_intros]:
  "inframe lb (push_i32 v)" "inframe lb (push_i64 w)" "inframe lb (push_f32_bits v)" "inframe lb (push_f64_bits w)" "inframe lb (push_index b n)"
  unfolding push_i32_def push_i64_def push_f32_bits_def push_f64_bits_def push_index_def
  by (intro inframe_push_val inframe_push_scalar; simp)+

text \<open>Actions that hand out a cell of the stack hand out a whole one.\<close>

definition wholes :: "nat \<Rightarrow> (machine, cell \<times> ref_tag) action \<Rightarrow> bool" where
  "wholes lb a \<longleftrightarrow> inframe lb a \<and> (\<forall>m c t m'. stack_ok m \<longrightarrow> a m = (Inr (c, t), m') \<longrightarrow> length c = SLOT_BYTES)"

lemma whole_cell: "stack_ok m \<Longrightarrow> i < length (ex_values m) \<Longrightarrow> length (ex_values m ! i) = SLOT_BYTES"
  by (simp add: stack_ok_def)

lemma wholesI: "inframe lb a \<Longrightarrow> (\<And>m c t m'. stack_ok m \<Longrightarrow> a m = (Inr (c, t), m') \<Longrightarrow> length c = SLOT_BYTES) \<Longrightarrow> wholes lb a"
  by (simp add: wholes_def)

lemma wholes_pops: "wholes lb pop_tagged" "wholes lb pop_tagged_ref" "wholes lb pop_select"
proof -
  note d = bindc_eq_Inr ensure_operands_Inr
  show "wholes lb pop_tagged"
    by (rule wholesI [OF inframe_cells(2)]) (auto simp: pop_tagged_def d intro!: whole_cell)
  show "wholes lb pop_tagged_ref"
    by (rule wholesI [OF inframe_cells(5)]) (auto simp: pop_tagged_ref_def d intro!: whole_cell)
  show "wholes lb pop_select"
    by (rule wholesI [OF inframe_cells(6)]) (auto simp: pop_select_def d intro!: whole_cell split: if_splits)
qed

lemma wholes_reads: "wholes lb (ask (cell_at i))" "wholes lb (ask top_cell)"
proof -
  show "wholes lb (ask (cell_at i))"
    by (rule wholesI [OF inframe_basic(4)]) (auto simp: cell_at_def intro!: whole_cell split: if_splits)
  show "wholes lb (ask top_cell)"
    by (rule wholesI [OF inframe_basic(4)]) (auto simp: top_cell_def ensure_operands_Inr intro!: whole_cell)
qed

lemma inframe_bind_whole:
  assumes a: "wholes lb a" and f: "\<And>c t. length c = SLOT_BYTES \<Longrightarrow> inframe lb (f (c, t))"
  shows "inframe lb (bindc a f)"
proof (rule inframeI)
  fix m :: machine and r m'
  assume m: "stack_ok m" "ex_frames m \<noteq> []" "fr_locals_base (last (ex_frames m)) = lb" and run: "bindc a f m = (r, m')"
    and np: "\<not> is_panic r"
  obtain q m1 where q: "a m = (q, m1)" by fastforce
  have np': "\<not> is_panic q" using run q np by (cases q) (auto simp: is_panic_def bindc_def)
  have one: "stack_ok m1 \<and> same_below lb m m1" using inframeD [of lb a, OF _ m q np'] a by (simp add: wholes_def)
  show "stack_ok m' \<and> same_below lb m m'"
  proof (cases q)
    case (Inl e)
    with run q one show ?thesis by (auto simp: bindc_def)
  next
    case (Inr x)
    obtain c t where x: "x = (c, t)" by fastforce
    have "length c = SLOT_BYTES" using a m(1) q Inr x by (auto simp: wholes_def)
    note fx = f [OF this, of t]
    from run q Inr x have "f (c, t) m1 = (r, m')" by (simp add: bindc_def)
    moreover have "ex_frames m1 \<noteq> []" "fr_locals_base (last (ex_frames m1)) = lb" using one m by (auto simp: same_below_def)
    ultimately show ?thesis using inframeD [OF fx _ _ _ _ np] one same_below_trans by blast
  qed
qed

lemmas whole_binds = wholes_pops [THEN inframe_bind_whole] wholes_reads [THEN inframe_bind_whole]

text \<open>In-place operations.\<close>

lemma operand_replace:
  assumes "stack_ok m" and "ex_frames m \<noteq> []" and "fr_operand_base (last (ex_frames m)) \<le> i" and "length c = SLOT_BYTES"
  shows "stack_ok (m\<lparr>ex_values := (ex_values m)[i := c]\<rparr>) \<and>
    same_below (fr_locals_base (last (ex_frames m))) m (m\<lparr>ex_values := (ex_values m)[i := c]\<rparr>)"
proof -
  have "fr_locals_base (last (ex_frames m)) \<le> i" using assms(1,2,3) by (auto simp: stack_ok_def chain_ok_last)
  moreover have "stack_ok (m\<lparr>ex_values := (ex_values m)[i := c]\<rparr>)"
    using assms(1,4) by (auto simp: stack_ok_def dest: set_update_subset_insert [THEN subsetD])
  ultimately show ?thesis by (simp add: same_below_def)
qed

lemma inframe_unop [frame_intros]:
  assumes "\<And>a. length (u a) = SLOT_BYTES"
  shows "inframe lb (unop_cell u)"
  using operand_replace assms
  by (auto intro!: inframeI simp: unop_cell_def bindc_def ensure_scalar_operands_Inr ensure_operands_Inr split: sum.splits)

lemma replace_and_cut:
  assumes m: "stack_ok m" "ex_frames m \<noteq> []" and e: "ensure_operands 2 m = Inr b" and c: "length c = SLOT_BYTES"
  shows "stack_ok (truncate_to (b + 1) (m\<lparr>ex_values := (ex_values m)[b := c]\<rparr>)) \<and>
    same_below (fr_locals_base (last (ex_frames m))) m (truncate_to (b + 1) (m\<lparr>ex_values := (ex_values m)[b := c]\<rparr>))"
proof -
  let ?m = "m\<lparr>ex_values := (ex_values m)[b := c]\<rparr>"
  have b: "fr_operand_base (last (ex_frames m)) \<le> b" "b + 1 \<le> length (ex_values m)" using e by (auto simp: ensure_operands_Inr)
  from operand_replace [OF m b(1) c] have one: "stack_ok ?m" "same_below (fr_locals_base (last (ex_frames m))) m ?m" by auto
  from same_below_truncate [OF one(1), of "b + 1"] m(2) b
  have "stack_ok (truncate_to (b + 1) ?m) \<and> same_below (fr_locals_base (last (ex_frames m))) ?m (truncate_to (b + 1) ?m)" by simp
  with one(2) same_below_trans show ?thesis by blast
qed

lemma inframe_binop [frame_intros]:
  assumes "\<And>a b. length (f a b) = SLOT_BYTES"
  shows "inframe lb (binop_cells f)"
  using replace_and_cut assms
  by (auto intro!: inframeI simp: binop_cells_def bindc_def ensure_scalar_operands_Inr split: sum.splits)

lemma inframe_binop_try [frame_intros]:
  assumes "\<And>a b c. f a b = Inr c \<Longrightarrow> length c = SLOT_BYTES"
  shows "inframe lb (binop_cells_try f)"
  using replace_and_cut assms
  by (auto intro!: inframeI simp: binop_cells_try_def bindc_def ensure_scalar_operands_Inr split: sum.splits)

section \<open>The handlers\<close>

lemma length_from [simp]: "length (from_i32 v) = SLOT_BYTES" "length (from_i64 w) = SLOT_BYTES"
  by (simp_all add: from_i32_def from_i64_def)

lemma inframe_tables [frame_intros]:
  "inframe lb (i32_rel k)" "inframe lb (i64_rel k)" "inframe lb (i32_un u)" "inframe lb (i64_un u)" "inframe lb (i32_bin b)" "inframe lb (i64_bin b)"
  "inframe lb (f32_rel fk)" "inframe lb (f64_rel fk)" "inframe lb (f32_un fu)" "inframe lb (f64_un fu)" "inframe lb (f32_bin fb)" "inframe lb (f64_bin fb)"
  "inframe lb (exec_conv c)"
proof -
  show "inframe lb (f32_rel fk)" "inframe lb (f64_rel fk)" by (cases fk; auto simp: numeric_defs intro!: frame_intros)+
  show "inframe lb (f32_un fu)" "inframe lb (f64_un fu)" by (cases fu; auto simp: numeric_defs Let_def intro!: frame_intros)+
  show "inframe lb (f32_bin fb)" "inframe lb (f64_bin fb)" by (cases fb; auto simp: numeric_defs Let_def intro!: frame_intros)+
  show "inframe lb (exec_conv c)" by (cases c; simp only: exec_conv.simps numeric_defs) (intro frame_intros)+
  show "inframe lb (i32_rel k)" "inframe lb (i64_rel k)" by (cases k; auto simp: numeric_defs intro!: frame_intros)+
  show "inframe lb (i32_un u)" "inframe lb (i64_un u)" by (cases u; auto simp: numeric_defs intro!: frame_intros)+
  show "inframe lb (i32_bin b)" "inframe lb (i64_bin b)" by (cases b; auto simp: numeric_defs intro!: frame_intros)+
qed

lemma inframe_exec_numeric [frame_intros]: "inframe lb (exec_numeric n)"
  by (cases n) (auto simp: exec_numeric_def numeric_defs intro!: frame_intros)

lemma inframe_mem [frame_intros]:
  "inframe lb (mem_ea n e off)" "inframe lb (load_n n c inst ma)" "inframe lb (push_loaded k b)" "inframe lb (pop_stored sk)"
  "inframe lb (store_n c inst ma data)"
proof -
  show ea: "inframe lb (mem_ea n e off)" for n e off unfolding mem_ea_def by (intro frame_intros)
  show "inframe lb (load_n n c inst ma)" "inframe lb (store_n c inst ma data)"
    unfolding load_n_def store_n_def by (intro frame_intros ea)+
  show "inframe lb (push_loaded k b)" by (cases k) (auto simp: push_loaded_def intro!: frame_intros)
  show "inframe lb (pop_stored sk)" by (cases sk) (auto simp: pop_stored_def intro!: frame_intros)
qed

lemma inframe_exec_memory [frame_intros]: "inframe lb (exec_memory c mop inst)"
  by (cases mop)
    (auto simp: exec_memory_def memory_init_def data_drop_def memory_copy_def memory_fill_def intro!: frame_intros)

lemma inframe_exec_table [frame_intros]: "inframe lb (exec_table tb inst)"
  by (cases tb) (auto simp: exec_table_def table_get_def table_set_def table_fill_def table_init_def table_copy_def elem_drop_def
      put_elems_def to_ref_res_def intro!: frame_intros)

lemma inframe_exec_ref [frame_intros]: "inframe lb (exec_ref r inst)"
  by (cases r) (auto simp: exec_ref_def intro!: whole_binds(2) frame_intros inframe_push)

lemma inframe_field_pops [frame_intros]: "inframe lb (pop_fields sls d)" "inframe lb (pop_elems l is d)" "inframe lb pop_count"
proof -
  show "inframe lb (pop_fields sls d)" by (induction sls arbitrary: d) (auto simp del: ret_apply simp: inframe_basic(1) intro!: frame_intros)
  show "inframe lb (pop_elems l is d)" by (induction "is" arbitrary: d) (auto simp del: ret_apply simp: inframe_basic(1) intro!: frame_intros)
  show "inframe lb pop_count" unfolding pop_count_def by (intro frame_intros)
qed

lemma inframe_exec_gc [frame_intros]: "inframe lb (exec_gc g inst)"
  by (cases g) (auto simp: exec_gc_def struct_new_def struct_get_def struct_set_def i31_get_def Let_def intro!: frame_intros)

lemma inframe_exec_gc_array [frame_intros]: "inframe lb (exec_gc_array a inst)"
  by (cases a) (auto simp: exec_gc_array_def array_new_def array_new_fixed_def array_new_data_def array_new_elem_def array_get_def
      array_set_def array_len_op_def array_fill_def array_copy_def array_init_data_def array_init_elem_def alloc_array_def
      Let_def intro!: frame_intros)

lemma inframe_exec_cast [frame_intros]: "inframe lb (exec_cast k inst)"
  by (cases k) (auto simp: exec_cast_def intro!: frame_intros)

lemma inframe_collect [frame_intros]: "inframe lb gc_collect_now" "inframe lb (gc_reserve charge ip)" "inframe lb service_gc_pressure"
proof -
  show c: "inframe lb gc_collect_now" unfolding gc_collect_now_def by (intro frame_intros)
  show "inframe lb (gc_reserve charge ip)" unfolding gc_reserve_def by (intro frame_intros c)
  have "inframe lb (\<lambda>m. case take_gc_request (ma_inner m) of (q, s) \<Rightarrow> (Inr q, m\<lparr>ma_inner := s\<rparr>))"
    by (auto intro!: inframeI simp: same_below_def split: prod.splits)
  then show "inframe lb service_gc_pressure" unfolding service_gc_pressure_def by (intro frame_intros c)
qed

lemma inframe_branch [frame_intros]: "inframe lb (take_branch t)"
proof (rule inframeI)
  fix m :: machine and r m'
  assume m: "stack_ok m" "ex_frames m \<noteq> []" "fr_locals_base (last (ex_frames m)) = lb" and run: "take_branch t m = (r, m')"
  show "stack_ok m' \<and> same_below lb m m'"
  proof (cases r)
    case (Inl e)
    with run transactional_take_branch have "m' = m" unfolding transactional_def by blast
    with m show ?thesis by simp
  next
    case (Inr u)
    with run have run': "take_branch t m = (Inr (), m')" by simp
    from run' have d: "fr_operand_base (last (ex_frames m)) + (bt_keep t + bt_pop t) \<le> length (ex_values m)"
      "m' = slide (length (ex_values m) - bt_keep t - bt_pop t) (bt_keep t) m" "length (ex_shadow m) = length (ex_values m)"
      by (auto simp: take_branch_Inr)
    moreover have "lb \<le> fr_operand_base (last (ex_frames m))" using m by (auto simp: stack_ok_def chain_ok_last)
    ultimately have "same_below lb m m'" by (simp add: slide_eq same_below_def)
    with stack_ok_take_branch [OF m(1) run'] show ?thesis by blast
  qed
qed

lemma inframe_set_cell: "lb \<le> i \<Longrightarrow> length c = SLOT_BYTES \<Longrightarrow> inframe lb (set_cell i c t)"
  by (auto intro!: inframeI stack_ok_set simp: set_cell_def same_below_def split: if_splits)

lemma inframe_locals [frame_intros]:
  "inframe lb (local_get base i)" "inframe base (local_set base i)" "inframe base (local_tee base i)"
proof -
  show "inframe lb (local_get base i)" unfolding local_get_def
    by (rule inframe_bindc [OF inframe_basic(5)], rule whole_binds(4)) (simp add: inframe_push)
  have idx: "inframe base (bindc (lift_res (local_index base i)) (\<lambda>l. set_cell l c t))" if "length c = SLOT_BYTES" for c t
  proof (cases "local_index base i")
    case (Inr l)
    then have "base \<le> l" by (auto simp: local_index_def)
    moreover have "bindc (lift_res (Inr l)) (\<lambda>l. set_cell l c t) = (set_cell l c t :: (machine, unit) action)" by (rule ext) simp
    ultimately show ?thesis using Inr that inframe_set_cell [of base l c t] by simp
  qed (auto intro!: inframeI)
  then show "inframe base (local_set base i)" "inframe base (local_tee base i)"
    unfolding local_set_def local_tee_def by (intro whole_binds; simp)+
qed

lemma inframe_control [frame_intros]:
  "inframe lb (do_call_indirect inst ty tb kind)" "inframe lb (do_call_ref inst kind)" "inframe lb (throw_exn inst tg ip)"
  "inframe lb throw_ref" "inframe lb (call_func inst f kind)" "inframe lb (br_on_cast c inst h p fl)"
  "inframe lb (reserve_for inst op ip)" "inframe lb (goto_target t)"
  unfolding do_call_indirect_def do_call_ref_def throw_exn_def throw_ref_def call_func_def br_on_cast_def reserve_for_def goto_target_def
  by (auto simp: Let_def split: val.split option.split intro!: frame_intros)

lemma inframe_step: "inframe base (step c op nx base inst)"
  by (cases op)
    (auto simp: step_def straight_def global_get_def global_set_def br_table_def br_on_null_def
      br_on_non_null_def memory_grow_op_def table_grow_op_def
      intro!: whole_binds frame_intros inframe_push)

section \<open>What lies under the boundary\<close>

text \<open>The parked part of an execution: its values, shadow and frames with the boundary on top, and the re-entry depth.\<close>

record ground =
  gr_values :: "cell list"
  gr_shadow :: "ref_tag list"
  gr_frames :: "frame list"
  gr_depth :: nat

definition ground_ok :: "ground \<Rightarrow> bool" where
  "ground_ok g \<longleftrightarrow> length (gr_shadow g) = length (gr_values g) \<and> gr_frames g \<noteq> [] \<and> fr_delimiter (last (gr_frames g)) \<noteq> None \<and>
     fr_locals_base (last (gr_frames g)) = length (gr_values g) \<and> fr_operand_base (last (gr_frames g)) = length (gr_values g)"

definition held :: "ground \<Rightarrow> 'a execution_scheme \<Rightarrow> bool" where
  "held g e \<longleftrightarrow> stack_ok e \<and> take (length (gr_values g)) (ex_values e) = gr_values g \<and>
     take (length (gr_shadow g)) (ex_shadow e) = gr_shadow g \<and> take (length (gr_frames g)) (ex_frames e) = gr_frames g \<and>
     (\<forall>f \<in> set (drop (length (gr_frames g)) (ex_frames e)). fr_delimiter f = None) \<and> ex_host_reentry_depth e = gr_depth g"

definition live :: "frame list \<Rightarrow> bool" where
  "live fs \<longleftrightarrow> fs \<noteq> [] \<and> fr_delimiter (last fs) = None"

lemma chain_ok_above:
  "chain_ok (rev (fs @ gs)) n \<Longrightarrow> fs \<noteq> [] \<Longrightarrow> gs \<noteq> [] \<Longrightarrow> fr_operand_base (last fs) \<le> fr_locals_base (last gs)"
proof (induction gs arbitrary: n rule: rev_induct)
  case (snoc f gs)
  show ?case
  proof (cases "gs = []")
    case True
    with snoc.prems show ?thesis by (auto simp: chain_ok_last)
  next
    case False
    from snoc.prems have c: "chain_ok (rev (fs @ gs)) (fr_locals_base f)" by simp
    with False have "fr_locals_base (last gs) \<le> fr_locals_base f"
      using chain_ok_last [of "fs @ gs" "fr_locals_base f"] by auto
    with snoc.IH [OF c snoc.prems(2) False] show ?thesis by simp
  qed
qed simp

lemma held_split: "held g e \<Longrightarrow> \<exists>fs. ex_frames e = gr_frames g @ fs"
  unfolding held_def by (metis append_take_drop_id)

lemma held_base:
  assumes "ground_ok g" and "held g e"
  shows "ex_frames e \<noteq> []" and "length (gr_values g) \<le> fr_locals_base (last (ex_frames e))"
proof -
  from held_split [OF assms(2)] obtain fs where fs: "ex_frames e = gr_frames g @ fs" by blast
  with assms(1) show "ex_frames e \<noteq> []" by (simp add: ground_ok_def)
  show "length (gr_values g) \<le> fr_locals_base (last (ex_frames e))"
    using assms fs chain_ok_above [of "gr_frames g" fs] by (cases "fs = []") (auto simp: ground_ok_def held_def stack_ok_def)
qed

lemma held_live:
  assumes "ground_ok g" and "held g e" and "live (ex_frames e)"
  shows "\<exists>fs f. ex_frames e = gr_frames g @ fs @ [f]"
proof -
  from held_split [OF assms(2)] obtain fs where fs: "ex_frames e = gr_frames g @ fs" by blast
  with assms(1,3) have "fs \<noteq> []" by (auto simp: ground_ok_def live_def)
  with fs show ?thesis by (metis append_butlast_last_id)
qed

lemma held_run:
  assumes "held g e" and "length (gr_frames g) < length (ex_frames e)"
  shows "live (ex_frames e)"
proof -
  from held_split [OF assms(1)] obtain fs where fs: "ex_frames e = gr_frames g @ fs" by blast
  with assms(2) have "fs \<noteq> []" by auto
  with fs assms(1) show ?thesis by (auto simp: live_def held_def)
qed

lemma take_less: "take n xs = take n ys \<Longrightarrow> k \<le> n \<Longrightarrow> take k xs = take k ys"
  by (metis min.absorb1 take_take)

lemma held_inframe:
  assumes g: "ground_ok g" and h: "held g m" and a: "inframe (fr_locals_base (last (ex_frames m))) a" and run: "a m = (r, m')" and np: "\<not> is_panic r"
  shows "held g m' \<and> ex_frames m' = ex_frames m"
proof -
  let ?lb = "fr_locals_base (last (ex_frames m))"
  note b = held_base [OF g h]
  have ok: "stack_ok m" using h by (simp add: held_def)
  have s: "stack_ok m'" "same_below ?lb m m'" using inframeD [OF a ok b(1) refl run np] by auto
  have "take (length (gr_values g)) (ex_values m') = take (length (gr_values g)) (ex_values m)"
    "take (length (gr_shadow g)) (ex_shadow m') = take (length (gr_shadow g)) (ex_shadow m)"
    using s(2) b(2) g by (auto simp: same_below_def ground_ok_def intro: take_less)
  then show ?thesis using s h by (simp add: held_def same_below_def)
qed

section \<open>Frames come and go above the boundary\<close>

lemma held_fields:
  "held g (machine_of e s) = held g e" "held g (exec_of m) = held g m" "ex_frames (machine_of e s) = ex_frames e" "ex_frames (exec_of m) = ex_frames m"
  by (simp_all add: held_def stack_ok_def machine_of_def exec_of_def execution.truncate_def)

lemma stack_ok_frames: "stack_ok (m\<lparr>ex_frames := fs\<rparr>) \<longleftrightarrow> length (ex_values m) = length (ex_shadow m) \<and>
     (\<forall>c \<in> set (ex_values m). length c = SLOT_BYTES) \<and> chain_ok (rev fs) (length (ex_values m))"
  by (simp add: stack_ok_def)

lemma held_set_top_ip:
  assumes "ground_ok g" and "held g m" and "live (ex_frames m)" and "set_top_ip what ip m = (r, m')"
  shows "r = Inr () \<and> held g m' \<and> live (ex_frames m')"
proof -
  from held_live [OF assms(1-3)] obtain fs f where f: "ex_frames m = gr_frames g @ fs @ [f]" by blast
  then have m': "r = Inr ()" "m' = m\<lparr>ex_frames := gr_frames g @ fs @ [f\<lparr>fr_ip := ip\<rparr>]\<rparr>"
    using assms(4) by (auto simp: set_top_ip_def butlast_append)
  show ?thesis using assms(2,3) f unfolding m' by (auto simp: held_def live_def stack_ok_def)
qed

lemma held_push_call:
  assumes "held g m" and run: "push_call inst fi c m = (r, m')"
  shows "held g m' \<and> (r = Inr () \<longrightarrow> live (ex_frames m'))"
proof (cases r)
  case (Inl e)
  with run push_call_Inl show ?thesis using assms(1) by fastforce
next
  case (Inr u)
  with run have run': "push_call inst fi c m = (Inr (), m')" by simp
  then have m': "m' = m\<lparr>ex_shadow := ex_shadow m @ map default_tag (local_types_of c (code_func c)),
       ex_values := ex_values m @ map default_cell (local_types_of c (code_func c)),
       ex_frames := ex_frames m @ [call_frame inst fi c (length (ex_values m))]\<rparr>" by (simp add: push_call_Inr)
  have "length (gr_values g) \<le> length (ex_values m)" "length (gr_shadow g) \<le> length (ex_shadow m)" "length (gr_frames g) \<le> length (ex_frames m)"
    using assms(1) unfolding held_def by (metis length_take min.bounded_iff order_refl)+
  then show ?thesis using stack_ok_push_call [OF _ run'] assms(1) by (simp add: held_def live_def m' call_frame_def)
qed

lemma held_do_return:
  assumes g: "ground_ok g" and h: "held g m" and run: "do_return n (length (gr_frames g)) tail m = (r, m')"
  shows "held g m'"
proof (cases r)
  case (Inl e)
  with run transactional_do_return have "m' = m" unfolding transactional_def by blast
  with h show ?thesis by simp
next
  case (Inr b)
  from run Inr obtain f where f: "return_check n (length (gr_frames g)) tail m = Inr f"
    "m' = slide (fr_locals_base f) n (m\<lparr>ex_frames := butlast (ex_frames m)\<rparr>)" by (auto simp: do_return_Inr)
  then have d: "f = last (ex_frames m)" "length (gr_frames g) < length (ex_frames m)" "fr_locals_base f + n \<le> length (ex_values m)"
    "length (ex_shadow m) = length (ex_values m)"
    by (auto simp: return_check_Inr)
  have lb: "length (gr_values g) \<le> fr_locals_base f" using held_base(2) [OF g h] d(1) by simp
  have fr: "take (length (gr_frames g)) (butlast (ex_frames m)) = gr_frames g"
    using h d(2) by (simp add: held_def take_butlast)
  have "stack_ok m'" using stack_ok_do_return [OF _ run [unfolded Inr]] h by (simp add: held_def)
  moreover have "\<forall>f \<in> set (drop (length (gr_frames g)) (butlast (ex_frames m))). fr_delimiter f = None"
    using h by (simp add: held_def drop_butlast) (meson in_set_butlastD)
  ultimately show ?thesis using h d lb fr g by (auto simp: held_def f(2) slide_eq ground_ok_def min_def)
qed

section \<open>A logic of the parked part\<close>

text \<open>\<open>tri g P a Q\<close>: from a machine over the ground \<open>g\<close> whose frames satisfy \<open>P\<close>, the action ends over the ground, whatever its
  result but a panic, and its value and frames satisfy \<open>Q\<close>. \<open>wtri\<close> is the same for the driver's actions.\<close>

named_theorems tri_intros \<open>actions over a parked part\<close>

definition tri :: "ground \<Rightarrow> (frame list \<Rightarrow> bool) \<Rightarrow> (machine, 'a) action \<Rightarrow> ('a \<Rightarrow> frame list \<Rightarrow> bool) \<Rightarrow> bool" where
  "tri g P a Q \<longleftrightarrow> (\<forall>m r m'. held g m \<longrightarrow> P (ex_frames m) \<longrightarrow> a m = (r, m') \<longrightarrow> \<not> is_panic r \<longrightarrow>
     held g m' \<and> (\<forall>x. r = Inr x \<longrightarrow> Q x (ex_frames m')))"

definition wtri :: "ground \<Rightarrow> (frame list \<Rightarrow> bool) \<Rightarrow> ('d world, 'a) action \<Rightarrow> ('a \<Rightarrow> frame list \<Rightarrow> bool) \<Rightarrow> bool" where
  "wtri g P a Q \<longleftrightarrow> (\<forall>w r w'. held g (wo_exec w) \<longrightarrow> P (ex_frames (wo_exec w)) \<longrightarrow> a w = (r, w') \<longrightarrow> \<not> is_panic r \<longrightarrow>
     held g (wo_exec w') \<and> (\<forall>x. r = Inr x \<longrightarrow> Q x (ex_frames (wo_exec w'))))"

lemma triD: "tri g P a Q \<Longrightarrow> held g m \<Longrightarrow> P (ex_frames m) \<Longrightarrow> a m = (r, m') \<Longrightarrow> \<not> is_panic r \<Longrightarrow>
    held g m' \<and> (\<forall>x. r = Inr x \<longrightarrow> Q x (ex_frames m'))"
  unfolding tri_def by blast

lemma wtriD: "wtri g P a Q \<Longrightarrow> held g (wo_exec w) \<Longrightarrow> P (ex_frames (wo_exec w)) \<Longrightarrow> a w = (r, w') \<Longrightarrow> \<not> is_panic r \<Longrightarrow>
    held g (wo_exec w') \<and> (\<forall>x. r = Inr x \<longrightarrow> Q x (ex_frames (wo_exec w')))"
  unfolding wtri_def by blast

lemma wtri_machine: "tri g P a Q \<Longrightarrow> wtri g P (on_machine a) Q"
  unfolding wtri_def
proof (intro allI impI)
  fix w :: "'d world" and r w'
  assume a: "tri g P a Q" and h: "held g (wo_exec w)" "P (ex_frames (wo_exec w))" and run: "on_machine a w = (r, w')" and np: "\<not> is_panic r"
  obtain m' where m': "a (world_machine w) = (r, m')" "w' = put_machine m' w" using run by (auto simp: on_machine_def split: prod.splits)
  from triD [OF a _ _ m'(1) np] h have "held g m' \<and> (\<forall>x. r = Inr x \<longrightarrow> Q x (ex_frames m'))"
    by (simp add: world_machine_def held_fields)
  then show "held g (wo_exec w') \<and> (\<forall>x. r = Inr x \<longrightarrow> Q x (ex_frames (wo_exec w')))" by (simp add: m'(2) put_machine_def held_fields)
qed

lemma tri_bind:
  assumes a: "tri g P a Q" and f: "\<And>x. tri g (Q x) (f x) R"
  shows "tri g P (bindc a f) R"
  unfolding tri_def
proof (intro allI impI)
  fix m r m'
  assume m: "held g m" "P (ex_frames m)" and run: "bindc a f m = (r, m')" and np: "\<not> is_panic r"
  obtain q m1 where q: "a m = (q, m1)" by fastforce
  have np': "\<not> is_panic q" using run q np by (cases q) (auto simp: is_panic_def bindc_def)
  note one = triD [OF a m q np']
  show "held g m' \<and> (\<forall>x. r = Inr x \<longrightarrow> R x (ex_frames m'))"
    using run q one triD [OF f _ _ _ np] by (cases q) (auto simp: bindc_def)
qed

lemma wtri_bind:
  assumes a: "wtri g P a Q" and f: "\<And>x. wtri g (Q x) (f x) R"
  shows "wtri g P (bindc a f) R"
  unfolding wtri_def
proof (intro allI impI)
  fix w :: "'a world" and r w'
  assume m: "held g (wo_exec w)" "P (ex_frames (wo_exec w))" and run: "bindc a f w = (r, w')" and np: "\<not> is_panic r"
  obtain q w1 where q: "a w = (q, w1)" by fastforce
  have np': "\<not> is_panic q" using run q np by (cases q) (auto simp: is_panic_def bindc_def)
  note one = wtriD [OF a m q np']
  show "held g (wo_exec w') \<and> (\<forall>x. r = Inr x \<longrightarrow> R x (ex_frames (wo_exec w')))"
    using run q one wtriD [OF f _ _ _ np] by (cases q) (auto simp: bindc_def)
qed

lemma tri_weaken: "tri g P a Q \<Longrightarrow> (\<And>fs. P' fs \<Longrightarrow> P fs) \<Longrightarrow> (\<And>x fs. Q x fs \<Longrightarrow> Q' x fs) \<Longrightarrow> tri g P' a Q'"
  unfolding tri_def by blast

lemma wtri_weaken: "wtri g P a Q \<Longrightarrow> (\<And>fs. P' fs \<Longrightarrow> P fs) \<Longrightarrow> (\<And>x fs. Q x fs \<Longrightarrow> Q' x fs) \<Longrightarrow> wtri g P' a Q'"
  unfolding wtri_def by blast

lemma tri_inframe: "ground_ok g \<Longrightarrow> (\<And>lb. inframe lb a) \<Longrightarrow> tri g P a (\<lambda>_. P)"
  unfolding tri_def using held_inframe by metis

lemma tri_basic: "tri g P (ret x) (\<lambda>y fs. y = x \<and> P fs)" "tri g P (fail e) Q"
  by (simp_all add: tri_def)

lemma wtri_basic: "wtri g P (ret x) (\<lambda>y fs. y = x \<and> P fs)" "wtri g P (fail e) Q"
  by (simp_all add: wtri_def)

lemma tri_frames:
  assumes "ground_ok g"
  shows "tri g live (set_top_ip what ip) (\<lambda>_. live)" "tri g P (push_call inst fi c) (\<lambda>_. live)"
    "tri g P (do_return n (length (gr_frames g)) tail) (\<lambda>_ _. True)"
    "tri g P (ask top_frame) (\<lambda>f fs. live fs \<and> f = last fs \<and> P fs)"
proof -
  show "tri g live (set_top_ip what ip) (\<lambda>_. live)" unfolding tri_def using held_set_top_ip [OF assms] by blast
  show "tri g P (push_call inst fi c) (\<lambda>_. live)" unfolding tri_def using held_push_call by (metis (full_types) old.unit.exhaust)
  show "tri g P (do_return n (length (gr_frames g)) tail) (\<lambda>_ _. True)" unfolding tri_def using held_do_return [OF assms] by blast
  show "tri g P (ask top_frame) (\<lambda>f fs. live fs \<and> f = last fs \<and> P fs)"
    by (auto simp: tri_def top_frame_def last_frame_Inr live_def split: if_splits)
qed

section \<open>Unwinding\<close>

lemma inframe_push_vals [frame_intros]: "inframe lb (push_vals vs)"
  by (induction vs) (auto simp del: ret_apply simp: inframe_basic(1) intro!: frame_intros)

lemma held_truncate:
  fixes m :: machine
  assumes g: "ground_ok g" and h: "held g m" and b: "fr_operand_base (last (ex_frames m)) \<le> b" "b \<le> length (ex_values m)"
  shows "held g (truncate_to b m) \<and> ex_frames (truncate_to b m) = ex_frames m"
proof -
  note base = held_base [OF g h]
  have "stack_ok m" using h by (simp add: held_def)
  from same_below_truncate [OF this base(1) b]
  have "stack_ok (truncate_to b m)" "same_below (fr_locals_base (last (ex_frames m))) m (truncate_to b m)" by auto
  moreover from this(2) base(2) g
  have "take (length (gr_values g)) (ex_values (truncate_to b m)) = take (length (gr_values g)) (ex_values m)"
    "take (length (gr_shadow g)) (ex_shadow (truncate_to b m)) = take (length (gr_shadow g)) (ex_shadow m)"
    by (auto simp: same_below_def ground_ok_def intro: take_less)
  ultimately show ?thesis using h by (simp add: held_def same_below_def)
qed

lemma tri_enter_handler:
  assumes g: "ground_ok g"
  shows "tri g (\<lambda>fs. live fs \<and> fl = fr_operand_base (last fs)) (enter_exception_handler exn c fl) (\<lambda>_. live)"
proof -
  define rest where "rest = bindc (if hr_payload_args c then bindc (inner_of (exn_at (rooted_from_raw exn RkExn))) (\<lambda>e. push_vals (ee_args e)) else ret ()) (\<lambda>_.
     bindc (if hr_payload_ref c then push_val (ExnRef (Some (rooted_from_raw exn RkExn))) else ret ()) (\<lambda>_.
     set_top_ip ''missing handler frame'' (hr_landing_ip c)))"
  have rest: "tri g live rest (\<lambda>_. live)"
    unfolding rest_def by (rule tri_bind, rule tri_inframe [OF g], intro frame_intros, rule tri_bind, rule tri_inframe [OF g], intro frame_intros, rule tri_frames(1) [OF g])
  show ?thesis unfolding tri_def
  proof (intro allI impI)
    fix m r m'
    assume h: "held g m" and l: "live (ex_frames m) \<and> fl = fr_operand_base (last (ex_frames m))"
      and run: "enter_exception_handler exn c fl m = (r, m')" and np: "\<not> is_panic r"
    let ?n = "fl + hr_restore_height c"
    have eq: "enter_exception_handler exn c fl m = (if u32_max < ?n then (Inl (operand_err ''exception restore height overflow''), m)
        else if length (ex_values m) \<noteq> length (ex_shadow m) \<or> length (ex_values m) < ?n
        then (Inl (operand_err ''exception restore height exceeds operand stack''), m) else rest (truncate_to ?n m))"
      unfolding enter_exception_handler_def rest_def [symmetric] by (simp add: lift_opt_def checked_add_def)
    show "held g m' \<and> (\<forall>x. r = Inr x \<longrightarrow> live (ex_frames m'))"
    proof (cases "u32_max < ?n \<or> length (ex_values m) \<noteq> length (ex_shadow m) \<or> length (ex_values m) < ?n")
      case True
      with run eq h show ?thesis by (auto split: if_splits)
    next
      case False
      with run eq have run': "rest (truncate_to ?n m) = (r, m')" by simp
      have "held g (truncate_to ?n m)" "live (ex_frames (truncate_to ?n m))" using held_truncate [OF g h, of ?n] l False by simp_all
      from triD [OF rest this run' np] show ?thesis .
    qed
  qed
qed

lemma tri_pop_unwound:
  assumes g: "ground_ok g"
  shows "tri g (\<lambda>fs. live fs \<and> b = fr_locals_base (last fs)) (pop_unwound_frame b) (\<lambda>_ _. True)"
  unfolding tri_def
proof (intro allI impI)
  fix m r m'
  assume h: "held g m" and l: "live (ex_frames m) \<and> b = fr_locals_base (last (ex_frames m))" and run: "pop_unwound_frame b m = (r, m')"
  show "held g m' \<and> (\<forall>x. r = Inr x \<longrightarrow> True)"
  proof (cases r)
    case (Inl e)
    with run h show ?thesis by (auto simp: pop_unwound_frame_def bindc_def split: if_splits)
  next
    case (Inr x)
    then have m': "m' = truncate_to b (m\<lparr>ex_frames := butlast (ex_frames m)\<rparr>)" "b \<le> length (ex_values m)"
      using run by (auto simp: pop_unwound_frame_def bindc_def split: if_splits)
    from held_live [OF g h] l obtain fs f where f: "ex_frames m = gr_frames g @ fs @ [f]" by blast
    have lb: "length (gr_values g) \<le> b" using held_base(2) [OF g h] l by simp
    have "chain_ok (rev (gr_frames g @ fs)) b" using h f l by (simp add: held_def stack_ok_def)
    then show ?thesis using h f lb g m'
      by (auto simp: held_def stack_ok_def truncate_to_def butlast_append ground_ok_def min_def dest: in_set_takeD)
  qed
qed

lemma tri_getc: "tri g P (getc f) (\<lambda>_. P)"
  by (simp add: tri_def)

lemma tri_if: "(p \<Longrightarrow> tri g P a Q) \<Longrightarrow> (\<not> p \<Longrightarrow> tri g P b Q) \<Longrightarrow> tri g P (if p then a else b) Q"
  by simp

lemma tri_top:
  assumes "ground_ok g" and that: "\<And>f. tri g (\<lambda>fs. live fs \<and> f = last fs) (k f) Q"
  shows "tri g (\<lambda>_. True) (bindc (getc (\<lambda>m. length (ex_frames m) \<le> length (gr_frames g))) (\<lambda>out.
      if out then fail e else bindc (ask (last_frame what)) k)) Q"
  unfolding tri_def
proof (intro allI impI)
  fix m r m'
  assume h: "held g m" and np: "\<not> is_panic r"
    and run: "bindc (getc (\<lambda>m. length (ex_frames m) \<le> length (gr_frames g))) (\<lambda>out. if out then fail e else bindc (ask (last_frame what)) k) m = (r, m')"
  show "held g m' \<and> (\<forall>x. r = Inr x \<longrightarrow> Q x (ex_frames m'))"
  proof (cases "length (ex_frames m) \<le> length (gr_frames g)")
    case True
    with run h show ?thesis by auto
  next
    case False
    then have l: "live (ex_frames m)" using held_run [OF h] by simp
    with run False have "k (last (ex_frames m)) m = (r, m')" by (simp add: last_frame_def live_def)
    from triD [OF that h _ this np] l show ?thesis by simp
  qed
qed

lemma tri_unwind_loop:
  assumes g: "ground_ok g"
  shows "tri g (\<lambda>_. True) (unwind_loop n exn thrown ip (length (gr_frames g))) (\<lambda>_. live)"
proof (induction n arbitrary: ip)
  case 0
  show ?case by (simp only: unwind_loop.simps tri_basic)
next
  case (Suc n)
  have next_round: "tri g (\<lambda>_. True)
     (bindc (getc (\<lambda>m. length (ex_frames m) = length (gr_frames g))) (\<lambda>out.
       if out then fail (Pending exn) else
       bindc (ask (last_frame ''missing caller frame during unwind'')) (\<lambda>f.
       bindc (lift_opt (frame_err ''caller return address underflow'') (checked_sub (fr_ip f) 1)) (\<lambda>ip.
       unwind_loop n exn thrown ip (length (gr_frames g)))))) (\<lambda>_. live)"
    by (rule tri_bind [OF tri_getc], rule tri_if, rule tri_basic, rule tri_bind, rule tri_inframe [OF g], rule inframe_basic,
        rule tri_bind, rule tri_inframe [OF g], rule inframe_lift_opt, rule Suc)
  show ?case unfolding unwind_loop.simps
  proof (rule tri_top [OF g])
    fix f
    show "tri g (\<lambda>fs. live fs \<and> f = last fs) (bindc (inner_of (find_clause (fr_code f) ip (fr_instance f) thrown)) (\<lambda>c. case c of
        None \<Rightarrow> bindc (pop_unwound_frame (fr_locals_base f)) (\<lambda>_.
          bindc (getc (\<lambda>m. length (ex_frames m) = length (gr_frames g))) (\<lambda>out.
          if out then fail (Pending exn) else
          bindc (ask (last_frame ''missing caller frame during unwind'')) (\<lambda>f.
          bindc (lift_opt (frame_err ''caller return address underflow'') (checked_sub (fr_ip f) 1)) (\<lambda>ip.
          unwind_loop n exn thrown ip (length (gr_frames g))))))
      | Some h \<Rightarrow> enter_exception_handler exn h (fr_operand_base f))) (\<lambda>_. live)"
    proof (rule tri_bind [OF tri_inframe [OF g inframe_basic(6)]])
      fix c
      show "tri g (\<lambda>fs. live fs \<and> f = last fs) (case c of
        None \<Rightarrow> bindc (pop_unwound_frame (fr_locals_base f)) (\<lambda>_.
          bindc (getc (\<lambda>m. length (ex_frames m) = length (gr_frames g))) (\<lambda>out.
          if out then fail (Pending exn) else
          bindc (ask (last_frame ''missing caller frame during unwind'')) (\<lambda>f.
          bindc (lift_opt (frame_err ''caller return address underflow'') (checked_sub (fr_ip f) 1)) (\<lambda>ip.
          unwind_loop n exn thrown ip (length (gr_frames g))))))
        | Some h \<Rightarrow> enter_exception_handler exn h (fr_operand_base f)) (\<lambda>_. live)"
      proof (cases c)
        case None
        show ?thesis unfolding None option.case
          by (rule tri_bind [OF tri_weaken [OF tri_pop_unwound [OF g, of "fr_locals_base f"]] next_round]) auto
      next
        case (Some h)
        show ?thesis unfolding Some option.case
          by (rule tri_weaken [OF tri_enter_handler [OF g, of "fr_operand_base f"]]) auto
      qed
    qed
  qed
qed

lemma tri_unwind:
  assumes g: "ground_ok g"
  shows "tri g (\<lambda>_. True) (unwind e ip (length (gr_frames g))) (\<lambda>_. live)"
proof (cases e)
  case (Pending exn)
  show ?thesis unfolding Pending unwind_def error.case
    by (rule tri_bind [OF tri_inframe [OF g inframe_basic(6)]], rule tri_bind [OF tri_getc], rule tri_unwind_loop [OF g])
qed (simp_all add: unwind_def tri_basic)

lemma tri_raise:
  assumes g: "ground_ok g"
  shows "tri g (\<lambda>_. True) (raise_host_exception x (length (gr_frames g))) (\<lambda>_. live)"
  unfolding raise_host_exception_def
  by (rule tri_top [OF g], rule tri_bind [OF tri_inframe [OF g inframe_lift_opt]], rule tri_bind [OF tri_inframe [OF g inframe_basic(6)]],
      rule tri_weaken [OF tri_unwind [OF g]]) simp_all

section \<open>Host calls\<close>

text \<open>An embedder whose callbacks leave a parked execution as they found it (unless they panic, which discards the call).\<close>

definition respectful :: "'d embedder \<Rightarrow> bool" where
  "respectful em \<longleftrightarrow> (\<forall>i f inst ps rs s r s'. em_call em i = Some f \<longrightarrow> f inst ps rs s = (r, s') \<longrightarrow> \<not> is_panic r \<longrightarrow>
       si_exec_slot (st_inner s') = si_exec_slot (st_inner s)) \<and>
     (\<forall>f s r s'. em_epoch em = Some f \<longrightarrow> f s = (r, s') \<longrightarrow> \<not> is_panic r \<longrightarrow> si_exec_slot (st_inner s') = si_exec_slot (st_inner s))"

definition keeps_slot :: "('d store, 'a) action \<Rightarrow> bool" where
  "keeps_slot f \<longleftrightarrow> (\<forall>s r s'. f s = (r, s') \<longrightarrow> \<not> is_panic r \<longrightarrow> si_exec_slot (st_inner s') = si_exec_slot (st_inner s))"

lemma guarded_exec:
  assumes "keeps_slot f" and "guarded sc f w = (r, w')" and "\<not> is_panic r"
  shows "wo_exec w' = wo_exec w"
proof -
  let ?s = "(wo_store w)\<lparr>st_inner := (st_inner (wo_store w))\<lparr>si_exec_slot := wo_exec w\<rparr>\<rparr>"
  obtain q s' where q: "f ?s = (q, s')" by fastforce
  show ?thesis
  proof (cases "is_panic q")
    case True
    then obtain p where "q = Inl (Panic p)" by (auto simp: is_panic_def split: sum.splits error.splits)
    with assms(2,3) q show ?thesis by (auto simp: guarded_def swap_exec_def inner_upd_def on_store_def upd_store_def is_panic_def)
  next
    case False
    then have k: "si_exec_slot (st_inner s') = wo_exec w" using assms(1) q by (fastforce simp: keeps_slot_def)
    have "wo_exec (snd (guarded sc f w)) = si_exec_slot (st_inner s')"
      using q False by (auto simp: guarded_def swap_exec_def is_panic_def split: sum.splits error.splits)
    with assms(2) k show ?thesis by simp
  qed
qed

definition still :: "('d world, 'a) action \<Rightarrow> bool" where
  "still a \<longleftrightarrow> (\<forall>w r w'. a w = (r, w') \<longrightarrow> \<not> is_panic r \<longrightarrow> wo_exec w' = wo_exec w)"

lemma wtri_still: "still a \<Longrightarrow> wtri g P a (\<lambda>_. P)"
  unfolding still_def wtri_def by metis

lemma still_bindc:
  assumes "still a" and "\<And>x. still (f x)"
  shows "still (bindc a f)"
  unfolding still_def
proof (intro allI impI)
  fix w r w'
  assume run: "bindc a f w = (r, w')" and np: "\<not> is_panic r"
  obtain q w1 where q: "a w = (q, w1)" by fastforce
  have "\<not> is_panic q" using run q np by (cases q) (auto simp: is_panic_def bindc_def)
  with assms(1) q have "wo_exec w1 = wo_exec w" by (auto simp: still_def)
  moreover have "w' = w1 \<or> wo_exec w' = wo_exec w1" using run q np assms(2) by (cases q) (auto simp: bindc_def still_def)
  ultimately show "wo_exec w' = wo_exec w" by auto
qed

lemma still_basic:
  "still (ret x)" "still (fail e)" "still (inner_get q)" "still (inner_upd f)" "still (lift_res r)" "still (lift_opt e z)"
  "still (on_machine (on_inner h))" "still (on_machine (inner_of h'))"
  by (auto simp: still_def inner_get_def inner_upd_def on_store_def lift_opt_def on_machine_def on_inner_def inner_of_def world_machine_def
      put_machine_def machine_of_def exec_of_def execution.truncate_def split: prod.splits option.splits)

lemmas still_intros = still_bindc still_basic

lemma still_guarded: "keeps_slot f \<Longrightarrow> still (guarded sc f)"
  unfolding still_def using guarded_exec by blast

lemma still_scope: "still open_scope" "still latched_error" "still take_pending" "still (discard_host_call st)" "still (restore_pending st)"
  unfolding open_scope_def latched_error_def take_pending_def discard_host_call_def restore_pending_def by (intro still_intros)+

lemma still_parked: "keeps_slot f \<Longrightarrow> still (with_parked_host_operation f)"
  unfolding with_parked_host_operation_def by (intro still_intros still_scope still_guarded)

lemma inframe_push_results: "inframe lb (push_results vs)"
proof (induction vs)
  case (Cons v vs)
  have "(push_results (v # vs) :: (machine, unit) action) = bindc (push_val v) (\<lambda>_. push_results vs)"
    by (rule ext) (simp add: push_val_def encode_val_eq bindc_def split: sum.split)
  with Cons show ?case by (auto intro: frame_intros)
qed (simp add: inframe_def)

lemma wtri_finish_host_call:
  assumes g: "ground_ok g"
  shows "wtri g (\<lambda>_. True) (finish_host_call st r (length (gr_frames g))) (\<lambda>_ _. True)"
proof -
  have st: "wtri g (\<lambda>_. True) a (\<lambda>_ _. True)" if "still a" for a :: "('d world, 'b) action"
    using wtri_still [OF that] .
  show ?thesis
  proof (cases r)
    case (Inl e)
    have "wtri g (\<lambda>_. True) (bindc take_pending (\<lambda>exn. case exn of
           None \<Rightarrow> bindc (restore_pending st) (\<lambda>_. bindc (discard_host_call st) (\<lambda>_. fail (Internal (ResultShape ''host throw marker had no pending exception''))))
         | Some x \<Rightarrow> bindc (discard_host_call st) (\<lambda>_. bindc (restore_pending st) (\<lambda>_. on_machine (raise_host_exception x (length (gr_frames g))))))) (\<lambda>_ _. True)"
    proof (rule wtri_bind [OF st [OF still_scope(3)]])
      fix exn
      show "wtri g (\<lambda>_. True) (case exn of
           None \<Rightarrow> bindc (restore_pending st) (\<lambda>_. bindc (discard_host_call st) (\<lambda>_. fail (Internal (ResultShape ''host throw marker had no pending exception''))))
         | Some x \<Rightarrow> bindc (discard_host_call st) (\<lambda>_. bindc (restore_pending st) (\<lambda>_. on_machine (raise_host_exception x (length (gr_frames g)))))) (\<lambda>_ _. True)"
      proof (cases exn)
        case None
        show ?thesis unfolding None option.case by (intro st still_intros still_scope)
      next
        case (Some x)
        show ?thesis unfolding Some option.case
          by (rule wtri_bind [OF st [OF still_scope(4)]], rule wtri_bind [OF st [OF still_scope(5)]],
              rule wtri_weaken [OF wtri_machine [OF tri_raise [OF g]]]) simp_all
      qed
    qed
    then show ?thesis unfolding Inl finish_host_call_def sum.case
      by (intro wtri_bind [OF st [OF still_basic(3)]]) (auto intro: st still_bindc still_basic still_scope)
  next
    case (Inr results)
    show ?thesis unfolding Inr finish_host_call_def sum.case
    proof (rule wtri_bind [OF st [OF still_basic(3)]])
      fix ok
      have "wtri g (\<lambda>_. True) (bindc (on_machine (push_results results)) (\<lambda>_. discard_host_call st)) (\<lambda>_ _. True)"
        by (rule wtri_bind [OF wtri_machine [OF tri_inframe [OF g inframe_push_results]]], rule st, rule still_scope)
      moreover have "wtri g (\<lambda>_. True) (bindc (restore_pending st) (\<lambda>_. bindc (discard_host_call st) (\<lambda>_. fail e))) (\<lambda>_ _. True)" for e
        by (intro st still_intros still_scope)
      ultimately show "wtri g (\<lambda>_. True) (case ok of Inl (Panic p) \<Rightarrow> fail (Panic p)
          | Inl e \<Rightarrow> bindc (restore_pending st) (\<lambda>_. bindc (discard_host_call st) (\<lambda>_. fail e))
          | Inr _ \<Rightarrow> bindc (on_machine (push_results results)) (\<lambda>_. discard_host_call st)) (\<lambda>_ _. True)"
        by (auto simp: wtri_basic split: sum.split error.split)
    qed
  qed
qed

lemma wtri_prep_host:
  assumes g: "ground_ok g"
  shows "wtri g P (prep_host f) (\<lambda>_. P)"
  unfolding prep_host_def
proof (rule wtri_bind [OF wtri_still [OF still_basic(8)]])
  fix fe
  show "wtri g P (case fe of FuncWasm x y \<Rightarrow> fail (Panic ''HostCall only suspends on sync host funcs'')
      | FuncHost z hsig host_index \<Rightarrow> prepare_host_call host_index hsig) (\<lambda>_. P)"
  proof (cases fe)
    case (FuncHost z hsig hi)
    have "wtri g P (prepare_host_call hi hsig) (\<lambda>_. P)"
      unfolding prepare_host_call_def
      by (rule wtri_bind [OF wtri_machine [OF tri_inframe [OF g inframe_cells(7)]]], rule wtri_still, intro still_intros still_scope)
    then show ?thesis by (simp add: FuncHost)
  qed (simp add: wtri_basic)
qed

lemma wtri_bind_opt: "(\<And>x. z = Some x \<Longrightarrow> wtri g P (f x) Q) \<Longrightarrow> wtri g P (bindc (lift_opt e z) f) Q"
proof (cases z)
  case (Some x)
  assume "\<And>x. z = Some x \<Longrightarrow> wtri g P (f x) Q"
  moreover have "bindc (lift_opt e (Some x)) f = f x" by (rule ext) simp
  ultimately show ?thesis using Some by simp
qed (simp add: wtri_def)

lemma wtri_invoke_host:
  assumes g: "ground_ok g" and em: "respectful em"
  shows "wtri g P (invoke_host em f inst (length (gr_frames g))) (\<lambda>_ _. True)"
  unfolding invoke_host_def
proof (rule wtri_bind [OF wtri_prep_host [OF g]], rule wtri_bind_opt)
  fix st :: host_call_state and cb
  assume "em_call em (hc_host_index st) = Some cb"
  with em have k: "keeps_slot (cb (Some inst) (hc_params st) (hc_results st))" by (fastforce simp: respectful_def keeps_slot_def)
  show "wtri g P (bindc (guarded (hc_scope st) (cb (Some inst) (hc_params st) (hc_results st))) (\<lambda>r. bindc latched_error (\<lambda>err. case err of
      None \<Rightarrow> finish_host_call st r (length (gr_frames g))
    | Some e \<Rightarrow> bindc (restore_pending st) (\<lambda>_. bindc (discard_host_call st) (\<lambda>_. fail e))))) (\<lambda>_ _. True)"
  proof (rule wtri_bind [OF wtri_still [OF still_guarded [OF k]]], rule wtri_bind [OF wtri_still [OF still_scope(2)]])
    fix r err
    show "wtri g P (case err of None \<Rightarrow> finish_host_call st r (length (gr_frames g))
      | Some e \<Rightarrow> bindc (restore_pending st) (\<lambda>_. bindc (discard_host_call st) (\<lambda>_. fail e))) (\<lambda>_ _. True)"
    proof (cases err)
      case None
      show ?thesis unfolding None option.case by (rule wtri_weaken [OF wtri_finish_host_call [OF g]]) simp_all
    next
      case (Some e)
      show ?thesis unfolding Some option.case by (rule wtri_weaken [OF wtri_still]) (intro still_intros still_scope, simp_all)
    qed
  qed
qed

section \<open>The loop\<close>

definition on_top :: "cursor \<Rightarrow> frame list \<Rightarrow> bool" where
  "on_top cur fs \<longleftrightarrow> live fs \<and> cu_base cur = fr_locals_base (last fs)"

definition turned :: "outcome + cursor \<Rightarrow> frame list \<Rightarrow> bool" where
  "turned x fs \<longleftrightarrow> (\<forall>cur. x = Inr cur \<longrightarrow> on_top cur fs)"

lemma on_top_cursor_of: "live fs \<Longrightarrow> on_top (cursor_of cd (last fs)) fs"
  by (simp add: on_top_def cursor_of_def)

lemma wtri_reload:
  assumes "ground_ok g"
  shows "wtri g P (reload cd) turned"
  unfolding reload_def
  by (rule wtri_bind [OF wtri_machine [OF tri_frames(4) [OF assms]]], rule wtri_weaken [OF wtri_basic(1)])
    (auto simp: turned_def intro: on_top_cursor_of)

lemma wtri_after_call:
  assumes g: "ground_ok g"
  shows "wtri g P (after_call env cd) turned"
  unfolding after_call_def
proof (rule wtri_bind [OF wtri_machine [OF tri_frames(4) [OF g]]])
  fix f
  have r: "wtri g (\<lambda>fs. live fs \<and> f = last fs \<and> P fs) (ret (Inr (cursor_of n f))) turned" for n
    by (rule wtri_weaken [OF wtri_basic(1)]) (auto simp: turned_def intro: on_top_cursor_of)
  then show "wtri g (\<lambda>fs. live fs \<and> f = last fs \<and> P fs) (if \<not> le_watch env then ret (Inr (cursor_of cd f))
     else if cd - 1 = 0 then bindc (on_machine service_gc_pressure) (\<lambda>_. ret (Inr (cursor_of GC_CHECK_INTERVAL f)))
       else ret (Inr (cursor_of (cd - 1) f))) turned"
    by (auto intro: wtri_bind [OF wtri_machine [OF tri_inframe [OF g inframe_collect(3)]]])
qed

lemma wtri_getc: "wtri g P (getc f) (\<lambda>_. P)"
  by (simp add: wtri_def)

lemma wtri_if: "wtri g P a Q \<Longrightarrow> wtri g P b Q \<Longrightarrow> wtri g P (if p then a else b) Q"
  by simp

lemma wtri_finished: "wtri g P (ret (Inl out)) turned"
  by (simp add: wtri_def turned_def)

lemma wtri_after_host:
  assumes "ground_ok g"
  shows "wtri g P (after_host env cd) turned"
  unfolding after_host_def
  by (rule wtri_bind [OF wtri_getc], rule wtri_if, rule wtri_finished, rule wtri_reload [OF assms])

lemma wtri_suspend:
  assumes "ground_ok g"
  shows "wtri g live (suspend ip out) turned"
  unfolding suspend_def by (rule wtri_bind [OF wtri_machine [OF tri_frames(1) [OF assms]]], rule wtri_finished)

lemma wtri_serve_step:
  assumes g: "ground_ok g" and em: "respectful em" and stop: "le_stop env = length (gr_frames g)"
  shows "wtri g (on_top cur) (serve_step em env cur out) turned"
proof (cases out)
  case (Advance ip)
  then show ?thesis by (simp add: serve_step_def wtri_def turned_def on_top_def)
next
  case (DoCall req)
  show ?thesis unfolding DoCall serve_step_def Let_def step_outcome.case
    by (rule wtri_bind [OF wtri_machine [OF tri_inframe [OF g inframe_basic(4)]]], rule wtri_if, rule wtri_basic,
        rule wtri_bind [OF wtri_weaken [OF wtri_machine [OF tri_frames(1) [OF g]]]], simp add: on_top_def, assumption,
        rule wtri_bind [OF wtri_machine [OF tri_frames(2) [OF g]]], rule wtri_after_call [OF g])
next
  case (DoTailCall req)
  show ?thesis unfolding DoTailCall serve_step_def Let_def step_outcome.case stop
    by (rule wtri_bind [OF wtri_machine [OF tri_frames(3) [OF g]]], rule wtri_bind [OF wtri_machine [OF tri_frames(2) [OF g]]],
        rule wtri_after_call [OF g])
next
  case (DoTailHostCall f inst n)
  show ?thesis unfolding DoTailHostCall serve_step_def Let_def step_outcome.case stop
    by (rule wtri_bind [OF wtri_machine [OF tri_frames(3) [OF g]]], rule wtri_bind [OF wtri_invoke_host [OF g em]],
        rule wtri_after_host [OF g])
next
  case (DoHostCall f inst ip)
  show ?thesis unfolding DoHostCall serve_step_def Let_def step_outcome.case stop
    by (rule wtri_bind [OF wtri_weaken [OF wtri_machine [OF tri_frames(1) [OF g]]]], simp add: on_top_def, assumption,
        rule wtri_bind [OF wtri_invoke_host [OF g em]], rule wtri_after_host [OF g])
qed (auto simp: serve_step_def Let_def on_top_def intro: wtri_weaken [OF wtri_suspend [OF g]])

lemma tri_step:
  assumes g: "ground_ok g"
  shows "tri g (on_top cur) (step c op nx (cu_base cur) inst) (\<lambda>_. on_top cur)"
  unfolding tri_def
proof (intro allI impI)
  fix m r m'
  assume h: "held g m" "on_top cur (ex_frames m)" and run: "step c op nx (cu_base cur) inst m = (r, m')" "\<not> is_panic r"
  have "inframe (fr_locals_base (last (ex_frames m))) (step c op nx (cu_base cur) inst)"
    using inframe_step [of "cu_base cur"] h(2) by (simp add: on_top_def)
  from held_inframe [OF g h(1) this run] h(2) show "held g m' \<and> (\<forall>x. r = Inr x \<longrightarrow> on_top cur (ex_frames m'))" by simp
qed

lemma wtri_run_op:
  assumes g: "ground_ok g" and em: "respectful em" and stop: "le_stop env = length (gr_frames g)"
  shows "wtri g (on_top cur) (run_op em env cur op) turned"
  unfolding wtri_def
proof (intro allI impI)
  fix w :: "'a world" and r w'
  assume h: "held g (wo_exec w)" "on_top cur (ex_frames (wo_exec w))" and run: "run_op em env cur op w = (r, w')" and np: "\<not> is_panic r"
  let ?st = "on_machine (step (cu_code cur) op (cu_ip cur + 1) (cu_base cur) (cu_instance cur)) :: ('a world, step_outcome) action"
  obtain q w1 where q: "?st w = (q, w1)" by fastforce
  have raise: "wtri g (\<lambda>_. True) (bindc (on_machine (unwind e (cu_ip cur) (le_stop env))) (\<lambda>_. reload (cu_countdown cur))) turned" for e
    unfolding stop by (rule wtri_bind [OF wtri_machine [OF tri_unwind [OF g]]], rule wtri_reload [OF g])
  show "held g (wo_exec w') \<and> (\<forall>x. r = Inr x \<longrightarrow> turned x (ex_frames (wo_exec w')))"
  proof (cases q)
    case (Inl e)
    with run q have run': "bindc (on_machine (unwind e (cu_ip cur) (le_stop env))) (\<lambda>_. reload (cu_countdown cur)) w1 = (r, w')"
      by (simp add: run_op_def)
    have "\<not> is_panic q"
    proof
      assume "is_panic q"
      then obtain p where "e = Panic p" by (auto simp: is_panic_def Inl split: error.splits)
      with run' np show False by (auto simp: bindc_def unwind_def on_machine_def is_panic_def)
    qed
    from wtriD [OF wtri_machine [OF tri_step [OF g]] h q this] wtriD [OF raise _ _ run' np] show ?thesis by simp
  next
    case (Inr out)
    then have "\<not> is_panic q" by (simp add: is_panic_def)
    note one = wtriD [OF wtri_machine [OF tri_step [OF g]] h q this]
    from run q Inr have "serve_step em env cur out w1 = (r, w')" by (simp add: run_op_def)
    from wtriD [OF wtri_serve_step [OF g em stop] _ _ this np] one Inr show ?thesis by simp
  qed
qed

lemma tri_gates:
  assumes g: "ground_ok g"
  shows "tri g (on_top cur) (service_gates fuel epoch ip) (\<lambda>gate fs. gate = None \<longrightarrow> on_top cur fs)"
proof -
  have f: "inframe lb (if fuel then (\<lambda>m. case consume_fuel_step (ma_inner m) of (st, s) \<Rightarrow> (Inr st, m\<lparr>ma_inner := s\<rparr>)) else ret FuelRan)" for lb
    by (auto intro!: inframeI simp: same_below_def split: prod.splits)
  show ?thesis unfolding service_gates_def
    by (rule tri_bind [OF tri_inframe [OF g f]], rule tri_if, rule tri_basic, rule tri_bind [OF tri_getc], rule tri_if,
        rule tri_bind [OF tri_weaken [OF tri_frames(1) [OF g]]], simp add: on_top_def, assumption,
        rule tri_weaken [OF tri_basic(1)], assumption, simp, rule tri_weaken [OF tri_basic(1)], assumption, simp)
qed

lemma wtri_turn:
  assumes g: "ground_ok g" and em: "respectful em" and stop: "le_stop env = length (gr_frames g)"
  shows "wtri g (on_top cur) (turn em env cur) turned"
proof (cases "get_at (ops_of (cu_code cur) (cu_func cur)) (cu_ip cur)")
  case None
  show ?thesis unfolding turn_def None option.case stop
    by (rule wtri_bind [OF wtri_machine [OF tri_frames(3) [OF g]]], rule wtri_if, rule wtri_finished, rule wtri_reload [OF g])
next
  case (Some op)
  have gates: "wtri g (on_top cur) (if le_fuel env \<or> le_epoch env then on_machine (service_gates (le_fuel env) (le_epoch env) (cu_ip cur)) else ret None)
      (\<lambda>gate fs. gate = None \<longrightarrow> on_top cur fs)"
    by (rule wtri_if, rule wtri_machine [OF tri_gates [OF g]], rule wtri_weaken [OF wtri_basic(1)]) auto
  show ?thesis unfolding turn_def Some option.case
  proof (rule wtri_bind [OF gates])
    fix gate
    show "wtri g (\<lambda>fs. gate = None \<longrightarrow> on_top cur fs) (case gate of None \<Rightarrow> run_op em env cur op | Some out \<Rightarrow> ret (Inl out)) turned"
      by (cases gate) (auto simp: wtri_finished intro: wtri_run_op [OF g em stop])
  qed
qed

lemma dispatch_holds:
  assumes g: "ground_ok g" and em: "respectful em" and stop: "le_stop env = length (gr_frames g)"
    and run: "dispatch em env cur w = Some (r, w')" and h: "held g (wo_exec w)" "on_top cur (ex_frames (wo_exec w))" and np: "\<not> is_panic r"
  shows "held g (wo_exec w')"
proof -
  define P where "P = (\<lambda>(em :: 'a embedder) (env :: loop_env) cur (w :: 'a world) (y :: outcome result \<times> 'a world). respectful em \<longrightarrow> le_stop env = length (gr_frames g) \<longrightarrow> held g (wo_exec w) \<longrightarrow>
      on_top cur (ex_frames (wo_exec w)) \<longrightarrow> \<not> is_panic (fst y) \<longrightarrow> held g (wo_exec (snd y)))"
  have "P em env cur w (r, w')"
  proof (rule dispatch.raw_induct [OF _ run])
    fix loop em env cur w y
    assume ih: "\<And>em env cur w y. loop em env cur w = Some y \<Longrightarrow> P em env cur w y"
      and body: "(case turn em env cur w of (r, w') \<Rightarrow> case r of Inl e \<Rightarrow> Some (Inl e, w')
        | Inr (Inl out) \<Rightarrow> Some (Inr out, w') | Inr (Inr cur') \<Rightarrow> loop em env cur' w') = Some y"
    obtain q w1 where t: "turn em env cur w = (q, w1)" by fastforce
    show "P em env cur w y" unfolding P_def
    proof (intro impI)
      assume a: "respectful em" "le_stop env = length (gr_frames g)" "held g (wo_exec w)" "on_top cur (ex_frames (wo_exec w))" "\<not> is_panic (fst y)"
      have np: "\<not> is_panic q" using body t a(5) by (auto simp: is_panic_def split: sum.splits)
      note one = wtriD [OF wtri_turn [OF g a(1,2)] a(3,4) t np]
      show "held g (wo_exec (snd y))"
      proof (cases "\<exists>cur'. q = Inr (Inr cur')")
        case True
        then obtain cur' where q: "q = Inr (Inr cur')" by blast
        with body t have "loop em env cur' w1 = Some y" by simp
        from ih [OF this] one q a show ?thesis by (auto simp: turned_def P_def)
      next
        case False
        with body t one show ?thesis by (auto split: sum.splits)
      qed
    qed
  qed
  then show ?thesis using em stop h np by (simp add: P_def)
qed

lemma run_holds:
  assumes g: "ground_ok g" and em: "respectful em" and h: "held g (wo_exec w)"
    and run: "run em (length (gr_frames g)) w = Some (r, w')" and np: "\<not> is_panic r"
  shows "held g (wo_exec w')"
proof (cases "w' = w")
  case False
  then obtain f where f: "top_frame (wo_exec w) = Inr f"
    "dispatch em (loop_env_of (length (gr_frames g)) (st_inner (wo_store w))) (cursor_of GC_CHECK_INTERVAL f) w = Some (r, w')"
    using run by (auto simp: run_def Let_def split: if_splits sum.splits)
  then have "live (ex_frames (wo_exec w))" "f = last (ex_frames (wo_exec w))"
    by (auto simp: top_frame_def last_frame_Inr live_def split: if_splits)
  with dispatch_holds [OF g em _ f(2) h _ np] on_top_cursor_of show ?thesis by (simp add: loop_env_of_def)
qed (use h in simp)

lemma exec_slot_growth [simp]:
  "si_exec_slot (put_memory h e s) = si_exec_slot s" "si_exec_slot (put_table h t s) = si_exec_slot s"
  "si_exec_slot (grant_reservation k s) = si_exec_slot s"
  by (simp_all add: put_memory_def put_table_def grant_reservation_def add_gc_committed_def Let_def split_beta)

lemma keeps_slot_grow_memory: "keeps_slot (grow_memory ca h n)"
  unfolding keeps_slot_def
proof (intro allI impI)
  fix s r and s' :: "'a store"
  assume run: "grow_memory ca h n s = (r, s')"
  show "si_exec_slot (st_inner s') = si_exec_slot (st_inner s)"
  proof (cases "memory_at h (st_inner s)")
    case (Inl e)
    with run show ?thesis by (auto simp: grow_memory_def store_plumbing)
  next
    case (Inr e)
    from grow_memory_cases [OF run Inr] show ?thesis by auto
  qed
qed

lemma keeps_slot_grow_table: "keeps_slot (grow_table ca h n init)"
  unfolding keeps_slot_def
proof (intro allI impI)
  fix s r and s' :: "'a store"
  assume run: "grow_table ca h n init s = (r, s')"
  show "si_exec_slot (st_inner s') = si_exec_slot (st_inner s)"
  proof (cases "table_at h (st_inner s)")
    case (Inl e)
    with run show ?thesis by (auto simp: grow_table_def store_plumbing)
  next
    case (Inr e)
    from grow_table_cases [OF run Inr] show ?thesis by auto
  qed
qed

lemma keeps_slot_grow_gc: "keeps_slot (grow_gc_reservation target bytes)"
  unfolding keeps_slot_def
  by (auto simp: grow_gc_reservation_def store_plumbing bindc_def dest!: with_sync_limiter_keeps split: prod.splits sum.splits if_splits)

lemmas keeps_slot_growth = keeps_slot_grow_memory keeps_slot_grow_table keeps_slot_grow_gc

lemma wtri_serve_outcome:
  assumes g: "ground_ok g" and em: "respectful em"
  shows "wtri g (\<lambda>_. True) (serve_outcome em out) (\<lambda>_ _. True)"
proof -
  have st: "wtri g (\<lambda>_. True) a (\<lambda>_ _. True)" if "still a" for a :: "('a world, 'b) action" using wtri_still [OF that] .
  have push: "wtri g (\<lambda>_. True) (on_machine (index_or_minus_one b old)) (\<lambda>_ _. True)" for b old
    unfolding index_or_minus_one_def by (rule wtri_machine [OF tri_inframe [OF g inframe_pushes(5)]])
  have grow: "wtri g (\<lambda>_. True) (do_grow em h n) (\<lambda>_ _. True)" "wtri g (\<lambda>_. True) (do_grow_table em h n init) (\<lambda>_ _. True)" for h n init
    unfolding do_grow_def do_grow_table_def
    by (rule wtri_bind [OF st [OF still_basic(8)]], rule wtri_bind [OF st [OF still_parked]], rule keeps_slot_growth, rule push)+
  have act: "still (take_epoch_action em)"
  proof (cases "em_epoch em")
    case (Some f)
    with em have k: "keeps_slot f" by (fastforce simp: respectful_def keeps_slot_def)
    have c: "still (case err of None \<Rightarrow> lift_res r | Some e \<Rightarrow> bindc (inner_upd h) (\<lambda>_. fail e))" for err r h
      by (cases err) (auto intro: still_intros)
    show ?thesis unfolding take_epoch_action_def Some option.case by (intro still_intros still_scope still_guarded k c)
  qed (simp add: take_epoch_action_def still_basic)
  have "still (apply_epoch_deadline em)"
    unfolding apply_epoch_deadline_def extend_epoch_deadline_def
    by (rule still_bindc [OF act]) (auto split: update_deadline.split intro: still_basic)
  moreover have "still (do_grow_gc a b)" for a b unfolding do_grow_gc_def by (intro still_parked keeps_slot_growth)
  ultimately show ?thesis by (cases out) (auto simp: serve_outcome_def grow intro: st still_basic)
qed

lemma drive_holds:
  assumes g: "ground_ok g" and em: "respectful em" and run: "drive em (length (gr_frames g)) w = Some (r, w')"
    and h: "held g (wo_exec w)" and np: "\<not> is_panic r"
  shows "held g (wo_exec w')"
proof -
  define P where "P = (\<lambda>(em :: 'a embedder) (n :: nat) (w :: 'a world) (y :: unit result \<times> 'a world). respectful em \<longrightarrow> n = length (gr_frames g) \<longrightarrow>
      held g (wo_exec w) \<longrightarrow> \<not> is_panic (fst y) \<longrightarrow> held g (wo_exec (snd y)))"
  have "P em (length (gr_frames g)) w (r, w')"
  proof (rule drive.raw_induct [OF _ run])
    fix loop em n w y
    assume ih: "\<And>em n w y. loop em n w = Some y \<Longrightarrow> P em n w y"
      and body: "Option.bind (run em n w) (\<lambda>p. case p of (r, w') \<Rightarrow> case r of Inl e \<Rightarrow> Some (Inl e, w')
        | Inr out \<Rightarrow> if out = Finished then Some (Inr (), w') else case serve_outcome em out w' of
           (q, w'') \<Rightarrow> case q of Inl e \<Rightarrow> Some (Inl e, w'') | Inr _ \<Rightarrow> loop em n w'') = Some y"
    show "P em n w y" unfolding P_def
    proof (intro impI)
      assume a: "respectful em" "n = length (gr_frames g)" "held g (wo_exec w)" "\<not> is_panic (fst y)"
      obtain q w1 where q: "run em n w = Some (q, w1)" using body by (auto simp: bind_eq_Some_conv)
      have "\<not> is_panic q" using body q a(4) by (auto simp: is_panic_def split: sum.splits)
      with run_holds [OF g a(1,3)] q a(2) have one: "held g (wo_exec w1)" by blast
      show "held g (wo_exec (snd y))"
      proof (cases "\<exists>out. q = Inr out \<and> out \<noteq> Finished")
        case False
        with body q one show ?thesis by (auto split: sum.splits if_splits)
      next
        case True
        then obtain out p w2 where o: "q = Inr out" "out \<noteq> Finished" "serve_outcome em out w1 = (p, w2)" by fastforce
        with body q have rest: "(case p of Inl e \<Rightarrow> Some (Inl e, w2) | Inr _ \<Rightarrow> loop em n w2) = Some y" by simp
        then have "\<not> is_panic p" using a(4) by (auto simp: is_panic_def split: sum.splits)
        with wtriD [OF wtri_serve_outcome [OF g a(1)] one _ o(3)] have two: "held g (wo_exec w2)" by simp
        show ?thesis using rest two ih [of em n w2 y] a by (cases p) (auto simp: P_def)
      qed
    qed
  qed
  then show ?thesis using em h np by (simp add: P_def)
qed

section \<open>In and out of a call\<close>

text \<open>The ground of a call entered from the execution \<open>s\<close>: the caller's stacks and frames with the boundary on top.\<close>

definition ground_of :: "delimiter \<Rightarrow> entity_handle \<Rightarrow> code \<Rightarrow> execution \<Rightarrow> ground" where
  "ground_of k inst c s = \<lparr>gr_values = ex_values s, gr_shadow = ex_shadow s,
     gr_frames = ex_frames s @ [boundary_frame k inst c (length (ex_values s))],
     gr_depth = (if k = HostReentry then ex_host_reentry_depth s + 1 else ex_host_reentry_depth s)\<rparr>"

lemma ground_of_ok: "stack_ok s \<Longrightarrow> ground_ok (ground_of k inst c s)"
  by (simp add: ground_ok_def ground_of_def boundary_frame_def stack_ok_def)

lemma encode_all_Inl: "encode_all vs = Inl e \<Longrightarrow> is_panic (Inl e)"
proof (induction vs)
  case (Cons v vs)
  have "encode v = Inl e \<Longrightarrow> is_panic (Inl e)"
    by (cases v) (auto simp: encode_def slot_for_val_def write_slot_def write_scalar_def ref_handle_def unwrap_i32_def unwrap_i64_def
        unwrap_f32_def unwrap_f64_def write_le_def slice_from_def SLOT_BYTES_def is_panic_def split: option.splits)
  moreover from Cons.prems have "encode v = Inl e \<or> encode_all vs = Inl e"
    by (cases "encode v"; cases "encode_all vs") simp_all
  ultimately show ?case using Cons.IH by blast
qed simp

lemma enter_call_holds:
  assumes ok: "stack_ok s" and run: "enter_call k inst fi c args s = (Inr (), u)"
  shows "held (ground_of k inst c s) u"
proof -
  obtain cells where enc: "encode_all args = Inr cells"
    using run by (cases "encode_all args") (auto simp: enter_call_def Let_def split: option.splits prod.splits sum.splits)
  note u = enter_call_Inr [OF enc run]
  have "stack_ok u"
    using enc run
  proof (cases rule: enter_call_cases)
    case (call r' v)
    then have pc: "push_call inst fi c (bounded k inst c args cells s) = (Inr (), u)" by auto
    have "stack_ok (bounded k inst c args cells s)"
      using ok length_encode_all [OF enc] by (auto simp: stack_ok_def boundary_frame_def)
    from stack_ok_push_call [OF this pc] show ?thesis .
  qed simp
  then show ?thesis using u by (simp add: held_def ground_of_def call_frame_def)
qed

lemma held_above:
  assumes "stack_ok s" and "held (ground_of k inst c s) t"
  shows "above k inst c s t"
proof -
  obtain fs where fs: "ex_frames t = (ex_frames s @ [boundary_frame k inst c (length (ex_values s))]) @ fs"
    using held_split [OF assms(2)] by (auto simp: ground_of_def)
  have v: "take (length (ex_values s)) (ex_values t) = ex_values s" using assms(2) by (simp add: held_def ground_of_def)
  then have "length (ex_values s) \<le> length (ex_values t)" by (metis length_take min.cobounded1)
  with assms fs v show ?thesis by (simp add: above_def held_def ground_of_def stack_ok_def)
qed

lemma restored_eq: "t\<lparr>ex_values := ex_values s, ex_shadow := ex_shadow s, ex_frames := ex_frames s,
       ex_host_reentry_depth := ex_host_reentry_depth s\<rparr> = (s :: execution)"
  by simp

lemma take_results_above:
  fixes s t :: execution
  assumes "above k inst c s t" and "take_results (length (ex_values s)) (length (ex_frames s)) tys t = (r, u)"
  shows "(\<exists>e. r = Inl e \<and> u = t) \<or> (\<exists>cells. r = Inr cells \<and> u = s)"
proof -
  have cut: "cut_to (length (ex_values s)) (length (ex_frames s)) (t\<lparr>ex_host_reentry_depth := ex_host_reentry_depth s\<rparr>) = s"
    using assms(1) by (auto simp: above_def cut_to_def)
  show ?thesis using assms(2) cut release_reentry_above [OF assms(1)]
    by (auto simp: take_results_def bindc_def split: sum.splits if_splits)
qed

lemma close_call_restores:
  assumes ok: "stack_ok s" and h: "held (ground_of k inst c s) ex"
    and b: "bo_value_base b = length (ex_values s)" "bo_stop_depth b = length (ex_frames s)"
    and run: "close_call ex b tys out i = (r, ex', i')"
  shows "ex' = s"
proof -
  note ab = held_above [OF ok h]
  note disc = discard_to_above [OF ab, unfolded restored_eq]
  obtain q u where q: "take_results (length (ex_values s)) (length (ex_frames s)) tys ex = (q, u)" by fastforce
  show ?thesis using run b take_results_above [OF ab q] q disc
    by (auto simp: close_call_def split: sum.splits prod.splits)
qed

lemma finish_restores:
  assumes "stack_ok s" and "held (ground_of k inst c s) ex" and "ex_frames s \<noteq> []"
    and "bo_value_base b = length (ex_values s)" "bo_stop_depth b = length (ex_frames s)"
    and run: "finish ex b tys out i = (r, i')" and np: "\<not> is_panic r"
  shows "si_exec_slot i' = s"
proof -
  obtain q ex' t where c: "close_call ex b tys out i = (q, ex', t)" by (metis prod_cases3)
  have "ex' = s" by (rule close_call_restores [OF assms(1,2,4,5) c])
  moreover have "\<not> is_panic out" "\<not> is_panic q" using run c np by (auto simp: finish_def is_panic_def split: sum.splits error.splits if_splits)
  ultimately show ?thesis using run c assms(3,5)
    by (auto simp: finish_def is_panic_def park_exec_def split: sum.splits error.splits)
qed

lemma enter_restores:
  assumes ok: "stack_ok (si_exec_slot i)" and fr: "ex_frames (si_exec_slot i) \<noteq> []" "length (ex_frames (si_exec_slot i)) < usize_max"
    and run: "enter inst fi c args i = (r, i')"
  shows "(\<exists>e. r = Inl e \<and> (is_panic (Inl e) \<or> si_exec_slot i' = si_exec_slot i)) \<or>
    (\<exists>ex b. r = Inr (ex, b) \<and> held (ground_of HostReentry inst c (si_exec_slot i)) ex \<and> bo_value_base b = length (ex_values (si_exec_slot i)) \<and>
       bo_stop_depth b = length (ex_frames (si_exec_slot i)) \<and> bo_run_stop b = Suc (length (ex_frames (si_exec_slot i))))"
proof -
  let ?s = "si_exec_slot i"
  obtain q u where q: "enter_call HostReentry inst fi c args ?s = (q, u)" by fastforce
  have ne: "\<not> is_empty_exec ?s" using fr by (simp add: is_empty_exec_def)
  show ?thesis
  proof (cases "si_internal_error i")
    case (Some e)
    with run ne show ?thesis by (auto simp: enter_def entry_error_def bindc_def)
  next
    case None
    show ?thesis
    proof (cases q)
      case (Inl e)
      have "is_panic (Inl e) \<or> u = ?s"
      proof (cases "encode_all args")
        case (Inl e')
        from encode_all_Inl [OF this] obtain p where "e' = Panic p" by (auto simp: is_panic_def split: error.splits)
        then show ?thesis using q \<open>q = Inl e\<close> Inl
          by (auto simp: enter_call_def Let_def is_panic_def dest!: push_delimiter_Inl split: option.splits prod.splits sum.splits)
      next
        case (Inr cells)
        have "u = ?s" by (rule enter_call_Inl [OF Inr]) (use q \<open>q = Inl e\<close> in simp)
        then show ?thesis ..
      qed
      with run ne None q Inl fr show ?thesis
        by (auto simp: enter_def entry_error_def bindc_def take_exec_def park_exec_def is_panic_def split: error.splits)
    next
      case (Inr x)
      with enter_call_holds [OF ok] q have "held (ground_of HostReentry inst c ?s) u" by simp
      with run ne None q Inr fr show ?thesis
        by (auto simp: enter_def entry_error_def bindc_def take_exec_def checked_add_def Let_def)
    qed
  qed
qed

section \<open>Properties\<close>

text \<open>C5. A nested call leaves the execution it interrupts alone. While a host callback runs, the caller's execution is parked in the
  store; a call made from there, whatever code it runs and however it ends (with its results, a trap, an exception or an internal
  error), puts back exactly the parked execution: operands, shadow, frames and re-entry depth. The callbacks it makes in turn have
  to do the same, and a panic is excluded, since it discards the parked call.\<close>

theorem parked_execution_restored:
  assumes "respectful em" and "stack_ok (si_exec_slot (st_inner st))" and "ex_frames (si_exec_slot (st_inner st)) \<noteq> []"
    and "length (ex_frames (si_exec_slot (st_inner st))) < usize_max"
    and run: "execute em inst fi c args tys st = Some (r, st')" and np: "\<not> is_panic r"
  shows "si_exec_slot (st_inner st') = si_exec_slot (st_inner st)"
proof -
  let ?s = "si_exec_slot (st_inner st)"
  obtain q i where en: "enter inst fi c args (st_inner st) = (q, i)" by fastforce
  from enter_restores [OF assms(2,3,4) en] show ?thesis
  proof (elim disjE exE conjE)
    fix e assume "q = Inl e" and "is_panic (Inl e)"
    with run en np show ?thesis by (auto simp: execute_def on_store_inner_def is_panic_def split: error.splits)
  next
    fix e assume "q = Inl e" and "si_exec_slot i = ?s"
    with run en show ?thesis by (auto simp: execute_def on_store_inner_def)
  next
    fix ex b
    assume b: "q = Inr (ex, b)" "held (ground_of HostReentry inst c ?s) ex" "bo_value_base b = length (ex_values ?s)"
      "bo_stop_depth b = length (ex_frames ?s)" "bo_run_stop b = Suc (length (ex_frames ?s))"
    let ?g = "ground_of HostReentry inst c ?s" and ?w = "\<lparr>wo_exec = ex, wo_store = st\<lparr>st_inner := i\<rparr>\<rparr>"
    have stop: "bo_run_stop b = length (gr_frames ?g)" using b(5) by (simp add: ground_of_def)
    from run en b(1) obtain out w where w: "drive em (bo_run_stop b) ?w = Some (out, w)"
      "on_store_inner (finish (wo_exec w) b tys out) (wo_store w) = (r, st')" by (auto simp: execute_def on_store_inner_def)
    obtain i' where f: "finish (wo_exec w) b tys out (st_inner (wo_store w)) = (r, i')" "st_inner st' = i'"
      using w(2) by (auto simp: on_store_inner_def split: prod.splits)
    have "\<not> is_panic out" using f(1) np by (auto simp: finish_def is_panic_def split: sum.splits error.splits)
    with drive_holds [OF ground_of_ok [OF assms(2)] assms(1) w(1) [unfolded stop]] b(2) have "held ?g (wo_exec w)" by simp
    from finish_restores [OF assms(2) this assms(3) b(3,4) f(1) np] f(2) show ?thesis by simp
  qed
qed

text \<open>The endless function called from inside another call, on seven units of fuel.\<close>

definition nested_store :: "unit store" where
  "nested_store = metered_store\<lparr>st_inner := park_exec sample_exec (st_inner metered_store)\<rparr>"

lemma nested_value: "map_option fst (execute lone_embedder sample_instance 0 spin_code [] [] nested_store) = Some (Inl (Trapped OutOfFuel))"
  by code_simp

theorem parked_execution_restored_witness:
  "\<exists>st'. execute lone_embedder sample_instance 0 spin_code [] [] nested_store = Some (Inl (Trapped OutOfFuel), st') \<and>
    si_exec_slot (st_inner st') = sample_exec"
proof -
  obtain st' where st': "execute lone_embedder sample_instance 0 spin_code [] [] nested_store = Some (Inl (Trapped OutOfFuel), st')"
    using nested_value by auto
  have "respectful (lone_embedder :: unit embedder)" by (simp add: respectful_def lone_embedder_def)
  moreover have "si_exec_slot (st_inner nested_store) = sample_exec" by (simp add: nested_store_def park_exec_def)
  moreover have "ex_frames sample_exec \<noteq> []" "length (ex_frames sample_exec) < usize_max" by code_simp+
  ultimately show ?thesis using parked_execution_restored [OF _ _ _ _ st'] stack_ok_sample st' by (simp add: is_panic_def)
qed

end
