(* ===== verification/Exec_Refine.thy ===== *)
theory Exec_Refine
  imports Exec_Run
begin

text \<open>
  The interpreter runs on untyped eight-byte cells with a shadow of reference tags, in place, inside one shared stack. The WebAssembly
  specification describes the same code on a list of locals and a stack of values. This theory states the rules of the specification
  for the instructions of a function body that touch nothing else (constants, locals, parametric, branches, integer and
  reference instructions) and proves that the interpreter refines them, for single instructions and for runs.
\<close>

section \<open>The rules of the specification\<close>

record conf =
  sc_locals :: "val list"
  sc_stack :: "val list"
  sc_ip :: nat

text \<open>A branch keeps the top \<open>keep\<close> values and drops the \<open>pop\<close> values below them.\<close>

definition unwound :: "branch_target \<Rightarrow> val list \<Rightarrow> val list" where
  "unwound t st = take (length st - bt_keep t - bt_pop t) st @ drop (length st - bt_keep t) st"

definition can_branch :: "branch_target \<Rightarrow> val list \<Rightarrow> bool" where
  "can_branch t st \<longleftrightarrow> bt_keep t + bt_pop t \<le> length st \<and> length st \<le> usize_max"

definition truth :: "bool \<Rightarrow> val" where
  "truth b = I32 (if b then 1 else 0)"

abbreviation goes :: "val list \<Rightarrow> val list \<Rightarrow> nat \<Rightarrow> trap + conf" where
  "goes ls st ip \<equiv> Inr \<lparr>sc_locals = ls, sc_stack = st, sc_ip = ip\<rparr>"

inductive body_step :: "nat \<Rightarrow> op \<Rightarrow> val list \<Rightarrow> val list \<Rightarrow> trap + conf \<Rightarrow> bool" for nx :: nat where
  nop: "body_step nx OpNop ls st (goes ls st nx)"
| unreachable: "body_step nx OpUnreachable ls st (Inl UnreachableCodeReached)"
| i32_const: "body_step nx (OpI32Const v) ls st (goes ls (st @ [I32 v]) nx)"
| i64_const: "body_step nx (OpI64Const w) ls st (goes ls (st @ [I64 w]) nx)"
| drop_val: "body_step nx OpDrop ls (st @ [x]) (goes ls st nx)"
| select: "of_val x = of_val y \<Longrightarrow>
    body_step nx OpSelect ls (st @ [x, y, I32 c]) (goes ls (st @ [if c \<noteq> 0 then x else y]) nx)"
| get_local: "i < length ls \<Longrightarrow> body_step nx (OpLocalGet i) ls st (goes ls (st @ [ls ! i]) nx)"
| set_local: "i < length ls \<Longrightarrow> body_step nx (OpLocalSet i) ls (st @ [x]) (goes (ls[i := x]) st nx)"
| tee_local: "i < length ls \<Longrightarrow> body_step nx (OpLocalTee i) ls (st @ [x]) (goes (ls[i := x]) (st @ [x]) nx)"
| br: "can_branch t st \<Longrightarrow> body_step nx (OpBr t) ls st (goes ls (unwound t st) (bt_ip t))"
| br_if: "can_branch t st \<Longrightarrow> c \<noteq> 0 \<Longrightarrow> body_step nx (OpBrIf t) ls (st @ [I32 c]) (goes ls (unwound t st) (bt_ip t))"
| br_if_skip: "body_step nx (OpBrIf t) ls (st @ [I32 0]) (goes ls st nx)"
| br_if_not: "can_branch t st \<Longrightarrow> body_step nx (OpBrIfNot t) ls (st @ [I32 0]) (goes ls (unwound t st) (bt_ip t))"
| br_if_not_skip: "c \<noteq> 0 \<Longrightarrow> body_step nx (OpBrIfNot t) ls (st @ [I32 c]) (goes ls st nx)"
| br_cmp: "can_branch t st \<Longrightarrow> wasm_rel 32 k (uint a) (uint b) \<noteq> neg \<Longrightarrow>
    body_step nx (OpBrIfCmp k neg t) ls (st @ [I32 a, I32 b]) (goes ls (unwound t st) (bt_ip t))"
| br_cmp_skip: "wasm_rel 32 k (uint a) (uint b) = neg \<Longrightarrow>
    body_step nx (OpBrIfCmp k neg t) ls (st @ [I32 a, I32 b]) (goes ls st nx)"
| i32_eqz: "body_step nx (OpNumeric NI32Eqz) ls (st @ [I32 a]) (goes ls (st @ [truth (a = 0)]) nx)"
| i64_eqz: "body_step nx (OpNumeric NI64Eqz) ls (st @ [I64 d]) (goes ls (st @ [truth (d = 0)]) nx)"
| i32_bin: "wasm_bin 32 o2 (uint a) (uint b) = Inr r \<Longrightarrow>
    body_step nx (OpNumeric (NI32Bin o2)) ls (st @ [I32 a, I32 b]) (goes ls (st @ [I32 (word_of_int r)]) nx)"
| i32_bin_trap: "wasm_bin 32 o2 (uint a) (uint b) = Inl tr \<Longrightarrow> body_step nx (OpNumeric (NI32Bin o2)) ls (st @ [I32 a, I32 b]) (Inl tr)"
| i64_bin: "wasm_bin 64 o2 (uint d) (uint e) = Inr r \<Longrightarrow>
    body_step nx (OpNumeric (NI64Bin o2)) ls (st @ [I64 d, I64 e]) (goes ls (st @ [I64 (word_of_int r)]) nx)"
| i64_bin_trap: "wasm_bin 64 o2 (uint d) (uint e) = Inl tr \<Longrightarrow> body_step nx (OpNumeric (NI64Bin o2)) ls (st @ [I64 d, I64 e]) (Inl tr)"
| i32_rel: "body_step nx (OpNumeric (NI32Rel k)) ls (st @ [I32 a, I32 b])
    (goes ls (st @ [truth (wasm_rel 32 k (uint a) (uint b))]) nx)"
| i64_rel: "body_step nx (OpNumeric (NI64Rel k)) ls (st @ [I64 d, I64 e])
    (goes ls (st @ [truth (wasm_rel 64 k (uint d) (uint e))]) nx)"
| i32_wrap: "body_step nx (OpNumeric NI32WrapI64) ls (st @ [I64 d])
    (goes ls (st @ [I32 (word_of_int (uint d))]) nx)"
| i64_extend_s: "body_step nx (OpNumeric NI64ExtendI32S) ls (st @ [I32 a])
    (goes ls (st @ [I64 (word_of_int (sint a))]) nx)"
| i64_extend_u: "body_step nx (OpNumeric NI64ExtendI32U) ls (st @ [I32 a])
    (goes ls (st @ [I64 (word_of_int (uint a))]) nx)"
| ref_null: "body_step nx (OpRef (RefNull h)) ls st (goes ls (st @ [null_for_heap h]) nx)"
| ref_is_null: "of_val x \<noteq> TagNone \<Longrightarrow>
    body_step nx (OpRef RefIsNull) ls (st @ [x]) (goes ls (st @ [truth (is_null_ref x)]) nx)"
| ref_as_non_null: "of_val x \<noteq> TagNone \<Longrightarrow> \<not> is_null_ref x \<Longrightarrow>
    body_step nx (OpRef RefAsNonNull) ls (st @ [x]) (goes ls (st @ [x]) nx)"
| ref_as_non_null_trap: "of_val x \<noteq> TagNone \<Longrightarrow> is_null_ref x \<Longrightarrow> body_step nx (OpRef RefAsNonNull) ls (st @ [x]) (Inl NullReference)"

section \<open>Representation\<close>

text \<open>A slot of the cell stack holds a value.\<close>

definition slot_holds :: "val \<Rightarrow> cell \<times> ref_tag \<Rightarrow> bool" where
  "slot_holds v = (\<lambda>(c, t). encode v = Inr c \<and> t = of_val v \<and> handle_ok v)"

definition slots_of :: "'a execution_scheme \<Rightarrow> (cell \<times> ref_tag) list" where
  "slots_of m = zip (ex_values m) (ex_shadow m)"

text \<open>The region of the current frame holds the locals and, above them, the operands.\<close>

definition represents :: "'a execution_scheme \<Rightarrow> val list \<Rightarrow> val list \<Rightarrow> bool" where
  "represents m ls st \<longleftrightarrow> stack_ok m \<and> ex_frames m \<noteq> [] \<and> (let f = last (ex_frames m) in
     fr_operand_base f = fr_locals_base f + length ls \<and> fr_operand_base f \<le> u32_max \<and>
     list_all2 slot_holds (ls @ st) (drop (fr_locals_base f) (slots_of m)))"

definition tpush :: "cell \<Rightarrow> ref_tag \<Rightarrow> 'a execution_scheme \<Rightarrow> 'a execution_scheme" where
  "tpush c t m = m\<lparr>ex_shadow := ex_shadow m @ [t], ex_values := ex_values m @ [c]\<rparr>"

lemma representsD:
  assumes "represents m ls st"
  shows "stack_ok m" "ex_frames m \<noteq> []" "length (ex_shadow m) = length (ex_values m)"
    "length (ex_values m) = fr_locals_base (last (ex_frames m)) + length ls + length st"
    "fr_operand_base (last (ex_frames m)) = fr_locals_base (last (ex_frames m)) + length ls"
    "fr_locals_base (last (ex_frames m)) + length ls \<le> u32_max"
    "list_all2 slot_holds (ls @ st) (drop (fr_locals_base (last (ex_frames m))) (slots_of m))"
proof -
  show a: "stack_ok m" "ex_frames m \<noteq> []" "fr_operand_base (last (ex_frames m)) = fr_locals_base (last (ex_frames m)) + length ls"
    "fr_locals_base (last (ex_frames m)) + length ls \<le> u32_max"
    "list_all2 slot_holds (ls @ st) (drop (fr_locals_base (last (ex_frames m))) (slots_of m))"
    using assms by (auto simp: represents_def Let_def)
  show b: "length (ex_shadow m) = length (ex_values m)" using a(1) by (simp add: stack_ok_def)
  have "fr_locals_base (last (ex_frames m)) \<le> length (ex_values m)" using a(1,2) by (auto simp: stack_ok_def chain_ok_last)
  with list_all2_lengthD [OF a(5)] b
  show "length (ex_values m) = fr_locals_base (last (ex_frames m)) + length ls + length st" by (simp add: slots_of_def)
qed

lemma encode_width: "encode v = Inr c \<Longrightarrow> length c = SLOT_BYTES"
  using length_encode_all [of "[v]" "[c]"] by simp

lemma tpush_simps [simp]:
  "ex_frames (tpush c t m) = ex_frames m" "ex_values (tpush c t m) = ex_values m @ [c]" "ex_shadow (tpush c t m) = ex_shadow m @ [t]"
  by (simp_all add: tpush_def)

lemma pushed_tpush: "pushed [x] m = tpush x TagNone m" "pushed [x, y] m = tpush y TagNone (tpush x TagNone m)"
  by (simp_all add: pushed_def tpush_def numeral_2_eq_2)

lemma represents_push:
  assumes m: "represents m ls st" and v: "encode v = Inr c" "handle_ok v"
  shows "represents (tpush c (of_val v) m) ls (st @ [v])"
proof -
  note r = representsD [OF m]
  have "stack_ok (tpush c (of_val v) m)" using stack_ok_push [OF r(1) encode_width [OF v(1)]] by (simp add: tpush_def)
  moreover have "drop (fr_locals_base (last (ex_frames m))) (slots_of (tpush c (of_val v) m)) =
      drop (fr_locals_base (last (ex_frames m))) (slots_of m) @ [(c, of_val v)]"
    using r(3,4) by (simp add: slots_of_def)
  ultimately show ?thesis using r v by (simp add: represents_def list_all2_append1 [symmetric] slot_holds_def list_all2_appendI flip: append_assoc)
qed

lemma represents_pop:
  assumes m: "represents m ls (st @ [v])"
  obtains c m0 where "m = tpush c (of_val v) m0" "represents m0 ls st" "encode v = Inr c" "handle_ok v"
proof -
  note r = representsD [OF m]
  let ?n = "length (ex_values m) - 1" and ?lb = "fr_locals_base (last (ex_frames m))"
  define m0 where "m0 = truncate_to ?n m"
  define c where "c = ex_values m ! ?n"
  have ne: "ex_values m \<noteq> []" "ex_shadow m \<noteq> []" "?n < length (ex_values m)" "?lb + length ls \<le> ?n" using r(3,4) by auto
  have split: "ex_values m = take ?n (ex_values m) @ [ex_values m ! ?n]" "ex_shadow m = take ?n (ex_shadow m) @ [ex_shadow m ! ?n]"
    using ne r(3) by (metis Suc_diff_1 length_greater_0_conv lessI order_refl take_Suc_conv_app_nth take_all)+
  have "drop ?lb (slots_of m) = drop ?lb (slots_of m0) @ [(c, ex_shadow m ! ?n)]"
    unfolding slots_of_def m0_def c_def truncate_to_def using ne r(3)
    by (subst split(1), subst split(2)) simp
  with r(7) have h: "list_all2 slot_holds (ls @ st) (drop ?lb (slots_of m0))" "slot_holds v (c, ex_shadow m ! ?n)"
    by (auto simp: list_all2_append2 list_all2_Cons2 simp flip: append_assoc dest: list_all2_lengthD)
  have ok: "stack_ok m0" unfolding m0_def by (rule stack_ok_truncate [OF r(1,2)]) (use r(5) ne in auto)
  show thesis
  proof
    show "m = tpush c (of_val v) m0" using split h(2) by (simp add: tpush_def m0_def c_def truncate_to_def slot_holds_def)
    show "represents m0 ls st" using h(1) ok r by (simp add: represents_def m0_def truncate_to_def)
    show "encode v = Inr c" "handle_ok v" using h(2) by (simp_all add: slot_holds_def)
  qed
qed

lemma encode_scalars: "encode (I32 a) = Inr (from_i32 a)" "encode (I64 d) = Inr (from_i64 d)"
  by (simp_all add: encode_val_eq [symmetric] encode_val_def)

lemma scalar_tags [simp]: "of_val (I32 a) = TagNone" "of_val (I64 d) = TagNone" "handle_ok (I32 a)" "handle_ok (I64 d)"
  by (simp_all add: of_val_def handle_ok_def)

lemma represents_i32:
  assumes "represents m ls (st @ [I32 a])"
  obtains m0 where "m = pushed [from_i32 a] m0" "represents m0 ls st"
  using represents_pop [OF assms] by (metis encode_scalars(1) pushed_tpush(1) scalar_tags(1) sum.inject(2))

lemma represents_i64:
  assumes "represents m ls (st @ [I64 d])"
  obtains m0 where "m = pushed [from_i64 d] m0" "represents m0 ls st"
  using represents_pop [OF assms] by (metis encode_scalars(2) pushed_tpush(1) scalar_tags(2) sum.inject(2))

lemma represents_i32_pair:
  assumes "represents m ls (st @ [I32 a, I32 b])"
  obtains m0 where "m = pushed [from_i32 a, from_i32 b] m0" "represents m0 ls st"
proof -
  from assms have "represents m ls ((st @ [I32 a]) @ [I32 b])" by simp
  then obtain m1 where m1: "m = pushed [from_i32 b] m1" "represents m1 ls (st @ [I32 a])" by (rule represents_i32)
  from m1(2) obtain m0 where "m1 = pushed [from_i32 a] m0" "represents m0 ls st" by (rule represents_i32)
  with m1 that show thesis by (simp add: pushed_tpush)
qed

lemma represents_i64_pair:
  assumes "represents m ls (st @ [I64 d, I64 e])"
  obtains m0 where "m = pushed [from_i64 d, from_i64 e] m0" "represents m0 ls st"
proof -
  from assms have "represents m ls ((st @ [I64 d]) @ [I64 e])" by simp
  then obtain m1 where m1: "m = pushed [from_i64 e] m1" "represents m1 ls (st @ [I64 d])" by (rule represents_i64)
  from m1(2) obtain m0 where "m1 = pushed [from_i64 d] m0" "represents m0 ls st" by (rule represents_i64)
  with m1 that show thesis by (simp add: pushed_tpush)
qed

lemma represents_scalar:
  assumes "represents m ls st"
  shows "represents (pushed [from_i32 a] m) ls (st @ [I32 a])" "represents (pushed [from_i64 d] m) ls (st @ [I64 d])"
  using represents_push [OF assms encode_scalars(1)] represents_push [OF assms encode_scalars(2)] by (simp_all add: pushed_tpush)

lemma pushed_fields [simp]: "ex_frames (pushed cs m) = ex_frames m" "ma_inner (pushed cs m') = ma_inner m'"
  by (simp_all add: pushed_def)

lemma tpush_inner [simp]: "ma_inner (tpush c t m') = ma_inner m'"
  by (simp add: tpush_def)

section \<open>Pops, locals and branches on represented states\<close>

lemma ensure_one:
  assumes "represents m ls st"
  shows "ensure_operands 1 (tpush c t m) = Inr (length (ex_values m))" "truncate_to (length (ex_values m)) (tpush c t m) = m"
  using representsD [OF assms] by (auto simp: ensure_operands_Inr truncate_to_def tpush_def)

lemma pops_one:
  assumes m: "represents m ls st"
  shows "pop_cell (tpush c t m) = (Inr c, m)" "pop_tagged (tpush c t m) = (Inr (c, t), m)" "top_cell (tpush c t m) = Inr (c, t)"
    "t \<noteq> TagNone \<Longrightarrow> pop_tagged_ref (tpush c t m) = (Inr (c, t), m)"
proof -
  note e = ensure_one [OF m, of c t] and len = representsD(3) [OF m]
  show "pop_cell (tpush c t m) = (Inr c, m)" "pop_tagged (tpush c t m) = (Inr (c, t), m)" "top_cell (tpush c t m) = Inr (c, t)"
    using e len by (simp_all add: pop_cell_def pop_tagged_def top_cell_def bindc_def nth_append)
  show "pop_tagged_ref (tpush c t m) = (Inr (c, t), m)" if "t \<noteq> TagNone"
    using e len that by (cases t) (simp_all add: pop_tagged_ref_def bindc_def nth_append tag_refkind_def)
qed

lemma pop_select_pushed:
  assumes m: "represents m ls st"
  shows "pop_select (tpush (from_i32 i) TagNone (tpush c' t (tpush c t m))) = (Inr (if i \<noteq> 0 then c else c', t), m)"
proof -
  note r = representsD [OF m]
  have "ensure_operands 3 (tpush (from_i32 i) TagNone (tpush c' t (tpush c t m))) = Inr (length (ex_values m))"
    using r by (simp add: ensure_operands_Inr)
  moreover have "truncate_to (length (ex_values m)) (tpush (from_i32 i) TagNone (tpush c' t (tpush c t m))) = m"
    using r(3) by (simp add: truncate_to_def tpush_def)
  ultimately show ?thesis using r(3)
    by (simp add: pop_select_def bindc_def nth_append cell_i32_from)
qed

lemma represents_local:
  assumes m: "represents m ls st" and i: "i < length ls"
  obtains c where "cell_at (fr_locals_base (last (ex_frames m)) + i) m = Inr (c, of_val (ls ! i))" "encode (ls ! i) = Inr c" "handle_ok (ls ! i)"
proof -
  note r = representsD [OF m]
  let ?k = "fr_locals_base (last (ex_frames m)) + i"
  have k: "?k < length (ex_values m)" using r(4) i by simp
  have "slot_holds ((ls @ st) ! i) (drop (fr_locals_base (last (ex_frames m))) (slots_of m) ! i)"
    using list_all2_nthD [OF r(7), of i] i by simp
  then have "slot_holds (ls ! i) (ex_values m ! ?k, ex_shadow m ! ?k)"
    using k i r(3) by (simp add: nth_append slots_of_def)
  then show thesis using that [of "ex_values m ! ?k"] k r(3) by (auto simp: slot_holds_def cell_at_def get_at_def)
qed

lemma represents_set_local:
  fixes m :: machine
  assumes m: "represents m ls st" and i: "i < length ls" and v: "encode v = Inr c" "handle_ok v"
  obtains m' where "set_cell (fr_locals_base (last (ex_frames m)) + i) c (of_val v) m = (Inr (), m')" "represents m' (ls[i := v]) st"
    "ex_frames m' = ex_frames m" "ma_inner m' = ma_inner m"
proof -
  note r = representsD [OF m]
  let ?lb = "fr_locals_base (last (ex_frames m))"
  define m' where "m' = m\<lparr>ex_values := (ex_values m)[?lb + i := c], ex_shadow := (ex_shadow m)[?lb + i := of_val v]\<rparr>"
  have run: "set_cell (?lb + i) c (of_val v) m = (Inr (), m')" using r(3,4) i by (simp add: set_cell_def m'_def)
  have "stack_ok m'" unfolding m'_def using stack_ok_set [OF r(1) encode_width [OF v(1)]] .
  moreover have "drop ?lb (slots_of m') = (drop ?lb (slots_of m))[i := (c, of_val v)]"
    using r(3,4) i by (simp add: slots_of_def m'_def zip_update drop_update_swap)
  moreover have "list_all2 slot_holds ((ls @ st)[i := v]) ((drop ?lb (slots_of m))[i := (c, of_val v)])"
    by (rule list_all2_update_cong [OF r(7)]) (use v in \<open>simp add: slot_holds_def\<close>)
  ultimately have "represents m' (ls[i := v]) st"
    using r i by (simp add: represents_def m'_def list_update_append)
  with run show thesis by (rule that) (simp_all add: m'_def)
qed

lemma represents_branch:
  fixes m :: machine
  assumes m: "represents m ls st" and t: "can_branch t st"
  obtains m' where "take_branch t m = (Inr (), m')" "represents m' ls (unwound t st)" "ex_frames m' = ex_frames m" "ma_inner m' = ma_inner m"
proof -
  note r = representsD [OF m]
  let ?lb = "fr_locals_base (last (ex_frames m))" and ?n = "length (ex_values m)"
  let ?d = "?n - bt_keep t - bt_pop t"
  obtain m' where run: "take_branch t m = (Inr (), m')"
    using r t by (auto simp: take_branch_Inr can_branch_def)
  have d: "?lb + length ls \<le> ?d" "?d + bt_keep t \<le> ?n" using r(4) t by (auto simp: can_branch_def)
  have m': "m' = m\<lparr>ex_values := take ?d (ex_values m) @ drop (?n - bt_keep t) (ex_values m),
      ex_shadow := take ?d (ex_shadow m) @ drop (?n - bt_keep t) (ex_shadow m)\<rparr>"
    using run d r(3) by (simp add: take_branch_Inr slide_eq)
  have slots: "slots_of m' = take ?d (slots_of m) @ drop (?n - bt_keep t) (slots_of m)"
    using r(3) d by (simp add: slots_of_def m' take_zip drop_zip)
  have "drop ?lb (slots_of m') = take (?d - ?lb) (drop ?lb (slots_of m)) @ drop (?n - bt_keep t - ?lb) (drop ?lb (slots_of m))"
    unfolding slots using d r(3) by (simp add: drop_take, simp add: slots_of_def)
  moreover have "list_all2 slot_holds (take (?d - ?lb) (ls @ st) @ drop (?n - bt_keep t - ?lb) (ls @ st))
      (take (?d - ?lb) (drop ?lb (slots_of m)) @ drop (?n - bt_keep t - ?lb) (drop ?lb (slots_of m)))"
    using r(7) by (intro list_all2_appendI list_all2_takeI list_all2_dropI)
  moreover have "take (?d - ?lb) (ls @ st) @ drop (?n - bt_keep t - ?lb) (ls @ st) = ls @ unwound t st"
    using d r(4) t by (simp add: unwound_def can_branch_def)
  ultimately have "represents m' ls (unwound t st)"
    using stack_ok_take_branch [OF r(1) run] r by (simp add: represents_def m')
  with run show thesis by (rule that) (simp_all add: m')
qed

section \<open>The simulation\<close>

text \<open>What a rule of the specification asks of the interpreter: the trap, or the position and the represented locals and operands;
  the store, the frames and everything below the current frame stay.\<close>

definition refines :: "code \<Rightarrow> op \<Rightarrow> nat \<Rightarrow> entity_handle \<Rightarrow> machine \<Rightarrow> trap + conf \<Rightarrow> bool" where
  "refines c op nx inst m r = (case step c op nx (fr_locals_base (last (ex_frames m))) inst m of
     (q, m') \<Rightarrow> (case r of
       Inl t \<Rightarrow> q = Inl (Trapped t)
     | Inr cf \<Rightarrow> q = Inr (Advance (sc_ip cf)) \<and> represents m' (sc_locals cf) (sc_stack cf) \<and> ex_frames m' = ex_frames m \<and> ma_inner m' = ma_inner m))"

lemma refines_straight:
  assumes "step c op nx (fr_locals_base (last (ex_frames m))) inst m = straight nx a m" and "a m = (Inr (), m')"
    and "represents m' ls st" "ex_frames m' = ex_frames m" "ma_inner m' = ma_inner m"
  shows "refines c op nx inst m (goes ls st nx)"
  using assms by (simp add: refines_def straight_def)

lemma refines_goto:
  assumes m: "represents m' ls st" and t: "can_branch t st" and fr: "ex_frames m' = ex_frames m" "ma_inner m' = ma_inner m"
    and run: "step c op nx (fr_locals_base (last (ex_frames m))) inst m = goto_target t m'"
  shows "refines c op nx inst m (goes ls (unwound t st) (bt_ip t))"
proof -
  obtain u where "take_branch t m' = (Inr (), u)" "represents u ls (unwound t st)" "ex_frames u = ex_frames m'" "ma_inner u = ma_inner m'"
    by (rule represents_branch [OF m t])
  with run fr show ?thesis by (simp add: refines_def goto_target_def)
qed

lemma exec_numeric_pushed:
  assumes m: "represents m ls st"
  shows "exec_numeric (NI32Bin o2) (pushed [from_i32 a, from_i32 b] m) =
      int_outcome (\<lambda>v. from_i32 (word_of_int v)) (wasm_bin 32 o2 (uint a) (uint b)) [from_i32 a, from_i32 b] m"
    "exec_numeric (NI64Bin o2) (pushed [from_i64 d, from_i64 e] m) =
      int_outcome (\<lambda>v. from_i64 (word_of_int v)) (wasm_bin 64 o2 (uint d) (uint e)) [from_i64 d, from_i64 e] m"
    "exec_numeric (NI32Rel k) (pushed [from_i32 a, from_i32 b] m) = (Inr (), pushed [from_i32 (bool_i32 (wasm_rel 32 k (uint a) (uint b)))] m)"
    "exec_numeric (NI64Rel k) (pushed [from_i64 d, from_i64 e] m) = (Inr (), pushed [from_i32 (bool_i32 (wasm_rel 64 k (uint d) (uint e)))] m)"
    "exec_numeric NI32Eqz (pushed [from_i32 a] m) = (Inr (), pushed [from_i32 (bool_i32 (a = 0))] m)"
    "exec_numeric NI64Eqz (pushed [from_i64 d] m) = (Inr (), pushed [from_i32 (bool_i32 (d = 0))] m)"
    "exec_numeric NI32WrapI64 (pushed [from_i64 d] m) = (Inr (), pushed [from_i32 (word_of_int (uint d))] m)"
    "exec_numeric NI64ExtendI32S (pushed [from_i32 a] m) = (Inr (), pushed [from_i64 (word_of_int (sint a))] m)"
    "exec_numeric NI64ExtendI32U (pushed [from_i32 a] m) = (Inr (), pushed [from_i64 (word_of_int (uint a))] m)"
proof -
  note ok = representsD(1,2) [OF m]
  note pop = pop_scalar_pushed [OF ok]
  show "exec_numeric (NI32Bin o2) (pushed [from_i32 a, from_i32 b] m) =
      int_outcome (\<lambda>v. from_i32 (word_of_int v)) (wasm_bin 32 o2 (uint a) (uint b)) [from_i32 a, from_i32 b] m"
    by (simp only: exec_numeric_def numeric_op.case i32_bin_pushed [OF ok])
  show "exec_numeric (NI64Bin o2) (pushed [from_i64 d, from_i64 e] m) =
      int_outcome (\<lambda>v. from_i64 (word_of_int v)) (wasm_bin 64 o2 (uint d) (uint e)) [from_i64 d, from_i64 e] m"
    by (simp only: exec_numeric_def numeric_op.case i64_bin_pushed [OF ok])
  show "exec_numeric (NI32Rel k) (pushed [from_i32 a, from_i32 b] m) = (Inr (), pushed [from_i32 (bool_i32 (wasm_rel 32 k (uint a) (uint b)))] m)"
    by (simp only: exec_numeric_def numeric_op.case i32_rel_pushed [OF ok])
  show "exec_numeric (NI64Rel k) (pushed [from_i64 d, from_i64 e] m) = (Inr (), pushed [from_i32 (bool_i32 (wasm_rel 64 k (uint d) (uint e)))] m)"
    by (simp only: exec_numeric_def numeric_op.case i64_rel_pushed [OF ok])
  show "exec_numeric NI32Eqz (pushed [from_i32 a] m) = (Inr (), pushed [from_i32 (bool_i32 (a = 0))] m)"
    by (simp only: exec_numeric_def numeric_op.case i32_unop_def unop_cell_pushed [OF ok] cell_i32_from)
  show "exec_numeric NI64Eqz (pushed [from_i64 d] m) = (Inr (), pushed [from_i32 (bool_i32 (d = 0))] m)"
    "exec_numeric NI32WrapI64 (pushed [from_i64 d] m) = (Inr (), pushed [from_i32 (word_of_int (uint d))] m)"
    "exec_numeric NI64ExtendI32S (pushed [from_i32 a] m) = (Inr (), pushed [from_i64 (word_of_int (sint a))] m)"
    "exec_numeric NI64ExtendI32U (pushed [from_i32 a] m) = (Inr (), pushed [from_i64 (word_of_int (uint a))] m)"
    unfolding exec_numeric_def numeric_op.case pop_i64_def pop_i32_def i32_wrap_i64_def i64_extend_i32_s_def i64_extend_i32_u_def
    by (simp_all only: bindc_def pop prod.case sum.case ret_apply cell_i64_from cell_i32_from push_scalar_pushed ucast_eq scast_eq)
qed

lemma cmp_i32_rel: "cmp_i32 k a b = wasm_rel 32 k (uint a) (uint b)"
  using sint_signed_of [of a] sint_signed_of [of b]
  by (cases k) (simp_all add: cmp_i32_def wasm_rel_def word_le_def word_less_def word_uint_eq_iff)

lemma pop_i32_pushed:
  assumes m: "represents m ls st"
  shows "pop_i32 (pushed [from_i32 a] m) = (Inr a, m)" "pop_i32_pair (pushed [from_i32 a, from_i32 b] m) = (Inr (a, b), m)"
proof -
  note ok = representsD(1,2,3) [OF m]
  show "pop_i32 (pushed [from_i32 a] m) = (Inr a, m)" by (simp add: pop_i32_def bindc_def pop_scalar_pushed [OF ok(1,2)])
  have "ensure_scalar_operands 2 (pushed [from_i32 a, from_i32 b] m) = Inr (length (ex_values m))"
    using ensure_pushed [OF ok(1,2), of "[from_i32 a, from_i32 b]"] by (simp add: numeral_2_eq_2)
  then show "pop_i32_pair (pushed [from_i32 a, from_i32 b] m) = (Inr (a, b), m)"
    using ok(3) by (simp add: pop_i32_pair_def bindc_def) (simp add: pushed_def truncate_to_def nth_append)
qed

lemma null_cell:
  assumes "encode v = Inr c" and "of_val v \<noteq> TagNone" and "handle_ok v"
  shows "cell_is_null c = is_null_ref v"
  using encode_handle [OF assms(1,2)] assms(2,3)
  by (cases v) (auto simp: of_val_def ref_handle_def cell_is_null_def is_null_ref_def handle_ok_def split: option.splits)

lemma local_index_eq: "base + i \<le> u32_max \<Longrightarrow> local_index base i = Inr (base + i)"
  by (simp add: local_index_def checked_add_def)

lemma truth_bool: "truth b = I32 (bool_i32 b)"
  by (simp add: truth_def bool_i32_def)

lemma refines_locals:
  assumes m: "represents m ls st"
  shows "i < length ls \<Longrightarrow> refines c (OpLocalGet i) nx inst m (goes ls (st @ [ls ! i]) nx)"
    "i < length ls \<Longrightarrow> encode x = Inr cl \<Longrightarrow> handle_ok x \<Longrightarrow> refines c (OpLocalSet i) nx inst (tpush cl (of_val x) m) (goes (ls[i := x]) st nx)"
    "i < length ls \<Longrightarrow> encode x = Inr cl \<Longrightarrow> handle_ok x \<Longrightarrow> refines c (OpLocalTee i) nx inst (tpush cl (of_val x) m) (goes (ls[i := x]) (st @ [x]) nx)"
proof -
  assume i: "i < length ls"
  let ?lb = "fr_locals_base (last (ex_frames m))"
  have li: "local_index ?lb i = Inr (?lb + i)" using representsD(6) [OF m] i by (intro local_index_eq) simp
  obtain cl where "cell_at (?lb + i) m = Inr (cl, of_val (ls ! i))" "encode (ls ! i) = Inr cl" "handle_ok (ls ! i)"
    by (rule represents_local [OF m i])
  with represents_push [OF m] show "refines c (OpLocalGet i) nx inst m (goes ls (st @ [ls ! i]) nx)"
    by (intro refines_straight [where a = "local_get ?lb i" and m' = "tpush cl (of_val (ls ! i)) m"])
      (simp_all add: step_def local_get_def li bindc_def push_cell_def tpush_def)
next
  assume i: "i < length ls" and x: "encode x = Inr cl" "handle_ok x"
  let ?lb = "fr_locals_base (last (ex_frames m))" and ?m = "tpush cl (of_val x) m"
  have li: "local_index ?lb i = Inr (?lb + i)" using representsD(6) [OF m] i by (intro local_index_eq) simp
  obtain m' where "set_cell (?lb + i) cl (of_val x) m = (Inr (), m')" "represents m' (ls[i := x]) st" "ex_frames m' = ex_frames m" "ma_inner m' = ma_inner m"
    by (rule represents_set_local [OF m i x])
  then show "refines c (OpLocalSet i) nx inst ?m (goes (ls[i := x]) st nx)"
    by (intro refines_straight [where a = "local_set ?lb i" and m' = m'])
      (simp_all add: step_def local_set_def li bindc_def pops_one [OF m])
  have m': "represents ?m ls (st @ [x])" by (rule represents_push [OF m x])
  obtain m'' where "set_cell (?lb + i) cl (of_val x) ?m = (Inr (), m'')" "represents m'' (ls[i := x]) (st @ [x])" "ex_frames m'' = ex_frames m" "ma_inner m'' = ma_inner m"
    using represents_set_local [OF m' i x] by (metis tpush_simps(1) tpush_inner)
  then show "refines c (OpLocalTee i) nx inst ?m (goes (ls[i := x]) (st @ [x]) nx)"
    by (intro refines_straight [where a = "local_tee ?lb i" and m' = m''])
      (simp_all add: step_def local_tee_def li bindc_def pops_one [OF m])
qed

lemma refines_numeric:
  assumes m: "represents m ls st" and run: "exec_numeric n m = (Inr (), m')" "represents m' ls st'" "ex_frames m' = ex_frames m" "ma_inner m' = ma_inner m"
  shows "refines c (OpNumeric n) nx inst m (goes ls st' nx)"
  using run by (intro refines_straight [where a = "exec_numeric n" and m' = m']) (simp_all add: step_def)

lemma refines_trap:
  assumes "exec_numeric n m = (Inl (Trapped t), m')"
  shows "refines c (OpNumeric n) nx inst m (Inl t)"
  using assms by (simp add: refines_def step_def straight_def bindc_def)

lemma refines_push:
  assumes m: "represents m ls st" and v: "encode v = Inr cl" "handle_ok v"
    and op: "step c op nx (fr_locals_base (last (ex_frames m))) inst m = straight nx a m" "a m = (Inr (), tpush cl (of_val v) m)"
  shows "refines c op nx inst m (goes ls (st @ [v]) nx)"
  by (rule refines_straight [OF op(1,2) represents_push [OF m v]]) simp_all

lemma null_for_heap_encodes: "\<exists>cl. encode (null_for_heap h) = Inr cl \<and> handle_ok (null_for_heap h)"
  using encode_total [of "null_for_heap h"]
  by (auto simp: null_for_heap_def null_ref_def handle_ok_def split: ir_heap.splits agg_kind.splits ref_kind.splits)

lemma push_cell_tpush: "push_cell c t m = (Inr (), tpush c t m)"
  by (simp add: push_cell_def tpush_def)

lemma push_val_tpush: "encode v = Inr c \<Longrightarrow> push_val v m = (Inr (), tpush c (of_val v) m)"
  by (simp add: push_val_Inr tpush_def)

lemma body_step_refines:
  "body_step nx op ls st r \<Longrightarrow> represents m ls st \<Longrightarrow> refines c op nx inst m r"
proof (induction rule: body_step.induct)
  case (nop ls st)
  then show ?case by (simp add: refines_def step_def)
next
  case (unreachable ls st)
  then show ?case by (simp add: refines_def step_def)
next
  case (i32_const v ls st)
  then show ?case
    by (rule refines_push [OF _ encode_scalars(1), where a = "push_i32 v"]) (simp_all add: step_def push_scalar_pushed pushed_tpush)
next
  case (i64_const w ls st)
  then show ?case
    by (rule refines_push [OF _ encode_scalars(2), where a = "push_i64 w"]) (simp_all add: step_def push_scalar_pushed pushed_tpush)
next
  case (drop_val ls st x)
  then obtain cl m0 where m: "m = tpush cl (of_val x) m0" "represents m0 ls st" by (rule represents_pop)
  then show ?case
    by (intro refines_straight [where a = "bindc pop_cell (\<lambda>_. ret ())" and m' = m0]) (simp_all add: step_def bindc_def pops_one [OF m(2)])
next
  case (select x y ls st i)
  have "represents m ls ((st @ [x, y]) @ [I32 i])" using select.prems by simp
  then obtain m1 where m1: "m = pushed [from_i32 i] m1" "represents m1 ls ((st @ [x]) @ [y])" by (rule represents_i32) simp
  from m1(2) obtain cy m2 where m2: "m1 = tpush cy (of_val y) m2" "represents m2 ls (st @ [x])" "encode y = Inr cy" "handle_ok y" by (rule represents_pop)
  from m2(2) obtain cx m3 where m3: "m2 = tpush cx (of_val x) m3" "represents m3 ls st" "encode x = Inr cx" "handle_ok x" by (rule represents_pop)
  let ?v = "if i \<noteq> 0 then x else y" and ?c = "if i \<noteq> 0 then cx else cy"
  have "represents (tpush ?c (of_val ?v) m3) ls (st @ [?v])" using m2 m3 by (intro represents_push) auto
  then show ?case using select.hyps
    by (intro refines_straight [where a = "bindc pop_select (\<lambda>(cl, t). push_cell cl t)" and m' = "tpush ?c (of_val ?v) m3"])
      (simp_all add: step_def bindc_def m1 m2 m3 pushed_tpush pop_select_pushed [OF m3(2)] push_cell_tpush)
next
  case (get_local i ls st)
  then show ?case using refines_locals(1) by blast
next
  case (set_local i ls st x)
  from set_local.prems obtain cl m0 where "m = tpush cl (of_val x) m0" "represents m0 ls st" "encode x = Inr cl" "handle_ok x" by (rule represents_pop)
  with set_local.hyps refines_locals(2) show ?case by blast
next
  case (tee_local i ls st x)
  from tee_local.prems obtain cl m0 where "m = tpush cl (of_val x) m0" "represents m0 ls st" "encode x = Inr cl" "handle_ok x" by (rule represents_pop)
  with tee_local.hyps refines_locals(3) show ?case by blast
next
  case (br t st ls)
  then show ?case by (intro refines_goto [OF br.prems br.hyps]) (simp_all add: step_def)
next
  case (br_if t st i ls)
  from br_if.prems obtain m0 where m: "m = pushed [from_i32 i] m0" "represents m0 ls st" by (rule represents_i32)
  with br_if.hyps show ?case by (intro refines_goto [OF m(2) br_if.hyps(1)]) (simp_all add: step_def bindc_def pop_i32_pushed [OF m(2)])
next
  case (br_if_skip t ls st)
  then obtain m0 where m: "m = pushed [from_i32 0] m0" "represents m0 ls st" by (rule represents_i32)
  then show ?case by (simp add: refines_def step_def bindc_def pop_i32_pushed [OF m(2)])
next
  case (br_if_not t st ls)
  from br_if_not.prems obtain m0 where m: "m = pushed [from_i32 0] m0" "represents m0 ls st" by (rule represents_i32)
  with br_if_not.hyps show ?case by (intro refines_goto [OF m(2) br_if_not.hyps(1)]) (simp_all add: step_def bindc_def pop_i32_pushed [OF m(2)])
next
  case (br_if_not_skip i t ls st)
  from br_if_not_skip.prems obtain m0 where m: "m = pushed [from_i32 i] m0" "represents m0 ls st" by (rule represents_i32)
  with br_if_not_skip.hyps show ?case by (simp add: refines_def step_def bindc_def pop_i32_pushed [OF m(2)])
next
  case (br_cmp t st k a b neg ls)
  from br_cmp.prems obtain m0 where m: "m = pushed [from_i32 a, from_i32 b] m0" "represents m0 ls st" by (rule represents_i32_pair)
  with br_cmp.hyps show ?case
    by (intro refines_goto [OF m(2) br_cmp.hyps(1)]) (simp_all add: step_def bindc_def pop_i32_pushed [OF m(2)] cmp_i32_rel)
next
  case (br_cmp_skip k a b neg t ls st)
  from br_cmp_skip.prems obtain m0 where m: "m = pushed [from_i32 a, from_i32 b] m0" "represents m0 ls st" by (rule represents_i32_pair)
  with br_cmp_skip.hyps show ?case by (simp add: refines_def step_def bindc_def pop_i32_pushed [OF m(2)] cmp_i32_rel)
next
  case (i32_eqz ls st a)
  from i32_eqz.prems obtain m0 where m: "m = pushed [from_i32 a] m0" "represents m0 ls st" by (rule represents_i32)
  show ?case unfolding truth_bool
    by (rule refines_numeric [OF i32_eqz.prems _ represents_scalar(1) [OF m(2)]]) (simp_all add: m(1) exec_numeric_pushed [OF m(2)])
next
  case (i64_eqz ls st d)
  from i64_eqz.prems obtain m0 where m: "m = pushed [from_i64 d] m0" "represents m0 ls st" by (rule represents_i64)
  show ?case unfolding truth_bool
    by (rule refines_numeric [OF i64_eqz.prems _ represents_scalar(1) [OF m(2)]]) (simp_all add: m(1) exec_numeric_pushed [OF m(2)])
next
  case (i32_bin o2 a b r ls st)
  from i32_bin.prems obtain m0 where m: "m = pushed [from_i32 a, from_i32 b] m0" "represents m0 ls st" by (rule represents_i32_pair)
  show ?case
    by (rule refines_numeric [OF i32_bin.prems _ represents_scalar(1) [OF m(2)]])
      (simp_all add: m(1) exec_numeric_pushed [OF m(2)] i32_bin.hyps int_outcome_def)
next
  case (i32_bin_trap o2 a b tr ls st)
  from i32_bin_trap.prems obtain m0 where m: "m = pushed [from_i32 a, from_i32 b] m0" "represents m0 ls st" by (rule represents_i32_pair)
  show ?case by (rule refines_trap) (simp add: m(1) exec_numeric_pushed [OF m(2)] i32_bin_trap.hyps int_outcome_def)
next
  case (i64_bin o2 d e r ls st)
  from i64_bin.prems obtain m0 where m: "m = pushed [from_i64 d, from_i64 e] m0" "represents m0 ls st" by (rule represents_i64_pair)
  show ?case
    by (rule refines_numeric [OF i64_bin.prems _ represents_scalar(2) [OF m(2)]])
      (simp_all add: m(1) exec_numeric_pushed [OF m(2)] i64_bin.hyps int_outcome_def)
next
  case (i64_bin_trap o2 d e tr ls st)
  from i64_bin_trap.prems obtain m0 where m: "m = pushed [from_i64 d, from_i64 e] m0" "represents m0 ls st" by (rule represents_i64_pair)
  show ?case by (rule refines_trap) (simp add: m(1) exec_numeric_pushed [OF m(2)] i64_bin_trap.hyps int_outcome_def)
next
  case (i32_rel k ls st a b)
  from i32_rel.prems obtain m0 where m: "m = pushed [from_i32 a, from_i32 b] m0" "represents m0 ls st" by (rule represents_i32_pair)
  show ?case unfolding truth_bool
    by (rule refines_numeric [OF i32_rel.prems _ represents_scalar(1) [OF m(2)]]) (simp_all add: m(1) exec_numeric_pushed [OF m(2)])
next
  case (i64_rel k ls st d e)
  from i64_rel.prems obtain m0 where m: "m = pushed [from_i64 d, from_i64 e] m0" "represents m0 ls st" by (rule represents_i64_pair)
  show ?case unfolding truth_bool
    by (rule refines_numeric [OF i64_rel.prems _ represents_scalar(1) [OF m(2)]]) (simp_all add: m(1) exec_numeric_pushed [OF m(2)])
next
  case (i32_wrap ls st d)
  from i32_wrap.prems obtain m0 where m: "m = pushed [from_i64 d] m0" "represents m0 ls st" by (rule represents_i64)
  show ?case
    by (rule refines_numeric [OF i32_wrap.prems _ represents_scalar(1) [OF m(2)]]) (simp_all only: m(1) exec_numeric_pushed [OF m(2)] pushed_fields)
next
  case (i64_extend_s ls st a)
  from i64_extend_s.prems obtain m0 where m: "m = pushed [from_i32 a] m0" "represents m0 ls st" by (rule represents_i32)
  show ?case
    by (rule refines_numeric [OF i64_extend_s.prems _ represents_scalar(2) [OF m(2)]]) (simp_all only: m(1) exec_numeric_pushed [OF m(2)] pushed_fields)
next
  case (i64_extend_u ls st a)
  from i64_extend_u.prems obtain m0 where m: "m = pushed [from_i32 a] m0" "represents m0 ls st" by (rule represents_i32)
  show ?case
    by (rule refines_numeric [OF i64_extend_u.prems _ represents_scalar(2) [OF m(2)]]) (simp_all only: m(1) exec_numeric_pushed [OF m(2)] pushed_fields)
next
  case (ref_null h ls st)
  obtain cl where cl: "encode (null_for_heap h) = Inr cl" "handle_ok (null_for_heap h)" using null_for_heap_encodes by blast
  show ?case
    by (rule refines_push [OF ref_null.prems cl, where a = "exec_ref (RefNull h) inst"])
      (simp_all add: step_def exec_ref_def push_val_tpush [OF cl(1)])
next
  case (ref_is_null x ls st)
  from ref_is_null.prems obtain cl m0 where m: "m = tpush cl (of_val x) m0" "represents m0 ls st" "encode x = Inr cl" "handle_ok x" by (rule represents_pop)
  have null: "cell_is_null cl = is_null_ref x" by (rule null_cell [OF m(3) ref_is_null.hyps m(4)])
  show ?case
    by (rule refines_straight [where a = "exec_ref RefIsNull inst" and m' = "pushed [from_i32 (if is_null_ref x then 1 else 0)] m0"])
      (simp_all add: step_def exec_ref_def bindc_def m(1) pops_one(4) [OF m(2) ref_is_null.hyps] null truth_def represents_scalar(1) [OF m(2), unfolded pushed_tpush]
        push_val_tpush [OF encode_scalars(1)] pushed_tpush)
next
  case (ref_as_non_null x ls st)
  from ref_as_non_null.prems obtain cl m0 where m: "m = tpush cl (of_val x) m0" "represents m0 ls st" "encode x = Inr cl" "handle_ok x" by (rule represents_pop)
  have null: "\<not> cell_is_null cl" using null_cell [OF m(3) ref_as_non_null.hyps(1) m(4)] ref_as_non_null.hyps(2) by simp
  show ?case
    by (rule refines_straight [where a = "exec_ref RefAsNonNull inst" and m' = m])
      (use ref_as_non_null.prems in \<open>simp_all add: step_def exec_ref_def bindc_def m(1) pops_one(4) [OF m(2) ref_as_non_null.hyps(1)] null push_cell_tpush\<close>)
next
  case (ref_as_non_null_trap x ls st)
  from ref_as_non_null_trap.prems obtain cl m0 where m: "m = tpush cl (of_val x) m0" "represents m0 ls st" "encode x = Inr cl" "handle_ok x" by (rule represents_pop)
  have null: "cell_is_null cl" using null_cell [OF m(3) ref_as_non_null_trap.hyps(1) m(4)] ref_as_non_null_trap.hyps(2) by simp
  show ?case by (simp add: refines_def step_def straight_def exec_ref_def bindc_def m(1) pops_one(4) [OF m(2) ref_as_non_null_trap.hyps(1)] null)
qed

section \<open>Runs of a body\<close>

inductive body_run :: "op list \<Rightarrow> conf \<Rightarrow> trap + conf \<Rightarrow> bool" for ops :: "op list" where
  stop: "body_run ops cf (Inr cf)"
| trap: "get_at ops (sc_ip cf) = Some op \<Longrightarrow> body_step (sc_ip cf + 1) op (sc_locals cf) (sc_stack cf) (Inl t) \<Longrightarrow> body_run ops cf (Inl t)"
| go: "get_at ops (sc_ip cf) = Some op \<Longrightarrow> body_step (sc_ip cf + 1) op (sc_locals cf) (sc_stack cf) (Inr cf') \<Longrightarrow> body_run ops cf' r \<Longrightarrow>
    body_run ops cf r"

lemma represents_fields: "represents (machine_of e s) = represents e" "represents (exec_of m) = represents m"
  by (simp_all add: represents_def stack_ok_def slots_of_def machine_of_def exec_of_def execution.truncate_def fun_eq_iff Let_def)

text \<open>A cursor follows a configuration of the specification over a world.\<close>

definition follows :: "cursor \<Rightarrow> conf \<Rightarrow> 'd world \<Rightarrow> bool" where
  "follows cur cf w \<longleftrightarrow> cu_ip cur = sc_ip cf \<and> represents (wo_exec w) (sc_locals cf) (sc_stack cf) \<and>
     cu_base cur = fr_locals_base (last (ex_frames (wo_exec w)))"

definition ungated :: "loop_env \<Rightarrow> bool" where
  "ungated env \<longleftrightarrow> \<not> le_fuel env \<and> \<not> le_epoch env"

lemma turn_refines:
  assumes f: "follows cur cf w" and u: "ungated env" and op: "get_at (ops_of (cu_code cur) (cu_func cur)) (sc_ip cf) = Some op"
    and st: "body_step (sc_ip cf + 1) op (sc_locals cf) (sc_stack cf) r"
  shows "(\<exists>t w'. r = Inl t \<and> turn em env cur w = (Inl (Trapped t), w')) \<or>
    (\<exists>cf' w'. r = Inr cf' \<and> turn em env cur w = (Inr (Inr (cur\<lparr>cu_ip := sc_ip cf'\<rparr>)), w') \<and> follows (cur\<lparr>cu_ip := sc_ip cf'\<rparr>) cf' w' \<and>
      wo_store w' = wo_store w)"
proof -
  let ?m = "world_machine w"
  have rep: "represents ?m (sc_locals cf) (sc_stack cf)" using f by (simp add: follows_def world_machine_def represents_fields)
  have base: "cu_base cur = fr_locals_base (last (ex_frames ?m))" "cu_ip cur = sc_ip cf"
    using f by (simp_all add: follows_def world_machine_def machine_of_def)
  obtain q m' where q: "step (cu_code cur) op (sc_ip cf + 1) (cu_base cur) (cu_instance cur) ?m = (q, m')" by fastforce
  with body_step_refines [OF st rep, of "cu_code cur" "cu_instance cur"]
  have ref: "case r of Inl t \<Rightarrow> q = Inl (Trapped t)
     | Inr cf \<Rightarrow> q = Inr (Advance (sc_ip cf)) \<and> represents m' (sc_locals cf) (sc_stack cf) \<and> ex_frames m' = ex_frames ?m \<and> ma_inner m' = ma_inner ?m"
    by (simp add: refines_def base)
  have turn: "turn em env cur w = (case (q, put_machine m' w) of
       (Inl e, w') \<Rightarrow> bindc (on_machine (unwind e (cu_ip cur) (le_stop env))) (\<lambda>_. reload (cu_countdown cur)) w'
     | (Inr out, w') \<Rightarrow> serve_step em env cur out w')"
    unfolding turn_def base(2) op option.case using u q by (simp add: ungated_def run_op_def on_machine_def base(2) split: sum.split)
  show ?thesis
  proof (cases r)
    case (Inl t)
    with ref turn show ?thesis by (simp add: unwind_def on_machine_def)
  next
    case (Inr cf')
    then have a: "q = Inr (Advance (sc_ip cf'))" "represents m' (sc_locals cf') (sc_stack cf')" "ex_frames m' = ex_frames ?m" "ma_inner m' = ma_inner ?m"
      using ref by simp_all
    have "follows (cur\<lparr>cu_ip := sc_ip cf'\<rparr>) cf' (put_machine m' w)"
      using a(2,3) base(1) by (simp add: follows_def put_machine_def represents_fields) (simp add: exec_of_def execution.truncate_def)
    moreover have "wo_store (put_machine m' w) = wo_store w"
      using a(4) by (simp add: put_machine_def world_machine_def machine_of_def)
    ultimately show ?thesis using Inr turn a(1) by (simp add: serve_step_def)
  qed
qed

definition arrives :: "'d embedder \<Rightarrow> loop_env \<Rightarrow> cursor \<Rightarrow> 'd world \<Rightarrow> trap + conf \<Rightarrow> bool" where
  "arrives em env cur w r = (case r of
     Inl t \<Rightarrow> \<exists>w'. dispatch em env cur w = Some (Inl (Trapped t), w')
   | Inr cf' \<Rightarrow> \<exists>w'. dispatch em env cur w = dispatch em env (cur\<lparr>cu_ip := sc_ip cf'\<rparr>) w' \<and> follows (cur\<lparr>cu_ip := sc_ip cf'\<rparr>) cf' w' \<and>
       wo_store w' = wo_store w)"

lemma dispatch_refines:
  assumes "body_run ops cf r" and "ops_of (cu_code cur) (cu_func cur) = ops" and "follows cur cf w" and u: "ungated env"
  shows "arrives em env cur w r"
  using assms(1-3)
proof (induction arbitrary: cur w rule: body_run.induct)
  case (stop cf)
  then have "cur\<lparr>cu_ip := sc_ip cf\<rparr> = cur" by (simp add: follows_def)
  with stop show ?case by (auto simp: arrives_def)
next
  case (trap cf op t)
  then obtain w' where "turn em env cur w = (Inl (Trapped t), w')"
    using turn_refines [OF trap.prems(2) u _ trap.hyps(2), of em] by auto
  then show ?case by (simp add: arrives_def dispatch.simps)
next
  case (go cf op cf' r)
  let ?cur = "cur\<lparr>cu_ip := sc_ip cf'\<rparr>"
  obtain w' where w': "turn em env cur w = (Inr (Inr ?cur), w')" "follows ?cur cf' w'" "wo_store w' = wo_store w"
    using turn_refines [OF go.prems(2) u _ go.hyps(2), of em] go.hyps(1) go.prems(1) by auto
  have "arrives em env ?cur w' r" using go.IH [of ?cur w'] w'(2) go.prems(1) by simp
  then show ?case using w'(1,3) by (simp add: arrives_def dispatch.simps [of em env cur w] split: sum.splits)
qed

section \<open>Properties\<close>

text \<open>C7. The interpreter refines the specification on the code of a body. Take any run of the specification's rules over the
  instructions of a function, with values on the stack and locals as a list. The interpreter, on cells, tags and one shared stack,
  follows it: if the run traps, the loop ends with that trap; otherwise the loop arrives at the position the run arrived at, with the cells of
  the frame holding exactly the run's locals and operands, and the store untouched.\<close>

theorem body_runs_refined:
  assumes "body_run (ops_of (cu_code cur) (cu_func cur)) cf r" and "follows cur cf w" and "ungated env"
  shows "case r of
     Inl t \<Rightarrow> \<exists>w'. dispatch em env cur w = Some (Inl (Trapped t), w')
   | Inr cf' \<Rightarrow> \<exists>w'. dispatch em env cur w = dispatch em env (cur\<lparr>cu_ip := sc_ip cf'\<rparr>) w' \<and> follows (cur\<lparr>cu_ip := sc_ip cf'\<rparr>) cf' w' \<and>
       wo_store w' = wo_store w"
  using dispatch_refines [OF assms(1) refl assms(2,3)] by (simp add: arrives_def)

text \<open>A body that computes \<open>7 / 0\<close> after storing its argument's double in the second local.\<close>

definition double_code :: code where
  "double_code = \<lparr>co_module = (co_module sample_code)\<lparr>mi_code := (mi_code (co_module sample_code))\<lparr>ca_ops :=
     [OpLocalGet 0, OpLocalGet 0, OpNumeric (NI32Bin BAdd), OpLocalSet 1, OpI32Const 7, OpI32Const 0, OpNumeric (NI32Bin BDivS)]\<rparr>,
     mi_functions := [sample_func\<lparr>cf_ops := \<lparr>sp_start = 0, sp_len = 7\<rparr>\<rparr>]\<rparr>, co_index = 0\<rparr>"

definition lone_host :: "unit embedder" where
  "lone_host = \<lparr>em_call = (\<lambda>_. None), em_epoch = None, em_alloc = (\<lambda>_. True)\<rparr>"

definition double_world :: "unit world" where
  "double_world = \<lparr>wo_exec = snd (enter_call TopLevel sample_instance 0 double_code [I32 21] execution_default),
     wo_store = \<lparr>st_inner = store_new 1 sample_engine, st_data = (), st_limiter = None\<rparr>\<rparr>"

definition double_cursor :: cursor where
  "double_cursor = cursor_of GC_CHECK_INTERVAL (last (ex_frames (wo_exec double_world)))"

definition double_env :: loop_env where
  "double_env = loop_env_of 1 (st_inner (wo_store double_world))"

definition double_start :: conf where
  "double_start = \<lparr>sc_locals = [I32 21, I64 0], sc_stack = [], sc_ip = 0\<rparr>"

lemma body_run_intros:
  "get_at ops ip = Some op \<Longrightarrow> body_step n op ls st (Inr cf') \<Longrightarrow> n = ip + 1 \<Longrightarrow> body_run ops cf' r \<Longrightarrow>
    body_run ops \<lparr>sc_locals = ls, sc_stack = st, sc_ip = ip\<rparr> r"
  "get_at ops ip = Some op \<Longrightarrow> body_step n op ls st (Inl t) \<Longrightarrow> n = ip + 1 \<Longrightarrow> body_run ops \<lparr>sc_locals = ls, sc_stack = st, sc_ip = ip\<rparr> (Inl t)"
  by (rule body_run.go; simp) (rule body_run.trap; simp)

lemma double_run:
  "body_run (ops_of (cu_code double_cursor) (cu_func double_cursor)) double_start
     (Inr \<lparr>sc_locals = [I32 21, I32 42], sc_stack = [], sc_ip = 4\<rparr>)"
  "body_run (ops_of (cu_code double_cursor) (cu_func double_cursor)) double_start (Inl IntegerDivisionByZero)"
proof -
  have ops: "ops_of (cu_code double_cursor) (cu_func double_cursor) = ca_ops (mi_code (co_module double_code))" by code_simp
  let ?ops = "ca_ops (mi_code (co_module double_code))" and ?cf = "\<lambda>ls st ip. \<lparr>sc_locals = ls, sc_stack = st, sc_ip = ip\<rparr>"
  have at: "get_at ?ops 0 = Some (OpLocalGet 0)" "get_at ?ops 1 = Some (OpLocalGet 0)" "get_at ?ops 2 = Some (OpNumeric (NI32Bin BAdd))"
    "get_at ?ops 3 = Some (OpLocalSet 1)" "get_at ?ops 4 = Some (OpI32Const 7)" "get_at ?ops 5 = Some (OpI32Const 0)"
    "get_at ?ops 6 = Some (OpNumeric (NI32Bin BDivS))"
    by code_simp+
  have "body_step 1 (OpLocalGet 0) [I32 21, I64 0] [] (Inr (?cf [I32 21, I64 0] [I32 21] 1))"
    "body_step 2 (OpLocalGet 0) [I32 21, I64 0] [I32 21] (Inr (?cf [I32 21, I64 0] [I32 21, I32 21] 2))"
    "body_step 3 (OpNumeric (NI32Bin BAdd)) [I32 21, I64 0] [I32 21, I32 21] (Inr (?cf [I32 21, I64 0] [I32 42] 3))"
    "body_step 4 (OpLocalSet 1) [I32 21, I64 0] [I32 42] (Inr (?cf [I32 21, I32 42] [] 4))"
    "body_step 5 (OpI32Const 7) [I32 21, I32 42] [] (Inr (?cf [I32 21, I32 42] [I32 7] 5))"
    "body_step 6 (OpI32Const 0) [I32 21, I32 42] [I32 7] (Inr (?cf [I32 21, I32 42] [I32 7, I32 0] 6))"
    "body_step 7 (OpNumeric (NI32Bin BDivS)) [I32 21, I32 42] [I32 7, I32 0] (Inl IntegerDivisionByZero)"
    using get_local [of 0 "[I32 21, I64 0]" 1 "[]"] get_local [of 0 "[I32 21, I64 0]" 2 "[I32 21]"]
      i32_bin [of BAdd 21 21 42 3 "[I32 21, I64 0]" "[]"] set_local [of 1 "[I32 21, I64 0]" 4 "[]" "I32 42"]
      i32_const [of 5 7 "[I32 21, I32 42]" "[]"] i32_const [of 6 0 "[I32 21, I32 42]" "[I32 7]"]
      i32_bin_trap [of BDivS 7 0 IntegerDivisionByZero 7 "[I32 21, I32 42]" "[]"]
    by (simp_all add: wasm_bin_def)
  note st = this
  show "body_run (ops_of (cu_code double_cursor) (cu_func double_cursor)) double_start
     (Inr \<lparr>sc_locals = [I32 21, I32 42], sc_stack = [], sc_ip = 4\<rparr>)"
    unfolding ops double_start_def
    by (rule body_run_intros(1) [OF at(1) st(1)], simp, rule body_run_intros(1) [OF at(2) st(2)], simp,
        rule body_run_intros(1) [OF at(3) st(3)], simp, rule body_run_intros(1) [OF at(4) st(4)], simp, rule body_run.stop)
  show "body_run (ops_of (cu_code double_cursor) (cu_func double_cursor)) double_start (Inl IntegerDivisionByZero)"
    unfolding ops double_start_def
    by (rule body_run_intros(1) [OF at(1) st(1)], simp, rule body_run_intros(1) [OF at(2) st(2)], simp,
        rule body_run_intros(1) [OF at(3) st(3)], simp, rule body_run_intros(1) [OF at(4) st(4)], simp,
        rule body_run_intros(1) [OF at(5) st(5)], simp, rule body_run_intros(1) [OF at(6) st(6)], simp,
        rule body_run_intros(2) [OF at(7) st(7)], simp)
qed

lemma double_follows: "follows double_cursor double_start double_world" "ungated double_env"
proof -
  show "ungated double_env" by code_simp
  have "encode (I32 21) = Inr (from_i32 21)" "encode (I64 0) = Inr (from_i64 0)" by (rule encode_scalars)+
  moreover have "slots_of (wo_exec double_world) = [(from_i32 21, TagNone), (from_i64 0, TagNone)]" by code_simp
  moreover have "stack_ok (wo_exec double_world)" "fr_locals_base (last (ex_frames (wo_exec double_world))) = 0"
    "fr_operand_base (last (ex_frames (wo_exec double_world))) = 2" "ex_frames (wo_exec double_world) \<noteq> []" "cu_ip double_cursor = 0" "cu_base double_cursor = 0"
    by code_simp+
  ultimately show "follows double_cursor double_start double_world"
    by (simp add: follows_def represents_def double_start_def slot_holds_def)
qed

theorem body_runs_refined_witness:
  "(\<exists>w'. dispatch lone_host double_env double_cursor double_world = dispatch lone_host double_env (double_cursor\<lparr>cu_ip := 4\<rparr>) w' \<and>
      represents (wo_exec w') [I32 21, I32 42] []) \<and>
   (\<exists>w'. dispatch lone_host double_env double_cursor double_world = Some (Inl (Trapped IntegerDivisionByZero), w'))"
  using body_runs_refined [OF double_run(1) double_follows, of lone_host] body_runs_refined [OF double_run(2) double_follows, of lone_host]
  by (auto simp: follows_def)

end
