(* ===== verification/Exec_Unwind.thy ===== *)
theory Exec_Unwind
  imports Exec_Control
begin

text \<open>
  What the unwinder of \<^verbatim>\<open>src/exec/exn.rs\<close> does, against a reference: the clauses that guard a position, the first frame with a clause
  that matches, and the stacks a handler starts with.
\<close>

section \<open>The reference\<close>

text \<open>The clauses in whose spans a position lies, innermost span first, in source order.\<close>

definition guarding :: "nat \<Rightarrow> handler_span list \<Rightarrow> handler_rec list" where
  "guarding ip sps = concat (map hs_clauses (filter (\<lambda>sp. hs_start_ip sp \<le> ip \<and> ip < hs_end_ip sp) sps))"

definition clause_hits :: "entity_handle list \<Rightarrow> entity_handle \<Rightarrow> handler_rec \<Rightarrow> bool" where
  "clause_hits tags thrown c \<longleftrightarrow> (case hr_tag c of None \<Rightarrow> True | Some i \<Rightarrow> eh_index (tags ! i) = eh_index thrown)"

definition frame_tags :: "store_inner \<Rightarrow> frame \<Rightarrow> entity_handle list" where
  "frame_tags s f = (case instance_at (fr_instance f) s of Inr i \<Rightarrow> ie_tags i | Inl _ \<Rightarrow> [])"

definition handler_of :: "store_inner \<Rightarrow> entity_handle \<Rightarrow> nat \<Rightarrow> frame \<Rightarrow> handler_rec option" where
  "handler_of s thrown ip f = find (clause_hits (frame_tags s f) thrown) (guarding ip (code_handlers (fr_code f)))"

text \<open>The search from the top frame down: the number of frames below the one that handles, that frame and the clause. A caller is searched at
  the call it is suspended in, one before its return address.\<close>

fun first_handler :: "store_inner \<Rightarrow> entity_handle \<Rightarrow> nat \<Rightarrow> frame list \<Rightarrow> (nat \<times> frame \<times> handler_rec) option" where
  "first_handler s thrown ip [] = None"
| "first_handler s thrown ip (f # fs) = (case handler_of s thrown ip f of
     Some h \<Rightarrow> Some (length fs, f, h)
   | None \<Rightarrow> (case fs of [] \<Rightarrow> None | g # _ \<Rightarrow> first_handler s thrown (fr_ip g - 1) fs))"

text \<open>Frames the compiler and the loop produce: the instance is there, every clause names a tag of it, and a suspended caller has a return address.\<close>

definition searchable :: "store_inner \<Rightarrow> frame \<Rightarrow> bool" where
  "searchable s f \<longleftrightarrow> (\<exists>i. instance_at (fr_instance f) s = Inr i \<and>
     (\<forall>sp \<in> set (code_handlers (fr_code f)). \<forall>c \<in> set (hs_clauses sp). \<forall>k. hr_tag c = Some k \<longrightarrow> k < length (ie_tags i)))"

section \<open>Finding the clause\<close>

lemma match_clause_spec:
  "\<forall>c \<in> set cs. \<forall>k. hr_tag c = Some k \<longrightarrow> k < length tags \<Longrightarrow> match_clause (Inr tags) thrown cs = Inr (find (clause_hits tags thrown) cs)"
  by (induction cs) (auto simp: clause_hits_def get_at_def split: option.split)

lemma find_append: "find P (xs @ ys) = (case find P xs of Some x \<Rightarrow> Some x | None \<Rightarrow> find P ys)"
  by (induction xs) auto

lemma find_in_spans_spec:
  "\<forall>sp \<in> set sps. \<forall>c \<in> set (hs_clauses sp). \<forall>k. hr_tag c = Some k \<longrightarrow> k < length tags \<Longrightarrow>
    find_in_spans (Inr tags) thrown ip sps = Inr (find (clause_hits tags thrown) (guarding ip sps))"
  by (induction sps) (auto simp: guarding_def match_clause_spec find_append split: option.split)

lemma find_clause_spec:
  assumes "searchable s f"
  shows "find_clause (fr_code f) ip (fr_instance f) thrown s = Inr (handler_of s thrown ip f)"
proof -
  from assms obtain i where i: "instance_at (fr_instance f) s = Inr i"
    "\<forall>sp \<in> set (code_handlers (fr_code f)). \<forall>c \<in> set (hs_clauses sp). \<forall>k. hr_tag c = Some k \<longrightarrow> k < length (ie_tags i)"
    by (auto simp: searchable_def)
  then show ?thesis using find_in_spans_spec [OF i(2)] by (simp add: find_clause_def handler_of_def frame_tags_def)
qed

section \<open>The search\<close>

text \<open>The stacks cut down to the first \<open>k\<close> frames: what the frame above them had is gone.\<close>

definition cut_above :: "nat \<Rightarrow> machine \<Rightarrow> machine" where
  "cut_above k m = (if k < length (ex_frames m)
     then truncate_to (fr_locals_base (ex_frames m ! k)) (m\<lparr>ex_frames := take k (ex_frames m)\<rparr>) else m)"

lemma pop_unwound_cut:
  assumes ok: "stack_ok m" and f: "ex_frames m = fs @ [f]"
  shows "pop_unwound_frame (fr_locals_base f) m = (Inr (), cut_above (length fs) m)" "stack_ok (cut_above (length fs) m)"
proof -
  have b: "fr_locals_base f \<le> length (ex_values m)" "chain_ok (rev fs) (fr_locals_base f)" "length (ex_shadow m) = length (ex_values m)"
    using ok f by (auto simp: stack_ok_def)
  show "pop_unwound_frame (fr_locals_base f) m = (Inr (), cut_above (length fs) m)"
    using b f by (simp add: pop_unwound_frame_def bindc_def cut_above_def)
  show "stack_ok (cut_above (length fs) m)"
    using ok b f by (auto simp: cut_above_def stack_ok_def truncate_to_def min.absorb1 min.absorb2 dest: in_set_takeD)
qed

lemma chain_ok_bases: "chain_ok (rev (fs @ gs)) n \<Longrightarrow> gs \<noteq> [] \<Longrightarrow> fr_locals_base (hd gs) \<le> fr_locals_base (last gs)"
proof (induction gs arbitrary: n rule: rev_induct)
  case (snoc g gs)
  show ?case
  proof (cases "gs = []")
    case False
    have "chain_ok (rev (fs @ gs)) (fr_locals_base g)" using snoc.prems(1) by simp
    with snoc.IH [OF this False] False show ?thesis
      by (cases gs rule: rev_cases) (auto simp: hd_append split: if_splits)
  qed simp
qed simp

lemma cut_above_twice:
  assumes ok: "stack_ok m" and f: "ex_frames m = fs @ [f]" and k: "k \<le> length fs"
  shows "cut_above k (cut_above (length fs) m) = cut_above k m"
proof (cases "k = length fs")
  case False
  with k have k': "k < length fs" by simp
  have "chain_ok (rev (take k (ex_frames m) @ drop k (ex_frames m))) (length (ex_values m))" using ok unfolding stack_ok_def append_take_drop_id by blast
  from chain_ok_bases [OF this] k' f have "fr_locals_base (fs ! k) \<le> fr_locals_base f"
    by (simp add: hd_drop_conv_nth nth_append)
  then show ?thesis using k' f by (simp add: cut_above_def truncate_to_def nth_append min_def)
qed (simp add: cut_above_def f truncate_to_def)

lemma first_handler_bound: "first_handler s thrown ip fs = Some (k, x) \<Longrightarrow> k < length fs"
  by (induction s thrown ip fs rule: first_handler.induct) (auto split: option.splits list.splits)

text \<open>The loop, with enough rounds: the first handler above the boundary is entered with the stacks of its frame; without one the exception is
  still pending and every frame above the boundary is gone.\<close>

lemma unwind_loop_spec:
  assumes "stack_ok m" and "\<forall>f \<in> set (drop stop (ex_frames m)). searchable (ma_inner m) f"
    and "\<forall>f \<in> set (butlast (drop stop (ex_frames m))). fr_ip f \<noteq> 0" and "length (ex_frames m) < n"
  shows "unwind_loop n exn thrown ip stop m = (case first_handler (ma_inner m) thrown ip (rev (drop stop (ex_frames m))) of
     None \<Rightarrow> (Inl (Pending exn), cut_above stop m)
   | Some (k, f, h) \<Rightarrow> enter_exception_handler exn h (fr_operand_base f) (cut_above (stop + k + 1) m))"
  using assms
proof (induction n arbitrary: m ip)
  case (Suc n)
  show ?case
  proof (cases "length (ex_frames m) \<le> stop")
    case True
    then show ?thesis by (simp add: bindc_def cut_above_def)
  next
    case False
    then obtain fs f where f: "ex_frames m = fs @ [f]" by (cases "ex_frames m" rule: rev_cases) auto
    with False have s: "stop \<le> length fs" by simp
    let ?m = "cut_above (length fs) m"
    have d: "drop stop (ex_frames m) = drop stop fs @ [f]" using f s by simp
    have sf: "searchable (ma_inner m) f" using Suc.prems(2) d by simp
    note pop = pop_unwound_cut [OF Suc.prems(1) f]
    have m': "ex_frames ?m = fs" "ma_inner ?m = ma_inner m" using f by (simp_all add: cut_above_def truncate_to_def)
    have loop: "unwind_loop (Suc n) exn thrown ip stop m = (case handler_of (ma_inner m) thrown ip f of
        Some h \<Rightarrow> enter_exception_handler exn h (fr_operand_base f) m
      | None \<Rightarrow> (if length fs = stop then (Inl (Pending exn), ?m) else if fr_ip (last fs) = 0 then (Inl (frame_err ''caller return address underflow''), ?m)
          else unwind_loop n exn thrown (fr_ip (last fs) - 1) stop ?m))"
      using f s find_clause_spec [OF sf, of ip thrown] pop(1) m'
      by (auto simp: bindc_def inner_of_def last_frame_def checked_sub_def lift_opt_def split: option.split)
    have top: "cut_above (stop + length (drop stop fs) + 1) m = m" using f s by (simp add: cut_above_def)
    show ?thesis
    proof (cases "handler_of (ma_inner m) thrown ip f")
      case (Some h)
      then show ?thesis using loop top by (simp add: d)
    next
      case None
      show ?thesis
      proof (cases "length fs = stop")
        case True
        with None loop show ?thesis by (simp add: d f cut_above_def)
      next
        case False
        with s obtain gs g where g: "fs = gs @ [g]" "stop \<le> length gs" by (cases fs rule: rev_cases) auto
        have ip: "fr_ip g \<noteq> 0" using Suc.prems(3) d g by (simp add: butlast_append)
        have IH: "unwind_loop n exn thrown (fr_ip g - 1) stop ?m = (case first_handler (ma_inner m) thrown (fr_ip g - 1) (rev (drop stop fs)) of
            None \<Rightarrow> (Inl (Pending exn), cut_above stop ?m)
          | Some (k, f, h) \<Rightarrow> enter_exception_handler exn h (fr_operand_base f) (cut_above (stop + k + 1) ?m))"
          using Suc.IH [OF pop(2), of "fr_ip g - 1"] Suc.prems(2-4) m' d f g by (simp add: butlast_append)
        have bound: "k < length (drop stop fs)" if "first_handler (ma_inner m) thrown (fr_ip g - 1) (rev (drop stop fs)) = Some (k, x)" for k x
          using first_handler_bound [OF that] by simp
        show ?thesis
          using loop IH None ip g False bound cut_above_twice [OF Suc.prems(1) f] s
          by (auto simp: d split: option.splits)
      qed
    qed
  qed
qed simp

section \<open>Entering the handler\<close>

text \<open>The operands a clause receives: the arguments of the exception, the exception itself, both or neither.\<close>

definition payload :: "exn_entity \<Rightarrow> u32 \<Rightarrow> handler_rec \<Rightarrow> val list" where
  "payload e exn h = (if hr_payload_args h then ee_args e else []) @
     (if hr_payload_ref h then [ExnRef (Some (rooted_from_raw exn RkExn))] else [])"

definition landed :: "handler_rec \<Rightarrow> nat \<Rightarrow> val list \<Rightarrow> cell list \<Rightarrow> machine \<Rightarrow> machine" where
  "landed h n vs cs m = m\<lparr>ex_values := take n (ex_values m) @ cs, ex_shadow := take n (ex_shadow m) @ map of_val vs,
     ex_frames := butlast (ex_frames m) @ [(last (ex_frames m))\<lparr>fr_ip := hr_landing_ip h\<rparr>]\<rparr>"

lemma encode_all_append:
  "encode_all (xs @ ys) = Inr cs \<longleftrightarrow> (\<exists>a b. encode_all xs = Inr a \<and> encode_all ys = Inr b \<and> cs = a @ b)"
proof (induction xs arbitrary: cs)
  case (Cons x xs)
  show ?case
  proof (cases "encode x")
    case (Inr c)
    then show ?thesis using Cons.IH by (cases "encode_all xs"; cases "encode_all (xs @ ys)"; cases "encode_all ys") auto
  qed simp
qed simp

lemma push_vals_spec:
  "encode_all vs = Inr cs \<Longrightarrow> push_vals vs m = (Inr (), m\<lparr>ex_values := ex_values m @ cs, ex_shadow := ex_shadow m @ map of_val vs\<rparr>)"
proof (induction vs arbitrary: m cs)
  case (Cons v vs)
  then obtain c ds where c: "encode v = Inr c" "encode_all vs = Inr ds" "cs = c # ds"
    by (cases "encode v"; cases "encode_all vs") auto
  show ?case using Cons.IH [OF c(2)] by (simp add: push_val_Inr [OF c(1)] bindc_def c(3))
qed simp

lemma enter_handler_spec:
  assumes len: "length (ex_shadow m) = length (ex_values m)" and f: "ex_frames m \<noteq> []"
    and n: "floor + hr_restore_height h \<le> length (ex_values m)" "floor + hr_restore_height h \<le> u32_max"
    and e: "exn_at (rooted_from_raw exn RkExn) (ma_inner m) = Inr e" and cs: "encode_all (payload e exn h) = Inr cs"
  shows "enter_exception_handler exn h floor m = (Inr (), landed h (floor + hr_restore_height h) (payload e exn h) cs m)"
proof -
  let ?n = "floor + hr_restore_height h" and ?r = "ExnRef (Some (rooted_from_raw exn RkExn))"
  from cs obtain as rs where p: "encode_all (if hr_payload_args h then ee_args e else []) = Inr as"
    "encode_all (if hr_payload_ref h then [?r] else []) = Inr rs" "cs = as @ rs"
    unfolding payload_def encode_all_append by blast
  let ?m1 = "truncate_to ?n m"
  let ?m2 = "?m1\<lparr>ex_values := ex_values ?m1 @ as, ex_shadow := ex_shadow ?m1 @ map of_val (if hr_payload_args h then ee_args e else [])\<rparr>"
  let ?m3 = "?m2\<lparr>ex_values := ex_values ?m2 @ rs, ex_shadow := ex_shadow ?m2 @ map of_val (if hr_payload_ref h then [?r] else [])\<rparr>"
  have a: "(if hr_payload_args h then bindc (inner_of (exn_at (rooted_from_raw exn RkExn))) (\<lambda>e. push_vals (ee_args e)) else ret ()) ?m1 = (Inr (), ?m2)"
    using p(1) e by (auto simp: bindc_def inner_of_def push_vals_spec truncate_to_def)
  have b: "(if hr_payload_ref h then push_val ?r else ret ()) ?m2 = (Inr (), ?m3)"
    using p(2) by (cases "encode ?r") (auto simp: push_val_Inr)
  have "enter_exception_handler exn h floor m = set_top_ip ''missing handler frame'' (hr_landing_ip h) ?m3"
    using n len a b by (simp add: enter_exception_handler_def bindc_def lift_opt_def checked_add_def)
  also have "\<dots> = (Inr (), landed h ?n (payload e exn h) cs m)"
    using f by (simp add: set_top_ip_def landed_def payload_def p(3) truncate_to_def)
  finally show ?thesis .
qed

section \<open>Properties\<close>

text \<open>C8. An exception goes to the first handler. Searching from the throwing frame outwards, each caller at the call it is suspended in, the
  exception is handled by the first frame above the boundary with a clause that guards the position and matches the tag, innermost
  span and source order first. That frame continues at the clause's landing pad with its operands cut to the clause's height and the payload
  on top, and everything above it is gone. Without such a clause the exception stays pending and all frames above the boundary are gone,
  the stacks below untouched.\<close>

theorem exception_delivered:
  assumes "stack_ok m" and "\<forall>f \<in> set (drop stop (ex_frames m)). searchable (ma_inner m) f"
    and "\<forall>f \<in> set (butlast (drop stop (ex_frames m))). fr_ip f \<noteq> 0" and "exn_at (rooted_from_raw exn RkExn) (ma_inner m) = Inr e"
  shows "case first_handler (ma_inner m) (ee_tag e) ip (rev (drop stop (ex_frames m))) of
     None \<Rightarrow> unwind (Pending exn) ip stop m = (Inl (Pending exn), cut_above stop m)
   | Some (k, f, h) \<Rightarrow> (\<forall>cs. encode_all (payload e exn h) = Inr cs \<longrightarrow>
       fr_operand_base f + hr_restore_height h \<le> min u32_max (length (ex_values (cut_above (stop + k + 1) m))) \<longrightarrow>
       unwind (Pending exn) ip stop m =
         (Inr (), landed h (fr_operand_base f + hr_restore_height h) (payload e exn h) cs (cut_above (stop + k + 1) m)))"
proof -
  have u: "unwind (Pending exn) ip stop m = unwind_loop (Suc (length (ex_frames m))) exn (ee_tag e) ip stop m"
    using assms(4) by (simp add: unwind_def bindc_def inner_of_def)
  note loop = unwind_loop_spec [OF assms(1-3), of "Suc (length (ex_frames m))" exn "ee_tag e" ip]
  show ?thesis
  proof (cases "first_handler (ma_inner m) (ee_tag e) ip (rev (drop stop (ex_frames m)))")
    case None
    with u loop show ?thesis by simp
  next
    case (Some t)
    obtain k f h where t: "t = (k, f, h)" by (cases t) auto
    have k: "k < length (drop stop (ex_frames m))" using first_handler_bound [of "ma_inner m" _ ip _ k] Some t by fastforce
    let ?m = "cut_above (stop + k + 1) m"
    have "length (ex_shadow ?m) = length (ex_values ?m)" "ex_frames ?m \<noteq> []" "ma_inner ?m = ma_inner m"
      using assms(1) k by (auto simp: cut_above_def truncate_to_def stack_ok_def)
    then show ?thesis using enter_handler_spec [of ?m "fr_operand_base f" h exn e] u loop Some t assms(4) by simp
  qed
qed

text \<open>A function that guards its first instruction with a clause for every exception and is suspended there, calling a function that throws.\<close>

definition catch_all :: handler_rec where
  "catch_all = \<lparr>hr_tag = None, hr_restore_height = 0, hr_payload_args = True, hr_payload_ref = False, hr_landing_ip = 5\<rparr>"

definition catch_code :: code where
  "catch_code = \<lparr>co_module = (co_module sample_code)\<lparr>mi_functions := [sample_func\<lparr>cf_handlers := \<lparr>sp_start = 0, sp_len = 1\<rparr>\<rparr>],
     mi_code := (mi_code (co_module sample_code))\<lparr>ca_handlers := [\<lparr>hs_start_ip = 0, hs_end_ip = 1, hs_clauses = [catch_all]\<rparr>]\<rparr>\<rparr>, co_index = 0\<rparr>"

definition throwing_machine :: machine where
  "throwing_machine = (let m = machine_of (snd (enter_call TopLevel sample_instance 0 catch_code [I32 5] execution_default))
       (snd (alloc_exn \<lparr>ee_tag = sample_instance, ee_args = [I32 42]\<rparr> sample_inner))
     in snd (push_call sample_instance 0 sample_code (snd (push_i32 9 (snd (set_top_ip [] 1 m))))))"

lemma throwing_facts:
  "stack_ok throwing_machine" "\<forall>f \<in> set (butlast (drop 1 (ex_frames throwing_machine))). fr_ip f \<noteq> 0"
  "exn_at (rooted_from_raw 0 RkExn) (ma_inner throwing_machine) = Inr \<lparr>ee_tag = sample_instance, ee_args = [I32 42]\<rparr>"
  "map (\<lambda>(k, f, h). (k, fr_operand_base f, h)) (case first_handler (ma_inner throwing_machine) sample_instance 0 (rev (drop 1 (ex_frames throwing_machine))) of
     None \<Rightarrow> [] | Some x \<Rightarrow> [x]) = [(0, 2, catch_all)]"
  "length (ex_values (cut_above 2 throwing_machine)) = 2"
  by code_simp+

lemma throwing_searchable: "\<forall>f \<in> set (drop 1 (ex_frames throwing_machine)). searchable (ma_inner throwing_machine) f"
proof -
  have "list_all (\<lambda>f. (case instance_at (fr_instance f) (ma_inner throwing_machine) of Inr _ \<Rightarrow> True | Inl _ \<Rightarrow> False) \<and>
      list_all (\<lambda>sp. list_all (\<lambda>c. hr_tag c = None) (hs_clauses sp)) (code_handlers (fr_code f))) (drop 1 (ex_frames throwing_machine))"
    by code_simp
  moreover have "searchable s f" if "case instance_at (fr_instance f) s of Inr _ \<Rightarrow> True | Inl _ \<Rightarrow> False"
      "list_all (\<lambda>sp. list_all (\<lambda>c. hr_tag c = None) (hs_clauses sp)) (code_handlers (fr_code f))" for s f
    using that by (cases "instance_at (fr_instance f) s") (auto simp: searchable_def list_all_iff)
  ultimately show ?thesis unfolding list_all_iff by blast
qed

theorem exception_delivered_witness:
  "fst (unwind (Pending 0) 0 1 throwing_machine) = Inr () \<and>
   map fr_ip (ex_frames (snd (unwind (Pending 0) 0 1 throwing_machine))) = [0, 5] \<and>
   drop 2 (ex_values (snd (unwind (Pending 0) 0 1 throwing_machine))) = [from_i32 42]"
proof -
  let ?m = throwing_machine and ?e = "\<lparr>ee_tag = sample_instance, ee_args = [I32 42]\<rparr>"
  obtain f where f: "first_handler (ma_inner ?m) sample_instance 0 (rev (drop 1 (ex_frames ?m))) = Some (0, f, catch_all)" "fr_operand_base f = 2"
    using throwing_facts(4) by (cases "first_handler (ma_inner ?m) sample_instance 0 (rev (drop 1 (ex_frames ?m)))") auto
  have p: "encode_all (payload ?e 0 catch_all) = Inr [from_i32 42]" "payload ?e 0 catch_all = [I32 42]" "hr_restore_height catch_all = 0" by code_simp+
  have run: "unwind (Pending 0) 0 1 ?m = (Inr (), landed catch_all 2 [I32 42] [from_i32 42] (cut_above 2 ?m))"
    using exception_delivered [OF throwing_facts(1) throwing_searchable throwing_facts(2,3), of 0] f p throwing_facts(5)
    by (simp add: numeral_2_eq_2)
  have "map fr_ip (ex_frames (landed catch_all 2 [I32 42] [from_i32 42] (cut_above 2 ?m))) = [0, 5]"
    "drop 2 (ex_values (landed catch_all 2 [I32 42] [from_i32 42] (cut_above 2 ?m))) = [from_i32 42]" by code_simp+
  with run show ?thesis by simp
qed

end
