(* ===== verification/Exec_Panic.thy ===== *)
theory Exec_Panic
  imports Exec_Confine
begin

text \<open>
  Containment of a panic in embedder code (\<^verbatim>\<open>src/exec/guard.rs\<close>): the call that was running is discarded, the call around it is parked
  again, and the roots, the pending exception and the latched error are as the crossing found them, before the panic goes on.
\<close>

lemma held_discard:
  assumes ok: "stack_ok s" and h: "held (ground_of k inst c s) ex"
  shows "discard_current_call ex = (Inr (length (ex_values s), length (ex_frames s)), s)"
proof -
  have "\<forall>f \<in> set (drop (Suc (length (ex_frames s))) (ex_frames ex)). fr_delimiter f = None"
    using h by (simp add: held_def ground_of_def)
  from discard_current_call_above [OF held_above [OF ok h] this] show ?thesis by (simp add: restored_eq)
qed

text \<open>The store after the restoration, field by field.\<close>

definition contained :: "execution \<Rightarrow> host_scope \<Rightarrow> store_inner \<Rightarrow> store_inner \<Rightarrow> bool" where
  "contained s sc before after \<longleftrightarrow> after = before\<lparr>si_exec_slot := (if ex_frames s = [] then execution_default else s),
     si_gc_roots := take (sc_mark sc) (si_gc_roots before), si_pending_exception := sc_pending sc,
     si_pending_exception_generation := sc_generation sc, si_internal_error := None\<rparr>"

lemma restore_contained:
  assumes "stack_ok s" and "held (ground_of k inst c s) (si_exec_slot t)"
  shows "contained s sc t (restore_after_panic (sc_mark sc) (sc_pending sc) (sc_generation sc) t)"
  using held_discard [OF assms]
  by (simp add: contained_def restore_after_panic_def take_exec_def park_exec_def gc_roots_truncate_def restore_pending_exception_def)

lemma prep_host_scope:
  assumes run: "prep_host f w = (Inr st, w1)"
  shows "hc_scope st = \<lparr>sc_mark = length (si_gc_roots (st_inner (wo_store w))), sc_pending = si_pending_exception (st_inner (wo_store w)),
    sc_generation = si_pending_exception_generation (st_inner (wo_store w))\<rparr>"
proof -
  obtain fe w0 where fe: "on_machine (inner_of (func_at f)) w = (Inr fe, w0)" "(case fe of FuncHost _ hsig hi \<Rightarrow> prepare_host_call hi hsig
      | FuncWasm _ _ \<Rightarrow> fail (Panic ''HostCall only suspends on sync host funcs'')) w0 = (Inr st, w1)"
    using run by (auto simp: prep_host_def bindc_eq_Inr)
  then obtain z hsig hi where host: "fe = FuncHost z hsig hi" "prepare_host_call hi hsig w0 = (Inr st, w1)"
    by (cases fe) auto
  have w0: "st_inner (wo_store w0) = st_inner (wo_store w)"
    using fe(1) by (auto simp: on_machine_def inner_of_def put_machine_def world_machine_def machine_of_def)
  from host(2) obtain ps w2 where pop: "on_machine (pop_params (hs_params hsig)) w0 = (Inr ps, w2)"
    "hc_scope st = \<lparr>sc_mark = gc_roots_mark (st_inner (wo_store w2)), sc_pending = si_pending_exception (st_inner (wo_store w2)),
      sc_generation = si_pending_exception_generation (st_inner (wo_store w2))\<rparr>"
    by (auto simp: prepare_host_call_def open_scope_def bindc_eq_Inr inner_get_def inner_upd_def on_store_def upd_store_def split: prod.splits)
  obtain m where m: "pop_params (hs_params hsig) (world_machine w0) = (Inr ps, m)" "w2 = put_machine m w0"
    using pop(1) by (auto simp: on_machine_def split: prod.splits)
  have "ma_inner m = ma_inner (world_machine w0)" by (rule quietD [OF quiet_pops(16) m(1)])
  then have "st_inner (wo_store w2) = st_inner (wo_store w0)" by (simp add: m(2) put_machine_def world_machine_def machine_of_def)
  with pop(2) w0 show ?thesis by (simp add: gc_roots_mark_def)
qed

section \<open>Properties\<close>

text \<open>C9. A panic in a host function is contained. When the callback of a host call panics, with the execution it found parked still in its
  place, the call that invoked it is discarded down to the execution it was entered from, which is parked again if there was one; the roots
  and the pending exception are those of before the crossing, no internal error stays latched, nothing else of the store changes, and the
  panic goes on.\<close>

theorem host_panic_contained:
  assumes "stack_ok s" and "held (ground_of k i c s) (wo_exec w)" and prep: "prep_host f w = (Inr st, w1)"
    and cb: "em_call em (hc_host_index st) = Some cb"
    and panic: "cb (Some inst) (hc_params st) (hc_results st)
      ((wo_store w1)\<lparr>st_inner := (st_inner (wo_store w1))\<lparr>si_exec_slot := wo_exec w1\<rparr>\<rparr>) = (Inl (Panic p), t)"
    and slot: "si_exec_slot (st_inner t) = wo_exec w1"
  shows "\<exists>w'. invoke_host em f inst stop w = (Inl (Panic p), w') \<and>
    st_inner (wo_store w') = (st_inner t)\<lparr>si_exec_slot := (if ex_frames s = [] then execution_default else s),
      si_gc_roots := take (length (si_gc_roots (st_inner (wo_store w)))) (si_gc_roots (st_inner t)),
      si_pending_exception := si_pending_exception (st_inner (wo_store w)),
      si_pending_exception_generation := si_pending_exception_generation (st_inner (wo_store w)), si_internal_error := None\<rparr>"
proof -
  let ?g = "ground_of k i c s" and ?sc = "hc_scope st"
  have "held ?g (wo_exec w1)"
    using wtriD [OF wtri_prep_host [OF ground_of_ok [OF assms(1)]] assms(2) _ prep, of "\<lambda>_. True"] by (simp add: is_panic_def)
  then have h: "held ?g (si_exec_slot (st_inner t))" using slot by simp
  define t' where "t' = t\<lparr>st_inner := restore_after_panic (sc_mark ?sc) (sc_pending ?sc) (sc_generation ?sc) (st_inner t)\<rparr>"
  have "invoke_host em f inst stop w = (Inl (Panic p), \<lparr>wo_exec = si_exec_slot (st_inner (wo_store w1)), wo_store = t'\<rparr>)"
    using prep cb panic by (simp add: invoke_host_def bindc_def guarded_def swap_exec_def inner_upd_def on_store_def upd_store_def t'_def)
  moreover have "contained s ?sc (st_inner t) (st_inner t')" using restore_contained [OF assms(1) h] by (simp add: t'_def)
  ultimately show ?thesis using prep_host_scope [OF prep] by (auto simp: contained_def)
qed

text \<open>A host function that pushes a root and panics, called from a call nested in another.\<close>

definition panicking_embedder :: "unit embedder" where
  "panicking_embedder = \<lparr>em_call = (\<lambda>_. Some (\<lambda>_ _ _ t. (Inl (Panic ''p''), t\<lparr>st_inner := push_gc_root 3 RkAny (st_inner t)\<rparr>))),
     em_epoch = None, em_alloc = (\<lambda>_. True)\<rparr>"

definition panicking_world :: "unit world" where
  "panicking_world = \<lparr>wo_exec = snd (enter_call HostReentry sample_instance 0 sample_code [I32 5] sample_exec),
     wo_store = \<lparr>st_inner = snd (alloc_func (FuncHost 0 \<lparr>hs_params = [], hs_results = [], hs_result_defaults = []\<rparr> 0) (store_new 1 sample_engine)),
       st_data = (), st_limiter = None\<rparr>\<rparr>"

definition panicking_func :: func_handle where
  "panicking_func = \<lparr>fh_index = 0, fh_store = 1\<rparr>"

theorem host_panic_contained_witness:
  "\<exists>w'. invoke_host panicking_embedder panicking_func sample_instance 3 panicking_world = (Inl (Panic ''p''), w') \<and>
    si_exec_slot (st_inner (wo_store w')) = sample_exec \<and> si_gc_roots (st_inner (wo_store w')) = []"
proof -
  let ?w = panicking_world
  have "fst (enter_call HostReentry sample_instance 0 sample_code [I32 5] sample_exec) = Inr ()" by code_simp
  then have h: "held (ground_of HostReentry sample_instance sample_code sample_exec) (wo_exec ?w)"
    by (intro enter_call_holds [OF stack_ok_sample, of _ _ 0 _ "[I32 5]"]) (simp add: panicking_world_def prod_eq_iff)
  have "map_sum id hc_host_index (fst (prep_host panicking_func ?w)) = Inr 0" by code_simp
  then obtain st w1 where st: "prep_host panicking_func ?w = (Inr st, w1)" "hc_host_index st = 0"
    by (cases "prep_host panicking_func ?w"; cases "fst (prep_host panicking_func ?w)") auto
  define t where "t = (wo_store w1)\<lparr>st_inner := push_gc_root 3 RkAny ((st_inner (wo_store w1))\<lparr>si_exec_slot := wo_exec w1\<rparr>)\<rparr>"
  define cb where "cb = (\<lambda>(_ :: entity_handle option) (_ :: val list) (_ :: val list) (t :: unit store).
    (Inl (Panic ''p'') :: val list result, t\<lparr>st_inner := push_gc_root 3 RkAny (st_inner t)\<rparr>))"
  have cb: "em_call panicking_embedder (hc_host_index st) = Some cb" by (simp add: panicking_embedder_def cb_def)
  have "si_gc_roots (st_inner (wo_store ?w)) = []" "ex_frames sample_exec \<noteq> []" by code_simp+
  then show ?thesis using host_panic_contained [OF stack_ok_sample h st(1) cb, of sample_instance "''p''" t 3]
    by (auto simp: cb_def t_def push_gc_root_def)
qed

end
