(* ===== verification/Const_Eval.thy ===== *)
theory Const_Eval
  imports Exec_Gc
begin

text \<open>
  Constant expressions at instantiation, \<^verbatim>\<open>src/instance/const_eval.rs\<close>: a stack machine over the operators of a global, table or segment
  initializer. The operand stack is a list with its top first; a missing or mistyped operand is a panic. The elements of a segment are
  expressions themselves, and an expression may read a segment, so the evaluation is recursive; the number of nested evaluations
  that the native stack has room for is a parameter.
\<close>

section \<open>Context and operands\<close>

record const_ctx =
  cc_module :: module_inner
  cc_funcs :: "func_handle list"
  cc_globals :: "entity_handle list"

type_synonym 'a const_action = "(store_inner, 'a \<times> val list) action"

definition const_pop :: "val list \<Rightarrow> (val \<times> val list) result" where
  "const_pop st = (case st of v # vs \<Rightarrow> Inr (v, vs) | [] \<Rightarrow> Inl (Panic ''const-expr operand stack underflow''))"

definition const_pop_i32 :: "val list \<Rightarrow> (u32 \<times> val list) result" where
  "const_pop_i32 st = bindr (const_pop st) (\<lambda>(v, rest). bindr (unwrap_i32 v) (\<lambda>x. Inr (x, rest)))"

definition const_pop_i64 :: "val list \<Rightarrow> (u64 \<times> val list) result" where
  "const_pop_i64 st = bindr (const_pop st) (\<lambda>(v, rest). bindr (unwrap_i64 v) (\<lambda>x. Inr (x, rest)))"

definition const_i32_bin :: "(u32 \<Rightarrow> u32 \<Rightarrow> u32) \<Rightarrow> val list \<Rightarrow> (val \<times> val list) result" where
  "const_i32_bin f st = bindr (const_pop_i32 st) (\<lambda>(b, st1). bindr (const_pop_i32 st1) (\<lambda>(a, st2). Inr (I32 (f a b), st2)))"

definition const_i64_bin :: "(u64 \<Rightarrow> u64 \<Rightarrow> u64) \<Rightarrow> val list \<Rightarrow> (val \<times> val list) result" where
  "const_i64_bin f st = bindr (const_pop_i64 st) (\<lambda>(b, st1). bindr (const_pop_i64 st1) (\<lambda>(a, st2). Inr (I64 (f a b), st2)))"

section \<open>Aggregates\<close>

definition const_alloc :: "gc_object \<Rightarrow> val list \<Rightarrow> val const_action" where
  "const_alloc ob st = bindc (alloc_gc_unreserved ob) (\<lambda>slot. ret (anyref_value (anyref_handle_slot slot), st))"

definition const_alloc_array :: "canonical_type_id \<Rightarrow> u8 list \<Rightarrow> val list \<Rightarrow> val const_action" where
  "const_alloc_array tid d = const_alloc (new_array tid d)"

text \<open>Each slot of the list takes the next operand.\<close>

fun const_fill :: "slot list \<Rightarrow> u8 list \<Rightarrow> val list \<Rightarrow> (u8 list \<times> val list) result" where
  "const_fill [] d st = Inr (d, st)"
| "const_fill (sl # sls) d st = bindr (const_pop st) (\<lambda>(v, rest). bindr (write_slot sl d v) (\<lambda>d'. const_fill sls d' rest))"

definition const_struct :: "const_ctx \<Rightarrow> val list \<Rightarrow> nat \<Rightarrow> bool \<Rightarrow> val const_action" where
  "const_struct ctx st ty dflt =
     bindc (lift_res (mi_type_id (cc_module ctx) ty)) (\<lambda>tid.
     bindc (lift_res (mi_struct_layout (cc_module ctx) ty)) (\<lambda>l.
     bindc (lift_res (let d = replicate (sl_size l) 0 in
       if dflt then bindr (write_slots (map (\<lambda>sl. (sl, default_for_slot sl)) (sl_fields l)) d) (\<lambda>d'. Inr (d', st))
       else const_fill (rev (sl_fields l)) d st)) (\<lambda>(d, st').
     const_alloc (new_struct tid d) st')))"

definition const_array :: "const_ctx \<Rightarrow> val list \<Rightarrow> nat \<Rightarrow> bool \<Rightarrow> val const_action" where
  "const_array ctx st ty dflt =
     bindc (lift_res (mi_type_id (cc_module ctx) ty)) (\<lambda>tid.
     bindc (lift_res (mi_array_layout (cc_module ctx) ty)) (\<lambda>l.
     bindc (lift_res (const_pop_i32 st)) (\<lambda>(n, st1).
     bindc (lift_res (elem_bytes (unat n) (al_stride l))) (\<lambda>len.
     bindc (\<lambda>s. (check_capacity (si_gc s) len, s)) (\<lambda>_.
     bindc (lift_res (if dflt then Inr (default_for_slot (elem_at l 0), st1) else const_pop st1)) (\<lambda>(fill, st2).
     bindc (lift_res (write_each l (unat n) fill (replicate len 0))) (\<lambda>d.
     const_alloc_array tid d st2)))))))"

definition const_array_fixed :: "const_ctx \<Rightarrow> val list \<Rightarrow> nat \<Rightarrow> nat \<Rightarrow> val const_action" where
  "const_array_fixed ctx st ty n =
     bindc (lift_res (mi_type_id (cc_module ctx) ty)) (\<lambda>tid.
     bindc (lift_res (mi_array_layout (cc_module ctx) ty)) (\<lambda>l.
     bindc (lift_res (const_fill (map (elem_at l) (rev [0..<n])) (replicate (body_size l n) 0) st)) (\<lambda>(d, st').
     const_alloc_array tid d st')))"

definition const_array_data :: "const_ctx \<Rightarrow> val list \<Rightarrow> nat \<Rightarrow> nat \<Rightarrow> val const_action" where
  "const_array_data ctx st ty data =
     bindc (lift_res (mi_type_id (cc_module ctx) ty)) (\<lambda>tid.
     bindc (lift_res (mi_array_layout (cc_module ctx) ty)) (\<lambda>l.
     bindc (lift_res (const_pop_i32 st)) (\<lambda>(n, st1).
     bindc (lift_res (const_pop_i32 st1)) (\<lambda>(off, st2).
     bindc (lift_res (elem_bytes (unat n) (al_stride l))) (\<lambda>len.
     bindc (lift_res (index_at (mi_datas (cc_module ctx)) data)) (\<lambda>seg.
     bindc (lift_res (arr_range (unat off) len (length (ds_bytes seg)) MemoryOutOfBounds)) (\<lambda>_.
     bindc (\<lambda>s. (check_capacity (si_gc s) len, s)) (\<lambda>_.
     bindc (lift_res (slice_range (ds_bytes seg) (unat off) (unat off + len))) (\<lambda>d.
     const_alloc_array tid d st2)))))))))"

definition const_array_elem :: "(elem_items \<Rightarrow> (store_inner, ref_val list) action) \<Rightarrow> const_ctx \<Rightarrow> val list \<Rightarrow> nat \<Rightarrow> nat \<Rightarrow> val const_action" where
  "const_array_elem refs_of ctx st ty elem =
     bindc (lift_res (mi_type_id (cc_module ctx) ty)) (\<lambda>tid.
     bindc (lift_res (mi_array_layout (cc_module ctx) ty)) (\<lambda>l.
     bindc (lift_res (const_pop_i32 st)) (\<lambda>(n, st1).
     bindc (lift_res (const_pop_i32 st1)) (\<lambda>(off, st2).
     bindc (lift_res (index_at (mi_elems (cc_module ctx)) elem)) (\<lambda>seg.
     bindc (refs_of (es_items seg)) (\<lambda>refs.
     bindc (lift_res (arr_range (unat off) (unat n) (length refs) TableOutOfBounds)) (\<lambda>_.
     bindc (lift_res (elem_bytes (unat n) (al_stride l))) (\<lambda>len.
     bindc (\<lambda>s. (check_capacity (si_gc s) len, s)) (\<lambda>_.
     bindc (lift_res (slice_range refs (unat off) (unat off + unat n))) (\<lambda>rs.
     bindc (lift_res (write_slots (map (\<lambda>i. (elem_at l i, from_ref (rs ! i))) [0..<length rs]) (replicate (body_size l (unat n)) 0))) (\<lambda>d.
     const_alloc_array tid d st2)))))))))))"

section \<open>Evaluation\<close>

definition const_global :: "const_ctx \<Rightarrow> nat \<Rightarrow> store_inner \<Rightarrow> val result" where
  "const_global ctx g s = bindr (index_at (cc_globals ctx) g) (\<lambda>h. bindr (global_at h s) (\<lambda>ge. Inr (ge_value ge)))"

definition const_step :: "(elem_items \<Rightarrow> (store_inner, ref_val list) action) \<Rightarrow> const_ctx \<Rightarrow> const_op \<Rightarrow> val list \<Rightarrow> val const_action" where
  "const_step refs_of ctx op st = (case op of
     CI32 v \<Rightarrow> ret (I32 v, st)
   | CI64 v \<Rightarrow> ret (I64 v, st)
   | CF32 v \<Rightarrow> ret (F32 v, st)
   | CF64 v \<Rightarrow> ret (F64 v, st)
   | CRefNull heap \<Rightarrow> ret (null_for_heap heap, st)
   | CRefFunc i \<Rightarrow> bindc (lift_res (index_at (cc_funcs ctx) i)) (\<lambda>f. ret (FuncRef (Some f), st))
   | CGlobalGet g \<Rightarrow> bindc (\<lambda>s. (const_global ctx g s, s)) (\<lambda>v. ret (v, st))
   | CI32Add \<Rightarrow> lift_res (const_i32_bin (+) st)
   | CI32Sub \<Rightarrow> lift_res (const_i32_bin (-) st)
   | CI32Mul \<Rightarrow> lift_res (const_i32_bin (*) st)
   | CI64Add \<Rightarrow> lift_res (const_i64_bin (+) st)
   | CI64Sub \<Rightarrow> lift_res (const_i64_bin (-) st)
   | CI64Mul \<Rightarrow> lift_res (const_i64_bin (*) st)
   | CRefI31 \<Rightarrow> lift_res (bindr (const_pop_i32 st) (\<lambda>(x, rest). Inr (anyref_value (anyref_handle_i31 x), rest)))
   | CStructNew ty \<Rightarrow> const_struct ctx st ty False
   | CStructNewDefault ty \<Rightarrow> const_struct ctx st ty True
   | CArrayNew ty \<Rightarrow> const_array ctx st ty False
   | CArrayNewDefault ty \<Rightarrow> const_array ctx st ty True
   | CArrayNewFixed ty n \<Rightarrow> const_array_fixed ctx st ty n
   | CArrayNewData ty d \<Rightarrow> const_array_data ctx st ty d
   | CArrayNewElem ty e \<Rightarrow> const_array_elem refs_of ctx st ty e
   | CAnyConvertExtern \<Rightarrow> bindc (lift_res (const_pop st)) (\<lambda>(v, rest). bindc (any_convert_extern v) (\<lambda>x. ret (x, rest)))
   | CExternConvertAny \<Rightarrow> bindc (lift_res (const_pop st)) (\<lambda>(v, rest). bindc (extern_convert_any v) (\<lambda>x. ret (x, rest))))"

fun const_ops :: "(elem_items \<Rightarrow> (store_inner, ref_val list) action) \<Rightarrow> const_ctx \<Rightarrow> const_op list \<Rightarrow> val list \<Rightarrow> (store_inner, val list) action" where
  "const_ops refs_of ctx [] st = ret st"
| "const_ops refs_of ctx (op # ops) st = bindc (const_step refs_of ctx op st) (\<lambda>(v, rest). const_ops refs_of ctx ops (v # rest))"

definition const_value :: "(elem_items \<Rightarrow> (store_inner, ref_val list) action) \<Rightarrow> const_ctx \<Rightarrow> const_expr \<Rightarrow> (store_inner, val) action" where
  "const_value refs_of ctx e = bindc (const_ops refs_of ctx e []) (\<lambda>st.
     case st of v # _ \<Rightarrow> ret v | [] \<Rightarrow> fail (Panic ''const expr yields one value''))"

definition val_to_ref :: "val \<Rightarrow> ref_val result" where
  "val_to_ref v = (case v of FuncRef f \<Rightarrow> Inr (RefFunc f) | ExternRef e \<Rightarrow> Inr (RefExtern e) | AnyRef a \<Rightarrow> Inr (RefAny a)
     | ExnRef x \<Rightarrow> Inr (RefExn x) | _ \<Rightarrow> Inl (Msg ''global is not a reference''))"

fun each :: "('a \<Rightarrow> ('s, 'b) action) \<Rightarrow> 'a list \<Rightarrow> ('s, 'b list) action" where
  "each f [] = ret []"
| "each f (x # xs) = bindc (f x) (\<lambda>y. bindc (each f xs) (\<lambda>ys. ret (y # ys)))"

text \<open>The first argument is the room for nested evaluations; without any the native stack overflows.\<close>

fun elem_refs :: "nat \<Rightarrow> const_ctx \<Rightarrow> elem_items \<Rightarrow> (store_inner, ref_val list) action" where
  "elem_refs 0 ctx items = fail (Panic ''stack overflow'')"
| "elem_refs (Suc depth) ctx items = (case items of
     ElemFuncs idxs \<Rightarrow> each (\<lambda>i. bindc (lift_res (index_at (cc_funcs ctx) i)) (\<lambda>f. ret (RefFunc (Some f)))) idxs
   | ElemExprs exprs \<Rightarrow> each (\<lambda>e. bindc (const_value (elem_refs depth ctx) ctx e) (\<lambda>v. lift_res (val_to_ref v))) exprs)"

definition eval_const :: "nat \<Rightarrow> const_ctx \<Rightarrow> const_expr \<Rightarrow> (store_inner, val) action" where
  "eval_const depth ctx e = const_value (elem_refs depth ctx) ctx e"

definition eval_const_ref :: "nat \<Rightarrow> const_ctx \<Rightarrow> const_expr \<Rightarrow> (store_inner, ref_val) action" where
  "eval_const_ref depth ctx e = bindc (eval_const depth ctx e) (\<lambda>v. lift_res (val_to_ref v))"

section \<open>An evaluation only adds objects\<close>

text \<open>Every object and externref stays in place and nothing but the two arenas changes.\<close>

definition heap_grown :: "store_inner \<Rightarrow> store_inner \<Rightarrow> bool" where
  "heap_grown s t \<longleftrightarrow> t = s\<lparr>si_gc := si_gc t, si_externrefs := si_externrefs t\<rparr> \<and>
     (\<forall>i ob. gc_get (si_gc s) i = Some ob \<longrightarrow> gc_get (si_gc t) i = Some ob) \<and>
     (\<forall>i x. ra_get (si_externrefs s) i = Some x \<longrightarrow> ra_get (si_externrefs t) i = Some x)"

definition settled :: "store_inner \<Rightarrow> bool" where
  "settled s \<longleftrightarrow> gc_store_ok s \<and> small_budget s"

definition adds :: "(store_inner, 'a) action \<Rightarrow> bool" where
  "adds m \<longleftrightarrow> (\<forall>s r t. settled s \<longrightarrow> m s = (r, t) \<longrightarrow> heap_grown s t \<and> settled t)"

lemma heap_grown_refl [simp]: "heap_grown s s"
  by (simp add: heap_grown_def)

lemma heap_grown_frame: "heap_grown s t \<Longrightarrow> \<exists>h a. t = s\<lparr>si_gc := h, si_externrefs := a\<rparr>"
  unfolding heap_grown_def by blast

lemma heap_grown_trans:
  assumes "heap_grown s t" and "heap_grown t u"
  shows "heap_grown s u"
proof -
  obtain h a h' a' where t: "t = s\<lparr>si_gc := h, si_externrefs := a\<rparr>" and u: "u = t\<lparr>si_gc := h', si_externrefs := a'\<rparr>"
    using assms heap_grown_frame by metis
  have "u = s\<lparr>si_gc := h', si_externrefs := a'\<rparr>" by (simp add: u t)
  then have "u = s\<lparr>si_gc := si_gc u, si_externrefs := si_externrefs u\<rparr>" by simp
  then show ?thesis using assms unfolding heap_grown_def by blast
qed

lemma addsD: "adds m \<Longrightarrow> settled s \<Longrightarrow> m s = (r, t) \<Longrightarrow> heap_grown s t \<and> settled t"
  by (simp add: adds_def)

named_theorems adds_intros

lemma adds_basic [adds_intros]: "adds (ret x)" "adds (fail e)" "adds (lift_res r)" "adds (\<lambda>s. (f s, s))"
  by (simp_all add: adds_def)

lemma adds_bindc [adds_intros]: "adds m \<Longrightarrow> (\<And>x. adds (f x)) \<Longrightarrow> adds (bindc m f)"
proof (unfold adds_def, intro allI impI)
  fix s r u
  assume m: "\<forall>s r t. settled s \<longrightarrow> m s = (r, t) \<longrightarrow> heap_grown s t \<and> settled t" and f: "\<And>x. \<forall>s r t. settled s \<longrightarrow> f x s = (r, t) \<longrightarrow> heap_grown s t \<and> settled t"
    and s: "settled s" and run: "bindc m f s = (r, u)"
  obtain q t where q: "m s = (q, t)" by fastforce
  with m s have t: "heap_grown s t" "settled t" by auto
  show "heap_grown s u \<and> settled u"
  proof (cases q)
    case (Inr x)
    with run q have "f x t = (r, u)" by simp
    with f t show ?thesis using heap_grown_trans by blast
  qed (use run q t in simp)
qed

lemma adds_if [adds_intros]: "(b \<Longrightarrow> adds m) \<Longrightarrow> (\<not> b \<Longrightarrow> adds n) \<Longrightarrow> adds (if b then m else n)"
  by simp

lemma adds_case_prod [adds_intros]: "(\<And>x y. adds (f x y)) \<Longrightarrow> adds (case p of (x, y) \<Rightarrow> f x y)"
  by (cases p) simp

lemma small_budget_frame:
  "gh_reserved (si_gc t) = gh_reserved (si_gc s) \<Longrightarrow> gh_reservation (si_gc t) = gh_reservation (si_gc s) \<Longrightarrow> small_budget t = small_budget s"
  by (simp add: small_budget_def unreserved_ceiling_def)

lemma gc_alloc_limits: "gc_alloc ob h = (r, h') \<Longrightarrow> gh_reserved h' = gh_reserved h \<and> gh_reservation h' = gh_reservation h"
  by (auto simp: gc_alloc_def Let_def split: list.splits if_splits)

lemma alloc_unreserved_limits:
  "alloc_unreserved ob h = (r, h') \<Longrightarrow> gh_reserved h' = gh_reserved h \<and> gh_reservation h' = gh_reservation h"
  by (auto simp: alloc_unreserved_def dest: gc_alloc_limits split: if_splits)

lemma alloc_unreserved_adds:
  assumes "settled s" and run: "alloc_unreserved ob (si_gc s) = (r, h)"
  shows "heap_grown s (s\<lparr>si_gc := h\<rparr>) \<and> settled (s\<lparr>si_gc := h\<rparr>)"
proof -
  have a: "gc_store_ok (s\<lparr>si_gc := h\<rparr>)" "case r of Inl _ \<Rightarrow> h = si_gc s | Inr i \<Rightarrow> i < NULL_REF \<and> gc_get (si_gc s) i = None \<and>
     (\<forall>k. gc_get h k = (if k = i then Some ob else gc_get (si_gc s) k))"
    using alloc_unreserved_ok [OF _ run] assms(1) by (simp_all add: settled_def)
  have "small_budget (s\<lparr>si_gc := h\<rparr>)"
    using alloc_unreserved_limits [OF run] assms(1) small_budget_frame [of "s\<lparr>si_gc := h\<rparr>" s] by (simp add: settled_def)
  with a show ?thesis by (cases r) (auto simp: heap_grown_def settled_def)
qed

lemma adds_alloc [adds_intros]: "adds (alloc_gc_unreserved ob)"
  unfolding adds_def alloc_gc_unreserved_def using alloc_unreserved_adds by (fastforce split: prod.splits)

lemma gc_get_charge: "gc_get (gc_charge n h) i = gc_get h i"
  by (simp add: gc_get_def gc_charge_def)

lemma adds_push_extern: "adds (push_extern e)"
  unfolding adds_def
proof (intro allI impI)
  fix s r t
  assume s: "settled s" and run: "push_extern e s = (r, t)"
  have ok: "gc_store_ok t" "case r of Inl _ \<Rightarrow> t = s | Inr i \<Rightarrow> ra_get (si_externrefs s) i = None \<and>
     (\<forall>k. ra_get (si_externrefs t) k = (if k = i then Some e else ra_get (si_externrefs s) k)) \<and>
     si_exns t = si_exns s \<and> gh_slots (si_gc t) = gh_slots (si_gc s)"
    using push_extern_ok [OF _ _ run] s by (simp_all add: settled_def)
  have t: "t = s\<lparr>si_gc := si_gc t, si_externrefs := si_externrefs t\<rparr>" "gh_reserved (si_gc t) = gh_reserved (si_gc s)"
    "gh_reservation (si_gc t) = gh_reservation (si_gc s)"
    using run by (auto simp: push_extern_def Let_def gc_charge_def split: if_splits prod.splits)
  then have "small_budget t" using s small_budget_frame [OF t(2,3)] by (simp add: settled_def)
  with ok t(1) show "heap_grown s t \<and> settled t" by (cases r) (auto simp: heap_grown_def settled_def gc_get_def)
qed

lemma adds_convert [adds_intros]: "adds (any_convert_extern v)" "adds (extern_convert_any v)"
proof -
  show "adds (any_convert_extern v)"
    unfolding adds_def any_convert_extern_def
    by (auto split: val.splits option.splits extern_entry.splits prod.splits sum.splits dest: alloc_unreserved_adds)
  show "adds (extern_convert_any v)"
    unfolding adds_def extern_convert_any_def Let_def
    by (auto split: val.splits option.splits anyref_handle.splits prod.splits sum.splits dest: addsD [OF adds_push_extern])
qed

lemma adds_const_array_elem: "(\<And>items. adds (refs_of items)) \<Longrightarrow> adds (const_array_elem refs_of ctx st ty e)"
  unfolding const_array_elem_def const_alloc_array_def const_alloc_def by (intro adds_intros; assumption)

lemma adds_const_step: "(\<And>items. adds (refs_of items)) \<Longrightarrow> adds (const_step refs_of ctx op st)"
  by (cases op) (simp_all add: const_step_def const_struct_def const_array_def const_array_fixed_def const_array_data_def
      const_alloc_array_def const_alloc_def Let_def adds_const_array_elem, (intro adds_intros)+)

lemma adds_const_ops: "(\<And>items. adds (refs_of items)) \<Longrightarrow> adds (const_ops refs_of ctx ops st)"
  by (induction ops arbitrary: st) (auto intro!: adds_intros adds_const_step)

lemma adds_const_value: "(\<And>items. adds (refs_of items)) \<Longrightarrow> adds (const_value refs_of ctx e)"
  unfolding const_value_def by (intro adds_bindc adds_const_ops) (auto intro: adds_intros split: list.split)

lemma adds_each: "(\<And>x. adds (f x)) \<Longrightarrow> adds (each f xs)"
  by (induction xs) (auto intro!: adds_intros)

lemma adds_elem_refs: "adds (elem_refs depth ctx items)"
  by (induction depth arbitrary: items) (auto intro!: adds_intros adds_each adds_const_value split: elem_items.split)

lemma adds_eval_const: "adds (eval_const depth ctx e)" "adds (eval_const_ref depth ctx e)"
  unfolding eval_const_def eval_const_ref_def by (intro adds_intros adds_const_value adds_elem_refs)+

end
