(* ===== verification/Const_Typed.thy ===== *)
theory Const_Typed
  imports Const_Eval
begin

text \<open>
  Constant expressions that validation accepts. The validator is a third-party package; what the evaluator relies on is that an
  accepted expression keeps an operand stack of the right kinds (\<open>const_check\<close>), that its indices exist, and that no segment is read
  (\<^verbatim>\<open>array.new_data\<close> and \<^verbatim>\<open>array.new_elem\<close> are not constant instructions). Then the evaluation never panics.
\<close>

section \<open>Kinds\<close>

datatype const_kind = CkI32 | CkI64 | CkF32 | CkF64 | CkRef ref_kind

fun has_kind :: "val \<Rightarrow> const_kind \<Rightarrow> bool" where
  "has_kind (I32 _) k = (k = CkI32)"
| "has_kind (I64 _) k = (k = CkI64)"
| "has_kind (F32 _) k = (k = CkF32)"
| "has_kind (F64 _) k = (k = CkF64)"
| "has_kind (V128 _) k = False"
| "has_kind (FuncRef _) k = (k = CkRef RkFunc)"
| "has_kind (ExternRef _) k = (k = CkRef RkExtern)"
| "has_kind (AnyRef _) k = (k = CkRef RkAny)"
| "has_kind (ExnRef _) k = (k = CkRef RkExn)"

fun slot_kind :: "slot \<Rightarrow> const_kind option" where
  "slot_kind (SlotScalar _ sk) = (case sk of SkI8 \<Rightarrow> Some CkI32 | SkI16 \<Rightarrow> Some CkI32 | SkI32 \<Rightarrow> Some CkI32 | SkI64 \<Rightarrow> Some CkI64
     | SkF32 \<Rightarrow> Some CkF32 | SkF64 \<Rightarrow> Some CkF64 | SkV128 \<Rightarrow> None)"
| "slot_kind (SlotRef _ rk) = Some (CkRef rk)"

record const_env =
  ce_module :: module_inner
  ce_funcs :: nat
  ce_globals :: "const_kind list"

definition takes :: "slot list \<Rightarrow> const_kind list \<Rightarrow> const_kind list option" where
  "takes sls ks = (if length sls \<le> length ks \<and> map slot_kind sls = map Some (take (length sls) ks) then Some (drop (length sls) ks) else None)"

definition const_check :: "const_env \<Rightarrow> const_op \<Rightarrow> const_kind list \<Rightarrow> const_kind list option" where
  "const_check env op ks = (let m = ce_module env in case op of
     CI32 _ \<Rightarrow> Some (CkI32 # ks)
   | CI64 _ \<Rightarrow> Some (CkI64 # ks)
   | CF32 _ \<Rightarrow> Some (CkF32 # ks)
   | CF64 _ \<Rightarrow> Some (CkF64 # ks)
   | CRefNull heap \<Rightarrow> Some (CkRef (ref_kind_of_irheap heap) # ks)
   | CRefFunc i \<Rightarrow> (if i < ce_funcs env then Some (CkRef RkFunc # ks) else None)
   | CGlobalGet g \<Rightarrow> map_option (\<lambda>k. k # ks) (get_at (ce_globals env) g)
   | CRefI31 \<Rightarrow> (case ks of CkI32 # r \<Rightarrow> Some (CkRef RkAny # r) | _ \<Rightarrow> None)
   | CStructNew ty \<Rightarrow> (case mi_layout m ty of Some (LayoutStruct l) \<Rightarrow> map_option (\<lambda>r. CkRef RkAny # r) (takes (rev (sl_fields l)) ks) | _ \<Rightarrow> None)
   | CStructNewDefault ty \<Rightarrow> (case mi_layout m ty of Some (LayoutStruct l) \<Rightarrow> Some (CkRef RkAny # ks) | _ \<Rightarrow> None)
   | CArrayNew ty \<Rightarrow> (case (mi_layout m ty, ks) of (Some (LayoutArray l), CkI32 # r) \<Rightarrow>
       map_option (\<lambda>r. CkRef RkAny # r) (takes [al_elem l] r) | _ \<Rightarrow> None)
   | CArrayNewDefault ty \<Rightarrow> (case (mi_layout m ty, ks) of (Some (LayoutArray l), CkI32 # r) \<Rightarrow> Some (CkRef RkAny # r) | _ \<Rightarrow> None)
   | CArrayNewFixed ty n \<Rightarrow> (case mi_layout m ty of Some (LayoutArray l) \<Rightarrow>
       map_option (\<lambda>r. CkRef RkAny # r) (takes (replicate n (al_elem l)) ks) | _ \<Rightarrow> None)
   | CArrayNewData _ _ \<Rightarrow> None
   | CArrayNewElem _ _ \<Rightarrow> None
   | CAnyConvertExtern \<Rightarrow> (case ks of CkRef RkExtern # r \<Rightarrow> Some (CkRef RkAny # r) | _ \<Rightarrow> None)
   | CExternConvertAny \<Rightarrow> (case ks of CkRef RkAny # r \<Rightarrow> Some (CkRef RkExtern # r) | _ \<Rightarrow> None)
   | CI64Add \<Rightarrow> (case ks of CkI64 # CkI64 # r \<Rightarrow> Some (CkI64 # r) | _ \<Rightarrow> None)
   | CI64Sub \<Rightarrow> (case ks of CkI64 # CkI64 # r \<Rightarrow> Some (CkI64 # r) | _ \<Rightarrow> None)
   | CI64Mul \<Rightarrow> (case ks of CkI64 # CkI64 # r \<Rightarrow> Some (CkI64 # r) | _ \<Rightarrow> None)
   | _ \<Rightarrow> (case ks of CkI32 # CkI32 # r \<Rightarrow> Some (CkI32 # r) | _ \<Rightarrow> None))"

fun const_checks :: "const_env \<Rightarrow> const_op list \<Rightarrow> const_kind list \<Rightarrow> const_kind list option" where
  "const_checks env [] ks = Some ks"
| "const_checks env (op # ops) ks = Option.bind (const_check env op ks) (const_checks env ops)"

section \<open>Live values\<close>

definition live_ref :: "store_inner \<Rightarrow> val \<Rightarrow> bool" where
  "live_ref s v = (case v of
     AnyRef (Some r) \<Rightarrow> (case decode_anyref_handle (ro_index r) of HandleSlot i \<Rightarrow> gc_get (si_gc s) i \<noteq> None | HandleI31 _ \<Rightarrow> True)
   | ExternRef (Some r) \<Rightarrow> ra_get (si_externrefs s) (ro_index r) \<noteq> None
   | _ \<Rightarrow> True)"

definition good :: "store_inner \<Rightarrow> const_kind \<Rightarrow> val \<Rightarrow> bool" where
  "good s k v \<longleftrightarrow> has_kind v k \<and> live_ref s v"

text \<open>The two sides of the \<^verbatim>\<open>extern\<close>/\<^verbatim>\<open>any\<close> bridge point at live entries.\<close>

definition bridge_ok :: "store_inner \<Rightarrow> bool" where
  "bridge_ok s \<longleftrightarrow> (\<forall>i h. ra_get (si_externrefs s) i = Some (ExternInternal h) \<longrightarrow> live_ref s (anyref_value h)) \<and>
     (\<forall>i ob e. gc_get (si_gc s) i = Some ob \<longrightarrow> extern_index ob = Some e \<longrightarrow> ra_get (si_externrefs s) e \<noteq> None)"

definition ctx_ok :: "const_env \<Rightarrow> const_ctx \<Rightarrow> store_inner \<Rightarrow> bool" where
  "ctx_ok env ctx s \<longleftrightarrow> cc_module ctx = ce_module env \<and> length (cc_funcs ctx) = ce_funcs env \<and>
     list_all2 (\<lambda>k h. \<exists>ge. global_at h s = Inr ge \<and> good s k (ge_value ge)) (ce_globals env) (cc_globals ctx)"

text \<open>What interning a module leaves behind.\<close>

definition interned :: "module_inner \<Rightarrow> bool" where
  "interned m \<longleftrightarrow> mi_layouts m = map (\<lambda>t. layout_from_body (mt_body t)) (mi_types m) \<and> length (mi_type_ids m) = length (mi_types m)"

lemma live_ref_grown: "heap_grown s t \<Longrightarrow> live_ref s v \<Longrightarrow> live_ref t v"
  by (auto simp: heap_grown_def live_ref_def split: val.splits option.splits anyref_handle.splits)

lemma good_grown: "heap_grown s t \<Longrightarrow> good s k v \<Longrightarrow> good t k v"
  by (simp add: good_def live_ref_grown)

lemma goods_grown: "heap_grown s t \<Longrightarrow> list_all2 (good s) ks vs \<Longrightarrow> list_all2 (good t) ks vs"
  by (erule list_all2_mono) (rule good_grown)

lemma entity_at_grown:
  assumes "heap_grown s t"
  shows "global_at h t = global_at h s"
proof -
  obtain g a where t: "t = s\<lparr>si_gc := g, si_externrefs := a\<rparr>" using heap_grown_frame [OF assms] by blast
  show ?thesis unfolding t by (simp add: entity_at_def check_handle_def)
qed

lemma ctx_ok_grown:
  assumes "heap_grown s t" and "ctx_ok env ctx s"
  shows "ctx_ok env ctx t"
proof -
  have "list_all2 (\<lambda>k h. \<exists>ge. global_at h t = Inr ge \<and> good t k (ge_value ge)) (ce_globals env) (cc_globals ctx)"
    unfolding entity_at_grown [OF assms(1)]
    by (rule list_all2_mono [of "\<lambda>k h. \<exists>ge. global_at h s = Inr ge \<and> good s k (ge_value ge)"])
      (use assms(2) good_grown [OF assms(1)] in \<open>auto simp: ctx_ok_def\<close>)
  with assms(2) show ?thesis by (simp add: ctx_ok_def)
qed

section \<open>Bodies\<close>

lemma kind_accepted: "slot_kind sl = Some k \<Longrightarrow> has_kind v k \<Longrightarrow> slot_accepts sl v"
  by (cases sl; cases v) (auto simp: slot_accepts_def split: scalar_kind.splits ref_kind.splits)

lemma const_fill_total:
  assumes "takes sls ks = Some r" and "list_all2 (good s) ks st" and "\<forall>sl \<in> set sls. slot_end sl \<le> length d"
  shows "\<exists>d' st'. const_fill sls d st = Inr (d', st') \<and> list_all2 (good s) r st'"
  using assms
proof (induction sls arbitrary: d st ks)
  case (Cons sl sls)
  then obtain k ks' v st' where ks: "ks = k # ks'" "slot_kind sl = Some k" "takes sls ks' = Some r" and st: "st = v # st'" "good s k v"
    "list_all2 (good s) ks' st'"
    by (cases ks; cases st) (auto simp: takes_def split: if_splits)
  have acc: "slot_accepts sl v" using ks(2) st(2) kind_accepted by (auto simp: good_def)
  obtain d1 where d1: "write_slot sl d v = Inr d1" "length d1 = length d"
    using write_slot_total [OF acc] Cons.prems(3) by auto
  from Cons.IH [OF ks(3) st(3), of d1] Cons.prems(3) d1(2) obtain d' st2 where "const_fill sls d1 st' = Inr (d', st2)" "list_all2 (good s) r st2"
    by auto
  with d1(1) show ?case by (simp add: st(1) const_pop_def)
qed (simp add: takes_def)

lemma write_slots_total:
  "\<forall>(sl, v) \<in> set ps. slot_accepts sl v \<and> slot_end sl \<le> length d \<Longrightarrow> \<exists>d'. write_slots ps d = Inr d'"
proof (induction ps arbitrary: d)
  case (Cons p ps)
  obtain sl v where p: "p = (sl, v)" by (cases p)
  with Cons.prems obtain d1 where d1: "write_slot sl d v = Inr d1" "length d1 = length d" using write_slot_total by fastforce
  with Cons.IH [of d1] Cons.prems show ?case by (auto simp: p)
qed simp

lemma slot_kind_elem [simp]: "slot_kind (elem_at l i) = slot_kind (al_elem l)"
  by (cases "al_elem l") (auto simp: elem_at_def)

lemma default_accepted: "slot_accepts (elem_at l i) (default_for_slot (elem_at l 0))"
  by (cases "al_elem l") (auto simp: elem_at_def slot_accepts_def default_for_slot_def null_ref_def split: scalar_kind.splits ref_kind.splits)

lemma interned_struct:
  assumes "interned m" and "mi_layout m ty = Some (LayoutStruct l)"
  shows "\<exists>tid. mi_type_id m ty = Inr tid" and "mi_struct_layout m ty = Inr l" and "\<forall>sl \<in> set (sl_fields l). slot_end sl \<le> sl_size l"
proof -
  from assms obtain t fs where t: "ty < length (mi_types m)" "t = mi_types m ! ty" "mt_body t = CompStruct fs" "l = struct_layout_of (map field_slot fs)"
    by (auto simp: interned_def mi_layout_def layout_from_body_def bind_eq_Some_conv split: composite_body.splits)
  show "\<exists>tid. mi_type_id m ty = Inr tid" using assms(1) t(1) by (auto simp: interned_def mi_type_id_def index_at_def)
  show "mi_struct_layout m ty = Inr l" by (simp add: mi_struct_layout_def assms(2))
  show "\<forall>sl \<in> set (sl_fields l). slot_end sl \<le> sl_size l"
  proof
    fix sl assume "sl \<in> set (sl_fields l)"
    then obtain i where i: "i < length (sl_fields l)" "sl = sl_fields l ! i" by (auto simp: in_set_conv_nth)
    then have "i < length (map field_slot fs)" using t(4) struct_layout_length [of "map field_slot fs"] by simp
    moreover have "\<forall>f \<in> set (map field_slot fs). places f" by (auto simp: places_field_slot)
    ultimately show "slot_end sl \<le> sl_size l" using struct_slots_within [of "map field_slot fs" i] by (simp add: i(2) t(4))
  qed
qed

lemma interned_array:
  assumes "interned m" and "mi_layout m ty = Some (LayoutArray l)"
  shows "\<exists>tid. mi_type_id m ty = Inr tid" and "mi_array_layout m ty = Inr l" and "i < n \<Longrightarrow> slot_end (elem_at l i) \<le> body_size l n"
proof -
  from assms obtain t f where t: "ty < length (mi_types m)" "l = array_layout_of (field_slot f 0)"
    by (auto simp: interned_def mi_layout_def layout_from_body_def bind_eq_Some_conv split: composite_body.splits)
  show "\<exists>tid. mi_type_id m ty = Inr tid" using assms(1) t(1) by (auto simp: interned_def mi_type_id_def index_at_def)
  show "mi_array_layout m ty = Inr l" by (simp add: mi_array_layout_def assms(2))
  show "i < n \<Longrightarrow> slot_end (elem_at l i) \<le> body_size l n" by (rule elem_slot_within [OF t(2)])
qed

section \<open>Operators\<close>

definition sound :: "const_kind list \<Rightarrow> (val \<times> val list) result \<times> store_inner \<Rightarrow> bool" where
  "sound ks q = (case q of
     (Inl e, t) \<Rightarrow> e = Trapped AllocationTooLarge \<and> bridge_ok t
   | (Inr (v, rest), t) \<Rightarrow> list_all2 (good t) ks (v # rest) \<and> bridge_ok t)"

text \<open>A new object and a new externref, each pointing only at live entries.\<close>

lemma alloc_bridge:
  assumes s: "settled s" and b: "bridge_ok s" and run: "alloc_unreserved ob (si_gc s) = (r, h)"
    and ob: "\<And>e. extern_index ob = Some e \<Longrightarrow> ra_get (si_externrefs s) e \<noteq> None"
  shows "bridge_ok (s\<lparr>si_gc := h\<rparr>) \<and> (case r of Inl e \<Rightarrow> e = Trapped AllocationTooLarge
    | Inr i \<Rightarrow> live_ref (s\<lparr>si_gc := h\<rparr>) (anyref_value (anyref_handle_slot i)))"
proof (cases r)
  case (Inl e)
  have "h = si_gc s" using alloc_unreserved_ok [OF _ run] s by (simp add: Inl settled_def)
  moreover have "e = Trapped AllocationTooLarge" using alloc_unreserved_error [of s] run s by (simp add: Inl settled_def)
  ultimately show ?thesis using b by (simp add: Inl)
next
  case (Inr i)
  have i: "i < NULL_REF" "\<forall>k. gc_get h k = (if k = i then Some ob else gc_get (si_gc s) k)"
    using alloc_unreserved_ok [OF _ run] s by (simp_all add: Inr settled_def)
  have g: "heap_grown s (s\<lparr>si_gc := h\<rparr>)" using alloc_unreserved_adds [OF s run] ..
  have "bridge_ok (s\<lparr>si_gc := h\<rparr>)"
    using b live_ref_grown [OF g] ob i(2) unfolding bridge_ok_def by (auto split: if_splits)
  moreover have "decode_anyref_handle (anyref_handle_slot i) = HandleSlot i"
    using decode_anyref_handle_slot slot_not_tagged [OF i(1)] by simp
  ultimately show ?thesis using i(2) by (simp add: Inr live_ref_def anyref_value_def rooted_from_raw_def)
qed

lemma push_extern_bridge:
  assumes s: "settled s" and b: "bridge_ok s" and run: "push_extern (ExternInternal h) s = (r, t)" and live: "live_ref s (anyref_value h)"
  shows "bridge_ok t \<and> (case r of Inl e \<Rightarrow> e = Trapped AllocationTooLarge
    | Inr i \<Rightarrow> live_ref t (ExternRef (Some (rooted_from_raw i RkExtern))))"
proof (cases r)
  case (Inl e)
  have "t = s" using push_extern_ok [OF _ _ run] s by (simp add: Inl settled_def)
  moreover have "e = Trapped AllocationTooLarge" using push_extern_error [of s] run s by (simp add: Inl settled_def)
  ultimately show ?thesis using b by (simp add: Inl)
next
  case (Inr i)
  have i: "\<forall>k. ra_get (si_externrefs t) k = (if k = i then Some (ExternInternal h) else ra_get (si_externrefs s) k)"
    "gh_slots (si_gc t) = gh_slots (si_gc s)"
    using push_extern_ok [OF _ _ run] s by (simp_all add: Inr settled_def)
  have get: "gc_get (si_gc t) k = gc_get (si_gc s) k" for k by (simp add: gc_get_def i(2))
  have g: "heap_grown s t" using addsD [OF adds_push_extern s run] ..
  have "bridge_ok t"
    using b live_ref_grown [OF g] live i(1) get unfolding bridge_ok_def by (auto split: if_splits)
  with i(1) show ?thesis by (simp add: Inr live_ref_def rooted_from_raw_def)
qed

lemma good_any [simp]: "good s (CkRef RkAny) (anyref_value h) = live_ref s (anyref_value h)"
  by (simp add: good_def anyref_value_def)

lemma sound_alloc:
  assumes s: "settled s" and b: "bridge_ok s" and ob: "extern_index ob = None" and st: "list_all2 (good s) ks st"
  shows "sound (CkRef RkAny # ks) (const_alloc ob st s)"
proof -
  obtain r h where run: "alloc_unreserved ob (si_gc s) = (r, h)" by fastforce
  have g: "heap_grown s (s\<lparr>si_gc := h\<rparr>)" using alloc_unreserved_adds [OF s run] ..
  note a = alloc_bridge [OF s b run]
  show ?thesis using a ob goods_grown [OF g st]
    by (cases r) (simp_all add: sound_def const_alloc_def alloc_gc_unreserved_def run bindc_def)
qed

lemma sound_any_convert:
  assumes s: "settled s" and b: "bridge_ok s" and v: "good s (CkRef RkExtern) v" and st: "list_all2 (good s) ks st"
  shows "sound (CkRef RkAny # ks) (bindc (any_convert_extern v) (\<lambda>x. ret (x, st)) s)"
proof -
  from v obtain ro where ro: "v = ExternRef ro" by (cases v) (auto simp: good_def)
  show ?thesis
  proof (cases ro)
    case None
    then show ?thesis using b st by (simp add: ro any_convert_extern_def sound_def bindc_def good_def live_ref_def)
  next
    case (Some x)
    then obtain en where en: "ra_get (si_externrefs s) (ro_index x) = Some en" using v by (auto simp: ro good_def live_ref_def)
    show ?thesis
    proof (cases en)
      case (ExternInternal h)
      then have "live_ref s (anyref_value h)" using b en by (auto simp: bridge_ok_def)
      then show ?thesis using b st by (simp add: ro Some any_convert_extern_def en ExternInternal sound_def bindc_def)
    next
      case (ExternHost p)
      obtain r h where run: "alloc_unreserved (extern_wrapper (ro_index x)) (si_gc s) = (r, h)" by fastforce
      have g: "heap_grown s (s\<lparr>si_gc := h\<rparr>)" using alloc_unreserved_adds [OF s run] ..
      have "extern_index (extern_wrapper (ro_index x)) = Some (ro_index x)"
        by (simp add: extern_index_def extern_wrapper_def get_range_def le_word_le_bytes)
      then show ?thesis using alloc_bridge [OF s b run] goods_grown [OF g st] en
        by (cases r) (simp_all add: ro Some any_convert_extern_def en ExternHost run sound_def bindc_def)
    qed
  qed
qed

lemma sound_extern_convert:
  assumes s: "settled s" and b: "bridge_ok s" and v: "good s (CkRef RkAny) v" and st: "list_all2 (good s) ks st"
  shows "sound (CkRef RkExtern # ks) (bindc (extern_convert_any v) (\<lambda>x. ret (x, st)) s)"
proof -
  from v obtain ro where ro: "v = AnyRef ro" by (cases v) (auto simp: good_def)
  show ?thesis
  proof (cases ro)
    case None
    then show ?thesis using b st by (simp add: ro extern_convert_any_def sound_def bindc_def good_def live_ref_def)
  next
    case (Some x)
    obtain r t where run: "push_extern (ExternInternal (ro_index x)) s = (r, t)" by fastforce
    have g: "heap_grown s t" using addsD [OF adds_push_extern s run] ..
    have live: "live_ref s (anyref_value (ro_index x))"
      using v by (simp add: ro Some good_def live_ref_def anyref_value_def rooted_from_raw_def)
    have wrap: "sound (CkRef RkExtern # ks) (case r of Inl e \<Rightarrow> (Inl e, t) | Inr i \<Rightarrow> (Inr (ExternRef (Some (rooted_from_raw i RkExtern)), st), t))"
      using push_extern_bridge [OF s b run live] goods_grown [OF g st] by (cases r) (simp_all add: sound_def good_def)
    show ?thesis
    proof (cases "decode_anyref_handle (ro_index x)")
      case (HandleI31 y)
      with wrap show ?thesis by (cases r) (simp_all add: ro Some extern_convert_any_def run bindc_def)
    next
      case (HandleSlot i)
      then obtain ob where ob: "gc_get (si_gc s) i = Some ob" using v by (auto simp: ro Some good_def live_ref_def)
      show ?thesis
      proof (cases "extern_index ob")
        case None
        with wrap HandleSlot ob show ?thesis by (cases r) (simp_all add: ro Some extern_convert_any_def run bindc_def)
      next
        case (Some e)
        then have "ra_get (si_externrefs s) e \<noteq> None" using b ob by (auto simp: bridge_ok_def)
        then show ?thesis using b st
          by (simp add: ro \<open>ro = Some x\<close> HandleSlot ob Some extern_convert_any_def sound_def bindc_def good_def live_ref_def rooted_from_raw_def)
      qed
    qed
  qed
qed

lemma extern_index_new [simp]: "extern_index (new_struct tid d) = None" "extern_index (new_array tid d) = None"
  by (simp_all add: extern_index_def new_struct_def new_array_def)

lemma sound_too_large: "bridge_ok s \<Longrightarrow> sound ks (Inl (Trapped AllocationTooLarge), s)"
  by (simp add: sound_def)

lemma sound_struct:
  assumes s: "settled s" "bridge_ok s" and m: "interned (cc_module ctx)" "mi_layout (cc_module ctx) ty = Some (LayoutStruct l)"
    and st: "list_all2 (good s) ks st" and r: "if dflt then r = ks else takes (rev (sl_fields l)) ks = Some r"
  shows "sound (CkRef RkAny # r) (const_struct ctx st ty dflt s)"
proof -
  obtain tid where tid: "mi_type_id (cc_module ctx) ty = Inr tid" using interned_struct(1) [OF m] by blast
  note l = interned_struct(2,3) [OF m]
  let ?d = "replicate (sl_size l) 0"
  have "\<exists>d st'. (if dflt then bindr (write_slots (map (\<lambda>sl. (sl, default_for_slot sl)) (sl_fields l)) ?d) (\<lambda>d'. Inr (d', st))
      else const_fill (rev (sl_fields l)) ?d st) = Inr (d, st') \<and> list_all2 (good s) r st'"
  proof (cases dflt)
    case True
    have "\<exists>d'. write_slots (map (\<lambda>sl. (sl, default_for_slot sl)) (sl_fields l)) ?d = Inr d'"
      by (rule write_slots_total) (use l(2) default_for_slot_accepted in auto)
    with True st r show ?thesis by auto
  next
    case False
    with const_fill_total [of "rev (sl_fields l)" ks r s st ?d] st r l(2) show ?thesis by auto
  qed
  then obtain d st' where d: "(if dflt then bindr (write_slots (map (\<lambda>sl. (sl, default_for_slot sl)) (sl_fields l)) ?d) (\<lambda>d'. Inr (d', st))
      else const_fill (rev (sl_fields l)) ?d st) = Inr (d, st')" "list_all2 (good s) r st'" by blast
  have "const_struct ctx st ty dflt s = const_alloc (new_struct tid d) st' s"
    unfolding const_struct_def Let_def by (simp add: tid l(1) d(1) bindc_def)
  then show ?thesis using sound_alloc [OF s _ d(2)] by simp
qed

lemma sound_array:
  assumes s: "settled s" "bridge_ok s" and m: "interned (cc_module ctx)" "mi_layout (cc_module ctx) ty = Some (LayoutArray l)"
    and st: "list_all2 (good s) (CkI32 # ks) st" and r: "if dflt then r = ks else takes [al_elem l] ks = Some r"
  shows "sound (CkRef RkAny # r) (const_array ctx st ty dflt s)"
proof -
  obtain tid where tid: "mi_type_id (cc_module ctx) ty = Inr tid" using interned_array(1) [OF m] by blast
  note l = interned_array(2,3) [OF m]
  obtain n st1 where n: "st = I32 n # st1" "list_all2 (good s) ks st1"
    using st by (cases st; cases "hd st") (auto simp: good_def)
  obtain fill st2 where fill: "(if dflt then Inr (default_for_slot (elem_at l 0), st1) else const_pop st1) = Inr (fill, st2)"
    "\<And>i. slot_accepts (elem_at l i) fill" "list_all2 (good s) r st2"
  proof (cases dflt)
    case True
    with n(2) r that show ?thesis by (simp add: default_accepted)
  next
    case False
    with r obtain k where k: "ks = k # r" "slot_kind (al_elem l) = Some k" by (cases ks) (auto simp: takes_def split: if_splits)
    with n(2) obtain v where v: "st1 = v # tl st1" "good s k v" "list_all2 (good s) r (tl st1)" by (cases st1) auto
    have "slot_accepts (elem_at l i) v" for i using k(2) v(2) kind_accepted by (simp add: good_def)
    moreover have "const_pop st1 = Inr (v, tl st1)" by (subst v(1)) (simp add: const_pop_def)
    ultimately show ?thesis using that v(3) False by simp
  qed
  show ?thesis
  proof (cases "elem_bytes (unat n) (al_stride l)")
    case (Inl e)
    then have "e = Trapped AllocationTooLarge" by (auto simp: elem_bytes_def ok_or_def split: option.splits)
    then show ?thesis using sound_too_large [OF s(2)]
      by (simp add: const_array_def tid l(1) n(1) Inl bindc_def const_pop_i32_def const_pop_def unwrap_i32_def)
  next
    case (Inr len)
    then have len: "len = body_size l (unat n)" by (auto simp: elem_bytes_def ok_or_def body_size_def split: option.splits)
    have "\<exists>d. write_each l (unat n) fill (replicate len 0) = Inr d"
      unfolding write_each_def by (rule write_slots_total) (use fill(2) l(2) len in auto)
    then obtain d where d: "write_each l (unat n) fill (replicate len 0) = Inr d" ..
    show ?thesis
    proof (cases "can_fit_limit (si_gc s) len")
      case True
      have "const_array ctx st ty dflt s = const_alloc (new_array tid d) st2 s"
        unfolding const_array_def
        by (simp add: tid l(1) n(1) Inr True fill(1) d bindc_def const_pop_i32_def const_pop_def unwrap_i32_def check_capacity_def const_alloc_array_def)
      then show ?thesis using sound_alloc [OF s _ fill(3)] by simp
    next
      case False
      then show ?thesis using sound_too_large [OF s(2)]
        by (simp add: const_array_def tid l(1) n(1) Inr bindc_def const_pop_i32_def const_pop_def unwrap_i32_def check_capacity_def)
    qed
  qed
qed

lemma sound_array_fixed:
  assumes s: "settled s" "bridge_ok s" and m: "interned (cc_module ctx)" "mi_layout (cc_module ctx) ty = Some (LayoutArray l)"
    and st: "list_all2 (good s) ks st" and r: "takes (replicate n (al_elem l)) ks = Some r"
  shows "sound (CkRef RkAny # r) (const_array_fixed ctx st ty n s)"
proof -
  obtain tid where tid: "mi_type_id (cc_module ctx) ty = Inr tid" using interned_array(1) [OF m] by blast
  note l = interned_array(2,3) [OF m]
  have "map slot_kind (map (elem_at l) (rev [0..<n])) = map slot_kind (replicate n (al_elem l))"
    by (simp add: comp_def map_replicate_const)
  then have "takes (map (elem_at l) (rev [0..<n])) ks = Some r" using r by (auto simp: takes_def split: if_splits)
  from const_fill_total [OF this st, of "replicate (body_size l n) 0"] l(2) obtain d st' where
    d: "const_fill (map (elem_at l) (rev [0..<n])) (replicate (body_size l n) 0) st = Inr (d, st')" "list_all2 (good s) r st'" by auto
  have "const_array_fixed ctx st ty n s = const_alloc (new_array tid d) st' s"
    unfolding const_array_fixed_def by (simp add: tid l(1) d(1) bindc_def const_alloc_array_def)
  then show ?thesis using sound_alloc [OF s _ d(2)] by simp
qed

lemma sound_i32_bin:
  assumes "bridge_ok s" and "list_all2 (good s) (CkI32 # CkI32 # r) st"
  shows "sound (CkI32 # r) (lift_res (const_i32_bin f st) s)"
proof -
  obtain a b st' where "st = I32 b # I32 a # st'" "list_all2 (good s) r st'"
    using assms(2) by (auto simp: list_all2_Cons1 good_def elim!: has_kind.elims)
  then show ?thesis using assms(1)
    by (simp add: const_i32_bin_def const_pop_i32_def const_pop_def unwrap_i32_def sound_def good_def live_ref_def)
qed

lemma sound_i64_bin:
  assumes "bridge_ok s" and "list_all2 (good s) (CkI64 # CkI64 # r) st"
  shows "sound (CkI64 # r) (lift_res (const_i64_bin f st) s)"
proof -
  obtain a b st' where "st = I64 b # I64 a # st'" "list_all2 (good s) r st'"
    using assms(2) by (auto simp: list_all2_Cons1 good_def elim!: has_kind.elims)
  then show ?thesis using assms(1)
    by (simp add: const_i64_bin_def const_pop_i64_def const_pop_def unwrap_i64_def sound_def good_def live_ref_def)
qed

lemmas sound_bins = sound_i32_bin sound_i64_bin

lemma null_good: "good s (CkRef (ref_kind_of_irheap h)) (null_for_heap h)"
  by (cases "ref_kind_of_irheap h") (simp_all add: null_for_heap_kind null_ref_def good_def live_ref_def)

lemma const_check_bin:
  assumes "const_check env op ks = Some ks'" and "op \<in> {CI32Add, CI32Sub, CI32Mul, CI64Add, CI64Sub, CI64Mul}"
  shows "(\<exists>r. ks = CkI32 # CkI32 # r \<and> ks' = CkI32 # r \<and> op \<in> {CI32Add, CI32Sub, CI32Mul}) \<or>
    (\<exists>r. ks = CkI64 # CkI64 # r \<and> ks' = CkI64 # r \<and> op \<in> {CI64Add, CI64Sub, CI64Mul})"
  using assms by (auto simp: const_check_def split: list.splits const_kind.splits)

lemma sound_step:
  assumes s: "settled s" and b: "bridge_ok s" and m: "interned (ce_module env)" and ctx: "ctx_ok env ctx s"
    and c: "const_check env op ks = Some ks'" and st: "list_all2 (good s) ks st"
  shows "sound ks' (const_step refs_of ctx op st s)"
proof -
  have mm: "cc_module ctx = ce_module env" using ctx by (simp add: ctx_ok_def)
  have i: "interned (cc_module ctx)" using m mm by simp
  note num = good_def live_ref_def sound_def const_step_def const_check_def
  show ?thesis
  proof (cases "op \<in> {CI32Add, CI32Sub, CI32Mul, CI64Add, CI64Sub, CI64Mul}")
    case True
    with const_check_bin [OF c] st sound_bins [OF b] show ?thesis by (auto simp: const_step_def)
  next
    case no_bin: False
    show ?thesis
    proof (cases op)
      case (CRefNull h)
      with c st b null_good show ?thesis by (auto simp: const_check_def const_step_def sound_def)
    next
      case (CRefFunc x)
      with c st b ctx show ?thesis by (auto simp: num ctx_ok_def index_at_def split: if_splits)
    next
      case (CGlobalGet g)
      then obtain k where k: "g < length (ce_globals env)" "k = ce_globals env ! g" "ks' = k # ks" using c by (auto simp: const_check_def)
      then obtain ge where "g < length (cc_globals ctx)" "global_at (cc_globals ctx ! g) s = Inr ge" "good s k (ge_value ge)"
        using ctx by (auto simp: ctx_ok_def list_all2_conv_all_nth)
      then show ?thesis using st b k(3) by (simp add: CGlobalGet const_step_def const_global_def index_at_def sound_def bindc_def)
    next
      case CRefI31
      then obtain r x st' where "ks = CkI32 # r" "ks' = CkRef RkAny # r" "st = I32 x # st'" "list_all2 (good s) r st'"
        using c st by (auto simp: const_check_def list_all2_Cons1 good_def elim!: has_kind.elims split: list.splits const_kind.splits)
      then show ?thesis using b
        by (simp add: CRefI31 const_step_def const_pop_i32_def const_pop_def unwrap_i32_def sound_def live_ref_def anyref_value_def
            rooted_from_raw_def decode_anyref_handle_i31 good_def)
    next
      case (CStructNew ty)
      with c obtain l r where "mi_layout (ce_module env) ty = Some (LayoutStruct l)" "takes (rev (sl_fields l)) ks = Some r" "ks' = CkRef RkAny # r"
        by (auto simp: const_check_def split: option.splits layout.splits)
      with sound_struct [OF s b i _ st, of ty l False r] show ?thesis by (simp add: CStructNew const_step_def mm)
    next
      case (CStructNewDefault ty)
      with c obtain l where "mi_layout (ce_module env) ty = Some (LayoutStruct l)" "ks' = CkRef RkAny # ks"
        by (auto simp: const_check_def split: option.splits layout.splits)
      with sound_struct [OF s b i _ st, of ty l True ks] show ?thesis by (simp add: CStructNewDefault const_step_def mm)
    next
      case (CArrayNew ty)
      with c obtain l q r where "mi_layout (ce_module env) ty = Some (LayoutArray l)" "ks = CkI32 # q" "takes [al_elem l] q = Some r" "ks' = CkRef RkAny # r"
        by (auto simp: const_check_def split: option.splits layout.splits list.splits const_kind.splits)
      with sound_array [OF s b i, of ty l q st False r] st show ?thesis by (simp add: CArrayNew const_step_def mm)
    next
      case (CArrayNewDefault ty)
      with c obtain l r where "mi_layout (ce_module env) ty = Some (LayoutArray l)" "ks = CkI32 # r" "ks' = CkRef RkAny # r"
        by (auto simp: const_check_def split: option.splits layout.splits list.splits const_kind.splits)
      with sound_array [OF s b i, of ty l r st True r] st show ?thesis by (simp add: CArrayNewDefault const_step_def mm)
    next
      case (CArrayNewFixed ty n)
      with c obtain l r where "mi_layout (ce_module env) ty = Some (LayoutArray l)" "takes (replicate n (al_elem l)) ks = Some r" "ks' = CkRef RkAny # r"
        by (auto simp: const_check_def split: option.splits layout.splits)
      with sound_array_fixed [OF s b i _ st, of ty l n r] show ?thesis by (simp add: CArrayNewFixed const_step_def mm)
    next
      case CAnyConvertExtern
      then obtain r v st' where "ks = CkRef RkExtern # r" "ks' = CkRef RkAny # r" "st = v # st'" "good s (CkRef RkExtern) v" "list_all2 (good s) r st'"
        using c st by (auto simp: const_check_def list_all2_Cons1 split: list.splits const_kind.splits ref_kind.splits)
      then show ?thesis using sound_any_convert [OF s b, of v r st'] by (simp add: CAnyConvertExtern const_step_def const_pop_def bindc_def)
    next
      case CExternConvertAny
      then obtain r v st' where "ks = CkRef RkAny # r" "ks' = CkRef RkExtern # r" "st = v # st'" "good s (CkRef RkAny) v" "list_all2 (good s) r st'"
        using c st by (auto simp: const_check_def list_all2_Cons1 split: list.splits const_kind.splits ref_kind.splits)
      then show ?thesis using sound_extern_convert [OF s b, of v r st'] by (simp add: CExternConvertAny const_step_def const_pop_def bindc_def)
    qed (use c st b no_bin in \<open>auto simp: num\<close>)
  qed
qed

lemma sound_ops:
  assumes refs: "\<And>items. adds (refs_of items)" and "settled s" "bridge_ok s" "interned (ce_module env)" "ctx_ok env ctx s"
    "const_checks env ops ks = Some ks'" "list_all2 (good s) ks st" "const_ops refs_of ctx ops st s = (r, t)"
  shows "bridge_ok t \<and> (case r of Inl e \<Rightarrow> e = Trapped AllocationTooLarge | Inr st' \<Rightarrow> list_all2 (good t) ks' st')"
  using assms(2-)
proof (induction ops arbitrary: ks st s)
  case (Cons op ops)
  then obtain k1 where k1: "const_check env op ks = Some k1" "const_checks env ops k1 = Some ks'" by (auto simp: bind_eq_Some_conv)
  obtain q u where q: "const_step refs_of ctx op st s = (q, u)" by fastforce
  have sd: "sound k1 (q, u)" using sound_step [OF Cons.prems(1-4) k1(1) Cons.prems(6), of refs_of] q by simp
  have u: "heap_grown s u" "settled u" using addsD [OF adds_const_step [OF refs] Cons.prems(1) q] by auto
  show ?case
  proof (cases q)
    case (Inl e)
    with sd Cons.prems(7) q show ?thesis by (auto simp: sound_def)
  next
    case (Inr p)
    obtain v rest where p: "p = (v, rest)" by (cases p)
    have "list_all2 (good u) k1 (v # rest)" "bridge_ok u" using sd by (simp_all add: sound_def Inr p)
    moreover have "const_ops refs_of ctx ops (v # rest) u = (r, t)" using Cons.prems(7) q by (simp add: Inr p)
    ultimately show ?thesis using Cons.IH [OF u(2) _ Cons.prems(3) ctx_ok_grown [OF u(1) Cons.prems(4)] k1(2)] by blast
  qed
qed auto

section \<open>Properties\<close>

text \<open>C36. Initializers are safe. In a store with consistent arenas, evaluating a constant expression that validation accepts at kind \<open>k\<close>
  never panics, underflows or hits a dangling handle: it either returns a live value of kind \<open>k\<close> or traps because the heap limit is
  reached. Either way every existing object and externref stays as it was and nothing else of the store changes.\<close>

theorem const_expr_sound:
  assumes "gc_store_ok s" and "small_budget s" and "bridge_ok s" and "interned (ce_module env)" and "ctx_ok env ctx s"
    and checked: "const_checks env e [] = Some [k]" and run: "eval_const depth ctx e s = (r, t)"
  shows "(case r of Inl err \<Rightarrow> err = Trapped AllocationTooLarge | Inr v \<Rightarrow> has_kind v k \<and> live_ref t v) \<and>
    heap_grown s t \<and> gc_store_ok t \<and> bridge_ok t"
proof -
  have s: "settled s" using assms by (simp add: settled_def)
  obtain q where q: "const_ops (elem_refs depth ctx) ctx e [] s = (q, t)"
    using run unfolding eval_const_def const_value_def bindc_def by (auto split: prod.splits sum.splits list.splits)
  note o = sound_ops [OF adds_elem_refs s assms(3-5) checked _ q]
  have "case r of Inl err \<Rightarrow> err = Trapped AllocationTooLarge | Inr v \<Rightarrow> has_kind v k \<and> live_ref t v"
    using o run q by (cases q) (auto simp: eval_const_def const_value_def list_all2_Cons1 good_def)
  moreover have "heap_grown s t \<and> gc_store_ok t \<and> bridge_ok t"
    using addsD [OF adds_eval_const(1) s run] o by (simp add: settled_def)
  ultimately show ?thesis by blast
qed

text \<open>A struct of an \<^verbatim>\<open>i64\<close> and a reference, wrapped as an externref.\<close>

definition const_module :: module_inner where
  "const_module = (co_module sample_code)\<lparr>mi_types := [\<lparr>mt_group = 0, mt_finality = Final, mt_supertype = None,
       mt_body = CompStruct [\<lparr>irf_mutable = True, irf_storage = IsVal IvI64\<rparr>, \<lparr>irf_mutable = True, irf_storage = IsVal (IvRef True IhAny)\<rparr>]\<rparr>],
     mi_type_ids := [0], mi_layouts := [layout_from_body (CompStruct [\<lparr>irf_mutable = True, irf_storage = IsVal IvI64\<rparr>,
       \<lparr>irf_mutable = True, irf_storage = IsVal (IvRef True IhAny)\<rparr>])]\<rparr>"

definition const_sample :: const_expr where
  "const_sample = [CI64 5, CI64 6, CI64Mul, CI32 7, CRefI31, CStructNew 0, CExternConvertAny]"

theorem const_expr_sound_witness:
  "\<exists>v t. eval_const 0 \<lparr>cc_module = const_module, cc_funcs = [], cc_globals = []\<rparr> const_sample (store_new 1 sample_engine) = (Inr v, t) \<and>
    has_kind v (CkRef RkExtern) \<and> live_ref t v"
proof -
  let ?s = "store_new 1 sample_engine" and ?c = "\<lparr>cc_module = const_module, cc_funcs = [], cc_globals = []\<rparr>"
    and ?env = "\<lparr>ce_module = const_module, ce_funcs = 0, ce_globals = []\<rparr>"
  have "\<exists>v. fst (eval_const 0 ?c const_sample ?s) = Inr v" by (rule exI [of _ "ExternRef (Some (rooted_from_raw 0 RkExtern))"]) code_simp
  then obtain v t where r: "eval_const 0 ?c const_sample ?s = (Inr v, t)" by (metis prod.collapse)
  have "bridge_ok ?s" by (simp add: bridge_ok_def store_new_def gc_heap_new_def gc_get_def get_at_def ra_default_def ra_get_def)
  moreover have "interned const_module" by (simp add: interned_def const_module_def)
  moreover have "ctx_ok ?env ?c ?s" by (simp add: ctx_ok_def)
  moreover have "const_checks ?env const_sample [] = Some [CkRef RkExtern]" by code_simp
  moreover have "small_budget ?s" by code_simp
  ultimately show ?thesis using const_expr_sound [OF store_new_ok, of _ _ ?env ?c const_sample "CkRef RkExtern" 0 "Inr v" t] r by auto
qed

end
