(* ===== verification/Instantiate.thy ===== *)
theory Instantiate
  imports Const_Eval Exec_Table Exec_Cast
begin

text \<open>
  Instantiation, \<^verbatim>\<open>src/instance/init.rs\<close>: the imports are checked and linked, the defined entities allocated, the initializers evaluated, the
  active segments copied. The two parameters are the room of the native stack for nested initializers (\<open>Const_Eval\<close>) and the
  success of a host allocation (\<open>Store_Entity\<close>).
\<close>

section \<open>Imports\<close>

datatype extern = XFunc func_handle | XGlobal entity_handle | XMemory entity_handle | XTable entity_handle | XTag entity_handle

record imported =
  ip_funcs :: "func_handle list"
  ip_memories :: "entity_handle list"
  ip_globals :: "entity_handle list"
  ip_tables :: "entity_handle list"
  ip_tags :: "entity_handle list"

definition ensure :: "bool \<Rightarrow> string \<Rightarrow> unit result" where
  "ensure ok msg = (if ok then Inr () else Inl (Msg msg))"

definition limits_ok :: "nat \<Rightarrow> nat option \<Rightarrow> nat \<Rightarrow> nat option \<Rightarrow> bool" where
  "limits_ok amin amax imin imax \<longleftrightarrow> imin \<le> amin \<and> (case imax of None \<Rightarrow> True
     | Some im \<Rightarrow> (case amax of None \<Rightarrow> False | Some am \<Rightarrow> am \<le> im))"

definition check_tag :: "module_inner \<Rightarrow> nat \<Rightarrow> entity_handle \<Rightarrow> store_inner \<Rightarrow> unit result" where
  "check_tag m ty tag s = bindr (mi_type_id m ty) (\<lambda>expected. bindr (tag_at tag s) (\<lambda>actual.
     ensure (actual = expected) ''imported tag type mismatch''))"

definition check_func :: "module_inner \<Rightarrow> nat \<Rightarrow> func_handle \<Rightarrow> store_inner \<Rightarrow> unit result" where
  "check_func m ty f s = bindr (mi_type_id m ty) (\<lambda>expected. bindr (func_type_id f s) (\<lambda>actual.
     bindr (engine_is_subtype actual expected s) (\<lambda>ok. ensure ok ''imported function signature mismatch'')))"

definition check_memory :: "memory_type \<Rightarrow> entity_handle \<Rightarrow> store_inner \<Rightarrow> unit result" where
  "check_memory declared h s = bindr (memory_at h s) (\<lambda>me.
     ensure (mt_memory64 (me_ty me) = mt_memory64 declared \<and>
         limits_ok (size_pages me) (mt_maximum (me_ty me)) (mt_minimum declared) (mt_maximum declared))
       ''imported memory limits mismatch'')"

definition check_table :: "module_inner \<Rightarrow> ir_table_type \<Rightarrow> entity_handle \<Rightarrow> store_inner \<Rightarrow> unit result" where
  "check_table m tt h s = bindr (table_at h s) (\<lambda>te. bindr (materialize_table (mi_type_ids m) tt) (\<lambda>declared.
     ensure (tt_element (te_ty te) = tt_element declared \<and> tt_table64 (te_ty te) = tt_table64 declared \<and>
         limits_ok (table_size te) (tt_maximum (te_ty te)) (tt_minimum declared) (tt_maximum declared))
       ''imported table type mismatch''))"

definition check_global :: "module_inner \<Rightarrow> ir_global_type \<Rightarrow> entity_handle \<Rightarrow> store_inner \<Rightarrow> unit result" where
  "check_global m gt h s = bindr (global_at h s) (\<lambda>ge. bindr (materialize_global (mi_type_ids m) gt) (\<lambda>declared.
     ensure (gt_mutability (ge_ty ge) = gt_mutability declared \<and> (case gt_mutability declared of
         MutConst \<Rightarrow> valtype_matches (gt_content (ge_ty ge)) (gt_content declared)
       | MutVar \<Rightarrow> gt_content (ge_ty ge) = gt_content declared))
       ''imported global type mismatch''))"

definition link_import :: "module_inner \<Rightarrow> import_kind \<Rightarrow> extern \<Rightarrow> store_inner \<Rightarrow> imported \<Rightarrow> imported result" where
  "link_import m kind ext s sp = (case (kind, ext) of
     (ImFunc t, XFunc f) \<Rightarrow> bindr (check_func m t f s) (\<lambda>_. Inr (sp\<lparr>ip_funcs := ip_funcs sp @ [f]\<rparr>))
   | (ImMemory mt, XMemory h) \<Rightarrow> bindr (check_memory mt h s) (\<lambda>_. Inr (sp\<lparr>ip_memories := ip_memories sp @ [h]\<rparr>))
   | (ImGlobal gt, XGlobal h) \<Rightarrow> bindr (check_global m gt h s) (\<lambda>_. Inr (sp\<lparr>ip_globals := ip_globals sp @ [h]\<rparr>))
   | (ImTable tt, XTable h) \<Rightarrow> bindr (check_table m tt h s) (\<lambda>_. Inr (sp\<lparr>ip_tables := ip_tables sp @ [h]\<rparr>))
   | (ImTag t, XTag h) \<Rightarrow> bindr (check_tag m t h s) (\<lambda>_. Inr (sp\<lparr>ip_tags := ip_tags sp @ [h]\<rparr>))
   | _ \<Rightarrow> Inl (Msg ''import kind mismatch''))"

fun link_from :: "module_inner \<Rightarrow> (import \<times> extern) list \<Rightarrow> store_inner \<Rightarrow> imported \<Rightarrow> imported result" where
  "link_from m [] s sp = Inr sp"
| "link_from m ((imp, ext) # rest) s sp = bindr (link_import m (im_kind imp) ext s sp) (link_from m rest s)"

definition link_imports :: "module_inner \<Rightarrow> extern list \<Rightarrow> store_inner \<Rightarrow> imported result" where
  "link_imports m imports s = link_from m (zip (mi_imports m) imports) s
     \<lparr>ip_funcs = [], ip_memories = [], ip_globals = [], ip_tables = [], ip_tags = []\<rparr>"

section \<open>Defined entities\<close>

definition fresh :: "(store_inner \<Rightarrow> 'h \<times> store_inner) \<Rightarrow> (store_inner, 'h) action" where
  "fresh alloc s = (case alloc s of (h, t) \<Rightarrow> (Inr h, t))"

definition null_ref_for :: "ir_heap \<Rightarrow> ref_val" where
  "null_ref_for h = (case h of
     IhFunc \<Rightarrow> RefFunc None | IhNoFunc \<Rightarrow> RefFunc None | IhConcrete _ AkFunc \<Rightarrow> RefFunc None
   | IhExtern \<Rightarrow> RefExtern None | IhNoExtern \<Rightarrow> RefExtern None
   | IhExn \<Rightarrow> RefExn None | IhNoExn \<Rightarrow> RefExn None
   | _ \<Rightarrow> RefAny None)"

definition alloc_memories :: "(nat \<Rightarrow> bool) \<Rightarrow> memory_type list \<Rightarrow> (store_inner, entity_handle list) action" where
  "alloc_memories can_alloc = each (\<lambda>mt. bindc (lift_res (memory_new can_alloc mt)) (\<lambda>me. fresh (alloc_memory me)))"

definition alloc_tags :: "module_inner \<Rightarrow> nat list \<Rightarrow> (store_inner, entity_handle list) action" where
  "alloc_tags m = each (\<lambda>t. bindc (lift_res (mi_type_id m t)) (\<lambda>ty. fresh (alloc_tag ty)))"

definition alloc_funcs :: "module_inner \<Rightarrow> entity_handle \<Rightarrow> (store_inner, func_handle list) action" where
  "alloc_funcs m inst = each (\<lambda>i. fresh (alloc_func (FuncWasm inst (mi_num_imported_funcs m + i)))) [0..<length (mi_functions m)]"

definition alloc_defined_tables ::
  "nat \<Rightarrow> (nat \<Rightarrow> bool) \<Rightarrow> module_inner \<Rightarrow> func_handle list \<Rightarrow> entity_handle list \<Rightarrow> (store_inner, entity_handle list) action" where
  "alloc_defined_tables depth can_alloc m funcs globals = each (\<lambda>td.
     bindc (case td_init td of
         Some e \<Rightarrow> eval_const_ref depth \<lparr>cc_module = m, cc_funcs = funcs, cc_globals = globals\<rparr> e
       | None \<Rightarrow> ret (null_ref_for (itt_heap (td_ty td)))) (\<lambda>init.
     bindc (lift_res (materialize_table (mi_type_ids m) (td_ty td))) (\<lambda>ty.
     bindc (lift_res (table_new can_alloc ty init)) (\<lambda>te. fresh (alloc_table te))))) (mi_tables m)"

fun init_globals_from ::
  "nat \<Rightarrow> module_inner \<Rightarrow> func_handle list \<Rightarrow> global_def list \<Rightarrow> entity_handle list \<Rightarrow> (store_inner, entity_handle list) action" where
  "init_globals_from depth m funcs [] globals = ret globals"
| "init_globals_from depth m funcs (g # gs) globals =
     bindc (eval_const depth \<lparr>cc_module = m, cc_funcs = funcs, cc_globals = globals\<rparr> (gd_init g)) (\<lambda>v.
     bindc (lift_res (materialize_global (mi_type_ids m) (gd_ty g))) (\<lambda>ty.
     bindc (fresh (alloc_global \<lparr>ge_value = v, ge_ty = ty\<rparr>)) (\<lambda>h.
     init_globals_from depth m funcs gs (globals @ [h]))))"

definition init_defined_globals ::
  "nat \<Rightarrow> module_inner \<Rightarrow> func_handle list \<Rightarrow> entity_handle list \<Rightarrow> (store_inner, entity_handle list) action" where
  "init_defined_globals depth m funcs globals = init_globals_from depth m funcs (mi_globals m) globals"

section \<open>Segments\<close>

definition eval_elems ::
  "nat \<Rightarrow> module_inner \<Rightarrow> func_handle list \<Rightarrow> entity_handle list \<Rightarrow> (store_inner, ref_val list list) action" where
  "eval_elems depth m funcs globals =
     each (\<lambda>seg. elem_refs depth \<lparr>cc_module = m, cc_funcs = funcs, cc_globals = globals\<rparr> (es_items seg)) (mi_elems m)"

definition passive_elem_instances :: "module_inner \<Rightarrow> ref_val list list \<Rightarrow> ref_val list list" where
  "passive_elem_instances m evaluated = map (\<lambda>(seg, refs). case es_mode seg of ElemPassive \<Rightarrow> refs | _ \<Rightarrow> []) (zip (mi_elems m) evaluated)"

definition const_to_usize :: "val \<Rightarrow> trap \<Rightarrow> nat result" where
  "const_to_usize v overflow = (case v of I32 x \<Rightarrow> Inr (unat x)
     | I64 x \<Rightarrow> (if unat x \<le> usize_max then Inr (unat x) else Inl (Trapped overflow))
     | _ \<Rightarrow> Inl (Msg ''segment offset is not an integer''))"

definition apply_active_elem :: "entity_handle \<Rightarrow> nat \<Rightarrow> ref_val list \<Rightarrow> (store_inner, unit) action" where
  "apply_active_elem h dst refs = bindc (\<lambda>s. (table_at h s, s)) (\<lambda>te.
     case checked_add usize_max dst (length refs) of
       None \<Rightarrow> fail (Trapped TableOutOfBounds)
     | Some e \<Rightarrow> (if table_size te < e then fail (Trapped TableOutOfBounds) else putc (put_elems h dst refs)))"

definition apply_active :: "nat \<Rightarrow> const_ctx \<Rightarrow> entity_handle list \<Rightarrow> elem_segment \<times> ref_val list \<Rightarrow> (store_inner, unit) action" where
  "apply_active depth ctx tables = (\<lambda>(seg, refs). case es_mode seg of
     ElemActive t off \<Rightarrow>
       bindc (eval_const depth ctx off) (\<lambda>v.
       bindc (lift_res (const_to_usize v TableOutOfBounds)) (\<lambda>dst.
       bindc (lift_res (index_at tables t)) (\<lambda>h. apply_active_elem h dst refs)))
   | _ \<Rightarrow> ret ())"

definition apply_active_elems :: "nat \<Rightarrow> module_inner \<Rightarrow> func_handle list \<Rightarrow> entity_handle list \<Rightarrow> entity_handle list \<Rightarrow>
    ref_val list list \<Rightarrow> (store_inner, unit list) action" where
  "apply_active_elems depth m funcs tables globals evaluated =
     each (apply_active depth \<lparr>cc_module = m, cc_funcs = funcs, cc_globals = globals\<rparr> tables) (zip (mi_elems m) evaluated)"

definition write_data :: "entity_handle \<Rightarrow> entity_handle \<Rightarrow> nat \<Rightarrow> nat \<Rightarrow> u8 list \<Rightarrow> (store_inner, unit) action" where
  "write_data inst h seg_idx dst data =
     bindc (\<lambda>s. (memory_at h s, s)) (\<lambda>me.
     case checked_add usize_max dst (length data) of
       None \<Rightarrow> fail (Trapped MemoryOutOfBounds)
     | Some e \<Rightarrow> (if length (me_bytes me) < e then fail (Trapped MemoryOutOfBounds)
         else bindc (putc (put_memory h (me\<lparr>me_bytes := write_at (me_bytes me) dst data\<rparr>))) (\<lambda>_.
           bindc (\<lambda>s. (instance_at inst s, s)) (\<lambda>ie.
           bindc (lift_res (index_at (ie_dropped_data ie) seg_idx)) (\<lambda>_.
           putc (put_instance inst (ie\<lparr>ie_dropped_data := (ie_dropped_data ie)[seg_idx := True]\<rparr>)))))))"

definition init_data :: "nat \<Rightarrow> module_inner \<Rightarrow> entity_handle \<Rightarrow> entity_handle list \<Rightarrow> entity_handle list \<Rightarrow>
    nat \<times> data_segment \<Rightarrow> (store_inner, unit) action" where
  "init_data depth m inst memories globals = (\<lambda>(seg_idx, seg). case ds_mode seg of
     DataPassive \<Rightarrow> ret ()
   | DataActive mem off \<Rightarrow>
       bindc (eval_const depth \<lparr>cc_module = m, cc_funcs = [], cc_globals = globals\<rparr> off) (\<lambda>v.
       bindc (lift_res (const_to_usize v MemoryOutOfBounds)) (\<lambda>dst.
       bindc (lift_res (index_at memories mem)) (\<lambda>h. write_data inst h seg_idx dst (ds_bytes seg)))))"

definition init_datas :: "nat \<Rightarrow> module_inner \<Rightarrow> entity_handle \<Rightarrow> entity_handle list \<Rightarrow> entity_handle list \<Rightarrow> (store_inner, unit list) action" where
  "init_datas depth m inst memories globals =
     each (init_data depth m inst memories globals) (zip [0..<length (mi_datas m)] (mi_datas m))"

section \<open>Instantiation\<close>

definition instantiate :: "nat \<Rightarrow> (nat \<Rightarrow> bool) \<Rightarrow> module_inner \<Rightarrow> extern list \<Rightarrow> (store_inner, entity_handle) action" where
  "instantiate depth can_alloc m imports =
     (if length (mi_imports m) \<noteq> length imports then fail (Msg ''wrong number of imports'') else
     bindc (\<lambda>s. (link_imports m imports s, s)) (\<lambda>sp.
     bindc (alloc_memories can_alloc (mi_memories m)) (\<lambda>mems.
     bindc (alloc_tags m (mi_tags m)) (\<lambda>tags.
     bindc (getc reserve_instance) (\<lambda>inst.
     bindc (alloc_funcs m inst) (\<lambda>fs.
     let funcs = ip_funcs sp @ fs; memories = ip_memories sp @ mems in
     bindc (alloc_defined_tables depth can_alloc m funcs (ip_globals sp)) (\<lambda>tabs.
     let tables = ip_tables sp @ tabs in
     bindc (init_defined_globals depth m funcs (ip_globals sp)) (\<lambda>globals.
     bindc (eval_elems depth m funcs globals) (\<lambda>evaluated.
     bindc (fresh (alloc_instance \<lparr>ie_module = m, ie_funcs = funcs, ie_memories = memories, ie_globals = globals, ie_tables = tables,
       ie_tags = ip_tags sp @ tags, ie_dropped_data = replicate (length (mi_datas m)) False,
       ie_elems = passive_elem_instances m evaluated\<rparr>)) (\<lambda>_.
     bindc (apply_active_elems depth m funcs tables globals evaluated) (\<lambda>_.
     bindc (init_datas depth m inst memories globals) (\<lambda>_.
     ret inst))))))))))))"

end
