(* ===== verification/Instantiate_Frame.thy ===== *)
theory Instantiate_Frame
  imports Instantiate
begin

text \<open>
  What an instantiation may touch. A step of it appends entities and objects; it writes into an existing memory or table only through
  an active segment, and then only if the module imports it.
\<close>

section \<open>Growing stores\<close>

text \<open>Entries keep their place; outside \<open>W\<close> they keep their value.\<close>

definition kept :: "('e \<Rightarrow> 'e \<Rightarrow> bool) \<Rightarrow> nat set \<Rightarrow> 'e list \<Rightarrow> 'e list \<Rightarrow> bool" where
  "kept Q W xs ys \<longleftrightarrow> length xs \<le> length ys \<and> (\<forall>i < length xs. Q (xs ! i) (ys ! i) \<and> (i \<notin> W \<longrightarrow> ys ! i = xs ! i))"

definition same_memory :: "memory_entity \<Rightarrow> memory_entity \<Rightarrow> bool" where
  "same_memory a b \<longleftrightarrow> me_ty b = me_ty a \<and> length (me_bytes b) = length (me_bytes a)"

definition same_table :: "table_entity \<Rightarrow> table_entity \<Rightarrow> bool" where
  "same_table a b \<longleftrightarrow> te_ty b = te_ty a \<and> length (te_elems b) = length (te_elems a)"

definition others :: "store_inner \<Rightarrow> store_inner" where
  "others s = s\<lparr>si_funcs := [], si_memories := [], si_tables := [], si_globals := [], si_tags := [], si_instances := [],
     si_gc := gc_heap_new False 0, si_externrefs := ra_default\<rparr>"

definition grown :: "nat set \<Rightarrow> nat set \<Rightarrow> nat set \<Rightarrow> store_inner \<Rightarrow> store_inner \<Rightarrow> bool" where
  "grown M T I s t \<longleftrightarrow> others t = others s \<and> kept (=) {} (si_funcs s) (si_funcs t) \<and> kept (=) {} (si_globals s) (si_globals t) \<and>
     kept (=) {} (si_tags s) (si_tags t) \<and> kept (\<lambda>_ _. True) I (si_instances s) (si_instances t) \<and>
     kept same_memory M (si_memories s) (si_memories t) \<and> kept same_table T (si_tables s) (si_tables t) \<and>
     (\<forall>i ob. gc_get (si_gc s) i = Some ob \<longrightarrow> gc_get (si_gc t) i = Some ob) \<and>
     (\<forall>i x. ra_get (si_externrefs s) i = Some x \<longrightarrow> ra_get (si_externrefs t) i = Some x)"

lemma kept_refl: "(\<And>x. Q x x) \<Longrightarrow> kept Q W xs xs"
  by (simp add: kept_def)

lemma kept_trans:
  assumes "\<And>x y z. Q x y \<Longrightarrow> Q y z \<Longrightarrow> Q x z" and "kept Q W xs ys" and "kept Q W ys zs"
  shows "kept Q W xs zs"
  using assms(2,3) unfolding kept_def by (auto intro: assms(1) dest: less_le_trans)

lemma kept_append: "(\<And>x. Q x x) \<Longrightarrow> kept Q W xs (xs @ ys)"
  by (simp add: kept_def nth_append)

lemma kept_update:
  assumes "\<And>x. Q x x" and "i \<in> W" and "i < length xs \<Longrightarrow> Q (xs ! i) y"
  shows "kept Q W xs (xs[i := y])"
  unfolding kept_def
proof (intro conjI allI impI)
  fix j assume "j < length xs"
  then show "Q (xs ! j) (xs[i := y] ! j)" using assms by (cases "j = i") simp_all
  show "xs[i := y] ! j = xs ! j" if "j \<notin> W" using that assms(2) by (cases "j = i") simp_all
qed simp

lemma kept_restrict: "kept Q W xs ys \<Longrightarrow> W \<inter> {..<length xs} \<subseteq> V \<Longrightarrow> kept Q V xs ys"
  unfolding kept_def by auto

lemma same_refl [simp]: "same_memory x x" "same_table y y"
  by (simp_all add: same_memory_def same_table_def)

lemma same_trans: "same_memory a b \<Longrightarrow> same_memory b c \<Longrightarrow> same_memory a c" "same_table x y \<Longrightarrow> same_table y z \<Longrightarrow> same_table x z"
  by (simp_all add: same_memory_def same_table_def)

lemma grown_refl [simp]: "grown M T I s s"
  by (simp add: grown_def kept_refl)

lemma grown_trans:
  assumes "grown M T I s t" and "grown M T I t u"
  shows "grown M T I s u"
proof -
  note d = assms [unfolded grown_def]
  have "kept same_memory M (si_memories s) (si_memories u)" "kept same_table T (si_tables s) (si_tables u)"
    using d by (auto intro: kept_trans [OF same_trans(1)] kept_trans [OF same_trans(2)])
  moreover have "kept (=) {} (si_funcs s) (si_funcs u)" "kept (=) {} (si_globals s) (si_globals u)" "kept (=) {} (si_tags s) (si_tags u)"
    "kept (\<lambda>_ _. True) I (si_instances s) (si_instances u)"
    using d by (auto intro: kept_trans [rotated])
  ultimately show ?thesis using d by (simp add: grown_def)
qed

lemma heap_grown_grown:
  assumes "heap_grown s t"
  shows "grown M T I s t"
proof -
  obtain h a where t: "t = s\<lparr>si_gc := h, si_externrefs := a\<rparr>" using heap_grown_frame [OF assms] by blast
  have "\<forall>i ob. gc_get (si_gc s) i = Some ob \<longrightarrow> gc_get h i = Some ob" "\<forall>i x. ra_get (si_externrefs s) i = Some x \<longrightarrow> ra_get a i = Some x"
    using assms by (simp_all add: heap_grown_def t)
  then show ?thesis by (simp add: grown_def t others_def kept_refl)
qed

text \<open>Actions that keep the store settled and grow it.\<close>

definition grows_in :: "nat set \<Rightarrow> nat set \<Rightarrow> nat set \<Rightarrow> (store_inner, 'a) action \<Rightarrow> bool" where
  "grows_in M T I m \<longleftrightarrow> (\<forall>s r t. settled s \<longrightarrow> m s = (r, t) \<longrightarrow> grown M T I s t \<and> settled t)"

lemma grows_inD: "grows_in M T I m \<Longrightarrow> settled s \<Longrightarrow> m s = (r, t) \<Longrightarrow> grown M T I s t \<and> settled t"
  by (simp add: grows_in_def)

named_theorems grow_intros

lemma grows_basic [grow_intros]: "grows_in M T I (ret x)" "grows_in M T I (fail e)" "grows_in M T I (lift_res q)" "grows_in M T I (\<lambda>s. (f s, s))"
  "grows_in M T I (getc g)"
  by (simp_all add: grows_in_def)

lemma grows_bindc [grow_intros]:
  assumes m: "grows_in M T I m" and f: "\<And>x. grows_in M T I (f x)"
  shows "grows_in M T I (bindc m f)"
  unfolding grows_in_def
proof (intro allI impI)
  fix s r u
  assume s: "settled s" and run: "bindc m f s = (r, u)"
  obtain q t where q: "m s = (q, t)" by fastforce
  have t: "grown M T I s t" "settled t" using grows_inD [OF m s q] by auto
  show "grown M T I s u \<and> settled u"
  proof (cases q)
    case (Inr x)
    with run q have "f x t = (r, u)" by simp
    from grows_inD [OF f t(2) this] t(1) show ?thesis using grown_trans by blast
  qed (use run q t in simp)
qed

lemma grows_bind_index:
  assumes "\<And>h. h \<in> set hs \<Longrightarrow> grows_in M T I (f h)"
  shows "grows_in M T I (bindc (lift_res (index_at hs i)) f)"
proof (cases "i < length hs")
  case True
  then have "bindc (lift_res (index_at hs i)) f = f (hs ! i)" by (simp add: fun_eq_iff bindc_def index_at_def)
  with True assms show ?thesis by simp
next
  case False
  then have "bindc (lift_res (index_at hs i)) f s = (Inl (Panic ''index out of bounds''), s)" for s by (simp add: bindc_def index_at_def)
  then show ?thesis by (simp add: grows_in_def)
qed

lemma grows_adds: "adds m \<Longrightarrow> grows_in M T I m"
  by (simp add: adds_def grows_in_def heap_grown_grown)

lemmas grows_eval [grow_intros] = adds_eval_const [THEN grows_adds] adds_elem_refs [THEN grows_adds]

lemma grows_each: "(\<And>x. x \<in> set xs \<Longrightarrow> grows_in M T I (f x)) \<Longrightarrow> grows_in M T I (each f xs)"
  by (induction xs) (auto intro!: grow_intros)

lemma settled_frame: "si_gc t = si_gc s \<Longrightarrow> si_externrefs t = si_externrefs s \<Longrightarrow> si_exns t = si_exns s \<Longrightarrow> settled t = settled s"
  by (simp add: settled_def gc_store_ok_def small_budget_def)

lemma grows_fresh [grow_intros]:
  "grows_in M T I (fresh (alloc_memory me))" "grows_in M T I (fresh (alloc_table te))" "grows_in M T I (fresh (alloc_global ge))"
  "grows_in M T I (fresh (alloc_tag tid))" "grows_in M T I (fresh (alloc_func fe))" "grows_in M T I (fresh (alloc_instance ie))"
  by (auto simp: grows_in_def grown_def fresh_def alloc_memory_def alloc_table_def alloc_global_def alloc_tag_def alloc_func_def
      alloc_instance_def others_def settled_def gc_store_ok_def small_budget_def intro!: kept_refl kept_append)

section \<open>Writes of the active segments\<close>

lemma grows_put_elems:
  assumes "unat (eh_index h) \<in> T"
  shows "grows_in M T I (apply_active_elem h dst refs)"
proof -
  have put: "grown M T I s (put_elems h dst refs s) \<and> settled (put_elems h dst refs s)" if "settled s" for s
    using that assms by (auto simp: grown_def put_elems_def put_table_def others_def same_table_def settled_def gc_store_ok_def small_budget_def
        intro!: kept_refl kept_update)
  show ?thesis
    unfolding apply_active_elem_def
    by (intro grows_bindc grow_intros) (auto simp: grows_in_def put split: option.splits if_splits)
qed

lemma grows_apply_active:
  assumes "\<forall>h \<in> set tables. unat (eh_index h) \<in> T"
  shows "grows_in M T I (apply_active depth ctx tables p)"
proof -
  show ?thesis
    unfolding apply_active_def
    by (cases p; cases "es_mode (fst p)") (simp_all, (intro grow_intros grows_bind_index grows_put_elems assms [rule_format]; assumption?)+)
qed

lemma grows_write_data:
  assumes "unat (eh_index h) \<in> M" and "unat (eh_index inst) \<in> I"
  shows "grows_in M T I (write_data inst h seg_idx dst data)"
  unfolding grows_in_def
proof (intro allI impI)
  fix s r t
  assume s: "settled s" and run: "write_data inst h seg_idx dst data s = (r, t)"
  show "grown M T I s t \<and> settled t"
  proof (cases "memory_at h s")
    case (Inl e)
    with run s show ?thesis by (simp add: write_data_def)
  next
    case (Inr me)
    then have me: "unat (eh_index h) < length (si_memories s)" "me = si_memories s ! unat (eh_index h)"
      by (auto simp: entity_at_def index_at_def split: if_splits)
    let ?me = "me\<lparr>me_bytes := write_at (me_bytes me) dst data\<rparr>"
    show ?thesis
    proof (cases "dst + length data \<le> length (me_bytes me) \<and> dst + length data \<le> usize_max")
      case False
      with run s Inr show ?thesis by (auto simp: write_data_def checked_add_def split: if_splits)
    next
      case True
      then have len: "length (me_bytes ?me) = length (me_bytes me)" by simp
      have put: "grown M T I s (put_memory h ?me s) \<and> settled (put_memory h ?me s)"
        using s assms(1) me len by (auto simp: grown_def put_memory_def others_def same_memory_def settled_def gc_store_ok_def small_budget_def
            intro!: kept_refl kept_update)
      have inst: "grown M T I u (put_instance inst ie u) \<and> settled (put_instance inst ie u)" if "settled u" for u ie
        using that assms(2) by (auto simp: grown_def put_instance_def others_def settled_def gc_store_ok_def small_budget_def
            intro!: kept_refl kept_update)
      from run Inr True have "t = put_memory h ?me s \<or> (\<exists>ie. t = put_instance inst ie (put_memory h ?me s))"
        by (auto simp: write_data_def checked_add_def bindc_def split: sum.splits if_splits)
      with put inst show ?thesis using grown_trans by blast
    qed
  qed
qed

lemma grows_init_data:
  assumes "\<forall>h \<in> set memories. unat (eh_index h) \<in> M" and "unat (eh_index inst) \<in> I"
  shows "grows_in M T I (init_data depth m inst memories globals p)"
proof -
  show ?thesis
    unfolding init_data_def
    by (cases p; cases "ds_mode (snd p)") (simp_all, (intro grow_intros grows_bind_index grows_write_data assms(1) [rule_format] assms(2); assumption?)+)
qed

section \<open>Handles\<close>

lemma link_from_imports:
  assumes "link_from m ps s sp = Inr sp'"
  shows "set (ip_memories sp') \<subseteq> set (ip_memories sp) \<union> {h. XMemory h \<in> snd ` set ps}"
    and "set (ip_tables sp') \<subseteq> set (ip_tables sp) \<union> {h. XTable h \<in> snd ` set ps}"
proof -
  have "set (ip_memories sp') \<subseteq> set (ip_memories sp) \<union> {h. XMemory h \<in> snd ` set ps} \<and>
    set (ip_tables sp') \<subseteq> set (ip_tables sp) \<union> {h. XTable h \<in> snd ` set ps}"
    using assms
  proof (induction ps arbitrary: sp)
    case (Cons p ps)
    obtain imp ext where p: "p = (imp, ext)" by (cases p)
    with Cons.prems obtain sp1 where sp1: "link_import m (im_kind imp) ext s sp = Inr sp1" "link_from m ps s sp1 = Inr sp'" by auto
    have "set (ip_memories sp1) \<subseteq> set (ip_memories sp) \<union> {h. XMemory h = ext} \<and> set (ip_tables sp1) \<subseteq> set (ip_tables sp) \<union> {h. XTable h = ext}"
      using sp1(1) by (auto simp: link_import_def split: import_kind.splits extern.splits)
    with Cons.IH [OF sp1(2)] show ?case by (auto simp: p)
  qed simp
  then show "set (ip_memories sp') \<subseteq> set (ip_memories sp) \<union> {h. XMemory h \<in> snd ` set ps}"
    "set (ip_tables sp') \<subseteq> set (ip_tables sp) \<union> {h. XTable h \<in> snd ` set ps}" by auto
qed

lemma link_imports_subset:
  assumes "link_imports m imports s = Inr sp"
  shows "set (ip_memories sp) \<subseteq> {h. XMemory h \<in> set imports}" and "set (ip_tables sp) \<subseteq> {h. XTable h \<in> set imports}"
proof -
  have "snd ` set (zip (mi_imports m) imports) \<subseteq> set imports" by (auto dest: set_zip_rightD)
  with link_from_imports [OF assms [unfolded link_imports_def]]
  show "set (ip_memories sp) \<subseteq> {h. XMemory h \<in> set imports}" "set (ip_tables sp) \<subseteq> {h. XTable h \<in> set imports}" by auto
qed

text \<open>A loop of allocations hands out consecutive indices.\<close>

lemma each_handles:
  assumes step: "\<And>x u h v. x \<in> set xs \<Longrightarrow> P u \<Longrightarrow> f x u = (Inr h, v) \<Longrightarrow> P v \<and> h = mk (n u) \<and> n v = Suc (n u)"
    and "P s" and "each f xs s = (Inr hs, t)"
  shows "P t \<and> hs = map (\<lambda>i. mk (n s + i)) [0..<length xs] \<and> n t = n s + length xs"
  using assms
proof (induction xs arbitrary: s hs)
  case (Cons x xs)
  from Cons.prems(3) obtain h u hs' where h: "f x s = (Inr h, u)" "each f xs u = (Inr hs', t)" "hs = h # hs'"
    by (auto simp: bindc_eq_Inr)
  have u: "P u" "h = mk (n s)" "n u = Suc (n s)" using Cons.prems(1) [OF _ Cons.prems(2) h(1)] by auto
  have "P t \<and> hs' = map (\<lambda>i. mk (n u + i)) [0..<length xs] \<and> n t = n u + length xs"
    by (rule Cons.IH [OF _ u(1) h(2)]) (rule Cons.prems(1); simp)
  moreover have "map (\<lambda>i. mk (n s + i)) [0..<length (x # xs)] = mk (n s) # map (\<lambda>i. mk (n u + i)) [0..<length xs]"
    by (simp add: u(3) upt_conv_Cons map_Suc_upt [symmetric] comp_def del: upt_Suc)
  ultimately show ?case using u h(3) by simp
qed simp

lemma each_same:
  assumes "\<And>x u. g (snd (f x u)) = g u"
  shows "g (snd (each f xs s)) = g s"
proof (induction xs arbitrary: s)
  case (Cons x xs)
  obtain q u where q: "f x s = (q, u)" by fastforce
  have "g u = g s" using assms [of x s] q by simp
  with Cons.IH [of u] show ?case by (cases q; cases "each f xs u"; cases "fst (each f xs u)") (simp_all add: q bindc_def)
qed simp

abbreviation handle_of :: "u64 \<Rightarrow> nat \<Rightarrow> entity_handle" where
  "handle_of sid k \<equiv> \<lparr>eh_index = of_nat k, eh_store = sid\<rparr>"

lemma memories_handles:
  assumes "alloc_memories can_alloc mts s = (Inr hs, t)"
  shows "hs = map (\<lambda>i. handle_of (si_store_id s) (length (si_memories s) + i)) [0..<length mts]"
proof -
  have "si_store_id t = si_store_id s \<and> hs = map (\<lambda>i. handle_of (si_store_id s) (length (si_memories s) + i)) [0..<length mts] \<and>
      length (si_memories t) = length (si_memories s) + length mts"
    by (rule each_handles [where P = "\<lambda>u. si_store_id u = si_store_id s" and n = "\<lambda>u. length (si_memories u)", OF _ _ assms [unfolded alloc_memories_def]])
      (auto simp: bindc_eq_Inr fresh_def alloc_memory_def fresh_handle_def)
  then show ?thesis by blast
qed

lemma tables_handles:
  assumes s: "settled s" and run: "alloc_defined_tables depth can_alloc m funcs globals s = (Inr hs, t)"
  shows "hs = map (\<lambda>i. handle_of (si_store_id s) (length (si_tables s) + i)) [0..<length (mi_tables m)]"
proof -
  let ?P = "\<lambda>u. settled u \<and> si_store_id u = si_store_id s"
  let ?init = "\<lambda>td. case td_init td of Some e \<Rightarrow> eval_const_ref depth \<lparr>cc_module = m, cc_funcs = funcs, cc_globals = globals\<rparr> e
    | None \<Rightarrow> ret (null_ref_for (itt_heap (td_ty td)))"
  have init: "si_tables v = si_tables u \<and> si_store_id v = si_store_id u \<and> settled v" if u: "settled u" "?init td u = (Inr x, v)" for td u x v
  proof -
    have "adds (?init td)" by (auto intro: adds_intros adds_eval_const split: option.split)
    with u have v: "heap_grown u v" "settled v" by (auto dest: addsD)
    obtain g a where "v = u\<lparr>si_gc := g, si_externrefs := a\<rparr>" using heap_grown_frame [OF v(1)] by blast
    with v(2) show ?thesis by simp
  qed
  have frame: "settled (u\<lparr>si_tables := x\<rparr>) = settled u" for u x by (rule settled_frame) simp_all
  have "?P t \<and> hs = map (\<lambda>i. handle_of (si_store_id s) (length (si_tables s) + i)) [0..<length (mi_tables m)] \<and> length (si_tables t) = length (si_tables s) + length (mi_tables m)"
  proof (rule each_handles [where P = ?P and n = "\<lambda>u. length (si_tables u)", OF _ _ run [unfolded alloc_defined_tables_def]])
    fix td u h v
    assume u: "?P u" and st: "bindc (?init td) (\<lambda>init. bindc (lift_res (materialize_table (mi_type_ids m) (td_ty td))) (\<lambda>ty.
      bindc (lift_res (table_new can_alloc ty init)) (\<lambda>te. fresh (alloc_table te)))) u = (Inr h, v)"
    from st obtain x w where w: "?init td u = (Inr x, w)" "\<exists>te. fresh (alloc_table te) w = (Inr h, v)" by (auto simp: bindc_eq_Inr)
    from init [OF _ w(1)] u w(2) show "?P v \<and> h = handle_of (si_store_id s) (length (si_tables u)) \<and> length (si_tables v) = Suc (length (si_tables u))"
      by (auto simp: fresh_def alloc_table_def fresh_handle_def frame)
  qed (use s in simp)
  then show ?thesis by blast
qed

lemma alloc_keeps_tables:
  "(si_tables (snd (alloc_memories can_alloc mts s)), si_instances (snd (alloc_memories can_alloc mts s))) = (si_tables s, si_instances s)"
  "(si_tables (snd (alloc_tags m ts s)), si_instances (snd (alloc_tags m ts s))) = (si_tables s, si_instances s)"
  "(si_tables (snd (alloc_funcs m inst s)), si_instances (snd (alloc_funcs m inst s))) = (si_tables s, si_instances s)"
  unfolding alloc_memories_def alloc_tags_def alloc_funcs_def
  by (rule each_same [where g = "\<lambda>u. (si_tables u, si_instances u)"];
      auto simp: bindc_def fresh_def alloc_memory_def alloc_tag_def alloc_func_def split: sum.splits)+

text \<open>The same with a condition on the start and on what is handed on.\<close>

definition grows_from :: "nat set \<Rightarrow> nat set \<Rightarrow> nat set \<Rightarrow> (store_inner \<Rightarrow> bool) \<Rightarrow> (store_inner, 'a) action \<Rightarrow> ('a \<Rightarrow> store_inner \<Rightarrow> bool) \<Rightarrow> bool" where
  "grows_from M T I G m Q \<longleftrightarrow> (\<forall>s r t. settled s \<longrightarrow> G s \<longrightarrow> m s = (r, t) \<longrightarrow> grown M T I s t \<and> settled t \<and> (\<forall>x. r = Inr x \<longrightarrow> Q x t))"

lemma from_plain: "grows_in M T I m \<Longrightarrow> grows_from M T I G m (\<lambda>_ _. True)"
  by (simp add: grows_in_def grows_from_def)

lemma from_post:
  "grows_in M T I m \<Longrightarrow> (\<And>s x t. settled s \<Longrightarrow> G s \<Longrightarrow> m s = (Inr x, t) \<Longrightarrow> Q x t) \<Longrightarrow> grows_from M T I G m Q"
  by (auto simp: grows_in_def grows_from_def)

lemma from_fact: "(A \<Longrightarrow> grows_from M T I G m Q) \<Longrightarrow> grows_from M T I (\<lambda>u. A \<and> G u) m Q"
  by (auto simp: grows_from_def)

lemma from_if: "(b \<Longrightarrow> grows_from M T I G m Q) \<Longrightarrow> (\<not> b \<Longrightarrow> grows_from M T I G n Q) \<Longrightarrow> grows_from M T I G (if b then m else n) Q"
  by simp

lemma from_bind:
  assumes m: "grows_from M T I G m Q" and f: "\<And>x. grows_from M T I (Q x) (f x) Q'"
  shows "grows_from M T I G (bindc m f) Q'"
  unfolding grows_from_def
proof (intro allI impI)
  fix s r t
  assume s: "settled s" "G s" and run: "bindc m f s = (r, t)"
  obtain q u where q: "m s = (q, u)" by fastforce
  have u: "grown M T I s u" "settled u" "\<And>x. q = Inr x \<Longrightarrow> Q x u" using m s q unfolding grows_from_def by blast+
  show "grown M T I s t \<and> settled t \<and> (\<forall>x. r = Inr x \<longrightarrow> Q' x t)"
  proof (cases q)
    case (Inr x)
    have "grown M T I u t \<and> settled t \<and> (\<forall>x. r = Inr x \<longrightarrow> Q' x t)"
      using f [of x] u(2) u(3) [OF Inr] run q unfolding grows_from_def by (simp add: Inr)
    with u(1) show ?thesis using grown_trans by blast
  qed (use run q u in auto)
qed

lemma grows_allocs [grow_intros]:
  "grows_in M T I (alloc_memories can_alloc mts)" "grows_in M T I (alloc_tags m ts)" "grows_in M T I (alloc_funcs m inst)"
  "grows_in M T I (alloc_defined_tables depth can_alloc m funcs globals)" "grows_in M T I (eval_elems depth m funcs globals)"
  unfolding alloc_memories_def alloc_tags_def alloc_funcs_def alloc_defined_tables_def eval_elems_def
  by (intro grows_each grow_intros; auto intro!: grow_intros split: option.split)+

lemma grows_globals [grow_intros]: "grows_in M T I (init_defined_globals depth m funcs globals)"
proof -
  have "grows_in M T I (init_globals_from depth m funcs gs globals)" for gs
    by (induction gs arbitrary: globals) (auto intro!: grow_intros)
  then show ?thesis by (simp add: init_defined_globals_def)
qed

lemma grows_segments [grow_intros]:
  assumes "\<forall>h \<in> set tables. unat (eh_index h) \<in> T"
  shows "grows_in M T I (apply_active_elems depth m funcs tables globals evaluated)"
  unfolding apply_active_elems_def by (intro grows_each grows_apply_active assms)

lemma grows_datas:
  assumes "\<forall>h \<in> set memories. unat (eh_index h) \<in> M" and "unat (eh_index inst) \<in> I"
  shows "grows_in M T I (init_datas depth m inst memories globals)"
  unfolding init_datas_def by (intro grows_each grows_init_data assms)

lemma instantiate_grown:
  assumes s: "settled s" and n: "length (si_memories s) + length (mi_memories m) < 2 ^ 32" "length (si_tables s) + length (mi_tables m) < 2 ^ 32"
      "length (si_instances s) < 2 ^ 32" and run: "instantiate depth can_alloc m imports s = (r, t)"
    and M: "\<And>h. XMemory h \<in> set imports \<Longrightarrow> unat (eh_index h) \<in> M" "{length (si_memories s)..} \<subseteq> M"
    and T: "\<And>h. XTable h \<in> set imports \<Longrightarrow> unat (eh_index h) \<in> T" "{length (si_tables s)..} \<subseteq> T" and I: "{length (si_instances s)..} \<subseteq> I"
  shows "grown M T I s t \<and> settled t"
proof -
  let ?sub = "\<lambda>hs W. \<forall>h \<in> set hs. unat (eh_index h) \<in> W"
  let ?same = "\<lambda>u. si_tables u = si_tables s \<and> si_instances u = si_instances s"
  have tail: "grows_in M T I (bindc (init_defined_globals depth m funcs gl) (\<lambda>globals. bindc (eval_elems depth m funcs globals) (\<lambda>ev.
      bindc (fresh (alloc_instance (ie globals ev))) (\<lambda>_. bindc (apply_active_elems depth m funcs tables globals ev) (\<lambda>_.
      bindc (init_datas depth m inst memories globals) (\<lambda>_. ret inst))))))"
    if "?sub tables T" "?sub memories M" "unat (eh_index inst) \<in> I" for funcs gl ie tables memories inst
    using that by (intro grow_intros grows_datas)
  have link: "?sub (ip_memories sp) M \<and> ?sub (ip_tables sp) T" if "link_imports m imports s = Inr sp" for sp
    using link_imports_subset [OF that] M(1) T(1) by blast
  have mems: "?sub mems M \<and> ?same u" if "alloc_memories can_alloc (mi_memories m) s = (Inr mems, u)" for mems u
    using memories_handles [OF that] alloc_keeps_tables(1) [of can_alloc "mi_memories m" s] that n(1) M(2)
    by (auto simp: unat_of_nat_u32 simp del: of_nat_add)
  have tabs: "?sub tabs T" if "settled u" "?same u" "alloc_defined_tables depth can_alloc m fs gl u = (Inr tabs, v)" for fs gl tabs u v
    using tables_handles [OF that(1,3)] that(2) n(2) T(2) by (auto simp: unat_of_nat_u32 simp del: of_nat_add)
  have inst: "unat (eh_index (reserve_instance u)) \<in> I" if "?same u" for u
    using that n(3) I by (auto simp: reserve_instance_def fresh_handle_def unat_of_nat_u32)
  have same: "?same v" if "?same u" "alloc_tags m (mi_tags m) u = (q, v) \<or> alloc_funcs m i u = (q', v)" for i u v q q'
    using that alloc_keeps_tables(2) [of m "mi_tags m" u] alloc_keeps_tables(3) [of m i u] by auto
  have "grows_from M T I (\<lambda>u. u = s) (instantiate depth can_alloc m imports) (\<lambda>_ _. True)"
    unfolding instantiate_def Let_def
    apply (rule from_if, (intro from_plain grow_intros)[1])
    apply (rule from_bind [where Q = "\<lambda>sp u. (?sub (ip_memories sp) M \<and> ?sub (ip_tables sp) T) \<and> u = s"])
     apply (rule from_post, rule grow_intros, use link in simp)
    apply (rule from_fact, rule from_bind [where Q = "\<lambda>mems u. ?sub mems M \<and> ?same u"])
     apply (rule from_post, rule grow_intros, use mems in simp)
    apply (rule from_fact, rule from_bind [where Q = "\<lambda>_. ?same"])
     apply (rule from_post, rule grow_intros, use same in blast)
    apply (rule from_bind [where Q = "\<lambda>i u. unat (eh_index i) \<in> I \<and> ?same u"])
     apply (rule from_post, rule grow_intros, use inst in auto)
    apply (rule from_fact, rule from_bind [where Q = "\<lambda>_. ?same"])
     apply (rule from_post, rule grow_intros, use same in blast)
    apply (rule from_bind [where Q = "\<lambda>tabs u. ?sub tabs T \<and> True"])
     apply (rule from_post, rule grow_intros, use tabs in blast)
    apply (rule from_fact, rule from_plain, rule tail)
    by auto
  then show ?thesis using s run unfolding grows_from_def by blast
qed

section \<open>Properties\<close>

text \<open>C37. Instantiation is isolated. Whatever module is instantiated, with whatever imports, and whether it succeeds or fails at any step, every
  function, global, tag and instance the store had is unchanged, every object and externref keeps its content, every memory and table keeps
  its type and size, and the only ones whose contents may differ are those the module imports; nothing else of the store changes. (The
  indices of a store are 32 bits wide, so the counts must stay below that.)\<close>

theorem instantiate_isolated:
  assumes "gc_store_ok s" and "small_budget s" and "length (si_memories s) + length (mi_memories m) < 2 ^ 32"
    and "length (si_tables s) + length (mi_tables m) < 2 ^ 32" and "length (si_instances s) < 2 ^ 32"
    and run: "instantiate depth can_alloc m imports s = (r, t)"
  shows "grown {unat (eh_index h) | h. XMemory h \<in> set imports} {unat (eh_index h) | h. XTable h \<in> set imports} {} s t"
proof -
  let ?M = "{unat (eh_index h) | h. XMemory h \<in> set imports}" and ?T = "{unat (eh_index h) | h. XTable h \<in> set imports}"
  have s: "settled s" using assms by (simp add: settled_def)
  have "grown (?M \<union> {length (si_memories s)..}) (?T \<union> {length (si_tables s)..}) {length (si_instances s)..} s t"
    using instantiate_grown [OF s assms(3-6), of "?M \<union> {length (si_memories s)..}" "?T \<union> {length (si_tables s)..}" "{length (si_instances s)..}"] by auto
  then show ?thesis unfolding grown_def by (auto intro: kept_restrict)
qed

text \<open>A module with a memory, an active segment into an imported memory and one into its own.\<close>

definition segment_module :: module_inner where
  "segment_module = (co_module sample_code)\<lparr>mi_functions := [], mi_func_types := [],
     mi_imports := [\<lparr>im_module = ''env'', im_name = ''m'', im_kind = ImMemory \<lparr>mt_minimum = 0, mt_maximum = None, mt_memory64 = False\<rparr>\<rparr>],
     mi_memories := [\<lparr>mt_minimum = 0, mt_maximum = None, mt_memory64 = False\<rparr>],
     mi_datas := [\<lparr>ds_mode = DataActive 0 [CI32 1], ds_bytes = [7, 8]\<rparr>]\<rparr>"

definition two_memories :: store_inner where
  "two_memories = (store_new 1 sample_engine)\<lparr>si_memories := [
     \<lparr>me_bytes = [1, 2, 3, 4], me_ty = \<lparr>mt_minimum = 0, mt_maximum = None, mt_memory64 = False\<rparr>\<rparr>,
     \<lparr>me_bytes = [5, 6], me_ty = \<lparr>mt_minimum = 0, mt_maximum = None, mt_memory64 = False\<rparr>\<rparr>]\<rparr>"

theorem instantiate_isolated_witness:
  "\<exists>i t. instantiate 0 (\<lambda>_. True) segment_module [XMemory \<lparr>eh_index = 0, eh_store = 1\<rparr>] two_memories = (Inr i, t) \<and>
    me_bytes (si_memories t ! 0) = [1, 7, 8, 4] \<and> si_memories t ! 1 = si_memories two_memories ! 1"
proof -
  let ?run = "instantiate 0 (\<lambda>_. True) segment_module [XMemory \<lparr>eh_index = 0, eh_store = 1\<rparr>] two_memories"
  have h: "fst ?run = Inr \<lparr>eh_index = 0, eh_store = 1\<rparr>" "me_bytes (si_memories (snd ?run) ! 0) = [1, 7, 8, 4]" by code_simp+
  have "gc_store_ok two_memories" using store_new_ok [of 1 sample_engine] by (simp add: two_memories_def gc_store_ok_def)
  moreover have "small_budget two_memories" "length (si_memories two_memories) + length (mi_memories segment_module) < 2 ^ 32"
    "length (si_tables two_memories) + length (mi_tables segment_module) < 2 ^ 32" "length (si_instances two_memories) < 2 ^ 32" by code_simp+
  ultimately have "grown {unat (eh_index h) | h. XMemory h \<in> set [XMemory \<lparr>eh_index = 0, eh_store = 1\<rparr>]}
      {unat (eh_index h) | h. XTable h \<in> set [XMemory \<lparr>eh_index = 0, eh_store = 1\<rparr>]} {} two_memories (snd ?run)"
    by (rule instantiate_isolated [where r = "fst ?run"]) simp
  then have "si_memories (snd ?run) ! 1 = si_memories two_memories ! 1"
    by (auto simp: grown_def kept_def two_memories_def)
  with h show ?thesis by (metis prod.collapse)
qed

end
