(* ===== verification/Func_Call.thy ===== *)
theory Func_Call
  imports Exec_Run
begin

text \<open>
  Calls from the embedder, \<^verbatim>\<open>src/func/mod.rs\<close> and \<^verbatim>\<open>src/func/direct_call.rs\<close>: argument and result checks around an execution, and the direct
  call of a host function, which runs no interpreter but opens the same scope of roots and pending exception. A call may not
  return, so it is an option.
\<close>

section \<open>Signatures\<close>

definition host_sig_new :: "canonical_type_id \<Rightarrow> store_inner \<Rightarrow> host_sig result" where
  "host_sig_new tid s = bindr (live_sig tid s) (\<lambda>(ps, rs).
     Inr \<lparr>hs_params = ps, hs_results = rs, hs_result_defaults = map default_for_valtype rs\<rparr>)"

definition func_new :: "canonical_type_id \<Rightarrow> nat \<Rightarrow> (store_inner, func_handle) action" where
  "func_new tid host_index = bindc (\<lambda>s. (host_sig_new tid s, s)) (\<lambda>hsig.
     (\<lambda>s. case alloc_func (FuncHost tid hsig host_index) s of (h, t) \<Rightarrow> (Inr h, t)))"

definition func_ty :: "func_handle \<Rightarrow> store_inner \<Rightarrow> canonical_type_id result" where
  "func_ty f s = bindr (func_at f s) (\<lambda>fe. case fe of
     FuncWasm inst fi \<Rightarrow> bindr (instance_at inst s) (\<lambda>ie. bindr (index_at (mi_func_types (ie_module ie)) fi) (mi_type_id (ie_module ie)))
   | FuncHost tid _ _ \<Rightarrow> Inr tid)"

definition default_results :: "val_type list \<Rightarrow> val list" where
  "default_results tys = map default_for_valtype tys"

section \<open>Checks\<close>

fun check_args_from :: "val list \<Rightarrow> val_type list \<Rightarrow> store_inner \<Rightarrow> unit result" where
  "check_args_from (v # vs) (t # ts) s = bindr (arg_matches_in_store v t s) (\<lambda>ok.
     if ok then check_args_from vs ts s else Inl (Msg ''argument type mismatch''))"
| "check_args_from _ _ s = Inr ()"

definition check_args :: "val list \<Rightarrow> val_type list \<Rightarrow> store_inner \<Rightarrow> unit result" where
  "check_args params tys s = (if length params \<noteq> length tys then Inl (Msg ''wrong number of arguments'') else check_args_from params tys s)"

definition has_parked_execution :: "store_inner \<Rightarrow> bool" where
  "has_parked_execution s \<longleftrightarrow> \<not> is_empty_exec (si_exec_slot s)"

definition latch_if_parked :: "error \<Rightarrow> store_inner \<Rightarrow> store_inner" where
  "latch_if_parked e s = (case e of Internal i \<Rightarrow> (if has_parked_execution s then latch_internal_error i s else s) | _ \<Rightarrow> s)"

definition validate_results :: "val list \<Rightarrow> val_type list \<Rightarrow> (store_inner, unit) action" where
  "validate_results vs tys s = (case ensure_values_match ''function attempted to return an incompatible value'' vs tys s of
     Inl e \<Rightarrow> (Inl e, latch_if_parked e s) | Inr _ \<Rightarrow> (Inr (), s))"

section \<open>Direct calls of host functions\<close>

definition pending_error :: "(store_inner, error option) action" where
  "pending_error s = (if has_parked_execution s then (Inr (map_option Internal (si_internal_error s)), s)
     else case take_internal_error s of (e, t) \<Rightarrow> (Inr e, t))"

definition preflight_direct_call :: "(store_inner, unit) action" where
  "preflight_direct_call = bindc pending_error (\<lambda>err. case err of Some e \<Rightarrow> fail e | None \<Rightarrow> ret ())"

definition capture_boundary :: "(store_inner, host_scope) action" where
  "capture_boundary s = (Inr \<lparr>sc_mark = gc_roots_mark s, sc_pending = si_pending_exception s, sc_generation = si_pending_exception_generation s\<rparr>,
     (case si_pending_exception s of None \<Rightarrow> s | Some e \<Rightarrow> push_gc_root (ro_index e) RkExn s))"

definition missing_pending_exception :: "(store_inner, val list) action" where
  "missing_pending_exception s = (let e = ResultShape ''host throw marker had no pending exception'' in
     (Inl (Internal e), if has_parked_execution s then latch_internal_error e s else s))"

fun root_all :: "val list \<Rightarrow> (store_inner, val list) action" where
  "root_all [] = ret []"
| "root_all (v # vs) = bindc (root_host_result v) (\<lambda>w. bindc (root_all vs) (\<lambda>ws. ret (w # ws)))"

definition hand_out_results :: "host_scope \<Rightarrow> val list \<Rightarrow> (store_inner, val list) action" where
  "hand_out_results sc out s = (case root_all out (gc_roots_truncate (sc_mark sc) s) of
     (Inl (Panic p), t) \<Rightarrow> (Inl (Panic p), t)
   | (Inl e, t) \<Rightarrow> (Inl e, latch_if_parked e (restore_pending_exception (sc_pending sc) (sc_generation sc) (gc_roots_truncate (sc_mark sc) t)))
   | (Inr vs, t) \<Rightarrow> (Inr vs, t))"

definition finish_direct_host_call :: "host_scope \<Rightarrow> val_type list \<Rightarrow> val list result \<Rightarrow> (store_inner, val list) action" where
  "finish_direct_host_call sc tys out =
     bindc pending_error (\<lambda>err. case err of
       Some e \<Rightarrow> bindc (putc (\<lambda>s. restore_pending_exception (sc_pending sc) (sc_generation sc) (gc_roots_truncate (sc_mark sc) s))) (\<lambda>_. fail e)
     | None \<Rightarrow> (case out of
         Inl e \<Rightarrow>
           bindc (getc (\<lambda>s. e = ThrownException \<and> si_pending_exception_generation s \<noteq> sc_generation sc)) (\<lambda>fresh_throw.
           bindc (putc (gc_roots_truncate (sc_mark sc))) (\<lambda>_.
           bindc (getc (\<lambda>s. fresh_throw \<and> si_pending_exception s = None)) (\<lambda>missing.
           if missing then bindc (putc (restore_pending_exception (sc_pending sc) (sc_generation sc))) (\<lambda>_. missing_pending_exception)
           else fail e)))
       | Inr vs \<Rightarrow> (\<lambda>s. case validate_results vs tys s of
             (Inl (Panic p), t) \<Rightarrow> (Inl (Panic p), t)
           | (Inl e, t) \<Rightarrow> (Inl e, restore_pending_exception (sc_pending sc) (sc_generation sc) (gc_roots_truncate (sc_mark sc) t))
           | (Inr _, t) \<Rightarrow> hand_out_results sc vs t)))"

definition call_direct_host :: "'d embedder \<Rightarrow> nat \<Rightarrow> val list \<Rightarrow> val_type list \<Rightarrow> ('d store, val list) action" where
  "call_direct_host em host_index params tys =
     bindc (on_store_inner preflight_direct_call) (\<lambda>_.
     bindc (lift_opt (Panic ''index out of bounds'') (em_call em host_index)) (\<lambda>cb.
     bindc (on_store_inner capture_boundary) (\<lambda>sc.
     (\<lambda>st. case cb None params (default_results tys) st of
         (Inl (Panic p), st') \<Rightarrow> (Inl (Panic p), st'\<lparr>st_inner := restore_direct_after_panic (sc_mark sc) (sc_pending sc) (sc_generation sc) (st_inner st')\<rparr>)
       | (out, st') \<Rightarrow> on_store_inner (finish_direct_host_call sc tys out) st'))))"

section \<open>Calls\<close>

text \<open>The call of a function from the embedder. The last but one argument is the length of the buffer for the results.\<close>

definition func_call :: "'d embedder \<Rightarrow> func_handle \<Rightarrow> val list \<Rightarrow> nat \<Rightarrow> 'd store \<Rightarrow> (val list result \<times> 'd store) option" where
  "func_call em f params n_results st =
     (case bindr (func_ty f (st_inner st)) (\<lambda>tid. bindr (live_sig tid (st_inner st)) (\<lambda>(ps, rs).
         bindr (check_args params ps (st_inner st)) (\<lambda>_.
         if n_results \<noteq> length rs then Inl (Msg ''wrong number of results'') else bindr (func_at f (st_inner st)) (\<lambda>fe. Inr (ps, rs, fe))))) of
       Inl e \<Rightarrow> Some (Inl e, st)
     | Inr (ps, rs, fe) \<Rightarrow>
         Option.bind (case fe of
           FuncWasm inst fi \<Rightarrow> (case bindr (module_of inst (st_inner st)) (\<lambda>m. module_code m fi) of
               Inl e \<Rightarrow> Some (Inl e, st)
             | Inr c \<Rightarrow> (case on_store_inner (coerce_args params ps) st of
                   (Inl e, st') \<Rightarrow> Some (Inl e, st')
                 | (Inr args, st') \<Rightarrow> execute em inst fi c args rs st'))
         | FuncHost _ _ host_index \<Rightarrow> Some (call_direct_host em host_index params rs st)) (\<lambda>(r, st').
         Some (case r of
           Inl e \<Rightarrow> (Inl e, st')
         | Inr out \<Rightarrow> (case on_store_inner (validate_results out rs) st' of
             (Inl e, st'') \<Rightarrow> (Inl e, st'') | (Inr _, st'') \<Rightarrow> (Inr out, st'')))))"

end
