(* ===== verification/Extern_Api.thy ===== *)
theory Extern_Api
  imports Instantiate Func_Call
begin

text \<open>
  The embedder's handles on store entities (\<^verbatim>\<open>src/extern_.rs\<close>), the public operations of a store (\<^verbatim>\<open>src/store/mod.rs\<close>) and the builder of
  \<^verbatim>\<open>StoreLimits\<close> (\<^verbatim>\<open>src/store/limits.rs\<close>). Types carry the canonical ids of the store's own engine, so the checks that reject types of another
  engine have no counterpart.
\<close>

section \<open>Memories\<close>

definition memory_host_new :: "'d embedder \<Rightarrow> memory_type \<Rightarrow> ('d store, entity_handle) action" where
  "memory_host_new em ty = bindc (limiter_allows_memory (mt_minimum ty) (mt_maximum ty)) (\<lambda>ok.
     if \<not> ok then fail (Msg ''memory minimum size exceeds the store limit'')
     else bindc (lift_res (memory_new (em_alloc em) ty)) (\<lambda>me. on_store_inner (fresh (alloc_memory me))))"

definition memory_host_ty :: "entity_handle \<Rightarrow> store_inner \<Rightarrow> memory_type result" where
  "memory_host_ty h s = bindr (memory_at h s) (\<lambda>me. Inr (me_ty me))"

definition memory_data :: "entity_handle \<Rightarrow> store_inner \<Rightarrow> u8 list result" where
  "memory_data h s = bindr (memory_at h s) (\<lambda>me. Inr (me_bytes me))"

definition memory_data_size :: "entity_handle \<Rightarrow> store_inner \<Rightarrow> nat result" where
  "memory_data_size h s = bindr (memory_at h s) (\<lambda>me. Inr (length (me_bytes me)))"

definition memory_host_size :: "entity_handle \<Rightarrow> store_inner \<Rightarrow> nat result" where
  "memory_host_size h s = bindr (memory_at h s) (\<lambda>me. Inr (size_pages me))"

definition memory_host_grow :: "'d embedder \<Rightarrow> entity_handle \<Rightarrow> nat \<Rightarrow> ('d store, nat) action" where
  "memory_host_grow em h delta = bindc (grow_memory (em_alloc em) h delta) (\<lambda>old. case old of
     Some n \<Rightarrow> ret n | None \<Rightarrow> fail (Msg ''failed to grow memory''))"

definition access_oob :: error where
  "access_oob = Msg ''out of bounds memory access''"

text \<open>The buffer of a read is given by its length.\<close>

definition memory_read :: "entity_handle \<Rightarrow> nat \<Rightarrow> nat \<Rightarrow> store_inner \<Rightarrow> u8 list result" where
  "memory_read h offset len s = bindr (memory_at h s) (\<lambda>me.
     bindr (ok_or access_oob (checked_add usize_max offset len)) (\<lambda>e.
     ok_or access_oob (get_range (me_bytes me) offset e)))"

definition memory_write :: "entity_handle \<Rightarrow> nat \<Rightarrow> u8 list \<Rightarrow> (store_inner, unit) action" where
  "memory_write h offset buffer = bindc (\<lambda>s. (memory_at h s, s)) (\<lambda>me.
     bindc (lift_opt access_oob (checked_add usize_max offset (length buffer))) (\<lambda>e.
     bindc (lift_opt access_oob (get_range (me_bytes me) offset e)) (\<lambda>_.
     putc (put_memory h (me\<lparr>me_bytes := write_at (me_bytes me) offset buffer\<rparr>)))))"

section \<open>Globals\<close>

definition global_host_new :: "global_type \<Rightarrow> val \<Rightarrow> (store_inner, entity_handle) action" where
  "global_host_new ty v = bindc (\<lambda>s. (val_matches_in_store v (gt_content ty) s, s)) (\<lambda>ok.
     if \<not> ok then fail (Msg ''global type mismatch'') else fresh (alloc_global \<lparr>ge_value = v, ge_ty = ty\<rparr>))"

definition global_host_ty :: "entity_handle \<Rightarrow> store_inner \<Rightarrow> global_type result" where
  "global_host_ty h s = bindr (global_at h s) (\<lambda>ge. Inr (ge_ty ge))"

definition global_host_get :: "entity_handle \<Rightarrow> (store_inner, val) action" where
  "global_host_get h = bindc (\<lambda>s. (global_at h s, s)) (\<lambda>ge. root_stored_value (ge_value ge))"

definition global_host_set :: "entity_handle \<Rightarrow> val \<Rightarrow> (store_inner, unit) action" where
  "global_host_set h v = bindc (\<lambda>s. (global_at h s, s)) (\<lambda>ge.
     if gt_mutability (ge_ty ge) = MutConst then fail (Msg ''cannot set the value of a const global'')
     else bindc (\<lambda>s. (val_matches_in_store v (gt_content (ge_ty ge)) s, s)) (\<lambda>ok.
       if \<not> ok then fail (Msg ''global type mismatch'') else putc (put_global h (ge\<lparr>ge_value := v\<rparr>))))"

section \<open>Tables\<close>

definition ensure_ref_matches :: "ref_val \<Rightarrow> ref_type \<Rightarrow> string \<Rightarrow> store_inner \<Rightarrow> unit result" where
  "ensure_ref_matches v ty context s = bindr (val_matches_in_store (from_ref v) (VtRef ty) s) (\<lambda>ok.
     if ok then Inr () else Inl (Msg context))"

definition table_host_new :: "'d embedder \<Rightarrow> table_type \<Rightarrow> ref_val \<Rightarrow> ('d store, entity_handle) action" where
  "table_host_new em ty init = bindc (in_store (ensure_ref_matches init (tt_element ty) ''table type mismatch'')) (\<lambda>_.
     bindc (limiter_allows_table (tt_minimum ty) (tt_maximum ty)) (\<lambda>ok.
     if \<not> ok then fail (Msg ''table minimum size exceeds the store limit'')
     else bindc (lift_res (table_new (em_alloc em) ty init)) (\<lambda>te. on_store_inner (fresh (alloc_table te)))))"

definition table_host_ty :: "entity_handle \<Rightarrow> store_inner \<Rightarrow> table_type result" where
  "table_host_ty h s = bindr (table_at h s) (\<lambda>te. Inr (te_ty te))"

definition table_host_get :: "entity_handle \<Rightarrow> nat \<Rightarrow> (store_inner, ref_val option) action" where
  "table_host_get h i = bindc (\<lambda>s. (table_at h s, s)) (\<lambda>te. case table_get_elem te i of
     None \<Rightarrow> ret None
   | Some v \<Rightarrow> bindc (root_stored_value (from_ref v)) (\<lambda>w. bindc (lift_res (to_ref w)) (\<lambda>r. ret (Some r))))"

definition table_host_set :: "entity_handle \<Rightarrow> nat \<Rightarrow> ref_val \<Rightarrow> (store_inner, unit) action" where
  "table_host_set h i v = bindc (\<lambda>s. (table_at h s, s)) (\<lambda>te.
     bindc (\<lambda>s. (ensure_ref_matches v (tt_element (te_ty te)) ''table type mismatch'' s, s)) (\<lambda>_.
     case table_set_elem i v te of
       (True, te') \<Rightarrow> putc (put_table h te') | (False, _) \<Rightarrow> fail (Msg ''table index out of bounds'')))"

definition table_host_size :: "entity_handle \<Rightarrow> store_inner \<Rightarrow> nat result" where
  "table_host_size h s = bindr (table_at h s) (\<lambda>te. Inr (table_size te))"

definition table_host_grow :: "'d embedder \<Rightarrow> entity_handle \<Rightarrow> nat \<Rightarrow> ref_val \<Rightarrow> ('d store, nat) action" where
  "table_host_grow em h delta init = bindc (in_store (table_at h)) (\<lambda>te.
     bindc (in_store (ensure_ref_matches init (tt_element (te_ty te)) ''table type mismatch'')) (\<lambda>_.
     bindc (grow_table (em_alloc em) h delta init) (\<lambda>old. case old of
       Some n \<Rightarrow> ret n | None \<Rightarrow> fail (Msg ''failed to grow table''))))"

definition table_host_fill :: "entity_handle \<Rightarrow> nat \<Rightarrow> ref_val \<Rightarrow> nat \<Rightarrow> (store_inner, unit) action" where
  "table_host_fill h dst v len = bindc (\<lambda>s. (table_at h s, s)) (\<lambda>te.
     bindc (\<lambda>s. (ensure_ref_matches v (tt_element (te_ty te)) ''table type mismatch'' s, s)) (\<lambda>_.
     case table_fill_elems dst v len te of
       (True, te') \<Rightarrow> putc (put_table h te') | (False, _) \<Rightarrow> fail (Msg ''table fill out of bounds'')))"

section \<open>Tags\<close>

definition tag_host_new :: "canonical_type_id \<Rightarrow> (store_inner, entity_handle) action" where
  "tag_host_new tid = fresh (alloc_tag tid)"

definition tag_host_ty :: "entity_handle \<Rightarrow> store_inner \<Rightarrow> canonical_type_id result" where
  "tag_host_ty h s = tag_at h s"

section \<open>The store\<close>

definition host_store_new :: "u64 \<Rightarrow> engine \<Rightarrow> 'd \<Rightarrow> 'd store" where
  "host_store_new sid e d = \<lparr>st_inner = store_new sid e, st_data = d, st_limiter = None\<rparr>"

definition store_gc :: "(store_inner, unit) action" where
  "store_gc s = (case bindc (\<lambda>s. (exec_roots s, s)) collect s of
     (Inl (Panic p), t) \<Rightarrow> (Inl (Panic p), t)
   | (Inl (Internal e), t) \<Rightarrow> (Inr (), latch_internal_error e t)
   | (_, t) \<Rightarrow> (Inr (), t))"

definition store_throw :: "rooted \<Rightarrow> (store_inner, 'a) action" where
  "store_throw exn s = (case exn_checked exn s of
     Inl (Panic p) \<Rightarrow> (Inl (Panic p), s)
   | Inl _ \<Rightarrow> (Inl ThrownException, latch_internal_error (GcMetadata ''host attempted to throw a stale exception reference'') s)
   | Inr _ \<Rightarrow> (Inl ThrownException, set_pending_exception exn s))"

definition fuel_off :: error where
  "fuel_off = Msg ''fuel is not configured; set `Config::consume_fuel(true)`''"

definition host_set_fuel :: "nat \<Rightarrow> (store_inner, unit) action" where
  "host_set_fuel n s = (if \<not> en_consume_fuel (si_engine s) then (Inl fuel_off, s) else (Inr (), set_fuel n s))"

definition host_get_fuel :: "store_inner \<Rightarrow> nat result" where
  "host_get_fuel s = (if \<not> en_consume_fuel (si_engine s) then Inl fuel_off else store_fuel s)"

definition host_set_epoch_deadline :: "nat \<Rightarrow> store_inner \<Rightarrow> store_inner" where
  "host_set_epoch_deadline ticks s = set_epoch_deadline (saturating_add u64_max (en_epoch (si_engine s)) ticks) s"

definition epoch_deadline_trap :: "'d embedder \<Rightarrow> 'd embedder" where
  "epoch_deadline_trap em = em\<lparr>em_epoch := None\<rparr>"

definition epoch_deadline_callback :: "('d store, update_deadline) action \<Rightarrow> 'd embedder \<Rightarrow> 'd embedder" where
  "epoch_deadline_callback cb em = em\<lparr>em_epoch := Some cb\<rparr>"

definition store_limiter :: "'d limiter \<Rightarrow> 'd store \<Rightarrow> 'd store" where
  "store_limiter l st = st\<lparr>st_limiter := Some l\<rparr>"

section \<open>The builder of limits\<close>

definition limits_new :: store_limits where
  "limits_new = store_limits_default"

definition limits_memory_size :: "nat \<Rightarrow> store_limits \<Rightarrow> store_limits" where
  "limits_memory_size n l = l\<lparr>sl_memory_size := Some n\<rparr>"

definition limits_table_elements :: "nat \<Rightarrow> store_limits \<Rightarrow> store_limits" where
  "limits_table_elements n l = l\<lparr>sl_table_elements := Some n\<rparr>"

definition limits_instances :: "nat \<Rightarrow> store_limits \<Rightarrow> store_limits" where
  "limits_instances n l = l\<lparr>sl_instances := n\<rparr>"

definition limits_tables :: "nat \<Rightarrow> store_limits \<Rightarrow> store_limits" where
  "limits_tables n l = l\<lparr>sl_tables := n\<rparr>"

definition limits_memories :: "nat \<Rightarrow> store_limits \<Rightarrow> store_limits" where
  "limits_memories n l = l\<lparr>sl_memories := n\<rparr>"

definition limits_trap_on_grow_failure :: "bool \<Rightarrow> store_limits \<Rightarrow> store_limits" where
  "limits_trap_on_grow_failure b l = l\<lparr>sl_trap_on_grow_failure := b\<rparr>"

end
