(* ===== verification/Extern_Typed.thy ===== *)
theory Extern_Typed
  imports Extern_Api Instantiate_Frame
begin

text \<open>
  The embedder's operations keep the store typed: every global and every table element matches the type of its entity, constant globals
  never change, and no entity changes its type.
\<close>

definition store_typed :: "store_inner \<Rightarrow> bool" where
  "store_typed s \<longleftrightarrow> (\<forall>ge \<in> set (si_globals s). val_matches (ge_value ge) (gt_content (ge_ty ge))) \<and>
     (\<forall>te \<in> set (si_tables s). \<forall>e \<in> set (te_elems te). val_matches (from_ref e) (VtRef (tt_element (te_ty te))))"

definition same_global :: "global_entity \<Rightarrow> global_entity \<Rightarrow> bool" where
  "same_global a b \<longleftrightarrow> ge_ty b = ge_ty a \<and> (gt_mutability (ge_ty a) = MutConst \<longrightarrow> ge_value b = ge_value a)"

definition types_kept :: "store_inner \<Rightarrow> store_inner \<Rightarrow> bool" where
  "types_kept s t \<longleftrightarrow> kept same_global UNIV (si_globals s) (si_globals t) \<and>
     kept (\<lambda>a b. te_ty b = te_ty a) UNIV (si_tables s) (si_tables t) \<and>
     kept (\<lambda>a b. me_ty b = me_ty a) UNIV (si_memories s) (si_memories t) \<and>
     kept (=) {} (si_tags s) (si_tags t) \<and> si_funcs t = si_funcs s \<and> si_instances t = si_instances s \<and> si_store_id t = si_store_id s"

definition host_ok :: "store_inner \<Rightarrow> store_inner \<Rightarrow> bool" where
  "host_ok s t \<longleftrightarrow> (store_typed s \<longrightarrow> store_typed t) \<and> types_kept s t"

text \<open>One operation of the embedder, whatever its outcome.\<close>

inductive api_step :: "'d embedder \<Rightarrow> 'd store \<Rightarrow> 'd store \<Rightarrow> bool" for em where
  new_memory: "api_step em st (snd (memory_host_new em mty st))"
| grow_memory: "api_step em st (snd (memory_host_grow em h delta st))"
| write_memory: "api_step em st (snd (on_store_inner (memory_write h offset buffer) st))"
| new_global: "api_step em st (snd (on_store_inner (global_host_new gty v) st))"
| get_global: "api_step em st (snd (on_store_inner (global_host_get h) st))"
| set_global: "api_step em st (snd (on_store_inner (global_host_set h v) st))"
| new_table: "api_step em st (snd (table_host_new em tty init st))"
| get_table: "api_step em st (snd (on_store_inner (table_host_get h i) st))"
| set_table: "api_step em st (snd (on_store_inner (table_host_set h i x) st))"
| grow_table: "api_step em st (snd (table_host_grow em h delta x st))"
| fill_table: "api_step em st (snd (on_store_inner (table_host_fill h dst x len) st))"
| new_tag: "api_step em st (snd (on_store_inner (tag_host_new tid) st))"
| collection: "api_step em st (snd (on_store_inner store_gc st))"
| throw: "api_step em st (snd (on_store_inner (store_throw exn :: (store_inner, unit) action) st))"
| fuel: "api_step em st (snd (on_store_inner (host_set_fuel n) st))"
| deadline: "api_step em st (st\<lparr>st_inner := host_set_epoch_deadline n (st_inner st)\<rparr>)"
| data: "api_step em st (st\<lparr>st_data := d\<rparr>)"
| limiter: "api_step em st (store_limiter l st)"

inductive api_steps :: "'d embedder \<Rightarrow> 'd store \<Rightarrow> 'd store \<Rightarrow> bool" for em where
  stop: "api_steps em st st"
| more: "api_steps em st su \<Longrightarrow> api_step em su sv \<Longrightarrow> api_steps em st sv"

section \<open>Each operation\<close>

lemma host_ok_refl [simp]: "host_ok s s"
  by (simp add: host_ok_def types_kept_def same_global_def kept_refl)

lemma host_ok_trans:
  assumes "host_ok s t" and "host_ok t u"
  shows "host_ok s u"
proof -
  note d = assms [unfolded host_ok_def types_kept_def]
  have "kept same_global UNIV (si_globals s) (si_globals u)"
    by (rule kept_trans [of same_global UNIV _ "si_globals t"]) (use d in \<open>auto simp: same_global_def\<close>)
  moreover have "kept (\<lambda>a b. te_ty b = te_ty a) UNIV (si_tables s) (si_tables u)"
    by (rule kept_trans [of _ UNIV _ "si_tables t"]) (use d in auto)
  moreover have "kept (\<lambda>a b. me_ty b = me_ty a) UNIV (si_memories s) (si_memories u)"
    by (rule kept_trans [of _ UNIV _ "si_memories t"]) (use d in auto)
  moreover have "kept (=) {} (si_tags s) (si_tags u)"
    by (rule kept_trans [of _ "{}" _ "si_tags t"]) (use d in auto)
  ultimately show ?thesis using d by (simp add: host_ok_def types_kept_def)
qed

text \<open>A change outside the entities.\<close>

definition entities :: "store_inner \<Rightarrow> global_entity list \<times> table_entity list \<times> memory_entity list \<times> canonical_type_id list \<times> func_entity list \<times> instance_entity list \<times> u64" where
  "entities s = (si_globals s, si_tables s, si_memories s, si_tags s, si_funcs s, si_instances s, si_store_id s)"

lemma host_ok_entities: "entities t = entities s \<Longrightarrow> host_ok s t"
  by (simp add: host_ok_def types_kept_def store_typed_def entities_def same_global_def kept_refl)

lemma host_ok_put_memory:
  assumes "memory_at h s = Inr e" and "me_ty e' = me_ty e"
  shows "host_ok s (put_memory h e' s)"
  using assms by (auto simp: host_ok_def types_kept_def store_typed_def put_memory_def same_global_def entity_at_def index_at_def
      intro!: kept_refl kept_update split: if_splits)

lemma host_ok_put_global:
  assumes "global_at h s = Inr e" and "ge_ty e' = ge_ty e" and "gt_mutability (ge_ty e) \<noteq> MutConst" and "val_matches (ge_value e') (gt_content (ge_ty e'))"
  shows "host_ok s (put_global h e' s)"
  using assms by (auto simp: host_ok_def types_kept_def store_typed_def put_global_def same_global_def entity_at_def index_at_def
      intro!: kept_refl kept_update split: if_splits dest!: set_update_subset_insert [THEN subsetD])

lemma host_ok_put_table:
  assumes "table_at h s = Inr e" and "te_ty e' = te_ty e"
    and "\<And>x. x \<in> set (te_elems e') \<Longrightarrow> x \<in> set (te_elems e) \<or> val_matches (from_ref x) (VtRef (tt_element (te_ty e)))"
  shows "host_ok s (put_table h e' s)"
proof -
  have e: "unat (eh_index h) < length (si_tables s)" "e = si_tables s ! unat (eh_index h)"
    using assms(1) by (auto simp: entity_at_def index_at_def split: if_splits)
  then have "e \<in> set (si_tables s)" by simp
  then have "store_typed s \<Longrightarrow> x \<in> set (te_elems e') \<Longrightarrow> val_matches (from_ref x) (VtRef (tt_element (te_ty e)))" for x
    using assms(3) [of x] by (auto simp: store_typed_def)
  then have "store_typed s \<longrightarrow> store_typed (put_table h e' s)"
    using assms(2) by (fastforce simp: store_typed_def put_table_def dest!: set_update_subset_insert [THEN subsetD])
  then show ?thesis using e assms(2)
    by (auto simp: host_ok_def types_kept_def put_table_def same_global_def intro!: kept_refl kept_update)
qed

lemma ensure_ref_matches_shape: "ensure_ref_matches v ty c s = Inr () \<Longrightarrow> val_matches (from_ref v) (VtRef ty)"
  by (auto simp: ensure_ref_matches_def dest: val_matches_in_store_shape split: if_splits)

lemma host_ok_append:
  assumes "val_matches v (gt_content ty)"
  shows "host_ok s (s\<lparr>si_globals := si_globals s @ [\<lparr>ge_value = v, ge_ty = ty\<rparr>]\<rparr>)"
  using assms by (auto simp: host_ok_def types_kept_def store_typed_def same_global_def intro!: kept_refl kept_append)

lemma host_ok_fresh:
  "host_ok s (s\<lparr>si_memories := si_memories s @ [me]\<rparr>)" "host_ok s (s\<lparr>si_tags := si_tags s @ [tid]\<rparr>)"
  by (auto simp: host_ok_def types_kept_def store_typed_def same_global_def intro!: kept_refl kept_append)

lemma entities_latch [simp]: "entities (latch_internal_error e s) = entities s"
  by (simp add: latch_internal_error_def entities_def split: option.split)

lemma root_stored_entities: "entities (snd (root_stored_value v s)) = entities s"
  by (auto simp: root_stored_value_def root_host_result_def entities_def push_gc_root_def latch_internal_error_def
      split: sum.splits prod.splits val.splits option.splits anyref_handle.splits error.splits)

text \<open>Actions on the inner store, and the same on the store itself.\<close>

definition safe_inner :: "store_inner \<Rightarrow> (store_inner, 'a) action \<Rightarrow> bool" where
  "safe_inner s f \<longleftrightarrow> host_ok s (snd (f s))"

lemma on_store_inner_safe: "safe_inner (st_inner st) f \<Longrightarrow> host_ok (st_inner st) (st_inner (snd (on_store_inner f st)))"
  by (auto simp: safe_inner_def on_store_inner_def split: prod.splits)

lemma memory_write_safe: "safe_inner s (memory_write h offset buffer)"
  by (auto simp: safe_inner_def memory_write_def bindc_def lift_opt_def putc_def
      intro!: host_ok_put_memory split: sum.splits option.splits prod.splits)

lemma global_safe:
  "safe_inner s (global_host_new gty v)" "safe_inner s (global_host_get h)" "safe_inner s (global_host_set h v)"
  by (auto simp: safe_inner_def global_host_new_def global_host_get_def global_host_set_def bindc_def putc_def fail_def fresh_def alloc_global_def
      intro!: host_ok_put_global host_ok_append dest: val_matches_in_store_shape
      intro: host_ok_entities [OF root_stored_entities] split: sum.splits)

lemma filled_elems: "x \<in> set (fold (\<lambda>i es. es[i := v]) js xs) \<Longrightarrow> x \<in> set xs \<or> x = v"
proof (induction js arbitrary: xs)
  case (Cons j js)
  then show ?case using set_update_subset_insert [of xs j v] by fastforce
qed simp

lemma table_safe:
  "safe_inner s (table_host_get h i)" "safe_inner s (table_host_set h i x)" "safe_inner s (table_host_fill h dst x len)"
proof -
  show "safe_inner s (table_host_get h i)"
    by (auto simp: safe_inner_def table_host_get_def bindc_def ret_def lift_res_def
        intro!: host_ok_entities split: sum.splits option.splits prod.splits)
       (metis root_stored_entities snd_conv)+
  show "safe_inner s (table_host_set h i x)"
    by (auto simp: safe_inner_def table_host_set_def table_set_elem_def bindc_def putc_def fail_def
        intro!: host_ok_put_table dest!: ensure_ref_matches_shape set_update_subset_insert [THEN subsetD] split: sum.splits)
  show "safe_inner s (table_host_fill h dst x len)"
    by (auto simp: safe_inner_def table_host_fill_def table_fill_elems_def bindc_def putc_def fail_def
        intro!: host_ok_put_table dest!: ensure_ref_matches_shape filled_elems split: sum.splits option.splits)
qed

lemma collect_safe: "safe_inner s store_gc"
proof -
  have c: "entities (snd (collect roots s)) = entities s" for roots
    by (rule collect_view) (simp add: entities_def)
  have "entities (snd (store_gc s)) = entities s"
  proof (cases "exec_roots s")
    case (Inr roots)
    then show ?thesis using c [of roots]
      by (cases "collect roots s") (auto simp: store_gc_def bindc_def split: sum.splits error.splits)
  qed (auto simp: store_gc_def bindc_def split: error.splits)
  then show ?thesis by (simp add: safe_inner_def host_ok_entities)
qed

lemma store_safe: "safe_inner s (tag_host_new tid)" "safe_inner s (store_throw exn)" "safe_inner s (host_set_fuel n)"
proof -
  show "safe_inner s (tag_host_new tid)" by (simp add: safe_inner_def tag_host_new_def fresh_def alloc_tag_def host_ok_fresh)
  have "entities (set_pending_exception e s) = entities s" "entities (set_fuel n s) = entities s" for e n
    by (simp_all add: entities_def set_pending_exception_def set_fuel_def Let_def)
  then show "safe_inner s (store_throw exn)" "safe_inner s (host_set_fuel n)"
    by (auto simp: safe_inner_def store_throw_def host_set_fuel_def intro!: host_ok_entities split: sum.split error.split)
qed

section \<open>Operations that ask the limiter\<close>

lemma limiter_allows_keeps:
  "limiter_allows_memory n mx st = (r, su) \<Longrightarrow> st_inner su = st_inner st" "limiter_allows_table n mx st = (r, su) \<Longrightarrow> st_inner su = st_inner st"
  by (auto simp: limiter_allows_memory_def limiter_allows_table_def bindc_def ret_def split: prod.splits sum.splits dest: with_sync_limiter_keeps)

lemma memory_host_new_ok: "host_ok (st_inner st) (st_inner (snd (memory_host_new em mty st)))"
proof -
  obtain r su where u: "limiter_allows_memory (mt_minimum mty) (mt_maximum mty) st = (r, su)" by fastforce
  have "host_ok (st_inner su) (st_inner (snd (on_store_inner (fresh (alloc_memory me)) su)))" for me
    by (rule on_store_inner_safe) (simp add: safe_inner_def fresh_def alloc_memory_def host_ok_fresh)
  then show ?thesis using u limiter_allows_keeps(1) [OF u]
    by (auto simp: memory_host_new_def bindc_def fail_def lift_res_def split: sum.split)
qed

lemma host_ok_new_table:
  assumes "val_matches (from_ref x) (VtRef (tt_element ty))" and "set (te_elems te) \<subseteq> {x}" and "te_ty te = ty"
  shows "host_ok s (s\<lparr>si_tables := si_tables s @ [te]\<rparr>)"
  using assms by (auto simp: host_ok_def types_kept_def store_typed_def same_global_def intro!: kept_refl kept_append)

lemma table_host_new_ok: "host_ok (st_inner st) (st_inner (snd (table_host_new em ty x st)))"
proof -
  obtain r su where u: "limiter_allows_table (tt_minimum ty) (tt_maximum ty) st = (r, su)" by fastforce
  have "host_ok (st_inner su) (st_inner (snd (on_store_inner (fresh (alloc_table te)) su)))"
    if "val_matches (from_ref x) (VtRef (tt_element ty))" "table_new (em_alloc em) ty x = Inr te" for te
    by (rule on_store_inner_safe)
      (use that in \<open>auto simp: safe_inner_def fresh_def alloc_table_def table_new_def intro!: host_ok_new_table [of x ty] split: if_splits\<close>)
  then show ?thesis using u limiter_allows_keeps(2) [OF u]
    by (auto simp: table_host_new_def bindc_def fail_def lift_res_def in_store_def dest: ensure_ref_matches_shape split: sum.split)
qed

lemma grow_result_inner: "snd (bindc f (\<lambda>old. case old of Some n \<Rightarrow> ret n | None \<Rightarrow> fail e) st) = snd (f st)"
  by (auto simp: bindc_def ret_def fail_def split: prod.split sum.split option.split)

lemma memory_grow_ty: "snd (memory_grow can_alloc delta e) = e' \<Longrightarrow> me_ty e' = me_ty e"
  by (auto simp: memory_grow_def Let_def split: option.splits if_splits)

lemma memory_host_grow_ok: "host_ok (st_inner st) (st_inner (snd (memory_host_grow em h delta st)))"
proof (cases "memory_at h (st_inner st)")
  case (Inl err)
  then show ?thesis by (simp add: memory_host_grow_def grow_result_inner grow_memory_def in_store_def bindc_def)
next
  case (Inr e)
  obtain r su where g: "grow_memory (em_alloc em) h delta st = (r, su)" by fastforce
  have ty: "me_ty e' = me_ty e" if "memory_grow (em_alloc em) delta e = (o', e')" for o' e'
    using that memory_grow_ty [of "em_alloc em" delta e e'] by simp
  show ?thesis using grow_memory_cases [OF g Inr] g
    by (auto simp: memory_host_grow_def grow_result_inner intro!: host_ok_put_memory [OF Inr] dest!: ty)
qed

lemma table_host_grow_ok: "host_ok (st_inner st) (st_inner (snd (table_host_grow em h delta x st)))"
proof (cases "table_at h (st_inner st)")
  case (Inl err)
  then show ?thesis by (simp add: table_host_grow_def in_store_def bindc_def)
next
  case (Inr e)
  show ?thesis
  proof (cases "ensure_ref_matches x (tt_element (te_ty e)) ''table type mismatch'' (st_inner st)")
    case (Inl err)
    with Inr show ?thesis by (simp add: table_host_grow_def in_store_def bindc_def)
  next
    case ok: (Inr u)
    obtain r su where g: "grow_table (em_alloc em) h delta x st = (r, su)" by fastforce
    have st: "snd (table_host_grow em h delta x st) = su"
      using Inr ok g by (simp add: table_host_grow_def in_store_def bindc_def ret_def fail_def split: sum.split option.split)
    have "host_ok (st_inner st) (st_inner su)"
      using grow_table_cases [OF g Inr] ensure_ref_matches_shape [of x _ _ "st_inner st"] ok
      by (auto intro!: host_ok_put_table [OF Inr] dest!: grown_elems)
    then show ?thesis by (simp add: st)
  qed
qed

lemma api_step_ok: "api_step em st su \<Longrightarrow> host_ok (st_inner st) (st_inner su)"
proof (induction rule: api_step.induct)
  case (deadline st n)
  then show ?case by (simp add: host_ok_entities entities_def host_set_epoch_deadline_def set_epoch_deadline_def)
qed (simp_all add: memory_host_new_ok memory_host_grow_ok table_host_new_ok table_host_grow_ok store_limiter_def
     on_store_inner_safe memory_write_safe global_safe table_safe collect_safe store_safe)

lemma api_steps_ok: "api_steps em st su \<Longrightarrow> host_ok (st_inner st) (st_inner su)"
  by (induction rule: api_steps.induct) (auto intro: host_ok_trans api_step_ok)

section \<open>Properties\<close>

lemma kept_at:
  assumes "kept Q W (arena s) (arena t)" and "si_store_id t = si_store_id s" and "entity_at arena h s = Inr x"
  shows "\<exists>y. entity_at arena h t = Inr y \<and> Q x y \<and> (unat (eh_index h) \<notin> W \<longrightarrow> y = x)"
  using assms by (auto simp: kept_def entity_at_def index_at_def check_handle_def split: if_splits)


text \<open>A constant is created and not changed by \<^verbatim>\<open>Global::set\<close>.\<close>

definition typed_host :: "unit embedder" where
  "typed_host = \<lparr>em_call = (\<lambda>_. None), em_epoch = None, em_alloc = (\<lambda>_. True)\<rparr>"

definition const_store :: "unit store" where
  "const_store = \<lparr>st_inner = (store_new 1 sample_engine)\<lparr>si_globals := [\<lparr>ge_value = I32 7, ge_ty = \<lparr>gt_content = VtI32, gt_mutability = MutConst\<rparr>\<rparr>]\<rparr>,
     st_data = (), st_limiter = None\<rparr>"


end
