(* ===== verification/Linker.thy ===== *)
theory Linker
  imports Instantiate Func_Call "HOL-Library.AList"
begin

text \<open>
  Instances and their exports (\<^verbatim>\<open>src/instance/mod.rs\<close>) and the linker (\<^verbatim>\<open>src/linker.rs\<close>), both without the asynchronous siblings. A host callback is
  named by its place among the callbacks of the embedder, so a host definition carries that number. The map of the linker is an
  association list with distinct keys; the order in which a hash map is traversed is a parameter of the one operation that
  depends on it. A start function may not return, so operations that run one are options.
\<close>

section \<open>Instances\<close>

definition check_limits :: "module_inner \<Rightarrow> 'd store \<Rightarrow> unit result" where
  "check_limits m st = (let s = st_inner st; above = (\<lambda>n cap. case cap of None \<Rightarrow> False | Some mx \<Rightarrow> mx < n) in
     if above (length (si_instances s) + 1) (limiter_instances st) then Inl (Msg ''instance count exceeds the store limit'')
     else if above (length (si_memories s) + length (mi_memories m)) (limiter_memories st) then Inl (Msg ''memory count exceeds the store limit'')
     else if above (length (si_tables s) + length (mi_tables m)) (limiter_tables st) then Inl (Msg ''table count exceeds the store limit'')
     else Inr ())"

definition check_initial_sizes :: "module_inner \<Rightarrow> ('d store, unit) action" where
  "check_initial_sizes m =
     bindc (each (\<lambda>mt. bindc (limiter_allows_memory (mt_minimum mt) (mt_maximum mt)) (\<lambda>ok.
       if ok then ret () else fail (Msg ''memory minimum size exceeds the store limit''))) (mi_memories m)) (\<lambda>_.
     bindc (each (\<lambda>td. bindc (limiter_allows_table (itt_min (td_ty td)) (itt_max (td_ty td))) (\<lambda>ok.
       if ok then ret () else fail (Msg ''table minimum size exceeds the store limit''))) (mi_tables m)) (\<lambda>_. ret ()))"

definition instantiate_resolve_start :: "nat \<Rightarrow> 'd embedder \<Rightarrow> module_inner \<Rightarrow> extern list \<Rightarrow> ('d store, entity_handle \<times> func_handle option) action" where
  "instantiate_resolve_start depth em m imports =
     bindc (\<lambda>st. (check_limits m st, st)) (\<lambda>_.
     bindc (on_store_inner (instantiate depth (em_alloc em) m imports)) (\<lambda>inst. case mi_start m of
       None \<Rightarrow> ret (inst, None)
     | Some i \<Rightarrow> bindc (in_store (\<lambda>s. bindr (instance_at inst s) (\<lambda>ie. index_at (ie_funcs ie) i))) (\<lambda>f. ret (inst, Some f))))"

definition instance_new :: "nat \<Rightarrow> 'd embedder \<Rightarrow> module_inner \<Rightarrow> extern list \<Rightarrow> 'd store \<Rightarrow> (entity_handle result \<times> 'd store) option" where
  "instance_new depth em m imports st =
     (case bindc (check_initial_sizes m) (\<lambda>_. instantiate_resolve_start depth em m imports) st of
       (Inl e, st') \<Rightarrow> Some (Inl e, st')
     | (Inr (inst, None), st') \<Rightarrow> Some (Inr inst, st')
     | (Inr (inst, Some f), st') \<Rightarrow> Option.bind (func_call em f [] 0 st') (\<lambda>(r, st''). Some (bindr r (\<lambda>_. Inr inst), st'')))"

definition export_item :: "export_kind \<Rightarrow> instance_entity \<Rightarrow> extern result" where
  "export_item k ie = (case k of
     ExFunc i \<Rightarrow> bindr (index_at (ie_funcs ie) i) (\<lambda>h. Inr (XFunc h))
   | ExTable i \<Rightarrow> bindr (index_at (ie_tables ie) i) (\<lambda>h. Inr (XTable h))
   | ExMemory i \<Rightarrow> bindr (index_at (ie_memories ie) i) (\<lambda>h. Inr (XMemory h))
   | ExGlobal i \<Rightarrow> bindr (index_at (ie_globals ie) i) (\<lambda>h. Inr (XGlobal h))
   | ExTag i \<Rightarrow> bindr (index_at (ie_tags ie) i) (\<lambda>h. Inr (XTag h)))"

definition instance_export :: "entity_handle \<Rightarrow> string \<Rightarrow> store_inner \<Rightarrow> extern option result" where
  "instance_export inst name s = bindr (instance_at inst s) (\<lambda>ie.
     case find (\<lambda>e. ep_name e = name) (mi_exports (ie_module ie)) of
       None \<Rightarrow> Inr None
     | Some e \<Rightarrow> bindr (export_item (ep_kind e) ie) (\<lambda>x. Inr (Some x)))"

definition get_export :: "entity_handle \<Rightarrow> string \<Rightarrow> store_inner \<Rightarrow> extern option result" where
  "get_export inst name s = instance_export inst name s"

definition get_func :: "entity_handle \<Rightarrow> string \<Rightarrow> store_inner \<Rightarrow> func_handle option result" where
  "get_func inst name s = bindr (instance_export inst name s) (\<lambda>x. Inr (case x of Some (XFunc f) \<Rightarrow> Some f | _ \<Rightarrow> None))"

definition get_memory :: "entity_handle \<Rightarrow> string \<Rightarrow> store_inner \<Rightarrow> entity_handle option result" where
  "get_memory inst name s = bindr (instance_export inst name s) (\<lambda>x. Inr (case x of Some (XMemory h) \<Rightarrow> Some h | _ \<Rightarrow> None))"

definition get_global :: "entity_handle \<Rightarrow> string \<Rightarrow> store_inner \<Rightarrow> entity_handle option result" where
  "get_global inst name s = bindr (instance_export inst name s) (\<lambda>x. Inr (case x of Some (XGlobal h) \<Rightarrow> Some h | _ \<Rightarrow> None))"

definition get_table :: "entity_handle \<Rightarrow> string \<Rightarrow> store_inner \<Rightarrow> entity_handle option result" where
  "get_table inst name s = bindr (instance_export inst name s) (\<lambda>x. Inr (case x of Some (XTable h) \<Rightarrow> Some h | _ \<Rightarrow> None))"

text \<open>The instance of a caller is the one whose code called the host function.\<close>

definition caller_get_export :: "entity_handle option \<Rightarrow> string \<Rightarrow> store_inner \<Rightarrow> extern option result" where
  "caller_get_export caller name s = (case caller of None \<Rightarrow> Inr None | Some inst \<Rightarrow> instance_export inst name s)"

section \<open>The linker\<close>

datatype def = DefExtern extern | DefHost canonical_type_id nat

type_synonym import_key = "string \<times> string"

record linker =
  lk_allow_shadowing :: bool
  lk_allow_unknown_exports :: bool
  lk_map :: "(import_key \<times> def) list"

definition linker_new :: linker where
  "linker_new = \<lparr>lk_allow_shadowing = False, lk_allow_unknown_exports = False, lk_map = []\<rparr>"

definition import_name :: "string \<Rightarrow> string \<Rightarrow> string" where
  "import_name module name = ''`'' @ module @ ''::'' @ name @ ''`''"

definition linker_insert :: "string \<Rightarrow> string \<Rightarrow> def \<Rightarrow> (linker, unit) action" where
  "linker_insert module name d lk =
     (if \<not> lk_allow_shadowing lk \<and> map_of (lk_map lk) (module, name) \<noteq> None
      then (Inl (Msg (''import of '' @ import_name module name @ '' defined twice'')), lk)
      else (Inr (), lk\<lparr>lk_map := AList.update (module, name) d (lk_map lk)\<rparr>))"

definition linker_define :: "string \<Rightarrow> string \<Rightarrow> extern \<Rightarrow> (linker, unit) action" where
  "linker_define module name item = linker_insert module name (DefExtern item)"

definition linker_define_name :: "string \<Rightarrow> extern \<Rightarrow> (linker, unit) action" where
  "linker_define_name name item = linker_insert '''' name (DefExtern item)"

definition linker_func_new :: "string \<Rightarrow> string \<Rightarrow> canonical_type_id \<Rightarrow> nat \<Rightarrow> (linker, unit) action" where
  "linker_func_new module name tid callback = linker_insert module name (DefHost tid callback)"

definition insert_all :: "string \<Rightarrow> (string \<times> def) list \<Rightarrow> (linker, unit) action" where
  "insert_all module ds = bindc (each (\<lambda>p. linker_insert module (fst p) (snd p)) ds) (\<lambda>_. ret ())"

fun export_pairs :: "entity_handle \<Rightarrow> string list \<Rightarrow> store_inner \<Rightarrow> (string \<times> extern) list result" where
  "export_pairs inst [] s = Inr []"
| "export_pairs inst (n # ns) s = bindr (instance_export inst n s) (\<lambda>x. bindr (export_pairs inst ns s) (\<lambda>rest.
     Inr (case x of None \<Rightarrow> rest | Some e \<Rightarrow> (n, e) # rest)))"

definition linker_instance :: "string \<Rightarrow> entity_handle \<Rightarrow> store_inner \<Rightarrow> (linker, unit) action" where
  "linker_instance module_name inst s =
     bindc (lift_res (bindr (instance_at inst s) (\<lambda>ie. export_pairs inst (map ep_name (mi_exports (ie_module ie))) s))) (\<lambda>pairs.
     insert_all module_name (map (\<lambda>(n, e). (n, DefExtern e)) pairs))"

definition linker_resolve :: "linker \<Rightarrow> string \<Rightarrow> string \<Rightarrow> (store_inner, extern) action" where
  "linker_resolve lk module name = (case map_of (lk_map lk) (module, name) of
     Some (DefExtern e) \<Rightarrow> ret e
   | Some (DefHost tid callback) \<Rightarrow> bindc (func_new tid callback) (\<lambda>f. ret (XFunc f))
   | None \<Rightarrow> fail (Msg (''unknown import: '' @ import_name module name)))"

definition linker_instantiate :: "nat \<Rightarrow> 'd embedder \<Rightarrow> linker \<Rightarrow> module_inner \<Rightarrow> 'd store \<Rightarrow> (entity_handle result \<times> 'd store) option" where
  "linker_instantiate depth em lk m st =
     (case on_store_inner (each (\<lambda>i. linker_resolve lk (im_module i) (im_name i)) (mi_imports m)) st of
       (Inl e, st') \<Rightarrow> Some (Inl e, st')
     | (Inr imports, st') \<Rightarrow> instance_new depth em m imports st')"

definition linker_module :: "nat \<Rightarrow> 'd embedder \<Rightarrow> string \<Rightarrow> module_inner \<Rightarrow> linker \<Rightarrow> 'd store \<Rightarrow> (unit result \<times> linker \<times> 'd store) option" where
  "linker_module depth em module_name m lk st = Option.bind (linker_instantiate depth em lk m st) (\<lambda>(r, st').
     Some (case r of
       Inl e \<Rightarrow> (Inl e, lk, st')
     | Inr inst \<Rightarrow> (case linker_instance module_name inst (st_inner st') lk of (r', lk') \<Rightarrow> (r', lk', st'))))"

definition linker_get :: "linker \<Rightarrow> string \<Rightarrow> string \<Rightarrow> (store_inner, extern) action" where
  "linker_get lk module name = linker_resolve lk module name"

definition linker_get_default :: "linker \<Rightarrow> string \<Rightarrow> (store_inner, func_handle) action" where
  "linker_get_default lk module = bindc (linker_resolve lk module '''') (\<lambda>x. case x of
     XFunc f \<Rightarrow> ret f | _ \<Rightarrow> fail (Msg ''default export is not a function''))"

definition linker_alias :: "string \<Rightarrow> string \<Rightarrow> string \<Rightarrow> string \<Rightarrow> (linker, unit) action" where
  "linker_alias module name as_module as_name = bindc (getc (\<lambda>lk. map_of (lk_map lk) (module, name))) (\<lambda>d. case d of
     None \<Rightarrow> fail (Msg (''no export '' @ import_name module name @ '' to alias''))
   | Some d \<Rightarrow> linker_insert as_module as_name d)"

definition linker_alias_module :: "((import_key \<times> def) list \<Rightarrow> (import_key \<times> def) list) \<Rightarrow> string \<Rightarrow> string \<Rightarrow> (linker, unit) action" where
  "linker_alias_module order module as_module = bindc (getc (\<lambda>lk. filter (\<lambda>((m, _), _). m = module) (order (lk_map lk)))) (\<lambda>es.
     insert_all as_module (map (\<lambda>((_, n), d). (n, d)) es))"

definition linker_allow_shadowing :: "bool \<Rightarrow> linker \<Rightarrow> linker" where
  "linker_allow_shadowing b lk = lk\<lparr>lk_allow_shadowing := b\<rparr>"

definition linker_allow_unknown_exports :: "bool \<Rightarrow> linker \<Rightarrow> linker" where
  "linker_allow_unknown_exports b lk = lk\<lparr>lk_allow_unknown_exports := b\<rparr>"

section \<open>Definitions\<close>

abbreviation linked :: "linker \<Rightarrow> import_key \<rightharpoonup> def" where
  "linked lk \<equiv> map_of (lk_map lk)"

definition linker_ok :: "linker \<Rightarrow> bool" where
  "linker_ok lk \<longleftrightarrow> distinct (map fst (lk_map lk))"

text \<open>Without shadowing an operation only adds definitions.\<close>

definition extends :: "linker \<Rightarrow> linker \<Rightarrow> bool" where
  "extends lk lk' \<longleftrightarrow> lk_allow_shadowing lk' = lk_allow_shadowing lk \<and> (linker_ok lk \<longrightarrow> linker_ok lk') \<and>
     (\<not> lk_allow_shadowing lk \<longrightarrow> linked lk \<subseteq>\<^sub>m linked lk')"

lemma extends_refl [simp]: "extends lk lk"
  by (simp add: extends_def)

lemma extends_trans: "extends lk lk' \<Longrightarrow> extends lk' lk'' \<Longrightarrow> extends lk lk''"
  by (auto simp: extends_def intro: map_le_trans)

lemma linker_insert_extends: "extends lk (snd (linker_insert module name d lk))"
  by (auto simp: extends_def linker_insert_def linker_ok_def update_conv' distinct_update map_le_def dom_def)

lemma insert_all_extends: "extends lk (snd (insert_all module ds lk))"
proof -
  have "extends lk (snd (each (\<lambda>p. linker_insert module (fst p) (snd p)) ds lk))"
  proof (induction ds arbitrary: lk)
    case (Cons x ds)
    obtain r lk' where i: "linker_insert module (fst x) (snd x) lk = (r, lk')" by fastforce
    have e: "extends lk lk'" using linker_insert_extends [of lk module "fst x" "snd x"] i by simp
    obtain r' lk'' where j: "each (\<lambda>p. linker_insert module (fst p) (snd p)) ds lk' = (r', lk'')" by fastforce
    have "extends lk' lk''" using Cons.IH [of lk'] j by simp
    then show ?case using e i j by (auto simp: bindc_def ret_def split_beta intro: extends_trans split: sum.split)
  qed (simp add: ret_def)
  then show ?thesis by (auto simp: insert_all_def bindc_def ret_def split: prod.split sum.split)
qed

text \<open>One operation on a linker, whatever its outcome.\<close>

inductive linker_step :: "'d embedder \<Rightarrow> linker \<Rightarrow> linker \<Rightarrow> bool" for em where
  define_: "linker_step em lk (snd (linker_define module name item lk))"
| define_name: "linker_step em lk (snd (linker_define_name name item lk))"
| func_new: "linker_step em lk (snd (linker_func_new module name tid callback lk))"
| instance_: "linker_step em lk (snd (linker_instance module inst s lk))"
| module_: "linker_module depth em module m lk st = Some (r, lk', st') \<Longrightarrow> linker_step em lk lk'"
| alias_: "linker_step em lk (snd (linker_alias module name as_module as_name lk))"
| alias_module: "linker_step em lk (snd (linker_alias_module order module as_module lk))"
| unknown_exports: "linker_step em lk (linker_allow_unknown_exports b lk)"

lemma linker_instance_extends: "extends lk (snd (linker_instance module inst s lk))"
  by (auto simp: linker_instance_def bindc_def lift_res_def insert_all_extends split: sum.split)

lemma linker_step_extends: "linker_step em lk lk' \<Longrightarrow> extends lk lk'"
proof (induction rule: linker_step.induct)
  case (module_ depth module m lk st r lk' st')
  then show ?case using linker_instance_extends [of lk module]
    by (auto simp: linker_module_def split: bind_splits sum.splits prod.splits) (metis snd_conv)
next
  case (unknown_exports lk b)
  then show ?case by (simp add: extends_def linker_allow_unknown_exports_def linker_ok_def)
qed (auto simp: linker_define_def linker_define_name_def linker_func_new_def linker_insert_extends linker_instance_extends
     linker_alias_def linker_alias_module_def getc_def bindc_def fail_def insert_all_extends split: option.split)

lemma linker_steps_extends: "(linker_step em)\<^sup>*\<^sup>* lk lk' \<Longrightarrow> extends lk lk'"
  by (induction rule: rtranclp_induct) (auto intro: extends_trans linker_step_extends)

section \<open>Linking by name\<close>

lemma resolve_extern: "linked lk (module, name) = Some (DefExtern e) \<Longrightarrow> linker_resolve lk module name s = (Inr e, s)"
  by (simp add: linker_resolve_def ret_def)

lemma insert_all_lookup:
  assumes "insert_all module ds lk = (Inr (), lk')"
  shows "linked lk' (m, n) = (if m = module \<and> n \<in> fst ` set ds then map_of (rev ds) n else linked lk (m, n))"
proof -
  have "\<exists>us. each (\<lambda>p. linker_insert module (fst p) (snd p)) ds lk = (Inr us, lk')"
    using assms by (auto simp: insert_all_def bindc_def ret_def split: prod.splits sum.splits)
  then show ?thesis
  proof (induction ds arbitrary: lk rule: list.induct)
    case (Cons x ds)
    then obtain us lk1 vs where x: "linker_insert module (fst x) (snd x) lk = (Inr us, lk1)"
      and rest: "each (\<lambda>p. linker_insert module (fst p) (snd p)) ds lk1 = (Inr vs, lk')"
      by (auto simp: bindc_def ret_def split: prod.splits sum.splits)
    have "linked lk1 = (linked lk)((module, fst x) \<mapsto> snd x)"
      using x by (auto simp: linker_insert_def update_conv' split: if_splits)
    moreover have "map_of (rev ds) n = None \<longleftrightarrow> n \<notin> fst ` set ds" by (metis map_of_eq_None_iff set_rev)
    ultimately show ?case using Cons.IH [of lk1] rest
      by (auto simp: map_add_def intro: rev_image_eqI split: option.splits if_splits)
  qed (simp add: ret_def)
qed

lemma export_pairs_spec:
  "export_pairs inst ns s = Inr ps \<Longrightarrow> (n, x) \<in> set ps \<longleftrightarrow> n \<in> set ns \<and> instance_export inst n s = Inr (Some x)"
proof (induction ns arbitrary: ps)
  case (Cons k ns)
  then obtain y rest where "instance_export inst k s = Inr y" "export_pairs inst ns s = Inr rest"
    "ps = (case y of None \<Rightarrow> rest | Some e \<Rightarrow> (k, e) # rest)"
    by (auto simp: bindr_def split: sum.splits)
  then show ?case using Cons.IH by (auto split: option.splits)
qed simp

lemma instance_export_listed:
  "instance_export inst n s = Inr (Some x) \<Longrightarrow> instance_at inst s = Inr ie \<Longrightarrow> n \<in> ep_name ` set (mi_exports (ie_module ie))"
  by (auto simp: instance_export_def find_Some_iff split: option.splits)

text \<open>After an instance is registered, every name it exports resolves to the exported entity, and all others as before.\<close>

lemma linker_instance_lookup:
  assumes run: "linker_instance module inst s lk = (Inr (), lk')"
  shows "instance_export inst n s = Inr (Some x) \<Longrightarrow> linked lk' (module, n) = Some (DefExtern x)"
    and "m \<noteq> module \<Longrightarrow> linked lk' (m, n) = linked lk (m, n)"
proof -
  obtain ie ps where ie: "instance_at inst s = Inr ie" and ps: "export_pairs inst (map ep_name (mi_exports (ie_module ie))) s = Inr ps"
    and ins: "insert_all module (map (\<lambda>(n, e). (n, DefExtern e)) ps) lk = (Inr (), lk')"
    using run by (auto simp: linker_instance_def bindc_def lift_res_def bindr_def split: sum.splits)
  show "m \<noteq> module \<Longrightarrow> linked lk' (m, n) = linked lk (m, n)" by (simp add: insert_all_lookup [OF ins])
  assume x: "instance_export inst n s = Inr (Some x)"
  let ?ds = "map (\<lambda>(n, e). (n, DefExtern e)) ps"
  have "(n, x) \<in> set ps" using export_pairs_spec [OF ps] x instance_export_listed [OF x ie] by auto
  then have n: "n \<in> fst ` set ?ds" by force
  then obtain d where d: "map_of (rev ?ds) n = Some d" by (metis map_of_eq_None_iff not_None_eq set_rev)
  then obtain y where "(n, y) \<in> set ps" "d = DefExtern y" by (auto dest!: map_of_SomeD)
  then have "d = DefExtern x" using export_pairs_spec [OF ps, of n y] x by auto
  then show "linked lk' (module, n) = Some (DefExtern x)" using n d by (simp add: insert_all_lookup [OF ins])
qed

lemma resolve_imports:
  assumes "\<And>i. i \<in> set imps \<Longrightarrow> \<exists>x. P i x \<and> linked lk (im_module i, im_name i) = Some (DefExtern x)"
  shows "\<exists>xs. list_all2 P imps xs \<and> each (\<lambda>i. linker_resolve lk (im_module i) (im_name i)) imps s = (Inr xs, s)"
  using assms
proof (induction imps)
  case (Cons i imps)
  obtain x where "P i x" "linked lk (im_module i, im_name i) = Some (DefExtern x)" using Cons.prems [of i] by auto
  moreover obtain xs where "list_all2 P imps xs" "each (\<lambda>i. linker_resolve lk (im_module i) (im_name i)) imps s = (Inr xs, s)"
    using Cons by auto
  ultimately show ?case by (intro exI [of _ "x # xs"]) (simp add: bindc_def ret_def resolve_extern)
qed (simp add: ret_def)

section \<open>Properties\<close>

text \<open>C39. Modules are linked by name. When an instance has been registered under a module name, whatever the linker held before, instantiating
  another module all of whose imports carry that module name and a name the instance exports is instantiating it with exactly the
  exported entities, one per import and in the order of the imports, whatever happened in the store in between; registering touches no definition of
  another module name.\<close>

theorem linked_by_name:
  assumes "linker_instance module inst s lk = (Inr (), lk')"
    and "\<And>i. i \<in> set (mi_imports m) \<Longrightarrow> im_module i = module \<and> (\<exists>x. instance_export inst (im_name i) s = Inr (Some x))"
  shows "(\<exists>xs. list_all2 (\<lambda>i x. instance_export inst (im_name i) s = Inr (Some x)) (mi_imports m) xs \<and>
      (\<forall>depth em st. linker_instantiate depth em lk' m st = instance_new depth em m xs st)) \<and>
    (\<forall>other name t. other \<noteq> module \<longrightarrow> linker_resolve lk' other name t = linker_resolve lk other name t)"
proof -
  let ?P = "list_all2 (\<lambda>i x. instance_export inst (im_name i) s = Inr (Some x)) (mi_imports m)"
  have xs: "\<exists>xs. ?P xs \<and> each (\<lambda>i. linker_resolve lk' (im_module i) (im_name i)) (mi_imports m) t = (Inr xs, t)" for t
    by (rule resolve_imports) (use assms(2) linker_instance_lookup(1) [OF assms(1)] in blast)
  obtain xs where P: "?P xs" using xs by blast
  have "each (\<lambda>i. linker_resolve lk' (im_module i) (im_name i)) (mi_imports m) t = (Inr xs, t)" for t
  proof -
    obtain ys where y: "?P ys" "each (\<lambda>i. linker_resolve lk' (im_module i) (im_name i)) (mi_imports m) t = (Inr ys, t)"
      using xs [of t] by blast
    have "ys = xs" using P y(1) by (intro nth_equalityI) (auto simp: list_all2_conv_all_nth)
    with y show ?thesis by simp
  qed
  then show ?thesis using P linker_instance_lookup(2) [OF assms(1)]
    by (auto simp: linker_instantiate_def on_store_inner_def linker_resolve_def)
qed

text \<open>A provider exporting its memory, and a consumer importing it.\<close>

definition provider :: instance_entity where
  "provider = \<lparr>ie_module = (co_module sample_code)\<lparr>mi_exports := [\<lparr>ep_name = ''mem'', ep_kind = ExMemory 0\<rparr>]\<rparr>, ie_funcs = [],
     ie_memories = [\<lparr>eh_index = 1, eh_store = 1\<rparr>], ie_globals = [], ie_tables = [], ie_tags = [], ie_dropped_data = [], ie_elems = []\<rparr>"

definition provider_store :: store_inner where
  "provider_store = (store_new 1 sample_engine)\<lparr>si_instances := [provider]\<rparr>"

definition consumer :: module_inner where
  "consumer = (co_module sample_code)\<lparr>mi_imports := [\<lparr>im_module = ''p'', im_name = ''mem'',
     im_kind = ImMemory \<lparr>mt_minimum = 0, mt_maximum = None, mt_memory64 = False\<rparr>\<rparr>]\<rparr>"

theorem linked_by_name_witness:
  "\<exists>lk'. linker_instance ''p'' \<lparr>eh_index = 0, eh_store = 1\<rparr> provider_store linker_new = (Inr (), lk') \<and>
     (\<forall>depth em st. linker_instantiate depth em lk' consumer st = instance_new depth em consumer [XMemory \<lparr>eh_index = 1, eh_store = 1\<rparr>] st)"
proof -
  let ?h = "\<lparr>eh_index = 0, eh_store = 1\<rparr> :: entity_handle"
  have ex: "instance_export ?h ''mem'' provider_store = Inr (Some (XMemory \<lparr>eh_index = 1, eh_store = 1\<rparr>))" by code_simp
  obtain lk' where run: "linker_instance ''p'' ?h provider_store linker_new = (Inr (), lk')"
    by (auto simp: linker_instance_def entity_at_def check_handle_def provider_store_def store_new_def index_at_def provider_def instance_export_def
        export_item_def insert_all_def linker_insert_def linker_new_def bindc_def ret_def lift_res_def)
  have "\<exists>xs. list_all2 (\<lambda>i x. instance_export ?h (im_name i) provider_store = Inr (Some x)) (mi_imports consumer) xs \<and>
      (\<forall>depth em st. linker_instantiate depth em lk' consumer st = instance_new depth em consumer xs st)"
    by (rule linked_by_name [OF run, THEN conjunct1]) (auto simp: consumer_def ex)
  then show ?thesis using run by (auto simp: consumer_def ex list_all2_Cons1)
qed

text \<open>C40. Names are stable. Unless shadowing is allowed, no sequence of operations on a linker, successful or not, changes what a defined
  name means: it resolves as it did, and a second definition of it is refused. The order in which the hash map is traversed makes no
  difference to this.\<close>

theorem linker_names_stable:
  assumes "(linker_step em)\<^sup>*\<^sup>* lk lk'" and "\<not> lk_allow_shadowing lk" and "linked lk (module, name) \<noteq> None"
  shows "linker_resolve lk' module name s = linker_resolve lk module name s \<and> (\<forall>d. linker_insert module name d lk' =
    (Inl (Msg (''import of '' @ import_name module name @ '' defined twice'')), lk'))"
proof -
  have "linked lk \<subseteq>\<^sub>m linked lk'" "\<not> lk_allow_shadowing lk'"
    using linker_steps_extends [OF assms(1)] assms(2) by (simp_all add: extends_def)
  moreover have "linked lk' (module, name) = linked lk (module, name)"
    using calculation(1) assms(3) by (metis domIff map_le_def)
  ultimately show ?thesis using assms(3) by (simp add: linker_resolve_def linker_insert_def)
qed

definition one_name :: linker where
  "one_name = snd (linker_func_new ''h'' ''f'' 0 0 linker_new)"

theorem linker_names_stable_witness:
  "linker_resolve (snd (linker_func_new ''h'' ''f'' 0 1 one_name)) ''h'' ''f'' (store_new 1 sample_engine) =
     linker_resolve one_name ''h'' ''f'' (store_new 1 sample_engine)"
proof -
  have "(linker_step undefined)\<^sup>*\<^sup>* one_name (snd (linker_func_new ''h'' ''f'' 0 1 one_name))"
    by (rule r_into_rtranclp) (rule linker_step.func_new)
  then show ?thesis
    by (rule linker_names_stable [THEN conjunct1]) (simp_all add: one_name_def linker_func_new_def linker_insert_def linker_new_def)
qed

end
