(* ===== verification/Lower.thy ===== *)
theory Lower
  imports Code
begin

text \<open>
  The lowering of function bodies, \<^verbatim>\<open>src/module/compile/\<close>: one pass over the decoded operators that emits instructions into the arenas of the
  module, keeps the operand height, and leaves branches open until the end of their block is known. This theory holds the
  translator, the conversion of types (\<^verbatim>\<open>conv.rs\<close>) and the operators without control flow (\<^verbatim>\<open>core.rs\<close>, \<^verbatim>\<open>numeric.rs\<close>, \<^verbatim>\<open>memory.rs\<close>, \<^verbatim>\<open>table.rs\<close>,
  \<^verbatim>\<open>ref_.rs\<close>, \<^verbatim>\<open>gc.rs\<close>). The types of the decoder are
  datatypes with the constructors that the conversions match on. Debug offsets are left out. Indices are unbounded numbers: a body of
  4 GB would be needed to overflow the 32 bits of the source.
\<close>

section \<open>Decoded types\<close>

datatype wp_abstract = WFunc | WNoFunc | WExtern | WNoExtern | WAny | WEq | WI31 | WStruct | WArray | WNone | WExn | WNoExn | WCont | WNoCont

text \<open>A concrete type carries its module-relative index, if it has one.\<close>

datatype wp_heap = WAbstract bool wp_abstract | WConcrete "nat option" | WExact "nat option"

record wp_ref =
  wr_nullable :: bool
  wr_heap :: wp_heap

datatype wp_val = WvI32 | WvI64 | WvF32 | WvF64 | WvV128 | WvRef wp_ref

datatype block_type = BtEmpty | BtType wp_val | BtFunc nat

datatype catch_clause = CatchOne nat nat | CatchOneRef nat nat | CatchAll nat | CatchAllRef nat

definition conv_abstract :: "wp_abstract \<Rightarrow> ir_heap result" where
  "conv_abstract ty = (case ty of
     WFunc \<Rightarrow> Inr IhFunc | WNoFunc \<Rightarrow> Inr IhNoFunc | WExtern \<Rightarrow> Inr IhExtern | WNoExtern \<Rightarrow> Inr IhNoExtern | WAny \<Rightarrow> Inr IhAny | WEq \<Rightarrow> Inr IhEq
   | WI31 \<Rightarrow> Inr IhI31 | WStruct \<Rightarrow> Inr IhStruct | WArray \<Rightarrow> Inr IhArray | WNone \<Rightarrow> Inr IhNone | WExn \<Rightarrow> Inr IhExn | WNoExn \<Rightarrow> Inr IhNoExn
   | _ \<Rightarrow> Inl (Msg ''continuation heap types unsupported''))"

definition conv_concrete :: "agg_kind list \<Rightarrow> nat option \<Rightarrow> ir_heap result" where
  "conv_concrete kinds idx = bindr (ok_or (Msg ''non-module-relative type index'') idx) (\<lambda>i.
     bindr (ok_or (Msg ''type index out of range'') (get_at kinds i)) (\<lambda>kind. Inr (IhConcrete i kind)))"

definition conv_heaptype :: "agg_kind list \<Rightarrow> wp_heap \<Rightarrow> ir_heap result" where
  "conv_heaptype kinds h = (case h of
     WAbstract shared ty \<Rightarrow> if shared then Inl (Msg ''shared heap types unsupported'') else conv_abstract ty
   | WConcrete idx \<Rightarrow> conv_concrete kinds idx
   | WExact idx \<Rightarrow> conv_concrete kinds idx)"

definition conv_valtype :: "agg_kind list \<Rightarrow> wp_val \<Rightarrow> ir_val result" where
  "conv_valtype kinds ty = (case ty of
     WvI32 \<Rightarrow> Inr IvI32 | WvI64 \<Rightarrow> Inr IvI64 | WvF32 \<Rightarrow> Inr IvF32 | WvF64 \<Rightarrow> Inr IvF64 | WvV128 \<Rightarrow> Inr IvV128
   | WvRef rt \<Rightarrow> bindr (conv_heaptype kinds (wr_heap rt)) (\<lambda>h. Inr (IvRef (wr_nullable rt) h)))"

definition ref_target :: "agg_kind list \<Rightarrow> wp_ref \<Rightarrow> (ir_heap \<times> bool) result" where
  "ref_target kinds rt = bindr (conv_valtype kinds (WvRef rt)) (\<lambda>v. case v of
     IvRef nullable heap \<Rightarrow> Inr (heap, nullable) | _ \<Rightarrow> Inl (Panic ''ref type maps to a reference''))"

section \<open>The translator\<close>

record compile_ctx =
  cx_types :: "module_type list"
  cx_kinds :: "agg_kind list"
  cx_func_types :: "nat list"
  cx_tag_types :: "nat list"
  cx_max_expanded_locals :: nat

datatype block_kind = BkBlock | BkLoop | BkIf | BkTryTable

record handler_clause =
  hc_tag :: "nat option"
  hc_label :: nat
  hc_payload_args :: bool
  hc_payload_ref :: bool

datatype patch_slot = PsSingle | PsTableCase nat | PsTableDefault

record patch =
  pt_op :: nat
  pt_slot :: patch_slot

record ctrl_frame =
  ct_kind :: block_kind
  ct_base_height :: nat
  ct_param_count :: nat
  ct_result_count :: nat
  ct_start_ip :: nat
  ct_end_patches :: "patch list"
  ct_else_patch :: "nat option"
  ct_reachable_on_entry :: bool
  ct_end_targeted :: bool
  ct_clauses :: "handler_clause list"

record bases =
  ba_ops :: nat
  ba_br_tables :: nat
  ba_big_memargs :: nat
  ba_handlers :: nat

text \<open>The control frames stand in the order of the source, the innermost last.\<close>

record translator =
  tl_code :: code_arenas
  tl_base :: bases
  tl_height :: nat
  tl_max_operands :: nat
  tl_ctrl :: "ctrl_frame list"
  tl_reachable :: bool
  tl_fusable_cmp :: "cmp_kind option"
  tl_error :: "internal_error option"

type_synonym 'a lowering = "(translator, 'a) action"

definition translator_new :: "code_arenas \<Rightarrow> translator" where
  "translator_new code = \<lparr>tl_code = code,
     tl_base = \<lparr>ba_ops = length (ca_ops code), ba_br_tables = length (ca_br_tables code), ba_big_memargs = length (ca_big_memargs code),
       ba_handlers = length (ca_handlers code)\<rparr>,
     tl_height = 0, tl_max_operands = 0, tl_ctrl = [], tl_reachable = True, tl_fusable_cmp = None, tl_error = None\<rparr>"

definition next_ip :: "translator \<Rightarrow> nat" where
  "next_ip t = length (ca_ops (tl_code t)) - ba_ops (tl_base t)"

definition op_ref :: "nat \<Rightarrow> op lowering" where
  "op_ref i = (\<lambda>t. (index_at (ca_ops (tl_code t)) (ba_ops (tl_base t) + i), t))"

definition set_ops :: "(op list \<Rightarrow> op list) \<Rightarrow> translator \<Rightarrow> translator" where
  "set_ops f t = t\<lparr>tl_code := (tl_code t)\<lparr>ca_ops := f (ca_ops (tl_code t))\<rparr>\<rparr>"

definition set_edges :: "(branch_target list \<Rightarrow> branch_target list) \<Rightarrow> translator \<Rightarrow> translator" where
  "set_edges f t = t\<lparr>tl_code := (tl_code t)\<lparr>ca_br_tables := f (ca_br_tables (tl_code t))\<rparr>\<rparr>"

definition op_mut :: "nat \<Rightarrow> op \<Rightarrow> unit lowering" where
  "op_mut i op = bindc (op_ref i) (\<lambda>_. (\<lambda>t. (Inr (), set_ops (\<lambda>ops. ops[ba_ops (tl_base t) + i := op]) t)))"

definition push_edge :: "branch_target \<Rightarrow> nat lowering" where
  "push_edge bt t = (Inr (length (ca_br_tables (tl_code t)) - ba_br_tables (tl_base t)), set_edges (\<lambda>es. es @ [bt]) t)"

definition edge_mut :: "nat \<Rightarrow> (branch_target \<Rightarrow> branch_target) \<Rightarrow> unit lowering" where
  "edge_mut rel f t = (case index_at (ca_br_tables (tl_code t)) (ba_br_tables (tl_base t) + rel) of
     Inl e \<Rightarrow> (Inl e, t) | Inr bt \<Rightarrow> (Inr (), set_edges (\<lambda>es. es[ba_br_tables (tl_base t) + rel := f bt]) t))"

definition memarg :: "mem_arg \<Rightarrow> mem_arg lowering" where
  "memarg m t = (if ma_offset m < BIG_MEMARG then (Inr m, t)
     else (Inr \<lparr>ma_memory = length (ca_big_memargs (tl_code t)) - ba_big_memargs (tl_base t), ma_offset = BIG_MEMARG\<rparr>,
       t\<lparr>tl_code := (tl_code t)\<lparr>ca_big_memargs := ca_big_memargs (tl_code t) @ [\<lparr>bma_memory = ma_memory m, bma_offset = ma_offset m\<rparr>]\<rparr>\<rparr>))"

definition fusable_cmp_of :: "op \<Rightarrow> cmp_kind option" where
  "fusable_cmp_of op = (case op of OpNumeric (NI32Rel k) \<Rightarrow> Some k | _ \<Rightarrow> None)"

definition emit :: "op \<Rightarrow> unit lowering" where
  "emit op = putc (\<lambda>t. (set_ops (\<lambda>ops. ops @ [op]) t)\<lparr>tl_fusable_cmp := fusable_cmp_of op\<rparr>)"

definition latch :: "string \<Rightarrow> translator \<Rightarrow> translator" where
  "latch msg t = t\<lparr>tl_error := (case tl_error t of None \<Rightarrow> Some (Compiler msg) | Some e \<Rightarrow> Some e)\<rparr>"

definition hpush :: "nat \<Rightarrow> unit lowering" where
  "hpush n = putc (\<lambda>t. case checked_add u32_max (tl_height t) n of
     None \<Rightarrow> latch ''operand height overflow'' t
   | Some h \<Rightarrow> t\<lparr>tl_height := h, tl_max_operands := max (tl_max_operands t) h\<rparr>)"

definition hpop :: "nat \<Rightarrow> unit lowering" where
  "hpop n = putc (\<lambda>t. case checked_sub (tl_height t) n of
     None \<Rightarrow> latch ''operand height underflow'' t | Some h \<Rightarrow> t\<lparr>tl_height := h\<rparr>)"

definition height_below :: "nat \<Rightarrow> nat lowering" where
  "height_below n t = (case checked_sub (tl_height t) n of
     Some h \<Rightarrow> (Inr h, t) | None \<Rightarrow> (Inr (tl_height t), latch ''control operand height underflow'' t))"

definition binop :: "op \<Rightarrow> unit lowering" where
  "binop op = bindc (hpop 2) (\<lambda>_. bindc (hpush 1) (\<lambda>_. emit op))"

definition unop :: "op \<Rightarrow> unit lowering" where
  "unop op = bindc (hpop 1) (\<lambda>_. bindc (hpush 1) (\<lambda>_. emit op))"

definition storeop :: "op \<Rightarrow> unit lowering" where
  "storeop op = bindc (hpop 2) (\<lambda>_. emit op)"

definition constop :: "op \<Rightarrow> unit lowering" where
  "constop op = bindc (hpush 1) (\<lambda>_. emit op)"

definition popop :: "nat \<Rightarrow> op \<Rightarrow> unit lowering" where
  "popop n op = bindc (hpop n) (\<lambda>_. emit op)"

definition if_reachable :: "unit lowering \<Rightarrow> unit lowering" where
  "if_reachable a t = (if tl_reachable t then a t else (Inr (), t))"

section \<open>Operators without control flow\<close>

definition numeric_arity :: "numeric_op \<Rightarrow> nat" where
  "numeric_arity n = (case n of NI32Rel _ \<Rightarrow> 2 | NI32Bin _ \<Rightarrow> 2 | NI64Rel _ \<Rightarrow> 2 | NI64Bin _ \<Rightarrow> 2
     | NF32Rel _ \<Rightarrow> 2 | NF32Bin _ \<Rightarrow> 2 | NF64Rel _ \<Rightarrow> 2 | NF64Bin _ \<Rightarrow> 2 | _ \<Rightarrow> 1)"

definition visit_numeric :: "numeric_op \<Rightarrow> unit lowering" where
  "visit_numeric n = if_reachable (if numeric_arity n = 2 then binop (OpNumeric n) else unop (OpNumeric n))"

definition visit_nop :: "unit lowering" where
  "visit_nop = if_reachable (emit OpNop)"

definition visit_const :: "op \<Rightarrow> unit lowering" where
  "visit_const op = if_reachable (constop op)"

definition visit_drop :: "unit lowering" where
  "visit_drop = if_reachable (popop 1 OpDrop)"

definition lower_select :: "unit lowering" where
  "lower_select = bindc (hpop 3) (\<lambda>_. bindc (hpush 1) (\<lambda>_. emit OpSelect))"

definition visit_select :: "unit lowering" where
  "visit_select = if_reachable lower_select"

definition visit_typed_select_multi :: "unit lowering" where
  "visit_typed_select_multi = fail (Msg ''unsupported operator: typed_select_multi'')"

definition visit_local_get :: "nat \<Rightarrow> unit lowering" where
  "visit_local_get i = if_reachable (constop (OpLocalGet i))"

definition visit_local_set :: "nat \<Rightarrow> unit lowering" where
  "visit_local_set i = if_reachable (popop 1 (OpLocalSet i))"

definition visit_local_tee :: "nat \<Rightarrow> unit lowering" where
  "visit_local_tee i = if_reachable (emit (OpLocalTee i))"

definition visit_global_get :: "nat \<Rightarrow> unit lowering" where
  "visit_global_get i = if_reachable (constop (OpGlobalGet i))"

definition visit_global_set :: "nat \<Rightarrow> unit lowering" where
  "visit_global_set i = if_reachable (popop 1 (OpGlobalSet i))"

text \<open>The immediate of a load or store is the decoded one; the emitted instruction has the compact one.\<close>

definition visit_memory :: "mem_op \<Rightarrow> unit lowering" where
  "visit_memory op = if_reachable (case op of
     MLoad k m \<Rightarrow> bindc (memarg m) (\<lambda>m'. unop (OpMemory (MLoad k m')))
   | MStore k m \<Rightarrow> bindc (memarg m) (\<lambda>m'. storeop (OpMemory (MStore k m')))
   | MemorySize _ \<Rightarrow> constop (OpMemory op)
   | MemoryInit _ _ \<Rightarrow> popop 3 (OpMemory op)
   | DataDrop _ \<Rightarrow> emit (OpMemory op)
   | MemoryCopy _ _ \<Rightarrow> popop 3 (OpMemory op)
   | MemoryFill _ \<Rightarrow> popop 3 (OpMemory op))"

definition visit_memory_grow :: "nat \<Rightarrow> unit lowering" where
  "visit_memory_grow m = if_reachable (unop (OpMemoryGrow m))"

definition visit_table :: "table_op \<Rightarrow> unit lowering" where
  "visit_table op = if_reachable (case op of
     TableInit _ _ \<Rightarrow> popop 3 (OpTable op)
   | TableCopy _ _ \<Rightarrow> popop 3 (OpTable op)
   | ElemDrop _ \<Rightarrow> emit (OpTable op)
   | TableGet _ \<Rightarrow> unop (OpTable op)
   | TableSet _ \<Rightarrow> popop 2 (OpTable op)
   | TableSize _ \<Rightarrow> constop (OpTable op)
   | TableFill _ \<Rightarrow> popop 3 (OpTable op))"

definition visit_table_grow :: "nat \<Rightarrow> unit lowering" where
  "visit_table_grow t = if_reachable (bindc (hpop 2) (\<lambda>_. bindc (hpush 1) (\<lambda>_. emit (OpTableGrow t))))"

definition visit_ref_null :: "compile_ctx \<Rightarrow> wp_heap \<Rightarrow> unit lowering" where
  "visit_ref_null ctx hty = if_reachable (bindc (lift_res (conv_heaptype (cx_kinds ctx) hty)) (\<lambda>ty. constop (OpRef (RefNull ty))))"

definition visit_ref_func :: "nat \<Rightarrow> unit lowering" where
  "visit_ref_func f = if_reachable (constop (OpRef (RefFuncOp f)))"

definition visit_ref_is_null :: "unit lowering" where
  "visit_ref_is_null = if_reachable (unop (OpRef RefIsNull))"

definition visit_ref_as_non_null :: "unit lowering" where
  "visit_ref_as_non_null = if_reachable (unop (OpRef RefAsNonNull))"

definition struct_field_count :: "compile_ctx \<Rightarrow> nat \<Rightarrow> nat result" where
  "struct_field_count ctx ty = bindr (index_at (cx_types ctx) ty) (\<lambda>mt. case mt_body mt of
     CompStruct fs \<Rightarrow> Inr (length fs) | _ \<Rightarrow> Inl (Msg ''struct.new on non-struct type''))"

definition visit_struct :: "compile_ctx \<Rightarrow> gc_op \<Rightarrow> unit lowering" where
  "visit_struct ctx op = if_reachable (case op of
     StructNew ty \<Rightarrow> bindc (lift_res (struct_field_count ctx ty)) (\<lambda>n. bindc (hpop n) (\<lambda>_. constop (OpGc op)))
   | StructNewDefault _ \<Rightarrow> constop (OpGc op)
   | StructGet _ _ \<Rightarrow> unop (OpGc op)
   | StructGetS _ _ \<Rightarrow> unop (OpGc op)
   | StructGetU _ _ \<Rightarrow> unop (OpGc op)
   | StructSet _ _ \<Rightarrow> storeop (OpGc op)
   | RefI31 \<Rightarrow> unop (OpGc op)
   | I31GetS \<Rightarrow> unop (OpGc op)
   | I31GetU \<Rightarrow> unop (OpGc op))"

definition visit_array :: "array_op \<Rightarrow> unit lowering" where
  "visit_array op = if_reachable (case op of
     ArrayNew _ \<Rightarrow> bindc (hpop 2) (\<lambda>_. constop (OpArray op))
   | ArrayNewDefault _ \<Rightarrow> unop (OpArray op)
   | ArrayNewFixed _ n \<Rightarrow> bindc (hpop n) (\<lambda>_. constop (OpArray op))
   | ArrayNewData _ _ \<Rightarrow> bindc (hpop 2) (\<lambda>_. constop (OpArray op))
   | ArrayNewElem _ _ \<Rightarrow> bindc (hpop 2) (\<lambda>_. constop (OpArray op))
   | ArrayGet _ \<Rightarrow> bindc (hpop 2) (\<lambda>_. constop (OpArray op))
   | ArrayGetS _ \<Rightarrow> bindc (hpop 2) (\<lambda>_. constop (OpArray op))
   | ArrayGetU _ \<Rightarrow> bindc (hpop 2) (\<lambda>_. constop (OpArray op))
   | ArraySet _ \<Rightarrow> popop 3 (OpArray op)
   | ArrayLen \<Rightarrow> unop (OpArray op)
   | ArrayFill _ \<Rightarrow> popop 4 (OpArray op)
   | ArrayCopy _ _ \<Rightarrow> popop 5 (OpArray op)
   | ArrayInitData _ _ \<Rightarrow> popop 4 (OpArray op)
   | ArrayInitElem _ _ \<Rightarrow> popop 4 (OpArray op))"

definition visit_ref_test :: "compile_ctx \<Rightarrow> wp_heap \<Rightarrow> bool \<Rightarrow> unit lowering" where
  "visit_ref_test ctx hty nullable = if_reachable (bindc (lift_res (conv_heaptype (cx_kinds ctx) hty)) (\<lambda>ty. unop (OpCast (RefTest ty nullable))))"

definition visit_ref_cast :: "compile_ctx \<Rightarrow> wp_heap \<Rightarrow> bool \<Rightarrow> unit lowering" where
  "visit_ref_cast ctx hty nullable = if_reachable (bindc (lift_res (conv_heaptype (cx_kinds ctx) hty)) (\<lambda>ty. unop (OpCast (RefCast ty nullable))))"

definition visit_ref_eq :: "unit lowering" where
  "visit_ref_eq = if_reachable (binop (OpCast RefEq))"

definition visit_any_convert_extern :: "unit lowering" where
  "visit_any_convert_extern = if_reachable (unop (OpCast AnyConvertExtern))"

definition visit_extern_convert_any :: "unit lowering" where
  "visit_extern_convert_any = if_reachable (unop (OpCast ExternConvertAny))"

end
