(* ===== verification/Lower_Control.thy ===== *)
theory Lower_Control
  imports Lower
begin

text \<open>
  Structured control flow, \<^verbatim>\<open>src/module/compile/control/\<close>, and the translation of a function body (\<^verbatim>\<open>compile/mod.rs\<close>, \<^verbatim>\<open>visit.rs\<close>). A branch to the end of
  an open block is emitted with a dummy target and recorded in the frame of the block; the end of the block patches it. The decoder
  and the validator belong to a third-party package: the decoded stream is a list of operators or decoding errors, the validator a step
  function with a state of its own, the final check of the reader a function of the frame still open.
\<close>

section \<open>Branches\<close>

definition compiler_err :: "string \<Rightarrow> error" where
  "compiler_err msg = Internal (Compiler msg)"

definition to_u16 :: "nat \<Rightarrow> nat result" where
  "to_u16 v = (if v < 2 ^ 16 then Inr v else Inl (Msg ''branch stack fixup exceeds 65535 operands''))"

definition fixup :: "nat \<Rightarrow> nat \<Rightarrow> (nat \<times> nat) result" where
  "fixup keep pop = bindr (to_u16 keep) (\<lambda>k. bindr (to_u16 pop) (\<lambda>p. Inr (k, p)))"

definition label_arity :: "ctrl_frame \<Rightarrow> nat" where
  "label_arity f = (if ct_kind f = BkLoop then ct_param_count f else ct_result_count f)"

definition branch_to :: "nat \<Rightarrow> translator \<Rightarrow> (branch_target \<times> nat option) result" where
  "branch_to depth t =
     bindr (ok_or (compiler_err ''branch control depth out of range'')
       (Option.bind (checked_sub (length (tl_ctrl t)) 1) (\<lambda>outermost. checked_sub outermost depth))) (\<lambda>i.
     bindr (ok_or (compiler_err ''branch control frame missing'') (get_at (tl_ctrl t) i)) (\<lambda>frame.
     bindr (ok_or (compiler_err ''branch target height overflow'') (checked_add u32_max (ct_base_height frame) (label_arity frame))) (\<lambda>target_height.
     bindr (ok_or (compiler_err ''branch operand height underflow'') (checked_sub (tl_height t) target_height)) (\<lambda>pop.
     bindr (fixup (label_arity frame) pop) (\<lambda>(keep, pop).
     Inr (if ct_kind frame = BkLoop then (\<lparr>bt_ip = ct_start_ip frame, bt_keep = keep, bt_pop = pop\<rparr>, None)
       else (\<lparr>bt_ip = 0, bt_keep = keep, bt_pop = pop\<rparr>, Some i)))))))"

definition branch_target_at :: "nat \<Rightarrow> (branch_target \<times> nat option) lowering" where
  "branch_target_at depth t = (branch_to depth t, t)"

definition frame_mut :: "nat \<Rightarrow> (ctrl_frame \<Rightarrow> ctrl_frame) \<Rightarrow> unit lowering" where
  "frame_mut i f t = (case index_at (tl_ctrl t) i of
     Inl e \<Rightarrow> (Inl e, t) | Inr fr \<Rightarrow> (Inr (), t\<lparr>tl_ctrl := (tl_ctrl t)[i := f fr]\<rparr>))"

definition add_patch :: "patch \<Rightarrow> ctrl_frame \<Rightarrow> ctrl_frame" where
  "add_patch p f = f\<lparr>ct_end_patches := ct_end_patches f @ [p], ct_end_targeted := True\<rparr>"

definition register_branch :: "nat option \<Rightarrow> nat \<Rightarrow> patch_slot \<Rightarrow> unit lowering" where
  "register_branch frame op slot = (case frame of None \<Rightarrow> ret () | Some i \<Rightarrow> frame_mut i (add_patch \<lparr>pt_op = op, pt_slot = slot\<rparr>))"

definition set_reachable :: "bool \<Rightarrow> unit lowering" where
  "set_reachable b = putc (\<lambda>t. t\<lparr>tl_reachable := b\<rparr>)"

definition set_height :: "nat \<Rightarrow> unit lowering" where
  "set_height h = putc (\<lambda>t. t\<lparr>tl_height := h\<rparr>)"

definition no_fusion :: "unit lowering" where
  "no_fusion = putc (\<lambda>t. t\<lparr>tl_fusable_cmp := None\<rparr>)"

definition lower_br :: "nat \<Rightarrow> unit lowering" where
  "lower_br depth = bindc (branch_target_at depth) (\<lambda>(target, frame).
     bindc (getc next_ip) (\<lambda>i.
     bindc (emit (OpBr target)) (\<lambda>_.
     bindc (register_branch frame i PsSingle) (\<lambda>_. set_reachable False))))"

definition lower_br_if :: "nat \<Rightarrow> unit lowering" where
  "lower_br_if depth = bindc (hpop 1) (\<lambda>_. bindc (branch_target_at depth) (\<lambda>(target, frame).
     bindc (getc tl_fusable_cmp) (\<lambda>cmp. case cmp of
       Some kind \<Rightarrow>
         bindc no_fusion (\<lambda>_.
         bindc (getc (\<lambda>t. next_ip t - 1)) (\<lambda>i.
         bindc (op_mut i (OpBrIfCmp kind False target)) (\<lambda>_. register_branch frame i PsSingle)))
     | None \<Rightarrow>
         bindc (getc next_ip) (\<lambda>i.
         bindc (emit (OpBrIf target)) (\<lambda>_. register_branch frame i PsSingle)))))"

fun table_edges :: "nat \<Rightarrow> nat list \<Rightarrow> ((nat \<times> patch_slot) list) lowering" where
  "table_edges k [] = ret []"
| "table_edges k (depth # depths) = bindc (branch_target_at depth) (\<lambda>(bt, frame).
     bindc (push_edge bt) (\<lambda>_.
     bindc (table_edges (Suc k) depths) (\<lambda>rest.
     ret (case frame of Some i \<Rightarrow> (i, PsTableCase k) # rest | None \<Rightarrow> rest))))"

fun register_all :: "nat \<Rightarrow> (nat \<times> patch_slot) list \<Rightarrow> unit lowering" where
  "register_all op [] = ret ()"
| "register_all op ((i, slot) # ps) = bindc (frame_mut i (add_patch \<lparr>pt_op = op, pt_slot = slot\<rparr>)) (\<lambda>_. register_all op ps)"

definition lower_br_table :: "nat list \<Rightarrow> nat \<Rightarrow> unit lowering" where
  "lower_br_table cases default_depth = bindc (hpop 1) (\<lambda>_.
     bindc (getc (\<lambda>t. length (ca_br_tables (tl_code t)) - ba_br_tables (tl_base t))) (\<lambda>base.
     bindc (table_edges 0 cases) (\<lambda>patches.
     bindc (branch_target_at default_depth) (\<lambda>(bt, frame).
     bindc (push_edge bt) (\<lambda>_.
     bindc (getc next_ip) (\<lambda>i.
     bindc (emit (OpBrTable \<lparr>btr_base = base, btr_len = length cases\<rparr>)) (\<lambda>_.
     bindc (register_all i (patches @ (case frame of Some f \<Rightarrow> [(f, PsTableDefault)] | None \<Rightarrow> []))) (\<lambda>_.
     set_reachable False))))))))"

definition lower_ret :: "unit lowering" where
  "lower_ret = bindc (\<lambda>t. (index_at (tl_ctrl t) 0, t)) (\<lambda>func.
     bindc (\<lambda>t. (ok_or (compiler_err ''return operand height underflow'') (checked_sub (tl_height t) (ct_result_count func)), t)) (\<lambda>pop.
     bindc (lift_res (fixup (ct_result_count func) pop)) (\<lambda>(keep, pop).
     bindc (getc next_ip) (\<lambda>i.
     bindc (emit (OpBr \<lparr>bt_ip = 0, bt_keep = keep, bt_pop = pop\<rparr>)) (\<lambda>_.
     bindc (frame_mut 0 (add_patch \<lparr>pt_op = i, pt_slot = PsSingle\<rparr>)) (\<lambda>_. set_reachable False))))))"

definition retarget :: "nat \<Rightarrow> op \<Rightarrow> op result" where
  "retarget ip op = (case op of
     OpBr t \<Rightarrow> Inr (OpBr (t\<lparr>bt_ip := ip\<rparr>))
   | OpBrIf t \<Rightarrow> Inr (OpBrIf (t\<lparr>bt_ip := ip\<rparr>))
   | OpBrIfNot t \<Rightarrow> Inr (OpBrIfNot (t\<lparr>bt_ip := ip\<rparr>))
   | OpBrIfCmp k n t \<Rightarrow> Inr (OpBrIfCmp k n (t\<lparr>bt_ip := ip\<rparr>))
   | OpBrOnNull t \<Rightarrow> Inr (OpBrOnNull (t\<lparr>bt_ip := ip\<rparr>))
   | OpBrOnNonNull t \<Rightarrow> Inr (OpBrOnNonNull (t\<lparr>bt_ip := ip\<rparr>))
   | _ \<Rightarrow> Inl (Panic ''patch on non-branch op''))"

definition edge_of :: "u32 \<Rightarrow> nat" where
  "edge_of target = unat (target AND NOT NULLABLE_BIT)"

definition patch_ip :: "nat \<Rightarrow> patch \<Rightarrow> unit lowering" where
  "patch_ip ip p = bindc (op_ref (pt_op p)) (\<lambda>op. case op of
     OpBrTable rng \<Rightarrow> (case pt_slot p of
         PsTableCase k \<Rightarrow> edge_mut (btr_base rng + k) (\<lambda>bt. bt\<lparr>bt_ip := ip\<rparr>)
       | PsTableDefault \<Rightarrow> edge_mut (btr_base rng + btr_len rng) (\<lambda>bt. bt\<lparr>bt_ip := ip\<rparr>)
       | PsSingle \<Rightarrow> fail (Panic ''single slot on br_table''))
   | OpBrOnCast _ target \<Rightarrow> edge_mut (edge_of target) (\<lambda>bt. bt\<lparr>bt_ip := ip\<rparr>)
   | OpBrOnCastFail _ target \<Rightarrow> edge_mut (edge_of target) (\<lambda>bt. bt\<lparr>bt_ip := ip\<rparr>)
   | _ \<Rightarrow> bindc (lift_res (retarget ip op)) (\<lambda>op'. op_mut (pt_op p) op'))"

fun patch_all :: "nat \<Rightarrow> patch list \<Rightarrow> unit lowering" where
  "patch_all ip [] = ret ()"
| "patch_all ip (p # ps) = bindc (patch_ip ip p) (\<lambda>_. patch_all ip ps)"

section \<open>Blocks\<close>

definition type_sig :: "compile_ctx \<Rightarrow> nat \<Rightarrow> (nat \<times> nat) result" where
  "type_sig ctx i = bindr (index_at (cx_types ctx) i) (\<lambda>mt. case mt_body mt of
     CompFunc ps rs \<Rightarrow> Inr (length ps, length rs) | _ \<Rightarrow> Inl (Panic ''not a function type''))"

definition block_arity :: "compile_ctx \<Rightarrow> block_type \<Rightarrow> (nat \<times> nat) result" where
  "block_arity ctx bt = (case bt of BtEmpty \<Rightarrow> Inr (0, 0) | BtType _ \<Rightarrow> Inr (0, 1) | BtFunc i \<Rightarrow> type_sig ctx i)"

definition push_func_frame :: "nat \<Rightarrow> unit lowering" where
  "push_func_frame n_results = putc (\<lambda>t. t\<lparr>tl_ctrl := tl_ctrl t @ [\<lparr>ct_kind = BkBlock, ct_base_height = 0, ct_param_count = 0,
     ct_result_count = n_results, ct_start_ip = 0, ct_end_patches = [], ct_else_patch = None, ct_reachable_on_entry = True,
     ct_end_targeted = False, ct_clauses = []\<rparr>]\<rparr>)"

definition push_frame_of :: "block_kind \<Rightarrow> nat \<Rightarrow> nat \<Rightarrow> nat option \<Rightarrow> handler_clause list \<Rightarrow> unit lowering" where
  "push_frame_of kind params results else_patch clauses = bindc (height_below params) (\<lambda>base.
     putc (\<lambda>t. t\<lparr>tl_ctrl := tl_ctrl t @ [\<lparr>ct_kind = kind, ct_base_height = base, ct_param_count = params, ct_result_count = results,
       ct_start_ip = next_ip t, ct_end_patches = [], ct_else_patch = else_patch, ct_reachable_on_entry = tl_reachable t,
       ct_end_targeted = False, ct_clauses = clauses\<rparr>]\<rparr>))"

definition push_block :: "compile_ctx \<Rightarrow> block_type \<Rightarrow> block_kind \<Rightarrow> unit lowering" where
  "push_block ctx bt kind = bindc no_fusion (\<lambda>_. bindc (lift_res (block_arity ctx bt)) (\<lambda>(params, results).
     push_frame_of kind params results None []))"

definition open_if :: "(nat option) lowering" where
  "open_if = bindc (hpop 1) (\<lambda>_. bindc (getc tl_fusable_cmp) (\<lambda>cmp. case cmp of
     Some kind \<Rightarrow> bindc no_fusion (\<lambda>_. bindc (getc (\<lambda>t. next_ip t - 1)) (\<lambda>i.
       bindc (op_mut i (OpBrIfCmp kind True \<lparr>bt_ip = 0, bt_keep = 0, bt_pop = 0\<rparr>)) (\<lambda>_. ret (Some i))))
   | None \<Rightarrow> bindc (getc next_ip) (\<lambda>i. bindc (emit (OpBrIfNot \<lparr>bt_ip = 0, bt_keep = 0, bt_pop = 0\<rparr>)) (\<lambda>_. ret (Some i)))))"

definition push_if :: "compile_ctx \<Rightarrow> block_type \<Rightarrow> unit lowering" where
  "push_if ctx bt = bindc (lift_res (block_arity ctx bt)) (\<lambda>(params, results).
     bindc (getc tl_reachable) (\<lambda>reachable.
     bindc (if reachable then open_if else ret None) (\<lambda>else_patch.
     bindc no_fusion (\<lambda>_. push_frame_of BkIf params results else_patch []))))"

definition last_frame_of :: "string \<Rightarrow> ctrl_frame lowering" where
  "last_frame_of msg t = (if tl_ctrl t = [] then (Inl (Panic msg), t) else (Inr (last (tl_ctrl t)), t))"

definition pop_frame_of :: "string \<Rightarrow> ctrl_frame lowering" where
  "pop_frame_of msg t = (if tl_ctrl t = [] then (Inl (Panic msg), t) else (Inr (last (tl_ctrl t)), t\<lparr>tl_ctrl := butlast (tl_ctrl t)\<rparr>))"

definition last_mut :: "(ctrl_frame \<Rightarrow> ctrl_frame) \<Rightarrow> unit lowering" where
  "last_mut f t = frame_mut (length (tl_ctrl t) - 1) f t"

definition do_else :: "unit lowering" where
  "do_else = bindc no_fusion (\<lambda>_. bindc (last_frame_of ''else without if'') (\<lambda>f.
     bindc (getc tl_reachable) (\<lambda>reachable.
     bindc (if reachable
       then bindc (getc next_ip) (\<lambda>i. bindc (lift_res (fixup (ct_result_count f) 0)) (\<lambda>(keep, _).
         bindc (emit (OpBr \<lparr>bt_ip = 0, bt_keep = keep, bt_pop = 0\<rparr>)) (\<lambda>_. last_mut (add_patch \<lparr>pt_op = i, pt_slot = PsSingle\<rparr>))))
       else ret ()) (\<lambda>_.
     bindc (case ct_else_patch f of None \<Rightarrow> ret ()
       | Some i \<Rightarrow> bindc (getc next_ip) (\<lambda>else_start. patch_ip else_start \<lparr>pt_op = i, pt_slot = PsSingle\<rparr>)) (\<lambda>_.
     bindc (last_mut (\<lambda>f. f\<lparr>ct_else_patch := None\<rparr>)) (\<lambda>_.
     bindc (set_reachable (ct_reachable_on_entry f)) (\<lambda>_.
     set_height (ct_base_height f + ct_param_count f))))))))"

definition payload_count :: "compile_ctx \<Rightarrow> handler_clause \<Rightarrow> nat result" where
  "payload_count ctx c = bindr (if hc_payload_args c
       then bindr (ok_or (Panic ''catch clause has a tag'') (hc_tag c)) (\<lambda>tag.
         bindr (index_at (cx_tag_types ctx) tag) (\<lambda>tidx. bindr (type_sig ctx tidx) (\<lambda>(params, _). Inr params)))
       else Inr 0) (\<lambda>args. Inr (args + (if hc_payload_ref c then 1 else 0)))"

fun landing_pads :: "compile_ctx \<Rightarrow> nat \<Rightarrow> handler_clause list \<Rightarrow> handler_rec list lowering" where
  "landing_pads ctx base_height [] = ret []"
| "landing_pads ctx base_height (c # cs) =
     bindc (lift_res (payload_count ctx c)) (\<lambda>n.
     bindc (set_height (base_height + n)) (\<lambda>_.
     bindc (branch_target_at (hc_label c)) (\<lambda>(target, frame).
     bindc (getc next_ip) (\<lambda>landing_ip.
     bindc (emit (OpBr target)) (\<lambda>_.
     bindc (register_branch frame landing_ip PsSingle) (\<lambda>_.
     bindc (landing_pads ctx base_height cs) (\<lambda>recs.
     ret (\<lparr>hr_tag = hc_tag c, hr_restore_height = base_height, hr_payload_args = hc_payload_args c, hr_payload_ref = hc_payload_ref c,
       hr_landing_ip = landing_ip\<rparr> # recs))))))))"

definition end_try_table :: "compile_ctx \<Rightarrow> unit lowering" where
  "end_try_table ctx = bindc (pop_frame_of ''try_table frame'') (\<lambda>frame.
     bindc (getc next_ip) (\<lambda>body_end.
     bindc (lift_res (fixup (ct_result_count frame) 0)) (\<lambda>(keep, _).
     bindc (emit (OpBr \<lparr>bt_ip = 0, bt_keep = keep, bt_pop = 0\<rparr>)) (\<lambda>_.
     bindc (landing_pads ctx (ct_base_height frame) (ct_clauses frame)) (\<lambda>recs.
     bindc (getc next_ip) (\<lambda>cont.
     bindc (patch_ip cont \<lparr>pt_op = body_end, pt_slot = PsSingle\<rparr>) (\<lambda>_.
     bindc (patch_all cont (ct_end_patches frame)) (\<lambda>_.
     bindc (putc (\<lambda>t. t\<lparr>tl_code := (tl_code t)\<lparr>ca_handlers := ca_handlers (tl_code t) @
       [\<lparr>hs_start_ip = ct_start_ip frame, hs_end_ip = body_end, hs_clauses = recs\<rparr>]\<rparr>\<rparr>)) (\<lambda>_.
     bindc (getc tl_reachable) (\<lambda>reachable.
     bindc (set_reachable (reachable \<or> ct_end_targeted frame)) (\<lambda>_.
     set_height (ct_base_height frame + ct_result_count frame))))))))))))"

definition end_block :: "unit lowering" where
  "end_block = bindc (pop_frame_of ''end without frame'') (\<lambda>frame.
     bindc (getc next_ip) (\<lambda>end_ip.
     bindc (case ct_else_patch frame of None \<Rightarrow> ret () | Some i \<Rightarrow> patch_ip end_ip \<lparr>pt_op = i, pt_slot = PsSingle\<rparr>) (\<lambda>_.
     bindc (patch_all end_ip (ct_end_patches frame)) (\<lambda>_.
     bindc (getc tl_reachable) (\<lambda>reachable.
     bindc (set_reachable (if ct_kind frame = BkLoop then reachable else reachable \<or> ct_end_targeted frame \<or> ct_else_patch frame \<noteq> None)) (\<lambda>_.
     set_height (ct_base_height frame + ct_result_count frame)))))))"

definition do_end :: "compile_ctx \<Rightarrow> unit lowering" where
  "do_end ctx = bindc no_fusion (\<lambda>_. bindc (last_frame_of ''end without frame'') (\<lambda>innermost.
     if ct_kind innermost = BkTryTable \<and> ct_reachable_on_entry innermost then end_try_table ctx else end_block))"

definition conv_catch :: "catch_clause \<Rightarrow> handler_clause" where
  "conv_catch c = (case c of
     CatchOne tag label \<Rightarrow> \<lparr>hc_tag = Some tag, hc_label = label, hc_payload_args = True, hc_payload_ref = False\<rparr>
   | CatchOneRef tag label \<Rightarrow> \<lparr>hc_tag = Some tag, hc_label = label, hc_payload_args = True, hc_payload_ref = True\<rparr>
   | CatchAll label \<Rightarrow> \<lparr>hc_tag = None, hc_label = label, hc_payload_args = False, hc_payload_ref = False\<rparr>
   | CatchAllRef label \<Rightarrow> \<lparr>hc_tag = None, hc_label = label, hc_payload_args = False, hc_payload_ref = True\<rparr>)"

definition push_try_table :: "compile_ctx \<Rightarrow> block_type \<Rightarrow> catch_clause list \<Rightarrow> unit lowering" where
  "push_try_table ctx bt catches = bindc no_fusion (\<lambda>_. bindc (lift_res (block_arity ctx bt)) (\<lambda>(params, results).
     push_frame_of BkTryTable params results None (map conv_catch catches)))"

section \<open>Calls, throws, branches on references\<close>

definition func_signature :: "compile_ctx \<Rightarrow> nat \<Rightarrow> (nat \<times> nat) result" where
  "func_signature ctx f = bindr (index_at (cx_func_types ctx) f) (type_sig ctx)"

definition lower_call :: "compile_ctx \<Rightarrow> nat \<Rightarrow> unit lowering" where
  "lower_call ctx f = bindc (lift_res (func_signature ctx f)) (\<lambda>(params, results).
     bindc (hpop params) (\<lambda>_. bindc (hpush results) (\<lambda>_. emit (OpCall f))))"

definition lower_call_indirect :: "compile_ctx \<Rightarrow> nat \<Rightarrow> nat \<Rightarrow> unit lowering" where
  "lower_call_indirect ctx ty table = bindc (lift_res (type_sig ctx ty)) (\<lambda>(params, results).
     bindc (hpop (1 + params)) (\<lambda>_. bindc (hpush results) (\<lambda>_. emit (OpCallIndirect ty table))))"

definition lower_call_ref :: "compile_ctx \<Rightarrow> nat \<Rightarrow> unit lowering" where
  "lower_call_ref ctx ty = bindc (lift_res (type_sig ctx ty)) (\<lambda>(params, results).
     bindc (hpop (1 + params)) (\<lambda>_. bindc (hpush results) (\<lambda>_. emit (OpCallRef ty))))"

definition lower_return_call :: "compile_ctx \<Rightarrow> nat \<Rightarrow> unit lowering" where
  "lower_return_call ctx f = bindc (lift_res (func_signature ctx f)) (\<lambda>(params, _).
     bindc (hpop params) (\<lambda>_. bindc (emit (OpReturnCall f)) (\<lambda>_. set_reachable False)))"

definition lower_return_call_indirect :: "compile_ctx \<Rightarrow> nat \<Rightarrow> nat \<Rightarrow> unit lowering" where
  "lower_return_call_indirect ctx ty table = bindc (lift_res (type_sig ctx ty)) (\<lambda>(params, _).
     bindc (hpop (1 + params)) (\<lambda>_. bindc (emit (OpReturnCallIndirect ty table)) (\<lambda>_. set_reachable False)))"

definition lower_return_call_ref :: "compile_ctx \<Rightarrow> nat \<Rightarrow> unit lowering" where
  "lower_return_call_ref ctx ty = bindc (lift_res (type_sig ctx ty)) (\<lambda>(params, _).
     bindc (hpop (1 + params)) (\<lambda>_. bindc (emit (OpReturnCallRef ty)) (\<lambda>_. set_reachable False)))"

definition lower_throw :: "nat \<Rightarrow> unit lowering" where
  "lower_throw tag = bindc (emit (OpThrow tag)) (\<lambda>_. set_reachable False)"

definition lower_throw_ref :: "unit lowering" where
  "lower_throw_ref = bindc (emit OpThrowRef) (\<lambda>_. set_reachable False)"

definition lower_unreachable :: "unit lowering" where
  "lower_unreachable = bindc (emit OpUnreachable) (\<lambda>_. set_reachable False)"

definition lower_br_on_null :: "nat \<Rightarrow> unit lowering" where
  "lower_br_on_null depth = bindc (hpop 1) (\<lambda>_. bindc (branch_target_at depth) (\<lambda>(target, frame).
     bindc (getc next_ip) (\<lambda>i.
     bindc (emit (OpBrOnNull target)) (\<lambda>_.
     bindc (register_branch frame i PsSingle) (\<lambda>_. hpush 1)))))"

definition lower_br_on_non_null :: "nat \<Rightarrow> unit lowering" where
  "lower_br_on_non_null depth = bindc (branch_target_at depth) (\<lambda>(target, frame).
     bindc (getc next_ip) (\<lambda>i.
     bindc (emit (OpBrOnNonNull target)) (\<lambda>_.
     bindc (register_branch frame i PsSingle) (\<lambda>_. hpop 1))))"

definition lower_br_on_cast :: "nat \<Rightarrow> ir_heap \<Rightarrow> bool \<Rightarrow> bool \<Rightarrow> unit lowering" where
  "lower_br_on_cast depth ty nullable on_fail = bindc (branch_target_at depth) (\<lambda>(bt, frame).
     bindc (push_edge bt) (\<lambda>pool.
     let target = word_of_nat pool OR (if nullable then NULLABLE_BIT else 0) in
     bindc (getc next_ip) (\<lambda>i.
     bindc (emit (if on_fail then OpBrOnCastFail ty target else OpBrOnCast ty target)) (\<lambda>_.
     register_branch frame i PsSingle))))"

section \<open>Operators\<close>

datatype operator =
    VNumeric numeric_op | VNop | VI32Const u32 | VI64Const u64 | VF32Const u32 | VF64Const u64
  | VDrop | VSelect | VTypedSelect wp_val | VTypedSelectMulti
  | VLocalGet nat | VLocalSet nat | VLocalTee nat | VGlobalGet nat | VGlobalSet nat
  | VMemory mem_op | VMemoryGrow nat | VTable table_op | VTableGrow nat
  | VRefNull wp_heap | VRefFunc nat | VRefIsNull | VRefAsNonNull
  | VStruct gc_op | VArray array_op | VRefTest wp_heap bool | VRefCast wp_heap bool | VRefEq | VAnyConvertExtern | VExternConvertAny
  | VBlock block_type | VLoop block_type | VIf block_type | VElse | VEnd | VTryTable block_type "catch_clause list"
  | VBr nat | VBrIf nat | VBrTable "nat list" nat | VReturn
  | VCall nat | VCallIndirect nat nat | VCallRef nat | VReturnCall nat | VReturnCallIndirect nat nat | VReturnCallRef nat
  | VBrOnNull nat | VBrOnNonNull nat | VBrOnCast nat wp_ref | VBrOnCastFail nat wp_ref
  | VThrow nat | VThrowRef | VUnreachable

definition visit_cast_branch :: "compile_ctx \<Rightarrow> nat \<Rightarrow> wp_ref \<Rightarrow> bool \<Rightarrow> unit lowering" where
  "visit_cast_branch ctx depth rt on_fail = if_reachable (bindc (lift_res (ref_target (cx_kinds ctx) rt)) (\<lambda>(ty, nullable).
     lower_br_on_cast depth ty nullable on_fail))"

definition visit_control :: "compile_ctx \<Rightarrow> operator \<Rightarrow> unit lowering" where
  "visit_control ctx op = (case op of
     VBlock bt \<Rightarrow> push_block ctx bt BkBlock
   | VLoop bt \<Rightarrow> push_block ctx bt BkLoop
   | VIf bt \<Rightarrow> push_if ctx bt
   | VElse \<Rightarrow> do_else
   | VEnd \<Rightarrow> do_end ctx
   | VTryTable bt catches \<Rightarrow> push_try_table ctx bt catches
   | VBr depth \<Rightarrow> if_reachable (lower_br depth)
   | VBrIf depth \<Rightarrow> if_reachable (lower_br_if depth)
   | VBrTable cases default_depth \<Rightarrow> if_reachable (lower_br_table cases default_depth)
   | VReturn \<Rightarrow> if_reachable lower_ret
   | VCall f \<Rightarrow> if_reachable (lower_call ctx f)
   | VCallIndirect ty table \<Rightarrow> if_reachable (lower_call_indirect ctx ty table)
   | VCallRef ty \<Rightarrow> if_reachable (lower_call_ref ctx ty)
   | VReturnCall f \<Rightarrow> if_reachable (lower_return_call ctx f)
   | VReturnCallIndirect ty table \<Rightarrow> if_reachable (lower_return_call_indirect ctx ty table)
   | VReturnCallRef ty \<Rightarrow> if_reachable (lower_return_call_ref ctx ty)
   | VBrOnNull depth \<Rightarrow> if_reachable (lower_br_on_null depth)
   | VBrOnNonNull depth \<Rightarrow> if_reachable (lower_br_on_non_null depth)
   | VBrOnCast depth rt \<Rightarrow> visit_cast_branch ctx depth rt False
   | VBrOnCastFail depth rt \<Rightarrow> visit_cast_branch ctx depth rt True
   | VThrow tag \<Rightarrow> if_reachable (lower_throw tag)
   | VThrowRef \<Rightarrow> if_reachable lower_throw_ref
   | VUnreachable \<Rightarrow> if_reachable lower_unreachable
   | _ \<Rightarrow> ret ())"

definition visit_operator :: "compile_ctx \<Rightarrow> operator \<Rightarrow> unit lowering" where
  "visit_operator ctx op = (case op of
     VNumeric n \<Rightarrow> visit_numeric n
   | VNop \<Rightarrow> visit_nop
   | VI32Const v \<Rightarrow> visit_const (OpI32Const v)
   | VI64Const v \<Rightarrow> visit_const (OpI64Const v)
   | VF32Const v \<Rightarrow> visit_const (OpF32Const v)
   | VF64Const v \<Rightarrow> visit_const (OpF64Const v)
   | VDrop \<Rightarrow> visit_drop
   | VSelect \<Rightarrow> visit_select
   | VTypedSelect _ \<Rightarrow> visit_select
   | VTypedSelectMulti \<Rightarrow> visit_typed_select_multi
   | VLocalGet i \<Rightarrow> visit_local_get i
   | VLocalSet i \<Rightarrow> visit_local_set i
   | VLocalTee i \<Rightarrow> visit_local_tee i
   | VGlobalGet i \<Rightarrow> visit_global_get i
   | VGlobalSet i \<Rightarrow> visit_global_set i
   | VMemory m \<Rightarrow> visit_memory m
   | VMemoryGrow m \<Rightarrow> visit_memory_grow m
   | VTable t \<Rightarrow> visit_table t
   | VTableGrow t \<Rightarrow> visit_table_grow t
   | VRefNull h \<Rightarrow> visit_ref_null ctx h
   | VRefFunc f \<Rightarrow> visit_ref_func f
   | VRefIsNull \<Rightarrow> visit_ref_is_null
   | VRefAsNonNull \<Rightarrow> visit_ref_as_non_null
   | VStruct g \<Rightarrow> visit_struct ctx g
   | VArray a \<Rightarrow> visit_array a
   | VRefTest h nullable \<Rightarrow> visit_ref_test ctx h nullable
   | VRefCast h nullable \<Rightarrow> visit_ref_cast ctx h nullable
   | VRefEq \<Rightarrow> visit_ref_eq
   | VAnyConvertExtern \<Rightarrow> visit_any_convert_extern
   | VExternConvertAny \<Rightarrow> visit_extern_convert_any
   | _ \<Rightarrow> visit_control ctx op)"

section \<open>A function body\<close>

text \<open>Each operator is decoded, validated and lowered before the next one is decoded.\<close>

fun lower_body :: "compile_ctx \<Rightarrow> ('v \<Rightarrow> operator \<Rightarrow> 'v result) \<Rightarrow> 'v \<Rightarrow> (error + operator) list \<Rightarrow> unit lowering" where
  "lower_body ctx validate v [] = ret ()"
| "lower_body ctx validate v (d # ds) = bindc (lift_res d) (\<lambda>op. bindc (lift_res (validate v op)) (\<lambda>v'.
     bindc (visit_operator ctx op) (\<lambda>_. lower_body ctx validate v' ds)))"

definition open_frame_kind :: "translator \<Rightarrow> block_kind option" where
  "open_frame_kind t = (if tl_ctrl t = [] then None else Some (ct_kind (last (tl_ctrl t))))"

fun expand_from :: "compile_ctx \<Rightarrow> (nat \<Rightarrow> bool) \<Rightarrow> (error + nat \<times> wp_val) list \<Rightarrow> code_arenas \<Rightarrow> code_arenas result" where
  "expand_from ctx can_alloc [] code = Inr code"
| "expand_from ctx can_alloc (d # ds) code = bindr d (\<lambda>(count, ty).
     bindr (conv_valtype (cx_kinds ctx) ty) (\<lambda>vt.
     bindr (ok_or (Msg ''module declares more than the configured number of locals in total'')
       (Option.bind (checked_add usize_max (length (ca_local_types code)) count)
         (\<lambda>n. if n \<le> min (cx_max_expanded_locals ctx) u32_max then Some n else None))) (\<lambda>total.
     if \<not> can_alloc count then Inl (Msg ''out of memory expanding module locals'')
     else expand_from ctx can_alloc ds (code\<lparr>ca_local_types := ca_local_types code @ replicate count vt\<rparr>))))"

definition expand_locals :: "compile_ctx \<Rightarrow> (nat \<Rightarrow> bool) \<Rightarrow> (error + nat \<times> wp_val) list \<Rightarrow> code_arenas \<Rightarrow> (nat \<times> code_arenas) result" where
  "expand_locals ctx can_alloc ls code = bindr (expand_from ctx can_alloc ls code) (\<lambda>code'. Inr (length (ca_local_types code), code'))"

record 'v decoded_body =
  db_read_locals :: "'v result"
  db_locals :: "(error + nat \<times> wp_val) list"
  db_operators :: "(error + operator) list"
  db_validate :: "'v \<Rightarrow> operator \<Rightarrow> 'v result"
  db_finish :: "block_kind option \<Rightarrow> unit result"

definition span_to :: "nat \<Rightarrow> nat \<Rightarrow> span" where
  "span_to start stop = \<lparr>sp_start = start, sp_len = stop - start\<rparr>"

definition compiled_of :: "nat \<Rightarrow> nat \<Rightarrow> nat \<Rightarrow> nat \<Rightarrow> translator \<Rightarrow> compiled_func" where
  "compiled_of type_idx n_params n_results locals_start t = (let c = tl_code t; b = tl_base t in
     \<lparr>cf_ops = span_to (ba_ops b) (length (ca_ops c)), cf_type_idx = type_idx, cf_n_params = n_params, cf_n_results = n_results,
      cf_local_types = span_to locals_start (length (ca_local_types c)), cf_max_operands = tl_max_operands t,
      cf_handlers = span_to (ba_handlers b) (length (ca_handlers c)), cf_br_tables = span_to (ba_br_tables b) (length (ca_br_tables c)),
      cf_big_memargs = span_to (ba_big_memargs b) (length (ca_big_memargs c))\<rparr>)"

definition translate_function :: "compile_ctx \<Rightarrow> (nat \<Rightarrow> bool) \<Rightarrow> nat \<Rightarrow> 'v decoded_body \<Rightarrow> code_arenas \<Rightarrow> (compiled_func \<times> code_arenas) result" where
  "translate_function ctx can_alloc type_idx body code =
     bindr (type_sig ctx type_idx) (\<lambda>(n_params, n_results).
     bindr (db_read_locals body) (\<lambda>v.
     bindr (expand_locals ctx can_alloc (db_locals body) code) (\<lambda>(locals_start, code').
     case bindc (push_func_frame n_results) (\<lambda>_. lower_body ctx (db_validate body) v (db_operators body)) (translator_new code') of
       (Inl e, _) \<Rightarrow> Inl e
     | (Inr _, t) \<Rightarrow> bindr (db_finish body (open_frame_kind t)) (\<lambda>_.
         case tl_error t of Some e \<Rightarrow> Inl (Internal e) | None \<Rightarrow> Inr (compiled_of type_idx n_params n_results locals_start t, tl_code t)))))"

end
