(* ===== verification/Lower_Labels.thy ===== *)
theory Lower_Labels
  imports Lower_Control
begin

text \<open>
  A reference for the lowering of control flow: an assembler with symbolic labels. Every block has a label, an \<^verbatim>\<open>if\<close> with a pending
  \<^verbatim>\<open>else\<close> a second one; branches carry labels in place of addresses, a label gets its address when its place is reached, and the code is
  linked once at the end. Nothing is patched. The straight-line operators are those of the translator.
\<close>

section \<open>The assembler\<close>

text \<open>\<open>lb_env\<close> is indexed by labels; \<open>lb_frames\<close> runs parallel to the control frames, with the label of the block and that of its pending \<^verbatim>\<open>else\<close>.\<close>

record labelled =
  lb_tr :: translator
  lb_frames :: "(nat \<times> nat option) list"
  lb_env :: "nat option list"

type_synonym 'a assembly = "(labelled, 'a) action"

definition on_tr :: "'a lowering \<Rightarrow> 'a assembly" where
  "on_tr a y = (case a (lb_tr y) of (r, t) \<Rightarrow> (r, y\<lparr>lb_tr := t\<rparr>))"

definition new_label :: "nat option \<Rightarrow> nat assembly" where
  "new_label pos y = (Inr (length (lb_env y)), y\<lparr>lb_env := lb_env y @ [pos]\<rparr>)"

definition place :: "nat \<Rightarrow> unit assembly" where
  "place l = putc (\<lambda>y. y\<lparr>lb_env := (lb_env y)[l := Some (next_ip (lb_tr y))]\<rparr>)"

definition place_opt :: "nat option \<Rightarrow> unit assembly" where
  "place_opt l = (case l of None \<Rightarrow> ret () | Some l \<Rightarrow> place l)"

definition ref_branch :: "nat \<Rightarrow> (branch_target \<times> nat option) assembly" where
  "ref_branch depth y = (bindr (branch_to depth (lb_tr y)) (\<lambda>(bt, frame).
     Inr (bt\<lparr>bt_ip := fst (lb_frames y ! (length (lb_frames y) - 1 - depth))\<rparr>, frame)), y)"

definition targeted :: "nat option \<Rightarrow> unit assembly" where
  "targeted frame = (case frame of None \<Rightarrow> ret () | Some i \<Rightarrow> on_tr (frame_mut i (\<lambda>f. f\<lparr>ct_end_targeted := True\<rparr>)))"

definition ref_br :: "nat \<Rightarrow> unit assembly" where
  "ref_br depth = bindc (ref_branch depth) (\<lambda>(bt, frame).
     bindc (on_tr (emit (OpBr bt))) (\<lambda>_. bindc (targeted frame) (\<lambda>_. on_tr (set_reachable False))))"

definition ref_br_if :: "nat \<Rightarrow> unit assembly" where
  "ref_br_if depth = bindc (on_tr (hpop 1)) (\<lambda>_. bindc (ref_branch depth) (\<lambda>(bt, frame).
     bindc (getc (\<lambda>y. tl_fusable_cmp (lb_tr y))) (\<lambda>cmp. case cmp of
       Some kind \<Rightarrow> bindc (on_tr no_fusion) (\<lambda>_. bindc (getc (\<lambda>y. next_ip (lb_tr y) - 1)) (\<lambda>i.
         bindc (on_tr (op_mut i (OpBrIfCmp kind False bt))) (\<lambda>_. targeted frame)))
     | None \<Rightarrow> bindc (on_tr (emit (OpBrIf bt))) (\<lambda>_. targeted frame))))"

fun ref_table_edges :: "nat list \<Rightarrow> nat list assembly" where
  "ref_table_edges [] = ret []"
| "ref_table_edges (depth # depths) = bindc (ref_branch depth) (\<lambda>(bt, frame).
     bindc (on_tr (push_edge bt)) (\<lambda>_. bindc (ref_table_edges depths) (\<lambda>rest.
     ret (case frame of Some i \<Rightarrow> i # rest | None \<Rightarrow> rest))))"

fun targeted_all :: "nat list \<Rightarrow> unit assembly" where
  "targeted_all [] = ret ()"
| "targeted_all (i # frames) = bindc (targeted (Some i)) (\<lambda>_. targeted_all frames)"

definition ref_br_table :: "nat list \<Rightarrow> nat \<Rightarrow> unit assembly" where
  "ref_br_table cases default_depth = bindc (on_tr (hpop 1)) (\<lambda>_.
     bindc (getc (\<lambda>y. length (ca_br_tables (tl_code (lb_tr y))) - ba_br_tables (tl_base (lb_tr y)))) (\<lambda>base.
     bindc (ref_table_edges cases) (\<lambda>frames.
     bindc (ref_branch default_depth) (\<lambda>(bt, frame).
     bindc (on_tr (push_edge bt)) (\<lambda>_.
     bindc (on_tr (emit (OpBrTable \<lparr>btr_base = base, btr_len = length cases\<rparr>))) (\<lambda>_.
     bindc (targeted_all (frames @ (case frame of Some i \<Rightarrow> [i] | None \<Rightarrow> []))) (\<lambda>_.
     on_tr (set_reachable False))))))))"

definition ref_ret :: "unit assembly" where
  "ref_ret = bindc (on_tr (\<lambda>t. (index_at (tl_ctrl t) 0, t))) (\<lambda>func.
     bindc (on_tr (\<lambda>t. (ok_or (compiler_err ''return operand height underflow'') (checked_sub (tl_height t) (ct_result_count func)), t))) (\<lambda>pop.
     bindc (lift_res (fixup (ct_result_count func) pop)) (\<lambda>(keep, pop).
     bindc (getc (\<lambda>y. fst (lb_frames y ! 0))) (\<lambda>l.
     bindc (on_tr (emit (OpBr \<lparr>bt_ip = l, bt_keep = keep, bt_pop = pop\<rparr>))) (\<lambda>_.
     bindc (targeted (Some 0)) (\<lambda>_. on_tr (set_reachable False)))))))"

definition ref_push_frame :: "block_kind \<Rightarrow> nat \<Rightarrow> nat \<Rightarrow> nat option \<Rightarrow> handler_clause list \<Rightarrow> unit assembly" where
  "ref_push_frame kind params results els clauses = bindc (on_tr (push_frame_of kind params results None clauses)) (\<lambda>_.
     bindc (getc (\<lambda>y. next_ip (lb_tr y))) (\<lambda>start.
     bindc (new_label (if kind = BkLoop then Some start else None)) (\<lambda>l.
     putc (\<lambda>y. y\<lparr>lb_frames := lb_frames y @ [(l, els)]\<rparr>))))"

definition ref_push_block :: "compile_ctx \<Rightarrow> block_type \<Rightarrow> block_kind \<Rightarrow> handler_clause list \<Rightarrow> unit assembly" where
  "ref_push_block ctx bt kind clauses = bindc (on_tr no_fusion) (\<lambda>_. bindc (lift_res (block_arity ctx bt)) (\<lambda>(params, results).
     ref_push_frame kind params results None clauses))"

definition ref_open_if :: "(nat option) assembly" where
  "ref_open_if = bindc (on_tr (hpop 1)) (\<lambda>_. bindc (new_label None) (\<lambda>l.
     bindc (getc (\<lambda>y. tl_fusable_cmp (lb_tr y))) (\<lambda>cmp. case cmp of
       Some kind \<Rightarrow> bindc (on_tr no_fusion) (\<lambda>_. bindc (getc (\<lambda>y. next_ip (lb_tr y) - 1)) (\<lambda>i.
         bindc (on_tr (op_mut i (OpBrIfCmp kind True \<lparr>bt_ip = l, bt_keep = 0, bt_pop = 0\<rparr>))) (\<lambda>_. ret (Some l))))
     | None \<Rightarrow> bindc (on_tr (emit (OpBrIfNot \<lparr>bt_ip = l, bt_keep = 0, bt_pop = 0\<rparr>))) (\<lambda>_. ret (Some l)))))"

definition ref_push_if :: "compile_ctx \<Rightarrow> block_type \<Rightarrow> unit assembly" where
  "ref_push_if ctx bt = bindc (lift_res (block_arity ctx bt)) (\<lambda>(params, results).
     bindc (getc (\<lambda>y. tl_reachable (lb_tr y))) (\<lambda>reachable.
     bindc (if reachable then ref_open_if else ret None) (\<lambda>els.
     bindc (on_tr no_fusion) (\<lambda>_. ref_push_frame BkIf params results els []))))"

definition ref_else :: "unit assembly" where
  "ref_else = bindc (on_tr no_fusion) (\<lambda>_. bindc (on_tr (last_frame_of ''else without if'')) (\<lambda>f.
     bindc (getc (\<lambda>y. last (lb_frames y))) (\<lambda>(l, els).
     bindc (getc (\<lambda>y. tl_reachable (lb_tr y))) (\<lambda>reachable.
     bindc (if reachable
       then bindc (lift_res (fixup (ct_result_count f) 0)) (\<lambda>(keep, _).
         bindc (on_tr (emit (OpBr \<lparr>bt_ip = l, bt_keep = keep, bt_pop = 0\<rparr>))) (\<lambda>_. on_tr (last_mut (\<lambda>f. f\<lparr>ct_end_targeted := True\<rparr>))))
       else ret ()) (\<lambda>_.
     bindc (place_opt els) (\<lambda>_.
     bindc (putc (\<lambda>y. y\<lparr>lb_frames := butlast (lb_frames y) @ [(l, None)]\<rparr>)) (\<lambda>_.
     bindc (on_tr (set_reachable (ct_reachable_on_entry f))) (\<lambda>_.
     on_tr (set_height (ct_base_height f + ct_param_count f))))))))))"

fun ref_landing_pads :: "compile_ctx \<Rightarrow> nat \<Rightarrow> handler_clause list \<Rightarrow> handler_rec list assembly" where
  "ref_landing_pads ctx base_height [] = ret []"
| "ref_landing_pads ctx base_height (c # cs) =
     bindc (lift_res (payload_count ctx c)) (\<lambda>n.
     bindc (on_tr (set_height (base_height + n))) (\<lambda>_.
     bindc (ref_branch (hc_label c)) (\<lambda>(bt, frame).
     bindc (getc (\<lambda>y. next_ip (lb_tr y))) (\<lambda>landing_ip.
     bindc (on_tr (emit (OpBr bt))) (\<lambda>_.
     bindc (targeted frame) (\<lambda>_.
     bindc (ref_landing_pads ctx base_height cs) (\<lambda>recs.
     ret (\<lparr>hr_tag = hc_tag c, hr_restore_height = base_height, hr_payload_args = hc_payload_args c, hr_payload_ref = hc_payload_ref c,
       hr_landing_ip = landing_ip\<rparr> # recs))))))))"

definition ref_pop_frame :: "(ctrl_frame \<times> nat \<times> nat option) assembly" where
  "ref_pop_frame = bindc (on_tr (pop_frame_of ''end without frame'')) (\<lambda>f. bindc (getc (\<lambda>y. last (lb_frames y))) (\<lambda>l.
     bindc (putc (\<lambda>y. y\<lparr>lb_frames := butlast (lb_frames y)\<rparr>)) (\<lambda>_. ret (f, l))))"

definition ref_end_try :: "compile_ctx \<Rightarrow> unit assembly" where
  "ref_end_try ctx = bindc ref_pop_frame (\<lambda>(frame, l, _).
     bindc (getc (\<lambda>y. next_ip (lb_tr y))) (\<lambda>body_end.
     bindc (lift_res (fixup (ct_result_count frame) 0)) (\<lambda>(keep, _).
     bindc (on_tr (emit (OpBr \<lparr>bt_ip = l, bt_keep = keep, bt_pop = 0\<rparr>))) (\<lambda>_.
     bindc (ref_landing_pads ctx (ct_base_height frame) (ct_clauses frame)) (\<lambda>recs.
     bindc (place l) (\<lambda>_.
     on_tr (bindc (putc (\<lambda>t. t\<lparr>tl_code := (tl_code t)\<lparr>ca_handlers := ca_handlers (tl_code t) @
       [\<lparr>hs_start_ip = ct_start_ip frame, hs_end_ip = body_end, hs_clauses = recs\<rparr>]\<rparr>\<rparr>)) (\<lambda>_.
     bindc (getc tl_reachable) (\<lambda>reachable.
     bindc (set_reachable (reachable \<or> ct_end_targeted frame)) (\<lambda>_.
     set_height (ct_base_height frame + ct_result_count frame)))))))))))"

definition ref_end_block :: "unit assembly" where
  "ref_end_block = bindc ref_pop_frame (\<lambda>(frame, l, els).
     bindc (place_opt els) (\<lambda>_.
     bindc (if ct_kind frame = BkLoop then ret () else place l) (\<lambda>_.
     on_tr (bindc (getc tl_reachable) (\<lambda>reachable.
     bindc (set_reachable (if ct_kind frame = BkLoop then reachable else reachable \<or> ct_end_targeted frame \<or> els \<noteq> None)) (\<lambda>_.
     set_height (ct_base_height frame + ct_result_count frame)))))))"

definition ref_end :: "compile_ctx \<Rightarrow> unit assembly" where
  "ref_end ctx = bindc (on_tr no_fusion) (\<lambda>_. bindc (on_tr (last_frame_of ''end without frame'')) (\<lambda>innermost.
     if ct_kind innermost = BkTryTable \<and> ct_reachable_on_entry innermost then ref_end_try ctx else ref_end_block))"

definition ref_br_on_null :: "nat \<Rightarrow> unit assembly" where
  "ref_br_on_null depth = bindc (on_tr (hpop 1)) (\<lambda>_. bindc (ref_branch depth) (\<lambda>(bt, frame).
     bindc (on_tr (emit (OpBrOnNull bt))) (\<lambda>_. bindc (targeted frame) (\<lambda>_. on_tr (hpush 1)))))"

definition ref_br_on_non_null :: "nat \<Rightarrow> unit assembly" where
  "ref_br_on_non_null depth = bindc (ref_branch depth) (\<lambda>(bt, frame).
     bindc (on_tr (emit (OpBrOnNonNull bt))) (\<lambda>_. bindc (targeted frame) (\<lambda>_. on_tr (hpop 1))))"

definition ref_br_on_cast :: "compile_ctx \<Rightarrow> nat \<Rightarrow> wp_ref \<Rightarrow> bool \<Rightarrow> unit assembly" where
  "ref_br_on_cast ctx depth rt on_fail = bindc (lift_res (ref_target (cx_kinds ctx) rt)) (\<lambda>(ty, nullable).
     bindc (ref_branch depth) (\<lambda>(bt, frame).
     bindc (on_tr (push_edge bt)) (\<lambda>pool.
     let target = word_of_nat pool OR (if nullable then NULLABLE_BIT else 0) in
     bindc (on_tr (emit (if on_fail then OpBrOnCastFail ty target else OpBrOnCast ty target))) (\<lambda>_. targeted frame))))"

definition when_reachable :: "unit assembly \<Rightarrow> unit assembly" where
  "when_reachable a y = (if tl_reachable (lb_tr y) then a y else (Inr (), y))"

definition ref_visit :: "compile_ctx \<Rightarrow> operator \<Rightarrow> unit assembly" where
  "ref_visit ctx op = (case op of
     VBlock bt \<Rightarrow> ref_push_block ctx bt BkBlock []
   | VLoop bt \<Rightarrow> ref_push_block ctx bt BkLoop []
   | VIf bt \<Rightarrow> ref_push_if ctx bt
   | VElse \<Rightarrow> ref_else
   | VEnd \<Rightarrow> ref_end ctx
   | VTryTable bt catches \<Rightarrow> ref_push_block ctx bt BkTryTable (map conv_catch catches)
   | VBr depth \<Rightarrow> when_reachable (ref_br depth)
   | VBrIf depth \<Rightarrow> when_reachable (ref_br_if depth)
   | VBrTable cases default_depth \<Rightarrow> when_reachable (ref_br_table cases default_depth)
   | VReturn \<Rightarrow> when_reachable ref_ret
   | VBrOnNull depth \<Rightarrow> when_reachable (ref_br_on_null depth)
   | VBrOnNonNull depth \<Rightarrow> when_reachable (ref_br_on_non_null depth)
   | VBrOnCast depth rt \<Rightarrow> when_reachable (ref_br_on_cast ctx depth rt False)
   | VBrOnCastFail depth rt \<Rightarrow> when_reachable (ref_br_on_cast ctx depth rt True)
   | _ \<Rightarrow> on_tr (visit_operator ctx op))"

fun ref_body :: "compile_ctx \<Rightarrow> ('v \<Rightarrow> operator \<Rightarrow> 'v result) \<Rightarrow> 'v \<Rightarrow> (error + operator) list \<Rightarrow> unit assembly" where
  "ref_body ctx validate v [] = ret ()"
| "ref_body ctx validate v (d # ds) = bindc (lift_res d) (\<lambda>op. bindc (lift_res (validate v op)) (\<lambda>v'.
     bindc (ref_visit ctx op) (\<lambda>_. ref_body ctx validate v' ds)))"

section \<open>Linking\<close>

definition address :: "nat option list \<Rightarrow> nat \<Rightarrow> nat" where
  "address env l = (case env ! l of Some ip \<Rightarrow> ip | None \<Rightarrow> 0)"

definition link_target :: "nat option list \<Rightarrow> branch_target \<Rightarrow> branch_target" where
  "link_target env bt = bt\<lparr>bt_ip := address env (bt_ip bt)\<rparr>"

definition link_op :: "nat option list \<Rightarrow> op \<Rightarrow> op" where
  "link_op env op = (case op of
     OpBr t \<Rightarrow> OpBr (link_target env t)
   | OpBrIf t \<Rightarrow> OpBrIf (link_target env t)
   | OpBrIfNot t \<Rightarrow> OpBrIfNot (link_target env t)
   | OpBrIfCmp k n t \<Rightarrow> OpBrIfCmp k n (link_target env t)
   | OpBrOnNull t \<Rightarrow> OpBrOnNull (link_target env t)
   | OpBrOnNonNull t \<Rightarrow> OpBrOnNonNull (link_target env t)
   | _ \<Rightarrow> op)"

definition link_code :: "bases \<Rightarrow> nat option list \<Rightarrow> code_arenas \<Rightarrow> code_arenas" where
  "link_code b env c = c\<lparr>ca_ops := take (ba_ops b) (ca_ops c) @ map (link_op env) (drop (ba_ops b) (ca_ops c)),
     ca_br_tables := take (ba_br_tables b) (ca_br_tables c) @ map (link_target env) (drop (ba_br_tables b) (ca_br_tables c))\<rparr>"

definition labelled_new :: "nat \<Rightarrow> code_arenas \<Rightarrow> labelled" where
  "labelled_new n_results code = \<lparr>lb_tr = snd (push_func_frame n_results (translator_new code)), lb_frames = [(0, None)], lb_env = [None]\<rparr>"

definition reference_function :: "compile_ctx \<Rightarrow> (nat \<Rightarrow> bool) \<Rightarrow> nat \<Rightarrow> 'v decoded_body \<Rightarrow> code_arenas \<Rightarrow> (compiled_func \<times> code_arenas) result" where
  "reference_function ctx can_alloc type_idx body code =
     bindr (type_sig ctx type_idx) (\<lambda>(n_params, n_results).
     bindr (db_read_locals body) (\<lambda>v.
     bindr (expand_locals ctx can_alloc (db_locals body) code) (\<lambda>(locals_start, code').
     case ref_body ctx (db_validate body) v (db_operators body) (labelled_new n_results code') of
       (Inl e, _) \<Rightarrow> Inl e
     | (Inr _, y) \<Rightarrow> let t = lb_tr y in bindr (db_finish body (open_frame_kind t)) (\<lambda>_.
         case tl_error t of Some e \<Rightarrow> Inl (Internal e)
         | None \<Rightarrow> Inr (compiled_of type_idx n_params n_results locals_start t, link_code (tl_base t) (lb_env y) (tl_code t))))))"

end
