(* ===== verification/Lower_Patch.thy ===== *)
theory Lower_Patch
  imports Lower_Labels
begin

text \<open>
  The translator with its patches implements the assembler with labels. The two differ in the addresses of the branches only: at any
  time the code of the translator is that of the assembler, linked with the labels placed so far, and the patches of a block are
  exactly the places that carry its label.
\<close>

section \<open>Places of labels\<close>

datatype loc = AtOp nat | AtEdge nat

definition op_label :: "op \<Rightarrow> nat option" where
  "op_label op = (case op of OpBr t \<Rightarrow> Some (bt_ip t) | OpBrIf t \<Rightarrow> Some (bt_ip t) | OpBrIfNot t \<Rightarrow> Some (bt_ip t) | OpBrIfCmp _ _ t \<Rightarrow> Some (bt_ip t)
     | OpBrOnNull t \<Rightarrow> Some (bt_ip t) | OpBrOnNonNull t \<Rightarrow> Some (bt_ip t) | _ \<Rightarrow> None)"

lemma op_label_simps [simp]:
  "op_label (OpBr t) = Some (bt_ip t)" "op_label (OpBrIf t) = Some (bt_ip t)" "op_label (OpBrIfNot t) = Some (bt_ip t)"
  "op_label (OpBrIfCmp k b t) = Some (bt_ip t)" "op_label (OpBrOnNull t) = Some (bt_ip t)" "op_label (OpBrOnNonNull t) = Some (bt_ip t)"
  "op_label (OpNumeric n) = None" "op_label (OpBrTable r) = None" "op_label (OpBrOnCast h w) = None" "op_label (OpBrOnCastFail h w) = None"
  by (simp_all add: op_label_def)

definition put_ip :: "nat \<Rightarrow> op \<Rightarrow> op" where
  "put_ip ip op = (case retarget ip op of Inl _ \<Rightarrow> op | Inr op' \<Rightarrow> op')"

fun label_at :: "op list \<Rightarrow> branch_target list \<Rightarrow> loc \<Rightarrow> nat option" where
  "label_at ops es (AtOp k) = (if k < length ops then op_label (ops ! k) else None)"
| "label_at ops es (AtEdge k) = (if k < length es then Some (bt_ip (es ! k)) else None)"

text \<open>The place a patch refers to.\<close>

definition loc_of :: "op list \<Rightarrow> patch \<Rightarrow> loc option" where
  "loc_of ops p = (if pt_op p < length ops then (case ops ! pt_op p of
     OpBrTable r \<Rightarrow> (case pt_slot p of PsTableCase k \<Rightarrow> Some (AtEdge (btr_base r + k)) | PsTableDefault \<Rightarrow> Some (AtEdge (btr_base r + btr_len r)) | PsSingle \<Rightarrow> None)
   | OpBrOnCast _ tg \<Rightarrow> Some (AtEdge (edge_of tg))
   | OpBrOnCastFail _ tg \<Rightarrow> Some (AtEdge (edge_of tg))
   | op \<Rightarrow> (if op_label op = None then None else Some (AtOp (pt_op p)))) else None)"

definition covered :: "op list \<Rightarrow> branch_target list \<Rightarrow> nat \<Rightarrow> patch list \<Rightarrow> bool" where
  "covered ops es l ps \<longleftrightarrow> (loc_of ops ` set ps) = Some ` {x. label_at ops es x = Some l}"

text \<open>\<open>ow\<close> gives the patches of every label not yet placed.\<close>

definition wired :: "op list \<Rightarrow> branch_target list \<Rightarrow> (nat \<rightharpoonup> patch list) \<Rightarrow> nat option list \<Rightarrow> bool" where
  "wired ops es ow env \<longleftrightarrow> (\<forall>l. l \<in> dom ow \<longleftrightarrow> l < length env \<and> env ! l = None) \<and>
     (\<forall>x l. label_at ops es x = Some l \<longrightarrow> l < length env) \<and> (\<forall>l ps. ow l = Some ps \<longrightarrow> covered ops es l ps)"

lemma loc_of_prefix: "pt_op p < length ops \<Longrightarrow> loc_of (ops @ zs) p = loc_of ops p"
  by (simp add: loc_of_def nth_append)

lemma loc_of_append: "loc_of ops p = Some x \<Longrightarrow> loc_of (ops @ zs) p = Some x"
  by (auto simp: loc_of_def nth_append split: if_splits)

lemma coveredD:
  assumes "covered ops es l ps" and "p \<in> set ps"
  obtains x where "loc_of ops p = Some x" "label_at ops es x = Some l"
proof -
  have "loc_of ops p \<in> Some ` {x. label_at ops es x = Some l}" using assms unfolding covered_def by blast
  then show ?thesis using that by blast
qed

lemma covered_append:
  assumes "covered ops es l ps" and "\<And>x. label_at (ops @ zs) (es @ ds) x = Some l \<longleftrightarrow> label_at ops es x = Some l \<or> Some x \<in> loc_of (ops @ zs) ` set qs"
    and "\<And>q. q \<in> set qs \<Longrightarrow> \<exists>x. loc_of (ops @ zs) q = Some x"
  shows "covered (ops @ zs) (es @ ds) l (ps @ qs)"
proof -
  have p: "loc_of (ops @ zs) ` set ps = loc_of ops ` set ps"
  proof (rule image_cong [OF refl])
    fix p assume "p \<in> set ps"
    then obtain x where "loc_of ops p = Some x" using coveredD [OF assms(1)] by blast
    then show "loc_of (ops @ zs) p = loc_of ops p" by (simp add: loc_of_append)
  qed
  have q: "loc_of (ops @ zs) ` set qs \<subseteq> range Some" using assms(3) by auto
  have u: "Some ` {x. A x \<or> Some x \<in> S} = Some ` {x. A x} \<union> S" if "S \<subseteq> range Some" for A :: "loc \<Rightarrow> bool" and S using that by auto
  show ?thesis unfolding covered_def assms(2) u [OF q] set_append image_Un p using assms(1) by (simp add: covered_def)
qed

lemma label_at_append: "label_at ops es x = Some l \<Longrightarrow> label_at (ops @ zs) (es @ ds) x = Some l"
  by (cases x) (auto simp: nth_append split: if_splits)

section \<open>Growing code\<close>

definition add_to :: "nat \<Rightarrow> patch \<Rightarrow> (nat \<rightharpoonup> patch list) \<Rightarrow> nat \<rightharpoonup> patch list" where
  "add_to l p ow = (case ow l of None \<Rightarrow> ow | Some ps \<Rightarrow> ow(l \<mapsto> ps @ [p]))"

lemma add_to_apply: "add_to l p ow k = (if k = l then map_option (\<lambda>ps. ps @ [p]) (ow l) else ow k)"
  by (auto simp: add_to_def split: option.split)

lemma dom_add_to [simp]: "dom (add_to l p ow) = dom ow"
  by (auto simp: add_to_apply dom_def)

lemma wired_plain:
  assumes "wired ops es ow env" and "op_label op = None"
  shows "wired (ops @ [op]) es ow env"
proof -
  have l: "label_at (ops @ [op]) es x = label_at ops es x" for x
    using assms(2) by (cases x) (auto simp: nth_append)
  have "covered (ops @ [op]) (es @ []) k (ps @ [])" if "covered ops es k ps" for k ps
    by (rule covered_append) (use that l in auto)
  then show ?thesis using assms(1) l by (simp add: wired_def)
qed

lemma wired_branch:
  assumes w: "wired ops es ow env" and op: "op_label op = Some l" and l: "l < length env"
  shows "wired (ops @ [op]) es (add_to l \<lparr>pt_op = length ops, pt_slot = PsSingle\<rparr> ow) env"
proof -
  let ?p = "\<lparr>pt_op = length ops, pt_slot = PsSingle\<rparr>"
  have at: "label_at (ops @ [op]) es x = (if x = AtOp (length ops) then Some l else label_at ops es x)" for x
    using op by (cases x) (auto simp: nth_append)
  have loc: "loc_of (ops @ [op]) ?p = Some (AtOp (length ops))"
    using op by (auto simp: loc_of_def op_label_def split: op.splits)
  have "covered (ops @ [op]) (es @ []) l (ps @ [?p])" if "covered ops es l ps" for ps
    by (rule covered_append) (use that at loc in auto)
  moreover have "covered (ops @ [op]) (es @ []) k (ps @ [])" if "covered ops es k ps" "k \<noteq> l" for k ps
    by (rule covered_append) (use that at in auto)
  ultimately show ?thesis using w l at unfolding wired_def dom_add_to by (auto simp: add_to_apply split: if_splits)
qed

lemma wired_fuse:
  assumes w: "wired ops es ow env" and ne: "ops \<noteq> []" and last: "last ops = OpNumeric n"
    and op: "op = OpBrIfCmp k neg bt" and l: "bt_ip bt = l" "l < length env"
  shows "wired (ops[length ops - 1 := op]) es (add_to l \<lparr>pt_op = length ops - 1, pt_slot = PsSingle\<rparr> ow) env"
proof -
  obtain init where ops: "ops = init @ [OpNumeric n]" using ne last by (metis append_butlast_last_id)
  have upd: "ops[length ops - 1 := op] = init @ [op]" by (simp add: ops)
  have at0: "label_at ops es x = label_at init es x" for x
  proof (cases x)
    case (AtOp j)
    then show ?thesis by (cases "j < length init"; cases "j = length init") (simp_all add: ops nth_append)
  qed simp
  have loc0: "loc_of init p = Some x" if "loc_of ops p = Some x" for p x
  proof (cases "pt_op p < length init")
    case True
    then show ?thesis using that loc_of_prefix [OF True] by (simp only: ops)
  next
    case False
    then have "loc_of (init @ [OpNumeric n]) p = None" by (cases "pt_op p = length init") (simp_all add: loc_of_def)
    then show ?thesis using that by (simp only: ops option.distinct)
  qed
  have "covered init es k ps" if c: "covered ops es k ps" for k ps
  proof -
    have "loc_of init ` set ps = loc_of ops ` set ps"
    proof (rule image_cong [OF refl])
      fix p assume "p \<in> set ps"
      then obtain x where "loc_of ops p = Some x" using coveredD [OF c] by blast
      then show "loc_of init p = loc_of ops p" by (simp add: loc0)
    qed
    then show ?thesis using c at0 by (simp add: covered_def)
  qed
  then have "wired init es ow env" using w at0 by (simp add: wired_def)
  from wired_branch [OF this, of op l] have b: "wired (init @ [op]) es (add_to l \<lparr>pt_op = length init, pt_slot = PsSingle\<rparr> ow) env"
    using op l by simp
  have "length ops - 1 = length init" by (simp add: ops)
  then show ?thesis using b upd by (simp only:)
qed

text \<open>A table: its edges and its operator appear together.\<close>

fun add_edges :: "nat \<Rightarrow> nat \<Rightarrow> (nat \<times> patch_slot) list \<Rightarrow> (nat \<rightharpoonup> patch list) \<Rightarrow> nat \<rightharpoonup> patch list" where
  "add_edges n k [] ow = ow"
| "add_edges n k ((l, slot) # ls) ow = add_edges n (Suc k) ls (add_to l \<lparr>pt_op = n, pt_slot = slot\<rparr> ow)"

lemma add_edges_apply: "add_edges n k ls ow l = map_option (\<lambda>ps. ps @ map (\<lambda>(_, slot). \<lparr>pt_op = n, pt_slot = slot\<rparr>) (filter (\<lambda>(l', _). l' = l) ls)) (ow l)"
  by (induction ls arbitrary: k ow) (auto simp: add_to_apply option.map_comp option.map_ident comp_def split: prod.split)

lemma wired_edges:
  assumes w: "wired ops es ow env" and op: "op_label op = None" and l: "\<And>l slot. (l, slot) \<in> set ls \<Longrightarrow> l < length env"
    and ds: "map bt_ip ds = map fst ls"
    and loc: "\<And>k. k < length ls \<Longrightarrow> loc_of (ops @ [op]) \<lparr>pt_op = length ops, pt_slot = snd (ls ! k)\<rparr> = Some (AtEdge (length es + k))"
  shows "wired (ops @ [op]) (es @ ds) (add_edges (length ops) k0 ls ow) env"
proof -
  have len: "length ds = length ls" using ds by (metis length_map)
  have bt: "bt_ip (ds ! k) = fst (ls ! k)" if "k < length ls" for k using ds that len by (metis nth_map)
  have at: "label_at (ops @ [op]) (es @ ds) x = (case x of AtOp k \<Rightarrow> label_at ops es x
      | AtEdge k \<Rightarrow> if k < length es then label_at ops es x else if k < length es + length ls then Some (fst (ls ! (k - length es))) else None)" for x
    using op bt by (cases x) (auto simp: nth_append len)
  have in_env: "fst (ls ! k) < length env" if "k < length ls" for k
    using l [of "fst (ls ! k)" "snd (ls ! k)"] that by simp
  have "covered (ops @ [op]) (es @ ds) j (ps @ map (\<lambda>(_, slot). \<lparr>pt_op = length ops, pt_slot = slot\<rparr>) (filter (\<lambda>(l', _). l' = j) ls))"
    if c: "covered ops es j ps" for j ps
  proof (rule covered_append [OF c])
    let ?qs = "map (\<lambda>(_, slot). \<lparr>pt_op = length ops, pt_slot = slot\<rparr>) (filter (\<lambda>(l', _). l' = j) ls)"
    have q: "set ?qs = {\<lparr>pt_op = length ops, pt_slot = snd (ls ! k)\<rparr> | k. k < length ls \<and> fst (ls ! k) = j}"
      by (auto simp: in_set_conv_nth image_iff) (metis fst_conv snd_conv prod.collapse)+
    have img: "loc_of (ops @ [op]) ` set ?qs = {Some (AtEdge (length es + k)) | k. k < length ls \<and> fst (ls ! k) = j}"
      unfolding q using loc by force
    show "\<And>q. q \<in> set ?qs \<Longrightarrow> \<exists>x. loc_of (ops @ [op]) q = Some x" unfolding q using loc by auto
    fix x
    show "label_at (ops @ [op]) (es @ ds) x = Some j \<longleftrightarrow> label_at ops es x = Some j \<or> Some x \<in> loc_of (ops @ [op]) ` set ?qs"
      unfolding img at by (cases x) (auto intro!: exI [where x = "case x of AtEdge k \<Rightarrow> k - length es | _ \<Rightarrow> 0"])
  qed
  moreover have "j < length env" if j: "label_at (ops @ [op]) (es @ ds) x = Some j" for x j
  proof -
    have w1: "label_at ops es x = Some j \<Longrightarrow> j < length env" using w by (auto simp: wired_def)
    show ?thesis using j w1 in_env unfolding at by (cases x) (auto simp del: label_at.simps split: if_splits)
  qed
  ultimately show ?thesis using w unfolding wired_def by (auto simp: add_edges_apply dom_def)
qed

section \<open>Labels come and go\<close>

lemma wired_new_label:
  assumes "wired ops es ow env"
  shows "wired ops es (ow(length env \<mapsto> [])) (env @ [None])"
proof -
  have "covered ops es (length env) []" using assms by (auto simp: wired_def covered_def)
  then show ?thesis using assms by (auto simp: wired_def nth_append less_Suc_eq split: if_splits)
qed

lemma wired_new_placed: "wired ops es ow env \<Longrightarrow> wired ops es ow (env @ [Some ip])"
  by (auto simp: wired_def nth_append less_Suc_eq split: if_splits)

lemma wired_place: "wired ops es ow env \<Longrightarrow> l < length env \<Longrightarrow> wired ops es (ow(l := None)) (env[l := Some ip])"
  by (auto simp: wired_def nth_list_update split: if_splits)

section \<open>Patching is linking\<close>

definition fops :: "translator \<Rightarrow> op list" where
  "fops t = drop (ba_ops (tl_base t)) (ca_ops (tl_code t))"

definition fedges :: "translator \<Rightarrow> branch_target list" where
  "fedges t = drop (ba_br_tables (tl_base t)) (ca_br_tables (tl_code t))"

definition based :: "translator \<Rightarrow> bool" where
  "based t \<longleftrightarrow> ba_ops (tl_base t) \<le> length (ca_ops (tl_code t)) \<and> ba_br_tables (tl_base t) \<le> length (ca_br_tables (tl_code t))"

definition with_code :: "op list \<Rightarrow> branch_target list \<Rightarrow> ctrl_frame list \<Rightarrow> translator \<Rightarrow> translator" where
  "with_code ops es C t = t\<lparr>tl_code := (tl_code t)\<lparr>ca_ops := take (ba_ops (tl_base t)) (ca_ops (tl_code t)) @ ops,
     ca_br_tables := take (ba_br_tables (tl_base t)) (ca_br_tables (tl_code t)) @ es\<rparr>, tl_ctrl := C\<rparr>"

definition put_ops :: "(loc \<Rightarrow> nat) \<Rightarrow> op list \<Rightarrow> op list" where
  "put_ops a ops = map (\<lambda>k. put_ip (a (AtOp k)) (ops ! k)) [0..<length ops]"

definition put_edges :: "(loc \<Rightarrow> nat) \<Rightarrow> branch_target list \<Rightarrow> branch_target list" where
  "put_edges a es = map (\<lambda>k. (es ! k)\<lparr>bt_ip := a (AtEdge k)\<rparr>) [0..<length es]"

definition relink :: "nat option list \<Rightarrow> ctrl_frame list \<Rightarrow> translator \<Rightarrow> translator" where
  "relink env C t = with_code (map (link_op env) (fops t)) (map (link_target env) (fedges t)) C t"

lemma put_ip_simps [simp]:
  "put_ip ip (OpBr t) = OpBr (t\<lparr>bt_ip := ip\<rparr>)" "put_ip ip (OpBrIf t) = OpBrIf (t\<lparr>bt_ip := ip\<rparr>)" "put_ip ip (OpBrIfNot t) = OpBrIfNot (t\<lparr>bt_ip := ip\<rparr>)"
  "put_ip ip (OpBrIfCmp k b t) = OpBrIfCmp k b (t\<lparr>bt_ip := ip\<rparr>)" "put_ip ip (OpBrOnNull t) = OpBrOnNull (t\<lparr>bt_ip := ip\<rparr>)"
  "put_ip ip (OpBrOnNonNull t) = OpBrOnNonNull (t\<lparr>bt_ip := ip\<rparr>)"
  by (simp_all add: put_ip_def retarget_def)

lemma labelled_cases:
  assumes "op_label op = Some l"
  obtains t where "op = OpBr t" "bt_ip t = l" | t where "op = OpBrIf t" "bt_ip t = l" | t where "op = OpBrIfNot t" "bt_ip t = l"
    | k b t where "op = OpBrIfCmp k b t" "bt_ip t = l" | t where "op = OpBrOnNull t" "bt_ip t = l" | t where "op = OpBrOnNonNull t" "bt_ip t = l"
  using assms by (cases op) (simp_all add: op_label_def)

lemma put_ip_plain: "op_label op = None \<Longrightarrow> put_ip ip op = op"
  by (cases op) (simp_all add: put_ip_def retarget_def)

lemma put_ip_label [simp]: "op_label (put_ip ip op) = map_option (\<lambda>_. ip) (op_label op)"
  by (cases "op_label op") (auto simp: put_ip_plain elim!: labelled_cases)

lemma put_ip_twice [simp]: "put_ip ip (put_ip j op) = put_ip ip op"
  by (cases "op_label op") (auto simp: put_ip_plain elim!: labelled_cases)

lemma retarget_put: "op_label op = Some l \<Longrightarrow> retarget ip op = Inr (put_ip ip op)"
  by (auto simp: retarget_def elim!: labelled_cases)

lemma link_op_put: "link_op env op = (case op_label op of None \<Rightarrow> op | Some l \<Rightarrow> put_ip (address env l) op)"
proof (cases "op_label op")
  case None
  then show ?thesis by (cases op) (simp_all add: link_op_def)
next
  case (Some l)
  then show ?thesis by (auto simp: link_op_def link_target_def elim!: labelled_cases)
qed

lemma patch_ip_single:
  assumes "op_label op = Some l"
  shows "(case op of OpBrTable rng \<Rightarrow> f rng | OpBrOnCast h tg \<Rightarrow> g tg | OpBrOnCastFail h tg \<Rightarrow> g tg | _ \<Rightarrow> c) = c"
  using assms by (auto elim!: labelled_cases)

lemma length_put [simp]: "length (put_ops a ops) = length ops" "length (put_edges a es) = length es"
  by (simp_all add: put_ops_def put_edges_def)

lemma put_update:
  "k < length ops \<Longrightarrow> (put_ops a ops)[k := put_ip ip (ops ! k)] = put_ops (a(AtOp k := ip)) ops"
  "k < length es \<Longrightarrow> (put_edges a es)[k := (es ! k)\<lparr>bt_ip := ip\<rparr>] = put_edges (a(AtEdge k := ip)) es"
  by (auto simp: put_ops_def put_edges_def nth_list_update intro!: nth_equalityI)

lemma put_other [simp]: "put_ops (a(AtEdge k := ip)) ops = put_ops a ops" "put_edges (a(AtOp k := ip)) es = put_edges a es"
  by (simp_all add: put_ops_def put_edges_def)

lemma with_code_simps [simp]:
  "tl_base (with_code ops es C t) = tl_base t" "tl_ctrl (with_code ops es C t) = C" "tl_height (with_code ops es C t) = tl_height t"
  "tl_reachable (with_code ops es C t) = tl_reachable t" "tl_fusable_cmp (with_code ops es C t) = tl_fusable_cmp t"
  "tl_error (with_code ops es C t) = tl_error t" "tl_max_operands (with_code ops es C t) = tl_max_operands t"
  "ca_handlers (tl_code (with_code ops es C t)) = ca_handlers (tl_code t)" "ca_local_types (tl_code (with_code ops es C t)) = ca_local_types (tl_code t)"
  "ca_big_memargs (tl_code (with_code ops es C t)) = ca_big_memargs (tl_code t)"
  by (simp_all add: with_code_def)

lemma with_code_lists:
  assumes "based t"
  shows "ca_ops (tl_code (with_code ops es C t)) = take (ba_ops (tl_base t)) (ca_ops (tl_code t)) @ ops"
    and "ca_br_tables (tl_code (with_code ops es C t)) = take (ba_br_tables (tl_base t)) (ca_br_tables (tl_code t)) @ es"
    and "fops (with_code ops es C t) = ops" and "fedges (with_code ops es C t) = es" and "next_ip (with_code ops es C t) = length ops"
    and "based (with_code ops es C t)"
  using assms by (simp_all add: with_code_def fops_def fedges_def next_ip_def based_def)

lemma with_code_twice: "based t \<Longrightarrow> with_code ops es C (with_code ops' es' C' t) = with_code ops es C t"
  by (simp add: with_code_def based_def)

lemma op_ref_with: "based t \<Longrightarrow> k < length ops \<Longrightarrow> op_ref k (with_code ops es C t) = (Inr (ops ! k), with_code ops es C t)"
  by (simp add: op_ref_def index_at_def with_code_lists nth_append based_def)

lemma op_mut_with: "based t \<Longrightarrow> k < length ops \<Longrightarrow> op_mut k op (with_code ops es C t) = (Inr (), with_code (ops[k := op]) es C t)"
  by (simp add: op_mut_def op_ref_with) (simp add: set_ops_def with_code_def based_def list_update_append)

lemma edge_mut_with: "based t \<Longrightarrow> k < length es \<Longrightarrow> edge_mut k f (with_code ops es C t) = (Inr (), with_code ops (es[k := f (es ! k)]) C t)"
  by (simp add: edge_mut_def index_at_def with_code_lists nth_append based_def)
    (simp add: set_edges_def with_code_def based_def list_update_append)

lemma nth_put [simp]: "k < length ops \<Longrightarrow> put_ops a ops ! k = put_ip (a (AtOp k)) (ops ! k)" "k < length es \<Longrightarrow> put_edges a es ! k = (es ! k)\<lparr>bt_ip := a (AtEdge k)\<rparr>"
  by (simp_all add: put_ops_def put_edges_def)

lemma edge_put:
  assumes "based t" and "k < length es"
  shows "edge_mut k (\<lambda>bt. bt\<lparr>bt_ip := ip\<rparr>) (with_code (put_ops a ops) (put_edges a es) C t) =
    (Inr (), with_code (put_ops (a(AtEdge k := ip)) ops) (put_edges (a(AtEdge k := ip)) es) C t)"
  using assms put_update(2) [of k es a ip] by (simp add: edge_mut_with)

lemma patch_ip_put:
  assumes b: "based t" and loc: "loc_of ops p = Some x" and x: "label_at ops es x = Some l"
  shows "patch_ip ip p (with_code (put_ops a ops) (put_edges a es) C t) =
    (Inr (), with_code (put_ops (a(x := ip)) ops) (put_edges (a(x := ip)) es) C t)"
proof -
  let ?op = "ops ! pt_op p" and ?t = "with_code (put_ops a ops) (put_edges a es) C t"
  have k: "pt_op p < length ops" using loc by (auto simp: loc_of_def split: if_splits)
  have at: "op_ref (pt_op p) ?t = (Inr (put_ip (a (AtOp (pt_op p))) ?op), ?t)" using k b by (simp add: op_ref_with)
  show ?thesis
  proof (cases "op_label ?op")
    case (Some j)
    then have "x = AtOp (pt_op p)" using loc k by (auto simp: loc_of_def elim!: labelled_cases)
    moreover have "op_label (put_ip (a (AtOp (pt_op p))) ?op) = Some (a (AtOp (pt_op p)))" using Some by simp
    ultimately show ?thesis using at k b put_update(1) [OF k, of a ip]
      by (simp add: patch_ip_def patch_ip_single retarget_put op_mut_with)
  next
    case None
    then have at': "op_ref (pt_op p) ?t = (Inr ?op, ?t)" using at by (simp add: put_ip_plain)
    show ?thesis
    proof (cases "\<exists>e. x = AtEdge e")
      case True
      then obtain e where e: "x = AtEdge e" "e < length es" using x by (auto split: if_splits)
      note m = edge_put [OF b e(2), of ip a ops C]
      show ?thesis using loc k None at' m e(1) unfolding patch_ip_def
        by (cases ?op; cases "pt_slot p") (simp_all add: loc_of_def)
    next
      case False
      then show ?thesis using loc k None by (cases ?op; cases "pt_slot p") (auto simp: loc_of_def)
    qed
  qed
qed

lemma patch_all_put:
  assumes b: "based t"
  shows "(\<And>p. p \<in> set ps \<Longrightarrow> \<exists>x l. loc_of ops p = Some x \<and> label_at ops es x = Some l) \<Longrightarrow>
    patch_all ip ps (with_code (put_ops a ops) (put_edges a es) C t) =
      (Inr (), with_code (put_ops (\<lambda>x. if Some x \<in> loc_of ops ` set ps then ip else a x) ops)
        (put_edges (\<lambda>x. if Some x \<in> loc_of ops ` set ps then ip else a x) es) C t)"
proof (induction ps arbitrary: a)
  case (Cons p ps)
  obtain x l where x: "loc_of ops p = Some x" "label_at ops es x = Some l" using Cons.prems [of p] by auto
  have eq: "(\<lambda>y. if Some y \<in> loc_of ops ` set ps then ip else (a(x := ip)) y) = (\<lambda>y. if Some y \<in> loc_of ops ` set (p # ps) then ip else a y)"
    by (auto simp: x fun_eq_iff)
  have "patch_all ip ps (with_code (put_ops (a(x := ip)) ops) (put_edges (a(x := ip)) es) C t) =
      (Inr (), with_code (put_ops (\<lambda>y. if Some y \<in> loc_of ops ` set (p # ps) then ip else a y) ops)
        (put_edges (\<lambda>y. if Some y \<in> loc_of ops ` set (p # ps) then ip else a y) es) C t)"
    unfolding eq [symmetric] by (rule Cons.IH) (use Cons.prems in auto)
  then show ?case by (simp add: patch_ip_put [OF b x])
qed simp

definition address_at :: "nat option list \<Rightarrow> op list \<Rightarrow> branch_target list \<Rightarrow> loc \<Rightarrow> nat" where
  "address_at env ops es x = (case label_at ops es x of Some l \<Rightarrow> address env l | None \<Rightarrow> 0)"

lemma link_put:
  "map (link_op env) ops = put_ops (address_at env ops es) ops" "map (link_target env) es = put_edges (address_at env ops es) es"
  by (auto simp: put_ops_def put_edges_def link_op_put link_target_def address_at_def put_ip_plain intro!: nth_equalityI split: option.split)

lemma patch_all_relink:
  assumes b: "based t" and w: "wired (fops t) (fedges t) ow env" and l: "ow l = Some ps"
  shows "patch_all ip ps (relink env C t) = (Inr (), relink (env[l := Some ip]) C t)"
proof -
  let ?ops = "fops t" and ?es = "fedges t" and ?env = "env[l := Some ip]"
  have c: "covered ?ops ?es l ps" and len: "l < length env" using w l by (auto simp: wired_def)
  have "(\<lambda>x. if Some x \<in> loc_of ?ops ` set ps then ip else address_at env ?ops ?es x) = address_at ?env ?ops ?es"
  proof
    fix x
    have "Some x \<in> loc_of ?ops ` set ps \<longleftrightarrow> label_at ?ops ?es x = Some l" using c by (auto simp: covered_def)
    then show "(if Some x \<in> loc_of ?ops ` set ps then ip else address_at env ?ops ?es x) = address_at ?env ?ops ?es x"
      using len by (auto simp: address_at_def address_def nth_list_update split: option.split)
  qed
  moreover have "\<exists>x l. loc_of ?ops p = Some x \<and> label_at ?ops ?es x = Some l" if "p \<in> set ps" for p
    by (rule coveredD [OF c that]) blast
  ultimately show ?thesis unfolding relink_def
    by (simp add: link_put(1) [of _ ?ops ?es] link_put(2) [of _ ?es ?ops] patch_all_put [OF b])
qed

end
