(* ===== verification/Lower_Sim.thy ===== *)
theory Lower_Sim
  imports Lower_Patch
begin

text \<open>
  The simulation between the translator and the assembler with labels, operator by operator.
\<close>

section \<open>Open blocks\<close>

definition strip :: "ctrl_frame \<Rightarrow> ctrl_frame" where
  "strip f = f\<lparr>ct_end_patches := [], ct_else_patch := None\<rparr>"

definition labs :: "nat \<times> nat option \<Rightarrow> nat list" where
  "labs = (\<lambda>(l, els). l # (case els of None \<Rightarrow> [] | Some e \<Rightarrow> [e]))"

definition labels_of :: "(nat \<times> nat option) list \<Rightarrow> nat list" where
  "labels_of L = concat (map labs L)"

definition frame_ok :: "(nat \<rightharpoonup> patch list) \<Rightarrow> nat option list \<Rightarrow> ctrl_frame \<Rightarrow> nat \<times> nat option \<Rightarrow> bool" where
  "frame_ok ow env f = (\<lambda>(l, els). l < length env \<and>
     (if ct_kind f = BkLoop then env ! l = Some (ct_start_ip f) \<and> ct_end_patches f = [] else ow l = Some (ct_end_patches f)) \<and>
     (case els of None \<Rightarrow> ct_else_patch f = None
      | Some e \<Rightarrow> ct_kind f = BkIf \<and> e < length env \<and> (\<exists>i. ct_else_patch f = Some i \<and> ow e = Some [\<lparr>pt_op = i, pt_slot = PsSingle\<rparr>])))"

text \<open>\<open>X\<close> are labels whose block is being closed.\<close>

definition open_ok :: "(nat \<times> patch list) list \<Rightarrow> ctrl_frame list \<Rightarrow> (nat \<times> nat option) list \<Rightarrow> (nat \<rightharpoonup> patch list) \<Rightarrow> nat option list \<Rightarrow> bool" where
  "open_ok X C L ow env \<longleftrightarrow> list_all2 (frame_ok ow env) C L \<and> (\<forall>(l, ps) \<in> set X. ow l = Some ps) \<and>
     distinct (labels_of L @ map fst X) \<and> dom ow \<subseteq> set (labels_of L @ map fst X)"

definition fusion_ok :: "translator \<Rightarrow> bool" where
  "fusion_ok t \<longleftrightarrow> (\<forall>k. tl_fusable_cmp t = Some k \<longrightarrow> fops t \<noteq> [] \<and> last (fops t) = OpNumeric (NI32Rel k))"

definition sim :: "(nat \<times> patch list) list \<Rightarrow> translator \<Rightarrow> labelled \<Rightarrow> bool" where
  "sim X t y \<longleftrightarrow> (\<exists>C ow. t = relink (lb_env y) C (lb_tr y) \<and> map strip C = tl_ctrl (lb_tr y) \<and> based (lb_tr y) \<and> fusion_ok (lb_tr y) \<and>
     wired (fops (lb_tr y)) (fedges (lb_tr y)) ow (lb_env y) \<and> open_ok X C (lb_frames y) ow (lb_env y))"

lemma labels_of_append [simp]: "labels_of (L @ M) = labels_of L @ labels_of M"
  by (simp add: labels_of_def)

lemma labels_of_one [simp]: "labels_of [(l, els)] = l # (case els of None \<Rightarrow> [] | Some e \<Rightarrow> [e])" "labels_of [] = []"
  by (simp_all add: labels_of_def labs_def)

lemma labels_of_nth: "i < length L \<Longrightarrow> fst (L ! i) \<in> set (labels_of L)"
proof (induction L arbitrary: i)
  case (Cons x L)
  then show ?case by (cases i; cases x) (auto simp: labels_of_def labs_def)
qed simp

section \<open>Straight-line operators\<close>

text \<open>The entries of the pool an operator refers to.\<close>

definition pool_use :: "op \<Rightarrow> nat" where
  "pool_use op = (case op of OpBrTable r \<Rightarrow> Suc (btr_base r + btr_len r) | OpBrOnCast _ tg \<Rightarrow> Suc (edge_of tg) | OpBrOnCastFail _ tg \<Rightarrow> Suc (edge_of tg) | _ \<Rightarrow> 0)"

definition straight_op :: "op \<Rightarrow> bool" where
  "straight_op op \<longleftrightarrow> op_label op = None \<and> pool_use op = 0"

definition plain_step :: "translator \<Rightarrow> translator \<Rightarrow> bool" where
  "plain_step t t' \<longleftrightarrow> tl_base t' = tl_base t \<and> tl_ctrl t' = tl_ctrl t \<and> ca_br_tables (tl_code t') = ca_br_tables (tl_code t) \<and>
     (\<exists>zs. ca_ops (tl_code t') = ca_ops (tl_code t) @ zs \<and> (\<forall>z \<in> set zs. straight_op z)) \<and> (fusion_ok t \<longrightarrow> fusion_ok t')"

definition plain :: "'a lowering \<Rightarrow> bool" where
  "plain a \<longleftrightarrow> (\<forall>t env C. based t \<longrightarrow> plain_step t (snd (a t)) \<and> a (relink env C t) = (fst (a t), relink env C (snd (a t))))"

lemma plain_step_refl [simp]: "plain_step t t"
  by (simp add: plain_step_def)

lemma plain_step_trans: "plain_step t u \<Longrightarrow> plain_step u v \<Longrightarrow> plain_step t v"
  by (fastforce simp: plain_step_def)

lemma plain_step_based: "plain_step t u \<Longrightarrow> based t \<Longrightarrow> based u"
  by (auto simp: plain_step_def based_def)

lemma plainD: "plain a \<Longrightarrow> based t \<Longrightarrow> plain_step t (snd (a t)) \<and> a (relink env C t) = (fst (a t), relink env C (snd (a t)))"
  by (simp add: plain_def)

named_theorems plain_intros

lemma plain_bind [plain_intros]:
  assumes "plain a" and "\<And>x. plain (f x)"
  shows "plain (bindc a f)"
  unfolding plain_def
proof (intro allI impI)
  fix t env C assume b: "based t"
  obtain r u where u: "a t = (r, u)" by fastforce
  have a: "plain_step t u" "a (relink env C t) = (r, relink env C u)" using plainD [OF assms(1) b] u by simp_all
  show "plain_step t (snd (bindc a f t)) \<and> bindc a f (relink env C t) = (fst (bindc a f t), relink env C (snd (bindc a f t)))"
  proof (cases r)
    case (Inl e)
    then show ?thesis using a u by (simp add: bindc_def)
  next
    case (Inr x)
    have "plain_step u (snd (f x u)) \<and> f x (relink env C u) = (fst (f x u), relink env C (snd (f x u)))"
      by (rule plainD [OF assms(2) plain_step_based [OF a(1) b]])
    then show ?thesis using a u Inr by (auto simp: bindc_def intro: plain_step_trans)
  qed
qed

lemma plain_simple [plain_intros]: "plain (ret x)" "plain (fail e)" "plain (lift_res r)"
  by (simp_all add: plain_def lift_res_def)

lemma relink_scalars [simp]:
  "tl_base (relink env C t) = tl_base t" "tl_ctrl (relink env C t) = C" "tl_height (relink env C t) = tl_height t"
  "tl_reachable (relink env C t) = tl_reachable t" "tl_fusable_cmp (relink env C t) = tl_fusable_cmp t" "tl_error (relink env C t) = tl_error t"
  "tl_max_operands (relink env C t) = tl_max_operands t" "ca_handlers (tl_code (relink env C t)) = ca_handlers (tl_code t)"
  "ca_local_types (tl_code (relink env C t)) = ca_local_types (tl_code t)" "ca_big_memargs (tl_code (relink env C t)) = ca_big_memargs (tl_code t)"
  by (simp_all add: relink_def)

lemma relink_lists:
  assumes "based t"
  shows "fops (relink env C t) = map (link_op env) (fops t)" "fedges (relink env C t) = map (link_target env) (fedges t)"
    "next_ip (relink env C t) = next_ip t" "based (relink env C t)" "length (ca_ops (tl_code (relink env C t))) = length (ca_ops (tl_code t))"
    "length (ca_br_tables (tl_code (relink env C t))) = length (ca_br_tables (tl_code t))"
  using assms by (simp_all add: relink_def with_code_lists) (simp_all add: fops_def fedges_def based_def next_ip_def)

lemma plain_emit [plain_intros]: "straight_op op \<Longrightarrow> plain (emit op)"
proof -
  assume st: "straight_op op"
  then have op: "op_label op = None" by (simp add: straight_op_def)
  have l: "link_op env op = op" for env by (simp add: link_op_put op)
  have fu: "fusable_cmp_of op = Some k \<Longrightarrow> op = OpNumeric (NI32Rel k)" for k
    by (auto simp: fusable_cmp_of_def split: op.splits numeric_op.splits)
  show ?thesis unfolding plain_def
  proof (intro allI impI conjI)
    fix t env C assume b: "based t"
    show "plain_step t (snd (emit op t))"
      using b fu st by (auto simp: plain_step_def emit_def set_ops_def fusion_ok_def fops_def based_def putc_def)
    show "emit op (relink env C t) = (fst (emit op t), relink env C (snd (emit op t)))"
      using b l by (simp add: emit_def putc_def set_ops_def relink_def with_code_def fops_def fedges_def based_def)
  qed
qed

lemma plain_put:
  assumes "\<And>t. tl_base (f t) = tl_base t \<and> tl_ctrl (f t) = tl_ctrl t \<and> ca_br_tables (tl_code (f t)) = ca_br_tables (tl_code t) \<and>
      ca_ops (tl_code (f t)) = ca_ops (tl_code t) \<and> (tl_fusable_cmp (f t) = tl_fusable_cmp t \<or> tl_fusable_cmp (f t) = None)"
    and "\<And>t env C. f (relink env C t) = relink env C (f t)"
  shows "plain (putc f)"
  unfolding plain_def
proof (intro allI impI conjI)
  fix t env C
  show "plain_step t (snd (putc f t))" using assms(1) [of t] by (auto simp: plain_step_def fusion_ok_def fops_def putc_def)
  show "putc f (relink env C t) = (fst (putc f t), relink env C (snd (putc f t)))" using assms(2) by (simp add: putc_def)
qed

lemma relink_update:
  "(relink env C t)\<lparr>tl_height := h\<rparr> = relink env C (t\<lparr>tl_height := h\<rparr>)" "(relink env C t)\<lparr>tl_reachable := r\<rparr> = relink env C (t\<lparr>tl_reachable := r\<rparr>)"
  "(relink env C t)\<lparr>tl_fusable_cmp := c\<rparr> = relink env C (t\<lparr>tl_fusable_cmp := c\<rparr>)" "(relink env C t)\<lparr>tl_error := e\<rparr> = relink env C (t\<lparr>tl_error := e\<rparr>)"
  "(relink env C t)\<lparr>tl_max_operands := m\<rparr> = relink env C (t\<lparr>tl_max_operands := m\<rparr>)"
  by (simp_all add: relink_def with_code_def fops_def fedges_def)

lemma plain_heights [plain_intros]: "plain (hpush n)" "plain (hpop n)" "plain (set_height h)" "plain (set_reachable r)" "plain no_fusion"
  unfolding hpush_def hpop_def set_height_def set_reachable_def no_fusion_def
  by (rule plain_put; simp add: latch_def relink_update split: option.split)+

lemma plain_memarg [plain_intros]: "plain (memarg m)"
  by (auto simp: plain_def plain_step_def memarg_def fusion_ok_def fops_def fedges_def relink_def with_code_def)

lemma plain_if_reachable [plain_intros]: "plain a \<Longrightarrow> plain (if_reachable a)"
  by (simp add: plain_def if_reachable_def)

lemma plain_if [plain_intros]: "plain a \<Longrightarrow> plain b \<Longrightarrow> plain (if c then a else b)"
  by simp

lemma plain_split [plain_intros]: "(\<And>x y. plain (f x y)) \<Longrightarrow> plain (case p of (x, y) \<Rightarrow> f x y)"
  by (cases p) simp

lemma plain_helpers [plain_intros]:
  assumes "straight_op op"
  shows "plain (binop op)" "plain (unop op)" "plain (storeop op)" "plain (constop op)" "plain (popop n op)"
  unfolding binop_def unop_def storeop_def constop_def popop_def by (intro plain_intros assms)+

lemma straight_ops [simp]:
  "straight_op (OpNumeric n)" "straight_op OpNop" "straight_op OpDrop" "straight_op OpSelect" "straight_op (OpLocalGet i)" "straight_op (OpLocalSet i)"
  "straight_op (OpLocalTee i)" "straight_op (OpGlobalGet i)" "straight_op (OpGlobalSet i)" "straight_op (OpMemoryGrow m)"
  "straight_op (OpTableGrow m)" "straight_op (OpMemory mo)" "straight_op (OpTable ta)" "straight_op (OpRef rf)" "straight_op (OpGc g)"
  "straight_op (OpArray a)" "straight_op (OpCast c)" "straight_op (OpCall f)" "straight_op (OpCallIndirect ty tb)" "straight_op (OpCallRef ty)"
  "straight_op (OpReturnCall f)" "straight_op (OpReturnCallIndirect ty tb)" "straight_op (OpReturnCallRef ty)" "straight_op (OpThrow tg)"
  "straight_op OpThrowRef" "straight_op OpUnreachable" "straight_op (OpI32Const v)" "straight_op (OpI64Const w)"
  "straight_op (OpF32Const v)" "straight_op (OpF64Const w)"
  by (simp_all add: straight_op_def op_label_def pool_use_def)

definition straight :: "operator \<Rightarrow> bool" where
  "straight op \<longleftrightarrow> (case op of VBlock _ \<Rightarrow> False | VLoop _ \<Rightarrow> False | VIf _ \<Rightarrow> False | VElse \<Rightarrow> False | VEnd \<Rightarrow> False | VTryTable _ _ \<Rightarrow> False | VBr _ \<Rightarrow> False
     | VBrIf _ \<Rightarrow> False | VBrTable _ _ \<Rightarrow> False | VReturn \<Rightarrow> False | VBrOnNull _ \<Rightarrow> False | VBrOnNonNull _ \<Rightarrow> False | VBrOnCast _ _ \<Rightarrow> False
     | VBrOnCastFail _ _ \<Rightarrow> False | _ \<Rightarrow> True)"

lemma plain_groups:
  "plain (visit_memory mo)" "plain (visit_table ta)" "plain (visit_struct ctx g)" "plain (visit_array ar)"
  subgoal by (cases mo) (simp_all add: visit_memory_def plain_intros)
  subgoal by (cases ta) (simp_all add: visit_table_def plain_intros)
  subgoal by (cases g) (simp_all add: visit_struct_def plain_intros)
  subgoal by (cases ar) (simp_all add: visit_array_def plain_intros)
  done

lemma plain_calls:
  "plain (lower_call ctx f)" "plain (lower_call_indirect ctx ty tb)" "plain (lower_call_ref ctx ty)" "plain (lower_return_call ctx f)"
  "plain (lower_return_call_indirect ctx ty tb)" "plain (lower_return_call_ref ctx ty)" "plain (lower_throw tg)" "plain lower_throw_ref" "plain lower_unreachable"
  unfolding lower_call_def lower_call_indirect_def lower_call_ref_def lower_return_call_def lower_return_call_indirect_def lower_return_call_ref_def
    lower_throw_def lower_throw_ref_def lower_unreachable_def
  by (intro plain_intros; simp)+

lemma plain_straight: "straight op \<Longrightarrow> plain (visit_operator ctx op)"
  by (cases op) (simp_all add: straight_def visit_operator_def visit_control_def visit_numeric_def visit_nop_def visit_const_def visit_drop_def visit_select_def
      lower_select_def visit_typed_select_multi_def visit_local_get_def visit_local_set_def visit_local_tee_def visit_global_get_def visit_global_set_def
      visit_memory_grow_def visit_table_grow_def visit_ref_null_def visit_ref_func_def visit_ref_is_null_def visit_ref_as_non_null_def
      visit_ref_test_def visit_ref_cast_def visit_ref_eq_def visit_any_convert_extern_def visit_extern_convert_any_def plain_groups plain_calls plain_intros)

lemma wired_plains:
  assumes "wired ops es ow env" and "\<forall>z \<in> set zs. op_label z = None"
  shows "wired (ops @ zs) es ow env"
  using assms(2)
proof (induction zs rule: rev_induct)
  case (snoc z zs)
  then show ?case using wired_plain [of "ops @ zs" es ow env z] by simp
qed (simp add: assms(1))

lemma sim_plain:
  assumes "plain a" and "sim X t y" and "a t = (r, t')"
  shows "\<exists>y'. on_tr a y = (r, y') \<and> sim X t' y' \<and> fedges (lb_tr y') = fedges (lb_tr y)"
proof -
  obtain C ow where s: "t = relink (lb_env y) C (lb_tr y)" "map strip C = tl_ctrl (lb_tr y)" "based (lb_tr y)" "fusion_ok (lb_tr y)"
    "wired (fops (lb_tr y)) (fedges (lb_tr y)) ow (lb_env y)" "open_ok X C (lb_frames y) ow (lb_env y)"
    using assms(2) by (auto simp: sim_def)
  obtain u where u: "a (lb_tr y) = (r, u)" "plain_step (lb_tr y) u" "t' = relink (lb_env y) C u"
    using plainD [OF assms(1) s(3), of "lb_env y" C] assms(3) s(1) by (cases "a (lb_tr y)") auto
  obtain zs where zs: "ca_ops (tl_code u) = ca_ops (tl_code (lb_tr y)) @ zs" "\<forall>z \<in> set zs. op_label z = None"
    using u(2) by (auto simp: plain_step_def straight_op_def)
  have l: "fops u = fops (lb_tr y) @ zs" "fedges u = fedges (lb_tr y)" "tl_ctrl u = tl_ctrl (lb_tr y)" "fusion_ok u"
    using u(2) zs(1) s(3,4) by (auto simp: fops_def fedges_def plain_step_def based_def)
  then have "sim X t' (y\<lparr>lb_tr := u\<rparr>)"
    unfolding sim_def using u s plain_step_based [OF u(2) s(3)] wired_plains [OF s(5) zs(2)] by (intro exI [of _ C] exI [of _ ow]) simp
  then show ?thesis using u(1) l(2) by (auto simp: on_tr_def)
qed

section \<open>Branches\<close>

lemma open_ok_len: "open_ok X C L ow env \<Longrightarrow> length L = length C"
  by (auto simp: open_ok_def dest: list_all2_lengthD)

lemma open_ok_nth: "open_ok X C L ow env \<Longrightarrow> i < length C \<Longrightarrow> frame_ok ow env (C ! i) (L ! i)"
  by (auto simp: open_ok_def list_all2_conv_all_nth)

lemma labs_disjoint:
  assumes "distinct (labels_of L)" and "i < length L" and "j < length L" and "i \<noteq> j"
  shows "set (labs (L ! i)) \<inter> set (labs (L ! j)) = {}"
proof -
  have ne: "[] \<notin> set (map labs L)" by (auto simp: labs_def)
  then have "removeAll [] (map labs L) = map labs L" by simp
  then have "distinct (map labs L)" "\<forall>ys zs. ys \<in> set (map labs L) \<and> zs \<in> set (map labs L) \<and> ys \<noteq> zs \<longrightarrow> set ys \<inter> set zs = {}"
    using assms(1) unfolding labels_of_def distinct_concat_iff by auto
  moreover have "labs (L ! i) \<noteq> labs (L ! j)" using calculation(1) assms(2-4) by (metis length_map nth_eq_iff_index_eq nth_map)
  ultimately show ?thesis using assms(2,3) by auto
qed

lemma labs_distinct: "distinct (labels_of L) \<Longrightarrow> i < length L \<Longrightarrow> distinct (labs (L ! i))"
  by (auto simp: labels_of_def distinct_concat_iff)

lemma frame_ok_other:
  assumes "frame_ok ow env f lb" and "l \<notin> set (labs lb)"
  shows "frame_ok (add_to l p ow) env f lb"
  using assms by (auto simp: frame_ok_def labs_def add_to_apply split: prod.splits option.splits if_splits)

lemma open_add:
  assumes o: "open_ok X C L ow env" and i: "i < length C" and kind: "ct_kind (C ! i) \<noteq> BkLoop"
  shows "open_ok X (C[i := add_patch p (C ! i)]) L (add_to (fst (L ! i)) p ow) env"
proof -
  have len: "length L = length C" by (rule open_ok_len [OF o])
  have d: "distinct (labels_of L)" "distinct (labels_of L @ map fst X)" using o by (simp_all add: open_ok_def)
  let ?l = "fst (L ! i)"
  have "frame_ok (add_to ?l p ow) env (C[i := add_patch p (C ! i)] ! j) (L ! j)" if j: "j < length C" for j
  proof (cases "j = i")
    case True
    obtain l els where L: "L ! i = (l, els)" by fastforce
    have "distinct (labs (L ! i))" by (rule labs_distinct [OF d(1)]) (simp add: len i)
    then show ?thesis using open_ok_nth [OF o i] True i kind L
      by (auto simp: frame_ok_def add_to_apply add_patch_def labs_def split: option.splits)
  next
    case False
    have "?l \<in> set (labs (L ! i))" by (cases "L ! i") (simp add: labs_def)
    then have "?l \<notin> set (labs (L ! j))" using labs_disjoint [OF d(1), of i j] False i j len by auto
    then show ?thesis using frame_ok_other [OF open_ok_nth [OF o j]] False by simp
  qed
  moreover have "add_to ?l p ow k = Some ps" if "(k, ps) \<in> set X" for k ps
  proof -
    have "k \<noteq> ?l" using d(2) labels_of_nth [of i L] i len that by force
    then show ?thesis using o that by (auto simp: open_ok_def add_to_apply)
  qed
  ultimately show ?thesis using o len unfolding open_ok_def by (auto simp: list_all2_conv_all_nth)
qed

lemma branch_to_relink:
  assumes "map strip C = tl_ctrl t"
  shows "branch_to depth (relink env C t) = branch_to depth t"
proof -
  have "length (tl_ctrl t) = length C" using assms by (metis length_map)
  moreover have "get_at (tl_ctrl t) i = map_option strip (get_at C i)" for i by (simp add: assms [symmetric] get_at_def)
  ultimately show ?thesis unfolding branch_to_def
    by (auto simp: bindr_def ok_or_def label_arity_def strip_def split: option.split sum.split)
qed

lemma branch_to_frame:
  assumes b: "branch_to depth t = Inr (bt, fr)" and C: "map strip C = tl_ctrl t"
  shows "length C - 1 - depth < length C \<and> (if ct_kind (C ! (length C - 1 - depth)) = BkLoop
    then fr = None \<and> bt_ip bt = ct_start_ip (C ! (length C - 1 - depth)) else fr = Some (length C - 1 - depth) \<and> bt_ip bt = 0)"
proof -
  have len: "length (tl_ctrl t) = length C" using C by (metis length_map)
  have nth: "i < length C \<Longrightarrow> tl_ctrl t ! i = strip (C ! i)" for i by (simp add: C [symmetric])
  show ?thesis using b len unfolding branch_to_def
    by (auto simp: bindr_def ok_or_def strip_def get_at_def nth split: option.splits sum.splits if_splits bind_splits)
qed

definition branching :: "(branch_target \<Rightarrow> op) \<Rightarrow> bool" where
  "branching mk \<longleftrightarrow> (\<forall>bt. op_label (mk bt) = Some (bt_ip bt)) \<and> (\<forall>env bt. link_op env (mk bt) = mk (link_target env bt)) \<and> (\<forall>bt. fusable_cmp_of (mk bt) = None)"

lemma branching_ops [simp]: "branching OpBr" "branching OpBrIf" "branching OpBrIfNot" "branching (OpBrIfCmp k b)" "branching OpBrOnNull" "branching OpBrOnNonNull"
  by (simp_all add: branching_def link_op_def fusable_cmp_of_def)

lemma emit_relink:
  assumes "based t" and "fusable_cmp_of (link_op env op) = fusable_cmp_of op"
  shows "emit (link_op env op) (relink env C t) = (Inr (), relink env C (snd (emit op t)))"
  using assms by (simp add: emit_def putc_def set_ops_def relink_def with_code_def fops_def fedges_def based_def)

lemma relink_ctrl: "relink env C (t\<lparr>tl_ctrl := D\<rparr>) = relink env C t"
  by (simp add: relink_def with_code_def fops_def fedges_def)

lemma frame_mut_relink: "i < length C \<Longrightarrow> frame_mut i f (relink env C t) = (Inr (), relink env (C[i := f (C ! i)]) t)"
  by (simp add: frame_mut_def index_at_def relink_def with_code_def)

lemma emit_facts:
  assumes "based t"
  shows "fops (snd (emit op t)) = fops t @ [op]" "fedges (snd (emit op t)) = fedges t" "based (snd (emit op t))" "tl_ctrl (snd (emit op t)) = tl_ctrl t"
    "fst (emit op t) = Inr ()" "tl_fusable_cmp (snd (emit op t)) = fusable_cmp_of op" "next_ip t = length (fops t)"
  using assms by (simp_all add: emit_def putc_def set_ops_def fops_def fedges_def based_def next_ip_def)

lemma op_mut_facts:
  assumes "based t" and "k < length (fops t)"
  shows "op_mut k op t = (Inr (), with_code ((fops t)[k := op]) (fedges t) (tl_ctrl t) t)"
proof -
  have "with_code (fops t) (fedges t) (tl_ctrl t) t = t" by (simp add: with_code_def fops_def fedges_def)
  then show ?thesis using op_mut_with [OF assms, of op "fedges t" "tl_ctrl t"] by simp
qed

lemma op_mut_relink:
  assumes "based t" and "k < length (fops t)"
  shows "op_mut k (link_op env op) (relink env C t) = (Inr (), relink env C (snd (op_mut k op t)))"
  using assms by (simp add: relink_def op_mut_with op_mut_facts with_code_lists with_code_twice map_update)

lemma strip_mark [simp]: "strip (add_patch p f) = (strip f)\<lparr>ct_end_targeted := True\<rparr>"
  by (simp add: strip_def add_patch_def)

text \<open>The target of a branch to frame \<open>i\<close>, with an address on one side and a label on the other.\<close>

lemma link_frame:
  assumes w: "wired ops es ow env" and o: "open_ok X C L ow env" and i: "i < length C"
    and ip: "bt_ip bt = (if ct_kind (C ! i) = BkLoop then ct_start_ip (C ! i) else 0)"
  shows "link_target env (bt\<lparr>bt_ip := fst (L ! i)\<rparr>) = bt" "fst (L ! i) < length env"
proof -
  obtain l els where L: "L ! i = (l, els)" by fastforce
  note f = open_ok_nth [OF o i, unfolded frame_ok_def L prod.case]
  have "address env l = bt_ip bt"
  proof (cases "ct_kind (C ! i) = BkLoop")
    case False
    then have "l \<in> dom ow" using f by auto
    then have "env ! l = None" using w by (simp add: wired_def)
    then show ?thesis using ip False by (simp add: address_def)
  qed (use f ip in \<open>simp add: address_def\<close>)
  then show "link_target env (bt\<lparr>bt_ip := fst (L ! i)\<rparr>) = bt" by (simp add: link_target_def L)
  show "fst (L ! i) < length env" using f L by simp
qed

lemma open_loop:
  assumes w: "wired ops es ow env" and o: "open_ok X C L ow env" and i: "i < length C" "ct_kind (C ! i) = BkLoop"
  shows "add_to (fst (L ! i)) p ow = ow"
proof -
  obtain l els where L: "L ! i = (l, els)" by fastforce
  have "env ! l \<noteq> None" "l < length env" using open_ok_nth [OF o i(1)] i(2) L by (auto simp: frame_ok_def)
  then have "l \<notin> dom ow" using w by (auto simp: wired_def)
  then have "ow l = None" by (simp add: domIff)
  then show ?thesis by (simp add: L add_to_def)
qed

text \<open>The effect on the frames, on both sides.\<close>

lemma register_marks:
  fixes n :: nat
  assumes i: "i < length C" and fr: "fr = (if ct_kind (C ! i) = BkLoop then None else Some i)" and C: "map strip C = tl_ctrl u" and y: "lb_tr y = u"
  defines "C' \<equiv> (if ct_kind (C ! i) = BkLoop then C else C[i := add_patch \<lparr>pt_op = n, pt_slot = PsSingle\<rparr> (C ! i)])"
  shows "\<exists>y'. register_branch fr n PsSingle (relink env C u) = (Inr (), relink env C' (lb_tr y')) \<and> targeted fr y = (Inr (), y') \<and>
    map strip C' = tl_ctrl (lb_tr y') \<and> lb_tr y' = u\<lparr>tl_ctrl := tl_ctrl (lb_tr y')\<rparr> \<and> lb_frames y' = lb_frames y \<and> lb_env y' = lb_env y"
proof (cases "ct_kind (C ! i) = BkLoop")
  case True
  then show ?thesis using fr C y by (auto simp: register_branch_def targeted_def C'_def)
next
  case False
  have u: "length (tl_ctrl u) = length C" "tl_ctrl u ! i = strip (C ! i)" using C i by (metis length_map, metis nth_map)
  let ?f = "\<lambda>f. f\<lparr>ct_end_targeted := True\<rparr>"
  have "targeted fr y = (Inr (), y\<lparr>lb_tr := u\<lparr>tl_ctrl := (tl_ctrl u)[i := ?f (tl_ctrl u ! i)]\<rparr>\<rparr>)"
    using False fr u i y by (simp add: targeted_def on_tr_def frame_mut_def index_at_def)
  moreover have "map strip C' = (tl_ctrl u)[i := ?f (tl_ctrl u ! i)]" using C False u(2) by (simp add: C'_def map_update)
  ultimately show ?thesis using False fr i by (simp add: register_branch_def frame_mut_relink C'_def relink_ctrl)
qed

text \<open>A branch to frame \<open>i\<close>: emitted, or fused into the comparison before it.\<close>

definition hits :: "translator \<Rightarrow> nat \<Rightarrow> branch_target \<Rightarrow> nat option \<Rightarrow> bool" where
  "hits t i bt fr \<longleftrightarrow> i < length (tl_ctrl t) \<and> (if ct_kind (tl_ctrl t ! i) = BkLoop then fr = None \<and> bt_ip bt = ct_start_ip (tl_ctrl t ! i)
     else fr = Some i \<and> bt_ip bt = 0)"

lemma sim_register:
  assumes u: "based u" "fops u = ops" "fedges u = es" "tl_ctrl u = tl_ctrl (lb_tr y)" "fusion_ok u"
    and C: "map strip C = tl_ctrl (lb_tr y)" and h: "hits (relink env C (lb_tr y)) i bt fr"
    and w: "wired ops es (add_to (fst (lb_frames y ! i)) \<lparr>pt_op = n, pt_slot = PsSingle\<rparr> ow) env" and env: "env = lb_env y"
    and o: "open_ok X C (lb_frames y) ow env" and w0: "wired ops0 es0 ow env"
  shows "\<exists>t2 y2. register_branch fr n PsSingle (relink env C u) = (Inr (), t2) \<and> targeted fr (y\<lparr>lb_tr := u\<rparr>) = (Inr (), y2) \<and>
    sim X t2 y2 \<and> fedges (lb_tr y2) = es"
proof -
  have i: "i < length C" and fr: "fr = (if ct_kind (C ! i) = BkLoop then None else Some i)"
    using h by (auto simp: hits_def split: if_splits)
  let ?p = "\<lparr>pt_op = n, pt_slot = PsSingle\<rparr>"
  define C' where "C' = (if ct_kind (C ! i) = BkLoop then C else C[i := add_patch ?p (C ! i)])"
  obtain y2 where y2: "register_branch fr n PsSingle (relink env C u) = (Inr (), relink env C' (lb_tr y2))" "targeted fr (y\<lparr>lb_tr := u\<rparr>) = (Inr (), y2)"
    "map strip C' = tl_ctrl (lb_tr y2)" "lb_tr y2 = u\<lparr>tl_ctrl := tl_ctrl (lb_tr y2)\<rparr>" "lb_frames y2 = lb_frames y" "lb_env y2 = lb_env y"
    using register_marks [OF i fr, of u "y\<lparr>lb_tr := u\<rparr>" n env] C u(4) unfolding C'_def by auto
  have same: "fops (lb_tr y2) = ops" "fedges (lb_tr y2) = es" "based (lb_tr y2)" "fusion_ok (lb_tr y2)"
    by (subst y2(4), use u in \<open>simp add: fops_def fedges_def based_def fusion_ok_def\<close>)+
  have "open_ok X C' (lb_frames y) (add_to (fst (lb_frames y ! i)) ?p ow) env"
  proof (cases "ct_kind (C ! i) = BkLoop")
    case True
    then show ?thesis using o open_loop [OF w0 o i True, of ?p] by (simp add: C'_def)
  next
    case False
    then show ?thesis using open_add [OF o i False, of ?p] by (simp add: C'_def)
  qed
  then have "sim X (relink env C' (lb_tr y2)) y2" unfolding sim_def y2(5,6)
    using same y2(3) w env by (intro exI [of _ C'] exI [of _ "add_to (fst (lb_frames y ! i)) ?p ow"]) simp
  then show ?thesis using y2(1,2) same(2) by blast
qed

lemma sim_emit_at:
  assumes s: "sim X t y" and h: "hits t i bt fr" and mk: "branching mk"
  shows "\<exists>t1 t2 y1 y2. emit (mk bt) t = (Inr (), t1) \<and> register_branch fr (next_ip t) PsSingle t1 = (Inr (), t2) \<and>
    on_tr (emit (mk (bt\<lparr>bt_ip := fst (lb_frames y ! i)\<rparr>))) y = (Inr (), y1) \<and> targeted fr y1 = (Inr (), y2) \<and> sim X t2 y2 \<and>
    fedges (lb_tr y2) = fedges (lb_tr y)"
proof -
  obtain C ow where p: "t = relink (lb_env y) C (lb_tr y)" "map strip C = tl_ctrl (lb_tr y)" "based (lb_tr y)" "fusion_ok (lb_tr y)"
    "wired (fops (lb_tr y)) (fedges (lb_tr y)) ow (lb_env y)" "open_ok X C (lb_frames y) ow (lb_env y)"
    using s by (auto simp: sim_def)
  have i: "i < length C" using h p(1) by (simp add: hits_def)
  let ?bt = "bt\<lparr>bt_ip := fst (lb_frames y ! i)\<rparr>"
  note lf = link_frame [OF p(5,6) i, of bt]
  have ip: "bt_ip bt = (if ct_kind (C ! i) = BkLoop then ct_start_ip (C ! i) else 0)" using h p(1) by (simp add: hits_def split: if_splits)
  define u where "u = snd (emit (mk ?bt) (lb_tr y))"
  have l: "link_op (lb_env y) (mk ?bt) = mk bt" using mk lf(1) [OF ip] by (simp add: branching_def)
  have e: "emit (mk bt) t = (Inr (), relink (lb_env y) C u)"
    using emit_relink [where env = "lb_env y" and op = "mk ?bt" and C = C, OF p(3)] mk l p(1) by (simp add: branching_def u_def)
  have uf: "fops u = fops (lb_tr y) @ [mk ?bt]" "fedges u = fedges (lb_tr y)" "based u" "tl_ctrl u = tl_ctrl (lb_tr y)" "fusion_ok u"
    using emit_facts(1-6) [OF p(3), of "mk ?bt"] mk by (simp_all add: u_def fusion_ok_def branching_def)
  have n: "next_ip t = length (fops (lb_tr y))" using emit_facts(7) [OF p(3)] relink_lists(3) [OF p(3)] p(1) by simp
  have w: "wired (fops (lb_tr y) @ [mk ?bt]) (fedges (lb_tr y)) (add_to (fst (lb_frames y ! i)) \<lparr>pt_op = next_ip t, pt_slot = PsSingle\<rparr> ow) (lb_env y)"
    unfolding n by (rule wired_branch [OF p(5)]) (use mk lf(2) [OF ip] in \<open>simp_all add: branching_def\<close>)
  have y1: "on_tr (emit (mk ?bt)) y = (Inr (), y\<lparr>lb_tr := u\<rparr>)" using emit_facts(5) [OF p(3), of "mk ?bt"] by (simp add: on_tr_def u_def split_beta)
  obtain t2 y2 where "register_branch fr (next_ip t) PsSingle (relink (lb_env y) C u) = (Inr (), t2)" "targeted fr (y\<lparr>lb_tr := u\<rparr>) = (Inr (), y2)"
    "sim X t2 y2" "fedges (lb_tr y2) = fedges (lb_tr y)"
    using sim_register [OF uf(3,1,2,4,5) p(2) h [unfolded p(1)] w refl p(6,5)] by auto
  then show ?thesis using e y1 by blast
qed

lemma sim_fuse_at:
  assumes s: "sim X t y" and h: "hits t i bt fr" and f: "fops (lb_tr y) \<noteq> []" "last (fops (lb_tr y)) = OpNumeric n" "tl_fusable_cmp t = None"
  shows "\<exists>t1 t2 y1 y2. op_mut (next_ip t - 1) (OpBrIfCmp k b bt) t = (Inr (), t1) \<and> register_branch fr (next_ip t - 1) PsSingle t1 = (Inr (), t2) \<and>
    on_tr (op_mut (next_ip t - 1) (OpBrIfCmp k b (bt\<lparr>bt_ip := fst (lb_frames y ! i)\<rparr>))) y = (Inr (), y1) \<and> targeted fr y1 = (Inr (), y2) \<and> sim X t2 y2 \<and>
    fedges (lb_tr y2) = fedges (lb_tr y)"
proof -
  obtain C ow where p: "t = relink (lb_env y) C (lb_tr y)" "map strip C = tl_ctrl (lb_tr y)" "based (lb_tr y)" "fusion_ok (lb_tr y)"
    "wired (fops (lb_tr y)) (fedges (lb_tr y)) ow (lb_env y)" "open_ok X C (lb_frames y) ow (lb_env y)"
    using s by (auto simp: sim_def)
  have i: "i < length C" using h p(1) by (simp add: hits_def)
  let ?op = "OpBrIfCmp k b (bt\<lparr>bt_ip := fst (lb_frames y ! i)\<rparr>)"
  define j where "j = next_ip t - 1"
  have fz: "tl_fusable_cmp (lb_tr y) = None" using f(3) p(1) by simp
  have ip: "bt_ip bt = (if ct_kind (C ! i) = BkLoop then ct_start_ip (C ! i) else 0)" using h p(1) by (simp add: hits_def split: if_splits)
  note lf = link_frame [OF p(5,6) i ip]
  have n: "next_ip t = length (fops (lb_tr y))" using emit_facts(7) [OF p(3)] relink_lists(3) [OF p(3)] p(1) by simp
  then have kl: "j < length (fops (lb_tr y))" and jn: "j = length (fops (lb_tr y)) - 1" using f(1) by (simp_all add: j_def)
  define u where "u = snd (op_mut j ?op (lb_tr y))"
  have e: "op_mut j (OpBrIfCmp k b bt) t = (Inr (), relink (lb_env y) C u)"
    using op_mut_relink [OF p(3) kl, of "lb_env y" ?op C] lf(1) p(1) by (simp add: link_op_def u_def)
  have uf: "fops u = (fops (lb_tr y))[j := ?op]" "fedges u = fedges (lb_tr y)" "based u" "tl_ctrl u = tl_ctrl (lb_tr y)" "fusion_ok u"
    using fz by (simp_all add: u_def op_mut_facts [OF p(3) kl] with_code_lists [OF p(3)] fusion_ok_def)
  have w: "wired ((fops (lb_tr y))[j := ?op]) (fedges (lb_tr y)) (add_to (fst (lb_frames y ! i)) \<lparr>pt_op = j, pt_slot = PsSingle\<rparr> ow) (lb_env y)"
    unfolding jn by (rule wired_fuse [OF p(5) f(1,2) refl]) (use lf(2) in simp_all)
  have y1: "on_tr (op_mut j ?op) y = (Inr (), y\<lparr>lb_tr := u\<rparr>)" by (simp add: on_tr_def u_def op_mut_facts [OF p(3) kl])
  obtain t2 y2 where "register_branch fr j PsSingle (relink (lb_env y) C u) = (Inr (), t2)" "targeted fr (y\<lparr>lb_tr := u\<rparr>) = (Inr (), y2)"
    "sim X t2 y2" "fedges (lb_tr y2) = fedges (lb_tr y)"
    using sim_register [OF uf(3,1,2,4,5) p(2) h [unfolded p(1)] w refl p(6,5)] by auto
  then show ?thesis using e y1 unfolding j_def by blast
qed

end
