(* ===== verification/Lower_Branch.thy ===== *)
theory Lower_Branch
  imports Lower_Sim
begin

text \<open>
  The translator and the assembler with labels take the same steps: they fail with the same error or reach related states. Here the
  branches: emitted, fused into a comparison, or with their targets in the pool of edges.
\<close>

section \<open>Steps\<close>

text \<open>Both sides fail with the same error, or both go on in related states; \<open>d\<close> bounds the new edges.\<close>

definition agree :: "nat \<Rightarrow> (nat \<times> patch list) list \<Rightarrow> 'a lowering \<Rightarrow> 'a assembly \<Rightarrow> translator \<Rightarrow> labelled \<Rightarrow> bool" where
  "agree d X a b t y \<longleftrightarrow> (case a t of (Inl e, _) \<Rightarrow> \<exists>y'. b y = (Inl e, y')
     | (Inr x, t') \<Rightarrow> \<exists>y'. b y = (Inr x, y') \<and> sim X t' y' \<and> length (fedges (lb_tr y')) \<le> length (fedges (lb_tr y)) + d)"

lemma agree_plain: "plain a \<Longrightarrow> sim X t y \<Longrightarrow> agree d X a (on_tr a) t y"
  using sim_plain [of a X t y] by (cases "a t") (fastforce simp: agree_def split: sum.split)

lemma agree_cong:
  assumes "a t = a' t'" and "b y = b' y'" and "fedges (lb_tr y') = fedges (lb_tr y)" and "agree d X a' b' t' y'"
  shows "agree d X a b t y"
  using assms(4) unfolding agree_def assms(1-3) .

lemma agree_grow:
  assumes "a t = a' t'" and "b y = b' y'" and "length (fedges (lb_tr y')) \<le> length (fedges (lb_tr y)) + d" and "agree 0 X a' b' t' y'"
  shows "agree d X a b t y"
  using assms(3,4) unfolding agree_def assms(1,2) by (fastforce split: prod.splits sum.splits)

lemma agree_fail: "a t = (Inl e, t') \<Longrightarrow> b y = (Inl e, y') \<Longrightarrow> agree d X (bindc a f) (bindc b g) t y"
  by (simp add: agree_def)

lemma agree_run:
  assumes "a t = (Inr x, t')" and "b y = (Inr z, y')" and "fedges (lb_tr y') = fedges (lb_tr y)" and "agree d X (f x) (g z) t' y'"
  shows "agree d X (bindc a f) (bindc b g) t y"
  by (rule agree_cong [OF _ _ assms(3,4)]) (use assms(1,2) in simp_all)

lemma agree_left: "a t = (Inr x, t') \<Longrightarrow> agree d X (f x) b t' y \<Longrightarrow> agree d X (bindc a f) b t y"
  by (simp add: agree_def)

lemma agree_right: "b y = (Inr x, y') \<Longrightarrow> fedges (lb_tr y') = fedges (lb_tr y) \<Longrightarrow> agree d X a (g x) t y' \<Longrightarrow> agree d X a (bindc b g) t y"
  by (rule agree_cong [where t' = t and y' = y']) simp_all

lemma agree_res: "(\<And>x. r = Inr x \<Longrightarrow> agree d X (f x) (g x) t y) \<Longrightarrow> agree d X (bindc (lift_res r) f) (bindc (lift_res r) g) t y"
  by (cases r) (simp add: agree_def, rule agree_run, auto)

lemma agree_bind:
  assumes "agree d X a b t y" and "\<And>x t' y'. a t = (Inr x, t') \<Longrightarrow> b y = (Inr x, y') \<Longrightarrow> sim X t' y' \<Longrightarrow>
      length (fedges (lb_tr y')) \<le> length (fedges (lb_tr y)) + d \<Longrightarrow> agree e Y (f x) (g x) t' y'"
  shows "agree (d + e) Y (bindc a f) (bindc b g) t y"
proof (cases "a t")
  case (Pair r t')
  show ?thesis
  proof (cases r)
    case (Inl err)
    then show ?thesis using assms(1) Pair by (auto simp: agree_def)
  next
    case (Inr x)
    then obtain y' where y': "b y = (Inr x, y')" "sim X t' y'" "length (fedges (lb_tr y')) \<le> length (fedges (lb_tr y)) + d"
      using assms(1) Pair by (auto simp: agree_def)
    have "agree e Y (f x) (g x) t' y'" using assms(2) Pair Inr y' by blast
    then show ?thesis using Pair Inr y'(1,3) by (fastforce simp: agree_def split: sum.splits prod.splits)
  qed
qed

lemma agree_plain_bind:
  assumes "plain a" and "sim X t y" and "\<And>x t' y'. a t = (Inr x, t') \<Longrightarrow> on_tr a y = (Inr x, y') \<Longrightarrow> sim X t' y' \<Longrightarrow> agree d Y (f x) (g x) t' y'"
  shows "agree d Y (bindc a f) (bindc (on_tr a) g) t y"
proof -
  have "agree (0 + d) Y (bindc a f) (bindc (on_tr a) g) t y" by (rule agree_bind [OF agree_plain [OF assms(1,2)]]) (rule assms(3))
  then show ?thesis by simp
qed

lemma agree_weaken: "agree d X a b t y \<Longrightarrow> d \<le> e \<Longrightarrow> agree e X a b t y"
  by (fastforce simp: agree_def split: sum.splits prod.splits)

lemma agree_ret: "sim X t y \<Longrightarrow> agree d X (ret x) (ret x) t y"
  by (simp add: agree_def)

lemma sim_scalars:
  assumes "sim X t y"
  shows "tl_reachable t = tl_reachable (lb_tr y)" "tl_fusable_cmp t = tl_fusable_cmp (lb_tr y)" "next_ip t = next_ip (lb_tr y)"
    "length (lb_frames y) = length (tl_ctrl t)" "length (tl_ctrl (lb_tr y)) = length (tl_ctrl t)" "fusion_ok (lb_tr y)" "tl_height t = tl_height (lb_tr y)"
    "i < length (tl_ctrl t) \<Longrightarrow> tl_ctrl (lb_tr y) ! i = strip (tl_ctrl t ! i)" "based (lb_tr y)" "tl_base t = tl_base (lb_tr y)"
    "length (ca_br_tables (tl_code t)) = length (ca_br_tables (tl_code (lb_tr y)))"
proof -
  obtain C ow where p: "t = relink (lb_env y) C (lb_tr y)" "map strip C = tl_ctrl (lb_tr y)" "based (lb_tr y)" "fusion_ok (lb_tr y)"
    "open_ok X C (lb_frames y) ow (lb_env y)" using assms by (auto simp: sim_def)
  have len: "length (tl_ctrl (lb_tr y)) = length C" using p(2) by (metis length_map)
  show "length (lb_frames y) = length (tl_ctrl t)" using open_ok_len [OF p(5)] p(1) by simp
  show "i < length (tl_ctrl t) \<Longrightarrow> tl_ctrl (lb_tr y) ! i = strip (tl_ctrl t ! i)" using p(1,2) by (metis nth_map relink_scalars(2))
qed (use assms in \<open>auto simp: sim_def relink_lists dest: arg_cong [of _ _ length]\<close>)

section \<open>Branches\<close>

lemma agree_branch:
  assumes s: "sim X t y" and rest: "\<And>bt fr i. hits t i bt fr \<Longrightarrow> agree d Y (f (bt, fr)) (g (bt\<lparr>bt_ip := fst (lb_frames y ! i)\<rparr>, fr)) t y"
  shows "agree d Y (bindc (branch_target_at depth) f) (bindc (ref_branch depth) g) t y"
proof -
  obtain C where p: "t = relink (lb_env y) C (lb_tr y)" "map strip C = tl_ctrl (lb_tr y)" using s by (auto simp: sim_def)
  have r: "branch_to depth t = branch_to depth (lb_tr y)" unfolding p(1) by (rule branch_to_relink [OF p(2)])
  have len: "length (lb_frames y) = length C" using sim_scalars(4) [OF s] p(1) by simp
  show ?thesis
  proof (cases "branch_to depth (lb_tr y)")
    case (Inl e)
    then show ?thesis using r by (intro agree_fail) (simp_all add: branch_target_at_def ref_branch_def)
  next
    case (Inr q)
    obtain bt fr where q: "q = (bt, fr)" by (cases q)
    have h: "hits t (length C - 1 - depth) bt fr" using branch_to_frame [OF Inr [unfolded q] p(2)] p(1) by (simp add: hits_def)
    have "branch_target_at depth t = (Inr (bt, fr), t)" using r Inr q by (simp add: branch_target_at_def)
    moreover have "ref_branch depth y = (Inr (bt\<lparr>bt_ip := fst (lb_frames y ! (length C - 1 - depth))\<rparr>, fr), y)"
      using Inr q len by (simp add: ref_branch_def)
    ultimately show ?thesis by (rule agree_run) (use rest [OF h] in simp_all)
  qed
qed

lemma agree_emit:
  assumes s: "sim X t y" and h: "hits t i bt fr" and mk: "branching mk" and n: "n = next_ip t"
    and rest: "\<And>t2 y2. sim X t2 y2 \<Longrightarrow> agree d Y a b t2 y2"
  shows "agree d Y (bindc (emit (mk bt)) (\<lambda>_. bindc (register_branch fr n PsSingle) (\<lambda>_. a)))
    (bindc (on_tr (emit (mk (bt\<lparr>bt_ip := fst (lb_frames y ! i)\<rparr>)))) (\<lambda>_. bindc (targeted fr) (\<lambda>_. b))) t y"
proof -
  obtain t1 t2 y1 y2 where e: "emit (mk bt) t = (Inr (), t1)" "register_branch fr (next_ip t) PsSingle t1 = (Inr (), t2)"
    "on_tr (emit (mk (bt\<lparr>bt_ip := fst (lb_frames y ! i)\<rparr>))) y = (Inr (), y1)" "targeted fr y1 = (Inr (), y2)" "sim X t2 y2"
    "fedges (lb_tr y2) = fedges (lb_tr y)" using sim_emit_at [OF s h mk] by blast
  show ?thesis by (rule agree_cong [OF _ _ e(6) rest [OF e(5)]]) (use e(1-4) n in simp_all)
qed

lemma bindc_ret [simp]: "bindc a ret = a"
  by (auto simp: fun_eq_iff bindc_def ret_def split: prod.splits sum.splits)

lemma on_tr_simple [simp]: "on_tr (ret x) = ret x" "on_tr (lift_res r) = lift_res r"
  by (auto simp: fun_eq_iff on_tr_def)

lemma agree_emit_ret:
  assumes "sim X t y" and "hits t i bt fr" and "branching mk" and "n = next_ip t"
  shows "agree d X (bindc (emit (mk bt)) (\<lambda>_. register_branch fr n PsSingle))
    (bindc (on_tr (emit (mk (bt\<lparr>bt_ip := fst (lb_frames y ! i)\<rparr>)))) (\<lambda>_. targeted fr)) t y"
proof -
  have "agree d X (bindc (emit (mk bt)) (\<lambda>_. bindc (register_branch fr n PsSingle) (\<lambda>_. ret ())))
    (bindc (on_tr (emit (mk (bt\<lparr>bt_ip := fst (lb_frames y ! i)\<rparr>)))) (\<lambda>_. bindc (targeted fr) (\<lambda>_. ret ()))) t y"
    by (rule agree_emit [OF assms agree_ret])
  then show ?thesis by simp
qed

lemma agree_br: "sim X t y \<Longrightarrow> agree d X (lower_br depth) (ref_br depth) t y"
  unfolding lower_br_def ref_br_def
  by (rule agree_branch, assumption, simp only: prod.case, rule agree_left, rule getc_apply)
    (erule (1) agree_emit, simp, simp, rule agree_plain, rule plain_intros)

lemma agree_fuse:
  assumes s: "sim X t y" and h: "hits t i bt fr" and k: "tl_fusable_cmp t = Some k"
  shows "agree d X (bindc no_fusion (\<lambda>_. bindc (getc (\<lambda>t. next_ip t - 1)) (\<lambda>i. bindc (op_mut i (OpBrIfCmp k b bt)) (\<lambda>_. register_branch fr i PsSingle))))
    (bindc (on_tr no_fusion) (\<lambda>_. bindc (getc (\<lambda>y. next_ip (lb_tr y) - 1)) (\<lambda>j.
      bindc (on_tr (op_mut j (OpBrIfCmp k b (bt\<lparr>bt_ip := fst (lb_frames y ! i)\<rparr>)))) (\<lambda>_. targeted fr)))) t y"
proof -
  define t0 where "t0 = t\<lparr>tl_fusable_cmp := None\<rparr>"
  define y0 where "y0 = y\<lparr>lb_tr := (lb_tr y)\<lparr>tl_fusable_cmp := None\<rparr>\<rparr>"
  have n: "no_fusion t = (Inr (), t0)" "on_tr no_fusion y = (Inr (), y0)" by (simp_all add: no_fusion_def on_tr_def t0_def y0_def)
  have s0: "sim X t0 y0" using sim_plain [OF plain_heights(5) s n(1)] n(2) by auto
  have h0: "hits t0 i bt fr" using h by (simp add: hits_def t0_def)
  have "fops (lb_tr y) \<noteq> []" "last (fops (lb_tr y)) = OpNumeric (NI32Rel k)" using sim_scalars(2,6) [OF s] k by (auto simp: fusion_ok_def)
  then have f: "fops (lb_tr y0) \<noteq> []" "last (fops (lb_tr y0)) = OpNumeric (NI32Rel k)" "tl_fusable_cmp t0 = None"
    by (simp_all add: fops_def y0_def t0_def)
  have same: "lb_frames y0 = lb_frames y" "fedges (lb_tr y0) = fedges (lb_tr y)" "next_ip (lb_tr y0) = next_ip t0"
    using sim_scalars(3) [OF s0] by (simp_all add: y0_def fedges_def)
  obtain t1 t2 y1 y2 where e: "op_mut (next_ip t0 - 1) (OpBrIfCmp k b bt) t0 = (Inr (), t1)" "register_branch fr (next_ip t0 - 1) PsSingle t1 = (Inr (), t2)"
    "on_tr (op_mut (next_ip t0 - 1) (OpBrIfCmp k b (bt\<lparr>bt_ip := fst (lb_frames y0 ! i)\<rparr>))) y0 = (Inr (), y1)" "targeted fr y1 = (Inr (), y2)"
    "sim X t2 y2" "fedges (lb_tr y2) = fedges (lb_tr y0)" using sim_fuse_at [OF s0 h0 f] by blast
  show ?thesis by (rule agree_cong [OF _ _ _ agree_ret [OF e(5), of _ "()"]]) (use e(1-4,6) n same in simp_all)
qed

lemma agree_fusing:
  assumes s: "sim X t y" and h: "hits t i bt fr"
  shows "agree d X (bindc (getc tl_fusable_cmp) (\<lambda>cmp. case cmp of
       Some kind \<Rightarrow> bindc no_fusion (\<lambda>_. bindc (getc (\<lambda>t. next_ip t - 1)) (\<lambda>i. bindc (op_mut i (OpBrIfCmp kind b bt)) (\<lambda>_. register_branch fr i PsSingle)))
     | None \<Rightarrow> bindc (getc next_ip) (\<lambda>i. bindc (emit (OpBrIf bt)) (\<lambda>_. register_branch fr i PsSingle))))
   (bindc (getc (\<lambda>y. tl_fusable_cmp (lb_tr y))) (\<lambda>cmp. case cmp of
       Some kind \<Rightarrow> bindc (on_tr no_fusion) (\<lambda>_. bindc (getc (\<lambda>y. next_ip (lb_tr y) - 1)) (\<lambda>j.
         bindc (on_tr (op_mut j (OpBrIfCmp kind b (bt\<lparr>bt_ip := fst (lb_frames y ! i)\<rparr>)))) (\<lambda>_. targeted fr)))
     | None \<Rightarrow> bindc (on_tr (emit (OpBrIf (bt\<lparr>bt_ip := fst (lb_frames y ! i)\<rparr>)))) (\<lambda>_. targeted fr))) t y"
proof (rule agree_run [OF getc_apply getc_apply refl], unfold sim_scalars(2) [OF s, symmetric], cases "tl_fusable_cmp t", goal_cases)
  case 1
  show ?case unfolding 1 option.case by (rule agree_left [where x = "next_ip t" and t' = t]) (simp, rule agree_emit_ret [OF s h], simp_all)
next
  case (2 kind)
  show ?case unfolding 2 option.case by (rule agree_fuse [OF s h 2])
qed

lemma agree_br_if: "sim X t y \<Longrightarrow> agree d X (lower_br_if depth) (ref_br_if depth) t y"
  unfolding lower_br_if_def ref_br_if_def
  by (rule agree_plain_bind [OF plain_heights(2)], assumption, rule agree_branch, assumption, simp only: prod.case, rule agree_fusing; assumption)

lemma agree_br_on_null: "sim X t y \<Longrightarrow> agree d X (lower_br_on_null depth) (ref_br_on_null depth) t y"
  unfolding lower_br_on_null_def ref_br_on_null_def
  by (rule agree_plain_bind [OF plain_heights(2)], assumption, rule agree_branch, assumption, simp only: prod.case, rule agree_left, rule getc_apply)
    (erule (1) agree_emit, simp, simp, rule agree_plain, rule plain_intros)

lemma agree_br_on_non_null: "sim X t y \<Longrightarrow> agree d X (lower_br_on_non_null depth) (ref_br_on_non_null depth) t y"
  unfolding lower_br_on_non_null_def ref_br_on_non_null_def
  by (rule agree_branch, assumption, simp only: prod.case, rule agree_left, rule getc_apply)
    (erule (1) agree_emit, simp, simp, rule agree_plain, rule plain_intros)

text \<open>A return is a branch to the end of the function, whose frame is not a loop.\<close>

lemma agree_return:
  assumes s: "sim X t y" and r: "tl_ctrl t \<noteq> []" "ct_kind (tl_ctrl t ! 0) \<noteq> BkLoop"
  shows "agree d X lower_ret ref_ret t y"
proof -
  let ?f = "tl_ctrl t ! 0" and ?g = "tl_ctrl (lb_tr y) ! 0"
  have g: "?g = strip ?f" "tl_ctrl t \<noteq> []" "tl_ctrl (lb_tr y) \<noteq> []" using sim_scalars(4,5,8) [OF s] r by auto
  have c: "ct_result_count ?g = ct_result_count ?f" by (simp add: g strip_def)
  have a: "index_at (tl_ctrl t) 0 = Inr ?f" "index_at (tl_ctrl (lb_tr y)) 0 = Inr ?g" using g by (simp_all add: index_at_def)
  have h: "hits t 0 \<lparr>bt_ip = 0, bt_keep = k, bt_pop = p\<rparr> (Some 0)" for k p using r by (auto simp: hits_def)
  have mut: "frame_mut 0 (add_patch \<lparr>pt_op = i, pt_slot = PsSingle\<rparr>) = register_branch (Some 0) i PsSingle" for i by (simp add: register_branch_def)
  have e: "agree d X (bindc (emit (OpBr \<lparr>bt_ip = 0, bt_keep = k, bt_pop = p\<rparr>)) (\<lambda>_. bindc (register_branch (Some 0) (next_ip t) PsSingle) (\<lambda>_. set_reachable False)))
    (bindc (on_tr (emit (OpBr \<lparr>bt_ip = fst (lb_frames y ! 0), bt_keep = k, bt_pop = p\<rparr>))) (\<lambda>_. bindc (targeted (Some 0)) (\<lambda>_. on_tr (set_reachable False)))) t y" for k p
    using agree_emit [OF s h [of k p] branching_ops(1) refl, of d X "set_reachable False" "on_tr (set_reachable False)"] agree_plain [OF plain_heights(4)] by simp
  show ?thesis unfolding lower_ret_def ref_ret_def mut
  proof (rule agree_run [where x = ?f and z = ?g and t' = t and y' = y], goal_cases)
    case 4
    show ?case unfolding c
    proof (cases "checked_sub (tl_height t) (ct_result_count ?f)", goal_cases)
      case 1
      then show ?case using sim_scalars(7) [OF s] by (intro agree_fail) (simp_all add: on_tr_def checked_sub_def)
    next
      case (2 pop)
      show ?case
      proof (rule agree_run [where x = pop and z = pop and t' = t and y' = y], goal_cases)
        case 4
        show ?case
        proof (rule agree_res, clarify)
          fix k p
          show "agree d X (bindc (getc next_ip) (\<lambda>i. bindc (emit (OpBr \<lparr>bt_ip = 0, bt_keep = k, bt_pop = p\<rparr>))
               (\<lambda>_. bindc (register_branch (Some 0) i PsSingle) (\<lambda>_. set_reachable False))))
             (bindc (getc (\<lambda>y. fst (lb_frames y ! 0))) (\<lambda>l. bindc (on_tr (emit (OpBr \<lparr>bt_ip = l, bt_keep = k, bt_pop = p\<rparr>)))
               (\<lambda>_. bindc (targeted (Some 0)) (\<lambda>_. on_tr (set_reachable False))))) t y"
            by (rule agree_run [OF getc_apply getc_apply refl]) (rule e)
        qed
      qed (use 2 sim_scalars(7) [OF s] in \<open>simp_all add: on_tr_def checked_sub_def split: if_splits\<close>)
    qed
  qed (simp_all add: a on_tr_def)
qed

section \<open>Branch tables\<close>

definition forward :: "ctrl_frame list \<Rightarrow> nat \<Rightarrow> bool" where
  "forward C i \<longleftrightarrow> ct_kind (C ! i) \<noteq> BkLoop"

lemma push_edge_relink:
  assumes "based u" and "link_target env bt' = bt"
  shows "push_edge bt (relink env C u) = (Inr (length (fedges u)), relink env C (set_edges (\<lambda>es. es @ [bt']) u))"
  using assms by (simp add: push_edge_def set_edges_def relink_def with_code_def fops_def fedges_def based_def)

lemma set_edges_facts:
  assumes "based u"
  shows "fops (set_edges (\<lambda>es. es @ ds) u) = fops u" "fedges (set_edges (\<lambda>es. es @ ds) u) = fedges u @ ds" "based (set_edges (\<lambda>es. es @ ds) u)"
    "tl_ctrl (set_edges f u) = tl_ctrl u" "tl_fusable_cmp (set_edges f u) = tl_fusable_cmp u" "fusion_ok (set_edges f u) = fusion_ok u"
    "set_edges f (set_edges g u) = set_edges (\<lambda>es. f (g es)) u" "next_ip (set_edges f u) = next_ip u"
  using assms by (simp_all add: set_edges_def fops_def fedges_def based_def fusion_ok_def next_ip_def)

lemma table_edges_sim:
  assumes o: "open_ok X C L ow env" and w: "wired ops es ow env"
  shows "map strip C = tl_ctrl u \<Longrightarrow> based u \<Longrightarrow>
    (\<exists>e t' y'. table_edges k depths (relink env C u) = (Inl e, t') \<and> ref_table_edges depths \<lparr>lb_tr = u, lb_frames = L, lb_env = env\<rparr> = (Inl e, y')) \<or>
    (\<exists>fs ds. length fs = length depths \<and> map bt_ip ds = map (\<lambda>i. fst (L ! i)) fs \<and> (\<forall>i \<in> set fs. i < length C) \<and>
      table_edges k depths (relink env C u) = (Inr (filter (\<lambda>(i, _). forward C i) (zip fs (map PsTableCase [k..<k + length fs]))), relink env C (set_edges (\<lambda>es. es @ ds) u)) \<and>
      ref_table_edges depths \<lparr>lb_tr = u, lb_frames = L, lb_env = env\<rparr> =
        (Inr (filter (forward C) fs), \<lparr>lb_tr = set_edges (\<lambda>es. es @ ds) u, lb_frames = L, lb_env = env\<rparr>))"
    (is "_ \<Longrightarrow> _ \<Longrightarrow> ?stops k depths u \<or> (\<exists>fs ds. ?goes k depths u fs ds)")
proof (induction depths arbitrary: k u)
  case Nil
  have "set_edges (\<lambda>es. es @ []) u = u" by (simp add: set_edges_def)
  then have "?goes k [] u [] []" by simp
  then show ?case by blast
next
  case (Cons depth depths)
  let ?y = "\<lparr>lb_tr = u, lb_frames = L, lb_env = env\<rparr>"
  have len: "length L = length C" by (rule open_ok_len [OF o])
  have r: "branch_to depth (relink env C u) = branch_to depth u" by (rule branch_to_relink [OF Cons.prems(1)])
  show ?case
  proof (cases "branch_to depth u")
    case (Inl e)
    then have "?stops k (depth # depths) u" using r by (simp add: branch_target_at_def ref_branch_def)
    then show ?thesis ..
  next
    case (Inr q)
    obtain bt fr where q: "q = (bt, fr)" by (cases q)
    define i where "i = length C - 1 - depth"
    define bt' where "bt' = bt\<lparr>bt_ip := fst (L ! i)\<rparr>"
    define u1 where "u1 = set_edges (\<lambda>es. es @ [bt']) u"
    have h: "i < length C" "fr = (if forward C i then Some i else None)" "bt_ip bt = (if ct_kind (C ! i) = BkLoop then ct_start_ip (C ! i) else 0)"
      using branch_to_frame [OF Inr [unfolded q] Cons.prems(1)] by (auto simp: i_def forward_def split: if_splits)
    have l: "link_target env bt' = bt" unfolding bt'_def by (rule link_frame(1) [OF w o h(1,3)])
    have a: "branch_target_at depth (relink env C u) = (Inr (bt, fr), relink env C u)" using r Inr q by (simp add: branch_target_at_def)
    have b: "ref_branch depth ?y = (Inr (bt', fr), ?y)" using Inr q len by (simp add: ref_branch_def i_def bt'_def)
    have p: "push_edge bt (relink env C u) = (Inr (length (fedges u)), relink env C u1)" unfolding u1_def by (rule push_edge_relink [OF Cons.prems(2) l])
    have p': "on_tr (push_edge bt') ?y = (Inr (length (ca_br_tables (tl_code u)) - ba_br_tables (tl_base u)), \<lparr>lb_tr = u1, lb_frames = L, lb_env = env\<rparr>)"
      by (simp add: on_tr_def push_edge_def u1_def)
    note f = set_edges_facts [OF Cons.prems(2)]
    have "?stops (Suc k) depths u1 \<or> (\<exists>fs ds. ?goes (Suc k) depths u1 fs ds)"
      by (rule Cons.IH) (simp_all add: u1_def f Cons.prems)
    then show ?thesis
    proof (elim disjE exE)
      fix e t' y' assume "table_edges (Suc k) depths (relink env C u1) = (Inl e, t') \<and> ref_table_edges depths \<lparr>lb_tr = u1, lb_frames = L, lb_env = env\<rparr> = (Inl e, y')"
      then have "?stops k (depth # depths) u" using a b p p' by simp
      then show ?thesis ..
    next
      fix fs :: "nat list" and ds assume g: "?goes (Suc k) depths u1 fs ds"
      have "?goes k (depth # depths) u (i # fs) (bt' # ds)"
        using g a b p p' h(1,2) f(7) [of "\<lambda>es. es @ ds" "\<lambda>es. es @ [bt']", folded u1_def] by (simp add: bt'_def upt_conv_Cons del: upt_Suc)
      then show ?thesis by blast
    qed
  qed
qed

lemma unplaced_loop:
  assumes "dom ow = {l. l < length env \<and> env ! l = None}" and o: "open_ok X C L ow env" and i: "i < length C" "\<not> forward C i"
  shows "add_to (fst (L ! i)) p ow = ow"
proof -
  obtain l els where L: "L ! i = (l, els)" by fastforce
  have "env ! l \<noteq> None" using open_ok_nth [OF o i(1)] i(2) L by (auto simp: frame_ok_def forward_def)
  then have "l \<notin> dom ow" using assms(1) by simp
  then have "ow l = None" by (simp add: domIff)
  then show ?thesis by (simp add: L add_to_def)
qed

lemma wired_dom: "wired ops es ow env \<Longrightarrow> dom ow = {l. l < length env \<and> env ! l = None}"
  by (auto simp: wired_def)

lemma forward_add [simp]: "forward (C[i := add_patch p (C ! i)]) = forward C"
  by (rule ext) (cases "i < length C", auto simp: forward_def nth_list_update add_patch_def list_update_beyond not_less)

lemma register_all_sim:
  "open_ok X C L ow env \<Longrightarrow> dom ow = {l. l < length env \<and> env ! l = None} \<Longrightarrow> (\<forall>(i, slot) \<in> set qs. i < length C) \<Longrightarrow> map strip C = tl_ctrl u \<Longrightarrow>
    \<exists>C' u'. register_all n (filter (\<lambda>(i, _). forward C i) qs) (relink env C u) = (Inr (), relink env C' u') \<and>
      targeted_all (filter (forward C) (map fst qs)) \<lparr>lb_tr = u, lb_frames = L, lb_env = env\<rparr> = (Inr (), \<lparr>lb_tr = u', lb_frames = L, lb_env = env\<rparr>) \<and>
      map strip C' = tl_ctrl u' \<and> u' = u\<lparr>tl_ctrl := tl_ctrl u'\<rparr> \<and> open_ok X C' L (add_edges n k (map (\<lambda>(i, slot). (fst (L ! i), slot)) qs) ow) env"
proof (induction qs arbitrary: C u ow k)
  case Nil
  then show ?case by (intro exI [of _ C] exI [of _ u]) simp
next
  case (Cons q qs)
  obtain i slot where q: "q = (i, slot)" by fastforce
  let ?p = "\<lparr>pt_op = n, pt_slot = slot\<rparr>"
  have i: "i < length C" using Cons.prems(3) q by simp
  show ?case
  proof (cases "forward C i")
    case False
    then have "add_to (fst (L ! i)) ?p ow = ow" by (rule unplaced_loop [OF Cons.prems(2,1) i])
    then show ?thesis using Cons.IH [OF Cons.prems(1,2) _ Cons.prems(4), of "Suc k"] Cons.prems(3) q False by simp
  next
    case True
    let ?C = "C[i := add_patch ?p (C ! i)]"
    define u1 where "u1 = u\<lparr>tl_ctrl := (tl_ctrl u)[i := (tl_ctrl u ! i)\<lparr>ct_end_targeted := True\<rparr>]\<rparr>"
    have u: "length (tl_ctrl u) = length C" "tl_ctrl u ! i = strip (C ! i)" using Cons.prems(4) i by (metis length_map, metis nth_map)
    have t: "targeted (Some i) \<lparr>lb_tr = u, lb_frames = L, lb_env = env\<rparr> = (Inr (), \<lparr>lb_tr = u1, lb_frames = L, lb_env = env\<rparr>)"
      using u i by (simp add: targeted_def on_tr_def frame_mut_def index_at_def u1_def)
    have m: "frame_mut i (add_patch ?p) (relink env C u) = (Inr (), relink env ?C u1)"
      using frame_mut_relink [OF i] by (simp add: u1_def relink_ctrl)
    have o: "open_ok X ?C L (add_to (fst (L ! i)) ?p ow) env" by (rule open_add [OF Cons.prems(1) i]) (use True in \<open>simp add: forward_def\<close>)
    have st: "map strip ?C = tl_ctrl u1" using Cons.prems(4) u(2) by (simp add: u1_def map_update)
    obtain C' u' where IH: "register_all n (filter (\<lambda>(i, _). forward C i) qs) (relink env ?C u1) = (Inr (), relink env C' u')"
      "targeted_all (filter (forward C) (map fst qs)) \<lparr>lb_tr = u1, lb_frames = L, lb_env = env\<rparr> = (Inr (), \<lparr>lb_tr = u', lb_frames = L, lb_env = env\<rparr>)"
      "map strip C' = tl_ctrl u'" "u' = u1\<lparr>tl_ctrl := tl_ctrl u'\<rparr>"
      "open_ok X C' L (add_edges n (Suc k) (map (\<lambda>(i, slot). (fst (L ! i), slot)) qs) (add_to (fst (L ! i)) ?p ow)) env"
      using Cons.IH [OF o _ _ st, of "Suc k"] Cons.prems(2,3) by auto
    have "u' = u\<lparr>tl_ctrl := tl_ctrl u'\<rparr>" by (subst IH(4)) (simp add: u1_def)
    then show ?thesis using IH m t True q by (intro exI [of _ C'] exI [of _ u']) simp
  qed
qed

text \<open>Several edges, the operator that uses them and its patches, together.\<close>

lemma sim_edges:
  assumes p: "map strip C = tl_ctrl u" "based u" "wired (fops u) (fedges u) ow env" "open_ok X C L ow env"
    and op: "op_label op = None" "fusable_cmp_of op = None" and qs: "\<forall>(i, slot) \<in> set qs. i < length C" and ds: "map bt_ip ds = map (\<lambda>(i, _). fst (L ! i)) qs"
    and loc: "\<And>k. k < length qs \<Longrightarrow> loc_of (fops u @ [op]) \<lparr>pt_op = length (fops u), pt_slot = snd (qs ! k)\<rparr> = Some (AtEdge (length (fedges u) + k))"
  defines "u1 \<equiv> set_edges (\<lambda>es. es @ ds) u"
  shows "\<exists>t1 t2 y1 y2. emit op (relink env C u1) = (Inr (), t1) \<and> register_all (next_ip u) (filter (\<lambda>(i, _). forward C i) qs) t1 = (Inr (), t2) \<and>
    on_tr (emit op) \<lparr>lb_tr = u1, lb_frames = L, lb_env = env\<rparr> = (Inr (), y1) \<and> targeted_all (filter (forward C) (map fst qs)) y1 = (Inr (), y2) \<and>
    sim X t2 y2 \<and> fedges (lb_tr y2) = fedges u @ ds"
proof -
  note f = set_edges_facts [OF p(2)]
  have b: "based u1" "fops u1 = fops u" "fedges u1 = fedges u @ ds" by (simp_all add: u1_def f)
  define u2 where "u2 = snd (emit op u1)"
  note e = emit_facts(1-6) [OF b(1), of op, folded u2_def]
  have link: "link_op env op = op" using op(1) by (simp add: link_op_put)
  have e1: "emit op (relink env C u1) = (Inr (), relink env C u2)" using emit_relink [OF b(1), of env op C] link by (simp add: u2_def)
  have e2: "on_tr (emit op) \<lparr>lb_tr = u1, lb_frames = L, lb_env = env\<rparr> = (Inr (), \<lparr>lb_tr = u2, lb_frames = L, lb_env = env\<rparr>)"
    using e(5) by (simp add: on_tr_def u2_def split_beta)
  let ?ls = "map (\<lambda>(i, slot). (fst (L ! i), slot)) qs"
  have in_env: "l < length env" if m: "(l, slot) \<in> set ?ls" for l slot
  proof -
    obtain i where i: "i < length C" "l = fst (L ! i)" using m qs by auto
    then show ?thesis using open_ok_nth [OF p(4) i(1)] by (auto simp: frame_ok_def split: prod.splits)
  qed
  have w: "wired (fops u @ [op]) (fedges u @ ds) (add_edges (length (fops u)) 0 ?ls ow) env"
    by (rule wired_edges [OF p(3) op(1) in_env]) (use ds loc in \<open>auto simp: split_beta comp_def\<close>)
  have n: "next_ip u = length (fops u)" by (rule emit_facts(7) [OF p(2)])
  have st: "map strip C = tl_ctrl u2" using e(4) p(1) by (simp add: u1_def f)
  obtain C' u' where r: "register_all (next_ip u) (filter (\<lambda>(i, _). forward C i) qs) (relink env C u2) = (Inr (), relink env C' u')"
    "targeted_all (filter (forward C) (map fst qs)) \<lparr>lb_tr = u2, lb_frames = L, lb_env = env\<rparr> = (Inr (), \<lparr>lb_tr = u', lb_frames = L, lb_env = env\<rparr>)"
    "map strip C' = tl_ctrl u'" "u' = u2\<lparr>tl_ctrl := tl_ctrl u'\<rparr>" "open_ok X C' L (add_edges (next_ip u) 0 ?ls ow) env"
    using register_all_sim [OF p(4) wired_dom [OF p(3)] qs st, of "next_ip u" 0] by blast
  have same: "fops u' = fops u @ [op]" "fedges u' = fedges u @ ds" "based u'" "fusion_ok u'"
    by (subst r(4), use e b op(2) in \<open>simp add: fops_def fedges_def based_def fusion_ok_def\<close>)+
  have "sim X (relink env C' u') \<lparr>lb_tr = u', lb_frames = L, lb_env = env\<rparr>" unfolding sim_def
    using same r(3,5) w n by (intro exI [of _ C'] exI [of _ "add_edges (length (fops u)) 0 ?ls ow"]) simp
  then show ?thesis using e1 e2 r(1,2) same(2) by auto
qed

lemma edge_target:
  assumes o: "open_ok X C L ow env" and w: "wired ops es ow env" and C: "map strip C = tl_ctrl u" and b: "branch_to depth u = Inr (bt, fr)"
  obtains i bt' where "i < length C" "fr = (if forward C i then Some i else None)" "link_target env bt' = bt" "bt_ip bt' = fst (L ! i)"
    "ref_branch depth \<lparr>lb_tr = u, lb_frames = L, lb_env = env\<rparr> = (Inr (bt', fr), \<lparr>lb_tr = u, lb_frames = L, lb_env = env\<rparr>)"
proof -
  let ?i = "length C - 1 - depth"
  have h: "?i < length C" "fr = (if forward C ?i then Some ?i else None)" "bt_ip bt = (if ct_kind (C ! ?i) = BkLoop then ct_start_ip (C ! ?i) else 0)"
    using branch_to_frame [OF b C] by (auto simp: forward_def split: if_splits)
  show ?thesis
    by (rule that [OF h(1,2) link_frame(1) [OF w o h(1,3)]]) (use b open_ok_len [OF o] in \<open>simp_all add: ref_branch_def\<close>)
qed

lemma table_slots:
  assumes "length fs = n" and "k < Suc n"
  shows "loc_of (ops @ [OpBrTable \<lparr>btr_base = m, btr_len = n\<rparr>]) \<lparr>pt_op = length ops,
    pt_slot = snd ((zip fs (map PsTableCase [0..<0 + length fs]) @ [(i, PsTableDefault)]) ! k)\<rparr> = Some (AtEdge (m + k))"
proof -
  have "snd ((zip fs (map PsTableCase [0..<0 + length fs]) @ [(i, PsTableDefault)]) ! k) = (if k = n then PsTableDefault else PsTableCase k)"
    using assms by (simp add: nth_append)
  then show ?thesis by (simp add: loc_of_def)
qed

lemma table_targets:
  fixes fs :: "nat list"
  assumes "map bt_ip ds = map (\<lambda>i. fst (L ! i)) fs" and "bt_ip bt = fst (L ! i)"
  shows "map bt_ip (ds @ [bt]) = map (\<lambda>(i, _). fst (L ! i)) (zip fs (map PsTableCase [0..<0 + length fs]) @ [(i, PsTableDefault)])"
proof -
  have "map (\<lambda>(i, _). fst (L ! i)) (zip fs (map PsTableCase [0..<0 + length fs])) = map (\<lambda>i. fst (L ! i)) fs"
    by (rule nth_equalityI) simp_all
  then show ?thesis using assms by simp
qed

lemma sim_table:
  assumes p: "map strip C = tl_ctrl u" "based u" "wired (fops u) (fedges u) ow env" "open_ok X C L ow env"
  defines "t \<equiv> relink env C u" and "y \<equiv> \<lparr>lb_tr = u, lb_frames = L, lb_env = env\<rparr>"
  shows "agree (Suc (length cases)) X
    (bindc (table_edges 0 cases) (\<lambda>patches. bindc (branch_target_at dflt) (\<lambda>(bt, frame). bindc (push_edge bt) (\<lambda>_. bindc (getc next_ip) (\<lambda>i.
       bindc (emit (OpBrTable \<lparr>btr_base = length (fedges u), btr_len = length cases\<rparr>)) (\<lambda>_.
       bindc (register_all i (patches @ (case frame of Some f \<Rightarrow> [(f, PsTableDefault)] | None \<Rightarrow> []))) (\<lambda>_. set_reachable False)))))))
    (bindc (ref_table_edges cases) (\<lambda>frames. bindc (ref_branch dflt) (\<lambda>(bt, frame). bindc (on_tr (push_edge bt)) (\<lambda>_.
       bindc (on_tr (emit (OpBrTable \<lparr>btr_base = length (fedges u), btr_len = length cases\<rparr>))) (\<lambda>_.
       bindc (targeted_all (frames @ (case frame of Some i \<Rightarrow> [i] | None \<Rightarrow> []))) (\<lambda>_. on_tr (set_reachable False))))))) t y"
    (is "agree ?d X ?a ?b t y")
  using table_edges_sim [OF p(4,3,1,2), of 0 cases]
proof (elim disjE exE conjE)
  fix e t' y' assume "table_edges 0 cases (relink env C u) = (Inl e, t')" "ref_table_edges cases \<lparr>lb_tr = u, lb_frames = L, lb_env = env\<rparr> = (Inl e, y')"
  then show ?thesis unfolding t_def y_def by (rule agree_fail)
next
  fix fs :: "nat list" and ds
  let ?y = "\<lambda>u. \<lparr>lb_tr = u, lb_frames = L, lb_env = env\<rparr>" and ?cs = "zip fs (map PsTableCase [0..<0 + length fs])"
  assume len: "length fs = length cases" and ds: "map bt_ip ds = map (\<lambda>i. fst (L ! i)) fs" and in_C: "\<forall>i \<in> set fs. i < length C"
    and a: "table_edges 0 cases (relink env C u) = (Inr (filter (\<lambda>(i, _). forward C i) ?cs), relink env C (set_edges (\<lambda>es. es @ ds) u))"
    and b: "ref_table_edges cases (?y u) = (Inr (filter (forward C) fs), ?y (set_edges (\<lambda>es. es @ ds) u))"
  note f = set_edges_facts [OF p(2)]
  define u1 where "u1 = set_edges (\<lambda>es. es @ ds) u"
  have u1: "map strip C = tl_ctrl u1" "based u1" "fedges u1 = fedges u @ ds" "next_ip u1 = next_ip u" by (simp_all add: u1_def f p(1))
  have r: "branch_to dflt (relink env C u1) = branch_to dflt u1" by (rule branch_to_relink [OF u1(1)])
  show ?thesis unfolding t_def y_def
  proof (cases "branch_to dflt u1")
    case (Inl e)
    then show "agree ?d X ?a ?b (relink env C u) (?y u)" using a b r
      by (simp add: agree_def branch_target_at_def ref_branch_def u1_def)
  next
    case (Inr q)
    obtain bt fr where q: "q = (bt, fr)" by (cases q)
    obtain i bt' where i: "i < length C" "fr = (if forward C i then Some i else None)" "link_target env bt' = bt" "bt_ip bt' = fst (L ! i)"
      "ref_branch dflt (?y u1) = (Inr (bt', fr), ?y u1)" by (rule edge_target [OF p(4,3) u1(1) Inr [unfolded q]])
    define u2 where "u2 = set_edges (\<lambda>es. es @ (ds @ [bt'])) u"
    have u2: "set_edges (\<lambda>es. es @ [bt']) u1 = u2" by (simp add: u1_def u2_def f)
    have p1: "push_edge bt (relink env C u1) = (Inr (length (fedges u1)), relink env C u2)" using push_edge_relink [OF u1(2) i(3), of C] u2 by simp
    have p2: "\<exists>n. on_tr (push_edge bt') (?y u1) = (Inr n, ?y u2)" by (simp add: on_tr_def push_edge_def u2)
    let ?qs = "?cs @ [(i, PsTableDefault)]" and ?op = "OpBrTable \<lparr>btr_base = length (fedges u), btr_len = length cases\<rparr>"
    have qs: "\<forall>(i, slot) \<in> set ?qs. i < length C" using in_C i(1) by (auto dest: set_zip_leftD)
    have loc: "loc_of (fops u @ [?op]) \<lparr>pt_op = length (fops u), pt_slot = snd (?qs ! k)\<rparr> = Some (AtEdge (length (fedges u) + k))" if "k < length ?qs" for k
      by (rule table_slots [OF len]) (use that len in simp)
    have ops: "op_label ?op = None" "fusable_cmp_of ?op = None" by (simp_all add: fusable_cmp_of_def)
    obtain t1 t2 y1 y2 where e: "emit ?op (relink env C u2) = (Inr (), t1)" "register_all (next_ip u) (filter (\<lambda>(i, _). forward C i) ?qs) t1 = (Inr (), t2)"
      "on_tr (emit ?op) (?y u2) = (Inr (), y1)" "targeted_all (filter (forward C) (map fst ?qs)) y1 = (Inr (), y2)" "sim X t2 y2"
      "fedges (lb_tr y2) = fedges u @ (ds @ [bt'])"
      using sim_edges [OF p ops qs table_targets [OF ds i(4)] loc, folded u2_def] by blast
    have n: "next_ip (relink env C u2) = next_ip u" using relink_lists(3) [of u2 env C] by (simp add: u2_def f)
    have fs: "filter (\<lambda>(i, _). forward C i) ?qs = filter (\<lambda>(i, _). forward C i) ?cs @ (case fr of Some f \<Rightarrow> [(f, PsTableDefault)] | None \<Rightarrow> [])"
      "filter (forward C) (map fst ?qs) = filter (forward C) fs @ (case fr of Some f \<Rightarrow> [f] | None \<Rightarrow> [])" using i(2) by simp_all
    have l: "length ds = length cases" using arg_cong [OF ds, of length] len by simp
    have at: "branch_target_at dflt (relink env C u1) = (Inr (bt, fr), relink env C u1)" using r Inr q by (simp add: branch_target_at_def)
    show "agree ?d X ?a ?b (relink env C u) (?y u)"
      by (rule agree_grow [OF _ _ _ agree_plain [OF plain_heights(4) e(5)]])
        (use a b at i(5) p1 p2 e(1,3,6) e(2,4) [unfolded fs] n l in \<open>auto simp: u1_def [symmetric]\<close>)
  qed
qed

lemma agree_br_table:
  assumes "sim X t y"
  shows "agree (Suc (length cases)) X (lower_br_table cases dflt) (ref_br_table cases dflt) t y"
  unfolding lower_br_table_def ref_br_table_def
proof (rule agree_plain_bind [OF plain_heights(2) assms])
  fix x t y assume s: "sim X t y"
  obtain C ow where p: "t = relink (lb_env y) C (lb_tr y)" "map strip C = tl_ctrl (lb_tr y)" "based (lb_tr y)" "fusion_ok (lb_tr y)"
    "wired (fops (lb_tr y)) (fedges (lb_tr y)) ow (lb_env y)" "open_ok X C (lb_frames y) ow (lb_env y)"
    using s by (auto simp: sim_def)
  have b: "length (ca_br_tables (tl_code t)) - ba_br_tables (tl_base t) = length (fedges (lb_tr y))"
    "length (ca_br_tables (tl_code (lb_tr y))) - ba_br_tables (tl_base (lb_tr y)) = length (fedges (lb_tr y))"
    using sim_scalars(10,11) [OF s] by (simp_all add: fedges_def)
  have y: "\<lparr>lb_tr = lb_tr y, lb_frames = lb_frames y, lb_env = lb_env y\<rparr> = y" by simp
  note m = sim_table [OF p(2,3,5,6), of cases dflt, folded p(1), unfolded y]
  show "agree (Suc (length cases)) X (bindc (getc (\<lambda>t. length (ca_br_tables (tl_code t)) - ba_br_tables (tl_base t))) (\<lambda>base.
       bindc (table_edges 0 cases) (\<lambda>patches. bindc (branch_target_at dflt) (\<lambda>(bt, frame). bindc (push_edge bt) (\<lambda>_. bindc (getc next_ip) (\<lambda>i.
       bindc (emit (OpBrTable \<lparr>btr_base = base, btr_len = length cases\<rparr>)) (\<lambda>_.
       bindc (register_all i (patches @ (case frame of Some f \<Rightarrow> [(f, PsTableDefault)] | None \<Rightarrow> []))) (\<lambda>_. set_reachable False))))))))
      (bindc (getc (\<lambda>y. length (ca_br_tables (tl_code (lb_tr y))) - ba_br_tables (tl_base (lb_tr y)))) (\<lambda>base.
       bindc (ref_table_edges cases) (\<lambda>frames. bindc (ref_branch dflt) (\<lambda>(bt, frame). bindc (on_tr (push_edge bt)) (\<lambda>_.
       bindc (on_tr (emit (OpBrTable \<lparr>btr_base = base, btr_len = length cases\<rparr>))) (\<lambda>_.
       bindc (targeted_all (frames @ (case frame of Some i \<Rightarrow> [i] | None \<Rightarrow> []))) (\<lambda>_. on_tr (set_reachable False)))))))) t y"
    by (rule agree_run [OF getc_apply getc_apply refl], unfold b, rule m)
qed

text \<open>A cast branch packs the index of its edge and the nullability of the target type in one word.\<close>

lemma edge_of_pack:
  assumes "n < 2 ^ 31"
  shows "edge_of (word_of_nat n OR (if nullable then NULLABLE_BIT else 0)) = n"
proof -
  have "(word_of_nat n OR (if nullable then NULLABLE_BIT else 0)) AND NOT NULLABLE_BIT = (word_of_nat n :: u32)"
  proof (rule bit_word_eqI)
    fix k assume "k < LENGTH(32)"
    then have nb: "bit NULLABLE_BIT k \<longleftrightarrow> k = 31" unfolding NULLABLE_BIT_def bit_push_bit_iff bit_1_iff by auto
    have "unat (word_of_nat n :: u32) = n" using assms by (simp add: unat_of_nat)
    then have "\<not> bit (unat (word_of_nat n :: u32)) 31" using assms by (simp add: bit_iff_odd)
    then have "\<not> bit (word_of_nat n :: u32) 31" by (simp add: bit_unsigned_iff)
    then show "bit ((word_of_nat n OR (if nullable then NULLABLE_BIT else 0)) AND NOT NULLABLE_BIT) k = bit (word_of_nat n :: u32) k"
      by (cases "k = 31") (auto simp: nb bit_simps)
  qed
  then show ?thesis using assms by (simp add: edge_of_def unat_of_nat)
qed

lemma agree_br_on_cast:
  assumes s: "sim X t y" and few: "length (fedges (lb_tr y)) < 2 ^ 31"
  shows "agree 1 X (bindc (lift_res (ref_target (cx_kinds ctx) rt)) (\<lambda>(ty, nullable). lower_br_on_cast depth ty nullable on_fail))
    (ref_br_on_cast ctx depth rt on_fail) t y"
  unfolding ref_br_on_cast_def
proof (rule agree_res, clarify)
  fix ty nullable
  obtain C ow where p: "t = relink (lb_env y) C (lb_tr y)" "map strip C = tl_ctrl (lb_tr y)" "based (lb_tr y)" "fusion_ok (lb_tr y)"
    "wired (fops (lb_tr y)) (fedges (lb_tr y)) ow (lb_env y)" "open_ok X C (lb_frames y) ow (lb_env y)"
    using s by (auto simp: sim_def)
  let ?u = "lb_tr y" and ?y = "\<lambda>u. \<lparr>lb_tr = u, lb_frames = lb_frames y, lb_env = lb_env y\<rparr>"
  have r: "branch_to depth t = branch_to depth ?u" unfolding p(1) by (rule branch_to_relink [OF p(2)])
  show "agree 1 X (lower_br_on_cast depth ty nullable on_fail) (bindc (ref_branch depth) (\<lambda>(bt, frame). bindc (on_tr (push_edge bt)) (\<lambda>pool.
     let target = word_of_nat pool OR (if nullable then NULLABLE_BIT else 0) in
     bindc (on_tr (emit (if on_fail then OpBrOnCastFail ty target else OpBrOnCast ty target))) (\<lambda>_. targeted frame)))) t y"
  proof (cases "branch_to depth ?u")
    case (Inl e)
    then show ?thesis unfolding lower_br_on_cast_def using r by (intro agree_fail) (simp_all add: branch_target_at_def ref_branch_def)
  next
    case (Inr q)
    obtain bt fr where q: "q = (bt, fr)" by (cases q)
    obtain i bt' where i: "i < length C" "fr = (if forward C i then Some i else None)" "link_target (lb_env y) bt' = bt" "bt_ip bt' = fst (lb_frames y ! i)"
      "ref_branch depth (?y ?u) = (Inr (bt', fr), ?y ?u)" by (rule edge_target [OF p(6,5,2) Inr [unfolded q]])
    define u1 where "u1 = set_edges (\<lambda>es. es @ [bt']) ?u"
    let ?n = "length (fedges ?u)" and ?qs = "[(i, PsSingle)]"
    let ?tg = "word_of_nat ?n OR (if nullable then NULLABLE_BIT else 0)"
    define op where "op = (if on_fail then OpBrOnCastFail ty ?tg else OpBrOnCast ty ?tg)"
    have p1: "push_edge bt t = (Inr ?n, relink (lb_env y) C u1)" unfolding p(1) u1_def by (rule push_edge_relink [OF p(3) i(3)])
    have p2: "on_tr (push_edge bt') (?y ?u) = (Inr ?n, ?y u1)" by (simp add: on_tr_def push_edge_def u1_def fedges_def)
    have at: "branch_target_at depth t = (Inr (bt, fr), t)" using r Inr q by (simp add: branch_target_at_def)
    have ops: "op_label op = None" "fusable_cmp_of op = None" by (simp_all add: op_def fusable_cmp_of_def)
    have loc: "loc_of (fops ?u @ [op]) \<lparr>pt_op = length (fops ?u), pt_slot = snd (?qs ! k)\<rparr> = Some (AtEdge (length (fedges ?u) + k))" if "k < length ?qs" for k
      using that by (simp add: loc_of_def op_def edge_of_pack [OF few])
    have qs: "\<forall>(i, slot) \<in> set ?qs. i < length C" using i(1) by simp
    have ds: "map bt_ip [bt'] = map (\<lambda>(i, _). fst (lb_frames y ! i)) ?qs" using i(4) by simp
    obtain t1 t2 y1 y2 where e: "emit op (relink (lb_env y) C u1) = (Inr (), t1)" "register_all (next_ip ?u) (filter (\<lambda>(i, _). forward C i) ?qs) t1 = (Inr (), t2)"
      "on_tr (emit op) (?y u1) = (Inr (), y1)" "targeted_all (filter (forward C) (map fst ?qs)) y1 = (Inr (), y2)" "sim X t2 y2"
      "fedges (lb_tr y2) = fedges ?u @ [bt']"
      using sim_edges [OF p(2,3,5,6) ops qs ds loc, folded u1_def] by blast
    have n: "next_ip (relink (lb_env y) C u1) = next_ip ?u" using relink_lists(3) [of u1] by (simp add: u1_def set_edges_facts [OF p(3)])
    have one: "register_branch fr m PsSingle = register_all m (filter (\<lambda>(i, _). forward C i) ?qs)" "targeted fr = targeted_all (filter (forward C) (map fst ?qs))" for m
      using i(2) by (auto simp: register_branch_def targeted_def fun_eq_iff bindc_def split: prod.splits sum.splits)
    have y: "?y ?u = y" by simp
    show ?thesis unfolding lower_br_on_cast_def
      by (rule agree_grow [OF _ _ _ agree_ret [OF e(5), of 0 "()"]])
        (use at i(5) p1 p2 e n in \<open>simp_all add: one Let_def op_def [symmetric] y\<close>)
  qed
qed

end
