(* ===== verification/Lower_Blocks.thy ===== *)
theory Lower_Blocks
  imports Lower_Branch
begin

text \<open>
  Blocks open and close in step on both sides: a label is made when a block opens and placed when the block is closed and its branches are patched.
\<close>

section \<open>Labels\<close>

lemma relink_env:
  assumes "wired (fops t) (fedges t) ow env"
  shows "relink (env @ [z]) C t = relink env C t"
proof -
  have a: "address (env @ [z]) l = address env l" if "label_at (fops t) (fedges t) x = Some l" for x l
  proof -
    have "l < length env" using assms that by (auto simp: wired_def)
    then show ?thesis by (simp add: address_def nth_append)
  qed
  have "address_at (env @ [z]) (fops t) (fedges t) = address_at env (fops t) (fedges t)"
    using a by (auto simp: address_at_def fun_eq_iff split: option.split)
  then show ?thesis unfolding relink_def by (simp only: link_put(1) [of _ "fops t" "fedges t"] link_put(2) [of _ "fedges t" "fops t"])
qed

lemma frame_ok_mono:
  assumes "frame_ok ow env f lb" and "\<And>l. l \<in> set (labs lb) \<Longrightarrow> ow' l = ow l" and "\<And>l. l \<in> set (labs lb) \<Longrightarrow> l < length env \<Longrightarrow> env' ! l = env ! l"
    and "length env \<le> length env'"
  shows "frame_ok ow' env' f lb"
  using assms by (auto simp: frame_ok_def labs_def split: prod.splits option.splits if_splits)

lemma frame_ok_bound: "frame_ok ow env f lb \<Longrightarrow> l \<in> set (labs lb) \<Longrightarrow> l < length env"
  by (auto simp: frame_ok_def labs_def split: prod.splits option.splits if_splits)

lemma open_bound:
  assumes o: "open_ok X C L ow env" and d: "dom ow = {l. l < length env \<and> env ! l = None}" and l: "l \<in> set (labels_of L @ map fst X)"
  shows "l < length env"
  using l unfolding set_append
proof
  assume "l \<in> set (labels_of L)"
  then obtain lb where "lb \<in> set L" "l \<in> set (labs lb)" by (auto simp: labels_of_def)
  then obtain i where i: "i < length L" "l \<in> set (labs (L ! i))" by (metis in_set_conv_nth)
  then show ?thesis using frame_ok_bound [OF open_ok_nth [OF o] i(2)] open_ok_len [OF o] by simp
next
  assume "l \<in> set (map fst X)"
  then obtain ps where "ow l = Some ps" using o by (auto simp: open_ok_def)
  then have "l \<in> dom ow" by auto
  then show ?thesis using d by simp
qed

lemma open_mono:
  assumes o: "open_ok X C L ow env" and same: "\<And>l. l \<in> set (labels_of L) \<Longrightarrow> ow' l = ow l" "\<And>l. l \<in> set (labels_of L) \<Longrightarrow> l < length env \<Longrightarrow> env' ! l = env ! l"
    and len: "length env \<le> length env'" and Y: "\<And>l ps. (l, ps) \<in> set Y \<Longrightarrow> ow' l = Some ps" "distinct (labels_of L @ map fst Y)" "dom ow' \<subseteq> set (labels_of L @ map fst Y)"
  shows "open_ok Y C L ow' env'"
proof -
  have "frame_ok ow' env' (C ! i) (L ! i)" if i: "i < length C" for i
  proof (rule frame_ok_mono [OF open_ok_nth [OF o i] _ _ len])
    fix l assume "l \<in> set (labs (L ! i))"
    then have "l \<in> set (labels_of L)" using i open_ok_len [OF o] by (auto simp: labels_of_def)
    then show "ow' l = ow l" "l < length env \<Longrightarrow> env' ! l = env ! l" using same by blast+
  qed
  then show ?thesis using open_ok_len [OF o] Y by (auto simp: open_ok_def list_all2_conv_all_nth)
qed

lemma closing:
  assumes "open_ok X C L ow env" and "(l, ps) \<in> set X"
  shows "ow l = Some ps" "l \<in> fst ` set X" "l \<notin> set (labels_of L)"
proof -
  show "l \<in> fst ` set X" using assms(2) by force
  then show "l \<notin> set (labels_of L)" using assms(1) by (auto simp: open_ok_def)
  show "ow l = Some ps" using assms by (auto simp: open_ok_def)
qed

lemma closing_rest:
  assumes "open_ok ((l, ps) # X) C L ow env"
  shows "l \<notin> set (labels_of L)" "ow l = Some ps" "(k, qs) \<in> set X \<Longrightarrow> ow k = Some qs \<and> k \<noteq> l"
  using assms closing [OF assms, of k qs] by (auto simp: open_ok_def image_iff)

text \<open>A label is placed: its patches are resolved.\<close>

lemma open_place:
  assumes o: "open_ok ((l, ps) # X) C L ow env" and w: "wired ops es ow env"
  shows "open_ok X C L (ow(l := None)) (env[l := Some ip])"
  by (rule open_mono [OF o]) (use o closing_rest [OF o] in \<open>auto simp: open_ok_def intro!: nth_list_update_neq\<close>)

lemma sim_place:
  assumes s: "sim ((l, ps) # X) t y"
  obtains t' y' where "patch_all (next_ip t) ps t = (Inr (), t')" "place l y = (Inr (), y')" "sim X t' y'" "lb_tr y' = lb_tr y" "lb_frames y' = lb_frames y"
    "tl_ctrl t' = tl_ctrl t" "next_ip t' = next_ip t"
proof -
  obtain C ow where p: "t = relink (lb_env y) C (lb_tr y)" "map strip C = tl_ctrl (lb_tr y)" "based (lb_tr y)" "fusion_ok (lb_tr y)"
    "wired (fops (lb_tr y)) (fedges (lb_tr y)) ow (lb_env y)" "open_ok ((l, ps) # X) C (lb_frames y) ow (lb_env y)"
    using s by (auto simp: sim_def)
  have l: "ow l = Some ps" using p(6) by (simp add: open_ok_def)
  have len: "l < length (lb_env y)" using p(5) l by (auto simp: wired_def)
  let ?ip = "next_ip t" and ?env = "(lb_env y)[l := Some (next_ip t)]"
  have n: "next_ip (lb_tr y) = next_ip t" using sim_scalars(3) [OF s] by simp
  have "sim X (relink ?env C (lb_tr y)) (y\<lparr>lb_env := ?env\<rparr>)" unfolding sim_def
    using p(2-4) wired_place [OF p(5) len, of ?ip] open_place [OF p(6,5), of ?ip] by auto
  moreover have "patch_all ?ip ps t = (Inr (), relink ?env C (lb_tr y))" unfolding p(1) by (rule patch_all_relink [OF p(3,5) l])
  moreover have "place l y = (Inr (), y\<lparr>lb_env := ?env\<rparr>)" by (simp add: place_def n)
  ultimately show ?thesis using that p(1) relink_lists(3) [OF p(3)] by simp
qed

text \<open>A new label, and a branch to a label that is being resolved.\<close>

lemma sim_new_label:
  assumes s: "sim X t y"
  shows "sim ((length (lb_env y), []) # X) t (y\<lparr>lb_env := lb_env y @ [None]\<rparr>)"
proof -
  obtain C ow where p: "t = relink (lb_env y) C (lb_tr y)" "map strip C = tl_ctrl (lb_tr y)" "based (lb_tr y)" "fusion_ok (lb_tr y)"
    "wired (fops (lb_tr y)) (fedges (lb_tr y)) ow (lb_env y)" "open_ok X C (lb_frames y) ow (lb_env y)"
    using s by (auto simp: sim_def)
  let ?l = "length (lb_env y)"
  note bound = open_bound [OF p(6) wired_dom [OF p(5)]]
  have fresh: "?l \<notin> set (labels_of (lb_frames y) @ map fst X)" using bound by blast
  have "open_ok ((?l, []) # X) C (lb_frames y) (ow(?l \<mapsto> [])) (lb_env y @ [None])"
    by (rule open_mono [OF p(6)]) (use p(6) closing [OF p(6)] fresh in \<open>auto simp: open_ok_def nth_append\<close>)
  then show ?thesis unfolding sim_def
    using p wired_new_label [OF p(5)] relink_env [OF p(5)] by (intro exI [of _ C] exI [of _ "ow(?l \<mapsto> [])"]) simp
qed

lemma open_add_closing:
  assumes o: "open_ok ((l, ps) # X) C L ow env"
  shows "open_ok ((l, ps @ [p]) # X) C L (add_to l p ow) env"
  by (rule open_mono [OF o]) (use o closing_rest [OF o] in \<open>auto simp: open_ok_def add_to_apply\<close>)

lemma closing_target:
  assumes "open_ok ((l, ps) # X) C L ow env" and "wired ops es ow env" and "bt_ip bt = 0"
  shows "link_target env (bt\<lparr>bt_ip := l\<rparr>) = bt" "l < length env"
proof -
  have "l \<in> dom ow" using closing_rest(2) [OF assms(1)] by auto
  then have "l < length env" "env ! l = None" using wired_dom [OF assms(2)] by auto
  then show "link_target env (bt\<lparr>bt_ip := l\<rparr>) = bt" "l < length env" using assms(3) by (simp_all add: link_target_def address_def)
qed

lemma sim_emit_closing:
  assumes s: "sim ((l, ps) # X) t y" and mk: "branching mk" and bt: "bt_ip bt = 0"
  obtains t' y' where "emit (mk bt) t = (Inr (), t')" "on_tr (emit (mk (bt\<lparr>bt_ip := l\<rparr>))) y = (Inr (), y')"
    "sim ((l, ps @ [\<lparr>pt_op = next_ip t, pt_slot = PsSingle\<rparr>]) # X) t' y'" "fedges (lb_tr y') = fedges (lb_tr y)"
proof -
  obtain C ow where p: "t = relink (lb_env y) C (lb_tr y)" "map strip C = tl_ctrl (lb_tr y)" "based (lb_tr y)" "fusion_ok (lb_tr y)"
    "wired (fops (lb_tr y)) (fedges (lb_tr y)) ow (lb_env y)" "open_ok ((l, ps) # X) C (lb_frames y) ow (lb_env y)"
    using s by (auto simp: sim_def)
  let ?op = "mk (bt\<lparr>bt_ip := l\<rparr>)" and ?p = "\<lparr>pt_op = next_ip t, pt_slot = PsSingle\<rparr>"
  note lf = closing_target [OF p(6,5) bt]
  define u where "u = snd (emit ?op (lb_tr y))"
  have link: "link_op (lb_env y) ?op = mk bt" using mk lf(1) by (simp add: branching_def)
  have e: "emit (mk bt) t = (Inr (), relink (lb_env y) C u)"
    using emit_relink [where env = "lb_env y" and op = ?op and C = C, OF p(3)] mk link p(1) by (simp add: branching_def u_def)
  have uf: "fops u = fops (lb_tr y) @ [?op]" "fedges u = fedges (lb_tr y)" "based u" "tl_ctrl u = tl_ctrl (lb_tr y)" "fusion_ok u"
    using emit_facts(1-6) [OF p(3), of ?op] mk by (simp_all add: u_def fusion_ok_def branching_def)
  have n: "next_ip t = length (fops (lb_tr y))" using emit_facts(7) [OF p(3)] sim_scalars(3) [OF s] by simp
  have w: "wired (fops u) (fedges u) (add_to l ?p ow) (lb_env y)"
    unfolding n uf by (rule wired_branch [OF p(5)]) (use mk lf(2) in \<open>simp_all add: branching_def\<close>)
  have "sim ((l, ps @ [?p]) # X) (relink (lb_env y) C u) (y\<lparr>lb_tr := u\<rparr>)" unfolding sim_def
    using p(2) uf(3-5) w open_add_closing [OF p(6), of ?p] by (intro exI [of _ C] exI [of _ "add_to l ?p ow"]) simp
  moreover have "on_tr (emit ?op) y = (Inr (), y\<lparr>lb_tr := u\<rparr>)" using emit_facts(5) [OF p(3), of ?op] by (simp add: on_tr_def u_def split_beta)
  ultimately show ?thesis using that e uf(2) by simp
qed

lemma sim_fuse_closing:
  assumes s: "sim ((l, ps) # X) t y" and bt: "bt_ip bt = 0" and f: "fops (lb_tr y) \<noteq> []" "last (fops (lb_tr y)) = OpNumeric n" "tl_fusable_cmp t = None"
  obtains t' y' where "op_mut (next_ip t - 1) (OpBrIfCmp k b bt) t = (Inr (), t')"
    "on_tr (op_mut (next_ip t - 1) (OpBrIfCmp k b (bt\<lparr>bt_ip := l\<rparr>))) y = (Inr (), y')"
    "sim ((l, ps @ [\<lparr>pt_op = next_ip t - 1, pt_slot = PsSingle\<rparr>]) # X) t' y'" "fedges (lb_tr y') = fedges (lb_tr y)"
proof -
  obtain C ow where p: "t = relink (lb_env y) C (lb_tr y)" "map strip C = tl_ctrl (lb_tr y)" "based (lb_tr y)" "fusion_ok (lb_tr y)"
    "wired (fops (lb_tr y)) (fedges (lb_tr y)) ow (lb_env y)" "open_ok ((l, ps) # X) C (lb_frames y) ow (lb_env y)"
    using s by (auto simp: sim_def)
  define j where "j = next_ip t - 1"
  let ?op = "OpBrIfCmp k b (bt\<lparr>bt_ip := l\<rparr>)" and ?p = "\<lparr>pt_op = j, pt_slot = PsSingle\<rparr>"
  note lf = closing_target [OF p(6,5) bt]
  have fz: "tl_fusable_cmp (lb_tr y) = None" using f(3) p(1) by simp
  have n: "next_ip t = length (fops (lb_tr y))" using emit_facts(7) [OF p(3)] sim_scalars(3) [OF s] by simp
  then have kl: "j < length (fops (lb_tr y))" and jn: "j = length (fops (lb_tr y)) - 1" using f(1) by (simp_all add: j_def)
  define u where "u = snd (op_mut j ?op (lb_tr y))"
  have e: "op_mut j (OpBrIfCmp k b bt) t = (Inr (), relink (lb_env y) C u)"
    using op_mut_relink [OF p(3) kl, of "lb_env y" ?op C] lf(1) p(1) by (simp add: link_op_def u_def)
  have uf: "fops u = (fops (lb_tr y))[j := ?op]" "fedges u = fedges (lb_tr y)" "based u" "tl_ctrl u = tl_ctrl (lb_tr y)" "fusion_ok u"
    using fz by (simp_all add: u_def op_mut_facts [OF p(3) kl] with_code_lists [OF p(3)] fusion_ok_def)
  have w: "wired (fops u) (fedges u) (add_to l ?p ow) (lb_env y)"
    unfolding jn uf by (rule wired_fuse [OF p(5) f(1,2) refl]) (use lf(2) in simp_all)
  have "sim ((l, ps @ [?p]) # X) (relink (lb_env y) C u) (y\<lparr>lb_tr := u\<rparr>)" unfolding sim_def
    using p(2) uf(3-5) w open_add_closing [OF p(6), of ?p] by (intro exI [of _ C] exI [of _ "add_to l ?p ow"]) simp
  moreover have "on_tr (op_mut j ?op) y = (Inr (), y\<lparr>lb_tr := u\<rparr>)" by (simp add: on_tr_def u_def op_mut_facts [OF p(3) kl])
  ultimately show ?thesis using that e uf(2) unfolding j_def by simp
qed

section \<open>Opening blocks\<close>

lemma sim_no_fusion:
  assumes s: "sim X t y"
  obtains t' y' where "no_fusion t = (Inr (), t')" "on_tr no_fusion y = (Inr (), y')" "sim X t' y'" "tl_fusable_cmp t' = None" "tl_ctrl t' = tl_ctrl t"
    "fops (lb_tr y') = fops (lb_tr y)" "fedges (lb_tr y') = fedges (lb_tr y)" "lb_env y' = lb_env y" "lb_frames y' = lb_frames y" "next_ip t' = next_ip t"
proof -
  have n: "no_fusion t = (Inr (), t\<lparr>tl_fusable_cmp := None\<rparr>)" by (simp add: no_fusion_def)
  obtain y' where "on_tr no_fusion y = (Inr (), y')" "sim X (t\<lparr>tl_fusable_cmp := None\<rparr>) y'" using sim_plain [OF plain_heights(5) s n] by blast
  then show ?thesis using that n by (auto simp: on_tr_def no_fusion_def fops_def fedges_def next_ip_def)
qed

lemma open_if_sim:
  assumes s: "sim X t y"
  shows "\<exists>i l t' y'. open_if t = (Inr (Some i), t') \<and> ref_open_if y = (Inr (Some l), y') \<and> sim ((l, [\<lparr>pt_op = i, pt_slot = PsSingle\<rparr>]) # X) t' y' \<and>
    fedges (lb_tr y') = fedges (lb_tr y)"
proof -
  obtain t0 where t0: "hpop 1 t = (Inr (), t0)" by (simp add: hpop_def)
  obtain y0 where y0: "on_tr (hpop 1) y = (Inr (), y0)" "sim X t0 y0" "fedges (lb_tr y0) = fedges (lb_tr y)" using sim_plain [OF plain_heights(2) s t0] by blast
  define y1 where "y1 = y0\<lparr>lb_env := lb_env y0 @ [None]\<rparr>"
  define l where "l = length (lb_env y0)"
  have l: "new_label None y0 = (Inr l, y1)" by (simp add: new_label_def y1_def l_def)
  have s1: "sim ((l, []) # X) t0 y1" unfolding y1_def l_def by (rule sim_new_label [OF y0(2)])
  have cmp: "tl_fusable_cmp (lb_tr y1) = tl_fusable_cmp t0" using sim_scalars(2) [OF s1] by simp
  have e1: "fedges (lb_tr y1) = fedges (lb_tr y)" using y0(3) by (simp add: y1_def)
  let ?bt = "\<lparr>bt_ip = 0, bt_keep = 0, bt_pop = 0\<rparr>"
  show ?thesis
  proof (cases "tl_fusable_cmp t0")
    case None
    obtain t' y' where "emit (OpBrIfNot ?bt) t0 = (Inr (), t')" "on_tr (emit (OpBrIfNot (?bt\<lparr>bt_ip := l\<rparr>))) y1 = (Inr (), y')"
      "sim ((l, [] @ [\<lparr>pt_op = next_ip t0, pt_slot = PsSingle\<rparr>]) # X) t' y'" "fedges (lb_tr y') = fedges (lb_tr y1)"
      by (rule sim_emit_closing [OF s1 branching_ops(3), of ?bt]) simp_all
    then show ?thesis using t0 y0(1) l cmp None e1 unfolding open_if_def ref_open_if_def by simp
  next
    case (Some k)
    have f: "fops (lb_tr y1) \<noteq> []" "last (fops (lb_tr y1)) = OpNumeric (NI32Rel k)" using sim_scalars(6) [OF s1] Some cmp by (auto simp: fusion_ok_def)
    obtain t2 y2 where n: "no_fusion t0 = (Inr (), t2)" "on_tr no_fusion y1 = (Inr (), y2)" "sim ((l, []) # X) t2 y2" "tl_fusable_cmp t2 = None"
      "fops (lb_tr y2) = fops (lb_tr y1)" "fedges (lb_tr y2) = fedges (lb_tr y1)" by (rule sim_no_fusion [OF s1])
    obtain t' y' where "op_mut (next_ip t2 - 1) (OpBrIfCmp k True ?bt) t2 = (Inr (), t')"
      "on_tr (op_mut (next_ip t2 - 1) (OpBrIfCmp k True (?bt\<lparr>bt_ip := l\<rparr>))) y2 = (Inr (), y')"
      "sim ((l, [] @ [\<lparr>pt_op = next_ip t2 - 1, pt_slot = PsSingle\<rparr>]) # X) t' y'" "fedges (lb_tr y') = fedges (lb_tr y2)"
      by (rule sim_fuse_closing [OF n(3), of ?bt "NI32Rel k" k True]) (use f n(4,5) in simp_all)
    then show ?thesis using t0 y0(1) l cmp Some e1 n sim_scalars(3) [OF n(3)] unfolding open_if_def ref_open_if_def by simp
  qed
qed

definition else_entry :: "nat option \<Rightarrow> nat option \<Rightarrow> (nat \<times> patch list) list" where
  "else_entry els patch = (case (els, patch) of (Some e, Some i) \<Rightarrow> [(e, [\<lparr>pt_op = i, pt_slot = PsSingle\<rparr>])] | _ \<Rightarrow> [])"

lemma open_push:
  assumes o: "open_ok (else_entry els (ct_else_patch f) @ X) C L ow env" and d: "dom ow = {l. l < length env \<and> env ! l = None}"
    and f: "ct_end_patches f = []" "els = None \<longleftrightarrow> ct_else_patch f = None" "els \<noteq> None \<longrightarrow> ct_kind f = BkIf"
  defines "ow' \<equiv> (if ct_kind f = BkLoop then ow else ow(length env \<mapsto> []))"
    and "env' \<equiv> env @ [if ct_kind f = BkLoop then Some (ct_start_ip f) else None]"
  shows "open_ok X (C @ [f]) (L @ [(length env, els)]) ow' env'"
proof -
  note bound = open_bound [OF o d]
  let ?X = "else_entry els (ct_else_patch f)"
  have same: "ow' l = ow l" "l < length env \<Longrightarrow> env' ! l = env ! l" if "l \<noteq> length env" for l
    using that by (simp_all add: ow'_def env'_def nth_append)
  have lab: "labels_of [(length env, els)] = length env # map fst ?X"
    using f(2) by (auto simp: else_entry_def split: option.split)
  have fresh: "length env \<notin> set (labels_of L @ map fst (?X @ X))" using bound by blast
  have dist: "distinct (labels_of L @ map fst ?X @ map fst X)" "dom ow \<subseteq> set (labels_of L @ map fst ?X @ map fst X)" using o by (simp_all add: open_ok_def)
  have old: "list_all2 (frame_ok ow' env') C L"
  proof -
    have "frame_ok ow' env' (C ! i) (L ! i)" if i: "i < length C" for i
    proof (rule frame_ok_mono [OF open_ok_nth [OF o i]])
      fix l assume l: "l \<in> set (labs (L ! i))"
      have "l < length env" by (rule frame_ok_bound [OF open_ok_nth [OF o i] l])
      then show "ow' l = ow l" "l < length env \<Longrightarrow> env' ! l = env ! l" using same [of l] by auto
    qed (simp add: env'_def)
    then show ?thesis using open_ok_len [OF o] by (simp add: list_all2_conv_all_nth)
  qed
  have els: "e < length env" "ow' e = Some [\<lparr>pt_op = i, pt_slot = PsSingle\<rparr>]" if e: "els = Some e" "ct_else_patch f = Some i" for e i
  proof -
    have m: "(e, [\<lparr>pt_op = i, pt_slot = PsSingle\<rparr>]) \<in> set (?X @ X)" using e by (simp add: else_entry_def)
    show b: "e < length env" by (rule bound) (use closing(2) [OF o m] in \<open>simp add: image_Un\<close>)
    show "ow' e = Some [\<lparr>pt_op = i, pt_slot = PsSingle\<rparr>]" using closing(1) [OF o m] same(1) [of e] b by simp
  qed
  have new: "frame_ok ow' env' f (length env, els)"
  proof (cases els)
    case (Some e)
    then obtain i where i: "ct_else_patch f = Some i" using f(2) by auto
    show ?thesis using els [OF Some i] Some i f(1,3) by (auto simp: frame_ok_def ow'_def env'_def)
  qed (use f in \<open>auto simp: frame_ok_def ow'_def env'_def\<close>)
  have X: "ow' l = Some ps" if m: "(l, ps) \<in> set X" for l ps
  proof -
    have c: "ow l = Some ps" "l \<in> fst ` set (?X @ X)" using closing(1,2) [OF o, of l ps] m by simp_all
    then have "l \<in> set (labels_of L @ map fst (?X @ X))" by (simp add: image_Un)
    then show ?thesis using same(1) [of l] fresh c(1) by metis
  qed
  have "dom ow' \<subseteq> insert (length env) (dom ow)" by (auto simp: ow'_def)
  then have "dom ow' \<subseteq> set ((labels_of L @ length env # map fst ?X) @ map fst X)" by (rule subset_trans) (use dist(2) in \<open>simp add: subset_iff\<close>)
  moreover have "distinct ((labels_of L @ length env # map fst ?X) @ map fst X)" using dist(1) fresh by auto
  moreover have "\<forall>(l, ps) \<in> set X. ow' l = Some ps" using X by auto
  ultimately show ?thesis unfolding open_ok_def labels_of_append lab using old new by (simp add: list_all2_appendI)
qed

lemma plain_height_below [plain_intros]: "plain (height_below n)"
  unfolding plain_def
proof (intro allI impI conjI)
  fix t env C
  show "plain_step t (snd (height_below n t))"
    by (auto simp: height_below_def latch_def plain_step_def fusion_ok_def fops_def split: option.split)
  show "height_below n (relink env C t) = (fst (height_below n t), relink env C (snd (height_below n t)))"
    by (auto simp: height_below_def latch_def relink_update split: option.split)
qed

lemma agree_push:
  assumes s: "sim (else_entry els patch @ X) t y" and e: "els = None \<longleftrightarrow> patch = None" "els \<noteq> None \<longrightarrow> kind = BkIf"
  shows "agree 0 X (push_frame_of kind params results patch clauses) (ref_push_frame kind params results els clauses) t y"
proof -
  obtain base t1 where t1: "height_below params t = (Inr base, t1)" by (cases "checked_sub (tl_height t) params") (auto simp: height_below_def)
  obtain y1 where y1: "on_tr (height_below params) y = (Inr base, y1)" "sim (else_entry els patch @ X) t1 y1" "fedges (lb_tr y1) = fedges (lb_tr y)"
    using sim_plain [OF plain_height_below s t1] by blast
  obtain C ow where p: "t1 = relink (lb_env y1) C (lb_tr y1)" "map strip C = tl_ctrl (lb_tr y1)" "based (lb_tr y1)" "fusion_ok (lb_tr y1)"
    "wired (fops (lb_tr y1)) (fedges (lb_tr y1)) ow (lb_env y1)" "open_ok (else_entry els patch @ X) C (lb_frames y1) ow (lb_env y1)"
    using y1(2) by (auto simp: sim_def)
  define f where "f = \<lparr>ct_kind = kind, ct_base_height = base, ct_param_count = params, ct_result_count = results,
       ct_start_ip = next_ip t1, ct_end_patches = [], ct_else_patch = patch, ct_reachable_on_entry = tl_reachable t1,
       ct_end_targeted = False, ct_clauses = clauses\<rparr>"
  define u where "u = (lb_tr y1)\<lparr>tl_ctrl := tl_ctrl (lb_tr y1) @ [strip f]\<rparr>"
  let ?env = "lb_env y1 @ [if ct_kind f = BkLoop then Some (ct_start_ip f) else None]" and ?ow = "if ct_kind f = BkLoop then ow else ow(length (lb_env y1) \<mapsto> [])"
  define y2 where "y2 = y1\<lparr>lb_tr := u, lb_env := ?env, lb_frames := lb_frames y1 @ [(length (lb_env y1), els)]\<rparr>"
  have sc: "next_ip (lb_tr y1) = next_ip t1" "tl_reachable (lb_tr y1) = tl_reachable t1" using sim_scalars(1,3) [OF y1(2)] by simp_all
  have lists: "fops u = fops (lb_tr y1)" "fedges u = fedges (lb_tr y1)" "based u" "fusion_ok u" "next_ip u = next_ip t1"
    using p(3,4) sc(1) by (simp_all add: u_def fops_def fedges_def based_def fusion_ok_def next_ip_def)
  have w: "wired (fops u) (fedges u) ?ow ?env" using wired_new_label [OF p(5)] wired_new_placed [OF p(5)] by (simp add: lists)
  have "open_ok X (C @ [f]) (lb_frames y1 @ [(length (lb_env y1), els)]) ?ow ?env"
    by (rule open_push [OF _ wired_dom [OF p(5)]]) (use p(6) e in \<open>simp_all add: f_def\<close>)
  then have "sim X (relink ?env (C @ [f]) u) y2" unfolding sim_def y2_def
    using lists w p(2) by (intro exI [of _ "C @ [f]"] exI [of _ ?ow]) (simp add: u_def)
  moreover have "relink ?env (C @ [f]) u = t1\<lparr>tl_ctrl := tl_ctrl t1 @ [f]\<rparr>"
  proof -
    have "relink ?env (C @ [f]) u = relink (lb_env y1) (C @ [f]) u" by (rule relink_env) (use p(5) lists in simp)
    also have "\<dots> = relink (lb_env y1) (C @ [f]) (lb_tr y1)" by (simp add: u_def relink_ctrl)
    finally show ?thesis unfolding p(1) by (simp add: relink_def with_code_def)
  qed
  ultimately have s2: "sim X (t1\<lparr>tl_ctrl := tl_ctrl t1 @ [f]\<rparr>) y2" by simp
  have a: "push_frame_of kind params results patch clauses t = (Inr (), t1\<lparr>tl_ctrl := tl_ctrl t1 @ [f]\<rparr>)"
    using t1 by (simp add: push_frame_of_def f_def)
  obtain ht where ht: "height_below params (lb_tr y) = (Inr base, ht)" "lb_tr y1 = ht" "y1 = y\<lparr>lb_tr := ht\<rparr>"
    using y1(1) by (auto simp: on_tr_def split: prod.splits)
  have "on_tr (push_frame_of kind params results None clauses) y = (Inr (), y1\<lparr>lb_tr := u\<rparr>)"
    using ht(1) unfolding ht(3) u_def f_def push_frame_of_def on_tr_def by (simp add: sc [unfolded ht(2), symmetric] ht(3) strip_def)
  then have b: "ref_push_frame kind params results els clauses y = (Inr (), y2)"
    using lists(5) unfolding ref_push_frame_def by (simp add: new_label_def y2_def f_def)
  show ?thesis unfolding agree_def using a b s2 y1(3) lists(2) by (simp add: y2_def)
qed

lemma agree_push_block:
  assumes s: "sim X t y"
  shows "agree 0 X (bindc no_fusion (\<lambda>_. bindc (lift_res (block_arity ctx bt)) (\<lambda>(params, results). push_frame_of kind params results None clauses)))
    (ref_push_block ctx bt kind clauses) t y"
  unfolding ref_push_block_def
  by (rule agree_plain_bind [OF plain_heights(5) s], rule agree_res, clarify, rule agree_push) (simp_all add: else_entry_def)

lemma agree_if:
  assumes s: "sim X t y"
  shows "agree 0 X (push_if ctx bt) (ref_push_if ctx bt) t y"
  unfolding push_if_def ref_push_if_def
proof (rule agree_res, clarify)
  fix params results
  let ?a = "\<lambda>patch. bindc no_fusion (\<lambda>_. push_frame_of BkIf params results patch [])" and ?b = "\<lambda>els. bindc (on_tr no_fusion) (\<lambda>_. ref_push_frame BkIf params results els [])"
  have rest: "agree 0 X (?a patch) (?b els) t' y'" if "sim (else_entry els patch @ X) t' y'" "els = None \<longleftrightarrow> patch = None" for els patch t' y'
    by (rule agree_plain_bind [OF plain_heights(5) that(1)]) (rule agree_push [OF _ that(2)], simp_all)
  show "agree 0 X (bindc (getc tl_reachable) (\<lambda>reachable. bindc (if reachable then open_if else ret None) ?a))
    (bindc (getc (\<lambda>y. tl_reachable (lb_tr y))) (\<lambda>reachable. bindc (if reachable then ref_open_if else ret None) ?b)) t y"
  proof (rule agree_run [OF getc_apply getc_apply refl], unfold sim_scalars(1) [OF s, symmetric], cases "tl_reachable t")
    case True
    obtain i l t' y' where o: "open_if t = (Inr (Some i), t')" "ref_open_if y = (Inr (Some l), y')" "sim ((l, [\<lparr>pt_op = i, pt_slot = PsSingle\<rparr>]) # X) t' y'"
      "fedges (lb_tr y') = fedges (lb_tr y)" using open_if_sim [OF s] by blast
    have "agree 0 X (?a (Some i)) (?b (Some l)) t' y'" by (rule rest) (use o(3) in \<open>simp_all add: else_entry_def\<close>)
    then show "agree 0 X (bindc (if tl_reachable t then open_if else ret None) ?a) (bindc (if tl_reachable t then ref_open_if else ret None) ?b) t y"
      using o(1,2,4) True by (simp add: agree_run)
  next
    case False
    have "agree 0 X (?a None) (?b None) t y" by (rule rest) (simp_all add: else_entry_def s)
    then show "agree 0 X (bindc (if tl_reachable t then open_if else ret None) ?a) (bindc (if tl_reachable t then ref_open_if else ret None) ?b) t y"
      using False by (simp add: agree_run [OF ret_apply ret_apply refl])
  qed
qed

section \<open>Closing blocks\<close>

text \<open>The innermost frame is given up; its labels wait for their place.\<close>

definition end_entry :: "ctrl_frame \<Rightarrow> nat \<Rightarrow> (nat \<times> patch list) list" where
  "end_entry f l = (if ct_kind f = BkLoop then [] else [(l, ct_end_patches f)])"

lemma open_pop:
  assumes o: "open_ok X (C @ [f]) (L @ [(l, els)]) ow env" and d: "dom ow = {l. l < length env \<and> env ! l = None}"
  shows "open_ok (else_entry els (ct_else_patch f) @ end_entry f l @ X) C L ow env" "els = None \<longleftrightarrow> ct_else_patch f = None"
    "ct_kind f = BkLoop \<Longrightarrow> ct_end_patches f = []"
proof -
  have f: "frame_ok ow env f (l, els)" and C: "list_all2 (frame_ok ow env) C L" and len: "length C = length L"
    using o by (auto simp: open_ok_def list_all2_append2 list_all2_Cons2 dest: list_all2_lengthD)
  show "els = None \<longleftrightarrow> ct_else_patch f = None" "ct_kind f = BkLoop \<Longrightarrow> ct_end_patches f = []" using f by (auto simp: frame_ok_def split: option.splits)
  have placed: "ow l = None" if "ct_kind f = BkLoop"
  proof -
    have "l \<notin> dom ow" using f that d by (auto simp: frame_ok_def)
    then show ?thesis by (simp add: domIff)
  qed
  have lab: "set (labels_of [(l, els)]) \<subseteq> insert l (fst ` set (else_entry els (ct_else_patch f)))" "distinct (labels_of [(l, els)])"
    using f o by (auto simp: else_entry_def frame_ok_def open_ok_def split: option.splits)
  have e: "\<forall>(k, ps) \<in> set (else_entry els (ct_else_patch f)). ow k = Some ps" "\<forall>(k, ps) \<in> set (end_entry f l). ow k = Some ps"
    using f by (auto simp: else_entry_def end_entry_def frame_ok_def split: option.splits)
  show "open_ok (else_entry els (ct_else_patch f) @ end_entry f l @ X) C L ow env"
    unfolding open_ok_def
  proof (intro conjI)
    show "\<forall>(k, ps) \<in> set (else_entry els (ct_else_patch f) @ end_entry f l @ X). ow k = Some ps" using e o by (auto simp: open_ok_def)
    show "distinct (labels_of L @ map fst (else_entry els (ct_else_patch f) @ end_entry f l @ X))"
      using o f by (auto simp: open_ok_def else_entry_def end_entry_def frame_ok_def split: option.splits)
    show "dom ow \<subseteq> set (labels_of L @ map fst (else_entry els (ct_else_patch f) @ end_entry f l @ X))"
    proof
      fix k assume k: "k \<in> dom ow"
      then have "k \<in> set (labels_of L) \<or> k \<in> set (labels_of [(l, els)]) \<or> k \<in> fst ` set X" using o by (auto simp: open_ok_def)
      moreover have "k = l \<Longrightarrow> ct_kind f \<noteq> BkLoop" using k placed by auto
      ultimately show "k \<in> set (labels_of L @ map fst (else_entry els (ct_else_patch f) @ end_entry f l @ X))"
        using lab(1) by (auto simp: end_entry_def)
    qed
  qed (rule C)
qed

lemma sim_pop:
  assumes s: "sim X t y" and ne: "tl_ctrl t \<noteq> []"
  obtains f l els t0 y0 where "last (tl_ctrl t) = f" "last (lb_frames y) = (l, els)" "els = None \<longleftrightarrow> ct_else_patch f = None" "ct_kind f = BkLoop \<longrightarrow> ct_end_patches f = []"
    "pop_frame_of msg t = (Inr f, t0)" "ref_pop_frame y = (Inr (strip f, l, els), y0)" "sim (else_entry els (ct_else_patch f) @ end_entry f l @ X) t0 y0"
    "fedges (lb_tr y0) = fedges (lb_tr y)" "next_ip t0 = next_ip t"
proof -
  obtain C ow where p: "t = relink (lb_env y) C (lb_tr y)" "map strip C = tl_ctrl (lb_tr y)" "based (lb_tr y)" "fusion_ok (lb_tr y)"
    "wired (fops (lb_tr y)) (fedges (lb_tr y)) ow (lb_env y)" "open_ok X C (lb_frames y) ow (lb_env y)"
    using s by (auto simp: sim_def)
  have C: "C \<noteq> []" "lb_frames y \<noteq> []" using ne p(1) open_ok_len [OF p(6)] by auto
  obtain D f where D: "C = D @ [f]" using C(1) by (metis append_butlast_last_id)
  obtain M l els where M: "lb_frames y = M @ [(l, els)]" using C(2) by (metis append_butlast_last_id surj_pair)
  note o = open_pop [OF p(6) [unfolded D M] wired_dom [OF p(5)]]
  let ?u = "(lb_tr y)\<lparr>tl_ctrl := butlast (tl_ctrl (lb_tr y))\<rparr>"
  let ?t0 = "relink (lb_env y) D ?u" and ?y0 = "y\<lparr>lb_tr := ?u, lb_frames := M\<rparr>"
  have ctrl: "tl_ctrl (lb_tr y) = map strip D @ [strip f]" using p(2) D by simp
  have lists: "fops ?u = fops (lb_tr y)" "fedges ?u = fedges (lb_tr y)" "based ?u" "fusion_ok ?u" "next_ip ?u = next_ip (lb_tr y)"
    using p(3,4) by (simp_all add: fops_def fedges_def based_def fusion_ok_def next_ip_def)
  have "sim (else_entry els (ct_else_patch f) @ end_entry f l @ X) ?t0 ?y0" unfolding sim_def
    using lists p(5) o(1) ctrl by (intro exI [of _ D] exI [of _ ow]) simp
  moreover have "pop_frame_of msg t = (Inr f, ?t0)" using D by (simp add: pop_frame_of_def p(1) relink_ctrl) (simp add: relink_def with_code_def)
  moreover have "ref_pop_frame y = (Inr (strip f, l, els), ?y0)" using ctrl M by (simp add: ref_pop_frame_def on_tr_def pop_frame_of_def)
  moreover have "next_ip ?t0 = next_ip t" using relink_lists(3) [OF lists(3)] lists(5) sim_scalars(3) [OF s] by simp
  moreover have "last (tl_ctrl t) = f" using p(1) D by simp
  ultimately show ?thesis using that [of f l els ?t0 ?y0] M o(2,3) lists(2) by simp
qed

lemma place_else:
  assumes s: "sim (else_entry els patch @ X) t y" and e: "els = None \<longleftrightarrow> patch = None"
  obtains t' y' where "(case patch of None \<Rightarrow> ret () | Some i \<Rightarrow> patch_ip (next_ip t) \<lparr>pt_op = i, pt_slot = PsSingle\<rparr>) t = (Inr (), t')"
    "place_opt els y = (Inr (), y')" "sim X t' y'" "lb_tr y' = lb_tr y" "lb_frames y' = lb_frames y" "tl_ctrl t' = tl_ctrl t" "next_ip t' = next_ip t"
proof (cases patch)
  case None
  then show ?thesis using that [of t y] s e by (simp add: else_entry_def place_opt_def)
next
  case (Some i)
  then obtain l where l: "els = Some l" using e by auto
  let ?p = "\<lparr>pt_op = i, pt_slot = PsSingle\<rparr>"
  have "sim ((l, [?p]) # X) t y" using s Some l by (simp add: else_entry_def)
  then obtain t' y' where "patch_all (next_ip t) [?p] t = (Inr (), t')" "place l y = (Inr (), y')" "sim X t' y'" "lb_tr y' = lb_tr y" "lb_frames y' = lb_frames y"
    "tl_ctrl t' = tl_ctrl t" "next_ip t' = next_ip t" by (rule sim_place)
  then show ?thesis using that [of t' y'] Some l by (simp add: place_opt_def)
qed

lemma place_end:
  assumes s: "sim (end_entry f l @ X) t y" and f: "ct_kind f = BkLoop \<longrightarrow> ct_end_patches f = []"
  obtains t' y' where "patch_all (next_ip t) (ct_end_patches f) t = (Inr (), t')" "(if ct_kind f = BkLoop then ret () else place l) y = (Inr (), y')"
    "sim X t' y'" "lb_tr y' = lb_tr y"
proof (cases "ct_kind f = BkLoop")
  case True
  then show ?thesis using that [of t y] s f by (simp add: end_entry_def)
next
  case False
  then have "sim ((l, ct_end_patches f) # X) t y" using s by (simp add: end_entry_def)
  then obtain t' y' where "patch_all (next_ip t) (ct_end_patches f) t = (Inr (), t')" "place l y = (Inr (), y')" "sim X t' y'" "lb_tr y' = lb_tr y" by (rule sim_place)
  then show ?thesis using that [of t' y'] False by simp
qed

lemma plain_getc:
  assumes "\<And>t env C. g (relink env C t) = g t" and "\<And>x. plain (f x)"
  shows "plain (bindc (getc g) f)"
  unfolding plain_def
proof (intro allI impI)
  fix t env C assume "based t"
  then show "plain_step t (snd (bindc (getc g) f t)) \<and> bindc (getc g) f (relink env C t) = (fst (bindc (getc g) f t), relink env C (snd (bindc (getc g) f t)))"
    using plainD [OF assms(2)] assms(1) by simp
qed

lemma plain_end:
  "plain (bindc (getc tl_reachable) (\<lambda>r. bindc (set_reachable (g r)) (\<lambda>_. set_height h)))"
  by (rule plain_getc) (simp, intro plain_intros)

lemma agree_end_block:
  assumes s: "sim X t y" and ne: "tl_ctrl t \<noteq> []"
  shows "agree 0 X end_block ref_end_block t y"
proof -
  obtain f l els t0 y0 where "last (tl_ctrl t) = f" "last (lb_frames y) = (l, els)" and p: "els = None \<longleftrightarrow> ct_else_patch f = None"
    "ct_kind f = BkLoop \<longrightarrow> ct_end_patches f = []" "pop_frame_of ''end without frame'' t = (Inr f, t0)" "ref_pop_frame y = (Inr (strip f, l, els), y0)"
    "sim (else_entry els (ct_else_patch f) @ end_entry f l @ X) t0 y0" "fedges (lb_tr y0) = fedges (lb_tr y)" "next_ip t0 = next_ip t"
    by (rule sim_pop [OF s ne])
  obtain t1 y1 where a: "(case ct_else_patch f of None \<Rightarrow> ret () | Some i \<Rightarrow> patch_ip (next_ip t0) \<lparr>pt_op = i, pt_slot = PsSingle\<rparr>) t0 = (Inr (), t1)"
    "place_opt els y0 = (Inr (), y1)" "sim (end_entry f l @ X) t1 y1" "lb_tr y1 = lb_tr y0" "next_ip t1 = next_ip t0" by (rule place_else [OF p(5,1)])
  obtain t2 y2 where b: "patch_all (next_ip t1) (ct_end_patches f) t1 = (Inr (), t2)" "(if ct_kind f = BkLoop then ret () else place l) y1 = (Inr (), y2)"
    "sim X t2 y2" "lb_tr y2 = lb_tr y1" by (rule place_end [OF a(3) p(2)])
  let ?r = "\<lambda>reachable. if ct_kind f = BkLoop then reachable else reachable \<or> ct_end_targeted f \<or> ct_else_patch f \<noteq> None"
  let ?rest = "bindc (getc tl_reachable) (\<lambda>reachable. bindc (set_reachable (?r reachable)) (\<lambda>_. set_height (ct_base_height f + ct_result_count f)))"
  have same: "ct_kind (strip f) = ct_kind f" "ct_end_targeted (strip f) = ct_end_targeted f" "ct_base_height (strip f) = ct_base_height f"
    "ct_result_count (strip f) = ct_result_count f" "els \<noteq> None \<longleftrightarrow> ct_else_patch f \<noteq> None" using p(1) by (simp_all add: strip_def)
  have "end_block t = ?rest t2" using p(3) a(1,5) b(1) unfolding end_block_def by simp
  moreover have "ref_end_block y = on_tr ?rest y2" using p(4) a(2) b(2) unfolding ref_end_block_def by (simp add: same p(1) del: not_None_eq cong: if_cong)
  moreover have "fedges (lb_tr y2) = fedges (lb_tr y)" using p(6) a(4) b(4) by simp
  ultimately show ?thesis by (rule agree_cong) (rule agree_plain [OF plain_end b(3)])
qed

text \<open>Only the set of the patches of a label matters.\<close>

lemma sim_patch_order:
  assumes s: "sim ((l, ps) # X) t y" and "set qs = set ps"
  shows "sim ((l, qs) # X) t y"
proof -
  obtain C ow where p: "t = relink (lb_env y) C (lb_tr y)" "map strip C = tl_ctrl (lb_tr y)" "based (lb_tr y)" "fusion_ok (lb_tr y)"
    "wired (fops (lb_tr y)) (fedges (lb_tr y)) ow (lb_env y)" "open_ok ((l, ps) # X) C (lb_frames y) ow (lb_env y)"
    using s by (auto simp: sim_def)
  have l: "ow l = Some ps" by (rule closing_rest(2) [OF p(6)])
  have "wired (fops (lb_tr y)) (fedges (lb_tr y)) (ow(l \<mapsto> qs)) (lb_env y)"
    using p(5) l assms(2) by (auto simp: wired_def covered_def)
  moreover have "open_ok ((l, qs) # X) C (lb_frames y) (ow(l \<mapsto> qs)) (lb_env y)"
    by (rule open_mono [OF p(6)]) (use p(6) closing_rest [OF p(6)] l in \<open>auto simp: open_ok_def\<close>)
  ultimately show ?thesis unfolding sim_def using p(1-4) by blast
qed

lemma agree_then:
  assumes "agree 0 X a b t y" and "\<And>x t' y'. sim X t' y' \<Longrightarrow> agree d Y (f x) (g x) t' y'"
  shows "agree d Y (bindc a f) (bindc b g) t y"
  using agree_bind [OF assms(1), of d Y f g] assms(2) by simp

lemma agree_landing_pads: "sim X t y \<Longrightarrow> agree 0 X (landing_pads ctx h cs) (ref_landing_pads ctx h cs) t y"
proof (induction cs arbitrary: t y)
  case (Cons c cs)
  show ?case unfolding landing_pads.simps ref_landing_pads.simps
  proof (rule agree_res, rule agree_plain_bind [OF plain_heights(3) Cons.prems], rule agree_branch, assumption, unfold prod.case)
    fix n t y bt fr i assume s: "sim X t y" and hit: "hits t i bt fr"
    let ?rec = "\<lambda>ip. \<lparr>hr_tag = hc_tag c, hr_restore_height = h, hr_payload_args = hc_payload_args c, hr_payload_ref = hc_payload_ref c, hr_landing_ip = ip\<rparr>"
    have rest: "agree 0 X (bindc (landing_pads ctx h cs) (\<lambda>recs. ret (?rec ip # recs))) (bindc (ref_landing_pads ctx h cs) (\<lambda>recs. ret (?rec ip # recs))) t2 y2"
      if "sim X t2 y2" for ip t2 y2 by (rule agree_then [OF Cons.IH [OF that]]) (rule agree_ret)
    show "agree 0 X (bindc (getc next_ip) (\<lambda>ip. bindc (emit (OpBr bt)) (\<lambda>_. bindc (register_branch fr ip PsSingle) (\<lambda>_.
         bindc (landing_pads ctx h cs) (\<lambda>recs. ret (?rec ip # recs))))))
       (bindc (getc (\<lambda>y. next_ip (lb_tr y))) (\<lambda>ip. bindc (on_tr (emit (OpBr (bt\<lparr>bt_ip := fst (lb_frames y ! i)\<rparr>)))) (\<lambda>_. bindc (targeted fr) (\<lambda>_.
         bindc (ref_landing_pads ctx h cs) (\<lambda>recs. ret (?rec ip # recs)))))) t y"
      by (rule agree_run [OF getc_apply getc_apply refl], unfold sim_scalars(3) [OF s, symmetric])
        (rule agree_emit [OF s hit branching_ops(1) refl rest])
  qed
qed (simp add: agree_ret)

lemma plain_handlers: "plain (putc (\<lambda>t. t\<lparr>tl_code := (tl_code t)\<lparr>ca_handlers := ca_handlers (tl_code t) @ hs\<rparr>\<rparr>))"
  by (rule plain_put) (simp_all add: relink_def with_code_def fops_def fedges_def)

lemma else_only_in_if:
  assumes s: "sim X t y" and ne: "tl_ctrl t \<noteq> []" and kind: "ct_kind (last (tl_ctrl t)) \<noteq> BkIf"
  shows "ct_else_patch (last (tl_ctrl t)) = None"
proof -
  obtain C ow where p: "t = relink (lb_env y) C (lb_tr y)" "open_ok X C (lb_frames y) ow (lb_env y)" using s by (auto simp: sim_def)
  have C: "tl_ctrl t = C" using p(1) by simp
  have "frame_ok ow (lb_env y) (last C) (lb_frames y ! (length C - 1))" using open_ok_nth [OF p(2), of "length C - 1"] ne C by (simp add: last_conv_nth)
  then show ?thesis using kind C by (auto simp: frame_ok_def split: prod.splits option.splits)
qed

lemma agree_end_try:
  assumes s: "sim X t y" and ne: "tl_ctrl t \<noteq> []" and kind: "ct_kind (last (tl_ctrl t)) = BkTryTable"
  shows "agree 0 X (end_try_table ctx) (ref_end_try ctx) t y"
proof -
  obtain f l els t0 y0 where f: "last (tl_ctrl t) = f" "last (lb_frames y) = (l, els)" and p: "els = None \<longleftrightarrow> ct_else_patch f = None"
    "ct_kind f = BkLoop \<longrightarrow> ct_end_patches f = []" "pop_frame_of ''try_table frame'' t = (Inr f, t0)" "ref_pop_frame y = (Inr (strip f, l, els), y0)"
    "sim (else_entry els (ct_else_patch f) @ end_entry f l @ X) t0 y0" "fedges (lb_tr y0) = fedges (lb_tr y)" "next_ip t0 = next_ip t"
    by (rule sim_pop [OF s ne])
  have s0: "sim ((l, ct_end_patches f) # X) t0 y0" using p(1,5) else_only_in_if [OF s ne] kind f(1) by (simp add: else_entry_def end_entry_def)
  have same: "ct_base_height (strip f) = ct_base_height f" "ct_result_count (strip f) = ct_result_count f" "ct_clauses (strip f) = ct_clauses f"
    "ct_end_targeted (strip f) = ct_end_targeted f" "ct_start_ip (strip f) = ct_start_ip f" by (simp_all add: strip_def)
  let ?ip = "next_ip t0" and ?p = "\<lparr>pt_op = next_ip t0, pt_slot = PsSingle\<rparr>"
  let ?last = "\<lambda>recs. bindc (putc (\<lambda>t. t\<lparr>tl_code := (tl_code t)\<lparr>ca_handlers := ca_handlers (tl_code t) @
       [\<lparr>hs_start_ip = ct_start_ip f, hs_end_ip = ?ip, hs_clauses = recs\<rparr>]\<rparr>\<rparr>)) (\<lambda>_.
     bindc (getc tl_reachable) (\<lambda>reachable. bindc (set_reachable (reachable \<or> ct_end_targeted f)) (\<lambda>_. set_height (ct_base_height f + ct_result_count f))))"
  have last: "agree 0 X (bindc (getc next_ip) (\<lambda>cont. bindc (patch_ip cont ?p) (\<lambda>_. bindc (patch_all cont (ct_end_patches f)) (\<lambda>_. ?last recs))))
      (bindc (place l) (\<lambda>_. on_tr (?last recs))) t2 y2" if s2: "sim ((l, ct_end_patches f @ [?p]) # X) t2 y2" for recs t2 y2
  proof -
    have "sim ((l, ?p # ct_end_patches f) # X) t2 y2" by (rule sim_patch_order [OF s2]) simp
    then obtain t3 y3 where q: "patch_all (next_ip t2) (?p # ct_end_patches f) t2 = (Inr (), t3)" "place l y2 = (Inr (), y3)" "sim X t3 y3" "lb_tr y3 = lb_tr y2"
      "lb_frames y3 = lb_frames y2" "tl_ctrl t3 = tl_ctrl t2" "next_ip t3 = next_ip t2" by (rule sim_place)
    obtain t4 where t4: "patch_ip (next_ip t2) ?p t2 = (Inr (), t4)" "patch_all (next_ip t2) (ct_end_patches f) t4 = (Inr (), t3)" using q(1) by (auto simp: bindc_eq_Inr)
    have "plain (?last recs)" by (intro plain_bind plain_handlers plain_end)
    from agree_plain [OF this q(3)] show ?thesis by (rule agree_cong [rotated 3]) (use t4 q(2,4) in simp_all)
  qed
  show ?thesis unfolding end_try_table_def ref_end_try_def
  proof (rule agree_run, rule p(3), rule p(4), rule p(6), unfold prod.case same, rule agree_run [OF getc_apply getc_apply refl], unfold sim_scalars(3) [OF s0, symmetric], rule agree_res, clarify)
    fix keep pop
    obtain t1 y1 where e: "emit (OpBr \<lparr>bt_ip = 0, bt_keep = keep, bt_pop = 0\<rparr>) t0 = (Inr (), t1)"
      "on_tr (emit (OpBr (\<lparr>bt_ip = 0, bt_keep = keep, bt_pop = 0\<rparr>\<lparr>bt_ip := l\<rparr>))) y0 = (Inr (), y1)"
      "sim ((l, ct_end_patches f @ [?p]) # X) t1 y1" "fedges (lb_tr y1) = fedges (lb_tr y0)"
      by (rule sim_emit_closing [OF s0 branching_ops(1), of "\<lparr>bt_ip = 0, bt_keep = keep, bt_pop = 0\<rparr>"]) simp
    have "agree 0 X (bindc (landing_pads ctx (ct_base_height f) (ct_clauses f)) (\<lambda>recs. bindc (getc next_ip) (\<lambda>cont. bindc (patch_ip cont ?p) (\<lambda>_.
         bindc (patch_all cont (ct_end_patches f)) (\<lambda>_. ?last recs)))))
      (bindc (ref_landing_pads ctx (ct_base_height f) (ct_clauses f)) (\<lambda>recs. bindc (place l) (\<lambda>_. on_tr (?last recs)))) t1 y1"
      by (rule agree_then [OF agree_landing_pads [OF e(3)]]) (rule last)
    then show "agree 0 X (bindc (emit (OpBr \<lparr>bt_ip = 0, bt_keep = keep, bt_pop = 0\<rparr>)) (\<lambda>_.
        bindc (landing_pads ctx (ct_base_height f) (ct_clauses f)) (\<lambda>recs. bindc (getc next_ip) (\<lambda>cont. bindc (patch_ip cont ?p) (\<lambda>_.
         bindc (patch_all cont (ct_end_patches f)) (\<lambda>_. ?last recs))))))
      (bindc (on_tr (emit (OpBr \<lparr>bt_ip = l, bt_keep = keep, bt_pop = 0\<rparr>))) (\<lambda>_.
        bindc (ref_landing_pads ctx (ct_base_height f) (ct_clauses f)) (\<lambda>recs. bindc (place l) (\<lambda>_. on_tr (?last recs))))) t0 y0"
      using e(1,2,4) by (simp add: agree_run)
  qed
qed

lemma sim_last:
  assumes s: "sim X t y" and ne: "tl_ctrl t \<noteq> []"
  shows "tl_ctrl (lb_tr y) \<noteq> []" "last (tl_ctrl (lb_tr y)) = strip (last (tl_ctrl t))"
proof -
  show n: "tl_ctrl (lb_tr y) \<noteq> []" using sim_scalars(5) [OF s] ne by auto
  show "last (tl_ctrl (lb_tr y)) = strip (last (tl_ctrl t))"
    using sim_scalars(8) [OF s, of "length (tl_ctrl t) - 1"] sim_scalars(5) [OF s] ne n by (simp add: last_conv_nth)
qed

lemma agree_end: "sim X t y \<Longrightarrow> agree 0 X (do_end ctx) (ref_end ctx) t y"
  unfolding do_end_def ref_end_def
proof (rule agree_plain_bind [OF plain_heights(5)], assumption)
  fix t y assume s: "sim X t y"
  let ?a = "\<lambda>f. if ct_kind f = BkTryTable \<and> ct_reachable_on_entry f then end_try_table ctx else end_block"
  let ?b = "\<lambda>f. if ct_kind f = BkTryTable \<and> ct_reachable_on_entry f then ref_end_try ctx else ref_end_block"
  show "agree 0 X (bindc (last_frame_of ''end without frame'') ?a) (bindc (on_tr (last_frame_of ''end without frame'')) ?b) t y"
  proof (cases "tl_ctrl t = []")
    case True
    then have "tl_ctrl (lb_tr y) = []" using sim_scalars(5) [OF s] by simp
    then show ?thesis using True by (intro agree_fail) (simp_all add: last_frame_of_def on_tr_def)
  next
    case False
    let ?f = "last (tl_ctrl t)"
    note g = sim_last [OF s False]
    have "agree 0 X (?a ?f) (?b (strip ?f)) t y"
      using agree_end_try [OF s False] agree_end_block [OF s False] by (simp add: strip_def)
    then show ?thesis using False g by (intro agree_run [where x = ?f and z = "strip ?f" and t' = t and y' = y]) (simp_all add: last_frame_of_def on_tr_def)
  qed
qed

lemma sim_else:
  assumes s: "sim X t y" and C: "tl_ctrl t = D @ [f]" and L: "lb_frames y = M @ [(l, els)]"
  shows "\<exists>t1 t' y1 y'. (case ct_else_patch f of None \<Rightarrow> ret () | Some i \<Rightarrow> patch_ip (next_ip t) \<lparr>pt_op = i, pt_slot = PsSingle\<rparr>) t = (Inr (), t1) \<and>
    last_mut (\<lambda>f. f\<lparr>ct_else_patch := None\<rparr>) t1 = (Inr (), t') \<and> place_opt els y = (Inr (), y1) \<and> y' = y1\<lparr>lb_frames := butlast (lb_frames y1) @ [(l, None)]\<rparr> \<and>
    sim X t' y' \<and> lb_tr y' = lb_tr y"
proof -
  obtain ow where p: "t = relink (lb_env y) (D @ [f]) (lb_tr y)" "map strip (D @ [f]) = tl_ctrl (lb_tr y)" "based (lb_tr y)" "fusion_ok (lb_tr y)"
    "wired (fops (lb_tr y)) (fedges (lb_tr y)) ow (lb_env y)" "open_ok X (D @ [f]) (M @ [(l, els)]) ow (lb_env y)"
    using s C L by (auto simp: sim_def)
  let ?u = "lb_tr y" and ?f = "f\<lparr>ct_else_patch := None\<rparr>"
  have st: "map strip (D @ [?f]) = tl_ctrl ?u" using p(2) by (simp add: strip_def)
  have fm: "last_mut (\<lambda>f. f\<lparr>ct_else_patch := None\<rparr>) (relink env (D @ [f]) ?u) = (Inr (), relink env (D @ [?f]) ?u)" for env
    using frame_mut_relink [of "length D" "D @ [f]" "\<lambda>f. f\<lparr>ct_else_patch := None\<rparr>" env ?u] by (simp add: last_mut_def)
  have fr: "frame_ok ow (lb_env y) f (l, els)" and old: "list_all2 (frame_ok ow (lb_env y)) D M"
    using p(6) by (auto simp: open_ok_def list_all2_append2 list_all2_Cons2)
  show ?thesis
  proof (cases els)
    case None
    then have e: "ct_else_patch f = None" using fr by (simp add: frame_ok_def)
    then have f: "?f = f" by simp
    have y: "y\<lparr>lb_frames := butlast (lb_frames y) @ [(l, None)]\<rparr> = y" using L None by (metis butlast_snoc labelled.surjective labelled.update_convs(2))
    show ?thesis using fm [of "lb_env y", unfolded f] p(1) s e None y by (intro exI [of _ t] exI [of _ y]) (simp add: place_opt_def)
  next
    case (Some e)
    then obtain i where i: "ct_else_patch f = Some i" "ow e = Some [\<lparr>pt_op = i, pt_slot = PsSingle\<rparr>]" "e < length (lb_env y)" using fr by (auto simp: frame_ok_def)
    let ?p = "\<lparr>pt_op = i, pt_slot = PsSingle\<rparr>" and ?env = "(lb_env y)[e := Some (next_ip t)]"
    have "frame_ok ow (lb_env y) ?f (l, None)" using fr by (simp add: frame_ok_def)
    moreover have "distinct (labels_of (M @ [(l, els)]) @ map fst X)" "dom ow \<subseteq> set (labels_of (M @ [(l, els)]) @ map fst X)" "\<forall>(k, ps) \<in> set X. ow k = Some ps"
      using p(6) by (simp_all add: open_ok_def)
    ultimately have "open_ok ((e, [?p]) # X) (D @ [?f]) (M @ [(l, None)]) ow (lb_env y)"
      using old i(2) Some unfolding open_ok_def by (auto simp: list_all2_appendI)
    from open_place [OF this p(5)] have o: "open_ok X (D @ [?f]) (M @ [(l, None)]) (ow(e := None)) ?env" .
    have a: "patch_all (next_ip t) [?p] t = (Inr (), relink ?env (D @ [f]) ?u)" unfolding p(1) by (rule patch_all_relink [OF p(3,5) i(2)])
    have n: "next_ip ?u = next_ip t" using sim_scalars(3) [OF s] by simp
    have "sim X (relink ?env (D @ [?f]) ?u) (y\<lparr>lb_env := ?env, lb_frames := M @ [(l, None)]\<rparr>)" unfolding sim_def
      using st p(3,4) o wired_place [OF p(5) i(3), of "next_ip t"] by (intro exI [of _ "D @ [?f]"] exI [of _ "ow(e := None)"]) simp
    moreover have "place e y = (Inr (), y\<lparr>lb_env := ?env\<rparr>)" by (simp add: place_def n)
    ultimately show ?thesis using a fm [of ?env] L Some i(1) by (simp add: place_opt_def)
  qed
qed

lemma else_branch:
  assumes s: "sim X t y" and C: "tl_ctrl t = D @ [f]" and L: "lb_frames y = M @ [(l, els)]" and kind: "ct_kind f \<noteq> BkLoop"
  obtains t1 t' y1 y' f' where "emit (OpBr \<lparr>bt_ip = 0, bt_keep = keep, bt_pop = 0\<rparr>) t = (Inr (), t1)"
    "last_mut (add_patch \<lparr>pt_op = next_ip t, pt_slot = PsSingle\<rparr>) t1 = (Inr (), t')" "on_tr (emit (OpBr \<lparr>bt_ip = l, bt_keep = keep, bt_pop = 0\<rparr>)) y = (Inr (), y1)"
    "on_tr (last_mut (\<lambda>f. f\<lparr>ct_end_targeted := True\<rparr>)) y1 = (Inr (), y')" "sim X t' y'" "fedges (lb_tr y') = fedges (lb_tr y)" "tl_ctrl t' = D @ [f']"
    "ct_else_patch f' = ct_else_patch f" "lb_frames y' = lb_frames y"
proof -
  let ?bt = "\<lparr>bt_ip = 0, bt_keep = keep, bt_pop = 0\<rparr>" and ?i = "length D" and ?p = "\<lparr>pt_op = next_ip t, pt_slot = PsSingle\<rparr>"
  have h: "hits t ?i ?bt (Some ?i)" using C kind by (simp add: hits_def)
  have len: "length M = ?i" using sim_scalars(4) [OF s] C L by simp
  obtain t1 t' y1 y' where e: "emit (OpBr ?bt) t = (Inr (), t1)" "register_branch (Some ?i) (next_ip t) PsSingle t1 = (Inr (), t')"
    "on_tr (emit (OpBr (?bt\<lparr>bt_ip := fst (lb_frames y ! ?i)\<rparr>))) y = (Inr (), y1)" "targeted (Some ?i) y1 = (Inr (), y')" "sim X t' y'"
    "fedges (lb_tr y') = fedges (lb_tr y)" using sim_emit_at [OF s h branching_ops(1)] by blast
  have c1: "tl_ctrl t1 = D @ [f]" using e(1) C by (auto simp: emit_def set_ops_def)
  have c2: "length (tl_ctrl (lb_tr y1)) = Suc ?i" "lb_frames y1 = lb_frames y" using e(3) C sim_scalars(5) [OF s] by (auto simp: on_tr_def emit_def set_ops_def)
  have c3: "tl_ctrl t' = D @ [add_patch ?p f]" using e(2) c1 by (auto simp: register_branch_def frame_mut_def index_at_def)
  have c4: "lb_frames y' = lb_frames y" using e(4) c2 by (auto simp: targeted_def on_tr_def split: prod.splits)
  have "last_mut (add_patch ?p) t1 = (Inr (), t')" using e(2) c1 by (simp add: last_mut_def register_branch_def)
  moreover have "on_tr (last_mut (\<lambda>f. f\<lparr>ct_end_targeted := True\<rparr>)) y1 = (Inr (), y')" using e(4) c2(1) by (simp add: targeted_def on_tr_def last_mut_def)
  moreover have "on_tr (emit (OpBr \<lparr>bt_ip = l, bt_keep = keep, bt_pop = 0\<rparr>)) y = (Inr (), y1)" using e(3) L len by (simp add: nth_append)
  ultimately show ?thesis using that e(1,5,6) c3 c4 by (simp add: add_patch_def)
qed

lemma agree_else:
  assumes s: "sim X t y" and kind: "tl_ctrl t \<noteq> []" "ct_kind (last (tl_ctrl t)) \<noteq> BkLoop"
  shows "agree 0 X do_else ref_else t y"
proof -
  obtain t0 y0 where n: "no_fusion t = (Inr (), t0)" "on_tr no_fusion y = (Inr (), y0)" "sim X t0 y0" "tl_fusable_cmp t0 = None" "tl_ctrl t0 = tl_ctrl t"
    "fops (lb_tr y0) = fops (lb_tr y)" "fedges (lb_tr y0) = fedges (lb_tr y)" "lb_env y0 = lb_env y" "lb_frames y0 = lb_frames y" "next_ip t0 = next_ip t"
    by (rule sim_no_fusion [OF s])
  obtain D f where C: "tl_ctrl t0 = D @ [f]" using kind(1) n(5) by (metis append_butlast_last_id)
  have "lb_frames y0 \<noteq> []" using sim_scalars(4) [OF n(3)] C by auto
  then obtain M l els where L: "lb_frames y0 = M @ [(l, els)]" by (metis append_butlast_last_id surj_pair)
  have k: "ct_kind f \<noteq> BkLoop" using kind(2) C n(5) by simp
  note g = sim_last [OF n(3)]
  have la: "last_frame_of ''else without if'' t0 = (Inr f, t0)" using C by (simp add: last_frame_of_def)
  have lb: "on_tr (last_frame_of ''else without if'') y0 = (Inr (strip f), y0)" using C g by (simp add: last_frame_of_def on_tr_def)
  have same: "ct_result_count (strip f) = ct_result_count f" "ct_reachable_on_entry (strip f) = ct_reachable_on_entry f" "ct_base_height (strip f) = ct_base_height f"
    "ct_param_count (strip f) = ct_param_count f" by (simp_all add: strip_def)
  let ?tail = "bindc (set_reachable (ct_reachable_on_entry f)) (\<lambda>_. set_height (ct_base_height f + ct_param_count f))"
  let ?a = "bindc (case ct_else_patch f of None \<Rightarrow> ret ()
       | Some i \<Rightarrow> bindc (getc next_ip) (\<lambda>else_start. patch_ip else_start \<lparr>pt_op = i, pt_slot = PsSingle\<rparr>)) (\<lambda>_.
     bindc (last_mut (\<lambda>f. f\<lparr>ct_else_patch := None\<rparr>)) (\<lambda>_. ?tail))"
  let ?b = "bindc (place_opt els) (\<lambda>_. bindc (putc (\<lambda>y. y\<lparr>lb_frames := butlast (lb_frames y) @ [(l, None)]\<rparr>)) (\<lambda>_.
     bindc (on_tr (set_reachable (ct_reachable_on_entry f))) (\<lambda>_. on_tr (set_height (ct_base_height f + ct_param_count f)))))"
  have rest: "agree 0 X ?a ?b t2 y2" if s2: "sim X t2 y2" and C2: "tl_ctrl t2 = D @ [f2]" "ct_else_patch f2 = ct_else_patch f" and L2: "lb_frames y2 = M @ [(l, els)]" for t2 y2 f2
  proof -
    obtain t3 t4 y3 y4 where e: "(case ct_else_patch f of None \<Rightarrow> ret () | Some i \<Rightarrow> patch_ip (next_ip t2) \<lparr>pt_op = i, pt_slot = PsSingle\<rparr>) t2 = (Inr (), t3)"
      "last_mut (\<lambda>f. f\<lparr>ct_else_patch := None\<rparr>) t3 = (Inr (), t4)" "place_opt els y2 = (Inr (), y3)" "y4 = y3\<lparr>lb_frames := butlast (lb_frames y3) @ [(l, None)]\<rparr>"
      "sim X t4 y4" "lb_tr y4 = lb_tr y2" using sim_else [OF s2 C2(1) L2] unfolding C2(2) by (elim exE conjE) (rule that)
    have tail: "agree 0 X ?tail (bindc (on_tr (set_reachable (ct_reachable_on_entry f))) (\<lambda>_. on_tr (set_height (ct_base_height f + ct_param_count f)))) t4 y4"
      by (rule agree_plain_bind [OF plain_heights(4) e(5)]) (rule agree_plain [OF plain_heights(3)])
    have "(case ct_else_patch f of None \<Rightarrow> ret () | Some i \<Rightarrow> bindc (getc next_ip) (\<lambda>else_start. patch_ip else_start \<lparr>pt_op = i, pt_slot = PsSingle\<rparr>)) t2 = (Inr (), t3)"
      using e(1) by (cases "ct_else_patch f") simp_all
    then have a: "?a t2 = ?tail t4" using e(2) by simp
    have b: "?b y2 = bindc (on_tr (set_reachable (ct_reachable_on_entry f))) (\<lambda>_. on_tr (set_height (ct_base_height f + ct_param_count f))) y4"
      using e(3,4) by simp
    show ?thesis using tail unfolding agree_def a b e(6) .
  qed
  let ?ga = "\<lambda>r. if r then bindc (getc next_ip) (\<lambda>i. bindc (lift_res (fixup (ct_result_count f) 0)) (\<lambda>(keep, _).
         bindc (emit (OpBr \<lparr>bt_ip = 0, bt_keep = keep, bt_pop = 0\<rparr>)) (\<lambda>_. last_mut (add_patch \<lparr>pt_op = i, pt_slot = PsSingle\<rparr>))))
       else ret ()"
  let ?gb = "\<lambda>r. if r then bindc (lift_res (fixup (ct_result_count f) 0)) (\<lambda>(keep, _).
         bindc (on_tr (emit (OpBr \<lparr>bt_ip = l, bt_keep = keep, bt_pop = 0\<rparr>))) (\<lambda>_. on_tr (last_mut (\<lambda>f. f\<lparr>ct_end_targeted := True\<rparr>))))
       else ret ()"
  have br: "agree 0 X (bindc (?ga r) (\<lambda>_. ?a)) (bindc (?gb r) (\<lambda>_. ?b)) t0 y0" for r
  proof (cases "r \<and> (\<exists>kp. fixup (ct_result_count f) 0 = Inr kp)")
    case True
    then obtain keep pop where kp: "fixup (ct_result_count f) 0 = Inr (keep, pop)" and r: "r = True" by auto
    obtain t1 t' y1 y' f' where e: "emit (OpBr \<lparr>bt_ip = 0, bt_keep = keep, bt_pop = 0\<rparr>) t0 = (Inr (), t1)"
      "last_mut (add_patch \<lparr>pt_op = next_ip t0, pt_slot = PsSingle\<rparr>) t1 = (Inr (), t')" "on_tr (emit (OpBr \<lparr>bt_ip = l, bt_keep = keep, bt_pop = 0\<rparr>)) y0 = (Inr (), y1)"
      "on_tr (last_mut (\<lambda>f. f\<lparr>ct_end_targeted := True\<rparr>)) y1 = (Inr (), y')" "sim X t' y'" "fedges (lb_tr y') = fedges (lb_tr y0)" "tl_ctrl t' = D @ [f']"
      "ct_else_patch f' = ct_else_patch f" "lb_frames y' = lb_frames y0" by (rule else_branch [OF n(3) C L k])
    have a: "bindc (?ga r) (\<lambda>_. ?a) t0 = ?a t'" using e(1,2) kp r by simp
    have b: "bindc (?gb r) (\<lambda>_. ?b) y0 = ?b y'" using e(3,4) kp r by simp
    show ?thesis using rest [OF e(5,7,8) e(9) [unfolded L]] unfolding agree_def a b e(6) .
  next
    case False
    show ?thesis
    proof (cases r)
      case True
      then obtain e where "fixup (ct_result_count f) 0 = Inl e" using False by (cases "fixup (ct_result_count f) 0") auto
      then show ?thesis using True by (intro agree_fail) simp_all
    next
      case False
      have a: "bindc (?ga r) (\<lambda>_. ?a) t0 = ?a t0" "bindc (?gb r) (\<lambda>_. ?b) y0 = ?b y0" using False by simp_all
      show ?thesis using rest [OF n(3) C refl L] unfolding agree_def a .
    qed
  qed
  have a: "do_else t = bindc (?ga (tl_reachable t0)) (\<lambda>_. ?a) t0" using n(1) la unfolding do_else_def by simp
  have b: "ref_else y = bindc (?gb (tl_reachable t0)) (\<lambda>_. ?b) y0" using n(2) lb L sim_scalars(1) [OF n(3)] unfolding ref_else_def by (simp add: same)
  show ?thesis using br [of "tl_reachable t0"] unfolding agree_def a b n(7) .
qed

end
