(* ===== verification/Lower_Equiv.thy ===== *)
theory Lower_Equiv
  imports Lower_Blocks
begin

text \<open>
  The translator, with its dummy targets and patches, and the assembler with labels compile a body to the same code.
\<close>

section \<open>Nesting\<close>

text \<open>What the validator guarantees of an accepted body: no operator follows the end of the function, and \<^verbatim>\<open>else\<close> stands in an \<^verbatim>\<open>if\<close>.\<close>

definition kinds_after :: "operator \<Rightarrow> block_kind list \<Rightarrow> block_kind list" where
  "kinds_after op ks = (case op of VBlock _ \<Rightarrow> ks @ [BkBlock] | VLoop _ \<Rightarrow> ks @ [BkLoop] | VIf _ \<Rightarrow> ks @ [BkIf] | VTryTable _ _ \<Rightarrow> ks @ [BkTryTable]
     | VEnd \<Rightarrow> butlast ks | _ \<Rightarrow> ks)"

fun nested :: "block_kind list \<Rightarrow> (error + operator) list \<Rightarrow> bool" where
  "nested ks [] = True"
| "nested ks (Inl e # ds) = True"
| "nested ks (Inr op # ds) = (ks \<noteq> [] \<and> (op = VElse \<longrightarrow> last ks = BkIf) \<and> nested (kinds_after op ks) ds)"

definition kinds :: "translator \<Rightarrow> block_kind list" where
  "kinds t = map ct_kind (tl_ctrl t)"

definition moves :: "block_kind list \<Rightarrow> block_kind list \<Rightarrow> 'a lowering \<Rightarrow> bool" where
  "moves ks ks' a \<longleftrightarrow> (\<forall>t x t'. kinds t = ks \<longrightarrow> a t = (Inr x, t') \<longrightarrow> kinds t' = ks')"

named_theorems moves_intros

lemma moves_bind: "moves ks ks1 a \<Longrightarrow> (\<And>x. moves ks1 ks2 (f x)) \<Longrightarrow> moves ks ks2 (bindc a f)"
  unfolding moves_def bindc_eq_Inr by blast

lemma moves_then [moves_intros]: "moves ks ks a \<Longrightarrow> (\<And>x. moves ks ks' (f x)) \<Longrightarrow> moves ks ks' (bindc a f)"
  by (rule moves_bind)

lemma moves_read [moves_intros]: "moves ks ks (\<lambda>t. (g t, t))"
  by (simp add: moves_def)

lemma moves_simple [moves_intros]: "moves ks ks (ret x)" "moves ks ks' (fail e)" "moves ks ks (lift_res r)" "moves ks ks (getc g)" "moves ks ks (Pair r)"
  by (simp_all add: moves_def)

lemma moves_split [moves_intros]: "(\<And>x y. moves ks ks' (f x y)) \<Longrightarrow> moves ks ks' (case p of (x, y) \<Rightarrow> f x y)"
  by (cases p) simp

lemma moves_option [moves_intros]: "moves ks ks' a \<Longrightarrow> (\<And>x. moves ks ks' (f x)) \<Longrightarrow> moves ks ks' (case o' of None \<Rightarrow> a | Some x \<Rightarrow> f x)"
  by (cases o') simp_all

lemma moves_if [moves_intros]: "moves ks ks' a \<Longrightarrow> moves ks ks' b \<Longrightarrow> moves ks ks' (if c then a else b)"
  by simp

lemma moves_put: "(\<And>t. tl_ctrl (f t) = tl_ctrl t) \<Longrightarrow> moves ks ks (putc f)"
  by (simp add: moves_def kinds_def)

lemma moves_state [moves_intros]:
  "moves ks ks (emit op)" "moves ks ks (hpush n)" "moves ks ks (hpop n)" "moves ks ks (set_height h)" "moves ks ks (set_reachable r)" "moves ks ks no_fusion"
  "moves ks ks (putc (\<lambda>t. t\<lparr>tl_code := c t\<rparr>))"
  unfolding emit_def hpush_def hpop_def set_height_def set_reachable_def no_fusion_def
  by (rule moves_put; simp add: latch_def set_ops_def split: option.split)+

lemma moves_frame: "(\<And>f. ct_kind (g f) = ct_kind f) \<Longrightarrow> moves ks ks (frame_mut i g)"
  by (auto simp: moves_def kinds_def frame_mut_def map_update index_at_def split: sum.splits if_splits) (metis list_update_id map_update nth_map)

lemma moves_code [moves_intros]:
  "moves ks ks (op_ref i)" "moves ks ks (op_mut i op)" "moves ks ks (push_edge bt)" "moves ks ks (edge_mut i g)" "moves ks ks (branch_target_at depth)"
  "moves ks ks (last_frame_of m)" "moves ks ks (height_below n)"
  by (auto simp: moves_def kinds_def op_ref_def op_mut_def push_edge_def edge_mut_def branch_target_at_def last_frame_of_def height_below_def latch_def
      set_ops_def set_edges_def index_at_def bindc_eq_Inr split: sum.splits if_splits option.splits)

lemma moves_patch [moves_intros]: "moves ks ks (patch_ip ip p)"
  unfolding patch_ip_def by (intro moves_intros) (auto split: op.split patch_slot.split intro!: moves_intros)

lemma moves_patches [moves_intros]: "moves ks ks (patch_all ip ps)"
  by (induction ps) (auto intro!: moves_intros)

lemma moves_last:
  assumes "\<And>f. ct_kind (g f) = ct_kind f"
  shows "moves ks ks (last_mut g)"
  unfolding moves_def last_mut_def using moves_frame [OF assms, of ks] unfolding moves_def by blast

lemma moves_mark [moves_intros]:
  "moves ks ks (frame_mut i (add_patch p))" "moves ks ks (last_mut (add_patch p))" "moves ks ks (last_mut (\<lambda>f. f\<lparr>ct_else_patch := None\<rparr>))"
  by (rule moves_frame moves_last, simp add: add_patch_def)+

lemma moves_register [moves_intros]: "moves ks ks (register_branch fr i slot)"
  by (auto simp: register_branch_def intro!: moves_intros)

lemma moves_tables [moves_intros]: "moves ks ks (table_edges k depths)" "moves ks ks (register_all n ps)"
  subgoal by (induction depths arbitrary: k) (auto intro!: moves_intros)
  subgoal by (induction ps) (auto intro!: moves_intros)
  done

lemma moves_pads [moves_intros]: "moves ks ks (landing_pads ctx h cs)"
  by (induction cs) (auto intro!: moves_intros)

lemma moves_push [moves_intros]: "moves ks (ks @ [kind]) (push_frame_of kind params results patch clauses)"
  unfolding push_frame_of_def by (rule moves_bind [OF moves_code(7)]) (simp add: moves_def kinds_def)

lemma moves_pop [moves_intros]: "moves ks (butlast ks) (pop_frame_of m)"
  by (auto simp: moves_def kinds_def pop_frame_of_def map_butlast split: if_splits)

lemma moves_branches [moves_intros]:
  "moves ks ks (lower_br depth)" "moves ks ks (lower_br_if depth)" "moves ks ks (lower_br_table cases dflt)" "moves ks ks lower_ret" "moves ks ks (lower_br_on_null depth)"
  "moves ks ks (lower_br_on_non_null depth)" "moves ks ks (lower_br_on_cast depth ty nullable on_fail)"
  unfolding lower_br_def lower_br_if_def lower_br_table_def lower_ret_def lower_br_on_null_def lower_br_on_non_null_def lower_br_on_cast_def Let_def
  by (intro moves_intros)+

lemma moves_ends: "moves ks (butlast ks) end_block" "moves ks (butlast ks) (end_try_table ctx)"
  unfolding end_block_def end_try_table_def by (rule moves_bind [OF moves_pop], intro moves_intros)+

lemma moves_blocks [moves_intros]:
  "moves ks (ks @ [kind]) (push_block ctx bt kind)" "moves ks (ks @ [BkIf]) (push_if ctx bt)" "moves ks (ks @ [BkTryTable]) (push_try_table ctx bt catches)"
  "moves ks ks do_else" "moves ks (butlast ks) (do_end ctx)"
  unfolding push_block_def push_if_def push_try_table_def do_else_def do_end_def open_if_def by (intro moves_intros moves_ends)+

lemma moves_reachable: "moves ks ks a \<Longrightarrow> moves ks ks (if_reachable a)"
  by (auto simp: moves_def if_reachable_def)

lemma moves_plain:
  assumes "plain a" and "sim X t y" and "a t = (Inr x, t')"
  shows "kinds t' = kinds t"
proof -
  obtain C where "t = relink (lb_env y) C (lb_tr y)" "based (lb_tr y)" using assms(2) by (auto simp: sim_def)
  then have "based t" using relink_lists(4) by metis
  then show ?thesis using plainD [OF assms(1), of t undefined undefined] assms(3) by (simp add: plain_step_def kinds_def)
qed

lemma visit_kinds:
  assumes "sim X t y" and "visit_operator ctx op t = (Inr x, t')"
  shows "kinds t' = kinds_after op (kinds t)"
proof (cases "straight op")
  case True
  then have "kinds_after op (kinds t) = kinds t" by (cases op) (simp_all add: straight_def kinds_after_def)
  then show ?thesis using moves_plain [OF plain_straight [OF True] assms] by simp
next
  case False
  have "moves ks (kinds_after op ks) (visit_operator ctx op)" for ks using False
    by (cases op) (simp_all add: straight_def kinds_after_def visit_operator_def visit_control_def visit_cast_branch_def moves_blocks moves_branches moves_reachable
        moves_intros)
  then show ?thesis using assms(2) by (auto simp: moves_def)
qed

section \<open>Operators\<close>

definition edges :: "operator \<Rightarrow> nat" where
  "edges op = (case op of VBrTable cases _ \<Rightarrow> Suc (length cases) | VBrOnCast _ _ \<Rightarrow> 1 | VBrOnCastFail _ _ \<Rightarrow> 1 | _ \<Rightarrow> 0)"

lemma agree_reachable: "(tl_reachable t \<Longrightarrow> agree d X a b t y) \<Longrightarrow> sim X t y \<Longrightarrow> agree d X (if_reachable a) (when_reachable b) t y"
proof (cases "tl_reachable t")
  case True
  assume a: "tl_reachable t \<Longrightarrow> agree d X a b t y" "sim X t y"
  then have e: "if_reachable a t = a t" "when_reachable b y = b y" using True sim_scalars(1) [OF a(2)] by (simp_all add: if_reachable_def when_reachable_def)
  show ?thesis using a(1) [OF True] unfolding agree_def e .
next
  case False
  assume s: "sim X t y"
  then show ?thesis using False sim_scalars(1) [OF s] by (simp add: agree_def if_reachable_def when_reachable_def)
qed

lemma agree_visit:
  assumes s: "sim X t y" and few: "length (fedges (lb_tr y)) < 2 ^ 31" and ks: "kinds t \<noteq> []" "hd (kinds t) \<noteq> BkLoop" "op = VElse \<longrightarrow> last (kinds t) = BkIf"
  shows "agree (edges op) X (visit_operator ctx op) (ref_visit ctx op) t y"
proof (cases "straight op")
  case True
  then have "ref_visit ctx op = on_tr (visit_operator ctx op)" by (cases op) (simp_all add: straight_def ref_visit_def)
  then show ?thesis using agree_plain [OF plain_straight [OF True] s] by simp
next
  case False
  have ne: "tl_ctrl t \<noteq> []" "ct_kind (tl_ctrl t ! 0) \<noteq> BkLoop" using ks(1,2) by (auto simp: kinds_def hd_map hd_conv_nth)
  have last: "op = VElse \<Longrightarrow> ct_kind (last (tl_ctrl t)) \<noteq> BkLoop" using ks(3) ne(1) by (auto simp: kinds_def last_map)
  note r = agree_reachable [OF _ s]
  show ?thesis using False
    by (cases op) (simp_all add: straight_def visit_operator_def visit_control_def ref_visit_def edges_def visit_cast_branch_def push_block_def push_try_table_def
        agree_push_block [OF s] agree_if [OF s] agree_else [OF s ne(1) last] agree_end [OF s] r agree_br [OF s] agree_br_if [OF s] agree_br_table [OF s]
        agree_return [OF s ne] agree_br_on_null [OF s] agree_br_on_non_null [OF s] agree_br_on_cast [OF s few, simplified])
qed

section \<open>Bodies\<close>

definition all_edges :: "(error + operator) list \<Rightarrow> nat" where
  "all_edges ds = sum_list (map (\<lambda>d. case d of Inl _ \<Rightarrow> 0 | Inr op \<Rightarrow> edges op) ds)"

lemma root_kept: "ks \<noteq> [] \<Longrightarrow> hd ks \<noteq> BkLoop \<Longrightarrow> kinds_after op ks \<noteq> [] \<Longrightarrow> hd (kinds_after op ks) \<noteq> BkLoop"
  by (cases op) (auto simp: kinds_after_def hd_append butlast_conv_take hd_take)

lemma agree_body:
  "sim [] t y \<Longrightarrow> nested (kinds t) ds \<Longrightarrow> (kinds t \<noteq> [] \<longrightarrow> hd (kinds t) \<noteq> BkLoop) \<Longrightarrow> length (fedges (lb_tr y)) + all_edges ds < 2 ^ 31 \<Longrightarrow>
    agree (all_edges ds) [] (lower_body ctx validate v ds) (ref_body ctx validate v ds) t y"
proof (induction ds arbitrary: t y v)
  case Nil
  then show ?case by (simp add: agree_def)
next
  case (Cons d ds)
  show ?case unfolding lower_body.simps ref_body.simps
  proof (rule agree_res, rule agree_res)
    fix op v' assume d: "d = Inr op"
    have n: "kinds t \<noteq> []" "op = VElse \<longrightarrow> last (kinds t) = BkIf" "nested (kinds_after op (kinds t)) ds" using Cons.prems(2) d by simp_all
    have e: "all_edges (d # ds) = edges op + all_edges ds" using d by (simp add: all_edges_def)
    have r: "hd (kinds t) \<noteq> BkLoop" using Cons.prems(3) n(1) by simp
    show "agree (all_edges (d # ds)) [] (bindc (visit_operator ctx op) (\<lambda>_. lower_body ctx validate v' ds)) (bindc (ref_visit ctx op) (\<lambda>_. ref_body ctx validate v' ds)) t y"
      unfolding e
    proof (rule agree_bind [OF agree_visit [OF Cons.prems(1) _ n(1) r n(2)]])
      show "length (fedges (lb_tr y)) < 2 ^ 31" using Cons.prems(4) by simp
      fix x t' y' assume a: "visit_operator ctx op t = (Inr x, t')" "sim [] t' y'" "length (fedges (lb_tr y')) \<le> length (fedges (lb_tr y)) + edges op"
      have k: "kinds t' = kinds_after op (kinds t)" by (rule visit_kinds [OF Cons.prems(1) a(1)])
      show "agree (all_edges ds) [] (lower_body ctx validate v' ds) (ref_body ctx validate v' ds) t' y'"
        by (rule Cons.IH [OF a(2)]) (use k n r root_kept [of "kinds t" op] a(3) Cons.prems(4) e in auto)
    qed
  qed
qed

lemma sim_start: "sim [] (snd (push_func_frame n (translator_new code))) (labelled_new n code)"
  unfolding sim_def
proof (intro exI conjI)
  let ?f = "\<lparr>ct_kind = BkBlock, ct_base_height = 0, ct_param_count = 0, ct_result_count = n, ct_start_ip = 0, ct_end_patches = [], ct_else_patch = None,
     ct_reachable_on_entry = True, ct_end_targeted = False, ct_clauses = []\<rparr>"
  let ?y = "labelled_new n code"
  have l: "fops (lb_tr ?y) = []" "fedges (lb_tr ?y) = []" "lb_env ?y = [None]" "lb_frames ?y = [(0, None)]"
    by (simp_all add: labelled_new_def fops_def fedges_def push_func_frame_def translator_new_def)
  show "snd (push_func_frame n (translator_new code)) = relink (lb_env ?y) [?f] (lb_tr ?y)" unfolding relink_def l
    by (simp add: labelled_new_def with_code_def push_func_frame_def translator_new_def)
  show "map strip [?f] = tl_ctrl (lb_tr ?y)" by (simp add: labelled_new_def strip_def push_func_frame_def translator_new_def)
  show "based (lb_tr ?y)" "fusion_ok (lb_tr ?y)" by (simp_all add: labelled_new_def based_def fusion_ok_def push_func_frame_def translator_new_def)
  have none: "label_at [] [] x = None" for x by (cases x) simp_all
  show "wired (fops (lb_tr ?y)) (fedges (lb_tr ?y)) [0 \<mapsto> []] (lb_env ?y)" unfolding l by (auto simp: wired_def covered_def none)
  show "open_ok [] [?f] (lb_frames ?y) [0 \<mapsto> []] (lb_env ?y)" unfolding l by (simp add: open_ok_def frame_ok_def)
qed

lemma sim_result:
  assumes "sim X t y"
  shows "open_frame_kind t = open_frame_kind (lb_tr y)" "tl_error t = tl_error (lb_tr y)" "tl_code t = link_code (tl_base (lb_tr y)) (lb_env y) (tl_code (lb_tr y))"
    "compiled_of ti np nr ls t = compiled_of ti np nr ls (lb_tr y)"
proof -
  obtain C where p: "t = relink (lb_env y) C (lb_tr y)" "map strip C = tl_ctrl (lb_tr y)" "based (lb_tr y)" using assms by (auto simp: sim_def)
  show "open_frame_kind t = open_frame_kind (lb_tr y)" using p(1) by (auto simp: open_frame_kind_def p(2) [symmetric] last_map strip_def)
  show "tl_error t = tl_error (lb_tr y)" using p(1) by simp
  show "tl_code t = link_code (tl_base (lb_tr y)) (lb_env y) (tl_code (lb_tr y))" by (simp add: p(1) link_code_def relink_def with_code_def fops_def fedges_def)
  show "compiled_of ti np nr ls t = compiled_of ti np nr ls (lb_tr y)" using relink_lists(5,6) [OF p(3)] p(1) by (simp add: compiled_of_def Let_def)
qed

text \<open>C34. Lowering with dummy targets that are patched when a block closes gives the code that an assembler with symbolic labels gives, error for error; the
  hypotheses are what the validator ensures (the nesting of the body) and a bound on the pool of branch targets, whose index shares a word with a flag.\<close>

theorem backpatching_equiv:
  assumes "nested [BkBlock] (db_operators body)" and "all_edges (db_operators body) < 2 ^ 31"
  shows "translate_function ctx can_alloc type_idx body code = reference_function ctx can_alloc type_idx body code"
proof -
  have body: "(case bindc (push_func_frame n) (\<lambda>_. lower_body ctx (db_validate body) v (db_operators body)) (translator_new c) of
       (Inl e, _) \<Rightarrow> Inl e
     | (Inr _, t) \<Rightarrow> bindr (db_finish body (open_frame_kind t)) (\<lambda>_.
         case tl_error t of Some e \<Rightarrow> Inl (Internal e) | None \<Rightarrow> Inr (compiled_of type_idx np n ls t, tl_code t))) =
    (case ref_body ctx (db_validate body) v (db_operators body) (labelled_new n c) of
       (Inl e, _) \<Rightarrow> Inl e
     | (Inr _, y) \<Rightarrow> let t = lb_tr y in bindr (db_finish body (open_frame_kind t)) (\<lambda>_.
         case tl_error t of Some e \<Rightarrow> Inl (Internal e)
         | None \<Rightarrow> Inr (compiled_of type_idx np n ls t, link_code (tl_base t) (lb_env y) (tl_code t))))" (is "?l = ?r") for n v c np ls
  proof -
    define t0 where "t0 = snd (push_func_frame n (translator_new c))"
    have t0: "push_func_frame n (translator_new c) = (Inr (), t0)" by (simp add: t0_def push_func_frame_def)
    have k: "kinds t0 = [BkBlock]" by (simp add: t0_def push_func_frame_def translator_new_def kinds_def)
    have f: "fedges (lb_tr (labelled_new n c)) = []" by (simp add: labelled_new_def fedges_def push_func_frame_def translator_new_def)
    have s: "sim [] t0 (labelled_new n c)" unfolding t0_def by (rule sim_start)
    have "agree (all_edges (db_operators body)) [] (lower_body ctx (db_validate body) v (db_operators body)) (ref_body ctx (db_validate body) v (db_operators body)) t0 (labelled_new n c)"
      by (rule agree_body [OF s]) (use assms k f in simp_all)
    then show ?thesis using t0
      by (auto simp: agree_def Let_def sim_result split: prod.splits sum.splits cong: option.case_cong)
  qed
  show ?thesis unfolding translate_function_def reference_function_def body ..
qed

text \<open>A body with blocks, an \<^verbatim>\<open>if\<close> with both arms, a fused comparison, a loop, a branch table, a return and a \<^verbatim>\<open>try_table\<close>.\<close>

definition sample_ctx :: compile_ctx where
  "sample_ctx = \<lparr>cx_types = [\<lparr>mt_group = 0, mt_finality = Final, mt_supertype = None, mt_body = CompFunc [] []\<rparr>], cx_kinds = [AkFunc], cx_func_types = [0],
     cx_tag_types = [0], cx_max_expanded_locals = 10\<rparr>"

definition sample_body :: "unit decoded_body" where
  "sample_body = \<lparr>db_read_locals = Inr (), db_locals = [], db_operators = map Inr
     [VBlock BtEmpty, VI32Const 1, VI32Const 2, VNumeric (NI32Rel CLtU), VIf BtEmpty, VBr 1, VElse, VI32Const 0, VBrTable [0, 1] 2, VEnd,
      VLoop BtEmpty, VI32Const 0, VBrIf 0, VI32Const 1, VBrIf 1, VEnd, VTryTable BtEmpty [CatchAll 1], VReturn, VEnd, VEnd, VEnd],
     db_validate = (\<lambda>_ _. Inr ()), db_finish = (\<lambda>k. case k of None \<Rightarrow> Inr () | Some _ \<Rightarrow> Inl (Msg ''control frames remain''))\<rparr>"

definition no_code :: code_arenas where
  "no_code = \<lparr>ca_ops = [], ca_local_types = [], ca_handlers = [], ca_br_tables = [], ca_big_memargs = []\<rparr>"

theorem backpatching_equiv_witness:
  "nested [BkBlock] (db_operators sample_body) \<and> all_edges (db_operators sample_body) < 2 ^ 31 \<and>
   translate_function sample_ctx (\<lambda>_. True) 0 sample_body no_code = reference_function sample_ctx (\<lambda>_. True) 0 sample_body no_code \<and>
   map_sum id (\<lambda>(_, c). (ca_ops c, map bt_ip (ca_br_tables c))) (translate_function sample_ctx (\<lambda>_. True) 0 sample_body no_code) =
     (let to = \<lambda>ip. \<lparr>bt_ip = ip, bt_keep = 0, bt_pop = 0\<rparr> in
      Inr ([OpI32Const 1, OpI32Const 2, OpBrIfCmp CLtU True (to 4), OpBr (to 13), OpI32Const 0, OpBrTable \<lparr>btr_base = 0, btr_len = 2\<rparr>,
        OpI32Const 0, OpBrIf (to 6), OpI32Const 1, OpBrIf (to 13), OpBr (to 13), OpBr (to 13), OpBr (to 13)], [6, 13, 13]))"
proof (intro conjI)
  show n: "nested [BkBlock] (db_operators sample_body)" by code_simp
  show e: "all_edges (db_operators sample_body) < 2 ^ 31" by code_simp
  show "translate_function sample_ctx (\<lambda>_. True) 0 sample_body no_code = reference_function sample_ctx (\<lambda>_. True) 0 sample_body no_code"
    by (rule backpatching_equiv [OF n e])
qed code_simp

end
