(* ===== verification/Lower_Closed.thy ===== *)
theory Lower_Closed
  imports Lower_Equiv
begin

text \<open>
  Compiled code is closed: its branches stay within the function, its references to the pool of branch targets within the part of the
  pool that belongs to the function, and the code of the functions compiled before is left alone.
\<close>

section \<open>Growing code\<close>

definition grow :: "translator \<Rightarrow> translator \<Rightarrow> bool" where
  "grow t t' \<longleftrightarrow> tl_base t' = tl_base t \<and> take (ba_ops (tl_base t)) (ca_ops (tl_code t')) = take (ba_ops (tl_base t)) (ca_ops (tl_code t)) \<and>
     take (ba_br_tables (tl_base t)) (ca_br_tables (tl_code t')) = take (ba_br_tables (tl_base t)) (ca_br_tables (tl_code t)) \<and>
     length (fops t) \<le> length (fops t') \<and> length (fedges t) \<le> length (fedges t') \<and>
     (\<forall>op \<in> set (fops t'). op \<in> set (fops t) \<or> pool_use op \<le> length (fedges t')) \<and> (based t \<longrightarrow> based t')"

definition growing :: "'a lowering \<Rightarrow> bool" where
  "growing a \<longleftrightarrow> (\<forall>t. based t \<longrightarrow> grow t (snd (a t)))"

lemma grow_refl [simp]: "grow t t"
  by (simp add: grow_def)

lemma grow_trans: "grow t u \<Longrightarrow> grow u v \<Longrightarrow> grow t v"
  unfolding grow_def by (auto dest: order_trans)

named_theorems growing_intros

lemma growing_bind [growing_intros]:
  assumes "growing a" and "\<And>x. growing (f x)"
  shows "growing (bindc a f)"
  unfolding growing_def
proof (intro allI impI)
  fix t assume b: "based t"
  obtain r u where u: "a t = (r, u)" by fastforce
  have g: "grow t u" using assms(1) b u by (simp add: growing_def) (metis snd_conv)
  show "grow t (snd (bindc a f t))"
  proof (cases r)
    case (Inl e)
    then show ?thesis using u g by simp
  next
    case (Inr x)
    have "based u" using g b by (simp add: grow_def)
    then have "grow u (snd (f x u))" using assms(2) by (simp add: growing_def)
    then show ?thesis using u g Inr grow_trans by simp
  qed
qed

lemma growing_same: "(\<And>t. tl_base (snd (a t)) = tl_base t \<and> ca_ops (tl_code (snd (a t))) = ca_ops (tl_code t) \<and> ca_br_tables (tl_code (snd (a t))) = ca_br_tables (tl_code t)) \<Longrightarrow> growing a"
  by (simp add: growing_def grow_def fops_def fedges_def based_def)

lemma growing_plain:
  assumes "plain a"
  shows "growing a"
  unfolding growing_def
proof (intro allI impI)
  fix t assume b: "based t"
  have p: "plain_step t (snd (a t))" using plainD [OF assms b, of undefined undefined] by simp
  then obtain zs where "ca_ops (tl_code (snd (a t))) = ca_ops (tl_code t) @ zs" "\<forall>z \<in> set zs. straight_op z" by (auto simp: plain_step_def)
  then show "grow t (snd (a t))" using p b by (auto simp: grow_def plain_step_def fops_def fedges_def based_def straight_op_def)
qed

lemma growing_simple [growing_intros]:
  "growing (ret x)" "growing (lift_res r)" "growing (getc g)" "growing (\<lambda>t. (k t, t))" "growing (last_frame_of m)" "growing (pop_frame_of m)" "growing (frame_mut i h)"
  "growing (last_mut h)" "growing (hpop n)" "growing (hpush n)" "growing (set_height hh)" "growing (set_reachable r')" "growing no_fusion"
  "growing (putc (\<lambda>t. t\<lparr>tl_code := (tl_code t)\<lparr>ca_handlers := hs t\<rparr>\<rparr>))"
  by (rule growing_same; simp add: last_frame_of_def pop_frame_of_def frame_mut_def last_mut_def hpop_def hpush_def set_height_def set_reachable_def no_fusion_def
      latch_def split: sum.split option.split)+

lemma growing_push [growing_intros]: "growing (push_frame_of kind params results patch clauses)"
  unfolding push_frame_of_def by (rule growing_bind [OF growing_plain [OF plain_height_below]]) (rule growing_same, simp)

lemma growing_emit:
  assumes "\<And>t. based t \<Longrightarrow> P t \<Longrightarrow> pool_use op \<le> length (fedges t)" and "based t" and "P t"
  shows "grow t (snd (emit op t))"
  using assms by (auto simp: grow_def emit_def set_ops_def fops_def fedges_def based_def)

lemma growing_branch [growing_intros]:
  "growing (emit (OpBr bt))" "growing (emit (OpBrIf bt))" "growing (emit (OpBrIfNot bt))" "growing (emit (OpBrOnNull bt))" "growing (emit (OpBrOnNonNull bt))"
  by (simp_all add: growing_def growing_emit [where P = "\<lambda>_. True"] pool_use_def)

lemma growing_mut [growing_intros]: "growing (op_mut i (OpBrIfCmp k b' bt))"
  unfolding growing_def
proof (intro allI impI)
  fix t assume b: "based t"
  show "grow t (snd (op_mut i (OpBrIfCmp k b' bt) t))"
  proof (cases "ba_ops (tl_base t) + i < length (ca_ops (tl_code t))")
    case True
    then have "i < length (fops t)" by (simp add: fops_def)
    note f = op_mut_facts [OF b this, of "OpBrIfCmp k b' bt"]
    have "set ((fops t)[i := OpBrIfCmp k b' bt]) \<subseteq> insert (OpBrIfCmp k b' bt) (set (fops t))" by (rule set_update_subset_insert)
    then show ?thesis using b by (auto simp: grow_def f with_code_lists [OF b] pool_use_def) (auto simp: based_def)
  qed (simp add: op_mut_def op_ref_def index_at_def)
qed

lemma growing_edge [growing_intros]: "growing (push_edge bt)"
  by (auto simp: growing_def grow_def push_edge_def set_edges_def fops_def fedges_def based_def)

section \<open>The reference\<close>

text \<open>What the assembler keeps: the code before the function, the addresses of the labels within the function, the pool large enough.\<close>

definition snug :: "code_arenas \<Rightarrow> labelled \<Rightarrow> bool" where
  "snug c y \<longleftrightarrow> tl_base (lb_tr y) = tl_base (translator_new c) \<and> take (length (ca_ops c)) (ca_ops (tl_code (lb_tr y))) = ca_ops c \<and>
     take (length (ca_br_tables c)) (ca_br_tables (tl_code (lb_tr y))) = ca_br_tables c \<and> based (lb_tr y) \<and>
     (\<forall>ip. Some ip \<in> set (lb_env y) \<longrightarrow> ip \<le> length (fops (lb_tr y))) \<and> (\<forall>op \<in> set (fops (lb_tr y)). pool_use op \<le> length (fedges (lb_tr y)))"

named_theorems snug_intros

lemma snug_grow: "snug c y \<Longrightarrow> grow (lb_tr y) u \<Longrightarrow> snug c (y\<lparr>lb_tr := u\<rparr>)"
  by (fastforce simp: snug_def grow_def translator_new_def)

lemma snug_on [snug_intros]:
  assumes "growing a"
  shows "keeps (snug c) (on_tr a)"
  unfolding keeps_def
proof (intro allI impI)
  fix y assume s: "snug c y"
  obtain r u where u: "a (lb_tr y) = (r, u)" by fastforce
  have "based (lb_tr y)" using s by (simp add: snug_def)
  then have "grow (lb_tr y) u" using assms u by (metis growing_def snd_conv)
  then show "snug c (snd (on_tr a y))" using snug_grow [OF s] u by (simp add: on_tr_def)
qed

lemma keeps_split [snug_intros]: "(\<And>x y. keeps P (f x y)) \<Longrightarrow> keeps P (case p of (x, y) \<Rightarrow> f x y)"
  by (cases p) simp

lemma keeps_option [snug_intros]: "keeps P a \<Longrightarrow> (\<And>x. keeps P (f x)) \<Longrightarrow> keeps P (case z of None \<Rightarrow> a | Some x \<Rightarrow> f x)"
  by (cases z) simp_all

lemma keeps_if [snug_intros]: "keeps P a \<Longrightarrow> keeps P b \<Longrightarrow> keeps P (if z then a else b)"
  by simp

lemmas [snug_intros] = keeps_bindc keeps_ret keeps_getc keeps_lift_res

lemma snug_next: "snug c y \<Longrightarrow> next_ip (lb_tr y) = length (fops (lb_tr y))"
  by (rule emit_facts(7)) (simp add: snug_def)

lemma snug_place [snug_intros]: "keeps (snug c) (place l)"
  unfolding keeps_def
proof (intro allI impI)
  fix y assume s: "snug c y"
  have "ip \<le> length (fops (lb_tr y))" if "Some ip \<in> set ((lb_env y)[l := Some (next_ip (lb_tr y))])" for ip
    using subsetD [OF set_update_subset_insert that] s snug_next [OF s] by (auto simp: snug_def)
  then show "snug c (snd (place l y))" using s by (simp add: place_def snug_def)
qed

lemma snug_labels [snug_intros]:
  "keeps (snug c) (new_label None)" "keeps (snug c) (ref_branch depth)" "keeps (snug c) (putc (\<lambda>y. y\<lparr>lb_frames := fs y\<rparr>))"
  by (auto simp: keeps_def new_label_def ref_branch_def snug_def)

lemma snug_place_opt [snug_intros]: "keeps (snug c) (place_opt els)"
  unfolding place_opt_def by (intro snug_intros)

lemma snug_targeted [snug_intros]: "keeps (snug c) (targeted fr)"
  unfolding targeted_def by (intro snug_intros growing_intros)

lemma snug_push [snug_intros]: "keeps (snug c) (ref_push_frame kind params results els clauses)"
  unfolding ref_push_frame_def
proof (rule keeps_bindc [OF snug_on [OF growing_push]])
  show "keeps (snug c) (bindc (getc (\<lambda>y. next_ip (lb_tr y))) (\<lambda>start. bindc (new_label (if kind = BkLoop then Some start else None)) (\<lambda>l.
     putc (\<lambda>y. y\<lparr>lb_frames := lb_frames y @ [(l, els)]\<rparr>))))"
    unfolding keeps_def
  proof (intro allI impI)
    fix y assume s: "snug c y"
    show "snug c (snd (bindc (getc (\<lambda>y. next_ip (lb_tr y))) (\<lambda>start. bindc (new_label (if kind = BkLoop then Some start else None)) (\<lambda>l.
       putc (\<lambda>y. y\<lparr>lb_frames := lb_frames y @ [(l, els)]\<rparr>))) y))"
      using s snug_next [OF s] by (auto simp: new_label_def snug_def)
  qed
qed

lemma snug_branches [snug_intros]:
  "keeps (snug c) (ref_br depth)" "keeps (snug c) (ref_br_if depth)" "keeps (snug c) ref_ret" "keeps (snug c) (ref_br_on_null depth)" "keeps (snug c) (ref_br_on_non_null depth)"
  unfolding ref_br_def ref_br_if_def ref_ret_def ref_br_on_null_def ref_br_on_non_null_def by (intro snug_intros growing_intros)+

lemma snug_pads [snug_intros]: "keeps (snug c) (ref_landing_pads ctx h cs)"
proof (induction cs)
  case (Cons x cs)
  show ?case unfolding ref_landing_pads.simps by (intro snug_intros growing_intros Cons.IH)
qed (simp add: keeps_def)

lemma snug_blocks [snug_intros]:
  "keeps (snug c) (ref_push_block ctx bt kind clauses)" "keeps (snug c) (ref_push_if ctx bt)" "keeps (snug c) ref_else" "keeps (snug c) (ref_end ctx)"
  unfolding ref_push_block_def ref_push_if_def ref_open_if_def ref_else_def ref_end_def ref_end_try_def ref_end_block_def ref_pop_frame_def
  by (intro snug_intros growing_intros)+

text \<open>Branches through the pool.\<close>

lemma keepsI: "keeps P a \<Longrightarrow> P y \<Longrightarrow> a y = (r, y') \<Longrightarrow> P y'"
  using keepsD [of P a y] by simp

lemma snug_edges: "keeps (snug c) (ref_table_edges depths)"
proof (induction depths)
  case (Cons d depths)
  show ?case unfolding ref_table_edges.simps by (intro snug_intros growing_intros Cons.IH)
qed (simp add: keeps_def)

lemma snug_targeted_all [snug_intros]: "keeps (snug c) (targeted_all frames)"
proof (induction frames)
  case (Cons i frames)
  show ?case unfolding targeted_all.simps by (intro snug_intros Cons.IH)
qed (simp add: keeps_def)

lemma snug_width: "snug c y \<Longrightarrow> length (ca_br_tables (tl_code (lb_tr y))) - ba_br_tables (tl_base (lb_tr y)) = length (fedges (lb_tr y))"
  by (simp add: fedges_def)

lemma push_edge_count: "snug c y \<Longrightarrow> on_tr (push_edge bt) y = (Inr n, y') \<Longrightarrow> n = length (fedges (lb_tr y)) \<and> length (fedges (lb_tr y')) = Suc (length (fedges (lb_tr y)))"
  by (auto simp: on_tr_def push_edge_def set_edges_def fedges_def snug_def based_def)

lemma table_edges_count: "snug c y \<Longrightarrow> ref_table_edges depths y = (Inr fs, y') \<Longrightarrow> length (fedges (lb_tr y')) = length (fedges (lb_tr y)) + length depths"
proof (induction depths arbitrary: y fs y')
  case (Cons d depths)
  obtain bt fr y1 n y2 rest where s: "ref_branch d y = (Inr (bt, fr), y1)" "on_tr (push_edge bt) y1 = (Inr n, y2)" "ref_table_edges depths y2 = (Inr rest, y')"
    using Cons.prems(2) by (auto simp: bindc_eq_Inr)
  have y1: "y1 = y" using s(1) by (simp add: ref_branch_def)
  have "snug c y2" by (rule keepsI [OF snug_on [OF growing_edge] _ s(2)]) (use Cons.prems(1) y1 in simp)
  then show ?case using Cons.IH [OF _ s(3)] push_edge_count [OF _ s(2)] Cons.prems(1) y1 by simp
qed simp

lemma snug_pool_emit:
  assumes s: "snug c y" and op: "pool_use op \<le> length (fedges (lb_tr y))" and e: "on_tr (emit op) y = (Inr (), y')"
  shows "snug c y'"
proof -
  have b: "based (lb_tr y)" using s by (simp add: snug_def)
  have "grow (lb_tr y) (snd (emit op (lb_tr y)))" by (rule growing_emit [where P = "\<lambda>t. t = lb_tr y"]) (use b op in simp_all)
  then have "snug c (y\<lparr>lb_tr := snd (emit op (lb_tr y))\<rparr>)" by (rule snug_grow [OF s])
  then show ?thesis using e by (auto simp: on_tr_def split: prod.splits)
qed

lemma snug_br_table:
  assumes s: "snug c y" and run: "ref_br_table cases dflt y = (Inr x, y')"
  shows "snug c y'"
proof -
  obtain u y1 fs y2 bt fr y3 n y4 v y5 w y6 where r: "on_tr (hpop 1) y = (Inr u, y1)" "ref_table_edges cases y1 = (Inr fs, y2)" "ref_branch dflt y2 = (Inr (bt, fr), y3)"
    "on_tr (push_edge bt) y3 = (Inr n, y4)"
    "on_tr (emit (OpBrTable \<lparr>btr_base = length (ca_br_tables (tl_code (lb_tr y1))) - ba_br_tables (tl_base (lb_tr y1)), btr_len = length cases\<rparr>)) y4 = (Inr v, y5)"
    "targeted_all (fs @ (case fr of Some i \<Rightarrow> [i] | None \<Rightarrow> [])) y5 = (Inr w, y6)" "on_tr (set_reachable False) y6 = (Inr x, y')"
    using run unfolding ref_br_table_def by (auto simp: bindc_eq_Inr)
  have y3: "y3 = y2" using r(3) by (simp add: ref_branch_def)
  have s1: "snug c y1" by (rule keepsI [OF snug_on [OF growing_simple(9)] s r(1)])
  have s2: "snug c y2" by (rule keepsI [OF snug_edges s1 r(2)])
  have s4: "snug c y4" using keepsI [OF snug_on [OF growing_edge] _ r(4)] s2 y3 by simp
  have "length (fedges (lb_tr y4)) = Suc (length (fedges (lb_tr y1)) + length cases)"
    using push_edge_count [OF _ r(4)] table_edges_count [OF s1 r(2)] s2 y3 by simp
  then have s5: "snug c y5" using r(5) by (intro snug_pool_emit [OF s4 _ r(5) [simplified]]) (simp add: pool_use_def snug_width [OF s1])
  have s6: "snug c y6" by (rule keepsI [OF snug_targeted_all s5 r(6)])
  show ?thesis by (rule keepsI [OF snug_on [OF growing_simple(12)] s6 r(7)])
qed

lemma snug_br_on_cast:
  assumes s: "snug c y" and few: "length (fedges (lb_tr y)) < 2 ^ 31" and run: "ref_br_on_cast ctx depth rt on_fail y = (Inr x, y')"
  shows "snug c y'"
proof -
  obtain ty nullable bt fr y1 n y2 y3 where r: "ref_branch depth y = (Inr (bt, fr), y1)" "on_tr (push_edge bt) y1 = (Inr n, y2)"
    "on_tr (emit (if on_fail then OpBrOnCastFail ty (word_of_nat n OR (if nullable then NULLABLE_BIT else 0))
       else OpBrOnCast ty (word_of_nat n OR (if nullable then NULLABLE_BIT else 0)))) y2 = (Inr (), y3)" "targeted fr y3 = (Inr x, y')"
    using run unfolding ref_br_on_cast_def Let_def by (auto simp: bindc_eq_Inr)
  have y1: "y1 = y" using r(1) by (simp add: ref_branch_def)
  have s2: "snug c y2" using keepsI [OF snug_on [OF growing_edge] _ r(2)] s y1 by simp
  have n: "n = length (fedges (lb_tr y))" "length (fedges (lb_tr y2)) = Suc n" using push_edge_count [OF _ r(2)] s y1 by simp_all
  have "edge_of (word_of_nat n OR (if nullable then NULLABLE_BIT else 0)) = n" by (rule edge_of_pack) (use few n in simp)
  then have "snug c y3" by (intro snug_pool_emit [OF s2 _ r(3)]) (simp add: pool_use_def n(2))
  then show ?thesis by (rule keepsI [OF snug_targeted _ r(4)])
qed

section \<open>Compiled functions\<close>

lemma snug_visit:
  assumes s: "snug c y" and few: "length (fedges (lb_tr y)) < 2 ^ 31" and run: "ref_visit ctx op y = (Inr x, y')"
  shows "snug c y'"
proof (cases "straight op")
  case True
  then have "ref_visit ctx op = on_tr (visit_operator ctx op)" by (cases op) (simp_all add: straight_def ref_visit_def)
  then show ?thesis using keepsI [OF snug_on [OF growing_plain [OF plain_straight [OF True]]] s] run by simp
next
  case False
  have w: "snug c y'" if "when_reachable a y = (Inr x, y')" and "a y = (Inr x, y') \<Longrightarrow> snug c y'" for a
    using that s by (auto simp: when_reachable_def split: if_splits)
  have k: "keeps (snug c) a \<Longrightarrow> a y = (Inr x, y') \<Longrightarrow> snug c y'" for a using keepsI [of "snug c" a y "Inr x" y'] s by blast
  have wk: "keeps (snug c) a \<Longrightarrow> when_reachable a y = (Inr x, y') \<Longrightarrow> snug c y'" for a using w [of a] k [of a] by blast
  have table: "when_reachable (ref_br_table cases dflt) y = (Inr x, y') \<Longrightarrow> snug c y'" for cases dflt using w snug_br_table [OF s] by blast
  have cast: "when_reachable (ref_br_on_cast ctx depth rt on_fail) y = (Inr x, y') \<Longrightarrow> snug c y'" for depth rt on_fail using w snug_br_on_cast [OF s few] by blast
  show ?thesis using False run
    by (cases op) (simp_all add: straight_def ref_visit_def k [OF snug_blocks(1)] k [OF snug_blocks(2)] k [OF snug_blocks(3)] k [OF snug_blocks(4)]
        wk [OF snug_branches(1)] wk [OF snug_branches(2)] wk [OF snug_branches(3)] wk [OF snug_branches(4)] wk [OF snug_branches(5)]
        table cast)
qed

lemma body_snug:
  "sim [] t y \<Longrightarrow> nested (kinds t) ds \<Longrightarrow> (kinds t \<noteq> [] \<longrightarrow> hd (kinds t) \<noteq> BkLoop) \<Longrightarrow> length (fedges (lb_tr y)) + all_edges ds < 2 ^ 31 \<Longrightarrow> snug c y \<Longrightarrow>
    ref_body ctx validate v ds y = (Inr x, y') \<Longrightarrow> snug c y'"
proof (induction ds arbitrary: t y v)
  case (Cons d ds)
  obtain op v' u y1 where r: "d = Inr op" "validate v op = Inr v'" "ref_visit ctx op y = (Inr u, y1)" "ref_body ctx validate v' ds y1 = (Inr x, y')"
    using Cons.prems(6) by (auto simp: bindc_eq_Inr)
  have n: "kinds t \<noteq> []" "op = VElse \<longrightarrow> last (kinds t) = BkIf" "nested (kinds_after op (kinds t)) ds" using Cons.prems(2) r(1) by simp_all
  have e: "all_edges (d # ds) = edges op + all_edges ds" using r(1) by (simp add: all_edges_def)
  have few: "length (fedges (lb_tr y)) < 2 ^ 31" and root: "hd (kinds t) \<noteq> BkLoop" using Cons.prems(3,4) n(1) by simp_all
  obtain t1 where a: "visit_operator ctx op t = (Inr u, t1)" "sim [] t1 y1" "length (fedges (lb_tr y1)) \<le> length (fedges (lb_tr y)) + edges op"
    using agree_visit [OF Cons.prems(1) few n(1) root n(2), of ctx] r(3) by (auto simp: agree_def split: prod.splits sum.splits)
  have k: "kinds t1 = kinds_after op (kinds t)" by (rule visit_kinds [OF Cons.prems(1) a(1)])
  show ?case
    by (rule Cons.IH [OF a(2) _ _ _ snug_visit [OF Cons.prems(5) few r(3)] r(4)]) (use k n root root_kept [of "kinds t" op] a(3) Cons.prems(4) e in auto)
qed simp

definition closed_func :: "code_arenas \<Rightarrow> compiled_func \<Rightarrow> bool" where
  "closed_func c f = (let ops = span_of (ca_ops c) (cf_ops f); es = span_of (ca_br_tables c) (cf_br_tables f) in
     (\<forall>op \<in> set ops. (case op_label op of None \<Rightarrow> True | Some ip \<Rightarrow> ip \<le> length ops) \<and> pool_use op \<le> length es) \<and> (\<forall>bt \<in> set es. bt_ip bt \<le> length ops))"

definition appended :: "code_arenas \<Rightarrow> code_arenas \<Rightarrow> compiled_func \<Rightarrow> bool" where
  "appended c c' f \<longleftrightarrow> ca_ops c' = ca_ops c @ span_of (ca_ops c') (cf_ops f) \<and> ca_br_tables c' = ca_br_tables c @ span_of (ca_br_tables c') (cf_br_tables f)"

lemma snug_start: "snug c (labelled_new n c)"
  by (simp add: snug_def labelled_new_def push_func_frame_def translator_new_def based_def fops_def)

lemma snug_closed:
  assumes s: "sim [] t y" and g: "snug c y"
  shows "closed_func (tl_code t) (compiled_of ti np nr ls t)" "appended c (tl_code t) (compiled_of ti np nr ls t)"
proof -
  let ?u = "lb_tr y" and ?env = "lb_env y"
  obtain C ow where p: "t = relink ?env C ?u" "based ?u" "wired (fops ?u) (fedges ?u) ow ?env" using s by (auto simp: sim_def)
  have b: "tl_base t = tl_base (translator_new c)" using g p(1) by (simp add: snug_def)
  have code: "ca_ops (tl_code t) = ca_ops c @ map (link_op ?env) (fops ?u)" "ca_br_tables (tl_code t) = ca_br_tables c @ map (link_target ?env) (fedges ?u)"
    using g p(1) with_code_lists(1,2) [OF p(2)] by (simp_all add: relink_def snug_def translator_new_def)
  have spans: "span_of (ca_ops (tl_code t)) (cf_ops (compiled_of ti np nr ls t)) = map (link_op ?env) (fops ?u)"
    "span_of (ca_br_tables (tl_code t)) (cf_br_tables (compiled_of ti np nr ls t)) = map (link_target ?env) (fedges ?u)"
    using code b by (simp_all add: compiled_of_def Let_def span_of_def span_to_def translator_new_def)
  show "appended c (tl_code t) (compiled_of ti np nr ls t)" unfolding appended_def spans by (simp add: code)
  have addr: "address ?env l \<le> length (fops ?u)" if "label_at (fops ?u) (fedges ?u) x = Some l" for x l
  proof -
    have "l < length ?env" using p(3) that by (auto simp: wired_def)
    then have "?env ! l \<in> set ?env" by simp
    then show ?thesis using g by (auto simp: address_def snug_def split: option.split)
  qed
  have use_: "pool_use (link_op ?env op) = pool_use op" for op by (cases op) (simp_all add: link_op_def pool_use_def)
  have ops: "(case op_label (link_op ?env op) of None \<Rightarrow> True | Some ip \<Rightarrow> ip \<le> length (fops ?u))" if m: "op \<in> set (fops ?u)" for op
  proof -
    obtain k where k: "k < length (fops ?u)" "fops ?u ! k = op" using m by (auto simp: in_set_conv_nth)
    show ?thesis using addr [of "AtOp k"] k by (auto simp: link_op_put split: option.split)
  qed
  have es: "bt_ip (link_target ?env bt) \<le> length (fops ?u)" if m: "bt \<in> set (fedges ?u)" for bt
  proof -
    obtain k where k: "k < length (fedges ?u)" "fedges ?u ! k = bt" using m by (auto simp: in_set_conv_nth)
    show ?thesis using addr [of "AtEdge k"] k by (simp add: link_target_def)
  qed
  show "closed_func (tl_code t) (compiled_of ti np nr ls t)" unfolding closed_func_def Let_def spans
  proof (intro conjI ballI)
    show "pool_use op \<le> length (map (link_target ?env) (fedges ?u))" if "op \<in> set (map (link_op ?env) (fops ?u))" for op
      using that g by (auto simp: use_ snug_def)
    show "case op_label op of None \<Rightarrow> True | Some ip \<Rightarrow> ip \<le> length (map (link_op ?env) (fops ?u))" if "op \<in> set (map (link_op ?env) (fops ?u))" for op
      using that ops by (simp only: length_map) auto
    show "bt_ip bt \<le> length (map (link_op ?env) (fops ?u))" if "bt \<in> set (map (link_target ?env) (fedges ?u))" for bt
      using that es by auto
  qed
qed

lemma expand_ops: "expand_from ctx ca ds code = Inr code' \<Longrightarrow> ca_ops code' = ca_ops code \<and> ca_br_tables code' = ca_br_tables code"
  by (induction ctx ca ds code rule: expand_from.induct) (auto split: prod.splits if_splits)

lemma translate_inv:
  assumes "translate_function ctx can_alloc type_idx body code = Inr (f, code')"
  obtains np nr v ls c0 t where "type_sig ctx type_idx = Inr (np, nr)" "expand_locals ctx can_alloc (db_locals body) code = Inr (ls, c0)"
    "bindc (push_func_frame nr) (\<lambda>_. lower_body ctx (db_validate body) v (db_operators body)) (translator_new c0) = (Inr (), t)"
    "f = compiled_of type_idx np nr ls t" "code' = tl_code t"
proof -
  obtain np nr v ls c0 where a: "type_sig ctx type_idx = Inr (np, nr)" "db_read_locals body = Inr v" "expand_locals ctx can_alloc (db_locals body) code = Inr (ls, c0)"
    and b: "(case bindc (push_func_frame nr) (\<lambda>_. lower_body ctx (db_validate body) v (db_operators body)) (translator_new c0) of
       (Inl e, _) \<Rightarrow> Inl e
     | (Inr _, t) \<Rightarrow> bindr (db_finish body (open_frame_kind t)) (\<lambda>_.
         case tl_error t of Some e \<Rightarrow> Inl (Internal e) | None \<Rightarrow> Inr (compiled_of type_idx np nr ls t, tl_code t))) = Inr (f, code')"
    using assms unfolding translate_function_def by auto
  obtain r t where t: "bindc (push_func_frame nr) (\<lambda>_. lower_body ctx (db_validate body) v (db_operators body)) (translator_new c0) = (r, t)" by fastforce
  have "r = Inr () \<and> f = compiled_of type_idx np nr ls t \<and> code' = tl_code t" using b t by (cases r; cases "tl_error t") auto
  then show ?thesis using that [OF a(1,3), of v t] t by blast
qed

text \<open>C35. A compiled function is closed and isolated: each of its branches, direct or through the pool, lands in the function or at its end, each
  reference to the pool lies in the part of the pool the function owns, and the function's code is appended to that of the functions before it.\<close>

theorem lowered_code_closed:
  assumes "nested [BkBlock] (db_operators body)" and "all_edges (db_operators body) < 2 ^ 31"
    and "translate_function ctx can_alloc type_idx body code = Inr (f, code')"
  shows "closed_func code' f \<and> appended code code' f"
proof -
  obtain np nr v ls c0 t where r: "type_sig ctx type_idx = Inr (np, nr)" "expand_locals ctx can_alloc (db_locals body) code = Inr (ls, c0)"
    "bindc (push_func_frame nr) (\<lambda>_. lower_body ctx (db_validate body) v (db_operators body)) (translator_new c0) = (Inr (), t)"
    "f = compiled_of type_idx np nr ls t" "code' = tl_code t"
    by (rule translate_inv [OF assms(3)])
  define t0 where "t0 = snd (push_func_frame nr (translator_new c0))"
  have run: "lower_body ctx (db_validate body) v (db_operators body) t0 = (Inr (), t)" using r(3) by (simp add: t0_def push_func_frame_def)
  let ?y = "labelled_new nr c0"
  have s: "sim [] t0 ?y" unfolding t0_def by (rule sim_start)
  have k: "kinds t0 = [BkBlock]" by (simp add: t0_def push_func_frame_def translator_new_def kinds_def)
  have e: "fedges (lb_tr ?y) = []" by (simp add: labelled_new_def fedges_def push_func_frame_def translator_new_def)
  have hyp: "nested (kinds t0) (db_operators body)" "kinds t0 \<noteq> [] \<longrightarrow> hd (kinds t0) \<noteq> BkLoop" "length (fedges (lb_tr ?y)) + all_edges (db_operators body) < 2 ^ 31"
    using assms(1,2) k e by simp_all
  obtain y where y: "ref_body ctx (db_validate body) v (db_operators body) ?y = (Inr (), y)" "sim [] t y"
    using agree_body [OF s hyp, of ctx "db_validate body" v] run by (auto simp: agree_def)
  have "snug c0 y" by (rule body_snug [OF s hyp snug_start y(1)])
  note c = snug_closed [OF y(2) this, of type_idx np nr ls]
  have "ca_ops c0 = ca_ops code" "ca_br_tables c0 = ca_br_tables code" using r(2) expand_ops by (auto simp: expand_locals_def)
  then show ?thesis using c r(4,5) by (simp add: appended_def)
qed

theorem lowered_code_closed_witness:
  "\<exists>f c. translate_function sample_ctx (\<lambda>_. True) 0 sample_body no_code = Inr (f, c) \<and> closed_func c f \<and> appended no_code c f"
proof -
  have n: "nested [BkBlock] (db_operators sample_body)" "all_edges (db_operators sample_body) < 2 ^ 31" by code_simp+
  have "\<not> isl (translate_function sample_ctx (\<lambda>_. True) 0 sample_body no_code)" by code_simp
  then obtain f c where r: "translate_function sample_ctx (\<lambda>_. True) 0 sample_body no_code = Inr (f, c)" by (metis isl_def prod.exhaust sum.exhaust)
  then show ?thesis using lowered_code_closed [OF n r] by blast
qed

section \<open>The operand bound\<close>

text \<open>The recorded bound on the operand stack counts pushes only: the value that a handler receives is not in it. Here the landing pad carries
  one operand to its label while the bound is 0.\<close>

definition catching_body :: "unit decoded_body" where
  "catching_body = sample_body\<lparr>db_operators := map Inr
     [VBlock (BtType (WvRef \<lparr>wr_nullable = True, wr_heap = WAbstract False WExn\<rparr>)), VTryTable BtEmpty [CatchAllRef 0], VThrow 0, VEnd, VUnreachable, VEnd, VDrop, VEnd]\<rparr>"

lemma max_operands_below_peak:
  "map_sum id (\<lambda>(f, c). (cf_max_operands f, ca_ops c)) (translate_function sample_ctx (\<lambda>_. True) 0 catching_body no_code) =
     Inr (0, [OpThrow 0, OpBr \<lparr>bt_ip = 3, bt_keep = 0, bt_pop = 0\<rparr>, OpBr \<lparr>bt_ip = 3, bt_keep = 1, bt_pop = 0\<rparr>, OpDrop])"
  by code_simp

end
