(* ===== verification/Gc_Host.thy ===== *)
theory Gc_Host
  imports Store_Grow Value_Match
begin

text \<open>
  Structs and arrays seen from the embedder, \<^verbatim>\<open>src/value/gc_aggregate.rs\<close>: the allocators with their cached layout, the constructors that check, reserve,
  encode and root, and the reads and writes through a rooted handle. The asynchronous siblings differ only in how they reserve and are left out. A
  type handle is its canonical id in the store's own engine (\<^verbatim>\<open>src/value/gc_type.rs\<close>), so the checks that reject types of another engine have no
  counterpart; whether the host can allocate a body is a parameter, as in \<^verbatim>\<open>Store_Entity\<close>. The destination of a copy is passed with its
  contents and returned.
\<close>

section \<open>Types behind handles\<close>

definition struct_type_fields :: "canonical_type_id \<Rightarrow> store_inner \<Rightarrow> field_type list result" where
  "struct_type_fields tid s = (case struct_fields (en_types (si_engine s)) tid of
     Inr fs \<Rightarrow> Inr fs | Inl _ \<Rightarrow> Inl (Panic ''live StructType registration must retain its fields''))"

definition array_type_field :: "canonical_type_id \<Rightarrow> store_inner \<Rightarrow> field_type result" where
  "array_type_field tid s = (case array_field (en_types (si_engine s)) tid of
     Inr f \<Rightarrow> Inr f | Inl _ \<Rightarrow> Inl (Panic ''live ArrayType registration must retain its field''))"

definition struct_type_from_id :: "canonical_type_id \<Rightarrow> (store_inner, canonical_type_id) action" where
  "struct_type_from_id tid = bindc (on_types (incref_type tid)) (\<lambda>_. ret tid)"

definition field_value_matches :: "field_type \<Rightarrow> val \<Rightarrow> store_inner \<Rightarrow> bool result" where
  "field_value_matches ty v s = (case ft_element ty of
     StI8 \<Rightarrow> Inr (case v of I32 _ \<Rightarrow> True | _ \<Rightarrow> False)
   | StI16 \<Rightarrow> Inr (case v of I32 _ \<Rightarrow> True | _ \<Rightarrow> False)
   | StVal t \<Rightarrow> val_matches_in_store v t s)"

text \<open>The condition both kinds of aggregate guard a write with.\<close>

definition slot_takes :: "slot \<Rightarrow> field_type \<Rightarrow> val \<Rightarrow> store_inner \<Rightarrow> bool result" where
  "slot_takes sl ty v s = (if \<not> slot_accepts sl v then Inr False else field_value_matches ty v s)"

definition gc_object_host :: "store_inner \<Rightarrow> u32 \<Rightarrow> gc_object result" where
  "gc_object_host s i = ok_or (Msg ''dangling gc reference'') (gc_get (si_gc s) i)"

definition root_new_gc :: "u32 \<Rightarrow> (store_inner, rooted) action" where
  "root_new_gc i s = (let t = push_gc_root (anyref_handle_slot i) RkAny s in
     (Inr (rooted_from_raw_gen (anyref_handle_slot i) (case gc_generation (si_gc t) i of None \<Rightarrow> 0 | Some g \<Rightarrow> g)
        (si_store_id t) RkAny), t))"

section \<open>Body builders\<close>

definition body_err :: error where
  "body_err = Msg ''memory allocation failed''"

definition zeroed_body :: "(nat \<Rightarrow> bool) \<Rightarrow> nat \<Rightarrow> u8 list result" where
  "zeroed_body can_alloc n = (if can_alloc n then Inr (replicate n 0) else Inl body_err)"

definition copied_body :: "(nat \<Rightarrow> bool) \<Rightarrow> u8 list \<Rightarrow> u8 list result" where
  "copied_body can_alloc elems = (if can_alloc (length elems) then Inr elems else Inl body_err)"

text \<open>Writing a sequence of chunks over the successive whole chunks of a slice, as the loops over \<^verbatim>\<open>chunks_exact_mut\<close> and
  \<^verbatim>\<open>as_chunks_mut\<close> zipped with a source do; and \<^verbatim>\<open>as_chunks\<close> itself, without the remainder.\<close>

fun put_chunks :: "nat \<Rightarrow> 'a list \<Rightarrow> 'a list list \<Rightarrow> 'a list" where
  "put_chunks n b [] = b"
| "put_chunks n b (c # cs) = (if length b < n then b else c @ put_chunks n (drop n b) cs)"

function chunks_of :: "nat \<Rightarrow> 'a list \<Rightarrow> 'a list list" where
  "chunks_of n b = (if n = 0 \<or> length b < n then [] else take n b # chunks_of n (drop n b))"
  by pat_completeness auto
termination by (relation "measure (\<lambda>(n, b). length b)") auto

declare chunks_of.simps [simp del]

definition filled_body :: "(nat \<Rightarrow> bool) \<Rightarrow> u8 list \<Rightarrow> nat \<Rightarrow> u8 list result" where
  "filled_body can_alloc pattern n = bindr (zeroed_body can_alloc n) (\<lambda>body. Inr (
     if list_ex (\<lambda>b. b \<noteq> 0) pattern then put_chunks (length pattern) body (replicate (n div length pattern) pattern) else body))"

definition le_body :: "(nat \<Rightarrow> bool) \<Rightarrow> nat \<Rightarrow> ('a \<Rightarrow> u8 list) \<Rightarrow> 'a list \<Rightarrow> u8 list result" where
  "le_body can_alloc n to_le elems =
     bindr (ok_or (Msg ''array too large'') (checked_mul usize_max (length elems) n)) (\<lambda>byte_len.
     bindr (zeroed_body can_alloc byte_len) (\<lambda>body. Inr (put_chunks n body (map to_le elems))))"

definition element_byte_range :: "u32 \<Rightarrow> nat \<Rightarrow> nat \<Rightarrow> (nat \<times> nat) option" where
  "element_byte_range offset count stride =
     Option.bind (checked_mul usize_max (unat offset) stride) (\<lambda>a.
     Option.bind (checked_mul usize_max count stride) (\<lambda>n.
     Option.bind (checked_add usize_max n a) (\<lambda>e. Some (a, e))))"

section \<open>Structs\<close>

record struct_ref_pre =
  sp_store :: u64
  sp_ty :: canonical_type_id
  sp_layout :: struct_layout

definition struct_ref_pre_new :: "canonical_type_id \<Rightarrow> store_inner \<Rightarrow> struct_ref_pre result" where
  "struct_ref_pre_new tid s = bindr (struct_type_fields tid s) (\<lambda>fs.
     Inr \<lparr>sp_store = si_store_id s, sp_ty = tid, sp_layout = layout_for_struct fs\<rparr>)"

fun check_fields :: "slot list \<Rightarrow> field_type list \<Rightarrow> val list \<Rightarrow> store_inner \<Rightarrow> unit result" where
  "check_fields (sl # sls) (ty # tys) (v # vs) s = bindr (slot_takes sl ty v s) (\<lambda>ok.
     if ok then check_fields sls tys vs s else Inl (Msg ''struct field value has the wrong type''))"
| "check_fields _ _ _ s = Inr ()"

definition struct_host_new :: "struct_ref_pre \<Rightarrow> val list \<Rightarrow> ('d store, rooted) action" where
  "struct_host_new pre vals = (let slots = sl_fields (sp_layout pre); sz = sl_size (sp_layout pre) in
     if length vals \<noteq> length slots then fail (Msg ''wrong number of struct fields'')
     else bindc (in_store (check_handle (sp_store pre))) (\<lambda>_.
     bindc (in_store (struct_type_fields (sp_ty pre))) (\<lambda>tys.
     bindc (in_store (check_fields slots tys vals)) (\<lambda>_.
     bindc (gc_reserve_host (object_charge sz)) (\<lambda>_.
     bindc (lift_res (write_slots (zip slots vals) (replicate sz 0))) (\<lambda>data.
     on_store_inner (bindc (alloc_host_gc (sp_ty pre) (new_struct (sp_ty pre) data)) root_new_gc)))))))"

definition struct_host_field :: "rooted \<Rightarrow> nat \<Rightarrow> (store_inner, val) action" where
  "struct_host_field r index = bindc (\<lambda>s. (bindr (gc_slot_checked r s) (\<lambda>slot.
       bindr (gc_object_host s slot) (\<lambda>ob.
       bindr (struct_fields (en_types (si_engine s)) (go_type_id ob)) (\<lambda>fs.
       bindr (ok_or (Msg ''struct field index out of bounds'') (struct_field_at (layout_for_struct fs) index)) (\<lambda>sl.
       read_slot sl (go_data ob))))), s)) root_host_result"

definition struct_host_ty :: "rooted \<Rightarrow> (store_inner, canonical_type_id) action" where
  "struct_host_ty r = bindc (\<lambda>s. (bindr (gc_slot_checked r s) (gc_object_host s), s)) (\<lambda>ob. struct_type_from_id (go_type_id ob))"

definition struct_host_matches_ty :: "rooted \<Rightarrow> canonical_type_id \<Rightarrow> store_inner \<Rightarrow> bool result" where
  "struct_host_matches_ty r ty s = bindr (gc_slot_checked r s) (\<lambda>slot. bindr (gc_object_host s slot) (\<lambda>ob.
     engine_is_subtype (go_type_id ob) ty s))"

definition struct_host_set_field :: "rooted \<Rightarrow> nat \<Rightarrow> val \<Rightarrow> (store_inner, unit) action" where
  "struct_host_set_field r index v = bindc (\<lambda>s. (bindr (gc_slot_checked r s) (\<lambda>slot.
       bindr (gc_object_host s slot) (\<lambda>ob.
       bindr (struct_fields (en_types (si_engine s)) (go_type_id ob)) (\<lambda>fs.
       bindr (ok_or (Msg ''struct field index out of bounds'') (get_at fs index)) (\<lambda>ty.
       if ft_mutability ty \<noteq> MutVar then Inl (Msg ''struct field is not mutable'')
       else bindr (ok_or (Msg ''struct field index out of bounds'') (struct_field_at (layout_for_struct fs) index)) (\<lambda>sl.
       bindr (slot_takes sl ty v s) (\<lambda>ok.
       if \<not> ok then Inl (Msg ''struct field value has the wrong type'')
       else bindr (gc_object_host s slot) (\<lambda>ob.
       bindr (write_slot sl (go_data ob) v) (\<lambda>d. Inr (slot, d))))))))), s)) (\<lambda>(slot, d). putc (put_body slot d))"

section \<open>Arrays\<close>

record array_ref_pre =
  ap_store :: u64
  ap_ty :: canonical_type_id
  ap_layout :: array_layout

definition array_ref_pre_new :: "canonical_type_id \<Rightarrow> store_inner \<Rightarrow> array_ref_pre result" where
  "array_ref_pre_new tid s = bindr (array_type_field tid s) (\<lambda>f.
     Inr \<lparr>ap_store = si_store_id s, ap_ty = tid, ap_layout = layout_for_array f\<rparr>)"

definition body_len :: "array_ref_pre \<Rightarrow> nat \<Rightarrow> nat result" where
  "body_len pre count = bindr (ok_or (Msg ''array too large'') (try_u32 count)) (\<lambda>_.
     ok_or (Msg ''array too large'') (checked_mul usize_max count (al_stride (ap_layout pre))))"

definition check_elem :: "array_ref_pre \<Rightarrow> val \<Rightarrow> store_inner \<Rightarrow> unit result" where
  "check_elem pre v s = bindr (array_type_field (ap_ty pre) s) (\<lambda>f.
     bindr (slot_takes (elem_at (ap_layout pre) 0) f v s) (\<lambda>ok.
     if ok then Inr () else Inl (Msg ''array element value has the wrong type'')))"

fun check_elems :: "array_ref_pre \<Rightarrow> val list \<Rightarrow> store_inner \<Rightarrow> unit result" where
  "check_elems pre [] s = Inr ()"
| "check_elems pre (v # vs) s = bindr (check_elem pre v s) (\<lambda>_. check_elems pre vs s)"

definition packed_charge :: "array_ref_pre \<Rightarrow> storage_type \<Rightarrow> nat \<Rightarrow> store_inner \<Rightarrow> nat result" where
  "packed_charge pre expected count s = bindr (check_handle (ap_store pre) s) (\<lambda>_.
     bindr (array_type_field (ap_ty pre) s) (\<lambda>f.
     if ft_element f \<noteq> expected then Inl (Msg ''element type mismatch: cannot initialize the array from a slice'')
     else bindr (body_len pre count) (\<lambda>n. Inr (object_charge n))))"

definition finish_packed :: "array_ref_pre \<Rightarrow> u8 list \<Rightarrow> (store_inner, rooted) action" where
  "finish_packed pre body = bindc (\<lambda>s. (check_handle (ap_store pre) s, s)) (\<lambda>_.
     bindc (alloc_host_gc (ap_ty pre) (new_array (ap_ty pre) body)) root_new_gc)"

definition array_host_new :: "(nat \<Rightarrow> bool) \<Rightarrow> array_ref_pre \<Rightarrow> val \<Rightarrow> u32 \<Rightarrow> ('d store, rooted) action" where
  "array_host_new can_alloc pre elem len =
     bindc (in_store (check_handle (ap_store pre))) (\<lambda>_.
     bindc (in_store (check_elem pre elem)) (\<lambda>_.
     bindc (lift_res (body_len pre (unat len))) (\<lambda>byte_len.
     bindc (gc_reserve_host (object_charge byte_len)) (\<lambda>_.
     bindc (lift_res (write_slot (elem_at (ap_layout pre) 0) (replicate (al_stride (ap_layout pre)) 0) elem)) (\<lambda>pattern.
     bindc (lift_res (filled_body can_alloc pattern byte_len)) (\<lambda>body. on_store_inner (finish_packed pre body)))))))"

definition array_host_new_fixed :: "(nat \<Rightarrow> bool) \<Rightarrow> array_ref_pre \<Rightarrow> val list \<Rightarrow> ('d store, rooted) action" where
  "array_host_new_fixed can_alloc pre elems =
     bindc (lift_res (body_len pre (length elems))) (\<lambda>byte_len.
     bindc (in_store (check_handle (ap_store pre))) (\<lambda>_.
     bindc (in_store (check_elems pre elems)) (\<lambda>_.
     bindc (gc_reserve_host (object_charge byte_len)) (\<lambda>_.
     bindc (lift_res (zeroed_body can_alloc byte_len)) (\<lambda>data.
     bindc (lift_res (write_slots (zip (map (elem_at (ap_layout pre)) [0..<length elems]) elems) data)) (\<lambda>body.
     on_store_inner (bindc (alloc_host_gc (ap_ty pre) (new_array (ap_ty pre) body)) root_new_gc)))))))"

definition new_from_i8_slice :: "(nat \<Rightarrow> bool) \<Rightarrow> array_ref_pre \<Rightarrow> u8 list \<Rightarrow> ('d store, rooted) action" where
  "new_from_i8_slice can_alloc pre elems =
     bindc (in_store (packed_charge pre StI8 (length elems))) (\<lambda>charge. bindc (gc_reserve_host charge) (\<lambda>_.
     bindc (lift_res (copied_body can_alloc elems)) (\<lambda>body. on_store_inner (finish_packed pre body))))"

definition new_zeroed_i8 :: "(nat \<Rightarrow> bool) \<Rightarrow> array_ref_pre \<Rightarrow> u32 \<Rightarrow> ('d store, rooted) action" where
  "new_zeroed_i8 can_alloc pre len =
     bindc (in_store (packed_charge pre StI8 (unat len))) (\<lambda>charge. bindc (gc_reserve_host charge) (\<lambda>_.
     bindc (lift_res (zeroed_body can_alloc (unat len))) (\<lambda>body. on_store_inner (finish_packed pre body))))"

definition new_from_i64_slice :: "(nat \<Rightarrow> bool) \<Rightarrow> array_ref_pre \<Rightarrow> u64 list \<Rightarrow> ('d store, rooted) action" where
  "new_from_i64_slice can_alloc pre elems =
     bindc (in_store (packed_charge pre (StVal VtI64) (length elems))) (\<lambda>charge. bindc (gc_reserve_host charge) (\<lambda>_.
     bindc (lift_res (le_body can_alloc 8 (le_bytes 8) elems)) (\<lambda>body. on_store_inner (finish_packed pre body))))"

definition new_from_i16_slice :: "(nat \<Rightarrow> bool) \<Rightarrow> array_ref_pre \<Rightarrow> u16 list \<Rightarrow> ('d store, rooted) action" where
  "new_from_i16_slice can_alloc pre elems =
     bindc (in_store (packed_charge pre StI16 (length elems))) (\<lambda>charge. bindc (gc_reserve_host charge) (\<lambda>_.
     bindc (lift_res (le_body can_alloc 2 (le_bytes 2) elems)) (\<lambda>body. on_store_inner (finish_packed pre body))))"

text \<open>What every access through a handle starts with: the object and its element type.\<close>

definition array_behind :: "rooted \<Rightarrow> store_inner \<Rightarrow> (u32 \<times> gc_object \<times> field_type) result" where
  "array_behind r s = bindr (gc_slot_checked r s) (\<lambda>slot. bindr (gc_object_host s slot) (\<lambda>ob.
     bindr (array_field (en_types (si_engine s)) (go_type_id ob)) (\<lambda>f. Inr (slot, ob, f))))"

definition array_host_len :: "rooted \<Rightarrow> store_inner \<Rightarrow> u32 result" where
  "array_host_len r s = bindr (array_behind r s) (\<lambda>(_, ob, f). Inr (array_len ob (al_stride (layout_for_array f))))"

definition array_host_get :: "rooted \<Rightarrow> u32 \<Rightarrow> (store_inner, val) action" where
  "array_host_get r index = bindc (\<lambda>s. (bindr (array_behind r s) (\<lambda>(_, ob, f).
     if array_len ob (al_stride (layout_for_array f)) \<le> index then Inl (Msg ''array index out of bounds'')
     else read_slot (elem_at (layout_for_array f) (unat index)) (go_data ob)), s)) root_host_result"

definition array_host_set :: "rooted \<Rightarrow> u32 \<Rightarrow> val \<Rightarrow> (store_inner, unit) action" where
  "array_host_set r index v = bindc (\<lambda>s. (bindr (array_behind r s) (\<lambda>(slot, ob, f).
     if array_len ob (al_stride (layout_for_array f)) \<le> index then Inl (Msg ''array index out of bounds'')
     else if ft_mutability f \<noteq> MutVar then Inl (Msg ''array element is not mutable'')
     else bindr (slot_takes (elem_at (layout_for_array f) (unat index)) f v s) (\<lambda>ok.
       if \<not> ok then Inl (Msg ''array element value has the wrong type'')
       else bindr (gc_object_host s slot) (\<lambda>ob.
       bindr (write_slot (elem_at (layout_for_array f) (unat index)) (go_data ob) v) (\<lambda>d. Inr (slot, d))))), s))
     (\<lambda>(slot, d). putc (put_body slot d))"

section \<open>Packed slices\<close>

definition copy_from_slice :: "'a list \<Rightarrow> 'a list \<Rightarrow> 'a list result" where
  "copy_from_slice dst src = (if length dst = length src then Inr src else Inl (Panic ''copy_from_slice: length mismatch''))"

text \<open>The units of the whole chunks of a body, stored over a destination until either runs out.\<close>

definition unpack_units :: "nat \<Rightarrow> u8 list \<Rightarrow> 'a::len word list \<Rightarrow> 'a word list" where
  "unpack_units n body dst = map le_word (take (length dst) (chunks_of n body)) @ drop (length (chunks_of n body)) dst"

definition packed_body :: "rooted \<Rightarrow> storage_type \<Rightarrow> nat \<Rightarrow> store_inner \<Rightarrow> u8 list result" where
  "packed_body r expected dst_len s = bindr (array_behind r s) (\<lambda>(_, ob, f).
     if ft_element f \<noteq> expected then Inl (Msg ''element type mismatch: cannot copy the array into a slice'')
     else bindr (ok_or (Msg ''destination too large'') (try_u32 dst_len)) (\<lambda>n.
       if n \<noteq> unat (array_len ob (al_stride (layout_for_array f))) then Inl (Msg ''destination slice length is not the array length'')
       else Inr (go_data ob)))"

definition copy_to_i8_slice :: "rooted \<Rightarrow> u8 list \<Rightarrow> store_inner \<Rightarrow> u8 list result" where
  "copy_to_i8_slice r dst s = bindr (packed_body r StI8 (length dst) s) (copy_from_slice dst)"

definition copy_to_i16_slice :: "rooted \<Rightarrow> u16 list \<Rightarrow> store_inner \<Rightarrow> u16 list result" where
  "copy_to_i16_slice r dst s = bindr (packed_body r StI16 (length dst) s) (\<lambda>body. Inr (unpack_units 2 body dst))"

definition copy_to_i64_slice :: "rooted \<Rightarrow> u64 list \<Rightarrow> store_inner \<Rightarrow> u64 list result" where
  "copy_to_i64_slice r dst s = bindr (packed_body r (StVal VtI64) (length dst) s) (\<lambda>body. Inr (unpack_units 8 body dst))"

definition packed_range :: "rooted \<Rightarrow> storage_type \<Rightarrow> u32 \<Rightarrow> nat \<Rightarrow> store_inner \<Rightarrow> u8 list result" where
  "packed_range r expected offset count s = bindr (array_behind r s) (\<lambda>(_, ob, f).
     if ft_element f \<noteq> expected then Inl (Msg ''element type mismatch: cannot read the array into a slice'')
     else bindr (ok_or (Msg ''array read range overflows'') (element_byte_range offset count (al_stride (layout_for_array f)))) (\<lambda>(a, e).
       ok_or (Msg ''array read out of bounds'') (get_range (go_data ob) a e)))"

definition read_i8 :: "rooted \<Rightarrow> u32 \<Rightarrow> u8 list \<Rightarrow> store_inner \<Rightarrow> u8 list result" where
  "read_i8 r offset dst s = bindr (packed_range r StI8 offset (length dst) s) (copy_from_slice dst)"

definition read_i16 :: "rooted \<Rightarrow> u32 \<Rightarrow> u16 list \<Rightarrow> store_inner \<Rightarrow> u16 list result" where
  "read_i16 r offset dst s = bindr (packed_range r StI16 offset (length dst) s) (\<lambda>body. Inr (unpack_units 2 body dst))"

text \<open>A mutable borrow of part of a body: the slot, the body, where the part starts, and the part.\<close>

definition packed_body_mut :: "rooted \<Rightarrow> storage_type \<Rightarrow> u32 \<Rightarrow> nat \<Rightarrow> store_inner \<Rightarrow> (u32 \<times> u8 list \<times> nat \<times> u8 list) result" where
  "packed_body_mut r expected offset count s = bindr (array_behind r s) (\<lambda>(slot, ob, f).
     if ft_element f \<noteq> expected then Inl (Msg ''element type mismatch: cannot write a slice into the array'')
     else if ft_mutability f \<noteq> MutVar then Inl (Msg ''array element is not mutable'')
     else bindr (ok_or (Msg ''array write range overflows'') (element_byte_range offset count (al_stride (layout_for_array f)))) (\<lambda>(a, e).
       bindr (gc_object_host s slot) (\<lambda>ob.
       bindr (ok_or (Msg ''array write out of bounds'') (get_range (go_data ob) a e)) (\<lambda>part. Inr (slot, go_data ob, a, part)))))"

definition write_i8 :: "rooted \<Rightarrow> u32 \<Rightarrow> u8 list \<Rightarrow> (store_inner, unit) action" where
  "write_i8 r offset src = bindc (\<lambda>s. (packed_body_mut r StI8 offset (length src) s, s)) (\<lambda>(slot, d, a, part).
     bindc (lift_res (copy_from_slice part src)) (\<lambda>part'. putc (put_body slot (write_at d a part'))))"

definition write_i16 :: "rooted \<Rightarrow> u32 \<Rightarrow> u16 list \<Rightarrow> (store_inner, unit) action" where
  "write_i16 r offset src = bindc (\<lambda>s. (packed_body_mut r StI16 offset (length src) s, s)) (\<lambda>(slot, d, a, part).
     putc (put_body slot (write_at d a (put_chunks 2 part (map (le_bytes 2) src)))))"

end
