(* ===== verification/Gc_Host_Build.thy ===== *)
theory Gc_Host_Build
  imports Gc_Host
begin

text \<open>
  Host construction of structs and arrays: an array body is the sequence of its encoded elements whichever constructor builds it, a reservation
  changes neither the types nor the identity of the store, and a fresh object reads back as the values it was made of.
\<close>

section \<open>Bodies as sequences of encoded elements\<close>

text \<open>\<open>codes l v bs\<close>: the element \<open>v\<close> is encoded as \<open>bs\<close> in an array with layout \<open>l\<close>, wherever it stands.\<close>

definition codes :: "array_layout \<Rightarrow> val \<Rightarrow> u8 list \<Rightarrow> bool" where
  "codes l v bs \<longleftrightarrow> write_slot (elem_at l 0) (replicate (al_stride l) 0) v = Inr bs"

lemma splice_at: "off \<le> length d \<Longrightarrow> take off d @ write_at (drop off d) 0 bs = write_at d off bs"
  by (simp add: write_at_def add.commute)

lemma codes_written:
  assumes "codes l v bs" and "l = array_layout_of e"
  shows "length bs = al_stride l"
    and "Suc i * al_stride l \<le> length d \<Longrightarrow> write_slot (elem_at l i) d v = Inr (write_at d (i * al_stride l) bs)"
proof -
  have all: "write_at (replicate (length b) 0) 0 b = b" for b :: "u8 list" by (simp add: write_at_def)
  have w: "al_stride l = slot_width e" "elem_at l i = with_offset e (i * slot_width e)" "elem_at l 0 = with_offset e 0"
    using assms(2) by (simp_all add: array_layout_of_def elem_at_def)
  have off: "i * slot_width e \<le> length d" "slot_width e \<le> length d - i * slot_width e" if "Suc i * slot_width e \<le> length d"
    using that by auto
  from assms(1) show "length bs = al_stride l"
    using length_write_slot by (fastforce simp: codes_def)
  show "write_slot (elem_at l i) d v = Inr (write_at d (i * al_stride l) bs)" if "Suc i * al_stride l \<le> length d"
  proof (cases e)
    case (SlotScalar o' k)
    with assms(1) w that off show ?thesis
      by (cases k) (auto simp: codes_def write_slot_def write_scalar_def write_le_Inr splice_at write_at_def slice_from_def add.commute)
  next
    case (SlotRef o' k)
    with assms(1) w that off show ?thesis
      by (auto simp: codes_def write_slot_def write_le_Inr splice_at write_at_def slice_from_def REF_WIDTH_def add.commute)
  qed
qed

lemma write_elems:
  assumes "list_all2 (codes l) vs ps" and l: "l = array_layout_of e" and "length p = k * al_stride l"
    and "length rest = length vs * al_stride l"
  shows "write_slots (zip (map (elem_at l) [k..<k + length vs]) vs) (p @ rest) = Inr (p @ concat ps)"
  using assms(1,3,4)
proof (induction vs arbitrary: ps k p rest)
  case (Cons v vs)
  then obtain b bs where b: "ps = b # bs" "codes l v b" "list_all2 (codes l) vs bs" by (cases ps) auto
  note w = codes_written [OF b(2) l]
  have "write_slot (elem_at l k) (p @ rest) v = Inr (write_at (p @ rest) (length p) b)"
    using w(2) [of k "p @ rest"] Cons.prems by simp
  also have "write_at (p @ rest) (length p) b = (p @ b) @ drop (length b) rest" by (simp add: write_at_def)
  finally have step: "write_slot (elem_at l k) (p @ rest) v = Inr ((p @ b) @ drop (length b) rest)" .
  have "write_slots (zip (map (elem_at l) [Suc k..<Suc k + length vs]) vs) ((p @ b) @ drop (length b) rest) = Inr ((p @ b) @ concat bs)"
    by (rule Cons.IH [OF b(3)]) (use Cons.prems w(1) in auto)
  moreover have "[k..<k + length (v # vs)] = k # [Suc k..<Suc k + length vs]" by (simp add: upt_conv_Cons del: upt_Suc)
  ultimately show ?case using step b(1) by simp
qed simp

lemma write_all_elems:
  assumes "list_all2 (codes l) vs ps" and "l = array_layout_of e"
  shows "write_slots (zip (map (elem_at l) [0..<length vs]) vs) (replicate (length vs * al_stride l) 0) = Inr (concat ps)"
  using write_elems [OF assms, of "[]" 0 "replicate (length vs * al_stride l) 0"] by simp

lemma codes_accepted:
  assumes "slot_accepts (elem_at l 0) v" and "l = array_layout_of e"
  shows "\<exists>bs. codes l v bs"
proof -
  have "slot_end (elem_at l 0) \<le> length (replicate (al_stride l) (0 :: u8))"
    using elem_slot_within [OF assms(2), of 0 1] by (simp add: body_size_def)
  with write_slot_total [OF assms(1)] show ?thesis unfolding codes_def by blast
qed

lemma put_chunks_concat:
  "length b = length cs * n \<Longrightarrow> \<forall>c \<in> set cs. length c = n \<Longrightarrow> put_chunks n b cs = concat cs"
  by (induction cs arbitrary: b) auto

lemma chunks_of_concat: "0 < n \<Longrightarrow> \<forall>c \<in> set cs. length c = n \<Longrightarrow> chunks_of n (concat cs) = cs"
  by (induction cs) (auto simp: chunks_of.simps)

text \<open>Skipping the fill of a zero pattern is filling with it.\<close>

lemma filled_body_eq:
  assumes "length pattern = w" and "0 < w"
  shows "filled_body can_alloc pattern (n * w) = (if can_alloc (n * w) then Inr (concat (replicate n pattern)) else Inl body_err)"
proof -
  have zero: "concat (replicate n pattern) = replicate (n * w) 0" if "\<not> list_ex (\<lambda>b. b \<noteq> 0) pattern"
  proof -
    have "pattern = replicate w 0" using that assms(1) by (auto simp: list_ex_iff intro: replicate_eqI)
    then show ?thesis by (induction n) (auto simp: replicate_add)
  qed
  have "put_chunks w (replicate (n * w) 0) (replicate n pattern) = concat (replicate n pattern)"
    by (rule put_chunks_concat) (use assms in auto)
  with zero assms show ?thesis by (auto simp: filled_body_def zeroed_body_def)
qed

lemma le_body_eq:
  assumes "\<And>x. length (to_le x) = w" and "length xs * w \<le> usize_max"
  shows "le_body can_alloc w to_le xs = (if can_alloc (length xs * w) then Inr (concat (map to_le xs)) else Inl body_err)"
  using assms put_chunks_concat [of "replicate (length xs * w) 0" "map to_le xs" w]
  by (auto simp: le_body_def zeroed_body_def checked_mul_def)

section \<open>What a reservation leaves alone\<close>

lemma grow_gc_reservation_inner:
  "grow_gc_reservation n b st = (r, u) \<Longrightarrow> st_inner u = st_inner st \<or> st_inner u = grant_reservation n (st_inner st)"
  by (auto simp: grow_gc_reservation_def bindc_def store_plumbing split: if_splits prod.splits sum.splits dest!: with_sync_limiter_keeps)

lemma reserve_tail_inner:
  assumes "reserve_tail_host charge st = (r, u)"
  shows "st_inner u = st_inner st \<or> (\<exists>n. st_inner u = grant_reservation n (st_inner st))"
proof -
  let ?n = "desired_reservation (si_gc (st_inner st)) charge"
  from assms have "(if is_free_grant (si_gc (st_inner st)) ?n then upd_store (grant_reservation ?n) else grow_gc_reservation ?n charge) st = (r, u)"
    by (simp add: reserve_tail_host_def)
  then show ?thesis by (auto simp: store_plumbing split: if_splits dest: grow_gc_reservation_inner)
qed

text \<open>A reservation collects or not, then grants or not.\<close>

lemma gc_reserve_inner:
  assumes "gc_reserve_host charge st = (r, u)"
  obtains i where "i = st_inner st \<or> (\<exists>roots. i = snd (collect roots (st_inner st)))"
    and "st_inner u = i \<or> (\<exists>n. st_inner u = grant_reservation n i)"
proof -
  note result = that
  have tail: thesis if "reserve_tail_host charge st = (r, u)"
    using reserve_tail_inner [OF that] result by blast
  have "reserve_tail_host charge st = (r, u) \<or> u = st \<or> (\<exists>roots i. snd (collect roots (st_inner st)) = i \<and>
      (u = st\<lparr>st_inner := i\<rparr> \<or> reserve_tail_host charge (st\<lparr>st_inner := i\<rparr>) = (r, u)))"
  proof (cases "exec_roots (st_inner st)")
    case (Inr roots)
    obtain q i where "collect roots (st_inner st) = (q, i)" by fastforce
    with assms Inr show ?thesis
      by (cases q) (auto simp: gc_reserve_host_eq intro!: exI [of _ roots] split: if_splits)
  qed (use assms in \<open>auto simp: gc_reserve_host_eq split: if_splits\<close>)
  then show thesis
  proof (elim disjE exE conjE)
    fix roots i
    assume i: "snd (collect roots (st_inner st)) = i" and "reserve_tail_host charge (st\<lparr>st_inner := i\<rparr>) = (r, u)"
    then show thesis using reserve_tail_inner [of charge "st\<lparr>st_inner := i\<rparr>"] that [of i] by auto
  qed (use that tail in auto)
qed

lemma gc_reserve_view:
  assumes run: "gc_reserve_host charge st = (r, u)"
    and arenas: "\<And>s h x y. g (s\<lparr>si_gc := h, si_externrefs := x, si_exns := y\<rparr>) = g s"
    and engine: "\<And>s h n b. g (s\<lparr>si_gc := h, si_engine := (si_engine s)\<lparr>en_gc_committed := n\<rparr>, si_gc_request := b\<rparr>) = g s"
  shows "g (st_inner u) = g (st_inner st)"
proof -
  from gc_reserve_inner [OF run] obtain i where i: "i = st_inner st \<or> (\<exists>roots. i = snd (collect roots (st_inner st)))"
    "st_inner u = i \<or> (\<exists>n. st_inner u = grant_reservation n i)" by metis
  have "g (grant_reservation n i) = g i" for n
    by (simp add: grant_reservation_def add_gc_committed_def Let_def engine split: prod.split)
  moreover have "g i = g (st_inner st)" using i(1) collect_view [of g, OF arenas] by auto
  ultimately show ?thesis using i(2) by auto
qed

lemma gc_reserve_keeps:
  assumes "gc_reserve_host charge st = (r, u)"
  shows "si_store_id (st_inner u) = si_store_id (st_inner st)" "en_types (si_engine (st_inner u)) = en_types (si_engine (st_inner st))"
    "si_gc_host_alloc_types (st_inner u) = si_gc_host_alloc_types (st_inner st)"
  using gc_reserve_view [OF assms, of si_store_id] gc_reserve_view [OF assms, of "\<lambda>s. en_types (si_engine s)"]
    gc_reserve_view [OF assms, of si_gc_host_alloc_types] by simp_all

lemma gc_store_ok_grant: "gc_store_ok s \<Longrightarrow> gc_store_ok (grant_reservation n s)"
  by (simp add: grant_reservation_def gc_grant_def Let_def add_gc_committed_def gc_store_ok_def heap_ok_def)

lemma gc_store_ok_collect:
  assumes "gc_store_ok s"
  shows "gc_store_ok (snd (collect roots s))"
proof (cases "gh_collecting (si_gc s)")
  case True
  obtain r t where c: "collect roots s = (r, t)" by fastforce
  show ?thesis
  proof (cases r)
    case (Inl e)
    with c collect_failed [OF assms] assms show ?thesis by auto
  next
    case (Inr x)
    with c have "collect roots s = (Inr (), t)" by simp
    from collect_done [OF _ True this] assms obtain m es xs where "t = swept_store m es xs s" by (metis gc_store_ok_def)
    with c assms show ?thesis by (simp add: gc_store_ok_swept)
  qed
qed (use assms in \<open>simp add: collect_def\<close>)

lemma gc_store_ok_reserve:
  assumes "gc_reserve_host charge st = (r, u)" and "gc_store_ok (st_inner st)"
  shows "gc_store_ok (st_inner u)"
proof -
  from gc_reserve_inner [OF assms(1)] obtain i where "i = st_inner st \<or> (\<exists>roots. i = snd (collect roots (st_inner st)))"
    "st_inner u = i \<or> (\<exists>n. st_inner u = grant_reservation n i)" by metis
  with assms(2) show ?thesis using gc_store_ok_collect gc_store_ok_grant by metis
qed

section \<open>The constructors, reduced to one\<close>

lemma layout_for_array_stride:
  assumes "l = layout_for_array f"
  shows "l = array_layout_of (pub_field_slot f 0)" "0 < al_stride l" "al_stride l \<le> 16"
proof -
  have "scalar_width k \<le> 16" for k by (cases k) simp_all
  then have "slot_width sl \<le> 16" for sl by (cases sl) (simp_all add: REF_WIDTH_def)
  then show "l = array_layout_of (pub_field_slot f 0)" "0 < al_stride l" "al_stride l \<le> 16"
    by (simp_all add: assms layout_for_array_def array_layout_of_def)
qed

lemma body_len_ok:
  assumes "ap_layout pre = layout_for_array f" and "n \<le> u32_max"
  shows "body_len pre n = Inr (n * al_stride (ap_layout pre))"
proof -
  have "n * al_stride (ap_layout pre) \<le> u32_max * 16" using layout_for_array_stride [OF assms(1)] assms(2) by (intro mult_le_mono) auto
  with assms(2) show ?thesis by (simp add: body_len_def try_u32_def checked_mul_def)
qed

text \<open>What every constructor does once the element bytes are known.\<close>

definition build_array :: "(nat \<Rightarrow> bool) \<Rightarrow> array_ref_pre \<Rightarrow> u8 list \<Rightarrow> ('d store, rooted) action" where
  "build_array can_alloc pre body = bindc (gc_reserve_host (object_charge (length body))) (\<lambda>_.
     if can_alloc (length body) then on_store_inner (bindc (alloc_host_gc (ap_ty pre) (new_array (ap_ty pre) body)) root_new_gc)
     else fail body_err)"

lemma finish_packed_checked:
  "check_handle (ap_store pre) (st_inner u) = Inr () \<Longrightarrow>
    on_store_inner (finish_packed pre body) u = on_store_inner (bindc (alloc_host_gc (ap_ty pre) (new_array (ap_ty pre) body)) root_new_gc) u"
  by (simp add: on_store_inner_def finish_packed_def)

lemma check_handle_reserve:
  "gc_reserve_host charge st = (r, u) \<Longrightarrow> check_handle h (st_inner u) = check_handle h (st_inner st)"
  using gc_reserve_keeps(1) [of charge st r u] by (simp add: check_handle_def)

text \<open>The packed constructors: reserve, build, finish.\<close>

lemma packed_build:
  assumes "check_handle (ap_store pre) (st_inner st) = Inr ()"
    and "b = (if can_alloc (length body) then Inr body else Inl body_err)"
  shows "bindc (gc_reserve_host (object_charge (length body))) (\<lambda>_. bindc (lift_res b) (\<lambda>d. on_store_inner (finish_packed pre d))) st
    = build_array can_alloc pre body st"
proof -
  obtain r u where run: "gc_reserve_host (object_charge (length body)) st = (r, u)" by fastforce
  then have "check_handle (ap_store pre) (st_inner u) = Inr ()" using check_handle_reserve assms(1) by metis
  with run assms(2) show ?thesis
    by (cases r) (simp_all add: build_array_def finish_packed_checked)
qed

lemma length_concat_codes:
  "list_all2 (codes l) vs ps \<Longrightarrow> l = array_layout_of e \<Longrightarrow> length (concat ps) = length vs * al_stride l"
  by (induction vs ps rule: list_all2_induct) (auto dest: codes_written(1))

lemma new_fixed_build:
  assumes l: "ap_layout pre = layout_for_array f" and n: "length vs \<le> u32_max"
    and "check_handle (ap_store pre) (st_inner st) = Inr ()" and "check_elems pre vs (st_inner st) = Inr ()"
    and ps: "list_all2 (codes (ap_layout pre)) vs ps"
  shows "array_host_new_fixed can_alloc pre vs st = build_array can_alloc pre (concat ps) st"
proof -
  note w = write_all_elems [OF ps layout_for_array_stride(1) [OF l]]
  note len = length_concat_codes [OF ps layout_for_array_stride(1) [OF l]]
  obtain r u where run: "gc_reserve_host (object_charge (length (concat ps))) st = (r, u)" by fastforce
  with assms(3,4) body_len_ok [OF l n] w len show ?thesis
    by (cases r) (simp_all add: array_host_new_fixed_def build_array_def zeroed_body_def store_plumbing)
qed

lemma unat_u32_le: "unat (w :: u32) \<le> u32_max"
  using unat_u32_less [of w] by linarith

lemma bindc_known: "bindc (lift_res (Inr x)) f = f x"
  by (rule ext) simp

lemma check_elems_replicate: "check_elems pre (replicate n v) s = (if n = 0 then Inr () else check_elem pre v s)"
  by (induction n) (auto simp: bindr_def split: sum.splits)

lemma check_elem_accepts: "check_elem pre v s = Inr () \<Longrightarrow> slot_accepts (elem_at (ap_layout pre) 0) v"
  by (auto simp: check_elem_def slot_takes_def split: if_splits)

lemma check_elems_each: "check_elems pre vs s = Inr () \<longleftrightarrow> (\<forall>v \<in> set vs. check_elem pre v s = Inr ())"
  by (induction vs) auto

lemma codes_exist:
  assumes "check_elems pre vs s = Inr ()" and "ap_layout pre = layout_for_array f"
  shows "\<exists>ps. list_all2 (codes (ap_layout pre)) vs ps"
proof -
  have "\<forall>v \<in> set vs. \<exists>b. codes (ap_layout pre) v b"
    using assms(1) codes_accepted [OF _ layout_for_array_stride(1) [OF assms(2)]] check_elem_accepts by (auto simp: check_elems_each)
  then show ?thesis by (induction vs) (auto simp: list_all2_Cons1)
qed

text \<open>Packed elements: the codes of the values a slice stands for are its units in little-endian order.\<close>

lemma ucast_widened: "ucast (ucast b :: u32) = (b :: u8)" "ucast (ucast h :: u32) = (h :: u16)"
  by (rule bit_word_eqI, auto simp: bit_simps)+

lemma packed_codes:
  "ft_element f = StI8 \<Longrightarrow> codes (layout_for_array f) (I32 (ucast b)) [b]"
  "ft_element f = StI16 \<Longrightarrow> codes (layout_for_array f) (I32 (ucast h)) (le_bytes 2 (h :: u16))"
  "ft_element f = StVal VtI64 \<Longrightarrow> codes (layout_for_array f) (I64 d) (le_bytes 8 d)"
  by (simp_all add: codes_def layout_for_array_def array_layout_of_def pub_field_slot_def pub_val_slot_def elem_at_def write_slot_def
      slice_from_def write_scalar_def unwrap_i32_def unwrap_i64_def write_le_def write_at_def ucast_widened)

lemma packed_checks:
  assumes "array_type_field (ap_ty pre) s = Inr f" and "ap_layout pre = layout_for_array f"
  shows "ft_element f = StI8 \<Longrightarrow> check_elem pre (I32 x) s = Inr ()"
    "ft_element f = StI16 \<Longrightarrow> check_elem pre (I32 x) s = Inr ()"
    "ft_element f = StVal VtI64 \<Longrightarrow> check_elem pre (I64 y) s = Inr ()"
  using assms by (simp_all add: check_elem_def slot_takes_def slot_accepts_def layout_for_array_def array_layout_of_def pub_field_slot_def
      pub_val_slot_def elem_at_def field_value_matches_def val_matches_in_store_def)

text \<open>A slice constructor that lays out the bytes \<open>codes\<close> says builds what \<^verbatim>\<open>new_fixed\<close> builds from the values.\<close>

lemma slice_constructor:
  assumes l: "ap_layout pre = layout_for_array f" and ty: "array_type_field (ap_ty pre) (st_inner st) = Inr f"
    and n: "length xs \<le> u32_max" and el: "ft_element f = expected"
    and code: "\<And>x. codes (ap_layout pre) (v x) (c x)" and chk: "\<And>x. check_elem pre (v x) (st_inner st) = Inr ()"
    and body: "b = (if can_alloc (length xs * al_stride (ap_layout pre)) then Inr (concat (map c xs)) else Inl body_err)"
  shows "bindc (in_store (packed_charge pre expected (length xs))) (\<lambda>charge. bindc (gc_reserve_host charge) (\<lambda>_.
       bindc (lift_res b) (\<lambda>d. on_store_inner (finish_packed pre d)))) st = array_host_new_fixed can_alloc pre (map v xs) st"
proof (cases "check_handle (ap_store pre) (st_inner st)")
  case (Inl e)
  then show ?thesis using body_len_ok [OF l n] by (simp add: packed_charge_def array_host_new_fixed_def store_plumbing)
next
  case (Inr x)
  then have h: "check_handle (ap_store pre) (st_inner st) = Inr ()" by simp
  have ps: "list_all2 (codes (ap_layout pre)) (map v xs) (map c xs)" using code by (auto simp: list_all2_conv_all_nth)
  have len: "length (concat (map c xs)) = length xs * al_stride (ap_layout pre)"
    using length_concat_codes [OF ps layout_for_array_stride(1) [OF l]] by simp
  have "array_host_new_fixed can_alloc pre (map v xs) st = build_array can_alloc pre (concat (map c xs)) st"
    by (rule new_fixed_build [OF l _ h _ ps]) (use n chk in \<open>auto simp: check_elems_each\<close>)
  moreover have "packed_charge pre expected (length xs) (st_inner st) = Inr (object_charge (length (concat (map c xs))))"
    using h ty el body_len_ok [OF l n] len by (simp add: packed_charge_def)
  ultimately show ?thesis
    using packed_build [OF h, of b can_alloc "concat (map c xs)"] body len by (simp add: store_plumbing)
qed

section \<open>A fresh object\<close>

lemma incref_type_bodies: "incref_type tid r = (x, r') \<Longrightarrow> body_of r' k = body_of r k"
  by (auto simp: incref_type_def incref_group_def body_of_def live_type_def split: option.splits)

lemma field_lookups:
  assumes "\<And>k. body_of r' k = body_of r k"
  shows "array_field r' tid = array_field r tid" "struct_fields r' tid = struct_fields r tid"
  by (simp_all add: array_field_def array_field_raw_def struct_fields_def struct_fields_raw_def assms)

lemma pin_gc_type_frame:
  assumes "pin_gc_type tid s = (x, t)"
  shows "si_gc t = si_gc s" "si_store_id t = si_store_id s" "si_gc_roots t = si_gc_roots s"
    "body_of (en_types (si_engine t)) k = body_of (en_types (si_engine s)) k"
  using assms by (auto simp: pin_gc_type_def on_types_def incref_type_bodies split: if_splits prod.splits sum.splits)

lemma alloc_host_gc_Inr:
  assumes "alloc_host_gc tid ob s = (Inr i, u)"
  obtains b p where "pin_gc_type tid s = (Inr b, p)" "alloc_gc ob p = (Inr i, u)"
proof -
  obtain q p where p: "pin_gc_type tid s = (q, p)" by fastforce
  obtain x v where x: "alloc_gc ob p = (x, v)" by fastforce
  from assms p x have "x = Inr i \<and> v = u \<and> (\<exists>b. q = Inr b)"
    by (cases q; cases x) (auto simp: alloc_host_gc_def split: if_splits prod.splits sum.splits)
  with p x that show thesis by blast
qed

lemma host_allocated:
  assumes ok: "heap_ok (si_gc s)" and run: "bindc (alloc_host_gc tid ob) root_new_gc s = (Inr r, t)"
  obtains slot where "gc_slot_checked r t = Inr slot" "gc_get (si_gc s) slot = None"
    "\<And>k. gc_get (si_gc t) k = (if k = slot then Some ob else gc_get (si_gc s) k)"
    "\<And>k. body_of (en_types (si_engine t)) k = body_of (en_types (si_engine s)) k"
    "si_gc_roots t = si_gc_roots s @ [(slot, RkAny)]" "si_store_id t = si_store_id s"
proof -
  from run obtain b p i u where pin: "pin_gc_type tid s = (Inr b, p)" and al: "alloc_gc ob p = (Inr i, u)"
    and rt: "root_new_gc i u = (Inr r, t)"
    by (auto simp: bindc_eq_Inr elim!: alloc_host_gc_Inr)
  note frame = pin_gc_type_frame [OF pin]
  from al obtain h where h: "gc_alloc ob (si_gc s) = (Inr i, h)" "u = p\<lparr>si_gc := h\<rparr>"
    by (auto simp: alloc_gc_def frame(1) split: prod.splits)
  note get = gc_get_alloc [OF ok h(1)] and hok = heap_ok_alloc [OF ok h(1)]
  from get(2) [of i] have "unat i < length (gh_slots h)" by (auto simp: gc_get_def get_at_def split: if_splits)
  then obtain g where g: "gc_generation h i = Some g" using hok(1) by (auto simp: gc_generation_def heap_ok_def arena_ok_def get_at_def)
  have r: "r = rooted_from_raw_gen i g (si_store_id s) RkAny" and t: "t = push_gc_root i RkAny u"
    using rt g by (simp_all add: root_new_gc_def h(2) push_gc_root_def anyref_handle_slot_def frame(2))
  have dec: "decode_anyref_handle i = HandleSlot i"
    using decode_anyref_handle_slot [OF slot_not_tagged, of i] hok(2) by (simp add: anyref_handle_slot_def word_less_nat_alt)
  show thesis
  proof (rule that [of i])
    show "gc_slot_checked r t = Inr i"
      using get(2) [of i] g by (simp add: gc_slot_checked_def r t h(2) push_gc_root_def rooted_from_raw_gen_def check_handle_def frame(2) gc_slot_def dec)
  qed (use get frame in \<open>simp_all add: t h(2) push_gc_root_def\<close>)
qed

text \<open>An element of a body is its code.\<close>

lemma body_elem:
  assumes ps: "list_all2 (codes l) vs ps" and l: "l = array_layout_of e" and i: "i < length vs"
    and acc: "slot_accepts (elem_at l i) (vs ! i)" "handle_ok (vs ! i)"
  shows "read_slot (elem_at l i) (concat ps) = Inr (slot_view (elem_at l i) (vs ! i))"
proof -
  have len: "length vs = length ps" and code: "codes l (vs ! i) (ps ! i)" using ps i by (auto simp: list_all2_conv_all_nth)
  have w: "length p = al_stride l" if "p \<in> set ps" for p
    using ps that codes_written(1) [OF _ l] by (auto simp: list_all2_conv_all_nth in_set_conv_nth)
  have pre: "length (concat (take i ps)) = i * al_stride l"
    using length_concat_codes [OF list_all2_takeI [OF ps] l, of i] i by simp
  have split: "concat ps = concat (take i ps) @ ps ! i @ concat (drop (Suc i) ps)"
    using id_take_nth_drop [of i ps] i len by (metis concat.simps(2) concat_append)
  have same: "write_at (concat ps) (i * al_stride l) (ps ! i) = concat ps"
    unfolding split pre [symmetric] by (simp add: write_at_def)
  have fits: "Suc i * al_stride l \<le> length (concat ps)"
    using length_concat_codes [OF ps l] i by (metis Suc_leI mult_le_mono1)
  then have "slot_end (elem_at l i) \<le> length (concat ps)"
    using elem_slot_within [OF l, of i "Suc i"] by (simp add: body_size_def)
  from slot_round_trip [OF acc this] codes_written(2) [OF code l fits] same show ?thesis by auto
qed

lemma on_store_inner_done:
  assumes "on_store_inner m u = (x, t)"
  obtains i where "m (st_inner u) = (x, i)" "st_inner t = i"
  using assms by (auto simp: on_store_inner_def split: prod.splits)

lemma slot_accepts_elem: "slot_accepts (elem_at l i) v = slot_accepts (elem_at l 0) v"
  by (cases "al_elem l") (auto simp: elem_at_def slot_accepts_def)

lemma build_array_done:
  assumes "build_array can_alloc pre body st = (Inr r, t)" and "array_type_field (ap_ty pre) (st_inner st) = Inr f" and "gc_store_ok (st_inner st)"
  obtains slot where "array_behind r (st_inner t) = Inr (slot, new_array (ap_ty pre) body, f)" "gc_slot_checked r (st_inner t) = Inr slot"
    "(slot, RkAny) \<in> set (si_gc_roots (st_inner t))"
proof -
  obtain q u where res: "gc_reserve_host (object_charge (length body)) st = (q, u)" by fastforce
  with assms(1) have fin: "on_store_inner (bindc (alloc_host_gc (ap_ty pre) (new_array (ap_ty pre) body)) root_new_gc) u = (Inr r, t)"
    by (cases q) (auto simp: build_array_def split: if_splits)
  obtain i where run: "bindc (alloc_host_gc (ap_ty pre) (new_array (ap_ty pre) body)) root_new_gc (st_inner u) = (Inr r, i)" and t: "st_inner t = i"
    by (rule on_store_inner_done [OF fin])
  have "heap_ok (si_gc (st_inner u))" using gc_store_ok_reserve [OF res assms(3)] by (simp add: gc_store_ok_def)
  from host_allocated [OF this run] obtain slot where al: "gc_slot_checked r i = Inr slot"
    "\<And>k. gc_get (si_gc i) k = (if k = slot then Some (new_array (ap_ty pre) body) else gc_get (si_gc (st_inner u)) k)"
    "\<And>k. body_of (en_types (si_engine i)) k = body_of (en_types (si_engine (st_inner u))) k"
    "si_gc_roots i = si_gc_roots (st_inner u) @ [(slot, RkAny)]" by metis
  have "array_field (en_types (si_engine i)) (ap_ty pre) = Inr f"
    using assms(2) field_lookups(1) [OF al(3)] gc_reserve_keeps(2) [OF res] by (simp add: array_type_field_def split: sum.splits)
  with al t show thesis by (intro that [of slot]) (simp_all add: array_behind_def gc_object_host_def new_array_def)
qed

lemma new_fixed_runs:
  assumes l: "ap_layout pre = layout_for_array f" and run: "array_host_new_fixed can_alloc pre vs st = (Inr r, t)"
  obtains ps where "list_all2 (codes (ap_layout pre)) vs ps" "build_array can_alloc pre (concat ps) st = (Inr r, t)"
    "length vs \<le> u32_max" "check_elems pre vs (st_inner st) = Inr ()"
proof -
  from run have h: "length vs \<le> u32_max" "check_handle (ap_store pre) (st_inner st) = Inr ()" "check_elems pre vs (st_inner st) = Inr ()"
    by (auto simp: array_host_new_fixed_def bindc_eq_Inr store_plumbing body_len_def ok_or_def split: option.splits)
  with codes_exist [OF h(3) l] new_fixed_build [OF l h] run that show thesis by metis
qed

section \<open>The fields of a fresh struct\<close>

lemma write_slots_other:
  assumes "write_slots ps d = Inr d'" and "slot_end sl \<le> length d" and "\<forall>q \<in> set ps. slot_end sl \<le> slot_offset (fst q)"
  shows "read_slot sl d' = read_slot sl d"
  using assms
proof (induction ps arbitrary: d)
  case (Cons p ps)
  then obtain d1 where d1: "write_slot (fst p) d (snd p) = Inr d1" "write_slots ps d1 = Inr d'" by (cases p) auto
  with Cons.IH [OF d1(2)] Cons.prems length_write_slot [OF d1(1)] write_slot_other [OF d1(1), of sl] show ?case by simp
qed simp

lemma write_slots_read:
  assumes "write_slots ps d = Inr d'" and "\<forall>(sl, v) \<in> set ps. slot_accepts sl v \<and> handle_ok v \<and> slot_end sl \<le> length d"
    and "sorted_wrt (\<lambda>p q. slot_end (fst p) \<le> slot_offset (fst q)) ps"
  shows "\<forall>(sl, v) \<in> set ps. read_slot sl d' = Inr (slot_view sl v)"
  using assms
proof (induction ps arbitrary: d)
  case (Cons p ps)
  obtain sl v where p: "p = (sl, v)" by (cases p)
  with Cons.prems obtain d1 where d1: "write_slot sl d v = Inr d1" "write_slots ps d1 = Inr d'" by auto
  have rd: "read_slot sl d1 = Inr (slot_view sl v)" "length d1 = length d"
    using slot_round_trip [of sl v d] Cons.prems(2) d1(1) p by auto
  have "read_slot sl d' = Inr (slot_view sl v)"
    using write_slots_other [OF d1(2), of sl] Cons.prems(2,3) rd p by auto
  with Cons.IH [OF d1(2)] Cons.prems(2,3) rd(2) p show ?case by auto
qed simp

lemma check_fields_accept:
  "check_fields sls tys vs s = Inr () \<Longrightarrow> length sls = length tys \<Longrightarrow> length vs = length tys \<Longrightarrow> \<forall>(sl, v) \<in> set (zip sls vs). slot_accepts sl v"
  by (induction sls tys vs s rule: check_fields.induct) (auto simp: slot_takes_def split: if_splits)

lemma layout_for_struct_slots:
  assumes "l = layout_for_struct fs"
  shows "length (sl_fields l) = length fs" "i < length fs \<Longrightarrow> slot_end (sl_fields l ! i) \<le> sl_size l"
    "i < j \<Longrightarrow> j < length fs \<Longrightarrow> slot_end (sl_fields l ! i) \<le> slot_offset (sl_fields l ! j)"
  using struct_layout_length [of "map pub_field_slot fs"] struct_slots_within [of "map pub_field_slot fs" i]
    struct_slots_disjoint [of "map pub_field_slot fs" i j]
  by (auto simp: assms layout_for_struct_def)

section \<open>A store with host aggregates, for the witnesses\<close>

definition bytes_key :: cgroup where
  "bytes_key = [\<lparr>cty_finality = Final, cty_supertype = None, cty_body = CArray \<lparr>cf_mutable = True, cf_storage = CPacked 0\<rparr>\<rparr>]"

definition pair_key :: cgroup where
  "pair_key = [\<lparr>cty_finality = Final, cty_supertype = None,
     cty_body = CStruct [\<lparr>cf_mutable = True, cf_storage = CPacked 0\<rparr>, \<lparr>cf_mutable = True, cf_storage = CStoreVal (CNum 0)\<rparr>]\<rparr>]"

definition host_types :: type_registry where
  "host_types = snd (intern_group pair_key 1 (snd (intern_group bytes_key 1 empty_registry)))"

definition host_store :: "unit store" where
  "host_store = \<lparr>st_inner = store_new 1 (sample_engine\<lparr>en_types := host_types, en_gc_heap_reservation := 1048576\<rparr>), st_data = (), st_limiter = None\<rparr>"

definition bytes_pre :: array_ref_pre where
  "bytes_pre = \<lparr>ap_store = 1, ap_ty = 0, ap_layout = layout_for_array \<lparr>ft_mutability = MutVar, ft_element = StI8\<rparr>\<rparr>"

definition pair_pre :: struct_ref_pre where
  "pair_pre = \<lparr>sp_store = 1, sp_ty = 1,
     sp_layout = layout_for_struct [\<lparr>ft_mutability = MutVar, ft_element = StI8\<rparr>, \<lparr>ft_mutability = MutVar, ft_element = StVal VtI32\<rparr>]\<rparr>"

definition bytes_ref :: rooted where
  "bytes_ref = \<lparr>ro_index = 0, ro_arena = RkAny, ro_store = 1, ro_generation = 0\<rparr>"

definition bytes_inner :: store_inner where
  "bytes_inner = st_inner (snd (array_host_new_fixed (\<lambda>_. True) bytes_pre [I32 1, I32 2, I32 3] host_store))"

lemma host_store_ok: "gc_store_ok (st_inner host_store)"
  by (simp add: host_store_def store_new_ok)

lemma host_types_known:
  "array_type_field 0 (st_inner host_store) = Inr \<lparr>ft_mutability = MutVar, ft_element = StI8\<rparr>"
  "struct_type_fields 1 (st_inner host_store) = Inr [\<lparr>ft_mutability = MutVar, ft_element = StI8\<rparr>, \<lparr>ft_mutability = MutVar, ft_element = StVal VtI32\<rparr>]"
  "array_ref_pre_new 0 (st_inner host_store) = Inr bytes_pre" "struct_ref_pre_new 1 (st_inner host_store) = Inr pair_pre"
  by code_simp+

lemma bytes_layout: "ap_layout bytes_pre = layout_for_array \<lparr>ft_mutability = MutVar, ft_element = StI8\<rparr>" "ap_ty bytes_pre = 0"
  by (simp_all add: bytes_pre_def)

section \<open>Properties\<close>

text \<open>C32. Allocating \<open>len\<close> copies of an element, which encodes it once and replicates the bytes (or skips the fill when they are all zero), is
  allocating a fixed array of that many equal elements: same checks, same reservation and limiter calls, same object and same handle, and the
  same error when one of them refuses. Only for length zero the element must be known to be of the element type.\<close>

theorem array_new_replicates:
  assumes "ap_layout pre = layout_for_array f" and "len \<noteq> 0 \<or> check_elem pre elem (st_inner st) = Inr ()"
  shows "array_host_new can_alloc pre elem len st = array_host_new_fixed can_alloc pre (replicate (unat len) elem) st"
proof (cases "check_handle (ap_store pre) (st_inner st)")
  case (Inl e)
  then show ?thesis using body_len_ok [OF assms(1) unat_u32_le, of len]
    by (simp add: array_host_new_def array_host_new_fixed_def store_plumbing)
next
  case (Inr x)
  then have h: "check_handle (ap_store pre) (st_inner st) = Inr ()" by simp
  have n: "unat len \<le> u32_max" by (rule unat_u32_le)
  note bl = body_len_ok [OF assms(1) n] and stride = layout_for_array_stride [OF assms(1)]
  show ?thesis
  proof (cases "check_elem pre elem (st_inner st)")
    case (Inl e)
    with assms(2) have "len \<noteq> 0" by auto
    with Inl h bl show ?thesis
      by (simp add: array_host_new_def array_host_new_fixed_def store_plumbing check_elems_replicate unat_eq_0)
  next
    case (Inr y)
    then have c: "check_elem pre elem (st_inner st) = Inr ()" by simp
    obtain b where b: "codes (ap_layout pre) elem b" using codes_accepted [OF check_elem_accepts [OF c] stride(1)] by blast
    have len: "length b = al_stride (ap_layout pre)" by (rule codes_written(1) [OF b stride(1)])
    let ?body = "concat (replicate (unat len) b)"
    have lb: "length ?body = unat len * al_stride (ap_layout pre)" by (simp add: length_concat sum_list_replicate len)
    have "array_host_new_fixed can_alloc pre (replicate (unat len) elem) st = build_array can_alloc pre ?body st"
      by (rule new_fixed_build [OF assms(1) _ h]) (use n c b in \<open>auto simp: check_elems_replicate list_all2_conv_all_nth\<close>)
    moreover have "array_host_new can_alloc pre elem len st = build_array can_alloc pre ?body st"
      using packed_build [of pre st "filled_body can_alloc b (length ?body)" can_alloc ?body, OF h]
        filled_body_eq [OF len stride(2), of can_alloc "unat len", folded lb] b h c bl lb
      by (simp add: array_host_new_def store_plumbing codes_def bindc_known)
    ultimately show ?thesis by simp
  qed
qed

theorem array_new_replicates_witness:
  "array_host_new (\<lambda>_. True) bytes_pre (I32 7) 3 host_store = array_host_new_fixed (\<lambda>_. True) bytes_pre (replicate 3 (I32 7)) host_store"
  using array_new_replicates [OF bytes_layout(1), of 3 "I32 7" host_store "\<lambda>_. True"] by simp

text \<open>The constructors that take packed units build exactly what a fixed array of the corresponding values is: bytes and 16-bit units
  as the zero-extended \<^verbatim>\<open>i32\<close> values, 64-bit patterns as \<^verbatim>\<open>i64\<close> values, zeroed bytes as that many zeros, on every outcome.\<close>

theorem slice_constructors_exact:
  assumes "ap_layout pre = layout_for_array f" and "array_type_field (ap_ty pre) (st_inner st) = Inr f"
    and "length bs \<le> u32_max" and "length hs \<le> u32_max" and "length ds \<le> u32_max"
  shows "(ft_element f = StI8 \<longrightarrow> new_from_i8_slice can_alloc pre bs st = array_host_new_fixed can_alloc pre (map (\<lambda>b. I32 (ucast b)) bs) st \<and>
       new_zeroed_i8 can_alloc pre n st = array_host_new_fixed can_alloc pre (replicate (unat n) (I32 0)) st) \<and>
     (ft_element f = StI16 \<longrightarrow> new_from_i16_slice can_alloc pre hs st = array_host_new_fixed can_alloc pre (map (\<lambda>h. I32 (ucast h)) hs) st) \<and>
     (ft_element f = StVal VtI64 \<longrightarrow> new_from_i64_slice can_alloc pre ds st = array_host_new_fixed can_alloc pre (map I64 ds) st)"
proof -
  note mk = slice_constructor [OF assms(1,2)] and chk = packed_checks [OF assms(2,1)]
  note codes = packed_codes [of f, folded assms(1)]
  have stride: "ft_element f = StI8 \<Longrightarrow> al_stride (ap_layout pre) = 1" "ft_element f = StI16 \<Longrightarrow> al_stride (ap_layout pre) = 2"
    "ft_element f = StVal VtI64 \<Longrightarrow> al_stride (ap_layout pre) = 8"
    by (simp_all add: assms(1) layout_for_array_def array_layout_of_def pub_field_slot_def pub_val_slot_def)
  have i8: "new_from_i8_slice can_alloc pre xs st = array_host_new_fixed can_alloc pre (map (\<lambda>b. I32 (ucast b)) xs) st"
    if "ft_element f = StI8" "length xs \<le> u32_max" for xs
    unfolding new_from_i8_slice_def
    by (rule mk [OF that(2,1), where c = "\<lambda>b. [b]"]) (use that stride in \<open>simp_all add: codes chk copied_body_def\<close>)
  have "new_zeroed_i8 can_alloc pre n st = new_from_i8_slice can_alloc pre (replicate (unat n) 0) st"
    by (simp add: new_zeroed_i8_def new_from_i8_slice_def zeroed_body_def copied_body_def)
  moreover have "new_from_i8_slice can_alloc pre (replicate (unat n) 0) st = array_host_new_fixed can_alloc pre (replicate (unat n) (I32 0)) st"
    if "ft_element f = StI8"
    using i8 [OF that, of "replicate (unat n) 0"] unat_u32_le [of n] by simp
  moreover have "new_from_i16_slice can_alloc pre hs st = array_host_new_fixed can_alloc pre (map (\<lambda>h. I32 (ucast h)) hs) st"
    if "ft_element f = StI16"
    unfolding new_from_i16_slice_def
    by (rule mk [OF assms(4) that, where c = "le_bytes 2"]) (use that stride assms(4) in \<open>simp_all add: codes chk le_body_eq\<close>)
  moreover have "new_from_i64_slice can_alloc pre ds st = array_host_new_fixed can_alloc pre (map I64 ds) st"
    if "ft_element f = StVal VtI64"
    unfolding new_from_i64_slice_def
    by (rule mk [OF assms(5) that, where c = "le_bytes 8"]) (use that stride assms(5) in \<open>simp_all add: codes chk le_body_eq\<close>)
  ultimately show ?thesis using i8 [OF _ assms(3)] by simp
qed

theorem slice_constructors_exact_witness:
  "new_from_i8_slice (\<lambda>_. True) bytes_pre [1, 255] host_store = array_host_new_fixed (\<lambda>_. True) bytes_pre [I32 1, I32 255] host_store"
proof -
  have ty: "array_type_field (ap_ty bytes_pre) (st_inner host_store) = Inr \<lparr>ft_mutability = MutVar, ft_element = StI8\<rparr>"
    by (simp add: bytes_layout host_types_known)
  show ?thesis using slice_constructors_exact [OF bytes_layout(1) ty, of "[1, 255]" "[]" "[]" "\<lambda>_. True"] by simp
qed

text \<open>C33. An array allocated from a list of values has that length, and reading an element through the handle gives the value passed for it (the low
  bits for a packed element), stamped and rooted as any value handed to the embedder; the handle is live and rooted.\<close>

theorem array_host_round_trip:
  assumes "ap_layout pre = layout_for_array f" and "array_type_field (ap_ty pre) (st_inner st) = Inr f" and "gc_store_ok (st_inner st)"
    and "\<forall>v \<in> set vs. handle_ok v" and "array_host_new_fixed can_alloc pre vs st = (Inr r, t)"
  shows "array_host_len r (st_inner t) = Inr (of_nat (length vs)) \<and>
    (\<forall>i < length vs. array_host_get r (of_nat i) (st_inner t) = root_host_result (slot_view (elem_at (ap_layout pre) i) (vs ! i)) (st_inner t)) \<and>
    (\<exists>slot. gc_slot_checked r (st_inner t) = Inr slot \<and> (slot, RkAny) \<in> set (si_gc_roots (st_inner t)))"
proof -
  obtain ps where ps: "list_all2 (codes (ap_layout pre)) vs ps" "build_array can_alloc pre (concat ps) st = (Inr r, t)"
    "length vs \<le> u32_max" "check_elems pre vs (st_inner st) = Inr ()" by (rule new_fixed_runs [OF assms(1,5)])
  obtain slot where ob: "array_behind r (st_inner t) = Inr (slot, new_array (ap_ty pre) (concat ps), f)"
    "gc_slot_checked r (st_inner t) = Inr slot" "(slot, RkAny) \<in> set (si_gc_roots (st_inner t))"
    by (rule build_array_done [OF ps(2) assms(2,3)])
  note stride = layout_for_array_stride [OF assms(1)]
  have len: "array_len (new_array (ap_ty pre) (concat ps)) (al_stride (layout_for_array f)) = of_nat (length vs)"
    using length_concat_codes [OF ps(1) stride(1)] stride(2) assms(1) by (simp add: array_len_def new_array_def max_absorb1 Suc_leI)
  have "array_host_get r (of_nat i) (st_inner t) = root_host_result (slot_view (elem_at (ap_layout pre) i) (vs ! i)) (st_inner t)"
    if i: "i < length vs" for i
  proof -
    have u: "unat (of_nat i :: u32) = i" "unat (of_nat (length vs) :: u32) = length vs" using i ps(3) by (simp_all add: unat_of_nat_u32)
    have acc: "slot_accepts (elem_at (ap_layout pre) i) (vs ! i)"
      using ps(4) i check_elem_accepts [of pre "vs ! i" "st_inner st"] by (simp add: check_elems_each slot_accepts_elem [of _ i])
    have "read_slot (elem_at (layout_for_array f) i) (concat ps) = Inr (slot_view (elem_at (ap_layout pre) i) (vs ! i))"
      using body_elem [OF ps(1) stride(1) i acc] assms(1,4) i by simp
    then show ?thesis using i u ob(1) len by (simp add: array_host_get_def new_array_def word_le_nat_alt)
  qed
  with ob len show ?thesis by (auto simp: array_host_len_def)
qed

theorem array_host_round_trip_witness:
  "array_host_len bytes_ref bytes_inner = Inr 3 \<and> fst (array_host_get bytes_ref 2 bytes_inner) = Inr (I32 3)"
proof -
  have ty: "array_type_field (ap_ty bytes_pre) (st_inner host_store) = Inr \<lparr>ft_mutability = MutVar, ft_element = StI8\<rparr>"
    by (simp add: bytes_layout host_types_known)
  have run: "array_host_new_fixed (\<lambda>_. True) bytes_pre [I32 1, I32 2, I32 3] host_store =
      (Inr bytes_ref, snd (array_host_new_fixed (\<lambda>_. True) bytes_pre [I32 1, I32 2, I32 3] host_store))"
    by (rule prod_eqI) (simp_all, code_simp)
  have ok: "\<forall>v \<in> set [I32 1, I32 2, I32 3]. handle_ok v" by code_simp
  note rt = array_host_round_trip [OF bytes_layout(1) ty host_store_ok ok run, folded bytes_inner_def]
  have v: "slot_view (elem_at (ap_layout bytes_pre) 2) ([I32 1, I32 2, I32 3] ! 2) = I32 3" by code_simp
  from rt [THEN conjunct2, THEN conjunct1, rule_format, of 2] v have "fst (array_host_get bytes_ref 2 bytes_inner) = Inr (I32 3)"
    by (simp add: root_host_result_def stamp_host_value_def)
  with rt show ?thesis by simp
qed

text \<open>A struct allocated from field values has one value per field, and reading a field through the handle gives the value passed for it
  (the low bits for a packed field), stamped and rooted as any value handed to the embedder; a field past the last is an error.\<close>

theorem struct_host_round_trip:
  assumes "sp_layout pre = layout_for_struct fs" and "struct_type_fields (sp_ty pre) (st_inner st) = Inr fs" and "gc_store_ok (st_inner st)"
    and "\<forall>v \<in> set vs. handle_ok v" and "struct_host_new pre vs st = (Inr r, t)"
  shows "length vs = length fs \<and> (\<forall>i. struct_host_field r i (st_inner t) =
    (if i < length fs then root_host_result (slot_view (sl_fields (sp_layout pre) ! i) (vs ! i)) (st_inner t)
     else (Inl (Msg ''struct field index out of bounds''), st_inner t)))"
proof -
  let ?l = "sp_layout pre"
  note sls = layout_for_struct_slots [OF assms(1)]
  from assms(2,5) sls(1) obtain u d where len: "length vs = length fs" and chk: "check_fields (sl_fields ?l) fs vs (st_inner st) = Inr ()"
    and res: "gc_reserve_host (object_charge (sl_size ?l)) st = (Inr (), u)" and d: "write_slots (zip (sl_fields ?l) vs) (replicate (sl_size ?l) 0) = Inr d"
    and fin: "on_store_inner (bindc (alloc_host_gc (sp_ty pre) (new_struct (sp_ty pre) d)) root_new_gc) u = (Inr r, t)"
    by (auto simp: struct_host_new_def Let_def store_plumbing bindc_eq_Inr split: if_splits)
  obtain i where al: "bindc (alloc_host_gc (sp_ty pre) (new_struct (sp_ty pre) d)) root_new_gc (st_inner u) = (Inr r, i)" and t: "st_inner t = i"
    by (rule on_store_inner_done [OF fin])
  have "heap_ok (si_gc (st_inner u))" using gc_store_ok_reserve [OF res assms(3)] by (simp add: gc_store_ok_def)
  from host_allocated [OF this al] obtain slot where h: "gc_slot_checked r i = Inr slot"
    "\<And>k. gc_get (si_gc i) k = (if k = slot then Some (new_struct (sp_ty pre) d) else gc_get (si_gc (st_inner u)) k)"
    "\<And>k. body_of (en_types (si_engine i)) k = body_of (en_types (si_engine (st_inner u))) k" by metis
  have fs: "struct_fields (en_types (si_engine i)) (sp_ty pre) = Inr fs"
    using assms(2) field_lookups(2) [OF h(3)] gc_reserve_keeps(2) [OF res] by (simp add: struct_type_fields_def split: sum.splits)
  have "\<forall>(sl, v) \<in> set (zip (sl_fields ?l) vs). read_slot sl d = Inr (slot_view sl v)"
  proof (rule write_slots_read [OF d])
    have "slot_end sl \<le> sl_size ?l" if "(sl, v) \<in> set (zip (sl_fields ?l) vs)" for sl v
      using set_zip_leftD [OF that] sls(1,2) by (auto simp: in_set_conv_nth)
    then show "\<forall>(sl, v) \<in> set (zip (sl_fields ?l) vs). slot_accepts sl v \<and> handle_ok v \<and> slot_end sl \<le> length (replicate (sl_size ?l) (0 :: u8))"
      using check_fields_accept [OF chk sls(1) len] assms(4) by (auto dest: set_zip_rightD)
    show "sorted_wrt (\<lambda>p q. slot_end (fst p) \<le> slot_offset (fst q)) (zip (sl_fields ?l) vs)"
      using sls(1,3) len by (simp add: sorted_wrt_iff_nth_less)
  qed
  then have rd: "read_slot (sl_fields ?l ! i) d = Inr (slot_view (sl_fields ?l ! i) (vs ! i))" if "i < length fs" for i
    using that sls(1) len by (fastforce simp: set_zip)
  show ?thesis using h(1,2) fs rd sls(1) len assms(1) t
    by (auto simp: struct_host_field_def gc_object_host_def new_struct_def struct_field_at_def get_at_def)
qed

theorem struct_host_round_trip_witness:
  "fst (struct_host_field bytes_ref 0 (st_inner (snd (struct_host_new pair_pre [I32 257, I32 9] host_store)))) = Inr (I32 1) \<and>
   fst (struct_host_field bytes_ref 1 (st_inner (snd (struct_host_new pair_pre [I32 257, I32 9] host_store)))) = Inr (I32 9)"
proof -
  let ?fs = "[\<lparr>ft_mutability = MutVar, ft_element = StI8\<rparr>, \<lparr>ft_mutability = MutVar, ft_element = StVal VtI32\<rparr>]"
  have h: "sp_layout pair_pre = layout_for_struct ?fs" "struct_type_fields (sp_ty pair_pre) (st_inner host_store) = Inr ?fs"
    "\<forall>v \<in> set [I32 257, I32 9]. handle_ok v" "fst (struct_host_new pair_pre [I32 257, I32 9] host_store) = Inr bytes_ref" by code_simp+
  have run: "struct_host_new pair_pre [I32 257, I32 9] host_store = (Inr bytes_ref, snd (struct_host_new pair_pre [I32 257, I32 9] host_store))"
    using h(4) by (simp add: prod_eq_iff)
  have v: "slot_view (sl_fields (sp_layout pair_pre) ! 0) (I32 257) = I32 1" "slot_view (sl_fields (sp_layout pair_pre) ! 1) (I32 9) = I32 9" by code_simp+
  from struct_host_round_trip [OF h(1,2) host_store_ok h(3) run, THEN conjunct2] v show ?thesis
    by (simp add: root_host_result_def stamp_host_value_def)
qed

end
