(* ===== verification/Gc_Host_Write.thy ===== *)
theory Gc_Host_Write
  imports Gc_Host_Build
begin

text \<open>
  Host writes to arrays: a part of the elements of one array is replaced and everything else stays.
\<close>

section \<open>Writing through a handle\<close>

lemma gc_generation_update [simp]: "gc_generation (gc_update i g h) k = gc_generation h k"
  by (simp add: gc_update_def gc_generation_def split: option.split)

lemma put_body_frame: "put_body i d s = s\<lparr>si_gc := si_gc (put_body i d s)\<rparr>"
  by (simp add: put_body_def)

lemma gc_get_put_body: "gc_get (si_gc (put_body i d s)) k =
    (if k = i then map_option (\<lambda>ob. ob\<lparr>go_data := d\<rparr>) (gc_get (si_gc s) k) else gc_get (si_gc s) k)"
  by (simp add: put_body_def gc_get_update)

lemma gc_slot_checked_put_body [simp]: "gc_slot_checked r (put_body i d s) = gc_slot_checked r s"
proof -
  have "gc_slot (put_body i d s) h = gc_slot s h" for h
    by (auto simp: gc_slot_def gc_get_put_body split: anyref_handle.split option.splits)
  moreover have "check_handle h (put_body i d s) = check_handle h s" for h by (simp add: check_handle_def put_body_def)
  ultimately show ?thesis by (simp add: gc_slot_checked_def put_body_def)
qed

lemma array_behind_put_body:
  assumes "array_behind r s = Inr (slot, ob, f)"
  shows "array_behind r (put_body slot d s) = Inr (slot, ob\<lparr>go_data := d\<rparr>, f)"
  using assms by (auto simp: array_behind_def gc_object_host_def gc_get_put_body ok_or_def split: option.splits)
    (simp_all add: put_body_def)

text \<open>A part of the body of an array whose elements are \<open>w\<close> bytes wide, replaced by another of the same length.\<close>

lemma packed_written:
  assumes "packed_body_mut r expected off n s = Inr (slot, d, a, part)" and "length part' = length part"
  obtains ob f where "array_behind r s = Inr (slot, ob, f)" "d = go_data ob" "ft_element f = expected" "ft_mutability f = MutVar"
    "a = unat off * al_stride (layout_for_array f)" "length part = n * al_stride (layout_for_array f)" "a + length part \<le> length d"
    "array_behind r (put_body slot (write_at d a part') s) = Inr (slot, ob\<lparr>go_data := write_at d a part'\<rparr>, f)"
    "packed_range r expected off n (put_body slot (write_at d a part') s) = Inr part'"
proof -
  from assms(1) obtain ob f where b: "array_behind r s = Inr (slot, ob, f)" "d = go_data ob" "ft_element f = expected" "ft_mutability f = MutVar"
    and rg: "element_byte_range off n (al_stride (layout_for_array f)) = Some (a, a + length part)"
    and part: "get_range d a (a + length part) = Some part"
    by (auto simp: packed_body_mut_def array_behind_def gc_object_host_def get_range_def split: if_splits prod.splits)
  have "a = unat off * al_stride (layout_for_array f)" "length part = n * al_stride (layout_for_array f)" "a + length part \<le> length d"
    using rg part by (auto simp: element_byte_range_def bind_eq_Some_conv get_range_def split: if_splits)
  moreover note b' = array_behind_put_body [OF b(1), of "write_at d a part'"]
  moreover have "packed_range r expected off n (put_body slot (write_at d a part') s) = Inr part'"
    using b' b(3) rg calculation(3) assms(2) read_write_at [of a part' d] by (simp add: packed_range_def get_range_def)
  ultimately show thesis using b that by blast
qed

lemma read_elem_outside:
  assumes l: "l = array_layout_of e" and "a = i * al_stride l" and "length part = n * al_stride l" and "a + length part \<le> length d"
    and "k < i \<or> i + n \<le> k" and "Suc k * al_stride l \<le> length d"
  shows "read_slot (elem_at l k) (write_at d a part) = read_slot (elem_at l k) d"
proof (rule read_slot_cong)
  have we: "slot_end (elem_at l k) = Suc k * al_stride l" "slot_width (elem_at l k) = al_stride l"
    by (simp_all add: slot_end_def elem_at_def l array_layout_of_def)
  show "slot_end (elem_at l k) \<le> length (write_at d a part)" "slot_end (elem_at l k) \<le> length d"
    using assms(4,6) we by simp_all
  have "Suc k * al_stride l \<le> a \<or> a + length part \<le> k * al_stride l"
    using assms(2,3,5) by (metis Suc_leI add_mult_distrib mult_le_mono1)
  then show "slot_bytes (elem_at l k) (write_at d a part) = slot_bytes (elem_at l k) d"
    using assms(4) we(2) by (auto simp: slot_bytes_def take_write_at_below take_write_at_above)
qed

lemma stamp_put_body [simp]: "stamp_host_value v (put_body i d s) = stamp_host_value v s"
proof -
  have ch: "check_handle h (put_body i d s) = check_handle h s" for h by (simp add: check_handle_def put_body_def)
  have other: "si_store_id (put_body i d s) = si_store_id s" "si_funcs (put_body i d s) = si_funcs s"
    "si_externrefs (put_body i d s) = si_externrefs s" "si_exns (put_body i d s) = si_exns s"
    "gc_generation (si_gc (put_body i d s)) k = gc_generation (si_gc s) k" for k by (simp_all add: put_body_def)
  show ?thesis
    by (cases v) (simp_all add: stamp_host_value_def stamp_func_def stamp_anyref_def stamp_externref_def stamp_exnref_def externref_checked_def
        externref_def exn_checked_def rooted_checked_def ch other cong: if_cong split: option.split anyref_handle.split)
qed

lemma host_get:
  assumes "array_behind r s = Inr (slot, ob, f)"
  shows "fst (array_host_get r k s) = (if array_len ob (al_stride (layout_for_array f)) \<le> k then Inl (Msg ''array index out of bounds'')
     else bindr (read_slot (elem_at (layout_for_array f) (unat k)) (go_data ob)) (\<lambda>v. stamp_host_value v s))"
  using assms by (auto simp: array_host_get_def bindc_def bindr_def root_host_result_def split: sum.split)

lemma below_array_len:
  assumes "k < array_len ob w" and "0 < w"
  shows "Suc (unat k) * w \<le> length (go_data ob)"
proof -
  have mx: "max w 1 = w" using assms(2) by simp
  have "unat k < length (go_data ob) div w mod 2 ^ 32"
    using assms(1) unfolding array_len_def mx word_less_nat_alt unat_of_nat by simp
  then have "Suc (unat k) \<le> length (go_data ob) div w" using mod_less_eq_dividend [of "length (go_data ob) div w" "2 ^ 32"] by linarith
  then have "Suc (unat k) * w \<le> length (go_data ob) div w * w" by (rule mult_le_mono1)
  also have "\<dots> \<le> length (go_data ob)" by simp
  finally show ?thesis .
qed

text \<open>A store in which one part of the elements of one array was written.\<close>

definition elements_written :: "rooted \<Rightarrow> u32 \<Rightarrow> nat \<Rightarrow> store_inner \<Rightarrow> store_inner \<Rightarrow> bool" where
  "elements_written r off n s t \<longleftrightarrow> t = s\<lparr>si_gc := si_gc t\<rparr> \<and> array_host_len r t = array_host_len r s \<and>
     (\<forall>k. k < off \<or> unat off + n \<le> unat k \<longrightarrow> fst (array_host_get r k t) = fst (array_host_get r k s)) \<and>
     (\<exists>slot. gc_slot_checked r s = Inr slot \<and> (\<forall>k. k \<noteq> slot \<longrightarrow> gc_get (si_gc t) k = gc_get (si_gc s) k))"

lemma part_written:
  assumes b: "array_behind r s = Inr (slot, ob, f)" and a: "a = unat off * al_stride (layout_for_array f)"
    and n: "length part = n * al_stride (layout_for_array f)" "a + length part \<le> length (go_data ob)"
    and t: "t = put_body slot (write_at (go_data ob) a part) s"
  shows "elements_written r off n s t"
proof -
  let ?l = "layout_for_array f"
  note stride = layout_for_array_stride [OF refl, of f]
  note b' = array_behind_put_body [OF b, of "write_at (go_data ob) a part", folded t]
  have al: "array_len (ob\<lparr>go_data := write_at (go_data ob) a part\<rparr>) st = array_len ob st" for st
    using n(2) by (simp add: array_len_def)
  have "fst (array_host_get r k t) = fst (array_host_get r k s)" if k: "k < off \<or> unat off + n \<le> unat k" for k
  proof (cases "array_len ob (al_stride ?l) \<le> k")
    case False
    have "read_slot (elem_at ?l (unat k)) (write_at (go_data ob) a part) = read_slot (elem_at ?l (unat k)) (go_data ob)"
      by (rule read_elem_outside [OF stride(1) a n])
        (use k below_array_len [of k ob] False stride(2) in \<open>auto simp: not_le word_less_nat_alt\<close>)
    then show ?thesis using host_get [OF b] host_get [OF b'] al by (simp add: t)
  qed (use host_get [OF b] host_get [OF b'] al in simp)
  moreover have "gc_slot_checked r s = Inr slot" using b by (auto simp: array_behind_def)
  moreover have "array_host_len r t = array_host_len r s" using b b' al by (simp add: array_host_len_def)
  ultimately show ?thesis unfolding elements_written_def
    using put_body_frame [of slot "write_at (go_data ob) a part" s] by (auto simp: t gc_get_put_body)
qed

lemma packed_update:
  assumes pb: "packed_body_mut r expected off n s = Inr (slot, d, a, part)" and len: "length part' = length part"
    and t: "t = put_body slot (write_at d a part') s"
  shows "elements_written r off n s t" "packed_range r expected off n t = Inr part'"
proof -
  obtain ob f where w: "array_behind r s = Inr (slot, ob, f)" "d = go_data ob"
    "a = unat off * al_stride (layout_for_array f)" "length part = n * al_stride (layout_for_array f)" "a + length part \<le> length d"
    "packed_range r expected off n t = Inr part'"
    by (rule packed_written [OF pb len, folded t])
  show "elements_written r off n s t" by (rule part_written [OF w(1,3)]) (use w len t in simp_all)
  show "packed_range r expected off n t = Inr part'" by (rule w(6))
qed

lemma packed_part_length:
  "packed_body_mut r expected off n s = Inr (slot, d, a, part) \<Longrightarrow> expected = StI8 \<Longrightarrow> length part = n"
  "packed_body_mut r expected off n s = Inr (slot, d, a, part) \<Longrightarrow> expected = StI16 \<Longrightarrow> length part = n * 2"
  by (rule packed_written [OF _ refl, of r expected off n s slot d a part],
      auto simp: layout_for_array_def array_layout_of_def pub_field_slot_def)+

lemma unpack_packed:
  assumes "\<And>x. length (c x :: u8 list) = w" and "0 < w" and "\<And>x. le_word (c x) = (x :: 'a::len word)" and "length dst = length xs"
  shows "unpack_units w (concat (map c xs)) dst = xs"
proof -
  have "chunks_of w (concat (map c xs)) = map c xs" by (rule chunks_of_concat) (use assms(1,2) in auto)
  then show ?thesis using assms(3,4) by (simp add: unpack_units_def comp_def)
qed

section \<open>Properties\<close>

text \<open>Overwriting a range of packed elements is exact: when it succeeds the range reads back as what was written, every other element, the
  length, every other object and the rest of the store are as before; when it fails, because the handle is stale, the element type or the
  mutability is wrong or the range leaves the array, the store is unchanged.\<close>

theorem packed_write_exact:
  assumes "write_i8 r off bs s = (x, t)" and "write_i16 r off hs s = (y, u)"
  shows "(case x of Inl e \<Rightarrow> t = s
       | Inr _ \<Rightarrow> elements_written r off (length bs) s t \<and> (\<forall>dst. length dst = length bs \<longrightarrow> read_i8 r off dst t = Inr bs)) \<and>
     (case y of Inl e \<Rightarrow> u = s
       | Inr _ \<Rightarrow> elements_written r off (length hs) s u \<and> (\<forall>dst. length dst = length hs \<longrightarrow> read_i16 r off dst u = Inr hs))"
proof -
  have "case x of Inl e \<Rightarrow> t = s
     | Inr _ \<Rightarrow> elements_written r off (length bs) s t \<and> (\<forall>dst. length dst = length bs \<longrightarrow> read_i8 r off dst t = Inr bs)"
  proof (cases "packed_body_mut r StI8 off (length bs) s")
    case (Inr z)
    then obtain slot d a part where z: "packed_body_mut r StI8 off (length bs) s = Inr (slot, d, a, part)" by (cases z) auto
    note len = packed_part_length(1) [OF z refl]
    with assms(1) z have t: "x = Inr ()" "t = put_body slot (write_at d a bs) s" by (simp_all add: write_i8_def copy_from_slice_def)
    from packed_update [OF z _ t(2)] len t(1) show ?thesis by (simp add: read_i8_def copy_from_slice_def)
  qed (use assms(1) in \<open>auto simp: write_i8_def\<close>)
  moreover have "case y of Inl e \<Rightarrow> u = s
     | Inr _ \<Rightarrow> elements_written r off (length hs) s u \<and> (\<forall>dst. length dst = length hs \<longrightarrow> read_i16 r off dst u = Inr hs)"
  proof (cases "packed_body_mut r StI16 off (length hs) s")
    case (Inr z)
    then obtain slot d a part where z: "packed_body_mut r StI16 off (length hs) s = Inr (slot, d, a, part)" by (cases z) auto
    let ?p = "concat (map (le_bytes 2) hs)"
    have len: "length part = length hs * 2" by (rule packed_part_length(2) [OF z refl])
    then have "put_chunks 2 part (map (le_bytes 2) hs) = ?p" by (intro put_chunks_concat) auto
    with assms(2) z have u: "y = Inr ()" "u = put_body slot (write_at d a ?p) s" by (simp_all add: write_i16_def)
    have "length ?p = length part" using len by (simp add: length_concat comp_def sum_list_triv)
    from packed_update [OF z this u(2)] u(1) show ?thesis by (simp add: read_i16_def unpack_packed)
  qed (use assms(2) in \<open>auto simp: write_i16_def\<close>)
  ultimately show ?thesis by blast
qed

theorem packed_write_exact_witness:
  "read_i8 bytes_ref 1 [0, 0] (snd (write_i8 bytes_ref 1 [8, 9] bytes_inner)) = Inr [8, 9] \<and>
   fst (array_host_get bytes_ref 0 (snd (write_i8 bytes_ref 1 [8, 9] bytes_inner))) = fst (array_host_get bytes_ref 0 bytes_inner)"
proof -
  have ok: "fst (write_i8 bytes_ref 1 [8, 9] bytes_inner) = Inr ()" by code_simp
  from packed_write_exact [OF prod.collapse [symmetric] prod.collapse [symmetric], of bytes_ref 1 "[8, 9]" bytes_inner "[]", unfolded ok]
  show ?thesis by (auto simp: elements_written_def)
qed

text \<open>Setting an element of an array through its handle is exact. A refused write (stale handle, index, mutability or type) leaves the store
  unchanged; one that succeeds was to a mutable element of a type that takes the value, reads back as that value, and changes no other
  element, no length, no other object and nothing else in the store.\<close>

theorem array_set_exact:
  assumes "array_host_set r k v s = (x, t)" and "handle_ok v"
  shows "case x of Inl e \<Rightarrow> t = s
    | Inr _ \<Rightarrow> elements_written r k 1 s t \<and> (\<exists>slot ob f. array_behind r s = Inr (slot, ob, f) \<and> ft_mutability f = MutVar \<and>
        slot_takes (elem_at (layout_for_array f) (unat k)) f v s = Inr True \<and>
        fst (array_host_get r k t) = stamp_host_value (slot_view (elem_at (layout_for_array f) (unat k)) v) t)"
proof (cases x)
  case (Inl e)
  with assms(1) show ?thesis by (auto simp: array_host_set_def bindc_def split: sum.splits)
next
  case (Inr y)
  with assms(1) obtain slot ob f d where b: "array_behind r s = Inr (slot, ob, f)"
    and k: "k < array_len ob (al_stride (layout_for_array f))" and mt: "ft_mutability f = MutVar"
    and tk: "slot_takes (elem_at (layout_for_array f) (unat k)) f v s = Inr True"
    and d: "write_slot (elem_at (layout_for_array f) (unat k)) (go_data ob) v = Inr d" and t: "t = put_body slot d s"
    by (auto simp: array_host_set_def bindc_def array_behind_def gc_object_host_def not_le split: sum.splits if_splits prod.splits)
  let ?l = "layout_for_array f"
  note stride = layout_for_array_stride [OF refl, of f]
  have acc: "slot_accepts (elem_at ?l (unat k)) v" using tk by (auto simp: slot_takes_def split: if_splits)
  obtain c where c: "codes ?l v c" using codes_accepted [OF acc [unfolded slot_accepts_elem [of _ "unat k"]] stride(1)] by blast
  note fit = below_array_len [OF k stride(2)] and w = codes_written [OF c stride(1)]
  have dw: "d = write_at (go_data ob) (unat k * al_stride ?l) c" using d w(2) [OF fit] by simp
  have "elements_written r k 1 s t" by (rule part_written [OF b refl, where part = c]) (use w(1) fit t dw in simp_all)
  moreover have "fst (array_host_get r k t) = stamp_host_value (slot_view (elem_at ?l (unat k)) v) t"
  proof -
    have "slot_end (elem_at ?l (unat k)) \<le> length (go_data ob)"
      using fit elem_slot_within [OF stride(1), of "unat k" "Suc (unat k)"] by (simp add: body_size_def)
    from slot_round_trip [OF acc assms(2) this] d have "read_slot (elem_at ?l (unat k)) d = Inr (slot_view (elem_at ?l (unat k)) v)" "length d = length (go_data ob)"
      by auto
    moreover from this(2) k have "k < array_len (ob\<lparr>go_data := d\<rparr>) (al_stride ?l)" by (simp add: array_len_def)
    ultimately show ?thesis using host_get [OF array_behind_put_body [OF b, of d], folded t, of k] by (simp add: not_le [symmetric])
  qed
  ultimately show ?thesis using Inr b mt tk by auto
qed

theorem array_set_exact_witness:
  "fst (array_host_get bytes_ref 1 (snd (array_host_set bytes_ref 1 (I32 300) bytes_inner))) = Inr (I32 44)"
proof -
  have ok: "fst (array_host_set bytes_ref 1 (I32 300) bytes_inner) = Inr ()" by code_simp
  have h: "handle_ok (I32 300)" by code_simp
  obtain slot ob f where b: "array_behind bytes_ref bytes_inner = Inr (slot, ob, f)"
    "fst (array_host_get bytes_ref 1 (snd (array_host_set bytes_ref 1 (I32 300) bytes_inner))) =
      stamp_host_value (slot_view (elem_at (layout_for_array f) (unat (1 :: u32))) (I32 300)) (snd (array_host_set bytes_ref 1 (I32 300) bytes_inner))"
    using array_set_exact [OF prod.collapse [symmetric] h, of bytes_ref 1 bytes_inner, unfolded ok] by auto
  have "map_sum id (\<lambda>(_, _, f). f) (array_behind bytes_ref bytes_inner) = Inr \<lparr>ft_mutability = MutVar, ft_element = StI8\<rparr>" by code_simp
  with b(1) have f: "f = \<lparr>ft_mutability = MutVar, ft_element = StI8\<rparr>" by simp
  have "slot_view (elem_at (layout_for_array \<lparr>ft_mutability = MutVar, ft_element = StI8\<rparr>) (unat (1 :: u32))) (I32 300) = I32 44" by code_simp
  with b(2) f show ?thesis by (simp add: stamp_host_value_def)
qed

end
