(* ===== verification/Ref_Host.thy ===== *)
theory Ref_Host
  imports Gc_Host_Write Exec_Control
begin

text \<open>
  References in the embedder's hands, \<^verbatim>\<open>src/value/gc_ref.rs\<close> and \<^verbatim>\<open>src/value/exn_ref.rs\<close>: identity and liveness of rooted handles, root scopes,
  host externrefs, the downcasts of \<^verbatim>\<open>anyref\<close>, and exceptions built and inspected by the host. A host payload is a number naming it. An
  exception type is the canonical id of its tag's function type.
\<close>

section \<open>Identity and liveness\<close>

definition validate_liveness :: "rooted \<Rightarrow> store_inner \<Rightarrow> unit result" where
  "validate_liveness r s = (case ro_arena r of
     RkAny \<Rightarrow> (case decode_anyref_handle (ro_index r) of
        HandleSlot _ \<Rightarrow> bindr (gc_slot_checked r s) (\<lambda>_. Inr ()) | HandleI31 _ \<Rightarrow> Inr ())
   | RkExtern \<Rightarrow> bindr (externref_checked r s) (\<lambda>_. Inr ())
   | RkExn \<Rightarrow> bindr (exn_checked r s) (\<lambda>_. Inr ())
   | RkFunc \<Rightarrow> Inl (Msg ''invalid rooted reference arena''))"

definition rooted_ref_eq :: "rooted \<Rightarrow> rooted \<Rightarrow> store_inner \<Rightarrow> bool result" where
  "rooted_ref_eq a b s = bindr (check_handle (ro_store a) s) (\<lambda>_. bindr (check_handle (ro_store b) s) (\<lambda>_.
     bindr (validate_liveness a s) (\<lambda>_. bindr (validate_liveness b s) (\<lambda>_.
     Inr (ro_arena a = ro_arena b \<and> ro_index a = ro_index b \<and> (ro_generation a = UNCHECKED_GENERATION \<or>
       ro_generation b = UNCHECKED_GENERATION \<or> ro_generation a = ro_generation b))))))"

text \<open>A scope is its mark in the host roots; leaving it drops what was rooted since.\<close>

definition root_scope_new :: "store_inner \<Rightarrow> nat" where
  "root_scope_new s = gc_roots_mark s"

definition root_scope_drop :: "nat \<Rightarrow> store_inner \<Rightarrow> store_inner" where
  "root_scope_drop mark s = gc_roots_truncate mark s"

section \<open>Externrefs\<close>

definition externref_host_new :: "nat \<Rightarrow> ('d store, rooted) action" where
  "externref_host_new v = bindc (gc_alloc_externref v) (\<lambda>i. on_store_inner (\<lambda>s. let t = push_gc_root i RkExtern s in
     (Inr (rooted_from_raw_gen i (externref_generation t i) (si_store_id t) RkExtern), t)))"

definition externref_data :: "rooted \<Rightarrow> store_inner \<Rightarrow> nat option result" where
  "externref_data r s = externref_checked r s"

section \<open>Downcasts\<close>

definition obj_kind_of :: "rooted \<Rightarrow> store_inner \<Rightarrow> obj_kind option result" where
  "obj_kind_of r s = (case decode_anyref_handle (ro_index r) of
     HandleI31 _ \<Rightarrow> Inr None
   | HandleSlot _ \<Rightarrow> bindr (gc_slot_checked r s) (\<lambda>slot. bindr (gc_object_host s slot) (\<lambda>ob. Inr (Some (go_kind ob)))))"

definition as_struct :: "rooted \<Rightarrow> store_inner \<Rightarrow> rooted option result" where
  "as_struct r s = bindr (obj_kind_of r s) (\<lambda>k. Inr (if k = Some ObjStruct then Some r else None))"

definition as_array :: "rooted \<Rightarrow> store_inner \<Rightarrow> rooted option result" where
  "as_array r s = bindr (obj_kind_of r s) (\<lambda>k. Inr (if k = Some ObjArray then Some r else None))"

definition unwrap_struct :: "rooted \<Rightarrow> store_inner \<Rightarrow> rooted result" where
  "unwrap_struct r s = bindr (as_struct r s) (ok_or (Msg ''anyref is not a struct''))"

definition unwrap_array :: "rooted \<Rightarrow> store_inner \<Rightarrow> rooted result" where
  "unwrap_array r s = bindr (as_array r s) (ok_or (Msg ''anyref is not an array''))"

section \<open>Exceptions\<close>

record exn_ref_pre =
  xp_store :: u64
  xp_ty :: canonical_type_id

definition exn_ref_pre_new :: "canonical_type_id \<Rightarrow> store_inner \<Rightarrow> exn_ref_pre" where
  "exn_ref_pre_new tid s = \<lparr>xp_store = si_store_id s, xp_ty = tid\<rparr>"

fun check_exn_fields :: "val list \<Rightarrow> val_type list \<Rightarrow> store_inner \<Rightarrow> unit result" where
  "check_exn_fields (v # vs) (t # ts) s = bindr (val_matches_in_store v t s) (\<lambda>ok.
     if ok then check_exn_fields vs ts s else Inl (Msg ''exception field value has the wrong type''))"
| "check_exn_fields _ _ s = Inr ()"

definition exn_host_new :: "exn_ref_pre \<Rightarrow> entity_handle \<Rightarrow> val list \<Rightarrow> ('d store, rooted) action" where
  "exn_host_new pre tag vals = bindc (in_store (check_handle (xp_store pre))) (\<lambda>_.
     bindc (in_store (tag_at tag)) (\<lambda>tag_ty.
     if xp_ty pre \<noteq> tag_ty then fail (Msg ''exception allocator and tag types do not match'')
     else bindc (in_store (live_sig (xp_ty pre))) (\<lambda>(params, _).
     if length vals \<noteq> length params then fail (Msg ''wrong number of exception fields'')
     else bindc (in_store (check_exn_fields vals params)) (\<lambda>_.
     bindc (gc_alloc_exn \<lparr>ee_tag = tag, ee_args = vals\<rparr>) (\<lambda>exn. on_store_inner (\<lambda>s.
       let t = push_gc_root (ro_index exn) RkExn s in
       (Inr (rooted_from_raw_gen (ro_index exn) (case ra_generation (si_exns t) (ro_index exn) of None \<Rightarrow> 0 | Some g \<Rightarrow> g)
          (si_store_id t) RkExn), t)))))))"

definition exn_host_field :: "rooted \<Rightarrow> nat \<Rightarrow> (store_inner, val) action" where
  "exn_host_field r index = bindc (\<lambda>s. (bindr (exn_checked r s) (\<lambda>e.
     ok_or (Msg ''exception field index out of bounds'') (get_at (ee_args e) index)), s)) root_host_result"

definition exn_host_tag :: "rooted \<Rightarrow> store_inner \<Rightarrow> entity_handle result" where
  "exn_host_tag r s = bindr (exn_checked r s) (\<lambda>e. Inr (ee_tag e))"

text \<open>The type handle returned holds a registration of its own.\<close>

definition exn_host_ty :: "rooted \<Rightarrow> (store_inner, canonical_type_id) action" where
  "exn_host_ty r = bindc (\<lambda>s. (bindr (exn_checked r s) (\<lambda>e. tag_at (ee_tag e) s), s)) (\<lambda>tid.
     bindc (on_types (incref_type tid)) (\<lambda>_. ret tid))"

definition exn_host_matches_ty :: "rooted \<Rightarrow> heap_type \<Rightarrow> store_inner \<Rightarrow> bool result" where
  "exn_host_matches_ty r ty s = bindr (exn_checked r s) (\<lambda>_. Inr (heap_matches HtExn ty))"

section \<open>Lemmas\<close>

text \<open>A scope around operations that only root: leaving it gives back exactly the roots there were.\<close>

lemma root_scope_exact:
  "si_gc_roots t = si_gc_roots s @ new \<Longrightarrow> si_gc_roots (root_scope_drop (root_scope_new s) t) = si_gc_roots s"
  by (simp add: root_scope_drop_def root_scope_new_def gc_roots_truncate_def gc_roots_mark_def)

text \<open>Identity of live handles with a captured generation is equality of arena, slot and generation: never of two objects.\<close>

lemma rooted_ref_eq_live:
  assumes "rooted_ref_eq a b s = Inr e" and "ro_generation a \<noteq> UNCHECKED_GENERATION" and "ro_generation b \<noteq> UNCHECKED_GENERATION"
  shows "e \<longleftrightarrow> ro_arena a = ro_arena b \<and> ro_index a = ro_index b \<and> ro_generation a = ro_generation b"
  using assms by (auto simp: rooted_ref_eq_def)

text \<open>The downcasts split the live \<^verbatim>\<open>anyref\<close>s: never both, and neither for an \<^verbatim>\<open>i31\<close> or a wrapped externref.\<close>

lemma downcasts_disjoint: "unwrap_struct r s = Inr a \<Longrightarrow> unwrap_array r s \<noteq> Inr b"
  by (auto simp: unwrap_struct_def unwrap_array_def as_struct_def as_array_def ok_or_def split: if_splits)

lemma fresh_generation:
  assumes "ra_ok a" and "ra_get a i = Some e"
  shows "\<exists>g. ra_generation a i = Some g"
  using assms by (auto simp: ra_ok_def arena_ok_def ra_get_def ra_generation_def get_at_def bind_eq_Some_conv split: if_splits)

lemma small_budget_alloc_exn: "small_budget (snd (alloc_exn e s)) = small_budget s"
  by (simp add: small_budget_def alloc_exn_def unreserved_ceiling_def gc_charge_def Let_def split: prod.split sum.split)

text \<open>An exception built by the host carries its tag and its values.\<close>

theorem exn_host_round_trip:
  assumes "gc_store_ok (st_inner st)" and "small_budget (st_inner t)" and "exn_host_new pre tag vs st = (Inr r, t)"
  shows "exn_host_tag r (st_inner t) = Inr tag \<and> (\<forall>i. exn_host_field r i (st_inner t) =
    (if i < length vs then root_host_result (vs ! i) (st_inner t) else (Inl (Msg ''exception field index out of bounds''), st_inner t)))"
proof -
  let ?e = "\<lparr>ee_tag = tag, ee_args = vs\<rparr>"
  from assms(3) obtain h u where al: "gc_alloc_exn ?e st = (Inr h, u)" and t: "st_inner t = push_gc_root (ro_index h) RkExn (st_inner u)"
    and r: "r = rooted_from_raw_gen (ro_index h) (case ra_generation (si_exns (st_inner u)) (ro_index h) of None \<Rightarrow> 0 | Some g \<Rightarrow> g)
        (si_store_id (st_inner u)) RkExn"
    by (auto simp: exn_host_new_def bindc_eq_Inr store_plumbing on_store_inner_def push_gc_root_def split: if_splits prod.splits)
  from al obtain w where res: "gc_reserve_host (exn_byte_size ?e) st = (Inr (), w)" and "on_store_inner (alloc_exn ?e) w = (Inr h, u)"
    by (auto simp: gc_alloc_exn_def bindc_eq_Inr)
  from on_store_inner_done [OF this(2)] have run: "alloc_exn ?e (st_inner w) = (Inr h, st_inner u)" by blast
  have small: "small_budget (st_inner w)"
    using assms(2) small_budget_alloc_exn [of ?e "st_inner w"] run by (simp add: t push_gc_root_def small_budget_def)
  have ok: "gc_store_ok (st_inner u)" "ra_get (si_exns (st_inner u)) (ro_index h) = Some ?e"
    using alloc_exn_ok [OF gc_store_ok_reserve [OF res assms(1)] small run] by auto
  from fresh_generation [OF _ ok(2)] ok(1) obtain g where g: "ra_generation (si_exns (st_inner u)) (ro_index h) = Some g" by (auto simp: gc_store_ok_def)
  have "exn_checked r (st_inner t) = Inr ?e"
    using g ok(2) by (simp add: exn_checked_def rooted_checked_def r t push_gc_root_def rooted_from_raw_gen_def check_handle_def)
  then show ?thesis by (auto simp: exn_host_tag_def exn_host_field_def get_at_def)
qed

end
