(* ===== verification/Rec_Group.thy ===== *)
theory Rec_Group
  imports Registry_Module Exec_Control
begin

text \<open>
  Recursion groups declared by the embedder, \<^verbatim>\<open>src/value/rec_group/\<close>: the builder with its declared members, the nested builders of one member
  each, the lowering of definitions to module IR with a table of external types, the registration of the group and the validation of declared
  supertypes. Types are those of the builder's own engine, so the recorded errors for types of another engine have no counterpart. A mutable borrow
  of the group by a nested builder is the group builder passed along. A registered type enters a definition as its id; the registration its handle
  holds, and gives back when the builder is dropped, is accounted for with the other handles of the embedder. The subtype query may not return, so neither may the validation: it is an
  option.
\<close>

section \<open>Definitions under construction\<close>

record pending_type =
  pt_builder :: nat
  pt_index :: nat
  pt_kind :: agg_kind

datatype field_def = FieldRegistered field_type | FieldForward pending_type bool bool

datatype val_def = ValRegistered val_type | ValForward pending_type bool

datatype super_def =
    SuperForward nat
  | SuperStruct canonical_type_id
  | SuperArray canonical_type_id
  | SuperFunc canonical_type_id

datatype member_def =
    MemberStruct finality "super_def option" "field_def list"
  | MemberArray finality "super_def option" field_def
  | MemberFunc finality "super_def option" "val_def list" "val_def list"

definition member_supertype :: "member_def \<Rightarrow> super_def option" where
  "member_supertype d = (case d of MemberStruct _ s _ \<Rightarrow> s | MemberArray _ s _ \<Rightarrow> s | MemberFunc _ s _ _ \<Rightarrow> s)"

record rec_group_builder =
  rb_id :: nat
  rb_error :: "error option"
  rb_members :: "member_def option list"

text \<open>The counter of builders is a \<^verbatim>\<open>usize\<close> that wraps.\<close>

definition rec_group_builder_new :: "nat \<Rightarrow> rec_group_builder \<times> nat" where
  "rec_group_builder_new counter = (\<lparr>rb_id = counter, rb_error = None, rb_members = []\<rparr>, (counter + 1) mod 2 ^ 64)"

definition declare_member :: "agg_kind \<Rightarrow> (rec_group_builder, pending_type) action" where
  "declare_member kind b = (case try_u32 (length (rb_members b)) of
     None \<Rightarrow> (Inl (Panic ''too many types in a rec group''), b)
   | Some i \<Rightarrow> (Inr \<lparr>pt_builder = rb_id b, pt_index = i, pt_kind = kind\<rparr>, b\<lparr>rb_members := rb_members b @ [None]\<rparr>))"

definition declare_struct :: "(rec_group_builder, pending_type) action" where
  "declare_struct = declare_member AkStruct"

definition declare_array :: "(rec_group_builder, pending_type) action" where
  "declare_array = declare_member AkArray"

definition declare_func :: "(rec_group_builder, pending_type) action" where
  "declare_func = declare_member AkFunc"

definition check_owns :: "pending_type \<Rightarrow> rec_group_builder \<Rightarrow> unit result" where
  "check_owns ty b = (if pt_builder ty = rb_id b then Inr ()
     else Inl (Panic ''`PendingType` used with a different `RecGroupBuilder` than it came from''))"

definition record_error :: "error \<Rightarrow> rec_group_builder \<Rightarrow> rec_group_builder" where
  "record_error e b = (if rb_error b = None then b\<lparr>rb_error := Some e\<rparr> else b)"

text \<open>Committing a definition replaces any earlier one.\<close>

definition commit_member :: "nat \<Rightarrow> member_def \<Rightarrow> rec_group_builder \<Rightarrow> rec_group_builder result" where
  "commit_member i d b = (if i < length (rb_members b) then Inr (b\<lparr>rb_members := (rb_members b)[i := Some d]\<rparr>)
     else Inl (Panic ''index out of bounds''))"

section \<open>Forward references\<close>

text \<open>The builders of a field, an element, a parameter or a result that refers to a sibling: immutable and nullable unless set.\<close>

record forward_ref =
  fr_target :: pending_type
  fr_mutability :: mutability
  fr_nullable :: bool

definition forward_ref_new :: "pending_type \<Rightarrow> rec_group_builder \<Rightarrow> forward_ref result" where
  "forward_ref_new ty b = bindr (check_owns ty b) (\<lambda>_. Inr \<lparr>fr_target = ty, fr_mutability = MutConst, fr_nullable = True\<rparr>)"

definition forward_mutability :: "mutability \<Rightarrow> forward_ref \<Rightarrow> forward_ref" where
  "forward_mutability m f = f\<lparr>fr_mutability := m\<rparr>"

definition forward_nullable :: "bool \<Rightarrow> forward_ref \<Rightarrow> forward_ref" where
  "forward_nullable n f = f\<lparr>fr_nullable := n\<rparr>"

definition forward_field :: "forward_ref \<Rightarrow> field_def" where
  "forward_field f = FieldForward (fr_target f) (fr_mutability f = MutVar) (fr_nullable f)"

definition forward_val :: "forward_ref \<Rightarrow> val_def" where
  "forward_val f = ValForward (fr_target f) (fr_nullable f)"

definition forward_super :: "pending_type \<Rightarrow> rec_group_builder \<Rightarrow> super_def result" where
  "forward_super ty b = bindr (check_owns ty b) (\<lambda>_. Inr (SuperForward (pt_index ty)))"

section \<open>Structs\<close>

definition MAX_FIELDS :: nat where
  "MAX_FIELDS = 10000"

record struct_type_builder =
  sb_index :: nat
  sb_finality :: finality
  sb_supertype :: "super_def option"
  sb_fields :: "field_def list"

definition define_struct :: "pending_type \<Rightarrow> rec_group_builder \<Rightarrow> struct_type_builder result" where
  "define_struct ty b = bindr (check_owns ty b) (\<lambda>_.
     if pt_kind ty \<noteq> AkStruct then Inl (Panic ''handle was not declared as a struct type'')
     else Inr \<lparr>sb_index = pt_index ty, sb_finality = Final, sb_supertype = None, sb_fields = []\<rparr>)"

definition struct_finality :: "finality \<Rightarrow> struct_type_builder \<Rightarrow> struct_type_builder" where
  "struct_finality f sb = sb\<lparr>sb_finality := f\<rparr>"

definition struct_supertype :: "canonical_type_id \<Rightarrow> struct_type_builder \<Rightarrow> struct_type_builder" where
  "struct_supertype t sb = sb\<lparr>sb_supertype := Some (SuperStruct t)\<rparr>"

definition struct_forward_supertype :: "pending_type \<Rightarrow> rec_group_builder \<Rightarrow> struct_type_builder \<Rightarrow> struct_type_builder result" where
  "struct_forward_supertype ty b sb = bindr (forward_super ty b) (\<lambda>s. Inr (sb\<lparr>sb_supertype := Some s\<rparr>))"

definition struct_field :: "field_type \<Rightarrow> struct_type_builder \<Rightarrow> struct_type_builder" where
  "struct_field ty sb = sb\<lparr>sb_fields := sb_fields sb @ [FieldRegistered ty]\<rparr>"

definition struct_forward_field :: "forward_ref \<Rightarrow> struct_type_builder \<Rightarrow> struct_type_builder" where
  "struct_forward_field f sb = sb\<lparr>sb_fields := sb_fields sb @ [forward_field f]\<rparr>"

definition struct_finish :: "struct_type_builder \<Rightarrow> rec_group_builder \<Rightarrow> (struct_type_builder \<times> rec_group_builder) result" where
  "struct_finish sb b = (if MAX_FIELDS < length (sb_fields sb)
     then Inr (sb\<lparr>sb_fields := []\<rparr>, record_error (Msg ''attempted to define a struct type with too many fields'') b)
     else bindr (commit_member (sb_index sb) (MemberStruct (sb_finality sb) (sb_supertype sb) (sb_fields sb)) b) (\<lambda>b'.
       Inr (sb\<lparr>sb_fields := [], sb_supertype := None\<rparr>, b')))"

section \<open>Arrays\<close>

record array_type_builder =
  ab_index :: nat
  ab_finality :: finality
  ab_supertype :: "super_def option"
  ab_element :: "field_def option"

definition define_array :: "pending_type \<Rightarrow> rec_group_builder \<Rightarrow> array_type_builder result" where
  "define_array ty b = bindr (check_owns ty b) (\<lambda>_.
     if pt_kind ty \<noteq> AkArray then Inl (Panic ''handle was not declared as an array type'')
     else Inr \<lparr>ab_index = pt_index ty, ab_finality = Final, ab_supertype = None, ab_element = None\<rparr>)"

definition array_finality :: "finality \<Rightarrow> array_type_builder \<Rightarrow> array_type_builder" where
  "array_finality f ab = ab\<lparr>ab_finality := f\<rparr>"

definition array_supertype :: "canonical_type_id \<Rightarrow> array_type_builder \<Rightarrow> array_type_builder" where
  "array_supertype t ab = ab\<lparr>ab_supertype := Some (SuperArray t)\<rparr>"

definition array_forward_supertype :: "pending_type \<Rightarrow> rec_group_builder \<Rightarrow> array_type_builder \<Rightarrow> array_type_builder result" where
  "array_forward_supertype ty b ab = bindr (forward_super ty b) (\<lambda>s. Inr (ab\<lparr>ab_supertype := Some s\<rparr>))"

definition array_element :: "field_type \<Rightarrow> array_type_builder \<Rightarrow> array_type_builder" where
  "array_element ty ab = ab\<lparr>ab_element := Some (FieldRegistered ty)\<rparr>"

definition array_forward_element :: "forward_ref \<Rightarrow> array_type_builder \<Rightarrow> array_type_builder" where
  "array_forward_element f ab = ab\<lparr>ab_element := Some (forward_field f)\<rparr>"

definition array_finish :: "array_type_builder \<Rightarrow> rec_group_builder \<Rightarrow> (array_type_builder \<times> rec_group_builder) result" where
  "array_finish ab b = (case ab_element ab of
     None \<Rightarrow> Inr (ab, record_error (Msg ''array type was declared but its element type was never set'') b)
   | Some e \<Rightarrow> bindr (commit_member (ab_index ab) (MemberArray (ab_finality ab) (ab_supertype ab) e) b) (\<lambda>b'.
       Inr (ab\<lparr>ab_element := None, ab_supertype := None\<rparr>, b')))"

section \<open>Functions\<close>

record func_type_builder =
  fb_index :: nat
  fb_finality :: finality
  fb_supertype :: "super_def option"
  fb_params :: "val_def list"
  fb_results :: "val_def list"

definition define_func :: "pending_type \<Rightarrow> rec_group_builder \<Rightarrow> func_type_builder result" where
  "define_func ty b = bindr (check_owns ty b) (\<lambda>_.
     if pt_kind ty \<noteq> AkFunc then Inl (Panic ''handle was not declared as a function type'')
     else Inr \<lparr>fb_index = pt_index ty, fb_finality = Final, fb_supertype = None, fb_params = [], fb_results = []\<rparr>)"

definition func_finality :: "finality \<Rightarrow> func_type_builder \<Rightarrow> func_type_builder" where
  "func_finality f fb = fb\<lparr>fb_finality := f\<rparr>"

definition func_supertype :: "canonical_type_id \<Rightarrow> func_type_builder \<Rightarrow> func_type_builder" where
  "func_supertype t fb = fb\<lparr>fb_supertype := Some (SuperFunc t)\<rparr>"

definition func_forward_supertype :: "pending_type \<Rightarrow> rec_group_builder \<Rightarrow> func_type_builder \<Rightarrow> func_type_builder result" where
  "func_forward_supertype ty b fb = bindr (forward_super ty b) (\<lambda>s. Inr (fb\<lparr>fb_supertype := Some s\<rparr>))"

definition func_param :: "val_type \<Rightarrow> func_type_builder \<Rightarrow> func_type_builder" where
  "func_param t fb = fb\<lparr>fb_params := fb_params fb @ [ValRegistered t]\<rparr>"

definition func_result :: "val_type \<Rightarrow> func_type_builder \<Rightarrow> func_type_builder" where
  "func_result t fb = fb\<lparr>fb_results := fb_results fb @ [ValRegistered t]\<rparr>"

definition func_forward_val :: "bool \<Rightarrow> forward_ref \<Rightarrow> func_type_builder \<Rightarrow> func_type_builder" where
  "func_forward_val is_result f fb = (if is_result then fb\<lparr>fb_results := fb_results fb @ [forward_val f]\<rparr>
     else fb\<lparr>fb_params := fb_params fb @ [forward_val f]\<rparr>)"

definition func_finish :: "func_type_builder \<Rightarrow> rec_group_builder \<Rightarrow> (func_type_builder \<times> rec_group_builder) result" where
  "func_finish fb b = bindr (commit_member (fb_index fb) (MemberFunc (fb_finality fb) (fb_supertype fb) (fb_params fb) (fb_results fb)) b) (\<lambda>b'.
     Inr (fb\<lparr>fb_supertype := None, fb_params := [], fb_results := []\<rparr>, b'))"

section \<open>Lowering\<close>

text \<open>Every reference to a registered type appends its id to the table of externals; the index is cut to 32 bits by the cast.\<close>

definition external :: "nat \<Rightarrow> canonical_type_id \<Rightarrow> canonical_type_id list \<Rightarrow> nat \<times> canonical_type_id list" where
  "external n tid ext = ((n + length ext) mod 2 ^ 32, ext @ [tid])"

definition super_index :: "nat \<Rightarrow> super_def \<Rightarrow> canonical_type_id list \<Rightarrow> nat \<times> canonical_type_id list" where
  "super_index n s ext = (case s of
     SuperForward i \<Rightarrow> (i, ext) | SuperStruct t \<Rightarrow> external n t ext | SuperArray t \<Rightarrow> external n t ext | SuperFunc t \<Rightarrow> external n t ext)"

definition registered_heap_ir :: "nat \<Rightarrow> heap_type \<Rightarrow> canonical_type_id list \<Rightarrow> ir_heap \<times> canonical_type_id list" where
  "registered_heap_ir n h ext = (case h of
     HtConcreteStruct t \<Rightarrow> (case external n t ext of (i, ext') \<Rightarrow> (IhConcrete i AkStruct, ext'))
   | HtConcreteArray t \<Rightarrow> (case external n t ext of (i, ext') \<Rightarrow> (IhConcrete i AkArray, ext'))
   | HtConcreteFunc t \<Rightarrow> (case external n t ext of (i, ext') \<Rightarrow> (IhConcrete i AkFunc, ext'))
   | HtFunc \<Rightarrow> (IhFunc, ext) | HtNoFunc \<Rightarrow> (IhNoFunc, ext) | HtExtern \<Rightarrow> (IhExtern, ext) | HtNoExtern \<Rightarrow> (IhNoExtern, ext)
   | HtAny \<Rightarrow> (IhAny, ext) | HtEq \<Rightarrow> (IhEq, ext) | HtI31 \<Rightarrow> (IhI31, ext) | HtStruct \<Rightarrow> (IhStruct, ext) | HtArray \<Rightarrow> (IhArray, ext)
   | HtExn \<Rightarrow> (IhExn, ext) | HtNoExn \<Rightarrow> (IhNoExn, ext) | HtNone \<Rightarrow> (IhNone, ext))"

definition registered_val_ir :: "nat \<Rightarrow> val_type \<Rightarrow> canonical_type_id list \<Rightarrow> ir_val \<times> canonical_type_id list" where
  "registered_val_ir n v ext = (case v of
     VtI32 \<Rightarrow> (IvI32, ext) | VtI64 \<Rightarrow> (IvI64, ext) | VtF32 \<Rightarrow> (IvF32, ext) | VtF64 \<Rightarrow> (IvF64, ext) | VtV128 \<Rightarrow> (IvV128, ext)
   | VtRef rt \<Rightarrow> (case registered_heap_ir n (rt_heap rt) ext of (h, ext') \<Rightarrow> (IvRef (rt_nullable rt) h, ext')))"

definition registered_field_ir :: "nat \<Rightarrow> field_type \<Rightarrow> canonical_type_id list \<Rightarrow> ir_field \<times> canonical_type_id list" where
  "registered_field_ir n f ext = (case (case ft_element f of
       StI8 \<Rightarrow> (IsI8, ext) | StI16 \<Rightarrow> (IsI16, ext)
     | StVal v \<Rightarrow> (case registered_val_ir n v ext of (iv, ext') \<Rightarrow> (IsVal iv, ext'))) of
     (st, ext') \<Rightarrow> (\<lparr>irf_mutable = (ft_mutability f = MutVar), irf_storage = st\<rparr>, ext'))"

definition val_ir :: "nat \<Rightarrow> val_def \<Rightarrow> canonical_type_id list \<Rightarrow> ir_val \<times> canonical_type_id list" where
  "val_ir n v ext = (case v of
     ValRegistered t \<Rightarrow> registered_val_ir n t ext
   | ValForward target nullable \<Rightarrow> (IvRef nullable (IhConcrete (pt_index target) (pt_kind target)), ext))"

definition field_ir :: "nat \<Rightarrow> field_def \<Rightarrow> canonical_type_id list \<Rightarrow> ir_field \<times> canonical_type_id list" where
  "field_ir n f ext = (case f of
     FieldRegistered ty \<Rightarrow> registered_field_ir n ty ext
   | FieldForward target mut nullable \<Rightarrow>
       (\<lparr>irf_mutable = mut, irf_storage = IsVal (IvRef nullable (IhConcrete (pt_index target) (pt_kind target)))\<rparr>, ext))"

text \<open>\<^verbatim>\<open>iter().map(..).collect()\<close> with the table threaded through.\<close>

fun map_ext :: "('a \<Rightarrow> 'e list \<Rightarrow> 'b \<times> 'e list) \<Rightarrow> 'a list \<Rightarrow> 'e list \<Rightarrow> 'b list \<times> 'e list" where
  "map_ext f [] ext = ([], ext)"
| "map_ext f (x # xs) ext = (case f x ext of (y, e1) \<Rightarrow> case map_ext f xs e1 of (ys, e2) \<Rightarrow> (y # ys, e2))"

definition opt_ext :: "('a \<Rightarrow> 'e list \<Rightarrow> 'b \<times> 'e list) \<Rightarrow> 'a option \<Rightarrow> 'e list \<Rightarrow> 'b option \<times> 'e list" where
  "opt_ext f x ext = (case x of None \<Rightarrow> (None, ext) | Some a \<Rightarrow> (case f a ext of (b, e) \<Rightarrow> (Some b, e)))"

definition lower_member :: "nat \<Rightarrow> member_def \<Rightarrow> canonical_type_id list \<Rightarrow> (module_type \<times> agg_kind) \<times> canonical_type_id list" where
  "lower_member n d ext = (case d of
     MemberStruct fin spr fs \<Rightarrow> (case opt_ext (super_index n) spr ext of (st, e1) \<Rightarrow> case map_ext (field_ir n) fs e1 of (irs, e2) \<Rightarrow>
       ((\<lparr>mt_group = 0, mt_finality = fin, mt_supertype = st, mt_body = CompStruct irs\<rparr>, AkStruct), e2))
   | MemberArray fin spr el \<Rightarrow> (case opt_ext (super_index n) spr ext of (st, e1) \<Rightarrow> case field_ir n el e1 of (ir, e2) \<Rightarrow>
       ((\<lparr>mt_group = 0, mt_finality = fin, mt_supertype = st, mt_body = CompArray ir\<rparr>, AkArray), e2))
   | MemberFunc fin spr ps rs \<Rightarrow> (case opt_ext (super_index n) spr ext of (st, e1) \<Rightarrow> case map_ext (val_ir n) ps e1 of (ips, e2) \<Rightarrow>
       case map_ext (val_ir n) rs e2 of (irs, e3) \<Rightarrow>
       ((\<lparr>mt_group = 0, mt_finality = fin, mt_supertype = st, mt_body = CompFunc ips irs\<rparr>, AkFunc), e3)))"

section \<open>Matching of a member against its supertype\<close>

definition heap_sub :: "type_registry \<Rightarrow> heap_type \<Rightarrow> heap_type \<Rightarrow> bool option" where
  "heap_sub r a b = (if heap_matches a b then Some True else case (a, b) of
     (HtConcreteStruct s, HtConcreteStruct t) \<Rightarrow> is_subtype r s t
   | (HtConcreteArray s, HtConcreteArray t) \<Rightarrow> is_subtype r s t
   | (HtConcreteFunc s, HtConcreteFunc t) \<Rightarrow> is_subtype r s t
   | _ \<Rightarrow> Some False)"

definition val_sub :: "type_registry \<Rightarrow> val_type \<Rightarrow> val_type \<Rightarrow> bool option" where
  "val_sub r a b = (if valtype_matches a b then Some True else case (a, b) of
     (VtRef x, VtRef y) \<Rightarrow> (if \<not> rt_nullable x \<or> rt_nullable y then heap_sub r (rt_heap x) (rt_heap y) else Some False)
   | _ \<Rightarrow> Some False)"

definition storage_sub :: "type_registry \<Rightarrow> storage_type \<Rightarrow> storage_type \<Rightarrow> bool option" where
  "storage_sub r a b = (case (a, b) of (StVal x, StVal y) \<Rightarrow> val_sub r x y | _ \<Rightarrow> Some (a = b))"

definition field_sub :: "type_registry \<Rightarrow> field_type \<Rightarrow> field_type \<Rightarrow> bool option" where
  "field_sub r a b = (if ft_mutability a \<noteq> ft_mutability b then Some False
     else case ft_mutability a of MutVar \<Rightarrow> Some (ft_element a = ft_element b) | MutConst \<Rightarrow> storage_sub r (ft_element a) (ft_element b))"

text \<open>\<^verbatim>\<open>zip(..).all(..)\<close>, which stops at the first mismatch.\<close>

fun all_zip :: "('a \<Rightarrow> 'b \<Rightarrow> bool option) \<Rightarrow> 'a list \<Rightarrow> 'b list \<Rightarrow> bool option" where
  "all_zip p (x # xs) (y # ys) = Option.bind (p x y) (\<lambda>ok. if ok then all_zip p xs ys else Some False)"
| "all_zip p _ _ = Some True"

definition struct_sub :: "type_registry \<Rightarrow> field_type list \<Rightarrow> field_type list \<Rightarrow> bool option" where
  "struct_sub r sub spr = (if length spr \<le> length sub then all_zip (field_sub r) sub spr else Some False)"

definition registry_sig :: "type_registry \<Rightarrow> canonical_type_id \<Rightarrow> (val_type list \<times> val_type list) result" where
  "registry_sig r tid = (case func_body_raw r tid of
     None \<Rightarrow> Inl (Msg ''not a live func type'')
   | Some (ps, rs) \<Rightarrow> bindr (mat_vals ps) (\<lambda>pt. bindr (mat_vals rs) (\<lambda>rt. Inr (pt, rt))))"

definition func_sub :: "type_registry \<Rightarrow> canonical_type_id \<Rightarrow> canonical_type_id \<Rightarrow> bool option" where
  "func_sub r sub spr = (case (registry_sig r sub, registry_sig r spr) of
     (Inr (sub_ps, sub_rs), Inr (sup_ps, sup_rs)) \<Rightarrow>
       (if length sub_ps = length sup_ps \<and> length sub_rs = length sup_rs
        then Option.bind (all_zip (val_sub r) sup_ps sub_ps) (\<lambda>ok. if ok then all_zip (val_sub r) sub_rs sup_rs else Some False)
        else Some False)
   | _ \<Rightarrow> Some False)"

section \<open>The group\<close>

record rec_group =
  rg_builder :: nat
  rg_group :: group_id
  rg_ids :: "canonical_type_id list"
  rg_kinds :: "agg_kind list"

text \<open>An answer that may not come, then refused unless it is yes.\<close>

definition ensure_sub :: "bool option \<Rightarrow> string \<Rightarrow> unit result option" where
  "ensure_sub answer what = map_option (\<lambda>ok. if ok then Inr () else Inl (Msg what)) answer"

definition super_id :: "rec_group \<Rightarrow> agg_kind \<Rightarrow> super_def \<Rightarrow> canonical_type_id result" where
  "super_id g kind s = (case s of
     SuperForward j \<Rightarrow> bindr (index_at (rg_kinds g) j) (\<lambda>k.
       if k \<noteq> kind then Inl (Msg ''a type's supertype must be of its kind'') else index_at (rg_ids g) j)
   | SuperStruct t \<Rightarrow> Inr t | SuperArray t \<Rightarrow> Inr t | SuperFunc t \<Rightarrow> Inr t)"

definition sub_bodies :: "type_registry \<Rightarrow> agg_kind \<Rightarrow> canonical_type_id \<Rightarrow> canonical_type_id \<Rightarrow> unit result option" where
  "sub_bodies r kind sub_id sup_id = (case kind of
     AkStruct \<Rightarrow> (case bindr (struct_fields r sub_id) (\<lambda>a. bindr (struct_fields r sup_id) (\<lambda>b. Inr (a, b))) of
        Inl e \<Rightarrow> Some (Inl e)
      | Inr (a, b) \<Rightarrow> ensure_sub (struct_sub r a b) ''struct fields must match their supertype's fields'')
   | AkArray \<Rightarrow> (case bindr (array_field r sub_id) (\<lambda>a. bindr (array_field r sup_id) (\<lambda>b. Inr (a, b))) of
        Inl e \<Rightarrow> Some (Inl e)
      | Inr (a, b) \<Rightarrow> ensure_sub (field_sub r a b) ''array field type must match its supertype's field type'')
   | AkFunc \<Rightarrow> ensure_sub (func_sub r sub_id sup_id) ''function type must match its supertype'')"

definition validate_supertype :: "type_registry \<Rightarrow> rec_group \<Rightarrow> nat \<Rightarrow> super_def option \<Rightarrow> unit result option" where
  "validate_supertype r g i spr = (case spr of None \<Rightarrow> Some (Inr ())
   | Some s \<Rightarrow> (case bindr (index_at (rg_kinds g) i) (\<lambda>kind. bindr (super_id g kind s) (\<lambda>sup_id.
         if registry_finality r sup_id \<noteq> Some NonFinal then Inl (Msg ''cannot create a subtype of a final supertype'')
         else bindr (index_at (rg_ids g) i) (\<lambda>sub_id. Inr (kind, sub_id, sup_id)))) of
       Inl e \<Rightarrow> Some (Inl e)
     | Inr (kind, sub_id, sup_id) \<Rightarrow> sub_bodies r kind sub_id sup_id))"

fun validate_members :: "type_registry \<Rightarrow> rec_group \<Rightarrow> nat \<Rightarrow> member_def list \<Rightarrow> unit result option" where
  "validate_members r g i [] = Some (Inr ())"
| "validate_members r g i (d # ds) = Option.bind (validate_supertype r g i (member_supertype d)) (\<lambda>x.
     case x of Inl e \<Rightarrow> Some (Inl e) | Inr _ \<Rightarrow> validate_members r g (Suc i) ds)"

fun defined_members :: "member_def option list \<Rightarrow> member_def list result" where
  "defined_members [] = Inr []"
| "defined_members (m # ms) = bindr (ok_or (Msg ''a type was declared but never defined'') m) (\<lambda>d.
     bindr (defined_members ms) (\<lambda>ds. Inr (d # ds)))"

definition rec_group_drop :: "rec_group \<Rightarrow> (type_registry, unit) action" where
  "rec_group_drop g = decref_group (rg_group g)"

definition build_rec_group :: "rec_group_builder \<Rightarrow> type_registry \<Rightarrow> (rec_group result \<times> type_registry) option" where
  "build_rec_group b r = (case rb_error b of Some e \<Rightarrow> Some (Inl e, r)
   | None \<Rightarrow> (case defined_members (rb_members b) of Inl e \<Rightarrow> Some (Inl e, r)
     | Inr defs \<Rightarrow> (case map_ext (lower_member (length defs)) defs [] of (lowered, externals) \<Rightarrow>
       (case intern_host_group (map fst lowered) externals r of
         (Inl e, r') \<Rightarrow> Some (Inl e, r')
       | (Inr (ids, g), r') \<Rightarrow>
           (let grp = \<lparr>rg_builder = rb_id b, rg_group = g, rg_ids = ids, rg_kinds = map snd lowered\<rparr> in
            map_option (\<lambda>v. case v of
                Inr _ \<Rightarrow> (Inr grp, r')
              | Inl e \<Rightarrow> (case rec_group_drop grp r' of (Inl p, r'') \<Rightarrow> (Inl p, r'') | (Inr _, r'') \<Rightarrow> (Inl e, r'')))
              (validate_members r' grp 0 defs))))))"

definition rec_group_len :: "rec_group \<Rightarrow> nat" where
  "rec_group_len g = length (rg_ids g)"

definition index_of :: "rec_group \<Rightarrow> pending_type \<Rightarrow> nat result" where
  "index_of g ty = (if pt_builder ty = rg_builder g then Inr (pt_index ty)
     else Inl (Panic ''`PendingType` used with a different `RecGroup` than it came from''))"

text \<open>A handle taken out of the group has a registration of its own.\<close>

definition get_member :: "agg_kind \<Rightarrow> rec_group \<Rightarrow> pending_type \<Rightarrow> (type_registry, canonical_type_id option) action" where
  "get_member kind g ty = bindc (lift_res (bindr (index_of g ty) (\<lambda>i. bindr (index_at (rg_kinds g) i) (\<lambda>k.
     if k = kind then bindr (index_at (rg_ids g) i) (\<lambda>t. Inr (Some t)) else Inr None))))
     (\<lambda>x. case x of None \<Rightarrow> ret None | Some t \<Rightarrow> bindc (incref_type t) (\<lambda>_. ret (Some t)))"

definition group_struct :: "rec_group \<Rightarrow> pending_type \<Rightarrow> (type_registry, canonical_type_id option) action" where
  "group_struct = get_member AkStruct"

definition group_array :: "rec_group \<Rightarrow> pending_type \<Rightarrow> (type_registry, canonical_type_id option) action" where
  "group_array = get_member AkArray"

definition group_func :: "rec_group \<Rightarrow> pending_type \<Rightarrow> (type_registry, canonical_type_id option) action" where
  "group_func = get_member AkFunc"

fun incref_types :: "canonical_type_id list \<Rightarrow> (type_registry, unit) action" where
  "incref_types [] = ret ()"
| "incref_types (t # ts) = bindc (incref_type t) (\<lambda>_. incref_types ts)"

text \<open>The whole iteration over the members, each as a concrete heap type.\<close>

definition group_types :: "rec_group \<Rightarrow> (type_registry, heap_type list) action" where
  "group_types g = bindc (incref_types (map fst (zip (rg_ids g) (rg_kinds g)))) (\<lambda>_. ret
     (map (\<lambda>(t, k). case k of AkStruct \<Rightarrow> HtConcreteStruct t | AkArray \<Rightarrow> HtConcreteArray t | AkFunc \<Rightarrow> HtConcreteFunc t)
       (zip (rg_ids g) (rg_kinds g))))"

end
