(* ===== verification/Rec_Group_Typed.thy ===== *)
theory Rec_Group_Typed
  imports Rec_Group
begin

text \<open>
  What a built recursion group is: every member is registered under its id as it was declared, with the references to siblings replaced by their ids
  and the references to registered types unchanged; a member accepted below a supertype lays out what it shares with it in the same way; and, since
  nothing orders the forward supertypes of a group, a type may become its own supertype, after which the subtype query does not return.
\<close>

section \<open>Declared types\<close>

definition concrete_heap :: "agg_kind \<Rightarrow> canonical_type_id \<Rightarrow> heap_type" where
  "concrete_heap k t = (case k of AkStruct \<Rightarrow> HtConcreteStruct t | AkArray \<Rightarrow> HtConcreteArray t | AkFunc \<Rightarrow> HtConcreteFunc t)"

definition declared_ref :: "canonical_type_id list \<Rightarrow> pending_type \<Rightarrow> bool \<Rightarrow> val_type" where
  "declared_ref ids target nullable = VtRef \<lparr>rt_nullable = nullable, rt_heap = concrete_heap (pt_kind target) (ids ! pt_index target)\<rparr>"

definition declared_val :: "canonical_type_id list \<Rightarrow> val_def \<Rightarrow> val_type" where
  "declared_val ids v = (case v of ValRegistered t \<Rightarrow> t | ValForward target nullable \<Rightarrow> declared_ref ids target nullable)"

definition declared_field :: "canonical_type_id list \<Rightarrow> field_def \<Rightarrow> field_type" where
  "declared_field ids f = (case f of FieldRegistered ty \<Rightarrow> ty
   | FieldForward target mut nullable \<Rightarrow> \<lparr>ft_mutability = (if mut then MutVar else MutConst), ft_element = StVal (declared_ref ids target nullable)\<rparr>)"

definition declared_super :: "canonical_type_id list \<Rightarrow> super_def \<Rightarrow> canonical_type_id" where
  "declared_super ids s = (case s of SuperForward i \<Rightarrow> ids ! i | SuperStruct t \<Rightarrow> t | SuperArray t \<Rightarrow> t | SuperFunc t \<Rightarrow> t)"

definition declared_type :: "canonical_type_id list \<Rightarrow> member_def \<Rightarrow> canon_type" where
  "declared_type ids d = (case d of
     MemberStruct fin s fs \<Rightarrow> \<lparr>ct_kind = AkStruct, ct_finality = fin, ct_supertype = map_option (declared_super ids) s,
       ct_body = struct_body (map (declared_field ids) fs)\<rparr>
   | MemberArray fin s el \<Rightarrow> \<lparr>ct_kind = AkArray, ct_finality = fin, ct_supertype = map_option (declared_super ids) s,
       ct_body = array_body (declared_field ids el)\<rparr>
   | MemberFunc fin s ps rs \<Rightarrow> \<lparr>ct_kind = AkFunc, ct_finality = fin, ct_supertype = map_option (declared_super ids) s,
       ct_body = func_body (map (declared_val ids) ps) (map (declared_val ids) rs)\<rparr>)"

definition member_kind :: "member_def \<Rightarrow> agg_kind" where
  "member_kind d = (case d of MemberStruct _ _ _ \<Rightarrow> AkStruct | MemberArray _ _ _ \<Rightarrow> AkArray | MemberFunc _ _ _ _ \<Rightarrow> AkFunc)"

text \<open>Definitions that refer to declared siblings only.\<close>

definition scoped_val :: "nat \<Rightarrow> val_def \<Rightarrow> bool" where
  "scoped_val n v = (case v of ValRegistered _ \<Rightarrow> True | ValForward target _ \<Rightarrow> pt_index target < n)"

definition scoped_field :: "nat \<Rightarrow> field_def \<Rightarrow> bool" where
  "scoped_field n f = (case f of FieldRegistered _ \<Rightarrow> True | FieldForward target _ _ \<Rightarrow> pt_index target < n)"

definition scoped_super :: "nat \<Rightarrow> super_def option \<Rightarrow> bool" where
  "scoped_super n s = (case s of Some (SuperForward i) \<Rightarrow> i < n | _ \<Rightarrow> True)"

definition scoped_member :: "nat \<Rightarrow> member_def \<Rightarrow> bool" where
  "scoped_member n d \<longleftrightarrow> scoped_super n (member_supertype d) \<and> (case d of
     MemberStruct _ _ fs \<Rightarrow> list_all (scoped_field n) fs
   | MemberArray _ _ el \<Rightarrow> scoped_field n el
   | MemberFunc _ _ ps rs \<Rightarrow> list_all (scoped_val n) (ps @ rs))"

definition builder_scoped :: "rec_group_builder \<Rightarrow> bool" where
  "builder_scoped b \<longleftrightarrow> (\<forall>d. Some d \<in> set (rb_members b) \<longrightarrow> scoped_member (length (rb_members b)) d)"

section \<open>Lowering\<close>

text \<open>A step that appends to the table and whose result means \<open>Q\<close> under every longer table with room.\<close>

definition ext_extends :: "('e list \<Rightarrow> bool) \<Rightarrow> ('b \<Rightarrow> 'e list \<Rightarrow> bool) \<Rightarrow> 'e list \<Rightarrow> 'b \<times> 'e list \<Rightarrow> bool" where
  "ext_extends room Q ext p \<longleftrightarrow> (case p of (y, e) \<Rightarrow> (\<exists>zs. e = ext @ zs) \<and> (\<forall>ws. room (e @ ws) \<longrightarrow> Q y (e @ ws)))"

lemma extends_bind:
  assumes "ext_extends room P ext p" and "\<And>y e. p = (y, e) \<Longrightarrow> ext_extends room (Q y) e (f y e)"
    and "\<And>y z E. P y E \<Longrightarrow> Q y z E \<Longrightarrow> R z E"
  shows "ext_extends room R ext (case p of (y, e) \<Rightarrow> f y e)"
proof -
  obtain y e where p: "p = (y, e)" by fastforce
  obtain z e' where z: "f y e = (z, e')" by fastforce
  show ?thesis using assms(1) assms(2) [OF p] assms(3) by (auto simp: ext_extends_def p z)
qed

lemma extends_ret: "(\<And>ws. room (ext @ ws) \<Longrightarrow> Q y (ext @ ws)) \<Longrightarrow> ext_extends room Q ext (y, ext)"
  by (simp add: ext_extends_def)

lemma extends_map:
  assumes "\<And>x ext. x \<in> set xs \<Longrightarrow> ext_extends room (P x) ext (f x ext)"
  shows "ext_extends room (\<lambda>ys E. list_all2 (\<lambda>x y. P x y E) xs ys) ext (map_ext f xs ext)"
  using assms
proof (induction xs arbitrary: ext)
  case (Cons x xs)
  obtain y e where y: "f x ext = (y, e)" by fastforce
  obtain ys e' where ys: "map_ext f xs e = (ys, e')" by fastforce
  have "ext_extends room (P x) ext (f x ext)" by (rule Cons.prems) simp
  moreover have "ext_extends room (\<lambda>ys E. list_all2 (\<lambda>x y. P x y E) xs ys) e (map_ext f xs e)"
    by (rule Cons.IH) (use Cons.prems in simp)
  ultimately show ?case by (auto simp: ext_extends_def y ys)
qed (simp add: extends_ret)

lemma extends_opt:
  assumes "\<And>a ext. x = Some a \<Longrightarrow> ext_extends room (P a) ext (f a ext)"
  shows "ext_extends room (\<lambda>y E. rel_option (\<lambda>a b. P a b E) x y) ext (opt_ext f x ext)"
proof (cases x)
  case (Some a)
  show ?thesis unfolding opt_ext_def Some option.case
    by (rule extends_bind [OF assms [OF Some], where Q = "\<lambda>y z E. z = Some y"]) (auto intro: extends_ret)
qed (simp add: opt_ext_def extends_ret)

text \<open>What the lowered pieces mean in a group with \<open>n\<close> members, given the ids of the members.\<close>

definition room_for :: "nat \<Rightarrow> canonical_type_id list \<Rightarrow> bool" where
  "room_for n E \<longleftrightarrow> n + length E \<le> 2 ^ 32"

definition means_ref :: "nat \<Rightarrow> canonical_type_id list \<Rightarrow> canonical_type_id \<Rightarrow> nat \<Rightarrow> canonical_type_id list \<Rightarrow> bool" where
  "means_ref n ids t i E \<longleftrightarrow> resolve ids (host_cref n E i) = t \<and> (\<forall>e. host_cref n E i = Canon e \<longrightarrow> e \<in> set E)"

definition means_val :: "nat \<Rightarrow> canonical_type_id list \<Rightarrow> val_type \<Rightarrow> ir_val \<Rightarrow> canonical_type_id list \<Rightarrow> bool" where
  "means_val n ids t iv E \<longleftrightarrow> resolve_val ids (val_key (host_cref n E) iv) = pub_val t \<and> set (val_canon_ids (val_key (host_cref n E) iv)) \<subseteq> set E"

definition means_field :: "nat \<Rightarrow> canonical_type_id list \<Rightarrow> field_type \<Rightarrow> ir_field \<Rightarrow> canonical_type_id list \<Rightarrow> bool" where
  "means_field n ids t f E \<longleftrightarrow> resolve_field ids (field_key (host_cref n E) f) = pub_field t \<and> set (field_canon_ids (field_key (host_cref n E) f)) \<subseteq> set E"

definition means_member :: "nat \<Rightarrow> canonical_type_id list \<Rightarrow> member_def \<Rightarrow> module_type \<times> agg_kind \<Rightarrow> canonical_type_id list \<Rightarrow> bool" where
  "means_member n ids d p E \<longleftrightarrow> canon_of ids (ctype_of (host_cref n E) (fst p)) = declared_type ids d \<and> snd p = member_kind d \<and>
     set (type_canon_ids (ctype_of (host_cref n E) (fst p))) \<subseteq> set E"

lemma external_means: "ext_extends (room_for n) (means_ref n ids t) ext (external n t ext)"
  by (auto simp: ext_extends_def external_def means_ref_def host_cref_def resolve_def room_for_def)

lemma sibling_means: "i < n \<Longrightarrow> means_ref n ids (ids ! i) i E"
  by (simp add: means_ref_def host_cref_def resolve_def)

lemma concrete_means:
  "means_ref n ids t i E \<Longrightarrow> means_val n ids (VtRef \<lparr>rt_nullable = b, rt_heap = concrete_heap k t\<rparr>) (IvRef b (IhConcrete i k)) E"
  by (cases k; cases "host_cref n E i")
    (auto simp: means_ref_def means_val_def val_key_def heap_key_def resolve_val_def pub_val_def pub_heap_def concrete_heap_def val_canon_ids_def)

lemma registered_val_means: "ext_extends (room_for n) (means_val n ids v) ext (registered_val_ir n v ext)"
proof -
  have abs: "ext_extends (room_for n) (means_val n ids (VtRef rt)) ext (IvRef (rt_nullable rt) h, ext)"
    if "pub_heap (rt_heap rt) = CAbs (ir_abs_code h)" "\<forall>i k. h \<noteq> IhConcrete i k" for rt h
    using that by (intro extends_ret) (auto simp: means_val_def val_key_def heap_key_def resolve_val_def pub_val_def val_canon_ids_def split: ir_heap.split)
  have conc: "ext_extends (room_for n) (means_val n ids (VtRef rt)) ext (case external n t ext of (i, e) \<Rightarrow> (IvRef (rt_nullable rt) (IhConcrete i k), e))"
    if "rt_heap rt = concrete_heap k t" for rt t k
  proof (rule extends_bind [OF external_means [of n ids], where Q = "\<lambda>i z E. z = IvRef (rt_nullable rt) (IhConcrete i k)"])
    have rt: "rt = \<lparr>rt_nullable = rt_nullable rt, rt_heap = concrete_heap k t\<rparr>" using that by (cases rt) simp
    show "means_val n ids (VtRef rt) z E" if "means_ref n ids t i E" "z = IvRef (rt_nullable rt) (IhConcrete i k)" for i z E
      using concrete_means [OF that(1), of "rt_nullable rt" k] rt that(2) by simp
  qed (auto intro: extends_ret)
  show ?thesis
  proof (cases v)
    case (VtRef rt)
    then show ?thesis
      using conc [of rt AkStruct] conc [of rt AkArray] conc [of rt AkFunc]
      by (cases "rt_heap rt")
        (auto simp: registered_val_ir_def registered_heap_ir_def concrete_heap_def split_beta ir_abs_code_def pub_heap_def abs_code_def intro!: abs)
  qed (auto simp: registered_val_ir_def means_val_def val_key_def pub_val_def resolve_val_def val_canon_ids_def intro!: extends_ret)
qed

lemma means_stored:
  "means_val n ids t iv E \<Longrightarrow> means_field n ids \<lparr>ft_mutability = (if m then MutVar else MutConst), ft_element = StVal t\<rparr> \<lparr>irf_mutable = m, irf_storage = IsVal iv\<rparr> E"
  by (simp add: means_val_def means_field_def field_key_def resolve_field_def pub_field_def field_canon_ids_def)

lemma val_means: "scoped_val n v \<Longrightarrow> ext_extends (room_for n) (means_val n ids (declared_val ids v)) ext (val_ir n v ext)"
  by (cases v) (auto simp: val_ir_def declared_val_def declared_ref_def scoped_val_def registered_val_means intro!: extends_ret concrete_means sibling_means)

lemma registered_field_means: "ext_extends (room_for n) (means_field n ids f) ext (registered_field_ir n f ext)"
proof (cases "ft_element f")
  case (StVal v)
  have f: "f = \<lparr>ft_mutability = (if ft_mutability f = MutVar then MutVar else MutConst), ft_element = StVal v\<rparr>"
    using StVal by (cases f; cases "ft_mutability f") auto
  have "ext_extends (room_for n) (means_field n ids f) ext
      (case registered_val_ir n v ext of (iv, e) \<Rightarrow> (\<lparr>irf_mutable = (ft_mutability f = MutVar), irf_storage = IsVal iv\<rparr>, e))"
  proof (rule extends_bind [OF registered_val_means [of n ids], where Q = "\<lambda>iv z E. z = \<lparr>irf_mutable = (ft_mutability f = MutVar), irf_storage = IsVal iv\<rparr>"])
    show "means_field n ids f z E" if "means_val n ids v iv E" "z = \<lparr>irf_mutable = (ft_mutability f = MutVar), irf_storage = IsVal iv\<rparr>" for iv z E
      using means_stored [OF that(1), of "ft_mutability f = MutVar"] f that(2) by simp
  qed (auto intro: extends_ret)
  then show ?thesis by (simp add: registered_field_ir_def StVal split_beta)
qed (cases f; auto simp: registered_field_ir_def means_field_def field_key_def resolve_field_def pub_field_def field_canon_ids_def intro!: extends_ret)+

lemma field_means: "scoped_field n f \<Longrightarrow> ext_extends (room_for n) (means_field n ids (declared_field ids f)) ext (field_ir n f ext)"
  by (cases f) (simp_all only: field_ir_def declared_field_def declared_ref_def scoped_field_def registered_field_means field_def.case
      extends_ret means_stored concrete_means sibling_means)

lemma super_means: "scoped_super n (Some x) \<Longrightarrow> ext_extends (room_for n) (means_ref n ids (declared_super ids x)) ext (super_index n x ext)"
  by (cases x) (auto simp: super_index_def declared_super_def scoped_super_def external_means intro!: extends_ret sibling_means)

text \<open>Pieces that mean what was declared make a member that does.\<close>

definition means_super :: "nat \<Rightarrow> canonical_type_id list \<Rightarrow> super_def option \<Rightarrow> nat option \<Rightarrow> canonical_type_id list \<Rightarrow> bool" where
  "means_super n ids x st E = rel_option (\<lambda>a i. means_ref n ids (declared_super ids a) i E) x st"

lemma opt_super_means:
  "scoped_super n x \<Longrightarrow> ext_extends (room_for n) (means_super n ids x) ext (opt_ext (super_index n) x ext)"
  unfolding means_super_def by (rule extends_opt) (simp add: super_means)

lemma means_superD:
  assumes "means_super n ids x st E"
  shows "map_option (resolve ids \<circ> host_cref n E) st = map_option (declared_super ids) x"
    and "(case map_option (host_cref n E) st of Some (Canon t) \<Rightarrow> t \<in> set E | _ \<Rightarrow> True)"
  using assms by (auto simp: means_super_def means_ref_def elim!: option.rel_cases split: option.splits canon_ref.splits)

lemma means_fieldsD:
  assumes "list_all2 (\<lambda>f ir. means_field n ids (declared_field ids f) ir E) fs irs"
  shows "map (resolve_field ids \<circ> field_key (host_cref n E)) irs = map (pub_field \<circ> declared_field ids) fs"
    and "set (concat (map field_canon_ids (map (field_key (host_cref n E)) irs))) \<subseteq> set E"
  using assms by (induction fs irs rule: list_all2_induct) (auto simp: means_field_def)

lemma means_valsD:
  assumes "list_all2 (\<lambda>v iv. means_val n ids (declared_val ids v) iv E) vs ivs"
  shows "map (resolve_val ids \<circ> val_key (host_cref n E)) ivs = map (pub_val \<circ> declared_val ids) vs"
    and "set (concat (map val_canon_ids (map (val_key (host_cref n E)) ivs))) \<subseteq> set E"
  using assms by (induction vs ivs rule: list_all2_induct) (auto simp: means_val_def)

lemmas member_means_simps = means_member_def canon_of_def ctype_of_def body_key_def body_kind_def resolve_body_def declared_type_def member_kind_def
  type_canon_ids_def body_canon_ids_def option.map_comp map_map

lemma struct_means:
  assumes "means_super n ids x st E" and "list_all2 (\<lambda>f ir. means_field n ids (declared_field ids f) ir E) fs irs"
  shows "means_member n ids (MemberStruct fin x fs) (\<lparr>mt_group = 0, mt_finality = fin, mt_supertype = st, mt_body = CompStruct irs\<rparr>, AkStruct) E"
  using means_superD [OF assms(1)] means_fieldsD [OF assms(2)]
  by (auto simp: member_means_simps struct_body_def split: option.splits canon_ref.splits)

lemma array_means:
  assumes "means_super n ids x st E" and "means_field n ids (declared_field ids el) ir E"
  shows "means_member n ids (MemberArray fin x el) (\<lparr>mt_group = 0, mt_finality = fin, mt_supertype = st, mt_body = CompArray ir\<rparr>, AkArray) E"
  using means_superD [OF assms(1)] assms(2)
  by (auto simp: member_means_simps array_body_def means_field_def split: option.splits canon_ref.splits)

lemma func_means:
  assumes "means_super n ids x st E" and "list_all2 (\<lambda>v iv. means_val n ids (declared_val ids v) iv E) ps ips"
    and "list_all2 (\<lambda>v iv. means_val n ids (declared_val ids v) iv E) rs irs"
  shows "means_member n ids (MemberFunc fin x ps rs) (\<lparr>mt_group = 0, mt_finality = fin, mt_supertype = st, mt_body = CompFunc ips irs\<rparr>, AkFunc) E"
  using means_superD [OF assms(1)] means_valsD [OF assms(2)] means_valsD [OF assms(3)]
  by (auto simp: member_means_simps func_body_def split: option.splits canon_ref.splits)

lemma member_means:
  assumes "scoped_member n d"
  shows "ext_extends (room_for n) (means_member n ids d) ext (lower_member n d ext)"
proof -
  obtain st e where st: "opt_ext (super_index n) (member_supertype d) ext = (st, e)" by fastforce
  have s: "ext_extends (room_for n) (means_super n ids (member_supertype d)) ext (st, e)"
    using opt_super_means [of n "member_supertype d" ids ext] assms by (simp add: st scoped_member_def)
  show ?thesis
  proof (cases d)
    case (MemberStruct fin x fs)
    obtain irs e' where irs: "map_ext (field_ir n) fs e = (irs, e')" by fastforce
    have "ext_extends (room_for n) (\<lambda>irs E. list_all2 (\<lambda>f ir. means_field n ids (declared_field ids f) ir E) fs irs) e (irs, e')"
      unfolding irs [symmetric]
      by (rule extends_map) (use assms MemberStruct in \<open>auto simp: scoped_member_def list_all_iff intro: field_means\<close>)
    with s show ?thesis using st irs by (auto simp: MemberStruct lower_member_def member_supertype_def ext_extends_def struct_means)
  next
    case (MemberArray fin x el)
    obtain ir e' where ir: "field_ir n el e = (ir, e')" by fastforce
    have "ext_extends (room_for n) (means_field n ids (declared_field ids el)) e (ir, e')"
      unfolding ir [symmetric] by (rule field_means) (use assms MemberArray in \<open>simp add: scoped_member_def\<close>)
    with s show ?thesis using st ir by (auto simp: MemberArray lower_member_def member_supertype_def ext_extends_def array_means)
  next
    case (MemberFunc fin x ps rs)
    obtain ips e1 where ips: "map_ext (val_ir n) ps e = (ips, e1)" by fastforce
    obtain irs e2 where irs: "map_ext (val_ir n) rs e1 = (irs, e2)" by fastforce
    have vals: "ext_extends (room_for n) (\<lambda>ivs E. list_all2 (\<lambda>v iv. means_val n ids (declared_val ids v) iv E) vs ivs) e0 (map_ext (val_ir n) vs e0)"
      if "set vs \<subseteq> set (ps @ rs)" for vs e0
      by (rule extends_map) (use assms MemberFunc that in \<open>auto simp: scoped_member_def list_all_iff intro: val_means\<close>)
    with s vals [of ps e] vals [of rs e1] show ?thesis using st ips irs
      by (auto simp: MemberFunc lower_member_def member_supertype_def ext_extends_def func_means)
  qed
qed

lemma group_means:
  assumes "\<forall>d \<in> set defs. scoped_member n d" and "map_ext (lower_member n) defs [] = (lowered, E)" and "room_for n E"
  shows "list_all2 (\<lambda>d p. means_member n ids d p E) defs lowered"
proof -
  have "ext_extends (room_for n) (\<lambda>ps E. list_all2 (\<lambda>d p. means_member n ids d p E) defs ps) [] (lowered, E)"
    unfolding assms(2) [symmetric] by (rule extends_map) (use assms(1) in \<open>auto intro: member_means\<close>)
  with assms(3) show ?thesis by (auto simp: ext_extends_def dest: spec [of _ "[]"])
qed

section \<open>Registration\<close>

text \<open>Interning fails by a panic only.\<close>

definition panics_only :: "('s, 'a) action \<Rightarrow> bool" where
  "panics_only m \<longleftrightarrow> (\<forall>s e t. m s = (Inl e, t) \<longrightarrow> (\<exists>p. e = Panic p))"

lemma panics_bind: "panics_only m \<Longrightarrow> (\<And>x. panics_only (f x)) \<Longrightarrow> panics_only (bindc m f)"
  unfolding panics_only_def bindc_eq_Inl by blast

lemma panics_basic: "panics_only (ret x)" "panics_only (putc f)" "panics_only (getc h)" "panics_only (lift_res (index_at xs i))"
  "panics_only (set_type m ty og)" "panics_only (incref_group g)"
  by (auto simp: panics_only_def index_at_def set_type_def incref_group_def split: if_splits option.splits)

lemma panics_slots: "panics_only take_group_slot" "panics_only (take_type_slots n)" "panics_only (store_members g ms i cts)" "panics_only (incref_edges es)"
proof -
  show "panics_only take_group_slot" by (auto simp: panics_only_def take_group_slot_def Let_def split: if_splits list.splits option.splits)
  have "panics_only take_type_slot" by (auto simp: panics_only_def take_type_slot_def Let_def split: if_splits list.splits option.splits)
  then show "panics_only (take_type_slots n)" by (induction n) (auto simp only: take_type_slots.simps intro!: panics_bind panics_basic)
  show "panics_only (store_members g ms i cts)" by (induction cts arbitrary: i) (auto simp only: store_members.simps intro!: panics_bind panics_basic)
  show "panics_only (incref_edges es)"
  proof (induction es)
    case (Cons e es)
    have "panics_only (case og of None \<Rightarrow> ret () | Some g \<Rightarrow> incref_group g)" for og by (cases og) (simp_all only: option.case panics_basic)
    with Cons show ?case unfolding incref_edges.simps by (intro panics_bind panics_basic)
  qed (simp only: incref_edges.simps panics_basic)
qed

lemma intern_group_panics: "panics_only (intern_group key n)"
proof -
  have "panics_only (bindc (incref_group g) (\<lambda>_. ret g))" for g by (intro panics_bind panics_basic)
  moreover have "panics_only (bindc take_group_slot (\<lambda>g. bindc (take_type_slots n) (\<lambda>ms. bindc (store_members g ms 0 key) (\<lambda>_.
      bindc (incref_edges (edge_canon_ids key)) (\<lambda>_. bindc (putc (h g ms)) (\<lambda>_. ret g))))))" for h
    by (intro panics_bind panics_basic panics_slots)
  ultimately show ?thesis unfolding panics_only_def intern_group_def by (auto split: option.splits)
qed

definition group_externals :: "member_def list \<Rightarrow> canonical_type_id list" where
  "group_externals defs = snd (map_ext (lower_member (length defs)) defs [])"

lemma length_defined: "defined_members ms = Inr ds \<Longrightarrow> ms = map Some ds"
  by (induction ms arbitrary: ds) (auto simp: ok_or_def split: option.splits)

lemma members_of_Inr: "members_of g r = (Inr ids, r') \<longleftrightarrow> r' = r \<and> (\<exists>rec. live_group r g = Some rec \<and> ids = gr_members rec)"
  by (auto simp: members_of_def split: option.splits)

lemma host_group_registered:
  assumes ok: "registry_ok r ext" and sc: "\<forall>d \<in> set defs. scoped_member (length defs) d"
    and low: "map_ext (lower_member (length defs)) defs [] = (lowered, E)" and room: "room_for (length defs) E"
    and live: "\<forall>t \<in> set E. group_of r t \<noteq> None"
    and slots: "length (tr_groups r) < 2 ^ 32" "length (tr_types r) + length defs \<le> 2 ^ 32"
    and run: "intern_host_group (map fst lowered) E r = (Inr (ids, g), r')"
  shows "registry_ok r' (ext(g := ext g + 1)) \<and> length ids = length defs \<and> distinct ids \<and>
    (\<forall>i < length defs. live_type r' (ids ! i) = Some (declared_type ids (defs ! i)) \<and> map snd lowered ! i = member_kind (defs ! i))"
proof -
  let ?key = "map (ctype_of (host_cref (length defs) E)) (map fst lowered)"
  have m: "list_all2 (\<lambda>d p. means_member (length defs) ids d p E) defs lowered" by (rule group_means [OF sc low room])
  then have len: "length lowered = length defs" by (auto dest: list_all2_lengthD)
  from run obtain rec where int: "intern_group ?key (length ?key) r = (Inr g, r')" and rec: "live_group r' g = Some rec" "ids = gr_members rec"
    by (auto simp: intern_host_group_def bindc_eq_Inr members_of_Inr len)
  have e: "\<forall>e \<in> set (edge_canon_ids ?key). group_of r e \<noteq> None"
    using m live by (fastforce simp: edge_canon_ids_def list_all2_conv_all_nth in_set_conv_nth means_member_def)
  have i: "registry_ok r' (ext(g := ext g + 1))" "group_key r' = (group_key r)(g := Some ?key)"
    using intern_group_ok [OF ok e slots(1) _ int] slots(2) len by auto
  have key: "gr_key rec = ?key" using i(2) rec(1) by (metis fun_upd_same group_key_def option.inject option.simps(9))
  have gok: "group_ok r' g rec" by (rule registry_okD(5) [OF i(1) rec(1)])
  have "live_type r' (ids ! i) = Some (declared_type ids (defs ! i)) \<and> map snd lowered ! i = member_kind (defs ! i)" if "i < length defs" for i
    using m that gok len by (auto simp: group_ok_def key rec(2) list_all2_conv_all_nth means_member_def)
  with i(1) gok show ?thesis by (simp add: group_ok_def key rec(2) len)
qed

section \<open>Validated supertypes\<close>

lemma heap_sub_kind: "heap_sub r a b = Some True \<Longrightarrow> ref_kind_of_heap a = ref_kind_of_heap b"
  by (cases a; cases b) (simp_all add: heap_sub_def heap_matches_def ref_kind_of_heap_def split: if_splits)

lemma heap_matches_kind: "heap_matches a b \<Longrightarrow> ref_kind_of_heap a = ref_kind_of_heap b"
  by (rule heap_sub_kind) (simp add: heap_sub_def)

lemma val_sub_slot: "val_sub r a b = Some True \<Longrightarrow> pub_val_slot a = pub_val_slot b"
  by (cases a; cases b) (auto simp: val_sub_def valtype_matches_def ref_matches_def pub_val_slot_def fun_eq_iff
      dest: heap_sub_kind heap_matches_kind split: if_splits)

lemma field_sub_slot: "field_sub r a b = Some True \<Longrightarrow> pub_field_slot a = pub_field_slot b"
  by (cases "ft_element a"; cases "ft_element b")
    (auto simp: field_sub_def storage_sub_def pub_field_slot_def fun_eq_iff dest: val_sub_slot split: if_splits mutability.splits)

lemma all_zip_prefix:
  "all_zip p xs ys = Some True \<Longrightarrow> length ys \<le> length xs \<Longrightarrow> (\<And>x y. p x y = Some True \<Longrightarrow> f x = g y) \<Longrightarrow> map f (take (length ys) xs) = map g ys"
  by (induction p xs ys rule: all_zip.induct) (auto split: Option.bind_splits if_splits)

lemma lay_out_prefix: "take (length fs) (fst (lay_out sz (fs @ gs))) = fst (lay_out sz fs)"
  by (induction fs arbitrary: sz) (auto simp: Let_def split_beta)

lemma layout_for_struct_length: "length (sl_fields (layout_for_struct fs)) = length fs"
  using struct_layout_length [of "map pub_field_slot fs"] by (simp add: layout_for_struct_def)

lemma struct_sub_layout:
  assumes "struct_sub r a b = Some True"
  shows "length b \<le> length a" "take (length b) (sl_fields (layout_for_struct a)) = sl_fields (layout_for_struct b)"
proof -
  from assms have h: "length b \<le> length a" "all_zip (field_sub r) a b = Some True" by (simp_all add: struct_sub_def split: if_splits)
  have "map pub_field_slot a = map pub_field_slot b @ map pub_field_slot (drop (length b) a)"
    using all_zip_prefix [OF h(2,1), of pub_field_slot pub_field_slot] field_sub_slot by (metis append_take_drop_id map_append)
  then show "take (length b) (sl_fields (layout_for_struct a)) = sl_fields (layout_for_struct b)"
    using lay_out_prefix [of "map pub_field_slot b" 0] by (simp add: layout_for_struct_def struct_layout_of_def split_beta)
  show "length b \<le> length a" by (rule h(1))
qed

lemma validate_members_each:
  "validate_members r g k ds = Some (Inr u) \<Longrightarrow> i < length ds \<Longrightarrow> validate_supertype r g (k + i) (member_supertype (ds ! i)) = Some (Inr ())"
proof (induction ds arbitrary: k i)
  case (Cons d ds)
  from Cons.prems(1) have h: "validate_supertype r g k (member_supertype d) = Some (Inr ())" "validate_members r g (Suc k) ds = Some (Inr u)"
    by (auto split: Option.bind_splits sum.splits)
  show ?case using h(1) Cons.IH [OF h(2)] Cons.prems(2) by (cases i) simp_all
qed simp

lemma mat_fields_pub: "mat_fields (map pub_field fs) = Inr fs"
  by (induction fs) (simp_all add: mat_field_pub)

lemma declared_fields:
  "live_type r t = Some (declared_type ids (MemberStruct fin x fs)) \<Longrightarrow> struct_fields r t = Inr (map (declared_field ids) fs)"
  "live_type r t = Some (declared_type ids (MemberArray fin x el)) \<Longrightarrow> array_field r t = Inr (declared_field ids el)"
  using mat_fields_pub [of "map (declared_field ids) fs"]
  by (simp_all add: declared_type_def struct_fields_def struct_fields_raw_def array_field_def array_field_raw_def body_of_def struct_body_def array_body_def mat_field_pub)

section \<open>Building\<close>

text \<open>A builder ready to be registered: what its definitions refer to is declared or live, and the registry has room.\<close>

definition group_ready :: "rec_group_builder \<Rightarrow> member_def list \<Rightarrow> type_registry \<Rightarrow> bool" where
  "group_ready b defs r \<longleftrightarrow> builder_scoped b \<and> rb_members b = map Some defs \<and> (\<forall>t \<in> set (group_externals defs). group_of r t \<noteq> None) \<and>
     length defs + length (group_externals defs) \<le> 2 ^ 32 \<and> length (tr_groups r) < 2 ^ 32 \<and> length (tr_types r) + length defs \<le> 2 ^ 32"

lemma defined_map: "defined_members (map Some ds) = Inr ds"
  by (induction ds) auto

text \<open>What a run of the builder on ready definitions goes through.\<close>

lemma build_run:
  assumes ok: "registry_ok r ext" and ready: "group_ready b defs r" and run: "build_rec_group b r = Some (res, r')"
  obtains (panic) p where "res = Inl (Panic p)"
  | (refused) "registry_ok r' ext" "\<exists>e. res = Inl e"
  | (built) grp where "res = Inr grp" "registry_ok r' (ext(rg_group grp := ext (rg_group grp) + 1))" "length (rg_ids grp) = length defs" "distinct (rg_ids grp)"
      "\<And>i. i < length defs \<Longrightarrow> live_type r' (rg_ids grp ! i) = Some (declared_type (rg_ids grp) (defs ! i))"
      "rg_kinds grp = map member_kind defs" "validate_members r' grp 0 defs = Some (Inr ())"
proof (cases "rb_error b")
  case (Some e)
  with run ok show thesis by (intro refused) (auto simp: build_rec_group_def)
next
  case None
  let ?n = "length defs"
  from ready have b: "rb_members b = map Some defs" by (simp add: group_ready_def)
  obtain lowered E where low: "map_ext (lower_member ?n) defs [] = (lowered, E)" by fastforce
  have sc: "\<forall>d \<in> set defs. scoped_member ?n d" using ready b by (force simp: group_ready_def builder_scoped_def)
  have ex: "group_externals defs = E" by (simp add: group_externals_def low)
  obtain q r1 where int: "intern_host_group (map fst lowered) E r = (q, r1)" by fastforce
  show thesis
  proof (cases q)
    case (Inl e)
    have "panics_only (intern_host_group (map fst lowered) E)"
      unfolding intern_host_group_def
      by (intro panics_bind intern_group_panics panics_basic) (auto simp: panics_only_def members_of_def split: option.splits)
    with int Inl obtain p where "e = Panic p" by (auto simp: panics_only_def)
    with run None b low int Inl show thesis by (intro panic) (auto simp: build_rec_group_def defined_map)
  next
    case (Inr z)
    then obtain ids g where z: "q = Inr (ids, g)" by (cases z) auto
    define grp where "grp = \<lparr>rg_builder = rb_id b, rg_group = g, rg_ids = ids, rg_kinds = map snd lowered\<rparr>"
    have reg: "registry_ok r1 (ext(g := ext g + 1))" "length ids = ?n" "distinct ids"
      "\<And>i. i < ?n \<Longrightarrow> live_type r1 (ids ! i) = Some (declared_type ids (defs ! i)) \<and> map snd lowered ! i = member_kind (defs ! i)"
      using host_group_registered [OF ok sc low _ _ _ _ int [unfolded z]] ready by (simp_all add: group_ready_def ex room_for_def)
    have len: "length lowered = ?n" using group_means [OF sc low, of ids] ready by (auto simp: group_ready_def ex room_for_def dest: list_all2_lengthD)
    obtain v where v: "validate_members r1 grp 0 defs = Some v"
      "(res, r') = (case v of Inr _ \<Rightarrow> (Inr grp, r1) | Inl e \<Rightarrow> (case rec_group_drop grp r1 of (Inl p, r2) \<Rightarrow> (Inl p, r2) | (Inr _, r2) \<Rightarrow> (Inl e, r2)))"
      using run None b low int z by (auto simp: build_rec_group_def defined_map grp_def [symmetric] Let_def)
    show thesis
    proof (cases v)
      case (Inl e)
      from decref_group_ok [OF reg(1), of g] obtain r2 where "decref_group g r1 = (Inr (), r2)" "registry_ok r2 ext" by auto
      with v(2) Inl show thesis by (intro refused) (auto simp: rec_group_drop_def grp_def)
    next
      case (Inr u)
      with v have "res = Inr grp" "r' = r1" "validate_members r1 grp 0 defs = Some (Inr ())" by auto
      with reg len show thesis by (intro built [of grp]) (auto simp: grp_def intro: nth_equalityI)
    qed
  qed
qed

section \<open>Builders stay scoped\<close>

lemma scoped_more:
  assumes "scoped_member n d" and "n \<le> m"
  shows "scoped_member m d"
proof -
  have "scoped_val n v \<Longrightarrow> scoped_val m v" "scoped_field n f \<Longrightarrow> scoped_field m f" "scoped_super n x \<Longrightarrow> scoped_super m x" for v f x
    using assms(2) by (auto simp: scoped_val_def scoped_field_def scoped_super_def split: val_def.splits field_def.splits option.splits super_def.splits)
  with assms(1) show ?thesis by (auto simp: scoped_member_def list_all_iff split: member_def.splits)
qed

text \<open>Declaring a member gives a handle of this builder into its members; committing a definition made of such handles keeps it scoped.\<close>

lemma declare_scoped:
  assumes "declare_member kind b = (Inr ty, b')" and "builder_scoped b"
  shows "builder_scoped b' \<and> check_owns ty b' = Inr () \<and> pt_index ty < length (rb_members b') \<and> pt_kind ty = kind"
  using assms scoped_more [of "length (rb_members b)" _ "Suc (length (rb_members b))"]
  by (auto simp: declare_member_def builder_scoped_def check_owns_def split: option.splits)

lemma commit_scoped:
  assumes "commit_member i d b = Inr b'" and "builder_scoped b" and "scoped_member (length (rb_members b)) d"
  shows "builder_scoped b' \<and> length (rb_members b') = length (rb_members b) \<and> i < length (rb_members b) \<and> rb_members b' ! i = Some d"
  using assms by (auto simp: commit_member_def builder_scoped_def dest!: set_update_subset_insert [THEN subsetD] split: if_splits)

section \<open>Groups for the witnesses\<close>

definition const_i32 :: field_type where
  "const_i32 = \<lparr>ft_mutability = MutConst, ft_element = StVal VtI32\<rparr>"

definition list_defs :: "member_def list" where
  "list_defs = [MemberStruct NonFinal None [FieldRegistered const_i32],
     MemberStruct Final (Some (SuperForward 0)) [FieldRegistered const_i32, FieldForward \<lparr>pt_builder = 0, pt_index = 1, pt_kind = AkStruct\<rparr> True True]]"

definition list_builder :: rec_group_builder where
  "list_builder = \<lparr>rb_id = 0, rb_error = None, rb_members = map Some list_defs\<rparr>"

definition list_group :: rec_group where
  "list_group = \<lparr>rg_builder = 0, rg_group = 0, rg_ids = [0, 1], rg_kinds = [AkStruct, AkStruct]\<rparr>"

definition list_registry :: type_registry where
  "list_registry = (case build_rec_group list_builder empty_registry of Some (_, r) \<Rightarrow> r | None \<Rightarrow> empty_registry)"

lemma list_ready: "group_ready list_builder list_defs empty_registry"
proof -
  have "builder_scoped list_builder"
    by (simp add: builder_scoped_def list_builder_def list_defs_def scoped_member_def member_supertype_def scoped_super_def scoped_field_def)
  moreover have "group_externals list_defs = []" by code_simp
  ultimately show ?thesis by (simp add: group_ready_def list_builder_def empty_registry_def) (simp add: list_defs_def)
qed

lemma list_built: "build_rec_group list_builder empty_registry = Some (Inr list_group, list_registry)"
proof -
  have "map_option fst (build_rec_group list_builder empty_registry) = Some (Inr list_group)" by code_simp
  then show ?thesis by (auto simp: list_registry_def)
qed

section \<open>Properties\<close>

text \<open>C29. Building a recursion group, when it returns, registers exactly what was declared. Each member is recorded under its own id with its finality, its supertype and
  its fields, element or signature, in which references to siblings, forward or backward, are the ids of those siblings and registered types are
  unchanged; the reference counts are exact with one registration for the group. A group that is refused with an error leaves no registration behind.\<close>

theorem rec_group_as_declared:
  assumes "registry_ok r ext" and "group_ready b defs r" and "build_rec_group b r = Some (res, r')"
  shows "case res of
      Inl e \<Rightarrow> (\<exists>p. e = Panic p) \<or> registry_ok r' ext
    | Inr grp \<Rightarrow> registry_ok r' (ext(rg_group grp := ext (rg_group grp) + 1)) \<and> length (rg_ids grp) = length defs \<and> distinct (rg_ids grp) \<and>
        rg_kinds grp = map member_kind defs \<and>
        (\<forall>i < length defs. live_type r' (rg_ids grp ! i) = Some (declared_type (rg_ids grp) (defs ! i)))"
  by (rule build_run [OF assms]) auto

theorem rec_group_as_declared_witness:
  "live_type list_registry 1 = Some \<lparr>ct_kind = AkStruct, ct_finality = Final, ct_supertype = Some 0, ct_body = struct_body [const_i32,
     \<lparr>ft_mutability = MutVar, ft_element = StVal (VtRef \<lparr>rt_nullable = True, rt_heap = HtConcreteStruct 1\<rparr>)\<rparr>]\<rparr>"
proof -
  have d: "declared_type [0, 1] (list_defs ! 1) = \<lparr>ct_kind = AkStruct, ct_finality = Final, ct_supertype = Some 0, ct_body = struct_body [const_i32,
     \<lparr>ft_mutability = MutVar, ft_element = StVal (VtRef \<lparr>rt_nullable = True, rt_heap = HtConcreteStruct 1\<rparr>)\<rparr>]\<rparr>"
    by (simp add: list_defs_def declared_type_def declared_field_def declared_super_def declared_ref_def concrete_heap_def)
  have "live_type list_registry (rg_ids list_group ! i) = Some (declared_type (rg_ids list_group) (list_defs ! i))" if "i < length list_defs" for i
    using rec_group_as_declared [OF empty_registry_ok list_ready list_built] that by simp
  from this [of 1] d show ?thesis by (simp add: list_group_def list_defs_def)
qed

text \<open>C30. A struct or array type accepted below a declared supertype can stand in for it: the supertype is open, the subtype has at least its fields,
  and each field the two share has the same offset, width and encoding in both layouts, so code compiled against the supertype reads and
  writes the fields of the subtype's objects.\<close>

theorem accepted_subtype_layout:
  assumes "registry_ok r ext" and "group_ready b defs r" and "build_rec_group b r = Some (Inr grp, r')" and "i < length defs"
  shows "(\<forall>fin x fs. defs ! i = MemberStruct fin (Some x) fs \<longrightarrow> (\<exists>sf. struct_fields r' (declared_super (rg_ids grp) x) = Inr sf \<and>
       registry_finality r' (declared_super (rg_ids grp) x) = Some NonFinal \<and> length sf \<le> length fs \<and>
       (\<forall>j < length sf. struct_field_at (layout_for_struct (map (declared_field (rg_ids grp)) fs)) j = struct_field_at (layout_for_struct sf) j))) \<and>
    (\<forall>fin x el. defs ! i = MemberArray fin (Some x) el \<longrightarrow> (\<exists>f. array_field r' (declared_super (rg_ids grp) x) = Inr f \<and>
       registry_finality r' (declared_super (rg_ids grp) x) = Some NonFinal \<and> layout_for_array (declared_field (rg_ids grp) el) = layout_for_array f))"
proof -
  let ?ids = "rg_ids grp"
  have len: "length ?ids = length defs" and live: "live_type r' (?ids ! i) = Some (declared_type ?ids (defs ! i))"
    and kinds: "rg_kinds grp = map member_kind defs" and val: "validate_members r' grp 0 defs = Some (Inr ())"
    by (rule build_run [OF assms(1-3)]; use assms(4) in auto)+
  have v: "validate_supertype r' grp i (member_supertype (defs ! i)) = Some (Inr ())" using validate_members_each [OF val assms(4)] by simp
  have sup: "registry_finality r' (declared_super ?ids x) = Some NonFinal \<and> sub_bodies r' (member_kind (defs ! i)) (?ids ! i) (declared_super ?ids x) = Some (Inr ())"
    if "member_supertype (defs ! i) = Some x" for x
    using v that assms(4) len kinds by (cases x) (auto simp: validate_supertype_def super_id_def declared_super_def split: if_splits sum.splits)
  have "\<exists>sf. struct_fields r' (declared_super ?ids x) = Inr sf \<and> registry_finality r' (declared_super ?ids x) = Some NonFinal \<and> length sf \<le> length fs \<and>
      (\<forall>j < length sf. struct_field_at (layout_for_struct (map (declared_field ?ids) fs)) j = struct_field_at (layout_for_struct sf) j)"
    if d: "defs ! i = MemberStruct fin (Some x) fs" for fin x fs
  proof -
    have "struct_fields r' (?ids ! i) = Inr (map (declared_field ?ids) fs)" using live declared_fields(1) by (simp add: d)
    with sup [of x] d obtain sf where sf: "struct_fields r' (declared_super ?ids x) = Inr sf" "struct_sub r' (map (declared_field ?ids) fs) sf = Some True"
      by (auto simp: member_supertype_def member_kind_def sub_bodies_def ensure_sub_def split: if_splits sum.splits)
    note l = struct_sub_layout [OF sf(2)]
    have "struct_field_at (layout_for_struct (map (declared_field ?ids) fs)) j = struct_field_at (layout_for_struct sf) j" if "j < length sf" for j
      using that l layout_for_struct_length [of "map (declared_field ?ids) fs"] by (simp add: struct_field_at_def get_at_def flip: l(2))
    with sf(1) l(1) sup [of x] d show ?thesis by (auto simp: member_supertype_def)
  qed
  moreover have "\<exists>f. array_field r' (declared_super ?ids x) = Inr f \<and> registry_finality r' (declared_super ?ids x) = Some NonFinal \<and>
      layout_for_array (declared_field ?ids el) = layout_for_array f"
    if d: "defs ! i = MemberArray fin (Some x) el" for fin x el
  proof -
    have "array_field r' (?ids ! i) = Inr (declared_field ?ids el)" using live declared_fields(2) by (simp add: d)
    with sup [of x] d obtain f where f: "array_field r' (declared_super ?ids x) = Inr f" "field_sub r' (declared_field ?ids el) f = Some True"
      by (auto simp: member_supertype_def member_kind_def sub_bodies_def ensure_sub_def split: if_splits sum.splits)
    with sup [of x] d field_sub_slot [OF f(2)] show ?thesis by (auto simp: member_supertype_def layout_for_array_def)
  qed
  ultimately show ?thesis by blast
qed

theorem accepted_subtype_layout_witness:
  "struct_fields list_registry 0 = Inr [const_i32] \<and> registry_finality list_registry 0 = Some NonFinal"
proof -
  have "struct_fields list_registry 0 = Inr [const_i32]" by code_simp
  moreover have "list_defs ! 1 = MemberStruct Final (Some (SuperForward 0)) [FieldRegistered const_i32, FieldForward \<lparr>pt_builder = 0, pt_index = 1, pt_kind = AkStruct\<rparr> True True]"
    "1 < length list_defs" by (simp_all add: list_defs_def)
  ultimately show ?thesis
    using accepted_subtype_layout [OF empty_registry_ok list_ready list_built, of 1] by (auto simp: list_group_def declared_super_def)
qed

text \<open>A struct declared as its own supertype, through the public operations of the builders.\<close>

definition self_super_builder :: "rec_group_builder result" where
  "self_super_builder = (case declare_struct (fst (rec_group_builder_new 0)) of
     (Inl e, _) \<Rightarrow> Inl e
   | (Inr ty, b) \<Rightarrow> bindr (define_struct ty b) (\<lambda>sb. bindr (struct_forward_supertype ty b (struct_finality NonFinal sb)) (\<lambda>sb.
       bindr (struct_finish sb b) (\<lambda>(_, b). Inr b))))"

definition self_super_registry :: type_registry where
  "self_super_registry = (case self_super_builder of Inl _ \<Rightarrow> empty_registry
     | Inr b \<Rightarrow> (case build_rec_group b empty_registry of Some (_, r) \<Rightarrow> r | None \<Rightarrow> empty_registry))"

lemma walk_ends: "is_subtype r t u = Some y \<Longrightarrow> t = u \<or> Option.bind (live_type r t) ct_supertype \<noteq> Some t"
  by (erule is_subtype.raw_induct [rotated]) (fastforce split: if_splits option.splits)

lemma walk_in_circle:
  assumes "live_type r t = Some ty" and "ct_supertype ty = Some t" and "t \<noteq> u"
  shows "is_subtype r t u = None"
  using walk_ends [of r t u] assms by (cases "is_subtype r t u") auto

text \<open>C31. Nothing in the group builder orders the supertypes of a group: a struct declared as its own supertype is accepted and registered, and from then on
  the subtype query for it against any other type does not return.\<close>

theorem self_supertype_accepted:
  "(\<exists>b grp. self_super_builder = Inr b \<and> build_rec_group b empty_registry = Some (Inr grp, self_super_registry) \<and> rg_ids grp = [0]) \<and>
   (\<forall>t. is_subtype self_super_registry 0 t = (if t = 0 then Some True else None))"
proof
  have b: "self_super_builder = Inr \<lparr>rb_id = 0, rb_error = None, rb_members = [Some (MemberStruct NonFinal (Some (SuperForward 0)) [])]\<rparr>" by code_simp
  have g: "map_option fst (build_rec_group \<lparr>rb_id = 0, rb_error = None, rb_members = [Some (MemberStruct NonFinal (Some (SuperForward 0)) [])]\<rparr> empty_registry)
      = Some (Inr \<lparr>rg_builder = 0, rg_group = 0, rg_ids = [0], rg_kinds = [AkStruct]\<rparr>)" by code_simp
  show "\<exists>b grp. self_super_builder = Inr b \<and> build_rec_group b empty_registry = Some (Inr grp, self_super_registry) \<and> rg_ids grp = [0]"
  proof -
    from g obtain r where r: "build_rec_group \<lparr>rb_id = 0, rb_error = None, rb_members = [Some (MemberStruct NonFinal (Some (SuperForward 0)) [])]\<rparr> empty_registry
      = Some (Inr \<lparr>rg_builder = 0, rg_group = 0, rg_ids = [0], rg_kinds = [AkStruct]\<rparr>, r)" by auto
    then have "self_super_registry = r" by (simp add: self_super_registry_def b)
    with b r show ?thesis by auto
  qed
  have l: "live_type self_super_registry 0 = Some \<lparr>ct_kind = AkStruct, ct_finality = NonFinal, ct_supertype = Some 0, ct_body = CStruct []\<rparr>" by code_simp
  show "\<forall>t. is_subtype self_super_registry 0 t = (if t = 0 then Some True else None)"
    using walk_in_circle [OF l] by (auto simp: is_subtype.simps [of _ 0 0])
qed

end
