(* ===== verification/Simd.thy ===== *)
theory Simd
  imports Exec_Memory Exec_Numeric
begin

text \<open>
  The vector instructions, \<^verbatim>\<open>src/exec/simd/\<close>, of the build with the \<^verbatim>\<open>simd\<close> feature: operand cells have 16 bytes and a \<^verbatim>\<open>v128\<close> is one
  cell. The instructions are grouped by the handler of the chain that executes them, with the names of \<^verbatim>\<open>src/module/op_simd.rs\<close>. Lanes are
  words: an \<^verbatim>\<open>i8x16\<close> and a \<^verbatim>\<open>u8x16\<close> are the same bits, and an operation that is signed reads them with \<open>sint\<close>. Float lanes are bit
  patterns, with the operations of \<open>Ieee\<close> and \<open>Float_Ops\<close>.
\<close>

section \<open>Instructions\<close>

datatype simd_mem =
    V128Load | V128Load8x8S | V128Load8x8U | V128Load16x4S | V128Load16x4U | V128Load32x2S | V128Load32x2U
  | V128Load8Splat | V128Load16Splat | V128Load32Splat | V128Load64Splat | V128Load32Zero | V128Load64Zero | V128Store

datatype simd_mem_lane =
    V128Load8Lane | V128Load16Lane | V128Load32Lane | V128Load64Lane | V128Store8Lane | V128Store16Lane | V128Store32Lane | V128Store64Lane

datatype simd_lane =
    V128Const u128 | I8x16Shuffle "nat list" | I8x16Swizzle
  | I8x16Splat | I16x8Splat | I32x4Splat | I64x2Splat | F32x4Splat | F64x2Splat
  | I8x16ExtractLaneS nat | I8x16ExtractLaneU nat | I16x8ExtractLaneS nat | I16x8ExtractLaneU nat | I32x4ExtractLane nat
  | I64x2ExtractLane nat | F32x4ExtractLane nat | F64x2ExtractLane nat
  | I8x16ReplaceLane nat | I16x8ReplaceLane nat | I32x4ReplaceLane nat | I64x2ReplaceLane nat | F32x4ReplaceLane nat | F64x2ReplaceLane nat

datatype simd_bit = V128Not | V128And | V128Or | V128Xor | V128AndNot | V128Bitselect | V128AnyTrue

datatype simd_iarith =
    I8x16Add | I8x16Sub | I8x16Neg | I8x16Abs | I8x16Popcnt | I8x16MinS | I8x16MinU | I8x16MaxS | I8x16MaxU | I8x16AvgrU | I8x16AllTrue | I8x16Bitmask
    | I16x8Add | I16x8Sub | I16x8Mul | I16x8Neg | I16x8Abs | I16x8MinS | I16x8MinU | I16x8MaxS | I16x8MaxU | I16x8AvgrU | I16x8AllTrue | I16x8Bitmask
    | I32x4Add | I32x4Sub | I32x4Mul | I32x4Neg | I32x4Abs | I32x4MinS | I32x4MinU | I32x4MaxS | I32x4MaxU | I32x4AllTrue | I32x4Bitmask | I64x2Add
    | I64x2Sub | I64x2Mul | I64x2Neg | I64x2Abs | I64x2AllTrue | I64x2Bitmask

datatype simd_icmp =
    I8x16Eq | I8x16Ne | I8x16LtS | I8x16LtU | I8x16GtS | I8x16GtU | I8x16LeS | I8x16LeU | I8x16GeS | I8x16GeU | I16x8Eq | I16x8Ne | I16x8LtS
    | I16x8LtU | I16x8GtS | I16x8GtU | I16x8LeS | I16x8LeU | I16x8GeS | I16x8GeU | I32x4Eq | I32x4Ne | I32x4LtS | I32x4LtU | I32x4GtS | I32x4GtU
    | I32x4LeS | I32x4LeU | I32x4GeS | I32x4GeU | I64x2Eq | I64x2Ne | I64x2LtS | I64x2GtS | I64x2LeS | I64x2GeS | I8x16Shl | I8x16ShrS | I8x16ShrU
    | I16x8Shl | I16x8ShrS | I16x8ShrU | I32x4Shl | I32x4ShrS | I32x4ShrU | I64x2Shl | I64x2ShrS | I64x2ShrU

datatype simd_iarith2 =
    I8x16AddSatS | I8x16AddSatU | I8x16SubSatS | I8x16SubSatU | I16x8AddSatS | I16x8AddSatU | I16x8SubSatS | I16x8SubSatU | I16x8Q15MulrSatS
    | I8x16NarrowI16x8S | I8x16NarrowI16x8U | I16x8NarrowI32x4S | I16x8NarrowI32x4U | I16x8ExtendLowI8x16S | I16x8ExtendHighI8x16S
    | I16x8ExtendLowI8x16U | I16x8ExtendHighI8x16U | I32x4ExtendLowI16x8S | I32x4ExtendHighI16x8S | I32x4ExtendLowI16x8U | I32x4ExtendHighI16x8U
    | I64x2ExtendLowI32x4S | I64x2ExtendHighI32x4S | I64x2ExtendLowI32x4U | I64x2ExtendHighI32x4U | I16x8ExtAddPairwiseI8x16S
    | I16x8ExtAddPairwiseI8x16U | I32x4ExtAddPairwiseI16x8S | I32x4ExtAddPairwiseI16x8U | I16x8ExtMulLowI8x16S | I16x8ExtMulHighI8x16S
    | I16x8ExtMulLowI8x16U | I16x8ExtMulHighI8x16U | I32x4ExtMulLowI16x8S | I32x4ExtMulHighI16x8S | I32x4ExtMulLowI16x8U | I32x4ExtMulHighI16x8U
    | I64x2ExtMulLowI32x4S | I64x2ExtMulHighI32x4S | I64x2ExtMulLowI32x4U | I64x2ExtMulHighI32x4U | I32x4DotI16x8S

datatype simd_farith =
    F32x4Add | F32x4Sub | F32x4Mul | F32x4Div | F32x4Min | F32x4Max | F32x4PMin | F32x4PMax | F32x4Sqrt | F32x4Ceil | F32x4Floor | F32x4Trunc | F32x4Nearest | F32x4Abs | F32x4Neg
  | F64x2Add | F64x2Sub | F64x2Mul | F64x2Div | F64x2Min | F64x2Max | F64x2PMin | F64x2PMax | F64x2Sqrt | F64x2Ceil | F64x2Floor | F64x2Trunc | F64x2Nearest | F64x2Abs | F64x2Neg

datatype simd_fcmp =
    F32x4Eq | F32x4Ne | F32x4Lt | F32x4Gt | F32x4Le | F32x4Ge | F64x2Eq | F64x2Ne | F64x2Lt | F64x2Gt | F64x2Le | F64x2Ge

datatype simd_cvt =
    I32x4TruncSatF32x4S | I32x4TruncSatF32x4U | F32x4ConvertI32x4S | F32x4ConvertI32x4U | I32x4TruncSatF64x2SZero | I32x4TruncSatF64x2UZero
  | F64x2ConvertLowI32x4S | F64x2ConvertLowI32x4U | F32x4DemoteF64x2Zero | F64x2PromoteLowF32x4

datatype simd_relaxed =
    I8x16RelaxedSwizzle | I32x4RelaxedTruncF32x4S | I32x4RelaxedTruncF32x4U | I32x4RelaxedTruncF64x2SZero | I32x4RelaxedTruncF64x2UZero
  | F32x4RelaxedMadd | F32x4RelaxedNmadd | F64x2RelaxedMadd | F64x2RelaxedNmadd
  | I8x16RelaxedLaneselect | I16x8RelaxedLaneselect | I32x4RelaxedLaneselect | I64x2RelaxedLaneselect
  | F32x4RelaxedMin | F32x4RelaxedMax | F64x2RelaxedMin | F64x2RelaxedMax
  | I16x8RelaxedQ15mulrS | I16x8RelaxedDotI8x16I7x16S | I32x4RelaxedDotI8x16I7x16AddS

datatype simd_op =
    SimdMem simd_mem mem_arg | SimdMemLane simd_mem_lane mem_arg nat | SimdLane simd_lane | SimdBit simd_bit | SimdIarith simd_iarith | SimdIcmp simd_icmp
  | SimdIarith2 simd_iarith2 | SimdFarith simd_farith | SimdFcmp simd_fcmp | SimdCvt simd_cvt | SimdRelaxed simd_relaxed

section \<open>Wide cells\<close>

definition WIDE_SLOT_BYTES :: nat where
  "WIDE_SLOT_BYTES = 16"

definition slot_for_wide :: "val \<Rightarrow> slot result" where
  "slot_for_wide v = (case v of V128 _ \<Rightarrow> Inr (SlotScalar 0 SkV128) | _ \<Rightarrow> slot_for_val v)"

definition encode_wide :: "val \<Rightarrow> cell result" where
  "encode_wide v = bindr (slot_for_wide v) (\<lambda>s. write_slot s (replicate WIDE_SLOT_BYTES 0) v)"

definition push_wide :: "val \<Rightarrow> ('a execution_scheme, unit) action" where
  "push_wide v = bindc (putc (\<lambda>s. s\<lparr>ex_shadow := ex_shadow s @ [of_val v]\<rparr>)) (\<lambda>_.
     bindc (lift_res (encode_wide v)) (\<lambda>c. putc (\<lambda>s. s\<lparr>ex_values := ex_values s @ [c]\<rparr>)))"

definition cell_v128 :: "cell \<Rightarrow> u128" where
  "cell_v128 c = le_word (cell_lo 16 c)"

definition pop_v128 :: "('a execution_scheme, u128) action" where
  "pop_v128 = bindc pop_scalar (\<lambda>c. ret (cell_v128 c))"

definition push_v128 :: "u128 \<Rightarrow> ('a execution_scheme, unit) action" where
  "push_v128 v = push_wide (V128 v)"

section \<open>Lanes\<close>

definition chunk :: "nat \<Rightarrow> u8 list \<Rightarrow> nat \<Rightarrow> u8 list" where
  "chunk w b i = map (\<lambda>k. b ! (i * w + k)) [0..<w]"

definition i8x16 :: "u128 \<Rightarrow> u8 list" where
  "i8x16 v = le_bytes 16 v"

definition i16x8 :: "u128 \<Rightarrow> u16 list" where
  "i16x8 v = (let b = le_bytes 16 v in map (\<lambda>i. le_word (chunk 2 b i)) [0..<8])"

definition i32x4 :: "u128 \<Rightarrow> u32 list" where
  "i32x4 v = (let b = le_bytes 16 v in map (\<lambda>i. le_word (chunk 4 b i)) [0..<4])"

definition i64x2 :: "u128 \<Rightarrow> u64 list" where
  "i64x2 v = (let b = le_bytes 16 v in map (\<lambda>i. le_word (chunk 8 b i)) [0..<2])"

text \<open>The nested loops over lanes and their bytes.\<close>

definition pack :: "nat \<Rightarrow> u8 list list \<Rightarrow> u128" where
  "pack w ls = le_word (foldl (\<lambda>b i. foldl (\<lambda>b k. b[i * w + k := ls ! i ! k]) b [0..<w]) (replicate 16 0) [0..<length ls])"

definition from_i8x16 :: "u8 list \<Rightarrow> u128" where
  "from_i8x16 l = le_word l"

definition from_i16x8 :: "u16 list \<Rightarrow> u128" where
  "from_i16x8 l = pack 2 (map (le_bytes 2) l)"

definition from_i32x4 :: "u32 list \<Rightarrow> u128" where
  "from_i32x4 l = pack 4 (map (le_bytes 4) l)"

definition from_i64x2 :: "u64 list \<Rightarrow> u128" where
  "from_i64x2 l = pack 8 (map (le_bytes 8) l)"

definition lanes_zip :: "('a \<Rightarrow> 'a \<Rightarrow> 'b) \<Rightarrow> 'a list \<Rightarrow> 'a list \<Rightarrow> 'b list" where
  "lanes_zip f a b = map (\<lambda>i. f (a ! i) (b ! i)) [0..<length a]"

section \<open>Lanewise combinators\<close>

definition v_binop :: "(u128 \<Rightarrow> 'l list) \<Rightarrow> ('l list \<Rightarrow> u128) \<Rightarrow> ('l \<Rightarrow> 'l \<Rightarrow> 'l) \<Rightarrow> ('a execution_scheme, unit) action" where
  "v_binop split join f = bindc pop_v128 (\<lambda>b. bindc pop_v128 (\<lambda>a. push_v128 (join (lanes_zip f (split a) (split b)))))"

definition v_unop :: "(u128 \<Rightarrow> 'l list) \<Rightarrow> ('m list \<Rightarrow> u128) \<Rightarrow> ('l \<Rightarrow> 'm) \<Rightarrow> ('a execution_scheme, unit) action" where
  "v_unop split join f = bindc pop_v128 (\<lambda>a. push_v128 (join (map f (split a))))"

text \<open>A lane of ones where the mask holds.\<close>

definition cmp_mask :: "bool list \<Rightarrow> u128" where
  "cmp_mask ms = (let w = 16 div length ms in le_word (foldl (\<lambda>b i. if ms ! i
     then foldl (\<lambda>b k. b[i * w + k := 0xFF]) b [0..<w] else b) (replicate 16 0) [0..<length ms]))"

definition v_cmp :: "(u128 \<Rightarrow> 'l list) \<Rightarrow> ('l \<Rightarrow> 'l \<Rightarrow> bool) \<Rightarrow> ('a execution_scheme, unit) action" where
  "v_cmp split f = bindc pop_v128 (\<lambda>b. bindc pop_v128 (\<lambda>a. push_v128 (cmp_mask (lanes_zip f (split a) (split b)))))"

definition v_shift :: "(u128 \<Rightarrow> 'l list) \<Rightarrow> ('l list \<Rightarrow> u128) \<Rightarrow> ('l \<Rightarrow> u32 \<Rightarrow> 'l) \<Rightarrow> ('a execution_scheme, unit) action" where
  "v_shift split join f = bindc pop_i32 (\<lambda>count. bindc pop_v128 (\<lambda>a.
     let s = count mod of_nat (128 div length (split a)) in push_v128 (join (map (\<lambda>x. f x s) (split a)))))"

definition v_bitmask :: "(u128 \<Rightarrow> 'l::len word list) \<Rightarrow> ('a execution_scheme, unit) action" where
  "v_bitmask split = bindc pop_v128 (\<lambda>v.
     push_wide (I32 (foldl (\<lambda>m (i, x). if sint x < 0 then m OR push_bit i 1 else m) 0 (enumerate 0 (split v)))))"

definition v_all_true :: "(u128 \<Rightarrow> 'l::len word list) \<Rightarrow> ('a execution_scheme, unit) action" where
  "v_all_true split = bindc pop_v128 (\<lambda>v. push_wide (I32 (bool_i32 (list_all (\<lambda>x. x \<noteq> 0) (split v)))))"

definition v_extend :: "(u128 \<Rightarrow> 'l list) \<Rightarrow> ('m list \<Rightarrow> u128) \<Rightarrow> bool \<Rightarrow> ('l \<Rightarrow> 'm) \<Rightarrow> ('a execution_scheme, unit) action" where
  "v_extend split join high f = bindc pop_v128 (\<lambda>v. let a = split v; n = length a div 2; off = if high then n else 0 in
     push_v128 (join (map (\<lambda>i. f (a ! (off + i))) [0..<n])))"

definition v_extmul :: "(u128 \<Rightarrow> 'l list) \<Rightarrow> ('m list \<Rightarrow> u128) \<Rightarrow> bool \<Rightarrow> ('l \<Rightarrow> 'l \<Rightarrow> 'm) \<Rightarrow> ('a execution_scheme, unit) action" where
  "v_extmul split join high f = bindc pop_v128 (\<lambda>w. bindc pop_v128 (\<lambda>v.
     let a = split v; b = split w; n = length a div 2; off = if high then n else 0 in
     push_v128 (join (map (\<lambda>i. f (a ! (off + i)) (b ! (off + i))) [0..<n]))))"

definition v_extadd :: "(u128 \<Rightarrow> 'l list) \<Rightarrow> ('m list \<Rightarrow> u128) \<Rightarrow> ('l \<Rightarrow> 'l \<Rightarrow> 'm) \<Rightarrow> ('a execution_scheme, unit) action" where
  "v_extadd split join f = bindc pop_v128 (\<lambda>v. let a = split v in
     push_v128 (join (map (\<lambda>i. f (a ! (2 * i)) (a ! (2 * i + 1))) [0..<length a div 2])))"

definition v_narrow :: "(u128 \<Rightarrow> 'l list) \<Rightarrow> ('m list \<Rightarrow> u128) \<Rightarrow> ('l \<Rightarrow> 'm) \<Rightarrow> ('a execution_scheme, unit) action" where
  "v_narrow split join f = bindc pop_v128 (\<lambda>w. bindc pop_v128 (\<lambda>v. let a = split v; b = split w; n = length a in
     push_v128 (join (map (\<lambda>i. if i < n then f (a ! i) else f (b ! (i - n))) [0..<2 * n]))))"

section \<open>Lane operators\<close>

text \<open>Rust's operators on one lane. \<open>clamp_s\<close> is \<^verbatim>\<open>clamp\<close> on a signed integer.\<close>

definition wrapping_abs :: "'l::len word \<Rightarrow> 'l word" where
  "wrapping_abs x = (if sint x < 0 then - x else x)"

definition min_s :: "'l::len word \<Rightarrow> 'l word \<Rightarrow> 'l word" where
  "min_s a b = (if sint a \<le> sint b then a else b)"

definition max_s :: "'l::len word \<Rightarrow> 'l word \<Rightarrow> 'l word" where
  "max_s a b = (if sint a \<le> sint b then b else a)"

definition clamp_int :: "int \<Rightarrow> int \<Rightarrow> int \<Rightarrow> int" where
  "clamp_int lo hi x = max lo (min hi x)"

definition sat_add_s :: "'l::len word \<Rightarrow> 'l word \<Rightarrow> 'l word" where
  "sat_add_s a b = word_of_int (clamp_int (- (2 ^ (LENGTH('l) - 1))) (2 ^ (LENGTH('l) - 1) - 1) (sint a + sint b))"

definition sat_sub_s :: "'l::len word \<Rightarrow> 'l word \<Rightarrow> 'l word" where
  "sat_sub_s a b = word_of_int (clamp_int (- (2 ^ (LENGTH('l) - 1))) (2 ^ (LENGTH('l) - 1) - 1) (sint a - sint b))"

definition sat_add_u :: "'l::len word \<Rightarrow> 'l word \<Rightarrow> 'l word" where
  "sat_add_u a b = word_of_int (clamp_int 0 (2 ^ LENGTH('l) - 1) (uint a + uint b))"

definition sat_sub_u :: "'l::len word \<Rightarrow> 'l word \<Rightarrow> 'l word" where
  "sat_sub_u a b = word_of_int (clamp_int 0 (2 ^ LENGTH('l) - 1) (uint a - uint b))"

definition clamp_s :: "int \<Rightarrow> int \<Rightarrow> 'l::len word \<Rightarrow> 'l word" where
  "clamp_s lo hi x = (if sint x < lo then word_of_int lo else if hi < sint x then word_of_int hi else x)"

definition avgr :: "u32 \<Rightarrow> u32 \<Rightarrow> u32" where
  "avgr a b = (let s = a + b in s div 2 + (if s mod 2 = 0 then 0 else 1))"

definition q15mulr_sat :: "u16 \<Rightarrow> u16 \<Rightarrow> u16" where
  "q15mulr_sat a b = ucast (clamp_s (-32768) 32767 (signed_drop_bit 15 (scast a * scast b + 0x4000 :: u32)))"

section \<open>Float lanes\<close>

definition SIGN32 :: u32 where
  "SIGN32 = 0x80000000"

definition SIGN64 :: u64 where
  "SIGN64 = 0x8000000000000000"

section \<open>The handler chain\<close>

definition dot_i16x8 :: "('a execution_scheme, unit) action" where
  "dot_i16x8 = bindc pop_v128 (\<lambda>w. bindc pop_v128 (\<lambda>v. let a = i16x8 v; b = i16x8 w in
     push_v128 (from_i32x4 (map (\<lambda>i. scast (a ! (2 * i)) * scast (b ! (2 * i)) + scast (a ! (2 * i + 1)) * scast (b ! (2 * i + 1))) [0..<4]))))"

primrec exec_simd_iarith :: "simd_iarith \<Rightarrow> ('a execution_scheme, unit) action" where
  "exec_simd_iarith I8x16Add = v_binop i8x16 from_i8x16 (+)"
| "exec_simd_iarith I8x16Sub = v_binop i8x16 from_i8x16 (-)"
| "exec_simd_iarith I8x16Neg = v_unop i8x16 from_i8x16 uminus"
| "exec_simd_iarith I8x16Abs = v_unop i8x16 from_i8x16 wrapping_abs"
| "exec_simd_iarith I8x16Popcnt = v_unop i8x16 from_i8x16 (\<lambda>x. of_nat (count_ones x))"
| "exec_simd_iarith I8x16MinS = v_binop i8x16 from_i8x16 min_s"
| "exec_simd_iarith I8x16MinU = v_binop i8x16 from_i8x16 min"
| "exec_simd_iarith I8x16MaxS = v_binop i8x16 from_i8x16 max_s"
| "exec_simd_iarith I8x16MaxU = v_binop i8x16 from_i8x16 max"
| "exec_simd_iarith I8x16AvgrU = v_binop i8x16 from_i8x16 (\<lambda>a b. ucast (avgr (ucast a) (ucast b)))"
| "exec_simd_iarith I8x16AllTrue = v_all_true i8x16"
| "exec_simd_iarith I8x16Bitmask = v_bitmask i8x16"
| "exec_simd_iarith I16x8Add = v_binop i16x8 from_i16x8 (+)"
| "exec_simd_iarith I16x8Sub = v_binop i16x8 from_i16x8 (-)"
| "exec_simd_iarith I16x8Mul = v_binop i16x8 from_i16x8 (*)"
| "exec_simd_iarith I16x8Neg = v_unop i16x8 from_i16x8 uminus"
| "exec_simd_iarith I16x8Abs = v_unop i16x8 from_i16x8 wrapping_abs"
| "exec_simd_iarith I16x8MinS = v_binop i16x8 from_i16x8 min_s"
| "exec_simd_iarith I16x8MinU = v_binop i16x8 from_i16x8 min"
| "exec_simd_iarith I16x8MaxS = v_binop i16x8 from_i16x8 max_s"
| "exec_simd_iarith I16x8MaxU = v_binop i16x8 from_i16x8 max"
| "exec_simd_iarith I16x8AvgrU = v_binop i16x8 from_i16x8 (\<lambda>a b. ucast (avgr (ucast a) (ucast b)))"
| "exec_simd_iarith I16x8AllTrue = v_all_true i16x8"
| "exec_simd_iarith I16x8Bitmask = v_bitmask i16x8"
| "exec_simd_iarith I32x4Add = v_binop i32x4 from_i32x4 (+)"
| "exec_simd_iarith I32x4Sub = v_binop i32x4 from_i32x4 (-)"
| "exec_simd_iarith I32x4Mul = v_binop i32x4 from_i32x4 (*)"
| "exec_simd_iarith I32x4Neg = v_unop i32x4 from_i32x4 uminus"
| "exec_simd_iarith I32x4Abs = v_unop i32x4 from_i32x4 wrapping_abs"
| "exec_simd_iarith I32x4MinS = v_binop i32x4 from_i32x4 min_s"
| "exec_simd_iarith I32x4MinU = v_binop i32x4 from_i32x4 min"
| "exec_simd_iarith I32x4MaxS = v_binop i32x4 from_i32x4 max_s"
| "exec_simd_iarith I32x4MaxU = v_binop i32x4 from_i32x4 max"
| "exec_simd_iarith I32x4AllTrue = v_all_true i32x4"
| "exec_simd_iarith I32x4Bitmask = v_bitmask i32x4"
| "exec_simd_iarith I64x2Add = v_binop i64x2 from_i64x2 (+)"
| "exec_simd_iarith I64x2Sub = v_binop i64x2 from_i64x2 (-)"
| "exec_simd_iarith I64x2Mul = v_binop i64x2 from_i64x2 (*)"
| "exec_simd_iarith I64x2Neg = v_unop i64x2 from_i64x2 uminus"
| "exec_simd_iarith I64x2Abs = v_unop i64x2 from_i64x2 wrapping_abs"
| "exec_simd_iarith I64x2AllTrue = v_all_true i64x2"
| "exec_simd_iarith I64x2Bitmask = v_bitmask i64x2"

primrec exec_simd_icmp :: "simd_icmp \<Rightarrow> ('a execution_scheme, unit) action" where
  "exec_simd_icmp I8x16Eq = v_cmp i8x16 (\<lambda>a b. a = b)"
| "exec_simd_icmp I8x16Ne = v_cmp i8x16 (\<lambda>a b. a \<noteq> b)"
| "exec_simd_icmp I8x16LtS = v_cmp i8x16 (\<lambda>a b. sint a < sint b)"
| "exec_simd_icmp I8x16LtU = v_cmp i8x16 (\<lambda>a b. a < b)"
| "exec_simd_icmp I8x16GtS = v_cmp i8x16 (\<lambda>a b. sint a > sint b)"
| "exec_simd_icmp I8x16GtU = v_cmp i8x16 (\<lambda>a b. a > b)"
| "exec_simd_icmp I8x16LeS = v_cmp i8x16 (\<lambda>a b. sint a \<le> sint b)"
| "exec_simd_icmp I8x16LeU = v_cmp i8x16 (\<lambda>a b. a \<le> b)"
| "exec_simd_icmp I8x16GeS = v_cmp i8x16 (\<lambda>a b. sint a \<ge> sint b)"
| "exec_simd_icmp I8x16GeU = v_cmp i8x16 (\<lambda>a b. a \<ge> b)"
| "exec_simd_icmp I16x8Eq = v_cmp i16x8 (\<lambda>a b. a = b)"
| "exec_simd_icmp I16x8Ne = v_cmp i16x8 (\<lambda>a b. a \<noteq> b)"
| "exec_simd_icmp I16x8LtS = v_cmp i16x8 (\<lambda>a b. sint a < sint b)"
| "exec_simd_icmp I16x8LtU = v_cmp i16x8 (\<lambda>a b. a < b)"
| "exec_simd_icmp I16x8GtS = v_cmp i16x8 (\<lambda>a b. sint a > sint b)"
| "exec_simd_icmp I16x8GtU = v_cmp i16x8 (\<lambda>a b. a > b)"
| "exec_simd_icmp I16x8LeS = v_cmp i16x8 (\<lambda>a b. sint a \<le> sint b)"
| "exec_simd_icmp I16x8LeU = v_cmp i16x8 (\<lambda>a b. a \<le> b)"
| "exec_simd_icmp I16x8GeS = v_cmp i16x8 (\<lambda>a b. sint a \<ge> sint b)"
| "exec_simd_icmp I16x8GeU = v_cmp i16x8 (\<lambda>a b. a \<ge> b)"
| "exec_simd_icmp I32x4Eq = v_cmp i32x4 (\<lambda>a b. a = b)"
| "exec_simd_icmp I32x4Ne = v_cmp i32x4 (\<lambda>a b. a \<noteq> b)"
| "exec_simd_icmp I32x4LtS = v_cmp i32x4 (\<lambda>a b. sint a < sint b)"
| "exec_simd_icmp I32x4LtU = v_cmp i32x4 (\<lambda>a b. a < b)"
| "exec_simd_icmp I32x4GtS = v_cmp i32x4 (\<lambda>a b. sint a > sint b)"
| "exec_simd_icmp I32x4GtU = v_cmp i32x4 (\<lambda>a b. a > b)"
| "exec_simd_icmp I32x4LeS = v_cmp i32x4 (\<lambda>a b. sint a \<le> sint b)"
| "exec_simd_icmp I32x4LeU = v_cmp i32x4 (\<lambda>a b. a \<le> b)"
| "exec_simd_icmp I32x4GeS = v_cmp i32x4 (\<lambda>a b. sint a \<ge> sint b)"
| "exec_simd_icmp I32x4GeU = v_cmp i32x4 (\<lambda>a b. a \<ge> b)"
| "exec_simd_icmp I64x2Eq = v_cmp i64x2 (\<lambda>a b. a = b)"
| "exec_simd_icmp I64x2Ne = v_cmp i64x2 (\<lambda>a b. a \<noteq> b)"
| "exec_simd_icmp I64x2LtS = v_cmp i64x2 (\<lambda>a b. sint a < sint b)"
| "exec_simd_icmp I64x2GtS = v_cmp i64x2 (\<lambda>a b. sint a > sint b)"
| "exec_simd_icmp I64x2LeS = v_cmp i64x2 (\<lambda>a b. sint a \<le> sint b)"
| "exec_simd_icmp I64x2GeS = v_cmp i64x2 (\<lambda>a b. sint a \<ge> sint b)"
| "exec_simd_icmp I8x16Shl = v_shift i8x16 from_i8x16 wrapping_shl"
| "exec_simd_icmp I8x16ShrS = v_shift i8x16 from_i8x16 wrapping_shr_s"
| "exec_simd_icmp I8x16ShrU = v_shift i8x16 from_i8x16 wrapping_shr_u"
| "exec_simd_icmp I16x8Shl = v_shift i16x8 from_i16x8 wrapping_shl"
| "exec_simd_icmp I16x8ShrS = v_shift i16x8 from_i16x8 wrapping_shr_s"
| "exec_simd_icmp I16x8ShrU = v_shift i16x8 from_i16x8 wrapping_shr_u"
| "exec_simd_icmp I32x4Shl = v_shift i32x4 from_i32x4 wrapping_shl"
| "exec_simd_icmp I32x4ShrS = v_shift i32x4 from_i32x4 wrapping_shr_s"
| "exec_simd_icmp I32x4ShrU = v_shift i32x4 from_i32x4 wrapping_shr_u"
| "exec_simd_icmp I64x2Shl = v_shift i64x2 from_i64x2 wrapping_shl"
| "exec_simd_icmp I64x2ShrS = v_shift i64x2 from_i64x2 wrapping_shr_s"
| "exec_simd_icmp I64x2ShrU = v_shift i64x2 from_i64x2 wrapping_shr_u"

primrec exec_simd_iarith2 :: "simd_iarith2 \<Rightarrow> ('a execution_scheme, unit) action" where
  "exec_simd_iarith2 I8x16AddSatS = v_binop i8x16 from_i8x16 sat_add_s"
| "exec_simd_iarith2 I8x16AddSatU = v_binop i8x16 from_i8x16 sat_add_u"
| "exec_simd_iarith2 I8x16SubSatS = v_binop i8x16 from_i8x16 sat_sub_s"
| "exec_simd_iarith2 I8x16SubSatU = v_binop i8x16 from_i8x16 sat_sub_u"
| "exec_simd_iarith2 I16x8AddSatS = v_binop i16x8 from_i16x8 sat_add_s"
| "exec_simd_iarith2 I16x8AddSatU = v_binop i16x8 from_i16x8 sat_add_u"
| "exec_simd_iarith2 I16x8SubSatS = v_binop i16x8 from_i16x8 sat_sub_s"
| "exec_simd_iarith2 I16x8SubSatU = v_binop i16x8 from_i16x8 sat_sub_u"
| "exec_simd_iarith2 I16x8Q15MulrSatS = v_binop i16x8 from_i16x8 q15mulr_sat"
| "exec_simd_iarith2 I8x16NarrowI16x8S = v_narrow i16x8 from_i8x16 (\<lambda>x. ucast (clamp_s (-128) 127 x))"
| "exec_simd_iarith2 I8x16NarrowI16x8U = v_narrow i16x8 from_i8x16 (\<lambda>x. ucast (clamp_s 0 255 x))"
| "exec_simd_iarith2 I16x8NarrowI32x4S = v_narrow i32x4 from_i16x8 (\<lambda>x. ucast (clamp_s (-32768) 32767 x))"
| "exec_simd_iarith2 I16x8NarrowI32x4U = v_narrow i32x4 from_i16x8 (\<lambda>x. ucast (clamp_s 0 65535 x))"
| "exec_simd_iarith2 I16x8ExtendLowI8x16S = v_extend i8x16 from_i16x8 False scast"
| "exec_simd_iarith2 I16x8ExtendHighI8x16S = v_extend i8x16 from_i16x8 True scast"
| "exec_simd_iarith2 I16x8ExtendLowI8x16U = v_extend i8x16 from_i16x8 False ucast"
| "exec_simd_iarith2 I16x8ExtendHighI8x16U = v_extend i8x16 from_i16x8 True ucast"
| "exec_simd_iarith2 I32x4ExtendLowI16x8S = v_extend i16x8 from_i32x4 False scast"
| "exec_simd_iarith2 I32x4ExtendHighI16x8S = v_extend i16x8 from_i32x4 True scast"
| "exec_simd_iarith2 I32x4ExtendLowI16x8U = v_extend i16x8 from_i32x4 False ucast"
| "exec_simd_iarith2 I32x4ExtendHighI16x8U = v_extend i16x8 from_i32x4 True ucast"
| "exec_simd_iarith2 I64x2ExtendLowI32x4S = v_extend i32x4 from_i64x2 False scast"
| "exec_simd_iarith2 I64x2ExtendHighI32x4S = v_extend i32x4 from_i64x2 True scast"
| "exec_simd_iarith2 I64x2ExtendLowI32x4U = v_extend i32x4 from_i64x2 False ucast"
| "exec_simd_iarith2 I64x2ExtendHighI32x4U = v_extend i32x4 from_i64x2 True ucast"
| "exec_simd_iarith2 I16x8ExtAddPairwiseI8x16S = v_extadd i8x16 from_i16x8 (\<lambda>a b. scast a + scast b)"
| "exec_simd_iarith2 I16x8ExtAddPairwiseI8x16U = v_extadd i8x16 from_i16x8 (\<lambda>a b. ucast a + ucast b)"
| "exec_simd_iarith2 I32x4ExtAddPairwiseI16x8S = v_extadd i16x8 from_i32x4 (\<lambda>a b. scast a + scast b)"
| "exec_simd_iarith2 I32x4ExtAddPairwiseI16x8U = v_extadd i16x8 from_i32x4 (\<lambda>a b. ucast a + ucast b)"
| "exec_simd_iarith2 I16x8ExtMulLowI8x16S = v_extmul i8x16 from_i16x8 False (\<lambda>a b. scast a * scast b)"
| "exec_simd_iarith2 I16x8ExtMulHighI8x16S = v_extmul i8x16 from_i16x8 True (\<lambda>a b. scast a * scast b)"
| "exec_simd_iarith2 I16x8ExtMulLowI8x16U = v_extmul i8x16 from_i16x8 False (\<lambda>a b. ucast a * ucast b)"
| "exec_simd_iarith2 I16x8ExtMulHighI8x16U = v_extmul i8x16 from_i16x8 True (\<lambda>a b. ucast a * ucast b)"
| "exec_simd_iarith2 I32x4ExtMulLowI16x8S = v_extmul i16x8 from_i32x4 False (\<lambda>a b. scast a * scast b)"
| "exec_simd_iarith2 I32x4ExtMulHighI16x8S = v_extmul i16x8 from_i32x4 True (\<lambda>a b. scast a * scast b)"
| "exec_simd_iarith2 I32x4ExtMulLowI16x8U = v_extmul i16x8 from_i32x4 False (\<lambda>a b. ucast a * ucast b)"
| "exec_simd_iarith2 I32x4ExtMulHighI16x8U = v_extmul i16x8 from_i32x4 True (\<lambda>a b. ucast a * ucast b)"
| "exec_simd_iarith2 I64x2ExtMulLowI32x4S = v_extmul i32x4 from_i64x2 False (\<lambda>a b. scast a * scast b)"
| "exec_simd_iarith2 I64x2ExtMulHighI32x4S = v_extmul i32x4 from_i64x2 True (\<lambda>a b. scast a * scast b)"
| "exec_simd_iarith2 I64x2ExtMulLowI32x4U = v_extmul i32x4 from_i64x2 False (\<lambda>a b. ucast a * ucast b)"
| "exec_simd_iarith2 I64x2ExtMulHighI32x4U = v_extmul i32x4 from_i64x2 True (\<lambda>a b. ucast a * ucast b)"
| "exec_simd_iarith2 I32x4DotI16x8S = dot_i16x8"

text \<open>\<^verbatim>\<open>nan2\<close> and \<^verbatim>\<open>nan2d\<close>.\<close>

definition nan2 :: "nat \<Rightarrow> 'l::len word \<Rightarrow> 'l word \<Rightarrow> bool" where
  "nan2 mb a b \<longleftrightarrow> f_nan mb a \<or> f_nan mb b"

primrec exec_simd_farith :: "simd_farith \<Rightarrow> ('a execution_scheme, unit) action" where
  "exec_simd_farith F32x4Add = v_binop i32x4 from_i32x4 (\<lambda>a b. canon_f32 (f_add 23 a b) (nan2 23 a b))"
| "exec_simd_farith F32x4Sub = v_binop i32x4 from_i32x4 (\<lambda>a b. canon_f32 (f_sub 23 a b) (nan2 23 a b))"
| "exec_simd_farith F32x4Mul = v_binop i32x4 from_i32x4 (\<lambda>a b. canon_f32 (f_mul 23 a b) (nan2 23 a b))"
| "exec_simd_farith F32x4Div = v_binop i32x4 from_i32x4 (\<lambda>a b. canon_f32 (f_div 23 a b) (nan2 23 a b))"
| "exec_simd_farith F32x4Min = v_binop i32x4 from_i32x4 f32_min"
| "exec_simd_farith F32x4Max = v_binop i32x4 from_i32x4 f32_max"
| "exec_simd_farith F32x4PMin = v_binop i32x4 from_i32x4 (\<lambda>a b. if f_lt 23 b a then b else a)"
| "exec_simd_farith F32x4PMax = v_binop i32x4 from_i32x4 (\<lambda>a b. if f_lt 23 a b then b else a)"
| "exec_simd_farith F32x4Sqrt = v_unop i32x4 from_i32x4 (\<lambda>x. canon_f32 (f_sqrt 23 x) (f_nan 23 x))"
| "exec_simd_farith F32x4Ceil = v_unop i32x4 from_i32x4 (\<lambda>x. canon_f32 (f_integral 23 upwards x) (f_nan 23 x))"
| "exec_simd_farith F32x4Floor = v_unop i32x4 from_i32x4 (\<lambda>x. canon_f32 (f_integral 23 downwards x) (f_nan 23 x))"
| "exec_simd_farith F32x4Trunc = v_unop i32x4 from_i32x4 (\<lambda>x. canon_f32 (f_integral 23 towards_zero x) (f_nan 23 x))"
| "exec_simd_farith F32x4Nearest = v_unop i32x4 from_i32x4 (\<lambda>x. canon_f32 (f_integral 23 ties_even x) (f_nan 23 x))"
| "exec_simd_farith F32x4Abs = v_unop i32x4 from_i32x4 (\<lambda>x. x AND NOT SIGN32)"
| "exec_simd_farith F32x4Neg = v_unop i32x4 from_i32x4 (\<lambda>x. x XOR SIGN32)"
| "exec_simd_farith F64x2Add = v_binop i64x2 from_i64x2 (\<lambda>a b. canon_f64 (f_add 52 a b) (nan2 52 a b))"
| "exec_simd_farith F64x2Sub = v_binop i64x2 from_i64x2 (\<lambda>a b. canon_f64 (f_sub 52 a b) (nan2 52 a b))"
| "exec_simd_farith F64x2Mul = v_binop i64x2 from_i64x2 (\<lambda>a b. canon_f64 (f_mul 52 a b) (nan2 52 a b))"
| "exec_simd_farith F64x2Div = v_binop i64x2 from_i64x2 (\<lambda>a b. canon_f64 (f_div 52 a b) (nan2 52 a b))"
| "exec_simd_farith F64x2Min = v_binop i64x2 from_i64x2 f64_min"
| "exec_simd_farith F64x2Max = v_binop i64x2 from_i64x2 f64_max"
| "exec_simd_farith F64x2PMin = v_binop i64x2 from_i64x2 (\<lambda>a b. if f_lt 52 b a then b else a)"
| "exec_simd_farith F64x2PMax = v_binop i64x2 from_i64x2 (\<lambda>a b. if f_lt 52 a b then b else a)"
| "exec_simd_farith F64x2Sqrt = v_unop i64x2 from_i64x2 (\<lambda>x. canon_f64 (f_sqrt 52 x) (f_nan 52 x))"
| "exec_simd_farith F64x2Ceil = v_unop i64x2 from_i64x2 (\<lambda>x. canon_f64 (f_integral 52 upwards x) (f_nan 52 x))"
| "exec_simd_farith F64x2Floor = v_unop i64x2 from_i64x2 (\<lambda>x. canon_f64 (f_integral 52 downwards x) (f_nan 52 x))"
| "exec_simd_farith F64x2Trunc = v_unop i64x2 from_i64x2 (\<lambda>x. canon_f64 (f_integral 52 towards_zero x) (f_nan 52 x))"
| "exec_simd_farith F64x2Nearest = v_unop i64x2 from_i64x2 (\<lambda>x. canon_f64 (f_integral 52 ties_even x) (f_nan 52 x))"
| "exec_simd_farith F64x2Abs = v_unop i64x2 from_i64x2 (\<lambda>x. x AND NOT SIGN64)"
| "exec_simd_farith F64x2Neg = v_unop i64x2 from_i64x2 (\<lambda>x. x XOR SIGN64)"

primrec exec_simd_fcmp :: "simd_fcmp \<Rightarrow> ('a execution_scheme, unit) action" where
  "exec_simd_fcmp F32x4Eq = v_cmp i32x4 (f_eq 23)"
| "exec_simd_fcmp F32x4Ne = v_cmp i32x4 (\<lambda>a b. \<not> f_eq 23 a b)"
| "exec_simd_fcmp F32x4Lt = v_cmp i32x4 (f_lt 23)"
| "exec_simd_fcmp F32x4Gt = v_cmp i32x4 (\<lambda>a b. f_lt 23 b a)"
| "exec_simd_fcmp F32x4Le = v_cmp i32x4 (f_le 23)"
| "exec_simd_fcmp F32x4Ge = v_cmp i32x4 (\<lambda>a b. f_le 23 b a)"
| "exec_simd_fcmp F64x2Eq = v_cmp i64x2 (f_eq 52)"
| "exec_simd_fcmp F64x2Ne = v_cmp i64x2 (\<lambda>a b. \<not> f_eq 52 a b)"
| "exec_simd_fcmp F64x2Lt = v_cmp i64x2 (f_lt 52)"
| "exec_simd_fcmp F64x2Gt = v_cmp i64x2 (\<lambda>a b. f_lt 52 b a)"
| "exec_simd_fcmp F64x2Le = v_cmp i64x2 (f_le 52)"
| "exec_simd_fcmp F64x2Ge = v_cmp i64x2 (\<lambda>a b. f_le 52 b a)"

definition bit_binop :: "(u128 \<Rightarrow> u128 \<Rightarrow> u128) \<Rightarrow> ('a execution_scheme, unit) action" where
  "bit_binop f = bindc pop_v128 (\<lambda>b. bindc pop_v128 (\<lambda>a. push_v128 (f a b)))"

text \<open>\<^verbatim>\<open>v128.bitselect\<close> and the relaxed lane selections share their expression.\<close>

definition select_bits :: "('a execution_scheme, unit) action" where
  "select_bits = bindc pop_v128 (\<lambda>c. bindc pop_v128 (\<lambda>v2. bindc pop_v128 (\<lambda>v1. push_v128 ((v1 AND c) OR (v2 AND NOT c)))))"

primrec exec_simd_bit :: "simd_bit \<Rightarrow> ('a execution_scheme, unit) action" where
  "exec_simd_bit V128Not = bindc pop_v128 (\<lambda>a. push_v128 (NOT a))"
| "exec_simd_bit V128And = bit_binop (AND)"
| "exec_simd_bit V128Or = bit_binop (OR)"
| "exec_simd_bit V128Xor = bit_binop (XOR)"
| "exec_simd_bit V128AndNot = bit_binop (\<lambda>a b. a AND NOT b)"
| "exec_simd_bit V128Bitselect = select_bits"
| "exec_simd_bit V128AnyTrue = bindc pop_v128 (\<lambda>v. push_wide (I32 (bool_i32 (v \<noteq> 0))))"

definition swizzle :: "('a execution_scheme, unit) action" where
  "swizzle = bindc pop_v128 (\<lambda>w. bindc pop_v128 (\<lambda>v. let sel = i8x16 w; a = i8x16 v in
     push_v128 (from_i8x16 (map (\<lambda>i. let j = unat (sel ! i) in if j < 16 then a ! j else 0) [0..<16]))))"

definition relaxed_dot :: "u8 list \<Rightarrow> u8 list \<Rightarrow> u16 list" where
  "relaxed_dot a b = map (\<lambda>i. scast (a ! (2 * i)) * scast (b ! (2 * i)) + scast (a ! (2 * i + 1)) * scast (b ! (2 * i + 1))) [0..<8]"

text \<open>The two lanes of a vector of doubles, converted into the low half of the result.\<close>

definition low_to_i32x4 :: "(u64 \<Rightarrow> u32) \<Rightarrow> ('a execution_scheme, unit) action" where
  "low_to_i32x4 f = bindc pop_v128 (\<lambda>v. let l = i64x2 v in push_v128 (from_i32x4 [f (l ! 0), f (l ! 1), 0, 0]))"

definition low_to_f64x2 :: "(u32 \<Rightarrow> u64) \<Rightarrow> ('a execution_scheme, unit) action" where
  "low_to_f64x2 f = bindc pop_v128 (\<lambda>v. let l = i32x4 v in push_v128 (from_i64x2 [f (l ! 0), f (l ! 1)]))"

primrec exec_simd_cvt :: "simd_cvt \<Rightarrow> ('a execution_scheme, unit) action" where
  "exec_simd_cvt I32x4TruncSatF32x4S = v_unop i32x4 from_i32x4 i32_trunc_sat_f32_s"
| "exec_simd_cvt I32x4TruncSatF32x4U = v_unop i32x4 from_i32x4 i32_trunc_sat_f32_u"
| "exec_simd_cvt F32x4ConvertI32x4S = v_unop i32x4 from_i32x4 (\<lambda>x. f_of_int 23 (sint x))"
| "exec_simd_cvt F32x4ConvertI32x4U = v_unop i32x4 from_i32x4 (\<lambda>x. f_of_int 23 (uint x))"
| "exec_simd_cvt I32x4TruncSatF64x2SZero = low_to_i32x4 i32_trunc_sat_f64_s"
| "exec_simd_cvt I32x4TruncSatF64x2UZero = low_to_i32x4 i32_trunc_sat_f64_u"
| "exec_simd_cvt F64x2ConvertLowI32x4S = low_to_f64x2 (\<lambda>x. f_of_int 52 (sint x))"
| "exec_simd_cvt F64x2ConvertLowI32x4U = low_to_f64x2 (\<lambda>x. f_of_int 52 (uint x))"
| "exec_simd_cvt F32x4DemoteF64x2Zero = low_to_i32x4 (\<lambda>x. canon_f32 (f_demote x) (f_nan 52 x))"
| "exec_simd_cvt F64x2PromoteLowF32x4 = low_to_f64x2 (\<lambda>x. canon_f64 (f_promote x) (f_nan 23 x))"

definition fma_f32x4 :: "(u32 \<Rightarrow> u32 \<Rightarrow> u32 \<Rightarrow> u32) \<Rightarrow> ('a execution_scheme, unit) action" where
  "fma_f32x4 f = bindc pop_v128 (\<lambda>z. bindc pop_v128 (\<lambda>y. bindc pop_v128 (\<lambda>x. let c = i32x4 z; b = i32x4 y; a = i32x4 x in
     push_v128 (from_i32x4 (map (\<lambda>i. canon_f32 (f (a ! i) (b ! i) (c ! i)) (f_nan 23 (a ! i) \<or> f_nan 23 (b ! i) \<or> f_nan 23 (c ! i))) [0..<4])))))"

definition fma_f64x2 :: "(u64 \<Rightarrow> u64 \<Rightarrow> u64 \<Rightarrow> u64) \<Rightarrow> ('a execution_scheme, unit) action" where
  "fma_f64x2 f = bindc pop_v128 (\<lambda>z. bindc pop_v128 (\<lambda>y. bindc pop_v128 (\<lambda>x. let c = i64x2 z; b = i64x2 y; a = i64x2 x in
     push_v128 (from_i64x2 (map (\<lambda>i. canon_f64 (f (a ! i) (b ! i) (c ! i)) (f_nan 52 (a ! i) \<or> f_nan 52 (b ! i) \<or> f_nan 52 (c ! i))) [0..<2])))))"

primrec exec_simd_relaxed :: "simd_relaxed \<Rightarrow> ('a execution_scheme, unit) action" where
  "exec_simd_relaxed I8x16RelaxedSwizzle = swizzle"
| "exec_simd_relaxed I32x4RelaxedTruncF32x4S = v_unop i32x4 from_i32x4 i32_trunc_sat_f32_s"
| "exec_simd_relaxed I32x4RelaxedTruncF32x4U = v_unop i32x4 from_i32x4 i32_trunc_sat_f32_u"
| "exec_simd_relaxed I32x4RelaxedTruncF64x2SZero = low_to_i32x4 i32_trunc_sat_f64_s"
| "exec_simd_relaxed I32x4RelaxedTruncF64x2UZero = low_to_i32x4 i32_trunc_sat_f64_u"
| "exec_simd_relaxed F32x4RelaxedMadd = fma_f32x4 (f_mul_add 23)"
| "exec_simd_relaxed F32x4RelaxedNmadd = fma_f32x4 (\<lambda>a. f_mul_add 23 (f_neg a))"
| "exec_simd_relaxed F64x2RelaxedMadd = fma_f64x2 (f_mul_add 52)"
| "exec_simd_relaxed F64x2RelaxedNmadd = fma_f64x2 (\<lambda>a. f_mul_add 52 (f_neg a))"
| "exec_simd_relaxed I8x16RelaxedLaneselect = select_bits"
| "exec_simd_relaxed I16x8RelaxedLaneselect = select_bits"
| "exec_simd_relaxed I32x4RelaxedLaneselect = select_bits"
| "exec_simd_relaxed I64x2RelaxedLaneselect = select_bits"
| "exec_simd_relaxed F32x4RelaxedMin = v_binop i32x4 from_i32x4 f32_min"
| "exec_simd_relaxed F32x4RelaxedMax = v_binop i32x4 from_i32x4 f32_max"
| "exec_simd_relaxed F64x2RelaxedMin = v_binop i64x2 from_i64x2 f64_min"
| "exec_simd_relaxed F64x2RelaxedMax = v_binop i64x2 from_i64x2 f64_max"
| "exec_simd_relaxed I16x8RelaxedQ15mulrS = v_binop i16x8 from_i16x8 q15mulr_sat"
| "exec_simd_relaxed I16x8RelaxedDotI8x16I7x16S =
     bindc pop_v128 (\<lambda>b. bindc pop_v128 (\<lambda>a. push_v128 (from_i16x8 (relaxed_dot (i8x16 a) (i8x16 b)))))"
| "exec_simd_relaxed I32x4RelaxedDotI8x16I7x16AddS =
     bindc pop_v128 (\<lambda>c. bindc pop_v128 (\<lambda>b. bindc pop_v128 (\<lambda>a. let dot = relaxed_dot (i8x16 a) (i8x16 b) in
       push_v128 (from_i32x4 (map (\<lambda>j. scast (dot ! (2 * j)) + scast (dot ! (2 * j + 1)) + i32x4 c ! j) [0..<4])))))"

text \<open>A lane index is an immediate, which indexes an array of lanes: out of range it panics.\<close>

definition set_lane :: "'l list \<Rightarrow> nat \<Rightarrow> 'l \<Rightarrow> 'l list result" where
  "set_lane a l x = (if l < length a then Inr (a[l := x]) else Inl (Panic ''index out of bounds''))"

fun index_all :: "'l list \<Rightarrow> nat list \<Rightarrow> 'l list result" where
  "index_all a [] = Inr []"
| "index_all a (i # js) = bindr (index_at a i) (\<lambda>x. bindr (index_all a js) (\<lambda>xs. Inr (x # xs)))"

definition extract_lane :: "(u128 \<Rightarrow> 'l result) \<Rightarrow> ('l \<Rightarrow> val) \<Rightarrow> ('a execution_scheme, unit) action" where
  "extract_lane f wrap = bindc pop_v128 (\<lambda>v. bindc (lift_res (f v)) (\<lambda>x. push_wide (wrap x)))"

definition replace_lane :: "(u128 \<Rightarrow> 'l list) \<Rightarrow> ('l list \<Rightarrow> u128) \<Rightarrow> nat \<Rightarrow> 'l \<Rightarrow> ('a execution_scheme, unit) action" where
  "replace_lane split join l x = bindc pop_v128 (\<lambda>v. bindc (lift_res (set_lane (split v) l x)) (\<lambda>a. push_v128 (join a)))"

primrec exec_simd_lane :: "simd_lane \<Rightarrow> ('a execution_scheme, unit) action" where
  "exec_simd_lane (V128Const bits) = push_v128 bits"
| "exec_simd_lane (I8x16Shuffle idx) = bindc pop_v128 (\<lambda>w. bindc pop_v128 (\<lambda>v.
     bindc (lift_res (index_all (i8x16 v @ i8x16 w) idx)) (\<lambda>r. push_v128 (from_i8x16 r))))"
| "exec_simd_lane I8x16Swizzle = swizzle"
| "exec_simd_lane I8x16Splat = bindc pop_i32 (\<lambda>x. push_v128 (from_i8x16 (replicate 16 (ucast x))))"
| "exec_simd_lane I16x8Splat = bindc pop_i32 (\<lambda>x. push_v128 (from_i16x8 (replicate 8 (ucast x))))"
| "exec_simd_lane I32x4Splat = bindc pop_i32 (\<lambda>x. push_v128 (from_i32x4 (replicate 4 x)))"
| "exec_simd_lane I64x2Splat = bindc pop_i64 (\<lambda>x. push_v128 (from_i64x2 (replicate 2 x)))"
| "exec_simd_lane F32x4Splat = bindc pop_f32_bits (\<lambda>x. push_v128 (from_i32x4 (replicate 4 x)))"
| "exec_simd_lane F64x2Splat = bindc pop_f64_bits (\<lambda>x. push_v128 (from_i64x2 (replicate 2 x)))"
| "exec_simd_lane (I8x16ExtractLaneS l) = extract_lane (\<lambda>v. index_at (i8x16 v) l) (\<lambda>x. I32 (scast x))"
| "exec_simd_lane (I8x16ExtractLaneU l) = extract_lane (\<lambda>v. index_at (i8x16 v) l) (\<lambda>x. I32 (ucast x))"
| "exec_simd_lane (I16x8ExtractLaneS l) = extract_lane (\<lambda>v. index_at (i16x8 v) l) (\<lambda>x. I32 (scast x))"
| "exec_simd_lane (I16x8ExtractLaneU l) = extract_lane (\<lambda>v. index_at (i16x8 v) l) (\<lambda>x. I32 (ucast x))"
| "exec_simd_lane (I32x4ExtractLane l) = extract_lane (\<lambda>v. index_at (i32x4 v) l) I32"
| "exec_simd_lane (I64x2ExtractLane l) = extract_lane (\<lambda>v. index_at (i64x2 v) l) I64"
| "exec_simd_lane (F32x4ExtractLane l) = extract_lane (\<lambda>v. index_at (i32x4 v) l) F32"
| "exec_simd_lane (F64x2ExtractLane l) = extract_lane (\<lambda>v. index_at (i64x2 v) l) F64"
| "exec_simd_lane (I8x16ReplaceLane l) = bindc pop_i32 (\<lambda>x. replace_lane i8x16 from_i8x16 l (ucast x))"
| "exec_simd_lane (I16x8ReplaceLane l) = bindc pop_i32 (\<lambda>x. replace_lane i16x8 from_i16x8 l (ucast x))"
| "exec_simd_lane (I32x4ReplaceLane l) = bindc pop_i32 (replace_lane i32x4 from_i32x4 l)"
| "exec_simd_lane (I64x2ReplaceLane l) = bindc pop_i64 (replace_lane i64x2 from_i64x2 l)"
| "exec_simd_lane (F32x4ReplaceLane l) = bindc pop_f32_bits (replace_lane i32x4 from_i32x4 l)"
| "exec_simd_lane (F64x2ReplaceLane l) = bindc pop_f64_bits (replace_lane i64x2 from_i64x2 l)"

section \<open>Memory\<close>

definition load_lane :: "nat \<Rightarrow> (u128 \<Rightarrow> 'l::len word list) \<Rightarrow> ('l word list \<Rightarrow> u128) \<Rightarrow> code \<Rightarrow> entity_handle \<Rightarrow> mem_arg \<Rightarrow> nat \<Rightarrow> (machine, unit) action" where
  "load_lane n split join c inst m l = bindc pop_v128 (\<lambda>v. bindc (load_n n c inst m) (\<lambda>b.
     bindc (lift_res (set_lane (split v) l (le_word b))) (\<lambda>a. push_v128 (join a))))"

definition store_lane :: "nat \<Rightarrow> (u128 \<Rightarrow> 'l::len word list) \<Rightarrow> code \<Rightarrow> entity_handle \<Rightarrow> mem_arg \<Rightarrow> nat \<Rightarrow> (machine, unit) action" where
  "store_lane n split c inst m l = bindc pop_v128 (\<lambda>v. bindc (lift_res (index_at (split v) l)) (\<lambda>x. store_n c inst m (le_bytes n x)))"

primrec exec_simd_mem :: "simd_mem \<Rightarrow> mem_arg \<Rightarrow> code \<Rightarrow> entity_handle \<Rightarrow> (machine, unit) action" where
  "exec_simd_mem V128Load m c inst = bindc (load_n 16 c inst m) (\<lambda>b. push_v128 (le_word b))"
| "exec_simd_mem V128Store m c inst = bindc pop_v128 (\<lambda>v. store_n c inst m (le_bytes 16 v))"
| "exec_simd_mem V128Load8x8S m c inst = bindc (load_n 8 c inst m) (\<lambda>b. push_v128 (from_i16x8 (map (\<lambda>i. scast (b ! i)) [0..<8])))"
| "exec_simd_mem V128Load8x8U m c inst = bindc (load_n 8 c inst m) (\<lambda>b. push_v128 (from_i16x8 (map (\<lambda>i. ucast (b ! i)) [0..<8])))"
| "exec_simd_mem V128Load16x4S m c inst = bindc (load_n 8 c inst m) (\<lambda>b.
     push_v128 (from_i32x4 (map (\<lambda>i. scast (le_word [b ! (2 * i), b ! (2 * i + 1)] :: u16)) [0..<4])))"
| "exec_simd_mem V128Load16x4U m c inst = bindc (load_n 8 c inst m) (\<lambda>b.
     push_v128 (from_i32x4 (map (\<lambda>i. ucast (le_word [b ! (2 * i), b ! (2 * i + 1)] :: u16)) [0..<4])))"
| "exec_simd_mem V128Load32x2S m c inst = bindc (load_n 8 c inst m) (\<lambda>b.
     push_v128 (from_i64x2 (map (\<lambda>i. scast (le_word [b ! (4 * i), b ! (4 * i + 1), b ! (4 * i + 2), b ! (4 * i + 3)] :: u32)) [0..<2])))"
| "exec_simd_mem V128Load32x2U m c inst = bindc (load_n 8 c inst m) (\<lambda>b.
     push_v128 (from_i64x2 (map (\<lambda>i. ucast (le_word [b ! (4 * i), b ! (4 * i + 1), b ! (4 * i + 2), b ! (4 * i + 3)] :: u32)) [0..<2])))"
| "exec_simd_mem V128Load8Splat m c inst = bindc (load_n 1 c inst m) (\<lambda>b. push_v128 (from_i8x16 (replicate 16 (b ! 0))))"
| "exec_simd_mem V128Load16Splat m c inst = bindc (load_n 2 c inst m) (\<lambda>b. push_v128 (from_i16x8 (replicate 8 (le_word b))))"
| "exec_simd_mem V128Load32Splat m c inst = bindc (load_n 4 c inst m) (\<lambda>b. push_v128 (from_i32x4 (replicate 4 (le_word b))))"
| "exec_simd_mem V128Load64Splat m c inst = bindc (load_n 8 c inst m) (\<lambda>b. push_v128 (from_i64x2 (replicate 2 (le_word b))))"
| "exec_simd_mem V128Load32Zero m c inst = bindc (load_n 4 c inst m) (\<lambda>b. push_v128 (ucast (le_word b :: u32)))"
| "exec_simd_mem V128Load64Zero m c inst = bindc (load_n 8 c inst m) (\<lambda>b. push_v128 (ucast (le_word b :: u64)))"

primrec exec_simd_mem_lane :: "simd_mem_lane \<Rightarrow> mem_arg \<Rightarrow> nat \<Rightarrow> code \<Rightarrow> entity_handle \<Rightarrow> (machine, unit) action" where
  "exec_simd_mem_lane V128Load8Lane m l c inst = load_lane 1 i8x16 from_i8x16 c inst m l"
| "exec_simd_mem_lane V128Load16Lane m l c inst = load_lane 2 i16x8 from_i16x8 c inst m l"
| "exec_simd_mem_lane V128Load32Lane m l c inst = load_lane 4 i32x4 from_i32x4 c inst m l"
| "exec_simd_mem_lane V128Load64Lane m l c inst = load_lane 8 i64x2 from_i64x2 c inst m l"
| "exec_simd_mem_lane V128Store8Lane m l c inst = store_lane 1 i8x16 c inst m l"
| "exec_simd_mem_lane V128Store16Lane m l c inst = store_lane 2 i16x8 c inst m l"
| "exec_simd_mem_lane V128Store32Lane m l c inst = store_lane 4 i32x4 c inst m l"
| "exec_simd_mem_lane V128Store64Lane m l c inst = store_lane 8 i64x2 c inst m l"

definition exec_simd :: "code \<Rightarrow> simd_op \<Rightarrow> entity_handle \<Rightarrow> (machine, unit) action" where
  "exec_simd c s inst = (case s of
     SimdMem op m \<Rightarrow> exec_simd_mem op m c inst
   | SimdMemLane op m l \<Rightarrow> exec_simd_mem_lane op m l c inst
   | SimdLane op \<Rightarrow> exec_simd_lane op
   | SimdBit op \<Rightarrow> exec_simd_bit op
   | SimdIarith op \<Rightarrow> exec_simd_iarith op
   | SimdIcmp op \<Rightarrow> exec_simd_icmp op
   | SimdIarith2 op \<Rightarrow> exec_simd_iarith2 op
   | SimdFarith op \<Rightarrow> exec_simd_farith op
   | SimdFcmp op \<Rightarrow> exec_simd_fcmp op
   | SimdCvt op \<Rightarrow> exec_simd_cvt op
   | SimdRelaxed op \<Rightarrow> exec_simd_relaxed op)"

end
