(* ===== verification/Simd_Lanes.thy ===== *)
theory Simd_Lanes
  imports Simd
begin

text \<open>
  Lanes as slices of the 128 bits. The locale \<open>lane_shape\<close> is what an interpretation of a vector as lanes promises: splitting gives the slices, joining
  puts them back. It is interpreted on the four shapes of \<^verbatim>\<open>src/exec/simd/lanes.rs\<close>, and what the lanewise combinators leave on the stack is proved
  once inside it.
\<close>

definition vlane :: "nat \<Rightarrow> u128 \<Rightarrow> 'l::len word" where
  "vlane i v = ucast (drop_bit (i * LENGTH('l)) v)"

section \<open>Bytes\<close>

lemma nth_le_bytes: "k < n \<Longrightarrow> le_bytes n w ! k = ucast (drop_bit (8 * k) w)"
proof (induction n arbitrary: w k)
  case (Suc n)
  then show ?case by (cases k) (simp_all add: add.commute)
qed simp

lemma le_bytes_ucast:
  fixes x :: "'a::len word"
  assumes "8 * n \<le> LENGTH('l::len)"
  shows "le_bytes n (ucast x :: 'l word) = le_bytes n x"
proof (rule nth_equalityI)
  fix k assume "k < length (le_bytes n (ucast x :: 'l word))"
  then have k: "k < n" by simp
  have "ucast (drop_bit (8 * k) (ucast x :: 'l word)) = (ucast (drop_bit (8 * k) x) :: u8)"
    by (rule bit_word_eqI) (use k assms in \<open>auto simp: bit_ucast_iff bit_drop_bit_eq dest: bit_imp_le_length\<close>)
  with k show "le_bytes n (ucast x :: 'l word) ! k = le_bytes n x ! k" by (simp add: nth_le_bytes)
qed simp

lemma chunk_le_bytes:
  assumes "i * n + n \<le> 16"
  shows "chunk n (le_bytes 16 (v :: u128)) i = le_bytes n (drop_bit (i * (8 * n)) v)"
  by (rule nth_equalityI) (use assms in \<open>auto simp: chunk_def nth_le_bytes algebra_simps\<close>)

lemma le_word_chunk:
  assumes "i * n + n \<le> 16" and "LENGTH('l::len) = 8 * n"
  shows "le_word (chunk n (le_bytes 16 v) i) = (vlane i v :: 'l word)"
  using le_bytes_ucast [where ?'l = 'l, of n "drop_bit (i * (8 * n)) v"] le_word_le_bytes [of n "vlane i v :: 'l word"] assms
  by (simp add: chunk_le_bytes vlane_def)

section \<open>Joining\<close>

lemma nth_concat_uniform:
  assumes "\<forall>x \<in> set ls. length x = w" and "i < length ls" and "k < w"
  shows "concat ls ! (i * w + k) = ls ! i ! k"
  using assms
proof (induction ls arbitrary: i)
  case (Cons x ls)
  then show ?case by (cases i) (auto simp: nth_append)
qed simp

lemma fill_bytes:
  "p + m \<le> length b \<Longrightarrow> foldl (\<lambda>b k. b[p + k := f k]) b [0..<m] = take p b @ map f [0..<m] @ drop (p + m) b"
proof (induction m)
  case (Suc m)
  then have "drop (p + m) b = b ! (p + m) # drop (Suc (p + m)) b" by (simp add: Cons_nth_drop_Suc)
  with Suc show ?case by (simp add: list_update_append)
qed simp

text \<open>The loops fill a zeroed body lane by lane; a lane that is not filled stays zero.\<close>

lemma fill_lanes:
  assumes "j * w \<le> 16"
  shows "foldl (\<lambda>b i. if p i then foldl (\<lambda>b k. b[i * w + k := g i k]) b [0..<w] else b) (replicate 16 0) [0..<j] =
    concat (map (\<lambda>i. map (\<lambda>k. if p i then g i k else (0 :: u8)) [0..<w]) [0..<j]) @ replicate (16 - j * w) 0"
  using assms
proof (induction j)
  case (Suc j)
  let ?c = "concat (map (\<lambda>i. map (\<lambda>k. if p i then g i k else (0 :: u8)) [0..<w]) [0..<j])"
  have len: "length ?c = j * w" by (simp add: length_concat sum_list_triv o_def)
  have le: "j * w + w \<le> 16" using Suc.prems by simp
  have zeros: "replicate (16 - j * w) (0 :: u8) = map (\<lambda>k. 0) [0..<w] @ replicate (16 - Suc j * w) 0"
    using le by (simp add: map_replicate_trivial replicate_add [symmetric])
  have "foldl (\<lambda>b k. b[j * w + k := g j k]) (?c @ replicate (16 - j * w) 0) [0..<w] = ?c @ map (g j) [0..<w] @ replicate (16 - Suc j * w) 0"
    using le len by (subst fill_bytes) simp_all
  with Suc zeros show ?case by simp
qed simp

lemma pack_concat:
  assumes "length ls * w = 16" and "\<forall>x \<in> set ls. length x = w"
  shows "pack w ls = le_word (concat ls)"
proof -
  have "map (\<lambda>i. map (\<lambda>k. ls ! i ! k) [0..<w]) [0..<length ls] = ls"
    by (rule nth_equalityI) (use assms(2) in \<open>auto intro!: nth_equalityI\<close>)
  with fill_lanes [of "length ls" w "\<lambda>_. True" "\<lambda>i k. ls ! i ! k"] assms(1) show ?thesis by (simp add: pack_def)
qed

text \<open>The lanes of a word made of sixteen bytes.\<close>

lemma vlane_le_word:
  assumes "length bs = 16" and "i * n + n \<le> 16" and "LENGTH('l::len) = 8 * n"
  shows "vlane i (le_word bs) = (le_word (chunk n bs i) :: 'l word)"
  using le_word_chunk [OF assms(2,3), of "le_word bs"] le_bytes_le_word [of bs, where ?'a = 128] assms(1) by simp

lemma chunk_concat:
  assumes "\<forall>x \<in> set ls. length x = n" and "i < length ls"
  shows "chunk n (concat ls) i = ls ! i"
  by (rule nth_equalityI) (use assms in \<open>auto simp: chunk_def nth_concat_uniform\<close>)

lemma vlane_concat:
  assumes "length ls * n = 16" and "\<forall>x \<in> set ls. length x = n" and "i < length ls" and "LENGTH('l::len) = 8 * n"
  shows "vlane i (le_word (concat ls)) = (le_word (ls ! i) :: 'l word)"
proof -
  have "length (concat ls) = 16" using assms(1,2) by (simp add: length_concat sum_list_triv cong: map_cong)
  moreover have "Suc i * n \<le> length ls * n" using assms(3) by (intro mult_le_mono1) simp
  ultimately show ?thesis using vlane_le_word [of "concat ls" i n, OF _ _ assms(4)] chunk_concat [OF assms(2,3)] assms(1) by simp
qed

lemma vlane_pack:
  assumes "length l * n = 16" and "i < length l" and "LENGTH('l::len) = 8 * n"
  shows "vlane i (pack n (map (le_bytes n) l)) = (l ! i :: 'l word)"
  using pack_concat [of "map (le_bytes n) l" n] vlane_concat [of "map (le_bytes n) l" n i, OF _ _ _ assms(3)] assms by simp

section \<open>Shapes\<close>

locale lane_shape =
  fixes split :: "u128 \<Rightarrow> 'l::len word list" and join :: "'l word list \<Rightarrow> u128" and n :: nat
  assumes bits: "n * LENGTH('l) = 128" and octets: "8 dvd LENGTH('l)"
    and length_split [simp]: "length (split v) = n"
    and nth_split [simp]: "i < n \<Longrightarrow> split v ! i = vlane i v"
    and vlane_join [simp]: "length l = n \<Longrightarrow> i < n \<Longrightarrow> vlane i (join l) = l ! i"
begin

lemma split_join: "length l = n \<Longrightarrow> split (join l) = l"
  by (rule nth_equalityI) simp_all

lemma lanes_determine: "(\<And>i. i < n \<Longrightarrow> vlane i v = (vlane i w :: 'l word)) \<Longrightarrow> v = w"
proof (rule bit_word_eqI)
  fix k assume eq: "\<And>i. i < n \<Longrightarrow> vlane i v = (vlane i w :: 'l word)" and k: "k < LENGTH(128)"
  let ?L = "LENGTH('l)"
  have i: "k div ?L < n" using k bits by (simp add: div_less_iff_less_mult mult.commute)
  have "bit (vlane (k div ?L) x :: 'l word) (k mod ?L) = bit x k" for x
    by (simp add: vlane_def bit_ucast_iff bit_drop_bit_eq)
  with eq [OF i] show "bit v k = bit w k" by metis
qed

lemma join_split: "join (split v) = v"
  by (rule lanes_determine) simp

end

interpretation s8: lane_shape i8x16 from_i8x16 16
proof unfold_locales
  fix v :: u128 and l :: "u8 list" and i :: nat
  show "i < 16 \<Longrightarrow> i8x16 v ! i = vlane i v" by (simp add: i8x16_def nth_le_bytes vlane_def mult.commute)
  show "vlane i (from_i8x16 l) = l ! i" if "length l = 16" "i < 16"
    using vlane_le_word [of l i 1, where ?'l = 8] that by (simp add: from_i8x16_def chunk_def)
qed (simp_all add: i8x16_def)

interpretation s16: lane_shape i16x8 from_i16x8 8
proof unfold_locales
  fix v :: u128 and l :: "u16 list" and i :: nat
  show "i < 8 \<Longrightarrow> i16x8 v ! i = vlane i v" using le_word_chunk [of i 2 v, where ?'l = 16] by (simp add: i16x8_def Let_def)
  show "length l = 8 \<Longrightarrow> i < 8 \<Longrightarrow> vlane i (from_i16x8 l) = l ! i" by (simp add: from_i16x8_def vlane_pack)
qed (simp_all add: i16x8_def Let_def)

interpretation s32: lane_shape i32x4 from_i32x4 4
proof unfold_locales
  fix v :: u128 and l :: "u32 list" and i :: nat
  show "i < 4 \<Longrightarrow> i32x4 v ! i = vlane i v" using le_word_chunk [of i 4 v, where ?'l = 32] by (simp add: i32x4_def Let_def)
  show "length l = 4 \<Longrightarrow> i < 4 \<Longrightarrow> vlane i (from_i32x4 l) = l ! i" by (simp add: from_i32x4_def vlane_pack)
qed (simp_all add: i32x4_def Let_def)

interpretation s64: lane_shape i64x2 from_i64x2 2
proof unfold_locales
  fix v :: u128 and l :: "u64 list" and i :: nat
  show "i < 2 \<Longrightarrow> i64x2 v ! i = vlane i v" using le_word_chunk [of i 8 v, where ?'l = 64] by (simp add: i64x2_def Let_def)
  show "length l = 2 \<Longrightarrow> i < 2 \<Longrightarrow> vlane i (from_i64x2 l) = l ! i" by (simp add: from_i64x2_def vlane_pack)
qed (simp_all add: i64x2_def Let_def)

end
