(* ===== verification/Simd_Exact.thy ===== *)
theory Simd_Exact
  imports Simd_Lanes
begin

text \<open>
  The integer vector instructions compute, lane by lane, the operators of the WebAssembly specification on mathematical integers: the reference is a
  table of the operators on the unsigned reading of the lanes, with \<open>signed_of\<close> as their two's-complement reading.
\<close>

section \<open>The stack\<close>

abbreviation vcell :: "u128 \<Rightarrow> cell" where
  "vcell v \<equiv> le_bytes 16 v"

definition wcell :: "u32 \<Rightarrow> cell" where
  "wcell x = le_bytes 4 x @ replicate 12 0"

lemma cell_v128_vcell [simp]: "cell_v128 (vcell v) = v"
  by (simp add: cell_v128_def cell_lo_def)

lemma cell_i32_wcell [simp]: "cell_i32 (wcell x) = x"
  by (simp add: cell_i32_def cell_lo_def wcell_def)

lemma encode_wide_simps [simp]: "encode_wide (V128 v) = Inr (vcell v)" "encode_wide (I32 x) = Inr (wcell x)"
  by (simp_all add: encode_wide_def slot_for_wide_def slot_for_val_def write_slot_def write_scalar_def unwrap_v128_def unwrap_i32_def
      write_le_def WIDE_SLOT_BYTES_def slice_from_def write_at_def wcell_def del: le_bytes.simps)

lemma push_wide_run [simp]:
  "push_wide (V128 v) m = (Inr (), pushed [vcell v] m)" "push_wide (I32 x) m = (Inr (), pushed [wcell x] m)"
  by (simp_all add: push_wide_def of_val_def pushed_def bindc_def del: le_bytes.simps)

lemma push_v128_run [simp]: "push_v128 v m = (Inr (), pushed [vcell v] m)"
  by (simp add: push_v128_def del: le_bytes.simps)

text \<open>A stack an instruction can work on: values and shadow in step, and above the floor of the current frame.\<close>

definition ready :: "'a execution_scheme \<Rightarrow> bool" where
  "ready m \<longleftrightarrow> length (ex_values m) = length (ex_shadow m) \<and> ex_frames m \<noteq> [] \<and> fr_operand_base (last (ex_frames m)) \<le> length (ex_values m)"

lemma pushed_two: "pushed [a, b] m = pushed [b] (pushed [a] m)" "pushed [a, b, c] m = pushed [c] (pushed [b] (pushed [a] m))"
  by (simp_all add: pushed_def)

lemma ready_pushed [simp]: "ready m \<Longrightarrow> ready (pushed cs m)"
  by (simp add: ready_def pushed_def)

lemma pop_scalar_ready [simp]:
  assumes "ready m"
  shows "pop_scalar (pushed [x] m) = (Inr x, m)"
proof -
  have len: "length (ex_values m) = length (ex_shadow m)" using assms by (simp add: ready_def)
  have "ensure_scalar_operands 1 (pushed [x] m) = Inr (length (ex_values m))"
    using assms by (auto simp: ready_def pushed_def ensure_scalar_operands_Inr ensure_operands_Inr)
  with len show ?thesis by (simp add: pop_scalar_def ask_def bindc_def truncate_to_def) (simp add: pushed_def nth_append)
qed

lemma pops_ready [simp]:
  assumes "ready m"
  shows "pop_v128 (pushed [vcell v] m) = (Inr v, m)" "pop_i32 (pushed [wcell x] m) = (Inr x, m)"
  using assms by (simp_all add: pop_v128_def pop_i32_def bindc_def del: le_bytes.simps)

section \<open>The reference\<close>

text \<open>What an instruction does to the lanes of its operands. \<open>Vec1 N M f\<close> and \<open>Vec2 N M f\<close> read lanes of \<open>N\<close> bits and give lane \<open>i\<close> of \<open>M\<close> bits;
  \<open>Shift\<close> takes a scalar count; \<open>Test\<close> gives a scalar.\<close>

datatype lane_spec =
    Vec1 nat nat "(nat \<Rightarrow> int) \<Rightarrow> nat \<Rightarrow> int"
  | Vec2 nat nat "(nat \<Rightarrow> int) \<Rightarrow> (nat \<Rightarrow> int) \<Rightarrow> nat \<Rightarrow> int"
  | Shift nat "int \<Rightarrow> int \<Rightarrow> int"
  | Test nat "(nat \<Rightarrow> int) \<Rightarrow> int"

text \<open>Lane \<open>i\<close> of \<open>N\<close> bits, as an unsigned integer.\<close>

definition ilane :: "nat \<Rightarrow> u128 \<Rightarrow> nat \<Rightarrow> int" where
  "ilane N v i = (uint v div 2 ^ (i * N)) mod 2 ^ N"

definition computes :: "lane_spec \<Rightarrow> ('a execution_scheme, unit) action \<Rightarrow> bool" where
  "computes sp act \<longleftrightarrow> (\<forall>m. ready m \<longrightarrow> (case sp of
     Vec1 N M f \<Rightarrow> (\<forall>a. \<exists>r. act (pushed [vcell a] m) = (Inr (), pushed [vcell r] m) \<and> (\<forall>i < 128 div M. ilane M r i = f (ilane N a) i))
   | Vec2 N M f \<Rightarrow> (\<forall>a b. \<exists>r. act (pushed [vcell a, vcell b] m) = (Inr (), pushed [vcell r] m) \<and>
       (\<forall>i < 128 div M. ilane M r i = f (ilane N a) (ilane N b) i))
   | Shift N f \<Rightarrow> (\<forall>a k. \<exists>r. act (pushed [vcell a, wcell k] m) = (Inr (), pushed [vcell r] m) \<and>
       (\<forall>i < 128 div N. ilane N r i = f (ilane N a i) (uint k)))
   | Test N f \<Rightarrow> (\<forall>a. act (pushed [vcell a] m) = (Inr (), pushed [wcell (word_of_int (f (ilane N a)))] m))))"

text \<open>The operators of the specification.\<close>

definition sat_s :: "nat \<Rightarrow> int \<Rightarrow> int" where
  "sat_s N x = (if x < - (2 ^ (N - 1)) then - (2 ^ (N - 1)) else if 2 ^ (N - 1) - 1 < x then 2 ^ (N - 1) - 1 else x)"

definition sat_u :: "nat \<Rightarrow> int \<Rightarrow> int" where
  "sat_u N x = (if x < 0 then 0 else if 2 ^ N - 1 < x then 2 ^ N - 1 else x)"

definition each1 :: "(int \<Rightarrow> int) \<Rightarrow> (nat \<Rightarrow> int) \<Rightarrow> nat \<Rightarrow> int" where
  "each1 f a i = f (a i)"

definition each2 :: "(int \<Rightarrow> int \<Rightarrow> int) \<Rightarrow> (nat \<Rightarrow> int) \<Rightarrow> (nat \<Rightarrow> int) \<Rightarrow> nat \<Rightarrow> int" where
  "each2 f a b i = f (a i) (b i)"

definition i_add :: "nat \<Rightarrow> int \<Rightarrow> int \<Rightarrow> int" where "i_add N i j = (i + j) mod 2 ^ N"
definition i_sub :: "nat \<Rightarrow> int \<Rightarrow> int \<Rightarrow> int" where "i_sub N i j = (i - j) mod 2 ^ N"
definition i_mul :: "nat \<Rightarrow> int \<Rightarrow> int \<Rightarrow> int" where "i_mul N i j = (i * j) mod 2 ^ N"
definition i_neg :: "nat \<Rightarrow> int \<Rightarrow> int" where "i_neg N i = (2 ^ N - i) mod 2 ^ N"
definition i_abs :: "nat \<Rightarrow> int \<Rightarrow> int" where "i_abs N i = (if 0 \<le> signed_of N i then i else i_neg N i)"
definition i_popcnt :: "nat \<Rightarrow> int \<Rightarrow> int" where "i_popcnt N i = int (card {k. k < N \<and> bit i k})"
definition i_min_u :: "int \<Rightarrow> int \<Rightarrow> int" where "i_min_u i j = (if i < j then i else j)"
definition i_max_u :: "int \<Rightarrow> int \<Rightarrow> int" where "i_max_u i j = (if j < i then i else j)"
definition i_min_s :: "nat \<Rightarrow> int \<Rightarrow> int \<Rightarrow> int" where "i_min_s N i j = (if signed_of N i < signed_of N j then i else j)"
definition i_max_s :: "nat \<Rightarrow> int \<Rightarrow> int \<Rightarrow> int" where "i_max_s N i j = (if signed_of N j < signed_of N i then i else j)"
definition i_avgr_u :: "int \<Rightarrow> int \<Rightarrow> int" where "i_avgr_u i j = (i + j + 1) div 2"
definition i_add_sat_s :: "nat \<Rightarrow> int \<Rightarrow> int \<Rightarrow> int" where "i_add_sat_s N i j = sat_s N (signed_of N i + signed_of N j) mod 2 ^ N"
definition i_sub_sat_s :: "nat \<Rightarrow> int \<Rightarrow> int \<Rightarrow> int" where "i_sub_sat_s N i j = sat_s N (signed_of N i - signed_of N j) mod 2 ^ N"
definition i_add_sat_u :: "nat \<Rightarrow> int \<Rightarrow> int \<Rightarrow> int" where "i_add_sat_u N i j = sat_u N (i + j)"
definition i_sub_sat_u :: "nat \<Rightarrow> int \<Rightarrow> int \<Rightarrow> int" where "i_sub_sat_u N i j = sat_u N (i - j)"
definition i_q15mulr :: "int \<Rightarrow> int \<Rightarrow> int" where
  "i_q15mulr i j = sat_s 16 ((signed_of 16 i * signed_of 16 j + 2 ^ 14) div 2 ^ 15) mod 2 ^ 16"
definition i_cmp :: "nat \<Rightarrow> cmp_kind \<Rightarrow> int \<Rightarrow> int \<Rightarrow> int" where "i_cmp N c i j = (if wasm_rel N c i j then 2 ^ N - 1 else 0)"
definition i_shl :: "nat \<Rightarrow> int \<Rightarrow> int \<Rightarrow> int" where "i_shl N i k = (i * 2 ^ nat (k mod int N)) mod 2 ^ N"
definition i_shr_u :: "nat \<Rightarrow> int \<Rightarrow> int \<Rightarrow> int" where "i_shr_u N i k = i div 2 ^ nat (k mod int N)"
definition i_shr_s :: "nat \<Rightarrow> int \<Rightarrow> int \<Rightarrow> int" where "i_shr_s N i k = (signed_of N i div 2 ^ nat (k mod int N)) mod 2 ^ N"

definition i_all_true :: "nat \<Rightarrow> (nat \<Rightarrow> int) \<Rightarrow> int" where "i_all_true n a = (if \<forall>i < n. a i \<noteq> 0 then 1 else 0)"
definition i_bitmask :: "nat \<Rightarrow> nat \<Rightarrow> (nat \<Rightarrow> int) \<Rightarrow> int" where
  "i_bitmask N n a = (\<Sum>i < n. if signed_of N (a i) < 0 then 2 ^ i else 0)"
definition i_extend_s :: "nat \<Rightarrow> nat \<Rightarrow> int \<Rightarrow> int" where "i_extend_s N M i = signed_of N i mod 2 ^ M"
definition i_narrow_s :: "nat \<Rightarrow> nat \<Rightarrow> int \<Rightarrow> int" where "i_narrow_s N M i = sat_s M (signed_of N i) mod 2 ^ M"
definition i_narrow_u :: "nat \<Rightarrow> nat \<Rightarrow> int \<Rightarrow> int" where "i_narrow_u N M i = sat_u M (signed_of N i)"

text \<open>One half of the lanes, adjacent pairs of lanes, the lanes of two vectors one after the other.\<close>

definition half1 :: "nat \<Rightarrow> (int \<Rightarrow> int) \<Rightarrow> (nat \<Rightarrow> int) \<Rightarrow> nat \<Rightarrow> int" where
  "half1 off g a i = g (a (off + i))"

definition half2 :: "nat \<Rightarrow> (int \<Rightarrow> int \<Rightarrow> int) \<Rightarrow> (nat \<Rightarrow> int) \<Rightarrow> (nat \<Rightarrow> int) \<Rightarrow> nat \<Rightarrow> int" where
  "half2 off g a b i = g (a (off + i)) (b (off + i))"

definition pairs :: "(int \<Rightarrow> int \<Rightarrow> int) \<Rightarrow> (nat \<Rightarrow> int) \<Rightarrow> nat \<Rightarrow> int" where
  "pairs g a i = g (a (2 * i)) (a (2 * i + 1))"

definition joined :: "nat \<Rightarrow> (int \<Rightarrow> int) \<Rightarrow> (nat \<Rightarrow> int) \<Rightarrow> (nat \<Rightarrow> int) \<Rightarrow> nat \<Rightarrow> int" where
  "joined h g a b i = (if i < h then g (a i) else g (b (i - h)))"

definition i_dot :: "(nat \<Rightarrow> int) \<Rightarrow> (nat \<Rightarrow> int) \<Rightarrow> nat \<Rightarrow> int" where
  "i_dot a b i = (signed_of 16 (a (2 * i)) * signed_of 16 (b (2 * i)) +
     signed_of 16 (a (2 * i + 1)) * signed_of 16 (b (2 * i + 1))) mod 2 ^ 32"

definition mul_ext_s :: "nat \<Rightarrow> nat \<Rightarrow> int \<Rightarrow> int \<Rightarrow> int" where "mul_ext_s N M i j = (signed_of N i * signed_of N j) mod 2 ^ M"
definition add_ext_s :: "nat \<Rightarrow> nat \<Rightarrow> int \<Rightarrow> int \<Rightarrow> int" where "add_ext_s N M i j = (signed_of N i + signed_of N j) mod 2 ^ M"

section \<open>Lanes as integers\<close>

lemma uint_vlane: "uint (vlane i v :: 'l::len word) = ilane LENGTH('l) v i"
proof -
  have "uint (drop_bit k v) = uint v div 2 ^ k" for k
    by (simp only: unsigned_drop_bit_eq take_bit_length_eq) (simp only: drop_bit_eq_div take_bit_uint_self)
  then show ?thesis by (simp add: vlane_def ilane_def unsigned_ucast_eq take_bit_eq_mod)
qed

lemma bindc_run: "a m = (Inr x, m') \<Longrightarrow> bindc a f m = f x m'"
  by (simp add: bindc_def)

lemma pop_two:
  assumes "ready m"
  shows "bindc pop_v128 (\<lambda>b. bindc pop_v128 (\<lambda>a. act a b)) (pushed [vcell a, vcell b] m) = act a b m"
  unfolding pushed_two using assms by (simp add: bindc_def del: le_bytes.simps)

lemma pop_three:
  assumes "ready m"
  shows "bindc pop_v128 (\<lambda>c. bindc pop_v128 (\<lambda>b. bindc pop_v128 (\<lambda>a. act a b c))) (pushed [vcell a, vcell b, vcell c] m) = act a b c m"
  unfolding pushed_two using assms by (simp add: bindc_def del: le_bytes.simps)

lemma pop_one: "ready m \<Longrightarrow> bindc pop_v128 act (pushed [vcell a] m) = act a m"
  by (simp add: bindc_def del: le_bytes.simps)

lemma pop_count: "ready m \<Longrightarrow> bindc pop_i32 (\<lambda>k. bindc pop_v128 (\<lambda>a. act k a)) (pushed [vcell a, wcell k] m) = act k a m"
  unfolding pushed_two by (simp add: bindc_def del: le_bytes.simps)

lemmas pop_runs = pop_one pop_two pop_count

lemma le_bytes_const:
  "8 * n \<le> LENGTH('l::len) \<Longrightarrow> le_bytes n (- 1 :: 'l word) = replicate n 0xFF" "le_bytes n (0 :: 'l word) = replicate n 0"
proof -
  have "ucast (drop_bit (8 * k) (- 1 :: 'l word)) = (- 1 :: u8)" if "k < n" "8 * n \<le> LENGTH('l)" for k
    by (rule bit_word_eqI) (use that in \<open>auto simp: bit_ucast_iff bit_drop_bit_eq bit_mask_iff\<close>)
  then show "8 * n \<le> LENGTH('l) \<Longrightarrow> le_bytes n (- 1 :: 'l word) = replicate n 0xFF"
    by (intro nth_equalityI) (auto simp: nth_le_bytes)
  show "le_bytes n (0 :: 'l word) = replicate n 0" by (rule nth_equalityI) (simp_all add: nth_le_bytes)
qed

lemma or_above:
  assumes "0 \<le> b" and "b < 2 ^ k"
  shows "word_of_int b OR push_bit k 1 = (word_of_int (b + 2 ^ k) :: 'w::len word)"
proof -
  have "b = take_bit k b" using assms by (simp add: take_bit_int_eq_self)
  then have "bit b j \<Longrightarrow> j < k" for j by (metis bit_take_bit_iff)
  then have "word_of_int b + push_bit k 1 = (word_of_int b OR push_bit k 1 :: 'w word)"
    by (intro disjunctive_add) (auto simp: bit_word_of_int_iff bit_push_bit_iff bit_exp_iff)
  then show ?thesis by (simp add: push_bit_eq_mult)
qed

lemma sum_bits_less: "(\<Sum>i < k. if p i then 2 ^ i else 0) < (2 :: int) ^ k"
proof (induction k)
  case (Suc k)
  then show ?case using zero_less_power [of "2 :: int" k] by (cases "p k") (simp_all del: zero_less_power)
qed simp

lemma fold_bits:
  "foldl (\<lambda>m (i, x). if q x then m OR push_bit i 1 else m) (0 :: 'w::len word) (enumerate 0 xs) =
    word_of_int (\<Sum>i < length xs. if q (xs ! i) then 2 ^ i else 0)"
proof (induction xs rule: rev_induct)
  case (snoc x xs)
  have "(\<Sum>i < length xs. if q ((xs @ [x]) ! i) then 2 ^ i else 0) = (\<Sum>i < length xs. if q (xs ! i) then 2 ^ i else (0 :: int))"
    by (rule sum.cong) (simp_all add: nth_append)
  with snoc or_above [OF _ sum_bits_less [of "\<lambda>i. q (xs ! i)" "length xs"], where ?'w = 'w] show ?case
    by (simp add: enumerate_append_eq sum_nonneg)
qed simp

context lane_shape
begin

lemma width: "128 div LENGTH('l) = n" "128 div n = LENGTH('l)" "0 < n"
  using bits by (metis len_gt_0 nonzero_mult_div_cancel_right not_gr_zero, metis mult_0 nonzero_mult_div_cancel_left zero_neq_numeral, metis gr0I mult_0 zero_neq_numeral)

lemma ilane_join: "length l = n \<Longrightarrow> i < n \<Longrightarrow> ilane LENGTH('l) (join l) i = uint (l ! i)"
  by (simp flip: uint_vlane)

lemma uint_split: "i < n \<Longrightarrow> uint (split v ! i) = ilane LENGTH('l) v i"
  by (simp add: uint_vlane)

lemma computes_unop:
  assumes "\<And>x. uint (f x) = g (uint x)"
  shows "computes (Vec1 LENGTH('l) LENGTH('l) (each1 g)) (v_unop split join f)"
  by (auto simp: computes_def v_unop_def pop_runs width ilane_join each1_def assms uint_vlane simp del: le_bytes.simps)

lemma computes_binop:
  assumes "\<And>x y. uint (f x y) = g (uint x) (uint y)"
  shows "computes (Vec2 LENGTH('l) LENGTH('l) (each2 g)) (v_binop split join f)"
  by (auto simp: computes_def v_binop_def pop_runs width ilane_join each2_def lanes_zip_def assms uint_vlane simp del: le_bytes.simps)

lemma computes_shift:
  assumes "\<And>x k. uint (f x k) = g (uint x) (uint k)" and "\<And>i k. g i (k mod int LENGTH('l)) = g i k"
  shows "computes (Shift LENGTH('l) g) (v_shift split join f)"
proof -
  have "LENGTH('l) * 1 \<le> LENGTH('l) * n" using width(3) by (intro mult_le_mono) auto
  then have le: "LENGTH('l) \<le> 128" using bits by (simp add: mult.commute)
  then have "uint (of_nat LENGTH('l) :: u32) = int LENGTH('l)" by (simp add: unsigned_of_nat take_bit_nat_eq_self)
  then have "uint (k mod of_nat LENGTH('l)) = uint k mod int LENGTH('l)" for k :: u32 by (simp add: uint_mod)
  then show ?thesis
    by (auto simp: computes_def v_shift_def pop_runs width ilane_join assms uint_vlane Let_def simp del: le_bytes.simps)
qed

lemma mask_lanes:
  assumes "length ms = n" and "i < n"
  shows "vlane i (cmp_mask ms) = (if ms ! i then - 1 else 0 :: 'l word)"
proof -
  let ?w = "16 div n" and ?fill = "\<lambda>i. map (\<lambda>k. if ms ! i then 0xFF else 0 :: u8) [0..<16 div n]"
  obtain w where w: "LENGTH('l) = 8 * w" using octets by (auto elim: dvdE)
  with bits have nw: "n * w = 16" by simp
  then have eq: "?w = w" using width(3) by (metis nonzero_mult_div_cancel_left not_gr_zero)
  have c: "cmp_mask ms = le_word (concat (map ?fill [0..<n]))"
    using fill_lanes [of n w "\<lambda>i. ms ! i" "\<lambda>i k. 0xFF"] assms(1) nw by (simp add: cmp_mask_def Let_def eq)
  have "le_word (?fill i) = (if ms ! i then - 1 else 0 :: 'l word)"
    using le_word_le_bytes [of w "- 1 :: 'l word"] le_word_le_bytes [of w "0 :: 'l word"] le_bytes_const [of w, where ?'l = 'l]
    by (simp add: eq w map_replicate_trivial)
  with c nw eq assms(2) w vlane_concat [of "map ?fill [0..<n]" w i, where ?'l = 'l] show ?thesis by simp
qed

lemma computes_cmp:
  assumes "\<And>x y. f x y \<longleftrightarrow> wasm_rel LENGTH('l) c (uint x) (uint y)"
  shows "computes (Vec2 LENGTH('l) LENGTH('l) (each2 (i_cmp LENGTH('l) c))) (v_cmp split f)"
proof -
  have "ilane LENGTH('l) (cmp_mask ms) i = (if ms ! i then 2 ^ LENGTH('l) - 1 else 0)" if "length ms = n" "i < n" for ms i
    unfolding uint_vlane [symmetric] mask_lanes [OF that] by (simp add: unsigned_minus_1_eq_mask mask_eq_exp_minus_1)
  then show ?thesis
    by (auto simp: computes_def v_cmp_def pop_runs width each2_def lanes_zip_def assms uint_vlane i_cmp_def simp del: le_bytes.simps)
qed

lemma computes_all_true:
  "computes (Test LENGTH('l) (i_all_true n)) (v_all_true split)"
proof -
  have "list_all (\<lambda>x. x \<noteq> 0) (split v) \<longleftrightarrow> (\<forall>i < n. ilane LENGTH('l) v i \<noteq> 0)" for v
    by (auto simp: list_all_length uint_vlane [symmetric] unsigned_eq_0_iff)
  then show ?thesis by (auto simp: computes_def v_all_true_def pop_runs bool_i32_def i_all_true_def simp del: le_bytes.simps)
qed

lemma computes_bitmask:
  "computes (Test LENGTH('l) (i_bitmask LENGTH('l) n)) (v_bitmask split)"
proof -
  have "(\<Sum>i < n. if sint (split v ! i) < 0 then 2 ^ i else (0 :: int)) = (\<Sum>i < n. if signed_of LENGTH('l) (ilane LENGTH('l) v i) < 0 then 2 ^ i else 0)" for v
    by (rule sum.cong) (simp_all add: sint_signed_of uint_vlane)
  then have "foldl (\<lambda>m (i, x). if sint x < 0 then m OR push_bit i 1 else m) (0 :: u32) (enumerate 0 (split v)) =
      word_of_int (\<Sum>i < n. if signed_of LENGTH('l) (ilane LENGTH('l) v i) < 0 then 2 ^ i else 0)" for v
    using fold_bits [of "\<lambda>x. sint x < 0" "split v", where ?'w = 32] by (simp only: length_split)
  then show ?thesis by (simp add: computes_def v_bitmask_def pop_runs i_bitmask_def del: le_bytes.simps of_int_sum)
qed

end

text \<open>Two shapes, one with lanes of twice the width.\<close>

locale lane_widen = narrow: lane_shape split join n + wide: lane_shape wsplit wjoin h
  for split :: "u128 \<Rightarrow> 'l::len word list" and join n and wsplit :: "u128 \<Rightarrow> 'm::len word list" and wjoin h +
  assumes half: "n = 2 * h"
begin

lemma computes_extend:
  assumes "\<And>x. uint (f x) = g (uint x)"
  shows "computes (Vec1 LENGTH('l) LENGTH('m) (half1 (if high then h else 0) g)) (v_extend split wjoin high f)"
  by (auto simp: computes_def v_extend_def pop_runs wide.width wide.ilane_join assms uint_vlane half Let_def half1_def simp del: le_bytes.simps)

lemma computes_extmul:
  assumes "\<And>x y. uint (f x y) = g (uint x) (uint y)"
  shows "computes (Vec2 LENGTH('l) LENGTH('m) (half2 (if high then h else 0) g)) (v_extmul split wjoin high f)"
  by (auto simp: computes_def v_extmul_def pop_runs wide.width wide.ilane_join assms uint_vlane half Let_def half2_def simp del: le_bytes.simps)

lemma computes_extadd:
  assumes "\<And>x y. uint (f x y) = g (uint x) (uint y)"
  shows "computes (Vec1 LENGTH('l) LENGTH('m) (pairs g)) (v_extadd split wjoin f)"
  by (auto simp: computes_def v_extadd_def pop_runs wide.width wide.ilane_join assms uint_vlane half Let_def pairs_def simp del: le_bytes.simps)

lemma computes_narrow:
  assumes "\<And>x. uint (f x) = g (uint x)"
  shows "computes (Vec2 LENGTH('m) LENGTH('l) (joined h g)) (v_narrow wsplit join f)"
  by (auto simp: computes_def v_narrow_def pop_runs narrow.width narrow.ilane_join assms uint_vlane half Let_def joined_def simp del: le_bytes.simps)

end

interpretation w8: lane_widen i8x16 from_i8x16 16 i16x8 from_i16x8 8
  by unfold_locales simp

interpretation w16: lane_widen i16x8 from_i16x8 8 i32x4 from_i32x4 4
  by unfold_locales simp

interpretation w32: lane_widen i32x4 from_i32x4 4 i64x2 from_i64x2 2
  by unfold_locales simp

section \<open>The operators on one lane\<close>

lemma lane_ring:
  fixes x y :: "'l::len word"
  shows "uint (x + y) = i_add LENGTH('l) (uint x) (uint y)" "uint (x - y) = i_sub LENGTH('l) (uint x) (uint y)"
    "uint (x * y) = i_mul LENGTH('l) (uint x) (uint y)" "uint (- x) = i_neg LENGTH('l) (uint x)"
  by (simp_all add: uint_word_ariths i_add_def i_sub_def i_mul_def i_neg_def mod_simps)

lemma signed_of_inj: "signed_of LENGTH('l) (uint x) = signed_of LENGTH('l) (uint y) \<longleftrightarrow> x = y" for x y :: "'l::len word"
  by (metis signed_word_eqI sint_signed_of)

lemma lane_order:
  fixes x y :: "'l::len word"
  shows "uint (min x y) = i_min_u (uint x) (uint y)" "uint (max x y) = i_max_u (uint x) (uint y)"
    "uint (min_s x y) = i_min_s LENGTH('l) (uint x) (uint y)" "uint (max_s x y) = i_max_s LENGTH('l) (uint x) (uint y)"
    "uint (wrapping_abs x) = i_abs LENGTH('l) (uint x)"
  using signed_of_inj [of x y]
  by (auto simp: min_def max_def i_min_u_def i_max_u_def min_s_def max_s_def i_min_s_def i_max_s_def word_le_def sint_signed_of
      wrapping_abs_def i_abs_def lane_ring order_le_less)

lemma lane_shifts:
  fixes x :: "'l::len word"
  shows "uint (wrapping_shl x k) = i_shl LENGTH('l) (uint x) (uint k)" "uint (wrapping_shr_u x k) = i_shr_u LENGTH('l) (uint x) (uint k)"
    "uint (wrapping_shr_s x k) = i_shr_s LENGTH('l) (uint x) (uint k)"
  by (simp_all add: uint_wrapping_shl uint_wrapping_shr_u uint_wrapping_shr_s i_shl_def i_shr_u_def i_shr_s_def uint_shift_mod)

lemma shift_mod: "i_shl N i (k mod int N) = i_shl N i k" "i_shr_u N i (k mod int N) = i_shr_u N i k" "i_shr_s N i (k mod int N) = i_shr_s N i k"
  by (simp_all add: i_shl_def i_shr_u_def i_shr_s_def)

lemma lane_popcnt:
  fixes x :: "'l::len word"
  shows "uint (of_nat (count_ones x) :: 'l word) = i_popcnt LENGTH('l) (uint x)"
proof -
  have "count_ones x = card {k. k < LENGTH('l) \<and> bit x k}"
    by (simp add: count_ones_def length_filter_conv_card) (metis (lifting) nth_upt add_0 diff_zero)
  moreover have "card {k. k < LENGTH('l) \<and> bit x k} \<le> card {..<LENGTH('l)}" by (rule card_mono) auto
  ultimately have "count_ones x < 2 ^ LENGTH('l)" "count_ones x = card {k. k < LENGTH('l) \<and> bit (uint x) k}"
    using less_exp [of "LENGTH('l)"] by (auto simp: bit_uint_iff intro: le_less_trans)
  then show ?thesis by (simp add: i_popcnt_def unsigned_of_nat take_bit_nat_eq_self)
qed

lemma uint_avgr:
  assumes "uint a + uint b < 2 ^ 31"
  shows "uint (avgr a b) = i_avgr_u (uint a) (uint b)"
proof -
  have s: "uint (a + b) = uint a + uint b" using assms by (simp add: uint_word_ariths)
  have "(a + b) mod 2 = 0 \<longleftrightarrow> (uint a + uint b) mod 2 = 0" using s by (simp add: word_uint_eq_iff uint_mod)
  moreover have "uint ((a + b) div 2) = (uint a + uint b) div 2" using s by (simp add: uint_div)
  moreover have "uint ((a + b) div 2 + 1) = (uint a + uint b) div 2 + 1"
    using calculation(2) assms by (simp add: uint_word_ariths)
  ultimately show ?thesis using assms by (auto simp: avgr_def i_avgr_u_def Let_def) presburger+
qed

lemma lane_avgr:
  "uint (ucast (avgr (ucast (x :: u8)) (ucast (y :: u8))) :: u8) = i_avgr_u (uint x) (uint y)"
  "uint (ucast (avgr (ucast (a :: u16)) (ucast (b :: u16))) :: u16) = i_avgr_u (uint a) (uint b)"
proof -
  have "uint x < 256" "uint y < 256" "uint a < 65536" "uint b < 65536"
    using uint_lt2p [of x] uint_lt2p [of y] uint_lt2p [of a] uint_lt2p [of b] by simp_all
  then show "uint (ucast (avgr (ucast x) (ucast y)) :: u8) = i_avgr_u (uint x) (uint y)"
    "uint (ucast (avgr (ucast a) (ucast b)) :: u16) = i_avgr_u (uint a) (uint b)"
    using uint_avgr [of "ucast x" "ucast y"] uint_avgr [of "ucast a" "ucast b"]
    by (simp_all add: unsigned_ucast_eq uint_up_ucast is_up i_avgr_u_def take_bit_int_eq_self)
qed

lemma clamp_sat: "clamp_int (- (2 ^ (N - 1))) (2 ^ (N - 1) - 1) z = sat_s N z" "clamp_int 0 (2 ^ N - 1) z = sat_u N z"
  by (auto simp: clamp_int_def sat_s_def sat_u_def)

lemma sat_u_range: "sat_u N z mod 2 ^ N = sat_u N z"
  by (auto simp: sat_u_def)

lemma lane_sat:
  fixes x y :: "'l::len word"
  shows "uint (sat_add_s x y) = i_add_sat_s LENGTH('l) (uint x) (uint y)" "uint (sat_sub_s x y) = i_sub_sat_s LENGTH('l) (uint x) (uint y)"
    "uint (sat_add_u x y) = i_add_sat_u LENGTH('l) (uint x) (uint y)" "uint (sat_sub_u x y) = i_sub_sat_u LENGTH('l) (uint x) (uint y)"
  by (simp_all only: sat_add_s_def sat_sub_s_def sat_add_u_def sat_sub_u_def clamp_sat uint_word_of_int sint_signed_of sat_u_range
      i_add_sat_s_def i_sub_sat_s_def i_add_sat_u_def i_sub_sat_u_def)

lemma uint_down: "LENGTH('l) \<le> LENGTH('m) \<Longrightarrow> uint (ucast w :: 'l::len word) = sint w mod 2 ^ LENGTH('l)" for w :: "'m::len word"
  by (simp only: unsigned_ucast_eq uint_sint [of w] take_bit_take_bit min_absorb1 take_bit_eq_mod [symmetric])

lemma sint_clamp:
  fixes x :: "'m::len word"
  assumes "- (2 ^ (LENGTH('m) - 1)) \<le> lo" and "lo \<le> hi" and "hi < 2 ^ (LENGTH('m) - 1)"
  shows "sint (clamp_s lo hi x) = clamp_int lo hi (sint x)"
  using assms by (auto simp: clamp_s_def clamp_int_def signed_of_int signed_take_bit_int_eq_self)

lemma signed_words: "signed_of 8 (uint (w :: u8)) = sint w" "signed_of 16 (uint (x :: u16)) = sint x"
    "signed_of 32 (uint (y :: u32)) = sint y" "signed_of 64 (uint (z :: u64)) = sint z"
  using sint_signed_of [of w] sint_signed_of [of x] sint_signed_of [of y] sint_signed_of [of z] by simp_all

lemma lane_narrow:
  "uint (ucast (clamp_s (-128) 127 (x :: u16)) :: u8) = i_narrow_s 16 8 (uint x)" "uint (ucast (clamp_s 0 255 x) :: u8) = i_narrow_u 16 8 (uint x)"
  "uint (ucast (clamp_s (-32768) 32767 (y :: u32)) :: u16) = i_narrow_s 32 16 (uint y)" "uint (ucast (clamp_s 0 65535 y) :: u16) = i_narrow_u 32 16 (uint y)"
  using clamp_sat [of 8 "sint x"] clamp_sat [of 16 "sint y"] sat_u_range [of 8 "sint x"] sat_u_range [of 16 "sint y"]
  by (simp_all add: uint_down sint_clamp i_narrow_s_def i_narrow_u_def signed_words)

text \<open>Products of two 16-bit lanes, rounded, do not overflow 32 bits.\<close>

lemma sint_bounds16: "- 32768 \<le> sint (a :: u16)" "sint a < 32768"
  using sint_greater_eq [of a] sint_less [of a] by simp_all

lemma product16: "\<bar>sint (a :: u16) * sint (b :: u16)\<bar> \<le> 1073741824"
proof -
  have "\<bar>sint a\<bar> \<le> 32768" "\<bar>sint b\<bar> \<le> 32768" using sint_bounds16 [of a] sint_bounds16 [of b] by linarith+
  then have "\<bar>sint a\<bar> * \<bar>sint b\<bar> \<le> 32768 * 32768" by (intro mult_mono) auto
  then show ?thesis by (simp add: abs_mult)
qed

lemma sint_product16: "sint (scast (a :: u16) * scast (b :: u16) :: u32) = sint a * sint b"
    "sint (scast (a :: u16) * scast (b :: u16) + 0x4000 :: u32) = sint a * sint b + 0x4000"
proof -
  show p: "sint (scast a * scast b :: u32) = sint a * sint b"
    using product16 [of a b] by (simp add: sint_word_ariths signed_take_bit_int_eq_self sint_up_scast is_up)
  show "sint (scast a * scast b + 0x4000 :: u32) = sint a * sint b + 0x4000"
    using product16 [of a b] by (subst sint_word_ariths) (simp add: p signed_take_bit_int_eq_self)
qed

lemma lane_q15: "uint (q15mulr_sat x y) = i_q15mulr (uint x) (uint y)"
  using clamp_sat(1) [of 16 "(sint x * sint y + 0x4000) div 32768"]
  by (simp add: q15mulr_sat_def uint_down sint_clamp sint_signed_drop_bit_eq sint_product16 i_q15mulr_def drop_bit_eq_div signed_words)

lemma uint_scast: "uint (scast x :: 'm::len word) = i_extend_s LENGTH('l) LENGTH('m) (uint x)" for x :: "'l::len word"
  by (simp only: scast_eq uint_word_of_int i_extend_s_def sint_signed_of)

lemma uint_up: "LENGTH('l) \<le> LENGTH('m) \<Longrightarrow> uint (ucast x :: 'm::len word) = uint x" for x :: "'l::len word"
  by (simp add: uint_up_ucast is_up)

lemma lane_widen_s:
  fixes x y :: "'l::len word"
  shows "uint (scast x + scast y :: 'm::len word) = add_ext_s LENGTH('l) LENGTH('m) (uint x) (uint y)"
    "uint (scast x * scast y :: 'm word) = mul_ext_s LENGTH('l) LENGTH('m) (uint x) (uint y)"
  by (simp_all add: lane_ring i_add_def i_mul_def uint_scast i_extend_s_def add_ext_s_def mul_ext_s_def mod_simps)

lemma lane_widen_u:
  fixes x y :: "'l::len word"
  assumes "LENGTH('l) \<le> LENGTH('m::len)"
  shows "uint (ucast x + ucast y :: 'm word) = i_add LENGTH('m) (uint x) (uint y)" "uint (ucast x * ucast y :: 'm word) = i_mul LENGTH('m) (uint x) (uint y)"
  using assms by (simp_all add: lane_ring uint_up)

end
