(* ===== verification/Simd_Wasm.thy ===== *)
theory Simd_Wasm
  imports Simd_Exact
begin

text \<open>
  The reference of each integer vector instruction, in the terms of the WebAssembly specification, and the theorem that the handlers compute it.
\<close>

section \<open>The specification of the instructions\<close>

primrec iarith_spec :: "simd_iarith \<Rightarrow> lane_spec" where
  "iarith_spec I8x16Add = Vec2 8 8 (each2 (i_add 8))"
| "iarith_spec I8x16Sub = Vec2 8 8 (each2 (i_sub 8))"
| "iarith_spec I8x16Neg = Vec1 8 8 (each1 (i_neg 8))"
| "iarith_spec I8x16Abs = Vec1 8 8 (each1 (i_abs 8))"
| "iarith_spec I8x16Popcnt = Vec1 8 8 (each1 (i_popcnt 8))"
| "iarith_spec I8x16MinS = Vec2 8 8 (each2 (i_min_s 8))"
| "iarith_spec I8x16MinU = Vec2 8 8 (each2 i_min_u)"
| "iarith_spec I8x16MaxS = Vec2 8 8 (each2 (i_max_s 8))"
| "iarith_spec I8x16MaxU = Vec2 8 8 (each2 i_max_u)"
| "iarith_spec I8x16AvgrU = Vec2 8 8 (each2 i_avgr_u)"
| "iarith_spec I8x16AllTrue = Test 8 (i_all_true 16)"
| "iarith_spec I8x16Bitmask = Test 8 (i_bitmask 8 16)"
| "iarith_spec I16x8Add = Vec2 16 16 (each2 (i_add 16))"
| "iarith_spec I16x8Sub = Vec2 16 16 (each2 (i_sub 16))"
| "iarith_spec I16x8Mul = Vec2 16 16 (each2 (i_mul 16))"
| "iarith_spec I16x8Neg = Vec1 16 16 (each1 (i_neg 16))"
| "iarith_spec I16x8Abs = Vec1 16 16 (each1 (i_abs 16))"
| "iarith_spec I16x8MinS = Vec2 16 16 (each2 (i_min_s 16))"
| "iarith_spec I16x8MinU = Vec2 16 16 (each2 i_min_u)"
| "iarith_spec I16x8MaxS = Vec2 16 16 (each2 (i_max_s 16))"
| "iarith_spec I16x8MaxU = Vec2 16 16 (each2 i_max_u)"
| "iarith_spec I16x8AvgrU = Vec2 16 16 (each2 i_avgr_u)"
| "iarith_spec I16x8AllTrue = Test 16 (i_all_true 8)"
| "iarith_spec I16x8Bitmask = Test 16 (i_bitmask 16 8)"
| "iarith_spec I32x4Add = Vec2 32 32 (each2 (i_add 32))"
| "iarith_spec I32x4Sub = Vec2 32 32 (each2 (i_sub 32))"
| "iarith_spec I32x4Mul = Vec2 32 32 (each2 (i_mul 32))"
| "iarith_spec I32x4Neg = Vec1 32 32 (each1 (i_neg 32))"
| "iarith_spec I32x4Abs = Vec1 32 32 (each1 (i_abs 32))"
| "iarith_spec I32x4MinS = Vec2 32 32 (each2 (i_min_s 32))"
| "iarith_spec I32x4MinU = Vec2 32 32 (each2 i_min_u)"
| "iarith_spec I32x4MaxS = Vec2 32 32 (each2 (i_max_s 32))"
| "iarith_spec I32x4MaxU = Vec2 32 32 (each2 i_max_u)"
| "iarith_spec I32x4AllTrue = Test 32 (i_all_true 4)"
| "iarith_spec I32x4Bitmask = Test 32 (i_bitmask 32 4)"
| "iarith_spec I64x2Add = Vec2 64 64 (each2 (i_add 64))"
| "iarith_spec I64x2Sub = Vec2 64 64 (each2 (i_sub 64))"
| "iarith_spec I64x2Mul = Vec2 64 64 (each2 (i_mul 64))"
| "iarith_spec I64x2Neg = Vec1 64 64 (each1 (i_neg 64))"
| "iarith_spec I64x2Abs = Vec1 64 64 (each1 (i_abs 64))"
| "iarith_spec I64x2AllTrue = Test 64 (i_all_true 2)"
| "iarith_spec I64x2Bitmask = Test 64 (i_bitmask 64 2)"

primrec icmp_spec :: "simd_icmp \<Rightarrow> lane_spec" where
  "icmp_spec I8x16Eq = Vec2 8 8 (each2 (i_cmp 8 CEq))"
| "icmp_spec I8x16Ne = Vec2 8 8 (each2 (i_cmp 8 CNe))"
| "icmp_spec I8x16LtS = Vec2 8 8 (each2 (i_cmp 8 CLtS))"
| "icmp_spec I8x16LtU = Vec2 8 8 (each2 (i_cmp 8 CLtU))"
| "icmp_spec I8x16GtS = Vec2 8 8 (each2 (i_cmp 8 CGtS))"
| "icmp_spec I8x16GtU = Vec2 8 8 (each2 (i_cmp 8 CGtU))"
| "icmp_spec I8x16LeS = Vec2 8 8 (each2 (i_cmp 8 CLeS))"
| "icmp_spec I8x16LeU = Vec2 8 8 (each2 (i_cmp 8 CLeU))"
| "icmp_spec I8x16GeS = Vec2 8 8 (each2 (i_cmp 8 CGeS))"
| "icmp_spec I8x16GeU = Vec2 8 8 (each2 (i_cmp 8 CGeU))"
| "icmp_spec I16x8Eq = Vec2 16 16 (each2 (i_cmp 16 CEq))"
| "icmp_spec I16x8Ne = Vec2 16 16 (each2 (i_cmp 16 CNe))"
| "icmp_spec I16x8LtS = Vec2 16 16 (each2 (i_cmp 16 CLtS))"
| "icmp_spec I16x8LtU = Vec2 16 16 (each2 (i_cmp 16 CLtU))"
| "icmp_spec I16x8GtS = Vec2 16 16 (each2 (i_cmp 16 CGtS))"
| "icmp_spec I16x8GtU = Vec2 16 16 (each2 (i_cmp 16 CGtU))"
| "icmp_spec I16x8LeS = Vec2 16 16 (each2 (i_cmp 16 CLeS))"
| "icmp_spec I16x8LeU = Vec2 16 16 (each2 (i_cmp 16 CLeU))"
| "icmp_spec I16x8GeS = Vec2 16 16 (each2 (i_cmp 16 CGeS))"
| "icmp_spec I16x8GeU = Vec2 16 16 (each2 (i_cmp 16 CGeU))"
| "icmp_spec I32x4Eq = Vec2 32 32 (each2 (i_cmp 32 CEq))"
| "icmp_spec I32x4Ne = Vec2 32 32 (each2 (i_cmp 32 CNe))"
| "icmp_spec I32x4LtS = Vec2 32 32 (each2 (i_cmp 32 CLtS))"
| "icmp_spec I32x4LtU = Vec2 32 32 (each2 (i_cmp 32 CLtU))"
| "icmp_spec I32x4GtS = Vec2 32 32 (each2 (i_cmp 32 CGtS))"
| "icmp_spec I32x4GtU = Vec2 32 32 (each2 (i_cmp 32 CGtU))"
| "icmp_spec I32x4LeS = Vec2 32 32 (each2 (i_cmp 32 CLeS))"
| "icmp_spec I32x4LeU = Vec2 32 32 (each2 (i_cmp 32 CLeU))"
| "icmp_spec I32x4GeS = Vec2 32 32 (each2 (i_cmp 32 CGeS))"
| "icmp_spec I32x4GeU = Vec2 32 32 (each2 (i_cmp 32 CGeU))"
| "icmp_spec I64x2Eq = Vec2 64 64 (each2 (i_cmp 64 CEq))"
| "icmp_spec I64x2Ne = Vec2 64 64 (each2 (i_cmp 64 CNe))"
| "icmp_spec I64x2LtS = Vec2 64 64 (each2 (i_cmp 64 CLtS))"
| "icmp_spec I64x2GtS = Vec2 64 64 (each2 (i_cmp 64 CGtS))"
| "icmp_spec I64x2LeS = Vec2 64 64 (each2 (i_cmp 64 CLeS))"
| "icmp_spec I64x2GeS = Vec2 64 64 (each2 (i_cmp 64 CGeS))"
| "icmp_spec I8x16Shl = Shift 8 (i_shl 8)"
| "icmp_spec I8x16ShrS = Shift 8 (i_shr_s 8)"
| "icmp_spec I8x16ShrU = Shift 8 (i_shr_u 8)"
| "icmp_spec I16x8Shl = Shift 16 (i_shl 16)"
| "icmp_spec I16x8ShrS = Shift 16 (i_shr_s 16)"
| "icmp_spec I16x8ShrU = Shift 16 (i_shr_u 16)"
| "icmp_spec I32x4Shl = Shift 32 (i_shl 32)"
| "icmp_spec I32x4ShrS = Shift 32 (i_shr_s 32)"
| "icmp_spec I32x4ShrU = Shift 32 (i_shr_u 32)"
| "icmp_spec I64x2Shl = Shift 64 (i_shl 64)"
| "icmp_spec I64x2ShrS = Shift 64 (i_shr_s 64)"
| "icmp_spec I64x2ShrU = Shift 64 (i_shr_u 64)"

primrec iarith2_spec :: "simd_iarith2 \<Rightarrow> lane_spec" where
  "iarith2_spec I8x16AddSatS = Vec2 8 8 (each2 (i_add_sat_s 8))"
| "iarith2_spec I8x16AddSatU = Vec2 8 8 (each2 (i_add_sat_u 8))"
| "iarith2_spec I8x16SubSatS = Vec2 8 8 (each2 (i_sub_sat_s 8))"
| "iarith2_spec I8x16SubSatU = Vec2 8 8 (each2 (i_sub_sat_u 8))"
| "iarith2_spec I16x8AddSatS = Vec2 16 16 (each2 (i_add_sat_s 16))"
| "iarith2_spec I16x8AddSatU = Vec2 16 16 (each2 (i_add_sat_u 16))"
| "iarith2_spec I16x8SubSatS = Vec2 16 16 (each2 (i_sub_sat_s 16))"
| "iarith2_spec I16x8SubSatU = Vec2 16 16 (each2 (i_sub_sat_u 16))"
| "iarith2_spec I16x8Q15MulrSatS = Vec2 16 16 (each2 i_q15mulr)"
| "iarith2_spec I8x16NarrowI16x8S = Vec2 16 8 (joined 8 (i_narrow_s 16 8))"
| "iarith2_spec I8x16NarrowI16x8U = Vec2 16 8 (joined 8 (i_narrow_u 16 8))"
| "iarith2_spec I16x8NarrowI32x4S = Vec2 32 16 (joined 4 (i_narrow_s 32 16))"
| "iarith2_spec I16x8NarrowI32x4U = Vec2 32 16 (joined 4 (i_narrow_u 32 16))"
| "iarith2_spec I16x8ExtendLowI8x16S = Vec1 8 16 (half1 0 (i_extend_s 8 16))"
| "iarith2_spec I16x8ExtendHighI8x16S = Vec1 8 16 (half1 8 (i_extend_s 8 16))"
| "iarith2_spec I16x8ExtendLowI8x16U = Vec1 8 16 (half1 0 (\<lambda>i. i))"
| "iarith2_spec I16x8ExtendHighI8x16U = Vec1 8 16 (half1 8 (\<lambda>i. i))"
| "iarith2_spec I32x4ExtendLowI16x8S = Vec1 16 32 (half1 0 (i_extend_s 16 32))"
| "iarith2_spec I32x4ExtendHighI16x8S = Vec1 16 32 (half1 4 (i_extend_s 16 32))"
| "iarith2_spec I32x4ExtendLowI16x8U = Vec1 16 32 (half1 0 (\<lambda>i. i))"
| "iarith2_spec I32x4ExtendHighI16x8U = Vec1 16 32 (half1 4 (\<lambda>i. i))"
| "iarith2_spec I64x2ExtendLowI32x4S = Vec1 32 64 (half1 0 (i_extend_s 32 64))"
| "iarith2_spec I64x2ExtendHighI32x4S = Vec1 32 64 (half1 2 (i_extend_s 32 64))"
| "iarith2_spec I64x2ExtendLowI32x4U = Vec1 32 64 (half1 0 (\<lambda>i. i))"
| "iarith2_spec I64x2ExtendHighI32x4U = Vec1 32 64 (half1 2 (\<lambda>i. i))"
| "iarith2_spec I16x8ExtAddPairwiseI8x16S = Vec1 8 16 (pairs (add_ext_s 8 16))"
| "iarith2_spec I16x8ExtAddPairwiseI8x16U = Vec1 8 16 (pairs (i_add 16))"
| "iarith2_spec I32x4ExtAddPairwiseI16x8S = Vec1 16 32 (pairs (add_ext_s 16 32))"
| "iarith2_spec I32x4ExtAddPairwiseI16x8U = Vec1 16 32 (pairs (i_add 32))"
| "iarith2_spec I16x8ExtMulLowI8x16S = Vec2 8 16 (half2 0 (mul_ext_s 8 16))"
| "iarith2_spec I16x8ExtMulHighI8x16S = Vec2 8 16 (half2 8 (mul_ext_s 8 16))"
| "iarith2_spec I16x8ExtMulLowI8x16U = Vec2 8 16 (half2 0 (i_mul 16))"
| "iarith2_spec I16x8ExtMulHighI8x16U = Vec2 8 16 (half2 8 (i_mul 16))"
| "iarith2_spec I32x4ExtMulLowI16x8S = Vec2 16 32 (half2 0 (mul_ext_s 16 32))"
| "iarith2_spec I32x4ExtMulHighI16x8S = Vec2 16 32 (half2 4 (mul_ext_s 16 32))"
| "iarith2_spec I32x4ExtMulLowI16x8U = Vec2 16 32 (half2 0 (i_mul 32))"
| "iarith2_spec I32x4ExtMulHighI16x8U = Vec2 16 32 (half2 4 (i_mul 32))"
| "iarith2_spec I64x2ExtMulLowI32x4S = Vec2 32 64 (half2 0 (mul_ext_s 32 64))"
| "iarith2_spec I64x2ExtMulHighI32x4S = Vec2 32 64 (half2 2 (mul_ext_s 32 64))"
| "iarith2_spec I64x2ExtMulLowI32x4U = Vec2 32 64 (half2 0 (i_mul 64))"
| "iarith2_spec I64x2ExtMulHighI32x4U = Vec2 32 64 (half2 2 (i_mul 64))"
| "iarith2_spec I32x4DotI16x8S = Vec2 16 32 i_dot"

section \<open>The handlers compute it\<close>

lemmas shape_rules =
  s8.computes_unop [simplified] s16.computes_unop [simplified] s32.computes_unop [simplified] s64.computes_unop [simplified]
  s8.computes_binop [simplified] s16.computes_binop [simplified] s32.computes_binop [simplified] s64.computes_binop [simplified]
  s8.computes_cmp [simplified] s16.computes_cmp [simplified] s32.computes_cmp [simplified] s64.computes_cmp [simplified]
  s8.computes_shift [simplified] s16.computes_shift [simplified] s32.computes_shift [simplified] s64.computes_shift [simplified]
  w8.computes_extend [where high = False, simplified] w8.computes_extend [where high = True, simplified]
  w16.computes_extend [where high = False, simplified] w16.computes_extend [where high = True, simplified]
  w32.computes_extend [where high = False, simplified] w32.computes_extend [where high = True, simplified]
  w8.computes_extmul [where high = False, simplified] w8.computes_extmul [where high = True, simplified]
  w16.computes_extmul [where high = False, simplified] w16.computes_extmul [where high = True, simplified]
  w32.computes_extmul [where high = False, simplified] w32.computes_extmul [where high = True, simplified]
  w8.computes_extadd [simplified] w16.computes_extadd [simplified] w8.computes_narrow [simplified] w16.computes_narrow [simplified]

lemmas test_rules =
  s8.computes_all_true [simplified] s16.computes_all_true [simplified] s32.computes_all_true [simplified] s64.computes_all_true [simplified]
  s8.computes_bitmask [simplified] s16.computes_bitmask [simplified] s32.computes_bitmask [simplified] s64.computes_bitmask [simplified]

lemmas lane_facts = lane_ring lane_order lane_popcnt lane_avgr lane_shifts
  shift_mod [of 8, simplified] shift_mod [of 16, simplified] shift_mod [of 32, simplified] shift_mod [of 64, simplified]

lemmas widen_facts = lane_sat lane_narrow lane_q15 uint_scast uint_up lane_widen_s lane_widen_u

lemma exec_iarith_computes: "computes (iarith_spec op) (exec_simd_iarith op)"
  by (cases op; simp only: iarith_spec.simps exec_simd_iarith.simps) ((rule test_rules | rule shape_rules, simp add: lane_facts)+)

lemma exec_icmp_computes: "computes (icmp_spec op) (exec_simd_icmp op)"
  by (cases op; simp only: icmp_spec.simps exec_simd_icmp.simps)
    (rule shape_rules; simp add: wasm_rel_def word_less_def word_le_def word_uint_eq_iff signed_words lane_facts)+

lemma dot_lane:
  assumes "i < 4"
  shows "ilane 32 (from_i32x4 (map (\<lambda>i. scast (i16x8 v ! (2 * i)) * scast (i16x8 w ! (2 * i)) + scast (i16x8 v ! (2 * i + 1)) * scast (i16x8 w ! (2 * i + 1)))
    [0..<4])) i = i_dot (ilane 16 v) (ilane 16 w) i"
proof -
  have dot: "uint (scast a * scast b + scast c * scast d :: u32) = (sint a * sint b + sint c * sint d) mod 2 ^ 32" for a b c d :: u16
    by (simp add: lane_ring i_add_def i_mul_def uint_scast i_extend_s_def signed_words mod_simps)
  have l16: "signed_of 16 (ilane 16 v k) = sint (vlane k v :: u16)" for v k
    using uint_vlane [of k v, where ?'l = 16] signed_words(2) [of "vlane k v"] by simp
  have "ilane 32 (from_i32x4 l) i = uint (l ! i)" if "length l = 4" for l using s32.ilane_join [of l i] that assms by simp
  with assms dot show ?thesis by (simp add: i_dot_def l16)
qed

lemma dot_computes: "computes (Vec2 16 32 i_dot) dot_i16x8"
  using dot_lane by (force simp: computes_def dot_i16x8_def pop_runs Let_def simp del: le_bytes.simps)

lemma exec_iarith2_computes: "computes (iarith2_spec op) (exec_simd_iarith2 op)"
  by (cases op; simp only: iarith2_spec.simps exec_simd_iarith2.simps) ((rule dot_computes | rule shape_rules, simp add: widen_facts)+)

text \<open>C21. Vector integer instructions are exact. On an execution whose operand stack is well formed and has room (\<open>ready\<close>), every handler of the three integer families pops its operands, writes no other state, and pushes
  the vector (or the integer) whose lanes are the WebAssembly operator of the instruction applied to the operands' lanes, for all 132 instructions
  and all operands; the operators are those of the tables above, on plain integers.\<close>

theorem simd_int_exact:
  "computes (iarith_spec op1) (exec_simd c (SimdIarith op1) inst) \<and>
   computes (icmp_spec op2) (exec_simd c (SimdIcmp op2) inst) \<and>
   computes (iarith2_spec op3) (exec_simd c (SimdIarith2 op3) inst)"
  by (simp add: exec_simd_def exec_iarith_computes exec_icmp_computes exec_iarith2_computes)

end
