(* ===== verification/Simd_Lower.thy ===== *)
theory Simd_Lower
  imports Simd_Exact Lower
begin

text \<open>
  The translation of the vector operators, \<^verbatim>\<open>src/module/compile/visit_simd.rs\<close>: each is emitted through the helper that tracks its operand height.
  \<^verbatim>\<open>Op::Simd\<close>, a constructor of the build with the \<^verbatim>\<open>simd\<close> feature only, is the parameter \<open>inject\<close>. The heights the translator tracks are those the
  handlers of \<open>Simd\<close> produce.
\<close>

section \<open>Translation\<close>

definition ternary :: "op \<Rightarrow> unit lowering" where
  "ternary op = bindc (hpop 3) (\<lambda>_. bindc (hpush 1) (\<lambda>_. emit op))"

primrec mem_helper :: "simd_mem \<Rightarrow> op \<Rightarrow> unit lowering" where
  "mem_helper V128Load = unop"
| "mem_helper V128Load8x8S = unop"
| "mem_helper V128Load8x8U = unop"
| "mem_helper V128Load16x4S = unop"
| "mem_helper V128Load16x4U = unop"
| "mem_helper V128Load32x2S = unop"
| "mem_helper V128Load32x2U = unop"
| "mem_helper V128Load8Splat = unop"
| "mem_helper V128Load16Splat = unop"
| "mem_helper V128Load32Splat = unop"
| "mem_helper V128Load64Splat = unop"
| "mem_helper V128Load32Zero = unop"
| "mem_helper V128Load64Zero = unop"
| "mem_helper V128Store = storeop"

primrec mem_lane_helper :: "simd_mem_lane \<Rightarrow> op \<Rightarrow> unit lowering" where
  "mem_lane_helper V128Load8Lane = binop"
| "mem_lane_helper V128Load16Lane = binop"
| "mem_lane_helper V128Load32Lane = binop"
| "mem_lane_helper V128Load64Lane = binop"
| "mem_lane_helper V128Store8Lane = storeop"
| "mem_lane_helper V128Store16Lane = storeop"
| "mem_lane_helper V128Store32Lane = storeop"
| "mem_lane_helper V128Store64Lane = storeop"

primrec lane_helper :: "simd_lane \<Rightarrow> op \<Rightarrow> unit lowering" where
  "lane_helper (V128Const x) = constop"
| "lane_helper (I8x16Shuffle x) = binop"
| "lane_helper I8x16Swizzle = binop"
| "lane_helper I8x16Splat = unop"
| "lane_helper I16x8Splat = unop"
| "lane_helper I32x4Splat = unop"
| "lane_helper I64x2Splat = unop"
| "lane_helper F32x4Splat = unop"
| "lane_helper F64x2Splat = unop"
| "lane_helper (I8x16ExtractLaneS x) = unop"
| "lane_helper (I8x16ExtractLaneU x) = unop"
| "lane_helper (I16x8ExtractLaneS x) = unop"
| "lane_helper (I16x8ExtractLaneU x) = unop"
| "lane_helper (I32x4ExtractLane x) = unop"
| "lane_helper (I64x2ExtractLane x) = unop"
| "lane_helper (F32x4ExtractLane x) = unop"
| "lane_helper (F64x2ExtractLane x) = unop"
| "lane_helper (I8x16ReplaceLane x) = binop"
| "lane_helper (I16x8ReplaceLane x) = binop"
| "lane_helper (I32x4ReplaceLane x) = binop"
| "lane_helper (I64x2ReplaceLane x) = binop"
| "lane_helper (F32x4ReplaceLane x) = binop"
| "lane_helper (F64x2ReplaceLane x) = binop"

primrec bit_helper :: "simd_bit \<Rightarrow> op \<Rightarrow> unit lowering" where
  "bit_helper V128Not = unop"
| "bit_helper V128And = binop"
| "bit_helper V128Or = binop"
| "bit_helper V128Xor = binop"
| "bit_helper V128AndNot = binop"
| "bit_helper V128Bitselect = ternary"
| "bit_helper V128AnyTrue = unop"

primrec iarith_helper :: "simd_iarith \<Rightarrow> op \<Rightarrow> unit lowering" where
  "iarith_helper I8x16Add = binop"
| "iarith_helper I8x16Sub = binop"
| "iarith_helper I8x16Neg = unop"
| "iarith_helper I8x16Abs = unop"
| "iarith_helper I8x16Popcnt = unop"
| "iarith_helper I8x16MinS = binop"
| "iarith_helper I8x16MinU = binop"
| "iarith_helper I8x16MaxS = binop"
| "iarith_helper I8x16MaxU = binop"
| "iarith_helper I8x16AvgrU = binop"
| "iarith_helper I8x16AllTrue = unop"
| "iarith_helper I8x16Bitmask = unop"
| "iarith_helper I16x8Add = binop"
| "iarith_helper I16x8Sub = binop"
| "iarith_helper I16x8Mul = binop"
| "iarith_helper I16x8Neg = unop"
| "iarith_helper I16x8Abs = unop"
| "iarith_helper I16x8MinS = binop"
| "iarith_helper I16x8MinU = binop"
| "iarith_helper I16x8MaxS = binop"
| "iarith_helper I16x8MaxU = binop"
| "iarith_helper I16x8AvgrU = binop"
| "iarith_helper I16x8AllTrue = unop"
| "iarith_helper I16x8Bitmask = unop"
| "iarith_helper I32x4Add = binop"
| "iarith_helper I32x4Sub = binop"
| "iarith_helper I32x4Mul = binop"
| "iarith_helper I32x4Neg = unop"
| "iarith_helper I32x4Abs = unop"
| "iarith_helper I32x4MinS = binop"
| "iarith_helper I32x4MinU = binop"
| "iarith_helper I32x4MaxS = binop"
| "iarith_helper I32x4MaxU = binop"
| "iarith_helper I32x4AllTrue = unop"
| "iarith_helper I32x4Bitmask = unop"
| "iarith_helper I64x2Add = binop"
| "iarith_helper I64x2Sub = binop"
| "iarith_helper I64x2Mul = binop"
| "iarith_helper I64x2Neg = unop"
| "iarith_helper I64x2Abs = unop"
| "iarith_helper I64x2AllTrue = unop"
| "iarith_helper I64x2Bitmask = unop"

primrec icmp_helper :: "simd_icmp \<Rightarrow> op \<Rightarrow> unit lowering" where
  "icmp_helper I8x16Eq = binop"
| "icmp_helper I8x16Ne = binop"
| "icmp_helper I8x16LtS = binop"
| "icmp_helper I8x16LtU = binop"
| "icmp_helper I8x16GtS = binop"
| "icmp_helper I8x16GtU = binop"
| "icmp_helper I8x16LeS = binop"
| "icmp_helper I8x16LeU = binop"
| "icmp_helper I8x16GeS = binop"
| "icmp_helper I8x16GeU = binop"
| "icmp_helper I16x8Eq = binop"
| "icmp_helper I16x8Ne = binop"
| "icmp_helper I16x8LtS = binop"
| "icmp_helper I16x8LtU = binop"
| "icmp_helper I16x8GtS = binop"
| "icmp_helper I16x8GtU = binop"
| "icmp_helper I16x8LeS = binop"
| "icmp_helper I16x8LeU = binop"
| "icmp_helper I16x8GeS = binop"
| "icmp_helper I16x8GeU = binop"
| "icmp_helper I32x4Eq = binop"
| "icmp_helper I32x4Ne = binop"
| "icmp_helper I32x4LtS = binop"
| "icmp_helper I32x4LtU = binop"
| "icmp_helper I32x4GtS = binop"
| "icmp_helper I32x4GtU = binop"
| "icmp_helper I32x4LeS = binop"
| "icmp_helper I32x4LeU = binop"
| "icmp_helper I32x4GeS = binop"
| "icmp_helper I32x4GeU = binop"
| "icmp_helper I64x2Eq = binop"
| "icmp_helper I64x2Ne = binop"
| "icmp_helper I64x2LtS = binop"
| "icmp_helper I64x2GtS = binop"
| "icmp_helper I64x2LeS = binop"
| "icmp_helper I64x2GeS = binop"
| "icmp_helper I8x16Shl = binop"
| "icmp_helper I8x16ShrS = binop"
| "icmp_helper I8x16ShrU = binop"
| "icmp_helper I16x8Shl = binop"
| "icmp_helper I16x8ShrS = binop"
| "icmp_helper I16x8ShrU = binop"
| "icmp_helper I32x4Shl = binop"
| "icmp_helper I32x4ShrS = binop"
| "icmp_helper I32x4ShrU = binop"
| "icmp_helper I64x2Shl = binop"
| "icmp_helper I64x2ShrS = binop"
| "icmp_helper I64x2ShrU = binop"

primrec iarith2_helper :: "simd_iarith2 \<Rightarrow> op \<Rightarrow> unit lowering" where
  "iarith2_helper I8x16AddSatS = binop"
| "iarith2_helper I8x16AddSatU = binop"
| "iarith2_helper I8x16SubSatS = binop"
| "iarith2_helper I8x16SubSatU = binop"
| "iarith2_helper I16x8AddSatS = binop"
| "iarith2_helper I16x8AddSatU = binop"
| "iarith2_helper I16x8SubSatS = binop"
| "iarith2_helper I16x8SubSatU = binop"
| "iarith2_helper I16x8Q15MulrSatS = binop"
| "iarith2_helper I8x16NarrowI16x8S = binop"
| "iarith2_helper I8x16NarrowI16x8U = binop"
| "iarith2_helper I16x8NarrowI32x4S = binop"
| "iarith2_helper I16x8NarrowI32x4U = binop"
| "iarith2_helper I16x8ExtendLowI8x16S = unop"
| "iarith2_helper I16x8ExtendHighI8x16S = unop"
| "iarith2_helper I16x8ExtendLowI8x16U = unop"
| "iarith2_helper I16x8ExtendHighI8x16U = unop"
| "iarith2_helper I32x4ExtendLowI16x8S = unop"
| "iarith2_helper I32x4ExtendHighI16x8S = unop"
| "iarith2_helper I32x4ExtendLowI16x8U = unop"
| "iarith2_helper I32x4ExtendHighI16x8U = unop"
| "iarith2_helper I64x2ExtendLowI32x4S = unop"
| "iarith2_helper I64x2ExtendHighI32x4S = unop"
| "iarith2_helper I64x2ExtendLowI32x4U = unop"
| "iarith2_helper I64x2ExtendHighI32x4U = unop"
| "iarith2_helper I16x8ExtAddPairwiseI8x16S = unop"
| "iarith2_helper I16x8ExtAddPairwiseI8x16U = unop"
| "iarith2_helper I32x4ExtAddPairwiseI16x8S = unop"
| "iarith2_helper I32x4ExtAddPairwiseI16x8U = unop"
| "iarith2_helper I16x8ExtMulLowI8x16S = binop"
| "iarith2_helper I16x8ExtMulHighI8x16S = binop"
| "iarith2_helper I16x8ExtMulLowI8x16U = binop"
| "iarith2_helper I16x8ExtMulHighI8x16U = binop"
| "iarith2_helper I32x4ExtMulLowI16x8S = binop"
| "iarith2_helper I32x4ExtMulHighI16x8S = binop"
| "iarith2_helper I32x4ExtMulLowI16x8U = binop"
| "iarith2_helper I32x4ExtMulHighI16x8U = binop"
| "iarith2_helper I64x2ExtMulLowI32x4S = binop"
| "iarith2_helper I64x2ExtMulHighI32x4S = binop"
| "iarith2_helper I64x2ExtMulLowI32x4U = binop"
| "iarith2_helper I64x2ExtMulHighI32x4U = binop"
| "iarith2_helper I32x4DotI16x8S = binop"

primrec farith_helper :: "simd_farith \<Rightarrow> op \<Rightarrow> unit lowering" where
  "farith_helper F32x4Add = binop"
| "farith_helper F32x4Sub = binop"
| "farith_helper F32x4Mul = binop"
| "farith_helper F32x4Div = binop"
| "farith_helper F32x4Min = binop"
| "farith_helper F32x4Max = binop"
| "farith_helper F32x4PMin = binop"
| "farith_helper F32x4PMax = binop"
| "farith_helper F32x4Sqrt = unop"
| "farith_helper F32x4Ceil = unop"
| "farith_helper F32x4Floor = unop"
| "farith_helper F32x4Trunc = unop"
| "farith_helper F32x4Nearest = unop"
| "farith_helper F32x4Abs = unop"
| "farith_helper F32x4Neg = unop"
| "farith_helper F64x2Add = binop"
| "farith_helper F64x2Sub = binop"
| "farith_helper F64x2Mul = binop"
| "farith_helper F64x2Div = binop"
| "farith_helper F64x2Min = binop"
| "farith_helper F64x2Max = binop"
| "farith_helper F64x2PMin = binop"
| "farith_helper F64x2PMax = binop"
| "farith_helper F64x2Sqrt = unop"
| "farith_helper F64x2Ceil = unop"
| "farith_helper F64x2Floor = unop"
| "farith_helper F64x2Trunc = unop"
| "farith_helper F64x2Nearest = unop"
| "farith_helper F64x2Abs = unop"
| "farith_helper F64x2Neg = unop"

primrec fcmp_helper :: "simd_fcmp \<Rightarrow> op \<Rightarrow> unit lowering" where
  "fcmp_helper F32x4Eq = binop"
| "fcmp_helper F32x4Ne = binop"
| "fcmp_helper F32x4Lt = binop"
| "fcmp_helper F32x4Gt = binop"
| "fcmp_helper F32x4Le = binop"
| "fcmp_helper F32x4Ge = binop"
| "fcmp_helper F64x2Eq = binop"
| "fcmp_helper F64x2Ne = binop"
| "fcmp_helper F64x2Lt = binop"
| "fcmp_helper F64x2Gt = binop"
| "fcmp_helper F64x2Le = binop"
| "fcmp_helper F64x2Ge = binop"

primrec cvt_helper :: "simd_cvt \<Rightarrow> op \<Rightarrow> unit lowering" where
  "cvt_helper I32x4TruncSatF32x4S = unop"
| "cvt_helper I32x4TruncSatF32x4U = unop"
| "cvt_helper F32x4ConvertI32x4S = unop"
| "cvt_helper F32x4ConvertI32x4U = unop"
| "cvt_helper I32x4TruncSatF64x2SZero = unop"
| "cvt_helper I32x4TruncSatF64x2UZero = unop"
| "cvt_helper F64x2ConvertLowI32x4S = unop"
| "cvt_helper F64x2ConvertLowI32x4U = unop"
| "cvt_helper F32x4DemoteF64x2Zero = unop"
| "cvt_helper F64x2PromoteLowF32x4 = unop"

primrec relaxed_helper :: "simd_relaxed \<Rightarrow> op \<Rightarrow> unit lowering" where
  "relaxed_helper I8x16RelaxedSwizzle = binop"
| "relaxed_helper I32x4RelaxedTruncF32x4S = unop"
| "relaxed_helper I32x4RelaxedTruncF32x4U = unop"
| "relaxed_helper I32x4RelaxedTruncF64x2SZero = unop"
| "relaxed_helper I32x4RelaxedTruncF64x2UZero = unop"
| "relaxed_helper F32x4RelaxedMadd = ternary"
| "relaxed_helper F32x4RelaxedNmadd = ternary"
| "relaxed_helper F64x2RelaxedMadd = ternary"
| "relaxed_helper F64x2RelaxedNmadd = ternary"
| "relaxed_helper I8x16RelaxedLaneselect = ternary"
| "relaxed_helper I16x8RelaxedLaneselect = ternary"
| "relaxed_helper I32x4RelaxedLaneselect = ternary"
| "relaxed_helper I64x2RelaxedLaneselect = ternary"
| "relaxed_helper F32x4RelaxedMin = binop"
| "relaxed_helper F32x4RelaxedMax = binop"
| "relaxed_helper F64x2RelaxedMin = binop"
| "relaxed_helper F64x2RelaxedMax = binop"
| "relaxed_helper I16x8RelaxedQ15mulrS = binop"
| "relaxed_helper I16x8RelaxedDotI8x16I7x16S = binop"
| "relaxed_helper I32x4RelaxedDotI8x16I7x16AddS = ternary"

definition visit_simd :: "(simd_op \<Rightarrow> op) \<Rightarrow> simd_op \<Rightarrow> unit lowering" where
  "visit_simd inject s = if_reachable (case s of
     SimdMem k m \<Rightarrow> bindc (memarg m) (\<lambda>m'. mem_helper k (inject (SimdMem k m')))
   | SimdMemLane k m l \<Rightarrow> bindc (memarg m) (\<lambda>m'. mem_lane_helper k (inject (SimdMemLane k m' l)))
   | SimdLane k \<Rightarrow> lane_helper k (inject s)
   | SimdBit k \<Rightarrow> bit_helper k (inject s)
   | SimdIarith k \<Rightarrow> iarith_helper k (inject s)
   | SimdIcmp k \<Rightarrow> icmp_helper k (inject s)
   | SimdIarith2 k \<Rightarrow> iarith2_helper k (inject s)
   | SimdFarith k \<Rightarrow> farith_helper k (inject s)
   | SimdFcmp k \<Rightarrow> fcmp_helper k (inject s)
   | SimdCvt k \<Rightarrow> cvt_helper k (inject s)
   | SimdRelaxed k \<Rightarrow> relaxed_helper k (inject s))"

section \<open>Heights\<close>

text \<open>\<open>delta act d\<close>: when it succeeds, the action leaves \<open>d\<close> operands more. \<open>emits a x d\<close>: unless an error is latched, the translation appends \<open>x\<close> and
  moves the height by \<open>d\<close>.\<close>

definition delta :: "('a execution_scheme, 'b) action \<Rightarrow> int \<Rightarrow> bool" where
  "delta act d \<longleftrightarrow> (\<forall>m x m'. act m = (Inr x, m') \<longrightarrow> int (length (ex_values m')) = int (length (ex_values m)) + d)"

definition emits :: "unit lowering \<Rightarrow> op \<Rightarrow> int \<Rightarrow> bool" where
  "emits a x d \<longleftrightarrow> (\<forall>t t'. a t = (Inr (), t') \<longrightarrow> tl_error t' = None \<longrightarrow>
     ca_ops (tl_code t') = ca_ops (tl_code t) @ [x] \<and> int (tl_height t') = int (tl_height t) + d)"

lemma emits_helpers:
  "emits (unop x) x 0" "emits (binop x) x (- 1)" "emits (ternary x) x (- 2)" "emits (storeop x) x (- 2)" "emits (constop x) x 1"
  by (auto simp: emits_def unop_def binop_def ternary_def storeop_def constop_def hpop_def hpush_def emit_def set_ops_def latch_def
      bindc_def checked_sub_def checked_add_def split: option.splits if_splits)

lemma delta_bind: "delta a d \<Longrightarrow> (\<And>x. delta (f x) e) \<Longrightarrow> delta (bindc a f) (d + e)"
  unfolding delta_def bindc_eq_Inr by (smt (verit, best))

lemma delta_basic: "delta (ret x) 0" "delta (lift_res r) 0"
  by (auto simp: delta_def lift_res_def split: sum.splits)

lemma delta_pop: "delta pop_scalar (- 1)"
  by (auto simp: delta_def pop_scalar_def bindc_eq_Inr ensure_scalar_operands_Inr ensure_operands_Inr truncate_to_def)

lemma delta_pops: "delta pop_v128 (- 1)" "delta pop_i32 (- 1)" "delta pop_i64 (- 1)" "delta pop_f32_bits (- 1)" "delta pop_f64_bits (- 1)" "delta (pop_index b) (- 1)"
  unfolding pop_v128_def pop_i32_def pop_i64_def pop_f32_bits_def pop_f64_bits_def pop_index_def
  using delta_bind [OF delta_pop delta_basic(1)] by simp_all

lemma delta_pushes: "delta (push_wide v) 1" "delta (push_v128 w) 1"
  by (auto simp: delta_def push_wide_def push_v128_def bindc_eq_Inr lift_res_def split: sum.splits)

lemma delta_steps:
  "(\<And>x. delta (e x) d) \<Longrightarrow> delta (bindc (lift_res r) e) d" "(\<And>x. delta (f x) (d + 1)) \<Longrightarrow> delta (bindc pop_v128 f) d"
  "(\<And>x. delta (g x) (d + 1)) \<Longrightarrow> delta (bindc pop_i32 g) d" "(\<And>x. delta (h x) (d + 1)) \<Longrightarrow> delta (bindc pop_i64 h) d"
  "(\<And>x. delta (g x) (d + 1)) \<Longrightarrow> delta (bindc pop_f32_bits g) d" "(\<And>x. delta (h x) (d + 1)) \<Longrightarrow> delta (bindc pop_f64_bits h) d"
  using delta_bind [OF delta_basic(2), of e d] delta_bind [OF delta_pops(1), of f "d + 1"] delta_bind [OF delta_pops(2), of g "d + 1"]
    delta_bind [OF delta_pops(3), of h "d + 1"] delta_bind [OF delta_pops(4), of g "d + 1"] delta_bind [OF delta_pops(5), of h "d + 1"] by auto

lemma delta_let: "(\<And>x. delta (f x) d) \<Longrightarrow> delta (let x = e in f x) d"
  by (simp add: Let_def)

lemma delta_push_to: "d = 1 \<Longrightarrow> delta (push_wide v) d" "d = 1 \<Longrightarrow> delta (push_v128 w) d"
  using delta_pushes by simp_all

lemmas delta_intros = delta_steps delta_let delta_push_to

lemma delta_combinators:
  "delta (v_binop s j f) (- 1)" "delta (v_unop s' j' g) 0" "delta (v_cmp s p) (- 1)" "delta (v_shift s j k) (- 1)"
  "delta (v_bitmask w) 0" "delta (v_all_true w) 0" "delta (v_extend s' j' hi g) 0" "delta (v_extmul s' j' hi x) (- 1)"
  "delta (v_extadd s' j' x) 0" "delta (v_narrow s' j' g) (- 1)" "delta (bit_binop b) (- 1)" "delta select_bits (- 2)" "delta swizzle (- 1)"
  "delta dot_i16x8 (- 1)" "delta (low_to_i32x4 t) 0" "delta (low_to_f64x2 o') 0" "delta (fma_f32x4 m3) (- 2)" "delta (fma_f64x2 n3) (- 2)" "delta (extract_lane q r) 0" "delta (replace_lane s j l y) 0"
  unfolding v_binop_def v_unop_def v_cmp_def v_shift_def v_bitmask_def v_all_true_def v_extend_def v_extmul_def v_extadd_def v_narrow_def
    bit_binop_def select_bits_def swizzle_def dot_i16x8_def low_to_i32x4_def low_to_f64x2_def fma_f32x4_def fma_f64x2_def extract_lane_def replace_lane_def
  by (intro delta_intros; simp)+

lemma delta_query: "(\<And>x. delta (f x) d) \<Longrightarrow> delta (bindc (inner_of q) f) d" "(\<And>x. delta (g x) d) \<Longrightarrow> delta (bindc (lift_opt e y) g) d"
    "delta (upd_inner h) 0" "delta (fail e) d"
  by (auto simp: delta_def bindc_eq_Inr lift_opt_def split: option.splits)

lemma delta_mem_ea: "delta (mem_ea n e off) (- 1)"
proof -
  have "delta (if p then fail e' else ret x) 0" for p e' and x :: nat by (simp add: delta_query delta_basic)
  then have "delta (bindc (lift_opt mem_oob (checked_add u64_max addr off)) (\<lambda>ea. bindc (lift_opt mem_oob (checked_add u64_max ea n))
      (\<lambda>z. if length (me_bytes e) < z then fail mem_oob else ret ea))) 0" for addr by (intro delta_query) 
  from delta_bind [OF delta_pops(6) this] show ?thesis by (simp add: mem_ea_def)
qed

lemma delta_memory: "delta (load_n n c inst m) (- 1)" "delta (store_n c inst m bs) (- 1)"
proof -
  have "delta (bindc (mem_ea n e off) (\<lambda>ea. lift_res (slice_range (me_bytes e) ea (ea + n)))) (- 1)" for n e off
    using delta_bind [OF delta_mem_ea delta_basic(2)] by simp
  then show "delta (load_n n c inst m) (- 1)" unfolding load_n_def by (intro delta_steps(1) delta_query) (auto split: prod.split intro!: delta_query)
  have "delta (bindc (mem_ea n e off) (\<lambda>ea. upd_inner (h ea))) (- 1)" for n e off h
    using delta_bind [OF delta_mem_ea delta_query(3)] by simp
  then show "delta (store_n c inst m bs) (- 1)" unfolding store_n_def by (intro delta_steps(1) delta_query) (auto split: prod.split intro!: delta_query)
qed

lemma delta_load: "(\<And>x. delta (f x) (d + 1)) \<Longrightarrow> delta (bindc (load_n n c inst m) f) d"
  using delta_bind [OF delta_memory(1), of f "d + 1"] by simp

lemma delta_store_to: "d = - 1 \<Longrightarrow> delta (store_n c inst m bs) d"
  using delta_memory(2) by simp

lemma delta_lanes: "delta (load_lane n s j c inst m l) (- 1)" "delta (store_lane n s c inst m l) (- 2)"
  unfolding load_lane_def store_lane_def by (intro delta_intros delta_load delta_store_to; simp)+

section \<open>Agreement\<close>

definition agree :: "unit lowering \<Rightarrow> op \<Rightarrow> ('a execution_scheme, unit) action \<Rightarrow> bool" where
  "agree a x e \<longleftrightarrow> (\<exists>d. emits a x d \<and> delta e d)"

lemma agreeI: "emits a x d \<Longrightarrow> delta e d \<Longrightarrow> agree a x e"
  by (auto simp: agree_def)

lemmas agree_rules = emits_helpers [THEN agreeI]

lemma agree_iarith: "agree (iarith_helper k x) x (exec_simd_iarith k)"
  by (cases k) (simp_all add: agree_rules delta_combinators)

lemma agree_icmp: "agree (icmp_helper k x) x (exec_simd_icmp k)"
  by (cases k) (simp_all add: agree_rules delta_combinators)

lemma agree_iarith2: "agree (iarith2_helper k x) x (exec_simd_iarith2 k)"
  by (cases k) (simp_all add: agree_rules delta_combinators)

lemma agree_float: "agree (farith_helper k x) x (exec_simd_farith k)" "agree (fcmp_helper l x) x (exec_simd_fcmp l)"
  by (cases k, simp_all add: agree_rules delta_combinators) (cases l, simp_all add: agree_rules delta_combinators)

lemma agree_cvt: "agree (cvt_helper k x) x (exec_simd_cvt k)"
  by (cases k) (simp_all add: agree_rules delta_combinators)

lemma delta_rest: "delta (exec_simd_bit V128Not) 0" "delta (exec_simd_bit V128AnyTrue) 0"
  "delta (exec_simd_relaxed I16x8RelaxedDotI8x16I7x16S) (- 1)" "delta (exec_simd_relaxed I32x4RelaxedDotI8x16I7x16AddS) (- 2)"
  by (simp_all, (intro delta_intros; simp)+)

lemma agree_bit: "agree (bit_helper k x) x (exec_simd_bit k)"
  by (cases k) (simp_all add: agree_rules delta_combinators delta_rest(1,2) [simplified])

lemma agree_relaxed: "agree (relaxed_helper k x) x (exec_simd_relaxed k)"
  by (cases k) (simp_all add: agree_rules delta_combinators delta_rest(3,4) [simplified])

lemma delta_scalar:
  "(\<And>x. delta (f x) 0) \<Longrightarrow> delta (bindc pop_i32 f) (- 1)" "(\<And>x. delta (g x) 0) \<Longrightarrow> delta (bindc pop_i64 g) (- 1)"
  "(\<And>x. delta (f x) 0) \<Longrightarrow> delta (bindc pop_f32_bits f) (- 1)" "(\<And>x. delta (g x) 0) \<Longrightarrow> delta (bindc pop_f64_bits g) (- 1)"
  "(\<And>x. delta (f x) 1) \<Longrightarrow> delta (bindc pop_i32 f) 0" "(\<And>x. delta (g x) 1) \<Longrightarrow> delta (bindc pop_i64 g) 0"
  "(\<And>x. delta (f x) 1) \<Longrightarrow> delta (bindc pop_f32_bits f) 0" "(\<And>x. delta (g x) 1) \<Longrightarrow> delta (bindc pop_f64_bits g) 0"
  by (rule delta_steps; simp)+

lemma delta_shuffle: "delta (exec_simd_lane (I8x16Shuffle idx)) (- 1)"
  by simp (intro delta_intros; simp)

lemma agree_lane: "agree (lane_helper k x) x (exec_simd_lane k)"
  by (cases k) (simp_all add: agree_rules delta_combinators delta_scalar delta_pushes delta_shuffle [simplified])

lemma agree_mem: "agree (mem_helper k x) x (exec_simd_mem k m c inst)"
proof -
  have "delta (bindc (load_n n c inst m) (\<lambda>b. push_v128 (f b))) 0" for n f by (intro delta_load delta_intros) simp
  moreover have "delta (bindc pop_v128 (\<lambda>v. store_n c inst m (le_bytes 16 v))) (- 2)" by (intro delta_intros delta_store_to) simp
  ultimately show ?thesis by (cases k) (simp_all add: agree_rules del: le_bytes.simps)
qed

lemma agree_mem_lane: "agree (mem_lane_helper k x) x (exec_simd_mem_lane k m l c inst)"
  by (cases k) (simp_all add: agree_rules delta_lanes)

lemma agreeD:
  assumes "agree a x e" and "a t = (Inr (), t')" and "tl_error t' = None"
  shows "ca_ops (tl_code t') = ca_ops (tl_code t) @ [x]"
    and "e m = (Inr (), m') \<Longrightarrow> int (length (ex_values m')) - int (length (ex_values m)) = int (tl_height t') - int (tl_height t)"
  using assms unfolding agree_def emits_def delta_def by (fastforce, fastforce)

text \<open>The operator an operator is emitted as: itself, but for the address immediate, which is packed.\<close>

fun repacked :: "simd_op \<Rightarrow> simd_op \<Rightarrow> bool" where
  "repacked (SimdMem k m) (SimdMem k' m') \<longleftrightarrow> k' = k"
| "repacked (SimdMemLane k m l) (SimdMemLane k' m' l') \<longleftrightarrow> k' = k \<and> l' = l"
| "repacked s s' \<longleftrightarrow> s' = s"

lemma memarg_keeps: "\<exists>m' t1. memarg m t = (Inr m', t1) \<and> tl_height t1 = tl_height t \<and> ca_ops (tl_code t1) = ca_ops (tl_code t)"
  by (simp add: memarg_def)

text \<open>Every operator is emitted, after its immediate is packed, by an action that agrees with its handler.\<close>

lemma visit_simd_cases:
  assumes "tl_reachable t"
  obtains a s' t1 where "visit_simd inject s t = a t1" "repacked s s'" "\<forall>c inst. agree a (inject s') (exec_simd c s' inst)"
    "tl_height t1 = tl_height t" "ca_ops (tl_code t1) = ca_ops (tl_code t)"
proof (cases s)
  case (SimdMem k m)
  obtain m' t1 where "memarg m t = (Inr m', t1)" "tl_height t1 = tl_height t" "ca_ops (tl_code t1) = ca_ops (tl_code t)" using memarg_keeps by blast
  with assms SimdMem show thesis
    by (intro that [of "mem_helper k (inject (SimdMem k m'))" t1 "SimdMem k m'"]) (auto simp: visit_simd_def if_reachable_def bindc_def exec_simd_def agree_mem)
next
  case (SimdMemLane k m l)
  obtain m' t1 where "memarg m t = (Inr m', t1)" "tl_height t1 = tl_height t" "ca_ops (tl_code t1) = ca_ops (tl_code t)" using memarg_keeps by blast
  with assms SimdMemLane show thesis
    by (intro that [of "mem_lane_helper k (inject (SimdMemLane k m' l))" t1 "SimdMemLane k m' l"])
      (auto simp: visit_simd_def if_reachable_def bindc_def exec_simd_def agree_mem_lane)
next
  case (SimdLane k)
  with assms show thesis by (intro that [of "lane_helper k (inject s)" t s]) (simp_all add: visit_simd_def if_reachable_def exec_simd_def agree_lane)
next
  case (SimdBit k)
  with assms show thesis by (intro that [of "bit_helper k (inject s)" t s]) (simp_all add: visit_simd_def if_reachable_def exec_simd_def agree_bit)
next
  case (SimdIarith k)
  with assms show thesis by (intro that [of "iarith_helper k (inject s)" t s]) (simp_all add: visit_simd_def if_reachable_def exec_simd_def agree_iarith)
next
  case (SimdIcmp k)
  with assms show thesis by (intro that [of "icmp_helper k (inject s)" t s]) (simp_all add: visit_simd_def if_reachable_def exec_simd_def agree_icmp)
next
  case (SimdIarith2 k)
  with assms show thesis by (intro that [of "iarith2_helper k (inject s)" t s]) (simp_all add: visit_simd_def if_reachable_def exec_simd_def agree_iarith2)
next
  case (SimdFarith k)
  with assms show thesis by (intro that [of "farith_helper k (inject s)" t s]) (simp_all add: visit_simd_def if_reachable_def exec_simd_def agree_float(1))
next
  case (SimdFcmp k)
  with assms show thesis by (intro that [of "fcmp_helper k (inject s)" t s]) (simp_all add: visit_simd_def if_reachable_def exec_simd_def agree_float(2))
next
  case (SimdCvt k)
  with assms show thesis by (intro that [of "cvt_helper k (inject s)" t s]) (simp_all add: visit_simd_def if_reachable_def exec_simd_def agree_cvt)
next
  case (SimdRelaxed k)
  with assms show thesis by (intro that [of "relaxed_helper k (inject s)" t s]) (simp_all add: visit_simd_def if_reachable_def exec_simd_def agree_relaxed)
qed

section \<open>Properties\<close>

text \<open>C22. The operand height the translator tracks for a vector instruction is the one the interpreter produces: when a reachable vector operator is
  translated without a latched error, exactly one instruction is emitted, the operator itself with its address immediate packed, and running it, if it
  does not trap, changes the number of operands by exactly what the translator added to its height.\<close>

theorem simd_height_agrees:
  assumes "tl_reachable t" and "visit_simd inject s t = (Inr (), t')" and "tl_error t' = None"
  shows "\<exists>s'. repacked s s' \<and> ca_ops (tl_code t') = ca_ops (tl_code t) @ [inject s'] \<and> (\<forall>c inst m m'. exec_simd c s' inst m = (Inr (), m') \<longrightarrow>
    int (length (ex_values m')) - int (length (ex_values m)) = int (tl_height t') - int (tl_height t))"
proof -
  obtain a s' t1 where a: "a t1 = (Inr (), t')" and s': "repacked s s'" and ag: "\<forall>c inst. agree a (inject s') (exec_simd c s' inst)"
    and t1: "tl_height t1 = tl_height t" "ca_ops (tl_code t1) = ca_ops (tl_code t)"
    using visit_simd_cases [OF assms(1), of inject s] assms(2) by metis
  note d = agreeD [where a = a and t = t1 and t' = t' and x = "inject s'", OF _ a assms(3)]
  have "int (length (ex_values m')) - int (length (ex_values m)) = int (tl_height t') - int (tl_height t)"
    if "exec_simd c s' inst m = (Inr (), m')" for c inst m m'
    using d(2) [of "exec_simd c s' inst" m m'] that ag t1 by auto
  with s' t1 ag show ?thesis using d(1) [of "exec_simd c s' inst" for c inst] by auto
qed

theorem simd_height_agrees_witness:
  "let t = (translator_new \<lparr>ca_ops = [], ca_local_types = [], ca_handlers = [], ca_br_tables = [], ca_big_memargs = []\<rparr>)\<lparr>tl_height := 2\<rparr>;
       t' = snd (visit_simd (\<lambda>_. OpNop) (SimdBit V128And) t) in
   tl_reachable t \<and> visit_simd (\<lambda>_. OpNop) (SimdBit V128And) t = (Inr (), t') \<and> tl_error t' = None \<and> tl_height t' = 1 \<and>
   (\<exists>s'. repacked (SimdBit V128And) s' \<and> ca_ops (tl_code t') = [OpNop])"
proof -
  define t where "t = (translator_new \<lparr>ca_ops = [], ca_local_types = [], ca_handlers = [], ca_br_tables = [], ca_big_memargs = []\<rparr>)\<lparr>tl_height := 2\<rparr>"
  define t' where "t' = snd (visit_simd (\<lambda>_. OpNop) (SimdBit V128And) t)"
  have h: "tl_reachable t" "visit_simd (\<lambda>_. OpNop) (SimdBit V128And) t = (Inr (), t')" "tl_error t' = None" "tl_height t' = 1"
    unfolding t'_def t_def by code_simp+
  have "ca_ops (tl_code t) = []" by (simp add: t_def translator_new_def)
  with simd_height_agrees [OF h(1-3)] h show ?thesis unfolding t'_def t_def Let_def by auto
qed

end
