(* ===== verification/Ieee_Round.thy ===== *)
theory Ieee_Round
  imports Complex_Main Ieee
begin

text \<open>
  Rounding of exact results. Codes are strictly ordered by the magnitudes they stand for (\<open>units_strict\<close>); the two rounding functions of \<open>Ieee\<close> give the nearest
  code, the even one of two equally near (\<open>nearest_ratio\<close>, \<open>nearest_root\<close>). The locale \<open>float_format\<close> carries this to the words of a format, with the
  overflow to infinity.
\<close>

section \<open>Codes\<close>

lemma units_code:
  assumes "0 \<le> q" and "q \<le> 2 ^ Suc mb" and "s = 0 \<or> 2 ^ mb \<le> q"
  shows "code_units mb (int s * 2 ^ mb + q) = q * 2 ^ s"
proof -
  consider "q < 2 ^ mb" "s = 0" | "2 ^ mb \<le> q" "q < 2 ^ Suc mb" | "q = 2 ^ Suc mb" using assms by fastforce
  then show ?thesis
  proof cases
    case 1
    then show ?thesis using assms(1) by (simp add: code_units_def)
  next
    case 2
    define f where "f = q - 2 ^ mb"
    have f: "0 \<le> f" "f < 2 ^ mb" using 2 by (auto simp: f_def)
    have q: "q = 2 ^ mb + f" by (simp add: f_def)
    have k: "int s * 2 ^ mb + q = f + int (Suc s) * 2 ^ mb" by (simp add: q algebra_simps)
    have "(int s * 2 ^ mb + q) div 2 ^ mb = int (Suc s)" "(int s * 2 ^ mb + q) mod 2 ^ mb = f"
      unfolding k using f by (simp_all add: div_add1_eq)
    moreover have "nat (int (Suc s)) - 1 = s" by simp
    ultimately have "code_units mb (int s * 2 ^ mb + q) = (2 ^ mb + f) * 2 ^ s" by (simp only: code_units_def Let_def) simp
    then show ?thesis by (simp only: q)
  next
    case 3
    have k: "int s * 2 ^ mb + q = int (s + 2) * 2 ^ mb" by (simp add: 3 algebra_simps)
    have "nat (int (s + 2)) - 1 = Suc s" by simp
    then show ?thesis unfolding k by (simp add: code_units_def 3)
  qed
qed

lemma code_split:
  assumes "0 \<le> (k::int)"
  obtains s q where "k = int s * 2 ^ mb + q" "0 \<le> q" "q < 2 ^ Suc mb" "s = 0 \<or> 2 ^ mb \<le> q"
proof (cases "k < 2 ^ mb")
  case True
  then show thesis using assms by (intro that [of 0 k]) auto
next
  case False
  let ?e = "k div 2 ^ mb"
  have e: "1 \<le> ?e" using False by (simp add: pos_imp_zdiv_pos_iff int_one_le_iff_zero_less)
  have k: "k = ?e * 2 ^ mb + k mod 2 ^ mb" by (simp add: div_mult_mod_eq)
  have m: "0 \<le> k mod 2 ^ mb" "k mod 2 ^ mb < 2 ^ mb" by simp_all
  show thesis
  proof (rule that [of "nat (?e - 1)" "2 ^ mb + k mod 2 ^ mb"])
    show "k = int (nat (?e - 1)) * 2 ^ mb + (2 ^ mb + k mod 2 ^ mb)" using e k by (simp add: algebra_simps)
  qed (use m in auto)
qed

lemma units_step:
  assumes "0 \<le> k"
  shows "code_units mb k < code_units mb (k + 1)"
proof -
  obtain s q where k: "k = int s * 2 ^ mb + q" "0 \<le> q" "q < 2 ^ Suc mb" "s = 0 \<or> 2 ^ mb \<le> q" using code_split [OF assms] .
  have "code_units mb k = q * 2 ^ s" "code_units mb (k + 1) = (q + 1) * 2 ^ s"
    using units_code [of q mb s] units_code [of "q + 1" mb s] k by (auto simp: algebra_simps)
  then show ?thesis by (simp add: algebra_simps)
qed

lemma units_strict:
  assumes "0 \<le> j" and "j < k"
  shows "code_units mb j < code_units mb k"
proof -
  have "code_units mb j < code_units mb (j + 1 + int n)" for n
  proof (induction n)
    case 0
    then show ?case using units_step [OF assms(1)] by simp
  next
    case (Suc n)
    then show ?case using units_step [of "j + 1 + int n" mb] assms(1) by (simp add: algebra_simps)
  qed
  from this [of "nat (k - j - 1)"] assms(2) show ?thesis by simp
qed

lemma units_mono: "0 \<le> j \<Longrightarrow> j \<le> k \<Longrightarrow> code_units mb j \<le> code_units mb k"
  using units_strict [of j k mb] by (cases "j = k") auto

lemma units_less_iff: "0 \<le> j \<Longrightarrow> 0 \<le> k \<Longrightarrow> code_units mb j < code_units mb k \<longleftrightarrow> j < k"
  using units_strict [of j k mb] units_mono [of k j mb] by (metis leD not_le_imp_less)

lemma units_eq_iff: "0 \<le> j \<Longrightarrow> 0 \<le> k \<Longrightarrow> code_units mb j = code_units mb k \<longleftrightarrow> j = k"
  by (metis less_irrefl linorder_less_linear units_strict)

lemma units_zero [simp]: "code_units mb 0 = 0"
  by (simp add: code_units_def)

lemma units_nonneg: "0 \<le> k \<Longrightarrow> 0 \<le> code_units mb k"
  using units_mono [of 0 k mb] by simp

section \<open>The nearest code\<close>

definition nearest :: "nat \<Rightarrow> real \<Rightarrow> int \<Rightarrow> bool" where
  "nearest mb x k \<longleftrightarrow> 0 \<le> k \<and> (\<forall>j \<ge> 0. j \<noteq> k \<longrightarrow>
     \<bar>x - code_units mb k\<bar> < \<bar>x - code_units mb j\<bar> \<or> \<bar>x - code_units mb k\<bar> = \<bar>x - code_units mb j\<bar> \<and> even k)"

lemma nearest_between:
  fixes x :: real
  assumes "0 \<le> k" and "code_units mb k \<le> x" and "x < code_units mb (k + 1)"
  defines "m \<equiv> (code_units mb k + code_units mb (k + 1)) / (2::real)"
  shows "x < m \<or> x = m \<and> even k \<Longrightarrow> nearest mb x k" "m < x \<or> x = m \<and> odd k \<Longrightarrow> nearest mb x (k + 1)"
proof -
  have low: "code_units mb j \<le> code_units mb k" if "0 \<le> j" "j \<le> k" for j using units_mono that by blast
  have low': "code_units mb j < code_units mb k" if "0 \<le> j" "j < k" for j using units_strict that by blast
  have high: "code_units mb (k + 1) \<le> code_units mb j" if "k < j" for j using units_mono [of "k + 1" j] that assms(1) by auto
  have high': "code_units mb (k + 1) < code_units mb j" if "k + 1 < j" for j using units_strict [of "k + 1" j] that assms(1) by auto
  show "nearest mb x k" if c: "x < m \<or> x = m \<and> even k"
    unfolding nearest_def
  proof (intro conjI allI impI)
    fix j assume j: "0 \<le> j" "j \<noteq> k"
    show "\<bar>x - code_units mb k\<bar> < \<bar>x - code_units mb j\<bar> \<or> \<bar>x - code_units mb k\<bar> = \<bar>x - code_units mb j\<bar> \<and> even k"
    proof (cases "j < k")
      case True
      then show ?thesis using low' [OF j(1)] assms(2) by auto
    next
      case False
      with high [of j] j have "code_units mb (k + 1) \<le> (code_units mb j :: real)" by simp
      with assms(2,3) c show ?thesis by (auto simp: m_def field_simps)
    qed
  qed (rule assms)
  show "nearest mb x (k + 1)" if c: "m < x \<or> x = m \<and> odd k"
    unfolding nearest_def
  proof (intro conjI allI impI)
    fix j assume j: "0 \<le> j" "j \<noteq> k + 1"
    show "\<bar>x - code_units mb (k + 1)\<bar> < \<bar>x - code_units mb j\<bar> \<or> \<bar>x - code_units mb (k + 1)\<bar> = \<bar>x - code_units mb j\<bar> \<and> even (k + 1)"
    proof (cases "j \<le> k")
      case True
      then have "code_units mb j \<le> (code_units mb k :: real)" using low [OF j(1)] by simp
      with assms(2,3) c show ?thesis by (auto simp: m_def field_simps)
    next
      case False
      with high' [of j] j have "code_units mb (k + 1) < (code_units mb j :: real)" by simp
      with assms(2,3) show ?thesis by auto
    qed
  qed (use assms in simp)
qed

lemma nearest_half:
  fixes x :: real
  assumes "0 < mb" and "0 \<le> q" "q < 2 ^ Suc mb" "s = 0 \<or> 2 ^ mb \<le> q" and "real_of_int q * 2 ^ s \<le> x" "x < (real_of_int q + 1) * 2 ^ s"
    and "c < 0 \<longleftrightarrow> 2 * x < (2 * real_of_int q + 1) * 2 ^ s" "0 < c \<longleftrightarrow> (2 * real_of_int q + 1) * 2 ^ s < 2 * x"
  shows "nearest mb x (int s * 2 ^ mb + round_half q c)"
proof -
  let ?k = "int s * 2 ^ mb + q"
  have u: "code_units mb ?k = q * 2 ^ s" "code_units mb (?k + 1) = (q + 1) * 2 ^ s"
    using units_code [of q mb s] units_code [of "q + 1" mb s] assms(2-4) by (auto simp: algebra_simps)
  have ev: "even ?k \<longleftrightarrow> even q" using assms(1) by simp
  have mid: "(code_units mb ?k + code_units mb (?k + 1)) / (2::real) = (2 * real_of_int q + 1) * 2 ^ s / 2" unfolding u by (simp add: algebra_simps)
  have le: "0 \<le> ?k" using assms(2) by simp
  have bnd: "code_units mb ?k \<le> x" "x < code_units mb (?k + 1)" unfolding u using assms(5,6) by simp_all
  note n = nearest_between [OF le bnd, unfolded mid]
  consider "c < 0" | "0 < c" | "c = 0" "even q" | "c = 0" "odd q" by linarith
  then show ?thesis
  proof cases
    case 1
    then show ?thesis using n(1) assms(7) by (simp add: round_half_def)
  next
    case 2
    then show ?thesis using n(2) assms(8) by (simp add: round_half_def algebra_simps)
  next
    case 3
    then have "x = (2 * real_of_int q + 1) * 2 ^ s / 2" using assms(7,8) by simp
    then show ?thesis using n(1) 3 ev by (simp add: round_half_def)
  next
    case 4
    then have "x = (2 * real_of_int q + 1) * 2 ^ s / 2" using assms(7,8) by simp
    then show ?thesis using n(2) 4 ev assms(1) by (simp add: round_half_def odd_iff_mod_2_eq_one add.assoc)
  qed
qed

section \<open>Quotients and roots\<close>

lemma nbits_bounds: "0 < n \<Longrightarrow> 0 < nbits n \<and> 2 ^ (nbits n - 1) \<le> n \<and> n < 2 ^ nbits n"
proof (induction n rule: nbits.induct)
  case (1 n)
  show ?case
  proof (cases "n = 1")
    case True
    have "nbits 1 = 1" by (simp add: nbits.simps)
    with True show ?thesis by simp
  next
    case False
    with 1 have b: "0 < nbits (n div 2)" "2 ^ (nbits (n div 2) - 1) \<le> n div 2" "n div 2 < 2 ^ nbits (n div 2)" by (simp_all add: pos_imp_zdiv_pos_iff)
    obtain p where p: "nbits (n div 2) = Suc p" using b(1) by (cases "nbits (n div 2)") auto
    have "nbits n = Suc (Suc p)" using 1 p by (simp add: nbits.simps [of n])
    with b p show ?thesis by simp linarith
  qed
qed

lemma nbits_le: "0 \<le> n \<Longrightarrow> n < 2 ^ nbits n"
  using nbits_bounds [of n] by (cases "n = 0") auto

lemma le_div_int:
  fixes d :: int
  assumes "0 < d"
  shows "i \<le> n div d \<longleftrightarrow> i * d \<le> n"
proof
  assume "i \<le> n div d"
  then have "i * d \<le> n div d * d" using assms by (simp add: mult_right_mono)
  also have "\<dots> \<le> n" using assms by (simp add: minus_mod_eq_div_mult [symmetric])
  finally show "i * d \<le> n" .
next
  assume "i * d \<le> n"
  then show "i \<le> n div d" using zdiv_mono1 [of "i * d" n d] assms by simp
qed

text \<open>The shift leaves as many bits as a significand has.\<close>

lemma shifted_bounds:
  assumes "0 \<le> n" and "s = nbits n - Suc mb"
  shows "0 \<le> n div 2 ^ s" "n div 2 ^ s < 2 ^ Suc mb" "s = 0 \<or> 2 ^ mb \<le> n div 2 ^ s"
proof -
  show "0 \<le> n div 2 ^ s" using assms(1) by (simp add: pos_imp_zdiv_nonneg_iff)
  have "(2::int) ^ nbits n \<le> 2 ^ (Suc mb + s)" using assms(2) by (intro power_increasing) auto
  then have "n < 2 ^ (Suc mb + s)" using nbits_le [OF assms(1)] by simp
  then show "n div 2 ^ s < 2 ^ Suc mb" by (simp add: power_add flip: not_le) (simp add: le_div_int)
  show "s = 0 \<or> 2 ^ mb \<le> n div 2 ^ s"
  proof (cases "s = 0")
    case False
    with assms(2) have b: "nbits n = Suc mb + s" by simp
    then have "0 < n" using assms(1) by (cases "n = 0") (simp_all add: nbits.simps [of 0])
    with nbits_bounds [of n] b have "2 ^ (mb + s) \<le> n" by simp
    then show ?thesis by (simp add: le_div_int power_add)
  qed simp
qed

lemma nearest_ratio:
  assumes "0 < mb" and "0 \<le> n" and "0 < d"
  shows "nearest mb (real_of_int n / d) (round_ratio mb n d)"
proof -
  define s where "s = nbits (n div d) - Suc mb"
  define w where "w = d * 2 ^ s"
  have w: "0 < w" using assms(3) by (simp add: w_def)
  have q: "n div w = n div d div 2 ^ s" unfolding w_def using assms(3) by (simp add: zdiv_zmult2_eq)
  note b = shifted_bounds [of "n div d" s mb, folded q]
  have n: "real_of_int n = real_of_int w * (n div w) + n mod w" by (metis mult_div_mod_eq of_int_add of_int_mult)
  have wr: "real_of_int w = d * 2 ^ s" by (simp add: w_def)
  have m: "0 \<le> n mod w" "n mod w < w" using w by simp_all
  have "nearest mb (real_of_int n / d) (int s * 2 ^ mb + round_half (n div w) (2 * (n mod w) - w))"
  proof (rule nearest_half)
    show "real_of_int (n div w) * 2 ^ s \<le> real_of_int n / d" using assms(3) m by (simp add: field_simps n wr)
    have "real_of_int (n mod w) < w" using m by simp
    then show "real_of_int n / d < (real_of_int (n div w) + 1) * 2 ^ s" using assms(3) by (simp add: field_simps n wr)
    have "2 * (real_of_int n / d) < (2 * real_of_int (n div w) + 1) * 2 ^ s \<longleftrightarrow> 2 * real_of_int (n mod w) < w"
      "(2 * real_of_int (n div w) + 1) * 2 ^ s < 2 * (real_of_int n / d) \<longleftrightarrow> w < 2 * real_of_int (n mod w)"
      using assms(3) by (simp_all add: field_simps n wr)
    then show "(2 * (n mod w) - w < 0) = (2 * (real_of_int n / d) < (2 * real_of_int (n div w) + 1) * 2 ^ s)"
      "(0 < 2 * (n mod w) - w) = ((2 * real_of_int (n div w) + 1) * 2 ^ s < 2 * (real_of_int n / d))" by (simp; linarith)+
  qed (use assms b in \<open>auto simp: s_def pos_imp_zdiv_nonneg_iff\<close>)
  then show ?thesis by (simp add: round_ratio_def Let_def s_def w_def)
qed

lemma isqrt_bounds: "0 \<le> n \<Longrightarrow> 0 \<le> isqrt n \<and> isqrt n * isqrt n \<le> n \<and> n < (isqrt n + 1) * (isqrt n + 1)"
proof (induction n rule: isqrt.induct)
  case (1 n)
  show ?case
  proof (cases "n = 0")
    case True
    then show ?thesis by (simp add: isqrt.simps [of 0])
  next
    case False
    let ?r = "isqrt (n div 4)"
    from False 1 have r: "0 \<le> ?r" "?r * ?r \<le> n div 4" "n div 4 < (?r + 1) * (?r + 1)" by (simp_all add: pos_imp_zdiv_nonneg_iff)
    have "(2 * ?r) * (2 * ?r) \<le> n" using r(2) by (simp add: algebra_simps)
    moreover have "n < (2 * ?r + 2) * (2 * ?r + 2)" using r(3) by (simp add: algebra_simps)
    moreover have "isqrt n = (if (2 * ?r + 1) * (2 * ?r + 1) \<le> n then 2 * ?r + 1 else 2 * ?r)" using False 1 by (simp add: isqrt.simps [of n] Let_def)
    ultimately show ?thesis using r(1) by (simp add: algebra_simps)
  qed
qed

lemma nearest_root:
  assumes "0 < mb" and "0 \<le> n"
  shows "nearest mb (sqrt (real_of_int n)) (round_root mb n)"
proof -
  define r where "r = isqrt n"
  define s where "s = nbits r - Suc mb"
  define q where "q = r div 2 ^ s"
  have r: "0 \<le> r" "r * r \<le> n" "n < (r + 1) * (r + 1)" using isqrt_bounds [OF assms(2)] by (simp_all add: r_def)
  have sq: "sqrt (real_of_int n) * sqrt (real_of_int n) = n" "0 \<le> sqrt (real_of_int n)" using assms(2) by simp_all
  have lo: "real_of_int r \<le> sqrt (real_of_int n)" using r by (intro real_le_rsqrt) (simp add: power2_eq_square flip: of_int_mult)
  have hi: "sqrt (real_of_int n) < real_of_int (r + 1)" using r by (intro real_less_lsqrt) (simp_all add: power2_eq_square flip: of_int_mult of_int_add)
  have "r = q * 2 ^ s + r mod 2 ^ s" "0 \<le> r mod 2 ^ s" "r mod 2 ^ s < 2 ^ s" by (simp_all add: q_def div_mult_mod_eq)
  then have "q * 2 ^ s \<le> r" "r + 1 \<le> (q + 1) * 2 ^ s" unfolding distrib_right by linarith+
  then have "real_of_int (q * 2 ^ s) \<le> r" "real_of_int (r + 1) \<le> real_of_int ((q + 1) * 2 ^ s)" by (simp_all only: of_int_le_iff)
  then have qr: "real_of_int q * 2 ^ s \<le> r" "real_of_int (r + 1) \<le> (real_of_int q + 1) * 2 ^ s" by simp_all
  define h where "h = (2 * q + 1) * 2 ^ s"
  have q0: "0 \<le> q" using r(1) by (simp add: q_def pos_imp_zdiv_nonneg_iff)
  then have h: "0 \<le> h" "real_of_int h = (2 * real_of_int q + 1) * 2 ^ s" by (simp_all add: h_def)
  have half: "2 * sqrt (real_of_int n) < h \<longleftrightarrow> 4 * n < h ^ 2" "h < 2 * sqrt (real_of_int n) \<longleftrightarrow> h ^ 2 < 4 * n"
  proof -
    have e: "2 * sqrt (real_of_int n) = sqrt (real_of_int (4 * n))" "real_of_int h = sqrt (real_of_int (h ^ 2))"
      using h(1) by (simp_all add: real_sqrt_mult)
    show "2 * sqrt (real_of_int n) < h \<longleftrightarrow> 4 * n < h ^ 2" "h < 2 * sqrt (real_of_int n) \<longleftrightarrow> h ^ 2 < 4 * n"
      unfolding e by (simp_all only: real_sqrt_less_iff of_int_less_iff)
  qed
  have "nearest mb (sqrt (real_of_int n)) (int s * 2 ^ mb + round_half q (4 * n - h ^ 2))"
  proof (rule nearest_half)
    show "real_of_int q * 2 ^ s \<le> sqrt (real_of_int n)" using qr(1) lo by linarith
    show "sqrt (real_of_int n) < (real_of_int q + 1) * 2 ^ s" using qr(2) hi by linarith
    show "(4 * n - h ^ 2 < 0) = (2 * sqrt (real_of_int n) < (2 * real_of_int q + 1) * 2 ^ s)" using half(1) unfolding h(2) by linarith
    show "(0 < 4 * n - h ^ 2) = ((2 * real_of_int q + 1) * 2 ^ s < 2 * sqrt (real_of_int n))" using half(2) unfolding h(2) by linarith
  qed (use assms(1) shifted_bounds [OF r(1) s_def, folded q_def] in simp_all)
  then show ?thesis unfolding round_root_def Let_def h_def q_def s_def r_def by simp
qed

end
