(* ===== verification/Ieee_Exact.thy ===== *)
theory Ieee_Exact
  imports Ieee_Format
begin

text \<open>
  The operations of \<open>Ieee\<close> on real numbers: arithmetic, square root, fused multiplication and conversions from integers round the exact result; truncation,
  comparisons and conversions to integers are exact.
\<close>

definition real_trunc :: "real \<Rightarrow> int" where
  "real_trunc r = (if r < 0 then \<lceil>r\<rceil> else \<lfloor>r\<rfloor>)"

lemma units_exact:
  assumes "0 \<le> q" and "q \<le> 2 ^ Suc mb"
  shows "\<exists>j \<ge> 0. code_units mb j = q * 2 ^ s"
  using assms
proof (induction s arbitrary: q)
  case 0
  then show ?case using units_code [of q mb 0] by (intro exI [of _ q]) simp
next
  case (Suc s)
  show ?case
  proof (cases "2 ^ mb \<le> q")
    case True
    then show ?thesis using units_code [of q mb "Suc s"] Suc.prems by (intro exI [of _ "int (Suc s) * 2 ^ mb + q"]) simp
  next
    case False
    then show ?thesis using Suc.IH [of "2 * q"] Suc.prems by (simp add: algebra_simps)
  qed
qed

lemma signed_order:
  fixes i j u v :: int
  assumes "0 \<le> i" "0 \<le> j" "0 \<le> u" "0 \<le> v" "u \<le> v \<longleftrightarrow> i \<le> j" "v \<le> u \<longleftrightarrow> j \<le> i" "u = 0 \<longleftrightarrow> i = 0" "v = 0 \<longleftrightarrow> j = 0"
  shows "(if s then - i else i) \<le> (if t then - j else j) \<longleftrightarrow> (if s then - u else u) \<le> (if t then - v else v)"
proof -
  have "i \<le> - j \<longleftrightarrow> i = 0 \<and> j = 0" "u \<le> - v \<longleftrightarrow> u = 0 \<and> v = 0" using assms(1-4) by linarith+
  moreover have "- i \<le> j" "- u \<le> v" using assms(1-4) by linarith+
  ultimately show ?thesis using assms(5-8) by (cases s; cases t) simp_all
qed

lemma nearest_exact: "0 \<le> j \<Longrightarrow> nearest mb (real_of_int (code_units mb j)) k \<Longrightarrow> k = j"
  using units_eq_iff [of j k mb] by (auto simp: nearest_def)

lemma round_ratio_exact: "0 < mb \<Longrightarrow> 0 \<le> j \<Longrightarrow> round_ratio mb (code_units mb j) 1 = j"
  using nearest_ratio [of mb "code_units mb j" 1] nearest_exact [of j mb] by (simp add: units_nonneg)

context float_format
begin

lemma finite_class: "f_finite mb (z::'l word) \<Longrightarrow> \<not> f_nan mb z \<and> \<not> f_infinite mb z"
  by (auto simp: f_finite_def f_nan_def f_infinite_def)

lemma prec_type [simp]: "f_prec mb TYPE('l) = f_prec mb fmt"
  by (simp add: f_prec_def)

lemma scaled: "f_real mb (a::'l word) * 2 ^ f_prec mb fmt = f_units mb a" "\<bar>f_real mb a\<bar> * 2 ^ f_prec mb fmt = f_mag mb a"
proof -
  show "f_real mb a * 2 ^ f_prec mb fmt = f_units mb a" by (simp add: f_real_def)
  then have "\<bar>f_real mb a * 2 ^ f_prec mb fmt\<bar> = f_mag mb a" by (simp flip: of_int_abs)
  then show "\<bar>f_real mb a\<bar> * 2 ^ f_prec mb fmt = f_mag mb a" by (simp add: abs_mult)
qed

lemma real_sign:
  fixes a :: "'l word"
  shows "f_real mb a < 0 \<longleftrightarrow> f_sign a \<and> f_mag mb a \<noteq> 0" "f_real mb a = 0 \<longleftrightarrow> f_mag mb a = 0"
proof -
  have "f_mag mb a = 0 \<or> 0 < f_mag mb a" using f_mag_nonneg [of mb a] by linarith
  then show "f_real mb a < 0 \<longleftrightarrow> f_sign a \<and> f_mag mb a \<noteq> 0" "f_real mb a = 0 \<longleftrightarrow> f_mag mb a = 0"
    by (auto simp: f_real_def f_units_def divide_less_0_iff)
qed

lemma ratio_rounds:
  assumes "0 \<le> n" and "0 < d" and "\<bar>r\<bar> * 2 ^ f_prec mb fmt = real_of_int n / d" and "r \<noteq> 0 \<longrightarrow> neg = (r < 0)"
  shows "rounds_to mb r (f_pack mb neg (round_ratio mb n d) :: 'l word)"
  using nearest_ratio [OF fraction assms(1,2)] by (intro pack_rounds) (simp_all add: assms(3,4))

lemma scaled_int:
  assumes "r * 2 ^ f_prec mb fmt = real_of_int v"
  shows "\<bar>r\<bar> * 2 ^ f_prec mb fmt = real_of_int \<bar>v\<bar>" "r = 0 \<longleftrightarrow> v = 0" "r < 0 \<longleftrightarrow> v < 0"
proof -
  have "\<bar>r * 2 ^ f_prec mb fmt\<bar> = real_of_int \<bar>v\<bar>" unfolding assms by simp
  then show "\<bar>r\<bar> * 2 ^ f_prec mb fmt = real_of_int \<bar>v\<bar>" by (simp add: abs_mult)
  have "r * 2 ^ f_prec mb fmt = 0 \<longleftrightarrow> v = 0" "r * 2 ^ f_prec mb fmt < 0 \<longleftrightarrow> v < 0" unfolding assms by simp_all
  then show "r = 0 \<longleftrightarrow> v = 0" "r < 0 \<longleftrightarrow> v < 0" by (simp_all add: mult_less_0_iff)
qed

lemma add_rounds:
  fixes a b :: "'l word"
  assumes "f_finite mb a" and "f_finite mb b"
  shows "rounds_to mb (f_real mb a + f_real mb b) (f_add mb a b)"
proof -
  let ?r = "f_real mb a + f_real mb b"
  have v: "?r * 2 ^ f_prec mb fmt = real_of_int (f_units mb a + f_units mb b)" by (simp add: distrib_right scaled)
  note v' = scaled_int [OF v]
  show ?thesis
    using finite_class [OF assms(1)] finite_class [OF assms(2)] v' by (auto simp: f_add_def Let_def intro!: ratio_rounds)
qed

lemma neg_fields: "magnitude (f_neg (b::'l word)) = magnitude b" "f_sign (f_neg b) = (\<not> f_sign b)"
proof -
  show "magnitude (f_neg b) = magnitude b" by (rule bit_word_eqI) (auto simp: magnitude_def f_neg_def sign_bit_def bit_simps)
  show "f_sign (f_neg b) = (\<not> f_sign b)" by (simp add: f_sign_def f_neg_def sign_bit_def bit_xor_iff bit_exp_iff)
qed

lemma sub_rounds:
  fixes a b :: "'l word"
  assumes "f_finite mb a" and "f_finite mb b"
  shows "rounds_to mb (f_real mb a - f_real mb b) (f_sub mb a b)"
proof -
  have "f_finite mb (f_neg b)" "f_real mb (f_neg b) = - f_real mb b"
    using assms(2) by (simp_all add: f_finite_def f_real_def f_units_def f_mag_def neg_fields)
  with add_rounds [OF assms(1), of "f_neg b"] finite_class [OF assms(1)] finite_class [OF assms(2)] show ?thesis by (simp add: f_sub_def)
qed

lemma mul_rounds:
  fixes a b :: "'l word"
  assumes "f_finite mb a" and "f_finite mb b"
  shows "rounds_to mb (f_real mb a * f_real mb b) (f_mul mb a b)"
proof -
  let ?d = "2 ^ f_prec mb fmt :: real"
  have "\<bar>f_real mb a * f_real mb b\<bar> * ?d = (\<bar>f_real mb a\<bar> * ?d) * (\<bar>f_real mb b\<bar> * ?d) / ?d" by (simp add: abs_mult)
  then have "\<bar>f_real mb a * f_real mb b\<bar> * ?d = real_of_int (f_mag mb a * f_mag mb b) / real_of_int (2 ^ f_prec mb fmt)" by (simp add: scaled)
  moreover have "f_real mb a * f_real mb b \<noteq> 0 \<longrightarrow> (f_sign a \<noteq> f_sign b) = (f_real mb a * f_real mb b < 0)"
    by (auto simp: mult_less_0_iff not_less le_less real_sign) (metis real_sign less_asym linorder_neqE)+
  ultimately show ?thesis
    using finite_class [OF assms(1)] finite_class [OF assms(2)] by (simp add: f_mul_def Let_def ratio_rounds)
qed

lemma div_rounds:
  fixes a b :: "'l word"
  assumes "f_finite mb a" and "f_finite mb b" and "f_real mb b \<noteq> 0"
  shows "rounds_to mb (f_real mb a / f_real mb b) (f_div mb a b)"
proof -
  let ?d = "2 ^ f_prec mb fmt :: real"
  have nz: "f_mag mb b \<noteq> 0" using assms(3) by (simp add: real_sign)
  have "0 < f_mag mb b" using nz f_mag_nonneg [of mb b] by linarith
  note b = nz this
  have "\<bar>f_real mb a / f_real mb b\<bar> * ?d = (\<bar>f_real mb a\<bar> * ?d) * ?d / (\<bar>f_real mb b\<bar> * ?d)" by (simp add: abs_divide)
  then have "\<bar>f_real mb a / f_real mb b\<bar> * ?d = real_of_int (f_mag mb a * 2 ^ f_prec mb fmt) / real_of_int (f_mag mb b)" by (simp add: scaled)
  moreover have "f_real mb a / f_real mb b \<noteq> 0 \<longrightarrow> (f_sign a \<noteq> f_sign b) = (f_real mb a / f_real mb b < 0)"
    using b by (auto simp: divide_less_0_iff real_sign not_less le_less) (metis real_sign less_asym linorder_neqE)+
  ultimately show ?thesis
    using finite_class [OF assms(1)] finite_class [OF assms(2)] b by (simp add: f_div_def Let_def ratio_rounds)
qed

lemma mul_add_rounds:
  fixes a b c :: "'l word"
  assumes "f_finite mb a" and "f_finite mb b" and "f_finite mb c"
  shows "rounds_to mb (f_real mb a * f_real mb b + f_real mb c) (f_mul_add mb a b c)"
proof -
  let ?d = "2 ^ f_prec mb fmt :: real"
  let ?r = "f_real mb a * f_real mb b + f_real mb c"
  define v where "v = f_units mb a * f_units mb b + f_units mb c * 2 ^ f_prec mb fmt"
  have "?r * ?d * ?d = (f_real mb a * ?d) * (f_real mb b * ?d) + f_real mb c * ?d * ?d" by (simp add: algebra_simps)
  then have "(?r * ?d) * 2 ^ f_prec mb fmt = real_of_int v" by (simp add: scaled v_def)
  note v' = scaled_int [OF this]
  have "\<bar>?r\<bar> * ?d * ?d = real_of_int \<bar>v\<bar>" using v'(1) by (simp only: abs_mult) simp
  then have r: "\<bar>?r\<bar> * ?d = real_of_int \<bar>v\<bar> / real_of_int (2 ^ f_prec mb fmt)" by (intro eq_divide_imp) simp_all
  have sg: "?r = 0 \<longleftrightarrow> v = 0" "?r < 0 \<longleftrightarrow> v < 0" using v'(2,3) by (simp_all add: mult_less_0_iff)
  have "rounds_to mb ?r (f_pack mb (if v = 0 then (f_sign a \<noteq> f_sign b) \<and> f_sign c else v < 0) (round_ratio mb \<bar>v\<bar> (2 ^ f_prec mb fmt)) :: 'l word)"
    by (rule ratio_rounds [OF _ _ r]) (simp_all add: sg)
  then show ?thesis
    using finite_class [OF assms(1)] finite_class [OF assms(2)] finite_class [OF assms(3)] by (cases "v = 0") (simp_all add: f_mul_add_def Let_def flip: v_def)
qed

lemma zero_rounds:
  fixes a :: "'l word"
  assumes "f_finite mb a" and "f_mag mb a = 0"
  shows "rounds_to mb 0 a"
proof -
  let ?i = "uint (f_inf mb :: 'l word)"
  have "0 < code_units mb ?i" "0 \<le> code_units mb (?i - 1)" using inf_bounds(1) units_strict [of 0 ?i mb] units_nonneg [of "?i - 1" mb] by simp_all
  then have "0 < real_of_int (code_units mb (?i - 1)) + real_of_int (code_units mb ?i)" by linarith
  then have "0 < f_limit mb TYPE('l)" by (simp add: f_limit_def Let_def)
  moreover have "f_real mb a = 0" using assms(2) by (simp add: real_sign)
  ultimately show ?thesis using assms(1) by (auto simp: rounds_to_def)
qed

lemma sqrt_rounds:
  fixes a :: "'l word"
  assumes "f_finite mb a" and "0 \<le> f_real mb a"
  shows "rounds_to mb (sqrt (f_real mb a)) (f_sqrt mb a)"
proof (cases "f_mag mb a = 0")
  case True
  then have "f_real mb a = 0" by (simp add: real_sign)
  then show ?thesis using True zero_rounds [OF assms(1)] finite_class [OF assms(1)] by (simp add: f_sqrt_def)
next
  case False
  then have s: "\<not> f_sign a" using assms(2) real_sign(1) [of a] by auto
  let ?d = "2 ^ f_prec mb fmt :: real"
  have "sqrt (f_real mb a) * ?d = sqrt (f_real mb a * ?d * ?d)" by (simp add: real_sqrt_mult)
  also have "f_real mb a * ?d * ?d = real_of_int (f_mag mb a * 2 ^ f_prec mb fmt)" using s by (simp add: scaled f_units_def)
  finally have "nearest mb (\<bar>sqrt (f_real mb a)\<bar> * 2 ^ f_prec mb fmt) (round_root mb (f_mag mb a * 2 ^ f_prec mb fmt))"
    using nearest_root [OF fraction, of "f_mag mb a * 2 ^ f_prec mb fmt"] assms(2) by simp
  then show ?thesis using False s finite_class [OF assms(1)] assms(2) by (auto simp: f_sqrt_def intro!: pack_rounds)
qed

lemma of_int_rounds: "rounds_to mb (real_of_int z) (f_of_int mb z :: 'l word)"
  by (simp add: f_of_int_def ratio_rounds)

section \<open>Truncation and comparison\<close>

text \<open>A multiple of the unit that a float can hold is packed without rounding.\<close>

lemma pack_exact:
  assumes "n = code_units mb j" and "0 \<le> j" and "j \<le> uint (f_inf mb :: 'l word)"
  shows "f_mag mb (f_pack mb neg (round_ratio mb n 1) :: 'l word) = n" "f_sign (f_pack mb neg (round_ratio mb n 1) :: 'l word) = neg"
    "j < uint (f_inf mb :: 'l word) \<Longrightarrow> f_finite mb (f_pack mb neg (round_ratio mb n 1) :: 'l word)"
  using pack_fields [OF assms(2), of neg] assms by (simp_all add: round_ratio_exact [OF fraction] f_mag_def finite_code)

lemma trunc_code:
  fixes x :: "'l word"
  shows "\<exists>j \<ge> 0. j \<le> uint (magnitude x) \<and> code_units mb j = (f_mag mb x div 2 ^ p) * 2 ^ p"
proof -
  let ?k = "uint (magnitude x)"
  have k: "0 \<le> ?k" by simp
  obtain s q where c: "?k = int s * 2 ^ mb + q" "0 \<le> q" "q < 2 ^ Suc mb" "s = 0 \<or> 2 ^ mb \<le> q" using code_split [OF k] .
  have u: "f_mag mb x = q * 2 ^ s" using units_code [of q mb s] c by (simp add: f_mag_def)
  have "\<exists>j \<ge> 0. code_units mb j = (f_mag mb x div 2 ^ p) * 2 ^ p"
  proof (cases "p \<le> s")
    case True
    then have "(2::int) ^ p dvd 2 ^ s" by (rule le_imp_power_dvd)
    then have "(f_mag mb x div 2 ^ p) * 2 ^ p = f_mag mb x" unfolding u by simp
    then show ?thesis using k by (auto simp: f_mag_def)
  next
    case False
    then have "(2::int) ^ p = 2 ^ s * 2 ^ (p - s)" by (simp flip: power_add)
    then have "f_mag mb x div 2 ^ p = q div 2 ^ (p - s)" by (simp add: u mult.commute [of q])
    moreover have "q div 2 ^ (p - s) \<le> q" using zdiv_mono2 [of q 1 "2 ^ (p - s)"] c(2) by simp
    moreover have "0 \<le> q div 2 ^ (p - s)" using c(2) by (simp add: pos_imp_zdiv_nonneg_iff)
    ultimately show ?thesis using units_exact [of "q div 2 ^ (p - s)" mb p] c(3) by simp
  qed
  then obtain j where j: "0 \<le> j" "code_units mb j = (f_mag mb x div 2 ^ p) * 2 ^ p" by blast
  have "(f_mag mb x div 2 ^ p) * 2 ^ p \<le> f_mag mb x" by (simp add: minus_mod_eq_div_mult [symmetric])
  then have "j \<le> ?k" using j units_less_iff [of ?k j mb] by (auto simp: f_mag_def not_less [symmetric])
  with j show ?thesis by blast
qed

lemma inf_units: "code_units mb (uint (f_inf mb :: 'l word)) = 2 ^ (mb + (2 ^ (LENGTH('l) - 1 - mb) - 2))"
proof -
  define e where "e = (2::nat) ^ (LENGTH('l) - 1 - mb)"
  have "2 \<le> e" using width self_le_power [of "2::nat" "LENGTH('l) - 1 - mb"] by (simp add: e_def)
  moreover have "uint (f_inf mb :: 'l word) = (int e - 1) * 2 ^ mb" unfolding inf_uint by (simp add: e_def)
  ultimately have "uint (f_inf mb :: 'l word) = int (e - 2) * 2 ^ mb + 2 ^ mb" by (simp add: of_nat_diff algebra_simps)
  then show ?thesis using units_code [of "2 ^ mb" mb "e - 2"] by (simp add: power_add e_def)
qed

lemma prec_bound: "n + f_prec mb fmt < mb + (2 ^ (LENGTH('l) - 1 - mb) - 2)" if "n < 2 ^ (LENGTH('l) - 2 - mb)"
proof -
  have "(2::nat) ^ (LENGTH('l) - 1 - mb) = 2 * 2 ^ (LENGTH('l) - 2 - mb)" using width by (simp flip: power_Suc add: Suc_diff_Suc)
  moreover have "(2::nat) \<le> 2 ^ (LENGTH('l) - 2 - mb)" using width self_le_power [of "2::nat" "LENGTH('l) - 2 - mb"] by simp
  ultimately show ?thesis using that by (simp only: f_prec_def) linarith
qed

lemma pow_code:
  assumes "n < 2 ^ (LENGTH('l) - 2 - mb)"
  shows "\<exists>j \<ge> 0. j < uint (f_inf mb :: 'l word) \<and> code_units mb j = 2 ^ n * 2 ^ f_prec mb fmt"
proof -
  have "(1::int) \<le> 2 ^ Suc mb" by (rule one_le_power) simp
  then obtain j where j: "0 \<le> j" "code_units mb j = 2 ^ (n + f_prec mb fmt)" using units_exact [of 1 mb "n + f_prec mb fmt"] by auto
  have "(2::int) ^ (n + f_prec mb fmt) < 2 ^ (mb + (2 ^ (LENGTH('l) - 1 - mb) - 2))" using prec_bound [OF assms] by (rule power_strict_increasing) simp
  then have "code_units mb j < code_units mb (uint (f_inf mb :: 'l word))" by (simp only: j(2) inf_units)
  then have "j < uint (f_inf mb :: 'l word)" using units_less_iff [of j "uint (f_inf mb :: 'l word)" mb] j(1) by simp
  with j show ?thesis by (auto simp: power_add)
qed

text \<open>The bounds of the integer types are floats.\<close>

lemma of_int_exact:
  assumes "z = 0 \<or> (\<exists>n < 2 ^ (LENGTH('l) - 2 - mb). \<bar>z\<bar> = 2 ^ n)"
  shows "f_real mb (f_of_int mb z :: 'l word) = z" "\<not> f_nan mb (f_of_int mb z :: 'l word)"
proof -
  let ?y = "f_of_int mb z :: 'l word"
  obtain j where j: "\<bar>z\<bar> * 2 ^ f_prec mb fmt = code_units mb j" "0 \<le> j" "j < uint (f_inf mb :: 'l word)"
  proof (cases "z = 0")
    case True
    then show thesis using that [of 0] inf_bounds(1) by simp
  next
    case False
    with assms obtain n where "n < 2 ^ (LENGTH('l) - 2 - mb)" "\<bar>z\<bar> = 2 ^ n" by blast
    with pow_code [of n] obtain j where "0 \<le> j" "j < uint (f_inf mb :: 'l word)" "code_units mb j = \<bar>z\<bar> * 2 ^ f_prec mb fmt" by auto
    then show thesis using that [of j] by simp
  qed
  note p = pack_exact [OF j(1,2) less_imp_le [OF j(3)], of "z < 0"] pack_exact(3) [OF j(1,2) less_imp_le [OF j(3)] j(3), of "z < 0"]
  have y: "?y = f_pack mb (z < 0) (round_ratio mb (\<bar>z\<bar> * 2 ^ f_prec mb fmt) 1)" by (simp add: f_of_int_def)
  have "f_units mb ?y = z * 2 ^ f_prec mb fmt" unfolding y f_units_def p(1,2) by simp
  then show "f_real mb ?y = z" by (simp add: f_real_def)
  show "\<not> f_nan mb ?y" using finite_class [of ?y] p(4) by (simp add: y)
qed

lemma key_order:
  fixes a b :: "'l word"
  shows "f_key a \<le> f_key b \<longleftrightarrow> f_real mb a \<le> f_real mb b" "f_key a < f_key b \<longleftrightarrow> f_real mb a < f_real mb b"
    "f_key a = f_key b \<longleftrightarrow> f_real mb a = f_real mb b"
proof -
  have le: "code_units mb i \<le> code_units mb j \<longleftrightarrow> i \<le> j" if "0 \<le> i" "0 \<le> j" for i j using units_less_iff [of j i mb] that by linarith
  have z: "code_units mb i = 0 \<longleftrightarrow> i = 0" if "0 \<le> i" for i using units_eq_iff [of i 0 mb] that by simp
  have *: "f_key a \<le> f_key b \<longleftrightarrow> f_units mb a \<le> f_units mb b" for a b :: "'l word"
  proof -
    let ?j = "uint (magnitude a)" and ?k = "uint (magnitude b)"
    have "0 \<le> ?j" "0 \<le> ?k" "0 \<le> code_units mb ?j" "0 \<le> code_units mb ?k" by (simp_all add: units_nonneg)
    moreover have "code_units mb ?j \<le> code_units mb ?k \<longleftrightarrow> ?j \<le> ?k" "code_units mb ?k \<le> code_units mb ?j \<longleftrightarrow> ?k \<le> ?j" "code_units mb ?j = 0 \<longleftrightarrow> ?j = 0" "code_units mb ?k = 0 \<longleftrightarrow> ?k = 0"
      using le z by simp_all
    ultimately show ?thesis unfolding f_key_def f_units_def f_mag_def by (rule signed_order)
  qed
  have "f_units mb a \<le> f_units mb b \<longleftrightarrow> f_real mb a \<le> f_real mb b" for a b :: "'l word" by (simp add: f_real_def divide_le_cancel)
  with * have le: "f_key a \<le> f_key b \<longleftrightarrow> f_real mb a \<le> f_real mb b" for a b :: "'l word" by blast
  show "f_key a \<le> f_key b \<longleftrightarrow> f_real mb a \<le> f_real mb b" by (rule le)
  show "f_key a < f_key b \<longleftrightarrow> f_real mb a < f_real mb b" using le [of b a] by linarith
  show "f_key a = f_key b \<longleftrightarrow> f_real mb a = f_real mb b" using le [of a b] le [of b a] by linarith
qed

lemma real_trunc_units: "real_trunc (f_real mb (x::'l word)) = (if f_sign x then - (f_mag mb x div 2 ^ f_prec mb fmt) else f_mag mb x div 2 ^ f_prec mb fmt)"
proof -
  have fl: "\<lfloor>real_of_int n / 2 ^ f_prec mb fmt\<rfloor> = n div 2 ^ f_prec mb fmt" for n
    using floor_divide_of_int_eq [of n "2 ^ f_prec mb fmt", where ?'a = real] by simp
  show ?thesis
  proof (cases "f_sign x")
    case True
    then have r: "f_real mb x = - (real_of_int (f_mag mb x) / 2 ^ f_prec mb fmt)" by (simp add: f_real_def f_units_def)
    show ?thesis
    proof (cases "f_mag mb x = 0")
      case False
      then have "f_real mb x < 0" using True by (simp add: real_sign)
      then show ?thesis using True fl [of "f_mag mb x"] by (simp add: real_trunc_def r ceiling_minus)
    qed (simp add: real_trunc_def r)
  next
    case False
    then show ?thesis using fl [of "f_mag mb x"] real_sign(1) [of x] by (simp add: real_trunc_def) (simp add: f_real_def f_units_def)
  qed
qed

lemma inf_integral: "2 ^ f_prec mb fmt dvd code_units mb (uint (f_inf mb :: 'l word))"
proof -
  have "f_prec mb fmt \<le> mb + (2 ^ (LENGTH('l) - 1 - mb) - 2)" using prec_bound [of 0] by simp
  then show ?thesis unfolding inf_units by (rule le_imp_power_dvd)
qed

lemma trunc_real:
  fixes x :: "'l word"
  assumes "\<not> f_nan mb x"
  shows "f_real mb (f_integral mb towards_zero x) = real_trunc (f_real mb x)" "\<not> f_nan mb (f_integral mb towards_zero x)"
proof -
  let ?d = "2 ^ f_prec mb fmt :: int"
  have "f_real mb (f_integral mb towards_zero x) = real_trunc (f_real mb x) \<and> \<not> f_nan mb (f_integral mb towards_zero x)"
  proof (cases "f_infinite mb x")
    case True
    then have "f_mag mb x div ?d * ?d = f_mag mb x" using inf_integral by (simp add: f_mag_def f_infinite_def)
    then have "real_of_int (f_mag mb x) = real_of_int (f_mag mb x div ?d) * 2 ^ f_prec mb fmt" by (metis of_int_mult of_int_numeral of_int_power)
    then have "f_real mb x = real_of_int (if f_sign x then - (f_mag mb x div ?d) else f_mag mb x div ?d)" by (simp add: f_real_def f_units_def)
    then have "f_real mb x = real_trunc (f_real mb x)" unfolding real_trunc_units by simp
    then show ?thesis using True assms by (simp add: f_integral_def)
  next
    case False
    let ?n = "f_mag mb x div ?d * ?d"
    obtain j where j: "0 \<le> j" "j \<le> uint (magnitude x)" "?n = code_units mb j" using trunc_code [of x "f_prec mb fmt"] by auto
    have "uint (magnitude x) < uint (f_inf mb :: 'l word)" using assms False by (auto simp: f_nan_def f_infinite_def word_less_def word_uint_eq_iff)
    then have lt: "j < uint (f_inf mb :: 'l word)" using j(2) by simp
    note p = pack_exact [OF j(3,1) less_imp_le [OF lt], of "f_sign x"] pack_exact(3) [OF j(3,1) less_imp_le [OF lt] lt, of "f_sign x"]
    have y: "f_integral mb towards_zero x = f_pack mb (f_sign x) (round_ratio mb ?n 1)" using assms False by (simp add: f_integral_def towards_zero_def Let_def)
    have "f_real mb (f_integral mb towards_zero x) = real_trunc (f_real mb x)"
      unfolding y real_trunc_units f_real_def [of mb "f_pack mb _ _"] f_units_def [of mb "f_pack mb _ _"] p(1,2) by simp
    then show ?thesis using finite_class [OF p(4)] y by simp
  qed
  then show "f_real mb (f_integral mb towards_zero x) = real_trunc (f_real mb x)" "\<not> f_nan mb (f_integral mb towards_zero x)" by simp_all
qed

lemma to_int_trunc: "f_to_int mb lo hi (x::'l word) = (if f_nan mb x then 0 else max lo (min hi (real_trunc (f_real mb x))))"
  by (simp add: f_to_int_def real_trunc_units Let_def)

text \<open>The range check of a trapping truncation, on floats, is the one on integers.\<close>

lemma trunc_checked:
  fixes x :: "'l word"
  assumes "\<not> f_nan mb x" and "lo = 0 \<or> (\<exists>n < 2 ^ (LENGTH('l) - 2 - mb). \<bar>lo\<bar> = 2 ^ n)" and "\<exists>n < 2 ^ (LENGTH('l) - 2 - mb). \<bar>hi\<bar> = 2 ^ n"
  defines "t \<equiv> f_integral mb towards_zero x" and "z \<equiv> real_trunc (f_real mb x)"
  shows "f_le mb (f_of_int mb lo) t \<and> f_lt mb t (f_of_int mb hi) \<longleftrightarrow> lo \<le> z \<and> z < hi"
    and "lo \<le> z \<Longrightarrow> z < hi \<Longrightarrow> f_to_int mb lo (hi - 1) t = z"
proof -
  note t = trunc_real [OF assms(1), folded t_def z_def]
  have b: "lo = 0 \<or> (\<exists>n < 2 ^ (LENGTH('l) - 2 - mb). \<bar>lo\<bar> = 2 ^ n)" "hi = 0 \<or> (\<exists>n < 2 ^ (LENGTH('l) - 2 - mb). \<bar>hi\<bar> = 2 ^ n)" using assms(2,3) by auto
  show "f_le mb (f_of_int mb lo) t \<and> f_lt mb t (f_of_int mb hi) \<longleftrightarrow> lo \<le> z \<and> z < hi"
    using t of_int_exact [OF b(1)] of_int_exact [OF b(2)] by (simp add: f_le_def f_lt_def key_order)
  have "real_trunc (real_of_int z) = z" by (simp add: real_trunc_def)
  then show "f_to_int mb lo (hi - 1) t = z" if "lo \<le> z" "z < hi" using that t by (simp add: to_int_trunc)
qed

end

interpretation f32: float_format 23 "TYPE(32)"
  by unfold_locales simp_all

interpretation f64: float_format 52 "TYPE(64)"
  by unfold_locales simp_all

declare f32.prec_type [simp del] f64.prec_type [simp del]

end
