(* ===== verification/Exec_Float.thy ===== *)
theory Exec_Float
  imports Exec_Numeric Ieee_Exact
begin

text \<open>
  Float instructions against real numbers: the handlers leave the correctly rounded result of arithmetic on finite operands, compare as the reals do, and
  convert to integers by truncation, with the traps and the saturation of the WebAssembly specification.
\<close>

section \<open>Minimum and maximum\<close>

lemma word_fields: "magnitude a = magnitude b \<Longrightarrow> f_sign a = f_sign b \<Longrightarrow> a = (b::'l::len word)"
proof (rule bit_word_eqI)
  fix n assume h: "magnitude a = magnitude b" "f_sign a = f_sign b" and "n < LENGTH('l)"
  then consider "n < LENGTH('l) - 1" | "n = LENGTH('l) - 1" by linarith
  then show "bit a n = bit b n"
  proof cases
    case 1
    have "bit (magnitude a) n = bit (magnitude b) n" using h by simp
    then show ?thesis using 1 by (simp add: magnitude_def bit_take_bit_iff)
  next
    case 2
    then show ?thesis using h(2) by (simp add: f_sign_def)
  qed
qed

lemma magnitude_bits: "magnitude (a OR b) = magnitude a OR magnitude b" "magnitude (a AND b) = magnitude a AND magnitude b"
  by (simp_all add: magnitude_def)

lemma same_key: "f_key a = f_key b \<Longrightarrow> a = b \<or> magnitude a = 0 \<and> magnitude b = 0"
proof -
  assume k: "f_key a = f_key b"
  show ?thesis
  proof (cases "f_sign a = f_sign b")
    case True
    then have "magnitude a = magnitude b" using k by (simp add: f_key_def word_uint_eq_iff split: if_splits)
    then show ?thesis using word_fields True by blast
  next
    case False
    have n: "0 \<le> uint (magnitude a)" "0 \<le> uint (magnitude b)" by simp_all
    have "uint (magnitude a) = - uint (magnitude b)" using k False by (simp add: f_key_def split: if_splits)
    then have "uint (magnitude a) = 0" "uint (magnitude b) = 0" using n by linarith+
    then show ?thesis by (simp add: uint_0_iff)
  qed
qed

context float_format
begin

lemma rounds_not_nan: "rounds_to mb r (y::'l word) \<Longrightarrow> \<not> f_nan mb y"
  using finite_class [of y] by (auto simp: rounds_to_def f_nan_def f_infinite_def split: if_splits)

lemma finite_rounds:
  assumes "f_finite mb (y::'l word)"
  shows "rounds_to mb (f_real mb y) y"
proof -
  let ?i = "uint (f_inf mb :: 'l word)" and ?k = "uint (magnitude y)"
  have "?k \<le> ?i - 1" using assms by (simp add: finite_code)
  then have "code_units mb ?k \<le> code_units mb (?i - 1)" by (simp add: units_mono)
  moreover have "code_units mb (?i - 1) < code_units mb ?i" using units_strict [of "?i - 1" ?i mb] inf_bounds(1) by simp
  ultimately have "2 * code_units mb ?k < code_units mb (?i - 1) + code_units mb ?i" by linarith
  then have "real_of_int (2 * code_units mb ?k) < real_of_int (code_units mb (?i - 1) + code_units mb ?i)" by (simp only: of_int_less_iff)
  then have "real_of_int (code_units mb ?k) < (code_units mb (?i - 1) + code_units mb ?i) / 2" by simp
  then have "\<bar>f_real mb y\<bar> * 2 ^ f_prec mb fmt < (code_units mb (?i - 1) + code_units mb ?i) / 2" unfolding scaled(2) f_mag_def .
  then have "\<bar>f_real mb y\<bar> < f_limit mb TYPE('l)" by (simp add: f_limit_def Let_def pos_less_divide_eq)
  then show ?thesis using assms real_sign [of y] by (auto simp: rounds_to_def)
qed

lemma bits_of_equal:
  fixes a b :: "'l word"
  assumes "f_key a = f_key b" and "f_finite mb a"
  shows "f_real mb (a OR b) = f_real mb a" "f_finite mb (a OR b)" "f_real mb (a AND b) = f_real mb a" "f_finite mb (a AND b)"
proof -
  consider "a = b" | "magnitude a = 0" "magnitude b = 0" using same_key [OF assms(1)] by blast
  then show "f_real mb (a OR b) = f_real mb a" "f_finite mb (a OR b)" "f_real mb (a AND b) = f_real mb a" "f_finite mb (a AND b)"
    using assms(2) by (cases; simp add: f_real_def f_units_def f_mag_def f_finite_def magnitude_bits)+
qed

end

lemma min_max_rounds:
  "f_finite 23 a \<Longrightarrow> f_finite 23 b \<Longrightarrow> rounds_to 23 (min (f_real 23 a) (f_real 23 b)) (f32_min a b)"
  "f_finite 23 a \<Longrightarrow> f_finite 23 b \<Longrightarrow> rounds_to 23 (max (f_real 23 a) (f_real 23 b)) (f32_max a b)"
  "f_finite 52 c \<Longrightarrow> f_finite 52 d \<Longrightarrow> rounds_to 52 (min (f_real 52 c) (f_real 52 d)) (f64_min c d)"
  "f_finite 52 c \<Longrightarrow> f_finite 52 d \<Longrightarrow> rounds_to 52 (max (f_real 52 c) (f_real 52 d)) (f64_max c d)"
  using f32.bits_of_equal [of a b] f64.bits_of_equal [of c d] f32.finite_class [of a] f32.finite_class [of b] f64.finite_class [of c] f64.finite_class [of d]
    f32.finite_rounds [of a] f32.finite_rounds [of b] f32.finite_rounds [of "a OR b"] f32.finite_rounds [of "a AND b"]
    f64.finite_rounds [of c] f64.finite_rounds [of d] f64.finite_rounds [of "c OR d"] f64.finite_rounds [of "c AND d"]
  by (auto simp: f32_min_def f32_max_def f64_min_def f64_max_def f_eq_def f_lt_def f32.key_order f64.key_order min_def max_def)

section \<open>Arithmetic\<close>

text \<open>The exact result of an operator on real numbers, where it has one that the operands' values determine.\<close>

definition f_result :: "float_bin \<Rightarrow> real \<Rightarrow> real \<Rightarrow> real option" where
  "f_result op x y = (case op of FAdd \<Rightarrow> Some (x + y) | FSub \<Rightarrow> Some (x - y) | FMul \<Rightarrow> Some (x * y)
     | FDiv \<Rightarrow> (if y = 0 then None else Some (x / y)) | FMin \<Rightarrow> Some (min x y) | FMax \<Rightarrow> Some (max x y) | FCopysign \<Rightarrow> None)"

lemma canon_id [simp]: "\<not> f_nan 23 r \<Longrightarrow> canon_f32 r h = r" "\<not> f_nan 52 s \<Longrightarrow> canon_f64 s h = s"
  by (simp_all add: canon_f32_def canon_f64_def)

lemmas float_plumbing = f32_arith_def f32_binop_def f32_unop_def f32_unop_canon_def f32_relop_def
  f64_arith_def f64_binop_def f64_unop_def f64_unop_canon_def f64_relop_def

lemma f32_bin_rounds:
  assumes "stack_ok m" and "ex_frames m \<noteq> []" and "f_finite 23 a" "f_finite 23 b" and "f_result op (f_real 23 a) (f_real 23 b) = Some r"
  shows "\<exists>y. f32_bin op (pushed [from_i32 a, from_i32 b] m) = (Inr (), pushed [from_i32 y] m) \<and> rounds_to 23 r y"
proof -
  note run = binop_cells_pushed [OF assms(1,2)] and nn = f32.rounds_not_nan
  note rr = f32.add_rounds [OF assms(3,4)] f32.sub_rounds [OF assms(3,4)] f32.mul_rounds [OF assms(3,4)] f32.div_rounds [OF assms(3,4)] min_max_rounds(1,2) [OF assms(3,4)]
  show ?thesis using assms(5) rr by (cases op) (auto simp: f_result_def float_plumbing run nn Let_def split: if_splits)
qed

lemma f64_bin_rounds:
  assumes "stack_ok m" and "ex_frames m \<noteq> []" and "f_finite 52 a" "f_finite 52 b" and "f_result op (f_real 52 a) (f_real 52 b) = Some r"
  shows "\<exists>y. f64_bin op (pushed [from_i64 a, from_i64 b] m) = (Inr (), pushed [from_i64 y] m) \<and> rounds_to 52 r y"
proof -
  note run = binop_cells_pushed [OF assms(1,2)] and nn = f64.rounds_not_nan
  note rr = f64.add_rounds [OF assms(3,4)] f64.sub_rounds [OF assms(3,4)] f64.mul_rounds [OF assms(3,4)] f64.div_rounds [OF assms(3,4)] min_max_rounds(3,4) [OF assms(3,4)]
  show ?thesis using assms(5) rr by (cases op) (auto simp: f_result_def float_plumbing run nn Let_def split: if_splits)
qed

lemma sqrt_exec:
  assumes "stack_ok m" and "ex_frames m \<noteq> []"
  shows "f_finite 23 a \<Longrightarrow> 0 \<le> f_real 23 a \<Longrightarrow>
      \<exists>y. f32_un FSqrt (pushed [from_i32 a] m) = (Inr (), pushed [from_i32 y] m) \<and> rounds_to 23 (sqrt (f_real 23 a)) y"
    "f_finite 52 c \<Longrightarrow> 0 \<le> f_real 52 c \<Longrightarrow>
      \<exists>y. f64_un FSqrt (pushed [from_i64 c] m) = (Inr (), pushed [from_i64 y] m) \<and> rounds_to 52 (sqrt (f_real 52 c)) y"
proof -
  note run = unop_cell_pushed [OF assms]
  show "\<exists>y. f32_un FSqrt (pushed [from_i32 a] m) = (Inr (), pushed [from_i32 y] m) \<and> rounds_to 23 (sqrt (f_real 23 a)) y"
    if "f_finite 23 a" "0 \<le> f_real 23 a"
    using f32.sqrt_rounds [OF that] f32.rounds_not_nan by (auto simp: float_plumbing run Let_def)
  show "\<exists>y. f64_un FSqrt (pushed [from_i64 c] m) = (Inr (), pushed [from_i64 y] m) \<and> rounds_to 52 (sqrt (f_real 52 c)) y"
    if "f_finite 52 c" "0 \<le> f_real 52 c"
    using f64.sqrt_rounds [OF that] f64.rounds_not_nan by (auto simp: float_plumbing run Let_def)
qed

section \<open>Conversions\<close>

text \<open>Truncation of the real value; the upper bound is exclusive. An infinity reads as a power of two beyond every bound.\<close>

definition trunc_spec :: "nat \<Rightarrow> int \<Rightarrow> int \<Rightarrow> 'l::len word \<Rightarrow> trap + int" where
  "trunc_spec mb lo hi x = (if f_nan mb x then Inl BadConversionToInteger
     else let z = real_trunc (f_real mb x) in if lo \<le> z \<and> z < hi then Inr z else Inl IntegerOverflow)"

definition sat_spec :: "nat \<Rightarrow> int \<Rightarrow> int \<Rightarrow> 'l::len word \<Rightarrow> int" where
  "sat_spec mb lo hi x = (if f_nan mb x then 0 else max lo (min (hi - 1) (real_trunc (f_real mb x))))"

text \<open>The operand cell of a conversion to an integer, and what it must leave.\<close>

primrec to_int_spec :: "conv_op \<Rightarrow> u32 \<Rightarrow> u64 \<Rightarrow> (cell \<times> (trap + cell)) option" where
  "to_int_spec I32TruncF32S a c = Some (from_i32 a, map_sum id (\<lambda>z. from_i32 (word_of_int z)) (trunc_spec 23 (- 2147483648) 2147483648 a))"
| "to_int_spec I32TruncF32U a c = Some (from_i32 a, map_sum id (\<lambda>z. from_i32 (word_of_int z)) (trunc_spec 23 (0) 4294967296 a))"
| "to_int_spec I32TruncF64S a c = Some (from_i64 c, map_sum id (\<lambda>z. from_i32 (word_of_int z)) (trunc_spec 52 (- 2147483648) 2147483648 c))"
| "to_int_spec I32TruncF64U a c = Some (from_i64 c, map_sum id (\<lambda>z. from_i32 (word_of_int z)) (trunc_spec 52 (0) 4294967296 c))"
| "to_int_spec I64TruncF32S a c = Some (from_i32 a, map_sum id (\<lambda>z. from_i64 (word_of_int z)) (trunc_spec 23 (- 9223372036854775808) 9223372036854775808 a))"
| "to_int_spec I64TruncF32U a c = Some (from_i32 a, map_sum id (\<lambda>z. from_i64 (word_of_int z)) (trunc_spec 23 (0) 18446744073709551616 a))"
| "to_int_spec I64TruncF64S a c = Some (from_i64 c, map_sum id (\<lambda>z. from_i64 (word_of_int z)) (trunc_spec 52 (- 9223372036854775808) 9223372036854775808 c))"
| "to_int_spec I64TruncF64U a c = Some (from_i64 c, map_sum id (\<lambda>z. from_i64 (word_of_int z)) (trunc_spec 52 (0) 18446744073709551616 c))"
| "to_int_spec I32TruncSatF32S a c = Some (from_i32 a, Inr (from_i32 (word_of_int (sat_spec 23 (- 2147483648) 2147483648 a))))"
| "to_int_spec I32TruncSatF32U a c = Some (from_i32 a, Inr (from_i32 (word_of_int (sat_spec 23 (0) 4294967296 a))))"
| "to_int_spec I32TruncSatF64S a c = Some (from_i64 c, Inr (from_i32 (word_of_int (sat_spec 52 (- 2147483648) 2147483648 c))))"
| "to_int_spec I32TruncSatF64U a c = Some (from_i64 c, Inr (from_i32 (word_of_int (sat_spec 52 (0) 4294967296 c))))"
| "to_int_spec I64TruncSatF32S a c = Some (from_i32 a, Inr (from_i64 (word_of_int (sat_spec 23 (- 9223372036854775808) 9223372036854775808 a))))"
| "to_int_spec I64TruncSatF32U a c = Some (from_i32 a, Inr (from_i64 (word_of_int (sat_spec 23 (0) 18446744073709551616 a))))"
| "to_int_spec I64TruncSatF64S a c = Some (from_i64 c, Inr (from_i64 (word_of_int (sat_spec 52 (- 9223372036854775808) 9223372036854775808 c))))"
| "to_int_spec I64TruncSatF64U a c = Some (from_i64 c, Inr (from_i64 (word_of_int (sat_spec 52 (0) 18446744073709551616 c))))"
| "to_int_spec F32ConvertI32S a c = None"
| "to_int_spec F32ConvertI32U a c = None"
| "to_int_spec F32ConvertI64S a c = None"
| "to_int_spec F32ConvertI64U a c = None"
| "to_int_spec F64ConvertI32S a c = None"
| "to_int_spec F64ConvertI32U a c = None"
| "to_int_spec F64ConvertI64S a c = None"
| "to_int_spec F64ConvertI64U a c = None"
| "to_int_spec F32DemoteF64 a c = None"
| "to_int_spec F64PromoteF32 a c = None"

lemma pow_bounds:
  "\<exists>n < 2 ^ (LENGTH(32) - 2 - 23). \<bar>2147483648 :: int\<bar> = 2 ^ n" "\<exists>n < 2 ^ (LENGTH(32) - 2 - 23). \<bar>4294967296 :: int\<bar> = 2 ^ n"
  "\<exists>n < 2 ^ (LENGTH(32) - 2 - 23). \<bar>9223372036854775808 :: int\<bar> = 2 ^ n" "\<exists>n < 2 ^ (LENGTH(32) - 2 - 23). \<bar>18446744073709551616 :: int\<bar> = 2 ^ n"
  "\<exists>n < 2 ^ (LENGTH(64) - 2 - 52). \<bar>2147483648 :: int\<bar> = 2 ^ n" "\<exists>n < 2 ^ (LENGTH(64) - 2 - 52). \<bar>4294967296 :: int\<bar> = 2 ^ n"
  "\<exists>n < 2 ^ (LENGTH(64) - 2 - 52). \<bar>9223372036854775808 :: int\<bar> = 2 ^ n" "\<exists>n < 2 ^ (LENGTH(64) - 2 - 52). \<bar>18446744073709551616 :: int\<bar> = 2 ^ n"
  by (rule exI [of _ 31], simp, rule exI [of _ 32], simp, rule exI [of _ 63], simp, rule exI [of _ 64], simp,
    rule exI [of _ 31], simp, rule exI [of _ 32], simp, rule exI [of _ 63], simp, rule exI [of _ 64], simp)

lemma trunc_word:
  fixes a :: u32 and c :: u64
  assumes "lo = 0 \<or> \<bar>lo\<bar> = hi" and "hi \<in> {2147483648, 4294967296, 9223372036854775808, 18446744073709551616}" and "ub = hi - 1"
  shows "(if f_nan 23 a then Inl bad_conv else let t = f_integral 23 towards_zero a in
       if f_le 23 (f_of_int 23 lo) t \<and> f_lt 23 t (f_of_int 23 hi) then Inr (word_of_int (f_to_int 23 lo ub t)) else Inl overflow) =
      map_sum Trapped word_of_int (trunc_spec 23 lo hi a)"
    "(if f_nan 52 c then Inl bad_conv else let t = f_integral 52 towards_zero c in
       if f_le 52 (f_of_int 52 lo) t \<and> f_lt 52 t (f_of_int 52 hi) then Inr (word_of_int (f_to_int 52 lo ub t)) else Inl overflow) =
      map_sum Trapped word_of_int (trunc_spec 52 lo hi c)"
proof -
  have p: "\<exists>n < 2 ^ (LENGTH(32) - 2 - 23). \<bar>hi\<bar> = 2 ^ n" "\<exists>n < 2 ^ (LENGTH(64) - 2 - 52). \<bar>hi\<bar> = 2 ^ n" using assms(2) pow_bounds by auto
  have "\<bar>hi\<bar> = hi" using assms(2) by auto
  then have l: "lo = 0 \<or> (\<exists>n < 2 ^ (LENGTH(32) - 2 - 23). \<bar>lo\<bar> = 2 ^ n)" "lo = 0 \<or> (\<exists>n < 2 ^ (LENGTH(64) - 2 - 52). \<bar>lo\<bar> = 2 ^ n)"
    using assms(1) p by auto
  show "(if f_nan 23 a then Inl bad_conv else let t = f_integral 23 towards_zero a in
       if f_le 23 (f_of_int 23 lo) t \<and> f_lt 23 t (f_of_int 23 hi) then Inr (word_of_int (f_to_int 23 lo ub t)) else Inl overflow) =
      map_sum Trapped word_of_int (trunc_spec 23 lo hi a)"
    using f32.trunc_checked [OF _ l(1) p(1), of a] by (simp add: trunc_spec_def Let_def bad_conv_def overflow_def assms(3))
  show "(if f_nan 52 c then Inl bad_conv else let t = f_integral 52 towards_zero c in
       if f_le 52 (f_of_int 52 lo) t \<and> f_lt 52 t (f_of_int 52 hi) then Inr (word_of_int (f_to_int 52 lo ub t)) else Inl overflow) =
      map_sum Trapped word_of_int (trunc_spec 52 lo hi c)"
    using f64.trunc_checked [OF _ l(2) p(2), of c] by (simp add: trunc_spec_def Let_def bad_conv_def overflow_def assms(3))
qed

lemma trunc_words:
  "i32_trunc_f32_s a = map_sum Trapped word_of_int (trunc_spec 23 (- 2147483648) 2147483648 a)"
  "i32_trunc_f32_u a = map_sum Trapped word_of_int (trunc_spec 23 (0) 4294967296 a)"
  "i32_trunc_f64_s c = map_sum Trapped word_of_int (trunc_spec 52 (- 2147483648) 2147483648 c)"
  "i32_trunc_f64_u c = map_sum Trapped word_of_int (trunc_spec 52 (0) 4294967296 c)"
  "i64_trunc_f32_s a = map_sum Trapped word_of_int (trunc_spec 23 (- 9223372036854775808) 9223372036854775808 a)"
  "i64_trunc_f32_u a = map_sum Trapped word_of_int (trunc_spec 23 (0) 18446744073709551616 a)"
  "i64_trunc_f64_s c = map_sum Trapped word_of_int (trunc_spec 52 (- 9223372036854775808) 9223372036854775808 c)"
  "i64_trunc_f64_u c = map_sum Trapped word_of_int (trunc_spec 52 (0) 18446744073709551616 c)"
  unfolding i32_trunc_f32_s_def i32_trunc_f32_u_def i32_trunc_f64_s_def i32_trunc_f64_u_def i64_trunc_f32_s_def i64_trunc_f32_u_def i64_trunc_f64_s_def i64_trunc_f64_u_def
  by (rule trunc_word; simp)+

lemma sat_words:
  "i32_trunc_sat_f32_s a = word_of_int (sat_spec 23 (- 2147483648) 2147483648 a)"
  "i32_trunc_sat_f32_u a = word_of_int (sat_spec 23 (0) 4294967296 a)"
  "i32_trunc_sat_f64_s c = word_of_int (sat_spec 52 (- 2147483648) 2147483648 c)"
  "i32_trunc_sat_f64_u c = word_of_int (sat_spec 52 (0) 4294967296 c)"
  "i64_trunc_sat_f32_s a = word_of_int (sat_spec 23 (- 9223372036854775808) 9223372036854775808 a)"
  "i64_trunc_sat_f32_u a = word_of_int (sat_spec 23 (0) 18446744073709551616 a)"
  "i64_trunc_sat_f64_s c = word_of_int (sat_spec 52 (- 9223372036854775808) 9223372036854775808 c)"
  "i64_trunc_sat_f64_u c = word_of_int (sat_spec 52 (0) 18446744073709551616 c)"
  by (simp_all add: i32_trunc_sat_f32_s_def i32_trunc_sat_f32_u_def i32_trunc_sat_f64_s_def i32_trunc_sat_f64_u_def i64_trunc_sat_f32_s_def i64_trunc_sat_f32_u_def i64_trunc_sat_f64_s_def i64_trunc_sat_f64_u_def sat_spec_def f32.to_int_trunc f64.to_int_trunc)

lemma float_pops:
  assumes "stack_ok m" and "ex_frames m \<noteq> []"
  shows "pop_f32_bits (pushed [from_i32 a] m) = (Inr a, m)" "pop_f64_bits (pushed [from_i64 c] m) = (Inr c, m)"
    "pop_i32 (pushed [from_i32 a] m) = (Inr a, m)" "pop_i64 (pushed [from_i64 c] m) = (Inr c, m)"
  using pop_scalar_pushed [OF assms] by (simp_all add: pop_f32_bits_def pop_f64_bits_def pop_i32_def pop_i64_def bindc_def)

lemma map_sum_case: "map_sum f g s = (case s of Inl x \<Rightarrow> Inl (f x) | Inr y \<Rightarrow> Inr (g y))"
  by (cases s) simp_all

lemmas conv_plumbing = trunc_to_i32_def trunc64_to_i32_def trunc_to_i64_def trunc64_to_i64_def map_f32_i32_def map_f64_i32_def map_f32_i64_def map_f64_i64_def
  map_i32_f32_def map_i64_f32_def map_f64_f32_def map_i32_f64_def map_i64_f64_def map_f32_f64_def

section \<open>Properties\<close>

text \<open>C19. Float arithmetic is correctly rounded, in both widths. On finite operands, addition, subtraction, multiplication, division by a number other than
  zero, minimum, maximum and square root leave the float nearest to the exact real result, the even one of two equally near, and infinity from half a step
  above the largest finite float on; the sign is that of the exact result, also when it underflows.\<close>

theorem float_arith_rounded:
  assumes "stack_ok m" and "ex_frames m \<noteq> []" and "f_finite 23 a" "f_finite 23 b" and "f_finite 52 c" "f_finite 52 d"
  shows "(\<forall>r. f_result op (f_real 23 a) (f_real 23 b) = Some r \<longrightarrow> (\<exists>y. exec_numeric (NF32Bin op) (pushed [from_i32 a, from_i32 b] m) =
      (Inr (), pushed [from_i32 y] m) \<and> rounds_to 23 r y)) \<and>
    (\<forall>r. f_result op (f_real 52 c) (f_real 52 d) = Some r \<longrightarrow> (\<exists>y. exec_numeric (NF64Bin op) (pushed [from_i64 c, from_i64 d] m) =
      (Inr (), pushed [from_i64 y] m) \<and> rounds_to 52 r y)) \<and>
    (0 \<le> f_real 23 a \<longrightarrow> (\<exists>y. exec_numeric (NF32Un FSqrt) (pushed [from_i32 a] m) = (Inr (), pushed [from_i32 y] m) \<and> rounds_to 23 (sqrt (f_real 23 a)) y)) \<and>
    (0 \<le> f_real 52 c \<longrightarrow> (\<exists>y. exec_numeric (NF64Un FSqrt) (pushed [from_i64 c] m) = (Inr (), pushed [from_i64 y] m) \<and> rounds_to 52 (sqrt (f_real 52 c)) y))"
  using f32_bin_rounds [OF assms(1-4)] f64_bin_rounds [OF assms(1,2,5,6)] sqrt_exec(1) [OF assms(1,2,3)] sqrt_exec(2) [OF assms(1,2,5)]
  by (simp add: exec_numeric_def)

theorem float_arith_rounded_witness:
  "f_finite 23 (0x3F800000 :: u32) \<and> f_finite 23 (0x33800000 :: u32) \<and>
   (\<exists>y. exec_numeric (NF32Bin FAdd) (pushed [from_i32 0x3F800000, from_i32 0x33800000] base_machine) = (Inr (), pushed [from_i32 y] base_machine) \<and>
     rounds_to 23 (f_real 23 (0x3F800000 :: u32) + f_real 23 (0x33800000 :: u32)) y)"
proof -
  have f: "ex_frames base_machine \<noteq> []" by code_simp
  have g: "f_finite 23 (0x3F800000 :: u32)" "f_finite 23 (0x33800000 :: u32)" "f_finite 52 (0 :: u64)" unfolding f_finite_def by code_simp+
  show ?thesis
    using float_arith_rounded [OF stack_ok_base f g g(3), of FAdd, THEN conjunct1] g by (simp add: f_result_def)
qed

text \<open>C20. Float to integer conversions are exact, for all sixteen instructions and every bit pattern. A trapping one leaves the value truncated towards zero when the
  integer type holds it, and otherwise traps: with a bad conversion for a NaN, with an integer overflow out of range. A saturating one leaves the truncated value
  clamped to the type, zero for a NaN. The checks of the code are made on floats; the specification is on integers.\<close>

theorem float_to_int_exact:
  assumes "stack_ok m" and "ex_frames m \<noteq> []" and "to_int_spec op a c = Some (x, res)"
  shows "exec_numeric (NConv op) (pushed [x] m) = (case res of Inl t \<Rightarrow> (Inl (Trapped t), m) | Inr y \<Rightarrow> (Inr (), pushed [y] m))"
proof -
  note run = conv_plumbing bindc_def float_pops [OF assms(1,2)] push_scalar_pushed trunc_words sat_words lift_res_def
  show ?thesis using assms(3) by (cases op) (auto simp: exec_numeric_def run map_sum_case split: sum.splits)
qed

theorem float_to_int_exact_witness:
  "exec_numeric (NConv I32TruncF32S) (pushed [from_i32 0xC0200000] base_machine) = (Inr (), pushed [from_i32 (word_of_int (- 2))] base_machine) \<and>
   exec_numeric (NConv I32TruncF32U) (pushed [from_i32 0x7FC00000] base_machine) = (Inl (Trapped BadConversionToInteger), base_machine)"
proof -
  have f: "ex_frames base_machine \<noteq> []" by code_simp
  have v: "\<not> f_nan 23 (0xC0200000 :: u32)" "f_sign (0xC0200000 :: u32)" "f_mag 23 (0xC0200000 :: u32) div 2 ^ f_prec 23 TYPE(32) = 2" "f_nan 23 (0x7FC00000 :: u32)"
    by code_simp+
  then have t: "trunc_spec 23 (- 2147483648) 2147483648 (0xC0200000 :: u32) = Inr (- 2)" "trunc_spec 23 0 4294967296 (0x7FC00000 :: u32) = Inl BadConversionToInteger"
    by (simp_all only: trunc_spec_def f32.real_trunc_units Let_def if_True if_False) simp
  have "to_int_spec I32TruncF32S 0xC0200000 0 = Some (from_i32 0xC0200000, Inr (from_i32 (word_of_int (- 2))))"
    "to_int_spec I32TruncF32U 0x7FC00000 0 = Some (from_i32 0x7FC00000, Inl BadConversionToInteger)"
    by (simp_all only: to_int_spec.simps t map_sum.simps id_apply)
  note s = this [THEN float_to_int_exact [OF stack_ok_base f], unfolded sum.case]
  show ?thesis using s by (rule conjI)
qed

text \<open>Conversions from integers round the integer; demotion rounds the value of a finite float.\<close>

theorem float_convert_rounded:
  "rounds_to 23 (real_of_int (sint a)) (f32_convert_i32_s a) \<and> rounds_to 23 (real_of_int (uint a)) (f32_convert_i32_u a) \<and> rounds_to 23 (real_of_int (sint c)) (f32_convert_i64_s c) \<and>
   rounds_to 23 (real_of_int (uint c)) (f32_convert_i64_u c) \<and> rounds_to 52 (real_of_int (sint a)) (f64_convert_i32_s a) \<and> rounds_to 52 (real_of_int (uint a)) (f64_convert_i32_u a) \<and>
   rounds_to 52 (real_of_int (sint c)) (f64_convert_i64_s c) \<and> rounds_to 52 (real_of_int (uint c)) (f64_convert_i64_u c)"
  unfolding f32_convert_i32_s_def f32_convert_i32_u_def f32_convert_i64_s_def f32_convert_i64_u_def f64_convert_i32_s_def f64_convert_i32_u_def
    f64_convert_i64_s_def f64_convert_i64_u_def by (intro conjI f32.of_int_rounds f64.of_int_rounds)

lemma demote_rounds:
  assumes "f_finite 52 x"
  shows "rounds_to 23 (f_real 52 x) (f32_demote_f64 x)"
proof -
  define e where "e = f_prec 52 TYPE(64) - f_prec 23 TYPE(32)"
  have "f_prec 52 TYPE(64) = f_prec 23 TYPE(32) + e" by (simp add: e_def f_prec_def)
  then have "\<bar>f_real 52 x\<bar> * (2 ^ f_prec 23 TYPE(32) * 2 ^ e) = f_mag 52 x" using f64.scaled(2) [of x] by (simp only: power_add)
  then have "\<bar>f_real 52 x\<bar> * 2 ^ f_prec 23 TYPE(32) = real_of_int (f_mag 52 x) / real_of_int (2 ^ e)" by (simp add: field_simps)
  moreover have "f_real 52 x \<noteq> 0 \<longrightarrow> f_sign x = (f_real 52 x < 0)" by (simp add: f64.real_sign)
  ultimately have "rounds_to 23 (f_real 52 x) (f_pack 23 (f_sign x) (round_ratio 23 (f_mag 52 x) (2 ^ e)) :: u32)"
    by (intro f32.ratio_rounds) simp_all
  then show ?thesis using f64.finite_class [OF assms] by (simp add: f32_demote_f64_def f_demote_def flip: e_def)
qed

lemma float_compare_exact:
  fixes a b :: u32 and c d :: u64
  assumes "\<not> f_nan 23 a" "\<not> f_nan 23 b" "\<not> f_nan 52 c" "\<not> f_nan 52 d"
  shows "f_lt 23 a b \<longleftrightarrow> f_real 23 a < f_real 23 b" "f_le 23 a b \<longleftrightarrow> f_real 23 a \<le> f_real 23 b" "f_eq 23 a b \<longleftrightarrow> f_real 23 a = f_real 23 b"
    "f_lt 52 c d \<longleftrightarrow> f_real 52 c < f_real 52 d" "f_le 52 c d \<longleftrightarrow> f_real 52 c \<le> f_real 52 d" "f_eq 52 c d \<longleftrightarrow> f_real 52 c = f_real 52 d"
  using assms by (simp_all add: f_lt_def f_le_def f_eq_def f32.key_order f64.key_order)

end
