(* ===== verification/Spec2Isabelle.thy ===== *)
theory Spec2Isabelle
  imports Registry_Module Gc_Collect Exec_Memory Exec_Table Exec_Confine Exec_Refine Exec_Unwind Exec_Panic Const_Typed Instantiate_Frame Extern_Typed Linker Lower_Closed Ref_Host Rec_Group_Typed Simd_Wasm Simd_Lower Exec_Float
begin

text \<open>
  A verification of \<^verbatim>\<open>submilli-wasm\<close>, an embeddable WebAssembly interpreter written in Rust (sources under
  \<^verbatim>\<open>src/src/\<close>). An engine interns the types of all modules in a reference-counted registry; a module is compiled to
  an internal instruction set; a store owns the entities (functions, memories, tables, globals, instances), the
  managed heap and its collector; an execution is a pair of operand stacks and a frame stack, driven by a loop that
  calls host functions of the embedder and is re-entered by them. The modelled build is the default one: no
  \<^verbatim>\<open>async\<close>, no \<^verbatim>\<open>simd\<close>, a 64-bit target; the vector instructions are modelled beside it, as the \<^verbatim>\<open>simd\<close> build has them.

  \<^bold>\<open>Conventions.\<close> A fallible Rust function is an action \<open>state \<Rightarrow> (error + value) \<times> state\<close> (\<open>Trap_Error\<close>); a Rust panic is the
  error \<open>Panic\<close>, so that its absence can be stated; \<^verbatim>\<open>u32\<close>, \<^verbatim>\<open>u64\<close> values are words where bits or wrap-around matter and \<open>nat\<close> with the
  bound checked where the source uses checked or saturating arithmetic. Loops that may not end are partial functions whose
  value \<open>None\<close> is a run that does not return.

  \<^bold>\<open>Types.\<close>
  \<^item> \<open>Canon_Types\<close>, \<open>Layout\<close> (\<^verbatim>\<open>canon/mod.rs\<close>, \<^verbatim>\<open>canon/layout.rs\<close>): module types, public types, the packed layout of aggregates.
  \<^item> \<open>Canon_Keys\<close>, \<open>Registry\<close>, \<open>Registry_Inv\<close>, \<open>Registry_Client\<close>, \<open>Registry_Module\<close> (\<^verbatim>\<open>canon/keys.rs\<close>, \<^verbatim>\<open>canon/registry.rs\<close>): hash-consing of
    recursion groups, reference counts, cascading release, subtyping. Over every history of clients the counts are exact,
    a release never panics, nothing leaks, and interning is canonical; the subtype walk ends with the declared order where every
    group lists supertypes before subtypes, as those of validated modules do.
  \<^item> \<open>Rec_Group\<close>, \<open>Rec_Group_Typed\<close> (\<^verbatim>\<open>value/rec_group/\<close>): recursion groups declared by the embedder: handles of declared types, the nested builders,
    lowering with a table of external types, registration, validation of supertypes. A group is registered as declared; an accepted subtype
    shares the layout of its supertype's fields. The validation does not order supertypes: a type that is its own supertype is accepted, and the
    subtype walk then does not end.

  \<^bold>\<open>Values and the managed heap.\<close>
  \<^item> \<open>Values\<close>, \<open>Gc_Codec\<close>, \<open>Cells\<close> (\<^verbatim>\<open>value/val.rs\<close>, \<^verbatim>\<open>store/gc_codec.rs\<close>, \<^verbatim>\<open>exec/cell.rs\<close>): the three encodings of a value (public, packed
    body, operand cell) and their round trips.
  \<^item> \<open>Slot_Arena\<close>, \<open>Reclaim\<close>, \<open>Gc_Heap\<close> (\<^verbatim>\<open>store/reclaim.rs\<close>, \<^verbatim>\<open>store/gc.rs\<close>): slots with generations, byte budget, mark and sweep. The
    shared laws of the two arenas are a locale, interpreted on both. A handle is accepted exactly while its object lives.
  \<^item> \<open>Store_Entity\<close>, \<open>Store\<close>, \<open>Store_Managed\<close>, \<open>Gc_Collect\<close> (\<^verbatim>\<open>store/entity.rs\<close>, \<^verbatim>\<open>inner.rs\<close>, \<^verbatim>\<open>managed.rs\<close>, \<^verbatim>\<open>gc_collect.rs\<close>): the store and the
    collector: a collection keeps exactly what is reachable.
  \<^item> \<open>Store_Grow\<close> (\<^verbatim>\<open>store/grow.rs\<close>, \<^verbatim>\<open>store/limits.rs\<close>): growth under a resource limiter. The limiter is embedder code: a record of its
    callbacks is a parameter; the locale \<open>capping_limiter\<close> is what a bounding limiter promises, interpreted on \<^verbatim>\<open>StoreLimits\<close>.

  \<^bold>\<open>Compilation.\<close>
  \<^item> \<open>Lower\<close>, \<open>Lower_Control\<close> (\<^verbatim>\<open>module/compile/\<close>): the one-pass translation of a decoded function body: operand heights, reachability, the
    fusion of a comparison with the branch after it, blocks, branches whose targets are patched when the block closes, branch tables,
    landing pads of exception handlers, locals. The decoder and the validator are parameters.
  \<^item> \<open>Lower_Labels\<close>: a reference, an assembler with symbolic labels that links once at the end. \<open>Lower_Patch\<close>, \<open>Lower_Sim\<close>, \<open>Lower_Branch\<close>, \<open>Lower_Blocks\<close>,
    \<open>Lower_Equiv\<close>: the translator gives the code of the reference, error for error; at any time its patch lists are exactly the places that carry an
    unplaced label. \<open>Lower_Closed\<close>: compiled functions are closed, and the code compiled before them is left alone. The hypotheses are that blocks
    nest, which the reader and the validator enforce, and that the pool has fewer than \<open>2 ^ 31\<close> entries.

  \<^bold>\<open>Execution.\<close>
  \<^item> \<open>Code\<close>, \<open>Exec_Stack\<close>, \<open>Exec_Frames\<close>, \<open>Machine\<close> (\<^verbatim>\<open>module/op.rs\<close>, \<^verbatim>\<open>module/code.rs\<close>, \<^verbatim>\<open>exec/stack.rs\<close>, \<^verbatim>\<open>exec/frame.rs\<close>, \<^verbatim>\<open>exec/mod.rs\<close>): instructions, operand
    stack with its root shadow, frames, branches, returns, call boundaries, and the stack invariant \<open>stack_ok\<close>.
  \<^item> \<open>Exec_Memory\<close>, \<open>Exec_Table\<close>, \<open>Exec_Numeric\<close>, \<open>Exec_Gc\<close>, \<open>Exec_Cast\<close>, \<open>Exec_Reserve\<close>, \<open>Exec_Control\<close>, \<open>Exec_Step\<close> (the files of the same names under
    \<^verbatim>\<open>exec/\<close>; \<open>Exec_Reserve\<close> is \<^verbatim>\<open>collect.rs\<close> and \<^verbatim>\<open>gates.rs\<close>, \<open>Exec_Control\<close> is \<^verbatim>\<open>call.rs\<close> and \<^verbatim>\<open>exn.rs\<close>): the instruction handlers and their
    dispatch. Handlers are confined to what they may change; integer instructions equal the operators of the WebAssembly specification.
  \<^item> \<open>Ieee\<close>, \<open>Float_Ops\<close> (\<^verbatim>\<open>exec/arith.rs\<close>, \<^verbatim>\<open>convert.rs\<close>, \<^verbatim>\<open>numeric.rs\<close>): Rust's floats as bit patterns, and the float instructions. \<open>Ieee_Round\<close>, \<open>Ieee_Format\<close>,
    \<open>Ieee_Exact\<close>: the real value of a float, rounding to nearest, ties to even, as a locale over the two formats. \<open>Exec_Float\<close>: arithmetic is correctly rounded,
    conversions to integers are exact, traps included.
  \<^item> \<open>Value_Match\<close> (\<^verbatim>\<open>value_match.rs\<close>): the dynamic checks at the host boundary.
  \<^item> \<open>Exec_Host\<close>, \<open>Exec_Run\<close> (\<^verbatim>\<open>exec/host.rs\<close>, \<^verbatim>\<open>guard.rs\<close>, \<^verbatim>\<open>epoch.rs\<close>, \<^verbatim>\<open>exec/mod.rs\<close>): host calls, panic containment, epoch callbacks, the dispatch
    loop and the driver. The embedder's callbacks are a parameter, any function of the store.
  \<^item> \<open>Exec_Fuel\<close>: fuel decreases with every instruction and nothing else refills it, so a metered call returns.
  \<^item> \<open>Exec_Confine\<close>: every handler works inside its frame, so a nested call leaves the parked execution as it was. \<open>Exec_Panic\<close>: a panic in a
    callback discards the running call and gives the parked one back.
  \<^item> \<open>Exec_Refine\<close>: the loop implements a specification machine on typed locals and operands. \<open>Exec_Unwind\<close>: exceptions reach the
    handler that an abstract search over the frames names.

  \<^bold>\<open>Vector instructions.\<close>
  \<^item> \<open>Simd\<close> (\<^verbatim>\<open>exec/simd/\<close>, \<^verbatim>\<open>module/op_simd.rs\<close>): operand cells of 16 bytes, lanes, the lanewise combinators and the handlers. Float lanes are
    the floats of \<open>Ieee\<close>. \<open>Simd_Lanes\<close>: splitting and joining lanes; the locale \<open>lane_shape\<close> is what a shape promises, interpreted on the four integer shapes.
  \<^item> \<open>Simd_Exact\<close>, \<open>Simd_Wasm\<close>: the operators of the WebAssembly specification on integers, a table of them for the 132 integer instructions, and that the
    handlers compute it; the locale \<open>lane_widen\<close> relates a shape and the next wider one.
  \<^item> \<open>Simd_Lower\<close> (\<^verbatim>\<open>module/compile/visit_simd.rs\<close>): the translation of the vector operators. The heights it tracks are those the handlers produce. The
    constructor that embeds a vector instruction in the instruction set is a parameter, since the instruction type is that of the build without the feature.

  \<^bold>\<open>The embedder's side.\<close>
  \<^item> \<open>Const_Eval\<close>, \<open>Const_Typed\<close> (\<^verbatim>\<open>instance/const_eval.rs\<close>): constant expressions. An initializer that validation accepts never goes wrong.
  \<^item> \<open>Instantiate\<close>, \<open>Instantiate_Frame\<close> (\<^verbatim>\<open>instance/init.rs\<close>): import checks, allocation, segments. An instantiation touches nothing but what the
    module imports, even if it fails half way.
  \<^item> \<open>Func_Call\<close> (\<^verbatim>\<open>func/mod.rs\<close>, \<^verbatim>\<open>func/direct_call.rs\<close>): calls from the embedder, of guest and of host functions.
  \<^item> \<open>Extern_Api\<close>, \<open>Extern_Typed\<close> (\<^verbatim>\<open>extern_.rs\<close>, \<^verbatim>\<open>store/mod.rs\<close>): the operations on memories, globals, tables, tags and the store. Every sequence of
    them keeps the store typed.
  \<^item> \<open>Gc_Host\<close>, \<open>Gc_Host_Build\<close>, \<open>Gc_Host_Write\<close> (\<^verbatim>\<open>value/gc_aggregate.rs\<close>): structs and arrays allocated, read and written by the embedder, with the packed
    slices. The fast constructors build what the element-wise one builds; what is passed in is what a handle reads; a write changes exactly its range.
  \<^item> \<open>Ref_Host\<close> (\<^verbatim>\<open>value/gc_ref.rs\<close>, \<^verbatim>\<open>value/exn_ref.rs\<close>): identity and liveness of handles, root scopes, externrefs, downcasts, exceptions built by the embedder.
  \<^item> \<open>Linker\<close> (\<^verbatim>\<open>instance/mod.rs\<close>, \<^verbatim>\<open>linker.rs\<close>): instances, their exports, and linking by name, which is stable.

  \<^bold>\<open>Bounds.\<close> The release cascade is a total function whose termination is proved; the trace of the collector is total with the unmarked
  slots as measure. The subtype walk is partial, and shown to return for ordered groups. The unwinder's recursion takes the number of frames as fuel and pops one per
  round, so it never runs out. Constant expressions nest through element segments; the depth of the native stack is a parameter, and an
  accepted expression needs none of it. The dispatch loop and the driver have no fuel: not returning is the value \<open>None\<close>.

  \<^bold>\<open>Not modelled.\<close> The payload Rust leaves open in a NaN result (the first NaN operand, quieted, is taken); validation and decoding of the binary format (a third-party
  package) and the section reader over it; the statically typed wrappers of the public API; the checks that
  reject types of another engine (one engine is modelled); asynchronous host functions and cancellation; backtraces, debug information and the text of error messages; locks.
\<close>

end
